(* ===== verification/Prelude.thy ===== *)
theory Prelude
  imports Main "HOL-Library.Word"
begin

unbundle bit_operations_syntax

text \<open>
  What every component shares: the machine types (the code's \<^verbatim>\<open>uint8_t\<close>, \<^verbatim>\<open>uint16_t\<close>,
  \<^verbatim>\<open>size_t\<close>), packed structures as lists of bytes, the idiom
  \<^verbatim>\<open>if(value) x |= M; else x &= ~M;\<close> by which all the wire formats set a flag, and the facts
  on bits that the round-trip proofs are made of.  Equality of bytes and of 16-bit words is
  reduced to equality of their bits at literal positions (\<open>u8_eqI\<close>, \<open>u16_eqI\<close>), which the
  simplifier decides with the library's \<open>bit_simps\<close>.
\<close>

type_synonym u8 = "8 word"
type_synonym u16 = "16 word"
type_synonym u32 = "32 word"
type_synonym usize = "64 word"
type_synonym bytes = "u8 list"

named_theorems flag_simps \<open>facts on setting and testing flags of a byte\<close>
named_theorems checksum_simps \<open>facts on checksums\<close>

section \<open>Flags\<close>

definition setFlag :: "'a::len word \<Rightarrow> 'a word \<Rightarrow> bool \<Rightarrow> 'a word" where
  "setFlag b m v = (if v then b OR m else b AND NOT m)"

definition testFlag :: "'a::len word \<Rightarrow> 'a word \<Rightarrow> bool" where
  "testFlag b m = (b AND m \<noteq> 0)"

text \<open>The other idiom, of the constructors: \<^verbatim>\<open>if(value) x |= M;\<close>\<close>

definition orFlag :: "'a::len word \<Rightarrow> 'a word \<Rightarrow> bool \<Rightarrow> 'a word" where
  "orFlag b m v = (if v then b OR m else b)"

lemma bit_setFlag [flag_simps]:
  "bit (setFlag b m v) n = (if bit m n then v else bit b n)"
  by (auto simp: setFlag_def bit_simps dest: bit_imp_le_length)

lemma bit_orFlag [flag_simps]: "bit (orFlag b m v) n = (bit b n \<or> v \<and> bit m n)"
  by (auto simp: orFlag_def bit_simps)

lemma testFlag_bit: "testFlag b m \<longleftrightarrow> (\<exists>n. bit b n \<and> bit m n)"
proof
  assume *: "testFlag b m"
  show "\<exists>n. bit b n \<and> bit m n"
  proof (rule ccontr)
    assume "\<nexists>n. bit b n \<and> bit m n"
    then have "b AND m = 0"
      by (intro bit_eqI) (auto simp: bit_and_iff)
    with * show False by (simp add: testFlag_def)
  qed
next
  assume "\<exists>n. bit b n \<and> bit m n"
  then obtain n where "bit (b AND m) n" by (auto simp: bit_and_iff)
  then show "testFlag b m" by (auto simp: testFlag_def)
qed

lemma testFlag_exp [flag_simps]:
  assumes "n < LENGTH('a)"
  shows "testFlag (b :: 'a::len word) (2 ^ n) = bit b n"
  using assms by (auto simp: testFlag_bit bit_simps)

text \<open>A setter is read back by its own test and leaves the other flags alone.\<close>

lemma testFlag_setFlag_same [flag_simps]: "m \<noteq> 0 \<Longrightarrow> testFlag (setFlag b m v) m = v"
  by (auto simp: testFlag_bit bit_setFlag bit_eq_iff)

lemma testFlag_setFlag_other [flag_simps]:
  assumes "m AND k = 0"
  shows "testFlag (setFlag b m v) k = testFlag b k"
proof -
  have "\<not> (bit m n \<and> bit k n)" for n
    using arg_cong [OF assms, of "\<lambda>w. bit w n"] by (simp add: bit_simps)
  then show ?thesis by (auto simp: testFlag_bit bit_setFlag)
qed

lemma testFlag_orFlag_other [flag_simps]:
  assumes "m AND k = 0"
  shows "testFlag (orFlag b m v) k = testFlag b k"
proof -
  have "\<not> (bit m n \<and> bit k n)" for n
    using arg_cong [OF assms, of "\<lambda>w. bit w n"] by (simp add: bit_simps)
  then show ?thesis by (auto simp: testFlag_bit bit_orFlag)
qed

lemma testFlag_orFlag_same [flag_simps]:
  "m \<noteq> 0 \<Longrightarrow> b AND m = 0 \<Longrightarrow> testFlag (orFlag b m v) m = v"
  by (simp add: orFlag_def testFlag_def bit.conj_disj_distrib2)

section \<open>Words by their bits\<close>

lemma bit_beyond [simp]: "LENGTH('a) \<le> n \<Longrightarrow> \<not> bit (a :: 'a::len word) n"
  using bit_imp_le_length [of a n] by auto

lemma u8_eqI:
  fixes a b :: u8
  assumes "bit a 0 = bit b 0" "bit a 1 = bit b 1" "bit a 2 = bit b 2" "bit a 3 = bit b 3"
    "bit a 4 = bit b 4" "bit a 5 = bit b 5" "bit a 6 = bit b 6" "bit a 7 = bit b 7"
  shows "a = b"
proof (rule bit_word_eqI)
  fix n :: nat
  assume "n < LENGTH(8)"
  then have "n \<in> {0, 1, 2, 3, 4, 5, 6, 7}" by simp presburger
  then show "bit a n = bit b n" using assms by auto
qed

lemma u16_eqI:
  fixes a b :: u16
  assumes "bit a 0 = bit b 0" "bit a 1 = bit b 1" "bit a 2 = bit b 2" "bit a 3 = bit b 3"
    "bit a 4 = bit b 4" "bit a 5 = bit b 5" "bit a 6 = bit b 6" "bit a 7 = bit b 7"
    "bit a 8 = bit b 8" "bit a 9 = bit b 9" "bit a 10 = bit b 10" "bit a 11 = bit b 11"
    "bit a 12 = bit b 12" "bit a 13 = bit b 13" "bit a 14 = bit b 14" "bit a 15 = bit b 15"
  shows "a = b"
proof (rule bit_word_eqI)
  fix n :: nat
  assume "n < LENGTH(16)"
  then have "n \<in> {0, 1, 2, 3, 4, 5, 6, 7, 8, 9, 10, 11, 12, 13, 14, 15}" by simp presburger
  then show "bit a n = bit b n" using assms by auto
qed

text \<open>Single-bit masks and the flags they test.\<close>

lemma testFlag_u8 [flag_simps]:
  fixes b :: u8
  shows "testFlag b 0x01 = bit b 0" "testFlag b 0x02 = bit b 1" "testFlag b 0x04 = bit b 2"
    "testFlag b 0x08 = bit b 3" "testFlag b 0x10 = bit b 4" "testFlag b 0x20 = bit b 5"
    "testFlag b 0x40 = bit b 6" "testFlag b 0x80 = bit b 7"
  using testFlag_exp [of 0 b] testFlag_exp [of 1 b] testFlag_exp [of 2 b] testFlag_exp [of 3 b]
    testFlag_exp [of 4 b] testFlag_exp [of 5 b] testFlag_exp [of 6 b] testFlag_exp [of 7 b]
  by simp_all

text \<open>The simplifier writes a shift by one as a multiplication.\<close>

lemma bit_mult_2 [flag_simps]:
  "bit ((a :: 'a::len word) * 2) n \<longleftrightarrow> n \<noteq> 0 \<and> n < LENGTH('a) \<and> bit a (n - 1)"
  using bit_double_iff [of a n] by (auto simp: mult.commute)

text \<open>The bits of the masks of lower bits.\<close>

lemma mask_bits_u8:
  "bit (0x7F :: u8) i \<longleftrightarrow> i < 7" "bit (0x3F :: u8) i \<longleftrightarrow> i < 6" "bit (0x1F :: u8) i \<longleftrightarrow> i < 5"
  "bit (0x0F :: u8) i \<longleftrightarrow> i < 4" "bit (0x80 :: u8) i \<longleftrightarrow> i = 7"
proof -
  have "i \<ge> 8 \<or> i = 0 \<or> i = 1 \<or> i = 2 \<or> i = 3 \<or> i = 4 \<or> i = 5 \<or> i = 6 \<or> i = 7" by arith
  then show "bit (0x7F :: u8) i \<longleftrightarrow> i < 7" "bit (0x3F :: u8) i \<longleftrightarrow> i < 6" "bit (0x1F :: u8) i \<longleftrightarrow> i < 5"
    "bit (0x0F :: u8) i \<longleftrightarrow> i < 4" "bit (0x80 :: u8) i \<longleftrightarrow> i = 7"
    by auto
qed

lemma below_cases:
  "(n :: nat) < 3 \<Longrightarrow> n = 0 \<or> n = 1 \<or> n = 2"
  "(n :: nat) \<le> 4 \<Longrightarrow> n = 0 \<or> n = 1 \<or> n = 2 \<or> n = 3 \<or> n = 4"
  "5 \<le> n \<Longrightarrow> (n :: nat) \<le> 8 \<Longrightarrow> n = 5 \<or> n = 6 \<or> n = 7 \<or> n = 8"
  "9 \<le> n \<Longrightarrow> (n :: nat) \<le> 12 \<Longrightarrow> n = 9 \<or> n = 10 \<or> n = 11 \<or> n = 12"
  "13 \<le> n \<Longrightarrow> (n :: nat) \<le> 19 \<Longrightarrow> n = 13 \<or> n = 14 \<or> n = 15 \<or> n = 16 \<or> n = 17 \<or> n = 18 \<or> n = 19"
  "13 \<le> n \<Longrightarrow> (n :: nat) \<le> 20 \<Longrightarrow>
    n = 13 \<or> n = 14 \<or> n = 15 \<or> n = 16 \<or> n = 17 \<or> n = 18 \<or> n = 19 \<or> n = 20"
  "21 \<le> n \<Longrightarrow> (n :: nat) \<le> 27 \<Longrightarrow> n = 21 \<or> n = 22 \<or> n = 23 \<or> n = 24 \<or> n = 25 \<or> n = 26 \<or> n = 27"
  "21 \<le> n \<Longrightarrow> (n :: nat) \<le> 28 \<Longrightarrow>
    n = 21 \<or> n = 22 \<or> n = 23 \<or> n = 24 \<or> n = 25 \<or> n = 26 \<or> n = 27 \<or> n = 28"
  by presburger+

text \<open>A bound on a word, as a fact on its upper bits.\<close>

lemma bit_above_bound:
  fixes a :: "'a::len word"
  assumes "unat a < 2 ^ n" and "n \<le> k"
  shows "\<not> bit a k"
proof -
  have "take_bit n (unat a) = unat a"
    using assms(1) by (simp add: take_bit_nat_eq_self_iff)
  then have "bit (unat a) k \<Longrightarrow> k < n"
    by (metis bit_take_bit_iff)
  with assms(2) show ?thesis
    by (auto simp: bit_unsigned_iff)
qed

lemma bound_of_bits:
  fixes a :: "'a::len word"
  assumes "\<And>k. n \<le> k \<Longrightarrow> \<not> bit a k"
  shows "unat a < 2 ^ n"
proof -
  have "take_bit n a = a"
    using assms by (intro bit_eqI) (auto simp: bit_take_bit_iff simp flip: not_less)
  then have "take_bit n (unat a) = unat a"
    by (metis unsigned_take_bit_eq)
  then show ?thesis by (simp add: take_bit_nat_eq_self_iff)
qed

lemma u16_upper_bits:
  fixes a :: u16
  shows "unat a < 4096 \<Longrightarrow> \<not> bit a 12 \<and> \<not> bit a 13 \<and> \<not> bit a 14 \<and> \<not> bit a 15"
    and "unat a < 2048 \<Longrightarrow> \<not> bit a 11 \<and> \<not> bit a 12 \<and> \<not> bit a 13 \<and> \<not> bit a 14 \<and> \<not> bit a 15"
    and "unat a < 16384 \<Longrightarrow> \<not> bit a 14 \<and> \<not> bit a 15"
    and "unat a < 128 \<Longrightarrow> \<not> bit a 7 \<and> \<not> bit a 8 \<and> \<not> bit a 9 \<and> \<not> bit a 10 \<and> \<not> bit a 11
      \<and> \<not> bit a 12 \<and> \<not> bit a 13 \<and> \<not> bit a 14 \<and> \<not> bit a 15"
  using bit_above_bound [of a 12] bit_above_bound [of a 11] bit_above_bound [of a 14]
    bit_above_bound [of a 7] by simp_all

lemma msb_clear_bit7: "(b :: u8) AND 0x80 = 0 \<longleftrightarrow> \<not> bit b 7"
proof
  assume "b AND 0x80 = 0"
  then have "bit (b AND 0x80) 7 = bit (0 :: u8) 7" by simp
  then show "\<not> bit b 7" by (simp add: bit_simps)
next
  assume "\<not> bit b 7"
  then show "b AND 0x80 = 0" by (intro u8_eqI) (simp_all add: bit_simps)
qed

lemma u8_below_128: "unat (b :: u8) < 128 \<longleftrightarrow> \<not> bit b 7"
proof
  assume "unat b < 128"
  then show "\<not> bit b 7" using bit_above_bound [of b 7 7] by simp
next
  assume *: "\<not> bit b 7"
  have "unat b < 2 ^ 7"
  proof (rule bound_of_bits)
    fix k :: nat
    assume "7 \<le> k"
    then show "\<not> bit b k" using * by (cases "k = 7") auto
  qed
  then show "unat b < 128" by simp
qed

section \<open>Folding exclusive or over bytes\<close>

definition xorAll :: "u8 \<Rightarrow> bytes \<Rightarrow> u8" where
  "xorAll a m = foldl (XOR) a m"

lemma xorAll_simps [simp]:
  "xorAll a [] = a"
  "xorAll a (b # m) = xorAll (a XOR b) m"
  by (simp_all add: xorAll_def)

lemma xorAll_append [simp]: "xorAll a (m @ r) = xorAll (xorAll a m) r"
  by (simp add: xorAll_def)

lemma xorAll_start: "xorAll (a XOR b) m = xorAll a m XOR b"
  by (induction m arbitrary: a) (simp_all add: xor.assoc xor.commute xor.left_commute, metis xor.assoc xor.commute)

text \<open>Changing one byte changes the sum by the difference of the two bytes.\<close>

lemma xorAll_update:
  assumes "i < length m"
  shows "xorAll a (m[i := b]) = xorAll a m XOR (m ! i XOR b)"
  using assms
proof (induction m arbitrary: a i)
  case Nil
  then show ?case by simp
next
  case (Cons c m)
  show ?case
  proof (cases i)
    case 0
    have "xorAll (a XOR b) m = xorAll ((a XOR c) XOR (c XOR b)) m"
      by (simp add: xor.assoc xor.left_commute)
    also have "\<dots> = xorAll (a XOR c) m XOR (c XOR b)"
      by (rule xorAll_start)
    finally show ?thesis using 0 by simp
  next
    case (Suc j)
    then show ?thesis using Cons by simp
  qed
qed

lemma xor_eq_0_iff: "(a :: 'a::len word) XOR b = 0 \<longleftrightarrow> a = b"
proof
  assume "a XOR b = 0"
  then have "(a XOR b) XOR b = b" by simp
  then show "a = b" by (simp add: xor.assoc)
qed simp

section \<open>Lists\<close>

lemma length_eq_Suc_nth: "length xs = Suc n \<Longrightarrow> xs = xs ! 0 # drop 1 xs"
  by (cases xs) auto

lemma take_append_same [simp]: "n = length xs \<Longrightarrow> take n (xs @ ys) = xs"
  by simp

end
