(* ===== verification/Enums.thy ===== *)
theory Enums
  imports Prelude
begin

text \<open>
  The shared enumerations of \<^verbatim>\<open>shared/src/traintastic/enum\<close> and the small value types that the
  protocol kernels pass around: three-valued logic (\<^verbatim>\<open>tristate.hpp\<close>), driving direction
  (\<^verbatim>\<open>direction.hpp\<close>), the value of an output pair (\<^verbatim>\<open>outputpairvalue.hpp\<close>), the change
  flags of a decoder (\<^verbatim>\<open>decoderchangeflags.hpp\<close>) and the split of 16-bit values into bytes
  (\<^verbatim>\<open>utils/byte.hpp\<close>).
\<close>

section \<open>Three-valued logic\<close>

datatype TriState = TriUndefined | TriFalse | TriTrue

definition toTriState :: "bool \<Rightarrow> TriState" where
  "toTriState value = (if value then TriTrue else TriFalse)"

fun tri_not :: "TriState \<Rightarrow> TriState" where
  "tri_not TriFalse = TriTrue"
| "tri_not TriTrue = TriFalse"
| "tri_not _ = TriUndefined"

definition tri_or :: "TriState \<Rightarrow> TriState \<Rightarrow> TriState" where
  "tri_or lhs rhs =
    (if lhs = TriTrue \<or> rhs = TriTrue then TriTrue
     else if lhs = TriFalse \<and> rhs = TriFalse then TriFalse
     else TriUndefined)"

definition tri_and :: "TriState \<Rightarrow> TriState \<Rightarrow> TriState" where
  "tri_and lhs rhs =
    (if lhs = TriFalse \<or> rhs = TriFalse then TriFalse
     else if lhs = TriTrue \<and> rhs = TriTrue then TriTrue
     else TriUndefined)"

definition tri_xor :: "TriState \<Rightarrow> TriState \<Rightarrow> TriState" where
  "tri_xor lhs shr =
    (if lhs = TriUndefined \<or> shr = TriUndefined then TriUndefined
     else if lhs = shr then TriFalse else TriTrue)"

text \<open>\<^verbatim>\<open>operator !=(TriState, bool)\<close>: an undefined value differs from both booleans.\<close>

definition tri_ne_bool :: "TriState \<Rightarrow> bool \<Rightarrow> bool" where
  "tri_ne_bool lhs shr = (lhs \<noteq> toTriState shr)"

lemma toTriState_eq_iff [simp]: "toTriState a = toTriState b \<longleftrightarrow> a = b"
  by (simp add: toTriState_def)

lemma toTriState_defined [simp]: "toTriState a \<noteq> TriUndefined"
  by (simp add: toTriState_def)

lemma toTriState_simps [simp]:
  "toTriState True = TriTrue" "toTriState False = TriFalse"
  "toTriState b = TriTrue \<longleftrightarrow> b" "toTriState b = TriFalse \<longleftrightarrow> \<not> b"
  by (simp_all add: toTriState_def)

text \<open>On defined values the operators are the boolean ones.\<close>

lemma tri_ops_toTriState:
  "tri_not (toTriState a) = toTriState (\<not> a)"
  "tri_or (toTriState a) (toTriState b) = toTriState (a \<or> b)"
  "tri_and (toTriState a) (toTriState b) = toTriState (a \<and> b)"
  "tri_xor (toTriState a) (toTriState b) = toTriState (a \<noteq> b)"
  by (auto simp: toTriState_def tri_or_def tri_and_def tri_xor_def)

lemma tri_not_not: "tri_not (tri_not a) = a"
  by (cases a) simp_all

lemma tri_de_morgan: "tri_not (tri_and a b) = tri_or (tri_not a) (tri_not b)"
  by (cases a; cases b) (simp_all add: tri_and_def tri_or_def)

section \<open>Direction, output pairs\<close>

datatype Direction = DirForward | DirReverse | DirUnknown

datatype OutputPairValue = OutUndefined | OutFirst | OutSecond

datatype SimulateInputAction = SimSetFalse | SimSetTrue | SimToggle

section \<open>Decoder change flags\<close>

abbreviation (input) "chEmergencyStop \<equiv> (0x01 :: u8)"
abbreviation (input) "chDirection \<equiv> (0x02 :: u8)"
abbreviation (input) "chThrottle \<equiv> (0x04 :: u8)"
abbreviation (input) "chSpeedSteps \<equiv> (0x08 :: u8)"
abbreviation (input) "chFunctionValue \<equiv> (0x10 :: u8)"
abbreviation (input) "chFunctionMomentary \<equiv> (0x20 :: u8)"

definition has_change :: "u8 \<Rightarrow> u8 \<Rightarrow> bool" where
  "has_change value msk = (value AND msk \<noteq> 0)"

section \<open>Bytes of 16-bit values\<close>

definition high8 :: "u16 \<Rightarrow> u8" where
  "high8 value = ucast (drop_bit 8 value)"

definition low8 :: "u16 \<Rightarrow> u8" where
  "low8 value = ucast (value AND 0xFF)"

definition to16 :: "u8 \<Rightarrow> u8 \<Rightarrow> u16" where
  "to16 valueLow valueHigh = push_bit 8 (ucast valueHigh) OR ucast valueLow"

lemma to16_low_high [simp]: "to16 (low8 v) (high8 v) = v"
  by (intro u16_eqI) (simp_all add: to16_def low8_def high8_def bit_simps)

lemma low8_to16 [simp]: "low8 (to16 l h) = l"
  by (intro u8_eqI) (simp_all add: to16_def low8_def bit_simps)

lemma high8_to16 [simp]: "high8 (to16 l h) = h"
  by (intro u8_eqI) (simp_all add: to16_def high8_def bit_simps)

lemma to16_eq_iff [simp]: "to16 a b = to16 c d \<longleftrightarrow> a = c \<and> b = d"
  by (metis high8_to16 low8_to16)

section \<open>Outputs\<close>

datatype OutputChannel = Ch_Output | Ch_Accessory | Ch_AccessoryDCC | Ch_AccessoryMotorola | Ch_DCCext
  | Ch_Turnout | Ch_ECoSObject

datatype OutputValue = OV_TriState TriState | OV_Pair OutputPairValue | OV_uint8 u8 | OV_int16 "16 word"

end
