(* ===== verification/LocoNet_Wire.thy ===== *)
theory LocoNet_Wire
  imports Enums
begin

text \<open>
  The framing of LocoNet messages: opcodes (\<^verbatim>\<open>loconet/opcode.hpp\<close>), the length that the opcode
  or the second byte gives (\<^verbatim>\<open>message/message.hpp\<close>), the checksum (\<^verbatim>\<open>checksum.cpp\<close>), validity
  (\<^verbatim>\<open>messages.cpp\<close>) and signature matching (\<^verbatim>\<open>signature.hpp\<close>).  The code casts every message
  struct to its bytes and back (\<^verbatim>\<open>reinterpret_cast\<close>), so a message is the list of its bytes,
  and a field of a struct is the byte at its offset.
\<close>

section \<open>Opcodes\<close>

abbreviation (input) "OPC_BUSY \<equiv> (0x81 :: u8)"
abbreviation (input) "OPC_GPOFF \<equiv> (0x82 :: u8)"
abbreviation (input) "OPC_GPON \<equiv> (0x83 :: u8)"
abbreviation (input) "OPC_IDLE \<equiv> (0x85 :: u8)"
abbreviation (input) "OPC_LOCO_SPD \<equiv> (0xA0 :: u8)"
abbreviation (input) "OPC_LOCO_DIRF \<equiv> (0xA1 :: u8)"
abbreviation (input) "OPC_LOCO_SND \<equiv> (0xA2 :: u8)"
abbreviation (input) "OPC_LOCO_F9F12 \<equiv> (0xA3 :: u8)"
abbreviation (input) "OPC_SW_REQ \<equiv> (0xB0 :: u8)"
abbreviation (input) "OPC_SW_REP \<equiv> (0xB1 :: u8)"
abbreviation (input) "OPC_INPUT_REP \<equiv> (0xB2 :: u8)"
abbreviation (input) "OPC_LONG_ACK \<equiv> (0xB4 :: u8)"
abbreviation (input) "OPC_SLOT_STAT1 \<equiv> (0xB5 :: u8)"
abbreviation (input) "OPC_CONSIST_FUNC \<equiv> (0xB6 :: u8)"
abbreviation (input) "OPC_UNLINK_SLOTS \<equiv> (0xB8 :: u8)"
abbreviation (input) "OPC_LINK_SLOTS \<equiv> (0xB9 :: u8)"
abbreviation (input) "OPC_MOVE_SLOTS \<equiv> (0xBA :: u8)"
abbreviation (input) "OPC_RQ_SL_DATA \<equiv> (0xBB :: u8)"
abbreviation (input) "OPC_SW_STATE \<equiv> (0xBC :: u8)"
abbreviation (input) "OPC_SW_ACK \<equiv> (0xBD :: u8)"
abbreviation (input) "OPC_LOCO_ADR \<equiv> (0xBF :: u8)"
abbreviation (input) "OPC_MULTI_SENSE \<equiv> (0xD0 :: u8)"
abbreviation (input) "OPC_D4 \<equiv> (0xD4 :: u8)"
abbreviation (input) "OPC_MULTI_SENSE_LONG \<equiv> (0xE0 :: u8)"
abbreviation (input) "OPC_E4 \<equiv> (0xE4 :: u8)"
abbreviation (input) "OPC_PEER_XFER \<equiv> (0xE5 :: u8)"
abbreviation (input) "OPC_SL_RD_DATA \<equiv> (0xE7 :: u8)"
abbreviation (input) "OPC_IMM_PACKET \<equiv> (0xED :: u8)"
abbreviation (input) "OPC_WR_SL_DATA \<equiv> (0xEF :: u8)"

abbreviation (input) opCode :: "bytes \<Rightarrow> u8" where
  "opCode m \<equiv> m ! 0"

text \<open>The enumerators of \<^verbatim>\<open>OpCode\<close>, the case labels of the code's switches.\<close>

definition opCodes :: "u8 list" where
  "opCodes =
    [OPC_BUSY, OPC_GPOFF, OPC_GPON, OPC_IDLE,
     OPC_LOCO_SPD, OPC_LOCO_DIRF, OPC_LOCO_SND, OPC_LOCO_F9F12, OPC_SW_REQ, OPC_SW_REP,
     OPC_INPUT_REP, OPC_LONG_ACK, OPC_SLOT_STAT1, OPC_CONSIST_FUNC, OPC_UNLINK_SLOTS,
     OPC_LINK_SLOTS, OPC_MOVE_SLOTS, OPC_RQ_SL_DATA, OPC_SW_STATE, OPC_SW_ACK, OPC_LOCO_ADR,
     OPC_MULTI_SENSE, OPC_D4,
     OPC_MULTI_SENSE_LONG, OPC_E4, OPC_PEER_XFER, OPC_SL_RD_DATA, OPC_IMM_PACKET, OPC_WR_SL_DATA]"

section \<open>Length\<close>

definition msg_size :: "bytes \<Rightarrow> nat" where
  "msg_size m =
    (let c = opCode m AND 0xE0 in
     if c = 0x80 then 2
     else if c = 0xA0 then 4
     else if c = 0xC0 then 6
     else if c = 0xE0 then unat (m ! 1)
     else 0)"

text \<open>
  A span of bytes that is exactly one message.  (The size of a message of variable length is
  in its second byte, so two bytes are needed to tell.)
\<close>

definition framed :: "bytes \<Rightarrow> bool" where
  "framed m \<longleftrightarrow> 2 \<le> length m \<and> length m = msg_size m"

lemma msg_size_le_255: "msg_size m \<le> 255"
proof -
  have "unat (m ! 1) < 2 ^ LENGTH(8)" by (rule unsigned_less)
  then show ?thesis by (simp add: msg_size_def Let_def)
qed

lemma msg_size_cong:
  assumes "m ! 0 = m' ! 0" and "m ! 1 = m' ! 1"
  shows "msg_size m = msg_size m'"
  using assms by (simp add: msg_size_def Let_def)

lemma msg_size_append: "2 \<le> length m \<Longrightarrow> msg_size (m @ r) = msg_size m"
  by (rule msg_size_cong) (auto simp: nth_append)

lemma msg_size_update: "1 < i \<Longrightarrow> msg_size (m[i := b]) = msg_size m"
  by (rule msg_size_cong) simp_all

section \<open>Checksum\<close>

definition calcChecksum :: "bytes \<Rightarrow> u8" where
  "calcChecksum m = xorAll 0xFF (take (msg_size m - 1) m)"

definition updateChecksum :: "bytes \<Rightarrow> bytes" where
  "updateChecksum m = m[msg_size m - 1 := calcChecksum m]"

definition isChecksumValid :: "bytes \<Rightarrow> bool" where
  "isChecksumValid m \<longleftrightarrow> calcChecksum m = m ! (msg_size m - 1)"

text \<open>A constructor fills in the fields, then \<^verbatim>\<open>checksum = calcChecksum(*this)\<close>.\<close>

definition seal :: "bytes \<Rightarrow> bytes" where
  "seal body = body @ [calcChecksum body]"

lemma calcChecksum_cong:
  assumes "msg_size m = msg_size m'" and "take (msg_size m - 1) m = take (msg_size m - 1) m'"
  shows "calcChecksum m = calcChecksum m'"
  using assms by (simp add: calcChecksum_def)

text \<open>The checksum is right exactly when all bytes of the message sum up to 0xFF.\<close>

lemma isChecksumValid_iff_xorAll [checksum_simps]:
  assumes "framed m"
  shows "isChecksumValid m \<longleftrightarrow> xorAll 0xFF m = 0"
proof -
  let ?n = "msg_size m - 1"
  have n: "length m = Suc ?n" using assms by (auto simp: framed_def)
  then have "m = take ?n m @ [m ! ?n]"
    by (metis lessI take_Suc_conv_app_nth take_all_iff order_refl)
  then have "xorAll 0xFF m = xorAll 0xFF (take ?n m) XOR m ! ?n"
    by (metis xorAll_append xorAll_simps)
  then show ?thesis
    by (simp add: isChecksumValid_def calcChecksum_def xor_eq_0_iff)
qed

lemma framed_seal:
  assumes "2 \<le> length body" and "msg_size body = Suc (length body)"
  shows "framed (seal body)"
  using assms by (simp add: framed_def seal_def msg_size_append)

lemma isChecksumValid_seal [checksum_simps]:
  assumes "2 \<le> length body" and "msg_size body = Suc (length body)"
  shows "isChecksumValid (seal body)"
  using assms
  by (simp add: isChecksumValid_def seal_def msg_size_append nth_append calcChecksum_def)

lemma framed_updateChecksum [simp]: "framed m \<Longrightarrow> 3 \<le> length m \<Longrightarrow> framed (updateChecksum m)"
  by (auto simp: framed_def updateChecksum_def msg_size_update)

lemma isChecksumValid_updateChecksum [checksum_simps]:
  assumes "framed m" and "3 \<le> length m"
  shows "isChecksumValid (updateChecksum m)"
proof -
  let ?n = "msg_size m - 1"
  have n: "?n < length m" "1 < ?n" using assms by (auto simp: framed_def)
  then have s: "msg_size (updateChecksum m) = msg_size m"
    by (simp add: updateChecksum_def msg_size_update)
  have "calcChecksum (updateChecksum m) = calcChecksum m"
    by (simp add: calcChecksum_def s) (simp add: updateChecksum_def)
  with n s show ?thesis by (simp add: isChecksumValid_def updateChecksum_def)
qed

section \<open>Validity\<close>

definition isValid :: "bytes \<Rightarrow> bool" where
  "isValid m \<longleftrightarrow>
    (let size = msg_size m in
     if size = 0 \<or> \<not> isChecksumValid m then False
     else \<forall>i \<in> set [1..<size]. (m ! i) AND 0x80 = 0)"

text \<open>The data bytes of a message, all but the opcode, have bit 7 clear.\<close>

definition low7 :: "bytes \<Rightarrow> bool" where
  "low7 bs \<longleftrightarrow> list_all (\<lambda>b. \<not> bit b 7) bs"

lemma low7_simps [simp]:
  "low7 []" "low7 (b # bs) \<longleftrightarrow> \<not> bit b 7 \<and> low7 bs" "low7 (bs @ cs) \<longleftrightarrow> low7 bs \<and> low7 cs"
  by (simp_all add: low7_def)

lemma low7_nth: "low7 bs \<longleftrightarrow> (\<forall>i < length bs. \<not> bit (bs ! i) 7)"
  by (simp add: low7_def list_all_length)

lemma low7_update: "low7 bs \<Longrightarrow> \<not> bit b 7 \<Longrightarrow> low7 (bs[i := b])"
  by (cases "i < length bs") (auto simp: low7_nth nth_list_update)

lemma bit7_xorAll: "low7 bs \<Longrightarrow> bit (xorAll a bs) 7 = bit a 7"
  by (induction bs arbitrary: a) (simp_all add: bit_simps)

lemma isValid_iff:
  assumes "framed m"
  shows "isValid m \<longleftrightarrow> xorAll 0xFF m = 0 \<and> low7 (tl m)"
proof -
  from assms have sz: "msg_size m = length m" "2 \<le> length m" by (auto simp: framed_def)
  have "(\<forall>i \<in> set [1..<msg_size m]. (m ! i) AND 0x80 = 0) \<longleftrightarrow> low7 (tl m)"
    unfolding low7_nth msb_clear_bit7 sz
  proof safe
    fix i
    assume "\<forall>i \<in> set [1..<length m]. \<not> bit (m ! i) 7" "i < length (tl m)" "bit (tl m ! i) 7"
    then show False by (auto simp: nth_tl dest: bspec [of _ _ "Suc i"])
  next
    fix i
    assume "\<forall>i < length (tl m). \<not> bit (tl m ! i) 7" "i \<in> set [1..<length m]" "bit (m ! i) 7"
    then show False by (auto simp: nth_tl dest: spec [of _ "i - 1"])
  qed
  then show ?thesis
    using assms sz by (simp add: isValid_def Let_def isChecksumValid_iff_xorAll)
qed

lemma isValid_seal [checksum_simps]:
  assumes "2 \<le> length body" and "msg_size body = Suc (length body)"
    and "bit (opCode body) 7" and "low7 (tl body)"
  shows "isValid (seal body)"
proof -
  from assms(1) obtain op rest where body: "body = op # rest" "rest \<noteq> []"
    by (cases body rule: list.exhaust) (auto simp: Suc_le_eq)
  have "calcChecksum body = xorAll 0xFF body"
    using assms(2) by (simp add: calcChecksum_def)
  moreover have "\<not> bit (xorAll (0xFF XOR op) rest) 7"
    using assms(3,4) body by (simp add: bit7_xorAll bit_simps)
  ultimately have "low7 (tl (seal body))"
    using assms(4) body by (simp add: seal_def)
  moreover have "xorAll 0xFF (seal body) = 0"
    using isChecksumValid_seal [OF assms(1,2)] framed_seal [OF assms(1,2)]
    by (simp add: isChecksumValid_iff_xorAll)
  ultimately show ?thesis
    using framed_seal [OF assms(1,2)] by (simp add: isValid_iff)
qed

lemma updateChecksum_snoc:
  assumes "framed (body @ [c])" and "2 \<le> length body"
  shows "updateChecksum (body @ [c]) = seal body"
proof -
  have sz: "msg_size (body @ [c]) = Suc (length body)" "msg_size body = Suc (length body)"
    using assms by (simp_all add: framed_def msg_size_append)
  then show ?thesis by (simp add: updateChecksum_def seal_def calcChecksum_def)
qed

lemma isValid_updateChecksum [checksum_simps]:
  assumes "framed m" and "3 \<le> length m" and "bit (opCode m) 7"
    and "low7 (butlast (tl m))"
  shows "isValid (updateChecksum m)"
proof -
  obtain body c where m: "m = body @ [c]"
    using assms(2) by (cases m rule: rev_exhaust) auto
  have len: "2 \<le> length body" using assms(2) m by simp
  then have ne: "body \<noteq> []" by auto
  have "msg_size body = Suc (length body)"
    using assms(1) m len by (simp add: framed_def msg_size_append)
  moreover have "low7 (tl body)" "bit (opCode body) 7"
    using assms(3,4) m ne by (simp_all add: butlast_append nth_append)
  ultimately have "isValid (seal body)"
    using len by (intro isValid_seal) simp_all
  then show ?thesis
    using assms(1) m len by (simp add: updateChecksum_snoc)
qed

lemma isValid_framed_opCode:
  assumes "framed m" and "isValid m"
  shows "bit (opCode m) 7"
proof (rule ccontr)
  assume "\<not> bit (opCode m) 7"
  moreover obtain op rest where m: "m = op # rest" using assms(1) by (cases m) (auto simp: framed_def)
  moreover have "bit (xorAll 0xFF m) 7 = bit (0 :: u8) 7" "low7 rest"
    using assms m by (simp_all add: isValid_iff)
  ultimately show False by (simp add: bit7_xorAll bit_simps)
qed

section \<open>Signatures\<close>

text \<open>A signature gives, for every byte but the checksum, a value and the mask of its bits.\<close>

type_synonym signature = "(u8 \<times> u8) list"

abbreviation (input) sigOp :: "u8 \<Rightarrow> u8 \<times> u8" where
  "sigOp opc \<equiv> (opc, 0xFF)"

abbreviation (input) sigAny :: "u8 \<times> u8" where
  "sigAny \<equiv> (0x00, 0x80)"

definition isSignatureMatch :: "signature \<Rightarrow> bytes \<Rightarrow> bool" where
  "isSignatureMatch sg m \<longleftrightarrow>
    (if msg_size m \<noteq> length sg + 1 then False
     else list_all (\<lambda>(b, v, k). b AND k = v) (zip m sg))"

end
