(* ===== verification/LocoNet_SendQueue.thy ===== *)
theory LocoNet_SendQueue
  imports LocoNet_Wire
begin

text \<open>
  \<^verbatim>\<open>Kernel::SendQueue\<close> (\<^verbatim>\<open>kernel.hpp\<close>, end of \<^verbatim>\<open>kernel.cpp\<close>): messages back to back in a
  buffer of 4000 bytes, a pointer to the first of them and the number of bytes in use.  The
  model keeps the buffer as memory indexed by offset, the pointer as an offset and both
  counters as 64-bit words, so that the subtraction in \<^verbatim>\<open>pop\<close> can wrap; that the accesses
  stay inside the array is a lemma, not a feature of the representation.  The interface to
  the kernel is the locale \<open>message_queue\<close>: a first-in-first-out queue of bounded size.
\<close>

section \<open>The queue\<close>

record SendQueue =
  m_buffer :: "nat \<Rightarrow> u8"
  m_front :: usize
  m_bytes :: usize

abbreviation (input) "SendQueue_bufferSize \<equiv> (4000 :: nat)"

definition SendQueue_threshold :: usize where
  "SendQueue_threshold = of_nat (SendQueue_bufferSize div 2)"

definition SendQueue_init :: SendQueue where
  "SendQueue_init = \<lparr>m_buffer = (\<lambda>_. 0), m_front = 0, m_bytes = 0\<rparr>"

definition SendQueue_empty :: "SendQueue \<Rightarrow> bool" where
  "SendQueue_empty q = (m_bytes q = 0)"

definition bytesAt :: "(nat \<Rightarrow> u8) \<Rightarrow> nat \<Rightarrow> nat \<Rightarrow> bytes" where
  "bytesAt buf off n = map buf [off..<off + n]"

definition storeBytes :: "(nat \<Rightarrow> u8) \<Rightarrow> nat \<Rightarrow> bytes \<Rightarrow> nat \<Rightarrow> u8" where
  "storeBytes buf off bs = (\<lambda>i. if off \<le> i \<and> i < off + length bs then bs ! (i - off) else buf i)"

text \<open>
  The message at the front is read in place.  Two bytes always lie there, which is what its
  size depends on.
\<close>

definition SendQueue_front :: "SendQueue \<Rightarrow> bytes" where
  "SendQueue_front q =
    (let off = unat (m_front q)
     in bytesAt (m_buffer q) off (max 2 (msg_size (bytesAt (m_buffer q) off 2))))"

definition SendQueue_append :: "SendQueue \<Rightarrow> bytes \<Rightarrow> bool \<times> SendQueue" where
  "SendQueue_append q message =
    (let messageSize = of_nat (msg_size message) in
     if m_bytes q + messageSize > SendQueue_threshold then (False, q)
     else
       (True,
        q\<lparr>m_buffer := storeBytes (m_buffer q) (unat (m_front q + m_bytes q))
            (take (msg_size message) message),
          m_bytes := m_bytes q + messageSize\<rparr>))"

definition SendQueue_pop :: "SendQueue \<Rightarrow> SendQueue" where
  "SendQueue_pop q =
    (let messageSize = of_nat (msg_size (SendQueue_front q));
         q = q\<lparr>m_front := m_front q + messageSize, m_bytes := m_bytes q - messageSize\<rparr>
     in if m_front q \<ge> SendQueue_threshold
        then q\<lparr>m_buffer := storeBytes (m_buffer q) 0 (bytesAt (m_buffer q) (unat (m_front q)) (unat (m_bytes q))),
               m_front := 0\<rparr>
        else q)"

definition SendQueue_clear :: "SendQueue \<Rightarrow> SendQueue" where
  "SendQueue_clear q = q\<lparr>m_bytes := 0\<rparr>"

section \<open>The interface\<close>

text \<open>
  What the kernel relies on.  \<open>rep q ms\<close>: the queue holds the messages \<open>ms\<close>, the first
  of them at the front.
\<close>

locale message_queue =
  fixes rep :: "'q \<Rightarrow> bytes list \<Rightarrow> bool"
    and isEmpty :: "'q \<Rightarrow> bool"
    and front :: "'q \<Rightarrow> bytes"
    and append :: "'q \<Rightarrow> bytes \<Rightarrow> bool \<times> 'q"
    and pop :: "'q \<Rightarrow> 'q"
    and clear :: "'q \<Rightarrow> 'q"
    and capacity :: nat
  assumes rep_framed: "rep q ms \<Longrightarrow> list_all framed ms"
    and rep_size: "rep q ms \<Longrightarrow> length (concat ms) \<le> capacity"
    and empty_law: "rep q ms \<Longrightarrow> isEmpty q \<longleftrightarrow> ms = []"
    and front_law: "rep q (m # ms) \<Longrightarrow> front q = m"
    and append_law: "rep q ms \<Longrightarrow> framed m \<Longrightarrow> length (concat ms) + length m \<le> capacity \<Longrightarrow>
      fst (append q m) \<and> rep (snd (append q m)) (ms @ [m])"
    and append_full: "rep q ms \<Longrightarrow> framed m \<Longrightarrow> capacity < length (concat ms) + length m \<Longrightarrow>
      append q m = (False, q)"
    and pop_law: "rep q (m # ms) \<Longrightarrow> rep (pop q) ms"
    and clear_law: "rep q ms \<Longrightarrow> rep (clear q) []"
begin

lemma append_accepted:
  assumes "rep q ms" and "framed m" and "append q m = (True, q')"
  shows "rep q' (ms @ [m])"
  using append_law [OF assms(1,2)] append_full [OF assms(1,2)] assms(3)
  by (cases "length (concat ms) + length m \<le> capacity") auto

lemma append_refused:
  assumes "rep q ms" and "framed m" and "append q m = (False, q')"
  shows "q' = q"
  using append_law [OF assms(1,2)] append_full [OF assms(1,2)] assms(3)
  by (cases "length (concat ms) + length m \<le> capacity") auto

lemma rep_unique:
  assumes "rep q ms" and "rep q ns"
  shows "ms = ns"
  using assms
proof (induction ms arbitrary: q ns)
  case Nil
  then show ?case using empty_law by blast
next
  case (Cons m ms)
  then have "ns \<noteq> []" using empty_law by blast
  then obtain n ns' where ns: "ns = n # ns'" by (cases ns) auto
  then have "m = n" using Cons.prems front_law by blast
  moreover have "ms = ns'" using Cons ns pop_law by blast
  ultimately show ?case using ns by simp
qed

end

section \<open>The abstract queue\<close>

datatype queueOp = QAppend bytes | QPop | QClear

text \<open>What a client sees of an operation: whether it was accepted, and the front that follows.\<close>

type_synonym queueObs = "bool \<times> bytes option"

fun fifo_step :: "nat \<Rightarrow> bytes list \<Rightarrow> queueOp \<Rightarrow> bool \<times> bytes list" where
  "fifo_step cap ms (QAppend m) =
    (if length (concat ms) + length m \<le> cap then (True, ms @ [m]) else (False, ms))"
| "fifo_step cap ms QPop = (True, tl ms)"
| "fifo_step cap ms QClear = (True, [])"

fun fifo_run :: "nat \<Rightarrow> bytes list \<Rightarrow> queueOp list \<Rightarrow> queueObs list" where
  "fifo_run cap ms [] = []"
| "fifo_run cap ms (op # ops) =
    (let (ok, ms') = fifo_step cap ms op
     in (ok, case ms' of [] \<Rightarrow> None | m # _ \<Rightarrow> Some m) # fifo_run cap ms' ops)"

text \<open>The operations a client may do: append whole messages, pop only what is there.\<close>

fun fifo_ok :: "nat \<Rightarrow> bytes list \<Rightarrow> queueOp list \<Rightarrow> bool" where
  "fifo_ok cap ms [] = True"
| "fifo_ok cap ms (op # ops) =
    ((case op of QAppend m \<Rightarrow> framed m | QPop \<Rightarrow> ms \<noteq> [] | QClear \<Rightarrow> True) \<and>
     fifo_ok cap (snd (fifo_step cap ms op)) ops)"

fun queue_step :: "('q \<Rightarrow> bytes \<Rightarrow> bool \<times> 'q) \<Rightarrow> ('q \<Rightarrow> 'q) \<Rightarrow> ('q \<Rightarrow> 'q) \<Rightarrow> 'q \<Rightarrow> queueOp \<Rightarrow> bool \<times> 'q" where
  "queue_step app pp clr q (QAppend m) = app q m"
| "queue_step app pp clr q QPop = (True, pp q)"
| "queue_step app pp clr q QClear = (True, clr q)"

fun queue_run :: "('q \<Rightarrow> bool) \<Rightarrow> ('q \<Rightarrow> bytes) \<Rightarrow> ('q \<Rightarrow> bytes \<Rightarrow> bool \<times> 'q) \<Rightarrow> ('q \<Rightarrow> 'q) \<Rightarrow> ('q \<Rightarrow> 'q) \<Rightarrow>
    'q \<Rightarrow> queueOp list \<Rightarrow> queueObs list" where
  "queue_run emp frt app pp clr q [] = []"
| "queue_run emp frt app pp clr q (op # ops) =
    (let (ok, q') = queue_step app pp clr q op
     in (ok, if emp q' then None else Some (frt q')) # queue_run emp frt app pp clr q' ops)"

context message_queue
begin

lemma step_simulation:
  assumes "rep q ms" and "fifo_ok capacity ms [op]"
  shows "fst (queue_step append pop clear q op) = fst (fifo_step capacity ms op)"
    and "rep (snd (queue_step append pop clear q op)) (snd (fifo_step capacity ms op))"
proof (atomize (full), cases op)
  case (QAppend m)
  then show "fst (queue_step append pop clear q op) = fst (fifo_step capacity ms op) \<and>
    rep (snd (queue_step append pop clear q op)) (snd (fifo_step capacity ms op))"
    using assms append_law [of q ms m] append_full [of q ms m] by auto
next
  case QPop
  then obtain m ms' where "ms = m # ms'" using assms(2) by (cases ms) auto
  then show "fst (queue_step append pop clear q op) = fst (fifo_step capacity ms op) \<and>
    rep (snd (queue_step append pop clear q op)) (snd (fifo_step capacity ms op))"
    using QPop assms(1) pop_law by auto
next
  case QClear
  then show "fst (queue_step append pop clear q op) = fst (fifo_step capacity ms op) \<and>
    rep (snd (queue_step append pop clear q op)) (snd (fifo_step capacity ms op))"
    using assms(1) clear_law by auto
qed

lemma observed_front:
  assumes "rep q ms"
  shows "(if isEmpty q then None else Some (front q)) = (case ms of [] \<Rightarrow> None | m # _ \<Rightarrow> Some m)"
  using assms empty_law [OF assms] front_law by (cases ms) auto

lemma run_refines:
  assumes "rep q ms" and "fifo_ok capacity ms ops"
  shows "queue_run isEmpty front append pop clear q ops = fifo_run capacity ms ops"
  using assms
proof (induction ops arbitrary: q ms)
  case (Cons op ops)
  have ok: "fifo_ok capacity ms [op]" "fifo_ok capacity (snd (fifo_step capacity ms op)) ops"
    using Cons.prems(2) by simp_all
  note sim = step_simulation [OF Cons.prems(1) ok(1)]
  show ?case
    using sim(1) observed_front [OF sim(2)] Cons.IH [OF sim(2) ok(2)]
    by (simp add: split_beta Let_def)
qed simp

end

section \<open>The code's queue is one\<close>

definition SendQueue_rep :: "SendQueue \<Rightarrow> bytes list \<Rightarrow> bool" where
  "SendQueue_rep q ms \<longleftrightarrow>
    unat (m_front q) < 2000 \<and> unat (m_bytes q) \<le> 2000 \<and> list_all framed ms \<and>
    bytesAt (m_buffer q) (unat (m_front q)) (unat (m_bytes q)) = concat ms"

lemma length_bytesAt [simp]: "length (bytesAt buf off n) = n"
  by (simp add: bytesAt_def)

lemma nth_bytesAt [simp]: "i < n \<Longrightarrow> bytesAt buf off n ! i = buf (off + i)"
  by (simp add: bytesAt_def)

lemma take_bytesAt: "k \<le> n \<Longrightarrow> take k (bytesAt buf off n) = bytesAt buf off k"
  by (simp add: bytesAt_def take_map)

lemma drop_bytesAt: "k \<le> n \<Longrightarrow> drop k (bytesAt buf off n) = bytesAt buf (off + k) (n - k)"
  by (simp add: bytesAt_def drop_map)

lemma bytesAt_storeBytes_append:
  "bytesAt (storeBytes buf (off + n) bs) off (n + length bs) = bytesAt buf off n @ bs"
  by (rule nth_equalityI) (auto simp: storeBytes_def nth_append)

lemma bytesAt_storeBytes_move:
  "bytesAt (storeBytes buf 0 bs) 0 (length bs) = bs"
  by (rule nth_equalityI) (auto simp: storeBytes_def)

lemma unat_threshold [simp]: "unat SendQueue_threshold = 2000"
  by (simp add: SendQueue_threshold_def)

lemma framed_size: "framed m \<Longrightarrow> length m = msg_size m \<and> 2 \<le> msg_size m \<and> msg_size m \<le> 255"
  using msg_size_le_255 [of m] by (auto simp: framed_def)

lemma unat_of_size: "unat (of_nat (msg_size m) :: usize) = msg_size m"
  using msg_size_le_255 [of m] by (simp add: unat_of_nat)

lemma rep_bytes: "SendQueue_rep q ms \<Longrightarrow> unat (m_bytes q) = length (concat ms)"
  unfolding SendQueue_rep_def by (metis length_bytesAt)

lemma SendQueue_rep_init: "SendQueue_rep SendQueue_init []"
  by (simp add: SendQueue_rep_def SendQueue_init_def bytesAt_def)

lemma SendQueue_empty_rep:
  assumes "SendQueue_rep q ms"
  shows "SendQueue_empty q \<longleftrightarrow> ms = []"
proof -
  have "list_all framed ms" using assms by (simp add: SendQueue_rep_def)
  then have "concat ms = [] \<longleftrightarrow> ms = []"
    by (cases ms) (auto simp: framed_def)
  moreover have "m_bytes q = 0 \<longleftrightarrow> concat ms = []"
    using rep_bytes [OF assms] by (metis length_0_conv unat_eq_zero)
  ultimately show ?thesis by (simp add: SendQueue_empty_def)
qed

lemma SendQueue_front_rep:
  assumes "SendQueue_rep q (m # ms)"
  shows "SendQueue_front q = m"
proof -
  let ?off = "unat (m_front q)" and ?n = "unat (m_bytes q)"
  have fr: "framed m" and c: "bytesAt (m_buffer q) ?off ?n = m @ concat ms"
    using assms by (simp_all add: SendQueue_rep_def)
  have n: "?n = length m + length (concat ms)" using rep_bytes [OF assms] by simp
  have head: "bytesAt (m_buffer q) ?off k = take k m" if "k \<le> length m" for k
    using arg_cong [OF c, of "take k"] that n by (simp add: take_bytesAt)
  have "msg_size (bytesAt (m_buffer q) ?off 2) = msg_size m"
    using fr head [of 2] by (intro msg_size_cong) (auto simp: framed_def)
  then show ?thesis
    using fr framed_size [OF fr] head [of "msg_size m"] by (simp add: SendQueue_front_def Let_def)
qed

lemma SendQueue_append_rep:
  assumes "SendQueue_rep q ms" and "framed m"
  shows "length (concat ms) + length m \<le> 2000 \<Longrightarrow>
      fst (SendQueue_append q m) \<and> SendQueue_rep (snd (SendQueue_append q m)) (ms @ [m])"
    and "2000 < length (concat ms) + length m \<Longrightarrow> SendQueue_append q m = (False, q)"
proof -
  let ?sz = "of_nat (msg_size m) :: usize"
  have n: "unat (m_bytes q) = length (concat ms)" "unat (m_bytes q) \<le> 2000" "unat (m_front q) < 2000"
    using rep_bytes [OF assms(1)] assms(1) by (simp_all add: SendQueue_rep_def)
  have sz: "length m = msg_size m" "msg_size m \<le> 255" "unat ?sz = msg_size m"
    using framed_size [OF assms(2)] unat_of_size by auto
  have sum: "unat (m_bytes q + ?sz) = length (concat ms) + length m"
    using n sz by (simp add: unat_word_ariths)
  have pos: "unat (m_front q + m_bytes q) = unat (m_front q) + unat (m_bytes q)"
    using n by (simp add: unat_word_ariths)
  have full: "m_bytes q + ?sz > SendQueue_threshold \<longleftrightarrow> 2000 < length (concat ms) + length m"
    by (simp add: word_less_nat_alt sum del: length_concat)
  show "length (concat ms) + length m \<le> 2000 \<Longrightarrow>
      fst (SendQueue_append q m) \<and> SendQueue_rep (snd (SendQueue_append q m)) (ms @ [m])"
    using assms n sz sum pos full
      bytesAt_storeBytes_append [of "m_buffer q" "unat (m_front q)" "unat (m_bytes q)" m]
    by (simp add: SendQueue_append_def SendQueue_rep_def Let_def del: length_concat)
  show "2000 < length (concat ms) + length m \<Longrightarrow> SendQueue_append q m = (False, q)"
    using full by (simp add: SendQueue_append_def Let_def)
qed

lemma SendQueue_pop_rep:
  assumes "SendQueue_rep q (m # ms)"
  shows "SendQueue_rep (SendQueue_pop q) ms"
proof -
  let ?sz = "of_nat (msg_size m) :: usize"
  have fr: "framed m" "list_all framed ms"
    and c: "bytesAt (m_buffer q) (unat (m_front q)) (unat (m_bytes q)) = m @ concat ms"
    and f: "unat (m_front q) < 2000" and b: "unat (m_bytes q) \<le> 2000"
    using assms by (simp_all add: SendQueue_rep_def)
  have sz: "length m = msg_size m" "msg_size m \<le> 255" "unat ?sz = msg_size m"
    using framed_size [OF fr(1)] unat_of_size by auto
  have n: "unat (m_bytes q) = length m + length (concat ms)" using rep_bytes [OF assms] by simp
  have f': "unat (m_front q + ?sz) = unat (m_front q) + length m"
    using f sz by (simp add: unat_word_ariths)
  have "?sz \<le> m_bytes q" using n sz by (simp add: word_le_nat_alt del: length_concat)
  then have b': "unat (m_bytes q - ?sz) = length (concat ms)"
    using n sz by (simp add: unat_sub del: length_concat)
  have rest: "bytesAt (m_buffer q) (unat (m_front q) + length m) (length (concat ms)) = concat ms"
    using arg_cong [OF c, of "drop (length m)"] n by (simp add: drop_bytesAt)
  show ?thesis
    using fr(2) b n f' b' rest SendQueue_front_rep [OF assms]
      bytesAt_storeBytes_move [of "m_buffer q" "concat ms"]
    by (simp add: SendQueue_pop_def SendQueue_rep_def Let_def word_le_nat_alt del: length_concat)
qed

lemma SendQueue_clear_rep: "SendQueue_rep q ms \<Longrightarrow> SendQueue_rep (SendQueue_clear q) []"
  by (simp add: SendQueue_rep_def SendQueue_clear_def bytesAt_def)

interpretation sq: message_queue SendQueue_rep SendQueue_empty SendQueue_front SendQueue_append
    SendQueue_pop SendQueue_clear 2000
proof unfold_locales
  fix q ms
  assume r: "SendQueue_rep q ms"
  then show "list_all framed ms" by (simp add: SendQueue_rep_def)
  show "length (concat ms) \<le> 2000"
    using rep_bytes [OF r] r by (simp add: SendQueue_rep_def)
qed (auto simp: SendQueue_empty_rep SendQueue_front_rep SendQueue_append_rep SendQueue_pop_rep
    SendQueue_clear_rep simp del: length_concat)

text \<open>The bytes that \<^verbatim>\<open>append\<close> writes, and those \<^verbatim>\<open>pop\<close> moves, lie in the array.\<close>

lemma SendQueue_append_in_bounds:
  assumes "SendQueue_rep q ms" and "framed m" and "SendQueue_append q m = (True, q')"
  shows "unat (m_front q + m_bytes q) + length m \<le> SendQueue_bufferSize - 1"
    and "\<And>i. SendQueue_bufferSize \<le> i \<Longrightarrow> m_buffer q' i = m_buffer q i"
proof -
  have "length (concat ms) + length m \<le> 2000"
    using SendQueue_append_rep(2) [OF assms(1,2)] assms(3) by fastforce
  moreover have "unat (m_bytes q) = length (concat ms)" "unat (m_front q) < 2000"
    using rep_bytes [OF assms(1)] assms(1) by (simp_all add: SendQueue_rep_def)
  moreover have "unat (m_front q + m_bytes q) \<le> unat (m_front q) + unat (m_bytes q)"
    by (simp add: unat_word_ariths)
  ultimately show *: "unat (m_front q + m_bytes q) + length m \<le> SendQueue_bufferSize - 1"
    by linarith
  show "\<And>i. SendQueue_bufferSize \<le> i \<Longrightarrow> m_buffer q' i = m_buffer q i"
    using assms(2,3) * framed_size [OF assms(2)]
    by (auto simp: SendQueue_append_def Let_def storeBytes_def split: if_splits)
qed

text \<open>
  Popping what is not there: the counter wraps around, the queue then claims to hold messages.
\<close>

lemma SendQueue_pop_underflow:
  assumes "m_bytes q = 0" and "2 \<le> msg_size (SendQueue_front q)"
  shows "m_bytes (SendQueue_pop q) = - of_nat (msg_size (SendQueue_front q))"
    and "\<not> SendQueue_empty (SendQueue_pop q)"
proof -
  let ?sz = "of_nat (msg_size (SendQueue_front q)) :: usize"
  show b: "m_bytes (SendQueue_pop q) = - ?sz"
    using assms(1) by (simp add: SendQueue_pop_def Let_def)
  have "unat ?sz = msg_size (SendQueue_front q)" by (rule unat_of_size)
  then have "?sz \<noteq> 0" using assms(2) by auto
  then show "\<not> SendQueue_empty (SendQueue_pop q)" by (simp add: SendQueue_empty_def b)
qed

end
