(* ===== verification/LocoNet_Messages.thy ===== *)
theory LocoNet_Messages
  imports LocoNet_Wire
begin

text \<open>
  The fixed-format LocoNet messages of \<^verbatim>\<open>loconet/messages.hpp\<close>: constructors, field accessors
  and setters.  Each struct is packed, so its constructor is the list of its bytes, an accessor
  reads the byte at the field's offset and a setter updates it.  The accessors
  \<^verbatim>\<open>fN()\<close> / \<^verbatim>\<open>setFN()\<close> of a struct, which differ in their mask only, are one definition
  indexed by N; \<^verbatim>\<open>f(n)\<close>, which shifts, is a second one, and the two are proved to agree.
\<close>

section \<open>Constants\<close>

abbreviation (input) "SLOT_DISPATCH \<equiv> (0 :: u8)"
abbreviation (input) "SLOT_LOCO_MIN \<equiv> (1 :: u8)"
abbreviation (input) "SLOT_LOCO_MAX \<equiv> (119 :: u8)"
abbreviation (input) "SLOT_PROGRAMMING_TRACK \<equiv> (124 :: u8)"
abbreviation (input) "SLOT_FAST_CLOCK \<equiv> (123 :: u8)"
abbreviation (input) "SLOT_UNKNOWN \<equiv> (255 :: u8)"
abbreviation (input) "SPEED_STOP \<equiv> (0 :: u8)"
abbreviation (input) "SPEED_ESTOP \<equiv> (1 :: u8)"
abbreviation (input) "SPEED_MIN \<equiv> (2 :: u8)"
abbreviation (input) "SPEED_MAX \<equiv> (127 :: u8)"
abbreviation (input) "SL_BUSY \<equiv> (0x20 :: u8)"
abbreviation (input) "SL_ACTIVE \<equiv> (0x10 :: u8)"
abbreviation (input) "SL_DIR \<equiv> (0x20 :: u8)"
abbreviation (input) "SW2_ON \<equiv> (0x10 :: u8)"
abbreviation (input) "SW2_DIR \<equiv> (0x20 :: u8)"

text \<open>The masks \<^verbatim>\<open>SL_F0 .. SL_F28\<close>.\<close>

definition SL_F :: "nat \<Rightarrow> u8" where
  "SL_F n =
    (if n = 0 then 0x10 else if n = 1 then 0x01 else if n = 2 then 0x02 else if n = 3 then 0x04
     else if n = 4 then 0x08 else if n = 5 then 0x01 else if n = 6 then 0x02 else if n = 7 then 0x04
     else if n = 8 then 0x08 else if n = 9 then 0x01 else if n = 10 then 0x02 else if n = 11 then 0x04
     else if n = 12 then 0x08 else if n = 13 then 0x01 else if n = 14 then 0x02 else if n = 15 then 0x04
     else if n = 16 then 0x08 else if n = 17 then 0x10 else if n = 18 then 0x20 else if n = 19 then 0x40
     else if n = 21 then 0x01 else if n = 22 then 0x02 else if n = 23 then 0x04 else if n = 24 then 0x08
     else if n = 25 then 0x10 else if n = 26 then 0x20 else if n = 27 then 0x40 else 0)"

text \<open>\<^verbatim>\<open>x & (1 << k)\<close> on a byte, as a bit of it.\<close>

definition shiftTest :: "u8 \<Rightarrow> nat \<Rightarrow> bool" where
  "shiftTest b k = (b AND push_bit k 1 \<noteq> 0)"

lemma shiftTest_bit: "shiftTest b k = bit b k"
proof (cases "k < 8")
  case True
  then show ?thesis
    using testFlag_exp [where 'a = 8, of k b]
    by (simp add: shiftTest_def testFlag_def push_bit_eq_mult)
next
  case False
  then have "b AND push_bit k 1 = 0" by (intro bit_eqI) (auto simp: bit_simps)
  with False show ?thesis by (simp add: shiftTest_def)
qed

section \<open>Two-byte messages\<close>

definition Idle :: bytes where "Idle = [OPC_IDLE, 0x7A]"
definition GlobalPowerOn :: bytes where "GlobalPowerOn = [OPC_GPON, 0x7C]"
definition GlobalPowerOff :: bytes where "GlobalPowerOff = [OPC_GPOFF, 0x7D]"
definition Busy :: bytes where "Busy = [OPC_BUSY, 0x7E]"

section \<open>LocoAdr, LocoSpd\<close>

definition LocoAdr :: "u16 \<Rightarrow> bytes" where
  "LocoAdr address = seal [OPC_LOCO_ADR, ucast (drop_bit 7 address), ucast (address AND 0x7F)]"

definition LocoAdr_address :: "bytes \<Rightarrow> u16" where
  "LocoAdr_address m = push_bit 7 (ucast (m ! 1)) OR ucast (m ! 2)"

text \<open>\<^verbatim>\<open>SlotMessage\<close> puts the slot in the second byte.\<close>

definition SlotMessage_slot :: "bytes \<Rightarrow> u8" where
  "SlotMessage_slot m = m ! 1"

definition LocoSpd :: "u8 \<Rightarrow> bytes" where
  "LocoSpd speed = seal [OPC_LOCO_SPD, SLOT_UNKNOWN, speed]"

definition LocoSpd_speed :: "bytes \<Rightarrow> u8" where
  "LocoSpd_speed m = m ! 2"

section \<open>LocoDirF: direction and F0-F4\<close>

definition LocoDirF :: "Direction \<Rightarrow> bool \<Rightarrow> bool \<Rightarrow> bool \<Rightarrow> bool \<Rightarrow> bool \<Rightarrow> bytes" where
  "LocoDirF direction f0 f1 f2 f3 f4 =
    (let dirf = orFlag 0 SL_DIR (direction = DirForward);
         dirf = orFlag dirf (SL_F 0) f0;
         dirf = orFlag dirf (SL_F 1) f1;
         dirf = orFlag dirf (SL_F 2) f2;
         dirf = orFlag dirf (SL_F 3) f3;
         dirf = orFlag dirf (SL_F 4) f4
     in seal [OPC_LOCO_DIRF, SLOT_UNKNOWN, dirf])"

definition LocoDirF_direction :: "bytes \<Rightarrow> Direction" where
  "LocoDirF_direction m = (if testFlag (m ! 2) SL_DIR then DirForward else DirReverse)"

definition LocoDirF_setDirection :: "Direction \<Rightarrow> bytes \<Rightarrow> bytes" where
  "LocoDirF_setDirection value m = m[2 := setFlag (m ! 2) SL_DIR (value = DirForward)]"

definition LocoDirF_fN :: "nat \<Rightarrow> bytes \<Rightarrow> bool" where
  "LocoDirF_fN n m = testFlag (m ! 2) (SL_F n)"

definition LocoDirF_f :: "bytes \<Rightarrow> nat \<Rightarrow> bool" where
  "LocoDirF_f m n = (if n = 0 then LocoDirF_fN 0 m else shiftTest (m ! 2) (n - 1))"

definition LocoDirF_setFN :: "nat \<Rightarrow> bool \<Rightarrow> bytes \<Rightarrow> bytes" where
  "LocoDirF_setFN n value m = m[2 := setFlag (m ! 2) (SL_F n) value]"

section \<open>LocoSnd: F5-F8\<close>

definition LocoSnd :: "bool \<Rightarrow> bool \<Rightarrow> bool \<Rightarrow> bool \<Rightarrow> bytes" where
  "LocoSnd f5 f6 f7 f8 =
    seal [OPC_LOCO_SND, SLOT_UNKNOWN,
      orFlag (orFlag (orFlag (orFlag 0 (SL_F 5) f5) (SL_F 6) f6) (SL_F 7) f7) (SL_F 8) f8]"

definition LocoSnd_f :: "bytes \<Rightarrow> nat \<Rightarrow> bool" where
  "LocoSnd_f m n = shiftTest (m ! 2) (n - 5)"

definition LocoSnd_fN :: "nat \<Rightarrow> bytes \<Rightarrow> bool" where
  "LocoSnd_fN n m = testFlag (m ! 2) (SL_F n)"

definition LocoSnd_setFN :: "nat \<Rightarrow> bool \<Rightarrow> bytes \<Rightarrow> bytes" where
  "LocoSnd_setFN n value m = m[2 := setFlag (m ! 2) (SL_F n) value]"

section \<open>LocoF9F12\<close>

definition LocoF9F12 :: "bool \<Rightarrow> bool \<Rightarrow> bool \<Rightarrow> bool \<Rightarrow> bytes" where
  "LocoF9F12 f9 f10 f11 f12 =
    seal [OPC_LOCO_F9F12, SLOT_UNKNOWN,
      orFlag (orFlag (orFlag (orFlag 0 (SL_F 9) f9) (SL_F 10) f10) (SL_F 11) f11) (SL_F 12) f12]"

definition LocoF9F12_f :: "bytes \<Rightarrow> nat \<Rightarrow> bool" where
  "LocoF9F12_f m n = shiftTest (m ! 2) (n - 9)"

text \<open>\<^verbatim>\<open>f11()\<close> and \<^verbatim>\<open>f12()\<close> name the masks \<^verbatim>\<open>SL_F7\<close> and \<^verbatim>\<open>SL_F8\<close> (of the same values).\<close>

definition LocoF9F12_fN :: "nat \<Rightarrow> bytes \<Rightarrow> bool" where
  "LocoF9F12_fN n m =
    testFlag (m ! 2) (if n = 11 then SL_F 7 else if n = 12 then SL_F 8 else SL_F n)"

definition LocoF9F12_setFN :: "nat \<Rightarrow> bool \<Rightarrow> bytes \<Rightarrow> bytes" where
  "LocoF9F12_setFN n value m = m[2 := setFlag (m ! 2) (SL_F n) value]"

section \<open>InputRep\<close>

definition InputRep :: "u16 \<Rightarrow> bool \<Rightarrow> bytes" where
  "InputRep fullAddress value =
    (let in1 = ucast (drop_bit 1 fullAddress AND 0x7F);
         in2 = ucast (drop_bit 8 fullAddress AND 0x0F);
         in2 = orFlag in2 0x20 (fullAddress AND 0x0001 \<noteq> 0);
         in2 = orFlag in2 0x10 value;
         in2 = in2 OR 0x40
     in seal [OPC_INPUT_REP, in1, in2])"

definition InputRep_address :: "bytes \<Rightarrow> u16" where
  "InputRep_address m = ucast (m ! 1 AND 0x7F) OR push_bit 7 (ucast (m ! 2 AND 0x0F))"

definition InputRep_isControlSet :: "bytes \<Rightarrow> bool" where
  "InputRep_isControlSet m = testFlag (m ! 2) 0x40"

definition InputRep_isSwitchInput :: "bytes \<Rightarrow> bool" where
  "InputRep_isSwitchInput m = testFlag (m ! 2) 0x20"

definition InputRep_isAuxInput :: "bytes \<Rightarrow> bool" where
  "InputRep_isAuxInput m = (\<not> InputRep_isSwitchInput m)"

definition InputRep_value :: "bytes \<Rightarrow> bool" where
  "InputRep_value m = testFlag (m ! 2) 0x10"

definition InputRep_fullAddress :: "bytes \<Rightarrow> u16" where
  "InputRep_fullAddress m =
    push_bit 1 (InputRep_address m) OR (if InputRep_isSwitchInput m then 1 else 0)"

section \<open>LongAck\<close>

definition LongAck :: "u8 \<Rightarrow> u8 \<Rightarrow> bytes" where
  "LongAck lopc ack1 = seal [OPC_LONG_ACK, lopc AND 0x7F, ack1]"

definition LongAck_respondingOpCode :: "bytes \<Rightarrow> u8" where
  "LongAck_respondingOpCode m = 0x80 OR m ! 1"

definition LongAck_ack1 :: "bytes \<Rightarrow> u8" where
  "LongAck_ack1 m = m ! 2"

section \<open>SwitchRequest\<close>

definition SwitchRequest_address :: "bytes \<Rightarrow> u16" where
  "SwitchRequest_address m =
    1 + (ucast (m ! 1 AND 0x7F) OR push_bit 7 (ucast (m ! 2 AND 0x0F)))"

definition SwitchRequest_setAddress :: "u16 \<Rightarrow> bytes \<Rightarrow> bytes" where
  "SwitchRequest_setAddress value m =
    (let value = value - 1;
         m = m[1 := ucast (value AND 0x7F)]
     in m[2 := (m ! 2 AND 0x30) OR ucast (drop_bit 7 value AND 0x0F)])"

definition SwitchRequest_dir :: "bytes \<Rightarrow> bool" where
  "SwitchRequest_dir m = testFlag (m ! 2) SW2_DIR"

definition SwitchRequest_setDir :: "bool \<Rightarrow> bytes \<Rightarrow> bytes" where
  "SwitchRequest_setDir value m = m[2 := setFlag (m ! 2) SW2_DIR value]"

definition SwitchRequest_on :: "bytes \<Rightarrow> bool" where
  "SwitchRequest_on m = testFlag (m ! 2) SW2_ON"

definition SwitchRequest_setOn :: "bool \<Rightarrow> bytes \<Rightarrow> bytes" where
  "SwitchRequest_setOn value m = m[2 := setFlag (m ! 2) SW2_ON value]"

definition SwitchRequest :: "u16 \<Rightarrow> bool \<Rightarrow> bool \<Rightarrow> bytes" where
  "SwitchRequest address dir on =
    updateChecksum (SwitchRequest_setOn on (SwitchRequest_setDir dir
      (SwitchRequest_setAddress address [OPC_SW_REQ, 0, 0, 0])))"

section \<open>RequestSlotData\<close>

definition RequestSlotData :: "u8 \<Rightarrow> bytes" where
  "RequestSlotData slot = seal [OPC_RQ_SL_DATA, slot, 0]"

definition RequestSlotData_slot :: "bytes \<Rightarrow> u8" where
  "RequestSlotData_slot m = m ! 1"

section \<open>MultiSense\<close>

abbreviation (input) "MULTI_SENSE_TYPE_MASK \<equiv> (0xE0 :: u8)"
abbreviation (input) "MULTI_SENSE_TYPE_TRANSPONDER_GONE \<equiv> (0x00 :: u8)"
abbreviation (input) "MULTI_SENSE_TYPE_TRANSPONDER_PRESENT \<equiv> (0x20 :: u8)"
abbreviation (input) "MULTI_SENSE_TRANSPONDER_ADDRESS_SHORT \<equiv> (0xFD :: u8)"

definition MultiSense_isTransponder :: "bytes \<Rightarrow> bool" where
  "MultiSense_isTransponder m \<longleftrightarrow>
    m ! 1 AND MULTI_SENSE_TYPE_MASK = MULTI_SENSE_TYPE_TRANSPONDER_GONE \<or>
    m ! 1 AND MULTI_SENSE_TYPE_MASK = MULTI_SENSE_TYPE_TRANSPONDER_PRESENT"

definition MultiSense_isPresent :: "bytes \<Rightarrow> bool" where
  "MultiSense_isPresent m \<longleftrightarrow>
    m ! 1 AND MULTI_SENSE_TYPE_MASK = MULTI_SENSE_TYPE_TRANSPONDER_PRESENT"

definition MultiSense_sensorAddress :: "bytes \<Rightarrow> u16" where
  "MultiSense_sensorAddress m = push_bit 7 (ucast (m ! 1 AND 0x1F)) OR ucast (m ! 2 AND 0x7F)"

definition MultiSense_isTransponderAddressLong :: "bytes \<Rightarrow> bool" where
  "MultiSense_isTransponderAddressLong m \<longleftrightarrow> m ! 3 \<noteq> MULTI_SENSE_TRANSPONDER_ADDRESS_SHORT"

definition MultiSense_transponderAddress :: "bytes \<Rightarrow> u16" where
  "MultiSense_transponderAddress m =
    (if MultiSense_isTransponderAddressLong m
     then push_bit 7 (ucast (m ! 3 AND 0x7F)) OR ucast (m ! 4 AND 0x7F)
     else ucast (m ! 4 AND 0x7F))"

section \<open>LocoF13F19, LocoF12F20F28, LocoF21F27\<close>

definition LocoF13F19 :: "bool \<Rightarrow> bool \<Rightarrow> bool \<Rightarrow> bool \<Rightarrow> bool \<Rightarrow> bool \<Rightarrow> bool \<Rightarrow> bytes" where
  "LocoF13F19 f13 f14 f15 f16 f17 f18 f19 =
    (let function = orFlag 0 (SL_F 13) f13;
         function = orFlag function (SL_F 14) f14;
         function = orFlag function (SL_F 15) f15;
         function = orFlag function (SL_F 16) f16;
         function = orFlag function (SL_F 17) f17;
         function = orFlag function (SL_F 18) f18;
         function = orFlag function (SL_F 19) f19
     in seal [OPC_D4, 0x20, SLOT_UNKNOWN, 0x08, function])"

definition LocoF13F19_f :: "bytes \<Rightarrow> nat \<Rightarrow> bool" where
  "LocoF13F19_f m n = shiftTest (m ! 4) (n - 13)"

definition LocoF13F19_fN :: "nat \<Rightarrow> bytes \<Rightarrow> bool" where
  "LocoF13F19_fN n m = testFlag (m ! 4) (SL_F n)"

definition LocoF13F19_setFN :: "nat \<Rightarrow> bool \<Rightarrow> bytes \<Rightarrow> bytes" where
  "LocoF13F19_setFN n value m = m[4 := setFlag (m ! 4) (SL_F n) value]"

text \<open>The struct's own masks \<^verbatim>\<open>F12\<close>, \<^verbatim>\<open>F20\<close> and \<^verbatim>\<open>F28\<close>.\<close>

definition LocoF12F20F28_mask :: "nat \<Rightarrow> u8" where
  "LocoF12F20F28_mask n = (if n = 12 then 0x10 else if n = 20 then 0x20 else if n = 28 then 0x40 else 0)"

definition LocoF12F20F28 :: "bool \<Rightarrow> bool \<Rightarrow> bool \<Rightarrow> bytes" where
  "LocoF12F20F28 f12 f20 f28 =
    (let function = orFlag 0 (LocoF12F20F28_mask 12) f12;
         function = orFlag function (LocoF12F20F28_mask 20) f20;
         function = orFlag function (LocoF12F20F28_mask 28) f28
     in seal [OPC_D4, 0x20, SLOT_UNKNOWN, 0x05, function])"

definition LocoF12F20F28_fN :: "nat \<Rightarrow> bytes \<Rightarrow> bool" where
  "LocoF12F20F28_fN n m = testFlag (m ! 4) (LocoF12F20F28_mask n)"

definition LocoF12F20F28_setFN :: "nat \<Rightarrow> bool \<Rightarrow> bytes \<Rightarrow> bytes" where
  "LocoF12F20F28_setFN n value m = m[4 := setFlag (m ! 4) (LocoF12F20F28_mask n) value]"

definition LocoF21F27 :: "bool \<Rightarrow> bool \<Rightarrow> bool \<Rightarrow> bool \<Rightarrow> bool \<Rightarrow> bool \<Rightarrow> bool \<Rightarrow> bytes" where
  "LocoF21F27 f21 f22 f23 f24 f25 f26 f27 =
    (let function = orFlag 0 (SL_F 21) f21;
         function = orFlag function (SL_F 22) f22;
         function = orFlag function (SL_F 23) f23;
         function = orFlag function (SL_F 24) f24;
         function = orFlag function (SL_F 25) f25;
         function = orFlag function (SL_F 26) f26;
         function = orFlag function (SL_F 27) f27
     in seal [OPC_D4, 0x20, SLOT_UNKNOWN, 0x09, function])"

definition LocoF21F27_f :: "bytes \<Rightarrow> nat \<Rightarrow> bool" where
  "LocoF21F27_f m n = shiftTest (m ! 4) (n - 21)"

definition LocoF21F27_fN :: "nat \<Rightarrow> bytes \<Rightarrow> bool" where
  "LocoF21F27_fN n m = testFlag (m ! 4) (SL_F n)"

definition LocoF21F27_setFN :: "nat \<Rightarrow> bool \<Rightarrow> bytes \<Rightarrow> bytes" where
  "LocoF21F27_setFN n value m = m[4 := setFlag (m ! 4) (SL_F n) value]"

section \<open>SlotReadData\<close>

text \<open>Offsets: len 1, slot 2, stat 3, adr 4, spd 5, dirf 6, trk 7, ss2 8, adr2 9, snd 10, id1 11, id2 12.\<close>

definition SlotReadData :: "u8 \<Rightarrow> bytes" where
  "SlotReadData slot = seal [OPC_SL_RD_DATA, 14, slot, 0, 0, 0, 0, 0, 0, 0, 0, 0, 0]"

definition SlotReadData_slot :: "bytes \<Rightarrow> u8" where
  "SlotReadData_slot m = m ! 2"

definition SlotReadData_isBusy :: "bytes \<Rightarrow> bool" where
  "SlotReadData_isBusy m = testFlag (m ! 3) SL_BUSY"

definition SlotReadData_setBusy :: "bool \<Rightarrow> bytes \<Rightarrow> bytes" where
  "SlotReadData_setBusy value m = m[3 := setFlag (m ! 3) SL_BUSY value]"

definition SlotReadData_isActive :: "bytes \<Rightarrow> bool" where
  "SlotReadData_isActive m = testFlag (m ! 3) SL_ACTIVE"

definition SlotReadData_setActive :: "bool \<Rightarrow> bytes \<Rightarrow> bytes" where
  "SlotReadData_setActive value m = m[3 := setFlag (m ! 3) SL_ACTIVE value]"

definition SlotReadData_isFree :: "bytes \<Rightarrow> bool" where
  "SlotReadData_isFree m \<longleftrightarrow> \<not> SlotReadData_isBusy m \<and> \<not> SlotReadData_isActive m"

definition SlotReadData_address :: "bytes \<Rightarrow> u16" where
  "SlotReadData_address m = push_bit 7 (ucast (m ! 9)) OR ucast (m ! 4)"

definition SlotReadData_setAddress :: "u16 \<Rightarrow> bytes \<Rightarrow> bytes" where
  "SlotReadData_setAddress value m =
    m[4 := ucast (value AND 0x7F), 9 := ucast (drop_bit 7 value AND 0x7F)]"

definition SlotReadData_isEmergencyStop :: "bytes \<Rightarrow> bool" where
  "SlotReadData_isEmergencyStop m \<longleftrightarrow> m ! 5 = 0x01"

definition SlotReadData_speed :: "bytes \<Rightarrow> u8" where
  "SlotReadData_speed m = (if m ! 5 > 1 then m ! 5 - 1 else 0)"

definition SlotReadData_direction :: "bytes \<Rightarrow> Direction" where
  "SlotReadData_direction m = (if testFlag (m ! 6) SL_DIR then DirForward else DirReverse)"

definition SlotReadData_setDirection :: "Direction \<Rightarrow> bytes \<Rightarrow> bytes" where
  "SlotReadData_setDirection value m = m[6 := setFlag (m ! 6) SL_DIR (value = DirForward)]"

text \<open>F0-F4 are in \<^verbatim>\<open>dirf\<close>, F5-F8 in \<^verbatim>\<open>snd\<close>.\<close>

definition SlotReadData_fN :: "nat \<Rightarrow> bytes \<Rightarrow> bool" where
  "SlotReadData_fN n m = testFlag (if n \<le> 4 then m ! 6 else m ! 10) (SL_F n)"

definition SlotReadData_f :: "bytes \<Rightarrow> nat \<Rightarrow> bool" where
  "SlotReadData_f m n =
    (if n = 0 then SlotReadData_fN 0 m
     else if n \<le> 4 then shiftTest (m ! 6) (n - 1)
     else shiftTest (m ! 10) (n - 5))"

definition SlotReadData_setFN :: "nat \<Rightarrow> bool \<Rightarrow> bytes \<Rightarrow> bytes" where
  "SlotReadData_setFN n value m =
    (if n \<le> 4 then m[6 := setFlag (m ! 6) (SL_F n) value]
     else m[10 := setFlag (m ! 10) (SL_F n) value])"

end
