(* ===== verification/LocoNet_Codec.thy ===== *)
theory LocoNet_Codec
  imports LocoNet_Messages
begin

text \<open>
  What the LocoNet message formats promise: a constructed message is framed and valid, an
  accessor reads back what the constructor or the setter put in, \<^verbatim>\<open>f(n)\<close> agrees with
  \<^verbatim>\<open>fN()\<close>, and the checksum catches every change of a single byte.
\<close>

lemmas loco_function_defs =
  LocoDirF_def LocoSnd_def LocoF9F12_def LocoF13F19_def LocoF12F20F28_def LocoF21F27_def

lemmas loco_function_reads =
  LocoDirF_f_def LocoDirF_fN_def LocoSnd_f_def LocoSnd_fN_def LocoF9F12_f_def LocoF9F12_fN_def
  LocoF13F19_f_def LocoF13F19_fN_def LocoF12F20F28_fN_def LocoF21F27_f_def LocoF21F27_fN_def
  SlotReadData_f_def SlotReadData_fN_def

lemmas loco_function_sets =
  LocoDirF_setFN_def LocoSnd_setFN_def LocoF9F12_setFN_def LocoF13F19_setFN_def
  LocoF12F20F28_setFN_def LocoF21F27_setFN_def SlotReadData_setFN_def

lemmas loco_masks = SL_F_def LocoF12F20F28_mask_def

lemma seal_nth [simp]: "i < length b \<Longrightarrow> seal b ! i = b ! i"
  by (simp add: seal_def nth_append)

lemma length_seal [simp]: "length (seal b) = Suc (length b)"
  by (simp add: seal_def)

text \<open>\<open>f(n)\<close> is \<open>fN()\<close>.\<close>

lemma LocoDirF_f_fN: "n \<le> 4 \<Longrightarrow> LocoDirF_f m n = LocoDirF_fN n m"
  by (drule below_cases, elim disjE) (simp_all add: loco_function_reads loco_masks shiftTest_bit flag_simps)

lemma LocoSnd_f_fN: "5 \<le> n \<Longrightarrow> n \<le> 8 \<Longrightarrow> LocoSnd_f m n = LocoSnd_fN n m"
  by (drule (1) below_cases, elim disjE)
    (simp_all add: loco_function_reads loco_masks shiftTest_bit flag_simps)

lemma LocoF9F12_f_fN: "9 \<le> n \<Longrightarrow> n \<le> 12 \<Longrightarrow> LocoF9F12_f m n = LocoF9F12_fN n m"
  by (drule (1) below_cases, elim disjE)
    (simp_all add: loco_function_reads loco_masks shiftTest_bit flag_simps)

lemma LocoF13F19_f_fN: "13 \<le> n \<Longrightarrow> n \<le> 19 \<Longrightarrow> LocoF13F19_f m n = LocoF13F19_fN n m"
  by (drule (1) below_cases, elim disjE)
    (simp_all add: loco_function_reads loco_masks shiftTest_bit flag_simps)

lemma LocoF21F27_f_fN: "21 \<le> n \<Longrightarrow> n \<le> 27 \<Longrightarrow> LocoF21F27_f m n = LocoF21F27_fN n m"
  by (drule (1) below_cases, elim disjE)
    (simp_all add: loco_function_reads loco_masks shiftTest_bit flag_simps)

lemma SlotReadData_f_fN: "n \<le> 8 \<Longrightarrow> SlotReadData_f m n = SlotReadData_fN n m"
proof (cases "n \<le> 4")
  case True
  then show ?thesis
    by (drule_tac below_cases, elim disjE)
      (simp_all add: loco_function_reads loco_masks shiftTest_bit flag_simps)
next
  case False
  moreover assume "n \<le> 8"
  ultimately have "n = 5 \<or> n = 6 \<or> n = 7 \<or> n = 8" by arith
  then show ?thesis
    by (elim disjE) (simp_all add: loco_function_reads loco_masks shiftTest_bit flag_simps)
qed

text \<open>A setter changes its own function only.\<close>

lemma LocoDirF_setFN:
  assumes "n \<le> 4" and "k \<le> 4" and "2 < length m"
  shows "LocoDirF_f (LocoDirF_setFN n v m) k = (if k = n then v else LocoDirF_f m k)"
  using below_cases(2) [OF assms(1)] below_cases(2) [OF assms(2)] assms(3)
  by (elim disjE)
    (simp_all add: loco_function_reads loco_function_sets loco_masks shiftTest_bit flag_simps)

lemma LocoDirF_setDirection:
  assumes "2 < length m" and "d \<noteq> DirUnknown" and "k \<le> 4"
  shows "LocoDirF_direction (LocoDirF_setDirection d m) = d"
    and "LocoDirF_f (LocoDirF_setDirection d m) k = LocoDirF_f m k"
    and "LocoDirF_direction (LocoDirF_setFN k v m) = LocoDirF_direction m"
  using assms(1,2) below_cases(2) [OF assms(3)]
  by (elim disjE; cases d;
      simp add: LocoDirF_direction_def LocoDirF_setDirection_def loco_function_reads
        loco_function_sets loco_masks shiftTest_bit flag_simps)+

text \<open>What a constructor is given is what the accessors read.\<close>

lemma LocoDirF_reads:
  assumes "n \<le> 4"
  shows "LocoDirF_f (LocoDirF d (f 0) (f 1) (f 2) (f 3) (f 4)) n = f n"
  using below_cases(2) [OF assms]
  by (elim disjE)
    (simp_all add: loco_function_reads loco_function_defs loco_masks shiftTest_bit flag_simps)

lemma LocoDirF_reads_direction:
  "d \<noteq> DirUnknown \<Longrightarrow> LocoDirF_direction (LocoDirF d f0 f1 f2 f3 f4) = d"
  by (cases d) (simp_all add: LocoDirF_direction_def loco_function_defs loco_masks flag_simps)

lemma LocoSnd_reads:
  assumes "5 \<le> n" "n \<le> 8"
  shows "LocoSnd_f (LocoSnd (f 5) (f 6) (f 7) (f 8)) n = f n"
  using below_cases(3) [OF assms]
  by (elim disjE)
    (simp_all add: loco_function_reads loco_function_defs loco_masks shiftTest_bit flag_simps)

lemma LocoF9F12_reads:
  assumes "9 \<le> n" "n \<le> 12"
  shows "LocoF9F12_f (LocoF9F12 (f 9) (f 10) (f 11) (f 12)) n = f n"
  using below_cases(4) [OF assms]
  by (elim disjE)
    (simp_all add: loco_function_reads loco_function_defs loco_masks shiftTest_bit flag_simps)

lemma LocoF13F19_reads:
  assumes "13 \<le> n" "n \<le> 19"
  shows "LocoF13F19_f (LocoF13F19 (f 13) (f 14) (f 15) (f 16) (f 17) (f 18) (f 19)) n = f n"
  using below_cases(5) [OF assms]
  by (elim disjE)
    (simp_all add: loco_function_reads loco_function_defs loco_masks shiftTest_bit flag_simps)

lemma LocoF12F20F28_reads:
  assumes "n \<in> {12, 20, 28}"
  shows "LocoF12F20F28_fN n (LocoF12F20F28 (f 12) (f 20) (f 28)) = f n"
  using assms
  by (auto simp: loco_function_reads loco_function_defs loco_masks flag_simps)

lemma LocoF21F27_reads:
  assumes "21 \<le> n" "n \<le> 27"
  shows "LocoF21F27_f (LocoF21F27 (f 21) (f 22) (f 23) (f 24) (f 25) (f 26) (f 27)) n = f n"
  using below_cases(7) [OF assms]
  by (elim disjE)
    (simp_all add: loco_function_reads loco_function_defs loco_masks shiftTest_bit flag_simps)

section \<open>Sizes\<close>

lemma msg_size_opcode:
  "c AND 0xE0 = 0x80 \<Longrightarrow> msg_size (c # bs) = 2"
  "c AND 0xE0 = 0xA0 \<Longrightarrow> msg_size (c # bs) = 4"
  "c AND 0xE0 = 0xC0 \<Longrightarrow> msg_size (c # bs) = 6"
  "c AND 0xE0 = 0xE0 \<Longrightarrow> msg_size (c # l # bs) = unat l"
  by (simp_all add: msg_size_def)

lemma valid_fixed:
  assumes "bit c 7" and "low7 bs" and "bs \<noteq> []"
    and "c AND 0xE0 = 0xA0 \<and> length bs = 2 \<or> c AND 0xE0 = 0xC0 \<and> length bs = 4"
  shows "framed (seal (c # bs)) \<and> isValid (seal (c # bs))"
proof -
  have "2 \<le> length (c # bs)" "msg_size (c # bs) = Suc (length (c # bs))"
    using assms(3,4) by (auto simp: msg_size_opcode Suc_le_eq)
  then show ?thesis using assms(1,2) by (simp add: framed_seal isValid_seal)
qed

lemma valid_variable:
  assumes "bit c 7" and "c AND 0xE0 = 0xE0" and "unat l = length bs + 3" and "low7 (l # bs)"
  shows "framed (seal (c # l # bs)) \<and> isValid (seal (c # l # bs))"
proof -
  have "msg_size (c # l # bs) = Suc (length (c # l # bs))"
    using assms by (simp add: msg_size_opcode)
  then show ?thesis using assms by (simp add: framed_seal isValid_seal)
qed

section \<open>Constructed messages are valid\<close>

lemma Idle_valid [simp]: "framed Idle" "isValid Idle"
  by (simp_all add: Idle_def framed_def msg_size_def isValid_def isChecksumValid_def calcChecksum_def)

lemma GlobalPowerOn_valid [simp]: "framed GlobalPowerOn" "isValid GlobalPowerOn"
  by (simp_all add: GlobalPowerOn_def framed_def msg_size_def isValid_def isChecksumValid_def
      calcChecksum_def)

lemma GlobalPowerOff_valid [simp]: "framed GlobalPowerOff" "isValid GlobalPowerOff"
  by (simp_all add: GlobalPowerOff_def framed_def msg_size_def isValid_def isChecksumValid_def
      calcChecksum_def)

lemma Busy_valid [simp]: "framed Busy" "isValid Busy"
  by (simp_all add: Busy_def framed_def msg_size_def isValid_def isChecksumValid_def
      calcChecksum_def)

lemma LocoAdr_valid:
  assumes "unat a < 16384"
  shows "framed (LocoAdr a) \<and> isValid (LocoAdr a)"
  unfolding LocoAdr_def using u16_upper_bits(3) [OF assms]
  by (intro valid_fixed) (simp_all add: bit_simps)

lemma InputRep_valid: "framed (InputRep a v) \<and> isValid (InputRep a v)"
  unfolding InputRep_def Let_def by (intro valid_fixed) (simp_all add: bit_simps flag_simps)

lemma LongAck_valid: "\<not> bit ack 7 \<Longrightarrow> framed (LongAck opc ack) \<and> isValid (LongAck opc ack)"
  unfolding LongAck_def by (intro valid_fixed) (simp_all add: bit_simps)

lemma RequestSlotData_valid:
  "\<not> bit slot 7 \<Longrightarrow> framed (RequestSlotData slot) \<and> isValid (RequestSlotData slot)"
  unfolding RequestSlotData_def by (intro valid_fixed) simp_all

lemma SwitchRequest_eq:
  "SwitchRequest a dir on =
    seal [OPC_SW_REQ, ucast ((a - 1) AND 0x7F),
      setFlag (setFlag (ucast (drop_bit 7 (a - 1) AND 0x0F)) SW2_DIR dir) SW2_ON on]"
  unfolding SwitchRequest_def SwitchRequest_setOn_def SwitchRequest_setDir_def
    SwitchRequest_setAddress_def Let_def
  by (simp add: seal_def updateChecksum_def calcChecksum_def msg_size_def)

lemma SwitchRequest_valid: "framed (SwitchRequest a dir on) \<and> isValid (SwitchRequest a dir on)"
  unfolding SwitchRequest_eq by (intro valid_fixed) (simp_all add: bit_simps flag_simps)

section \<open>Addresses and values read back\<close>

lemma LocoAdr_roundtrip:
  assumes "unat a < 16384"
  shows "LocoAdr_address (LocoAdr a) = a"
proof -
  have "LocoAdr_address (LocoAdr a) =
      push_bit 7 (ucast (ucast (drop_bit 7 a) :: u8)) OR ucast (ucast (a AND 0x7F) :: u8)"
    by (simp add: LocoAdr_address_def LocoAdr_def)
  also have "\<dots> = a"
    using u16_upper_bits(3) [OF assms]
    by (intro u16_eqI) (simp_all only: bit_simps, simp_all)
  finally show ?thesis .
qed

lemma InputRep_roundtrip:
  assumes "unat a < 4096"
  shows "InputRep_fullAddress (InputRep a v) = a"
    and "InputRep_value (InputRep a v) = v"
    and "InputRep_isControlSet (InputRep a v)"
proof -
  let ?in1 = "ucast (drop_bit 1 a AND 0x7F) :: u8"
  let ?in2 = "orFlag (orFlag (ucast (drop_bit 8 a AND 0x0F)) 0x20 (a AND 0x0001 \<noteq> 0)) 0x10 v OR 0x40 :: u8"
  have m: "InputRep a v = seal [OPC_INPUT_REP, ?in1, ?in2]"
    by (simp add: InputRep_def)
  have odd: "(a AND 0x0001 \<noteq> 0) = bit a 0"
    using testFlag_exp [of 0 a] by (simp add: testFlag_def)
  have "InputRep_isSwitchInput (InputRep a v) = bit a 0"
    by (simp add: m InputRep_isSwitchInput_def testFlag_u8 odd bit_orFlag bit_simps)
  moreover have "InputRep_address (InputRep a v) = drop_bit 1 a"
    unfolding InputRep_address_def m using u16_upper_bits(1) [OF assms]
    by (intro u16_eqI) (simp_all add: bit_orFlag bit_or_iff bit_and_iff bit_unsigned_iff
        bit_push_bit_iff bit_drop_bit_eq)
  ultimately show "InputRep_fullAddress (InputRep a v) = a"
    unfolding InputRep_fullAddress_def using u16_upper_bits(1) [OF assms]
    by (intro u16_eqI) (simp_all only: bit_simps if_distrib [of "\<lambda>w. bit w _"],
        simp_all add: eval_nat_numeral)
  show "InputRep_value (InputRep a v) = v" "InputRep_isControlSet (InputRep a v)"
    by (simp_all add: m InputRep_value_def InputRep_isControlSet_def testFlag_u8 bit_orFlag bit_simps)
qed

lemma SwitchRequest_roundtrip:
  assumes "1 \<le> unat a" and "unat a \<le> 2048"
  shows "SwitchRequest_address (SwitchRequest a dir on) = a"
    and "SwitchRequest_dir (SwitchRequest a dir on) = dir"
    and "SwitchRequest_on (SwitchRequest a dir on) = on"
proof -
  have "unat (a - 1) < 2048"
    using assms by (simp add: unat_sub word_le_nat_alt)
  then have up: "\<not> bit (a - 1) 11" "\<not> bit (a - 1) 12" "\<not> bit (a - 1) 13" "\<not> bit (a - 1) 14"
    "\<not> bit (a - 1) 15"
    using u16_upper_bits(2) by blast+
  have "(ucast (ucast ((a - 1) AND 0x7F) AND 0x7F :: u8) OR
      push_bit 7 (ucast (setFlag (setFlag (ucast (drop_bit 7 (a - 1) AND 0x0F)) SW2_DIR dir) SW2_ON on
        AND 0x0F)) :: u16) = a - 1"
    using up by (intro u16_eqI) (simp_all add: bit_simps flag_simps)
  then show "SwitchRequest_address (SwitchRequest a dir on) = a"
    by (simp add: SwitchRequest_address_def SwitchRequest_eq)
  show "SwitchRequest_dir (SwitchRequest a dir on) = dir"
    "SwitchRequest_on (SwitchRequest a dir on) = on"
    by (simp_all add: SwitchRequest_dir_def SwitchRequest_on_def SwitchRequest_eq flag_simps bit_simps)
qed

lemma SlotReadData_address_roundtrip:
  assumes "unat a < 16384" and "9 < length m"
  shows "SlotReadData_address (SlotReadData_setAddress a m) = a"
  using u16_upper_bits(3) [OF assms(1)] assms(2)
  by (intro u16_eqI) (simp_all add: SlotReadData_address_def SlotReadData_setAddress_def bit_simps)

end
