(* ===== verification/LocoNet_Imm.thy ===== *)
theory LocoNet_Imm
  imports LocoNet_Codec
begin

text \<open>
  DCC packets sent through the command station (\<^verbatim>\<open>OPC_IMM_PACKET\<close>): the generic packet
  (\<^verbatim>\<open>message/immpacket.hpp\<close>), the DCC accessory packet that it carries
  (\<^verbatim>\<open>dcc/messages.hpp\<close>) and the six function messages F9-F12, F13-F20 and F21-F28 for short
  and long addresses (\<^verbatim>\<open>message/locof9f12imm.hpp\<close>, \<^verbatim>\<open>locof13f20imm.hpp\<close>,
  \<^verbatim>\<open>locof21f28imm.hpp\<close>) with their signatures.  A struct has the opcode at offset 0, the
  length at 1 and \<^verbatim>\<open>data1 .. data8\<close> at 2 to 9.
\<close>

section \<open>Generic packet\<close>

definition ImmPacket_signature :: signature where
  "ImmPacket_signature =
    [sigOp OPC_IMM_PACKET, (11, 0xFF), (0x7F, 0xFF), (0x00, 0x84), (0x20, 0xE0),
     sigAny, sigAny, sigAny, sigAny, sigAny]"

abbreviation (input) "dccPacketSizeMax \<equiv> (5 :: nat)"
abbreviation (input) "repeatMax \<equiv> (7 :: u8)"

text \<open>The loop over the packet's bytes: low seven bits into \<^verbatim>\<open>im[i]\<close>, bit 7 into \<^verbatim>\<open>dhi\<close>.\<close>

fun immFill :: "nat \<Rightarrow> bytes \<Rightarrow> u8 \<times> bytes \<Rightarrow> u8 \<times> bytes" where
  "immFill i [] (dhi, im) = (dhi, im)"
| "immFill i (b # bs) (dhi, im) =
    immFill (Suc i) bs
      (if b AND 0x80 \<noteq> 0 then dhi OR push_bit i 1 else dhi, im[i := b AND 0x7F])"

definition ImmPacket :: "bytes \<Rightarrow> u8 \<Rightarrow> bytes" where
  "ImmPacket dccPacket repeat =
    (let dccPacketSize = min (length dccPacket) dccPacketSizeMax;
         reps = (repeat AND 0x07) OR push_bit 4 (of_nat dccPacketSize);
         (dhi, im) = immFill 0 (take dccPacketSize dccPacket) (0x20, [0, 0, 0, 0, 0])
     in seal ([OPC_IMM_PACKET, 11, 0x7F, reps, dhi] @ im))"

text \<open>\<^verbatim>\<open>DCC::SetAdvancedAccessoryValue\<close>: three bytes.\<close>

definition SetAdvancedAccessoryValue :: "u16 \<Rightarrow> u8 \<Rightarrow> bytes" where
  "SetAdvancedAccessoryValue address value =
    (let address = address + 3;
         address1 = 0x80 OR (ucast (drop_bit 2 address) AND 0x3F);
         address2 = (ucast (drop_bit 4 (NOT address)) AND 0x70)
           OR (ucast (push_bit 1 address) AND 0x06) OR 0x01
     in [address1, address2, value])"

section \<open>LocoF9F12IMMShortAddress\<close>

definition LocoF9F12IMMShortAddress_signature :: signature where
  "LocoF9F12IMMShortAddress_signature =
    [sigOp OPC_IMM_PACKET, (11, 0xFF), (0x7F, 0xFF), (0x24, 0xFF), (0x02, 0x82),
     sigAny, (0x20, 0xA0), (0x00, 0xFF), (0x00, 0xFF), (0x00, 0xFF)]"

definition LocoF9F12IMMShortAddress_mask :: "nat \<Rightarrow> u8" where
  "LocoF9F12IMMShortAddress_mask n =
    (if n = 9 then 0x01 else if n = 10 then 0x02 else if n = 11 then 0x04 else if n = 12 then 0x08 else 0)"

definition LocoF9F12IMMShortAddress_address :: "bytes \<Rightarrow> u8" where
  "LocoF9F12IMMShortAddress_address m = m ! 5"

definition LocoF9F12IMMShortAddress_setAddress :: "u8 \<Rightarrow> bytes \<Rightarrow> bytes" where
  "LocoF9F12IMMShortAddress_setAddress value m = m[5 := value AND 0x7F]"

definition LocoF9F12IMMShortAddress_fN :: "nat \<Rightarrow> bytes \<Rightarrow> bool" where
  "LocoF9F12IMMShortAddress_fN n m = testFlag (m ! 6) (LocoF9F12IMMShortAddress_mask n)"

definition LocoF9F12IMMShortAddress_setFN :: "nat \<Rightarrow> bool \<Rightarrow> bytes \<Rightarrow> bytes" where
  "LocoF9F12IMMShortAddress_setFN n on m =
    (let k = 6 in m[k := setFlag (m ! k) (LocoF9F12IMMShortAddress_mask n) on])"

definition LocoF9F12IMMShortAddress_f :: "bytes \<Rightarrow> nat \<Rightarrow> bool" where
  "LocoF9F12IMMShortAddress_f m n = shiftTest (m ! 6) (n - 9)"

definition LocoF9F12IMMShortAddress ::
  "u8 \<Rightarrow> bool \<Rightarrow> bool \<Rightarrow> bool \<Rightarrow> bool \<Rightarrow> bytes" where
  "LocoF9F12IMMShortAddress address f9on f10on f11on f12on =
    (let m = LocoF9F12IMMShortAddress_setAddress address
          [OPC_IMM_PACKET, 11, 0x7F, 0x24, 0x22, 0, 0x20, 0x00, 0x00, 0x00];
         m = LocoF9F12IMMShortAddress_setFN 9 f9on m;
         m = LocoF9F12IMMShortAddress_setFN 10 f10on m;
         m = LocoF9F12IMMShortAddress_setFN 11 f11on m;
         m = LocoF9F12IMMShortAddress_setFN 12 f12on m
     in seal m)"

section \<open>LocoF9F12IMMLongAddress\<close>

definition LocoF9F12IMMLongAddress_signature :: signature where
  "LocoF9F12IMMLongAddress_signature =
    [sigOp OPC_IMM_PACKET, (11, 0xFF), (0x7F, 0xFF), (0x34, 0xFF), (0x05, 0xD5),
     (0x40, 0x40), sigAny, (0x20, 0xF0), (0x00, 0xFF), (0x00, 0xFF)]"

definition LocoF9F12IMMLongAddress_mask :: "nat \<Rightarrow> u8" where
  "LocoF9F12IMMLongAddress_mask n =
    (if n = 9 then 0x01 else if n = 10 then 0x02 else if n = 11 then 0x04 else if n = 12 then 0x08 else 0)"

definition LocoF9F12IMMLongAddress_address :: "bytes \<Rightarrow> u16" where
  "LocoF9F12IMMLongAddress_address m =
    push_bit 8 (ucast (m ! 5 AND 0x3F)) OR
    ucast (push_bit 6 (m ! 4 AND 0x02)) OR ucast (m ! 6 AND 0x7F)"

definition LocoF9F12IMMLongAddress_setAddress :: "u16 \<Rightarrow> bytes \<Rightarrow> bytes" where
  "LocoF9F12IMMLongAddress_setAddress value m =
    m[4 := (m ! 4 AND 0x7D) OR ucast (drop_bit 6 (value AND 0x80)),
      5 := 0x40 OR ucast (drop_bit 8 value AND 0x3F),
      6 := ucast (value AND 0x7F)]"

definition LocoF9F12IMMLongAddress_fN :: "nat \<Rightarrow> bytes \<Rightarrow> bool" where
  "LocoF9F12IMMLongAddress_fN n m = testFlag (m ! 7) (LocoF9F12IMMLongAddress_mask n)"

definition LocoF9F12IMMLongAddress_setFN :: "nat \<Rightarrow> bool \<Rightarrow> bytes \<Rightarrow> bytes" where
  "LocoF9F12IMMLongAddress_setFN n on m =
    (let k = 7 in m[k := setFlag (m ! k) (LocoF9F12IMMLongAddress_mask n) on])"

definition LocoF9F12IMMLongAddress_f :: "bytes \<Rightarrow> nat \<Rightarrow> bool" where
  "LocoF9F12IMMLongAddress_f m n = shiftTest (m ! 7) (n - 9)"

definition LocoF9F12IMMLongAddress ::
  "u16 \<Rightarrow> bool \<Rightarrow> bool \<Rightarrow> bool \<Rightarrow> bool \<Rightarrow> bytes" where
  "LocoF9F12IMMLongAddress address f9on f10on f11on f12on =
    (let m = LocoF9F12IMMLongAddress_setAddress address
          [OPC_IMM_PACKET, 11, 0x7F, 0x34, 0x25, 0x40, 0, 0x20, 0x00, 0x00];
         m = LocoF9F12IMMLongAddress_setFN 9 f9on m;
         m = LocoF9F12IMMLongAddress_setFN 10 f10on m;
         m = LocoF9F12IMMLongAddress_setFN 11 f11on m;
         m = LocoF9F12IMMLongAddress_setFN 12 f12on m
     in seal m)"

section \<open>LocoF13F20IMMShortAddress\<close>

definition LocoF13F20IMMShortAddress_signature :: signature where
  "LocoF13F20IMMShortAddress_signature =
    [sigOp OPC_IMM_PACKET, (11, 0xFF), (0x7F, 0xFF), (0x34, 0xFF), (0x02, 0xDB),
     sigAny, (0x5E, 0xFF), sigAny, (0x00, 0xFF), (0x00, 0xFF)]"

definition LocoF13F20IMMShortAddress_mask :: "nat \<Rightarrow> u8" where
  "LocoF13F20IMMShortAddress_mask n =
    (if n = 13 then 0x01 else if n = 14 then 0x02 else if n = 15 then 0x04 else if n = 16 then 0x08
     else if n = 17 then 0x10 else if n = 18 then 0x20 else if n = 19 then 0x40
     else if n = 20 then 0x04 else 0)"

definition LocoF13F20IMMShortAddress_address :: "bytes \<Rightarrow> u8" where
  "LocoF13F20IMMShortAddress_address m = m ! 5"

definition LocoF13F20IMMShortAddress_setAddress :: "u8 \<Rightarrow> bytes \<Rightarrow> bytes" where
  "LocoF13F20IMMShortAddress_setAddress value m = m[5 := value AND 0x7F]"

definition LocoF13F20IMMShortAddress_fN :: "nat \<Rightarrow> bytes \<Rightarrow> bool" where
  "LocoF13F20IMMShortAddress_fN n m = testFlag (m ! (if n = 20 then 4 else 7)) (LocoF13F20IMMShortAddress_mask n)"

definition LocoF13F20IMMShortAddress_setFN :: "nat \<Rightarrow> bool \<Rightarrow> bytes \<Rightarrow> bytes" where
  "LocoF13F20IMMShortAddress_setFN n on m =
    (let k = (if n = 20 then 4 else 7) in m[k := setFlag (m ! k) (LocoF13F20IMMShortAddress_mask n) on])"

definition LocoF13F20IMMShortAddress_f :: "bytes \<Rightarrow> nat \<Rightarrow> bool" where
  "LocoF13F20IMMShortAddress_f m n = (if n = 20 then LocoF13F20IMMShortAddress_fN 20 m else shiftTest (m ! 7) (n - 13))"

definition LocoF13F20IMMShortAddress ::
  "u8 \<Rightarrow> bool \<Rightarrow> bool \<Rightarrow> bool \<Rightarrow> bool \<Rightarrow> bool \<Rightarrow> bool \<Rightarrow> bool \<Rightarrow> bool \<Rightarrow> bytes" where
  "LocoF13F20IMMShortAddress address f13on f14on f15on f16on f17on f18on f19on f20on =
    (let m = LocoF13F20IMMShortAddress_setAddress address
          [OPC_IMM_PACKET, 11, 0x7F, 0x34, 0x22, 0, 0x5E, 0, 0x00, 0x00];
         m = LocoF13F20IMMShortAddress_setFN 13 f13on m;
         m = LocoF13F20IMMShortAddress_setFN 14 f14on m;
         m = LocoF13F20IMMShortAddress_setFN 15 f15on m;
         m = LocoF13F20IMMShortAddress_setFN 16 f16on m;
         m = LocoF13F20IMMShortAddress_setFN 17 f17on m;
         m = LocoF13F20IMMShortAddress_setFN 18 f18on m;
         m = LocoF13F20IMMShortAddress_setFN 19 f19on m;
         m = LocoF13F20IMMShortAddress_setFN 20 f20on m
     in seal m)"

section \<open>LocoF13F20IMMLongAddress\<close>

definition LocoF13F20IMMLongAddress_signature :: signature where
  "LocoF13F20IMMLongAddress_signature =
    [sigOp OPC_IMM_PACKET, (11, 0xFF), (0x7F, 0xFF), (0x44, 0xFF), (0x05, 0xD5),
     (0x40, 0x40), sigAny, (0x5E, 0xFF), sigAny, (0x00, 0xFF)]"

definition LocoF13F20IMMLongAddress_mask :: "nat \<Rightarrow> u8" where
  "LocoF13F20IMMLongAddress_mask n =
    (if n = 13 then 0x01 else if n = 14 then 0x02 else if n = 15 then 0x04 else if n = 16 then 0x08
     else if n = 17 then 0x10 else if n = 18 then 0x20 else if n = 19 then 0x40
     else if n = 20 then 0x08 else 0)"

definition LocoF13F20IMMLongAddress_address :: "bytes \<Rightarrow> u16" where
  "LocoF13F20IMMLongAddress_address m =
    push_bit 8 (ucast (m ! 5 AND 0x3F)) OR
    ucast (push_bit 6 (m ! 4 AND 0x02)) OR ucast (m ! 6 AND 0x7F)"

definition LocoF13F20IMMLongAddress_setAddress :: "u16 \<Rightarrow> bytes \<Rightarrow> bytes" where
  "LocoF13F20IMMLongAddress_setAddress value m =
    m[4 := (m ! 4 AND 0x7D) OR ucast (drop_bit 6 (value AND 0x80)),
      5 := 0x40 OR ucast (drop_bit 8 value AND 0x3F),
      6 := ucast (value AND 0x7F)]"

definition LocoF13F20IMMLongAddress_fN :: "nat \<Rightarrow> bytes \<Rightarrow> bool" where
  "LocoF13F20IMMLongAddress_fN n m = testFlag (m ! (if n = 20 then 4 else 8)) (LocoF13F20IMMLongAddress_mask n)"

definition LocoF13F20IMMLongAddress_setFN :: "nat \<Rightarrow> bool \<Rightarrow> bytes \<Rightarrow> bytes" where
  "LocoF13F20IMMLongAddress_setFN n on m =
    (let k = (if n = 20 then 4 else 8) in m[k := setFlag (m ! k) (LocoF13F20IMMLongAddress_mask n) on])"

definition LocoF13F20IMMLongAddress_f :: "bytes \<Rightarrow> nat \<Rightarrow> bool" where
  "LocoF13F20IMMLongAddress_f m n = (if n = 20 then LocoF13F20IMMLongAddress_fN 20 m else shiftTest (m ! 8) (n - 13))"

definition LocoF13F20IMMLongAddress ::
  "u16 \<Rightarrow> bool \<Rightarrow> bool \<Rightarrow> bool \<Rightarrow> bool \<Rightarrow> bool \<Rightarrow> bool \<Rightarrow> bool \<Rightarrow> bool \<Rightarrow> bytes" where
  "LocoF13F20IMMLongAddress address f13on f14on f15on f16on f17on f18on f19on f20on =
    (let m = LocoF13F20IMMLongAddress_setAddress address
          [OPC_IMM_PACKET, 11, 0x7F, 0x44, 0x25, 0, 0x40, 0x5E, 0, 0x00];
         m = LocoF13F20IMMLongAddress_setFN 13 f13on m;
         m = LocoF13F20IMMLongAddress_setFN 14 f14on m;
         m = LocoF13F20IMMLongAddress_setFN 15 f15on m;
         m = LocoF13F20IMMLongAddress_setFN 16 f16on m;
         m = LocoF13F20IMMLongAddress_setFN 17 f17on m;
         m = LocoF13F20IMMLongAddress_setFN 18 f18on m;
         m = LocoF13F20IMMLongAddress_setFN 19 f19on m;
         m = LocoF13F20IMMLongAddress_setFN 20 f20on m
     in seal m)"

section \<open>LocoF21F28IMMShortAddress\<close>

definition LocoF21F28IMMShortAddress_signature :: signature where
  "LocoF21F28IMMShortAddress_signature =
    [sigOp OPC_IMM_PACKET, (11, 0xFF), (0x7F, 0xFF), (0x34, 0xFF), (0x02, 0xDB),
     sigAny, (0x5F, 0xFF), sigAny, (0x00, 0xFF), (0x00, 0xFF)]"

definition LocoF21F28IMMShortAddress_mask :: "nat \<Rightarrow> u8" where
  "LocoF21F28IMMShortAddress_mask n =
    (if n = 21 then 0x01 else if n = 22 then 0x02 else if n = 23 then 0x04 else if n = 24 then 0x08
     else if n = 25 then 0x10 else if n = 26 then 0x20 else if n = 27 then 0x40
     else if n = 28 then 0x04 else 0)"

definition LocoF21F28IMMShortAddress_address :: "bytes \<Rightarrow> u8" where
  "LocoF21F28IMMShortAddress_address m = m ! 5"

definition LocoF21F28IMMShortAddress_setAddress :: "u8 \<Rightarrow> bytes \<Rightarrow> bytes" where
  "LocoF21F28IMMShortAddress_setAddress value m = m[5 := value AND 0x7F]"

definition LocoF21F28IMMShortAddress_fN :: "nat \<Rightarrow> bytes \<Rightarrow> bool" where
  "LocoF21F28IMMShortAddress_fN n m = testFlag (m ! (if n = 28 then 4 else 7)) (LocoF21F28IMMShortAddress_mask n)"

definition LocoF21F28IMMShortAddress_setFN :: "nat \<Rightarrow> bool \<Rightarrow> bytes \<Rightarrow> bytes" where
  "LocoF21F28IMMShortAddress_setFN n on m =
    (let k = (if n = 28 then 4 else 7) in m[k := setFlag (m ! k) (LocoF21F28IMMShortAddress_mask n) on])"

definition LocoF21F28IMMShortAddress_f :: "bytes \<Rightarrow> nat \<Rightarrow> bool" where
  "LocoF21F28IMMShortAddress_f m n = (if n = 28 then LocoF21F28IMMShortAddress_fN 28 m else shiftTest (m ! 7) (n - 21))"

definition LocoF21F28IMMShortAddress ::
  "u8 \<Rightarrow> bool \<Rightarrow> bool \<Rightarrow> bool \<Rightarrow> bool \<Rightarrow> bool \<Rightarrow> bool \<Rightarrow> bool \<Rightarrow> bool \<Rightarrow> bytes" where
  "LocoF21F28IMMShortAddress address f21on f22on f23on f24on f25on f26on f27on f28on =
    (let m = LocoF21F28IMMShortAddress_setAddress address
          [OPC_IMM_PACKET, 11, 0x7F, 0x34, 0x22, 0, 0x5F, 0, 0x00, 0x00];
         m = LocoF21F28IMMShortAddress_setFN 21 f21on m;
         m = LocoF21F28IMMShortAddress_setFN 22 f22on m;
         m = LocoF21F28IMMShortAddress_setFN 23 f23on m;
         m = LocoF21F28IMMShortAddress_setFN 24 f24on m;
         m = LocoF21F28IMMShortAddress_setFN 25 f25on m;
         m = LocoF21F28IMMShortAddress_setFN 26 f26on m;
         m = LocoF21F28IMMShortAddress_setFN 27 f27on m;
         m = LocoF21F28IMMShortAddress_setFN 28 f28on m
     in seal m)"

section \<open>LocoF21F28IMMLongAddress\<close>

definition LocoF21F28IMMLongAddress_signature :: signature where
  "LocoF21F28IMMLongAddress_signature =
    [sigOp OPC_IMM_PACKET, (11, 0xFF), (0x7F, 0xFF), (0x44, 0xFF), (0x05, 0xD5),
     (0x40, 0xC0), sigAny, (0x5F, 0xFF), sigAny, (0x00, 0xFF)]"

definition LocoF21F28IMMLongAddress_mask :: "nat \<Rightarrow> u8" where
  "LocoF21F28IMMLongAddress_mask n =
    (if n = 21 then 0x01 else if n = 22 then 0x02 else if n = 23 then 0x04 else if n = 24 then 0x08
     else if n = 25 then 0x10 else if n = 26 then 0x20 else if n = 27 then 0x40
     else if n = 28 then 0x08 else 0)"

definition LocoF21F28IMMLongAddress_address :: "bytes \<Rightarrow> u16" where
  "LocoF21F28IMMLongAddress_address m =
    push_bit 8 (ucast (m ! 5 AND 0x3F)) OR
    ucast (push_bit 6 (m ! 4 AND 0x02)) OR ucast (m ! 6 AND 0x7F)"

definition LocoF21F28IMMLongAddress_setAddress :: "u16 \<Rightarrow> bytes \<Rightarrow> bytes" where
  "LocoF21F28IMMLongAddress_setAddress value m =
    m[4 := (m ! 4 AND 0x7D) OR ucast (drop_bit 6 (value AND 0x80)),
      5 := 0x40 OR ucast (drop_bit 8 value AND 0x3F),
      6 := ucast (value AND 0x7F)]"

definition LocoF21F28IMMLongAddress_fN :: "nat \<Rightarrow> bytes \<Rightarrow> bool" where
  "LocoF21F28IMMLongAddress_fN n m = testFlag (m ! (if n = 28 then 4 else 8)) (LocoF21F28IMMLongAddress_mask n)"

definition LocoF21F28IMMLongAddress_setFN :: "nat \<Rightarrow> bool \<Rightarrow> bytes \<Rightarrow> bytes" where
  "LocoF21F28IMMLongAddress_setFN n on m =
    (let k = (if n = 28 then 4 else 8) in m[k := setFlag (m ! k) (LocoF21F28IMMLongAddress_mask n) on])"

definition LocoF21F28IMMLongAddress_f :: "bytes \<Rightarrow> nat \<Rightarrow> bool" where
  "LocoF21F28IMMLongAddress_f m n = (if n = 28 then LocoF21F28IMMLongAddress_fN 28 m else shiftTest (m ! 8) (n - 21))"

definition LocoF21F28IMMLongAddress ::
  "u16 \<Rightarrow> bool \<Rightarrow> bool \<Rightarrow> bool \<Rightarrow> bool \<Rightarrow> bool \<Rightarrow> bool \<Rightarrow> bool \<Rightarrow> bool \<Rightarrow> bytes" where
  "LocoF21F28IMMLongAddress address f21on f22on f23on f24on f25on f26on f27on f28on =
    (let m = LocoF21F28IMMLongAddress_setAddress address
          [OPC_IMM_PACKET, 11, 0x7F, 0x44, 0x25, 0x40, 0, 0x5F, 0, 0x00];
         m = LocoF21F28IMMLongAddress_setFN 21 f21on m;
         m = LocoF21F28IMMLongAddress_setFN 22 f22on m;
         m = LocoF21F28IMMLongAddress_setFN 23 f23on m;
         m = LocoF21F28IMMLongAddress_setFN 24 f24on m;
         m = LocoF21F28IMMLongAddress_setFN 25 f25on m;
         m = LocoF21F28IMMLongAddress_setFN 26 f26on m;
         m = LocoF21F28IMMLongAddress_setFN 27 f27on m;
         m = LocoF21F28IMMLongAddress_setFN 28 f28on m
     in seal m)"

end
