(* ===== verification/LocoNet_Imm_Codec.thy ===== *)
theory LocoNet_Imm_Codec
  imports LocoNet_Imm
begin

text \<open>
  The function messages of \<open>LocoNet_Imm\<close>: they are valid, they read back, each matches its own
  signature and no message matches two of the six, and they are what the generic packet
  encoder makes of the DCC instruction they stand for (equivalence of the hand-laid structs
  with \<open>ImmPacket\<close>).
\<close>

lemmas imm_defs =
  LocoF9F12IMMShortAddress_def LocoF9F12IMMLongAddress_def LocoF13F20IMMShortAddress_def
  LocoF13F20IMMLongAddress_def LocoF21F28IMMShortAddress_def LocoF21F28IMMLongAddress_def

lemmas imm_setAddress_defs =
  LocoF9F12IMMShortAddress_setAddress_def LocoF9F12IMMLongAddress_setAddress_def LocoF13F20IMMShortAddress_setAddress_def
  LocoF13F20IMMLongAddress_setAddress_def LocoF21F28IMMShortAddress_setAddress_def LocoF21F28IMMLongAddress_setAddress_def

lemmas imm_setFN_defs =
  LocoF9F12IMMShortAddress_setFN_def LocoF9F12IMMLongAddress_setFN_def LocoF13F20IMMShortAddress_setFN_def
  LocoF13F20IMMLongAddress_setFN_def LocoF21F28IMMShortAddress_setFN_def LocoF21F28IMMLongAddress_setFN_def

lemmas imm_fN_defs =
  LocoF9F12IMMShortAddress_fN_def LocoF9F12IMMLongAddress_fN_def LocoF13F20IMMShortAddress_fN_def
  LocoF13F20IMMLongAddress_fN_def LocoF21F28IMMShortAddress_fN_def LocoF21F28IMMLongAddress_fN_def

lemmas imm_f_defs =
  LocoF9F12IMMShortAddress_f_def LocoF9F12IMMLongAddress_f_def LocoF13F20IMMShortAddress_f_def
  LocoF13F20IMMLongAddress_f_def LocoF21F28IMMShortAddress_f_def LocoF21F28IMMLongAddress_f_def

lemmas imm_masks =
  LocoF9F12IMMShortAddress_mask_def LocoF9F12IMMLongAddress_mask_def LocoF13F20IMMShortAddress_mask_def
  LocoF13F20IMMLongAddress_mask_def LocoF21F28IMMShortAddress_mask_def LocoF21F28IMMLongAddress_mask_def

lemmas imm_address_defs =
  LocoF9F12IMMShortAddress_address_def LocoF9F12IMMLongAddress_address_def LocoF13F20IMMShortAddress_address_def
  LocoF13F20IMMLongAddress_address_def LocoF21F28IMMShortAddress_address_def LocoF21F28IMMLongAddress_address_def

lemmas imm_signature_defs =
  LocoF9F12IMMShortAddress_signature_def LocoF9F12IMMLongAddress_signature_def LocoF13F20IMMShortAddress_signature_def
  LocoF13F20IMMLongAddress_signature_def LocoF21F28IMMShortAddress_signature_def LocoF21F28IMMLongAddress_signature_def

lemmas imm_expand = imm_defs imm_setAddress_defs imm_setFN_defs imm_masks

section \<open>The bytes of each message\<close>

fun setFlags :: "u8 \<Rightarrow> (u8 \<times> bool) list \<Rightarrow> u8" where
  "setFlags b [] = b"
| "setFlags b ((msk, v) # fs) = setFlags (setFlag b msk v) fs"

lemma LocoF9F12IMMShortAddress_bytes:
  "LocoF9F12IMMShortAddress a f9 f10 f11 f12 =
    seal [OPC_IMM_PACKET, 11, 0x7F, 0x24,
      0x22,
      a AND 0x7F,
      setFlags 0x20 [(0x01, f9), (0x02, f10), (0x04, f11), (0x08, f12)], 0, 0, 0]"
  by (simp add: imm_expand)

lemma LocoF9F12IMMLongAddress_bytes:
  "LocoF9F12IMMLongAddress a f9 f10 f11 f12 =
    seal [OPC_IMM_PACKET, 11, 0x7F, 0x34,
      (0x25 AND 0x7D) OR ucast (drop_bit 6 (a AND 0x80)),
      0x40 OR ucast (drop_bit 8 a AND 0x3F), ucast (a AND 0x7F),
      setFlags 0x20 [(0x01, f9), (0x02, f10), (0x04, f11), (0x08, f12)], 0, 0]"
  by (simp add: imm_expand)

lemma LocoF13F20IMMShortAddress_bytes:
  "LocoF13F20IMMShortAddress a f13 f14 f15 f16 f17 f18 f19 f20 =
    seal [OPC_IMM_PACKET, 11, 0x7F, 0x34,
      setFlag 0x22 0x04 f20,
      a AND 0x7F,
      0x5E,
      setFlags 0 [(0x01, f13), (0x02, f14), (0x04, f15), (0x08, f16),
        (0x10, f17), (0x20, f18), (0x40, f19)], 0, 0]"
  by (simp add: imm_expand)

lemma LocoF13F20IMMLongAddress_bytes:
  "LocoF13F20IMMLongAddress a f13 f14 f15 f16 f17 f18 f19 f20 =
    seal [OPC_IMM_PACKET, 11, 0x7F, 0x44,
      setFlag ((0x25 AND 0x7D) OR ucast (drop_bit 6 (a AND 0x80))) 0x08 f20,
      0x40 OR ucast (drop_bit 8 a AND 0x3F), ucast (a AND 0x7F),
      0x5E,
      setFlags 0 [(0x01, f13), (0x02, f14), (0x04, f15), (0x08, f16),
        (0x10, f17), (0x20, f18), (0x40, f19)], 0]"
  by (simp add: imm_expand)

lemma LocoF21F28IMMShortAddress_bytes:
  "LocoF21F28IMMShortAddress a f21 f22 f23 f24 f25 f26 f27 f28 =
    seal [OPC_IMM_PACKET, 11, 0x7F, 0x34,
      setFlag 0x22 0x04 f28,
      a AND 0x7F,
      0x5F,
      setFlags 0 [(0x01, f21), (0x02, f22), (0x04, f23), (0x08, f24),
        (0x10, f25), (0x20, f26), (0x40, f27)], 0, 0]"
  by (simp add: imm_expand)

lemma LocoF21F28IMMLongAddress_bytes:
  "LocoF21F28IMMLongAddress a f21 f22 f23 f24 f25 f26 f27 f28 =
    seal [OPC_IMM_PACKET, 11, 0x7F, 0x44,
      setFlag ((0x25 AND 0x7D) OR ucast (drop_bit 6 (a AND 0x80))) 0x08 f28,
      0x40 OR ucast (drop_bit 8 a AND 0x3F), ucast (a AND 0x7F),
      0x5F,
      setFlags 0 [(0x01, f21), (0x02, f22), (0x04, f23), (0x08, f24),
        (0x10, f25), (0x20, f26), (0x40, f27)], 0]"
  by (simp add: imm_expand)

lemmas imm_bytes =
  LocoF9F12IMMShortAddress_bytes LocoF9F12IMMLongAddress_bytes LocoF13F20IMMShortAddress_bytes
  LocoF13F20IMMLongAddress_bytes LocoF21F28IMMShortAddress_bytes LocoF21F28IMMLongAddress_bytes

section \<open>Validity\<close>

lemma LocoF9F12IMMShortAddress_valid:
  "framed (LocoF9F12IMMShortAddress a f9 f10 f11 f12) \<and>
   isValid (LocoF9F12IMMShortAddress a f9 f10 f11 f12)"
  unfolding imm_bytes by (intro valid_variable) (simp_all add: bit_simps flag_simps)

lemma LocoF9F12IMMLongAddress_valid:
  "framed (LocoF9F12IMMLongAddress a f9 f10 f11 f12) \<and>
   isValid (LocoF9F12IMMLongAddress a f9 f10 f11 f12)"
  unfolding imm_bytes by (intro valid_variable) (simp_all add: bit_simps flag_simps)

lemma LocoF13F20IMMShortAddress_valid:
  "framed (LocoF13F20IMMShortAddress a f13 f14 f15 f16 f17 f18 f19 f20) \<and>
   isValid (LocoF13F20IMMShortAddress a f13 f14 f15 f16 f17 f18 f19 f20)"
  unfolding imm_bytes by (intro valid_variable) (simp_all add: bit_simps flag_simps)

lemma LocoF13F20IMMLongAddress_valid:
  "framed (LocoF13F20IMMLongAddress a f13 f14 f15 f16 f17 f18 f19 f20) \<and>
   isValid (LocoF13F20IMMLongAddress a f13 f14 f15 f16 f17 f18 f19 f20)"
  unfolding imm_bytes by (intro valid_variable) (simp_all add: bit_simps flag_simps)

lemma LocoF21F28IMMShortAddress_valid:
  "framed (LocoF21F28IMMShortAddress a f21 f22 f23 f24 f25 f26 f27 f28) \<and>
   isValid (LocoF21F28IMMShortAddress a f21 f22 f23 f24 f25 f26 f27 f28)"
  unfolding imm_bytes by (intro valid_variable) (simp_all add: bit_simps flag_simps)

lemma LocoF21F28IMMLongAddress_valid:
  "framed (LocoF21F28IMMLongAddress a f21 f22 f23 f24 f25 f26 f27 f28) \<and>
   isValid (LocoF21F28IMMLongAddress a f21 f22 f23 f24 f25 f26 f27 f28)"
  unfolding imm_bytes by (intro valid_variable) (simp_all add: bit_simps flag_simps)

section \<open>Reading back\<close>

lemma LocoF9F12IMMShortAddress_reads:
  assumes "9 \<le> n" "n \<le> 12"
  shows "LocoF9F12IMMShortAddress_f (LocoF9F12IMMShortAddress a (f 9) (f 10) (f 11) (f 12)) n = f n"
  using below_cases(4) [OF assms]
  by (elim disjE)
    (simp_all add: imm_bytes imm_f_defs imm_fN_defs imm_masks shiftTest_bit flag_simps bit_simps)

lemma LocoF9F12IMMLongAddress_reads:
  assumes "9 \<le> n" "n \<le> 12"
  shows "LocoF9F12IMMLongAddress_f (LocoF9F12IMMLongAddress a (f 9) (f 10) (f 11) (f 12)) n = f n"
  using below_cases(4) [OF assms]
  by (elim disjE)
    (simp_all add: imm_bytes imm_f_defs imm_fN_defs imm_masks shiftTest_bit flag_simps bit_simps)

lemma LocoF13F20IMMShortAddress_reads:
  assumes "13 \<le> n" "n \<le> 20"
  shows "LocoF13F20IMMShortAddress_f (LocoF13F20IMMShortAddress a (f 13) (f 14) (f 15) (f 16) (f 17) (f 18) (f 19) (f 20)) n = f n"
  using below_cases(6) [OF assms]
  by (elim disjE)
    (simp_all add: imm_bytes imm_f_defs imm_fN_defs imm_masks shiftTest_bit flag_simps bit_simps)

lemma LocoF13F20IMMLongAddress_reads:
  assumes "13 \<le> n" "n \<le> 20"
  shows "LocoF13F20IMMLongAddress_f (LocoF13F20IMMLongAddress a (f 13) (f 14) (f 15) (f 16) (f 17) (f 18) (f 19) (f 20)) n = f n"
  using below_cases(6) [OF assms]
  by (elim disjE)
    (simp_all add: imm_bytes imm_f_defs imm_fN_defs imm_masks shiftTest_bit flag_simps bit_simps)

lemma LocoF21F28IMMShortAddress_reads:
  assumes "21 \<le> n" "n \<le> 28"
  shows "LocoF21F28IMMShortAddress_f (LocoF21F28IMMShortAddress a (f 21) (f 22) (f 23) (f 24) (f 25) (f 26) (f 27) (f 28)) n = f n"
  using below_cases(8) [OF assms]
  by (elim disjE)
    (simp_all add: imm_bytes imm_f_defs imm_fN_defs imm_masks shiftTest_bit flag_simps bit_simps)

lemma LocoF21F28IMMLongAddress_reads:
  assumes "21 \<le> n" "n \<le> 28"
  shows "LocoF21F28IMMLongAddress_f (LocoF21F28IMMLongAddress a (f 21) (f 22) (f 23) (f 24) (f 25) (f 26) (f 27) (f 28)) n = f n"
  using below_cases(8) [OF assms]
  by (elim disjE)
    (simp_all add: imm_bytes imm_f_defs imm_fN_defs imm_masks shiftTest_bit flag_simps bit_simps)

lemma imm_short_address:
  assumes "\<not> bit a 7"
  shows "LocoF9F12IMMShortAddress_address (LocoF9F12IMMShortAddress a f9 f10 f11 f12) = a"
    "LocoF13F20IMMShortAddress_address (LocoF13F20IMMShortAddress a f13 f14 f15 f16 f17 f18 f19 f20) = a"
    "LocoF21F28IMMShortAddress_address (LocoF21F28IMMShortAddress a f21 f22 f23 f24 f25 f26 f27 f28) = a"
  using assms by (simp_all add: imm_bytes imm_address_defs) (intro u8_eqI; simp add: bit_simps)+

lemma imm_long_address:
  assumes "unat a < 16384"
  shows "LocoF9F12IMMLongAddress_address (LocoF9F12IMMLongAddress a f9 f10 f11 f12) = a"
    "LocoF13F20IMMLongAddress_address (LocoF13F20IMMLongAddress a f13 f14 f15 f16 f17 f18 f19 f20) = a"
    "LocoF21F28IMMLongAddress_address (LocoF21F28IMMLongAddress a f21 f22 f23 f24 f25 f26 f27 f28) = a"
  using u16_upper_bits(3) [OF assms]
  by (simp_all add: imm_bytes imm_address_defs)
    (intro u16_eqI; simp only: bit_simps bit_setFlag; simp)+

section \<open>Signatures\<close>

definition immSignatures :: "signature list" where
  "immSignatures =
    [LocoF9F12IMMShortAddress_signature,
     LocoF9F12IMMLongAddress_signature,
     LocoF13F20IMMShortAddress_signature,
     LocoF13F20IMMLongAddress_signature,
     LocoF21F28IMMShortAddress_signature,
     LocoF21F28IMMLongAddress_signature]"

lemma imm_signature_match:
  "isSignatureMatch LocoF9F12IMMShortAddress_signature
    (LocoF9F12IMMShortAddress a0 f9 f10 f11 f12)"
  "isSignatureMatch LocoF9F12IMMLongAddress_signature
    (LocoF9F12IMMLongAddress a1 f9 f10 f11 f12)"
  "isSignatureMatch LocoF13F20IMMShortAddress_signature
    (LocoF13F20IMMShortAddress a2 f13 f14 f15 f16 f17 f18 f19 f20)"
  "isSignatureMatch LocoF13F20IMMLongAddress_signature
    (LocoF13F20IMMLongAddress a3 f13 f14 f15 f16 f17 f18 f19 f20)"
  "isSignatureMatch LocoF21F28IMMShortAddress_signature
    (LocoF21F28IMMShortAddress a4 f21 f22 f23 f24 f25 f26 f27 f28)"
  "isSignatureMatch LocoF21F28IMMLongAddress_signature
    (LocoF21F28IMMLongAddress a5 f21 f22 f23 f24 f25 f26 f27 f28)"
  unfolding imm_bytes isSignatureMatch_def imm_signature_defs seal_def
  by (simp add: msg_size_def, intro conjI u8_eqI; simp add: bit_simps flag_simps)+

lemma isSignatureMatch_nth:
  assumes "isSignatureMatch sg m" "framed m" "i < length sg"
  shows "m ! i AND snd (sg ! i) = fst (sg ! i)"
proof -
  have "msg_size m = length sg + 1"
    using assms(1) by (simp add: isSignatureMatch_def split: if_splits)
  then have "length m = Suc (length sg)" using assms(2) by (simp add: framed_def)
  moreover have "list_all (\<lambda>(b, v, k). b AND k = v) (zip m sg)"
    using assms(1) by (simp add: isSignatureMatch_def split: if_splits)
  ultimately show ?thesis using assms(3)
    by (auto simp: list_all_length dest!: spec [of _ i] split: prod.splits)
qed

lemma isSignatureMatch_size:
  "isSignatureMatch sg m \<Longrightarrow> msg_size m = length sg + 1"
  by (simp add: isSignatureMatch_def split: if_splits)

lemma below_6: "k < 6 \<Longrightarrow> k = 0 \<or> k = 1 \<or> k = 2 \<or> k = 3 \<or> k = 4 \<or> k = (5 :: nat)"
  by arith

lemma length_immSignatures:
  assumes "k < 6"
  shows "length (immSignatures ! k) = 10"
  using below_6 [OF assms]
  by (elim disjE) (simp_all add: immSignatures_def imm_signature_defs)

text \<open>No message is two of the six.\<close>

lemma imm_signatures_exclusive_nth:
  assumes "framed m" "i < 6" "j < 6"
    and "isSignatureMatch (immSignatures ! i) m" "isSignatureMatch (immSignatures ! j) m"
  shows "i = j"
proof -
  have sig: "m ! n AND snd (immSignatures ! k ! n) = fst (immSignatures ! k ! n)"
    if "k < 6" "isSignatureMatch (immSignatures ! k) m" "n < 10" for k n
    using isSignatureMatch_nth [OF that(2) assms(1)] length_immSignatures [OF that(1)] that(3) by simp
  have bits: "m ! 4 AND 0xD5 = 0x05 \<Longrightarrow> bit (m ! 4) 0" "m ! 4 AND 0xDB = 0x02 \<Longrightarrow> \<not> bit (m ! 4) 0"
    by (drule arg_cong [where f = "\<lambda>w. bit w 0"], simp add: bit_simps)+
  have all: "b AND 0xFF = b" for b :: u8
    by (intro u8_eqI) (simp_all add: bit_simps)
  note s3 = sig [of _ 3] and s4 = sig [of _ 4] and s6 = sig [of _ 6] and s7 = sig [of _ 7]
  show ?thesis
    using below_6 [OF assms(2)] below_6 [OF assms(3)] s3 [OF assms(2,4)] s3 [OF assms(3,5)]
      s4 [OF assms(2,4)] s4 [OF assms(3,5)] s6 [OF assms(2,4)] s6 [OF assms(3,5)]
      s7 [OF assms(2,4)] s7 [OF assms(3,5)]
    by (elim disjE) (simp_all add: immSignatures_def imm_signature_defs all, auto dest: bits)
qed

section \<open>The messages are DCC packets\<close>

text \<open>
  A DCC function instruction is the address (one byte, or \<^verbatim>\<open>0xC0 | high\<close> and low), the
  instruction byte and, for F13-F28, a byte of functions.  Sent four times more.
\<close>

definition dccShort :: "u8 \<Rightarrow> bytes" where
  "dccShort a = [a AND 0x7F]"

definition dccLong :: "u16 \<Rightarrow> bytes" where
  "dccLong a = [0xC0 OR ucast (drop_bit 8 a AND 0x3F), ucast a]"

lemma LocoF9F12IMMShortAddress_is_ImmPacket:
  "LocoF9F12IMMShortAddress a f9 f10 f11 f12 =
    ImmPacket (dccShort a @ [setFlags 0xA0
      [(0x01, f9), (0x02, f10), (0x04, f11), (0x08, f12)]]) 4"
  unfolding imm_bytes ImmPacket_def dccShort_def dccLong_def
  by (simp add: msb_clear_bit7 flag_simps bit_simps split del: if_split,
      rule arg_cong [where f = seal], simp split del: if_split,
      intro conjI u8_eqI; simp add: bit_simps flag_simps)

lemma LocoF9F12IMMLongAddress_is_ImmPacket:
  "LocoF9F12IMMLongAddress a f9 f10 f11 f12 =
    ImmPacket (dccLong a @ [setFlags 0xA0
      [(0x01, f9), (0x02, f10), (0x04, f11), (0x08, f12)]]) 4"
  unfolding imm_bytes ImmPacket_def dccShort_def dccLong_def
  by (simp add: msb_clear_bit7 flag_simps bit_simps split del: if_split,
      rule arg_cong [where f = seal], simp split del: if_split,
      intro conjI u8_eqI; simp add: bit_simps flag_simps)

lemma LocoF13F20IMMShortAddress_is_ImmPacket:
  "LocoF13F20IMMShortAddress a f13 f14 f15 f16 f17 f18 f19 f20 =
    ImmPacket (dccShort a @ [0xDE, setFlags 0
      [(0x01, f13), (0x02, f14), (0x04, f15), (0x08, f16),
       (0x10, f17), (0x20, f18), (0x40, f19), (0x80, f20)]]) 4"
  unfolding imm_bytes ImmPacket_def dccShort_def dccLong_def
  by (simp add: msb_clear_bit7 flag_simps bit_simps split del: if_split,
      rule arg_cong [where f = seal], simp split del: if_split,
      intro conjI u8_eqI; simp add: bit_simps flag_simps)

lemma LocoF13F20IMMLongAddress_is_ImmPacket:
  "LocoF13F20IMMLongAddress a f13 f14 f15 f16 f17 f18 f19 f20 =
    ImmPacket (dccLong a @ [0xDE, setFlags 0
      [(0x01, f13), (0x02, f14), (0x04, f15), (0x08, f16),
       (0x10, f17), (0x20, f18), (0x40, f19), (0x80, f20)]]) 4"
  unfolding imm_bytes ImmPacket_def dccShort_def dccLong_def
  by (simp add: msb_clear_bit7 flag_simps bit_simps split del: if_split,
      rule arg_cong [where f = seal], simp split del: if_split,
      intro conjI u8_eqI; simp add: bit_simps flag_simps)

lemma LocoF21F28IMMShortAddress_is_ImmPacket:
  "LocoF21F28IMMShortAddress a f21 f22 f23 f24 f25 f26 f27 f28 =
    ImmPacket (dccShort a @ [0xDF, setFlags 0
      [(0x01, f21), (0x02, f22), (0x04, f23), (0x08, f24),
       (0x10, f25), (0x20, f26), (0x40, f27), (0x80, f28)]]) 4"
  unfolding imm_bytes ImmPacket_def dccShort_def dccLong_def
  by (simp add: msb_clear_bit7 flag_simps bit_simps split del: if_split,
      rule arg_cong [where f = seal], simp split del: if_split,
      intro conjI u8_eqI; simp add: bit_simps flag_simps)

lemma LocoF21F28IMMLongAddress_is_ImmPacket:
  "LocoF21F28IMMLongAddress a f21 f22 f23 f24 f25 f26 f27 f28 =
    ImmPacket (dccLong a @ [0xDF, setFlags 0
      [(0x01, f21), (0x02, f22), (0x04, f23), (0x08, f24),
       (0x10, f25), (0x20, f26), (0x40, f27), (0x80, f28)]]) 4"
  unfolding imm_bytes ImmPacket_def dccShort_def dccLong_def
  by (simp add: msb_clear_bit7 flag_simps bit_simps split del: if_split,
      rule arg_cong [where f = seal], simp split del: if_split,
      intro conjI u8_eqI; simp add: bit_simps flag_simps)

end
