(* ===== verification/LocoNet_Uhlenbrock.thy ===== *)
theory LocoNet_Uhlenbrock
  imports LocoNet_Codec
begin

text \<open>
  The Uhlenbrock extensions: 15-byte data messages whose data bytes are split into seven bits
  and a shared byte of high bits (\<^verbatim>\<open>message/uhlenbrock/datamessage.hpp\<close>), the LNCV programming
  messages (\<^verbatim>\<open>lncv.hpp\<close>), the special options (\<^verbatim>\<open>specialoption.hpp\<close>) and the LISSY
  reports (\<^verbatim>\<open>lissy.hpp\<close>).  \<^verbatim>\<open>data[i]\<close> of a data message is at offset \<open>2 + i\<close>.
\<close>

section \<open>Data messages\<close>

abbreviation (input) "dataLen \<equiv> (12 :: nat)"

definition DataMessage :: "u8 \<Rightarrow> bytes" where
  "DataMessage opc = [opc, 0x0F] @ replicate dataLen 0 @ [0]"

definition getData :: "nat \<Rightarrow> bytes \<Rightarrow> u8" where
  "getData n m = (if shiftTest (m ! 6) (n - 5) then 0x80 else 0x00) OR m ! (2 + n)"

definition setData :: "nat \<Rightarrow> u8 \<Rightarrow> bytes \<Rightarrow> bytes" where
  "setData n value m =
    (let m = m[2 + n := value AND 0x7F]
     in m[6 := setFlag (m ! 6) (push_bit (n - 5) 1) (value AND 0x80 \<noteq> 0)])"

text \<open>A message type is given by the values and the masks of its twelve data bytes.\<close>

type_synonym magic = "(u8 \<times> u8) list"

definition checkMagicData :: "magic \<Rightarrow> bytes \<Rightarrow> bool" where
  "checkMagicData mg m \<longleftrightarrow> list_all (\<lambda>(b, v, k). b AND k = v) (zip (drop 2 m) mg)"

definition setMagicData :: "magic \<Rightarrow> bytes \<Rightarrow> bytes" where
  "setMagicData mg m =
    take 2 m @ map (\<lambda>(b, v, k). (b AND NOT k) OR v) (zip (drop 2 m) mg) @ drop (2 + length mg) m"

definition ImmPacketDataMessage_check :: "bytes \<Rightarrow> bool" where
  "ImmPacketDataMessage_check m \<longleftrightarrow> opCode m = OPC_IMM_PACKET \<and> msg_size m = 15"

definition PeerXferDataMessage_check :: "bytes \<Rightarrow> bool" where
  "PeerXferDataMessage_check m \<longleftrightarrow> opCode m = OPC_PEER_XFER \<and> msg_size m = 15"

text \<open>\<^verbatim>\<open>get\<close> and \<^verbatim>\<open>set\<close> of a 16-bit field in two data bytes.\<close>

definition getData16 :: "nat \<Rightarrow> bytes \<Rightarrow> u16" where
  "getData16 n m = to16 (getData n m) (getData (n + 1) m)"

definition setData16 :: "nat \<Rightarrow> u16 \<Rightarrow> bytes \<Rightarrow> bytes" where
  "setData16 n value m = setData (n + 1) (high8 value) (setData n (low8 value) m)"

text \<open>\<^verbatim>\<open>checksum = calcChecksum(*this)\<close> on the struct in place.\<close>

definition reseal :: "bytes \<Rightarrow> bytes" where
  "reseal m = m[14 := calcChecksum m]"

section \<open>LNCVStart\<close>

definition LNCVStart_magic :: magic where
  "LNCVStart_magic =
    [(0x01, 0xFF), (0x05, 0xFF), (0x00, 0xFF), (0x21, 0xFF), (0x40, 0xC0), (0x00, 0x80),
     (0x00, 0x80), (0x00, 0xFF), (0x00, 0xFF), (0x00, 0x80), (0x00, 0x80), (0x00, 0xFF)]"

definition LNCVStart_check :: "bytes \<Rightarrow> bool" where
  "LNCVStart_check m \<longleftrightarrow> ImmPacketDataMessage_check m \<and> checkMagicData LNCVStart_magic m"

definition LNCVStart_moduleId :: "bytes \<Rightarrow> u16" where
  "LNCVStart_moduleId m = getData16 5 m"

definition LNCVStart_setModuleId :: "u16 \<Rightarrow> bytes \<Rightarrow> bytes" where
  "LNCVStart_setModuleId value m = setData16 5 value m"

definition LNCVStart_address :: "bytes \<Rightarrow> u16" where
  "LNCVStart_address m = getData16 9 m"

definition LNCVStart_setAddress :: "u16 \<Rightarrow> bytes \<Rightarrow> bytes" where
  "LNCVStart_setAddress value m = setData16 9 value m"

definition LNCVStart :: "u16 \<Rightarrow> u16 \<Rightarrow> bytes" where
  "LNCVStart moduleId address =
    (let m = setMagicData LNCVStart_magic (DataMessage OPC_IMM_PACKET);
         m = LNCVStart_setModuleId moduleId m;
         m = LNCVStart_setAddress address m
     in reseal m)"

section \<open>LNCVRead\<close>

definition LNCVRead_magic :: magic where
  "LNCVRead_magic =
    [(0x01, 0xFF), (0x05, 0xFF), (0x00, 0xFF), (0x21, 0xFF), (0x00, 0xC0), (0x00, 0x80),
     (0x00, 0x80), (0x00, 0x80), (0x00, 0x80), (0x00, 0x80), (0x00, 0x80), (0x00, 0xFF)]"

definition LNCVRead_check :: "bytes \<Rightarrow> bool" where
  "LNCVRead_check m \<longleftrightarrow> ImmPacketDataMessage_check m \<and> checkMagicData LNCVRead_magic m"

definition LNCVRead_moduleId :: "bytes \<Rightarrow> u16" where
  "LNCVRead_moduleId m = getData16 5 m"

definition LNCVRead_setModuleId :: "u16 \<Rightarrow> bytes \<Rightarrow> bytes" where
  "LNCVRead_setModuleId value m = setData16 5 value m"

definition LNCVRead_lncv :: "bytes \<Rightarrow> u16" where
  "LNCVRead_lncv m = getData16 7 m"

definition LNCVRead_setLNCV :: "u16 \<Rightarrow> bytes \<Rightarrow> bytes" where
  "LNCVRead_setLNCV value m = setData16 7 value m"

definition LNCVRead_address :: "bytes \<Rightarrow> u16" where
  "LNCVRead_address m = getData16 9 m"

definition LNCVRead_setAddress :: "u16 \<Rightarrow> bytes \<Rightarrow> bytes" where
  "LNCVRead_setAddress value m = setData16 9 value m"

definition LNCVRead :: "u16 \<Rightarrow> u16 \<Rightarrow> u16 \<Rightarrow> bytes" where
  "LNCVRead moduleId address lncv =
    (let m = setMagicData LNCVRead_magic (DataMessage OPC_IMM_PACKET);
         m = LNCVRead_setModuleId moduleId m;
         m = LNCVRead_setAddress address m;
         m = LNCVRead_setLNCV lncv m
     in reseal m)"

section \<open>LNCVReadResponse\<close>

definition LNCVReadResponse_magic :: magic where
  "LNCVReadResponse_magic =
    [(0x05, 0xFF), (0x49, 0xFF), (0x4B, 0xFF), (0x1F, 0xFF), (0x00, 0x80), (0x00, 0x80),
     (0x00, 0x80), (0x00, 0x80), (0x00, 0x80), (0x00, 0x80), (0x00, 0x80), (0x00, 0xFF)]"

definition LNCVReadResponse_check :: "bytes \<Rightarrow> bool" where
  "LNCVReadResponse_check m \<longleftrightarrow> PeerXferDataMessage_check m \<and> checkMagicData LNCVReadResponse_magic m"

definition LNCVReadResponse_moduleId :: "bytes \<Rightarrow> u16" where
  "LNCVReadResponse_moduleId m = getData16 5 m"

definition LNCVReadResponse_setModuleId :: "u16 \<Rightarrow> bytes \<Rightarrow> bytes" where
  "LNCVReadResponse_setModuleId value m = setData16 5 value m"

definition LNCVReadResponse_lncv :: "bytes \<Rightarrow> u16" where
  "LNCVReadResponse_lncv m = getData16 7 m"

definition LNCVReadResponse_setLNCV :: "u16 \<Rightarrow> bytes \<Rightarrow> bytes" where
  "LNCVReadResponse_setLNCV value m = setData16 7 value m"

definition LNCVReadResponse_value :: "bytes \<Rightarrow> u16" where
  "LNCVReadResponse_value m = getData16 9 m"

definition LNCVReadResponse_setValue :: "u16 \<Rightarrow> bytes \<Rightarrow> bytes" where
  "LNCVReadResponse_setValue value m = setData16 9 value m"

definition LNCVReadResponse :: "u16 \<Rightarrow> u16 \<Rightarrow> u16 \<Rightarrow> bytes" where
  "LNCVReadResponse moduleId lncv value =
    (let m = setMagicData LNCVReadResponse_magic (DataMessage OPC_PEER_XFER);
         m = LNCVReadResponse_setModuleId moduleId m;
         m = LNCVReadResponse_setLNCV lncv m;
         m = LNCVReadResponse_setValue value m
     in reseal m)"

section \<open>LNCVWrite\<close>

definition LNCVWrite_magic :: magic where
  "LNCVWrite_magic =
    [(0x01, 0xFF), (0x05, 0xFF), (0x00, 0xFF), (0x20, 0xFF), (0x00, 0xC0), (0x00, 0x80),
     (0x00, 0x80), (0x00, 0x80), (0x00, 0x80), (0x00, 0x80), (0x00, 0x80), (0x00, 0xFF)]"

definition LNCVWrite_check :: "bytes \<Rightarrow> bool" where
  "LNCVWrite_check m \<longleftrightarrow> ImmPacketDataMessage_check m \<and> checkMagicData LNCVWrite_magic m"

definition LNCVWrite_moduleId :: "bytes \<Rightarrow> u16" where
  "LNCVWrite_moduleId m = getData16 5 m"

definition LNCVWrite_setModuleId :: "u16 \<Rightarrow> bytes \<Rightarrow> bytes" where
  "LNCVWrite_setModuleId value m = setData16 5 value m"

definition LNCVWrite_lncv :: "bytes \<Rightarrow> u16" where
  "LNCVWrite_lncv m = getData16 7 m"

definition LNCVWrite_setLNCV :: "u16 \<Rightarrow> bytes \<Rightarrow> bytes" where
  "LNCVWrite_setLNCV value m = setData16 7 value m"

definition LNCVWrite_value :: "bytes \<Rightarrow> u16" where
  "LNCVWrite_value m = getData16 9 m"

definition LNCVWrite_setValue :: "u16 \<Rightarrow> bytes \<Rightarrow> bytes" where
  "LNCVWrite_setValue value m = setData16 9 value m"

definition LNCVWrite :: "u16 \<Rightarrow> u16 \<Rightarrow> u16 \<Rightarrow> bytes" where
  "LNCVWrite moduleId lncv value =
    (let m = setMagicData LNCVWrite_magic (DataMessage OPC_IMM_PACKET);
         m = LNCVWrite_setModuleId moduleId m;
         m = LNCVWrite_setLNCV lncv m;
         m = LNCVWrite_setValue value m
     in reseal m)"

section \<open>LNCVStop\<close>

definition LNCVStop_magic :: magic where
  "LNCVStop_magic =
    [(0x01, 0xFF), (0x05, 0xFF), (0x00, 0xFF), (0x21, 0xFF), (0x00, 0xCC), (0x00, 0x80),
     (0x00, 0x80), (0x00, 0xFF), (0x00, 0xFF), (0x00, 0x80), (0x00, 0x80), (0x40, 0xFF)]"

definition LNCVStop_check :: "bytes \<Rightarrow> bool" where
  "LNCVStop_check m \<longleftrightarrow> ImmPacketDataMessage_check m \<and> checkMagicData LNCVStop_magic m"

definition LNCVStop_moduleId :: "bytes \<Rightarrow> u16" where
  "LNCVStop_moduleId m = getData16 5 m"

definition LNCVStop_setModuleId :: "u16 \<Rightarrow> bytes \<Rightarrow> bytes" where
  "LNCVStop_setModuleId value m = setData16 5 value m"

definition LNCVStop_address :: "bytes \<Rightarrow> u16" where
  "LNCVStop_address m = getData16 9 m"

definition LNCVStop_setAddress :: "u16 \<Rightarrow> bytes \<Rightarrow> bytes" where
  "LNCVStop_setAddress value m = setData16 9 value m"

definition LNCVStop :: "u16 \<Rightarrow> u16 \<Rightarrow> bytes" where
  "LNCVStop moduleId address =
    (let m = setMagicData LNCVStop_magic (DataMessage OPC_IMM_PACKET);
         m = LNCVStop_setModuleId moduleId m;
         m = LNCVStop_setAddress address m
     in reseal m)"

section \<open>Special options\<close>

definition ReadSpecialOption_magic :: magic where
  "ReadSpecialOption_magic =
    [(0x01, 0xFF), (0x49, 0xFF), (0x42, 0xFF), (0x02, 0xFF), (0x00, 0xFC), (0x00, 0x80),
     (0x00, 0x80), (0x00, 0xFF), (0x00, 0xFF), (0x00, 0xFF), (0x00, 0xFF), (0x00, 0xFF)]"

definition ReadSpecialOption_check :: "bytes \<Rightarrow> bool" where
  "ReadSpecialOption_check m \<longleftrightarrow>
    ImmPacketDataMessage_check m \<and> checkMagicData ReadSpecialOption_magic m"

definition ReadSpecialOption :: "u16 \<Rightarrow> bytes" where
  "ReadSpecialOption specialOption =
    (let m = setMagicData ReadSpecialOption_magic (DataMessage OPC_IMM_PACKET);
         m = setData 5 (ucast (specialOption AND 0xFF)) m;
         m = setData 6 (ucast (drop_bit 8 specialOption)) m
     in reseal m)"

definition ReadSpecialOption_specialOption :: "bytes \<Rightarrow> u16" where
  "ReadSpecialOption_specialOption m = push_bit 8 (ucast (getData 6 m)) OR ucast (getData 5 m)"

definition ReadSpecialOptionReply_magic :: magic where
  "ReadSpecialOptionReply_magic =
    [(0x00, 0xFF), (0x49, 0xFF), (0x4B, 0xFF), (0x00, 0xFF), (0x00, 0xF8), (0x00, 0x80),
     (0x00, 0x80), (0x00, 0x80), (0x00, 0xFF), (0x00, 0xFF), (0x00, 0xFF), (0x00, 0xFF)]"

definition ReadSpecialOptionReply_check :: "bytes \<Rightarrow> bool" where
  "ReadSpecialOptionReply_check m \<longleftrightarrow>
    PeerXferDataMessage_check m \<and> checkMagicData ReadSpecialOptionReply_magic m"

definition ReadSpecialOptionReply :: "u16 \<Rightarrow> u8 \<Rightarrow> bytes" where
  "ReadSpecialOptionReply specialOption value =
    (let m = setMagicData ReadSpecialOptionReply_magic (DataMessage OPC_PEER_XFER);
         m = setData 5 (low8 specialOption) m;
         m = setData 6 (high8 specialOption) m;
         m = setData 7 value m
     in reseal m)"

definition ReadSpecialOptionReply_specialOption :: "bytes \<Rightarrow> u16" where
  "ReadSpecialOptionReply_specialOption m = to16 (getData 5 m) (getData 6 m)"

definition ReadSpecialOptionReply_value :: "bytes \<Rightarrow> u8" where
  "ReadSpecialOptionReply_value m = getData 7 m"

section \<open>LISSY\<close>

text \<open>Offsets: len 1, data1 2, sensorAddressHigh 3, sensorAddressLow 4, data4 5, data5 6.\<close>

datatype LissyType = AddressCategoryDirection | LissySpeedType

definition Lissy_type :: "bytes \<Rightarrow> LissyType" where
  "Lissy_type m = (if m ! 3 AND 0x60 = 0x20 then LissySpeedType else AddressCategoryDirection)"

definition Lissy_sensorAddress :: "bytes \<Rightarrow> u16" where
  "Lissy_sensorAddress m = push_bit 7 (ucast (m ! 3 AND 0x1F)) OR ucast (m ! 4)"

definition Lissy_decoderAddress :: "bytes \<Rightarrow> u16" where
  "Lissy_decoderAddress m = push_bit 7 (ucast (m ! 5)) OR ucast (m ! 6)"

definition Lissy_category :: "bytes \<Rightarrow> u8" where
  "Lissy_category m = (m ! 2 AND 0x03) + 1"

text \<open>
  The remaining case of the switch, \<^verbatim>\<open>0x20\<close>, is the speed report: an assertion, then
  \<^verbatim>\<open>Direction::Unknown\<close>.
\<close>

definition Lissy_direction :: "bytes \<Rightarrow> Direction" where
  "Lissy_direction m =
    (let c = m ! 3 AND 0x60 in
     if c = 0x00 then DirUnknown
     else if c = 0x40 then DirForward
     else if c = 0x60 then DirReverse
     else DirUnknown)"

definition LissySpeed_speed :: "bytes \<Rightarrow> u16" where
  "LissySpeed_speed m = push_bit 7 (ucast (m ! 5)) OR ucast (m ! 6)"

end
