(* ===== verification/LocoNet_Uhlenbrock_Codec.thy ===== *)
theory LocoNet_Uhlenbrock_Codec
  imports LocoNet_Uhlenbrock
begin

text \<open>
  The Uhlenbrock messages: a data byte and its bit in the shared byte read back together and
  leave the other data alone, so every 16-bit field of an LNCV message is read as it was
  written; the constructed messages are valid and are recognised by their own check only.
\<close>

section \<open>Data bytes\<close>

lemma data_cases: "5 \<le> n \<Longrightarrow> n \<le> 10 \<Longrightarrow> n = 5 \<or> n = 6 \<or> n = 7 \<or> n = 8 \<or> n = 9 \<or> (n :: nat) = 10"
  by presburger

lemma bit_shift_one: "bit ((2 :: u8) ^ k) n = (n = k \<and> k < 8)"
  by (auto simp: bit_simps)

lemma length_setData [simp]: "length (setData n v m) = length m"
  by (simp add: setData_def Let_def)

lemma getData_bits:
  "bit (getData n m) j = (bit (m ! (2 + n)) j \<or> j = 7 \<and> bit (m ! 6) (n - 5))"
proof -
  have "bit (0x80 :: u8) j = (j = 7)"
    using bit_shift_one [of 7 j] by simp
  then show ?thesis by (auto simp: getData_def shiftTest_bit bit_or_iff)
qed

lemma getData_setData_same:
  assumes "5 \<le> n" and "n \<le> 10" and "length m = 15"
  shows "getData n (setData n v m) = v"
proof (rule bit_word_eqI)
  fix j :: nat
  assume "j < LENGTH(8)"
  then have j: "j \<in> {0, 1, 2, 3, 4, 5, 6, 7}" by auto
  have "n - 5 < 8" "2 + n \<noteq> 6" "2 + n < 15" using assms(1,2) by auto
  moreover have "v AND 0x80 \<noteq> 0 \<longleftrightarrow> bit v 7" using msb_clear_bit7 [of v] by simp
  ultimately show "bit (getData n (setData n v m)) j = bit v j"
    using j assms(3)
    by (elim insertE; simp add: getData_bits setData_def Let_def bit_setFlag bit_shift_one bit_and_iff)
qed

lemma getData_setData_other:
  assumes "5 \<le> n" and "n \<le> 10" and "5 \<le> k" and "k \<le> 10" and "n \<noteq> k" and "length m = 15"
  shows "getData k (setData n v m) = getData k m"
proof (rule bit_word_eqI)
  fix j :: nat
  have "k - 5 \<noteq> n - 5" "2 + k \<noteq> 6" "2 + n \<noteq> 6" "2 + n < 15" "2 + n \<noteq> 2 + k"
    using assms(1-5) by auto
  then show "bit (getData k (setData n v m)) j = bit (getData k m) j"
    using assms(6)
    by (simp add: getData_bits setData_def Let_def bit_setFlag bit_shift_one)
qed

lemma length_setData16 [simp]: "length (setData16 n v m) = length m"
  by (simp add: setData16_def)

lemma getData16_setData16_same:
  assumes "5 \<le> n" and "n \<le> 9" and "length m = 15"
  shows "getData16 n (setData16 n v m) = v"
  using assms by (simp add: getData16_def setData16_def getData_setData_same getData_setData_other)

lemma getData16_setData16_other:
  assumes "n \<in> {5, 7, 9}" and "k \<in> {5, 7, 9}" and "n \<noteq> k" and "length m = 15"
  shows "getData16 k (setData16 n v m) = getData16 k m"
  using assms by (auto simp: getData16_def setData16_def getData_setData_other)

lemma getData_reseal [simp]: "n \<le> 10 \<Longrightarrow> getData n (reseal m) = getData n m"
  by (simp add: getData_def reseal_def)

lemma getData16_reseal [simp]: "n \<le> 9 \<Longrightarrow> getData16 n (reseal m) = getData16 n m"
  by (simp add: getData16_def)

lemma length_magic:
  "length LNCVStart_magic = 12" "length LNCVRead_magic = 12" "length LNCVReadResponse_magic = 12"
  "length LNCVWrite_magic = 12" "length LNCVStop_magic = 12" "length ReadSpecialOption_magic = 12"
  "length ReadSpecialOptionReply_magic = 12"
  by (simp_all add: LNCVStart_magic_def LNCVRead_magic_def LNCVReadResponse_magic_def
      LNCVWrite_magic_def LNCVStop_magic_def ReadSpecialOption_magic_def ReadSpecialOptionReply_magic_def)

lemma length_DataMessage [simp]: "length (DataMessage opc) = 15"
  by (simp add: DataMessage_def)

lemma length_setMagicData [simp]: "length mg = 12 \<Longrightarrow> length m = 15 \<Longrightarrow> length (setMagicData mg m) = 15"
  by (simp add: setMagicData_def)

lemma length_reseal [simp]: "length (reseal m) = length m"
  by (simp add: reseal_def)

lemmas uhl_fields =
  LNCVStart_moduleId_def LNCVStart_setModuleId_def LNCVStart_address_def LNCVStart_setAddress_def
  LNCVRead_moduleId_def LNCVRead_setModuleId_def LNCVRead_address_def LNCVRead_setAddress_def
  LNCVRead_lncv_def LNCVRead_setLNCV_def
  LNCVReadResponse_moduleId_def LNCVReadResponse_setModuleId_def LNCVReadResponse_lncv_def
  LNCVReadResponse_setLNCV_def LNCVReadResponse_value_def LNCVReadResponse_setValue_def
  LNCVWrite_moduleId_def LNCVWrite_setModuleId_def LNCVWrite_lncv_def
  LNCVWrite_setLNCV_def LNCVWrite_value_def LNCVWrite_setValue_def
  LNCVStop_moduleId_def LNCVStop_setModuleId_def LNCVStop_address_def LNCVStop_setAddress_def

lemmas uhl_ctors = LNCVStart_def LNCVRead_def LNCVReadResponse_def LNCVWrite_def LNCVStop_def

lemmas data16_simps = getData16_setData16_same getData16_setData16_other length_magic

section \<open>LNCV fields\<close>

lemma LNCVStart_reads:
  "LNCVStart_moduleId (LNCVStart i a) = i" "LNCVStart_address (LNCVStart i a) = a"
  by (simp_all add: uhl_ctors uhl_fields data16_simps Let_def)

lemma LNCVRead_reads:
  "LNCVRead_moduleId (LNCVRead i a n) = i" "LNCVRead_address (LNCVRead i a n) = a"
  "LNCVRead_lncv (LNCVRead i a n) = n"
  by (simp_all add: uhl_ctors uhl_fields data16_simps Let_def)

lemma LNCVReadResponse_reads:
  "LNCVReadResponse_moduleId (LNCVReadResponse i n v) = i"
  "LNCVReadResponse_lncv (LNCVReadResponse i n v) = n"
  "LNCVReadResponse_value (LNCVReadResponse i n v) = v"
  by (simp_all add: uhl_ctors uhl_fields data16_simps Let_def)

lemma LNCVWrite_reads:
  "LNCVWrite_moduleId (LNCVWrite i n v) = i" "LNCVWrite_lncv (LNCVWrite i n v) = n"
  "LNCVWrite_value (LNCVWrite i n v) = v"
  by (simp_all add: uhl_ctors uhl_fields data16_simps Let_def)

lemma LNCVStop_reads:
  "LNCVStop_moduleId (LNCVStop i a) = i" "LNCVStop_address (LNCVStop i a) = a"
  by (simp_all add: uhl_ctors uhl_fields data16_simps Let_def)

section \<open>Validity and checks\<close>

text \<open>
  A data message with the header of its constructor, data bytes below 128 and a fresh
  checksum.
\<close>

definition dataShape :: "u8 \<Rightarrow> bytes \<Rightarrow> bool" where
  "dataShape opc m \<longleftrightarrow> length m = 15 \<and> m ! 0 = opc \<and> m ! 1 = 0x0F \<and>
     (\<forall>i \<in> {2..<14}. \<not> bit (m ! i) 7)"

lemma dataShape_setData:
  assumes "dataShape opc m" and "5 \<le> n" and "n \<le> 10"
  shows "dataShape opc (setData n v m)"
proof -
  have "n - 5 \<noteq> 7" using assms by auto
  then show ?thesis
    using assms
    by (auto simp: dataShape_def setData_def Let_def nth_list_update bit_setFlag bit_shift_one bit_simps)
qed

lemma dataShape_setData16:
  assumes "dataShape opc m" and "5 \<le> n" and "n \<le> 9"
  shows "dataShape opc (setData16 n v m)"
  using assms by (simp add: setData16_def dataShape_setData)

lemma reseal_valid:
  assumes "dataShape opc m" and "opc AND 0xE0 = 0xE0"
  shows "framed (reseal m) \<and> isValid (reseal m)"
proof -
  have sz: "msg_size m = 15" and len: "length m = 15"
    using assms by (simp_all add: dataShape_def msg_size_def)
  then have fr: "framed m" by (simp add: framed_def)
  have re: "reseal m = updateChecksum m" by (simp add: reseal_def updateChecksum_def sz)
  have "bit (opc AND 0xE0) 7" by (simp add: assms(2))
  then have "bit (opCode m) 7" using assms(1) by (simp add: dataShape_def bit_and_iff)
  moreover have "low7 (butlast (tl m))"
    unfolding low7_nth
  proof (intro allI impI)
    fix i
    assume "i < length (butlast (tl m))"
    then have i: "i < 13" using len by simp
    then have "butlast (tl m) ! i = m ! Suc i"
      using len by (simp add: nth_butlast nth_tl)
    moreover have "\<not> bit (m ! Suc i) 7"
      using assms(1) i by (cases i) (auto simp: dataShape_def)
    ultimately show "\<not> bit (butlast (tl m) ! i) 7" by simp
  qed
  ultimately show ?thesis
    using fr len by (simp add: re isValid_updateChecksum)
qed

lemma checkMagicData_nth:
  assumes "length mg = 12" and "length m = 15"
  shows "checkMagicData mg m \<longleftrightarrow> (\<forall>i < 12. m ! (2 + i) AND snd (mg ! i) = fst (mg ! i))"
  using assms by (auto simp: checkMagicData_def list_all_length split_beta)

lemma checkMagicData_setMagicData:
  assumes "length mg = 12" and "length m = 15" and "\<forall>(v, k) \<in> set mg. v AND k = v"
  shows "checkMagicData mg (setMagicData mg m)"
proof -
  have "setMagicData mg m ! (2 + i) AND snd (mg ! i) = fst (mg ! i)" if i: "i < 12" for i
  proof -
    have "setMagicData mg m ! (2 + i) = (m ! (2 + i) AND NOT (snd (mg ! i))) OR fst (mg ! i)"
      using assms(1,2) i by (simp add: setMagicData_def nth_append split_beta)
    moreover have "fst (mg ! i) AND snd (mg ! i) = fst (mg ! i)"
      using assms(1,3) i by (auto dest!: bspec [of _ _ "mg ! i"] simp: split_beta)
    ultimately show ?thesis
      by (simp add: bit.conj_disj_distrib2 and.assoc)
  qed
  then show ?thesis
    using assms(1,2) checkMagicData_nth [of mg "setMagicData mg m"] by simp
qed

lemma checkMagicData_setData:
  assumes "checkMagicData mg m" and "length mg = 12" and "length m = 15" and "5 \<le> n" and "n \<le> 10"
    and "mg ! n = (0, 0x80)" and "\<not> bit (snd (mg ! 4)) (n - 5)"
  shows "checkMagicData mg (setData n v m)"
proof -
  have *: "m ! (2 + i) AND snd (mg ! i) = fst (mg ! i)" if "i < 12" for i
    using assms(1-3) that by (simp add: checkMagicData_nth)
  have "setData n v m ! (2 + i) AND snd (mg ! i) = fst (mg ! i)" if i: "i < 12" for i
  proof -
    consider "i = n" | "i = 4" | "i \<noteq> n" "i \<noteq> 4" by auto
    then show ?thesis
    proof cases
      case 1
      have "(v AND 0x7F) AND 0x80 = 0" by (simp add: and.assoc)
      with 1 show ?thesis using assms i by (simp add: setData_def Let_def)
    next
      case 2
      have "setFlag (m ! 6) (2 ^ (n - 5)) (v AND 0x80 \<noteq> 0) AND snd (mg ! 4) = m ! 6 AND snd (mg ! 4)"
        using assms(7) by (intro bit_word_eqI) (auto simp: bit_and_iff bit_setFlag bit_shift_one)
      with 2 * [of 4] show ?thesis using assms(3-5) by (simp add: setData_def Let_def)
    next
      case 3
      then have "setData n v m ! (2 + i) = m ! (2 + i)"
        using assms(4) by (simp add: setData_def Let_def)
      with * i show ?thesis by simp
    qed
  qed
  then show ?thesis using assms(2,3) by (simp add: checkMagicData_nth)
qed

lemma checkMagicData_setData16:
  assumes "checkMagicData mg m" and "length mg = 12" and "length m = 15" and "5 \<le> n" and "n \<le> 9"
    and "mg ! n = (0, 0x80)" and "mg ! (n + 1) = (0, 0x80)"
    and "\<not> bit (snd (mg ! 4)) (n - 5)" and "\<not> bit (snd (mg ! 4)) (n - 4)"
  shows "checkMagicData mg (setData16 n v m)"
  unfolding setData16_def using assms by (intro checkMagicData_setData) simp_all

lemma checkMagicData_reseal [simp]: 
  "length mg = 12 \<Longrightarrow> length m = 15 \<Longrightarrow> checkMagicData mg (reseal m) = checkMagicData mg m"
  by (simp add: checkMagicData_nth reseal_def)

lemmas uhl_magics = LNCVStart_magic_def LNCVRead_magic_def LNCVReadResponse_magic_def
  LNCVWrite_magic_def LNCVStop_magic_def ReadSpecialOption_magic_def ReadSpecialOptionReply_magic_def

lemma dataShape_magic:
  "dataShape OPC_IMM_PACKET (setMagicData LNCVStart_magic (DataMessage OPC_IMM_PACKET))"
  "dataShape OPC_IMM_PACKET (setMagicData LNCVRead_magic (DataMessage OPC_IMM_PACKET))"
  "dataShape OPC_IMM_PACKET (setMagicData LNCVWrite_magic (DataMessage OPC_IMM_PACKET))"
  "dataShape OPC_IMM_PACKET (setMagicData LNCVStop_magic (DataMessage OPC_IMM_PACKET))"
  "dataShape OPC_IMM_PACKET (setMagicData ReadSpecialOption_magic (DataMessage OPC_IMM_PACKET))"
  "dataShape OPC_PEER_XFER (setMagicData LNCVReadResponse_magic (DataMessage OPC_PEER_XFER))"
  "dataShape OPC_PEER_XFER (setMagicData ReadSpecialOptionReply_magic (DataMessage OPC_PEER_XFER))"
  by (simp_all add: dataShape_def setMagicData_def DataMessage_def uhl_magics numeral_eq_Suc
      atLeastLessThanSuc)

lemmas dataShape_simps = dataShape_magic dataShape_setData dataShape_setData16

lemmas uhl_setters =
  LNCVStart_setModuleId_def LNCVStart_setAddress_def LNCVRead_setModuleId_def LNCVRead_setAddress_def
  LNCVRead_setLNCV_def LNCVReadResponse_setModuleId_def LNCVReadResponse_setLNCV_def
  LNCVReadResponse_setValue_def LNCVWrite_setModuleId_def LNCVWrite_setLNCV_def
  LNCVWrite_setValue_def LNCVStop_setModuleId_def LNCVStop_setAddress_def

lemma LNCV_valid:
  "framed (LNCVStart i a) \<and> isValid (LNCVStart i a)"
  "framed (LNCVRead i a n) \<and> isValid (LNCVRead i a n)"
  "framed (LNCVWrite i n v) \<and> isValid (LNCVWrite i n v)"
  "framed (LNCVStop i a) \<and> isValid (LNCVStop i a)"
  "framed (LNCVReadResponse i n v) \<and> isValid (LNCVReadResponse i n v)"
  unfolding uhl_ctors Let_def uhl_setters
  by (rule reseal_valid [of OPC_IMM_PACKET] reseal_valid [of OPC_PEER_XFER],
      simp_all add: dataShape_simps)+

lemma reseal_check:
  assumes "dataShape OPC_IMM_PACKET m"
  shows "ImmPacketDataMessage_check (reseal m)"
  using assms by (simp add: dataShape_def ImmPacketDataMessage_check_def msg_size_def reseal_def)

lemma reseal_check_peer:
  assumes "dataShape OPC_PEER_XFER m"
  shows "PeerXferDataMessage_check (reseal m)"
  using assms by (simp add: dataShape_def PeerXferDataMessage_check_def msg_size_def reseal_def)

lemma magic_bits:
  "\<forall>(v, k) \<in> set LNCVStart_magic. v AND k = v" "\<forall>(v, k) \<in> set LNCVRead_magic. v AND k = v"
  "\<forall>(v, k) \<in> set LNCVWrite_magic. v AND k = v" "\<forall>(v, k) \<in> set LNCVStop_magic. v AND k = v"
  "\<forall>(v, k) \<in> set LNCVReadResponse_magic. v AND k = v"
  by (simp_all add: uhl_magics)

lemma magic_entries:
  "LNCVStart_magic ! 4 = (0x40, 0xC0)" "LNCVStart_magic ! 5 = (0, 0x80)" "LNCVStart_magic ! 6 = (0, 0x80)"
  "LNCVStart_magic ! 9 = (0, 0x80)" "LNCVStart_magic ! 10 = (0, 0x80)"
  "LNCVRead_magic ! 4 = (0, 0xC0)" "LNCVRead_magic ! 5 = (0, 0x80)" "LNCVRead_magic ! 6 = (0, 0x80)"
  "LNCVRead_magic ! 7 = (0, 0x80)" "LNCVRead_magic ! 8 = (0, 0x80)"
  "LNCVRead_magic ! 9 = (0, 0x80)" "LNCVRead_magic ! 10 = (0, 0x80)"
  "LNCVWrite_magic ! 4 = (0, 0xC0)" "LNCVWrite_magic ! 5 = (0, 0x80)" "LNCVWrite_magic ! 6 = (0, 0x80)"
  "LNCVWrite_magic ! 7 = (0, 0x80)" "LNCVWrite_magic ! 8 = (0, 0x80)"
  "LNCVWrite_magic ! 9 = (0, 0x80)" "LNCVWrite_magic ! 10 = (0, 0x80)"
  "LNCVReadResponse_magic ! 4 = (0, 0x80)" "LNCVReadResponse_magic ! 5 = (0, 0x80)"
  "LNCVReadResponse_magic ! 6 = (0, 0x80)" "LNCVReadResponse_magic ! 7 = (0, 0x80)"
  "LNCVReadResponse_magic ! 8 = (0, 0x80)" "LNCVReadResponse_magic ! 9 = (0, 0x80)"
  "LNCVReadResponse_magic ! 10 = (0, 0x80)"
  by (simp_all add: uhl_magics)

lemmas check_own_simps = dataShape_simps checkMagicData_setData16 checkMagicData_setMagicData
  length_magic magic_entries magic_bits

lemma LNCVStart_check_own: "LNCVStart_check (LNCVStart i a)"
  unfolding LNCVStart_check_def uhl_ctors Let_def uhl_setters
  by (intro conjI reseal_check) (simp_all add: check_own_simps)

lemma LNCVRead_check_own: "LNCVRead_check (LNCVRead i a n)"
  unfolding LNCVRead_check_def uhl_ctors Let_def uhl_setters
  by (intro conjI reseal_check) (simp_all add: check_own_simps)

lemma LNCVWrite_check_own: "LNCVWrite_check (LNCVWrite i n v)"
  unfolding LNCVWrite_check_def uhl_ctors Let_def uhl_setters
  by (intro conjI reseal_check) (simp_all add: check_own_simps)

lemma LNCVReadResponse_check_own: "LNCVReadResponse_check (LNCVReadResponse i n v)"
  unfolding LNCVReadResponse_check_def uhl_ctors Let_def uhl_setters
  by (intro conjI reseal_check_peer) (simp_all add: check_own_simps)

text \<open>Two message types whose magic data disagrees at some byte exclude each other.\<close>

definition magicClash :: "magic \<Rightarrow> magic \<Rightarrow> bool" where
  "magicClash ma mb \<longleftrightarrow> list_ex (\<lambda>((a, k), (b, l)). a AND l \<noteq> b AND k) (zip ma mb)"

lemma magicClash_exclusive:
  assumes "magicClash ma mb" and "length ma = 12" and "length mb = 12" and "length m = 15"
    and "checkMagicData ma m"
  shows "\<not> checkMagicData mb m"
proof
  assume b: "checkMagicData mb m"
  from assms(1-3) obtain i where i: "i < 12" "fst (ma ! i) AND snd (mb ! i) \<noteq> fst (mb ! i) AND snd (ma ! i)"
    by (auto simp: magicClash_def list_ex_length split_beta)
  have "fst (ma ! i) = m ! (2 + i) AND snd (ma ! i)" "fst (mb ! i) = m ! (2 + i) AND snd (mb ! i)"
    using assms b i(1) by (simp_all add: checkMagicData_nth)
  with i(2) show False by (simp only: ac_simps)
qed

lemma magic_clashes:
  "magicClash LNCVStart_magic LNCVRead_magic" "magicClash LNCVStart_magic LNCVWrite_magic"
  "magicClash LNCVStart_magic LNCVStop_magic" "magicClash LNCVStart_magic ReadSpecialOption_magic"
  "magicClash LNCVRead_magic LNCVWrite_magic" "magicClash LNCVRead_magic LNCVStop_magic"
  "magicClash LNCVRead_magic ReadSpecialOption_magic" "magicClash LNCVWrite_magic LNCVStop_magic"
  "magicClash LNCVWrite_magic ReadSpecialOption_magic" "magicClash LNCVStop_magic ReadSpecialOption_magic"
  by (simp_all add: magicClash_def uhl_magics)

lemmas magic_exclusive = magic_clashes [THEN magicClash_exclusive, simplified length_magic]

lemma LNCV_check_exclusive:
  assumes "length m = 15"
  shows "LNCVStart_check m \<Longrightarrow>
      \<not> LNCVRead_check m \<and> \<not> LNCVWrite_check m \<and> \<not> LNCVStop_check m \<and> \<not> ReadSpecialOption_check m"
    and "LNCVRead_check m \<Longrightarrow>
      \<not> LNCVWrite_check m \<and> \<not> LNCVStop_check m \<and> \<not> ReadSpecialOption_check m"
    and "LNCVWrite_check m \<Longrightarrow> \<not> LNCVStop_check m \<and> \<not> ReadSpecialOption_check m"
    and "LNCVStop_check m \<Longrightarrow> \<not> ReadSpecialOption_check m"
  unfolding LNCVStart_check_def LNCVRead_check_def LNCVWrite_check_def LNCVStop_check_def
    ReadSpecialOption_check_def
  using magic_exclusive assms by simp_all

end
