(* ===== verification/LocoNet_Slots.thy ===== *)
theory LocoNet_Slots
  imports LocoNet_Codec
begin

text \<open>
  Slot data other than a locomotive's, and the long sensor reports: the fast clock slot
  (\<^verbatim>\<open>message/slot.hpp\<close>, \<^verbatim>\<open>message/fastclock.hpp\<close>), whose hours and minutes are stored as
  the distance to the next day and hour, and \<^verbatim>\<open>message/multisenselong.hpp\<close> with the RailCom
  identifiers of \<^verbatim>\<open>railcom/appdynid.hpp\<close>.
\<close>

section \<open>Fast clock slot\<close>

abbreviation (input) "idTraintastic \<equiv> (0x3FF3 :: u16)"
abbreviation (input) "CLK_CNTRL_VALID \<equiv> (0x40 :: u8)"

text \<open>
  Offsets: len 1, slot 2, clk_rate 3, frac_minsl 4, frac_minsh 5, mins_60 6, trk 7, hrs_24 8,
  days 9, clk_cntrl 10, id1 11, id2 12, checksum 13.
\<close>

definition SlotDataBase :: "u8 \<Rightarrow> u8 \<Rightarrow> bytes" where
  "SlotDataBase opc slt = [opc, 14, slt]"

definition FastClockSlotData :: "u8 \<Rightarrow> bytes" where
  "FastClockSlotData opc = seal (SlotDataBase opc SLOT_FAST_CLOCK @ replicate 10 0)"

definition FastClock_hour :: "bytes \<Rightarrow> u8" where
  "FastClock_hour m = word_of_int ((24 - (((256 - uint (m ! 8)) AND 0x7F) mod 24)) mod 24)"

definition FastClock_setHour :: "u8 \<Rightarrow> bytes \<Rightarrow> bytes" where
  "FastClock_setHour value m = m[8 := word_of_int ((256 - (24 - uint value)) AND 0x7F)]"

definition FastClock_minute :: "bytes \<Rightarrow> u8" where
  "FastClock_minute m = word_of_int ((60 - (((256 - uint (m ! 6)) AND 0x7F) mod 60)) mod 60)"

definition FastClock_setMinute :: "u8 \<Rightarrow> bytes \<Rightarrow> bytes" where
  "FastClock_setMinute value m = m[6 := word_of_int ((256 - (60 - uint value)) AND 0x7F)]"

definition FastClock_valid :: "bytes \<Rightarrow> bool" where
  "FastClock_valid m = testFlag (m ! 10) CLK_CNTRL_VALID"

definition FastClock_setValid :: "bool \<Rightarrow> bytes \<Rightarrow> bytes" where
  "FastClock_setValid value m = m[10 := setFlag (m ! 10) CLK_CNTRL_VALID value]"

definition FastClock_id :: "bytes \<Rightarrow> u16" where
  "FastClock_id m = push_bit 7 (ucast (m ! 12)) OR ucast (m ! 11)"

definition FastClock_setId :: "u16 \<Rightarrow> bytes \<Rightarrow> bytes" where
  "FastClock_setId value m =
    m[12 := ucast (drop_bit 7 value AND 0x7F), 11 := ucast (value AND 0x7F)]"

definition FastClockSlotReadData :: bytes where
  "FastClockSlotReadData = FastClockSlotData OPC_SL_RD_DATA"

definition FastClockSlotWriteData :: bytes where
  "FastClockSlotWriteData = FastClockSlotData OPC_WR_SL_DATA"

lemma and_7F_int: "(i :: int) AND 0x7F = i mod 128"
  using take_bit_eq_mask [of 7 i] by (simp add: take_bit_eq_mod mask_eq_exp_minus_1)

lemma u8_of_hour_range: "0 \<le> i \<Longrightarrow> i < 256 \<Longrightarrow> uint (word_of_int i :: u8) = i"
  by (simp add: uint_word_of_int)

lemma uint_less_unat: "unat w < n \<Longrightarrow> uint w < int n"
  by (metis of_nat_less_iff uint_nat)

lemma clock_complement:
  fixes u n b :: int
  assumes "0 \<le> u" and "u < n" and "b = 128 - n" and "n < 128"
  shows "(n - ((256 - (b + u)) mod 128 mod n)) mod n = u"
proof -
  have "256 - (b + u) = (n - u) + 128" using assms(3) by simp
  then have e: "(256 - (b + u)) mod 128 = n - u"
    using assms by (simp only: mod_add_self2) simp
  show ?thesis
  proof (cases "u = 0")
    case True
    then show ?thesis using e by simp
  next
    case False
    then have "(n - u) mod n = n - u" using assms by (intro mod_pos_pos_trivial) simp_all
    then have "(n - (256 - (b + u)) mod 128 mod n) mod n = (n - (n - u)) mod n" by (simp only: e)
    also have "\<dots> = u" using assms by simp
    finally show ?thesis .
  qed
qed

lemma setHour_byte:
  assumes "unat value < 24"
  shows "uint (word_of_int ((256 - (24 - uint value)) AND 0x7F) :: u8) = 104 + uint (value :: u8)"
proof -
  have v: "0 \<le> uint value" "uint value < 24" using uint_less_unat [OF assms(1)] by simp_all
  have "256 - (24 - uint value) = (104 + uint value) + 128" by simp
  then have "(256 - (24 - uint value)) mod 128 = 104 + uint value"
    using v by (simp only: mod_add_self2 mod_pos_pos_trivial)
  then show ?thesis unfolding and_7F_int using v by (simp only: u8_of_hour_range)
qed

lemma setMinute_byte:
  assumes "unat value < 60"
  shows "uint (word_of_int ((256 - (60 - uint value)) AND 0x7F) :: u8) = 68 + uint (value :: u8)"
proof -
  have v: "0 \<le> uint value" "uint value < 60" using uint_less_unat [OF assms(1)] by simp_all
  have "256 - (60 - uint value) = (68 + uint value) + 128" by simp
  then have "(256 - (60 - uint value)) mod 128 = 68 + uint value"
    using v by (simp only: mod_add_self2 mod_pos_pos_trivial)
  then show ?thesis unfolding and_7F_int using v by (simp only: u8_of_hour_range)
qed

lemma FastClock_hour_roundtrip:
  assumes "unat value < 24" and "8 < length m"
  shows "FastClock_hour (FastClock_setHour value m) = value"
proof -
  have v: "0 \<le> uint value" "uint value < 24" using uint_less_unat [OF assms(1)] by simp_all
  then have "(24 - ((256 - (104 + uint value)) mod 128 mod 24)) mod 24 = uint value"
    by (rule clock_complement) simp_all
  then show ?thesis
    unfolding FastClock_hour_def FastClock_setHour_def nth_list_update_eq [OF assms(2)]
      setHour_byte [OF assms(1)]
    unfolding and_7F_int by (simp only: word_of_int_uint)
qed

lemma FastClock_minute_roundtrip:
  assumes "unat value < 60" and "6 < length m"
  shows "FastClock_minute (FastClock_setMinute value m) = value"
proof -
  have v: "0 \<le> uint value" "uint value < 60" using uint_less_unat [OF assms(1)] by simp_all
  then have "(60 - ((256 - (68 + uint value)) mod 128 mod 60)) mod 60 = uint value"
    by (rule clock_complement) simp_all
  then show ?thesis
    unfolding FastClock_minute_def FastClock_setMinute_def nth_list_update_eq [OF assms(2)]
      setMinute_byte [OF assms(1)]
    unfolding and_7F_int by (simp only: word_of_int_uint)
qed

lemma FastClock_id_roundtrip:
  assumes "unat value \<le> 0x3FFF" and "12 < length m"
  shows "FastClock_id (FastClock_setId value m) = value"
proof -
  have hb: "\<not> bit value 14" "\<not> bit value 15" 
    using assms(1) by (simp_all add: u16_upper_bits(3))
  show ?thesis
    unfolding FastClock_id_def FastClock_setId_def
    by (rule u16_eqI; insert assms(2) hb; simp; simp only: bit_simps; simp)
qed

section \<open>Long sensor reports\<close>

datatype MultiSenseLongCode = ReleaseTransponder | DetectTransponder | RailComAppDyn | ReservedCode

definition MultiSenseLong_code :: "bytes \<Rightarrow> MultiSenseLongCode" where
  "MultiSenseLong_code m =
    (let c = m ! 2 AND 0x60 in
     if c = 0x00 then ReleaseTransponder
     else if c = 0x20 then DetectTransponder
     else if c = 0x40 then RailComAppDyn
     else ReservedCode)"

definition MultiSenseLong_sensorAddress :: "bytes \<Rightarrow> u16" where
  "MultiSenseLong_sensorAddress m = push_bit 7 (ucast (m ! 2 AND 0x1F)) OR ucast (m ! 3 AND 0x7F)"

definition MultiSenseLong_isTransponderAddressLong :: "bytes \<Rightarrow> bool" where
  "MultiSenseLong_isTransponderAddressLong m = (m ! 4 \<noteq> 0xFD)"

definition MultiSenseLong_transponderAddress :: "bytes \<Rightarrow> u16" where
  "MultiSenseLong_transponderAddress m =
    (if MultiSenseLong_isTransponderAddressLong m
     then push_bit 7 (ucast (m ! 4 AND 0x7F)) OR ucast (m ! 5 AND 0x7F)
     else ucast (m ! 5 AND 0x7F))"

definition MultiSenseLong_transponderDirection :: "bytes \<Rightarrow> Direction" where
  "MultiSenseLong_transponderDirection m = (if testFlag (m ! 6) 0x40 then DirForward else DirReverse)"

text \<open>The enumeration \<^verbatim>\<open>RailCom::AppDynId\<close> is its number.\<close>

definition MultiSenseLong_appDynId :: "bytes \<Rightarrow> u8" where
  "MultiSenseLong_appDynId m = drop_bit 1 (m ! 6) AND 0x1F"

definition MultiSenseLong_value :: "bytes \<Rightarrow> u8" where
  "MultiSenseLong_value m = push_bit 7 (m ! 6 AND 0x01) OR m ! 7"

definition isAppDynActualSpeed :: "u8 \<Rightarrow> bool" where
  "isAppDynActualSpeed value \<longleftrightarrow> value = 0 \<or> value = 1"

definition isAppDynContainer :: "u8 \<Rightarrow> bool" where
  "isAppDynContainer value \<longleftrightarrow> 8 \<le> value \<and> value \<le> 19"

text \<open>The second case is asserted to be \<^verbatim>\<open>ActualSpeedHigh\<close>.\<close>

definition MultiSenseLong_actualSpeed :: "bytes \<Rightarrow> u16" where
  "MultiSenseLong_actualSpeed m =
    (if MultiSenseLong_appDynId m = 0 then ucast (MultiSenseLong_value m)
     else 0x100 + ucast (MultiSenseLong_value m))"

text \<open>
  In a valid message every data byte is below 128, so no byte equals the short-address marker.
\<close>

lemma valid_nth_bit7:
  assumes "framed m" and "isValid m" and "1 \<le> i" and "i < length m"
  shows "\<not> bit (m ! i) 7"
proof -
  have "low7 (tl m)" using assms(1,2) by (simp add: isValid_iff)
  then have "\<not> bit (tl m ! (i - 1)) 7" using assms(3,4) unfolding low7_nth by auto
  then show ?thesis using assms(3,4) by (simp add: nth_tl)
qed

lemma valid_not_FD:
  assumes "framed m" and "isValid m" and "1 \<le> i" and "i < length m"
  shows "m ! i \<noteq> 0xFD"
  using valid_nth_bit7 [OF assms] by auto

end
