(* ===== verification/LocoNet_Response.thy ===== *)
theory LocoNet_Response
  imports LocoNet_Imm_Codec LocoNet_Uhlenbrock_Codec LocoNet_Slots
begin

text \<open>
  The functions of \<^verbatim>\<open>messages.cpp\<close> by which the kernel pairs requests with responses and
  retargets a queued message to a slot.  Both end in \<^verbatim>\<open>assert(false)\<close> on some inputs; the
  result is then \<open>None\<close>: a debug build stops there, a release build goes on with \<^verbatim>\<open>false\<close>
  and with the message as it was.
\<close>

definition isLocoSlot :: "u8 \<Rightarrow> bool" where
  "isLocoSlot slot \<longleftrightarrow> SLOT_LOCO_MIN \<le> slot \<and> slot \<le> SLOT_LOCO_MAX"

definition setSlot :: "bytes \<Rightarrow> u8 \<Rightarrow> bytes option" where
  "setSlot m slot =
    (if \<not> slot < 128 then None
     else if opCode m \<in> {OPC_LOCO_SPD, OPC_LOCO_DIRF, OPC_LOCO_SND, OPC_LOCO_F9F12} then Some (m[1 := slot])
     else if opCode m = OPC_RQ_SL_DATA then Some (m[1 := slot])
     else if opCode m = OPC_D4 then
       (if m ! 1 = 0x20 \<and> (m ! 3 = 0x08 \<or> m ! 3 = 0x05 \<or> m ! 3 = 0x09) then Some (m[2 := slot])
        else None)
     else None)"

definition hasResponse :: "bytes \<Rightarrow> bool" where
  "hasResponse m \<longleftrightarrow>
    (if opCode m = OPC_IMM_PACKET then
       isSignatureMatch LocoF9F12IMMShortAddress_signature m \<or>
       isSignatureMatch LocoF9F12IMMLongAddress_signature m \<or>
       isSignatureMatch LocoF13F20IMMShortAddress_signature m \<or>
       isSignatureMatch LocoF13F20IMMLongAddress_signature m \<or>
       isSignatureMatch LocoF21F28IMMShortAddress_signature m \<or>
       isSignatureMatch LocoF21F28IMMLongAddress_signature m \<or>
       ReadSpecialOption_check m \<or>
       LNCVStart_check m \<or>
       LNCVRead_check m \<or>
       LNCVWrite_check m
     else testFlag (opCode m) 0x08)"

text \<open>
  The address of a \<^verbatim>\<open>LocoAdr\<close> is \<open>addressHigh\<close> at 1 and \<open>addressLow\<close> at 2, that of a
  \<^verbatim>\<open>SlotReadData\<close> \<open>adr\<close> at 4 and \<open>adr2\<close> at 9.  In the last group of cases the code asserts
  that the request expects no response.
\<close>

definition isValidResponse :: "bytes \<Rightarrow> bytes \<Rightarrow> bool option" where
  "isValidResponse request response =
    (if opCode response = OPC_LONG_ACK then Some (opCode request = LongAck_respondingOpCode response)
     else if opCode request = OPC_UNLINK_SLOTS then None
     else if opCode request = OPC_LINK_SLOTS then None
     else if opCode request = OPC_MOVE_SLOTS then None
     else if opCode request = OPC_RQ_SL_DATA then
       Some (opCode response = OPC_SL_RD_DATA \<and> RequestSlotData_slot request = SlotReadData_slot response)
     else if opCode request = OPC_SW_STATE then None
     else if opCode request = OPC_SW_ACK then None
     else if opCode request = OPC_LOCO_ADR then
       Some (opCode response = OPC_SL_RD_DATA \<and>
         request ! 2 = response ! 4 \<and> request ! 1 = response ! 9)
     else if opCode request = OPC_IMM_PACKET then
       (if ReadSpecialOption_check request then
          Some (ReadSpecialOptionReply_check response \<and>
            ReadSpecialOption_specialOption request = ReadSpecialOptionReply_specialOption response)
        else if LNCVReadResponse_check response then
          (if LNCVStart_check request then
             Some (LNCVStart_moduleId request = LNCVReadResponse_moduleId response \<and>
               LNCVReadResponse_lncv response = 0)
           else if LNCVRead_check request then
             Some (LNCVRead_moduleId request = LNCVReadResponse_moduleId response \<and>
               LNCVRead_lncv request = LNCVReadResponse_lncv response)
           else Some False)
        else None)
     else if opCode request = OPC_WR_SL_DATA then None
     else if opCode request \<in> set opCodes \<and> hasResponse request then None
     else Some False)"

section \<open>Slots\<close>

lemma isLocoSlot_unat: "isLocoSlot s \<longleftrightarrow> 1 \<le> unat s \<and> unat s \<le> 119"
  by (simp add: isLocoSlot_def word_le_nat_alt)

lemma isLocoSlot_bit7: "isLocoSlot s \<Longrightarrow> \<not> bit s 7"
  using u8_below_128 [of s] by (simp add: isLocoSlot_unat)

text \<open>The messages that carry the slot they are addressed to, where the slot is, and their length.\<close>

definition carriesSlot :: "bytes \<Rightarrow> bool" where
  "carriesSlot m \<longleftrightarrow>
    opCode m \<in> {OPC_LOCO_SPD, OPC_LOCO_DIRF, OPC_LOCO_SND, OPC_LOCO_F9F12, OPC_RQ_SL_DATA} \<or>
    opCode m = OPC_D4 \<and> m ! 1 = 0x20 \<and> m ! 3 \<in> {0x08, 0x05, 0x09}"

definition slotOf :: "bytes \<Rightarrow> u8" where
  "slotOf m = (if opCode m = OPC_D4 then m ! 2 else m ! 1)"

lemma setSlot_defined: "setSlot m s \<noteq> None \<longleftrightarrow> s < 128 \<and> carriesSlot m"
  by (auto simp: setSlot_def carriesSlot_def)

lemma carriesSlot_size:
  assumes "carriesSlot m"
  shows "msg_size m = (if opCode m = OPC_D4 then 6 else 4)"
  using assms by (auto simp: carriesSlot_def msg_size_def)

lemma setSlot_frame:
  assumes "setSlot m s = Some m'" and "framed m"
  shows "framed m'" and "length m' = length m" and "opCode m' = opCode m" and "slotOf m' = s"
    and "\<And>i. i \<noteq> 1 \<Longrightarrow> i \<noteq> 2 \<Longrightarrow> m' ! i = m ! i"
    and "carriesSlot m'"
proof -
  have cs: "carriesSlot m" using setSlot_defined [of m s] assms(1) by simp
  have len: "length m = (if opCode m = OPC_D4 then 6 else 4)"
    using carriesSlot_size [OF cs] assms(2) by (simp add: framed_def)
  have m': "m' = (if opCode m = OPC_D4 then m[2 := s] else m[1 := s])"
    using assms(1) by (auto simp: setSlot_def split: if_splits)
  then have op: "opCode m' = opCode m" by simp
  then show "opCode m' = opCode m" .
  show "length m' = length m" using m' by simp
  show "slotOf m' = s" using m' len op by (auto simp: slotOf_def)
  show "\<And>i. i \<noteq> 1 \<Longrightarrow> i \<noteq> 2 \<Longrightarrow> m' ! i = m ! i" using m' by simp
  show cs': "carriesSlot m'"
    using cs m' op by (auto simp: carriesSlot_def)
  show "framed m'"
    using carriesSlot_size [OF cs'] m' op len by (auto simp: framed_def)
qed

text \<open>Retargeting a valid message and renewing its checksum gives a valid message again.\<close>

lemma setSlot_valid:
  assumes "setSlot m s = Some m'" and "framed m" and "low7 (butlast (tl m))"
  shows "framed (updateChecksum m') \<and> isValid (updateChecksum m')"
proof -
  note fr = setSlot_frame [OF assms(1,2)]
  have s: "s < 128" "carriesSlot m" using setSlot_defined [of m s] assms(1) by simp_all
  then have b: "\<not> bit s 7" by (simp add: word_less_nat_alt flip: u8_below_128)
  have len: "3 \<le> length m"
    using carriesSlot_size [OF s(2)] assms(2) by (auto simp: framed_def split: if_splits)
  have "m' = m[2 := s] \<or> m' = m[1 := s]"
    using assms(1) by (auto simp: setSlot_def split: if_splits)
  moreover have "tl (m[2 := s]) = (tl m)[1 := s]" "tl (m[1 := s]) = (tl m)[0 := s]"
    using len by (cases m; simp add: eval_nat_numeral)+
  moreover have "butlast (xs[i := s]) = (butlast xs)[i := s]" if "Suc i < length xs" for xs :: bytes and i
    using that by (simp add: butlast_conv_take take_update_swap)
  ultimately have "low7 (butlast (tl m'))"
    using assms(3) b len carriesSlot_size [OF s(2)] assms(2)
    by (auto simp: low7_update framed_def split: if_splits)
  moreover have "bit (opCode m') 7"
    using s(2) fr(3) by (auto simp: carriesSlot_def)
  ultimately show ?thesis
    using fr len by (simp add: isValid_updateChecksum)
qed

section \<open>Requests and responses\<close>

text \<open>A response to \<^verbatim>\<open>LocoAdr\<close> is slot data of the address that was asked for.\<close>

lemma isValidResponse_LocoAdr:
  assumes "unat a < 16384" and "opCode r \<noteq> OPC_LONG_ACK" and "\<not> bit (r ! 4) 7" and "\<not> bit (r ! 9) 7"
  shows "isValidResponse (LocoAdr a) r =
    Some (opCode r = OPC_SL_RD_DATA \<and> SlotReadData_address r = a)"
proof -
  have *: "\<not> bit a 14" "\<not> bit a 15" using u16_upper_bits(3) [OF assms(1)] by simp_all
  have "(LocoAdr a ! 2 = r ! 4 \<and> LocoAdr a ! 1 = r ! 9) \<longleftrightarrow> SlotReadData_address r = a"
  proof
    assume "LocoAdr a ! 2 = r ! 4 \<and> LocoAdr a ! 1 = r ! 9"
    then have "r ! 4 = ucast (a AND 0x7F)" "r ! 9 = ucast (drop_bit 7 a)"
      by (simp_all add: LocoAdr_def)
    then show "SlotReadData_address r = a"
      unfolding SlotReadData_address_def
      by (intro u16_eqI; simp only:; simp only: bit_simps; simp add: *)
  next
    assume a: "SlotReadData_address r = a"
    have "ucast (a AND 0x7F) = r ! 4" "ucast (drop_bit 7 a) = r ! 9"
      unfolding a [symmetric] SlotReadData_address_def
      by (rule u8_eqI; simp only: bit_simps; (simp add: assms(3,4))?; (simp only: bit_simps)?;
          simp add: assms(3,4))+
    then show "LocoAdr a ! 2 = r ! 4 \<and> LocoAdr a ! 1 = r ! 9"
      by (simp add: LocoAdr_def)
  qed
  then show ?thesis
    using assms(2) by (simp add: isValidResponse_def LocoAdr_def)
qed

text \<open>
  The requests for which some message other than a long acknowledge runs into an assertion:
  a slot write (the fast clock's), and an immediate packet other than a special option request.
\<close>

lemma isValidResponse_assert:
  assumes "hasResponse request" and "opCode response \<noteq> OPC_LONG_ACK"
    and "opCode request \<in> {OPC_LOCO_ADR, OPC_RQ_SL_DATA, OPC_WR_SL_DATA, OPC_IMM_PACKET}"
  shows "isValidResponse request response = None \<longleftrightarrow>
    opCode request = OPC_WR_SL_DATA \<or>
    opCode request = OPC_IMM_PACKET \<and> \<not> ReadSpecialOption_check request \<and>
      \<not> LNCVReadResponse_check response"
  using assms(2,3) by (auto simp: isValidResponse_def)

lemma isValidResponse_LongAck:
  "opCode response = OPC_LONG_ACK \<Longrightarrow>
   isValidResponse request response = Some (opCode request = LongAck_respondingOpCode response)"
  by (simp add: isValidResponse_def)

text \<open>The final assertion of the switch never fails: no opcode of its group asks for a response.\<close>

lemma isValidResponse_last_group:
  assumes "opCode request \<in> set opCodes" and "opCode request \<notin> {OPC_UNLINK_SLOTS, OPC_LINK_SLOTS,
    OPC_MOVE_SLOTS, OPC_RQ_SL_DATA, OPC_SW_STATE, OPC_SW_ACK, OPC_LOCO_ADR, OPC_IMM_PACKET, OPC_WR_SL_DATA}"
  shows "\<not> hasResponse request"
  using assms by (auto simp: opCodes_def hasResponse_def testFlag_def)

lemma hasResponse_simps:
  "hasResponse (LocoAdr a)" "hasResponse (RequestSlotData s)"
  "\<not> hasResponse (LocoSpd v)" "\<not> hasResponse Idle" "\<not> hasResponse GlobalPowerOn" "\<not> hasResponse GlobalPowerOff"
  by (simp_all add: hasResponse_def LocoAdr_def RequestSlotData_def LocoSpd_def Idle_def
      GlobalPowerOn_def GlobalPowerOff_def testFlag_def)

lemma hasResponse_LNCV:
  "hasResponse (LNCVStart i a)" "hasResponse (LNCVRead i a n)" "hasResponse (LNCVWrite i n v)"
proof -
  have "opCode (LNCVStart i a) = OPC_IMM_PACKET" "opCode (LNCVRead i a n) = OPC_IMM_PACKET"
    "opCode (LNCVWrite i n v) = OPC_IMM_PACKET"
    using LNCVStart_check_own LNCVRead_check_own LNCVWrite_check_own
    by (simp_all add: LNCVStart_check_def LNCVRead_check_def LNCVWrite_check_def
        ImmPacketDataMessage_check_def)
  then show "hasResponse (LNCVStart i a)" "hasResponse (LNCVRead i a n)" "hasResponse (LNCVWrite i n v)"
    by (simp_all add: hasResponse_def LNCVStart_check_own LNCVRead_check_own LNCVWrite_check_own)
qed

end
