(* ===== verification/LocoNet_Kernel.thy ===== *)
theory LocoNet_Kernel
  imports LocoNet_SendQueue LocoNet_Response "HOL-Library.AList"
begin

text \<open>
  The state of \<^verbatim>\<open>LocoNet::Kernel\<close> and its sending half: slots, queues, echo and response
  supervision.  Everything here runs on the kernel's own thread, one call after the other.

  What the kernel does to the rest of the program is recorded in the state.  A closure given
  to \<^verbatim>\<open>EventLoop::call\<close> is an element of \<open>events\<close> that holds the captured values, a message
  given to \<^verbatim>\<open>IOHandler::send\<close> an element of \<open>wire\<close> with the handler's answer.  The answer is
  a parameter of the state (\<open>ioSend\<close>), a function of the earlier attempts and the message.
  A controller or callback pointer is the boolean that it is set.  An \<^verbatim>\<open>unordered_map\<close> that the
  code searches by value is an association list in iteration order.
\<close>

section \<open>Configuration\<close>

datatype LocoNetF9F28 = F9F28_IMMPacket | F9F28_UhlenbrockExtended
datatype LocoNetFastClock = FastClock_Off | FastClock_Master
datatype PCAPOutput = PCAPOutput_File | PCAPOutput_Pipe

record Config =
  echoTimeout :: u16
  responseTimeout :: u16
  locomotiveSlots :: u8
  f9f28 :: LocoNetF9F28
  fastClockMode :: LocoNetFastClock
  fastClockSyncEnabled :: bool
  fastClockSyncInterval :: u8
  debugLogInput :: bool
  debugLogRXTX :: bool
  pcap :: bool
  pcapOutput :: PCAPOutput
  listenOnly :: bool

section \<open>State\<close>

datatype Priority = HighPriority | NormalPriority | LowPriority

abbreviation (input) "invalidAddress \<equiv> (0xFFFF :: u16)"
abbreviation (input) "invalidSpeed \<equiv> (0xFF :: u8)"

record LocoSlot =
  ls_address :: u16
  ls_speed :: u8
  ls_direction :: Direction
  ls_functions :: "nat \<Rightarrow> TriState"

definition LocoSlot_invalid :: LocoSlot where
  "LocoSlot_invalid =
    \<lparr>ls_address = invalidAddress, ls_speed = invalidSpeed, ls_direction = DirUnknown,
     ls_functions = (\<lambda>_. TriUndefined)\<rparr>"

definition LocoSlot_isAddressValid :: "LocoSlot \<Rightarrow> bool" where
  "LocoSlot_isAddressValid ls \<longleftrightarrow> ls_address ls \<noteq> invalidAddress"

record FastClock =
  fc_multiplier :: u8
  fc_hour :: u8
  fc_minute :: u8

datatype IdentificationEventType = IdAbsent | IdPresent | IdSeen

datatype event =
    EvRX bytes
  | EvTX bytes
  | EvListenOnly bool
  | EvGlobalPower bool
  | EvIdle
  | EvDecoderSpeed u16 u8
  | EvDecoderDirection u16 Direction
  | EvDecoderSpeedDirection u16 u8 Direction
  | EvDecoderFunctions u16 "(nat \<times> bool) list"
  | EvLogInput nat bool
  | EvInput nat TriState
  | EvOutput u16 OutputPairValue
  | EvIdentification nat IdentificationEventType u16 Direction u8
  | EvCantGetFreeSlot
  | EvLocoSlotNotSupported u8
  | EvFastClockNotSupported bool
  | EvLNCVReadResponse bool u16 u16
  | EvLNCVNoResponse u16 u16
  | EvNoEcho
  | EvNoResponse
  | EvPCAP PCAPOutput
  | EvPCAPFailed
  | EvStarted
  | EvStartFailed

record Kernel =
  m_simulation :: bool
  m_sendQueue :: "Priority \<Rightarrow> SendQueue"
  m_sentMessagePriority :: Priority
  m_waitingForEcho :: bool
  m_waitingForEchoTimer :: bool
  m_waitingForResponse :: bool
  m_waitingForResponseTimer :: bool
  m_globalPower :: TriState
  m_onGlobalPowerChanged :: bool
  m_emergencyStop :: TriState
  m_onIdle :: bool
  m_clock :: bool
  m_clockChangeConnection :: bool
  m_fastClock :: FastClock
  m_fastClockSyncTimer :: bool
  m_fastClockSupported :: bool
  m_lncvActive :: bool
  m_lncvModuleId :: u16
  m_lncvModuleAddress :: u16
  m_onLNCVReadResponse :: bool
  m_decoderController :: bool
  m_addressToSlot :: "(u16 \<times> u8) list"
  m_slots :: "(u8 \<times> LocoSlot) list"
  m_pendingSlotMessages :: "u16 \<rightharpoonup> bytes"
  m_inputController :: bool
  m_inputValues :: "nat \<Rightarrow> TriState"
  m_outputController :: bool
  m_outputValues :: "nat \<Rightarrow> OutputPairValue"
  m_pcap :: bool
  m_config :: Config
  ioSend :: "(bytes \<times> bool) list \<Rightarrow> bytes \<Rightarrow> bool"
  pcapOpens :: "PCAPOutput \<Rightarrow> bool"
  wire :: "(bytes \<times> bool) list"
  events :: "event list"
  pcapRecords :: "bytes list"

text \<open>\<^verbatim>\<open>EventLoop::call\<close>.\<close>

definition eventLoopCall :: "event \<Rightarrow> Kernel \<Rightarrow> Kernel" where
  "eventLoopCall ev k = k\<lparr>events := events k @ [ev]\<rparr>"

section \<open>Sending\<close>

definition lastSentMessage :: "Kernel \<Rightarrow> bytes" where
  "lastSentMessage k = SendQueue_front (m_sendQueue k (m_sentMessagePriority k))"

text \<open>The body of \<^verbatim>\<open>sendNextMessage\<close> for the first queue that is not empty.\<close>

definition transmit :: "Priority \<Rightarrow> Kernel \<Rightarrow> Kernel" where
  "transmit priority k =
    (let message = SendQueue_front (m_sendQueue k priority);
         k = (if debugLogRXTX (m_config k) then eventLoopCall (EvTX message) k else k);
         ok = ioSend k (wire k) message;
         k = k\<lparr>wire := wire k @ [(message, ok)]\<rparr>
     in if ok then
          (let k = k\<lparr>m_sentMessagePriority := priority,
                     m_waitingForEcho := True,
                     m_waitingForEchoTimer := True,
                     m_waitingForResponse := hasResponse message\<rparr>
           in if m_waitingForResponse k then k\<lparr>m_waitingForResponseTimer := True\<rparr> else k)
        else k)"

fun sendNextFrom :: "Priority list \<Rightarrow> Kernel \<Rightarrow> Kernel" where
  "sendNextFrom [] k = k"
| "sendNextFrom (priority # ps) k =
    (if \<not> SendQueue_empty (m_sendQueue k priority) then transmit priority k
     else sendNextFrom ps k)"

definition sendNextMessage :: "Kernel \<Rightarrow> Kernel" where
  "sendNextMessage k = sendNextFrom [HighPriority, NormalPriority, LowPriority] k"

definition send :: "bytes \<Rightarrow> Priority \<Rightarrow> Kernel \<Rightarrow> Kernel" where
  "send message priority k =
    (if listenOnly (m_config k) then k
     else
       (case SendQueue_append (m_sendQueue k priority) message of
         (False, _) \<Rightarrow> k
       | (True, q) \<Rightarrow>
           (let k = k\<lparr>m_sendQueue := (m_sendQueue k)(priority := q)\<rparr>
            in if \<not> m_waitingForEcho k \<and> \<not> m_waitingForResponse k then sendNextMessage k else k)))"

definition popSent :: "Kernel \<Rightarrow> Kernel" where
  "popSent k =
    (let p = m_sentMessagePriority k
     in k\<lparr>m_sendQueue := (m_sendQueue k)(p := SendQueue_pop (m_sendQueue k p))\<rparr>)"

section \<open>Slots\<close>

text \<open>The element a pointer into \<^verbatim>\<open>m_slots\<close> refers to, and the change of it.\<close>

definition locoSlot :: "u8 \<Rightarrow> Kernel \<Rightarrow> LocoSlot" where
  "locoSlot slot k = (case map_of (m_slots k) slot of Some ls \<Rightarrow> ls | None \<Rightarrow> LocoSlot_invalid)"

definition setLocoSlot :: "u8 \<Rightarrow> LocoSlot \<Rightarrow> Kernel \<Rightarrow> Kernel" where
  "setLocoSlot slot ls k = k\<lparr>m_slots := AList.update slot ls (m_slots k)\<rparr>"

text \<open>The result of \<^verbatim>\<open>getLocoSlot\<close> is whether the pointer is not null.\<close>

definition getLocoSlot :: "u8 \<Rightarrow> bool \<Rightarrow> Kernel \<Rightarrow> bool \<times> Kernel" where
  "getLocoSlot slot sendSlotDataRequestIfNew k =
    (if \<not> isLocoSlot slot then (False, k)
     else
       (case map_of (m_slots k) slot of
         Some _ \<Rightarrow> (True, k)
       | None \<Rightarrow>
           (let k = (if sendSlotDataRequestIfNew then send (RequestSlotData slot) NormalPriority k else k)
            in (True, setLocoSlot slot LocoSlot_invalid k))))"

definition getLocoSlotByAddress :: "u16 \<Rightarrow> Kernel \<Rightarrow> u8 option" where
  "getLocoSlotByAddress address k =
    map_option fst (find (\<lambda>(_, ls). ls_address ls = address) (m_slots k))"

definition clearLocoSlot :: "u8 \<Rightarrow> Kernel \<Rightarrow> Kernel" where
  "clearLocoSlot slot k =
    (let k = k\<lparr>m_slots := AList.delete slot (m_slots k)\<rparr>
     in case find (\<lambda>(_, s). s = slot) (m_addressToSlot k) of
          Some (address, _) \<Rightarrow> k\<lparr>m_addressToSlot := AList.delete address (m_addressToSlot k)\<rparr>
        | None \<Rightarrow> k)"

text \<open>
  Sending to an address.  \<open>i\<close> is the offset of the member \<^verbatim>\<open>slot\<close> in the message's struct; the
  code passes a reference to it.  \<^verbatim>\<open>m_slots[slot]\<close> inserts a default element when there is none.
\<close>

definition sendAddress :: "u16 \<Rightarrow> bytes \<Rightarrow> nat \<Rightarrow> Kernel \<Rightarrow> Kernel" where
  "sendAddress address message i k =
    (case map_of (m_addressToSlot k) address of
      Some slot \<Rightarrow>
        (let message = message[i := slot]
         in if opCode message = OPC_LOCO_SPD \<and> LocoSpd_speed message \<ge> SPEED_MIN then
              (let k = setLocoSlot slot (locoSlot slot k) k
               in if LocoSpd_speed message = ls_speed (locoSlot slot k) then k
                  else send (updateChecksum message) NormalPriority k)
            else send (updateChecksum message) NormalPriority k)
    | None \<Rightarrow>
        (case m_pendingSlotMessages k address of
          None \<Rightarrow>
            send (LocoAdr address) HighPriority
              (k\<lparr>m_pendingSlotMessages := (m_pendingSlotMessages k)(address \<mapsto> take (msg_size message) message)\<rparr>)
        | Some pending \<Rightarrow>
            k\<lparr>m_pendingSlotMessages :=
                (m_pendingSlotMessages k)(address \<mapsto> pending @ take (msg_size message) message)\<rparr>))"

section \<open>Functions\<close>

text \<open>
  \<^verbatim>\<open>updateFunctions<First, Last>\<close>; \<open>f\<close> is the message's \<^verbatim>\<open>f(i)\<close>.  The decoder gets all the
  functions of the message, changed or not.
\<close>

fun updateFunctionValues :: "nat list \<Rightarrow> (nat \<Rightarrow> bool) \<Rightarrow> (nat \<Rightarrow> TriState) \<Rightarrow> bool \<times> (nat \<Rightarrow> TriState)" where
  "updateFunctionValues [] f fs = (False, fs)"
| "updateFunctionValues (i # is) f fs =
    (if tri_ne_bool (fs i) (f i) then (True, snd (updateFunctionValues is f (fs(i := toTriState (f i)))))
     else updateFunctionValues is f fs)"

definition updateFunctions :: "nat \<Rightarrow> nat \<Rightarrow> u8 \<Rightarrow> (nat \<Rightarrow> bool) \<Rightarrow> Kernel \<Rightarrow> bool \<times> Kernel" where
  "updateFunctions First Last slot f k =
    (let ls = locoSlot slot k;
         (changed, fs) = updateFunctionValues [First..<Last + 1] f (ls_functions ls);
         k = setLocoSlot slot (ls\<lparr>ls_functions := fs\<rparr>) k
     in (changed, eventLoopCall (EvDecoderFunctions (ls_address ls) (map (\<lambda>i. (i, f i)) [First..<Last + 1])) k))"

section \<open>Fast clock, packet capture\<close>

definition setFastClockMaster :: "bool \<Rightarrow> Kernel \<Rightarrow> Kernel" where
  "setFastClockMaster enable k =
    (if enable then
       (let clock = m_fastClock k;
            m = FastClockSlotWriteData;
            m = m[3 := fc_multiplier clock];
            m = FastClock_setHour (fc_hour clock) m;
            m = FastClock_setMinute (fc_minute clock) m;
            m = FastClock_setValid True m;
            m = FastClock_setId idTraintastic m
        in send (updateChecksum m) HighPriority k)
     else send FastClockSlotWriteData HighPriority k)"

definition startFastClockSyncTimer :: "Kernel \<Rightarrow> Kernel" where
  "startFastClockSyncTimer k = k\<lparr>m_fastClockSyncTimer := True\<rparr>"

definition stopFastClockSyncTimer :: "Kernel \<Rightarrow> Kernel" where
  "stopFastClockSyncTimer k = k\<lparr>m_fastClockSyncTimer := False\<rparr>"

text \<open>Opening the capture file or pipe may throw, which the code logs.\<close>

definition startPCAP :: "PCAPOutput \<Rightarrow> Kernel \<Rightarrow> Kernel" where
  "startPCAP out k =
    (let k = eventLoopCall (EvPCAP out) k
     in if pcapOpens k out then k\<lparr>m_pcap := True\<rparr> else eventLoopCall EvPCAPFailed k)"

end
