(* ===== verification/LocoNet_Receive.thy ===== *)
theory LocoNet_Receive
  imports LocoNet_Kernel
begin

text \<open>
  \<^verbatim>\<open>Kernel::receive\<close>: the match of a received message with the message sent last, the
  handler of every opcode and the release of the next queued message by a response.
\<close>

section \<open>Echo and response\<close>

text \<open>\<^verbatim>\<open>operator ==(const Message&, const Message&)\<close>.\<close>

definition msgEq :: "bytes \<Rightarrow> bytes \<Rightarrow> bool" where
  "msgEq lhs rhs \<longleftrightarrow> msg_size lhs = msg_size rhs \<and> take (msg_size lhs) lhs = take (msg_size lhs) rhs"

text \<open>
  The head of \<^verbatim>\<open>receive\<close>, with \<open>isResponse\<close> as its first result.  Where \<^verbatim>\<open>isValidResponse\<close>
  asserts, a release build takes its \<^verbatim>\<open>return false\<close>.
\<close>

definition receive_echo :: "bytes \<Rightarrow> Kernel \<Rightarrow> bool \<times> Kernel" where
  "receive_echo message k =
    (if m_waitingForEcho k \<and> msgEq message (lastSentMessage k) then
       (let k = k\<lparr>m_waitingForEcho := False, m_waitingForEchoTimer := False\<rparr>
        in (False, if \<not> m_waitingForResponse k then sendNextMessage (popSent k) else k))
     else if m_waitingForResponse k then
       (case isValidResponse (lastSentMessage k) message of
          Some isResponse \<Rightarrow> (isResponse, k)
        | None \<Rightarrow> (False, k))
     else (False, k))"

definition receive_response :: "bool \<Rightarrow> Kernel \<Rightarrow> Kernel" where
  "receive_response isResponse k =
    (if m_waitingForResponse k \<and> isResponse then
       sendNextMessage (popSent (k\<lparr>m_waitingForResponse := False, m_waitingForResponseTimer := False\<rparr>))
     else k)"

section \<open>Power and emergency stop\<close>

definition receive_GPON :: "Kernel \<Rightarrow> Kernel" where
  "receive_GPON k =
    (if m_globalPower k \<noteq> TriTrue then
       (let k = k\<lparr>m_globalPower := TriTrue\<rparr>
        in if m_onGlobalPowerChanged k then eventLoopCall (EvGlobalPower True) k else k)
     else k)"

definition receive_GPOFF :: "Kernel \<Rightarrow> Kernel" where
  "receive_GPOFF k =
    (if m_globalPower k \<noteq> TriFalse then
       (let k = k\<lparr>m_globalPower := TriFalse\<rparr>
        in if m_onGlobalPowerChanged k then eventLoopCall (EvGlobalPower False) k else k)
     else k)"

definition receive_IDLE :: "Kernel \<Rightarrow> Kernel" where
  "receive_IDLE k =
    (if m_emergencyStop k \<noteq> TriTrue then
       (let k = k\<lparr>m_emergencyStop := TriTrue\<rparr>
        in if m_onIdle k then eventLoopCall EvIdle k else k)
     else k)"

section \<open>Locomotive messages\<close>

definition receive_LOCO_SPD :: "bytes \<Rightarrow> Kernel \<Rightarrow> Kernel" where
  "receive_LOCO_SPD message k =
    (if m_decoderController k then
       (let s = SlotMessage_slot message; (found, k) = getLocoSlot s True k in
        if found then
          (if \<not> LocoSlot_isAddressValid (locoSlot s k) then send (RequestSlotData s) NormalPriority k
           else if ls_speed (locoSlot s k) \<noteq> LocoSpd_speed message then
             (let k = setLocoSlot s ((locoSlot s k)\<lparr>ls_speed := LocoSpd_speed message\<rparr>) k
              in eventLoopCall (EvDecoderSpeed (ls_address (locoSlot s k)) (ls_speed (locoSlot s k))) k)
           else k)
        else k)
     else k)"

definition receive_LOCO_DIRF :: "bytes \<Rightarrow> Kernel \<Rightarrow> Kernel" where
  "receive_LOCO_DIRF message k =
    (if m_decoderController k then
       (let s = SlotMessage_slot message; (found, k) = getLocoSlot s True k in
        if found then
          (if \<not> LocoSlot_isAddressValid (locoSlot s k) then send (RequestSlotData s) NormalPriority k
           else
             (let k =
                (if ls_direction (locoSlot s k) \<noteq> LocoDirF_direction message then
                   (let k = setLocoSlot s ((locoSlot s k)\<lparr>ls_direction := LocoDirF_direction message\<rparr>) k
                    in eventLoopCall (EvDecoderDirection (ls_address (locoSlot s k)) (LocoDirF_direction message)) k)
                 else k)
              in snd (updateFunctions 0 4 s (LocoDirF_f message) k)))
        else k)
     else k)"

definition receive_LOCO_SND :: "bytes \<Rightarrow> Kernel \<Rightarrow> Kernel" where
  "receive_LOCO_SND message k =
    (if m_decoderController k then
       (let s = SlotMessage_slot message; (found, k) = getLocoSlot s True k in
        if found then
          (if \<not> LocoSlot_isAddressValid (locoSlot s k) then send (RequestSlotData s) NormalPriority k
           else snd (updateFunctions 5 8 s (LocoSnd_f message) k))
        else k)
     else k)"

text \<open>From here on the handlers ask for the slot's data and then go on with the slot they have.\<close>

definition requestIfInvalid :: "u8 \<Rightarrow> Kernel \<Rightarrow> Kernel" where
  "requestIfInvalid s k =
    (if \<not> LocoSlot_isAddressValid (locoSlot s k) then send (RequestSlotData s) NormalPriority k else k)"

definition receive_LOCO_F9F12 :: "bytes \<Rightarrow> Kernel \<Rightarrow> Kernel" where
  "receive_LOCO_F9F12 message k =
    (if m_decoderController k then
       (let s = SlotMessage_slot message; (found, k) = getLocoSlot s True k in
        if found then snd (updateFunctions 9 12 s (LocoF9F12_f message) (requestIfInvalid s k))
        else k)
     else k)"

definition receive_D4_F13F19 :: "bytes \<Rightarrow> Kernel \<Rightarrow> Kernel" where
  "receive_D4_F13F19 message k =
    (let s = message ! 2; (found, k) = getLocoSlot s True k in
     if found then snd (updateFunctions 13 19 s (LocoF13F19_f message) (requestIfInvalid s k))
     else k)"

definition receive_D4_F12F20F28 :: "bytes \<Rightarrow> Kernel \<Rightarrow> Kernel" where
  "receive_D4_F12F20F28 message k =
    (let s = message ! 2; (found, k) = getLocoSlot s True k in
     if found then
       (let k = requestIfInvalid s k;
            ls = locoSlot s k;
            f = (\<lambda>n. LocoF12F20F28_fN n message);
            changed = (tri_ne_bool (ls_functions ls 12) (f 12) \<or>
                       tri_ne_bool (ls_functions ls 20) (f 20) \<or>
                       tri_ne_bool (ls_functions ls 28) (f 28))
        in if changed then
             (let fs = (ls_functions ls)(12 := toTriState (f 12), 20 := toTriState (f 20), 28 := toTriState (f 28));
                  k = setLocoSlot s (ls\<lparr>ls_functions := fs\<rparr>) k
              in eventLoopCall (EvDecoderFunctions (ls_address ls) [(12, f 12), (20, f 20), (28, f 28)]) k)
           else k)
     else k)"

definition receive_D4_F21F27 :: "bytes \<Rightarrow> Kernel \<Rightarrow> Kernel" where
  "receive_D4_F21F27 message k =
    (let s = message ! 2; (found, k) = getLocoSlot s True k in
     if found then snd (updateFunctions 21 27 s (LocoF21F27_f message) (requestIfInvalid s k))
     else k)"

definition receive_D4 :: "bytes \<Rightarrow> Kernel \<Rightarrow> Kernel" where
  "receive_D4 message k =
    (if m_decoderController k then
       (if message ! 1 = 0x20 then
          (if message ! 3 = 0x08 then receive_D4_F13F19 message k
           else if message ! 3 = 0x05 then receive_D4_F12F20F28 message k
           else if message ! 3 = 0x09 then receive_D4_F21F27 message k
           else k)
        else k)
     else k)"

section \<open>Inputs and outputs\<close>

definition receive_INPUT_REP :: "bytes \<Rightarrow> Kernel \<Rightarrow> Kernel" where
  "receive_INPUT_REP message k =
    (if m_inputController k then
       (if InputRep_isControlSet message then
          (let v = toTriState (InputRep_value message);
               a = unat (InputRep_fullAddress message)
           in if m_inputValues k a \<noteq> v then
                (let k = (if debugLogInput (m_config k)
                          then eventLoopCall (EvLogInput (1 + a) (InputRep_value message)) k else k);
                     k = k\<lparr>m_inputValues := (m_inputValues k)(a := v)\<rparr>
                 in eventLoopCall (EvInput (1 + a) v) k)
              else k)
        else k)
     else k)"

definition receive_SW_REQ :: "bytes \<Rightarrow> Kernel \<Rightarrow> Kernel" where
  "receive_SW_REQ message k =
    (if m_outputController k then
       (if SwitchRequest_on message then
          (let v = (if SwitchRequest_dir message then OutSecond else OutFirst);
               i = unat (SwitchRequest_address message) - 1
           in if m_outputValues k i \<noteq> v then
                (let k = k\<lparr>m_outputValues := (m_outputValues k)(i := v)\<rparr>
                 in eventLoopCall (EvOutput (SwitchRequest_address message) v) k)
              else k)
        else k)
     else k)"

section \<open>Slot data\<close>

text \<open>
  The loop that sends what waited for a slot: message by message, with the slot filled in.
  The remaining bytes shrink by the size of a message, so their number is enough fuel (a
  message of size 0 would never end the code's loop; none is ever pending).
\<close>

fun sendPending :: "nat \<Rightarrow> u8 \<Rightarrow> bytes \<Rightarrow> Kernel \<Rightarrow> Kernel" where
  "sendPending 0 slot p k = k"
| "sendPending (Suc fuel) slot p k =
    (if p = [] then k
     else
       (let n = msg_size p;
            slotMessage = (case setSlot (take n p) slot of Some m \<Rightarrow> m | None \<Rightarrow> take n p)
        in sendPending fuel slot (drop n p) (send (updateChecksum slotMessage) NormalPriority k)))"

text \<open>
  The slot takes the address of its data.  \<open>changed\<close>: the slot had another valid address before;
  it is then unmapped and invalidated first.
\<close>

definition assignSlotAddress :: "u8 \<Rightarrow> u16 \<Rightarrow> Kernel \<Rightarrow> bool \<times> Kernel" where
  "assignSlotAddress slot address k =
    (let k = (if \<not> LocoSlot_isAddressValid (locoSlot slot k)
              then k\<lparr>m_addressToSlot := AList.update address slot (m_addressToSlot k)\<rparr> else k);
         old = locoSlot slot k;
         changed = (LocoSlot_isAddressValid old \<and> ls_address old \<noteq> address);
         k = (if changed then
                (let k = (if map_of (m_addressToSlot k) (ls_address old) = Some slot
                          then k\<lparr>m_addressToSlot := AList.delete (ls_address old) (m_addressToSlot k)\<rparr>
                          else k)
                 in setLocoSlot slot LocoSlot_invalid k)
              else k)
     in (changed, setLocoSlot slot ((locoSlot slot k)\<lparr>ls_address := address\<rparr>) k))"

definition replayPending :: "u8 \<Rightarrow> u16 \<Rightarrow> Kernel \<Rightarrow> Kernel" where
  "replayPending slot address k =
    (case m_pendingSlotMessages k address of
       None \<Rightarrow> k
     | Some pending \<Rightarrow>
         (let k = sendPending (length pending) slot pending k
          in k\<lparr>m_pendingSlotMessages := (m_pendingSlotMessages k)(address := None)\<rparr>))"

definition receive_SL_RD_DATA :: "bytes \<Rightarrow> Kernel \<Rightarrow> Kernel" where
  "receive_SL_RD_DATA message k =
    (let slot = message ! 2 in
     if m_decoderController k \<and> isLocoSlot slot then
       (if SlotReadData_isFree message then clearLocoSlot slot k
        else
          (let k = snd (getLocoSlot slot False k);
               (changed, k) = assignSlotAddress slot (SlotReadData_address message) k;
               ls = locoSlot slot k;
               k = (if changed
                    then eventLoopCall (EvDecoderSpeedDirection (ls_address ls) (ls_speed ls) (ls_direction ls)) k
                    else k);
               k = snd (updateFunctions 0 8 slot (SlotReadData_f message) k)
           in replayPending slot (ls_address (locoSlot slot k)) k))
     else k)"

section \<open>Long acknowledge\<close>

definition receive_LONG_ACK :: "bytes \<Rightarrow> Kernel \<Rightarrow> Kernel" where
  "receive_LONG_ACK message k =
    (let op = LongAck_respondingOpCode message; ack1 = LongAck_ack1 message; sent = lastSentMessage k in
     if op = OPC_LOCO_ADR \<and> ack1 = 0 then eventLoopCall EvCantGetFreeSlot k
     else if op = OPC_RQ_SL_DATA \<and> ack1 = 0 \<and> opCode sent = OPC_RQ_SL_DATA then
       (let slot = RequestSlotData_slot sent in
        if isLocoSlot slot then eventLoopCall (EvLocoSlotNotSupported slot) k
        else if slot = SLOT_FAST_CLOCK then
          (let k = k\<lparr>m_fastClockSupported := False\<rparr>;
               k = (if fastClockSyncEnabled (m_config k) then stopFastClockSyncTimer k else k)
           in eventLoopCall (EvFastClockNotSupported (fastClockSyncEnabled (m_config k))) k)
        else k)
     else if m_lncvActive k \<and> m_onLNCVReadResponse k \<and> op = OPC_IMM_PACKET \<and> ack1 = 0x7F \<and>
       LNCVWrite_check sent then
       (let k = (if LNCVWrite_lncv sent = 0 then k\<lparr>m_lncvModuleAddress := LNCVWrite_value sent\<rparr> else k)
        in eventLoopCall (EvLNCVReadResponse True (LNCVWrite_lncv sent) (LNCVWrite_value sent)) k)
     else k)"

section \<open>Sensor reports\<close>

definition receive_MULTI_SENSE :: "bytes \<Rightarrow> Kernel \<Rightarrow> Kernel" where
  "receive_MULTI_SENSE message k =
    (if MultiSense_isTransponder message then
       eventLoopCall
         (EvIdentification (1 + unat (MultiSense_sensorAddress message))
           (if MultiSense_isPresent message then IdPresent else IdAbsent)
           (MultiSense_transponderAddress message) DirUnknown 0) k
     else k)"

definition receive_MULTI_SENSE_LONG :: "bytes \<Rightarrow> Kernel \<Rightarrow> Kernel" where
  "receive_MULTI_SENSE_LONG message k =
    (if MultiSenseLong_code message = ReleaseTransponder \<or> MultiSenseLong_code message = DetectTransponder then
       eventLoopCall
         (EvIdentification (1 + unat (MultiSenseLong_sensorAddress message))
           (if MultiSenseLong_code message = DetectTransponder then IdPresent else IdAbsent)
           (MultiSenseLong_transponderAddress message) (MultiSenseLong_transponderDirection message) 0) k
     else k)"

definition receive_E4 :: "bytes \<Rightarrow> Kernel \<Rightarrow> Kernel" where
  "receive_E4 message k =
    (if Lissy_type message = AddressCategoryDirection then
       eventLoopCall
         (EvIdentification (unat (Lissy_sensorAddress message)) IdSeen
           (Lissy_decoderAddress message) (Lissy_direction message) (Lissy_category message)) k
     else k)"

definition receive_PEER_XFER :: "bytes \<Rightarrow> bool \<Rightarrow> Kernel \<Rightarrow> Kernel" where
  "receive_PEER_XFER message isResponse k =
    (if isResponse then
       (if ReadSpecialOptionReply_check message then k
        else if m_onLNCVReadResponse k \<and> LNCVReadResponse_check message then
          (let k = (if LNCVReadResponse_lncv message = 0
                    then k\<lparr>m_lncvActive := True, m_lncvModuleAddress := LNCVReadResponse_value message\<rparr> else k)
           in eventLoopCall (EvLNCVReadResponse True (LNCVReadResponse_lncv message) (LNCVReadResponse_value message)) k)
        else k)
     else k)"

section \<open>Immediate packets\<close>

text \<open>The six branches differ in the message type only.\<close>

definition receive_IMM_functions :: "nat \<Rightarrow> nat \<Rightarrow> u16 \<Rightarrow> (nat \<Rightarrow> bool) \<Rightarrow> Kernel \<Rightarrow> Kernel" where
  "receive_IMM_functions First Last address f k =
    (case getLocoSlotByAddress address k of
       Some slot \<Rightarrow> snd (updateFunctions First Last slot f k)
     | None \<Rightarrow> send (LocoAdr address) NormalPriority k)"

definition receive_IMM_PACKET :: "bytes \<Rightarrow> Kernel \<Rightarrow> Kernel" where
  "receive_IMM_PACKET m k =
    (if m_decoderController k then
       (if isSignatureMatch LocoF9F12IMMShortAddress_signature m then
          receive_IMM_functions 9 12 (ucast (LocoF9F12IMMShortAddress_address m)) (LocoF9F12IMMShortAddress_f m) k
        else if isSignatureMatch LocoF9F12IMMLongAddress_signature m then
          receive_IMM_functions 9 12 (LocoF9F12IMMLongAddress_address m) (LocoF9F12IMMLongAddress_f m) k
        else if isSignatureMatch LocoF13F20IMMShortAddress_signature m then
          receive_IMM_functions 13 20 (ucast (LocoF13F20IMMShortAddress_address m)) (LocoF13F20IMMShortAddress_f m) k
        else if isSignatureMatch LocoF13F20IMMLongAddress_signature m then
          receive_IMM_functions 13 20 (LocoF13F20IMMLongAddress_address m) (LocoF13F20IMMLongAddress_f m) k
        else if isSignatureMatch LocoF21F28IMMShortAddress_signature m then
          receive_IMM_functions 21 28 (ucast (LocoF21F28IMMShortAddress_address m)) (LocoF21F28IMMShortAddress_f m) k
        else if isSignatureMatch LocoF21F28IMMLongAddress_signature m then
          receive_IMM_functions 21 28 (LocoF21F28IMMLongAddress_address m) (LocoF21F28IMMLongAddress_f m) k
        else k)
     else k)"

section \<open>Receive\<close>

text \<open>The switch; opcodes without a case here have an empty one in the code, or none.\<close>

definition receive_dispatch :: "bytes \<Rightarrow> bool \<Rightarrow> Kernel \<Rightarrow> Kernel" where
  "receive_dispatch message isResponse k =
    (let op = opCode message in
     if op = OPC_GPON then receive_GPON k
     else if op = OPC_GPOFF then receive_GPOFF k
     else if op = OPC_IDLE then receive_IDLE k
     else if op = OPC_LOCO_SPD then receive_LOCO_SPD message k
     else if op = OPC_LOCO_DIRF then receive_LOCO_DIRF message k
     else if op = OPC_LOCO_SND then receive_LOCO_SND message k
     else if op = OPC_LOCO_F9F12 then receive_LOCO_F9F12 message k
     else if op = OPC_INPUT_REP then receive_INPUT_REP message k
     else if op = OPC_SW_REQ then receive_SW_REQ message k
     else if op = OPC_SL_RD_DATA then receive_SL_RD_DATA message k
     else if op = OPC_LONG_ACK then receive_LONG_ACK message k
     else if op = OPC_MULTI_SENSE then receive_MULTI_SENSE message k
     else if op = OPC_D4 then receive_D4 message k
     else if op = OPC_MULTI_SENSE_LONG then receive_MULTI_SENSE_LONG message k
     else if op = OPC_E4 then receive_E4 message k
     else if op = OPC_PEER_XFER then receive_PEER_XFER message isResponse k
     else if op = OPC_IMM_PACKET then receive_IMM_PACKET message k
     else k)"

definition receive_log :: "bytes \<Rightarrow> Kernel \<Rightarrow> Kernel" where
  "receive_log message k =
    (let k = (if m_pcap k then k\<lparr>pcapRecords := pcapRecords k @ [message]\<rparr> else k)
     in if debugLogRXTX (m_config k) then eventLoopCall (EvRX message) k else k)"

definition receive :: "bytes \<Rightarrow> Kernel \<Rightarrow> Kernel" where
  "receive message k =
    (let k = receive_log message k;
         (isResponse, k) = receive_echo message k;
         k = receive_dispatch message isResponse k
     in receive_response isResponse k)"

end
