(* ===== verification/LocoNet_Operations.thy ===== *)
theory LocoNet_Operations
  imports LocoNet_Receive
begin

text \<open>
  The public operations of \<^verbatim>\<open>LocoNet::Kernel\<close> and its timers.  An operation called from the
  event loop decides there what to do and posts a closure to the kernel's thread; the model
  of it returns the posted closures (\<open>task\<close>), and \<open>runTask\<close> is what the kernel's thread does
  with one.  \<open>kernel_step\<close> puts the kernel's thread together: tasks, received messages and timers
  in any order.
\<close>

section \<open>Posted closures\<close>

datatype task =
    TSetConfig Config
  | TStart bool
  | TStop
  | TPowerOn
  | TPowerOff
  | TEmergencyStop
  | TResume
  | TSend bytes Priority
  | TSendAddress u16 bytes nat
  | TSimulateInput nat SimulateInputAction
  | TLNCVStart u16 u16
  | TLNCVRead u16
  | TLNCVWrite u16 u16
  | TLNCVStop
  | TSetFastClockMaster

section \<open>Configuration\<close>

definition disableClockEvents :: "Kernel \<Rightarrow> Kernel" where
  "disableClockEvents k = k\<lparr>m_clockChangeConnection := False\<rparr>"

definition enableClockEvents :: "Kernel \<Rightarrow> Kernel" where
  "enableClockEvents k =
    (if m_clockChangeConnection k \<or> \<not> m_clock k then k else k\<lparr>m_clockChangeConnection := True\<rparr>)"

text \<open>The clock's signal, while connected; \<open>freeze\<close> and \<open>resume\<close> are the kinds of event that post.\<close>

datatype ClockEvent = ClockFreeze | ClockResume | ClockChange

definition clockChanged :: "ClockEvent \<Rightarrow> u8 \<Rightarrow> u8 \<Rightarrow> u8 \<Rightarrow> Kernel \<Rightarrow> Kernel \<times> task list" where
  "clockChanged event multiplier hour minute k =
    (if m_clockChangeConnection k then
       (k\<lparr>m_fastClock := \<lparr>fc_multiplier = (if event = ClockFreeze then 0 else multiplier),
                          fc_hour = hour, fc_minute = minute\<rparr>\<rparr>,
        if event = ClockFreeze \<or> event = ClockResume then [TSetFastClockMaster] else [])
     else (k, []))"

definition setConfig :: "Config \<Rightarrow> Kernel \<Rightarrow> Kernel \<times> task list" where
  "setConfig config k =
    (case fastClockMode config of
       FastClock_Off \<Rightarrow> (disableClockEvents k, [TSetConfig config])
     | FastClock_Master \<Rightarrow> (enableClockEvents k, [TSetConfig config]))"

definition clearQueues :: "Kernel \<Rightarrow> Kernel" where
  "clearQueues k = k\<lparr>m_sendQueue := (\<lambda>p. SendQueue_clear (m_sendQueue k p))\<rparr>"

text \<open>The posted closure, in its four parts.\<close>

definition setConfig_pcap :: "Config \<Rightarrow> Kernel \<Rightarrow> Kernel" where
  "setConfig_pcap newConfig k =
    (if pcap newConfig \<noteq> pcap (m_config k) then
       (if pcap newConfig then startPCAP (pcapOutput newConfig) k else k\<lparr>m_pcap := False\<rparr>)
     else if pcap newConfig \<and> pcapOutput newConfig \<noteq> pcapOutput (m_config k) then
       startPCAP (pcapOutput newConfig) (k\<lparr>m_pcap := False\<rparr>)
     else k)"

definition setConfig_listenOnly :: "Config \<Rightarrow> Kernel \<Rightarrow> Kernel" where
  "setConfig_listenOnly newConfig k =
    (if listenOnly newConfig \<and> \<not> listenOnly (m_config k) then
       eventLoopCall (EvListenOnly True) (clearQueues k)
     else if \<not> listenOnly newConfig \<and> listenOnly (m_config k) then
       eventLoopCall (EvListenOnly False) k
     else k)"

definition setConfig_fastClock :: "Config \<Rightarrow> Kernel \<Rightarrow> Kernel" where
  "setConfig_fastClock newConfig k =
    (if fastClockMode (m_config k) = FastClock_Master \<and> fastClockMode newConfig = FastClock_Off then
       setFastClockMaster False k
     else if fastClockMode (m_config k) = FastClock_Off \<and> fastClockMode newConfig = FastClock_Master then
       setFastClockMaster True k
     else k)"

definition setConfig_fastClockSync :: "Config \<Rightarrow> Kernel \<Rightarrow> Kernel" where
  "setConfig_fastClockSync newConfig k =
    (if \<not> fastClockSyncEnabled (m_config k) \<and> fastClockSyncEnabled newConfig then
       startFastClockSyncTimer (send (RequestSlotData SLOT_FAST_CLOCK) NormalPriority k)
     else if fastClockSyncEnabled (m_config k) \<and> \<not> fastClockSyncEnabled newConfig then
       stopFastClockSyncTimer k
     else k)"

definition setConfig_posted :: "Config \<Rightarrow> Kernel \<Rightarrow> Kernel" where
  "setConfig_posted newConfig k =
    (let k = setConfig_pcap newConfig k;
         k = setConfig_listenOnly newConfig k;
         k = setConfig_fastClock newConfig k;
         k = setConfig_fastClockSync newConfig k
     in k\<lparr>m_config := newConfig\<rparr>)"

section \<open>Start and stop\<close>

definition start :: "bool \<Rightarrow> Kernel \<Rightarrow> Kernel \<times> task list" where
  "start ioHandlerStarts k =
    (let k = k\<lparr>m_globalPower := TriUndefined, m_emergencyStop := TriUndefined, m_addressToSlot := [],
               m_slots := [], m_pendingSlotMessages := Map.empty, m_inputValues := (\<lambda>_. TriUndefined),
               m_outputValues := (\<lambda>_. OutUndefined)\<rparr>;
         k = (if listenOnly (m_config k) then eventLoopCall (EvListenOnly True) k else k);
         k = (if fastClockMode (m_config k) = FastClock_Master then enableClockEvents k else k)
     in (k, [TStart ioHandlerStarts]))"

text \<open>
  The flag tells whether \<^verbatim>\<open>m_ioHandler->start()\<close> returns or throws.  The loop's counter is a
  \<^verbatim>\<open>uint8_t\<close>: it runs through this list when there are at most 254 slots (with 255 it would
  not end).  The settings allow 119 at most, which \<open>configInv\<close> in \<open>LocoNet_Invariant\<close> states.
\<close>

definition start_posted :: "bool \<Rightarrow> Kernel \<Rightarrow> Kernel" where
  "start_posted ioHandlerStarts k =
    (let k = (if pcap (m_config k) then startPCAP (pcapOutput (m_config k)) k else k) in
     if \<not> ioHandlerStarts then eventLoopCall EvStartFailed k
     else
       (let k = (if fastClockMode (m_config k) = FastClock_Master then setFastClockMaster True k else k);
            k = (if fastClockSyncEnabled (m_config k) then startFastClockSyncTimer k else k);
            k = fold (\<lambda>slot. send (RequestSlotData (of_nat slot)) LowPriority)
                  [1..<unat (locomotiveSlots (m_config k)) + 1] k
        in eventLoopCall EvStarted k))"

definition stop :: "Kernel \<Rightarrow> Kernel \<times> task list" where
  "stop k = (disableClockEvents k, [TStop])"

definition stop_posted :: "Kernel \<Rightarrow> Kernel" where
  "stop_posted k =
    k\<lparr>m_waitingForEchoTimer := False, m_waitingForResponseTimer := False, m_fastClockSyncTimer := False,
      m_pcap := False\<rparr>"

section \<open>Power\<close>

definition setPowerOn :: "bool \<Rightarrow> task list" where
  "setPowerOn v = (if v then [TPowerOn] else [TPowerOff])"

definition setPowerOn_on :: "Kernel \<Rightarrow> Kernel" where
  "setPowerOn_on k = (if m_globalPower k \<noteq> TriTrue then send GlobalPowerOn HighPriority k else k)"

definition setPowerOn_off :: "Kernel \<Rightarrow> Kernel" where
  "setPowerOn_off k = (if m_globalPower k \<noteq> TriFalse then send GlobalPowerOff HighPriority k else k)"

definition emergencyStop :: "Kernel \<Rightarrow> Kernel" where
  "emergencyStop k = (if m_emergencyStop k \<noteq> TriTrue then send Idle HighPriority k else k)"

definition resume :: "Kernel \<Rightarrow> Kernel" where
  "resume k = (if m_emergencyStop k \<noteq> TriFalse then k\<lparr>m_emergencyStop := TriFalse\<rparr> else k)"

section \<open>Raw packets\<close>

definition sendPacket :: "bytes \<Rightarrow> bool \<times> task list" where
  "sendPacket packet =
    (if msg_size packet \<noteq> length packet + 1 then (False, [])
     else
       (let data = packet @ [calcChecksum packet] in
        if \<not> isValid data then (False, []) else (True, [TSend data NormalPriority])))"

definition immPacket :: "bytes \<Rightarrow> u8 \<Rightarrow> bool \<times> task list" where
  "immPacket dccPacket repeat =
    (if 5 < length dccPacket \<or> repeat > 7 then (False, [])
     else (True, [TSend (ImmPacket dccPacket repeat) NormalPriority]))"

section \<open>Decoders\<close>

text \<open>
  What the kernel reads of a \<^verbatim>\<open>Decoder\<close>.  \<open>d_speedStep\<close> is \<^verbatim>\<open>throttleToSpeedStep\<close> of its throttle
  (a rounding of a \<^verbatim>\<open>float\<close> to 0 .. 126).
\<close>

record DecoderView =
  d_dccLong :: bool
  d_address :: u16
  d_emergencyStop :: bool
  d_speedStep :: u8
  d_direction :: Direction
  d_function :: "nat \<Rightarrow> bool"

definition decoderChanged_speed :: "DecoderView \<Rightarrow> Kernel \<Rightarrow> task list" where
  "decoderChanged_speed d k =
    (if m_emergencyStop k = TriFalse \<or> d_emergencyStop d \<or> d_speedStep d = SPEED_STOP then
       [TSendAddress (d_address d)
         (LocoSpd (if d_emergencyStop d then SPEED_ESTOP
                   else if d_speedStep d > 0 then 1 + d_speedStep d else SPEED_STOP)) 1]
     else [])"

definition decoderChanged_IMM :: "DecoderView \<Rightarrow> nat \<Rightarrow> task list" where
  "decoderChanged_IMM d n =
    (let f = d_function d; a = d_address d in
     if n \<le> 12 then
       (if d_dccLong d then [TSend (LocoF9F12IMMLongAddress a (f 9) (f 10) (f 11) (f 12)) NormalPriority]
        else [TSend (LocoF9F12IMMShortAddress (ucast a) (f 9) (f 10) (f 11) (f 12)) NormalPriority])
     else if n \<le> 20 then
       (if d_dccLong d then
          [TSend (LocoF13F20IMMLongAddress a (f 13) (f 14) (f 15) (f 16) (f 17) (f 18) (f 19) (f 20)) NormalPriority]
        else
          [TSend (LocoF13F20IMMShortAddress (ucast a) (f 13) (f 14) (f 15) (f 16) (f 17) (f 18) (f 19) (f 20)) NormalPriority])
     else if n \<le> 28 then
       (if d_dccLong d then
          [TSend (LocoF21F28IMMLongAddress a (f 21) (f 22) (f 23) (f 24) (f 25) (f 26) (f 27) (f 28)) NormalPriority]
        else
          [TSend (LocoF21F28IMMShortAddress (ucast a) (f 21) (f 22) (f 23) (f 24) (f 25) (f 26) (f 27) (f 28)) NormalPriority])
     else [])"

definition decoderChanged_Uhlenbrock :: "DecoderView \<Rightarrow> nat \<Rightarrow> task list" where
  "decoderChanged_Uhlenbrock d n =
    (let f = d_function d; a = d_address d in
     if n \<le> 12 then [TSendAddress a (LocoF9F12 (f 9) (f 10) (f 11) (f 12)) 1]
     else if n \<le> 19 then
       [TSendAddress a (LocoF13F19 (f 13) (f 14) (f 15) (f 16) (f 17) (f 18) (f 19)) 2]
     else if n = 20 \<or> n = 28 then [TSendAddress a (LocoF12F20F28 (f 12) (f 20) (f 28)) 2]
     else if n \<le> 27 then
       [TSendAddress a (LocoF21F27 (f 21) (f 22) (f 23) (f 24) (f 25) (f 26) (f 27)) 2]
     else [])"

definition decoderChanged_function :: "DecoderView \<Rightarrow> u8 \<Rightarrow> nat \<Rightarrow> Kernel \<Rightarrow> task list" where
  "decoderChanged_function d changes n k =
    (let f = d_function d in
     if n \<le> 4 \<or> has_change changes chDirection then
       [TSendAddress (d_address d) (LocoDirF (d_direction d) (f 0) (f 1) (f 2) (f 3) (f 4)) 1]
     else if n \<le> 8 then [TSendAddress (d_address d) (LocoSnd (f 5) (f 6) (f 7) (f 8)) 1]
     else if n \<le> 28 then
       (case f9f28 (m_config k) of
          F9F28_IMMPacket \<Rightarrow> decoderChanged_IMM d n
        | F9F28_UhlenbrockExtended \<Rightarrow> decoderChanged_Uhlenbrock d n)
     else [])"

definition decoderChanged :: "DecoderView \<Rightarrow> u8 \<Rightarrow> nat \<Rightarrow> Kernel \<Rightarrow> task list" where
  "decoderChanged d changes functionNumber k =
    (if has_change changes (chEmergencyStop OR chThrottle) then decoderChanged_speed d k else []) @
    (if has_change changes (chFunctionValue OR chDirection) then decoderChanged_function d changes functionNumber k
     else [])"

section \<open>Outputs and inputs\<close>

text \<open>
  \<open>None\<close> is an exception: \<^verbatim>\<open>std::get\<close> of an alternative the variant does not hold.  The last case
  is an assertion, followed by \<^verbatim>\<open>return false\<close>.
\<close>

definition setOutput :: "OutputChannel \<Rightarrow> u16 \<Rightarrow> OutputValue \<Rightarrow> (bool \<times> task list) option" where
  "setOutput channel address v =
    (case channel of
       Ch_Accessory \<Rightarrow>
         (if \<not> (1 \<le> address \<and> address \<le> 2048) then Some (False, [])
          else (case v of
                  OV_Pair p \<Rightarrow> Some (True, [TSend (SwitchRequest address (p = OutSecond) True) NormalPriority])
                | _ \<Rightarrow> None))
     | Ch_DCCext \<Rightarrow>
         (if \<not> (1 \<le> address \<and> address \<le> 2044) then Some (False, [])
          else (case v of
                  OV_int16 i \<Rightarrow>
                    (if 0 \<le> sint i \<and> sint i \<le> 255
                     then Some (immPacket (SetAdvancedAccessoryValue address (ucast i)) 2)
                     else Some (False, []))
                | _ \<Rightarrow> None))
     | _ \<Rightarrow> Some (False, []))"

definition simulateInputChange :: "u16 \<Rightarrow> SimulateInputAction \<Rightarrow> Kernel \<Rightarrow> task list" where
  "simulateInputChange address action k =
    (if m_simulation k then [TSimulateInput (unat address - 1) action] else [])"

definition simulateInputChange_posted :: "nat \<Rightarrow> SimulateInputAction \<Rightarrow> Kernel \<Rightarrow> Kernel" where
  "simulateInputChange_posted fullAddress action k =
    (case action of
       SimSetFalse \<Rightarrow>
         (if m_inputValues k fullAddress \<noteq> TriFalse then receive (InputRep (of_nat fullAddress) False) k else k)
     | SimSetTrue \<Rightarrow>
         (if m_inputValues k fullAddress \<noteq> TriTrue then receive (InputRep (of_nat fullAddress) True) k else k)
     | SimToggle \<Rightarrow>
         receive (InputRep (of_nat fullAddress) (m_inputValues k fullAddress \<noteq> TriTrue)) k)"

section \<open>LNCV programming\<close>

definition lncvStart :: "u16 \<Rightarrow> u16 \<Rightarrow> Kernel \<Rightarrow> Kernel" where
  "lncvStart moduleId moduleAddress k =
    (if m_lncvActive k then k
     else
       (let k = k\<lparr>m_lncvActive := True, m_lncvModuleId := moduleId, m_lncvModuleAddress := moduleAddress\<rparr>
        in send (LNCVStart (m_lncvModuleId k) (m_lncvModuleAddress k)) HighPriority k))"

definition lncvRead :: "u16 \<Rightarrow> Kernel \<Rightarrow> Kernel" where
  "lncvRead lncv k =
    (if m_lncvActive k then send (LNCVRead (m_lncvModuleId k) (m_lncvModuleAddress k) lncv) HighPriority k
     else k)"

definition lncvWrite :: "u16 \<Rightarrow> u16 \<Rightarrow> Kernel \<Rightarrow> Kernel" where
  "lncvWrite lncv v k =
    (if m_lncvActive k then send (LNCVWrite (m_lncvModuleId k) lncv v) HighPriority k else k)"

definition lncvStop :: "Kernel \<Rightarrow> Kernel" where
  "lncvStop k =
    (if \<not> m_lncvActive k then k
     else (send (LNCVStop (m_lncvModuleId k) (m_lncvModuleAddress k)) HighPriority k)\<lparr>m_lncvActive := False\<rparr>)"

section \<open>Timers\<close>

text \<open>An expiry that \<^verbatim>\<open>cancel\<close> caught comes with an error code and does nothing.\<close>

definition waitingForEchoTimerExpired :: "bool \<Rightarrow> Kernel \<Rightarrow> Kernel" where
  "waitingForEchoTimerExpired ec k = (if ec then k else eventLoopCall EvNoEcho k)"

text \<open>
  \<open>EvLNCVNoResponse\<close> stands for the log message and the callback that the closure makes when
  the module is still the one being programmed; \<open>EvNoResponse\<close> for the log message and \<^verbatim>\<open>error()\<close>.
\<close>

definition waitingForResponseTimerExpired :: "bool \<Rightarrow> Kernel \<Rightarrow> Kernel" where
  "waitingForResponseTimerExpired ec k =
    (if ec then k
     else if m_lncvActive k \<and> LNCVStart_check (lastSentMessage k) then
       (let m = lastSentMessage k
        in sendNextMessage (eventLoopCall (EvLNCVNoResponse (LNCVStart_moduleId m) (LNCVStart_address m)) k))
     else eventLoopCall EvNoResponse k)"

definition fastClockSyncTimerExpired :: "bool \<Rightarrow> Kernel \<Rightarrow> Kernel" where
  "fastClockSyncTimerExpired ec k =
    (if ec \<or> \<not> fastClockSyncEnabled (m_config k) \<or> \<not> m_fastClockSupported k then k
     else startFastClockSyncTimer (send (RequestSlotData SLOT_FAST_CLOCK) NormalPriority k))"

section \<open>The kernel's thread\<close>

fun runTask :: "task \<Rightarrow> Kernel \<Rightarrow> Kernel" where
  "runTask (TSetConfig config) k = setConfig_posted config k"
| "runTask (TStart ioHandlerStarts) k = start_posted ioHandlerStarts k"
| "runTask TStop k = stop_posted k"
| "runTask TPowerOn k = setPowerOn_on k"
| "runTask TPowerOff k = setPowerOn_off k"
| "runTask TEmergencyStop k = emergencyStop k"
| "runTask TResume k = resume k"
| "runTask (TSend message priority) k = send message priority k"
| "runTask (TSendAddress address message i) k = sendAddress address message i k"
| "runTask (TSimulateInput fullAddress action) k = simulateInputChange_posted fullAddress action k"
| "runTask (TLNCVStart moduleId moduleAddress) k = lncvStart moduleId moduleAddress k"
| "runTask (TLNCVRead lncv) k = lncvRead lncv k"
| "runTask (TLNCVWrite lncv v) k = lncvWrite lncv v k"
| "runTask TLNCVStop k = lncvStop k"
| "runTask TSetFastClockMaster k = setFastClockMaster True k"

section \<open>Construction\<close>

text \<open>
  What the constructor leaves.  The members it does not initialise are parameters: \<open>p\<close> is
  \<^verbatim>\<open>m_sentMessagePriority\<close>, \<open>gp\<close> and \<open>es\<close> the two states of the bus, \<open>fc\<close> the fast clock, \<open>ivs\<close> and
  \<open>ovs\<close> the values of inputs and outputs.
\<close>

definition Kernel_construct :: "Config \<Rightarrow> bool \<Rightarrow> Priority \<Rightarrow> TriState \<Rightarrow> TriState \<Rightarrow> FastClock \<Rightarrow>
    (nat \<Rightarrow> TriState) \<Rightarrow> (nat \<Rightarrow> OutputPairValue) \<Rightarrow> ((bytes \<times> bool) list \<Rightarrow> bytes \<Rightarrow> bool) \<Rightarrow>
    (PCAPOutput \<Rightarrow> bool) \<Rightarrow> Kernel" where
  "Kernel_construct config simulation p gp es fc ivs ovs io po =
    \<lparr>m_simulation = simulation, m_sendQueue = (\<lambda>_. SendQueue_init), m_sentMessagePriority = p,
     m_waitingForEcho = False, m_waitingForEchoTimer = False, m_waitingForResponse = False,
     m_waitingForResponseTimer = False, m_globalPower = gp, m_onGlobalPowerChanged = False,
     m_emergencyStop = es, m_onIdle = False, m_clock = False, m_clockChangeConnection = False,
     m_fastClock = fc, m_fastClockSyncTimer = False,
     m_fastClockSupported = True, m_lncvActive = False, m_lncvModuleId = 0, m_lncvModuleAddress = 0,
     m_onLNCVReadResponse = False, m_decoderController = False, m_addressToSlot = [], m_slots = [],
     m_pendingSlotMessages = Map.empty, m_inputController = False, m_inputValues = ivs,
     m_outputController = False, m_outputValues = ovs, m_pcap = False, m_config = config,
     ioSend = io, pcapOpens = po, wire = [], events = [], pcapRecords = []\<rparr>"

definition setOnGlobalPowerChanged :: "bool \<Rightarrow> Kernel \<Rightarrow> Kernel" where
  "setOnGlobalPowerChanged callback k = k\<lparr>m_onGlobalPowerChanged := callback\<rparr>"

definition setOnIdle :: "bool \<Rightarrow> Kernel \<Rightarrow> Kernel" where
  "setOnIdle callback k = k\<lparr>m_onIdle := callback\<rparr>"

definition setOnLNCVReadResponse :: "bool \<Rightarrow> Kernel \<Rightarrow> Kernel" where
  "setOnLNCVReadResponse callback k = k\<lparr>m_onLNCVReadResponse := callback\<rparr>"

text \<open>The clock is given by what the code reads of it: whether it runs, its multiplier and its time.\<close>

definition setClock :: "bool \<Rightarrow> u8 \<Rightarrow> u8 \<Rightarrow> u8 \<Rightarrow> Kernel \<Rightarrow> Kernel" where
  "setClock running multiplier hour minute k =
    k\<lparr>m_clock := True,
      m_fastClock := \<lparr>fc_multiplier = (if running then multiplier else 0), fc_hour = hour, fc_minute = minute\<rparr>\<rparr>"

definition setDecoderController :: "bool \<Rightarrow> Kernel \<Rightarrow> Kernel" where
  "setDecoderController controller k = k\<lparr>m_decoderController := controller\<rparr>"

definition setInputController :: "bool \<Rightarrow> Kernel \<Rightarrow> Kernel" where
  "setInputController controller k = k\<lparr>m_inputController := controller\<rparr>"

definition setOutputController :: "bool \<Rightarrow> Kernel \<Rightarrow> Kernel" where
  "setOutputController controller k = k\<lparr>m_outputController := controller\<rparr>"

text \<open>
  The kernel the properties start from: constructed, with every callback and controller set, a
  stopped clock at midnight, and its values reset as \<^verbatim>\<open>start\<close> resets them.
\<close>

definition Kernel_init :: "Config \<Rightarrow> bool \<Rightarrow> Priority \<Rightarrow> ((bytes \<times> bool) list \<Rightarrow> bytes \<Rightarrow> bool) \<Rightarrow>
    (PCAPOutput \<Rightarrow> bool) \<Rightarrow> Kernel" where
  "Kernel_init config simulation p io po =
    \<lparr>m_simulation = simulation, m_sendQueue = (\<lambda>_. SendQueue_init), m_sentMessagePriority = p,
     m_waitingForEcho = False, m_waitingForEchoTimer = False, m_waitingForResponse = False,
     m_waitingForResponseTimer = False, m_globalPower = TriUndefined, m_onGlobalPowerChanged = True,
     m_emergencyStop = TriUndefined, m_onIdle = True, m_clock = True, m_clockChangeConnection = False,
     m_fastClock = \<lparr>fc_multiplier = 0, fc_hour = 0, fc_minute = 0\<rparr>, m_fastClockSyncTimer = False,
     m_fastClockSupported = True, m_lncvActive = False, m_lncvModuleId = 0, m_lncvModuleAddress = 0,
     m_onLNCVReadResponse = True, m_decoderController = True, m_addressToSlot = [], m_slots = [],
     m_pendingSlotMessages = Map.empty, m_inputController = True, m_inputValues = (\<lambda>_. TriUndefined),
     m_outputController = True, m_outputValues = (\<lambda>_. OutUndefined), m_pcap = False, m_config = config,
     ioSend = io, pcapOpens = po, wire = [], events = [], pcapRecords = []\<rparr>"

lemma Kernel_init_setters:
  fixes c sim p gp es fc ivs ovs io po m
  defines "k \<equiv> Kernel_construct c sim p gp es fc ivs ovs io po"
  defines "k' \<equiv> setOnGlobalPowerChanged True (setOnIdle True (setOnLNCVReadResponse True (setClock False m 0 0
    (setDecoderController True (setInputController True (setOutputController True k))))))"
  shows "k'\<lparr>m_globalPower := TriUndefined, m_emergencyStop := TriUndefined, m_addressToSlot := [],
    m_slots := [], m_pendingSlotMessages := Map.empty, m_inputValues := (\<lambda>_. TriUndefined),
    m_outputValues := (\<lambda>_. OutUndefined)\<rparr> = Kernel_init c sim p io po"
  by (simp add: k'_def k_def Kernel_construct_def Kernel_init_def setOnGlobalPowerChanged_def setOnIdle_def
      setOnLNCVReadResponse_def setClock_def setDecoderController_def setInputController_def
      setOutputController_def)

end
