(* ===== verification/LocoNet_Invariant.thy ===== *)
theory LocoNet_Invariant
  imports LocoNet_Operations
begin

text \<open>
  The kernel's invariant and its preservation by every step of the kernel's thread.  It has
  three parts: what is queued and sent (\<open>queueInv\<close>), the slot tables (\<open>slotInv\<close>) and the messages
  that wait for a slot (\<open>pendingInv\<close>).  The queue part is stated through the relation of the
  queue interface, and its preservation uses the interface's laws only.
\<close>

section \<open>What sending leaves alone\<close>

lemma eventLoopCall_frame [simp]:
  "m_sendQueue (eventLoopCall ev k) = m_sendQueue k"
  "m_sentMessagePriority (eventLoopCall ev k) = m_sentMessagePriority k"
  "m_waitingForEcho (eventLoopCall ev k) = m_waitingForEcho k"
  "m_waitingForResponse (eventLoopCall ev k) = m_waitingForResponse k"
  "m_slots (eventLoopCall ev k) = m_slots k" "m_addressToSlot (eventLoopCall ev k) = m_addressToSlot k"
  "m_pendingSlotMessages (eventLoopCall ev k) = m_pendingSlotMessages k"
  "m_config (eventLoopCall ev k) = m_config k" "m_fastClock (eventLoopCall ev k) = m_fastClock k"
  "m_decoderController (eventLoopCall ev k) = m_decoderController k"
  "m_inputValues (eventLoopCall ev k) = m_inputValues k" "m_outputValues (eventLoopCall ev k) = m_outputValues k"
  "wire (eventLoopCall ev k) = wire k" "ioSend (eventLoopCall ev k) = ioSend k"
  "m_lncvActive (eventLoopCall ev k) = m_lncvActive k"
  "locoSlot s (eventLoopCall ev k) = locoSlot s k"
  "lastSentMessage (eventLoopCall ev k) = lastSentMessage k"
  by (simp_all add: eventLoopCall_def locoSlot_def lastSentMessage_def)

lemma transmit_frame [simp]:
  "m_sendQueue (transmit p k) = m_sendQueue k"
  "m_slots (transmit p k) = m_slots k" "m_addressToSlot (transmit p k) = m_addressToSlot k"
  "m_pendingSlotMessages (transmit p k) = m_pendingSlotMessages k"
  "m_config (transmit p k) = m_config k" "m_fastClock (transmit p k) = m_fastClock k"
  "m_decoderController (transmit p k) = m_decoderController k"
  "m_inputValues (transmit p k) = m_inputValues k" "m_outputValues (transmit p k) = m_outputValues k"
  "m_lncvActive (transmit p k) = m_lncvActive k" "ioSend (transmit p k) = ioSend k"
  by (simp_all add: transmit_def Let_def)

lemma sendNextFrom_frame [simp]:
  "m_sendQueue (sendNextFrom ps k) = m_sendQueue k"
  "m_slots (sendNextFrom ps k) = m_slots k" "m_addressToSlot (sendNextFrom ps k) = m_addressToSlot k"
  "m_pendingSlotMessages (sendNextFrom ps k) = m_pendingSlotMessages k"
  "m_config (sendNextFrom ps k) = m_config k" "m_fastClock (sendNextFrom ps k) = m_fastClock k"
  "m_decoderController (sendNextFrom ps k) = m_decoderController k"
  "m_inputValues (sendNextFrom ps k) = m_inputValues k" "m_outputValues (sendNextFrom ps k) = m_outputValues k"
  "m_lncvActive (sendNextFrom ps k) = m_lncvActive k" "ioSend (sendNextFrom ps k) = ioSend k"
  by (induction ps) simp_all

lemma sendNextMessage_frame [simp]:
  "m_sendQueue (sendNextMessage k) = m_sendQueue k"
  "m_slots (sendNextMessage k) = m_slots k" "m_addressToSlot (sendNextMessage k) = m_addressToSlot k"
  "m_pendingSlotMessages (sendNextMessage k) = m_pendingSlotMessages k"
  "m_config (sendNextMessage k) = m_config k" "m_fastClock (sendNextMessage k) = m_fastClock k"
  "m_decoderController (sendNextMessage k) = m_decoderController k"
  "m_inputValues (sendNextMessage k) = m_inputValues k" "m_outputValues (sendNextMessage k) = m_outputValues k"
  "m_lncvActive (sendNextMessage k) = m_lncvActive k" "ioSend (sendNextMessage k) = ioSend k"
  by (simp_all only: sendNextMessage_def sendNextFrom_frame)

lemma send_frame [simp]:
  "m_slots (send m p k) = m_slots k" "m_addressToSlot (send m p k) = m_addressToSlot k"
  "m_pendingSlotMessages (send m p k) = m_pendingSlotMessages k"
  "m_config (send m p k) = m_config k" "m_fastClock (send m p k) = m_fastClock k"
  "m_decoderController (send m p k) = m_decoderController k"
  "m_inputValues (send m p k) = m_inputValues k" "m_outputValues (send m p k) = m_outputValues k"
  "m_lncvActive (send m p k) = m_lncvActive k" "ioSend (send m p k) = ioSend k"
  "locoSlot s (send m p k) = locoSlot s k"
  by (simp_all add: send_def Let_def locoSlot_def split: prod.split bool.split)

lemma popSent_frame [simp]:
  "m_slots (popSent k) = m_slots k" "m_addressToSlot (popSent k) = m_addressToSlot k"
  "m_pendingSlotMessages (popSent k) = m_pendingSlotMessages k"
  "m_config (popSent k) = m_config k" "m_fastClock (popSent k) = m_fastClock k"
  "m_decoderController (popSent k) = m_decoderController k"
  "m_inputValues (popSent k) = m_inputValues k" "m_outputValues (popSent k) = m_outputValues k"
  "m_waitingForEcho (popSent k) = m_waitingForEcho k" "m_waitingForResponse (popSent k) = m_waitingForResponse k"
  "m_sentMessagePriority (popSent k) = m_sentMessagePriority k"
  "wire (popSent k) = wire k" "ioSend (popSent k) = ioSend k"
  by (simp_all add: popSent_def Let_def)

section \<open>Queues and wire\<close>

definition validMsg :: "bytes \<Rightarrow> bool" where
  "validMsg m \<longleftrightarrow> framed m \<and> isValid m"

text \<open>
  Every queue holds valid messages only, everything given to the handler was valid, and while
  an echo or a response is awaited the queue the message came from still holds it.
\<close>

definition holds :: "Kernel \<Rightarrow> (Priority \<Rightarrow> bytes list) \<Rightarrow> bool" where
  "holds k ms \<longleftrightarrow>
    (\<forall>p. SendQueue_rep (m_sendQueue k p) (ms p) \<and> list_all validMsg (ms p)) \<and>
    (m_waitingForEcho k \<or> m_waitingForResponse k \<longrightarrow> ms (m_sentMessagePriority k) \<noteq> []) \<and>
    (m_waitingForResponse k \<longrightarrow> hasResponse (hd (ms (m_sentMessagePriority k)))) \<and>
    list_all (\<lambda>(m, _). validMsg m) (wire k)"

definition queueInv :: "Kernel \<Rightarrow> bool" where
  "queueInv k \<longleftrightarrow> (\<exists>ms. holds k ms)"

lemma holds_cong:
  assumes "m_sendQueue k' = m_sendQueue k" "m_sentMessagePriority k' = m_sentMessagePriority k"
    "m_waitingForEcho k' = m_waitingForEcho k" "m_waitingForResponse k' = m_waitingForResponse k"
    "wire k' = wire k"
  shows "holds k' = holds k" and "queueInv k' = queueInv k"
  using assms by (simp_all add: holds_def fun_eq_iff queueInv_def)

lemma holds_lastSent:
  assumes "holds k ms" and "ms (m_sentMessagePriority k) \<noteq> []"
  shows "lastSentMessage k = hd (ms (m_sentMessagePriority k))"
proof -
  obtain m r where "ms (m_sentMessagePriority k) = m # r" using assms(2) by (cases "ms (m_sentMessagePriority k)") auto
  then show ?thesis
    using assms(1) sq.front_law [of "m_sendQueue k (m_sentMessagePriority k)" m r]
    by (auto simp: holds_def lastSentMessage_def dest: spec [of _ "m_sentMessagePriority k"])
qed

lemma transmit_holds:
  assumes "holds k ms" and "ms p \<noteq> []"
  shows "holds (transmit p k) ms"
proof -
  obtain m r where m: "ms p = m # r" using assms(2) by (cases "ms p") auto
  have front: "SendQueue_front (m_sendQueue k p) = m" and v: "validMsg m"
    using assms(1) m sq.front_law [of "m_sendQueue k p" m r] by (auto simp: holds_def dest: spec [of _ p])
  show ?thesis
    using assms(1) m v
    by (auto simp: holds_def transmit_def Let_def front)
qed

lemma sendNextFrom_holds:
  assumes "holds k ms"
  shows "holds (sendNextFrom ps k) ms"
proof (induction ps)
  case (Cons p ps)
  have "SendQueue_empty (m_sendQueue k p) \<longleftrightarrow> ms p = []"
    using assms sq.empty_law by (simp add: holds_def)
  then show ?case using Cons transmit_holds [OF assms] by simp
qed (simp add: assms)

lemma sendNextMessage_holds: "holds k ms \<Longrightarrow> holds (sendNextMessage k) ms"
  unfolding sendNextMessage_def by (rule sendNextFrom_holds)

lemma send_holds:
  assumes "holds k ms" and "validMsg m"
  shows "holds (send m p k) ms \<or> holds (send m p k) (ms(p := ms p @ [m]))"
proof (cases "SendQueue_append (m_sendQueue k p) m")
  case (Pair ok q)
  have r: "SendQueue_rep (m_sendQueue k p) (ms p)" using assms(1) by (simp add: holds_def)
  show ?thesis
  proof (cases "listenOnly (m_config k) \<or> \<not> ok")
    case True
    then show ?thesis using assms(1) Pair by (auto simp: send_def)
  next
    case False
    let ?k = "k\<lparr>m_sendQueue := (m_sendQueue k)(p := q)\<rparr>"
    have "SendQueue_rep q (ms p @ [m])"
      using sq.append_accepted [OF r] assms(2) False Pair by (simp add: validMsg_def)
    then have "holds ?k (ms(p := ms p @ [m]))"
      using assms by (auto simp: holds_def hd_append)
    then show ?thesis
      using False Pair sendNextMessage_holds [of ?k] by (simp add: send_def Let_def)
  qed
qed

lemma send_queueInv: "queueInv k \<Longrightarrow> validMsg m \<Longrightarrow> queueInv (send m p k)"
  using send_holds unfolding queueInv_def by blast

lemma popSent_holds:
  assumes "holds k ms" and "ms (m_sentMessagePriority k) \<noteq> []"
    and "\<not> m_waitingForEcho k'" "\<not> m_waitingForResponse k'"
    and "m_sendQueue k' = m_sendQueue k" "m_sentMessagePriority k' = m_sentMessagePriority k" "wire k' = wire k"
  shows "holds (popSent k') (ms(m_sentMessagePriority k := tl (ms (m_sentMessagePriority k))))"
proof -
  let ?p = "m_sentMessagePriority k"
  obtain m r where m: "ms ?p = m # r" using assms(2) by (cases "ms ?p") auto
  then have "SendQueue_rep (SendQueue_pop (m_sendQueue k ?p)) r"
    using assms(1) sq.pop_law [of _ m r] by (simp add: holds_def) metis
  moreover have "list_all validMsg r"
    using assms(1) m by (auto simp: holds_def dest: spec [of _ ?p])
  ultimately show ?thesis
    using assms m by (auto simp: holds_def popSent_def Let_def)
qed


section \<open>Messages the kernel makes\<close>

lemma validMsg_power [simp]: "validMsg Idle" "validMsg GlobalPowerOn" "validMsg GlobalPowerOff"
  by (simp_all add: validMsg_def)

lemma validMsg_RequestSlotData: "\<not> bit s 7 \<Longrightarrow> validMsg (RequestSlotData s)"
  using RequestSlotData_valid by (simp add: validMsg_def)

lemma validMsg_RequestSlotData_loco: "isLocoSlot s \<Longrightarrow> validMsg (RequestSlotData s)"
  using isLocoSlot_bit7 validMsg_RequestSlotData by blast

lemma validMsg_LocoAdr: "unat a < 16384 \<Longrightarrow> validMsg (LocoAdr a)"
  using LocoAdr_valid by (simp add: validMsg_def)

lemma validMsg_LNCV [simp]:
  "validMsg (LNCVStart i a)" "validMsg (LNCVRead i a n)" "validMsg (LNCVWrite i n v)" "validMsg (LNCVStop i a)"
  using LNCV_valid by (simp_all add: validMsg_def)

text \<open>A message with a slot in it, fit to be sent once the slot is filled in.\<close>

definition slotPos :: "bytes \<Rightarrow> nat" where
  "slotPos m = (if opCode m = OPC_D4 then 2 else 1)"

definition slotMsg :: "bytes \<Rightarrow> bool" where
  "slotMsg m \<longleftrightarrow> framed m \<and> carriesSlot m \<and> low7 (butlast (tl (m[slotPos m := 0])))"

lemma slotMsg_setSlot:
  assumes "slotMsg m" and "isLocoSlot s"
  shows "setSlot m s = Some (m[slotPos m := s])" and "validMsg (updateChecksum (m[slotPos m := s]))"
proof -
  let ?m = "m[slotPos m := 0]"
  have fr: "framed m" "carriesSlot m" using assms(1) by (simp_all add: slotMsg_def)
  have s: "s < 128" using assms(2) by (simp add: isLocoSlot_unat word_less_nat_alt)
  then show "setSlot m s = Some (m[slotPos m := s])"
    using fr by (auto simp: setSlot_def carriesSlot_def slotPos_def)
  have op: "opCode ?m = opCode m" by (simp add: slotPos_def)
  have cs: "carriesSlot ?m" using fr(2) by (auto simp: carriesSlot_def slotPos_def)
  then have "framed ?m"
    using carriesSlot_size [OF cs] carriesSlot_size [OF fr(2)] op fr(1) by (simp add: framed_def)
  moreover have "setSlot ?m s = Some (m[slotPos m := s])"
    using fr s by (auto simp: setSlot_def carriesSlot_def slotPos_def)
  ultimately show "validMsg (updateChecksum (m[slotPos m := s]))"
    using setSlot_valid assms(1) by (simp add: slotMsg_def validMsg_def)
qed

section \<open>The invariant\<close>

definition slotInv :: "Kernel \<Rightarrow> bool" where
  "slotInv k \<longleftrightarrow>
    distinct (map fst (m_slots k)) \<and> distinct (map fst (m_addressToSlot k)) \<and>
    (\<forall>s ls. map_of (m_slots k) s = Some ls \<longrightarrow> isLocoSlot s) \<and>
    (\<forall>a s. map_of (m_addressToSlot k) a = Some s \<longrightarrow>
       (\<exists>ls. map_of (m_slots k) s = Some ls \<and> ls_address ls = a \<and> unat a < 16384))"

definition pendingInv :: "Kernel \<Rightarrow> bool" where
  "pendingInv k \<longleftrightarrow>
    (\<forall>a p. m_pendingSlotMessages k a = Some p \<longrightarrow> (\<exists>ms. p = concat ms \<and> list_all slotMsg ms))"

definition configInv :: "Kernel \<Rightarrow> bool" where
  "configInv k \<longleftrightarrow>
    unat (locomotiveSlots (m_config k)) \<le> 119 \<and> unat (fc_multiplier (m_fastClock k)) < 128 \<and>
    unat (fc_hour (m_fastClock k)) < 24 \<and> unat (fc_minute (m_fastClock k)) < 60"

definition kernelInv :: "Kernel \<Rightarrow> bool" where
  "kernelInv k \<longleftrightarrow> queueInv k \<and> slotInv k \<and> pendingInv k \<and> configInv k"

lemma kernelInv_update [simp]:
  "kernelInv (k\<lparr>m_globalPower := x1\<rparr>) = kernelInv k"
  "kernelInv (k\<lparr>m_emergencyStop := x1\<rparr>) = kernelInv k"
  "kernelInv (k\<lparr>m_inputValues := x2\<rparr>) = kernelInv k"
  "kernelInv (k\<lparr>m_outputValues := x3\<rparr>) = kernelInv k"
  "kernelInv (k\<lparr>m_fastClockSupported := b\<rparr>) = kernelInv k"
  "kernelInv (k\<lparr>m_fastClockSyncTimer := b\<rparr>) = kernelInv k"
  "kernelInv (k\<lparr>m_clockChangeConnection := b\<rparr>) = kernelInv k"
  "kernelInv (k\<lparr>m_lncvActive := b\<rparr>) = kernelInv k"
  "kernelInv (k\<lparr>m_lncvModuleId := i\<rparr>) = kernelInv k"
  "kernelInv (k\<lparr>m_lncvModuleAddress := i\<rparr>) = kernelInv k"
  "kernelInv (k\<lparr>m_pcap := b\<rparr>) = kernelInv k"
  "kernelInv (k\<lparr>pcapRecords := rs\<rparr>) = kernelInv k"
  "kernelInv (k\<lparr>m_waitingForEchoTimer := b\<rparr>) = kernelInv k"
  "kernelInv (k\<lparr>m_waitingForResponseTimer := b\<rparr>) = kernelInv k"
  "kernelInv (k\<lparr>events := es\<rparr>) = kernelInv k"
  by (simp_all add: kernelInv_def queueInv_def holds_def slotInv_def pendingInv_def configInv_def)

lemma kernelInv_eventLoopCall [simp]: "kernelInv (eventLoopCall ev k) = kernelInv k"
  by (simp add: eventLoopCall_def)

lemma kernelInv_send: "kernelInv k \<Longrightarrow> validMsg m \<Longrightarrow> kernelInv (send m p k)"
  unfolding kernelInv_def slotInv_def pendingInv_def configInv_def send_frame
  using send_queueInv by blast

lemma locoSlot_setLocoSlot [simp]:
  "locoSlot s (setLocoSlot t ls k) = (if s = t then ls else locoSlot s k)"
  by (simp add: locoSlot_def setLocoSlot_def update_conv')

lemma setLocoSlot_frame [simp]:
  "m_sendQueue (setLocoSlot s ls k) = m_sendQueue k" "wire (setLocoSlot s ls k) = wire k"
  "m_sentMessagePriority (setLocoSlot s ls k) = m_sentMessagePriority k"
  "m_waitingForEcho (setLocoSlot s ls k) = m_waitingForEcho k"
  "m_waitingForResponse (setLocoSlot s ls k) = m_waitingForResponse k"
  "m_addressToSlot (setLocoSlot s ls k) = m_addressToSlot k"
  "m_pendingSlotMessages (setLocoSlot s ls k) = m_pendingSlotMessages k"
  "m_config (setLocoSlot s ls k) = m_config k" "m_fastClock (setLocoSlot s ls k) = m_fastClock k"
  "m_decoderController (setLocoSlot s ls k) = m_decoderController k"
  "events (setLocoSlot s ls k) = events k"
  "m_slots (setLocoSlot s ls k) = AList.update s ls (m_slots k)"
  by (simp_all add: setLocoSlot_def)

lemma queueInv_setLocoSlot [simp]: "queueInv (setLocoSlot s ls k) = queueInv k"
  by (rule holds_cong(2)) simp_all

lemma kernelInv_setLocoSlot:
  assumes "kernelInv k" and "isLocoSlot s" and "ls_address ls = ls_address (locoSlot s k)"
  shows "kernelInv (setLocoSlot s ls k)"
proof -
  have "slotInv (setLocoSlot s ls k)"
    using assms
    by (fastforce simp: kernelInv_def slotInv_def update_conv' distinct_update locoSlot_def)
  then show ?thesis
    using assms(1) by (simp add: kernelInv_def pendingInv_def configInv_def)
qed

lemma kernelInv_getLocoSlot:
  assumes "kernelInv k"
  shows "kernelInv (snd (getLocoSlot s r k))"
    and "fst (getLocoSlot s r k) = isLocoSlot s"
    and "isLocoSlot s \<Longrightarrow> \<exists>ls. map_of (m_slots (snd (getLocoSlot s r k))) s = Some ls"
proof -
  show "fst (getLocoSlot s r k) = isLocoSlot s"
    by (simp add: getLocoSlot_def Let_def split: option.split)
  show "isLocoSlot s \<Longrightarrow> \<exists>ls. map_of (m_slots (snd (getLocoSlot s r k))) s = Some ls"
    by (simp add: getLocoSlot_def Let_def update_conv' split: option.split)
  show "kernelInv (snd (getLocoSlot s r k))"
  proof (cases "isLocoSlot s \<and> map_of (m_slots k) s = None")
    case True
    let ?k = "if r then send (RequestSlotData s) NormalPriority k else k"
    have "kernelInv ?k" using assms True validMsg_RequestSlotData_loco kernelInv_send by simp
    then have "kernelInv (setLocoSlot s LocoSlot_invalid ?k)"
      using True by (intro kernelInv_setLocoSlot) (simp_all add: locoSlot_def)
    then show ?thesis using True by (simp add: getLocoSlot_def Let_def)
  next
    case False
    then show ?thesis using assms by (auto simp: getLocoSlot_def Let_def split: option.split)
  qed
qed

lemma kernelInv_updateFunctions:
  assumes "kernelInv k" and "isLocoSlot s"
  shows "kernelInv (snd (updateFunctions a b s f k))"
  using assms by (simp add: updateFunctions_def Let_def split_beta kernelInv_setLocoSlot)

lemma kernelInv_requestIfInvalid:
  "kernelInv k \<Longrightarrow> isLocoSlot s \<Longrightarrow> kernelInv (requestIfInvalid s k)"
  by (simp add: requestIfInvalid_def kernelInv_send validMsg_RequestSlotData_loco)

lemmas kernelInv_intros = kernelInv_send validMsg_RequestSlotData_loco kernelInv_setLocoSlot
  kernelInv_getLocoSlot kernelInv_updateFunctions kernelInv_requestIfInvalid validMsg_LocoAdr


section \<open>The handlers of receive\<close>

lemma fst_getLocoSlot [simp]: "fst (getLocoSlot s r k) = isLocoSlot s"
  by (simp add: getLocoSlot_def Let_def split: option.split)

lemma kernelInv_power:
  assumes "kernelInv k"
  shows "kernelInv (receive_GPON k)" "kernelInv (receive_GPOFF k)" "kernelInv (receive_IDLE k)"
  using assms by (simp_all add: receive_GPON_def receive_GPOFF_def receive_IDLE_def Let_def)

lemma kernelInv_inputs:
  assumes "kernelInv k"
  shows "kernelInv (receive_INPUT_REP m k)" "kernelInv (receive_SW_REQ m k)"
  using assms by (simp_all add: receive_INPUT_REP_def receive_SW_REQ_def Let_def)

lemma kernelInv_loco:
  assumes "kernelInv k"
  shows "kernelInv (receive_LOCO_SPD m k)" "kernelInv (receive_LOCO_DIRF m k)"
    "kernelInv (receive_LOCO_SND m k)" "kernelInv (receive_LOCO_F9F12 m k)"
  unfolding receive_LOCO_SPD_def receive_LOCO_DIRF_def receive_LOCO_SND_def receive_LOCO_F9F12_def Let_def
    split_beta
  using assms by (auto simp: kernelInv_intros)

lemma kernelInv_D4: "kernelInv k \<Longrightarrow> kernelInv (receive_D4 m k)"
  unfolding receive_D4_def receive_D4_F13F19_def receive_D4_F12F20F28_def receive_D4_F21F27_def Let_def
    split_beta
  by (auto simp: kernelInv_intros)

lemma kernelInv_reports:
  assumes "kernelInv k"
  shows "kernelInv (receive_LONG_ACK m k)" "kernelInv (receive_MULTI_SENSE m k)"
    "kernelInv (receive_MULTI_SENSE_LONG m k)" "kernelInv (receive_E4 m k)" "kernelInv (receive_PEER_XFER m r k)"
  using assms
  by (simp_all add: receive_LONG_ACK_def receive_MULTI_SENSE_def receive_MULTI_SENSE_LONG_def receive_E4_def
      receive_PEER_XFER_def stopFastClockSyncTimer_def Let_def)

lemma getLocoSlotByAddress_Some:
  assumes "getLocoSlotByAddress a k = Some s"
  shows "\<exists>ls. (s, ls) \<in> set (m_slots k) \<and> ls_address ls = a"
proof -
  obtain x where "find (\<lambda>(_, ls). ls_address ls = a) (m_slots k) = Some x" "s = fst x"
    using assms by (auto simp: getLocoSlotByAddress_def)
  then have "x \<in> set (m_slots k)" "ls_address (snd x) = a"
    by (auto simp: find_Some_iff split_beta)
  with \<open>s = fst x\<close> show ?thesis by (metis prod.collapse)
qed

lemma kernelInv_IMM_functions:
  assumes "kernelInv k" and "unat a < 16384"
  shows "kernelInv (receive_IMM_functions i j a f k)"
proof (cases "getLocoSlotByAddress a k")
  case None
  then show ?thesis using assms by (simp add: receive_IMM_functions_def kernelInv_intros)
next
  case (Some s)
  then obtain ls where "(s, ls) \<in> set (m_slots k)" using getLocoSlotByAddress_Some by blast
  then have "map_of (m_slots k) s = Some ls"
    using assms(1) by (simp add: kernelInv_def slotInv_def)
  then have "isLocoSlot s"
    using assms(1) unfolding kernelInv_def slotInv_def by blast
  then show ?thesis using Some assms(1) by (simp add: receive_IMM_functions_def kernelInv_intros)
qed

lemma short_address_bound: "unat (ucast (b :: u8) :: u16) < 16384"
proof -
  have "unat (ucast b :: u16) < 2 ^ 14" by (rule bound_of_bits) (simp add: bit_simps)
  then show ?thesis by simp
qed

lemma bit_and_mask: "n \<le> j \<Longrightarrow> \<not> bit ((b :: u8) AND mask n) j"
  by (simp add: bit_and_iff bit_mask_iff)

lemma long_address_bound:
  assumes "\<And>j. 6 \<le> j \<Longrightarrow> \<not> bit (x :: u8) j" and "\<And>j. 7 \<le> j \<Longrightarrow> \<not> bit (z :: u8) j"
  shows "unat (push_bit 8 (ucast x) OR ucast (y :: u8) OR ucast z :: u16) < 16384"
proof -
  have "unat (push_bit 8 (ucast x) OR ucast y OR ucast z :: u16) < 2 ^ 14"
    by (rule bound_of_bits)
      (auto simp: bit_or_iff bit_push_bit_iff bit_unsigned_iff assms)
  then show ?thesis by simp
qed

lemma imm_long_address_bounds:
  "unat (LocoF9F12IMMLongAddress_address m) < 16384" "unat (LocoF13F20IMMLongAddress_address m) < 16384"
  "unat (LocoF21F28IMMLongAddress_address m) < 16384"
proof -
  have m: "(0x3F :: u8) = mask 6" "(0x7F :: u8) = mask 7" by (simp_all add: mask_eq_exp_minus_1)
  show "unat (LocoF9F12IMMLongAddress_address m) < 16384" "unat (LocoF13F20IMMLongAddress_address m) < 16384"
    "unat (LocoF21F28IMMLongAddress_address m) < 16384"
    unfolding LocoF9F12IMMLongAddress_address_def LocoF13F20IMMLongAddress_address_def
      LocoF21F28IMMLongAddress_address_def m
    by (rule long_address_bound; erule bit_and_mask)+
qed

lemma kernelInv_IMM: "kernelInv k \<Longrightarrow> kernelInv (receive_IMM_PACKET m k)"
  by (simp add: receive_IMM_PACKET_def kernelInv_IMM_functions short_address_bound imm_long_address_bounds)


section \<open>Slot data\<close>

lemma SlotReadData_address_bound:
  assumes "framed m" and "isValid m" and "length m = 14"
  shows "unat (SlotReadData_address m) < 16384"
proof -
  have b: "\<not> bit (m ! 9) 7" "\<not> bit (m ! 4) 7"
    using valid_nth_bit7 [OF assms(1,2)] assms(3) by simp_all
  have "unat (SlotReadData_address m) < 2 ^ 14"
  proof (rule bound_of_bits)
    fix k :: nat
    assume "14 \<le> k"
    then show "\<not> bit (SlotReadData_address m) k"
      using b by (cases "k = 14")
        (auto simp: SlotReadData_address_def bit_or_iff bit_push_bit_iff bit_unsigned_iff)
  qed
  then show ?thesis by simp
qed

lemma kernelInv_clearLocoSlot:
  assumes "kernelInv k"
  shows "kernelInv (clearLocoSlot slot k)"
proof -
  let ?k = "clearLocoSlot slot k"
  have fr: "m_sendQueue ?k = m_sendQueue k" "m_sentMessagePriority ?k = m_sentMessagePriority k"
    "m_waitingForEcho ?k = m_waitingForEcho k" "m_waitingForResponse ?k = m_waitingForResponse k"
    "wire ?k = wire k" "m_config ?k = m_config k" "m_fastClock ?k = m_fastClock k"
    "m_pendingSlotMessages ?k = m_pendingSlotMessages k"
    "m_slots ?k = AList.delete slot (m_slots k)"
    by (simp_all add: clearLocoSlot_def Let_def split_beta split: option.split)
  note inv = assms [unfolded kernelInv_def slotInv_def]
  have "slotInv ?k"
  proof (cases "find (\<lambda>(_, s). s = slot) (m_addressToSlot k)")
    case None
    then have no: "map_of (m_addressToSlot k) a \<noteq> Some slot" for a
      by (auto simp: find_None_iff dest!: map_of_SomeD)
    have at: "m_addressToSlot ?k = m_addressToSlot k"
      using None by (simp add: clearLocoSlot_def Let_def)
    show ?thesis
      unfolding slotInv_def fr at using inv no
      by (auto simp: delete_conv' distinct_delete simp del: map_of_eq_Some_iff)
  next
    case (Some x)
    then have x: "x \<in> set (m_addressToSlot k)" "snd x = slot" by (auto simp: find_Some_iff split_beta)
    then have mx: "map_of (m_addressToSlot k) (fst x) = Some slot"
      using inv by (metis map_of_is_SomeI prod.collapse)
    have at: "m_addressToSlot ?k = AList.delete (fst x) (m_addressToSlot k)"
      using Some by (simp add: clearLocoSlot_def Let_def split_beta)
    have other: "s \<noteq> slot" if "map_of (m_addressToSlot k) a = Some s" "a \<noteq> fst x" for a s
      using inv mx that by (metis option.inject)
    show ?thesis
      unfolding slotInv_def fr at using inv other
      by (auto simp: delete_conv' distinct_delete simp del: map_of_eq_Some_iff)
  qed
  then show ?thesis
    using assms holds_cong(2) [OF fr(1-5)] by (simp add: kernelInv_def pendingInv_def configInv_def fr)
qed

text \<open>The loop over the waiting messages is a fold over them: it ends, and its fuel is enough.\<close>

definition slotted :: "u8 \<Rightarrow> bytes \<Rightarrow> bytes" where
  "slotted slot m = updateChecksum (m[slotPos m := slot])"

lemma sendPending_fold:
  assumes "list_all slotMsg ms" and "isLocoSlot slot" and "length (concat ms) \<le> fuel"
  shows "sendPending fuel slot (concat ms) k = fold (\<lambda>m. send (slotted slot m) NormalPriority) ms k"
  using assms(1,3)
proof (induction ms arbitrary: fuel k)
  case Nil
  then show ?case by (cases fuel) simp_all
next
  case (Cons m ms)
  have sm: "slotMsg m" "framed m" using Cons.prems(1) by (simp_all add: slotMsg_def)
  have len: "length m = msg_size m" "2 \<le> length m" using framed_size [OF sm(2)] by simp_all
  obtain f where f: "fuel = Suc f" using Cons.prems(2) len by (cases fuel) auto
  note m' = slotMsg_setSlot(1) [OF sm(1) assms(2)]
  have sz: "msg_size (m @ concat ms) = length m" using len by (simp add: msg_size_append)
  have "m \<noteq> []" using len by auto
  then show ?case
    using Cons.IH [of f] Cons.prems f sz m' len by (simp add: Let_def slotted_def del: length_concat)
qed

lemma slotted_valid: "slotMsg m \<Longrightarrow> isLocoSlot s \<Longrightarrow> validMsg (slotted s m)"
  unfolding slotted_def by (rule slotMsg_setSlot(2))

lemma kernelInv_fold_send:
  assumes "kernelInv k" and "list_all validMsg (map g ms)"
  shows "kernelInv (fold (\<lambda>m. send (g m) p) ms k)"
  using assms by (induction ms arbitrary: k) (simp_all add: kernelInv_send)

lemma kernelInv_drop_pending:
  "kernelInv k \<Longrightarrow> kernelInv (k\<lparr>m_pendingSlotMessages := (m_pendingSlotMessages k)(a := None)\<rparr>)"
  by (auto simp: kernelInv_def queueInv_def holds_def slotInv_def pendingInv_def configInv_def
      simp del: map_of_eq_Some_iff)


lemma kernelInv_assignSlotAddress:
  assumes "kernelInv k" and "isLocoSlot s" and "map_of (m_slots k) s = Some ls" and "unat a < 16384"
  shows "kernelInv (snd (assignSlotAddress s a k))"
    and "ls_address (locoSlot s (snd (assignSlotAddress s a k))) = a"
proof -
  let ?k = "snd (assignSlotAddress s a k)"
  have fr: "m_sendQueue ?k = m_sendQueue k" "m_sentMessagePriority ?k = m_sentMessagePriority k"
    "m_waitingForEcho ?k = m_waitingForEcho k" "m_waitingForResponse ?k = m_waitingForResponse k"
    "wire ?k = wire k" "m_config ?k = m_config k" "m_fastClock ?k = m_fastClock k"
    "m_pendingSlotMessages ?k = m_pendingSlotMessages k"
    by (simp_all add: assignSlotAddress_def Let_def)
  show "ls_address (locoSlot s ?k) = a"
    by (simp add: assignSlotAddress_def Let_def)
  note inv = assms(1) [unfolded kernelInv_def slotInv_def]
  have ls: "locoSlot s k = ls" by (simp add: locoSlot_def assms(3))
  have "slotInv ?k"
  proof (cases "LocoSlot_isAddressValid ls")
    case False
    then have "m_addressToSlot ?k = AList.update a s (m_addressToSlot k)"
      and "m_slots ?k = AList.update s (ls\<lparr>ls_address := a\<rparr>) (m_slots k)"
      using ls by (simp_all add: assignSlotAddress_def Let_def locoSlot_def assms(3))
    moreover have "map_of (m_addressToSlot k) a' \<noteq> Some s" for a'
    proof
      assume "map_of (m_addressToSlot k) a' = Some s"
      then have "ls_address ls = a' \<and> unat a' < 16384" using inv assms(3) by (metis option.inject)
      with False show False by (auto simp: LocoSlot_isAddressValid_def)
    qed
    ultimately show ?thesis
      unfolding slotInv_def using inv assms(2,4)
      by (auto simp: update_conv' distinct_update simp del: map_of_eq_Some_iff)
  next
    case True
    let ?A = "if ls_address ls \<noteq> a \<and> map_of (m_addressToSlot k) (ls_address ls) = Some s
              then AList.delete (ls_address ls) (m_addressToSlot k) else m_addressToSlot k"
    have "m_addressToSlot ?k = ?A"
      using ls True by (simp add: assignSlotAddress_def Let_def)
    moreover define ls' where "ls' = (if ls_address ls = a then ls\<lparr>ls_address := a\<rparr> else LocoSlot_invalid\<lparr>ls_address := a\<rparr>)"
    have "ls_address ls' = a" by (simp add: ls'_def)
    moreover have "map_of (m_slots ?k) = (map_of (m_slots k))(s \<mapsto> ls') \<and> distinct (map fst (m_slots ?k))"
      using ls True inv
      by (cases "ls_address ls = a") (simp_all add: assignSlotAddress_def Let_def update_conv' distinct_update ls'_def)
    ultimately have A: "m_addressToSlot ?k = ?A" and l': "ls_address ls' = a"
      and S: "map_of (m_slots ?k) = (map_of (m_slots k))(s \<mapsto> ls')" and d: "distinct (map fst (m_slots ?k))"
      by blast+
    have own: "ls_address ls = a'" if "map_of (m_addressToSlot k) a' = Some s" for a'
      using inv assms(3) that by (metis option.inject)
    show ?thesis
      unfolding slotInv_def
    proof (intro conjI allI impI)
      show "distinct (map fst (m_slots ?k))" by (rule d)
      show "distinct (map fst (m_addressToSlot ?k))" using A inv by (simp add: distinct_delete)
      show "isLocoSlot t" if "map_of (m_slots ?k) t = Some x" for t x
        using that S inv assms(2) by (cases "t = s") auto
      fix a' t
      assume m: "map_of (m_addressToSlot ?k) a' = Some t"
      have m0: "map_of (m_addressToSlot k) a' = Some t"
        using m A by (auto simp: delete_conv' simp del: map_of_eq_Some_iff split: if_splits)
      show "\<exists>x. map_of (m_slots ?k) t = Some x \<and> ls_address x = a' \<and> unat a' < 16384"
      proof (cases "t = s")
        case True
        then have "ls_address ls = a'" using own m0 by blast
        then have "a' = a" using m m0 A True by (auto simp: delete_conv' simp del: map_of_eq_Some_iff split: if_splits)
        then show ?thesis using True S l' assms(4) by simp
      next
        case False
        then show ?thesis using inv m0 S by auto
      qed
    qed
  qed
  then show "kernelInv ?k"
    using assms(1) holds_cong(2) [OF fr(1-5)] by (simp add: kernelInv_def pendingInv_def configInv_def fr)
qed

lemma kernelInv_replayPending:
  assumes "kernelInv k" and "isLocoSlot s"
  shows "kernelInv (replayPending s a k)"
proof (cases "m_pendingSlotMessages k a")
  case None
  then show ?thesis using assms by (simp add: replayPending_def)
next
  case (Some p)
  obtain ms where ms: "p = concat ms" "list_all slotMsg ms"
    using assms(1) Some unfolding kernelInv_def pendingInv_def by blast
  have "list_all validMsg (map (slotted s) ms)"
    using ms(2) slotted_valid assms(2) by (auto simp: list_all_iff)
  then have "kernelInv (sendPending (length p) s p k)"
    using assms ms sendPending_fold [OF ms(2) assms(2)] by (simp add: kernelInv_fold_send)
  then show ?thesis using Some by (simp add: replayPending_def Let_def kernelInv_drop_pending)
qed

text \<open>Slot data has the size of its struct; the code reads that many bytes of it.\<close>

definition wellSized :: "bytes \<Rightarrow> bool" where
  "wellSized m \<longleftrightarrow> (opCode m = OPC_SL_RD_DATA \<longrightarrow> length m = 14)"

lemma kernelInv_SL_RD_DATA:
  assumes "kernelInv k" and "framed m" and "isValid m" and "length m = 14"
  shows "kernelInv (receive_SL_RD_DATA m k)"
proof (cases "m_decoderController k \<and> isLocoSlot (m ! 2)")
  case True
  let ?s = "m ! 2" and ?k1 = "snd (getLocoSlot (m ! 2) False k)"
  obtain ls where "map_of (m_slots ?k1) ?s = Some ls" "kernelInv ?k1"
    using kernelInv_getLocoSlot [OF assms(1), of ?s False] True by blast
  then have "kernelInv (snd (assignSlotAddress ?s (SlotReadData_address m) ?k1))"
    using kernelInv_assignSlotAddress(1) True SlotReadData_address_bound [OF assms(2-4)] by blast
  then show ?thesis
    using True assms(1)
    by (simp add: receive_SL_RD_DATA_def Let_def split_beta kernelInv_clearLocoSlot kernelInv_replayPending
        kernelInv_updateFunctions)
qed (use assms in \<open>auto simp: receive_SL_RD_DATA_def Let_def\<close>)

lemma kernelInv_dispatch:
  assumes "kernelInv k" and "validMsg m" and "wellSized m"
  shows "kernelInv (receive_dispatch m r k)"
proof -
  have "opCode m = OPC_SL_RD_DATA \<Longrightarrow> kernelInv (receive_SL_RD_DATA m k)"
    using assms kernelInv_SL_RD_DATA by (simp add: validMsg_def wellSized_def)
  then show ?thesis
    using kernelInv_power [OF assms(1)] kernelInv_inputs [OF assms(1)] kernelInv_loco [OF assms(1)]
      kernelInv_reports [OF assms(1)] kernelInv_D4 [OF assms(1)] kernelInv_IMM [OF assms(1)] assms(1)
    by (simp add: receive_dispatch_def Let_def)
qed


section \<open>What no handler changes\<close>

text \<open>
  The handlers of \<^verbatim>\<open>receive\<close> touch the supervision, the queues, the wire and the
  configuration through \<^verbatim>\<open>send\<close> only.  A predicate on these that \<^verbatim>\<open>send\<close> keeps is kept by every
  handler: the contract \<open>handler_invariant\<close>, of which \<open>awaits\<close> (a message is in flight) and
  \<open>silent\<close> (listen only) are the two instances.
\<close>

locale handler_invariant =
  fixes P :: "Kernel \<Rightarrow> bool"
  assumes P_cong: "m_sendQueue k' = m_sendQueue k \<Longrightarrow> m_sentMessagePriority k' = m_sentMessagePriority k \<Longrightarrow>
      m_waitingForEcho k' = m_waitingForEcho k \<Longrightarrow> m_waitingForResponse k' = m_waitingForResponse k \<Longrightarrow>
      wire k' = wire k \<Longrightarrow> m_config k' = m_config k \<Longrightarrow> P k' = P k"
    and P_send: "P k \<Longrightarrow> P (send m q k)"
begin

lemma P_update [simp]:
  "P (k\<lparr>m_globalPower := x1\<rparr>) = P k" "P (k\<lparr>m_emergencyStop := x1\<rparr>) = P k"
  "P (k\<lparr>m_inputValues := x2\<rparr>) = P k" "P (k\<lparr>m_outputValues := x3\<rparr>) = P k"
  "P (k\<lparr>m_fastClockSupported := b\<rparr>) = P k" "P (k\<lparr>m_fastClockSyncTimer := b\<rparr>) = P k"
  "P (k\<lparr>m_lncvActive := b\<rparr>) = P k" "P (k\<lparr>m_lncvModuleId := i\<rparr>) = P k"
  "P (k\<lparr>m_lncvModuleAddress := i\<rparr>) = P k" "P (k\<lparr>m_addressToSlot := ats\<rparr>) = P k"
  "P (k\<lparr>m_slots := sls\<rparr>) = P k" "P (k\<lparr>m_pendingSlotMessages := ps\<rparr>) = P k"
  "P (k\<lparr>pcapRecords := rs\<rparr>) = P k" "P (k\<lparr>m_pcap := b\<rparr>) = P k"
  "P (k\<lparr>m_waitingForEchoTimer := b\<rparr>) = P k" "P (k\<lparr>m_waitingForResponseTimer := b\<rparr>) = P k"
  "P (k\<lparr>m_clockChangeConnection := b\<rparr>) = P k"
  "P (eventLoopCall ev k) = P k" "P (setLocoSlot s ls k) = P k"
  by (rule P_cong; simp)+

lemma P_getLocoSlot: "P k \<Longrightarrow> P (snd (getLocoSlot s b k))"
  by (simp add: getLocoSlot_def Let_def P_send split: option.split)

lemma P_requestIfInvalid: "P k \<Longrightarrow> P (requestIfInvalid s k)"
  by (simp add: requestIfInvalid_def P_send)

lemma P_updateFunctions [simp]: "P (snd (updateFunctions a b s f k)) = P k"
  by (simp add: updateFunctions_def Let_def split_beta)

lemma P_sendPending: "P k \<Longrightarrow> P (sendPending n s bs k)"
  by (induction n arbitrary: bs k) (simp_all add: Let_def P_send)

lemma P_clearLocoSlot [simp]: "P (clearLocoSlot s k) = P k"
  by (simp add: clearLocoSlot_def Let_def split_beta split: option.split)

lemma P_assignSlotAddress [simp]: "P (snd (assignSlotAddress s a k)) = P k"
  by (simp add: assignSlotAddress_def Let_def)

lemma P_replayPending: "P k \<Longrightarrow> P (replayPending s a k)"
  by (simp add: replayPending_def Let_def P_sendPending split: option.split)

lemmas P_intros = P_send P_getLocoSlot P_requestIfInvalid P_replayPending

lemma P_loco:
  assumes "P k"
  shows "P (receive_LOCO_SPD m k)" "P (receive_LOCO_DIRF m k)"
    "P (receive_LOCO_SND m k)" "P (receive_LOCO_F9F12 m k)" "P (receive_D4 m k)"
  using assms
  by (simp_all add: receive_LOCO_SPD_def receive_LOCO_DIRF_def receive_LOCO_SND_def receive_LOCO_F9F12_def
      receive_D4_def receive_D4_F13F19_def receive_D4_F12F20F28_def receive_D4_F21F27_def Let_def
      split_beta P_intros)

lemma P_other:
  assumes "P k"
  shows "P (receive_GPON k)" "P (receive_GPOFF k)" "P (receive_IDLE k)"
    "P (receive_INPUT_REP m k)" "P (receive_SW_REQ m k)"
    "P (receive_SL_RD_DATA m k)" "P (receive_LONG_ACK m k)"
    "P (receive_MULTI_SENSE m k)" "P (receive_MULTI_SENSE_LONG m k)"
    "P (receive_E4 m k)" "P (receive_PEER_XFER m b k)"
  using assms
  by (simp_all add: receive_GPON_def receive_GPOFF_def receive_IDLE_def receive_INPUT_REP_def receive_SW_REQ_def
      receive_SL_RD_DATA_def receive_LONG_ACK_def receive_MULTI_SENSE_def receive_MULTI_SENSE_LONG_def
      receive_E4_def receive_PEER_XFER_def stopFastClockSyncTimer_def Let_def split_beta P_intros)

lemma P_IMM:
  assumes "P k"
  shows "P (receive_IMM_PACKET m k)"
proof -
  have "P (receive_IMM_functions i j a f k)" for i j a f
    using assms by (simp add: receive_IMM_functions_def P_intros split: option.split)
  then show ?thesis using assms by (simp add: receive_IMM_PACKET_def)
qed

lemma P_dispatch: "P k \<Longrightarrow> P (receive_dispatch m b k)"
  by (simp add: receive_dispatch_def Let_def P_loco P_other P_IMM)

lemma P_receive_log [simp]: "P (receive_log m k) = P k"
  by (simp add: receive_log_def Let_def)

lemma P_sendAddress: "P k \<Longrightarrow> P (sendAddress a m i k)"
  by (simp add: sendAddress_def Let_def P_send split: option.split)

end

section \<open>One message at a time\<close>

text \<open>While an echo or a response is awaited, nothing new reaches the wire.\<close>

definition awaits :: "bool \<Rightarrow> bool \<Rightarrow> Priority \<Rightarrow> (bytes \<times> bool) list \<Rightarrow> Kernel \<Rightarrow> bool" where
  "awaits e r p w k \<longleftrightarrow>
    (e \<or> r) \<and> m_waitingForEcho k = e \<and> m_waitingForResponse k = r \<and> m_sentMessagePriority k = p \<and> wire k = w"

lemma awaits_send: "awaits e r p w k \<Longrightarrow> awaits e r p w (send m q k)"
  by (auto simp: awaits_def send_def Let_def split: prod.split bool.split)

interpretation awaits: handler_invariant "awaits e r p w" for e r p w
  by unfold_locales (simp add: awaits_def, rule awaits_send)

text \<open>In listen-only mode with nothing queued and nothing in flight, nothing reaches the wire.\<close>

definition silent :: "(bytes \<times> bool) list \<Rightarrow> Kernel \<Rightarrow> bool" where
  "silent w k \<longleftrightarrow>
    listenOnly (m_config k) \<and> (\<forall>p. SendQueue_empty (m_sendQueue k p)) \<and> \<not> m_waitingForEcho k \<and>
    \<not> m_waitingForResponse k \<and> wire k = w"

interpretation silent: handler_invariant "silent w" for w
  by unfold_locales (simp_all add: silent_def send_def)

lemma receive_log_frame [simp]:
  "lastSentMessage (receive_log m k) = lastSentMessage k"
  "m_waitingForEcho (receive_log m k) = m_waitingForEcho k"
  "m_waitingForResponse (receive_log m k) = m_waitingForResponse k"
  "kernelInv (receive_log m k) = kernelInv k"
  "wire (receive_log m k) = wire k" "m_sendQueue (receive_log m k) = m_sendQueue k"
  "m_sentMessagePriority (receive_log m k) = m_sentMessagePriority k" "ioSend (receive_log m k) = ioSend k"
  "m_config (receive_log m k) = m_config k" "m_inputValues (receive_log m k) = m_inputValues k"
  by (simp_all add: receive_log_def Let_def lastSentMessage_def)


section \<open>Receive\<close>

text \<open>
  The order of the bus: a message is on the line, and comes back as an echo, before anybody
  answers it.
\<close>

definition busOrder :: "bytes \<Rightarrow> Kernel \<Rightarrow> bool" where
  "busOrder m k \<longleftrightarrow>
    (m_waitingForEcho k \<and> m_waitingForResponse k \<and> \<not> msgEq m (lastSentMessage k) \<longrightarrow>
      isValidResponse (lastSentMessage k) m \<noteq> Some True)"

lemma kernelInv_advance:
  assumes "kernelInv k" and "m_waitingForEcho k \<or> m_waitingForResponse k"
    and "\<not> m_waitingForEcho k'" "\<not> m_waitingForResponse k'"
    and "m_sendQueue k' = m_sendQueue k" "m_sentMessagePriority k' = m_sentMessagePriority k" "wire k' = wire k"
    and "m_slots k' = m_slots k" "m_addressToSlot k' = m_addressToSlot k"
    "m_pendingSlotMessages k' = m_pendingSlotMessages k" "m_config k' = m_config k" "m_fastClock k' = m_fastClock k"
  shows "kernelInv (sendNextMessage (popSent k'))"
proof -
  obtain ms where h: "holds k ms" using assms(1) by (auto simp: kernelInv_def queueInv_def)
  then have "ms (m_sentMessagePriority k) \<noteq> []" using assms(2) by (simp add: holds_def)
  then have "queueInv (sendNextMessage (popSent k'))"
    using popSent_holds [OF h _ assms(3-7)] sendNextMessage_holds queueInv_def by blast
  moreover have "slotInv (sendNextMessage (popSent k')) = slotInv k"
    "pendingInv (sendNextMessage (popSent k')) = pendingInv k"
    "configInv (sendNextMessage (popSent k')) = configInv k"
    by (simp_all only: slotInv_def pendingInv_def configInv_def sendNextMessage_frame popSent_frame assms)
  ultimately show ?thesis using assms(1) by (simp add: kernelInv_def)
qed

lemma kernelInv_stop_waiting:
  assumes "kernelInv k"
  shows "kernelInv (k\<lparr>m_waitingForEcho := False, m_waitingForEchoTimer := b\<rparr>)"
  using assms by (auto simp: kernelInv_def queueInv_def holds_def slotInv_def pendingInv_def configInv_def
      simp del: map_of_eq_Some_iff)

lemma kernelInv_receive_echo:
  assumes "kernelInv k"
  shows "kernelInv (snd (receive_echo m k))"
proof (cases "m_waitingForEcho k \<and> msgEq m (lastSentMessage k)")
  case True
  then show ?thesis
    using kernelInv_stop_waiting [OF assms]
      kernelInv_advance [OF assms, of "k\<lparr>m_waitingForEcho := False, m_waitingForEchoTimer := False\<rparr>"]
    by (simp add: receive_echo_def Let_def)
next
  case False
  then show ?thesis using assms by (auto simp: receive_echo_def split: option.split)
qed

lemma kernelInv_receive:
  assumes "kernelInv k" and "validMsg m" and "wellSized m" and "busOrder m k"
  shows "kernelInv (receive m k)"
proof -
  let ?k0 = "receive_log m k"
  obtain b k1 where e: "receive_echo m ?k0 = (b, k1)" by (cases "receive_echo m ?k0")
  have k1: "kernelInv k1" using kernelInv_receive_echo [of ?k0 m] assms(1) e by simp
  let ?k2 = "receive_dispatch m b k1"
  have k2: "kernelInv ?k2" by (rule kernelInv_dispatch [OF k1 assms(2,3)])
  have "kernelInv (receive_response b ?k2)"
  proof (cases "m_waitingForResponse ?k2 \<and> b")
    case True
    then have b: "b" by simp
    with e have k1k: "k1 = ?k0" and r: "m_waitingForResponse k" "isValidResponse (lastSentMessage k) m = Some True"
      and ne: "\<not> (m_waitingForEcho k \<and> msgEq m (lastSentMessage k))"
      by (auto simp: receive_echo_def Let_def split: if_splits option.splits)
    then have "\<not> m_waitingForEcho k" using assms(4) by (auto simp: busOrder_def)
    then have "awaits False True (m_sentMessagePriority k) (wire k) ?k0"
      using r by (simp add: awaits_def)
    then have "awaits False True (m_sentMessagePriority k) (wire k) ?k2"
      unfolding k1k by (rule awaits.P_dispatch)
    then show ?thesis
      using kernelInv_advance [OF k2, of "?k2\<lparr>m_waitingForResponse := False, m_waitingForResponseTimer := False\<rparr>"] b
      by (simp add: receive_response_def awaits_def)
  next
    case False
    then show ?thesis using k2 by (auto simp: receive_response_def)
  qed
  then show ?thesis by (simp add: receive_def Let_def e)
qed

end
