(* ===== verification/LocoNet_Reachable.thy ===== *)
theory LocoNet_Reachable
  imports LocoNet_Invariant
begin

text \<open>
  The kernel's thread as a transition system: from the constructed kernel, any sequence of
  posted closures, received messages, expiring timers and events of the program's other
  thread.  Every operation posts closures that are fit to run (\<open>taskOk\<close>), and the invariant
  holds in every reachable state.
\<close>

section \<open>Fit closures\<close>

text \<open>
  \<open>TSetConfig\<close> needs that listen-only mode is not switched on while a message is in flight
  (\<open>LocoNet_Faults\<close> shows what happens then).
\<close>

fun taskOk :: "task \<Rightarrow> Kernel \<Rightarrow> bool" where
  "taskOk (TSetConfig c) k =
    (unat (locomotiveSlots c) \<le> 119 \<and>
     (listenOnly c \<and> \<not> listenOnly (m_config k) \<longrightarrow> \<not> m_waitingForEcho k \<and> \<not> m_waitingForResponse k))"
| "taskOk (TSend m p) k = validMsg m"
| "taskOk (TSendAddress a m i) k =
    (unat a < 16384 \<and> slotMsg m \<and> i = slotPos m)"
| "taskOk _ k = True"

section \<open>Operations keep the invariant\<close>

lemma kernelInv_sendAddress:
  assumes "kernelInv k" and "unat a < 16384" and "slotMsg m" and "i = slotPos m"
  shows "kernelInv (sendAddress a m i k)"
proof (cases "map_of (m_addressToSlot k) a")
  case (Some s)
  then obtain ls where ls: "map_of (m_slots k) s = Some ls" "isLocoSlot s"
    using assms(1) unfolding kernelInv_def slotInv_def by blast
  then have v: "validMsg (updateChecksum (m[i := s]))"
    using slotted_valid [OF assms(3), of s] assms(4) by (simp add: slotted_def)
  have "kernelInv (setLocoSlot s (locoSlot s k) k)"
    using assms(1) ls(2) by (intro kernelInv_setLocoSlot) simp_all
  then show ?thesis
    using assms(1) Some v by (simp add: sendAddress_def Let_def kernelInv_send)
next
  case None
  have fm: "take (msg_size m) m = m" "concat [m] = m"
    using assms(3) by (simp_all add: slotMsg_def framed_def)
  have upd: "kernelInv (k\<lparr>m_pendingSlotMessages := (m_pendingSlotMessages k)(a \<mapsto> concat ms)\<rparr>)"
    if "list_all slotMsg ms" for ms
    using assms(1) that
    by (auto simp: kernelInv_def queueInv_def holds_def slotInv_def pendingInv_def configInv_def
        simp del: map_of_eq_Some_iff)
  show ?thesis
  proof (cases "m_pendingSlotMessages k a")
    case None
    then show ?thesis
      using upd [of "[m]"] assms(2,3) fm \<open>map_of (m_addressToSlot k) a = None\<close>
      by (simp add: sendAddress_def kernelInv_send validMsg_LocoAdr)
  next
    case (Some p)
    then obtain ms where "p = concat ms" "list_all slotMsg ms"
      using assms(1) unfolding kernelInv_def pendingInv_def by blast
    then show ?thesis
      using upd [of "ms @ [m]"] assms(3) fm Some None by (simp add: sendAddress_def)
  qed
qed

text \<open>The fast clock message is valid for every time of day the clock can have.\<close>

lemma clockByte_bit7: "\<not> bit (word_of_int (i AND 0x7F) :: u8) 7"
  by (simp add: bit_word_of_int_iff bit_and_iff)

lemma ten_zeros: "replicate 10 (0 :: u8) = [0, 0, 0, 0, 0, 0, 0, 0, 0, 0]"
  by (simp add: eval_nat_numeral)

lemma FastClock_message_valid:
  assumes "\<not> bit mult 7"
  shows "validMsg (updateChecksum
    (FastClock_setId idTraintastic (FastClock_setValid True (FastClock_setMinute mi (FastClock_setHour h
      (FastClockSlotWriteData[3 := mult]))))))"
proof -
  let ?h = "word_of_int ((256 - (24 - uint h)) AND 0x7F) :: u8"
  let ?m = "word_of_int ((256 - (60 - uint mi)) AND 0x7F) :: u8"
  have eq: "FastClock_setId idTraintastic (FastClock_setValid True (FastClock_setMinute mi (FastClock_setHour h
      (FastClockSlotWriteData[3 := mult])))) =
    [OPC_WR_SL_DATA, 14, SLOT_FAST_CLOCK, mult, 0, 0, ?m, 0, ?h, 0, 0x40, 0x73, 0x7F] @
      [calcChecksum (SlotDataBase OPC_WR_SL_DATA SLOT_FAST_CLOCK @ replicate 10 0)]"
    by (simp add: FastClock_setId_def FastClock_setValid_def FastClock_setMinute_def FastClock_setHour_def
        FastClockSlotWriteData_def FastClockSlotData_def SlotDataBase_def seal_def setFlag_def ten_zeros)
  show ?thesis
    unfolding eq validMsg_def
    using assms clockByte_bit7
    by (subst (1 2) updateChecksum_snoc) (simp_all add: framed_def msg_size_def valid_variable)
qed


lemma FastClockSlotWriteData_valid: "validMsg FastClockSlotWriteData"
proof -
  have "FastClockSlotWriteData = seal (OPC_WR_SL_DATA # 14 # [SLOT_FAST_CLOCK, 0, 0, 0, 0, 0, 0, 0, 0, 0, 0])"
    by (simp add: FastClockSlotWriteData_def FastClockSlotData_def SlotDataBase_def ten_zeros)
  then show ?thesis
    using valid_variable [of OPC_WR_SL_DATA 14 "[SLOT_FAST_CLOCK, 0, 0, 0, 0, 0, 0, 0, 0, 0, 0]"]
    by (simp add: validMsg_def)
qed

lemma kernelInv_setFastClockMaster:
  assumes "kernelInv k"
  shows "kernelInv (setFastClockMaster b k)"
proof -
  have "\<not> bit (fc_multiplier (m_fastClock k)) 7"
    using assms by (simp add: kernelInv_def configInv_def flip: u8_below_128)
  then show ?thesis
    using assms FastClock_message_valid
    by (simp add: setFastClockMaster_def Let_def kernelInv_send FastClockSlotWriteData_valid)
qed

lemma kernelInv_startPCAP: "kernelInv k \<Longrightarrow> kernelInv (startPCAP out k)"
  by (simp add: startPCAP_def Let_def)

lemma startPCAP_frame [simp]:
  "m_config (startPCAP out k) = m_config k" "m_waitingForEcho (startPCAP out k) = m_waitingForEcho k"
  "m_waitingForResponse (startPCAP out k) = m_waitingForResponse k"
  by (simp_all add: startPCAP_def Let_def)

lemma kernelInv_clearQueues:
  assumes "kernelInv k" and "\<not> m_waitingForEcho k" "\<not> m_waitingForResponse k"
  shows "kernelInv (clearQueues k)"
proof -
  obtain ms where h: "holds k ms" using assms(1) by (auto simp: kernelInv_def queueInv_def)
  then have "SendQueue_rep (SendQueue_clear (m_sendQueue k p)) []" for p
    using sq.clear_law [of "m_sendQueue k p" "ms p"] by (simp add: holds_def)
  then have "holds (clearQueues k) (\<lambda>_. [])"
    using h assms by (simp add: holds_def clearQueues_def)
  then show ?thesis
    using assms(1)
    by (auto simp: kernelInv_def queueInv_def slotInv_def pendingInv_def configInv_def clearQueues_def
        simp del: map_of_eq_Some_iff)
qed

lemma kernelInv_config:
  "kernelInv k \<Longrightarrow> unat (locomotiveSlots c) \<le> 119 \<Longrightarrow> kernelInv (k\<lparr>m_config := c\<rparr>)"
  by (auto simp: kernelInv_def queueInv_def holds_def slotInv_def pendingInv_def configInv_def
      simp del: map_of_eq_Some_iff)

lemma setFastClockMaster_config [simp]: "m_config (setFastClockMaster b k) = m_config k"
  by (simp add: setFastClockMaster_def Let_def)

lemma clearQueues_config [simp]: "m_config (clearQueues k) = m_config k"
  by (simp add: clearQueues_def)

lemma slot_constants_valid [simp]: "validMsg (RequestSlotData SLOT_FAST_CLOCK)"
  by (rule validMsg_RequestSlotData) simp

lemma setConfig_pcap_frame [simp]:
  "m_config (setConfig_pcap c k) = m_config k" "m_waitingForEcho (setConfig_pcap c k) = m_waitingForEcho k"
  "m_waitingForResponse (setConfig_pcap c k) = m_waitingForResponse k"
  "m_config (setConfig_listenOnly c k) = m_config k" "m_config (setConfig_fastClock c k) = m_config k"
  by (simp_all add: setConfig_pcap_def setConfig_listenOnly_def setConfig_fastClock_def)

lemma kernelInv_setConfig:
  assumes "kernelInv k" and "taskOk (TSetConfig c) k"
  shows "kernelInv (setConfig_posted c k)"
proof -
  have 1: "kernelInv (setConfig_pcap c k)" (is "kernelInv ?k1")
    using assms(1) by (simp add: setConfig_pcap_def kernelInv_startPCAP)
  have 2: "kernelInv (setConfig_listenOnly c ?k1)" (is "kernelInv ?k2")
    using 1 assms(2) kernelInv_clearQueues [OF 1] by (auto simp: setConfig_listenOnly_def)
  have 3: "kernelInv (setConfig_fastClock c ?k2)" (is "kernelInv ?k3")
    using 2 by (simp add: setConfig_fastClock_def kernelInv_setFastClockMaster)
  have "kernelInv (setConfig_fastClockSync c ?k3)"
    using 3 by (simp add: setConfig_fastClockSync_def kernelInv_send startFastClockSyncTimer_def
        stopFastClockSyncTimer_def)
  then show ?thesis
    using assms(2) by (simp add: setConfig_posted_def kernelInv_config)
qed

lemma of_nat_bit7: "x \<le> 119 \<Longrightarrow> \<not> bit (of_nat x :: u8) 7"
  unfolding u8_below_128 [symmetric] by (simp add: unat_of_nat)

lemma kernelInv_start_posted:
  assumes "kernelInv k"
  shows "kernelInv (start_posted b k)"
proof -
  have k1: "kernelInv (if pcap (m_config k) then startPCAP (pcapOutput (m_config k)) k else k)" (is "kernelInv ?k1")
    using assms by (simp add: kernelInv_startPCAP)
  have cfg: "m_config ?k1 = m_config k" by simp
  have loco: "unat (locomotiveSlots (m_config k)) \<le> 119"
    using assms by (simp add: kernelInv_def configInv_def)
  have k2: "kernelInv (if fastClockMode (m_config ?k1) = FastClock_Master then setFastClockMaster True ?k1 else ?k1)"
    (is "kernelInv ?k2")
    using k1 kernelInv_setFastClockMaster [OF k1] by (simp split del: if_split split: if_split_asm) auto
  have k3: "kernelInv (if fastClockSyncEnabled (m_config ?k2) then startFastClockSyncTimer ?k2 else ?k2)"
    (is "kernelInv ?k3")
    using k2 by (simp only: startFastClockSyncTimer_def kernelInv_update split: if_split) blast
  have cfg3: "m_config ?k3 = m_config k"
    by (simp add: startFastClockSyncTimer_def)
  have slots: "list_all validMsg (map (\<lambda>slot. RequestSlotData (of_nat slot)) [1..<unat (locomotiveSlots (m_config ?k3)) + 1])"
    using loco unfolding cfg3 list_all_iff by (auto intro!: validMsg_RequestSlotData of_nat_bit7 simp del: upt_Suc)
  have "kernelInv (fold (\<lambda>slot. send (RequestSlotData (of_nat slot)) LowPriority)
      [1..<unat (locomotiveSlots (m_config ?k3)) + 1] ?k3)"
    by (rule kernelInv_fold_send [OF k3 slots])
  then show ?thesis
    using k1 unfolding start_posted_def Let_def by simp
qed


text \<open>An input report never passes for a response, so it can be simulated at any time.\<close>

lemma InputRep_no_response: "isValidResponse request (InputRep a v) \<noteq> Some True"
  by (simp add: isValidResponse_def InputRep_def Let_def ReadSpecialOptionReply_check_def
      LNCVReadResponse_check_def PeerXferDataMessage_check_def)

lemma kernelInv_runTask:
  assumes "kernelInv k" and "taskOk t k"
  shows "kernelInv (runTask t k)"
proof (cases t)
  case (TSetConfig c)
  then show ?thesis using assms kernelInv_setConfig by simp
next
  case (TStart b)
  then show ?thesis using assms(1) kernelInv_start_posted by simp
next
  case TStop
  then show ?thesis using assms(1) by (simp add: stop_posted_def)
next
  case (TSendAddress a m i)
  then show ?thesis using assms kernelInv_sendAddress by (simp add: slotPos_def)
next
  case (TSimulateInput n act)
  have "kernelInv (receive (InputRep (of_nat n) b) k)" for b
  proof (rule kernelInv_receive [OF assms(1)])
    show "validMsg (InputRep (of_nat n) b)" using InputRep_valid by (simp add: validMsg_def)
    show "wellSized (InputRep (of_nat n) b)"
      by (simp add: wellSized_def InputRep_def Let_def)
    show "busOrder (InputRep (of_nat n) b) k"
      by (simp add: busOrder_def InputRep_no_response)
  qed
  then show ?thesis
    using TSimulateInput assms by (cases act) (simp_all add: simulateInputChange_posted_def)
next
  case TSetFastClockMaster
  then show ?thesis using assms(1) kernelInv_setFastClockMaster by simp
qed (use assms in \<open>simp_all add: kernelInv_send setPowerOn_on_def setPowerOn_off_def emergencyStop_def resume_def
      lncvStart_def lncvRead_def lncvWrite_def lncvStop_def Let_def\<close>)

lemma kernelInv_sendNextMessage: "kernelInv k \<Longrightarrow> kernelInv (sendNextMessage k)"
  unfolding kernelInv_def slotInv_def pendingInv_def configInv_def sendNextMessage_frame queueInv_def
  using sendNextMessage_holds by blast

lemma kernelInv_timers:
  assumes "kernelInv k"
  shows "kernelInv (waitingForEchoTimerExpired ec k)" "kernelInv (waitingForResponseTimerExpired ec k)"
    "kernelInv (fastClockSyncTimerExpired ec k)"
  using assms
  by (simp_all add: waitingForEchoTimerExpired_def waitingForResponseTimerExpired_def
      fastClockSyncTimerExpired_def kernelInv_sendNextMessage kernelInv_send startFastClockSyncTimer_def Let_def)

section \<open>Operations post fit closures\<close>

text \<open>Locomotive messages differ from a valid message by their slot only.\<close>

lemma slotMsg_seal:
  assumes "carriesSlot (c # bs)" and "msg_size (c # bs) = length bs + 2" and "low7 (tl ((c # bs)[slotPos (c # bs) := 0]))"
    and "2 \<le> length bs" and "c = OPC_D4 \<longrightarrow> 3 \<le> length bs"
  shows "slotMsg (seal (c # bs))"
proof -
  have "framed (seal (c # bs))" using assms(2,4) by (intro framed_seal) simp_all
  moreover have "carriesSlot (seal (c # bs))"
    using assms(1,4,5) by (auto simp: carriesSlot_def seal_def nth_append)
  moreover have "slotPos (seal (c # bs)) = slotPos (c # bs)" by (simp add: slotPos_def seal_def)
  moreover have "(seal (c # bs))[slotPos (c # bs) := 0] = (c # bs)[slotPos (c # bs) := 0] @ [calcChecksum (c # bs)]"
    using assms(4,5) by (auto simp: seal_def list_update_append slotPos_def)
  moreover have "(c # bs)[slotPos (c # bs) := 0] \<noteq> []" by (simp add: slotPos_def)
  ultimately show ?thesis
    using assms(3) by (simp add: slotMsg_def butlast_append tl_append2)
qed

lemma slotMsg_loco:
  "\<not> bit v 7 \<Longrightarrow> slotMsg (LocoSpd v)"
  "slotMsg (LocoDirF d f0 f1 f2 f3 f4)" "slotMsg (LocoSnd f5 f6 f7 f8)" "slotMsg (LocoF9F12 f9 f10 f11 f12)"
  "slotMsg (LocoF13F19 f13 f14 f15 f16 f17 f18 f19)" "slotMsg (LocoF12F20F28 f12 f20 f28)"
  "slotMsg (LocoF21F27 f21 f22 f23 f24 f25 f26 f27)"
  unfolding LocoSpd_def loco_function_defs Let_def
  by (rule slotMsg_seal; simp add: carriesSlot_def msg_size_def slotPos_def bit_orFlag loco_masks)+

lemma slotPos_loco:
  "slotPos (LocoSpd v) = 1" "slotPos (LocoDirF d f0 f1 f2 f3 f4) = 1" "slotPos (LocoSnd f5 f6 f7 f8) = 1"
  "slotPos (LocoF9F12 f9 f10 f11 f12) = 1" "slotPos (LocoF13F19 f13 f14 f15 f16 f17 f18 f19) = 2"
  "slotPos (LocoF12F20F28 f12 f20 f28) = 2" "slotPos (LocoF21F27 f21 f22 f23 f24 f25 f26 f27) = 2"
  by (simp_all add: slotPos_def LocoSpd_def loco_function_defs Let_def)


lemma ImmPacket_bytes:
  assumes "length d \<le> 5" and "unat r \<le> 7"
  obtains reps dhi im where "ImmPacket d r = seal ([OPC_IMM_PACKET, 11, 0x7F, reps, dhi] @ im)"
    and "length im = 5" and "low7 (reps # dhi # im)"
proof -
  have fill: "low7 (fst (immFill i ds (dhi, im)) # snd (immFill i ds (dhi, im))) \<and>
      length (snd (immFill i ds (dhi, im))) = length im"
    if "\<not> bit dhi 7" "low7 im" "i + length ds \<le> 5" for i ds dhi im
    using that
  proof (induction ds arbitrary: i dhi im)
    case (Cons b ds)
    have "\<not> bit (dhi OR push_bit i 1) 7" using Cons.prems by (simp add: bit_simps)
    moreover have "low7 (im[i := b AND 0x7F])"
      using Cons.prems(2) by (intro low7_update) (simp_all add: bit_simps)
    ultimately show ?case
      using Cons.prems Cons.IH [of _ "im[i := b AND 0x7F]" "Suc i"] by simp
  qed simp
  let ?n = "min (length d) 5"
  let ?f = "immFill 0 (take ?n d) (0x20, [0, 0, 0, 0, 0])"
  let ?reps = "(r AND 0x07) OR push_bit 4 (of_nat ?n) :: u8"
  have "unat (of_nat ?n :: u8) < 2 ^ 3" using assms(1) by (simp add: unat_of_nat)
  then have "\<not> bit (of_nat ?n :: u8) 3" using bit_above_bound [of "of_nat ?n :: u8" 3 3] by simp
  then have "\<not> bit ?reps 7" by (simp add: bit_simps)
  then show ?thesis
    using fill [of "0x20" "[0, 0, 0, 0, 0]" 0 "take ?n d"] assms
    by (intro that [of ?reps "fst ?f" "snd ?f"]) (simp_all add: ImmPacket_def Let_def split_beta)
qed

lemma ImmPacket_valid:
  assumes "length d \<le> 5" and "unat r \<le> 7"
  shows "validMsg (ImmPacket d r)"
proof -
  obtain reps dhi im where "ImmPacket d r = seal ([OPC_IMM_PACKET, 11, 0x7F, reps, dhi] @ im)"
    and "length im = 5" and "low7 (reps # dhi # im)"
    using ImmPacket_bytes [OF assms] .
  then show ?thesis
    using valid_variable [of OPC_IMM_PACKET 11 "0x7F # reps # dhi # im"] by (simp add: validMsg_def)
qed

lemma validMsg_IMM:
  "validMsg (LocoF9F12IMMShortAddress b f9 f10 f11 f12)" "validMsg (LocoF9F12IMMLongAddress a f9 f10 f11 f12)"
  "validMsg (LocoF13F20IMMShortAddress b f13 f14 f15 f16 f17 f18 f19 f20)"
  "validMsg (LocoF13F20IMMLongAddress a f13 f14 f15 f16 f17 f18 f19 f20)"
  "validMsg (LocoF21F28IMMShortAddress b f21 f22 f23 f24 f25 f26 f27 f28)"
  "validMsg (LocoF21F28IMMLongAddress a f21 f22 f23 f24 f25 f26 f27 f28)"
  using LocoF9F12IMMShortAddress_valid LocoF9F12IMMLongAddress_valid LocoF13F20IMMShortAddress_valid
    LocoF13F20IMMLongAddress_valid LocoF21F28IMMShortAddress_valid LocoF21F28IMMLongAddress_valid
  by (simp_all add: validMsg_def)

lemma speed_bit7:
  assumes "unat v \<le> 126"
  shows "\<not> bit (if e then SPEED_ESTOP else if (v :: u8) > 0 then 1 + v else SPEED_STOP) 7"
proof -
  have "unat (1 + v) < 128" using assms by (simp add: unat_word_ariths)
  then have "\<not> bit (1 + v) 7" using u8_below_128 by blast
  moreover have "\<not> bit (1 :: u8) 7" "\<not> bit (0 :: u8) 7" by (simp_all add: bit_1_iff)
  ultimately show ?thesis by (cases e; cases "v > 0"; simp only: if_True if_False; assumption)
qed

lemma taskOk_decoderChanged:
  assumes "unat (d_address d) < 16384" and "unat (d_speedStep d) \<le> 126" and "t \<in> set (decoderChanged d c n k)"
  shows "taskOk t k'"
proof -
  have "taskOk t k'" if "t \<in> set (decoderChanged_speed d k)"
    using that assms(1) slotMsg_loco(1) [OF speed_bit7 [OF assms(2)]]
    by (auto simp: decoderChanged_speed_def slotPos_loco split: if_split_asm)
  moreover have "taskOk t k'" if "t \<in> set (decoderChanged_IMM d n)"
    using that by (auto simp: decoderChanged_IMM_def Let_def validMsg_IMM split: if_split_asm)
  moreover have "taskOk t k'" if "t \<in> set (decoderChanged_Uhlenbrock d n)"
    using that assms(1)
    by (auto simp: decoderChanged_Uhlenbrock_def Let_def slotMsg_loco slotPos_loco split: if_split_asm)
  ultimately show ?thesis
    using assms(1,3)
    by (auto simp: decoderChanged_def decoderChanged_function_def Let_def slotMsg_loco slotPos_loco
        split: if_split_asm LocoNetF9F28.split_asm)
qed

lemma taskOk_setOutput:
  assumes "setOutput ch a v = Some (b, ts)" and "t \<in> set ts"
  shows "taskOk t k"
proof -
  have "length (SetAdvancedAccessoryValue a x) \<le> 5" for x
    by (simp add: SetAdvancedAccessoryValue_def Let_def)
  then have "validMsg (ImmPacket (SetAdvancedAccessoryValue a x) 2)" for x
    by (intro ImmPacket_valid) simp_all
  then show ?thesis
    using assms SwitchRequest_valid
    by (auto simp: setOutput_def immPacket_def validMsg_def
        split: OutputChannel.split_asm OutputValue.split_asm if_split_asm)
qed

lemma taskOk_packets:
  "immPacket d r = (b, ts) \<Longrightarrow> t \<in> set ts \<Longrightarrow> taskOk t k"
  "2 \<le> length p \<Longrightarrow> sendPacket p = (b, ts) \<Longrightarrow> t \<in> set ts \<Longrightarrow> taskOk t k"
proof -
  show "immPacket d r = (b, ts) \<Longrightarrow> t \<in> set ts \<Longrightarrow> taskOk t k"
    using ImmPacket_valid [of d r]
    by (auto simp: immPacket_def word_less_nat_alt not_less split: if_split_asm)
  show "2 \<le> length p \<Longrightarrow> sendPacket p = (b, ts) \<Longrightarrow> t \<in> set ts \<Longrightarrow> taskOk t k"
    by (auto simp: sendPacket_def Let_def validMsg_def framed_def msg_size_append split: if_split_asm)
qed


section \<open>The kernel's thread\<close>

text \<open>
  The steps.  \<open>start\<close>, \<open>setConfig\<close> and the clock's signal change the state from the event loop;
  the clock gives a time of day and a multiplier below 128.
\<close>

inductive kernel_step :: "Kernel \<Rightarrow> Kernel \<Rightarrow> bool" where
  step_task: "taskOk t k \<Longrightarrow> kernel_step k (runTask t k)"
| step_receive: "validMsg m \<Longrightarrow> wellSized m \<Longrightarrow> busOrder m k \<Longrightarrow> kernel_step k (receive m k)"
| step_echoTimer: "kernel_step k (waitingForEchoTimerExpired ec k)"
| step_responseTimer: "kernel_step k (waitingForResponseTimerExpired ec k)"
| step_syncTimer: "kernel_step k (fastClockSyncTimerExpired ec k)"
| step_start: "kernel_step k (fst (start b k))"
| step_setConfig: "kernel_step k (fst (setConfig c k))"
| step_stop: "kernel_step k (fst (stop k))"
| step_clock: "unat mult < 128 \<Longrightarrow> unat h < 24 \<Longrightarrow> unat mi < 60 \<Longrightarrow>
    kernel_step k (fst (clockChanged ev mult h mi k))"

inductive_cases kernel_stepE: "kernel_step k k'"

inductive reachable :: "Kernel \<Rightarrow> Kernel \<Rightarrow> bool" for k0 where
  reachable_init: "reachable k0 k0"
| reachable_step: "reachable k0 k \<Longrightarrow> kernel_step k k' \<Longrightarrow> reachable k0 k'"

lemma kernelInv_init:
  assumes "unat (locomotiveSlots c) \<le> 119"
  shows "kernelInv (Kernel_init c sim p io po)"
proof -
  have "holds (Kernel_init c sim p io po) (\<lambda>_. [])"
    by (simp add: holds_def Kernel_init_def SendQueue_rep_init)
  then show ?thesis
    using assms
    by (auto simp: kernelInv_def queueInv_def slotInv_def pendingInv_def configInv_def Kernel_init_def)
qed

lemma kernelInv_eventThread:
  assumes "kernelInv k"
  shows "kernelInv (fst (start b k))" "kernelInv (fst (setConfig c k))" "kernelInv (fst (stop k))"
proof -
  have "kernelInv (k\<lparr>m_globalPower := TriUndefined, m_emergencyStop := TriUndefined, m_addressToSlot := [],
      m_slots := [], m_pendingSlotMessages := Map.empty, m_inputValues := f, m_outputValues := g\<rparr>)" for f g
    using assms
    by (auto simp: kernelInv_def queueInv_def holds_def slotInv_def pendingInv_def configInv_def)
  then show "kernelInv (fst (start b k))"
    by (simp add: start_def Let_def enableClockEvents_def)
  show "kernelInv (fst (setConfig c k))" "kernelInv (fst (stop k))"
    using assms by (simp_all add: setConfig_def stop_def disableClockEvents_def enableClockEvents_def
        split: LocoNetFastClock.split)
qed

lemma kernelInv_clockChanged:
  assumes "kernelInv k" and "unat mult < 128" "unat h < 24" "unat mi < 60"
  shows "kernelInv (fst (clockChanged ev mult h mi k))"
  using assms
  by (auto simp: clockChanged_def kernelInv_def queueInv_def holds_def slotInv_def pendingInv_def configInv_def
      simp del: map_of_eq_Some_iff)

lemma kernelInv_step: "kernel_step k k' \<Longrightarrow> kernelInv k \<Longrightarrow> kernelInv k'"
  by (erule kernel_stepE)
    (simp_all add: kernelInv_runTask kernelInv_receive kernelInv_timers kernelInv_eventThread kernelInv_clockChanged)

lemma kernelInv_reachable: "reachable k0 k \<Longrightarrow> kernelInv k0 \<Longrightarrow> kernelInv k"
  by (induction rule: reachable.induct) (auto dest: kernelInv_step)

end
