(* ===== verification/LocoNet_Behaviour.thy ===== *)
theory LocoNet_Behaviour
  imports LocoNet_Reachable
begin

text \<open>
  What the kernel's operations do, as equations on the queues, the wire, the tables and the
  events: the send cycle, the reports of inputs, outputs and power, the way a message for an
  unknown address waits for its slot.
\<close>

section \<open>The send cycle\<close>

text \<open>The next message to go out: the head of the first queue that has one.\<close>

fun nextOf :: "(Priority \<Rightarrow> bytes list) \<Rightarrow> Priority list \<Rightarrow> (Priority \<times> bytes) option" where
  "nextOf ms [] = None"
| "nextOf ms (p # ps) = (case ms p of m # _ \<Rightarrow> Some (p, m) | [] \<Rightarrow> nextOf ms ps)"

abbreviation "nextMessage ms \<equiv> nextOf ms [HighPriority, NormalPriority, LowPriority]"

lemma transmit_holds_eq:
  assumes "holds k ms" and "ms p = m # r"
  shows "SendQueue_front (m_sendQueue k p) = m"
proof -
  have "SendQueue_rep (m_sendQueue k p) (m # r)" using assms by (auto simp: holds_def dest: spec [of _ p])
  then show ?thesis by (rule sq.front_law)
qed

lemma transmit_effect:
  assumes "SendQueue_front (m_sendQueue k p) = m"
  shows "wire (transmit p k) = wire k @ [(m, ioSend k (wire k) m)]"
    and "ioSend k (wire k) m \<Longrightarrow> awaits True (hasResponse m) p (wire k @ [(m, True)]) (transmit p k)"
    and "\<not> ioSend k (wire k) m \<Longrightarrow> m_waitingForEcho (transmit p k) = m_waitingForEcho k"
    and "\<not> ioSend k (wire k) m \<Longrightarrow> m_waitingForResponse (transmit p k) = m_waitingForResponse k"
  using assms by (simp_all add: transmit_def Let_def awaits_def)

lemma sendNextFrom_effect:
  assumes "holds k ms"
  shows "sendNextFrom ps k = (case nextOf ms ps of None \<Rightarrow> k | Some (p, m) \<Rightarrow> transmit p k)"
proof (induction ps)
  case (Cons p ps)
  have "SendQueue_empty (m_sendQueue k p) \<longleftrightarrow> ms p = []"
    using assms sq.empty_law by (simp add: holds_def)
  then show ?case using Cons by (auto split: list.split)
qed simp

lemma nextOf_Some: "nextOf ms ps = Some (p, m) \<Longrightarrow> \<exists>r. ms p = m # r"
  by (induction ps) (auto split: list.split_asm)

lemma sendNextMessage_effect:
  assumes "holds k ms"
  shows "wire (sendNextMessage k) =
    wire k @ (case nextMessage ms of None \<Rightarrow> [] | Some (p, m) \<Rightarrow> [(m, ioSend k (wire k) m)])"
  using sendNextFrom_effect [OF assms] nextOf_Some [of ms] transmit_holds_eq [OF assms] transmit_effect(1)
  by (fastforce simp: sendNextMessage_def simp del: nextOf.simps split: option.split)

text \<open>Receiving the echo of a message without response: it leaves its queue, the next one goes out.\<close>

lemma receive_echo_done:
  assumes "holds k ms" and "m_waitingForEcho k" and "\<not> m_waitingForResponse k"
    and "msgEq m (lastSentMessage k)"
  defines "p \<equiv> m_sentMessagePriority k"
  shows "holds (snd (receive_echo m k)) (ms(p := tl (ms p)))"
    and "wire (snd (receive_echo m k)) =
      wire k @ (case nextMessage (ms(p := tl (ms p))) of None \<Rightarrow> [] | Some (q, n) \<Rightarrow> [(n, ioSend k (wire k) n)])"
proof -
  let ?k = "k\<lparr>m_waitingForEcho := False, m_waitingForEchoTimer := False\<rparr>"
  have ne: "ms (m_sentMessagePriority k) \<noteq> []" using assms(1,2) by (simp add: holds_def)
  have h: "holds (popSent ?k) (ms(p := tl (ms p)))"
    unfolding p_def by (rule popSent_holds [OF assms(1) ne]) (simp_all add: assms(3))
  have e: "snd (receive_echo m k) = sendNextMessage (popSent ?k)"
    using assms(2-4) by (simp add: receive_echo_def Let_def)
  show "holds (snd (receive_echo m k)) (ms(p := tl (ms p)))"
    unfolding e by (rule sendNextMessage_holds [OF h])
  show "wire (snd (receive_echo m k)) =
      wire k @ (case nextMessage (ms(p := tl (ms p))) of None \<Rightarrow> [] | Some (q, n) \<Rightarrow> [(n, ioSend k (wire k) n)])"
    unfolding e sendNextMessage_effect [OF h] by (simp del: nextOf.simps split: option.split)
qed

text \<open>The echo of a message with response only ends the wait for the echo.\<close>

lemma receive_echo_more:
  assumes "m_waitingForEcho k" and "m_waitingForResponse k" and "msgEq m (lastSentMessage k)"
  shows "receive_echo m k = (False, k\<lparr>m_waitingForEcho := False, m_waitingForEchoTimer := False\<rparr>)"
  using assms by (simp add: receive_echo_def Let_def)

text \<open>Any other message changes nothing on the wire while one is in flight.\<close>

lemma receive_in_flight:
  assumes "awaits e r p w k" and "\<not> (e \<and> msgEq m (lastSentMessage k))"
    and "\<not> (r \<and> isValidResponse (lastSentMessage k) m = Some True)"
  shows "awaits e r p w (receive m k)"
proof -
  have "receive_echo m (receive_log m k) = (False, receive_log m k)"
    using assms by (auto simp: receive_echo_def awaits_def split: option.split)
  then show ?thesis
    using assms(1) by (simp add: receive_def Let_def receive_response_def awaits.P_dispatch)
qed

text \<open>A response releases the message it answers, and the next one goes out.\<close>

lemma receive_response_done:
  assumes "holds k ms" and "m_waitingForResponse k" and "\<not> m_waitingForEcho k"
  defines "p \<equiv> m_sentMessagePriority k"
  shows "holds (receive_response True k) (ms(p := tl (ms p)))"
    and "wire (receive_response True k) =
      wire k @ (case nextMessage (ms(p := tl (ms p))) of None \<Rightarrow> [] | Some (q, n) \<Rightarrow> [(n, ioSend k (wire k) n)])"
proof -
  let ?k = "k\<lparr>m_waitingForResponse := False, m_waitingForResponseTimer := False\<rparr>"
  have ne: "ms (m_sentMessagePriority k) \<noteq> []" using assms(1,2) by (simp add: holds_def)
  have h: "holds (popSent ?k) (ms(p := tl (ms p)))"
    unfolding p_def by (rule popSent_holds [OF assms(1) ne]) (simp_all add: assms(3))
  have e: "receive_response True k = sendNextMessage (popSent ?k)"
    using assms(2) by (simp add: receive_response_def)
  show "holds (receive_response True k) (ms(p := tl (ms p)))"
    unfolding e by (rule sendNextMessage_holds [OF h])
  show "wire (receive_response True k) =
      wire k @ (case nextMessage (ms(p := tl (ms p))) of None \<Rightarrow> [] | Some (q, n) \<Rightarrow> [(n, ioSend k (wire k) n)])"
    unfolding e sendNextMessage_effect [OF h] by (simp del: nextOf.simps split: option.split)
qed

text \<open>Sending while something is in flight queues the message behind the others of its priority.\<close>

lemma send_in_flight:
  assumes "holds k ms" and "validMsg m" and "m_waitingForEcho k \<or> m_waitingForResponse k"
    and "\<not> listenOnly (m_config k)" and "length (concat (ms p)) + length m \<le> 2000"
  shows "holds (send m p k) (ms(p := ms p @ [m]))" and "wire (send m p k) = wire k"
proof -
  have r: "SendQueue_rep (m_sendQueue k p) (ms p)" using assms(1) by (simp add: holds_def)
  obtain q where q: "SendQueue_append (m_sendQueue k p) m = (True, q)" "SendQueue_rep q (ms p @ [m])"
    using sq.append_law [OF r _ assms(5)] assms(2) by (metis prod.collapse validMsg_def)
  then have e: "send m p k = k\<lparr>m_sendQueue := (m_sendQueue k)(p := q)\<rparr>"
    using assms(3,4) by (auto simp: send_def Let_def)
  show "holds (send m p k) (ms(p := ms p @ [m]))"
    unfolding e using assms(1,2) q(2) by (auto simp: holds_def hd_append)
  show "wire (send m p k) = wire k" unfolding e by simp
qed

text \<open>Sending to an idle kernel with empty queues puts the message on the wire at once.\<close>

lemma send_idle:
  assumes "holds k (\<lambda>_. [])" and "validMsg m" and "\<not> listenOnly (m_config k)"
  shows "holds (send m p k) ((\<lambda>_. [])(p := [m]))" and "wire (send m p k) = wire k @ [(m, ioSend k (wire k) m)]"
proof -
  have r: "SendQueue_rep (m_sendQueue k p) []" using assms(1) by (simp add: holds_def)
  have fr: "framed m" "length m \<le> 255" using assms(2) framed_size by (auto simp: validMsg_def)
  have "fst (SendQueue_append (m_sendQueue k p) m) \<and> SendQueue_rep (snd (SendQueue_append (m_sendQueue k p) m)) [m]"
    using sq.append_law [OF r fr(1)] fr(2) by simp
  then obtain q where q: "SendQueue_append (m_sendQueue k p) m = (True, q)" "SendQueue_rep q [m]"
    by (cases "SendQueue_append (m_sendQueue k p) m") auto
  let ?k = "k\<lparr>m_sendQueue := (m_sendQueue k)(p := q)\<rparr>"
  have idle: "\<not> m_waitingForEcho k" "\<not> m_waitingForResponse k" using assms(1) by (simp_all add: holds_def)
  then have e: "send m p k = sendNextMessage ?k"
    using assms(3) q by (simp add: send_def Let_def)
  have h: "holds ?k ((\<lambda>_. [])(p := [m]))" using assms(1,2) q(2) idle by (auto simp: holds_def)
  show "holds (send m p k) ((\<lambda>_. [])(p := [m]))" unfolding e by (rule sendNextMessage_holds [OF h])
  have "nextMessage ((\<lambda>_. [])(p := [m])) = Some (p, m)" by (cases p) simp_all
  then show "wire (send m p k) = wire k @ [(m, ioSend k (wire k) m)]"
    unfolding e sendNextMessage_effect [OF h] by simp
qed


lemma send_idle_awaits:
  assumes "holds k (\<lambda>_. [])" and "validMsg m" and "\<not> listenOnly (m_config k)" and "ioSend k (wire k) m"
  shows "awaits True (hasResponse m) p (wire k @ [(m, True)]) (send m p k)" and "lastSentMessage (send m p k) = m"
proof -
  have r: "SendQueue_rep (m_sendQueue k p) []" "framed m" using assms(1,2) by (simp_all add: holds_def validMsg_def)
  have "fst (SendQueue_append (m_sendQueue k p) m) \<and> SendQueue_rep (snd (SendQueue_append (m_sendQueue k p) m)) [m]"
    using sq.append_law [OF r] framed_size [OF r(2)] by simp
  then obtain q where q: "SendQueue_append (m_sendQueue k p) m = (True, q)"
    by (cases "SendQueue_append (m_sendQueue k p) m") auto
  let ?k = "k\<lparr>m_sendQueue := (m_sendQueue k)(p := q)\<rparr>"
  have "\<not> m_waitingForEcho k" "\<not> m_waitingForResponse k" using assms(1) by (simp_all add: holds_def)
  then have e: "send m p k = sendNextMessage ?k"
    using assms(3) q by (simp add: send_def Let_def)
  have rep: "SendQueue_rep q [m]" using sq.append_accepted [OF r q] by simp
  have "\<not> SendQueue_empty q" "SendQueue_front q = m"
    using sq.empty_law [OF rep] sq.front_law [OF rep] by simp_all
  moreover have "SendQueue_empty (m_sendQueue k r)" for r
    using assms(1) sq.empty_law [of "m_sendQueue k r" "[]"] by (simp add: holds_def)
  ultimately have "sendNextMessage ?k = transmit p ?k" "SendQueue_front (m_sendQueue ?k p) = m"
    by (cases p; simp add: sendNextMessage_def)+
  then show a: "awaits True (hasResponse m) p (wire k @ [(m, True)]) (send m p k)"
    unfolding e using transmit_effect(2) [of ?k p m] assms(4) by simp
  then have "m_sentMessagePriority (send m p k) = p" by (simp add: awaits_def)
  then show "lastSentMessage (send m p k) = m"
    using holds_lastSent [OF send_idle(1) [OF assms(1-3), of p]] by simp
qed

section \<open>Inputs, outputs, power\<close>

text \<open>The indices into \<^verbatim>\<open>m_inputValues\<close> and \<^verbatim>\<open>m_outputValues\<close> lie in the arrays, whatever the bytes.\<close>

lemma u8_mask_bits:
  "\<not> bit ((b :: u8) AND 0x7F) 7" "\<not> bit (b AND 0x0F) 4" "\<not> bit (b AND 0x0F) 5" "\<not> bit (b AND 0x0F) 6"
  "\<not> bit (b AND 0x0F) 7"
  by (simp_all add: bit_simps)

lemma low_high_bound:
  fixes x y :: u8
  assumes "\<And>j. 7 \<le> j \<Longrightarrow> \<not> bit x j" and "\<And>j. 4 \<le> j \<Longrightarrow> \<not> bit y j"
  shows "unat (ucast x OR push_bit 7 (ucast y) :: u16) < 2048"
proof -
  have "unat (ucast x OR push_bit 7 (ucast y) :: u16) < 2 ^ 11"
    by (rule bound_of_bits) (auto simp: bit_or_iff bit_push_bit_iff bit_unsigned_iff assms)
  then show ?thesis by simp
qed

lemma InputRep_address_bound: "unat (InputRep_address m) < 2048"
proof -
  have m: "(0x7F :: u8) = mask 7" "(0x0F :: u8) = mask 4" by (simp_all add: mask_eq_exp_minus_1)
  show ?thesis
    unfolding InputRep_address_def m by (rule low_high_bound) (simp_all add: bit_and_mask)
qed

lemma InputRep_index_bound: "unat (InputRep_fullAddress m) < 4096"
proof -
  have "\<not> bit (InputRep_address m) j" if "11 \<le> j" for j
    using InputRep_address_bound bit_above_bound [of "InputRep_address m" 11 j] that by simp
  then have "unat (InputRep_fullAddress m) < 2 ^ 12"
    unfolding InputRep_fullAddress_def
    by (intro bound_of_bits, simp only: bit_or_iff bit_push_bit_iff) (auto simp: bit_1_iff)
  then show ?thesis by simp
qed

lemma SwitchRequest_index_bound:
  "1 \<le> unat (SwitchRequest_address m) \<and> unat (SwitchRequest_address m) - 1 < 2048"
proof -
  have m: "(0x7F :: u8) = mask 7" "(0x0F :: u8) = mask 4" by (simp_all add: mask_eq_exp_minus_1)
  have "unat (ucast (m ! 1 AND 0x7F) OR push_bit 7 (ucast (m ! 2 AND 0x0F)) :: u16) < 2048"
    unfolding m by (rule low_high_bound) (simp_all add: bit_and_mask)
  then show ?thesis
    unfolding SwitchRequest_address_def by (simp add: unat_word_ariths)
qed

lemma dispatch_InputRep:
  "receive_dispatch (InputRep a v) r k = receive_INPUT_REP (InputRep a v) k"
  by (simp add: receive_dispatch_def InputRep_def Let_def)

lemma receive_INPUT_REP_effect:
  assumes "unat a < 4096" and "m_inputController k"
  shows "m_inputValues (receive_INPUT_REP (InputRep a v) k) = (m_inputValues k)(unat a := toTriState v)"
    and "events (receive_INPUT_REP (InputRep a v) k) = events k @
      (if m_inputValues k (unat a) = toTriState v then []
       else (if debugLogInput (m_config k) then [EvLogInput (1 + unat a) v] else []) @
         [EvInput (1 + unat a) (toTriState v)])"
  using assms InputRep_roundtrip [OF assms(1), of v]
  by (auto simp: receive_INPUT_REP_def Let_def eventLoopCall_def)

lemma dispatch_SwitchRequest:
  "receive_dispatch (SwitchRequest a d on) r k = receive_SW_REQ (SwitchRequest a d on) k"
  by (simp add: receive_dispatch_def SwitchRequest_eq Let_def)

lemma receive_SW_REQ_effect:
  assumes "1 \<le> unat a" and "unat a \<le> 2048" and "m_outputController k"
  shows "m_outputValues (receive_SW_REQ (SwitchRequest a d True) k) =
      (m_outputValues k)(unat a - 1 := if d then OutSecond else OutFirst)"
    and "events (receive_SW_REQ (SwitchRequest a d True) k) = events k @
      (if m_outputValues k (unat a - 1) = (if d then OutSecond else OutFirst) then []
       else [EvOutput a (if d then OutSecond else OutFirst)])"
    and "receive_SW_REQ (SwitchRequest a d False) k = k"
  using assms(3) SwitchRequest_roundtrip [OF assms(1,2), of d]
  by (auto simp: receive_SW_REQ_def Let_def eventLoopCall_def)

section \<open>Messages that wait for a slot\<close>

lemma framed_take: "framed m \<Longrightarrow> take (msg_size m) m = m"
  by (simp add: framed_def)

lemma sendAddress_unknown:
  assumes "map_of (m_addressToSlot k) a = None" and "framed m"
  shows "sendAddress a m i k =
    (case m_pendingSlotMessages k a of
       None \<Rightarrow> send (LocoAdr a) HighPriority (k\<lparr>m_pendingSlotMessages := (m_pendingSlotMessages k)(a \<mapsto> m)\<rparr>)
     | Some p \<Rightarrow> k\<lparr>m_pendingSlotMessages := (m_pendingSlotMessages k)(a \<mapsto> p @ m)\<rparr>)"
  using assms by (simp add: sendAddress_def framed_take split: option.split)

text \<open>However many messages are sent to an unknown address, its slot is asked for once.\<close>

lemma sendAddress_unknown_many:
  assumes "map_of (m_addressToSlot k) a = None" and "m_pendingSlotMessages k a = Some p"
    and "list_all framed ms"
  shows "fold (\<lambda>m. sendAddress a m (slotPos m)) ms k =
    k\<lparr>m_pendingSlotMessages := (m_pendingSlotMessages k)(a \<mapsto> p @ concat ms)\<rparr>"
  using assms
proof (induction ms arbitrary: k p)
  case Nil
  then show ?case by (simp add: fun_upd_idem)
next
  case (Cons m ms)
  let ?k = "k\<lparr>m_pendingSlotMessages := (m_pendingSlotMessages k)(a \<mapsto> p @ m)\<rparr>"
  have "sendAddress a m (slotPos m) k = ?k"
    using sendAddress_unknown [OF Cons.prems(1), of m "slotPos m"] Cons.prems by simp
  then show ?case using Cons.IH [of ?k "p @ m"] Cons.prems by (simp cong: if_cong)
qed

lemma fold_send_in_flight:
  assumes "holds k ms" and "list_all validMsg ns" and "m_waitingForEcho k \<or> m_waitingForResponse k"
    and "\<not> listenOnly (m_config k)" and "length (concat (ms p)) + length (concat ns) \<le> 2000"
  shows "holds (fold (\<lambda>m. send m p) ns k) (ms(p := ms p @ ns))"
  using assms
proof (induction ns arbitrary: k ms)
  case Nil
  then show ?case by simp
next
  case (Cons n ns)
  have fit: "length (concat (ms p)) + length n \<le> 2000" using Cons.prems(5) by simp
  have h: "holds (send n p k) (ms(p := ms p @ [n]))"
    using send_in_flight(1) [OF Cons.prems(1) _ Cons.prems(3,4) fit] Cons.prems(2) by simp
  obtain e r q w where "awaits e r q w k"
    using Cons.prems(3) by (auto simp: awaits_def)
  then have "m_waitingForEcho (send n p k) \<or> m_waitingForResponse (send n p k)"
    using awaits_send [of e r q w k n p] by (auto simp: awaits_def)
  then show ?case
    using Cons.IH [OF h] Cons.prems by (simp cong: if_cong)
qed

text \<open>When the slot is known, the waiting messages are queued in their order, with the slot in them.\<close>

lemma replayPending_effect:
  assumes "holds k ms" and "m_waitingForEcho k \<or> m_waitingForResponse k" and "\<not> listenOnly (m_config k)"
    and "m_pendingSlotMessages k a = Some (concat ns)" and "list_all slotMsg ns" and "isLocoSlot s"
    and "length (concat (ms NormalPriority)) + length (concat ns) \<le> 2000"
  shows "holds (replayPending s a k) (ms(NormalPriority := ms NormalPriority @ map (slotted s) ns))"
    and "m_pendingSlotMessages (replayPending s a k) a = None"
proof -
  have "map length (map (slotted s) ns) = map length ns"
    by (simp add: slotted_def updateChecksum_def)
  then have "length (concat (map (slotted s) ns)) = length (concat ns)"
    by (simp only: length_concat)
  moreover have "list_all validMsg (map (slotted s) ns)"
    using assms(5,6) slotted_valid by (auto simp: list_all_iff)
  moreover have "fold (\<lambda>m. send (slotted s m) NormalPriority) ns k =
      fold (\<lambda>m. send m NormalPriority) (map (slotted s) ns) k"
    by (simp add: fold_map comp_def)
  moreover have "replayPending s a k =
      (fold (\<lambda>m. send (slotted s m) NormalPriority) ns k)\<lparr>m_pendingSlotMessages :=
        (m_pendingSlotMessages (fold (\<lambda>m. send (slotted s m) NormalPriority) ns k))(a := None)\<rparr>" (is "_ = ?k2")
    using assms(4) sendPending_fold [OF assms(5,6) order_refl]
    by (simp add: replayPending_def Let_def)
  ultimately have "holds (fold (\<lambda>m. send m NormalPriority) (map (slotted s) ns) k)
      (ms(NormalPriority := ms NormalPriority @ map (slotted s) ns))" and e: "replayPending s a k = ?k2"
      "fold (\<lambda>m. send (slotted s m) NormalPriority) ns k =
      fold (\<lambda>m. send m NormalPriority) (map (slotted s) ns) k"
    using fold_send_in_flight [OF assms(1) _ assms(2,3)] assms(7) by auto
  then show "holds (replayPending s a k) (ms(NormalPriority := ms NormalPriority @ map (slotted s) ns))"
    unfolding e by (subst holds_cong(1)) simp_all
  show "m_pendingSlotMessages (replayPending s a k) a = None" unfolding e by simp
qed

end
