(* ===== verification/LocoNet_Faults.thy ===== *)
theory LocoNet_Faults
  imports LocoNet_Behaviour
begin

text \<open>
  Where the code does not do what it means to: the consequences of a lost echo, of a response
  that comes before the echo, of switching to listen-only with a message in flight, of an LNCV
  module that does not answer, and of a slot that gets another address.
\<close>

section \<open>A lost echo\<close>

text \<open>
  The echo timer only logs.  Whatever is posted afterwards, nothing is sent any more until the
  echo of the lost message is received: the kernel neither repeats nor drops it.
\<close>

lemma awaits_clearQueues [simp]: "awaits e r p w (clearQueues k) = awaits e r p w k"
  by (simp add: awaits_def clearQueues_def)

lemma awaits_config [simp]: "awaits e r p w (k\<lparr>m_config := c\<rparr>) = awaits e r p w k"
  by (simp add: awaits_def)

lemma awaits_startPCAP [simp]: "awaits e r p w (startPCAP out k) = awaits e r p w k"
  by (simp add: startPCAP_def Let_def)

lemma awaits_setFastClockMaster: "awaits e r p w k \<Longrightarrow> awaits e r p w (setFastClockMaster b k)"
  by (simp add: setFastClockMaster_def Let_def awaits_send)

lemma awaits_fold_send: "awaits e r p w k \<Longrightarrow> awaits e r p w (fold (\<lambda>x. send (g x) q) xs k)"
  by (induction xs arbitrary: k) (simp_all add: awaits_send)

lemma awaits_start_posted:
  assumes "awaits e r p w k"
  shows "awaits e r p w (start_posted b k)"
proof -
  have 1: "awaits e r p w (if pcap (m_config k) then startPCAP (pcapOutput (m_config k)) k else k)"
    (is "awaits e r p w ?k1") using assms by simp
  have 2: "awaits e r p w (if fastClockMode (m_config ?k1) = FastClock_Master then setFastClockMaster True ?k1 else ?k1)"
    (is "awaits e r p w ?k2") using 1 awaits_setFastClockMaster [OF 1] by presburger
  have 3: "awaits e r p w (if fastClockSyncEnabled (m_config ?k2) then startFastClockSyncTimer ?k2 else ?k2)"
    (is "awaits e r p w ?k3")
    using 2 by (simp only: startFastClockSyncTimer_def awaits.P_update split: if_split) blast
  show ?thesis
    using 1 awaits_fold_send [OF 3, of "\<lambda>slot. RequestSlotData (of_nat slot)" LowPriority
        "[1..<unat (locomotiveSlots (m_config ?k3)) + 1]"]
    unfolding start_posted_def Let_def by simp
qed

lemma awaits_setConfig:
  assumes "awaits e r p w k"
  shows "awaits e r p w (setConfig_pcap c k)" "awaits e r p w (setConfig_listenOnly c k)"
    "awaits e r p w (setConfig_fastClock c k)" "awaits e r p w (setConfig_fastClockSync c k)"
  using assms
  by (simp_all add: setConfig_pcap_def setConfig_listenOnly_def setConfig_fastClock_def setConfig_fastClockSync_def
      startFastClockSyncTimer_def stopFastClockSyncTimer_def awaits_setFastClockMaster awaits_send)

text \<open>A simulated input is a received message, so it may be taken for the echo.\<close>

lemma awaits_runTask:
  assumes "awaits True False p w k" and "\<nexists>n a. t = TSimulateInput n a"
  shows "awaits True False p w (runTask t k)"
proof (cases t)
  case (TSetConfig c)
  then show ?thesis
    using assms(1)
    by (simp add: setConfig_posted_def Let_def awaits_setConfig)
next
  case (TStart b)
  then show ?thesis using assms(1) by (simp add: awaits_start_posted)
qed (use assms in \<open>simp_all add: stop_posted_def setPowerOn_on_def setPowerOn_off_def emergencyStop_def resume_def
      lncvStart_def lncvRead_def lncvWrite_def lncvStop_def awaits_send awaits.P_sendAddress
      awaits_setFastClockMaster Let_def\<close>)

lemma awaits_stalled:
  assumes "awaits True False p w k" and "\<nexists>n a. Inl (TSimulateInput n a) \<in> set es"
  shows "awaits True False p w (fold (case_sum runTask waitingForEchoTimerExpired) es k)"
  using assms
proof (induction es arbitrary: k)
  case (Cons e es)
  have "awaits True False p w (case_sum runTask waitingForEchoTimerExpired e k)"
  proof (cases e)
    case (Inl t)
    then have "\<nexists>n a. t = TSimulateInput n a" using Cons.prems(2) by auto
    then show ?thesis using Cons.prems(1) awaits_runTask Inl by simp
  next
    case (Inr ec)
    then show ?thesis using Cons.prems(1) by (simp add: waitingForEchoTimerExpired_def)
  qed
  then show ?case using Cons by simp
qed simp

section \<open>A response before the echo\<close>

text \<open>
  The response releases its message, but the wait for the echo stays.  With nothing else queued
  the kernel then waits for the echo of a message it no longer has, and sends nothing.
\<close>

lemma response_before_echo:
  assumes "holds k ms" and "m_waitingForResponse k" and "m_waitingForEcho k"
    and "ms = (\<lambda>_. [])(m_sentMessagePriority k := [m])"
  shows "awaits True False (m_sentMessagePriority k) (wire k) (receive_response True k)"
    and "\<forall>p. SendQueue_empty (m_sendQueue (receive_response True k) p)"
proof -
  let ?p = "m_sentMessagePriority k"
  let ?k = "popSent (k\<lparr>m_waitingForResponse := False, m_waitingForResponseTimer := False\<rparr>)"
  have r: "SendQueue_rep (m_sendQueue k q) (ms q)" for q using assms(1) by (simp add: holds_def)
  have pop: "SendQueue_rep (SendQueue_pop (m_sendQueue k ?p)) []"
    using r [of ?p] assms(4) sq.pop_law by simp
  have "SendQueue_rep (m_sendQueue ?k q) []" for q
    using r [of q] pop assms(4) by (cases "q = ?p") (simp_all add: popSent_def Let_def)
  then have empty: "SendQueue_empty (m_sendQueue ?k q)" for q
    using sq.empty_law by blast
  then have "sendNextMessage ?k = ?k" by (simp add: sendNextMessage_def)
  then have e: "receive_response True k = ?k"
    using assms(2) by (simp add: receive_response_def)
  show "awaits True False ?p (wire k) (receive_response True k)"
    unfolding e using assms(3) by (simp add: awaits_def)
  show "\<forall>p. SendQueue_empty (m_sendQueue (receive_response True k) p)"
    unfolding e using empty by blast
qed

section \<open>Listen-only with a message in flight\<close>

text \<open>
  Clearing the queues while an echo is awaited: when the echo comes, the message is popped from
  an empty queue, whose counter wraps around, and the kernel, in listen-only mode, gives the
  bytes that lie behind the message to the handler.
\<close>

lemma cleared_queue_echo:
  assumes "holds k ms" and "m_waitingForEcho k" and "\<not> m_waitingForResponse k"
    and "msgEq m (lastSentMessage k)"
  shows "\<exists>stale ok. wire (snd (receive_echo m (clearQueues k))) = wire k @ [(stale, ok)]"
    and "m_bytes (m_sendQueue (snd (receive_echo m (clearQueues k))) (m_sentMessagePriority k))
      = - of_nat (msg_size (lastSentMessage k))"
proof -
  let ?p = "m_sentMessagePriority k"
  let ?c = "clearQueues k"
  let ?k = "popSent (?c\<lparr>m_waitingForEcho := False, m_waitingForEchoTimer := False\<rparr>)"
  have ne: "ms ?p \<noteq> []" using assms(1,2) by (simp add: holds_def)
  then have "hd (ms ?p) \<in> set (ms ?p)" by simp
  moreover have "\<forall>x \<in> set (ms ?p). validMsg x" using assms(1) by (simp add: holds_def list_all_iff)
  ultimately have last: "lastSentMessage k = hd (ms ?p)" "validMsg (hd (ms ?p))"
    using holds_lastSent [OF assms(1) ne] by auto
  have front: "SendQueue_front (m_sendQueue ?c ?p) = lastSentMessage k"
    by (simp add: clearQueues_def SendQueue_clear_def SendQueue_front_def lastSentMessage_def)
  then have same: "lastSentMessage ?c = lastSentMessage k"
    by (simp add: lastSentMessage_def clearQueues_def)
  have sz: "2 \<le> msg_size (lastSentMessage k)"
    using last framed_size by (simp add: validMsg_def)
  have zero: "m_bytes (m_sendQueue ?c q) = 0" for q
    by (simp add: clearQueues_def SendQueue_clear_def)
  have sp: "m_sentMessagePriority ?c = ?p" by (simp add: clearQueues_def)
  have q: "m_sendQueue ?k ?p = SendQueue_pop (m_sendQueue ?c ?p)"
    "r \<noteq> ?p \<Longrightarrow> m_sendQueue ?k r = m_sendQueue ?c r" for r
    by (simp_all add: popSent_def Let_def sp)
  have under: "m_bytes (m_sendQueue ?k ?p) = - of_nat (msg_size (lastSentMessage k))"
    "\<not> SendQueue_empty (m_sendQueue ?k ?p)"
    using SendQueue_pop_underflow [OF zero, of ?p] sz front q(1) by simp_all
  have others: "r \<noteq> ?p \<Longrightarrow> SendQueue_empty (m_sendQueue ?k r)" for r
    using zero q(2) by (simp add: SendQueue_empty_def)
  have "sendNextMessage ?k = transmit ?p ?k"
  proof (cases ?p)
    case HighPriority
    then show ?thesis using under(2) by (simp add: sendNextMessage_def)
  next
    case NormalPriority
    then show ?thesis using under(2) others [of HighPriority] by (simp add: sendNextMessage_def)
  next
    case LowPriority
    then show ?thesis using under(2) others [of HighPriority] others [of NormalPriority]
      by (simp add: sendNextMessage_def)
  qed
  moreover have "m_waitingForEcho ?c" "\<not> m_waitingForResponse ?c" using assms(2,3) by (simp_all add: clearQueues_def)
  ultimately have e: "snd (receive_echo m ?c) = transmit ?p ?k"
    using assms(4) by (simp add: receive_echo_def Let_def same)
  have "wire ?k = wire k" by (simp add: clearQueues_def)
  then show "\<exists>stale ok. wire (snd (receive_echo m ?c)) = wire k @ [(stale, ok)]"
    unfolding e using transmit_effect(1) [OF refl] by metis
  show "m_bytes (m_sendQueue (snd (receive_echo m ?c)) ?p) = - of_nat (msg_size (lastSentMessage k))"
    unfolding e using under(1) by simp
qed

section \<open>An LNCV module that does not answer\<close>

text \<open>
  The expired timer of an LNCV start reports the failure and sends the next message, but the
  start message is still at the front of its queue: it is the one that goes out again.
\<close>

lemma lncvStart_repeated:
  assumes "holds k ms" and "m_lncvActive k" and "m_waitingForResponse k"
    and "m_sentMessagePriority k = HighPriority" and "LNCVStart_check (lastSentMessage k)"
  shows "wire (waitingForResponseTimerExpired False k) =
      wire k @ [(lastSentMessage k, ioSend k (wire k) (lastSentMessage k))]"
    and "holds (waitingForResponseTimerExpired False k) ms"
proof -
  let ?ev = "EvLNCVNoResponse (LNCVStart_moduleId (lastSentMessage k)) (LNCVStart_address (lastSentMessage k))"
  let ?k = "eventLoopCall ?ev k"
  have e: "waitingForResponseTimerExpired False k = sendNextMessage ?k"
    using assms(2,5) by (simp add: waitingForResponseTimerExpired_def Let_def)
  have h: "holds ?k ms" using assms(1) by (subst holds_cong(1) [of _ k]) simp_all
  have ne: "ms HighPriority \<noteq> []" using assms(1,3,4) by (simp add: holds_def)
  then have "nextMessage ms = Some (HighPriority, lastSentMessage k)"
    using holds_lastSent [OF assms(1)] assms(4) by (cases "ms HighPriority") simp_all
  then show "wire (waitingForResponseTimerExpired False k) =
      wire k @ [(lastSentMessage k, ioSend k (wire k) (lastSentMessage k))]"
    unfolding e sendNextMessage_effect [OF h] by simp
  show "holds (waitingForResponseTimerExpired False k) ms"
    unfolding e by (rule sendNextMessage_holds [OF h])
qed

section \<open>A slot that gets another address\<close>

text \<open>
  The slot is entered under its address only when it had none before.  After a change of address
  the new address is unknown, and the slot's speed and direction, which were just invalidated,
  are reported for the new address.
\<close>

lemma readdressed_slot:
  assumes "kernelInv k" and "map_of (m_slots k) s = Some ls" and "LocoSlot_isAddressValid ls"
    and "ls_address ls \<noteq> a" and "map_of (m_addressToSlot k) a = None"
  shows "fst (assignSlotAddress s a k)"
    and "map_of (m_addressToSlot (snd (assignSlotAddress s a k))) a = None"
    and "ls_address (locoSlot s (snd (assignSlotAddress s a k))) = a"
    and "ls_speed (locoSlot s (snd (assignSlotAddress s a k))) = 0xFF"
    and "ls_direction (locoSlot s (snd (assignSlotAddress s a k))) = DirUnknown"
proof -
  have l: "locoSlot s k = ls" by (simp add: locoSlot_def assms(2))
  show "fst (assignSlotAddress s a k)"
    using assms(3,4) by (simp add: assignSlotAddress_def Let_def l)
  show "map_of (m_addressToSlot (snd (assignSlotAddress s a k))) a = None"
    using assms(3-5) by (simp add: assignSlotAddress_def Let_def l delete_conv')
  show "ls_address (locoSlot s (snd (assignSlotAddress s a k))) = a"
    "ls_speed (locoSlot s (snd (assignSlotAddress s a k))) = 0xFF"
    "ls_direction (locoSlot s (snd (assignSlotAddress s a k))) = DirUnknown"
    using assms(3,4) by (simp_all add: assignSlotAddress_def Let_def l LocoSlot_invalid_def)
qed

section \<open>Sensor reports with a short address\<close>

text \<open>No valid message contains the marker of a short transponder address.\<close>

lemma MultiSense_never_short:
  assumes "framed m" and "isValid m" and "5 < length m"
  shows "MultiSense_isTransponderAddressLong m" "MultiSenseLong_isTransponderAddressLong m"
  using valid_not_FD [OF assms(1,2)] assms(3)
  by (simp_all add: MultiSense_isTransponderAddressLong_def MultiSenseLong_isTransponderAddressLong_def)

end
