(* ===== verification/LocoNet_Loopback.thy ===== *)
theory LocoNet_Loopback
  imports LocoNet_Faults
begin

text \<open>
  Sending and receiving put together: what the kernel sends for a decoder is, once received,
  what its slot table holds for that decoder.
\<close>

section \<open>A message with its slot\<close>

lemma slotted_nth:
  assumes "slotMsg m" and "i < length m - 1" and "isLocoSlot s"
  shows "slotted s m ! i = (if i = slotPos m then s else m ! i)"
proof -
  have fr: "framed m" "carriesSlot m" using assms(1) by (simp_all add: slotMsg_def)
  have "framed (m[slotPos m := s])"
    using setSlot_frame(1) [OF slotMsg_setSlot(1) [OF assms(1,3)] fr(1)] .
  then have "msg_size (m[slotPos m := s]) - 1 = length m - 1" by (simp add: framed_def)
  then show ?thesis using assms(2) by (auto simp: slotted_def updateChecksum_def)
qed

lemma slotMsg_length: "slotMsg m \<Longrightarrow> length m = (if opCode m = OPC_D4 then 6 else 4)"
  using carriesSlot_size [of m] by (simp add: slotMsg_def framed_def)

text \<open>The bytes the handlers read: opcode, slot, and for the others those the sender wrote.\<close>

lemma slotted_short:
  assumes "slotMsg m" and "opCode m \<noteq> OPC_D4" and "isLocoSlot s"
  shows "slotted s m ! 0 = m ! 0" "slotted s m ! 1 = s" "slotted s m ! Suc 0 = s" "slotted s m ! 2 = m ! 2"
  using slotted_nth [OF assms(1) _ assms(3)] slotMsg_length [OF assms(1)] assms(2) by (simp_all add: slotPos_def)

lemma slotted_long:
  assumes "slotMsg m" and "opCode m = OPC_D4" and "isLocoSlot s"
  shows "slotted s m ! 0 = m ! 0" "slotted s m ! 1 = m ! 1" "slotted s m ! Suc 0 = m ! 1"
    "slotted s m ! 2 = s" "slotted s m ! 3 = m ! 3" "slotted s m ! 4 = m ! 4"
  using slotted_nth [OF assms(1) _ assms(3)] slotMsg_length [OF assms(1)] assms(2) by (simp_all add: slotPos_def)

section \<open>What the slot table holds afterwards\<close>

lemma updateFunctionValues_result:
  "distinct is \<Longrightarrow> snd (updateFunctionValues is f fs) n = (if n \<in> set is then toTriState (f n) else fs n)"
  by (induction "is" f fs rule: updateFunctionValues.induct) (auto simp: tri_ne_bool_def)

lemma updateFunctions_result:
  "ls_functions (locoSlot s (snd (updateFunctions a b s f k))) n =
    (if a \<le> n \<and> n \<le> b then toTriState (f n) else ls_functions (locoSlot s k) n)"
  by (simp add: updateFunctions_def Let_def split_beta updateFunctionValues_result less_Suc_eq_le del: upt_Suc)

text \<open>A slot the kernel knows, with a valid address.\<close>

definition knownSlot :: "u8 \<Rightarrow> Kernel \<Rightarrow> bool" where
  "knownSlot s k \<longleftrightarrow>
    isLocoSlot s \<and> m_decoderController k \<and>
    (\<exists>ls. map_of (m_slots k) s = Some ls \<and> LocoSlot_isAddressValid ls)"

lemma knownSlot_facts:
  assumes "knownSlot s k"
  shows "isLocoSlot s" "m_decoderController k" "getLocoSlot s b k = (True, k)"
    "LocoSlot_isAddressValid (locoSlot s k)" "requestIfInvalid s k = k"
  using assms by (auto simp: knownSlot_def getLocoSlot_def locoSlot_def requestIfInvalid_def)

lemmas loco_ops = LocoSpd_def loco_function_defs Let_def

lemma receive_slotted_speed:
  assumes "knownSlot s k" and "\<not> bit v 7"
  shows "ls_speed (locoSlot s (receive_dispatch (slotted s (LocoSpd v)) r k)) = v"
proof -
  note sl = slotted_short [OF slotMsg_loco(1) [OF assms(2)] _ knownSlot_facts(1) [OF assms(1)]]
  have "opCode (LocoSpd v) = OPC_LOCO_SPD" "LocoSpd v ! 2 = v" by (simp_all add: LocoSpd_def)
  then show ?thesis
    using knownSlot_facts [OF assms(1)] sl
    by (simp add: receive_dispatch_def receive_LOCO_SPD_def Let_def SlotMessage_slot_def LocoSpd_speed_def)
qed

lemma receive_slotted_DirF:
  assumes "knownSlot s k"
  shows "ls_direction (locoSlot s (receive_dispatch (slotted s (LocoDirF d (f 0) (f 1) (f 2) (f 3) (f 4))) r k)) =
      LocoDirF_direction (LocoDirF d (f 0) (f 1) (f 2) (f 3) (f 4))"
    and "n \<le> 4 \<Longrightarrow> ls_functions (locoSlot s (receive_dispatch (slotted s (LocoDirF d (f 0) (f 1) (f 2) (f 3) (f 4))) r k)) n =
      toTriState (f n)"
proof -
  let ?m = "LocoDirF d (f 0) (f 1) (f 2) (f 3) (f 4)"
  have op: "opCode ?m = OPC_LOCO_DIRF" by (simp add: loco_ops)
  note sl = slotted_short [OF slotMsg_loco(2) _ knownSlot_facts(1) [OF assms], of d "f 0" "f 1" "f 2" "f 3" "f 4"]
  have e: "receive_dispatch (slotted s ?m) r k = receive_LOCO_DIRF (slotted s ?m) k"
    "LocoDirF_direction (slotted s ?m) = LocoDirF_direction ?m" "LocoDirF_f (slotted s ?m) = LocoDirF_f ?m"
    using sl op by (simp_all add: receive_dispatch_def LocoDirF_direction_def LocoDirF_f_def LocoDirF_fN_def fun_eq_iff)
  show "ls_direction (locoSlot s (receive_dispatch (slotted s ?m) r k)) = LocoDirF_direction ?m"
    using knownSlot_facts [OF assms] sl op
    unfolding e by (simp add: e(2) receive_LOCO_DIRF_def Let_def SlotMessage_slot_def updateFunctions_def split_beta
        del: One_nat_def)
  show "n \<le> 4 \<Longrightarrow> ls_functions (locoSlot s (receive_dispatch (slotted s ?m) r k)) n = toTriState (f n)"
    using knownSlot_facts [OF assms] sl op LocoDirF_reads [of n d f]
    unfolding e by (simp add: e(2,3) receive_LOCO_DIRF_def Let_def SlotMessage_slot_def updateFunctions_result
        del: One_nat_def)
qed

lemma receive_slotted_Snd:
  assumes "knownSlot s k" and "5 \<le> n" "n \<le> 8"
  shows "ls_functions (locoSlot s (receive_dispatch (slotted s (LocoSnd (f 5) (f 6) (f 7) (f 8))) r k)) n = toTriState (f n)"
proof -
  let ?m = "LocoSnd (f 5) (f 6) (f 7) (f 8)"
  have op: "opCode ?m = OPC_LOCO_SND" by (simp add: loco_ops)
  note sl = slotted_short [OF slotMsg_loco(3) _ knownSlot_facts(1) [OF assms(1)], of "f 5" "f 6" "f 7" "f 8"]
  show ?thesis
    using knownSlot_facts [OF assms(1)] sl op LocoSnd_reads [OF assms(2,3), of f] assms(2,3)
    by (simp add: receive_dispatch_def receive_LOCO_SND_def Let_def SlotMessage_slot_def updateFunctions_result
        LocoSnd_f_def)
qed

lemma receive_slotted_F9F12:
  assumes "knownSlot s k" and "9 \<le> n" "n \<le> 12"
  shows "ls_functions (locoSlot s (receive_dispatch (slotted s (LocoF9F12 (f 9) (f 10) (f 11) (f 12))) r k)) n = toTriState (f n)"
proof -
  let ?m = "LocoF9F12 (f 9) (f 10) (f 11) (f 12)"
  have op: "opCode ?m = OPC_LOCO_F9F12" by (simp add: loco_ops)
  note sl = slotted_short [OF slotMsg_loco(4) _ knownSlot_facts(1) [OF assms(1)], of "f 9" "f 10" "f 11" "f 12"]
  show ?thesis
    using knownSlot_facts [OF assms(1)] sl op LocoF9F12_reads [OF assms(2,3), of f] assms(2,3)
    by (simp add: receive_dispatch_def receive_LOCO_F9F12_def Let_def SlotMessage_slot_def updateFunctions_result
        LocoF9F12_f_def)
qed

lemma receive_slotted_D4:
  assumes "knownSlot s k"
  shows "13 \<le> n \<Longrightarrow> n \<le> 19 \<Longrightarrow> ls_functions (locoSlot s (receive_dispatch
      (slotted s (LocoF13F19 (f 13) (f 14) (f 15) (f 16) (f 17) (f 18) (f 19))) r k)) n = toTriState (f n)"
    and "21 \<le> n \<Longrightarrow> n \<le> 27 \<Longrightarrow> ls_functions (locoSlot s (receive_dispatch
      (slotted s (LocoF21F27 (f 21) (f 22) (f 23) (f 24) (f 25) (f 26) (f 27))) r k)) n = toTriState (f n)"
proof -
  note sl = slotted_long [OF slotMsg_loco(5) _ knownSlot_facts(1) [OF assms]]
    slotted_long [OF slotMsg_loco(7) _ knownSlot_facts(1) [OF assms]]
  have bytes: "LocoF13F19 f13 f14 f15 f16 f17 f18 f19 ! 0 = OPC_D4" "LocoF13F19 f13 f14 f15 f16 f17 f18 f19 ! Suc 0 = 0x20"
    "LocoF13F19 f13 f14 f15 f16 f17 f18 f19 ! 3 = 0x08"
    "LocoF21F27 f13 f14 f15 f16 f17 f18 f19 ! 0 = OPC_D4" "LocoF21F27 f13 f14 f15 f16 f17 f18 f19 ! Suc 0 = 0x20"
    "LocoF21F27 f13 f14 f15 f16 f17 f18 f19 ! 3 = 0x09" for f13 f14 f15 f16 f17 f18 f19
    by (simp_all add: loco_ops)
  show "13 \<le> n \<Longrightarrow> n \<le> 19 \<Longrightarrow> ls_functions (locoSlot s (receive_dispatch
      (slotted s (LocoF13F19 (f 13) (f 14) (f 15) (f 16) (f 17) (f 18) (f 19))) r k)) n = toTriState (f n)"
    using knownSlot_facts [OF assms] LocoF13F19_reads [of n f]
    by (simp add: receive_dispatch_def receive_D4_def receive_D4_F13F19_def Let_def updateFunctions_result
        LocoF13F19_f_def sl bytes)
  show "21 \<le> n \<Longrightarrow> n \<le> 27 \<Longrightarrow> ls_functions (locoSlot s (receive_dispatch
      (slotted s (LocoF21F27 (f 21) (f 22) (f 23) (f 24) (f 25) (f 26) (f 27))) r k)) n = toTriState (f n)"
    using knownSlot_facts [OF assms] LocoF21F27_reads [of n f]
    by (simp add: receive_dispatch_def receive_D4_def receive_D4_F21F27_def Let_def updateFunctions_result
        LocoF21F27_f_def sl bytes)
qed

lemma receive_slotted_F12F20F28:
  assumes "knownSlot s k" and "n \<in> {12, 20, 28}"
  shows "ls_functions (locoSlot s (receive_dispatch (slotted s (LocoF12F20F28 (f 12) (f 20) (f 28))) r k)) n = toTriState (f n)"
proof -
  let ?m = "LocoF12F20F28 (f 12) (f 20) (f 28)"
  note sl = slotted_long [OF slotMsg_loco(6) _ knownSlot_facts(1) [OF assms(1)], of "f 12" "f 20" "f 28"]
  have bytes: "?m ! 0 = OPC_D4" "?m ! 1 = 0x20" "?m ! Suc 0 = 0x20" "?m ! 3 = 0x05" by (simp_all add: loco_ops)
  have rd: "LocoF12F20F28_fN j (slotted s ?m) = f j" if "j \<in> {12, 20, 28}" for j
    using LocoF12F20F28_reads [OF that, of f] sl bytes by (simp add: LocoF12F20F28_fN_def)
  have e: "receive_dispatch (slotted s ?m) r k = receive_D4_F12F20F28 (slotted s ?m) k"
    using knownSlot_facts [OF assms(1)] sl bytes by (simp add: receive_dispatch_def receive_D4_def Let_def)
  show ?thesis
    using knownSlot_facts [OF assms(1)] assms(2) rd sl bytes
    by (auto simp: e receive_D4_F12F20F28_def Let_def tri_ne_bool_def)
qed

section \<open>A decoder's function\<close>

lemma function_loopback:
  assumes "n \<le> 28" and "n \<le> 8 \<or> f9f28 (m_config k) = F9F28_UhlenbrockExtended" and "knownSlot s k'"
  obtains m i where "decoderChanged_function d chFunctionValue n k = [TSendAddress (d_address d) m i]"
    and "i = slotPos m" and "slotMsg m"
    and "ls_functions (locoSlot s (receive_dispatch (slotted s m) r k')) n = toTriState (d_function d n)"
proof -
  let ?f = "d_function d"
  have ch: "\<not> has_change chFunctionValue chDirection" by (simp add: has_change_def)
  consider "n \<le> 4" | "5 \<le> n" "n \<le> 8" | "9 \<le> n" "n \<le> 12" | "13 \<le> n" "n \<le> 19" | "n = 20 \<or> n = 28"
    | "21 \<le> n" "n \<le> 27"
    using assms(1) by linarith
  then show ?thesis
  proof cases
    case 1
    show ?thesis
    proof (rule that [of "LocoDirF (d_direction d) (?f 0) (?f 1) (?f 2) (?f 3) (?f 4)" 1])
      show "decoderChanged_function d chFunctionValue n k = [TSendAddress (d_address d) (LocoDirF (d_direction d) (?f 0) (?f 1) (?f 2) (?f 3) (?f 4)) 1]"
        using 1 ch assms(2) by (auto simp: decoderChanged_function_def decoderChanged_Uhlenbrock_def Let_def)
      show "1 = slotPos (LocoDirF (d_direction d) (?f 0) (?f 1) (?f 2) (?f 3) (?f 4))" by (simp only: slotPos_loco)
      show "slotMsg (LocoDirF (d_direction d) (?f 0) (?f 1) (?f 2) (?f 3) (?f 4))" by (rule slotMsg_loco(2))
      show "ls_functions (locoSlot s (receive_dispatch (slotted s (LocoDirF (d_direction d) (?f 0) (?f 1) (?f 2) (?f 3) (?f 4))) r k')) n = toTriState (?f n)"
         by (rule receive_slotted_DirF(2) [OF assms(3) 1])
    qed
  next
    case 2
    show ?thesis
    proof (rule that [of "LocoSnd (?f 5) (?f 6) (?f 7) (?f 8)" 1])
      show "decoderChanged_function d chFunctionValue n k = [TSendAddress (d_address d) (LocoSnd (?f 5) (?f 6) (?f 7) (?f 8)) 1]"
        using 2 ch assms(2) by (auto simp: decoderChanged_function_def decoderChanged_Uhlenbrock_def Let_def)
      show "1 = slotPos (LocoSnd (?f 5) (?f 6) (?f 7) (?f 8))" by (simp only: slotPos_loco)
      show "slotMsg (LocoSnd (?f 5) (?f 6) (?f 7) (?f 8))" by (rule slotMsg_loco(3))
      show "ls_functions (locoSlot s (receive_dispatch (slotted s (LocoSnd (?f 5) (?f 6) (?f 7) (?f 8))) r k')) n = toTriState (?f n)"
         by (rule receive_slotted_Snd [OF assms(3) 2])
    qed
  next
    case 3
    show ?thesis
    proof (rule that [of "LocoF9F12 (?f 9) (?f 10) (?f 11) (?f 12)" 1])
      show "decoderChanged_function d chFunctionValue n k = [TSendAddress (d_address d) (LocoF9F12 (?f 9) (?f 10) (?f 11) (?f 12)) 1]"
        using 3 ch assms(2) by (auto simp: decoderChanged_function_def decoderChanged_Uhlenbrock_def Let_def)
      show "1 = slotPos (LocoF9F12 (?f 9) (?f 10) (?f 11) (?f 12))" by (simp only: slotPos_loco)
      show "slotMsg (LocoF9F12 (?f 9) (?f 10) (?f 11) (?f 12))" by (rule slotMsg_loco(4))
      show "ls_functions (locoSlot s (receive_dispatch (slotted s (LocoF9F12 (?f 9) (?f 10) (?f 11) (?f 12))) r k')) n = toTriState (?f n)"
         by (rule receive_slotted_F9F12 [OF assms(3) 3])
    qed
  next
    case 4
    show ?thesis
    proof (rule that [of "LocoF13F19 (?f 13) (?f 14) (?f 15) (?f 16) (?f 17) (?f 18) (?f 19)" 2])
      show "decoderChanged_function d chFunctionValue n k = [TSendAddress (d_address d) (LocoF13F19 (?f 13) (?f 14) (?f 15) (?f 16) (?f 17) (?f 18) (?f 19)) 2]"
        using 4 ch assms(2) by (auto simp: decoderChanged_function_def decoderChanged_Uhlenbrock_def Let_def)
      show "2 = slotPos (LocoF13F19 (?f 13) (?f 14) (?f 15) (?f 16) (?f 17) (?f 18) (?f 19))" by (simp only: slotPos_loco)
      show "slotMsg (LocoF13F19 (?f 13) (?f 14) (?f 15) (?f 16) (?f 17) (?f 18) (?f 19))" by (rule slotMsg_loco(5))
      show "ls_functions (locoSlot s (receive_dispatch (slotted s (LocoF13F19 (?f 13) (?f 14) (?f 15) (?f 16) (?f 17) (?f 18) (?f 19))) r k')) n = toTriState (?f n)"
         by (rule receive_slotted_D4(1) [OF assms(3) 4])
    qed
  next
    case 5
    show ?thesis
    proof (rule that [of "LocoF12F20F28 (?f 12) (?f 20) (?f 28)" 2])
      show "decoderChanged_function d chFunctionValue n k = [TSendAddress (d_address d) (LocoF12F20F28 (?f 12) (?f 20) (?f 28)) 2]"
        using 5 ch assms(2) by (auto simp: decoderChanged_function_def decoderChanged_Uhlenbrock_def Let_def)
      show "2 = slotPos (LocoF12F20F28 (?f 12) (?f 20) (?f 28))" by (simp only: slotPos_loco)
      show "slotMsg (LocoF12F20F28 (?f 12) (?f 20) (?f 28))" by (rule slotMsg_loco(6))
      show "ls_functions (locoSlot s (receive_dispatch (slotted s (LocoF12F20F28 (?f 12) (?f 20) (?f 28))) r k')) n = toTriState (?f n)"
         by (rule receive_slotted_F12F20F28 [OF assms(3)]) (use 5 in auto)
    qed
  next
    case 6
    show ?thesis
    proof (rule that [of "LocoF21F27 (?f 21) (?f 22) (?f 23) (?f 24) (?f 25) (?f 26) (?f 27)" 2])
      show "decoderChanged_function d chFunctionValue n k = [TSendAddress (d_address d) (LocoF21F27 (?f 21) (?f 22) (?f 23) (?f 24) (?f 25) (?f 26) (?f 27)) 2]"
        using 6 ch assms(2) by (auto simp: decoderChanged_function_def decoderChanged_Uhlenbrock_def Let_def)
      show "2 = slotPos (LocoF21F27 (?f 21) (?f 22) (?f 23) (?f 24) (?f 25) (?f 26) (?f 27))" by (simp only: slotPos_loco)
      show "slotMsg (LocoF21F27 (?f 21) (?f 22) (?f 23) (?f 24) (?f 25) (?f 26) (?f 27))" by (rule slotMsg_loco(7))
      show "ls_functions (locoSlot s (receive_dispatch (slotted s (LocoF21F27 (?f 21) (?f 22) (?f 23) (?f 24) (?f 25) (?f 26) (?f 27))) r k')) n = toTriState (?f n)"
         by (rule receive_slotted_D4(2) [OF assms(3) 6])
    qed
  qed
qed

section \<open>Emergency stop\<close>

text \<open>
  After an emergency stop has been received the only speeds that are sent are stop and
  emergency stop.
\<close>

lemma emergency_stop_speeds:
  assumes "m_emergencyStop k \<noteq> TriFalse" and "TSendAddress a m i \<in> set (decoderChanged_speed d k)"
  shows "LocoSpd_speed m \<in> {SPEED_STOP, SPEED_ESTOP}"
  using assms by (auto simp: decoderChanged_speed_def LocoSpd_speed_def LocoSpd_def split: if_splits)

lemma known_address_sends:
  assumes "map_of (m_addressToSlot k) a = Some s" and "slotMsg m"
    and "\<not> (opCode m = OPC_LOCO_SPD \<and> LocoSpd_speed m \<ge> SPEED_MIN)"
  shows "sendAddress a m (slotPos m) k = send (slotted s m) NormalPriority k"
proof -
  have "opCode (m[slotPos m := s]) = opCode m" "m[slotPos m := s] ! 2 = m ! 2 \<or> opCode m = OPC_D4"
    by (simp_all add: slotPos_def)
  then show ?thesis
    using assms by (auto simp: sendAddress_def Let_def slotted_def LocoSpd_speed_def)
qed

end
