(* ===== verification/LocoNet_Properties.thy ===== *)
theory LocoNet_Properties
  imports LocoNet_Loopback
begin

text \<open>
  The properties of the LocoNet kernel.  Each is stated over the model's own definitions and is
  followed, where it has hypotheses, by an instance on a concrete kernel (\<open>demoKernel\<close>, after its
  constructor, with a handler that accepts everything).
\<close>

section \<open>A concrete kernel\<close>

definition demoConfig :: Config where
  "demoConfig =
    \<lparr>echoTimeout = 250, responseTimeout = 1000, locomotiveSlots = 3, f9f28 = F9F28_UhlenbrockExtended,
     fastClockMode = FastClock_Off, fastClockSyncEnabled = False, fastClockSyncInterval = 1,
     debugLogInput = False, debugLogRXTX = False, pcap = False, pcapOutput = PCAPOutput_File, listenOnly = False\<rparr>"

definition demoKernel :: Kernel where
  "demoKernel = Kernel_init demoConfig True LowPriority (\<lambda>_ _. True) (\<lambda>_. True)"

text \<open>After a power-on was posted, and after a slot was asked for.\<close>

definition demoOn :: Kernel where
  "demoOn = runTask TPowerOn demoKernel"

definition demoAdr :: Kernel where
  "demoAdr = send (LocoAdr 3) HighPriority demoKernel"

lemma demo_init:
  "holds demoKernel (\<lambda>_. [])" "\<not> listenOnly (m_config demoKernel)" "wire demoKernel = []"
  "ioSend demoKernel w m" "m_globalPower demoKernel = TriUndefined" "kernelInv demoKernel"
  using kernelInv_init [of demoConfig True LowPriority "\<lambda>_ _. True" "\<lambda>_. True"]
  by (simp_all add: demoKernel_def Kernel_init_def demoConfig_def holds_def SendQueue_rep_init)

lemma demoOn_eq: "demoOn = send GlobalPowerOn HighPriority demoKernel"
  by (simp add: demoOn_def setPowerOn_on_def demo_init)

lemma demoOn_state:
  "holds demoOn ((\<lambda>_. [])(HighPriority := [GlobalPowerOn]))" "wire demoOn = [(GlobalPowerOn, True)]"
  "awaits True False HighPriority [(GlobalPowerOn, True)] demoOn" "lastSentMessage demoOn = GlobalPowerOn"
  "\<not> listenOnly (m_config demoOn)"
  using send_idle [OF demo_init(1) validMsg_power(2) demo_init(2), of HighPriority]
    send_idle_awaits [OF demo_init(1) validMsg_power(2) demo_init(2), of HighPriority] demo_init
  by (simp_all add: demoOn_eq hasResponse_simps)

lemma demoAdr_state:
  "holds demoAdr ((\<lambda>_. [])(HighPriority := [LocoAdr 3]))" "wire demoAdr = [(LocoAdr 3, True)]"
  "awaits True True HighPriority [(LocoAdr 3, True)] demoAdr" "lastSentMessage demoAdr = LocoAdr 3"
  "\<not> listenOnly (m_config demoAdr)"
  using send_idle [OF demo_init(1) validMsg_LocoAdr demo_init(2), of 3 HighPriority]
    send_idle_awaits [OF demo_init(1) validMsg_LocoAdr demo_init(2), of 3 HighPriority] demo_init
  by (simp_all add: demoAdr_def hasResponse_simps)

section \<open>Safety of the whole kernel\<close>

lemma demoOn_reachable: "reachable (Kernel_init demoConfig True LowPriority (\<lambda>_ _. True) (\<lambda>_. True)) demoOn"
proof -
  have "kernel_step demoKernel (runTask TPowerOn demoKernel)" by (rule step_task) simp
  then show ?thesis
    unfolding demoOn_def using reachable_step [OF reachable_init] by (simp add: demoKernel_def)
qed

text \<open>
  C7. In every run in which listen-only mode is not switched on while an echo or a response is
  awaited and no response comes before the echo of its request (these are the conditions of
  \<open>reachable\<close>), every message the kernel gives to its IO handler is framed and valid: its length
  is the one its opcode announces, its checksum is right and its data bytes are below 128.  The
  first condition is needed: \<open>listen_only_underflow\<close> has stale bytes sent without it.
\<close>

theorem kernel_wire_valid:
  assumes "unat (locomotiveSlots c) \<le> 119" and "reachable (Kernel_init c sim p io po) k"
  shows "list_all (\<lambda>(m, ok). framed m \<and> isValid m) (wire k)"
  using kernelInv_reachable [OF assms(2) kernelInv_init [OF assms(1)]]
  by (auto simp: kernelInv_def queueInv_def holds_def validMsg_def)

theorem kernel_wire_valid_witness:
  "list_all (\<lambda>(m, ok). framed m \<and> isValid m) (wire demoOn) \<and> wire demoOn = [(GlobalPowerOn, True)]"
  using kernel_wire_valid [OF _ demoOn_reachable] demoOn_state(2) by (simp add: demoConfig_def)

text \<open>
  C5. In every state of a run in which listen-only mode is not switched on while an echo or a
  response is awaited and no response comes before the echo of its request (the conditions of
  \<open>reachable\<close>), each of the three send queues holds a list of valid messages within its 2000
  bytes, and while an echo or a response is awaited the message that was sent last is still the
  first of its queue; it is one that expects a response when a response is awaited.
  \<open>listen_only_underflow\<close> and \<open>response_before_echo_stalls\<close> show what happens in the other runs.
\<close>

theorem kernel_queues:
  assumes "unat (locomotiveSlots c) \<le> 119" and "reachable (Kernel_init c sim p io po) k"
  shows "\<exists>ms. (\<forall>q. SendQueue_rep (m_sendQueue k q) (ms q) \<and> list_all isValid (ms q) \<and> length (concat (ms q)) \<le> 2000)
    \<and> (m_waitingForEcho k \<or> m_waitingForResponse k \<longrightarrow>
        (\<exists>rest. ms (m_sentMessagePriority k) = lastSentMessage k # rest))
    \<and> (m_waitingForResponse k \<longrightarrow> hasResponse (lastSentMessage k))"
proof -
  obtain ms where h: "holds k ms"
    using kernelInv_reachable [OF assms(2) kernelInv_init [OF assms(1)]]
    by (auto simp: kernelInv_def queueInv_def)
  then have "SendQueue_rep (m_sendQueue k q) (ms q) \<and> list_all isValid (ms q) \<and> length (concat (ms q)) \<le> 2000" for q
    using sq.rep_size by (auto simp: holds_def validMsg_def list_all_iff simp del: length_concat)
  moreover have "m_waitingForEcho k \<or> m_waitingForResponse k \<Longrightarrow> ms (m_sentMessagePriority k) \<noteq> []"
    using h by (simp add: holds_def)
  moreover have "ms (m_sentMessagePriority k) \<noteq> [] \<Longrightarrow>
      ms (m_sentMessagePriority k) = lastSentMessage k # tl (ms (m_sentMessagePriority k))"
    using holds_lastSent [OF h] by simp
  moreover have "m_waitingForResponse k \<Longrightarrow> hasResponse (lastSentMessage k)"
    using h holds_lastSent [OF h] by (simp add: holds_def)
  ultimately show ?thesis by (intro exI [of _ ms]) blast
qed

theorem kernel_queues_witness:
  "\<exists>ms. SendQueue_rep (m_sendQueue demoOn HighPriority) (ms HighPriority) \<and>
    (\<exists>rest. ms HighPriority = GlobalPowerOn # rest)"
proof -
  have "m_waitingForEcho demoOn" "m_sentMessagePriority demoOn = HighPriority"
    using demoOn_state(3) by (simp_all add: awaits_def)
  then show ?thesis
    using kernel_queues [OF _ demoOn_reachable] demoOn_state(4) by (simp add: demoConfig_def) blast
qed

text \<open>
  C12. In every state of a run as in C5 an address that is mapped to a slot is the address that the
  slot has, the slot is a locomotive slot (1 .. 119), and no other address is mapped to it.  A
  slot with an address need not be mapped: \<open>readdressed_slot_unmapped\<close>.
\<close>

theorem kernel_address_slot:
  assumes "unat (locomotiveSlots c) \<le> 119" and "reachable (Kernel_init c sim p io po) k"
    and "map_of (m_addressToSlot k) a = Some s"
  shows "isLocoSlot s \<and> ls_address (locoSlot s k) = a \<and> unat a < 16384 \<and>
    (\<forall>b. map_of (m_addressToSlot k) b = Some s \<longrightarrow> b = a)"
proof -
  have inv: "slotInv k"
    using kernelInv_reachable [OF assms(2) kernelInv_init [OF assms(1)]] by (simp add: kernelInv_def)
  then obtain ls where ls: "map_of (m_slots k) s = Some ls" "ls_address ls = a" "unat a < 16384"
    using assms(3) unfolding slotInv_def by blast
  moreover have "b = a" if "map_of (m_addressToSlot k) b = Some s" for b
    using inv that ls(1,2) unfolding slotInv_def by (metis option.inject)
  ultimately show ?thesis
    using inv unfolding slotInv_def locoSlot_def by auto
qed

text \<open>The kernel after it received the slot data of address 3 in slot 5.\<close>

definition demoSlotData :: bytes where
  "demoSlotData = updateChecksum (SlotReadData_setAddress 3 (SlotReadData_setBusy True (SlotReadData 5)))"

definition demoSlot :: Kernel where
  "demoSlot = receive demoSlotData demoKernel"

lemma demoSlotData_bytes: "demoSlotData = [0xE7, 14, 5, 0x20, 3, 0, 0, 0, 0, 0, 0, 0, 0, 0x30]"
  by (simp add: demoSlotData_def SlotReadData_setAddress_def SlotReadData_setBusy_def SlotReadData_def
      updateChecksum_def seal_def calcChecksum_def msg_size_def setFlag_def)

lemma demoSlotData_valid: "validMsg demoSlotData" "wellSized demoSlotData"
  by (simp_all add: validMsg_def demoSlotData_bytes framed_def msg_size_def isValid_def isChecksumValid_def
      calcChecksum_def wellSized_def upt_rec)

lemma demoSlot_eq: "demoSlot = receive_SL_RD_DATA demoSlotData demoKernel"
proof -
  have idle: "\<not> m_waitingForEcho demoKernel" "\<not> m_waitingForResponse demoKernel" "\<not> m_pcap demoKernel"
    "\<not> debugLogRXTX (m_config demoKernel)"
    by (simp_all add: demoKernel_def Kernel_init_def demoConfig_def)
  moreover have "receive_dispatch demoSlotData False demoKernel = receive_SL_RD_DATA demoSlotData demoKernel"
    by (simp add: receive_dispatch_def demoSlotData_bytes)
  moreover have "receive_response False k = k" for k by (simp add: receive_response_def)
  ultimately show ?thesis
    by (simp add: demoSlot_def receive_def receive_log_def receive_echo_def)
qed

lemma locoSlot_addressToSlot [simp]: "locoSlot s (k\<lparr>m_addressToSlot := ats\<rparr>) = locoSlot s k"
  by (simp add: locoSlot_def)

lemma updateFunctions_frame:
  "m_addressToSlot (snd (updateFunctions a b s f k)) = m_addressToSlot k"
  "m_pendingSlotMessages (snd (updateFunctions a b s f k)) = m_pendingSlotMessages k"
  "m_config (snd (updateFunctions a b s f k)) = m_config k" "wire (snd (updateFunctions a b s f k)) = wire k"
  "m_decoderController (snd (updateFunctions a b s f k)) = m_decoderController k"
  "ls_address (locoSlot s (snd (updateFunctions a b s f k))) = ls_address (locoSlot s k)"
  "\<exists>ls. map_of (m_slots (snd (updateFunctions a b s f k))) s = Some ls"
  by (simp_all add: updateFunctions_def Let_def split_beta update_conv')

lemma demoSlot_facts:
  "m_addressToSlot demoSlot = [(3, 5)]" "\<exists>ls. map_of (m_slots demoSlot) 5 = Some ls" "ls_address (locoSlot 5 demoSlot) = 3"
  "m_decoderController demoSlot" "m_config demoSlot = demoConfig" "wire demoSlot = []"
proof -
  have d: "demoSlotData ! 2 = 5" "SlotReadData_isFree demoSlotData = False" "SlotReadData_address demoSlotData = 3"
    by (simp_all add: demoSlotData_bytes SlotReadData_isFree_def SlotReadData_isBusy_def SlotReadData_isActive_def
        SlotReadData_address_def testFlag_def)
  have k: "m_decoderController demoKernel" "m_slots demoKernel = []" "m_addressToSlot demoKernel = []"
    "m_pendingSlotMessages demoKernel = Map.empty" "m_config demoKernel = demoConfig" "isLocoSlot 5"
    by (simp_all add: demoKernel_def Kernel_init_def isLocoSlot_def)
  let ?k = "snd (assignSlotAddress 5 3 (snd (getLocoSlot 5 False demoKernel)))"
  have a: "m_addressToSlot ?k = [(3, 5)]" "ls_address (locoSlot 5 ?k) = 3" "m_config ?k = demoConfig" "wire ?k = []"
    "m_pendingSlotMessages ?k = Map.empty" "m_decoderController ?k"
    "\<not> fst (assignSlotAddress 5 3 (snd (getLocoSlot 5 False demoKernel)))"
    by (simp_all add: k demo_init(3) getLocoSlot_def assignSlotAddress_def Let_def LocoSlot_isAddressValid_def
        LocoSlot_invalid_def)
  have e: "demoSlot = replayPending 5 (ls_address (locoSlot 5 (snd (updateFunctions 0 8 5 (SlotReadData_f demoSlotData) ?k))))
      (snd (updateFunctions 0 8 5 (SlotReadData_f demoSlotData) ?k))"
    unfolding demoSlot_eq receive_SL_RD_DATA_def using a(7) by (simp add: d k Let_def split_beta)
  have e': "demoSlot = snd (updateFunctions 0 8 5 (SlotReadData_f demoSlotData) ?k)"
    unfolding e by (simp add: replayPending_def updateFunctions_frame a)
  show "m_addressToSlot demoSlot = [(3, 5)]" "\<exists>ls. map_of (m_slots demoSlot) 5 = Some ls"
    "ls_address (locoSlot 5 demoSlot) = 3" "m_decoderController demoSlot" "m_config demoSlot = demoConfig"
    "wire demoSlot = []"
    unfolding e' by (simp_all add: updateFunctions_frame a)
qed

lemma demoSlot_reachable: "reachable (Kernel_init demoConfig True LowPriority (\<lambda>_ _. True) (\<lambda>_. True)) demoSlot"
proof -
  have "busOrder demoSlotData demoKernel"
    by (simp add: busOrder_def demoKernel_def Kernel_init_def)
  then have "kernel_step demoKernel demoSlot"
    unfolding demoSlot_def using demoSlotData_valid by (intro step_receive)
  then show ?thesis using reachable_step [OF reachable_init] by (simp add: demoKernel_def)
qed

lemma demoSlot_known: "knownSlot 5 demoSlot"
proof -
  show ?thesis
    using demoSlot_facts by (auto simp: knownSlot_def isLocoSlot_def locoSlot_def LocoSlot_isAddressValid_def)
qed

theorem kernel_address_slot_witness:
  "isLocoSlot 5 \<and> ls_address (locoSlot 5 demoSlot) = 3 \<and> m_addressToSlot demoSlot = [(3, 5)]"
  using kernel_address_slot [OF _ demoSlot_reachable, of 3 5] demoSlot_facts(1) by (simp add: demoConfig_def)

section \<open>The send queue\<close>

text \<open>
  C9. The send queue is a first-in-first-out queue of whole messages with room for 2000 bytes:
  for every sequence of operations of a client that appends whole messages and pops only what is
  there, it accepts and refuses the same messages and shows the same front as the abstract queue.
\<close>

theorem sendQueue_refines_fifo:
  assumes "fifo_ok 2000 [] ops"
  shows "queue_run SendQueue_empty SendQueue_front SendQueue_append SendQueue_pop SendQueue_clear SendQueue_init ops
    = fifo_run 2000 [] ops"
  by (rule sq.run_refines [OF SendQueue_rep_init assms])

theorem sendQueue_refines_fifo_witness:
  "queue_run SendQueue_empty SendQueue_front SendQueue_append SendQueue_pop SendQueue_clear SendQueue_init
    [QAppend Idle, QAppend GlobalPowerOn, QPop, QClear] =
   [(True, Some Idle), (True, Some Idle), (True, Some GlobalPowerOn), (True, None)]"
  using sendQueue_refines_fifo [of "[QAppend Idle, QAppend GlobalPowerOn, QPop, QClear]"]
  by (simp add: Idle_def GlobalPowerOn_def framed_def msg_size_def)

text \<open>
  Appending to a send queue writes inside its buffer of 4000 bytes: the bytes written end
  before offset 4000 and no memory from there on changes.
\<close>

theorem sendQueue_in_bounds:
  assumes "SendQueue_rep q ms" and "framed m" and "SendQueue_append q m = (True, q')"
  shows "unat (m_front q + m_bytes q) + length m < SendQueue_bufferSize \<and>
    (SendQueue_bufferSize \<le> i \<longrightarrow> m_buffer q' i = m_buffer q i)"
  using SendQueue_append_in_bounds [OF assms] by auto

theorem sendQueue_in_bounds_witness:
  "unat (m_front SendQueue_init + m_bytes SendQueue_init) + length Idle < 4000"
proof -
  have "SendQueue_append SendQueue_init Idle = (True, snd (SendQueue_append SendQueue_init Idle))"
    by (simp add: SendQueue_append_def SendQueue_init_def Idle_def msg_size_def SendQueue_threshold_def)
  then show ?thesis using sendQueue_in_bounds [OF SendQueue_rep_init Idle_valid(1)] by simp
qed

section \<open>The send cycle\<close>

text \<open>
  C13. While an echo or a response is awaited, a message that is neither changes nothing on the
  wire and nothing about what is awaited, whatever its handler does.
\<close>

theorem kernel_one_in_flight:
  assumes "m_waitingForEcho k \<or> m_waitingForResponse k"
    and "\<not> (m_waitingForEcho k \<and> msgEq m (lastSentMessage k))"
    and "\<not> (m_waitingForResponse k \<and> isValidResponse (lastSentMessage k) m = Some True)"
  shows "wire (receive m k) = wire k \<and> m_waitingForEcho (receive m k) = m_waitingForEcho k \<and>
    m_waitingForResponse (receive m k) = m_waitingForResponse k"
proof -
  have "awaits (m_waitingForEcho k) (m_waitingForResponse k) (m_sentMessagePriority k) (wire k) k"
    using assms(1) by (simp add: awaits_def)
  from receive_in_flight [OF this assms(2,3)] show ?thesis by (simp add: awaits_def)
qed

theorem kernel_one_in_flight_witness:
  "wire (receive (RequestSlotData 7) demoOn) = [(GlobalPowerOn, True)]"
proof -
  have "\<not> msgEq (RequestSlotData 7) (lastSentMessage demoOn)"
    by (simp add: demoOn_state(4) msgEq_def RequestSlotData_def GlobalPowerOn_def msg_size_def)
  then show ?thesis
    using kernel_one_in_flight [of demoOn "RequestSlotData 7"] demoOn_state(2,3) by (simp add: awaits_def)
qed

text \<open>
  The echo of a message that expects no response takes that message, and only it, from the
  queues, and hands exactly the next message to the handler: the first of the highest priority
  that has one, or nothing.
\<close>

theorem kernel_echo_advances:
  assumes "holds k ms" and "m_waitingForEcho k" and "\<not> m_waitingForResponse k" and "msgEq m (lastSentMessage k)"
    and "ms' = ms(m_sentMessagePriority k := tl (ms (m_sentMessagePriority k)))"
  shows "holds (snd (receive_echo m k)) ms' \<and>
    wire (snd (receive_echo m k)) =
      wire k @ (case nextMessage ms' of None \<Rightarrow> [] | Some (q, n) \<Rightarrow> [(n, ioSend k (wire k) n)])"
  unfolding assms(5) using receive_echo_done [OF assms(1-4)] by blast

theorem kernel_echo_advances_witness:
  "holds (snd (receive_echo GlobalPowerOn demoOn)) (\<lambda>_. []) \<and>
   wire (snd (receive_echo GlobalPowerOn demoOn)) = [(GlobalPowerOn, True)]"
proof -
  have "m_waitingForEcho demoOn" "\<not> m_waitingForResponse demoOn" "m_sentMessagePriority demoOn = HighPriority"
    using demoOn_state(3) by (simp_all add: awaits_def)
  then show ?thesis
    using kernel_echo_advances [OF demoOn_state(1), of GlobalPowerOn] demoOn_state(2,4)
    by (simp add: msgEq_def fun_upd_def cong: if_cong)
qed

text \<open>
  A response takes the message it answers from the queues and hands exactly the next one to
  the handler.
\<close>

theorem kernel_response_advances:
  assumes "holds k ms" and "m_waitingForResponse k" and "\<not> m_waitingForEcho k"
    and "ms' = ms(m_sentMessagePriority k := tl (ms (m_sentMessagePriority k)))"
  shows "holds (receive_response True k) ms' \<and>
    wire (receive_response True k) =
      wire k @ (case nextMessage ms' of None \<Rightarrow> [] | Some (q, n) \<Rightarrow> [(n, ioSend k (wire k) n)])"
  unfolding assms(4) using receive_response_done [OF assms(1-3)] by blast

text \<open>The kernel after its request for a slot has come back as an echo.\<close>

definition demoEchoed :: Kernel where
  "demoEchoed = snd (receive_echo (LocoAdr 3) demoAdr)"

lemma demoEchoed_state:
  "holds demoEchoed ((\<lambda>_. [])(HighPriority := [LocoAdr 3]))" "m_waitingForResponse demoEchoed"
  "\<not> m_waitingForEcho demoEchoed" "m_sentMessagePriority demoEchoed = HighPriority"
  "wire demoEchoed = [(LocoAdr 3, True)]"
proof -
  have "m_waitingForEcho demoAdr" "m_waitingForResponse demoAdr" using demoAdr_state(3) by (simp_all add: awaits_def)
  then have e: "demoEchoed = demoAdr\<lparr>m_waitingForEcho := False, m_waitingForEchoTimer := False\<rparr>"
    using receive_echo_more [of demoAdr "LocoAdr 3"] demoAdr_state(4) by (simp add: demoEchoed_def msgEq_def)
  show "holds demoEchoed ((\<lambda>_. [])(HighPriority := [LocoAdr 3]))" "m_waitingForResponse demoEchoed"
    "\<not> m_waitingForEcho demoEchoed" "m_sentMessagePriority demoEchoed = HighPriority"
    "wire demoEchoed = [(LocoAdr 3, True)]"
    using demoAdr_state(1-3) by (simp_all add: e holds_def awaits_def)
qed

theorem kernel_response_advances_witness:
  "holds (receive_response True demoEchoed) (\<lambda>_. []) \<and> wire (receive_response True demoEchoed) = [(LocoAdr 3, True)]"
  using kernel_response_advances [OF demoEchoed_state(1-3)] demoEchoed_state(4,5)
  by (simp add: fun_upd_def cong: if_cong)

lemma silent_send: "silent w k \<Longrightarrow> send m p k = k"
  by (simp add: silent_def send_def)

lemma silent_fastClock: "silent w k \<Longrightarrow> setFastClockMaster b k = k"
  by (simp add: setFastClockMaster_def Let_def silent_send)

lemma silent_fold_send: "silent w k \<Longrightarrow> fold (\<lambda>x. send (g x) p) xs k = k"
  by (induction xs) (simp_all add: silent_send)

lemma silent_receive:
  assumes "silent w k"
  shows "silent w (receive m k)"
proof -
  let ?k = "receive_log m k"
  have "silent w ?k" using assms by simp
  moreover from this have "receive_echo m ?k = (False, ?k)" by (simp add: receive_echo_def silent_def)
  ultimately show ?thesis
    by (simp add: receive_def Let_def receive_response_def silent.P_dispatch)
qed

lemma silent_start_posted:
  assumes "silent w k"
  shows "silent w (start_posted b k)"
proof -
  have 1: "silent w (if pcap (m_config k) then startPCAP (pcapOutput (m_config k)) k else k)" (is "silent w ?k1")
    using assms by (simp add: startPCAP_def Let_def)
  have 2: "(if fastClockMode (m_config ?k1) = FastClock_Master then setFastClockMaster True ?k1 else ?k1) = ?k1"
    using silent_fastClock [OF 1, of True] by presburger
  have 3: "silent w (if fastClockSyncEnabled (m_config ?k1) then startFastClockSyncTimer ?k1 else ?k1)" (is "silent w ?k3")
    using 1 by (simp only: startFastClockSyncTimer_def silent.P_update split: if_split) blast
  show ?thesis
    using 1 3 unfolding start_posted_def Let_def 2 silent_fold_send [OF 3] by simp
qed

lemma silent_sendNextMessage: "silent w k \<Longrightarrow> sendNextMessage k = k"
  by (simp add: silent_def sendNextMessage_def)

lemma silent_runTask:
  assumes "silent w k" and "\<nexists>c. t = TSetConfig c"
  shows "silent w (runTask t k)"
proof (cases t)
  case (TStart b)
  then show ?thesis using silent_start_posted [OF assms(1)] by simp
next
  case (TSimulateInput n act)
  then show ?thesis
    using assms silent_receive by (cases act) (simp_all add: simulateInputChange_posted_def)
qed (use assms silent_send [OF assms(1)] silent.P_sendAddress [OF assms(1)] in
  \<open>simp_all add: stop_posted_def setPowerOn_on_def setPowerOn_off_def emergencyStop_def resume_def
    lncvStart_def lncvRead_def lncvWrite_def lncvStop_def setFastClockMaster_def Let_def silent.P_send\<close>)

lemma silent_timers:
  assumes "silent w k"
  shows "silent w (waitingForEchoTimerExpired ec k)" and "silent w (waitingForResponseTimerExpired ec k)"
    and "silent w (fastClockSyncTimerExpired ec k)"
proof -
  have e: "silent w (eventLoopCall ev k)" for ev using assms by simp
  show "silent w (waitingForEchoTimerExpired ec k)" "silent w (waitingForResponseTimerExpired ec k)"
    using e assms silent_sendNextMessage [OF e]
    by (simp_all add: waitingForEchoTimerExpired_def waitingForResponseTimerExpired_def Let_def)
  show "silent w (fastClockSyncTimerExpired ec k)"
    using assms silent_send [OF assms] by (simp add: fastClockSyncTimerExpired_def startFastClockSyncTimer_def)
qed

text \<open>
  C14. In listen-only mode with nothing queued and nothing in flight (\<open>silent\<close>), no received
  message, no timer and no posted closure other than a new configuration makes the kernel give
  anything to its IO handler, and it stays in that state.
\<close>

theorem kernel_listen_only:
  assumes "silent w k"
  shows "silent w (receive m k) \<and> silent w (waitingForEchoTimerExpired ec k) \<and>
    silent w (waitingForResponseTimerExpired ec k) \<and> silent w (fastClockSyncTimerExpired ec k) \<and>
    ((\<nexists>c. t = TSetConfig c) \<longrightarrow> silent w (runTask t k))"
  using silent_receive [OF assms] silent_timers [OF assms] silent_runTask [OF assms] by blast

definition demoListen :: Kernel where
  "demoListen = demoKernel\<lparr>m_config := demoConfig\<lparr>listenOnly := True\<rparr>\<rparr>"

theorem kernel_listen_only_witness:
  "wire (receive demoSlotData demoListen) = [] \<and> wire (runTask TPowerOn demoListen) = []"
proof -
  have "silent [] demoListen"
    by (simp add: silent_def demoListen_def demoKernel_def Kernel_init_def SendQueue_empty_def SendQueue_init_def)
  from kernel_listen_only [OF this, of demoSlotData False TPowerOn] show ?thesis by (simp add: silent_def)
qed

section \<open>Locomotives\<close>

text \<open>
  Messages to an address without a slot wait, one after the other in the order they were
  sent; the slot is asked for when the first of them comes, and not again for the others.
\<close>

theorem pending_collects:
  assumes "map_of (m_addressToSlot k) a = None" and "m_pendingSlotMessages k a = None" and "list_all framed (m # ms)"
  defines "k' \<equiv> fold (\<lambda>m. sendAddress a m (slotPos m)) (m # ms) k"
  shows "m_pendingSlotMessages k' a = Some (concat (m # ms)) \<and>
    wire k' = wire (send (LocoAdr a) HighPriority k) \<and>
    m_sendQueue k' = m_sendQueue (send (LocoAdr a) HighPriority k)"
proof -
  let ?upd = "\<lambda>k :: Kernel. k\<lparr>m_pendingSlotMessages := (m_pendingSlotMessages k)(a \<mapsto> m)\<rparr>"
  have comm: "wire (send (LocoAdr a) HighPriority (?upd k)) = wire (send (LocoAdr a) HighPriority k)"
    "m_sendQueue (send (LocoAdr a) HighPriority (?upd k)) = m_sendQueue (send (LocoAdr a) HighPriority k)"
    by (simp_all add: send_def sendNextMessage_def transmit_def eventLoopCall_def Let_def split: prod.split bool.split)
  have 1: "sendAddress a m (slotPos m) k = send (LocoAdr a) HighPriority (?upd k)"
    using sendAddress_unknown [OF assms(1)] assms(2,3) by simp
  have "fold (\<lambda>m. sendAddress a m (slotPos m)) ms (sendAddress a m (slotPos m) k) =
      (sendAddress a m (slotPos m) k)\<lparr>m_pendingSlotMessages :=
        (m_pendingSlotMessages (sendAddress a m (slotPos m) k))(a \<mapsto> m @ concat ms)\<rparr>"
    using assms(1,3) by (intro sendAddress_unknown_many) (simp_all add: 1)
  then show ?thesis using comm by (simp add: k'_def 1)
qed

theorem pending_collects_witness:
  "m_pendingSlotMessages (fold (\<lambda>m. sendAddress 3 m (slotPos m)) [LocoSpd 5, LocoSpd 6] demoKernel) 3 =
    Some (LocoSpd 5 @ LocoSpd 6) \<and>
   wire (fold (\<lambda>m. sendAddress 3 m (slotPos m)) [LocoSpd 5, LocoSpd 6] demoKernel) = [(LocoAdr 3, True)]"
proof -
  have "m_addressToSlot demoKernel = []" "m_pendingSlotMessages demoKernel = Map.empty"
    by (simp_all add: demoKernel_def Kernel_init_def)
  moreover have "framed (LocoSpd 5)" "framed (LocoSpd 6)"
    using slotMsg_loco(1) [of 5] slotMsg_loco(1) [of 6] by (simp_all add: slotMsg_def)
  ultimately show ?thesis
    using pending_collects [of demoKernel 3 "LocoSpd 5" "[LocoSpd 6]"] demoAdr_state(2) by (simp add: demoAdr_def)
qed

text \<open>
  When the slot of an address is known, the messages that waited for it are queued in the
  order in which they were sent, each with the slot filled in, and none waits any longer.
\<close>

theorem pending_replayed:
  assumes "holds k ms" and "m_waitingForEcho k \<or> m_waitingForResponse k" and "\<not> listenOnly (m_config k)"
    and "m_pendingSlotMessages k a = Some (concat ns)" and "list_all slotMsg ns" and "isLocoSlot s"
    and "length (concat (ms NormalPriority)) + length (concat ns) \<le> 2000"
  shows "holds (replayPending s a k) (ms(NormalPriority := ms NormalPriority @ map (slotted s) ns)) \<and>
    m_pendingSlotMessages (replayPending s a k) a = None"
  using replayPending_effect [OF assms] by blast

theorem pending_replayed_witness:
  "holds (replayPending 5 3 (demoAdr\<lparr>m_pendingSlotMessages := [3 \<mapsto> LocoSpd 5 @ LocoSpd 6]\<rparr>))
    ((\<lambda>_. [])(HighPriority := [LocoAdr 3], NormalPriority := [slotted 5 (LocoSpd 5), slotted 5 (LocoSpd 6)]))"
proof -
  let ?k = "demoAdr\<lparr>m_pendingSlotMessages := [3 \<mapsto> LocoSpd 5 @ LocoSpd 6]\<rparr>"
  have h: "holds ?k ((\<lambda>_. [])(HighPriority := [LocoAdr 3]))"
    using demoAdr_state(1) by (subst holds_cong(1) [of _ demoAdr]) simp_all
  have "m_waitingForEcho ?k" "\<not> listenOnly (m_config ?k)" using demoAdr_state(3,5) by (simp_all add: awaits_def)
  moreover have "slotMsg (LocoSpd 5)" "slotMsg (LocoSpd 6)" by (rule slotMsg_loco(1); simp)+
  moreover have "length (LocoSpd 5) = 4" "length (LocoSpd 6) = 4" by (simp_all add: LocoSpd_def)
  ultimately show ?thesis
    using pending_replayed [OF h, of 3 "[LocoSpd 5, LocoSpd 6]" 5] by (simp add: isLocoSlot_def)
qed

text \<open>
  A message to an address with a slot is queued at once with that slot in it and a fresh
  checksum, unless it repeats the speed the slot has (stop and emergency stop are always sent).
\<close>

theorem known_address_sent:
  assumes "map_of (m_addressToSlot k) a = Some s" and "slotMsg m"
    and "\<not> (opCode m = OPC_LOCO_SPD \<and> LocoSpd_speed m \<ge> SPEED_MIN)"
  shows "sendAddress a m (slotPos m) k = send (slotted s m) NormalPriority k"
  by (rule known_address_sends [OF assms])

theorem known_address_sent_witness:
  "sendAddress 3 (LocoSpd SPEED_STOP) 1 demoSlot = send (slotted 5 (LocoSpd SPEED_STOP)) NormalPriority demoSlot"
proof -
  have "slotMsg (LocoSpd SPEED_STOP)" by (rule slotMsg_loco(1)) simp
  moreover have "\<not> LocoSpd_speed (LocoSpd SPEED_STOP) \<ge> SPEED_MIN" by (simp add: LocoSpd_speed_def LocoSpd_def)
  ultimately show ?thesis
    using known_address_sent [of demoSlot 3 5 "LocoSpd SPEED_STOP"] demoSlot_facts(1)
    by (simp add: slotPos_loco)
qed

text \<open>
  C15. For the functions F0 .. F8, and for F9 .. F28 when they are sent as Uhlenbrock extended
  messages, the change of the function posts one message to the decoder's address, and a kernel
  that receives this message for a slot it knows holds the function's value in its slot table
  afterwards.  (F9 .. F28 sent as immediate DCC packets never reach the slot table.)
\<close>

theorem decoder_function_loopback:
  assumes "n \<le> 28" and "n \<le> 8 \<or> f9f28 (m_config k) = F9F28_UhlenbrockExtended" and "knownSlot s k'"
  shows "\<exists>m. decoderChanged_function d chFunctionValue n k = [TSendAddress (d_address d) m (slotPos m)] \<and>
    ls_functions (locoSlot s (receive_dispatch (slotted s m) r k')) n = toTriState (d_function d n)"
  using function_loopback [OF assms, of d r] by metis

theorem decoder_function_loopback_witness:
  "\<exists>m. decoderChanged_function
      \<lparr>d_dccLong = False, d_address = 3, d_emergencyStop = False, d_speedStep = 0, d_direction = DirForward,
       d_function = (\<lambda>n. n = 20)\<rparr> chFunctionValue 20 demoSlot = [TSendAddress 3 m (slotPos m)] \<and>
    ls_functions (locoSlot 5 (receive_dispatch (slotted 5 m) False demoSlot)) 20 = TriTrue"
  using decoder_function_loopback [OF _ _ demoSlot_known, of 20 demoSlot
      "\<lparr>d_dccLong = False, d_address = 3, d_emergencyStop = False, d_speedStep = 0, d_direction = DirForward,
       d_function = (\<lambda>n. n = 20)\<rparr>" False]
  by (simp add: demoSlot_facts(5) demoConfig_def)

text \<open>
  The closures that the decoder operation posts are fit to run: the messages are valid or
  become so with a slot, and the addresses fit a LocoNet address, whatever changed in the decoder.
\<close>

theorem decoderChanged_fit:
  assumes "unat (d_address d) < 16384" and "unat (d_speedStep d) \<le> 126"
  shows "list_all (\<lambda>t. taskOk t k') (decoderChanged d changes n k)"
  using taskOk_decoderChanged [OF assms] by (auto simp: list_all_iff)

theorem decoderChanged_fit_witness:
  "list_all (\<lambda>t. taskOk t demoKernel) (decoderChanged
    \<lparr>d_dccLong = False, d_address = 3, d_emergencyStop = False, d_speedStep = 126, d_direction = DirForward,
     d_function = (\<lambda>_. True)\<rparr> chThrottle 0 demoKernel)"
  by (rule decoderChanged_fit) simp_all

text \<open>
  C17. From the moment an emergency stop has been received, or before its state is known, until
  it is resumed, a decoder's speed is only sent as stop or emergency stop.
\<close>

theorem emergency_stop_blocks_speeds:
  assumes "m_emergencyStop k \<noteq> TriFalse"
  shows "list_all (\<lambda>t. \<exists>a m i. t = TSendAddress a m i \<and> LocoSpd_speed m \<in> {SPEED_STOP, SPEED_ESTOP})
    (decoderChanged_speed d k)"
  using assms by (auto simp: decoderChanged_speed_def LocoSpd_speed_def LocoSpd_def)

theorem emergency_stop_blocks_speeds_witness:
  "list_all (\<lambda>t. \<exists>a m i. t = TSendAddress a m i \<and> LocoSpd_speed m \<in> {SPEED_STOP, SPEED_ESTOP})
    (decoderChanged_speed \<lparr>d_dccLong = False, d_address = 3, d_emergencyStop = True, d_speedStep = 100,
      d_direction = DirForward, d_function = (\<lambda>_. True)\<rparr> demoKernel)"
  by (rule emergency_stop_blocks_speeds) (simp add: demoKernel_def Kernel_init_def)

section \<open>Inputs and outputs\<close>

text \<open>
  A report of an input stores its value under its address and tells the input controller
  exactly when the value differs from the one known before.
\<close>

theorem input_report:
  assumes "unat a < 4096" and "m_inputController k"
  shows "m_inputValues (receive_dispatch (InputRep a v) r k) = (m_inputValues k)(unat a := toTriState v) \<and>
    events (receive_dispatch (InputRep a v) r k) = events k @
      (if m_inputValues k (unat a) = toTriState v then []
       else (if debugLogInput (m_config k) then [EvLogInput (1 + unat a) v] else []) @
         [EvInput (1 + unat a) (toTriState v)])"
  unfolding dispatch_InputRep using receive_INPUT_REP_effect [OF assms, of v] by blast

theorem input_report_witness:
  "events (receive_dispatch (InputRep 16 True) False demoKernel) = [EvInput 17 TriTrue] \<and>
   m_inputValues (receive_dispatch (InputRep 16 True) False demoKernel) 16 = TriTrue"
  using input_report [of 16 demoKernel True False] by (simp add: demoKernel_def Kernel_init_def demoConfig_def)

text \<open>
  An accepted request to set an accessory output posts a message that, when it is received,
  sets exactly that output to exactly that value, and tells the output controller if it changed;
  addresses outside 1 .. 2048 are refused.
\<close>

theorem output_loopback:
  assumes "p \<noteq> OutUndefined" and "m_outputController k"
  shows "setOutput Ch_Accessory a (OV_Pair p) =
      (if 1 \<le> unat a \<and> unat a \<le> 2048
       then Some (True, [TSend (SwitchRequest a (p = OutSecond) True) NormalPriority]) else Some (False, [])) \<and>
    (1 \<le> unat a \<and> unat a \<le> 2048 \<longrightarrow>
      m_outputValues (receive_dispatch (SwitchRequest a (p = OutSecond) True) r k) =
        (m_outputValues k)(unat a - 1 := p) \<and>
      events (receive_dispatch (SwitchRequest a (p = OutSecond) True) r k) = events k @
        (if m_outputValues k (unat a - 1) = p then [] else [EvOutput a p]))"
proof -
  have "(1 \<le> a \<and> a \<le> 2048) = (1 \<le> unat a \<and> unat a \<le> 2048)" by (simp add: word_le_nat_alt)
  moreover have "(if p = OutSecond then OutSecond else OutFirst) = p" using assms(1) by (cases p) simp_all
  ultimately show ?thesis
    unfolding dispatch_SwitchRequest
    using receive_SW_REQ_effect(1,2) [of a k "p = OutSecond"] assms(2) by (simp add: setOutput_def)
qed

theorem output_loopback_witness:
  "setOutput Ch_Accessory 2048 (OV_Pair OutSecond) = Some (True, [TSend (SwitchRequest 2048 True True) NormalPriority]) \<and>
   events (receive_dispatch (SwitchRequest 2048 True True) False demoKernel) = [EvOutput 2048 OutSecond]"
  using output_loopback [of OutSecond demoKernel 2048 False] by (simp add: demoKernel_def Kernel_init_def)

text \<open>
  Whatever the bytes of a message, the indices under which its handler stores an input or
  output value lie inside the kernel's arrays of 4096 and 2048 elements.
\<close>

theorem array_indices_in_bounds:
  "unat (InputRep_fullAddress m) < 4096 \<and> 1 \<le> unat (SwitchRequest_address m) \<and>
   unat (SwitchRequest_address m) - 1 < 2048"
  using InputRep_index_bound SwitchRequest_index_bound by blast

section \<open>LNCV programming\<close>

text \<open>
  An LNCV read is answered by exactly the response for the same module and the same
  variable; an LNCV start by the response of the module for variable 0.
\<close>

theorem lncv_response_matching:
  "isValidResponse (LNCVRead i a n) (LNCVReadResponse j x v) = Some (i = j \<and> n = x) \<and>
   isValidResponse (LNCVStart i a) (LNCVReadResponse j x v) = Some (i = j \<and> x = 0)"
proof -
  have op: "opCode (LNCVReadResponse j x v) = OPC_PEER_XFER" "opCode (LNCVRead i a n) = OPC_IMM_PACKET"
    "opCode (LNCVStart i a) = OPC_IMM_PACKET"
    using LNCVReadResponse_check_own [of j x v] LNCVRead_check_own [of i a n] LNCVStart_check_own [of i a]
    by (simp_all add: LNCVReadResponse_check_def PeerXferDataMessage_check_def LNCVRead_check_def LNCVStart_check_def
        ImmPacketDataMessage_check_def)
  have len: "length (LNCVRead i a n) = 15" "length (LNCVStart i a) = 15"
    by (simp_all add: uhl_ctors uhl_setters Let_def length_magic)
  have no: "\<not> LNCVStart_check (LNCVRead i a n)" "\<not> ReadSpecialOption_check (LNCVRead i a n)"
    "\<not> ReadSpecialOption_check (LNCVStart i a)"
    using LNCV_check_exclusive(1) [OF len(1)] LNCV_check_exclusive(2) [OF len(1)] LNCV_check_exclusive(1) [OF len(2)]
      LNCVRead_check_own LNCVStart_check_own by blast+
  have "isValidResponse (LNCVRead i a n) (LNCVReadResponse j x v) = Some (i = j \<and> n = x)"
    by (simp add: isValidResponse_def op no LNCVReadResponse_check_own LNCVRead_check_own LNCVRead_reads
        LNCVReadResponse_reads)
  moreover have "isValidResponse (LNCVStart i a) (LNCVReadResponse j x v) = Some (i = j \<and> x = 0)"
    by (simp add: isValidResponse_def op no LNCVReadResponse_check_own LNCVStart_check_own LNCVStart_reads
        LNCVReadResponse_reads)
  ultimately show ?thesis by blast
qed

section \<open>Where the kernel fails\<close>

text \<open>
  C18. A lost echo of a message without response stops the kernel's sending for good: after any
  sequence of posted closures (simulated inputs excepted, which are received and may be taken for
  the echo) and of expiries of the echo timer, the kernel still waits for that echo and has given
  nothing more to its IO handler.
\<close>

theorem lost_echo_stalls:
  assumes "m_waitingForEcho k" and "\<not> m_waitingForResponse k" and "\<nexists>n a. Inl (TSimulateInput n a) \<in> set es"
  defines "k' \<equiv> fold (case_sum runTask waitingForEchoTimerExpired) es k"
  shows "m_waitingForEcho k' \<and> \<not> m_waitingForResponse k' \<and> wire k' = wire k"
proof -
  have "awaits True False (m_sentMessagePriority k) (wire k) k" using assms(1,2) by (simp add: awaits_def)
  from awaits_stalled [OF this assms(3)] show ?thesis by (simp add: awaits_def k'_def)
qed

theorem lost_echo_stalls_witness:
  "wire (fold (case_sum runTask waitingForEchoTimerExpired)
      [Inr False, Inl TEmergencyStop, Inl (TSendAddress 3 (LocoSpd 5) 1), Inr False, Inl TPowerOff] demoOn) =
    [(GlobalPowerOn, True)]"
proof -
  have "m_waitingForEcho demoOn" "\<not> m_waitingForResponse demoOn"
    using demoOn_state(3) by (simp_all add: awaits_def)
  from lost_echo_stalls [OF this, of "[Inr False, Inl TEmergencyStop, Inl (TSendAddress 3 (LocoSpd 5) 1), Inr False, Inl TPowerOff]"]
  show ?thesis using demoOn_state(2) by simp
qed

text \<open>
  A response that comes before the echo releases its message but leaves the kernel waiting
  for the echo.  When nothing else was queued it then waits with empty queues, and whatever is
  sent afterwards stays in its queue.
\<close>

theorem response_before_echo_stalls:
  assumes "holds k ((\<lambda>_. [])(m_sentMessagePriority k := [m]))" and "m_waitingForResponse k" and "m_waitingForEcho k"
  defines "k' \<equiv> receive_response True k"
  shows "m_waitingForEcho k' \<and> \<not> m_waitingForResponse k' \<and> (\<forall>q. SendQueue_empty (m_sendQueue k' q)) \<and>
    (\<forall>n q. wire (send n q k') = wire k)"
proof -
  note r = response_before_echo [OF assms(1-3) refl]
  have "awaits True False (m_sentMessagePriority k) (wire k) (send n q k')" for n q
    unfolding k'_def by (rule awaits_send [OF r(1)])
  then show ?thesis using r by (simp add: k'_def awaits_def)
qed

theorem response_before_echo_stalls_witness:
  "m_waitingForEcho (receive_response True demoAdr) \<and> wire (send Idle HighPriority (receive_response True demoAdr)) = [(LocoAdr 3, True)]"
proof -
  have "m_waitingForEcho demoAdr" "m_waitingForResponse demoAdr" "m_sentMessagePriority demoAdr = HighPriority"
    using demoAdr_state(3) by (simp_all add: awaits_def)
  then show ?thesis
    using response_before_echo_stalls [of demoAdr "LocoAdr 3"] demoAdr_state(1,2) by simp
qed

text \<open>
  Switching to listen-only mode empties the queues even while an echo is awaited.  The echo
  then pops from an empty queue: its byte counter wraps around below zero, and the kernel gives
  one more sequence of bytes to its handler.
\<close>

theorem listen_only_underflow:
  assumes "holds k ms" and "m_waitingForEcho k" and "\<not> m_waitingForResponse k" and "msgEq m (lastSentMessage k)"
  shows "length (wire (snd (receive_echo m (clearQueues k)))) = Suc (length (wire k)) \<and>
    m_bytes (m_sendQueue (snd (receive_echo m (clearQueues k))) (m_sentMessagePriority k))
      = - of_nat (msg_size (lastSentMessage k))"
  using cleared_queue_echo [OF assms] by auto

theorem listen_only_underflow_witness:
  "length (wire (snd (receive_echo GlobalPowerOn (clearQueues demoOn)))) = 2 \<and>
   m_bytes (m_sendQueue (snd (receive_echo GlobalPowerOn (clearQueues demoOn))) HighPriority) = - 2"
proof -
  have "m_waitingForEcho demoOn" "\<not> m_waitingForResponse demoOn" "m_sentMessagePriority demoOn = HighPriority"
    using demoOn_state(3) by (simp_all add: awaits_def)
  moreover have "msg_size GlobalPowerOn = 2" by (simp add: GlobalPowerOn_def msg_size_def)
  ultimately show ?thesis
    using listen_only_underflow [OF demoOn_state(1), of GlobalPowerOn] demoOn_state(2,4) by (simp add: msgEq_def)
qed

text \<open>
  When an LNCV module does not answer, the expired timer reports it and then sends the
  same LNCV start again, and every later expiry does so once more: the message never leaves its
  queue.
\<close>

theorem lncv_start_repeats:
  assumes "holds k ms" and "m_lncvActive k" and "m_waitingForResponse k" and "m_sentMessagePriority k = HighPriority"
    and "LNCVStart_check (lastSentMessage k)"
  shows "wire (waitingForResponseTimerExpired False k) =
      wire k @ [(lastSentMessage k, ioSend k (wire k) (lastSentMessage k))] \<and>
    holds (waitingForResponseTimerExpired False k) ms"
  using lncvStart_repeated [OF assms] by blast

theorem lncv_start_repeats_witness:
  "wire (waitingForResponseTimerExpired False (runTask (TLNCVStart 7 1) demoKernel)) =
    [(LNCVStart 7 1, True), (LNCVStart 7 1, True)]"
proof -
  let ?k0 = "demoKernel\<lparr>m_lncvActive := True, m_lncvModuleId := 7, m_lncvModuleAddress := 1\<rparr>"
  have e: "runTask (TLNCVStart 7 1) demoKernel = send (LNCVStart 7 1) HighPriority ?k0"
    by (simp add: lncvStart_def demoKernel_def Kernel_init_def)
  have h: "holds ?k0 (\<lambda>_. [])" using demo_init(1) by (subst holds_cong(1) [of _ demoKernel]) simp_all
  have l: "\<not> listenOnly (m_config ?k0)" "wire ?k0 = []" "ioSend ?k0 w m" for w m
    by (simp_all add: demo_init)
  note s = send_idle [OF h validMsg_LNCV(1) l(1), of 7 1 HighPriority]
    send_idle_awaits [OF h validMsg_LNCV(1) l(1), of 7 1 HighPriority]
  have "ioSend (runTask (TLNCVStart 7 1) demoKernel) w m" for w m
    unfolding e by (simp add: demo_init)
  then show ?thesis
    using lncv_start_repeats [OF s(1)] s(2-4) LNCVStart_check_own [of 7 1]
    unfolding e by (simp add: l awaits_def hasResponse_LNCV)
qed

text \<open>
  Slot data that gives a slot another address than the one it had leaves the new address
  without a slot: messages to it ask for a slot again, and the decoder of the new address is
  reported the speed 255 and no direction.
\<close>

theorem readdressed_slot_unmapped:
  assumes "kernelInv k" and "map_of (m_slots k) s = Some ls" and "LocoSlot_isAddressValid ls"
    and "ls_address ls \<noteq> a" and "map_of (m_addressToSlot k) a = None"
  shows "map_of (m_addressToSlot (snd (assignSlotAddress s a k))) a = None \<and>
    ls_address (locoSlot s (snd (assignSlotAddress s a k))) = a \<and>
    ls_speed (locoSlot s (snd (assignSlotAddress s a k))) = 0xFF \<and>
    ls_direction (locoSlot s (snd (assignSlotAddress s a k))) = DirUnknown"
  using readdressed_slot [OF assms] by blast

theorem readdressed_slot_unmapped_witness:
  "map_of (m_addressToSlot (snd (assignSlotAddress 5 4 demoSlot))) 4 = None \<and>
   ls_address (locoSlot 5 (snd (assignSlotAddress 5 4 demoSlot))) = 4"
proof -
  obtain ls where ls: "map_of (m_slots demoSlot) 5 = Some ls" using demoSlot_facts(2) by blast
  moreover have "ls_address ls = 3" using demoSlot_facts(3) ls by (simp add: locoSlot_def)
  moreover have "kernelInv demoSlot"
    using kernelInv_reachable [OF demoSlot_reachable kernelInv_init] by (simp add: demoConfig_def)
  ultimately show ?thesis
    using readdressed_slot_unmapped [of demoSlot 5 ls 4] demoSlot_facts(1) by (simp add: LocoSlot_isAddressValid_def)
qed

text \<open>
  No valid sensor report carries the byte that the code takes for the mark of a short
  transponder address, so every transponder address is read as a long one.
\<close>

theorem transponder_never_short:
  assumes "framed m" and "isValid m" and "5 < length m"
  shows "MultiSense_transponderAddress m = push_bit 7 (ucast (m ! 3 AND 0x7F)) OR ucast (m ! 4 AND 0x7F) \<and>
    MultiSenseLong_transponderAddress m = push_bit 7 (ucast (m ! 4 AND 0x7F)) OR ucast (m ! 5 AND 0x7F)"
  using MultiSense_never_short [OF assms]
  by (simp add: MultiSense_transponderAddress_def MultiSenseLong_transponderAddress_def)

theorem transponder_never_short_witness:
  "MultiSense_transponderAddress [OPC_MULTI_SENSE, 0x20, 0x00, 0x7D, 0x03, 0x71] = 16003"
proof -
  let ?m = "[OPC_MULTI_SENSE, 0x20, 0x00, 0x7D, 0x03, 0x71] :: bytes"
  have "framed ?m" "isValid ?m" "5 < length ?m"
    by (simp_all add: framed_def msg_size_def isValid_def isChecksumValid_def calcChecksum_def upt_rec)
  from transponder_never_short [OF this] show ?thesis by simp
qed

end
