(* ===== verification/LocoNet_Codec_Properties.thy ===== *)
theory LocoNet_Codec_Properties
  imports LocoNet_Response
begin

text \<open>
  The properties of the LocoNet message formats: what the checksum catches, that constructed
  and retargeted messages are valid, that addresses, values and functions read back, that the
  hand-laid function packets are DCC packets, and which message answers which.
\<close>

section \<open>Checksum and validity\<close>

text \<open>
  The checksum catches every change of a single byte that leaves the message's length as it
  is.
\<close>

theorem checksum_catches_byte:
  assumes "framed m" and "isChecksumValid m" and "i < length m" and "b \<noteq> m ! i" and "framed (m[i := b])"
  shows "\<not> isChecksumValid (m[i := b])"
  using assms xorAll_update [OF assms(3), of "0xFF" b]
  by (simp add: isChecksumValid_iff_xorAll xor_eq_0_iff)

theorem checksum_catches_byte_witness: "\<not> isChecksumValid [OPC_LOCO_SPD, 3, 0x40, 0x1D]"
proof -
  have "framed [OPC_LOCO_SPD, 3, 0x41, 0x1D]" "framed ([OPC_LOCO_SPD, 3, 0x41, 0x1D][2 := 0x40])"
    "isChecksumValid [OPC_LOCO_SPD, 3, 0x41, 0x1D]"
    by (simp_all add: framed_def msg_size_def isChecksumValid_def calcChecksum_def)
  from checksum_catches_byte [OF this(1,3) _ _ this(2)] show ?thesis by simp
qed

lemma low7_tl_iff: "low7 (tl m) \<longleftrightarrow> (\<forall>i < length m. 0 < i \<longrightarrow> \<not> bit (m ! i) 7)"
  unfolding low7_nth
proof safe
  fix i
  assume "\<forall>i<length (tl m). \<not> bit (tl m ! i) 7" "i < length m" "0 < i" "bit (m ! i) 7"
  then show False by (cases i) (auto simp: nth_tl)
next
  fix i
  assume "\<forall>i<length m. 0 < i \<longrightarrow> \<not> bit (m ! i) 7" "i < length (tl m)" "bit (tl m ! i) 7"
  then show False by (auto simp: nth_tl)
qed

text \<open>
  C19. A span of bytes that is one message is valid exactly when the exclusive or of all its bytes
  is 0xFF and every byte but the opcode is below 128; its opcode is then at least 128.
\<close>

theorem isValid_characterised:
  assumes "framed m"
  shows "(isValid m \<longleftrightarrow> xorAll 0 m = 0xFF \<and> (\<forall>i < length m. 0 < i \<longrightarrow> unat (m ! i) < 128)) \<and>
    (isValid m \<longrightarrow> 128 \<le> unat (opCode m))"
proof -
  have x: "xorAll 0xFF m = xorAll 0 m XOR 0xFF" using xorAll_start [of 0 "0xFF" m] by simp
  then have "xorAll 0xFF m = 0 \<longleftrightarrow> xorAll 0 m = 0xFF" by (simp add: xor_eq_0_iff)
  moreover have "low7 (tl m) \<longleftrightarrow> (\<forall>i < length m. 0 < i \<longrightarrow> unat (m ! i) < 128)"
    unfolding low7_tl_iff u8_below_128 ..
  moreover have "isValid m \<Longrightarrow> 128 \<le> unat (opCode m)"
    using isValid_framed_opCode [OF assms] u8_below_128 [of "opCode m"] by linarith
  ultimately show ?thesis using isValid_iff [OF assms] by blast
qed

theorem isValid_characterised_witness: "isValid GlobalPowerOn \<and> xorAll 0 GlobalPowerOn = 0xFF"
  using isValid_characterised [OF GlobalPowerOn_valid(1)] by simp

text \<open>
  Giving a message that carries a slot another slot below 128, and renewing its checksum,
  makes a valid message of the same opcode and length with that slot, and no other byte between
  opcode and checksum is touched.
\<close>

theorem setSlot_retargets:
  assumes "setSlot m s = Some m'" and "framed m" and "low7 (butlast (tl m))"
  shows "framed (updateChecksum m') \<and> isValid (updateChecksum m') \<and> opCode m' = opCode m \<and> slotOf m' = s \<and>
    length m' = length m \<and> (i \<noteq> 1 \<and> i \<noteq> 2 \<longrightarrow> m' ! i = m ! i)"
  using setSlot_valid [OF assms] setSlot_frame [OF assms(1,2)] by auto

theorem setSlot_retargets_witness:
  "isValid (updateChecksum [OPC_LOCO_SPD, 9, 0x41, 0x1D])"
proof -
  have "setSlot [OPC_LOCO_SPD, 3, 0x41, 0x1D] 9 = Some [OPC_LOCO_SPD, 9, 0x41, 0x1D]" by (simp add: setSlot_def)
  moreover have "framed [OPC_LOCO_SPD, 3, 0x41, 0x1D]" by (simp add: framed_def msg_size_def)
  ultimately show ?thesis using setSlot_retargets [of "[OPC_LOCO_SPD, 3, 0x41, 0x1D]" 9] by simp
qed

section \<open>Addresses and values\<close>

text \<open>
  Addresses of 14 bits survive the slot request, the slot data and the long-address function
  packets; the numbers of outputs (1 .. 2048) and inputs (12 bits) survive their messages together
  with their values.
\<close>

theorem addresses_roundtrip:
  assumes "unat a < 16384" and "9 < length m" and "1 \<le> unat b" and "unat b \<le> 2048" and "unat c < 4096"
  shows "LocoAdr_address (LocoAdr a) = a \<and> SlotReadData_address (SlotReadData_setAddress a m) = a \<and>
    LocoF9F12IMMLongAddress_address (LocoF9F12IMMLongAddress a f9 f10 f11 f12) = a \<and>
    SwitchRequest_address (SwitchRequest b d on) = b \<and> SwitchRequest_dir (SwitchRequest b d on) = d \<and>
    SwitchRequest_on (SwitchRequest b d on) = on \<and>
    InputRep_fullAddress (InputRep c v) = c \<and> InputRep_value (InputRep c v) = v"
  using LocoAdr_roundtrip [OF assms(1)] SlotReadData_address_roundtrip [OF assms(1,2)] imm_long_address(1) [OF assms(1)]
    SwitchRequest_roundtrip [OF assms(3,4)] InputRep_roundtrip [OF assms(5)] by blast

theorem addresses_roundtrip_witness:
  "LocoAdr_address (LocoAdr 10239) = 10239 \<and> SwitchRequest_address (SwitchRequest 2048 True True) = 2048 \<and>
   InputRep_fullAddress (InputRep 4095 True) = 4095"
  using addresses_roundtrip [of 10239 "replicate 14 0" 2048 4095] by simp

text \<open>
  In the message for direction and F0 .. F4 a setter changes what it sets and nothing else,
  and the constructor is read back.
\<close>

theorem locoDirF_fields:
  assumes "n \<le> 4" and "k \<le> 4" and "2 < length m" and "d \<noteq> DirUnknown"
  shows "LocoDirF_f (LocoDirF_setFN n v m) k = (if k = n then v else LocoDirF_f m k) \<and>
    LocoDirF_direction (LocoDirF_setFN n v m) = LocoDirF_direction m \<and>
    LocoDirF_direction (LocoDirF_setDirection d m) = d \<and>
    LocoDirF_f (LocoDirF_setDirection d m) k = LocoDirF_f m k \<and>
    LocoDirF_f (LocoDirF d (f 0) (f 1) (f 2) (f 3) (f 4)) n = f n"
  using LocoDirF_setFN [OF assms(1-3)] LocoDirF_setDirection(1,2) [OF assms(3,4,2)]
    LocoDirF_setDirection(3) [OF assms(3,4,1)] LocoDirF_reads [OF assms(1)] by blast

theorem locoDirF_fields_witness:
  "LocoDirF_f (LocoDirF_setFN 0 True [OPC_LOCO_DIRF, 1, 0x20, 0]) 0 \<and>
   LocoDirF_direction (LocoDirF_setFN 0 True [OPC_LOCO_DIRF, 1, 0x20, 0]) = DirForward"
  using locoDirF_fields [of 0 0 "[OPC_LOCO_DIRF, 1, 0x20, 0]" DirForward True]
  by (simp add: LocoDirF_direction_def testFlag_def)

section \<open>Function packets\<close>

text \<open>
  The six hand-laid packets for F9 .. F28 are what the generic encoder of DCC packets makes of
  the DCC function instruction for the decoder's short or long address, sent with repeat count 4.
\<close>

theorem imm_is_dcc:
  "LocoF9F12IMMShortAddress s f9 f10 f11 f12 =
    ImmPacket (dccShort s @ [setFlags 0xA0 [(0x01, f9), (0x02, f10), (0x04, f11), (0x08, f12)]]) 4 \<and>
   LocoF9F12IMMLongAddress a f9 f10 f11 f12 =
    ImmPacket (dccLong a @ [setFlags 0xA0 [(0x01, f9), (0x02, f10), (0x04, f11), (0x08, f12)]]) 4 \<and>
   LocoF13F20IMMShortAddress s f13 f14 f15 f16 f17 f18 f19 f20 =
    ImmPacket (dccShort s @ [0xDE, setFlags 0 [(0x01, f13), (0x02, f14), (0x04, f15), (0x08, f16),
      (0x10, f17), (0x20, f18), (0x40, f19), (0x80, f20)]]) 4 \<and>
   LocoF13F20IMMLongAddress a f13 f14 f15 f16 f17 f18 f19 f20 =
    ImmPacket (dccLong a @ [0xDE, setFlags 0 [(0x01, f13), (0x02, f14), (0x04, f15), (0x08, f16),
      (0x10, f17), (0x20, f18), (0x40, f19), (0x80, f20)]]) 4 \<and>
   LocoF21F28IMMShortAddress s f21 f22 f23 f24 f25 f26 f27 f28 =
    ImmPacket (dccShort s @ [0xDF, setFlags 0 [(0x01, f21), (0x02, f22), (0x04, f23), (0x08, f24),
      (0x10, f25), (0x20, f26), (0x40, f27), (0x80, f28)]]) 4 \<and>
   LocoF21F28IMMLongAddress a f21 f22 f23 f24 f25 f26 f27 f28 =
    ImmPacket (dccLong a @ [0xDF, setFlags 0 [(0x01, f21), (0x02, f22), (0x04, f23), (0x08, f24),
      (0x10, f25), (0x20, f26), (0x40, f27), (0x80, f28)]]) 4"
  using LocoF9F12IMMShortAddress_is_ImmPacket LocoF9F12IMMLongAddress_is_ImmPacket
    LocoF13F20IMMShortAddress_is_ImmPacket LocoF13F20IMMLongAddress_is_ImmPacket
    LocoF21F28IMMShortAddress_is_ImmPacket LocoF21F28IMMLongAddress_is_ImmPacket by simp

text \<open>
  No message matches the signatures of two of the six function packets, so the order in which
  the kernel tries them does not matter.
\<close>

theorem imm_signatures_exclusive:
  assumes "framed m" and "i < 6" and "j < 6" and "isSignatureMatch (immSignatures ! i) m"
    and "isSignatureMatch (immSignatures ! j) m"
  shows "i = j"
  using imm_signatures_exclusive_nth assms by blast

theorem imm_signatures_exclusive_witness:
  "\<not> isSignatureMatch (immSignatures ! 1) (LocoF9F12IMMShortAddress 3 True False False False)"
  using imm_signatures_exclusive [of "LocoF9F12IMMShortAddress 3 True False False False" 0 1]
    LocoF9F12IMMShortAddress_valid imm_signature_match(1) by (auto simp: immSignatures_def)

section \<open>Fast clock and LNCV fields\<close>

text \<open>
  The hour, the minute and the identifier written into a fast clock slot are read back, although
  the first two are stored as the distance to the next day and the next hour.
\<close>

theorem fast_clock_roundtrip:
  assumes "unat h < 24" and "unat n < 60" and "unat i \<le> 0x3FFF" and "length m = 14"
  shows "FastClock_hour (FastClock_setId i (FastClock_setMinute n (FastClock_setHour h m))) = h \<and>
    FastClock_minute (FastClock_setId i (FastClock_setMinute n (FastClock_setHour h m))) = n \<and>
    FastClock_id (FastClock_setId i (FastClock_setMinute n (FastClock_setHour h m))) = i"
proof (intro conjI)
  show "FastClock_hour (FastClock_setId i (FastClock_setMinute n (FastClock_setHour h m))) = h"
    using FastClock_hour_roundtrip [OF assms(1), of m] assms(4)
    by (simp add: FastClock_hour_def FastClock_setHour_def FastClock_setMinute_def FastClock_setId_def)
  show "FastClock_minute (FastClock_setId i (FastClock_setMinute n (FastClock_setHour h m))) = n"
    using FastClock_minute_roundtrip [OF assms(2), of "FastClock_setHour h m"] assms(4)
    by (simp add: FastClock_minute_def FastClock_setHour_def FastClock_setMinute_def FastClock_setId_def)
  show "FastClock_id (FastClock_setId i (FastClock_setMinute n (FastClock_setHour h m))) = i"
    by (rule FastClock_id_roundtrip [OF assms(3)])
      (simp add: assms(4) FastClock_setHour_def FastClock_setMinute_def)
qed

theorem fast_clock_roundtrip_witness:
  "FastClock_hour (FastClock_setId 0x3FF3 (FastClock_setMinute 59 (FastClock_setHour 23 (replicate 14 0)))) = 23"
  using fast_clock_roundtrip [of 23 59 "0x3FF3" "replicate 14 0"] by simp

text \<open>
  Every field given to a constructor of the Uhlenbrock LNCV messages is read back, each is a valid
  message, and it passes its own check.
\<close>

theorem lncv_roundtrip:
  "LNCVStart_moduleId (LNCVStart i a) = i \<and> LNCVStart_address (LNCVStart i a) = a \<and>
   LNCVRead_moduleId (LNCVRead i a n) = i \<and> LNCVRead_address (LNCVRead i a n) = a \<and>
   LNCVRead_lncv (LNCVRead i a n) = n \<and>
   LNCVWrite_moduleId (LNCVWrite i n v) = i \<and> LNCVWrite_lncv (LNCVWrite i n v) = n \<and>
   LNCVWrite_value (LNCVWrite i n v) = v \<and>
   LNCVReadResponse_moduleId (LNCVReadResponse i n v) = i \<and>
   LNCVReadResponse_lncv (LNCVReadResponse i n v) = n \<and> LNCVReadResponse_value (LNCVReadResponse i n v) = v \<and>
   LNCVStop_moduleId (LNCVStop i a) = i \<and> LNCVStop_address (LNCVStop i a) = a \<and>
   isValid (LNCVStart i a) \<and> isValid (LNCVRead i a n) \<and> isValid (LNCVWrite i n v) \<and>
   isValid (LNCVReadResponse i n v) \<and> isValid (LNCVStop i a) \<and>
   LNCVStart_check (LNCVStart i a) \<and> LNCVRead_check (LNCVRead i a n) \<and> LNCVWrite_check (LNCVWrite i n v) \<and>
   LNCVReadResponse_check (LNCVReadResponse i n v)"
  using LNCV_valid [of i a] LNCV_valid [of i] LNCVStart_reads LNCVRead_reads LNCVWrite_reads LNCVReadResponse_reads LNCVStop_reads
    LNCVStart_check_own LNCVRead_check_own LNCVWrite_check_own LNCVReadResponse_check_own by simp

text \<open>A data message passes at most one of the checks by which the kernel tells LNCV messages apart.\<close>

theorem lncv_checks_exclusive:
  assumes "length m = 15"
  shows "length [c \<leftarrow> [LNCVStart_check, LNCVRead_check, LNCVWrite_check, LNCVStop_check, ReadSpecialOption_check]. c m] \<le> 1"
  using LNCV_check_exclusive [OF assms] by auto

theorem lncv_checks_exclusive_witness:
  "length [c \<leftarrow> [LNCVStart_check, LNCVRead_check, LNCVWrite_check, LNCVStop_check, ReadSpecialOption_check].
    c (LNCVStart 5 1)] \<le> 1"
  by (rule lncv_checks_exclusive) (simp add: LNCVStart_def LNCVStart_setAddress_def LNCVStart_setModuleId_def length_magic)

section \<open>Responses\<close>

text \<open>
  What answers a request for a locomotive's slot is exactly the slot data of that address: the code
  compares the two halves of the address as they lie in the messages.
\<close>

theorem slot_request_answer:
  assumes "unat a < 16384" and "framed r" and "isValid r" and "opCode r = OPC_SL_RD_DATA" and "length r = 14"
  shows "isValidResponse (LocoAdr a) r = Some (SlotReadData_address r = a)"
proof -
  have *: "\<forall>i < length r. 0 < i \<longrightarrow> \<not> bit (r ! i) 7"
    using isValid_iff [OF assms(2)] assms(3) by (simp add: low7_tl_iff)
  then have "\<not> bit (r ! 4) 7" "\<not> bit (r ! 9) 7" using assms(5) by simp_all
  then show ?thesis using isValidResponse_LocoAdr [OF assms(1), of r] assms(4) by simp
qed

theorem slot_request_answer_witness:
  "isValidResponse (LocoAdr 3) [0xE7, 14, 5, 0x20, 3, 0, 0, 0, 0, 0, 0, 0, 0, 0x30] = Some True"
proof -
  have "framed [0xE7, 14, 5, 0x20, 3, 0, 0, 0, 0, 0, 0, 0, 0, 0x30]"
    "isValid [0xE7, 14, 5, 0x20, 3, 0, 0, 0, 0, 0, 0, 0, 0, 0x30]"
    by (simp_all add: framed_def msg_size_def isValid_def isChecksumValid_def calcChecksum_def upt_rec)
  from slot_request_answer [OF _ this, of 3] show ?thesis by (simp add: SlotReadData_address_def)
qed

text \<open>
  Two kinds of request the kernel itself sends lead into the assertion that no such request expects a
  response, whatever valid message arrives that is not a long acknowledge: the write of the fast clock's
  slot, and each of the six function packets.
\<close>

theorem response_assertion_reached:
  assumes "opCode r \<noteq> OPC_LONG_ACK" and "\<not> LNCVReadResponse_check r"
  shows "hasResponse FastClockSlotWriteData \<and> isValidResponse FastClockSlotWriteData r = None \<and>
    hasResponse (LocoF9F12IMMShortAddress a f9 f10 f11 f12) \<and>
    isValidResponse (LocoF9F12IMMShortAddress a f9 f10 f11 f12) r = None"
proof -
  have f: "opCode FastClockSlotWriteData = OPC_WR_SL_DATA"
    by (simp add: FastClockSlotWriteData_def FastClockSlotData_def SlotDataBase_def)
  have o: "opCode (LocoF9F12IMMShortAddress a f9 f10 f11 f12) = OPC_IMM_PACKET"
    "msg_size (LocoF9F12IMMShortAddress a f9 f10 f11 f12) = 11"
    by (simp_all add: LocoF9F12IMMShortAddress_bytes seal_def msg_size_def)
  have h: "hasResponse (LocoF9F12IMMShortAddress a f9 f10 f11 f12)"
    using imm_signature_match(1) o(1) by (simp add: hasResponse_def)
  have "\<not> ReadSpecialOption_check (LocoF9F12IMMShortAddress a f9 f10 f11 f12)"
    using o(2) by (simp add: ReadSpecialOption_check_def ImmPacketDataMessage_check_def)
  then show ?thesis
    using f o(1) h isValidResponse_assert [of _ r] assms by (simp add: hasResponse_def testFlag_def)
qed

theorem response_assertion_reached_witness:
  "isValidResponse FastClockSlotWriteData GlobalPowerOn = None"
  using response_assertion_reached [of GlobalPowerOn]
  by (simp add: GlobalPowerOn_def LNCVReadResponse_check_def PeerXferDataMessage_check_def)

end
