(* ===== verification/Framing.thy ===== *)
theory Framing
  imports Prelude "HOL-Library.Sublist"
begin

text \<open>
  The two contracts of the IO handlers.  Reading: a handler turns the bytes it has into messages and
  keeps the rest for the next read (\<open>message_framing\<close>); when it also waits for the rest of an
  incomplete message (\<open>chunked_framing\<close>), the messages do not depend on how the stream was cut
  into reads.  Writing: bytes are taken from the front of a bounded buffer as the operating system
  accepts them, messages are appended behind (\<open>byte_writer\<close>), so the stream that leaves is the
  messages accepted, in order.
\<close>

section \<open>Reading\<close>

text \<open>What a handler of a binary stream tells: a message for the kernel, bytes dropped.\<close>

datatype IoEvent = IoReceive bytes | IoDropped nat

text \<open>
  One read processes the bytes kept and the new ones; \<open>s\<close> is what the memory behind them holds.
\<close>

fun feed :: "('s \<Rightarrow> 'b list \<Rightarrow> 'm list \<times> 'b list) \<Rightarrow> ('s \<times> 'b list) list \<Rightarrow> 'b list \<Rightarrow> 'm list \<times> 'b list" where
  "feed rd [] rest = ([], rest)"
| "feed rd ((s, c) # cs) rest =
    (let r = rd s (rest @ c); q = feed rd cs (snd r) in (fst r @ fst q, snd q))"

text \<open>
  \<open>enc\<close> is what a message looks like in the stream, \<open>clean\<close> what may follow it.
\<close>

locale message_framing =
  fixes rd :: "'s \<Rightarrow> 'b list \<Rightarrow> 'm list \<times> 'b list"
    and enc :: "'m \<Rightarrow> 'b list"
    and ok :: "'m \<Rightarrow> bool"
    and clean :: "'b list \<Rightarrow> bool"
  assumes read_nil: "rd s [] = ([], [])"
    and read_whole: "ok m \<Longrightarrow> clean bs \<Longrightarrow> rd s (enc m @ bs) = (m # fst (rd s bs), snd (rd s bs))"
    and clean_nil: "clean []"
    and clean_enc: "ok m \<Longrightarrow> clean bs \<Longrightarrow> clean (enc m @ bs)"
begin

lemma clean_concat: "list_all ok ms \<Longrightarrow> clean bs \<Longrightarrow> clean (concat (map enc ms) @ bs)"
  by (induction ms) (simp_all add: clean_enc)

lemma read_concat:
  "list_all ok ms \<Longrightarrow> clean bs \<Longrightarrow>
    rd s (concat (map enc ms) @ bs) = (ms @ fst (rd s bs), snd (rd s bs))"
  by (induction ms) (simp_all add: read_whole clean_concat)

lemma read_all: "list_all ok ms \<Longrightarrow> rd s (concat (map enc ms)) = (ms, [])"
  using read_concat [of ms "[]"] by (simp add: clean_nil read_nil)

end

locale chunked_framing = message_framing +
  assumes enc_nonempty: "ok m \<Longrightarrow> enc m \<noteq> []"
    and clean_part: "ok m \<Longrightarrow> prefix p (enc m) \<Longrightarrow> clean p"
    and read_part: "ok m \<Longrightarrow> strict_prefix p (enc m) \<Longrightarrow> rd s p = ([], p)"
begin

text \<open>The start of a message, possibly nothing of it.\<close>

definition begun :: "'b list \<Rightarrow> bool" where
  "begun p \<longleftrightarrow> p = [] \<or> (\<exists>m. ok m \<and> strict_prefix p (enc m))"

lemma read_begun: "begun p \<Longrightarrow> rd s p = ([], p)"
  by (auto simp: begun_def read_nil read_part)

lemma clean_begun: "begun p \<Longrightarrow> clean p"
  by (auto simp: begun_def clean_nil clean_part strict_prefix_def)

lemma prefix_split:
  assumes "list_all ok ms" and "prefix q (concat (map enc ms))"
  shows "\<exists>ms1 ms2 p. ms = ms1 @ ms2 \<and> q = concat (map enc ms1) @ p \<and> begun p"
  using assms
proof (induction ms arbitrary: q)
  case Nil
  then show ?case by (auto simp: begun_def)
next
  case (Cons m ms)
  show ?case
  proof (cases "strict_prefix q (enc m)")
    case True
    then have "begun q" using Cons.prems(1) by (auto simp: begun_def)
    then show ?thesis by (intro exI [of _ "[]"] exI [of _ "m # ms"] exI [of _ q]) simp
  next
    case False
    then obtain r where r: "q = enc m @ r"
      using Cons.prems(2) by (auto simp: prefix_append strict_prefix_def)
    then obtain ms1 ms2 p where "ms = ms1 @ ms2" "r = concat (map enc ms1) @ p" "begun p"
      using Cons.IH [of r] Cons.prems by auto
    then show ?thesis using r by (intro exI [of _ "m # ms1"] exI [of _ ms2] exI [of _ p]) simp
  qed
qed

text \<open>
  However the stream of some messages and the start of another is cut into reads, and whatever the
  memory holds, the reads give exactly the messages and keep the start.
\<close>

lemma feed_chunks:
  assumes "list_all ok ms" and "begun p" and "begun rest"
    and "rest @ concat (map snd cs) = concat (map enc ms) @ p"
  shows "feed rd cs rest = (ms, p)"
  using assms
proof (induction cs arbitrary: ms rest)
  case Nil
  then have "rest = concat (map enc ms) @ p" by simp
  moreover have "rd s rest = ([], rest)" for s using Nil.prems(3) by (rule read_begun)
  moreover have "rd s (concat (map enc ms) @ p) = (ms, p)" for s
    using read_concat [OF Nil.prems(1) clean_begun [OF Nil.prems(2)]] read_begun [OF Nil.prems(2)] by simp
  ultimately show ?case by auto
next
  case (Cons sc cs)
  obtain s c where sc: "sc = (s, c)" by (cases sc)
  let ?q = "rest @ c"
  have eq: "?q @ concat (map snd cs) = concat (map enc ms) @ p" using Cons.prems(4) sc by simp
  then have "prefix ?q (concat (map enc ms) @ p)" by (metis prefixI)
  then consider "prefix ?q (concat (map enc ms))" | r where "?q = concat (map enc ms) @ r" "prefix r p"
    by (auto simp: prefix_append)
  then show ?case
  proof cases
    case 1
    then obtain ms1 ms2 t where t: "ms = ms1 @ ms2" "?q = concat (map enc ms1) @ t" "begun t"
      using prefix_split [OF Cons.prems(1)] by blast
    have rd: "rd s ?q = (ms1, t)"
      using read_concat [of ms1 t s] clean_begun [OF t(3)] read_begun [OF t(3)] Cons.prems(1) t by simp
    have "feed rd cs t = (ms2, p)"
      using Cons.IH [of ms2 t] Cons.prems(1,2) t eq by simp
    then show ?thesis using rd t(1) by (simp add: sc)
  next
    case 2
    have "begun r"
      using 2(2) Cons.prems(2) by (auto simp: begun_def intro: prefix_order.le_less_trans)
    then have rd: "rd s ?q = (ms, r)"
      using read_concat [of ms r s] clean_begun read_begun Cons.prems(1) 2(1) by simp
    have "feed rd cs r = ([], p)"
      using Cons.IH [of "[]" r] Cons.prems(2) \<open>begun r\<close> eq 2(1) by simp
    then show ?thesis using rd by (simp add: sc)
  qed
qed

end

section \<open>Writing\<close>

text \<open>
  The buffer holds the bytes not yet written; \<open>issued\<close> is the size of the write in progress.
\<close>

record Writer =
  w_buffer :: bytes
  w_issued :: "nat option"

datatype write_event = WrSend bytes | WrDone nat

text \<open>
  A run: messages are sent, writes complete.  It gives the bytes written and the messages accepted.
\<close>

fun write_run :: "(bytes \<Rightarrow> 'w \<Rightarrow> bool \<times> 'w) \<Rightarrow> (nat \<Rightarrow> 'w \<Rightarrow> 'w) \<Rightarrow> ('w \<Rightarrow> bytes) \<Rightarrow> ('w \<Rightarrow> nat option) \<Rightarrow>
    write_event list \<Rightarrow> 'w \<Rightarrow> bytes \<times> bytes list \<times> 'w" where
  "write_run snd_op done_op pend iss [] w = ([], [], w)"
| "write_run snd_op done_op pend iss (WrSend m # es) w =
    (let r = snd_op m w; q = write_run snd_op done_op pend iss es (snd r)
     in (fst q, (if fst r then [m] else []) @ fst (snd q), snd (snd q)))"
| "write_run snd_op done_op pend iss (WrDone n # es) w =
    (case iss w of
       Some k \<Rightarrow>
         if n \<le> k then
           (let q = write_run snd_op done_op pend iss es (done_op n w) in (take n (pend w) @ fst q, snd q))
         else write_run snd_op done_op pend iss es w
     | None \<Rightarrow> write_run snd_op done_op pend iss es w)"

locale byte_writer =
  fixes snd_op :: "bytes \<Rightarrow> 'w \<Rightarrow> bool \<times> 'w"
    and done_op :: "nat \<Rightarrow> 'w \<Rightarrow> 'w"
    and pend :: "'w \<Rightarrow> bytes"
    and iss :: "'w \<Rightarrow> nat option"
    and enc :: "bytes \<Rightarrow> bytes"
    and good :: "bytes \<Rightarrow> bool"
    and cap :: nat
  assumes enc_nonempty: "good m \<Longrightarrow> enc m \<noteq> []"
    and accept_iff: "good m \<Longrightarrow> fst (snd_op m w) \<longleftrightarrow> length (pend w) + length (enc m) \<le> cap"
    and accept_pend: "good m \<Longrightarrow> fst (snd_op m w) \<Longrightarrow> pend (snd (snd_op m w)) = pend w @ enc m"
    and accept_iss: "good m \<Longrightarrow> fst (snd_op m w) \<Longrightarrow>
      iss (snd (snd_op m w)) = (if pend w = [] then Some (length (enc m)) else iss w)"
    and refuse: "good m \<Longrightarrow> \<not> fst (snd_op m w) \<Longrightarrow> snd (snd_op m w) = w"
    and done_pend: "n \<le> length (pend w) \<Longrightarrow> pend (done_op n w) = drop n (pend w)"
    and done_iss: "n \<le> length (pend w) \<Longrightarrow>
      iss (done_op n w) = (if n < length (pend w) then Some (length (pend w) - n) else None)"
begin

text \<open>A write is in progress exactly when there is something to write.\<close>

definition live :: "'w \<Rightarrow> bool" where
  "live w \<longleftrightarrow> length (pend w) \<le> cap \<and>
    (case iss w of None \<Rightarrow> pend w = [] | Some k \<Rightarrow> 0 < k \<and> k \<le> length (pend w))"

lemma live_send: "live w \<Longrightarrow> good m \<Longrightarrow> live (snd (snd_op m w))"
  using accept_iff [of m w] accept_pend [of m w] accept_iss [of m w] refuse [of m w] enc_nonempty [of m]
  by (cases "fst (snd_op m w)") (auto simp: live_def split: option.splits)

lemma live_done: "live w \<Longrightarrow> iss w = Some k \<Longrightarrow> n \<le> k \<Longrightarrow> live (done_op n w)"
  using done_pend [of n w] done_iss [of n w] by (auto simp: live_def)

lemma write_run_live:
  assumes "live w" and "\<And>m. WrSend m \<in> set es \<Longrightarrow> good m"
  shows "live (snd (snd (write_run snd_op done_op pend iss es w)))"
  using assms
proof (induction es arbitrary: w)
  case (Cons e es)
  then show ?case
    by (cases e) (auto simp: Let_def live_send live_done split: option.split)
qed simp

lemma write_run_stream:
  assumes "live w" and "\<And>m. WrSend m \<in> set es \<Longrightarrow> good m"
    and "write_run snd_op done_op pend iss es w = (out, ms, w')"
  shows "out @ pend w' = pend w @ concat (map enc ms)"
  using assms
proof (induction es arbitrary: w out ms w')
  case (Cons e es)
  show ?case
  proof (cases e)
    case (WrSend m)
    obtain out1 ms1 w1 where q: "write_run snd_op done_op pend iss es (snd (snd_op m w)) = (out1, ms1, w1)"
      by (metis prod_cases3)
    have g: "good m" using Cons.prems(2) WrSend by simp
    have "out1 @ pend w1 = pend (snd (snd_op m w)) @ concat (map enc ms1)"
      using Cons.IH [OF live_send [OF Cons.prems(1) g] _ q] Cons.prems(2) by auto
    then show ?thesis
      using Cons.prems(3) WrSend q accept_pend [OF g, of w] refuse [OF g, of w] by (auto simp: Let_def)
  next
    case (WrDone n)
    show ?thesis
    proof (cases "\<exists>k. iss w = Some k \<and> n \<le> k")
      case True
      then obtain k where k: "iss w = Some k" "n \<le> k" by blast
      obtain out1 ms1 w1 where q: "write_run snd_op done_op pend iss es (done_op n w) = (out1, ms1, w1)"
        by (metis prod_cases3)
      have l: "n \<le> length (pend w)" using Cons.prems(1) k by (simp add: live_def)
      have "out1 @ pend w1 = pend (done_op n w) @ concat (map enc ms1)"
        using Cons.IH [OF live_done [OF Cons.prems(1) k] _ q] Cons.prems(2) by auto
      then show ?thesis
        using Cons.prems(3) WrDone q k done_pend [OF l] by (auto simp: Let_def)
    next
      case False
      then show ?thesis
        using Cons.IH [OF Cons.prems(1)] Cons.prems(2,3) WrDone by (auto split: option.splits)
    qed
  qed
qed simp

end

end
