(* ===== verification/LocoNet_Stream.thy ===== *)
theory LocoNet_Stream
  imports Framing LocoNet_Invariant
begin

text \<open>
  The byte streams of \<^verbatim>\<open>iohandler/serialiohandler.cpp\<close> and \<^verbatim>\<open>tcpbinaryiohandler.cpp\<close>.
  Reading takes messages from the buffer as long as they are complete, drops bytes until what is
  there may be a message, and keeps an incomplete message.  The buffer is its first
  \<^verbatim>\<open>bytesTransferred\<close> bytes \<open>p\<close> from \<^verbatim>\<open>pos\<close> on; \<open>s\<close> is what the memory behind them holds, which
  \<^verbatim>\<open>size()\<close> reads when only one byte is there.
\<close>

section \<open>Reading\<close>

text \<open>The inner loop: the bytes dropped and what is left.\<close>

fun binary_drop :: "bytes \<Rightarrow> bytes \<Rightarrow> nat \<times> bytes" where
  "binary_drop s [] = (0, [])"
| "binary_drop s (b # p) =
    (let message = b # p @ s
     in if msg_size message = 0 \<or> msg_size message \<le> length (b # p) \<and> \<not> isValid message then
          (let r = binary_drop s p in (Suc (fst r), snd r))
        else (0, b # p))"

lemma binary_drop_length: "fst (binary_drop s p) + length (snd (binary_drop s p)) = length p"
  by (induction s p rule: binary_drop.induct) (auto simp: Let_def)

lemma binary_drop_rest:
  assumes "snd (binary_drop s p) \<noteq> []"
  defines "r \<equiv> snd (binary_drop s p)"
  shows "msg_size (r @ s) \<noteq> 0" and "msg_size (r @ s) \<le> length r \<Longrightarrow> isValid (r @ s)"
proof -
  have "snd (binary_drop s p) \<noteq> [] \<Longrightarrow>
    msg_size (snd (binary_drop s p) @ s) \<noteq> 0 \<and>
    (msg_size (snd (binary_drop s p) @ s) \<le> length (snd (binary_drop s p)) \<longrightarrow> isValid (snd (binary_drop s p) @ s))"
    by (induction s p rule: binary_drop.induct) (auto simp: Let_def split: if_splits)
  then show "msg_size (r @ s) \<noteq> 0" and "msg_size (r @ s) \<le> length r \<Longrightarrow> isValid (r @ s)"
    using assms by auto
qed

text \<open>The outer loop: what is received and logged, and the bytes kept for the next read.\<close>

function binary_loop :: "bytes \<Rightarrow> bytes \<Rightarrow> IoEvent list \<times> bytes" where
  "binary_loop s p =
    (if length p > 1 then
       (let d = binary_drop s p; drop_count = fst d; r = snd d; size = msg_size (r @ s)
        in if drop_count \<noteq> 0 then
             (let q = binary_loop s r in (IoDropped drop_count # fst q, snd q))
           else if size \<le> length r then
             (let q = binary_loop s (drop size r) in (IoReceive (take size r) # fst q, snd q))
           else ([], r))
     else ([], p))"
  by pat_completeness auto
termination
proof (relation "measure (length \<circ> snd)", goal_cases)
  case 1
  then show ?case by simp
next
  case (2 s p d c r size)
  then show ?case using binary_drop_length [of s p] by auto
next
  case (3 s p d c r size)
  then have "r \<noteq> []" using binary_drop_length [of s p] by auto
  then have "size \<noteq> 0" using binary_drop_rest(1) [of s p] 3 by auto
  then show ?case using 3 binary_drop_length [of s p] by auto
qed

declare binary_loop.simps [simp del]

text \<open>The handler of \<^verbatim>\<open>tcpbinaryiohandler.cpp\<close> repeats these loops.\<close>

definition tcp_loop :: "bytes \<Rightarrow> bytes \<Rightarrow> IoEvent list \<times> bytes" where
  "tcp_loop s p = binary_loop s p"

lemma isValid_append:
  assumes "framed m"
  shows "isValid (m @ r) = isValid m"
proof -
  have len: "2 \<le> length m" "length m = msg_size m" using assms by (simp_all add: framed_def)
  then have sz: "msg_size (m @ r) = msg_size m" by (simp add: msg_size_append)
  have "calcChecksum (m @ r) = calcChecksum m"
    using len sz by (simp add: calcChecksum_def)
  moreover have "(m @ r) ! i = m ! i" if "i < msg_size m" for i
    using that len by (simp add: nth_append)
  ultimately show ?thesis
    using len sz by (simp add: isValid_def isChecksumValid_def)
qed

lemma binary_drop_stop:
  assumes "p \<noteq> []" and "msg_size (p @ s) \<noteq> 0" and "msg_size (p @ s) \<le> length p \<longrightarrow> isValid (p @ s)"
  shows "binary_drop s p = (0, p)"
  using assms by (cases p) (simp_all add: Let_def)

lemma binary_loop_message:
  assumes "validMsg m"
  shows "binary_loop s (m @ bs) = (IoReceive m # fst (binary_loop s bs), snd (binary_loop s bs))"
proof -
  have fr: "framed m" and v: "isValid m" using assms by (simp_all add: validMsg_def)
  then have len: "2 \<le> length m" "length m = msg_size m" by (simp_all add: framed_def)
  have sz: "msg_size ((m @ bs) @ s) = length m" using len msg_size_append [of m "bs @ s"] by simp
  have "binary_drop s (m @ bs) = (0, m @ bs)"
    using len sz v isValid_append [OF fr, of "bs @ s"] by (intro binary_drop_stop) auto
  then show ?thesis
    using len sz by (subst binary_loop.simps) (simp add: Let_def)
qed

lemma binary_loop_part:
  assumes "validMsg m" and "strict_prefix p m"
  shows "binary_loop s p = ([], p)"
proof (cases "length p > 1")
  case True
  obtain r where r: "m = p @ r" "r \<noteq> []" using assms(2) by (auto simp: strict_prefix_def prefix_def)
  have "framed m" using assms(1) by (simp add: validMsg_def)
  moreover have "msg_size m = msg_size p" using True r msg_size_append [of p r] by simp
  ultimately have sz: "msg_size (p @ s) = length m"
    using True msg_size_append [of p s] by (simp add: framed_def)
  moreover have "length p < length m" using r by simp
  ultimately have "binary_drop s p = (0, p)" using True by (intro binary_drop_stop) auto
  then show ?thesis using True sz \<open>length p < length m\<close> by (subst binary_loop.simps) (simp add: Let_def)
next
  case False
  then show ?thesis by (subst binary_loop.simps) simp
qed

text \<open>The handler's reads give events; in the stream a received message is its own bytes.\<close>

fun binary_enc :: "IoEvent \<Rightarrow> bytes" where
  "binary_enc (IoReceive m) = m"
| "binary_enc (IoDropped n) = []"

fun binary_ok :: "IoEvent \<Rightarrow> bool" where
  "binary_ok (IoReceive m) = validMsg m"
| "binary_ok (IoDropped n) = False"

interpretation binary: chunked_framing binary_loop binary_enc binary_ok "\<lambda>_. True"
proof
  show "binary_loop s [] = ([], [])" for s by (subst binary_loop.simps) simp
  fix m :: IoEvent and p :: bytes
  assume ok: "binary_ok m"
  then obtain b where b: "m = IoReceive b" "validMsg b" by (cases m) auto
  show "binary_loop s (binary_enc m @ bs) = (m # fst (binary_loop s bs), snd (binary_loop s bs))" for s bs
    using b binary_loop_message by simp
  show "binary_enc m \<noteq> []" using b by (auto simp: validMsg_def framed_def)
  show "strict_prefix p (binary_enc m) \<Longrightarrow> binary_loop s p = ([], p)" for s
    using b binary_loop_part by simp
qed simp_all

text \<open>
  What the kernel is given is valid.  One oddity: the code takes the bytes FF 01 for a message of the
  one byte FF, as its length byte says 1.
\<close>

lemma isValid_take: "msg_size (r @ s) \<le> length r \<Longrightarrow> 2 \<le> msg_size (r @ s) \<Longrightarrow> isValid (r @ s) \<Longrightarrow>
  validMsg (take (msg_size (r @ s)) r)"
proof -
  let ?n = "msg_size (r @ s)" and ?m = "take (msg_size (r @ s)) r"
  assume n: "?n \<le> length r" "2 \<le> ?n" and v: "isValid (r @ s)"
  have eq: "r @ s = ?m @ (drop ?n r @ s)" by simp
  have "msg_size (r @ s) = msg_size ?m" using n by (intro msg_size_cong) (auto simp: nth_append)
  then have fr: "framed ?m" using n by (simp add: framed_def)
  have "isValid ?m" using isValid_append [OF fr, of "drop ?n r @ s"] v eq by metis
  then show ?thesis using fr by (simp add: validMsg_def)
qed

lemma isValid_size_1:
  assumes "isValid m" and "msg_size m = 1"
  shows "m ! 0 = 0xFF"
  using assms by (simp add: isValid_def isChecksumValid_def calcChecksum_def split: if_splits)

text \<open>One turn of the outer loop, by its three outcomes.\<close>

lemma binary_loop_turn:
  obtains (finished) "length p \<le> 1 \<or> length p < msg_size (p @ s)" "binary_loop s p = ([], p)"
  | (dropped) n r where "n \<noteq> 0" "n + length r = length p"
      "binary_loop s p = (IoDropped n # fst (binary_loop s r), snd (binary_loop s r))"
  | (received) m r where "p = m @ r" "m \<noteq> []" "validMsg m \<or> m = [0xFF]"
      "binary_loop s p = (IoReceive m # fst (binary_loop s r), snd (binary_loop s r))"
proof -
  let ?n = "fst (binary_drop s p)" and ?r = "snd (binary_drop s p)"
  let ?size = "msg_size (?r @ s)"
  have len: "?n + length ?r = length p" by (rule binary_drop_length)
  consider "length p \<le> 1" | "length p > 1" "?n \<noteq> 0" | "length p > 1" "?n = 0" by linarith
  then show ?thesis
  proof cases
    case 1
    then have "binary_loop s p = ([], p)" by (subst binary_loop.simps) simp
    with 1 show ?thesis using that(1) by simp
  next
    case 2
    then have "binary_loop s p = (IoDropped ?n # fst (binary_loop s ?r), snd (binary_loop s ?r))"
      by (subst binary_loop.simps) (simp add: Let_def)
    then show ?thesis using that(2) [OF 2(2) len] by simp
  next
    case 3
    have keep: "?n = 0 \<Longrightarrow> ?r = p" by (cases p) (auto simp: Let_def split: if_splits)
    have rp: "?r = p" using keep 3 by simp
    have ne: "?r \<noteq> []" using 3 rp by auto
    show ?thesis
    proof (cases "?size \<le> length ?r")
      case True
      have v: "?size \<noteq> 0" "isValid (?r @ s)"
        using binary_drop_rest [of s p] ne True by simp_all
      have "validMsg (take ?size ?r) \<or> take ?size ?r = [0xFF]"
      proof (cases "?size = 1")
        case one: True
        then have "take ?size ?r = [?r ! 0]" "(?r @ s) ! 0 = ?r ! 0"
          using ne by (simp_all add: take_Suc hd_conv_nth nth_append)
        then show ?thesis using isValid_size_1 [OF v(2)] one by simp
      next
        case False
        then show ?thesis using isValid_take [of ?r s] v True by simp
      qed
      moreover have "binary_loop s p = (IoReceive (take ?size ?r) # fst (binary_loop s (drop ?size ?r)),
          snd (binary_loop s (drop ?size ?r)))"
        using 3 True by (subst binary_loop.simps) (simp add: Let_def)
      ultimately show ?thesis
        using that(3) [of "take ?size ?r" "drop ?size ?r"] v ne rp by simp
    next
      case False
      then have "binary_loop s p = ([], p)"
        using 3 rp by (subst binary_loop.simps) (simp add: Let_def)
      then show ?thesis using that(1) False rp by simp
    qed
  qed
qed

lemma binary_loop_turns [consumes 0, case_names finished dropped received]:
  assumes "\<And>p. length p \<le> 1 \<or> length p < msg_size (p @ s) \<Longrightarrow> Q p ([], p)"
    and "\<And>p n r. n \<noteq> 0 \<Longrightarrow> n + length r = length p \<Longrightarrow> Q r (binary_loop s r) \<Longrightarrow>
      Q p (IoDropped n # fst (binary_loop s r), snd (binary_loop s r))"
    and "\<And>m r. validMsg m \<or> m = [0xFF] \<Longrightarrow> Q r (binary_loop s r) \<Longrightarrow>
      Q (m @ r) (IoReceive m # fst (binary_loop s r), snd (binary_loop s r))"
  shows "Q p (binary_loop s p)"
proof (induction "length p" arbitrary: p rule: less_induct)
  case less
  show ?case
  proof (cases rule: binary_loop_turn [of p s])
    case finished
    then show ?thesis using assms(1) by simp
  next
    case (dropped n r)
    then have "Q r (binary_loop s r)" using less by simp
    then show ?thesis using dropped assms(2) by simp
  next
    case (received m r)
    then have "Q r (binary_loop s r)" using less by simp
    then show ?thesis using received assms(3) by simp
  qed
qed

lemma binary_loop_received:
  "IoReceive m \<in> set (fst (binary_loop s p)) \<Longrightarrow> validMsg m \<or> m = [0xFF]"
  using binary_loop_turns [of s "\<lambda>p q. IoReceive m \<in> set (fst q) \<longrightarrow> validMsg m \<or> m = [0xFF]" p] by auto

text \<open>Every byte is received, dropped or kept, and what is kept is no complete message.\<close>

fun event_size :: "IoEvent \<Rightarrow> nat" where
  "event_size (IoReceive m) = length m"
| "event_size (IoDropped n) = n"

lemma binary_loop_conserves:
  "sum_list (map event_size (fst (binary_loop s p))) + length (snd (binary_loop s p)) = length p"
  using binary_loop_turns [of s "\<lambda>p q. sum_list (map event_size (fst q)) + length (snd q) = length p" p] by auto

lemma binary_loop_rest:
  "length (snd (binary_loop s p)) \<le> 1 \<or>
    length (snd (binary_loop s p)) < msg_size (snd (binary_loop s p) @ s)"
  using binary_loop_turns [of s "\<lambda>p q. length (snd q) \<le> 1 \<or> length (snd q) < msg_size (snd q @ s)" p] by auto

lemma binary_loop_rest_254: "length (snd (binary_loop s p)) \<le> 254"
  using binary_loop_rest [of s p] msg_size_le_255 [of "snd (binary_loop s p) @ s"] by linarith

section \<open>Writing\<close>

text \<open>The send buffers hold 1024 bytes (serial) and 1500 bytes (TCP).\<close>

abbreviation (input) "serial_bufferSize \<equiv> (1024 :: nat)"
abbreviation (input) "tcp_bufferSize \<equiv> (1500 :: nat)"

definition writer_init :: Writer where
  "writer_init = \<lparr>w_buffer = [], w_issued = None\<rparr>"

text \<open>\<^verbatim>\<open>write()\<close> hands the whole buffer to the operating system.\<close>

definition writer_write :: "Writer \<Rightarrow> Writer" where
  "writer_write w = w\<lparr>w_issued := Some (length (w_buffer w))\<rparr>"

definition writer_written :: "nat \<Rightarrow> Writer \<Rightarrow> Writer" where
  "writer_written bytesTransferred w =
    (let w = w\<lparr>w_issued := None\<rparr>
     in if bytesTransferred < length (w_buffer w) then
          writer_write (w\<lparr>w_buffer := drop bytesTransferred (w_buffer w)\<rparr>)
        else w\<lparr>w_buffer := []\<rparr>)"

definition serial_send :: "bytes \<Rightarrow> Writer \<Rightarrow> bool \<times> Writer" where
  "serial_send message w =
    (if length (w_buffer w) + msg_size message > serial_bufferSize then (False, w)
     else
       (let wasEmpty = (length (w_buffer w) = 0);
            w = w\<lparr>w_buffer := w_buffer w @ take (msg_size message) message\<rparr>
        in (True, if wasEmpty then writer_write w else w)))"

definition tcp_send :: "bytes \<Rightarrow> Writer \<Rightarrow> bool \<times> Writer" where
  "tcp_send message w =
    (if length (w_buffer w) + msg_size message > tcp_bufferSize then (False, w)
     else
       (let wasEmpty = (length (w_buffer w) = 0);
            w = w\<lparr>w_buffer := w_buffer w @ take (msg_size message) message\<rparr>
        in (True, if wasEmpty then writer_write w else w)))"

interpretation serial_writer:
  byte_writer serial_send writer_written w_buffer w_issued "\<lambda>m. m" framed serial_bufferSize
  by unfold_locales
    (auto simp: serial_send_def writer_written_def writer_write_def framed_def Let_def split: if_splits)

interpretation tcp_writer:
  byte_writer tcp_send writer_written w_buffer w_issued "\<lambda>m. m" framed tcp_bufferSize
  by unfold_locales
    (auto simp: tcp_send_def writer_written_def writer_write_def framed_def Let_def split: if_splits)

end
