(* ===== verification/LocoNet_LBServer.thy ===== *)
theory LocoNet_LBServer
  imports Framing LocoNet_Invariant
begin

text \<open>
  The text protocol of a LoconetOverTcp server, \<^verbatim>\<open>iohandler/lbserveriohandler.cpp\<close>: lines of text,
  messages as hexadecimal bytes, one command at a time in flight.  \<open>None\<close> is undefined behaviour:
  a read behind the bytes of a line, or \<^verbatim>\<open>pop\<close> on an empty queue.
\<close>

section \<open>Hexadecimal bytes\<close>

definition toHexDigits :: string where
  "toHexDigits = ''0123456789ABCDEF''"

definition toHex8 :: "u8 \<Rightarrow> string" where
  "toHex8 v = [toHexDigits ! unat (drop_bit 4 v AND 0xF), toHexDigits ! unat (v AND 0xF)]"

definition isHexDigit :: "char \<Rightarrow> bool" where
  "isHexDigit c \<longleftrightarrow>
    (of_char c \<ge> (of_char CHR ''0'' :: nat) \<and> of_char c \<le> (of_char CHR ''9'' :: nat)) \<or>
    (of_char c \<ge> (of_char CHR ''A'' :: nat) \<and> of_char c \<le> (of_char CHR ''F'' :: nat)) \<or>
    (of_char c \<ge> (of_char CHR ''a'' :: nat) \<and> of_char c \<le> (of_char CHR ''f'' :: nat))"

definition hexDigitValue :: "char \<Rightarrow> u8" where
  "hexDigitValue c =
    (if of_char c \<ge> (of_char CHR ''0'' :: nat) \<and> of_char c \<le> (of_char CHR ''9'' :: nat) then
       of_char c - of_char CHR ''0''
     else if of_char c \<ge> (of_char CHR ''A'' :: nat) \<and> of_char c \<le> (of_char CHR ''F'' :: nat) then
       of_char c - of_char CHR ''A'' + 10
     else if of_char c \<ge> (of_char CHR ''a'' :: nat) \<and> of_char c \<le> (of_char CHR ''f'' :: nat) then
       of_char c - of_char CHR ''a'' + 10
     else 0xFF)"

fun hexScan :: "string \<Rightarrow> bytes" where
  "hexScan (a # b # text) =
    (if isHexDigit a \<and> isHexDigit b then ((hexDigitValue a * 16) OR hexDigitValue b) # hexScan text
     else hexScan (b # text))"
| "hexScan _ = []"

text \<open>With an empty text the bound \<^verbatim>\<open>text.size() - 1\<close> wraps around and the loop runs out of the text.\<close>

definition readHexBytes :: "string \<Rightarrow> bytes option" where
  "readHexBytes text = (if text = [] then None else Some (hexScan text))"

definition hexBytes :: "bytes \<Rightarrow> string" where
  "hexBytes m = concat (map (\<lambda>b. '' '' @ toHex8 b) m)"

definition formatSend :: "bytes \<Rightarrow> string" where
  "formatSend message = ''SEND'' @ hexBytes (take (msg_size message) message) @ [CHR 0x0A]"

section \<open>Lines\<close>

definition isEol :: "char \<Rightarrow> bool" where
  "isEol c \<longleftrightarrow> c = CHR 0x0A \<or> c = CHR 0x0D"

text \<open>The loop over the lines of the buffer: the lines, and the rest that waits for more data.\<close>

function lb_loop :: "string \<Rightarrow> string list \<times> string" where
  "lb_loop p =
    (let line = takeWhile (Not \<circ> isEol) p; eol = dropWhile (Not \<circ> isEol) p
     in if eol = [] then ([], p)
        else
          (let pos = tl eol;
               pos = (if pos \<noteq> [] \<and> isEol (hd pos) \<and> hd pos \<noteq> hd eol then tl pos else pos);
               q = lb_loop pos
           in (line # fst q, snd q)))"
  by pat_completeness auto
termination
proof (relation "measure length", goal_cases)
  case 1
  then show ?case by simp
next
  case (2 p line eol pos pos')
  have "length eol \<le> length p" using 2(2) by (simp add: length_dropWhile_le)
  moreover have "length pos' \<le> length (tl eol)" using 2(4,5) by (simp add: diff_le_mono2)
  moreover have "length (tl eol) < length eol" using 2(3) by (cases eol) simp_all
  ultimately show ?case by simp
qed

declare lb_loop.simps [simp del]

section \<open>The handler\<close>

record LBServer =
  lb_writeQueue :: "string list"
  lb_version :: string
  lb_written :: "string list"
  lb_received :: "bytes list"

definition lb_write :: "LBServer \<Rightarrow> LBServer" where
  "lb_write h = h\<lparr>lb_written := lb_written h @ [hd (lb_writeQueue h)]\<rparr>"

definition lb_send :: "bytes \<Rightarrow> LBServer \<Rightarrow> LBServer" where
  "lb_send message h =
    (let wasEmpty = (lb_writeQueue h = []);
         h = h\<lparr>lb_writeQueue := lb_writeQueue h @ [formatSend message]\<rparr>
     in if wasEmpty then lb_write h else h)"

text \<open>\<^verbatim>\<open>isValid(*message)\<close> on a vector of bytes: the reads must stay within it.\<close>

definition lb_isValid :: "bytes \<Rightarrow> bool option" where
  "lb_isValid b =
    (if b = [] \<or> (b ! 0 AND 0xE0 = 0xE0 \<and> length b < 2) \<or> length b < msg_size b then None
     else Some (isValid b))"

definition lb_line :: "string \<Rightarrow> LBServer \<Rightarrow> LBServer option" where
  "lb_line line h =
    (if prefix ''RECEIVE '' line then
       (case readHexBytes (drop 8 line) of
          None \<Rightarrow> None
        | Some b \<Rightarrow>
            (case lb_isValid b of
               None \<Rightarrow> None
             | Some v \<Rightarrow> Some (if v then h\<lparr>lb_received := lb_received h @ [take (msg_size b) b]\<rparr> else h)))
     else if prefix ''SENT OK'' line then
       (case lb_writeQueue h of
          [] \<Rightarrow> None
        | q # qs \<Rightarrow>
            (let h = h\<lparr>lb_writeQueue := qs\<rparr> in Some (if lb_writeQueue h \<noteq> [] then lb_write h else h)))
     else if prefix ''VERSION '' line then Some (h\<lparr>lb_version := drop 7 line\<rparr>)
     else Some h)"

fun lb_lines :: "string list \<Rightarrow> LBServer \<Rightarrow> LBServer option" where
  "lb_lines [] h = Some h"
| "lb_lines (l # ls) h = Option.bind (lb_line l h) (lb_lines ls)"

definition lb_processRead :: "string \<Rightarrow> LBServer \<Rightarrow> LBServer option \<times> string" where
  "lb_processRead p h = (let q = lb_loop p in (lb_lines (fst q) h, snd q))"

section \<open>Hexadecimal bytes read back\<close>

lemma hexDigit_cases: "(n :: nat) < 16 \<Longrightarrow> n = 0 \<or> n = 1 \<or> n = 2 \<or> n = 3 \<or> n = 4 \<or> n = 5 \<or> n = 6 \<or> n = 7 \<or>
    n = 8 \<or> n = 9 \<or> n = 10 \<or> n = 11 \<or> n = 12 \<or> n = 13 \<or> n = 14 \<or> n = 15"
  by presburger

lemma hexDigit_read:
  assumes "n < 16"
  shows "isHexDigit (toHexDigits ! n)" "hexDigitValue (toHexDigits ! n) = of_nat n"
  using hexDigit_cases [OF assms]
  by (elim disjE; simp add: toHexDigits_def isHexDigit_def hexDigitValue_def)+

lemma hexScan_toHex8: "hexScan (toHex8 b @ text) = b # hexScan text"
proof -
  have l: "unat (drop_bit 4 b AND 0xF) < 16" "unat (b AND 0xF) < 16"
    using word_and_le1 [of "drop_bit 4 b" "0xF"] word_and_le1 [of b "0xF"] by (simp_all add: word_le_nat_alt)
  have "((drop_bit 4 b AND 0xF) * 16) OR (b AND 0xF) = push_bit 4 (drop_bit 4 b AND 0xF) OR (b AND 0xF)"
    by (simp add: push_bit_eq_mult)
  also have "\<dots> = b" by (rule u8_eqI) (simp_all add: bit_simps)
  finally have e: "((drop_bit 4 b AND 0xF) * 16) OR (b AND 0xF) = b" .
  then show ?thesis using hexDigit_read [OF l(1)] hexDigit_read [OF l(2)] by (simp add: toHex8_def)
qed

lemma hexScan_space: "hexScan ('' '' @ toHex8 b @ text) = hexScan (toHex8 b @ text)"
  by (simp add: toHex8_def isHexDigit_def)

lemma hexScan_hexBytes: "hexScan (hexBytes m) = m"
proof (induction m)
  case Nil
  then show ?case by (simp add: hexBytes_def)
next
  case (Cons b m)
  have "hexScan (hexBytes (b # m)) = hexScan ('' '' @ toHex8 b @ hexBytes m)" by (simp add: hexBytes_def)
  also have "\<dots> = b # hexScan (hexBytes m)" by (simp only: hexScan_space hexScan_toHex8)
  finally show ?case using Cons by simp
qed

lemma readHexBytes_hexBytes:
  assumes "m \<noteq> []"
  shows "readHexBytes (tl (hexBytes m)) = Some m"
proof -
  obtain b r where m: "m = b # r" using assms by (cases m) auto
  have "tl (hexBytes m) = toHex8 b @ hexBytes r" by (simp add: m hexBytes_def)
  then show ?thesis by (simp add: readHexBytes_def hexScan_toHex8 hexScan_hexBytes m) (simp add: toHex8_def)
qed

section \<open>Lines in the stream\<close>

lemma lb_loop_part: "list_all (Not \<circ> isEol) p \<Longrightarrow> lb_loop p = ([], p)"
  by (subst lb_loop.simps) (simp add: list_all_iff)

lemma lb_loop_line:
  assumes "list_all (Not \<circ> isEol) l" and "r = [] \<or> hd r \<noteq> CHR 0x0D"
  shows "lb_loop (l @ CHR 0x0A # r) = (l # fst (lb_loop r), snd (lb_loop r))"
proof -
  have nl: "isEol CHR 0x0A" by (simp add: isEol_def)
  have "takeWhile (Not \<circ> isEol) (l @ CHR 0x0A # r) = l" "dropWhile (Not \<circ> isEol) (l @ CHR 0x0A # r) = CHR 0x0A # r"
    using assms(1) nl by (simp_all add: list_all_iff takeWhile_append2 dropWhile_append2)
  moreover have "\<not> (r \<noteq> [] \<and> isEol (hd r) \<and> hd r \<noteq> CHR 0x0A)"
    using assms(2) by (auto simp: isEol_def)
  ultimately show ?thesis by (subst lb_loop.simps) (auto simp: Let_def)
qed

lemma lb_loop_line_crlf:
  assumes "list_all (Not \<circ> isEol) l"
  shows "lb_loop (l @ [CHR 0x0D, CHR 0x0A] @ r) = (l # fst (lb_loop r), snd (lb_loop r))"
proof -
  have cr: "isEol CHR 0x0D" "isEol CHR 0x0A" by (simp_all add: isEol_def)
  have "takeWhile (Not \<circ> isEol) (l @ CHR 0x0D # CHR 0x0A # r) = l"
    "dropWhile (Not \<circ> isEol) (l @ CHR 0x0D # CHR 0x0A # r) = CHR 0x0D # CHR 0x0A # r"
    using assms(1) cr by (simp_all add: list_all_iff takeWhile_append2 dropWhile_append2)
  then show ?thesis using cr by (subst lb_loop.simps) (simp add: Let_def)
qed

text \<open>
  Lines that end in LF alone meet the contract of both locales.  Lines that end in CR LF are read
  whole as well, but a read that ends between the two gives an empty line more, which is no command.
\<close>

definition lb_text :: "string \<Rightarrow> bool" where
  "lb_text l \<longleftrightarrow> list_all (Not \<circ> isEol) l"

lemma list_all_prefix: "prefix p l \<Longrightarrow> list_all P l \<Longrightarrow> list_all P p"
  by (auto simp: prefix_def)

interpretation lb: chunked_framing "\<lambda>_ :: unit. lb_loop" "\<lambda>l. l @ [CHR 0x0A]" lb_text
  "list_all (\<lambda>c. c \<noteq> CHR 0x0D)"
proof
  show "lb_loop [] = ([], [])" by (simp add: lb_loop_part)
  fix l bs p :: string
  assume l: "lb_text l"
  then have n: "list_all (\<lambda>c. c \<noteq> CHR 0x0D) l" "list_all (Not \<circ> isEol) l"
    by (auto simp: lb_text_def list_all_iff isEol_def)
  show "list_all (\<lambda>c. c \<noteq> CHR 0x0D) bs \<Longrightarrow>
      lb_loop ((l @ [CHR 0x0A]) @ bs) = (l # fst (lb_loop bs), snd (lb_loop bs))"
    using lb_loop_line [of l bs] n by (cases bs) auto
  show "list_all (\<lambda>c. c \<noteq> CHR 0x0D) bs \<Longrightarrow> list_all (\<lambda>c. c \<noteq> CHR 0x0D) ((l @ [CHR 0x0A]) @ bs)"
    using n by simp
  show "l @ [CHR 0x0A] \<noteq> []" by simp
  show "prefix p (l @ [CHR 0x0A]) \<Longrightarrow> list_all (\<lambda>c. c \<noteq> CHR 0x0D) p"
    by (erule list_all_prefix) (use n in simp)
  assume "strict_prefix p (l @ [CHR 0x0A])"
  then have "prefix p l" by (auto simp: strict_prefix_def prefix_snoc)
  then show "lb_loop p = ([], p)"
    by (intro lb_loop_part list_all_prefix [OF _ n(2)])
qed simp_all

interpretation lb_crlf: message_framing "\<lambda>_ :: unit. lb_loop" "\<lambda>l. l @ [CHR 0x0D, CHR 0x0A]" lb_text "\<lambda>_. True"
proof
  show "lb_loop [] = ([], [])" by (simp add: lb_loop_part)
  show "lb_text l \<Longrightarrow>
      lb_loop ((l @ [CHR 0x0D, CHR 0x0A]) @ bs) = (l # fst (lb_loop bs), snd (lb_loop bs))" for l bs
    using lb_loop_line_crlf [of l bs] by (simp add: lb_text_def)
qed simp_all

section \<open>Messages\<close>

lemma lb_isValid_message: "validMsg m \<Longrightarrow> lb_isValid m = Some True"
  by (auto simp: lb_isValid_def validMsg_def framed_def)

text \<open>The line by which the server forwards a message.\<close>

definition receiveLine :: "bytes \<Rightarrow> string" where
  "receiveLine m = ''RECEIVE'' @ hexBytes m"

lemma lb_line_receive:
  assumes "validMsg m"
  shows "lb_line (receiveLine m) h = Some (h\<lparr>lb_received := lb_received h @ [m]\<rparr>)"
proof -
  have ne: "m \<noteq> []" "take (msg_size m) m = m" using assms by (auto simp: validMsg_def framed_def)
  then have sp: "hexBytes m = '' '' @ tl (hexBytes m)" by (cases m) (simp_all add: hexBytes_def)
  then have l: "receiveLine m = ''RECEIVE '' @ tl (hexBytes m)" by (simp add: receiveLine_def)
  show ?thesis
    unfolding l using readHexBytes_hexBytes [OF ne(1)] lb_isValid_message [OF assms] ne(2)
    by (simp add: lb_line_def)
qed

lemma lb_lines_receive:
  "list_all validMsg ms \<Longrightarrow>
    lb_lines (map receiveLine ms) h = Some (h\<lparr>lb_received := lb_received h @ ms\<rparr>)"
proof (induction ms arbitrary: h)
  case (Cons m ms)
  then have "lb_line (receiveLine m) h = Some (h\<lparr>lb_received := lb_received h @ [m]\<rparr>)"
    by (simp add: lb_line_receive)
  then show ?case using Cons by simp
qed simp

section \<open>Sending\<close>

text \<open>Messages are sent and lines arrive in any order.\<close>

fun lb_run :: "(bytes + string) list \<Rightarrow> LBServer \<Rightarrow> LBServer option" where
  "lb_run [] h = Some h"
| "lb_run (Inl m # es) h = lb_run es (lb_send m h)"
| "lb_run (Inr l # es) h = Option.bind (lb_line l h) (lb_run es)"

fun lb_sent :: "(bytes + string) list \<Rightarrow> bytes list" where
  "lb_sent [] = []"
| "lb_sent (Inl m # es) = m # lb_sent es"
| "lb_sent (Inr l # es) = lb_sent es"

text \<open>What was written and what waits behind it are the messages in order.\<close>

definition lb_inv :: "bytes list \<Rightarrow> LBServer \<Rightarrow> bool" where
  "lb_inv ms h \<longleftrightarrow> lb_written h @ tl (lb_writeQueue h) = map formatSend ms \<and>
    (lb_writeQueue h \<noteq> [] \<longrightarrow> lb_written h \<noteq> [] \<and> last (lb_written h) = hd (lb_writeQueue h))"

lemma lb_inv_send: "lb_inv ms h \<Longrightarrow> lb_inv (ms @ [m]) (lb_send m h)"
  by (cases "lb_writeQueue h") (auto simp: lb_inv_def lb_send_def lb_write_def Let_def)

lemma lb_inv_line:
  assumes "lb_inv ms h" and "lb_line l h = Some h'"
  shows "lb_inv ms h'"
proof (cases "prefix ''RECEIVE '' l")
  case True
  then have "lb_written h' = lb_written h \<and> lb_writeQueue h' = lb_writeQueue h"
    using assms(2) by (auto simp: lb_line_def split: option.splits)
  then show ?thesis using assms(1) by (simp add: lb_inv_def)
next
  case False
  show ?thesis
  proof (cases "prefix ''SENT OK'' l")
    case True
    obtain q qs where q: "lb_writeQueue h = q # qs"
      using assms(2) True False by (auto simp: lb_line_def split: list.splits)
    have "h' = (let h = h\<lparr>lb_writeQueue := qs\<rparr> in if lb_writeQueue h \<noteq> [] then lb_write h else h)"
      using assms(2) True False q by (simp add: lb_line_def Let_def)
    then show ?thesis
      using assms(1) q by (cases qs) (auto simp: lb_inv_def lb_write_def Let_def)
  next
    case F: False
    then have "lb_written h' = lb_written h \<and> lb_writeQueue h' = lb_writeQueue h"
      using assms(2) False by (auto simp: lb_line_def split: if_splits)
    then show ?thesis using assms(1) by (simp add: lb_inv_def)
  qed
qed

lemma lb_inv_run: "lb_run es h = Some h' \<Longrightarrow> lb_inv ms h \<Longrightarrow> lb_inv (ms @ lb_sent es) h'"
proof (induction es arbitrary: h ms)
  case (Cons e es)
  show ?case
  proof (cases e)
    case (Inl m)
    then show ?thesis using Cons.IH [OF _ lb_inv_send [OF Cons.prems(2)], of m] Cons.prems(1) by simp
  next
    case (Inr l)
    then obtain h1 where h1: "lb_line l h = Some h1" "lb_run es h1 = Some h'"
      using Cons.prems(1) by (auto simp: bind_eq_Some_conv)
    then show ?thesis using Cons.IH [OF h1(2) lb_inv_line [OF Cons.prems(2) h1(1)]] Inr by simp
  qed
qed simp

section \<open>Lines the handler does not survive\<close>

lemma lb_line_undefined:
  "lb_line ''RECEIVE '' h = None"
  "lb_line ''RECEIVE ?'' h = None"
  "lb_line (''RECEIVE '' @ toHex8 0x83) h = None"
  "lb_writeQueue h = [] \<Longrightarrow> lb_line ''SENT OK'' h = None"
proof -
  show "lb_line ''RECEIVE '' h = None" by (simp add: lb_line_def readHexBytes_def)
  show "lb_line ''RECEIVE ?'' h = None" by (simp add: lb_line_def readHexBytes_def lb_isValid_def)
  have "hexScan (toHex8 0x83) = [0x83]" using hexScan_toHex8 [of "0x83" "[]"] by simp
  then show "lb_line (''RECEIVE '' @ toHex8 0x83) h = None"
    by (simp add: lb_line_def readHexBytes_def lb_isValid_def msg_size_def toHex8_def)
  show "lb_writeQueue h = [] \<Longrightarrow> lb_line ''SENT OK'' h = None" by (simp add: lb_line_def)
qed

end
