(* ===== verification/LocoNet_Simulation.thy ===== *)
theory LocoNet_Simulation
  imports LocoNet_Invariant
begin

text \<open>
  The simulated command station of \<^verbatim>\<open>iohandler/simulationiohandler.cpp\<close>: a table of locomotive
  slots and two LNCV modules.  It answers each message with closures for the kernel's thread, here
  the list of the messages they carry.
\<close>

section \<open>State\<close>

record LNCVModule =
  lm_id :: u16
  lm_programmingModeActive :: bool
  lm_lncvs :: "u16 \<rightharpoonup> u16"

record Station =
  st_locoSlots :: "bytes list"
  st_lncvModules :: "LNCVModule list"

abbreviation (input) "LNCVModule_broadcastAddress \<equiv> (65535 :: u16)"
abbreviation (input) "LNCVModule_lncvAddress \<equiv> (0 :: u16)"

definition LNCVModule_address :: "LNCVModule \<Rightarrow> u16" where
  "LNCVModule_address md = the (lm_lncvs md LNCVModule_lncvAddress)"

definition updateActive :: "bytes \<Rightarrow> bytes" where
  "updateActive sl =
    SlotReadData_setActive
      (sl ! 5 \<noteq> SPEED_STOP \<and> sl ! 5 \<noteq> SPEED_ESTOP \<or>
       sl ! 6 AND (SL_F 0 OR SL_F 4 OR SL_F 3 OR SL_F 2 OR SL_F 1) \<noteq> 0 \<or>
       sl ! 10 AND (SL_F 8 OR SL_F 7 OR SL_F 6 OR SL_F 5) \<noteq> 0) sl"

text \<open>The constructor: the slots are numbered, two modules are there.\<close>

definition Station_construct :: Station where
  "Station_construct =
    \<lparr>st_locoSlots = map (\<lambda>slot. (SlotReadData 0)[2 := of_nat slot]) [1..<120],
     st_lncvModules =
       [\<lparr>lm_id = 6312, lm_programmingModeActive = False, lm_lncvs = [0 \<mapsto> 1, 1 \<mapsto> 0, 2 \<mapsto> 4, 4 \<mapsto> 0]\<rparr>,
        \<lparr>lm_id = 6388, lm_programmingModeActive = False,
         lm_lncvs = [0 \<mapsto> 1, 1 \<mapsto> 0, 2 \<mapsto> 20, 3 \<mapsto> 31, 4 \<mapsto> 1]\<rparr>]\<rparr>"

section \<open>Answers\<close>

text \<open>\<^verbatim>\<open>std::find_if\<close>, as an index.\<close>

definition find_slot :: "(bytes \<Rightarrow> bool) \<Rightarrow> bytes list \<Rightarrow> nat option" where
  "find_slot P slots = (let i = length (takeWhile (Not \<circ> P) slots) in if i < length slots then Some i else None)"

definition reply_slot :: "nat \<Rightarrow> Station \<Rightarrow> bytes list \<times> Station" where
  "reply_slot i st =
    (let sl = updateChecksum (st_locoSlots st ! i)
     in ([sl], st\<lparr>st_locoSlots := (st_locoSlots st)[i := sl]\<rparr>))"

definition sim_RQ_SL_DATA :: "bytes \<Rightarrow> Station \<Rightarrow> bytes list \<times> Station" where
  "sim_RQ_SL_DATA message st =
    (if isLocoSlot (RequestSlotData_slot message) then reply_slot (unat (RequestSlotData_slot message) - 1) st
     else ([], st))"

definition sim_LOCO_ADR :: "bytes \<Rightarrow> Station \<Rightarrow> bytes list \<times> Station" where
  "sim_LOCO_ADR message st =
    (case find_slot (\<lambda>sl. SlotReadData_address sl = LocoAdr_address message) (st_locoSlots st) of
       Some i \<Rightarrow> reply_slot i st
     | None \<Rightarrow>
         (case find_slot SlotReadData_isFree (st_locoSlots st) of
            Some i \<Rightarrow>
              (let sl = SlotReadData_setBusy True (st_locoSlots st ! i);
                   sl = SlotReadData_setAddress (LocoAdr_address message) sl
               in reply_slot i (st\<lparr>st_locoSlots := (st_locoSlots st)[i := sl]\<rparr>))
          | None \<Rightarrow> ([LongAck (opCode message) 0], st)))"

text \<open>The loops over the modules: each module's answers and its new state.\<close>

definition over_modules :: "(LNCVModule \<Rightarrow> bytes list \<times> LNCVModule) \<Rightarrow> Station \<Rightarrow> bytes list \<times> Station" where
  "over_modules f st =
    (concat (map (fst \<circ> f) (st_lncvModules st)), st\<lparr>st_lncvModules := map (snd \<circ> f) (st_lncvModules st)\<rparr>)"

definition module_start :: "bytes \<Rightarrow> LNCVModule \<Rightarrow> bytes list \<times> LNCVModule" where
  "module_start m md =
    (if LNCVStart_moduleId m = lm_id md \<and>
        (LNCVStart_address m = LNCVModule_address md \<or> LNCVStart_address m = LNCVModule_broadcastAddress)
     then ([LNCVReadResponse (LNCVStart_moduleId m) LNCVModule_lncvAddress (LNCVModule_address md)],
           md\<lparr>lm_programmingModeActive := True\<rparr>)
     else ([], md))"

definition module_read :: "bytes \<Rightarrow> LNCVModule \<Rightarrow> bytes list \<times> LNCVModule" where
  "module_read m md =
    (if LNCVRead_moduleId m = lm_id md \<and> lm_programmingModeActive md then
       (case lm_lncvs md (LNCVRead_lncv m) of
          Some v \<Rightarrow> ([LNCVReadResponse (LNCVRead_moduleId m) (LNCVRead_lncv m) v], md)
        | None \<Rightarrow> ([], md))
     else ([], md))"

definition module_write :: "bytes \<Rightarrow> LNCVModule \<Rightarrow> bytes list \<times> LNCVModule" where
  "module_write m md =
    (if LNCVWrite_moduleId m = lm_id md \<and> lm_programmingModeActive md then
       (case lm_lncvs md (LNCVWrite_lncv m) of
          Some v \<Rightarrow> ([LongAck (opCode m) 0x7F],
                     md\<lparr>lm_lncvs := (lm_lncvs md)(LNCVWrite_lncv m \<mapsto> LNCVWrite_value m)\<rparr>)
        | None \<Rightarrow> ([], md))
     else ([], md))"

definition module_stop :: "bytes \<Rightarrow> LNCVModule \<Rightarrow> bytes list \<times> LNCVModule" where
  "module_stop m md =
    (if LNCVStop_moduleId m = lm_id md then ([], md\<lparr>lm_programmingModeActive := False\<rparr>) else ([], md))"

definition sim_IMM_PACKET :: "bytes \<Rightarrow> Station \<Rightarrow> bytes list \<times> Station" where
  "sim_IMM_PACKET message st =
    (if LNCVStart_check message then over_modules (module_start message) st
     else if LNCVRead_check message then over_modules (module_read message) st
     else if LNCVWrite_check message then over_modules (module_write message) st
     else if LNCVStop_check message then over_modules (module_stop message) st
     else if isSignatureMatch ImmPacket_signature message then ([LongAck (opCode message) 0x7F], st)
     else ([], st))"

text \<open>Speed, direction and functions of a slot: the byte at \<open>pos\<close> is set and the slot is marked active.\<close>

definition sim_setSlot :: "nat \<Rightarrow> bytes \<Rightarrow> Station \<Rightarrow> Station" where
  "sim_setSlot pos message st =
    (if isLocoSlot (message ! 1) then
       (let i = unat (message ! 1) - 1;
            sl = (st_locoSlots st ! i)[pos := message ! 2]
        in st\<lparr>st_locoSlots := (st_locoSlots st)[i := updateActive sl]\<rparr>)
     else st)"

definition sim_answer :: "bytes \<Rightarrow> Station \<Rightarrow> bytes list \<times> Station" where
  "sim_answer message st =
    (if opCode message = OPC_RQ_SL_DATA then sim_RQ_SL_DATA message st
     else if opCode message = OPC_LOCO_ADR then sim_LOCO_ADR message st
     else if opCode message = OPC_IMM_PACKET then sim_IMM_PACKET message st
     else if opCode message = OPC_WR_SL_DATA then ([LongAck (opCode message) 0x7F], st)
     else if opCode message = OPC_LOCO_SPD then ([], sim_setSlot 5 message st)
     else if opCode message = OPC_LOCO_DIRF then ([], sim_setSlot 6 message st)
     else if opCode message = OPC_LOCO_SND then ([], sim_setSlot 10 message st)
     else ([], st))"

text \<open>\<^verbatim>\<open>send\<close> first echoes the message and always accepts it.\<close>

definition sim_send :: "bytes \<Rightarrow> Station \<Rightarrow> bytes list \<times> Station" where
  "sim_send message st =
    (let a = sim_answer message st in (take (msg_size message) message # fst a, snd a))"

section \<open>Slots keep their form\<close>

definition slotForm :: "nat \<Rightarrow> bytes \<Rightarrow> bool" where
  "slotForm n sl \<longleftrightarrow> length sl = 14 \<and> sl ! 0 = OPC_SL_RD_DATA \<and> sl ! 1 = 14 \<and> sl ! 2 = of_nat n \<and>
    (\<forall>i. 3 \<le> i \<and> i < 13 \<longrightarrow> \<not> bit (sl ! i) 7)"

lemma slotForm_update:
  "slotForm n sl \<Longrightarrow> pos = 13 \<or> 3 \<le> pos \<and> pos < 13 \<and> \<not> bit b 7 \<Longrightarrow> slotForm n (sl[pos := b])"
  by (auto simp: slotForm_def nth_list_update split: if_splits)

lemma slotForm_bit: "slotForm n sl \<Longrightarrow> 3 \<le> i \<Longrightarrow> i < 13 \<Longrightarrow> \<not> bit (sl ! i) 7"
  by (simp add: slotForm_def)

lemma slotForm_size: "slotForm n sl \<Longrightarrow> msg_size sl = 14"
  by (simp add: slotForm_def msg_size_def)

lemma slotForm_setters:
  assumes "slotForm n sl"
  shows "slotForm n (SlotReadData_setBusy v sl)" "slotForm n (SlotReadData_setActive v sl)"
    "slotForm n (SlotReadData_setAddress a sl)" "slotForm n (updateChecksum sl)" "slotForm n (updateActive sl)"
proof -
  have b: "\<not> bit (sl ! 3) 7" using slotForm_bit [OF assms] by simp
  show act: "slotForm n (SlotReadData_setActive v sl)" for v
    unfolding SlotReadData_setActive_def
    by (rule slotForm_update [OF assms]) (use b in \<open>simp add: flag_simps bit_simps\<close>)
  show "slotForm n (SlotReadData_setBusy v sl)"
    unfolding SlotReadData_setBusy_def
    by (rule slotForm_update [OF assms]) (use b in \<open>simp add: flag_simps bit_simps\<close>)
  show "slotForm n (SlotReadData_setAddress a sl)"
    unfolding SlotReadData_setAddress_def
    by (intro slotForm_update assms) (simp_all add: bit_simps)
  show "slotForm n (updateChecksum sl)"
    using slotForm_update [OF assms, of 13] slotForm_size [OF assms] by (simp add: updateChecksum_def)
  show "slotForm n (updateActive sl)" unfolding updateActive_def by (rule act)
qed

lemma slotForm_valid:
  assumes "slotForm n sl" and "n < 128"
  shows "validMsg (updateChecksum sl)"
proof -
  have f: "framed sl" "3 \<le> length sl" "bit (opCode sl) 7"
    using assms slotForm_size [OF assms(1)] by (simp_all add: slotForm_def framed_def)
  have "\<not> bit (butlast (tl sl) ! i) 7" if "i < length (butlast (tl sl))" for i
  proof -
    have e: "butlast (tl sl) ! i = sl ! (i + 1)" "i < 12"
      using that assms(1) by (simp_all add: nth_butlast nth_tl slotForm_def)
    have "\<not> bit (of_nat n :: u8) 7" using assms(2) u8_below_128 [of "of_nat n"] by (simp add: unat_of_nat)
    then show ?thesis
      using e assms(1) slotForm_bit [OF assms(1), of "i + 1"]
      by (cases "i = 0"; cases "i = 1") (simp_all add: slotForm_def numeral_2_eq_2)
  qed
  then have "isValid (updateChecksum sl)" using f by (intro isValid_updateChecksum) (simp_all add: low7_nth)
  moreover have "framed (updateChecksum sl)"
    using slotForm_size [OF slotForm_setters(4) [OF assms(1)]] assms(1)
    by (simp add: framed_def slotForm_def updateChecksum_def)
  ultimately show ?thesis by (simp add: validMsg_def)
qed

text \<open>What the operations leave of the address, the busy flag and the slot number.\<close>

lemma slot_fields:
  assumes "slotForm n sl"
  shows "SlotReadData_address (SlotReadData_setBusy v sl) = SlotReadData_address sl"
    "SlotReadData_address (updateActive sl) = SlotReadData_address sl"
    "SlotReadData_address (updateChecksum sl) = SlotReadData_address sl"
    "SlotReadData_isBusy (SlotReadData_setBusy v sl) = v"
    "SlotReadData_isBusy (SlotReadData_setAddress a sl) = SlotReadData_isBusy sl"
    "SlotReadData_isBusy (updateActive sl) = SlotReadData_isBusy sl"
    "SlotReadData_isBusy (updateChecksum sl) = SlotReadData_isBusy sl"
    "pos = 5 \<or> pos = 6 \<or> pos = 10 \<Longrightarrow> SlotReadData_address (sl[pos := b]) = SlotReadData_address sl"
    "pos = 5 \<or> pos = 6 \<or> pos = 10 \<Longrightarrow> SlotReadData_isBusy (sl[pos := b]) = SlotReadData_isBusy sl"
  using assms slotForm_size [OF assms]
  by (auto simp: slotForm_def SlotReadData_address_def SlotReadData_setBusy_def SlotReadData_setActive_def
      SlotReadData_setAddress_def updateActive_def updateChecksum_def SlotReadData_isBusy_def flag_simps
      nth_list_update)

section \<open>The invariant\<close>

text \<open>
  Every slot is slot data with its number; an address is in one slot only, and that slot is busy;
  every module has its own address.
\<close>

definition stationInv :: "Station \<Rightarrow> bool" where
  "stationInv st \<longleftrightarrow> length (st_locoSlots st) = 119 \<and>
    (\<forall>i < 119. slotForm (i + 1) (st_locoSlots st ! i)) \<and>
    (\<forall>i < 119. SlotReadData_address (st_locoSlots st ! i) \<noteq> 0 \<longrightarrow> SlotReadData_isBusy (st_locoSlots st ! i)) \<and>
    (\<forall>i < 119. \<forall>j < 119. SlotReadData_address (st_locoSlots st ! i) \<noteq> 0 \<longrightarrow>
      SlotReadData_address (st_locoSlots st ! i) = SlotReadData_address (st_locoSlots st ! j) \<longrightarrow> i = j) \<and>
    (\<forall>md \<in> set (st_lncvModules st). lm_lncvs md 0 \<noteq> None)"

text \<open>A slot may be replaced by one of the same form, address and busy flag.\<close>

lemma stationInv_replace:
  assumes "stationInv st" and "i < 119" and "slotForm (i + 1) sl"
    and "SlotReadData_address sl = SlotReadData_address (st_locoSlots st ! i)"
    and "SlotReadData_isBusy sl = SlotReadData_isBusy (st_locoSlots st ! i)"
  shows "stationInv (st\<lparr>st_locoSlots := (st_locoSlots st)[i := sl]\<rparr>)"
proof -
  let ?slots = "(st_locoSlots st)[i := sl]"
  have len: "length (st_locoSlots st) = 119" using assms(1) by (simp add: stationInv_def)
  have same: "SlotReadData_address (?slots ! k) = SlotReadData_address (st_locoSlots st ! k)"
    "SlotReadData_isBusy (?slots ! k) = SlotReadData_isBusy (st_locoSlots st ! k)" for k
    using assms(2,4,5) len by (cases "k = i"; simp)+
  have "slotForm (k + 1) (?slots ! k)" if "k < 119" for k
    using assms(1,3) len that by (cases "k = i") (simp_all add: stationInv_def)
  then show ?thesis using assms(1) unfolding stationInv_def by (simp add: same)
qed

lemma find_slot_Some:
  assumes "find_slot P slots = Some i"
  shows "i < length slots" and "P (slots ! i)"
  using assms nth_length_takeWhile [of "Not \<circ> P" slots] by (auto simp: find_slot_def Let_def split: if_splits)

lemma find_slot_None: "find_slot P slots = None \<Longrightarrow> i < length slots \<Longrightarrow> \<not> P (slots ! i)"
proof -
  assume *: "find_slot P slots = None" "i < length slots"
  then have "length slots \<le> length (takeWhile (Not \<circ> P) slots)"
    by (auto simp: find_slot_def Let_def split: if_splits)
  then have "takeWhile (Not \<circ> P) slots = slots"
    by (metis takeWhile_eq_take take_all)
  then show "\<not> P (slots ! i)" using *(2) by (metis comp_apply nth_mem takeWhile_eq_all_conv)
qed

section \<open>Answers keep the invariant\<close>

text \<open>An answer: the invariant holds, what is answered is valid, and addresses given stay.\<close>

definition answerOk :: "Station \<Rightarrow> bytes list \<times> Station \<Rightarrow> bool" where
  "answerOk st r \<longleftrightarrow> stationInv (snd r) \<and> list_all validMsg (fst r) \<and>
    (\<forall>i < 119. SlotReadData_address (st_locoSlots st ! i) \<noteq> 0 \<longrightarrow>
      SlotReadData_address (st_locoSlots (snd r) ! i) = SlotReadData_address (st_locoSlots st ! i))"

lemma answerOk_none [simp]: "stationInv st \<Longrightarrow> answerOk st ([], st)"
  by (simp add: answerOk_def)

lemma answerOk_msg [simp]: "stationInv st \<Longrightarrow> validMsg m \<Longrightarrow> answerOk st ([m], st)"
  by (simp add: answerOk_def)

lemma stationInv_slot:
  assumes "stationInv st" and "i < 119"
  shows "slotForm (i + 1) (st_locoSlots st ! i)" and "i < length (st_locoSlots st)"
  using assms by (simp_all add: stationInv_def)

lemma reply_slot_ok:
  assumes "stationInv st" and "i < 119"
  shows "answerOk st (reply_slot i st)"
    and "fst (reply_slot i st) = [updateChecksum (st_locoSlots st ! i)]"
proof -
  note f = stationInv_slot [OF assms]
  have "stationInv (snd (reply_slot i st))"
    using stationInv_replace [OF assms slotForm_setters(4) [OF f(1)]] slot_fields [OF f(1)]
    by (simp add: reply_slot_def Let_def)
  moreover have "validMsg (updateChecksum (st_locoSlots st ! i))"
    using slotForm_valid [OF f(1)] assms(2) by simp
  ultimately show "answerOk st (reply_slot i st)"
    using f(2) slot_fields(3) [OF f(1)] by (auto simp: answerOk_def reply_slot_def Let_def nth_list_update)
  show "fst (reply_slot i st) = [updateChecksum (st_locoSlots st ! i)]" by (simp add: reply_slot_def Let_def)
qed

text \<open>The data bytes of a valid message.\<close>

lemma validMsg_data: "validMsg m \<Longrightarrow> 0 < i \<Longrightarrow> i < length m \<Longrightarrow> \<not> bit (m ! i) 7"
  by (auto simp: validMsg_def isValid_iff low7_nth nth_tl dest!: spec [of _ "i - 1"])

lemma validMsg_length4:
  assumes "validMsg m" and "opCode m AND 0xE0 = 0xA0"
  shows "length m = 4"
  using assms by (simp add: validMsg_def framed_def msg_size_def)

lemma sim_setSlot_ok:
  assumes "stationInv st" and "validMsg m" and "opCode m AND 0xE0 = 0xA0" and "pos = 5 \<or> pos = 6 \<or> pos = 10"
  shows "answerOk st ([], sim_setSlot pos m st)"
proof (cases "isLocoSlot (m ! 1)")
  case True
  let ?i = "unat (m ! 1) - 1"
  let ?old = "st_locoSlots st ! ?i"
  let ?sl = "updateActive (?old[pos := m ! 2])"
  have i: "?i < 119" using True by (auto simp: isLocoSlot_unat)
  note f = stationInv_slot [OF assms(1) i]
  have "\<not> bit (m ! 2) 7" using validMsg_data [OF assms(2), of 2] validMsg_length4 [OF assms(2,3)] by simp
  then have up: "slotForm (?i + 1) (?old[pos := m ! 2])"
    using assms(4) by (intro slotForm_update f(1)) auto
  have a: "SlotReadData_address ?sl = SlotReadData_address ?old" "SlotReadData_isBusy ?sl = SlotReadData_isBusy ?old"
    using slot_fields(2,6) [OF up] slot_fields(8,9) [OF f(1) assms(4)] by simp_all
  have "stationInv (st\<lparr>st_locoSlots := (st_locoSlots st)[?i := ?sl]\<rparr>)"
    by (rule stationInv_replace [OF assms(1) i slotForm_setters(5) [OF up] a])
  then show ?thesis
    using True a f(2) by (auto simp: answerOk_def sim_setSlot_def Let_def nth_list_update)
qed (simp add: sim_setSlot_def assms(1))

lemma find_slot_station:
  assumes "stationInv st" and "find_slot P (st_locoSlots st) = Some i"
  shows "i < 119" and "P (st_locoSlots st ! i)"
  using find_slot_Some [OF assms(2)] assms(1) by (simp_all add: stationInv_def)

text \<open>A request for an address that no slot has takes a free one.\<close>

lemma LocoAdr_address_bound:
  assumes "validMsg m" and "opCode m = OPC_LOCO_ADR"
  shows "unat (LocoAdr_address m) < 16384"
proof -
  have len: "length m = 4" using validMsg_length4 [OF assms(1)] assms(2) by simp
  have "unat (LocoAdr_address m) < 2 ^ 14"
  proof (rule bound_of_bits)
    fix k :: nat
    assume "14 \<le> k"
    moreover have "\<not> bit (m ! 1) 7" using validMsg_data [OF assms(1), of 1] len by simp
    ultimately show "\<not> bit (LocoAdr_address m) k"
      by (cases "k = 14") (auto simp: LocoAdr_address_def bit_simps)
  qed
  then show ?thesis by simp
qed

lemma new_address_ok:
  assumes "stationInv st" and "i < 119" and "SlotReadData_isFree (st_locoSlots st ! i)"
    and "\<And>j. j < 119 \<Longrightarrow> SlotReadData_address (st_locoSlots st ! j) \<noteq> a" and "unat a < 16384"
  defines "sl \<equiv> SlotReadData_setAddress a (SlotReadData_setBusy True (st_locoSlots st ! i))"
  shows "answerOk st (reply_slot i (st\<lparr>st_locoSlots := (st_locoSlots st)[i := sl]\<rparr>))"
    and "SlotReadData_address sl = a"
proof -
  let ?slots = "st_locoSlots st" and ?st = "st\<lparr>st_locoSlots := (st_locoSlots st)[i := sl]\<rparr>"
  note f = stationInv_slot [OF assms(1,2)]
  have len: "length ?slots = 119" using assms(1) by (simp add: stationInv_def)
  have b: "slotForm (i + 1) (SlotReadData_setBusy True (?slots ! i))" by (rule slotForm_setters(1) [OF f(1)])
  have sl: "slotForm (i + 1) sl" unfolding sl_def by (rule slotForm_setters(3) [OF b])
  show adr: "SlotReadData_address sl = a"
    unfolding sl_def using b by (intro SlotReadData_address_roundtrip assms(5)) (simp add: slotForm_def)
  have busy: "SlotReadData_isBusy sl" unfolding sl_def using slot_fields(5) [OF b] slot_fields(4) [OF f(1)] by simp
  have old: "SlotReadData_address (?slots ! i) = 0"
    using assms(1-3) by (auto simp: stationInv_def SlotReadData_isFree_def)
  have nth: "?slots[i := sl] ! k = (if k = i then sl else ?slots ! k)" for k
    using len assms(2) by (simp add: nth_list_update)
  have inv: "stationInv ?st"
    unfolding stationInv_def
  proof (intro conjI allI impI)
    show "length (st_locoSlots ?st) = 119" using len by simp
    show "slotForm (k + 1) (st_locoSlots ?st ! k)" if "k < 119" for k
      using that sl stationInv_slot(1) [OF assms(1) that] by (simp add: nth)
    show "SlotReadData_isBusy (st_locoSlots ?st ! k)"
      if "k < 119" "SlotReadData_address (st_locoSlots ?st ! k) \<noteq> 0" for k
      using that busy assms(1) by (auto simp: nth stationInv_def)
    show "k = j" if "k < 119" "j < 119" "SlotReadData_address (st_locoSlots ?st ! k) \<noteq> 0"
      "SlotReadData_address (st_locoSlots ?st ! k) = SlotReadData_address (st_locoSlots ?st ! j)" for k j
    proof (cases "k = i \<or> j = i")
      case True
      then show ?thesis using that assms(4) [of k] assms(4) [of j] adr by (auto simp: nth split: if_splits)
    next
      case False
      then show ?thesis using that assms(1) unfolding stationInv_def by (simp add: nth)
    qed
    show "\<forall>md \<in> set (st_lncvModules ?st). lm_lncvs md 0 \<noteq> None"
      using assms(1) by (simp add: stationInv_def)
  qed
  have r: "answerOk ?st (reply_slot i ?st)" by (rule reply_slot_ok(1) [OF inv assms(2)])
  have "SlotReadData_address (st_locoSlots (snd (reply_slot i ?st)) ! k) =
      SlotReadData_address (st_locoSlots st ! k)"
    if k: "k < 119" "SlotReadData_address (st_locoSlots st ! k) \<noteq> 0" for k
  proof -
    have "st_locoSlots ?st ! k = st_locoSlots st ! k" using k old by (auto simp: nth)
    then show ?thesis using r k unfolding answerOk_def by simp
  qed
  then show "answerOk st (reply_slot i ?st)"
    using r unfolding answerOk_def by blast
qed

lemma LongAck_ok: "validMsg (LongAck opc 0)" "validMsg (LongAck opc 0x7F)"
  using LongAck_valid [of 0 opc] LongAck_valid [of "0x7F" opc] by (simp_all add: validMsg_def bit_simps)

lemma sim_LOCO_ADR_ok:
  assumes "stationInv st" and "validMsg m" and "opCode m = OPC_LOCO_ADR"
  shows "answerOk st (sim_LOCO_ADR m st)"
proof (cases "find_slot (\<lambda>sl. SlotReadData_address sl = LocoAdr_address m) (st_locoSlots st)")
  case (Some i)
  then show ?thesis
    using reply_slot_ok(1) [OF assms(1) find_slot_station(1) [OF assms(1) Some]] by (simp add: sim_LOCO_ADR_def)
next
  case None
  show ?thesis
  proof (cases "find_slot SlotReadData_isFree (st_locoSlots st)")
    case (Some i)
    have "SlotReadData_address (st_locoSlots st ! j) \<noteq> LocoAdr_address m" if "j < 119" for j
      using find_slot_None [OF None] that assms(1) by (simp add: stationInv_def)
    then show ?thesis
      using None Some new_address_ok(1) [OF assms(1) find_slot_station [OF assms(1) Some] _
          LocoAdr_address_bound [OF assms(2,3)]]
      by (simp add: sim_LOCO_ADR_def Let_def)
  qed (simp add: sim_LOCO_ADR_def None LongAck_ok assms(1))
qed

lemma over_modules_ok:
  assumes "stationInv st"
    and "\<And>md. md \<in> set (st_lncvModules st) \<Longrightarrow> list_all validMsg (fst (f md)) \<and> lm_lncvs (snd (f md)) 0 \<noteq> None"
  shows "answerOk st (over_modules f st)"
  using assms by (auto simp: answerOk_def over_modules_def stationInv_def list_all_iff)

lemma sim_IMM_PACKET_ok:
  assumes "stationInv st"
  shows "answerOk st (sim_IMM_PACKET m st)"
proof -
  have md: "lm_lncvs md 0 \<noteq> None" if "md \<in> set (st_lncvModules st)" for md
    using assms that by (simp add: stationInv_def)
  have "answerOk st (over_modules (module_start m) st)" "answerOk st (over_modules (module_read m) st)"
    "answerOk st (over_modules (module_write m) st)" "answerOk st (over_modules (module_stop m) st)"
    by (rule over_modules_ok [OF assms],
        use md LNCV_valid(5) LongAck_ok in \<open>auto simp: module_start_def module_read_def module_write_def
          module_stop_def validMsg_def split: option.split\<close>)+
  then show ?thesis by (simp add: sim_IMM_PACKET_def assms LongAck_ok)
qed

lemma sim_answer_ok:
  assumes "stationInv st" and "validMsg m"
  shows "answerOk st (sim_answer m st)"
proof -
  have "answerOk st (sim_RQ_SL_DATA m st)"
  proof (cases "isLocoSlot (RequestSlotData_slot m)")
    case True
    then have "unat (RequestSlotData_slot m) - 1 < 119" by (auto simp: isLocoSlot_unat)
    then show ?thesis using True reply_slot_ok(1) [OF assms(1)] by (simp add: sim_RQ_SL_DATA_def)
  qed (simp add: sim_RQ_SL_DATA_def assms)
  then show ?thesis
    using sim_LOCO_ADR_ok [OF assms] sim_IMM_PACKET_ok [OF assms(1), of m] sim_setSlot_ok [OF assms] assms(1)
    by (simp add: sim_answer_def LongAck_ok)
qed

lemma sim_send_ok:
  assumes "stationInv st" and "validMsg m"
  shows "answerOk st (sim_send m st)"
  using sim_answer_ok [OF assms] assms(2)
  by (auto simp: sim_send_def answerOk_def Let_def validMsg_def framed_def)

lemma stationInv_construct: "stationInv Station_construct"
proof -
  have form: "slotForm (i + 1) (st_locoSlots Station_construct ! i)" if "i < 119" for i
  proof -
    have nth: "st_locoSlots Station_construct ! i = (SlotReadData 0)[2 := of_nat (i + 1)]"
      using that by (simp add: Station_construct_def)
    have "\<not> bit (SlotReadData 0 ! j) 7" if "3 \<le> j" "j < 13" for j
    proof -
      have "j = 3 \<or> j = 4 \<or> j = 5 \<or> j = 6 \<or> j = 7 \<or> j = 8 \<or> j = 9 \<or> j = 10 \<or> j = 11 \<or> j = 12"
        using that by arith
      then show ?thesis by (auto simp: SlotReadData_def seal_def nth_append)
    qed
    then show ?thesis
      unfolding nth slotForm_def by (simp add: nth_list_update) (simp add: SlotReadData_def seal_def)
  qed
  have adr: "SlotReadData_address (st_locoSlots Station_construct ! i) = 0" if "i < 119" for i
    using that
    by (simp add: Station_construct_def SlotReadData_address_def nth_list_update)
      (simp add: SlotReadData_def seal_def nth_append)
  show ?thesis
    unfolding stationInv_def
  proof (intro conjI allI impI)
    show "length (st_locoSlots Station_construct) = 119" by (simp add: Station_construct_def)
    show "\<forall>md \<in> set (st_lncvModules Station_construct). lm_lncvs md 0 \<noteq> None"
      by (simp add: Station_construct_def)
  qed (use form adr in auto)
qed

text \<open>Any sequence of messages.\<close>

fun sim_run :: "bytes list \<Rightarrow> Station \<Rightarrow> bytes list \<times> Station" where
  "sim_run [] st = ([], st)"
| "sim_run (m # ms) st = (let a = sim_send m st; r = sim_run ms (snd a) in (fst a @ fst r, snd r))"

lemma sim_run_ok: "stationInv st \<Longrightarrow> list_all validMsg ms \<Longrightarrow> answerOk st (sim_run ms st)"
proof (induction ms arbitrary: st)
  case (Cons m ms)
  have a: "answerOk st (sim_send m st)" using Cons.prems by (simp add: sim_send_ok)
  then have "answerOk (snd (sim_send m st)) (sim_run ms (snd (sim_send m st)))"
    using Cons by (simp add: answerOk_def)
  then show ?case using a by (auto simp: answerOk_def Let_def)
qed (simp add: answerOk_def)

section \<open>Answers are responses\<close>

lemma LongAck_bytes: "LongAck opc ack ! 0 = OPC_LONG_ACK" "LongAck_respondingOpCode (LongAck opc ack) = 0x80 OR (opc AND 0x7F)"
  by (simp_all add: LongAck_def LongAck_respondingOpCode_def seal_def)

lemma LongAck_isValidResponse:
  assumes "validMsg m"
  shows "isValidResponse m (LongAck (opCode m) ack) = Some True"
proof -
  have "bit (opCode m) 7" using isValid_framed_opCode assms by (simp add: validMsg_def)
  then have "0x80 OR (opCode m AND 0x7F) = opCode m" by (intro u8_eqI) (simp_all add: bit_simps)
  then show ?thesis by (simp add: isValidResponse_def LongAck_bytes)
qed

lemma slotForm_bytes:
  assumes "slotForm n sl"
  shows "updateChecksum sl ! 0 = OPC_SL_RD_DATA" "updateChecksum sl ! 2 = of_nat n"
    "updateChecksum sl ! 4 = sl ! 4" "updateChecksum sl ! 9 = sl ! 9"
  using assms slotForm_size [OF assms] by (simp_all add: updateChecksum_def slotForm_def)

lemma address_bytes:
  assumes "slotForm n sl" and "SlotReadData_address sl = LocoAdr_address m" and "\<not> bit (m ! 1) 7" and "\<not> bit (m ! 2) 7"
  shows "m ! 2 = sl ! 4" and "m ! 1 = sl ! 9"
proof -
  have b: "\<not> bit (sl ! 4) 7" "\<not> bit (sl ! 9) 7" using slotForm_bit [OF assms(1)] by simp_all
  have eq: "bit (SlotReadData_address sl) k = bit (LocoAdr_address m) k" for k using assms(2) by simp
  show "m ! 2 = sl ! 4"
    using eq [of 0] eq [of 1] eq [of 2] eq [of 3] eq [of 4] eq [of 5] eq [of 6] b assms(3,4)
    by (intro u8_eqI) (simp_all add: SlotReadData_address_def LocoAdr_address_def bit_simps)
  show "m ! 1 = sl ! 9"
    using eq [of 7] eq [of 8] eq [of 9] eq [of 10] eq [of 11] eq [of 12] eq [of 13] b assms(3,4)
    by (intro u8_eqI) (simp_all add: SlotReadData_address_def LocoAdr_address_def bit_simps)
qed

lemma LOCO_ADR_response:
  assumes "validMsg m" and "opCode m = OPC_LOCO_ADR" and "slotForm n sl"
    and "SlotReadData_address sl = LocoAdr_address m"
  shows "isValidResponse m (updateChecksum sl) = Some True"
proof -
  have len: "length m = 4" using validMsg_length4 [OF assms(1)] assms(2) by simp
  have "\<not> bit (m ! 1) 7" "\<not> bit (m ! 2) 7"
    using validMsg_data [OF assms(1), of 1] validMsg_data [OF assms(1), of 2] len by simp_all
  from address_bytes [OF assms(3,4) this] show ?thesis
    using assms(2) slotForm_bytes [OF assms(3)] by (simp add: isValidResponse_def)
qed

lemma sim_LOCO_ADR_answer:
  assumes "stationInv st" and "validMsg m" and "opCode m = OPC_LOCO_ADR"
  shows "\<exists>r. fst (sim_LOCO_ADR m st) = [r] \<and> isValidResponse m r = Some True"
proof (cases "find_slot (\<lambda>sl. SlotReadData_address sl = LocoAdr_address m) (st_locoSlots st)")
  case (Some i)
  note i = find_slot_station [OF assms(1) Some]
  then show ?thesis
    using Some reply_slot_ok(2) [OF assms(1) i(1)]
      LOCO_ADR_response [OF assms(2,3) stationInv_slot(1) [OF assms(1) i(1)]]
    by (simp add: sim_LOCO_ADR_def)
next
  case None
  show ?thesis
  proof (cases "find_slot SlotReadData_isFree (st_locoSlots st)")
    case (Some i)
    note i = find_slot_station [OF assms(1) Some]
    let ?sl = "SlotReadData_setAddress (LocoAdr_address m) (SlotReadData_setBusy True (st_locoSlots st ! i))"
    have f: "slotForm (i + 1) ?sl" by (intro slotForm_setters stationInv_slot(1) [OF assms(1) i(1)])
    have a: "SlotReadData_address ?sl = LocoAdr_address m"
      using f by (intro SlotReadData_address_roundtrip LocoAdr_address_bound [OF assms(2,3)])
        (simp add: slotForm_def SlotReadData_setAddress_def)
    show ?thesis
      using None Some stationInv_slot(2) [OF assms(1) i(1)] LOCO_ADR_response [OF assms(2,3) f a]
      by (simp add: sim_LOCO_ADR_def Let_def reply_slot_def)
  next
    case N: None
    then show ?thesis using None LongAck_isValidResponse [OF assms(2)] by (simp add: sim_LOCO_ADR_def)
  qed
qed

lemma module_answers:
  assumes "opCode m = OPC_IMM_PACKET" and "length m = 15" and "validMsg m"
  shows "LNCVStart_check m \<Longrightarrow> r \<in> set (fst (module_start m md)) \<Longrightarrow> isValidResponse m r = Some True"
    and "LNCVRead_check m \<Longrightarrow> r \<in> set (fst (module_read m md)) \<Longrightarrow> isValidResponse m r = Some True"
    and "LNCVWrite_check m \<Longrightarrow> r \<in> set (fst (module_write m md)) \<Longrightarrow> isValidResponse m r = Some True"
    and "r \<notin> set (fst (module_stop m md))"
proof -
  have op: "LNCVReadResponse i n v ! 0 = OPC_PEER_XFER" for i n v
    using LNCVReadResponse_check_own [of i n v] by (simp add: LNCVReadResponse_check_def PeerXferDataMessage_check_def)
  show "LNCVStart_check m \<Longrightarrow> r \<in> set (fst (module_start m md)) \<Longrightarrow> isValidResponse m r = Some True"
    using LNCV_check_exclusive [OF assms(2)] assms(1)
    by (auto simp: module_start_def isValidResponse_def op LNCVReadResponse_check_own LNCVReadResponse_reads split: if_splits)
  show "LNCVRead_check m \<Longrightarrow> r \<in> set (fst (module_read m md)) \<Longrightarrow> isValidResponse m r = Some True"
    using LNCV_check_exclusive [OF assms(2)] assms(1)
    by (auto simp: module_read_def isValidResponse_def op LNCVReadResponse_check_own LNCVReadResponse_reads
        split: if_splits option.splits)
  show "LNCVWrite_check m \<Longrightarrow> r \<in> set (fst (module_write m md)) \<Longrightarrow> isValidResponse m r = Some True"
    using LongAck_isValidResponse [OF assms(3)] by (auto simp: module_write_def split: if_splits option.splits)
  show "r \<notin> set (fst (module_stop m md))" by (simp add: module_stop_def)
qed

lemma check_length15:
  "validMsg m \<Longrightarrow> ImmPacketDataMessage_check m \<Longrightarrow> opCode m = OPC_IMM_PACKET \<and> length m = 15"
  by (auto simp: ImmPacketDataMessage_check_def validMsg_def framed_def msg_size_def)

lemma sim_IMM_PACKET_answer:
  assumes "validMsg m" and "opCode m = OPC_IMM_PACKET" and "r \<in> set (fst (sim_IMM_PACKET m st))"
  shows "isValidResponse m r = Some True"
proof -
  have len: "length m = 15" if "LNCVStart_check m \<or> LNCVRead_check m \<or> LNCVWrite_check m \<or> LNCVStop_check m"
    using that check_length15 [OF assms(1)]
    by (auto simp: LNCVStart_check_def LNCVRead_check_def LNCVWrite_check_def LNCVStop_check_def)
  show ?thesis
    using assms(3) module_answers [OF assms(2) len assms(1)] LongAck_isValidResponse [OF assms(1)]
    by (auto simp: sim_IMM_PACKET_def over_modules_def split: if_splits)
qed

text \<open>Whatever is answered to a message that expects a response is a valid response to it.\<close>

lemma sim_answer_responds:
  assumes "stationInv st" and "validMsg m" and "r \<in> set (fst (sim_answer m st))"
  shows "isValidResponse m r = Some True"
proof -
  have rq: "isValidResponse m r = Some True" if "opCode m = OPC_RQ_SL_DATA" "r \<in> set (fst (sim_RQ_SL_DATA m st))"
  proof -
    let ?i = "unat (RequestSlotData_slot m) - 1"
    have s: "isLocoSlot (RequestSlotData_slot m)" using that(2) by (auto simp: sim_RQ_SL_DATA_def split: if_splits)
    then have i: "?i < 119" "?i + 1 = unat (RequestSlotData_slot m)" by (auto simp: isLocoSlot_unat)
    note f = stationInv_slot(1) [OF assms(1) i(1)]
    have "r = updateChecksum (st_locoSlots st ! ?i)"
      using that(2) s reply_slot_ok(2) [OF assms(1) i(1)] by (simp add: sim_RQ_SL_DATA_def)
    then show ?thesis
      using that(1) slotForm_bytes [OF f] i(2) by (simp add: isValidResponse_def SlotReadData_slot_def)
  qed
  show ?thesis
    using assms(3) rq sim_LOCO_ADR_answer [OF assms(1,2)] sim_IMM_PACKET_answer [OF assms(2)]
      LongAck_isValidResponse [OF assms(2)]
    by (auto simp: sim_answer_def split: if_splits)
qed

end
