(* ===== verification/LocoNet_IO_Properties.thy ===== *)
theory LocoNet_IO_Properties
  imports LocoNet_Stream LocoNet_LBServer LocoNet_Simulation
begin

text \<open>
  The properties of the LocoNet IO handlers: the byte streams of the serial port and of the binary
  TCP connection, the text protocol of a LoconetOverTcp server, and the simulated command station.
\<close>

section \<open>Byte streams\<close>

text \<open>
  C20. However the stream of some valid messages and the start of another is cut into reads, and
  whatever the memory behind the bytes holds, the reads hand exactly these messages to the kernel, in
  order, drop nothing and keep the start of the last one.
\<close>

theorem binary_stream_chunks:
  assumes "list_all validMsg ms" and "p = [] \<or> (\<exists>m. validMsg m \<and> strict_prefix p m)"
    and "concat (map snd chunks) = concat ms @ p"
  shows "feed binary_loop chunks [] = (map IoReceive ms, p)"
proof (rule binary.feed_chunks)
  show "list_all binary_ok (map IoReceive ms)" using assms(1) by (simp add: list_all_iff)
  show "binary.begun p"
    using assms(2) unfolding binary.begun_def by (metis binary_enc.simps(1) binary_ok.simps(1))
  show "binary.begun []" by (simp add: binary.begun_def)
  have "concat (map binary_enc (map IoReceive ms)) = concat ms" by (simp add: comp_def)
  then show "[] @ concat (map snd chunks) = concat (map binary_enc (map IoReceive ms)) @ p"
    using assms(3) by simp
qed

theorem binary_stream_chunks_witness:
  "feed binary_loop [([0x00], [0x83]), ([], [0x7C, 0x82]), ([0xFF, 0xFF], [0x7D])] [] =
    ([IoReceive GlobalPowerOn, IoReceive GlobalPowerOff], [])"
proof -
  have v: "list_all validMsg [GlobalPowerOn, GlobalPowerOff]"
    by (simp add: validMsg_def framed_def msg_size_def isValid_def isChecksumValid_def calcChecksum_def
        GlobalPowerOn_def GlobalPowerOff_def seal_def)
  have "concat (map snd [([0x00 :: u8], [0x83 :: u8]), ([], [0x7C, 0x82]), ([0xFF, 0xFF], [0x7D])]) =
      concat [GlobalPowerOn, GlobalPowerOff] @ []"
    by (simp add: GlobalPowerOn_def GlobalPowerOff_def seal_def calcChecksum_def msg_size_def)
  from binary_stream_chunks [OF v disjI1 [OF refl] this] show ?thesis by simp
qed

text \<open>
  Whatever bytes arrive, what the kernel is handed is a valid message (or the one byte FF, which
  the code takes for a message when 01 follows it); every byte is received, dropped or kept; and what
  is kept is shorter than 255 bytes, so that the read buffer always has room for the next read.
\<close>

theorem binary_stream_safe:
  "(\<forall>m. IoReceive m \<in> set (fst (binary_loop s p)) \<longrightarrow> validMsg m \<or> m = [0xFF]) \<and>
   sum_list (map event_size (fst (binary_loop s p))) + length (snd (binary_loop s p)) = length p \<and>
   length (snd (binary_loop s p)) < 255"
  using binary_loop_received [of _ s p] binary_loop_conserves [of s p] binary_loop_rest_254 [of s p]
  by (auto simp del: binary_loop.simps)

theorem binary_stream_safe_witness:
  "IoReceive [0x83, 0x7C] \<in> set (fst (binary_loop [] [0x00, 0x83, 0x7C, 0xA0])) \<and> isValid [0x83, 0x7C]"
proof -
  have "IoReceive [0x83, 0x7C] \<in> set (fst (binary_loop [] [0x00, 0x83, 0x7C, 0xA0]))" by code_simp
  then show ?thesis using binary_stream_safe [of "[]" "[0x00, 0x83, 0x7C, 0xA0]"] by (auto simp: validMsg_def)
qed

text \<open>
  In any run of sends and completed writes, the bytes written to the serial port followed by those
  that wait are the accepted messages, in order; never more than 1024 bytes wait; and while bytes
  wait, a write is in progress.
\<close>

theorem serial_writes_in_order:
  assumes "write_run serial_send writer_written w_buffer w_issued es writer_init = (out, ms, w)"
    and "\<And>m. WrSend m \<in> set es \<Longrightarrow> framed m"
  shows "out @ w_buffer w = concat ms \<and> length (w_buffer w) \<le> serial_bufferSize \<and>
    (w_buffer w \<noteq> [] \<longrightarrow> (\<exists>n. w_issued w = Some n \<and> 0 < n))"
proof -
  have l: "serial_writer.live writer_init" by (simp add: serial_writer.live_def writer_init_def)
  have "out @ w_buffer w = concat ms"
    using serial_writer.write_run_stream [OF l assms(2,1)] by (simp add: writer_init_def)
  moreover have "serial_writer.live w"
    using serial_writer.write_run_live [OF l, of es] assms by simp
  ultimately show ?thesis by (auto simp: serial_writer.live_def split: option.splits)
qed

theorem serial_writes_in_order_witness:
  "\<exists>w. write_run serial_send writer_written w_buffer w_issued
      [WrSend [0x83, 0x7C], WrSend [0x82, 0x7D], WrDone 1] writer_init = ([0x83], [[0x83, 0x7C], [0x82, 0x7D]], w) \<and>
    w_buffer w = [0x7C, 0x82, 0x7D]"
proof -
  let ?es = "[WrSend [0x83, 0x7C], WrSend [0x82, 0x7D], WrDone 1] :: write_event list"
  have run: "write_run serial_send writer_written w_buffer w_issued ?es writer_init =
      ([0x83], [[0x83, 0x7C], [0x82, 0x7D]], \<lparr>w_buffer = [0x7C, 0x82, 0x7D], w_issued = Some 3\<rparr>)"
    by (simp add: serial_send_def writer_init_def writer_write_def writer_written_def msg_size_def)
  have fr: "framed m" if "WrSend m \<in> set ?es" for m
    using that by (auto simp: framed_def msg_size_def)
  have "[0x83] @ w_buffer \<lparr>w_buffer = [0x7C, 0x82, 0x7D], w_issued = Some 3\<rparr> = concat [[0x83, 0x7C], [0x82, 0x7D]]"
    using serial_writes_in_order [OF run fr] by blast
  then show ?thesis using run by simp
qed

section \<open>LoconetOverTcp server\<close>

text \<open>
  Valid messages that the server sends as RECEIVE lines, one line each, are handed to the kernel,
  exactly they and in order, however the text is cut into reads; each message survives being written
  as hexadecimal bytes and read back.
\<close>

theorem lbserver_stream:
  assumes "list_all validMsg ms" and "concat (map snd chunks) = concat (map (\<lambda>m. receiveLine m @ [CHR 0x0A]) ms)"
  shows "\<exists>ls. feed (\<lambda>_ :: unit. lb_loop) chunks [] = (ls, []) \<and>
    lb_lines ls h = Some (h\<lparr>lb_received := lb_received h @ ms\<rparr>)"
proof (intro exI conjI)
  have plain: "lb_text (receiveLine m)" for m
  proof -
    have "list_all (Not \<circ> isEol) (toHex8 b)" for b
    proof -
      have "unat (drop_bit 4 b AND 0xF) < 16" "unat (b AND 0xF) < 16"
        using word_and_le1 [of "drop_bit 4 b" "0xF"] word_and_le1 [of b "0xF"] by (simp_all add: word_le_nat_alt)
      moreover have "\<not> isEol (toHexDigits ! n)" if "n < 16" for n
        using hexDigit_cases [OF that] by (elim disjE; simp add: toHexDigits_def isEol_def)
      ultimately show ?thesis by (simp add: toHex8_def)
    qed
    then show ?thesis
      by (simp add: lb_text_def receiveLine_def hexBytes_def list_all_iff isEol_def)
  qed
  show "feed (\<lambda>_ :: unit. lb_loop) chunks [] = (map receiveLine ms, [])"
  proof (rule lb.feed_chunks)
    show "list_all lb_text (map receiveLine ms)" using plain by (simp add: list_all_iff)
    show "[] @ concat (map snd chunks) = concat (map (\<lambda>l. l @ [CHR 0x0A]) (map receiveLine ms)) @ []"
      using assms(2) by (simp add: comp_def)
  qed (simp_all add: lb.begun_def)
  show "lb_lines (map receiveLine ms) h = Some (h\<lparr>lb_received := lb_received h @ ms\<rparr>)"
    by (rule lb_lines_receive [OF assms(1)])
qed

definition lb_server0 :: LBServer where
  "lb_server0 = \<lparr>lb_writeQueue = [], lb_version = [], lb_written = [], lb_received = []\<rparr>"

theorem lbserver_stream_witness:
  "\<exists>ls. feed (\<lambda>_ :: unit. lb_loop) [((), ''RECEIVE 8''), ((), ''3 7C'' @ [CHR 0x0A])] [] = (ls, []) \<and>
    lb_lines ls lb_server0 = Some (lb_server0\<lparr>lb_received := [[0x83, 0x7C]]\<rparr>)"
proof -
  have "list_all validMsg [[0x83, 0x7C]]"
    by (simp add: validMsg_def framed_def msg_size_def isValid_def isChecksumValid_def calcChecksum_def)
  note v = this
  have "concat (map snd [((), ''RECEIVE 8''), ((), ''3 7C'' @ [CHR 0x0A])]) =
      concat (map (\<lambda>m. receiveLine m @ [CHR 0x0A]) [[0x83, 0x7C]])"
    by (simp add: receiveLine_def hexBytes_def toHex8_def toHexDigits_def)
  from lbserver_stream [OF v this, of lb_server0] show ?thesis
    by (simp only: lb_server0_def LBServer.simps append_Nil)
qed

text \<open>
  The commands go to the server one at a time, in the order the messages were sent: what was
  written, followed by what waits behind the command in flight, is all of them.
\<close>

theorem lbserver_sends_in_order:
  assumes "lb_run es h = Some h'" and "lb_writeQueue h = []" and "lb_written h = []"
  shows "lb_written h' @ tl (lb_writeQueue h') = map formatSend (lb_sent es) \<and>
    (lb_writeQueue h' \<noteq> [] \<longrightarrow> lb_written h' \<noteq> [] \<and> last (lb_written h') = hd (lb_writeQueue h'))"
  using lb_inv_run [OF assms(1), of "[]"] assms(2,3) by (simp add: lb_inv_def)

theorem lbserver_sends_in_order_witness:
  "\<exists>h'. lb_run [Inl [0x83, 0x7C], Inl [0x82, 0x7D], Inr ''SENT OK''] lb_server0 = Some h' \<and>
    lb_written h' @ tl (lb_writeQueue h') = [formatSend [0x83, 0x7C], formatSend [0x82, 0x7D]]"
proof -
  have "\<exists>h'. lb_run [Inl [0x83, 0x7C], Inl [0x82, 0x7D], Inr ''SENT OK''] lb_server0 = Some h'"
    by (simp add: lb_server0_def lb_send_def lb_write_def lb_line_def Let_def)
  then obtain h' where r: "lb_run [Inl [0x83, 0x7C], Inl [0x82, 0x7D], Inr ''SENT OK''] lb_server0 = Some h'" by blast
  from lbserver_sends_in_order [OF r] show ?thesis using r by (auto simp: lb_server0_def)
qed

text \<open>
  Three lines a server may send are undefined behaviour in the handler: RECEIVE with no byte or
  with fewer bytes than the message has (the bytes are not counted before they are read), and SENT OK
  when nothing is in flight.
\<close>

theorem lbserver_undefined_lines:
  "lb_line ''RECEIVE '' h = None \<and> lb_line ''RECEIVE ?'' h = None \<and>
   lb_line (''RECEIVE '' @ toHex8 0x83) h = None \<and> lb_line ''SENT OK'' lb_server0 = None"
  using lb_line_undefined [of h] lb_line_undefined(4) [of lb_server0] by (simp add: lb_server0_def)

section \<open>Simulated command station\<close>

text \<open>
  C21. From its construction on and whatever valid messages the kernel sends, the simulated command
  station keeps 119 well-formed slots with no address in two of them, answers with valid messages
  only, and a slot never loses the address it has got.
\<close>

theorem station_invariant:
  assumes "list_all validMsg (ms1 @ ms2)"
  shows "stationInv (snd (sim_run ms1 Station_construct)) \<and>
    list_all validMsg (fst (sim_run ms2 (snd (sim_run ms1 Station_construct)))) \<and>
    (\<forall>i < 119. SlotReadData_address (st_locoSlots (snd (sim_run ms1 Station_construct)) ! i) \<noteq> 0 \<longrightarrow>
      SlotReadData_address (st_locoSlots (snd (sim_run ms2 (snd (sim_run ms1 Station_construct)))) ! i) =
      SlotReadData_address (st_locoSlots (snd (sim_run ms1 Station_construct)) ! i))"
proof -
  have a: "answerOk Station_construct (sim_run ms1 Station_construct)"
    using sim_run_ok [OF stationInv_construct, of ms1] assms by simp
  then have inv: "stationInv (snd (sim_run ms1 Station_construct))" by (simp add: answerOk_def)
  then have "answerOk (snd (sim_run ms1 Station_construct)) (sim_run ms2 (snd (sim_run ms1 Station_construct)))"
    using sim_run_ok [of _ ms2] assms by simp
  then show ?thesis using inv unfolding answerOk_def by blast
qed

theorem station_invariant_witness:
  "stationInv (snd (sim_run [LocoAdr 3] Station_construct))"
  using station_invariant [of "[LocoAdr 3]" "[]"] validMsg_LocoAdr [of 3] by simp

text \<open>
  Each message is echoed first; every answer after the echo is a response the kernel accepts for
  that message, and a request for the slot of an address is always answered.
\<close>

theorem station_responds:
  assumes "stationInv st" and "validMsg m"
  shows "\<exists>rs. fst (sim_send m st) = m # rs \<and> (\<forall>r \<in> set rs. isValidResponse m r = Some True) \<and>
    (opCode m = OPC_LOCO_ADR \<longrightarrow> length rs = 1)"
proof -
  have "take (msg_size m) m = m" using assms(2) by (simp add: validMsg_def framed_def)
  moreover have "opCode m = OPC_LOCO_ADR \<longrightarrow> length (fst (sim_answer m st)) = 1"
    using sim_LOCO_ADR_answer [OF assms] by (auto simp: sim_answer_def)
  ultimately show ?thesis
    using sim_answer_responds [OF assms] by (simp add: sim_send_def Let_def)
qed

theorem station_responds_witness:
  "\<exists>r. fst (sim_send (LocoAdr 3) Station_construct) = [LocoAdr 3, r] \<and>
    isValidResponse (LocoAdr 3) r = Some True"
proof -
  have op: "opCode (LocoAdr 3) = OPC_LOCO_ADR" by (simp add: LocoAdr_def seal_def)
  obtain rs where "fst (sim_send (LocoAdr 3) Station_construct) = LocoAdr 3 # rs"
    "\<forall>r \<in> set rs. isValidResponse (LocoAdr 3) r = Some True" "length rs = 1"
    using station_responds [OF stationInv_construct validMsg_LocoAdr [of 3]] op by auto
  then show ?thesis by (auto simp: length_Suc_conv)
qed

end
