(* ===== verification/XpressNet_Messages.thy ===== *)
theory XpressNet_Messages
  imports Enums
begin

text \<open>
  The messages of \<^verbatim>\<open>xpressnet/messages.hpp\<close> and \<^verbatim>\<open>messages.cpp\<close>.  A message is the list of its
  bytes: a header, whose low nibble is the number of data bytes, the data, and the exclusive or of
  all of them.  The constructors' assertions on addresses and steps are hypotheses of the lemmas
  that need them.
\<close>

section \<open>Header and checksum\<close>

abbreviation (input) XN_header :: "bytes \<Rightarrow> u8" where
  "XN_header m \<equiv> m ! 0"

definition XN_identification :: "bytes \<Rightarrow> u8" where
  "XN_identification m = XN_header m AND 0xF0"

definition XN_dataSize :: "bytes \<Rightarrow> nat" where
  "XN_dataSize m = unat (XN_header m AND 0x0F)"

definition XN_size :: "bytes \<Rightarrow> nat" where
  "XN_size m = 2 + XN_dataSize m"

definition XN_calcChecksum :: "bytes \<Rightarrow> u8" where
  "XN_calcChecksum m = xorAll (m ! 0) (take (XN_dataSize m) (drop 1 m))"

definition XN_updateChecksum :: "bytes \<Rightarrow> bytes" where
  "XN_updateChecksum m = m[XN_dataSize m + 1 := XN_calcChecksum m]"

definition XN_isChecksumValid :: "bytes \<Rightarrow> bool" where
  "XN_isChecksumValid m \<longleftrightarrow> XN_calcChecksum m = m ! (XN_dataSize m + 1)"

text \<open>A constructor sets its fields, then \<^verbatim>\<open>checksum = calcChecksum(*this)\<close>.\<close>

definition XN_seal :: "bytes \<Rightarrow> bytes" where
  "XN_seal body = body @ [XN_calcChecksum body]"

text \<open>\<^verbatim>\<open>operator ==(const Message&, const Message&)\<close>.\<close>

definition XN_msgEq :: "bytes \<Rightarrow> bytes \<Rightarrow> bool" where
  "XN_msgEq lhs rhs \<longleftrightarrow> XN_size lhs = XN_size rhs \<and> take (XN_size lhs) lhs = take (XN_size lhs) rhs"

definition XN_framed :: "bytes \<Rightarrow> bool" where
  "XN_framed m \<longleftrightarrow> m \<noteq> [] \<and> length m = XN_size m"

definition XN_valid :: "bytes \<Rightarrow> bool" where
  "XN_valid m \<longleftrightarrow> XN_framed m \<and> XN_isChecksumValid m"

section \<open>Messages without parameters\<close>

definition XN_NormalOperationResumed :: bytes where "XN_NormalOperationResumed = [0x61, 0x01, 0x60]"
definition XN_TrackPowerOff :: bytes where "XN_TrackPowerOff = [0x61, 0x00, 0x61]"
definition XN_EmergencyStop :: bytes where "XN_EmergencyStop = [0x81, 0x00, 0x81]"
definition XN_ResumeOperationsRequest :: bytes where "XN_ResumeOperationsRequest = [0x21, 0x81, 0xA0]"
definition XN_StopOperationsRequest :: bytes where "XN_StopOperationsRequest = [0x21, 0x80, 0xA1]"
definition XN_StopAllLocomotivesRequest :: bytes where "XN_StopAllLocomotivesRequest = [0x80, 0x80]"

section \<open>Feedback\<close>

datatype XN_PairType = AccessoryDecoderWithoutFeedback | AccessoryDecoderWithFeedback | FeedbackModule
  | ReservedForFutureUse

text \<open>A pair is its two bytes, \<open>address\<close> and \<open>data\<close>.\<close>

definition XN_groupAddress :: "u8 \<times> u8 \<Rightarrow> u16" where
  "XN_groupAddress p = push_bit 1 (ucast (fst p)) OR (if testFlag (snd p) 0x10 then 1 else 0)"

definition XN_setGroupAddress :: "u16 \<Rightarrow> u8 \<times> u8 \<Rightarrow> u8 \<times> u8" where
  "XN_setGroupAddress value p =
    (ucast (drop_bit 1 value), if value AND 1 \<noteq> 0 then snd p OR 0x10 else snd p AND 0xEF)"

definition XN_switchingCommandCompleted :: "u8 \<times> u8 \<Rightarrow> bool" where
  "XN_switchingCommandCompleted p = testFlag (snd p) 0x80"

definition XN_pairType :: "u8 \<times> u8 \<Rightarrow> XN_PairType" where
  "XN_pairType p =
    (let t = drop_bit 5 (snd p AND 0x60)
     in if t = 0 then AccessoryDecoderWithoutFeedback
        else if t = 1 then AccessoryDecoderWithFeedback
        else if t = 2 then FeedbackModule
        else ReservedForFutureUse)"

fun XN_pairTypeCode :: "XN_PairType \<Rightarrow> u8" where
  "XN_pairTypeCode AccessoryDecoderWithoutFeedback = 0"
| "XN_pairTypeCode AccessoryDecoderWithFeedback = 1"
| "XN_pairTypeCode FeedbackModule = 2"
| "XN_pairTypeCode ReservedForFutureUse = 3"

definition XN_setType :: "XN_PairType \<Rightarrow> u8 \<times> u8 \<Rightarrow> u8 \<times> u8" where
  "XN_setType value p = (fst p, (snd p AND 0x9F) OR push_bit 5 (XN_pairTypeCode value))"

definition XN_statusNibble :: "u8 \<times> u8 \<Rightarrow> u8" where
  "XN_statusNibble p = snd p AND 0x0F"

definition XN_setStatus :: "nat \<Rightarrow> bool \<Rightarrow> u8 \<times> u8 \<Rightarrow> u8 \<times> u8" where
  "XN_setStatus index value p = (fst p, setFlag (snd p) (push_bit index 1) value)"

definition XN_pairCount :: "bytes \<Rightarrow> nat" where
  "XN_pairCount m = XN_dataSize m div 2"

definition XN_setPairCount :: "u8 \<Rightarrow> bytes \<Rightarrow> bytes" where
  "XN_setPairCount value m = m[0 := (XN_header m AND 0xF0) OR (value * 2)]"

definition XN_pair :: "nat \<Rightarrow> bytes \<Rightarrow> u8 \<times> u8" where
  "XN_pair index m = (m ! (1 + 2 * index), m ! (2 + 2 * index))"

definition XN_setPair :: "nat \<Rightarrow> u8 \<times> u8 \<Rightarrow> bytes \<Rightarrow> bytes" where
  "XN_setPair index p m = m[1 + 2 * index := fst p, 2 + 2 * index := snd p]"

section \<open>Locomotives\<close>

abbreviation (input) "XN_shortAddressMin \<equiv> (1 :: u16)"
abbreviation (input) "XN_shortAddressMax \<equiv> (99 :: u16)"
abbreviation (input) "XN_longAddressMin \<equiv> (100 :: u16)"
abbreviation (input) "XN_longAddressMax \<equiv> (9999 :: u16)"

text \<open>The two address bytes, high byte first.\<close>

definition XN_address :: "u16 \<Rightarrow> bytes" where
  "XN_address address =
    (if address \<ge> XN_longAddressMin then [ucast (0xC0 OR drop_bit 8 address), ucast (address AND 0xFF)]
     else [0x00, ucast (address AND 0x7F)])"

text \<open>The constructor does not set the checksum: \<open>u\<close> is what the byte held before.\<close>

definition XN_EmergencyStopLocomotive :: "u16 \<Rightarrow> u8 \<Rightarrow> bytes" where
  "XN_EmergencyStopLocomotive address u = 0x92 # XN_address address @ [u]"

definition XN_LocomotiveInstruction :: "u16 \<Rightarrow> u8 \<Rightarrow> bytes" where
  "XN_LocomotiveInstruction address identification = 0xE4 # identification # XN_address address"

definition XN_speedAndDirection :: "bool \<Rightarrow> Direction \<Rightarrow> u8" where
  "XN_speedAndDirection emergencyStop direction =
    orFlag (if emergencyStop then 0x01 else 0x00) 0x80 (direction = DirForward)"

definition XN_SpeedAndDirectionInstruction14 :: "u16 \<Rightarrow> bool \<Rightarrow> Direction \<Rightarrow> u8 \<Rightarrow> bool \<Rightarrow> bytes" where
  "XN_SpeedAndDirectionInstruction14 address emergencyStop direction speedStep fl =
    (let s = XN_speedAndDirection emergencyStop direction;
         s = (if \<not> emergencyStop \<and> speedStep > 0 then s OR (speedStep + 1) else s);
         s = orFlag s 0x10 fl
     in XN_seal (XN_LocomotiveInstruction address 0x10 @ [s]))"

text \<open>The step as the instructions for 27 and 28 steps lay it out, its last bit in bit 4.\<close>

definition XN_step28 :: "u8 \<Rightarrow> u8" where
  "XN_step28 speedStep = push_bit 4 ((speedStep + 1) AND 0x01) OR drop_bit 1 (speedStep + 1)"

definition XN_SpeedAndDirectionInstruction27 :: "u16 \<Rightarrow> bool \<Rightarrow> Direction \<Rightarrow> u8 \<Rightarrow> bytes" where
  "XN_SpeedAndDirectionInstruction27 address emergencyStop direction speedStep =
    (let s = XN_speedAndDirection emergencyStop direction;
         s = (if \<not> emergencyStop \<and> speedStep > 0 then s OR XN_step28 speedStep else s)
     in XN_seal (XN_LocomotiveInstruction address 0x11 @ [s]))"

definition XN_SpeedAndDirectionInstruction28 :: "u16 \<Rightarrow> bool \<Rightarrow> Direction \<Rightarrow> u8 \<Rightarrow> bytes" where
  "XN_SpeedAndDirectionInstruction28 address emergencyStop direction speedStep =
    (let s = XN_speedAndDirection emergencyStop direction;
         s = (if \<not> emergencyStop \<and> speedStep > 0 then s OR XN_step28 speedStep else s)
     in XN_seal (XN_LocomotiveInstruction address 0x12 @ [s]))"

definition XN_SpeedAndDirectionInstruction128 :: "u16 \<Rightarrow> bool \<Rightarrow> Direction \<Rightarrow> u8 \<Rightarrow> bytes" where
  "XN_SpeedAndDirectionInstruction128 address emergencyStop direction speedStep =
    (let s = XN_speedAndDirection emergencyStop direction;
         s = (if \<not> emergencyStop \<and> speedStep > 0 then s OR (speedStep + 1) else s)
     in XN_seal (XN_LocomotiveInstruction address 0x13 @ [s]))"

section \<open>Functions\<close>

definition XN_FunctionInstructionGroup :: "u16 \<Rightarrow> u8 \<Rightarrow> bytes" where
  "XN_FunctionInstructionGroup address grp =
    XN_LocomotiveInstruction address (if grp = 5 then 0x28 else 0x1F + grp)"

text \<open>The sequence \<^verbatim>\<open>if(fN) functions |= M;\<close> of the constructors.\<close>

fun XN_functions :: "(u8 \<times> bool) list \<Rightarrow> u8 \<Rightarrow> u8" where
  "XN_functions [] b = b"
| "XN_functions ((m, v) # fs) b = XN_functions fs (orFlag b m v)"

definition XN_FunctionInstructionGroup1 :: "u16 \<Rightarrow> bool \<Rightarrow> bool \<Rightarrow> bool \<Rightarrow> bool \<Rightarrow> bool \<Rightarrow> bytes" where
  "XN_FunctionInstructionGroup1 address f0 f1 f2 f3 f4 =
    XN_seal (XN_FunctionInstructionGroup address 1 @
      [XN_functions [(0x10, f0), (0x01, f1), (0x02, f2), (0x04, f3), (0x08, f4)] 0])"

definition XN_FunctionInstructionGroup2 :: "u16 \<Rightarrow> bool \<Rightarrow> bool \<Rightarrow> bool \<Rightarrow> bool \<Rightarrow> bytes" where
  "XN_FunctionInstructionGroup2 address f5 f6 f7 f8 =
    XN_seal (XN_FunctionInstructionGroup address 2 @
      [XN_functions [(0x01, f5), (0x02, f6), (0x04, f7), (0x08, f8)] 0])"

definition XN_FunctionInstructionGroup3 :: "u16 \<Rightarrow> bool \<Rightarrow> bool \<Rightarrow> bool \<Rightarrow> bool \<Rightarrow> bytes" where
  "XN_FunctionInstructionGroup3 address f9 f10 f11 f12 =
    XN_seal (XN_FunctionInstructionGroup address 3 @
      [XN_functions [(0x01, f9), (0x02, f10), (0x04, f11), (0x08, f12)] 0])"

abbreviation XN_eight :: "bool \<Rightarrow> bool \<Rightarrow> bool \<Rightarrow> bool \<Rightarrow> bool \<Rightarrow> bool \<Rightarrow> bool \<Rightarrow> bool \<Rightarrow> (u8 \<times> bool) list" where
  "XN_eight a b c d e f g h \<equiv>
    [(0x01, a), (0x02, b), (0x04, c), (0x08, d), (0x10, e), (0x20, f), (0x40, g), (0x80, h)]"

definition XN_FunctionInstructionGroup4 ::
  "u16 \<Rightarrow> bool \<Rightarrow> bool \<Rightarrow> bool \<Rightarrow> bool \<Rightarrow> bool \<Rightarrow> bool \<Rightarrow> bool \<Rightarrow> bool \<Rightarrow> bytes" where
  "XN_FunctionInstructionGroup4 address f13 f14 f15 f16 f17 f18 f19 f20 =
    XN_seal (XN_FunctionInstructionGroup address 4 @
      [XN_functions (XN_eight f13 f14 f15 f16 f17 f18 f19 f20) 0])"

definition XN_FunctionInstructionGroup5 ::
  "u16 \<Rightarrow> bool \<Rightarrow> bool \<Rightarrow> bool \<Rightarrow> bool \<Rightarrow> bool \<Rightarrow> bool \<Rightarrow> bool \<Rightarrow> bool \<Rightarrow> bytes" where
  "XN_FunctionInstructionGroup5 address f21 f22 f23 f24 f25 f26 f27 f28 =
    XN_seal (XN_FunctionInstructionGroup address 5 @
      [XN_functions (XN_eight f21 f22 f23 f24 f25 f26 f27 f28) 0])"

definition XN_RocoFunctionInstructionF13F20 ::
  "u16 \<Rightarrow> bool \<Rightarrow> bool \<Rightarrow> bool \<Rightarrow> bool \<Rightarrow> bool \<Rightarrow> bool \<Rightarrow> bool \<Rightarrow> bool \<Rightarrow> bytes" where
  "XN_RocoFunctionInstructionF13F20 address f13 f14 f15 f16 f17 f18 f19 f20 =
    XN_seal (XN_LocomotiveInstruction address 0xF3 @
      [XN_functions (XN_eight f13 f14 f15 f16 f17 f18 f19 f20) 0])"

section \<open>Accessories, S88\<close>

definition XN_AccessoryDecoderOperationRequest :: "u16 \<Rightarrow> bool \<Rightarrow> bool \<Rightarrow> bytes" where
  "XN_AccessoryDecoderOperationRequest address port activate =
    (let address = address - 1;
         db1 = ucast (drop_bit 2 address);
         db2 = 0x80 OR push_bit 1 (ucast (address AND 0x03));
         db2 = orFlag db2 0x01 port;
         db2 = orFlag db2 0x08 activate
     in XN_seal [0x52, db1, db2])"

definition XN_Accessory_address :: "bytes \<Rightarrow> u16" where
  "XN_Accessory_address m = 1 + (push_bit 2 (ucast (m ! 1)) OR (drop_bit 1 (ucast (m ! 2)) AND 0x03))"

definition XN_Accessory_port :: "bytes \<Rightarrow> bool" where
  "XN_Accessory_port m = testFlag (m ! 2) 0x01"

definition XN_Accessory_activate :: "bytes \<Rightarrow> bool" where
  "XN_Accessory_activate m = testFlag (m ! 2) 0x08"

definition XN_S88StartAddress :: "u8 \<Rightarrow> bytes" where
  "XN_S88StartAddress startAddress = XN_seal [0xF2, 0xF1, startAddress]"

definition XN_S88ModuleCount :: "u8 \<Rightarrow> bytes" where
  "XN_S88ModuleCount moduleCount = XN_seal [0xF2, 0xF2, moduleCount]"

section \<open>Facts on messages\<close>

lemma XN_dataSize_le: "XN_dataSize m \<le> 15"
  using word_and_le1 [of "m ! 0" "0x0F"] by (simp add: XN_dataSize_def word_le_nat_alt)

lemma XN_size_bounds: "2 \<le> XN_size m" "XN_size m \<le> 17"
  using XN_dataSize_le [of m] by (simp_all add: XN_size_def)

lemma XN_size_cong: "m ! 0 = m' ! 0 \<Longrightarrow> XN_size m = XN_size m'"
  by (simp add: XN_size_def XN_dataSize_def)

lemma XN_size_append [simp]: "m \<noteq> [] \<Longrightarrow> XN_size (m @ r) = XN_size m"
  by (rule XN_size_cong) (simp add: nth_append)

lemma XN_size_Cons: "XN_size (h # r) = 2 + unat (h AND 0x0F)"
  by (simp add: XN_size_def XN_dataSize_def)

lemma XN_isChecksumValid_append:
  assumes "XN_framed m"
  shows "XN_isChecksumValid (m @ r) = XN_isChecksumValid m"
proof -
  have ne: "m \<noteq> []" and len: "length m = 2 + XN_dataSize m"
    using assms by (simp_all add: XN_framed_def XN_size_def)
  have "XN_dataSize (m @ r) = XN_dataSize m" using ne by (simp add: XN_dataSize_def nth_append)
  then show ?thesis
    using ne len by (simp add: XN_isChecksumValid_def XN_calcChecksum_def nth_append)
qed

lemma XN_seal_valid:
  assumes "body \<noteq> []" and "length body = 1 + XN_dataSize body"
  shows "XN_valid (XN_seal body)"
proof -
  have d: "XN_dataSize (XN_seal body) = XN_dataSize body"
    using assms(1) by (simp add: XN_dataSize_def XN_seal_def nth_append)
  have "XN_calcChecksum (XN_seal body) = XN_calcChecksum body"
    using assms by (simp add: XN_calcChecksum_def d) (simp add: XN_seal_def nth_append)
  then show ?thesis
    using assms by (simp add: XN_valid_def XN_framed_def XN_size_def XN_isChecksumValid_def d)
      (simp add: XN_seal_def nth_append)
qed

lemma XN_updateChecksum_valid:
  assumes "XN_framed m"
  shows "XN_valid (XN_updateChecksum m)"
proof -
  have len: "length m = 2 + XN_dataSize m" "m \<noteq> []" using assms by (simp_all add: XN_framed_def XN_size_def)
  then have d: "XN_dataSize (XN_updateChecksum m) = XN_dataSize m" "XN_updateChecksum m ! 0 = m ! 0"
    by (simp_all add: XN_dataSize_def XN_updateChecksum_def)
  have "take (XN_dataSize m) (drop 1 (XN_updateChecksum m)) = take (XN_dataSize m) (drop 1 m)"
    by (simp add: XN_updateChecksum_def drop_update_swap)
  then have "XN_calcChecksum (XN_updateChecksum m) = XN_calcChecksum m"
    using d by (simp add: XN_calcChecksum_def)
  then show ?thesis
    using len d
    by (simp add: XN_valid_def XN_framed_def XN_size_def XN_isChecksumValid_def)
      (simp add: XN_updateChecksum_def)
qed

lemma length_XN_address [simp]: "length (XN_address a) = 2"
  by (simp add: XN_address_def)

lemma length_XN_LocomotiveInstruction [simp]: "length (XN_LocomotiveInstruction a i) = 4"
  by (simp add: XN_LocomotiveInstruction_def)

lemma XN_loco_valid: "XN_valid (XN_seal (XN_LocomotiveInstruction a i @ [b]))"
  by (rule XN_seal_valid) (simp_all add: XN_LocomotiveInstruction_def XN_dataSize_def)

lemmas XN_speed_defs = XN_SpeedAndDirectionInstruction14_def XN_SpeedAndDirectionInstruction27_def
  XN_SpeedAndDirectionInstruction28_def XN_SpeedAndDirectionInstruction128_def

lemmas XN_function_defs = XN_FunctionInstructionGroup_def XN_FunctionInstructionGroup1_def
  XN_FunctionInstructionGroup2_def XN_FunctionInstructionGroup3_def XN_FunctionInstructionGroup4_def
  XN_FunctionInstructionGroup5_def XN_RocoFunctionInstructionF13F20_def

lemma XN_speed_valid:
  "XN_valid (XN_SpeedAndDirectionInstruction14 a e d s fl)" "XN_valid (XN_SpeedAndDirectionInstruction27 a e d s)"
  "XN_valid (XN_SpeedAndDirectionInstruction28 a e d s)" "XN_valid (XN_SpeedAndDirectionInstruction128 a e d s)"
  by (simp_all only: XN_speed_defs Let_def XN_loco_valid)

lemma XN_function_valid:
  "XN_valid (XN_FunctionInstructionGroup1 a f0 f1 f2 f3 f4)" "XN_valid (XN_FunctionInstructionGroup2 a f5 f6 f7 f8)"
  "XN_valid (XN_FunctionInstructionGroup3 a f5 f6 f7 f8)"
  "XN_valid (XN_FunctionInstructionGroup4 a g0 g1 g2 g3 g4 g5 g6 g7)"
  "XN_valid (XN_FunctionInstructionGroup5 a g0 g1 g2 g3 g4 g5 g6 g7)"
  "XN_valid (XN_RocoFunctionInstructionF13F20 a g0 g1 g2 g3 g4 g5 g6 g7)"
  by (simp_all only: XN_function_defs XN_loco_valid)

lemma XN_fixed_valid:
  "XN_valid XN_NormalOperationResumed" "XN_valid XN_TrackPowerOff" "XN_valid XN_EmergencyStop"
  "XN_valid XN_ResumeOperationsRequest" "XN_valid XN_StopOperationsRequest" "XN_valid XN_StopAllLocomotivesRequest"
  by (simp_all add: XN_valid_def XN_framed_def XN_size_def XN_dataSize_def XN_isChecksumValid_def XN_calcChecksum_def
      XN_NormalOperationResumed_def XN_TrackPowerOff_def XN_EmergencyStop_def XN_ResumeOperationsRequest_def
      XN_StopOperationsRequest_def XN_StopAllLocomotivesRequest_def)

lemma XN_accessory_valid: "XN_valid (XN_AccessoryDecoderOperationRequest a p v)"
  unfolding XN_AccessoryDecoderOperationRequest_def Let_def
  by (rule XN_seal_valid) (simp_all add: XN_dataSize_def)

lemma XN_S88_valid: "XN_valid (XN_S88StartAddress s)" "XN_valid (XN_S88ModuleCount n)"
  unfolding XN_S88StartAddress_def XN_S88ModuleCount_def
  by (rule XN_seal_valid; simp add: XN_dataSize_def)+

text \<open>The checksum the constructor of the emergency stop leaves out.\<close>

lemma XN_EmergencyStopLocomotive_valid:
  "XN_valid (XN_EmergencyStopLocomotive a u) \<longleftrightarrow> u = (0x92 XOR XN_address a ! 0) XOR XN_address a ! 1"
proof -
  obtain h l where "XN_address a = [h, l]"
    using length_XN_address [of a] by (metis (no_types) length_0_conv length_Suc_conv numeral_2_eq_2)
  then have m: "XN_EmergencyStopLocomotive a u = [0x92, h, l, u]" "XN_address a ! 0 = h" "XN_address a ! 1 = l"
    by (simp_all add: XN_EmergencyStopLocomotive_def)
  have "XN_dataSize [0x92, h, l, u] = 2" by (simp add: XN_dataSize_def)
  then show ?thesis
    unfolding m by (auto simp: XN_valid_def XN_framed_def XN_size_def XN_isChecksumValid_def XN_calcChecksum_def)
qed

end
