(* ===== verification/XpressNet_Kernel.thy ===== *)
theory XpressNet_Kernel
  imports XpressNet_Messages
begin

text \<open>
  The XpressNet kernel, \<^verbatim>\<open>xpressnet/kernel.hpp\<close> and \<^verbatim>\<open>kernel.cpp\<close>, and its simulated command
  station, \<^verbatim>\<open>iohandler/simulationiohandler.cpp\<close>.  As for LocoNet, a call posted to the event loop is
  an element of \<open>xn_events\<close>, a closure posted to the kernel's thread an \<open>XN_task\<close>, and the answer of
  the IO handler a parameter of the state.
\<close>

section \<open>State\<close>

record XN_Config =
  useEmergencyStopLocomotiveCommand :: bool
  useRocoAccessoryAddressing :: bool
  useRocoF13F20Command :: bool
  xn_debugLogInput :: bool
  xn_debugLogRXTX :: bool

datatype XN_event =
    XnRX bytes
  | XnTX bytes
  | XnNormalOperationResumed
  | XnTrackPowerOff
  | XnEmergencyStop
  | XnLogInput nat TriState
  | XnInput nat TriState
  | XnStarted
  | XnStartFailed

record XN_Kernel =
  xn_simulation :: bool
  xn_trackPowerOn :: TriState
  xn_emergencyStop :: TriState
  xn_onNormalOperationResumed :: bool
  xn_onTrackPowerOff :: bool
  xn_onEmergencyStop :: bool
  xn_decoderController :: bool
  xn_inputController :: bool
  xn_inputValues :: "nat \<Rightarrow> TriState"
  xn_outputController :: bool
  xn_config :: XN_Config
  xn_ioSend :: "(bytes \<times> bool) list \<Rightarrow> bytes \<Rightarrow> bool"
  xn_wire :: "(bytes \<times> bool) list"
  xn_events :: "XN_event list"

definition XN_eventLoopCall :: "XN_event \<Rightarrow> XN_Kernel \<Rightarrow> XN_Kernel" where
  "XN_eventLoopCall ev k = k\<lparr>xn_events := xn_events k @ [ev]\<rparr>"

section \<open>Sending and receiving\<close>

definition XN_send :: "bytes \<Rightarrow> XN_Kernel \<Rightarrow> XN_Kernel" where
  "XN_send message k =
    (let ok = xn_ioSend k (xn_wire k) message;
         k = k\<lparr>xn_wire := xn_wire k @ [(message, ok)]\<rparr>
     in if ok then (if xn_debugLogRXTX (xn_config k) then XN_eventLoopCall (XnTX message) k else k)
        else k)"

text \<open>The body of the innermost loop of \<^verbatim>\<open>receive\<close>, for input \<open>j\<close> of a group of four.\<close>

definition XN_receive_input :: "u16 \<Rightarrow> u8 \<Rightarrow> nat \<Rightarrow> XN_Kernel \<Rightarrow> XN_Kernel" where
  "XN_receive_input baseAddress nibble j k =
    (let fullAddress = unat (baseAddress + of_nat j);
         v = toTriState (nibble AND push_bit j 1 \<noteq> 0)
     in if xn_inputValues k fullAddress \<noteq> v then
          (let k = (if xn_debugLogInput (xn_config k) then XN_eventLoopCall (XnLogInput (1 + fullAddress) v) k
                    else k);
               k = k\<lparr>xn_inputValues := (xn_inputValues k)(fullAddress := v)\<rparr>
           in XN_eventLoopCall (XnInput (1 + fullAddress) v) k)
        else k)"

definition XN_receive_pair :: "u8 \<times> u8 \<Rightarrow> XN_Kernel \<Rightarrow> XN_Kernel" where
  "XN_receive_pair p k =
    (case XN_pairType p of
       FeedbackModule \<Rightarrow>
         (if xn_inputController k then
            fold (XN_receive_input (push_bit 2 (XN_groupAddress p)) (XN_statusNibble p)) [0..<4] k
          else k)
     | _ \<Rightarrow> k)"

definition XN_receive_feedback :: "bytes \<Rightarrow> XN_Kernel \<Rightarrow> XN_Kernel" where
  "XN_receive_feedback message k =
    fold (\<lambda>i. XN_receive_pair (XN_pair i message)) [0..<XN_pairCount message] k"

definition XN_receive_power :: "bytes \<Rightarrow> XN_Kernel \<Rightarrow> XN_Kernel" where
  "XN_receive_power message k =
    (if XN_msgEq message XN_NormalOperationResumed then
       (if xn_trackPowerOn k \<noteq> TriTrue \<or> xn_emergencyStop k \<noteq> TriFalse then
          (let k = k\<lparr>xn_trackPowerOn := TriTrue, xn_emergencyStop := TriFalse\<rparr>
           in if xn_onNormalOperationResumed k then XN_eventLoopCall XnNormalOperationResumed k else k)
        else k)
     else if XN_msgEq message XN_TrackPowerOff then
       (if xn_trackPowerOn k \<noteq> TriFalse then
          (let k = k\<lparr>xn_trackPowerOn := TriFalse\<rparr>
           in if xn_onTrackPowerOff k then XN_eventLoopCall XnTrackPowerOff k else k)
        else k)
     else k)"

definition XN_receive_emergencyStop :: "bytes \<Rightarrow> XN_Kernel \<Rightarrow> XN_Kernel" where
  "XN_receive_emergencyStop message k =
    (if XN_msgEq message XN_EmergencyStop then
       (if xn_emergencyStop k \<noteq> TriTrue then
          (let k = k\<lparr>xn_emergencyStop := TriTrue\<rparr>
           in if xn_onEmergencyStop k then XN_eventLoopCall XnEmergencyStop k else k)
        else k)
     else k)"

definition XN_receive :: "bytes \<Rightarrow> XN_Kernel \<Rightarrow> XN_Kernel" where
  "XN_receive message k =
    (let k = (if xn_debugLogRXTX (xn_config k) then XN_eventLoopCall (XnRX message) k else k);
         i = XN_identification message
     in if i = 0x40 then XN_receive_feedback message k
        else if i = 0x60 then XN_receive_power message k
        else if i = 0x80 then XN_receive_emergencyStop message k
        else k)"

section \<open>Operations\<close>

datatype XN_task =
    XnSetConfig XN_Config
  | XnStart bool
  | XnResumeOperations
  | XnStopOperations
  | XnStopAllLocomotives
  | XnSend bytes
  | XnSetOutput u16 OutputPairValue
  | XnSimulateInput u16 SimulateInputAction
  | XnReceive bytes

definition XN_start :: "bool \<Rightarrow> XN_Kernel \<Rightarrow> XN_Kernel \<times> XN_task list" where
  "XN_start ioHandlerStarts k =
    (k\<lparr>xn_trackPowerOn := TriUndefined, xn_emergencyStop := TriUndefined,
       xn_inputValues := (\<lambda>_. TriUndefined)\<rparr>,
     [XnStart ioHandlerStarts])"

definition XN_start_posted :: "bool \<Rightarrow> XN_Kernel \<Rightarrow> XN_Kernel" where
  "XN_start_posted ioHandlerStarts k =
    (if ioHandlerStarts then XN_eventLoopCall XnStarted k else XN_eventLoopCall XnStartFailed k)"

definition XN_resumeOperations :: "XN_Kernel \<Rightarrow> XN_Kernel" where
  "XN_resumeOperations k =
    (if xn_trackPowerOn k \<noteq> TriTrue \<or> xn_emergencyStop k \<noteq> TriFalse then XN_send XN_ResumeOperationsRequest k
     else k)"

definition XN_stopOperations :: "XN_Kernel \<Rightarrow> XN_Kernel" where
  "XN_stopOperations k = (if xn_trackPowerOn k \<noteq> TriFalse then XN_send XN_StopOperationsRequest k else k)"

definition XN_stopAllLocomotives :: "XN_Kernel \<Rightarrow> XN_Kernel" where
  "XN_stopAllLocomotives k =
    (if xn_emergencyStop k \<noteq> TriTrue then XN_send XN_StopAllLocomotivesRequest k else k)"

text \<open>
  What the kernel reads of a decoder; \<open>xd_speedStep n\<close> is \<^verbatim>\<open>throttleToSpeedStep(throttle, n)\<close>, a
  rounding of a floating point number to 0 .. n.
\<close>

record XN_DecoderView =
  xd_address :: u16
  xd_emergencyStop :: bool
  xd_direction :: Direction
  xd_speedSteps :: nat
  xd_speedStep :: "nat \<Rightarrow> u8"
  xd_function :: "nat \<Rightarrow> bool"

definition XN_decoderChanged_speed :: "XN_DecoderView \<Rightarrow> XN_task list" where
  "XN_decoderChanged_speed d =
    (let a = xd_address d; e = xd_emergencyStop d; r = xd_direction d; s = xd_speedStep d in
     if xd_speedSteps d = 14 then [XnSend (XN_SpeedAndDirectionInstruction14 a e r (s 14) (xd_function d 0))]
     else if xd_speedSteps d = 27 then [XnSend (XN_SpeedAndDirectionInstruction27 a e r (s 27))]
     else if xd_speedSteps d = 28 then [XnSend (XN_SpeedAndDirectionInstruction28 a e r (s 28))]
     else if xd_speedSteps d = 128 then [XnSend (XN_SpeedAndDirectionInstruction128 a e r (s 126))]
     else [])"

definition XN_decoderChanged_function :: "XN_DecoderView \<Rightarrow> nat \<Rightarrow> XN_Kernel \<Rightarrow> XN_task list" where
  "XN_decoderChanged_function d n k =
    (let a = xd_address d; f = xd_function d in
     if n \<le> 4 then [XnSend (XN_FunctionInstructionGroup1 a (f 0) (f 1) (f 2) (f 3) (f 4))]
     else if n \<le> 8 then [XnSend (XN_FunctionInstructionGroup2 a (f 5) (f 6) (f 7) (f 8))]
     else if n \<le> 12 then [XnSend (XN_FunctionInstructionGroup3 a (f 9) (f 10) (f 11) (f 12))]
     else if n \<le> 20 then
       (if useRocoF13F20Command (xn_config k) then
          [XnSend (XN_RocoFunctionInstructionF13F20 a (f 13) (f 14) (f 15) (f 16) (f 17) (f 18) (f 19) (f 20))]
        else
          [XnSend (XN_FunctionInstructionGroup4 a (f 13) (f 14) (f 15) (f 16) (f 17) (f 18) (f 19) (f 20))])
     else if n \<le> 28 then
       [XnSend (XN_FunctionInstructionGroup5 a (f 21) (f 22) (f 23) (f 24) (f 25) (f 26) (f 27) (f 28))]
     else [])"

text \<open>\<open>u\<close> is the byte that \<^verbatim>\<open>EmergencyStopLocomotive\<close> leaves uninitialised.\<close>

definition XN_decoderChanged :: "XN_DecoderView \<Rightarrow> u8 \<Rightarrow> nat \<Rightarrow> u8 \<Rightarrow> XN_Kernel \<Rightarrow> XN_task list" where
  "XN_decoderChanged d changes functionNumber u k =
    (if useEmergencyStopLocomotiveCommand (xn_config k) \<and> changes = chEmergencyStop \<and> xd_emergencyStop d then
       [XnSend (XN_EmergencyStopLocomotive (xd_address d) u)]
     else if has_change changes (chEmergencyStop OR chDirection OR chThrottle OR chSpeedSteps) then
       XN_decoderChanged_speed d
     else if has_change changes chFunctionValue then XN_decoderChanged_function d functionNumber k
     else [])"

text \<open>The assertions of \<^verbatim>\<open>setOutput\<close> as they are written, and the operation.\<close>

definition XN_setOutput_assert :: "u16 \<Rightarrow> OutputPairValue \<Rightarrow> bool" where
  "XN_setOutput_assert address v \<longleftrightarrow>
    1 \<le> address \<and> address \<le> 1024 \<and> (v = OutFirst \<or> v = OutFirst)"

definition XN_setOutput :: "u16 \<Rightarrow> OutputPairValue \<Rightarrow> bool \<times> XN_task list" where
  "XN_setOutput address v = (True, [XnSetOutput address v])"

definition XN_setOutput_posted :: "u16 \<Rightarrow> OutputPairValue \<Rightarrow> XN_Kernel \<Rightarrow> XN_Kernel" where
  "XN_setOutput_posted address v k =
    XN_send (XN_AccessoryDecoderOperationRequest
      (if useRocoAccessoryAddressing (xn_config k) then address + 4 else address) (v = OutSecond) True) k"

definition XN_simulateInputChange :: "u16 \<Rightarrow> SimulateInputAction \<Rightarrow> XN_Kernel \<Rightarrow> XN_task list" where
  "XN_simulateInputChange address action k = (if xn_simulation k then [XnSimulateInput address action] else [])"

text \<open>The loop over the four inputs of the group.\<close>

definition XN_simulatedStatus :: "u16 \<Rightarrow> nat \<Rightarrow> SimulateInputAction \<Rightarrow> XN_Kernel \<Rightarrow> nat \<Rightarrow> u8 \<times> u8 \<Rightarrow> u8 \<times> u8" where
  "XN_simulatedStatus groupAddress index action k i p =
    (let n = unat (push_bit 2 groupAddress + of_nat i)
     in if i = index then
          (case action of
             SimSetFalse \<Rightarrow> XN_setStatus i False p
           | SimSetTrue \<Rightarrow> XN_setStatus i True p
           | SimToggle \<Rightarrow> XN_setStatus i (xn_inputValues k n \<noteq> TriTrue) p)
        else XN_setStatus i (xn_inputValues k n = TriTrue) p)"

definition XN_simulatedFeedback :: "u16 \<Rightarrow> SimulateInputAction \<Rightarrow> XN_Kernel \<Rightarrow> bytes" where
  "XN_simulatedFeedback address action k =
    (let groupAddress = drop_bit 2 (address - 1);
         index = unat ((address - 1) AND 0x0003);
         m = [0, 0, 0, 0];
         m = m[0 := 0x40];
         m = XN_setPairCount 1 m;
         p = XN_pair 0 m;
         p = XN_setGroupAddress groupAddress p;
         p = XN_setType FeedbackModule p;
         p = fold (XN_simulatedStatus groupAddress index action k) [0..<4] p;
         m = XN_setPair 0 p m
     in XN_updateChecksum m)"

definition XN_simulateInputChange_posted :: "u16 \<Rightarrow> SimulateInputAction \<Rightarrow> XN_Kernel \<Rightarrow> XN_Kernel" where
  "XN_simulateInputChange_posted address action k =
    (if action = SimSetFalse \<and> xn_inputValues k (unat (address - 1)) = TriFalse \<or>
        action = SimSetTrue \<and> xn_inputValues k (unat (address - 1)) = TriTrue then k
     else XN_receive (XN_simulatedFeedback address action k) k)"

fun XN_runTask :: "XN_task \<Rightarrow> XN_Kernel \<Rightarrow> XN_Kernel" where
  "XN_runTask (XnSetConfig config) k = k\<lparr>xn_config := config\<rparr>"
| "XN_runTask (XnStart ioHandlerStarts) k = XN_start_posted ioHandlerStarts k"
| "XN_runTask XnResumeOperations k = XN_resumeOperations k"
| "XN_runTask XnStopOperations k = XN_stopOperations k"
| "XN_runTask XnStopAllLocomotives k = XN_stopAllLocomotives k"
| "XN_runTask (XnSend message) k = XN_send message k"
| "XN_runTask (XnSetOutput address v) k = XN_setOutput_posted address v k"
| "XN_runTask (XnSimulateInput address action) k = XN_simulateInputChange_posted address action k"
| "XN_runTask (XnReceive message) k = XN_receive message k"

text \<open>The constructor; the uninitialised members are parameters, the setters set the flags.\<close>

definition XN_Kernel_construct :: "XN_Config \<Rightarrow> bool \<Rightarrow> TriState \<Rightarrow> TriState \<Rightarrow> (nat \<Rightarrow> TriState) \<Rightarrow>
    ((bytes \<times> bool) list \<Rightarrow> bytes \<Rightarrow> bool) \<Rightarrow> XN_Kernel" where
  "XN_Kernel_construct config simulation tp es ivs io =
    \<lparr>xn_simulation = simulation, xn_trackPowerOn = tp, xn_emergencyStop = es,
     xn_onNormalOperationResumed = False, xn_onTrackPowerOff = False, xn_onEmergencyStop = False,
     xn_decoderController = False, xn_inputController = False, xn_inputValues = ivs,
     xn_outputController = False, xn_config = config, xn_ioSend = io, xn_wire = [], xn_events = []\<rparr>"

definition XN_setOnNormalOperationResumed :: "bool \<Rightarrow> XN_Kernel \<Rightarrow> XN_Kernel" where
  "XN_setOnNormalOperationResumed callback k = k\<lparr>xn_onNormalOperationResumed := callback\<rparr>"

definition XN_setOnTrackPowerOff :: "bool \<Rightarrow> XN_Kernel \<Rightarrow> XN_Kernel" where
  "XN_setOnTrackPowerOff callback k = k\<lparr>xn_onTrackPowerOff := callback\<rparr>"

definition XN_setOnEmergencyStop :: "bool \<Rightarrow> XN_Kernel \<Rightarrow> XN_Kernel" where
  "XN_setOnEmergencyStop callback k = k\<lparr>xn_onEmergencyStop := callback\<rparr>"

definition XN_setDecoderController :: "bool \<Rightarrow> XN_Kernel \<Rightarrow> XN_Kernel" where
  "XN_setDecoderController controller k = k\<lparr>xn_decoderController := controller\<rparr>"

definition XN_setInputController :: "bool \<Rightarrow> XN_Kernel \<Rightarrow> XN_Kernel" where
  "XN_setInputController controller k = k\<lparr>xn_inputController := controller\<rparr>"

definition XN_setOutputController :: "bool \<Rightarrow> XN_Kernel \<Rightarrow> XN_Kernel" where
  "XN_setOutputController controller k = k\<lparr>xn_outputController := controller\<rparr>"

section \<open>Simulated command station\<close>

text \<open>The messages it posts back to the kernel; it accepts every message.\<close>

definition XN_simulation_send :: "bytes \<Rightarrow> bytes list" where
  "XN_simulation_send message =
    (if XN_header message = 0x21 then
       (if XN_msgEq message XN_ResumeOperationsRequest then replicate 3 XN_NormalOperationResumed
        else if XN_msgEq message XN_StopOperationsRequest then replicate 3 XN_TrackPowerOff
        else [])
     else if XN_header message = 0x80 then
       (if XN_msgEq message XN_StopAllLocomotivesRequest then replicate 3 XN_EmergencyStop else [])
     else [])"

end
