(* ===== verification/XpressNet_Behaviour.thy ===== *)
theory XpressNet_Behaviour
  imports XpressNet_Kernel
begin

text \<open>
  What the operations of the XpressNet kernel do: the frame of each of them, the effect of a
  feedback message on the inputs, of a simulated input change, of the messages on power, the
  round trip of accessory addresses, and the speed byte of the four speed commands.  The kernel's
  thread as a transition system, with the invariant that what it puts on the wire is well formed.
\<close>

section \<open>Feedback\<close>

lemma XN_groupAddress_less: "unat (XN_groupAddress p) < 512"
proof -
  have "\<not> bit (XN_groupAddress p) k" if "9 \<le> k" for k
  proof -
    have "\<not> bit (push_bit 1 (ucast (fst p) :: u16)) k"
      using that by (simp only: bit_push_bit_iff) (auto simp: bit_simps)
    then show ?thesis
      using that by (cases k) (auto simp: XN_groupAddress_def bit_or_iff bit_1_iff)
  qed
  then have "unat (XN_groupAddress p) < 2 ^ 9" by (rule bound_of_bits)
  then show ?thesis by simp
qed

lemma XN_fullAddress:
  assumes "unat (g :: u16) < 512" and "j < 4"
  shows "unat (push_bit 2 g + of_nat j) = 4 * unat g + j"
proof -
  have "unat (push_bit 2 g) = 4 * unat g"
    using assms(1) by (simp add: push_bit_eq_mult unat_word_ariths)
  moreover have "unat (of_nat j :: u16) = j" using assms(2) by (simp add: unat_of_nat)
  ultimately show ?thesis using assms by (simp add: unat_word_ariths)
qed

lemma XN_receive_input_frame [simp]:
  "xn_trackPowerOn (XN_receive_input b s j k) = xn_trackPowerOn k"
  "xn_emergencyStop (XN_receive_input b s j k) = xn_emergencyStop k"
  "xn_wire (XN_receive_input b s j k) = xn_wire k"
  "xn_config (XN_receive_input b s j k) = xn_config k"
  "xn_simulation (XN_receive_input b s j k) = xn_simulation k"
  "xn_inputController (XN_receive_input b s j k) = xn_inputController k"
  "xn_onNormalOperationResumed (XN_receive_input b s j k) = xn_onNormalOperationResumed k"
  by (simp_all add: XN_receive_input_def XN_eventLoopCall_def Let_def)

lemma XN_receive_input_values:
  "xn_inputValues (XN_receive_input b s j k) =
    (xn_inputValues k)(unat (b + of_nat j) := toTriState (s AND push_bit j 1 \<noteq> 0))"
  by (auto simp: XN_receive_input_def XN_eventLoopCall_def Let_def)

text \<open>The events of one input: nothing when its value is known already.\<close>

definition XN_inputEvents :: "XN_Config \<Rightarrow> nat \<Rightarrow> TriState \<Rightarrow> TriState \<Rightarrow> XN_event list" where
  "XN_inputEvents config n old new =
    (if old = new then []
     else (if xn_debugLogInput config then [XnLogInput (1 + n) new] else []) @ [XnInput (1 + n) new])"

lemma XN_receive_input_events:
  "xn_events (XN_receive_input b s j k) = xn_events k @
    XN_inputEvents (xn_config k) (unat (b + of_nat j)) (xn_inputValues k (unat (b + of_nat j)))
      (toTriState (s AND push_bit j 1 \<noteq> 0))"
  by (simp add: XN_receive_input_def XN_eventLoopCall_def Let_def XN_inputEvents_def)

text \<open>The value the group's nibble gives input \<open>n\<close>, and the group of four.\<close>

definition XN_groupValues :: "u8 \<times> u8 \<Rightarrow> (nat \<Rightarrow> TriState) \<Rightarrow> nat \<Rightarrow> TriState" where
  "XN_groupValues p ivs n =
    (if n div 4 = unat (XN_groupAddress p) then toTriState (bit (snd p) (n mod 4)) else ivs n)"

lemma nibble_bit:
  assumes "j < 4"
  shows "(XN_statusNibble p AND push_bit j 1 \<noteq> 0) = bit (snd p) j"
proof -
  have "(XN_statusNibble p AND push_bit j 1 \<noteq> 0) = bit (XN_statusNibble p) j"
    using assms testFlag_exp [of j "XN_statusNibble p"] by (simp add: testFlag_def push_bit_eq_mult)
  moreover have "j = 0 \<or> j = 1 \<or> j = 2 \<or> j = 3" using assms by arith
  ultimately show ?thesis by (auto simp: XN_statusNibble_def bit_simps)
qed

lemma upt_4: "[0..<4] = [0, 1, 2, 3 :: nat]"
  by (simp add: upt_rec)

lemma four_updates:
  fixes a :: "nat \<Rightarrow> 'a"
  shows "(f(4 * g := a 0, 4 * g + 1 := a 1, 4 * g + 2 := a 2, 4 * g + 3 := a 3)) n =
    (if n div 4 = g then a (n mod 4) else f n)"
proof -
  have "n div 4 = g \<longleftrightarrow> n = 4 * g \<or> n = 4 * g + 1 \<or> n = 4 * g + 2 \<or> n = 4 * g + 3" by arith
  moreover have "(4 * g + 1) mod 4 = 1" "(4 * g + 2) mod 4 = 2" "(4 * g + 3) mod 4 = 3" by presburger+
  ultimately show ?thesis by auto
qed

definition XN_isInputPair :: "u8 \<times> u8 \<Rightarrow> XN_Kernel \<Rightarrow> bool" where
  "XN_isInputPair p k \<longleftrightarrow> XN_pairType p = FeedbackModule \<and> xn_inputController k"

lemma XN_receive_pair_values:
  "xn_inputValues (XN_receive_pair p k) =
    (if XN_isInputPair p k then XN_groupValues p (xn_inputValues k) else xn_inputValues k)"
proof (cases "XN_isInputPair p k")
  case True
  let ?g = "XN_groupAddress p"
  have addr: "unat (push_bit 2 ?g + of_nat j) = 4 * unat ?g + j" if "j < 4" for j
    using XN_fullAddress [OF XN_groupAddress_less that] .
  have "xn_inputValues (XN_receive_pair p k) =
    (xn_inputValues k)(4 * unat ?g := toTriState (bit (snd p) 0), 4 * unat ?g + 1 := toTriState (bit (snd p) 1),
      4 * unat ?g + 2 := toTriState (bit (snd p) 2), 4 * unat ?g + 3 := toTriState (bit (snd p) 3))"
    using True addr [of 0] addr [of 1] addr [of 2] addr [of 3]
      nibble_bit [of 0 p] nibble_bit [of 1 p] nibble_bit [of 2 p] nibble_bit [of 3 p]
    by (simp add: XN_receive_pair_def XN_isInputPair_def upt_4 XN_receive_input_values)
  also have "\<dots> = XN_groupValues p (xn_inputValues k)"
    by (rule ext) (simp only: XN_groupValues_def four_updates [of _ "unat ?g" "\<lambda>j. toTriState (bit (snd p) j)"])
  finally show ?thesis using True by simp
next
  case False
  then show ?thesis
    by (auto simp: XN_receive_pair_def XN_isInputPair_def split: XN_PairType.splits)
qed

lemma fold_input_frame:
  "xn_trackPowerOn (fold (XN_receive_input b s) js k) = xn_trackPowerOn k"
  "xn_emergencyStop (fold (XN_receive_input b s) js k) = xn_emergencyStop k"
  "xn_wire (fold (XN_receive_input b s) js k) = xn_wire k"
  "xn_config (fold (XN_receive_input b s) js k) = xn_config k"
  "xn_simulation (fold (XN_receive_input b s) js k) = xn_simulation k"
  "xn_inputController (fold (XN_receive_input b s) js k) = xn_inputController k"
  by (induction js arbitrary: k) simp_all

lemma XN_receive_pair_frame [simp]:
  "xn_trackPowerOn (XN_receive_pair p k) = xn_trackPowerOn k"
  "xn_emergencyStop (XN_receive_pair p k) = xn_emergencyStop k"
  "xn_wire (XN_receive_pair p k) = xn_wire k"
  "xn_config (XN_receive_pair p k) = xn_config k"
  "xn_simulation (XN_receive_pair p k) = xn_simulation k"
  "xn_inputController (XN_receive_pair p k) = xn_inputController k"
  by (simp_all add: XN_receive_pair_def fold_input_frame split: XN_PairType.split)

lemma fold_pair_frame:
  "xn_trackPowerOn (fold (\<lambda>i. XN_receive_pair (f i)) is k) = xn_trackPowerOn k"
  "xn_emergencyStop (fold (\<lambda>i. XN_receive_pair (f i)) is k) = xn_emergencyStop k"
  "xn_wire (fold (\<lambda>i. XN_receive_pair (f i)) is k) = xn_wire k"
  "xn_config (fold (\<lambda>i. XN_receive_pair (f i)) is k) = xn_config k"
  "xn_simulation (fold (\<lambda>i. XN_receive_pair (f i)) is k) = xn_simulation k"
  "xn_inputController (fold (\<lambda>i. XN_receive_pair (f i)) is k) = xn_inputController k"
  by (induction "is" arbitrary: k) simp_all

lemma XN_receive_feedback_frame [simp]:
  "xn_trackPowerOn (XN_receive_feedback m k) = xn_trackPowerOn k"
  "xn_emergencyStop (XN_receive_feedback m k) = xn_emergencyStop k"
  "xn_wire (XN_receive_feedback m k) = xn_wire k"
  "xn_config (XN_receive_feedback m k) = xn_config k"
  "xn_simulation (XN_receive_feedback m k) = xn_simulation k"
  "xn_inputController (XN_receive_feedback m k) = xn_inputController k"
  by (simp_all add: XN_receive_feedback_def fold_pair_frame)

text \<open>A feedback message applies the feedback modules' pairs in order, and only them.\<close>

lemma fold_pair_values:
  "xn_inputController k \<Longrightarrow>
    xn_inputValues (fold (\<lambda>i. XN_receive_pair (f i)) is k) =
      fold XN_groupValues (filter (\<lambda>p. XN_pairType p = FeedbackModule) (map f is)) (xn_inputValues k)"
  by (induction "is" arbitrary: k) (simp_all add: XN_receive_pair_values XN_isInputPair_def)

lemma XN_receive_feedback_values:
  "xn_inputController k \<Longrightarrow>
    xn_inputValues (XN_receive_feedback m k) =
      fold XN_groupValues
        (filter (\<lambda>p. XN_pairType p = FeedbackModule) (map (\<lambda>i. XN_pair i m) [0..<XN_pairCount m]))
        (xn_inputValues k)"
  by (simp add: XN_receive_feedback_def fold_pair_values)


section \<open>Simulated input changes\<close>

text \<open>The setters of a pair, read back.\<close>

lemma XN_setStatus_bit:
  "i < 8 \<Longrightarrow> bit (snd (XN_setStatus i v p)) j = (if j = i then v else bit (snd p) j)"
  by (auto simp: XN_setStatus_def bit_setFlag bit_exp_iff)

lemma XN_pairType_bits:
  "XN_pairType p = FeedbackModule \<longleftrightarrow> bit (snd p) 6 \<and> \<not> bit (snd p) 5"
proof -
  let ?t = "drop_bit 5 (snd p AND 0x60)"
  have "?t = (if bit (snd p) 5 then 1 else 0) + (if bit (snd p) 6 then 2 else 0)"
    by (rule u8_eqI) (simp_all add: bit_simps)
  then show ?thesis by (simp add: XN_pairType_def split: if_splits)
qed

lemma XN_setStatus_frame:
  assumes "i < 4"
  shows "XN_groupAddress (XN_setStatus i v p) = XN_groupAddress p"
    and "XN_pairType (XN_setStatus i v p) = FeedbackModule \<longleftrightarrow> XN_pairType p = FeedbackModule"
  using assms
  by (simp_all add: XN_groupAddress_def XN_pairType_bits flag_simps XN_setStatus_bit)
    (simp add: XN_setStatus_def)

lemma XN_setGroupAddress_get:
  assumes "unat g < 512"
  shows "XN_groupAddress (XN_setType FeedbackModule (XN_setGroupAddress g p)) = g"
    and "XN_pairType (XN_setType FeedbackModule (XN_setGroupAddress g p)) = FeedbackModule"
proof -
  let ?p = "XN_setType FeedbackModule (XN_setGroupAddress g p)"
  have up: "\<not> bit g k" if "9 \<le> k" for k using bit_above_bound [of g 9 k] assms that by simp
  have b4: "bit (snd ?p) 4 = bit g 0"
    using testFlag_exp [of 0 g] by (simp add: XN_setType_def XN_setGroupAddress_def bit_simps flip: testFlag_def)
  show "XN_pairType ?p = FeedbackModule"
    by (simp add: XN_pairType_bits) (simp add: XN_setType_def bit_simps)
  have "XN_groupAddress ?p = push_bit 1 (ucast (ucast (drop_bit 1 g) :: u8)) OR (if bit g 0 then 1 else 0)"
    using b4 by (simp add: XN_groupAddress_def flag_simps) (simp add: XN_setType_def XN_setGroupAddress_def)
  also have "\<dots> = g"
    using up [of 9] up [of 10] up [of 11] up [of 12] up [of 13] up [of 14] up [of 15]
    by (intro u16_eqI) (simp_all only: bit_or_iff bit_push_bit_iff bit_ucast_iff bit_drop_bit_eq,
      simp_all add: bit_simps numeral_2_eq_2 numeral_3_eq_3 numeral_eq_Suc)
  finally show "XN_groupAddress ?p = g" .
qed

text \<open>The value the simulation gives input \<open>i\<close> of the group.\<close>

definition XN_simulatedBit :: "nat \<Rightarrow> SimulateInputAction \<Rightarrow> (nat \<Rightarrow> TriState) \<Rightarrow> nat \<Rightarrow> bool" where
  "XN_simulatedBit n action ivs i =
    (if i = n then
       (case action of SimSetFalse \<Rightarrow> False | SimSetTrue \<Rightarrow> True | SimToggle \<Rightarrow> ivs i \<noteq> TriTrue)
     else ivs i = TriTrue)"

lemma XN_simulatedStatus_eq:
  assumes "unat g < 512" and "i < 4"
  shows "XN_simulatedStatus g index action k i p =
    XN_setStatus i (XN_simulatedBit (4 * unat g + index) action (xn_inputValues k) (4 * unat g + i)) p"
  using XN_fullAddress [OF assms]
  by (simp add: XN_simulatedStatus_def XN_simulatedBit_def split: SimulateInputAction.split)

lemma XN_simulatedStatus_fold:
  fixes g :: u16 and index :: nat and action :: SimulateInputAction and k :: XN_Kernel
  assumes "unat g < 512"
  defines "q \<equiv> \<lambda>p. fold (XN_simulatedStatus g index action k) [0..<4] p"
  shows "j < 4 \<Longrightarrow>
      bit (snd (q p)) j = XN_simulatedBit (4 * unat g + index) action (xn_inputValues k) (4 * unat g + j)"
    and "XN_groupAddress (q p) = XN_groupAddress p"
    and "XN_pairType (q p) = FeedbackModule \<longleftrightarrow> XN_pairType p = FeedbackModule"
proof -
  have eq: "q p = fold (\<lambda>i. XN_setStatus i (XN_simulatedBit (4 * unat g + index) action (xn_inputValues k)
      (4 * unat g + i))) [0, 1, 2, 3] p"
    using XN_simulatedStatus_eq [OF assms(1)] by (simp add: q_def upt_4)
  show "j < 4 \<Longrightarrow>
      bit (snd (q p)) j = XN_simulatedBit (4 * unat g + index) action (xn_inputValues k) (4 * unat g + j)"
    unfolding eq by (auto simp: XN_setStatus_bit less_Suc_eq numeral_eq_Suc)
  show "XN_groupAddress (q p) = XN_groupAddress p"
    unfolding eq by (simp add: XN_setStatus_frame)
  show "XN_pairType (q p) = FeedbackModule \<longleftrightarrow> XN_pairType p = FeedbackModule"
    unfolding eq by (simp add: XN_setStatus_frame)
qed

lemma XN_pair_setPair [simp]: "length m = 4 \<Longrightarrow> XN_pair 0 (XN_setPair 0 p m) = p"
  by (simp add: XN_pair_def XN_setPair_def nth_list_update)

definition XN_simulatedPair :: "u16 \<Rightarrow> SimulateInputAction \<Rightarrow> XN_Kernel \<Rightarrow> u8 \<times> u8" where
  "XN_simulatedPair address action k =
    fold (XN_simulatedStatus (drop_bit 2 (address - 1)) (unat ((address - 1) AND 0x0003)) action k) [0..<4]
      (XN_setType FeedbackModule (XN_setGroupAddress (drop_bit 2 (address - 1)) (0, 0)))"

lemma XN_simulatedFeedback_eq:
  "XN_simulatedFeedback address action k =
    (let p = XN_simulatedPair address action k in [0x42, fst p, snd p, (0x42 XOR fst p) XOR snd p])"
  by (simp add: XN_simulatedFeedback_def XN_simulatedPair_def Let_def XN_setPairCount_def XN_pair_def XN_setPair_def
      XN_updateChecksum_def XN_calcChecksum_def XN_dataSize_def)

lemma XN_simulated_valid: "XN_valid (XN_simulatedFeedback address action k)"
  by (simp add: XN_simulatedFeedback_eq Let_def XN_valid_def XN_framed_def XN_size_def XN_dataSize_def
      XN_isChecksumValid_def XN_calcChecksum_def)

lemma input_address_split:
  assumes "1 \<le> unat (address :: u16)" and "unat address \<le> 2048"
  shows "unat (drop_bit 2 (address - 1)) < 512"
    and "4 * unat (drop_bit 2 (address - 1)) + unat ((address - 1) AND 0x0003) = unat address - 1"
    and "unat (address - 1) = unat address - 1"
proof -
  show u: "unat (address - 1) = unat address - 1"
    using assms(1) by (simp add: unat_sub word_le_nat_alt)
  have d: "unat (drop_bit 2 (address - 1)) = (unat address - 1) div 4"
    using u by (simp add: drop_bit_eq_div unat_div)
  have "(address - 1) AND 0x0003 = take_bit 2 (address - 1)"
    by (simp add: take_bit_eq_mask mask_eq_exp_minus_1)
  then have a: "unat ((address - 1) AND 0x0003) = (unat address - 1) mod 4"
    using u by (simp add: take_bit_eq_mod unat_mod)
  show "unat (drop_bit 2 (address - 1)) < 512" using d assms by simp
  show "4 * unat (drop_bit 2 (address - 1)) + unat ((address - 1) AND 0x0003) = unat address - 1"
    using d a by simp
qed

lemma XN_simulatedPair_facts:
  fixes address :: u16 and action :: SimulateInputAction and k :: XN_Kernel
  assumes "1 \<le> unat address" and "unat address \<le> 2048"
  defines "p \<equiv> XN_simulatedPair address action k"
  shows "XN_pairType p = FeedbackModule" and "unat (XN_groupAddress p) = (unat address - 1) div 4"
    and "j < 4 \<Longrightarrow> bit (snd p) j =
      XN_simulatedBit (unat address - 1) action (xn_inputValues k) (4 * ((unat address - 1) div 4) + j)"
proof -
  note a = input_address_split [OF assms(1,2)]
  have d: "unat (drop_bit 2 (address - 1)) = (unat address - 1) div 4"
    using a(3) by (simp add: drop_bit_eq_div unat_div)
  note f = XN_simulatedStatus_fold [OF a(1)] XN_setGroupAddress_get [OF a(1)]
  show "XN_pairType p = FeedbackModule" "unat (XN_groupAddress p) = (unat address - 1) div 4"
    using f d by (simp_all add: p_def XN_simulatedPair_def)
  show "bit (snd p) j =
      XN_simulatedBit (unat address - 1) action (xn_inputValues k) (4 * ((unat address - 1) div 4) + j)" if "j < 4"
    using f(1) [OF that, of "unat ((address - 1) AND 0x0003)" action k] a(2) d
    by (simp add: p_def XN_simulatedPair_def)
qed

lemma XN_receive_feedback_single:
  "xn_inputValues (XN_receive_feedback [0x42, a, d, c] k) = xn_inputValues (XN_receive_pair (a, d) k)"
  by (simp add: XN_receive_feedback_def XN_pairCount_def XN_dataSize_def XN_pair_def)

text \<open>The values after the simulated change.\<close>

definition XN_simulatedValues :: "nat \<Rightarrow> SimulateInputAction \<Rightarrow> (nat \<Rightarrow> TriState) \<Rightarrow> nat \<Rightarrow> TriState" where
  "XN_simulatedValues n action ivs i =
    (if i div 4 = n div 4 then toTriState (XN_simulatedBit n action ivs i) else ivs i)"

lemma XN_simulateInputChange_values:
  assumes "1 \<le> unat address" and "unat address \<le> 2048" and "xn_inputController k"
    and "\<not> (action = SimSetFalse \<and> xn_inputValues k (unat address - 1) = TriFalse)"
    and "\<not> (action = SimSetTrue \<and> xn_inputValues k (unat address - 1) = TriTrue)"
  shows "xn_inputValues (XN_simulateInputChange_posted address action k) =
    XN_simulatedValues (unat address - 1) action (xn_inputValues k)"
proof -
  let ?p = "XN_simulatedPair address action k" and ?m = "XN_simulatedFeedback address action k"
  let ?k = "if xn_debugLogRXTX (xn_config k) then XN_eventLoopCall (XnRX ?m) k else k"
  note p = XN_simulatedPair_facts [OF assms(1,2)]
  have "XN_simulateInputChange_posted address action k = XN_receive ?m k"
    using assms(4,5) input_address_split(3) [OF assms(1,2)] by (auto simp: XN_simulateInputChange_posted_def)
  moreover have "XN_identification ?m = 0x40"
    by (simp add: XN_simulatedFeedback_eq Let_def XN_identification_def)
  ultimately have "XN_simulateInputChange_posted address action k = XN_receive_feedback ?m ?k"
    by (simp add: XN_receive_def Let_def)
  then have "xn_inputValues (XN_simulateInputChange_posted address action k) =
      xn_inputValues (XN_receive_pair ?p ?k)"
    using XN_receive_feedback_single [of "fst ?p" "snd ?p"] by (simp add: XN_simulatedFeedback_eq Let_def)
  also have "\<dots> = XN_groupValues ?p (xn_inputValues k)"
    using assms(3) p(1) by (simp add: XN_receive_pair_values XN_isInputPair_def XN_eventLoopCall_def)
  also have "\<dots> = XN_simulatedValues (unat address - 1) action (xn_inputValues k)"
  proof
    fix i :: nat
    have "4 * (i div 4) + i mod 4 = i" by simp
    then show "XN_groupValues ?p (xn_inputValues k) i =
        XN_simulatedValues (unat address - 1) action (xn_inputValues k) i"
      using p(2) [of action k] p(3) [of "i mod 4" action k]
      by (cases "i div 4 = (unat address - 1) div 4") (simp_all add: XN_groupValues_def XN_simulatedValues_def)
  qed
  finally show ?thesis .
qed

end
