(* ===== verification/XpressNet_Codec.thy ===== *)
theory XpressNet_Codec
  imports XpressNet_Messages
begin

text \<open>
  The fields of XpressNet messages read back: addresses of accessories and locomotives, and the
  speed byte of the four speed commands as a command station decodes it.
\<close>

section \<open>Accessories\<close>

lemma XN_request_bytes:
  "XN_AccessoryDecoderOperationRequest address port activate ! 1 = ucast (drop_bit 2 (address - 1))"
  "XN_AccessoryDecoderOperationRequest address port activate ! 2 =
    orFlag (orFlag (0x80 OR push_bit 1 (ucast ((address - 1) AND 0x03))) 0x01 port) 0x08 activate"
  by (simp_all add: XN_AccessoryDecoderOperationRequest_def XN_seal_def Let_def)

lemma XN_Accessory_bits:
  "XN_Accessory_port (XN_AccessoryDecoderOperationRequest address port activate) = port"
  "XN_Accessory_activate (XN_AccessoryDecoderOperationRequest address port activate) = activate"
  by (simp_all add: XN_Accessory_port_def XN_Accessory_activate_def XN_request_bytes flag_simps bit_simps)

text \<open>The address is kept in ten bits.\<close>

lemma XN_Accessory_address_take:
  "XN_Accessory_address (XN_AccessoryDecoderOperationRequest address port activate) =
    1 + take_bit 10 (address - 1)"
proof -
  let ?m = "XN_AccessoryDecoderOperationRequest address port activate" and ?a = "address - 1"
  have low: "drop_bit 1 (ucast (?m ! 2) :: u16) AND 0x03 = ?a AND 0x03"
  proof (rule u16_eqI)
    have "bit (drop_bit 1 (ucast (?m ! 2) :: u16)) 0 = bit ?a 0"
      "bit (drop_bit 1 (ucast (?m ! 2) :: u16)) 1 = bit ?a 1"
      by (simp_all only: bit_drop_bit_eq bit_ucast_iff XN_request_bytes bit_orFlag bit_or_iff)
        (simp_all add: bit_simps flag_simps)
    then show "bit (drop_bit 1 (ucast (?m ! 2) :: u16) AND 0x03) 0 = bit (?a AND 0x03) 0"
      "bit (drop_bit 1 (ucast (?m ! 2) :: u16) AND 0x03) 1 = bit (?a AND 0x03) 1"
      by (simp_all only: bit_and_iff)
  qed (simp_all add: bit_simps)
  have "push_bit 2 (ucast (?m ! 1)) OR (?a AND 0x03) = take_bit 10 ?a"
    unfolding XN_request_bytes by (rule u16_eqI) (simp_all add: bit_simps)
  then show ?thesis by (simp only: XN_Accessory_address_def low)
qed

lemma XN_Accessory_address_unat:
  assumes "1 \<le> unat address"
  shows "unat (XN_Accessory_address (XN_AccessoryDecoderOperationRequest address port activate)) =
    1 + (unat address - 1) mod 1024"
proof -
  have u: "unat (address - 1) = unat address - 1"
    using assms by (simp add: unat_sub word_le_nat_alt)
  have t: "unat (take_bit 10 (address - 1)) = (unat address - 1) mod 1024"
    using u by (simp add: take_bit_eq_mod unat_mod)
  have "(unat address - 1) mod 1024 < 1024" by simp
  then have "unat (1 + take_bit 10 (address - 1)) = 1 + (unat address - 1) mod 1024"
    using t by (simp add: unat_word_ariths)
  then show ?thesis by (simp only: XN_Accessory_address_take)
qed

section \<open>Locomotive addresses\<close>

text \<open>Reading the two address bytes back.\<close>

definition XN_addressOf :: "bytes \<Rightarrow> u16" where
  "XN_addressOf b = (if b ! 0 = 0 then ucast (b ! 1) else to16 (b ! 1) (b ! 0 AND 0x3F))"

lemma XN_address_roundtrip:
  assumes "1 \<le> unat a" and "unat a \<le> 9999"
  shows "XN_addressOf (XN_address a) = a"
proof (cases "a \<ge> XN_longAddressMin")
  case True
  have up: "\<not> bit a 14" "\<not> bit a 15"
    using u16_upper_bits(3) [of a] assms(2) by simp_all
  have "bit (ucast (0xC0 OR drop_bit 8 a) :: u8) 7" by (simp add: bit_simps)
  then have "(ucast (0xC0 OR drop_bit 8 a) :: u8) \<noteq> 0" by auto
  moreover have "to16 (ucast (a AND 0xFF)) (ucast (0xC0 OR drop_bit 8 a) AND 0x3F) = a"
    using up by (intro u16_eqI) (simp_all add: to16_def bit_simps)
  ultimately show ?thesis using True by (simp add: XN_address_def XN_addressOf_def)
next
  case False
  then have "unat a < 128" by (simp add: word_less_nat_alt not_le)
  then have "ucast (ucast (a AND 0x7F) :: u8) = a"
    using u16_upper_bits(4) [of a] by (intro u16_eqI) (simp_all add: bit_simps)
  then show ?thesis using False by (simp add: XN_address_def XN_addressOf_def)
qed

section \<open>Speed\<close>

text \<open>
  How a command station reads the speed byte: 0 stops, 1 is the emergency stop, and step \<open>n\<close> is
  \<open>n + 1\<close>; for 27 and 28 steps bit 4 is the last bit of the step, so 0 and 1 in the low nibble
  stop and stop at once whatever that bit is.
\<close>

datatype XN_Speed = XnStop | XnEStop | XnStep nat

definition XN_decodeSpeed :: "nat \<Rightarrow> u8 \<Rightarrow> XN_Speed" where
  "XN_decodeSpeed n s =
    (if s = 0 then XnStop else if s = 1 then XnEStop else XnStep (unat s - n))"

definition XN_speedOf14 :: "bytes \<Rightarrow> XN_Speed" where
  "XN_speedOf14 m = XN_decodeSpeed 1 (m ! 4 AND 0x0F)"

definition XN_speedOf128 :: "bytes \<Rightarrow> XN_Speed" where
  "XN_speedOf128 m = XN_decodeSpeed 1 (m ! 4 AND 0x7F)"

definition XN_speedOf28 :: "bytes \<Rightarrow> XN_Speed" where
  "XN_speedOf28 m =
    (if m ! 4 AND 0x0F = 0 then XnStop else if m ! 4 AND 0x0F = 1 then XnEStop
     else XnStep (2 * unat (m ! 4 AND 0x0F) + (if testFlag (m ! 4) 0x10 then 1 else 0) - 3))"

definition XN_forward :: "bytes \<Rightarrow> bool" where
  "XN_forward m = testFlag (m ! 4) 0x80"

definition XN_intended :: "bool \<Rightarrow> u8 \<Rightarrow> XN_Speed" where
  "XN_intended emergencyStop speedStep =
    (if emergencyStop then XnEStop else if speedStep = 0 then XnStop else XnStep (unat speedStep))"

text \<open>The bits of a byte below a bound.\<close>

lemma u8_upper_bits:
  fixes t :: u8
  shows "unat t < 16 \<Longrightarrow> \<not> bit t 4 \<and> \<not> bit t 5 \<and> \<not> bit t 6 \<and> \<not> bit t 7"
    and "unat t < 32 \<Longrightarrow> \<not> bit t 5 \<and> \<not> bit t 6 \<and> \<not> bit t 7"
    and "unat t < 128 \<Longrightarrow> \<not> bit t 7"
  using bit_above_bound [of t 4] bit_above_bound [of t 5] bit_above_bound [of t 7] by simp_all

lemma XN_speed_byte [simp]:
  "XN_seal (XN_LocomotiveInstruction a i @ [s]) ! 4 = s"
  by (simp add: XN_seal_def nth_append)

lemma XN_step_unat:
  assumes "unat (speedStep :: u8) \<le> 126"
  shows "unat (speedStep + 1) = unat speedStep + 1" "speedStep + 1 \<noteq> 0"
    "speedStep + 1 = 1 \<longleftrightarrow> speedStep = 0"
proof -
  show u: "unat (speedStep + 1) = unat speedStep + 1" using assms by (simp add: unat_word_ariths)
  then show "speedStep + 1 \<noteq> 0" by (metis Suc_eq_plus1 nat.distinct(1) unsigned_0)
qed simp

lemma XN_direction_bit:
  "bit (XN_speedAndDirection e d) 7 = (d = DirForward)"
  by (simp add: XN_speedAndDirection_def flag_simps bit_simps)

lemma XN_speed_direction:
  "unat s \<le> 14 \<Longrightarrow> XN_forward (XN_SpeedAndDirectionInstruction14 a e d s fl) = (d = DirForward)"
  "unat s \<le> 28 \<Longrightarrow> XN_forward (XN_SpeedAndDirectionInstruction27 a e d s) = (d = DirForward)"
  "unat s \<le> 28 \<Longrightarrow> XN_forward (XN_SpeedAndDirectionInstruction28 a e d s) = (d = DirForward)"
  "unat s \<le> 126 \<Longrightarrow> XN_forward (XN_SpeedAndDirectionInstruction128 a e d s) = (d = DirForward)"
  using u8_upper_bits(3) [of "s + 1"] XN_step_unat(1) [of s]
  by (simp_all add: XN_forward_def XN_speed_defs Let_def XN_direction_bit XN_step28_def flag_simps bit_simps
      split: if_split)

lemma XN_speed14:
  assumes "unat s \<le> 14"
  shows "XN_speedOf14 (XN_SpeedAndDirectionInstruction14 a e d s fl) = XN_intended e s"
proof -
  have u: "unat (s + 1) = unat s + 1" "s + 1 \<noteq> 0" "s + 1 = 1 \<longleftrightarrow> s = 0"
    using XN_step_unat [of s] assms by simp_all
  have b: "(x OR (s + 1)) AND 0x0F = (s + 1)" "((x OR (s + 1)) OR 0x10) AND 0x0F = s + 1"
    if "x = 0 \<or> x = 0x80" for x
    using that u8_upper_bits(1) [of "s + 1"] u(1) assms
    by (auto intro!: u8_eqI simp: bit_simps)
  show ?thesis
    using u b [of 0] b [of "0x80"]
    by (auto simp: XN_speedOf14_def XN_SpeedAndDirectionInstruction14_def Let_def XN_decodeSpeed_def XN_intended_def
        XN_speedAndDirection_def orFlag_def word_gt_0)
qed

lemma XN_speed128:
  assumes "unat s \<le> 126"
  shows "XN_speedOf128 (XN_SpeedAndDirectionInstruction128 a e d s) = XN_intended e s"
proof -
  have u: "unat (s + 1) = unat s + 1" "s + 1 \<noteq> 0" "s + 1 = 1 \<longleftrightarrow> s = 0"
    using XN_step_unat [of s] assms by simp_all
  have b: "(x OR (s + 1)) AND 0x7F = (s + 1)" if "x = 0 \<or> x = 0x80" for x
    using that u8_upper_bits(3) [of "s + 1"] u(1) assms
    by (auto intro!: u8_eqI simp: bit_simps)
  show ?thesis
    using u b [of 0] b [of "0x80"]
    by (auto simp: XN_speedOf128_def XN_SpeedAndDirectionInstruction128_def Let_def XN_decodeSpeed_def XN_intended_def
        XN_speedAndDirection_def orFlag_def word_gt_0)
qed

text \<open>With 28 steps the byte is two steps behind: steps 1 and 2 are emergency stops.\<close>

definition XN_shifted28 :: "bool \<Rightarrow> u8 \<Rightarrow> XN_Speed" where
  "XN_shifted28 emergencyStop speedStep =
    (if emergencyStop then XnEStop else if speedStep = 0 then XnStop
     else if unat speedStep \<le> 2 then XnEStop else XnStep (unat speedStep - 2))"

lemma odd_unat: "odd (unat (x :: 'a::len word)) = odd x"
  by (metis even_of_nat mult.right_neutral unsigned_1 word_arith_nat_mult)

lemma XN_step28_byte:
  assumes "unat (s :: u8) \<le> 28" and "x = 0 \<or> x = 0x80"
  shows "(x OR XN_step28 s) AND 0x0F = drop_bit 1 (s + 1)"
    and "testFlag (x OR XN_step28 s) 0x10 = odd (unat s + 1)"
    and "unat (drop_bit 1 (s + 1)) = (unat s + 1) div 2"
proof -
  have u: "unat (s + 1) = unat s + 1" using XN_step_unat [of s] assms by simp
  then have up: "\<not> bit (s + 1) 5" "\<not> bit (s + 1) 6" "\<not> bit (s + 1) 7"
    using u8_upper_bits(2) [of "s + 1"] assms(1) by simp_all
  show "(x OR XN_step28 s) AND 0x0F = drop_bit 1 (s + 1)"
    using up assms(2)
    by (intro u8_eqI) (auto simp: XN_step28_def bit_or_iff bit_and_iff bit_push_bit_iff bit_drop_bit_eq bit_simps
        simp del: drop_bit_Suc drop_bit_0)
  have "testFlag (x OR XN_step28 s) 0x10 = bit (s + 1) 0"
    using up assms(2) by (auto simp: flag_simps XN_step28_def bit_simps)
  then show "testFlag (x OR XN_step28 s) 0x10 = odd (unat s + 1)"
    using u odd_unat [of "s + 1"] by (simp add: bit_0)
  show "unat (drop_bit 1 (s + 1)) = (unat s + 1) div 2"
    using u by (simp add: drop_bit_eq_div unat_div)
qed

lemma XN_speed28_byte:
  "XN_SpeedAndDirectionInstruction28 a e d s ! 4 =
    (if \<not> e \<and> s > 0 then XN_speedAndDirection e d OR XN_step28 s else XN_speedAndDirection e d)"
  "XN_SpeedAndDirectionInstruction27 a e d s ! 4 =
    (if \<not> e \<and> s > 0 then XN_speedAndDirection e d OR XN_step28 s else XN_speedAndDirection e d)"
  by (simp_all add: XN_speed_defs Let_def)

lemma XN_speed28_shifted:
  assumes "unat s \<le> 28"
    and "m = XN_SpeedAndDirectionInstruction28 a e d s \<or> m = XN_SpeedAndDirectionInstruction27 a e d s"
  shows "XN_speedOf28 m = XN_shifted28 e s"
proof -
  let ?b = "XN_speedAndDirection e d"
  have m: "m ! 4 = (if \<not> e \<and> s > 0 then ?b OR XN_step28 s else ?b)"
    using assms XN_speed28_byte by metis
  have b: "\<not> e \<Longrightarrow> ?b = 0 \<or> ?b = 0x80" by (simp add: XN_speedAndDirection_def orFlag_def)
  show ?thesis
  proof (cases "e \<or> s = 0")
    case True
    then show ?thesis using m
      by (auto simp: XN_speedOf28_def XN_shifted28_def XN_speedAndDirection_def orFlag_def)
  next
    case False
    let ?h = "drop_bit 1 (s + 1)"
    note t = XN_step28_byte [OF assms(1) b]
    have s: "unat s \<noteq> 0" using False by (simp add: unat_eq_0)
    have h: "unat ?h = (unat s + 1) div 2" using t(3) False by simp
    have "?h \<noteq> 0" using h s by (metis Suc_eq_plus1 div_eq_0_iff less_Suc_eq_0_disj not_less_eq numeral_2_eq_2 unsigned_0 zero_neq_numeral less_2_cases_iff)
    moreover have "?h = 1 \<longleftrightarrow> unat s \<le> 2"
    proof -
      have "?h = 1 \<longleftrightarrow> unat ?h = 1" by (metis unat_1 word_unat_eq_iff)
      also have "\<dots> \<longleftrightarrow> unat s \<le> 2" using h s by presburger
      finally show ?thesis .
    qed
    moreover have "2 * ((unat s + 1) div 2) + (if odd (unat s + 1) then 1 else 0) = unat s + 1"
      by presburger
    moreover have "m ! 4 AND 0x0F = ?h" "testFlag (m ! 4) 0x10 = odd (unat s + 1)"
      using m t False word_gt_0 by auto
    ultimately show ?thesis using False h s
      by (simp add: XN_speedOf28_def XN_shifted28_def)
  qed
qed

lemma XN_step1_is_emergency_stop:
  "XN_SpeedAndDirectionInstruction28 a False d 1 = XN_SpeedAndDirectionInstruction28 a True d s"
  "XN_SpeedAndDirectionInstruction27 a False d 1 = XN_SpeedAndDirectionInstruction27 a True d s"
  by (simp_all add: XN_speed_defs Let_def XN_speedAndDirection_def XN_step28_def orFlag_def drop_bit_eq_div)

end
