(* ===== verification/XpressNet_Reachable.thy ===== *)
theory XpressNet_Reachable
  imports XpressNet_Behaviour XpressNet_Codec "HOL-Library.While_Combinator"
begin

text \<open>
  The XpressNet kernel as a transition system: the operations of the program's main thread post
  closures, the kernel's thread runs them in order, messages arrive at any time.  Then the kernel
  together with the simulated command station, which answers each message with closures on the
  same queue.
\<close>

section \<open>What operations post\<close>

text \<open>The operations with the ranges their callers keep to.\<close>

inductive XN_call :: "XN_Kernel \<Rightarrow> XN_task list \<Rightarrow> bool" where
  call_setConfig: "XN_call k [XnSetConfig config]"
| call_resumeOperations: "XN_call k [XnResumeOperations]"
| call_stopOperations: "XN_call k [XnStopOperations]"
| call_stopAllLocomotives: "XN_call k [XnStopAllLocomotives]"
| call_decoderChanged: "XN_call k (XN_decoderChanged d changes n u k)"
| call_setOutput: "1 \<le> unat address \<Longrightarrow> unat address \<le> 1024 \<Longrightarrow> XN_call k (snd (XN_setOutput address v))"
| call_simulateInputChange:
    "1 \<le> unat address \<Longrightarrow> unat address \<le> 2048 \<Longrightarrow> XN_call k (XN_simulateInputChange address action k)"

type_synonym XN_state = "XN_Kernel \<times> XN_task list"

inductive XN_step :: "XN_state \<Rightarrow> XN_state \<Rightarrow> bool" where
  step_call: "XN_call k new \<Longrightarrow> XN_step (k, ts) (k, ts @ new)"
| step_run: "XN_step (k, t # ts) (XN_runTask t k, ts)"
| step_receive: "XN_step (k, ts) (XN_receive message k, ts)"

inductive_cases XN_step_cases: "XN_step s s'"

text \<open>A kernel is constructed, its callbacks are set, it is started and then runs.\<close>

inductive XN_reachable :: "XN_state \<Rightarrow> bool" where
  reach_start: "xn_wire k = [] \<Longrightarrow> xn_events k = [] \<Longrightarrow> XN_reachable (XN_start b k)"
| reach_step: "XN_reachable s \<Longrightarrow> XN_step s s' \<Longrightarrow> XN_reachable s'"

section \<open>The invariant\<close>

text \<open>
  A message is right unless it is the emergency stop of one locomotive, whose checksum the code does
  not set; that one is framed all the same.
\<close>

definition XN_sendable :: "bytes \<Rightarrow> bool" where
  "XN_sendable m \<longleftrightarrow> XN_valid m \<or> (\<exists>a u. m = XN_EmergencyStopLocomotive a u)"

fun XN_taskOk :: "XN_task \<Rightarrow> bool" where
  "XN_taskOk (XnSend m) = XN_sendable m"
| "XN_taskOk _ = True"

fun XN_eventOk :: "XN_event \<Rightarrow> bool" where
  "XN_eventOk (XnTX m) = XN_sendable m"
| "XN_eventOk (XnLogInput n v) = (1 \<le> n \<and> n \<le> 2048 \<and> v \<noteq> TriUndefined)"
| "XN_eventOk (XnInput n v) = (1 \<le> n \<and> n \<le> 2048 \<and> v \<noteq> TriUndefined)"
| "XN_eventOk _ = True"

definition XN_inv :: "XN_Kernel \<Rightarrow> bool" where
  "XN_inv k \<longleftrightarrow> list_all (\<lambda>(m, ok). XN_sendable m) (xn_wire k) \<and> list_all XN_eventOk (xn_events k)"

lemma XN_inv_event [simp]: "XN_inv (XN_eventLoopCall e k) \<longleftrightarrow> XN_inv k \<and> XN_eventOk e"
  by (simp add: XN_inv_def XN_eventLoopCall_def)

lemma XN_inv_update [simp]:
  "XN_inv (k\<lparr>xn_trackPowerOn := a\<rparr>) = XN_inv k" "XN_inv (k\<lparr>xn_emergencyStop := b\<rparr>) = XN_inv k"
  "XN_inv (k\<lparr>xn_inputValues := c\<rparr>) = XN_inv k" "XN_inv (k\<lparr>xn_config := d\<rparr>) = XN_inv k"
  by (simp_all add: XN_inv_def)

lemma XN_inv_send: "XN_inv k \<Longrightarrow> XN_sendable m \<Longrightarrow> XN_inv (XN_send m k)"
  by (simp add: XN_send_def Let_def XN_inv_def XN_eventLoopCall_def)

lemma XN_inv_receive_input:
  assumes "XN_inv k" and "unat g < 512" and "j < 4"
  shows "XN_inv (XN_receive_input (push_bit 2 g) s j k)"
  using assms(1) XN_fullAddress [OF assms(2,3)] assms(2,3) by (simp add: XN_receive_input_def Let_def)

lemma XN_inv_fold_input:
  "XN_inv k \<Longrightarrow> unat g < 512 \<Longrightarrow> list_all (\<lambda>j. j < 4) js \<Longrightarrow>
    XN_inv (fold (XN_receive_input (push_bit 2 g) s) js k)"
  by (induction js arbitrary: k) (simp_all add: XN_inv_receive_input)

lemma XN_inv_receive_pair: "XN_inv k \<Longrightarrow> XN_inv (XN_receive_pair p k)"
  using XN_inv_fold_input [OF _ XN_groupAddress_less [of p], of k "[0, 1, 2, 3]"]
  by (auto simp: XN_receive_pair_def upt_4 split: XN_PairType.split)

lemma XN_inv_receive_feedback: "XN_inv k \<Longrightarrow> XN_inv (XN_receive_feedback m k)"
proof -
  have "XN_inv (fold (\<lambda>i. XN_receive_pair (f i)) is k)" if "XN_inv k" for f "is" and k :: XN_Kernel
    using that by (induction "is" arbitrary: k) (simp_all add: XN_inv_receive_pair)
  then show "XN_inv k \<Longrightarrow> XN_inv (XN_receive_feedback m k)" by (simp add: XN_receive_feedback_def)
qed

lemma XN_inv_receive: "XN_inv k \<Longrightarrow> XN_inv (XN_receive m k)"
  by (simp add: XN_receive_def Let_def XN_receive_power_def XN_receive_emergencyStop_def XN_inv_receive_feedback)

lemma XN_sendable_valid: "XN_valid m \<Longrightarrow> XN_sendable m"
  by (simp add: XN_sendable_def)

lemma XN_inv_runTask: "XN_inv k \<Longrightarrow> XN_taskOk t \<Longrightarrow> XN_inv (XN_runTask t k)"
  by (cases t)
    (simp_all add: XN_start_posted_def XN_resumeOperations_def XN_stopOperations_def XN_stopAllLocomotives_def
      XN_setOutput_posted_def XN_simulateInputChange_posted_def XN_inv_send XN_inv_receive XN_sendable_valid
      XN_fixed_valid XN_accessory_valid)

lemma XN_taskOk_speed: "list_all XN_taskOk (XN_decoderChanged_speed d)"
  by (simp add: XN_decoderChanged_speed_def Let_def XN_sendable_valid XN_speed_valid)

lemma XN_taskOk_function: "list_all XN_taskOk (XN_decoderChanged_function d n k)"
  by (simp add: XN_decoderChanged_function_def Let_def XN_sendable_valid XN_function_valid)

lemma XN_taskOk_decoderChanged: "list_all XN_taskOk (XN_decoderChanged d changes n u k)"
  using XN_taskOk_speed XN_taskOk_function by (auto simp: XN_decoderChanged_def XN_sendable_def)

lemma XN_call_taskOk: "XN_call k ts \<Longrightarrow> list_all XN_taskOk ts"
  by (induction rule: XN_call.induct)
    (simp_all add: XN_taskOk_decoderChanged XN_setOutput_def XN_simulateInputChange_def)

lemma XN_reachable_inv:
  assumes "XN_reachable s"
  shows "XN_inv (fst s) \<and> list_all XN_taskOk (snd s)"
  using assms
proof (induction rule: XN_reachable.induct)
  case (reach_start k b)
  then show ?case by (simp add: XN_start_def XN_inv_def)
next
  case (reach_step s s')
  from reach_step(2,3) show ?case
    by (elim XN_step_cases) (auto simp: XN_inv_runTask XN_inv_receive XN_call_taskOk)
qed

section \<open>The kernel with the simulated command station\<close>

text \<open>
  One turn of the IO context: the first closure runs, and the messages it sent are answered by
  closures posted behind the others.
\<close>

definition XN_sim_turn :: "XN_state \<Rightarrow> XN_state" where
  "XN_sim_turn s =
    (case snd s of
       [] \<Rightarrow> s
     | t # ts \<Rightarrow>
         (let k = XN_runTask t (fst s);
              sent = map fst (drop (length (xn_wire (fst s))) (xn_wire k))
          in (k, ts @ map XnReceive (concat (map XN_simulation_send sent)))))"

definition XN_sim_run :: "XN_state \<Rightarrow> XN_state option" where
  "XN_sim_run s = while_option (\<lambda>s. snd s \<noteq> []) XN_sim_turn s"

text \<open>A closure sends at most one message, and a received message sends none.\<close>

lemma XN_receive_wire [simp]: "xn_wire (XN_receive m k) = xn_wire k"
  by (simp add: XN_receive_def Let_def XN_receive_power_def XN_receive_emergencyStop_def XN_eventLoopCall_def)

lemma XN_send_wire:
  "xn_wire (XN_send m k) = xn_wire k @ [(m, xn_ioSend k (xn_wire k) m)]"
  by (simp add: XN_send_def Let_def XN_eventLoopCall_def)

lemma XN_runTask_wire:
  "xn_wire (XN_runTask t k) = xn_wire k \<or>
    (\<exists>m. xn_wire (XN_runTask t k) = xn_wire k @ [(m, xn_ioSend k (xn_wire k) m)]) \<and> (\<forall>m. t \<noteq> XnReceive m)"
  by (cases t)
    (auto simp: XN_start_posted_def XN_eventLoopCall_def XN_resumeOperations_def XN_stopOperations_def
      XN_stopAllLocomotives_def XN_setOutput_posted_def XN_simulateInputChange_posted_def XN_send_wire)

lemma XN_simulation_send_le: "length (XN_simulation_send m) \<le> 3"
  by (simp add: XN_simulation_send_def)

fun XN_weight :: "XN_task \<Rightarrow> nat" where
  "XN_weight (XnReceive m) = 1"
| "XN_weight t = 4"

definition XN_work :: "XN_state \<Rightarrow> nat" where
  "XN_work s = sum_list (map XN_weight (snd s))"

lemma XN_weight_pos: "1 \<le> XN_weight t" "(\<forall>m. t \<noteq> XnReceive m) \<Longrightarrow> XN_weight t = 4"
  by (cases t; simp)+

lemma XN_work_receive: "sum_list (map (XN_weight \<circ> XnReceive) ms) = length ms"
  by (induction ms) simp_all

lemma XN_sim_turn_work:
  assumes "snd s \<noteq> []"
  shows "XN_work (XN_sim_turn s) < XN_work s"
proof -
  obtain k t ts where s: "s = (k, t # ts)" using assms by (cases s; cases "snd s") auto
  consider "xn_wire (XN_runTask t k) = xn_wire k"
    | m ok where "xn_wire (XN_runTask t k) = xn_wire k @ [(m, ok)]" "XN_weight t = 4"
    using XN_runTask_wire [of t k] XN_weight_pos(2) by blast
  then show ?thesis
  proof cases
    case 1
    then show ?thesis using XN_weight_pos(1) [of t] by (simp add: s XN_sim_turn_def XN_work_def Let_def)
  next
    case 2
    then show ?thesis using XN_simulation_send_le [of m]
      by (simp add: s XN_sim_turn_def XN_work_def Let_def XN_work_receive)
  qed
qed

lemma XN_sim_run_Some: "\<exists>s'. XN_sim_run s = Some s' \<and> snd s' = []"
proof -
  have "\<exists>s'. while_option (\<lambda>s. snd s \<noteq> []) XN_sim_turn s = Some s'"
    using measure_while_option_Some [where P = "\<lambda>_. True" and b = "\<lambda>s. snd s \<noteq> []" and c = XN_sim_turn
        and f = XN_work and s = s] XN_sim_turn_work by blast
  then show ?thesis
    unfolding XN_sim_run_def using while_option_stop by fastforce
qed

text \<open>What the three answers do.\<close>

lemma XN_receive_Resumed:
  "xn_trackPowerOn (XN_receive XN_NormalOperationResumed k) = TriTrue"
  "xn_emergencyStop (XN_receive XN_NormalOperationResumed k) = TriFalse"
  "xn_onNormalOperationResumed (XN_receive XN_NormalOperationResumed k) = xn_onNormalOperationResumed k"
  "count_list (xn_events (XN_receive XN_NormalOperationResumed k)) XnNormalOperationResumed =
    count_list (xn_events k) XnNormalOperationResumed +
      (if xn_onNormalOperationResumed k \<and> (xn_trackPowerOn k \<noteq> TriTrue \<or> xn_emergencyStop k \<noteq> TriFalse) then 1 else 0)"
  by (auto simp: XN_receive_def Let_def XN_identification_def XN_receive_power_def XN_eventLoopCall_def
      XN_NormalOperationResumed_def XN_msgEq_def)

lemma XN_receive_Off:
  "xn_trackPowerOn (XN_receive XN_TrackPowerOff k) = TriFalse"
  "xn_emergencyStop (XN_receive XN_TrackPowerOff k) = xn_emergencyStop k"
  "xn_onTrackPowerOff (XN_receive XN_TrackPowerOff k) = xn_onTrackPowerOff k"
  "count_list (xn_events (XN_receive XN_TrackPowerOff k)) XnTrackPowerOff =
    count_list (xn_events k) XnTrackPowerOff +
      (if xn_onTrackPowerOff k \<and> xn_trackPowerOn k \<noteq> TriFalse then 1 else 0)"
  by (auto simp: XN_receive_def Let_def XN_identification_def XN_receive_power_def XN_eventLoopCall_def
      XN_NormalOperationResumed_def XN_TrackPowerOff_def XN_msgEq_def XN_size_def XN_dataSize_def)

lemma XN_receive_Emergency:
  "xn_emergencyStop (XN_receive XN_EmergencyStop k) = TriTrue"
  "xn_trackPowerOn (XN_receive XN_EmergencyStop k) = xn_trackPowerOn k"
  "xn_onEmergencyStop (XN_receive XN_EmergencyStop k) = xn_onEmergencyStop k"
  "count_list (xn_events (XN_receive XN_EmergencyStop k)) XnEmergencyStop =
    count_list (xn_events k) XnEmergencyStop +
      (if xn_onEmergencyStop k \<and> xn_emergencyStop k \<noteq> TriTrue then 1 else 0)"
  by (auto simp: XN_receive_def Let_def XN_identification_def XN_receive_emergencyStop_def XN_eventLoopCall_def
      XN_EmergencyStop_def XN_msgEq_def)

lemma XN_simulation_answers:
  "XN_simulation_send XN_ResumeOperationsRequest = replicate 3 XN_NormalOperationResumed"
  "XN_simulation_send XN_StopOperationsRequest = replicate 3 XN_TrackPowerOff"
  "XN_simulation_send XN_StopAllLocomotivesRequest = replicate 3 XN_EmergencyStop"
  by (simp_all add: XN_simulation_send_def XN_ResumeOperationsRequest_def XN_StopOperationsRequest_def
      XN_StopAllLocomotivesRequest_def XN_msgEq_def XN_size_def XN_dataSize_def)

lemma XN_sim_run_step:
  "XN_sim_run (k, []) = Some (k, [])"
  "XN_sim_run (k, t # ts) = XN_sim_run (XN_sim_turn (k, t # ts))"
  unfolding XN_sim_run_def by (subst while_option_unfold; simp)+

lemma XN_sim_run_receive:
  "XN_sim_run (k, map XnReceive ms) = Some (fold XN_receive ms k, [])"
  by (induction ms arbitrary: k) (simp_all add: XN_sim_run_step XN_sim_turn_def Let_def)

lemma XN_sim_run_send:
  assumes "XN_runTask t k = XN_send m k"
  shows "XN_sim_run (k, [t]) = Some (fold XN_receive (XN_simulation_send m) (XN_send m k), [])"
  using assms by (simp add: XN_sim_run_step XN_sim_turn_def Let_def XN_send_wire XN_sim_run_receive)

lemma XN_sim_run_idle:
  assumes "XN_runTask t k = k"
  shows "XN_sim_run (k, [t]) = Some (k, [])"
  using assms by (simp add: XN_sim_run_step XN_sim_turn_def Let_def)

lemma XN_send_frame [simp]:
  "xn_trackPowerOn (XN_send m k) = xn_trackPowerOn k" "xn_emergencyStop (XN_send m k) = xn_emergencyStop k"
  "xn_onNormalOperationResumed (XN_send m k) = xn_onNormalOperationResumed k"
  "xn_onTrackPowerOff (XN_send m k) = xn_onTrackPowerOff k" "xn_onEmergencyStop (XN_send m k) = xn_onEmergencyStop k"
  "(\<And>x. e \<noteq> XnTX x) \<Longrightarrow> count_list (xn_events (XN_send m k)) e = count_list (xn_events k) e"
  by (auto simp: XN_send_def Let_def XN_eventLoopCall_def)

lemma replicate_3: "replicate 3 x = [x, x, x]"
  by (simp add: eval_nat_numeral)

lemma XN_sim_resume:
  "\<exists>k'. XN_sim_run (k, [XnResumeOperations]) = Some (k', []) \<and>
    xn_trackPowerOn k' = TriTrue \<and> xn_emergencyStop k' = TriFalse \<and>
    (xn_onNormalOperationResumed k \<longrightarrow>
      count_list (xn_events k') XnNormalOperationResumed = count_list (xn_events k) XnNormalOperationResumed +
        (if xn_trackPowerOn k = TriTrue \<and> xn_emergencyStop k = TriFalse then 0 else 1))"
proof (cases "xn_trackPowerOn k = TriTrue \<and> xn_emergencyStop k = TriFalse")
  case True
  then show ?thesis using XN_sim_run_idle [of XnResumeOperations k] by (simp add: XN_resumeOperations_def)
next
  case False
  then have "XN_runTask XnResumeOperations k = XN_send XN_ResumeOperationsRequest k"
    by (auto simp: XN_resumeOperations_def)
  from XN_sim_run_send [OF this] False show ?thesis
    by (auto simp: XN_simulation_answers replicate_3 XN_receive_Resumed)
qed

lemma XN_sim_stop:
  "\<exists>k'. XN_sim_run (k, [XnStopOperations]) = Some (k', []) \<and>
    xn_trackPowerOn k' = TriFalse \<and> xn_emergencyStop k' = xn_emergencyStop k \<and>
    (xn_onTrackPowerOff k \<longrightarrow>
      count_list (xn_events k') XnTrackPowerOff = count_list (xn_events k) XnTrackPowerOff +
        (if xn_trackPowerOn k = TriFalse then 0 else 1))"
proof (cases "xn_trackPowerOn k = TriFalse")
  case True
  then show ?thesis using XN_sim_run_idle [of XnStopOperations k] by (simp add: XN_stopOperations_def)
next
  case False
  then have "XN_runTask XnStopOperations k = XN_send XN_StopOperationsRequest k"
    by (auto simp: XN_stopOperations_def)
  from XN_sim_run_send [OF this] False show ?thesis
    by (auto simp: XN_simulation_answers replicate_3 XN_receive_Off)
qed

lemma XN_sim_stopAll:
  "\<exists>k'. XN_sim_run (k, [XnStopAllLocomotives]) = Some (k', []) \<and>
    xn_emergencyStop k' = TriTrue \<and> xn_trackPowerOn k' = xn_trackPowerOn k \<and>
    (xn_onEmergencyStop k \<longrightarrow>
      count_list (xn_events k') XnEmergencyStop = count_list (xn_events k) XnEmergencyStop +
        (if xn_emergencyStop k = TriTrue then 0 else 1))"
proof (cases "xn_emergencyStop k = TriTrue")
  case True
  then show ?thesis using XN_sim_run_idle [of XnStopAllLocomotives k] by (simp add: XN_stopAllLocomotives_def)
next
  case False
  then have "XN_runTask XnStopAllLocomotives k = XN_send XN_StopAllLocomotivesRequest k"
    by (auto simp: XN_stopAllLocomotives_def)
  from XN_sim_run_send [OF this] False show ?thesis
    by (auto simp: XN_simulation_answers replicate_3 XN_receive_Emergency)
qed

end
