(* ===== verification/XpressNet_Stream.thy ===== *)
theory XpressNet_Stream
  imports Framing XpressNet_Kernel
begin

text \<open>
  The byte stream of \<^verbatim>\<open>xpressnet/iohandler/hardwareiohandler.cpp\<close> and the writes of
  \<^verbatim>\<open>serialiohandler.cpp\<close>.  Some interfaces (the LI-USB) put two bytes before each message.  The
  bytes not yet processed are \<open>p\<close>, \<open>s\<close> is what the memory behind them holds.
\<close>

section \<open>Reading\<close>

text \<open>
  The inner loops: the number of bytes dropped, the bytes from \<^verbatim>\<open>pos\<close> on, and what
  \<^verbatim>\<open>message\<close> points to.  Both ends of the loop condition move, so the loop stops half way; then
  \<^verbatim>\<open>message\<close> is still where the last round looked.
\<close>

function XN_scan :: "bytes \<Rightarrow> nat \<Rightarrow> bytes \<Rightarrow> bytes \<Rightarrow> nat \<times> bytes \<times> bytes" where
  "XN_scan s drp p message =
    (if drp < length p then
       (let message = p @ s
        in if XN_size message \<le> length p \<and> XN_isChecksumValid message then (drp, p, message)
           else XN_scan s (drp + 1) (tl p) message)
     else (drp, p, message))"
  by pat_completeness auto
termination by (relation "measure (\<lambda>(s, drp, p, message). length p)") auto

function XN_scanExtra :: "bytes \<Rightarrow> nat \<Rightarrow> bytes \<Rightarrow> bytes \<Rightarrow> nat \<times> bytes \<times> bytes" where
  "XN_scanExtra s drp p message =
    (if drp < length p - 2 then
       (let message = drop 2 p @ s
        in if p ! 0 = 0xFF \<and> (p ! 1 = 0xFE \<or> p ! 1 = 0xFD) \<and> XN_size message \<le> length p \<and>
               XN_isChecksumValid message
           then (drp, drop 2 p, message)
           else XN_scanExtra s (drp + 1) (tl p) message)
     else (drp, p, message))"
  by pat_completeness auto
termination by (relation "measure (\<lambda>(s, drp, p, message). length p)") auto

declare XN_scan.simps [simp del] XN_scanExtra.simps [simp del]

lemma XN_scan_length: "length (fst (snd (XN_scan s n p m))) \<le> length p"
proof (induction s n p m rule: XN_scan.induct)
  case (1 s n p m)
  then show ?case by (subst XN_scan.simps) (auto simp: Let_def)
qed

lemma XN_scanExtra_length: "length (fst (snd (XN_scanExtra s n p m))) \<le> length p"
proof (induction s n p m rule: XN_scanExtra.induct)
  case (1 s n p m)
  then show ?case by (subst XN_scanExtra.simps) (auto simp: Let_def)
qed

definition XN_find :: "bool \<Rightarrow> bytes \<Rightarrow> bytes \<Rightarrow> nat \<times> bytes \<times> bytes" where
  "XN_find extraHeader s p = (if extraHeader then XN_scanExtra s 0 p [] else XN_scan s 0 p [])"

lemma XN_find_length: "length (fst (snd (XN_find e s p))) \<le> length p"
  by (simp add: XN_find_def XN_scan_length XN_scanExtra_length)

text \<open>\<^verbatim>\<open>processRead\<close>: the events, and the bytes kept.\<close>

function XN_processRead :: "bool \<Rightarrow> bytes \<Rightarrow> bytes \<Rightarrow> IoEvent list \<times> bytes" where
  "XN_processRead extraHeader s p =
    (if length p > (if extraHeader then 3 else 1) then
       (let f = XN_find extraHeader s p; drp = fst f; r = fst (snd f); message = snd (snd f);
            dropped = (if drp \<noteq> 0 then [IoDropped drp] else [])
        in if XN_size message \<le> length r then
             (let q = XN_processRead extraHeader s (drop (XN_size message) r)
              in (dropped @ IoReceive (take (XN_size message) message) # fst q, snd q))
           else (dropped, r))
     else ([], p))"
  by pat_completeness auto
termination
proof (relation "measure (\<lambda>(e, s, p). length p)", goal_cases)
  case 1
  then show ?case by simp
next
  case (2 e s p f d r m dr)
  have "length r \<le> length p" using XN_find_length [of e s p] 2 by simp
  moreover have "2 \<le> XN_size m" by (rule XN_size_bounds)
  ultimately show ?case using 2 by auto
qed

declare XN_processRead.simps [simp del]

section \<open>Writing\<close>

abbreviation (input) "XN_bufferSize \<equiv> (1024 :: nat)"

definition XN_write :: "Writer \<Rightarrow> Writer" where
  "XN_write w = w\<lparr>w_issued := Some (length (w_buffer w))\<rparr>"

definition XN_written :: "nat \<Rightarrow> Writer \<Rightarrow> Writer" where
  "XN_written bytesTransferred w =
    (let w = w\<lparr>w_issued := None\<rparr>
     in if bytesTransferred < length (w_buffer w) then
          XN_write (w\<lparr>w_buffer := drop bytesTransferred (w_buffer w)\<rparr>)
        else w\<lparr>w_buffer := []\<rparr>)"

text \<open>The completion handler of \<^verbatim>\<open>tcpiohandler.cpp\<close>.\<close>

definition XN_tcp_written :: "nat \<Rightarrow> Writer \<Rightarrow> Writer" where
  "XN_tcp_written bytesTransferred w =
    (let w = w\<lparr>w_buffer := drop bytesTransferred (w_buffer w), w_issued := None\<rparr>
     in if length (w_buffer w) > 0 then XN_write w else w)"

text \<open>The list may grow beyond the array: see \<open>XN_hw_send_overflow\<close>.\<close>

definition XN_hw_send :: "bool \<Rightarrow> bytes \<Rightarrow> Writer \<Rightarrow> bool \<times> Writer" where
  "XN_hw_send extraHeader message w =
    (if length (w_buffer w) + XN_size message > XN_bufferSize then (False, w)
     else
       (let wasEmpty = (length (w_buffer w) = 0);
            w = (if extraHeader then w\<lparr>w_buffer := w_buffer w @ [0xFF, 0xFE]\<rparr> else w);
            w = w\<lparr>w_buffer := w_buffer w @ take (XN_size message) message\<rparr>
        in (True, if wasEmpty then XN_write w else w)))"

text \<open>
  The start of \<^verbatim>\<open>rosofts88xpressnetliiohandler.cpp\<close>: the S88 settings are sent.
\<close>

definition XN_S88_start :: "u8 \<Rightarrow> u8 \<Rightarrow> Writer \<Rightarrow> Writer" where
  "XN_S88_start s88StartAddress s88ModuleCount w =
    (let w = snd (XN_hw_send False (XN_S88StartAddress s88StartAddress) w)
     in snd (XN_hw_send False (XN_S88ModuleCount s88ModuleCount) w))"

interpretation xn_writer:
  byte_writer "XN_hw_send False" XN_written w_buffer w_issued "\<lambda>m. m" XN_framed XN_bufferSize
  by unfold_locales
    (auto simp: XN_hw_send_def XN_written_def XN_write_def XN_framed_def Let_def split: if_splits)

interpretation xn_tcp_writer:
  byte_writer "XN_hw_send False" XN_tcp_written w_buffer w_issued "\<lambda>m. m" XN_framed XN_bufferSize
  by unfold_locales
    (auto simp: XN_hw_send_def XN_tcp_written_def XN_write_def XN_framed_def Let_def split: if_splits)

lemma XN_S88_start_writes:
  "w_buffer (XN_S88_start a n \<lparr>w_buffer = [], w_issued = None\<rparr>) = XN_S88StartAddress a @ XN_S88ModuleCount n"
proof -
  have "XN_framed (XN_S88StartAddress a)" "XN_framed (XN_S88ModuleCount n)"
    using XN_S88_valid by (simp_all add: XN_valid_def)
  moreover have "length (XN_S88StartAddress a) = 4" "length (XN_S88ModuleCount n) = 4"
    by (simp_all add: XN_S88StartAddress_def XN_S88ModuleCount_def XN_seal_def)
  ultimately show ?thesis by (simp add: XN_S88_start_def XN_hw_send_def XN_write_def XN_framed_def Let_def)
qed

lemma XN_hw_send_overflow:
  assumes "XN_framed m" and "length (w_buffer w) + length m \<in> {XN_bufferSize - 1, XN_bufferSize}"
  shows "fst (XN_hw_send True m w)" and "XN_bufferSize < length (w_buffer (snd (XN_hw_send True m w)))"
  using assms by (auto simp: XN_hw_send_def XN_write_def XN_framed_def Let_def)

section \<open>Whole messages are read\<close>

lemma XN_scan_hit:
  assumes "XN_valid m"
  shows "XN_scan s 0 (m @ bs) x = (0, m @ bs, m @ bs @ s)"
proof -
  have f: "XN_framed m" "m \<noteq> []" using assms by (simp_all add: XN_valid_def XN_framed_def)
  then have "XN_size (m @ bs @ s) = length m" by (simp add: XN_framed_def)
  moreover have "XN_isChecksumValid (m @ bs @ s)"
    using XN_isChecksumValid_append [OF f(1)] assms by (simp add: XN_valid_def)
  ultimately show ?thesis using f by (subst XN_scan.simps) (simp add: Let_def)
qed

lemma XN_scanExtra_hit:
  assumes "XN_valid m" and "h = 0xFE \<or> h = 0xFD"
  shows "XN_scanExtra s 0 (0xFF # h # m @ bs) x = (0, m @ bs, m @ bs @ s)"
proof -
  have f: "XN_framed m" "m \<noteq> []" using assms by (simp_all add: XN_valid_def XN_framed_def)
  then have "XN_size (m @ bs @ s) = length m" by (simp add: XN_framed_def)
  moreover have "XN_isChecksumValid (m @ bs @ s)"
    using XN_isChecksumValid_append [OF f(1)] assms by (simp add: XN_valid_def)
  ultimately show ?thesis using f assms(2) by (subst XN_scanExtra.simps) (simp add: Let_def)
qed

lemma XN_processRead_message:
  assumes "XN_valid m"
  shows "XN_processRead False s (m @ bs) =
      (IoReceive m # fst (XN_processRead False s bs), snd (XN_processRead False s bs))"
    and "h = 0xFE \<or> h = 0xFD \<Longrightarrow> XN_processRead True s (0xFF # h # m @ bs) =
      (IoReceive m # fst (XN_processRead True s bs), snd (XN_processRead True s bs))"
proof -
  have f: "XN_framed m" "m \<noteq> []" using assms by (simp_all add: XN_valid_def XN_framed_def)
  then have sz: "XN_size (m @ bs @ s) = length m" by (simp add: XN_framed_def)
  have len: "2 \<le> length m" using XN_size_bounds(1) [of m] f by (simp add: XN_framed_def)
  show "XN_processRead False s (m @ bs) =
      (IoReceive m # fst (XN_processRead False s bs), snd (XN_processRead False s bs))"
    using len sz by (subst XN_processRead.simps) (simp add: XN_find_def XN_scan_hit [OF assms] Let_def)
  show "XN_processRead True s (0xFF # h # m @ bs) =
      (IoReceive m # fst (XN_processRead True s bs), snd (XN_processRead True s bs))"
    if "h = 0xFE \<or> h = 0xFD"
    using len sz
    by (subst XN_processRead.simps) (simp add: XN_find_def XN_scanExtra_hit [OF assms that] Let_def)
qed

fun XN_enc :: "bytes \<Rightarrow> IoEvent \<Rightarrow> bytes" where
  "XN_enc pre (IoReceive m) = pre @ m"
| "XN_enc pre (IoDropped n) = []"

fun XN_ok :: "IoEvent \<Rightarrow> bool" where
  "XN_ok (IoReceive m) = XN_valid m"
| "XN_ok (IoDropped n) = False"

interpretation xn: message_framing "XN_processRead False" "XN_enc []" XN_ok "\<lambda>_. True"
proof
  show "XN_processRead False s [] = ([], [])" for s by (subst XN_processRead.simps) simp
  show "XN_processRead False s (XN_enc [] m @ bs) =
      (m # fst (XN_processRead False s bs), snd (XN_processRead False s bs))" if "XN_ok m" for s m bs
    using that XN_processRead_message(1) by (cases m) simp_all
qed simp_all

interpretation xn_extra: message_framing "XN_processRead True" "XN_enc [0xFF, 0xFD]" XN_ok "\<lambda>_. True"
proof
  show "XN_processRead True s [] = ([], [])" for s by (subst XN_processRead.simps) simp
  show "XN_processRead True s (XN_enc [0xFF, 0xFD] m @ bs) =
      (m # fst (XN_processRead True s bs), snd (XN_processRead True s bs))" if "XN_ok m" for s m bs
    using that XN_processRead_message(2) [of _ "0xFD"] by (cases m) simp_all
qed simp_all

section \<open>Where the reads go wrong\<close>

text \<open>A message that is not complete is not kept for the next read: its first byte is dropped.\<close>

lemma XN_scan_ge: "n \<le> fst (XN_scan s n p x)"
proof (induction s n p x rule: XN_scan.induct)
  case (1 s n p x)
  then show ?case by (subst XN_scan.simps) (auto simp: Let_def)
qed

lemma XN_processRead_split:
  assumes "XN_valid m" and "strict_prefix p m" and "2 \<le> length p"
  shows "\<exists>n es r. 1 \<le> n \<and> XN_processRead False s p = (IoDropped n # es, r)"
proof -
  obtain r where r: "m = p @ r" "r \<noteq> []" using assms(2) by (auto simp: strict_prefix_def prefix_def)
  have p: "p \<noteq> []" using assms(3) by auto
  have "length m = XN_size m" using assms(1) by (simp add: XN_valid_def XN_framed_def)
  moreover have "length p < length m" using r by simp
  ultimately have "length p < XN_size (p @ s)" using r p by simp
  then have "XN_scan s 0 p [] = XN_scan s 1 (tl p) (p @ s)"
    using p by (subst XN_scan.simps) simp
  then have "1 \<le> fst (XN_find False s p)" using XN_scan_ge [of 1 s "tl p" "p @ s"] by (simp add: XN_find_def)
  then show ?thesis
    using assms(3) by (subst XN_processRead.simps) (auto simp: Let_def)
qed

text \<open>
  Eight bytes with a feedback message whose checksum is wrong: the scan gives up half way and hands
  the message to the kernel all the same.
\<close>

lemma XN_corrupt_received:
  "XN_processRead False [] [0x01, 0x01, 0x01, 0x42, 0x05, 0x4F, 0xAA, 0x01] =
    ([IoDropped 4, IoReceive [0x42, 0x05, 0x4F, 0xAA]], [])"
  "\<not> XN_valid [0x42, 0x05, 0x4F, 0xAA]"
proof -
  note d = XN_size_def XN_dataSize_def XN_isChecksumValid_def XN_calcChecksum_def
  have "XN_scan [] 0 [0x01, 0x01, 0x01, 0x42, 0x05, 0x4F, 0xAA, 0x01] [] =
      (4, [0x05, 0x4F, 0xAA, 0x01], [0x42, 0x05, 0x4F, 0xAA, 0x01])"
    by (simp add: XN_scan.simps d)
  then show "XN_processRead False [] [0x01, 0x01, 0x01, 0x42, 0x05, 0x4F, 0xAA, 0x01] =
      ([IoDropped 4, IoReceive [0x42, 0x05, 0x4F, 0xAA]], [])"
    by (subst XN_processRead.simps) (simp add: XN_find_def Let_def d XN_processRead.simps)
  show "\<not> XN_valid [0x42, 0x05, 0x4F, 0xAA]" by (simp add: XN_valid_def d)
qed

end
