(* ===== verification/XpressNet_Properties.thy ===== *)
theory XpressNet_Properties
  imports XpressNet_Reachable XpressNet_Stream
begin

text \<open>
  The properties of the XpressNet kernel, its messages, its simulated command station and its byte
  stream, each with a concrete instance.
\<close>

section \<open>A concrete kernel\<close>

definition xn_config0 :: XN_Config where
  "xn_config0 = \<lparr>useEmergencyStopLocomotiveCommand = True, useRocoAccessoryAddressing = False,
     useRocoF13F20Command = False, xn_debugLogInput = True, xn_debugLogRXTX = True\<rparr>"

definition xn_kernel0 :: XN_Kernel where
  "xn_kernel0 = XN_setOnNormalOperationResumed True (XN_setInputController True
     (XN_Kernel_construct xn_config0 True TriFalse TriFalse (\<lambda>_. TriFalse) (\<lambda>_ _. True)))"

lemmas xn_kernel0_simps = xn_kernel0_def xn_config0_def XN_setOnNormalOperationResumed_def
  XN_setInputController_def XN_Kernel_construct_def

section \<open>The wire\<close>

lemma XN_EmergencyStopLocomotive_framed: "XN_framed (XN_EmergencyStopLocomotive a u)"
  by (simp add: XN_EmergencyStopLocomotive_def XN_framed_def XN_size_def XN_dataSize_def)

text \<open>
  C22. In every state the kernel can reach, every message it gave to its IO handler is as long as its
  header says, and has the right checksum unless it is the emergency stop of one locomotive; every
  input it reports to the input controller is numbered 1 to 2048 and has a defined value.
\<close>

theorem xn_wire_framed:
  assumes "XN_reachable (k, ts)"
  shows "list_all (\<lambda>(m, ok). XN_framed m \<and> (XN_valid m \<or> (\<exists>a u. m = XN_EmergencyStopLocomotive a u))) (xn_wire k) \<and>
    list_all XN_eventOk (xn_events k)"
proof -
  have "XN_inv k" using XN_reachable_inv [OF assms] by simp
  moreover have "XN_sendable m \<Longrightarrow> XN_framed m \<and> (XN_valid m \<or> (\<exists>a u. m = XN_EmergencyStopLocomotive a u))" for m
    using XN_EmergencyStopLocomotive_framed by (auto simp: XN_sendable_def XN_valid_def)
  ultimately show ?thesis
    unfolding XN_inv_def by (fastforce simp: list_all_iff)
qed

theorem xn_wire_framed_witness:
  "\<exists>k :: XN_Kernel. xn_wire k = [(XN_ResumeOperationsRequest, True)] \<and> XN_framed (fst (hd (xn_wire k))) \<and>
    list_all XN_eventOk (xn_events k)"
proof -
  let ?s0 = "XN_start True xn_kernel0"
  let ?k1 = "XN_runTask (XnStart True) (fst ?s0)"
  let ?k2 = "XN_runTask XnResumeOperations ?k1"
  have s0: "?s0 = (fst ?s0, [XnStart True])" by (simp add: XN_start_def)
  have "XN_reachable ?s0" by (rule reach_start) (simp_all add: xn_kernel0_simps)
  then have "XN_reachable (fst ?s0, [XnStart True])" using s0 by simp
  then have "XN_reachable (?k1, [])" by (rule reach_step) (rule step_run)
  then have "XN_reachable (?k1, [] @ [XnResumeOperations])" by (rule reach_step) (rule step_call, rule call_resumeOperations)
  then have "XN_reachable (?k1, [XnResumeOperations])" by simp
  then have "XN_reachable (?k2, [])" by (rule reach_step) (rule step_run)
  from xn_wire_framed [OF this] have
    "list_all (\<lambda>(m, ok). XN_framed m \<and> (XN_valid m \<or> (\<exists>a u. m = XN_EmergencyStopLocomotive a u))) (xn_wire ?k2) \<and>
    list_all XN_eventOk (xn_events ?k2)" .
  moreover have "xn_wire ?k2 = [(XN_ResumeOperationsRequest, True)]"
    by (simp add: XN_start_def XN_start_posted_def XN_eventLoopCall_def XN_resumeOperations_def XN_send_wire
        xn_kernel0_simps)
  ultimately have "xn_wire ?k2 = [(XN_ResumeOperationsRequest, True)] \<and> XN_framed (fst (hd (xn_wire ?k2))) \<and>
    list_all XN_eventOk (xn_events ?k2)" by (simp del: XN_runTask.simps)
  then show ?thesis by (rule exI)
qed

text \<open>
  The message that stops one locomotive at once is wrong for 255 of the 256 values that its
  checksum byte may happen to hold, because its constructor does not set it; and with the option on,
  it is what the kernel posts for an emergency stop of a decoder.
\<close>

theorem xn_emergency_stop_checksum:
  assumes "useEmergencyStopLocomotiveCommand (xn_config k)" and "xd_emergencyStop d"
  shows "\<exists>c. \<forall>u. XN_decoderChanged d chEmergencyStop n u k = [XnSend (XN_EmergencyStopLocomotive (xd_address d) u)] \<and>
    (XN_valid (XN_EmergencyStopLocomotive (xd_address d) u) \<longleftrightarrow> u = c)"
  using assms by (auto simp: XN_decoderChanged_def XN_EmergencyStopLocomotive_valid)

definition xn_decoder0 :: XN_DecoderView where
  "xn_decoder0 = \<lparr>xd_address = 3, xd_emergencyStop = True, xd_direction = DirForward, xd_speedSteps = 28,
     xd_speedStep = (\<lambda>_. 0), xd_function = (\<lambda>_. False)\<rparr>"

theorem xn_emergency_stop_checksum_witness:
  "XN_valid (XN_EmergencyStopLocomotive 3 0x91) \<and> \<not> XN_valid (XN_EmergencyStopLocomotive 3 0x00)"
proof -
  have v: "XN_valid (XN_EmergencyStopLocomotive 3 0x91)"
    by (simp add: XN_EmergencyStopLocomotive_valid XN_address_def)
  have "useEmergencyStopLocomotiveCommand (xn_config xn_kernel0)" "xd_emergencyStop xn_decoder0"
    by (simp_all add: xn_kernel0_simps xn_decoder0_def)
  from xn_emergency_stop_checksum [OF this, of 0] obtain c where
    "\<And>u. XN_valid (XN_EmergencyStopLocomotive (xd_address xn_decoder0) u) \<longleftrightarrow> u = c" by blast
  then have c: "\<And>u. XN_valid (XN_EmergencyStopLocomotive 3 u) \<longleftrightarrow> u = c" by (simp add: xn_decoder0_def)
  have "c = 0x91" using v unfolding c by simp
  then show ?thesis unfolding c by simp
qed

section \<open>Speed, addresses\<close>

text \<open>
  With 14 and with 128 speed steps, the speed byte of the command is read back, by the rules of
  XpressNet, as the emergency stop, the stop or the step that was asked for, with the direction.
\<close>

theorem xn_speed_roundtrip:
  assumes "unat s14 \<le> 14" and "unat s128 \<le> 126"
  shows "XN_speedOf14 (XN_SpeedAndDirectionInstruction14 a e d s14 fl) = XN_intended e s14 \<and>
    XN_forward (XN_SpeedAndDirectionInstruction14 a e d s14 fl) = (d = DirForward) \<and>
    XN_speedOf128 (XN_SpeedAndDirectionInstruction128 a e d s128) = XN_intended e s128 \<and>
    XN_forward (XN_SpeedAndDirectionInstruction128 a e d s128) = (d = DirForward)"
  using XN_speed14 [OF assms(1)] XN_speed128 [OF assms(2)] XN_speed_direction(1) [OF assms(1)]
    XN_speed_direction(4) [OF assms(2)] by simp

theorem xn_speed_roundtrip_witness:
  "XN_speedOf14 (XN_SpeedAndDirectionInstruction14 3 False DirForward 7 True) = XnStep 7 \<and>
   XN_speedOf128 (XN_SpeedAndDirectionInstruction128 3 False DirForward 126) = XnStep 126"
  using xn_speed_roundtrip [of 7 126 3 False DirForward True] by (simp add: XN_intended_def)

text \<open>
  With 27 and 28 speed steps the byte is two steps behind: steps 1 and 2 are emergency stops, and
  the command for step 1 is, byte by byte, the command for an emergency stop.
\<close>

theorem xn_speed28_behind:
  assumes "unat s \<le> 28"
  shows "XN_speedOf28 (XN_SpeedAndDirectionInstruction28 a e d s) = XN_shifted28 e s \<and>
    XN_speedOf28 (XN_SpeedAndDirectionInstruction27 a e d s) = XN_shifted28 e s \<and>
    XN_SpeedAndDirectionInstruction28 a False d 1 = XN_SpeedAndDirectionInstruction28 a True d s \<and>
    XN_SpeedAndDirectionInstruction27 a False d 1 = XN_SpeedAndDirectionInstruction27 a True d s"
  using XN_speed28_shifted [OF assms disjI1 [OF refl]] XN_speed28_shifted [OF assms disjI2 [OF refl]]
    XN_step1_is_emergency_stop by blast

theorem xn_speed28_behind_witness:
  "XN_speedOf28 (XN_SpeedAndDirectionInstruction28 3 False DirForward 2) = XnEStop \<and>
   XN_speedOf28 (XN_SpeedAndDirectionInstruction28 3 False DirForward 28) = XnStep 26"
  using xn_speed28_behind [of 2 3 False DirForward] xn_speed28_behind [of 28 3 False DirForward]
  by (simp add: XN_shifted28_def)

text \<open>
  An accessory request carries its port, its activation and its address modulo 1024, so the
  addresses 1 to 1024 are read back; with Roco addressing (four higher) the last four of them come
  out as 1 to 4.  The address of a locomotive is read back from 1 to 9999.
\<close>

theorem xn_addresses_roundtrip:
  assumes "1 \<le> unat address" and "unat address \<le> 1024" and "1 \<le> unat a" and "unat a \<le> 9999"
  shows "XN_Accessory_address (XN_AccessoryDecoderOperationRequest address port act) = address \<and>
    XN_Accessory_port (XN_AccessoryDecoderOperationRequest address port act) = port \<and>
    XN_Accessory_activate (XN_AccessoryDecoderOperationRequest address port act) = act \<and>
    unat (XN_Accessory_address (XN_AccessoryDecoderOperationRequest (address + 4) port act)) =
      (if unat address \<le> 1020 then unat address + 4 else unat address - 1020) \<and>
    XN_addressOf (XN_address a) = a"
proof -
  have "unat (XN_Accessory_address (XN_AccessoryDecoderOperationRequest address port act)) = unat address"
    using XN_Accessory_address_unat [OF assms(1)] assms(1,2) by simp
  moreover have u: "unat (address + 4) = unat address + 4" using assms(2) by (simp add: unat_word_ariths)
  moreover have "unat (XN_Accessory_address (XN_AccessoryDecoderOperationRequest (address + 4) port act)) =
      (if unat address \<le> 1020 then unat address + 4 else unat address - 1020)"
    using XN_Accessory_address_unat [of "address + 4"] u assms(1,2) by (auto simp: mod_if)
  ultimately show ?thesis
    using XN_Accessory_bits XN_address_roundtrip [OF assms(3,4)] by (simp add: word_unat_eq_iff)
qed

theorem xn_addresses_roundtrip_witness:
  "XN_Accessory_address (XN_AccessoryDecoderOperationRequest 1022 True True) = 1022 \<and>
   unat (XN_Accessory_address (XN_AccessoryDecoderOperationRequest (1022 + 4) True True)) = 2 \<and>
   XN_addressOf (XN_address 9999) = 9999"
  using xn_addresses_roundtrip [of 1022 9999 True True] by simp

section \<open>Inputs\<close>

text \<open>
  A feedback message sets the four inputs of each of its feedback modules to the bits of the
  module's nibble, in the order of the message, and no other input; it sends nothing.
\<close>

theorem xn_feedback_values:
  assumes "XN_identification m = 0x40" and "xn_inputController k"
  shows "xn_inputValues (XN_receive m k) =
      fold XN_groupValues (filter (\<lambda>p. XN_pairType p = FeedbackModule) (map (\<lambda>i. XN_pair i m) [0..<XN_pairCount m]))
        (xn_inputValues k) \<and>
    xn_wire (XN_receive m k) = xn_wire k"
  using assms XN_receive_feedback_values by (simp add: XN_receive_def Let_def XN_eventLoopCall_def)

theorem xn_feedback_values_witness:
  "xn_inputValues (XN_receive [0x42, 0x05, 0x4A, 0x0D] xn_kernel0) 41 = TriTrue \<and>
   xn_inputValues (XN_receive [0x42, 0x05, 0x4A, 0x0D] xn_kernel0) 40 = TriFalse"
proof -
  let ?m = "[0x42, 0x05, 0x4A, 0x0D] :: bytes"
  have c: "xn_inputController xn_kernel0" by (simp add: xn_kernel0_simps)
  have p: "XN_pairCount ?m = 1" "XN_pair 0 ?m = (0x05, 0x4A)" "XN_pairType (0x05, 0x4A) = FeedbackModule"
    by (simp_all add: XN_pairCount_def XN_dataSize_def XN_pair_def XN_pairType_bits)
  have g: "XN_groupAddress (0x05, 0x4A) = 10" by (simp add: XN_groupAddress_def flag_simps)
  have "xn_inputValues (XN_receive ?m xn_kernel0) = XN_groupValues (0x05, 0x4A) (xn_inputValues xn_kernel0)"
    using xn_feedback_values [OF _ c, of ?m] p by (simp add: XN_identification_def)
  then show ?thesis by (simp add: XN_groupValues_def g)
qed

text \<open>
  Simulating an input change (when it is one) gives the input the value asked for, leaves every
  input of another group of four as it is, and turns the unknown inputs of its group to false.
\<close>

theorem xn_simulated_input:
  assumes "1 \<le> unat address" and "unat address \<le> 2048" and "xn_inputController k"
    and "\<not> (action = SimSetFalse \<and> xn_inputValues k (unat address - 1) = TriFalse)"
    and "\<not> (action = SimSetTrue \<and> xn_inputValues k (unat address - 1) = TriTrue)"
  shows "xn_inputValues (XN_simulateInputChange_posted address action k) =
    (\<lambda>i. if i = unat address - 1 then
           (case action of SimSetFalse \<Rightarrow> TriFalse | SimSetTrue \<Rightarrow> TriTrue
              | SimToggle \<Rightarrow> toTriState (xn_inputValues k i \<noteq> TriTrue))
         else if i div 4 = (unat address - 1) div 4 then toTriState (xn_inputValues k i = TriTrue)
         else xn_inputValues k i)"
  unfolding XN_simulateInputChange_values [OF assms]
  by (rule ext) (auto simp: XN_simulatedValues_def XN_simulatedBit_def split: SimulateInputAction.split)

theorem xn_simulated_input_witness:
  "xn_inputValues (XN_simulateInputChange_posted 42 SimToggle xn_kernel0) 41 = TriTrue"
  using xn_simulated_input [of 42 xn_kernel0 SimToggle] by (simp add: xn_kernel0_simps)

section \<open>The simulated command station\<close>

text \<open>
  C23. The kernel with the simulated command station comes to rest from every state and whatever
  closures are posted: the loop over the queue ends with the queue empty.
\<close>

theorem xn_simulation_ends:
  "\<exists>s'. XN_sim_run s = Some s' \<and> snd s' = []"
  by (rule XN_sim_run_Some)

text \<open>
  With the simulated command station, resuming operations ends with the track powered and no
  emergency stop, stopping them with the track unpowered, stopping all locomotives with the
  emergency stop; the callback runs exactly once if that is a change, although the station answers
  three times.
\<close>

theorem xn_power_cycle:
  "(\<exists>k'. XN_sim_run (k, [XnResumeOperations]) = Some (k', []) \<and>
      xn_trackPowerOn k' = TriTrue \<and> xn_emergencyStop k' = TriFalse \<and>
      (xn_onNormalOperationResumed k \<longrightarrow>
        count_list (xn_events k') XnNormalOperationResumed = count_list (xn_events k) XnNormalOperationResumed +
          (if xn_trackPowerOn k = TriTrue \<and> xn_emergencyStop k = TriFalse then 0 else 1))) \<and>
   (\<exists>k'. XN_sim_run (k, [XnStopOperations]) = Some (k', []) \<and>
      xn_trackPowerOn k' = TriFalse \<and> xn_emergencyStop k' = xn_emergencyStop k \<and>
      (xn_onTrackPowerOff k \<longrightarrow>
        count_list (xn_events k') XnTrackPowerOff = count_list (xn_events k) XnTrackPowerOff +
          (if xn_trackPowerOn k = TriFalse then 0 else 1))) \<and>
   (\<exists>k'. XN_sim_run (k, [XnStopAllLocomotives]) = Some (k', []) \<and>
      xn_emergencyStop k' = TriTrue \<and> xn_trackPowerOn k' = xn_trackPowerOn k \<and>
      (xn_onEmergencyStop k \<longrightarrow>
        count_list (xn_events k') XnEmergencyStop = count_list (xn_events k) XnEmergencyStop +
          (if xn_emergencyStop k = TriTrue then 0 else 1)))"
  by (intro conjI XN_sim_resume XN_sim_stop XN_sim_stopAll)

theorem xn_power_cycle_witness:
  "\<exists>k'. XN_sim_run (xn_kernel0, [XnResumeOperations]) = Some (k', []) \<and> xn_trackPowerOn k' = TriTrue \<and>
    count_list (xn_events k') XnNormalOperationResumed = 1"
proof -
  have k: "xn_onNormalOperationResumed xn_kernel0" "xn_trackPowerOn xn_kernel0 = TriFalse"
    "count_list (xn_events xn_kernel0) XnNormalOperationResumed = 0"
    by (simp_all add: xn_kernel0_simps)
  show ?thesis using conjunct1 [OF xn_power_cycle [of xn_kernel0]] k by auto
qed

section \<open>The byte stream\<close>

text \<open>
  Whole messages in one read reach the kernel, all of them, in order and nothing else, whatever
  the memory behind them holds, with and without the two extra bytes before each message.
\<close>

theorem xn_stream_read:
  assumes "list_all XN_valid ms"
  shows "XN_processRead False s (concat ms) = (map IoReceive ms, []) \<and>
    XN_processRead True s (concat (map (\<lambda>m. [0xFF, 0xFD] @ m) ms)) = (map IoReceive ms, [])"
proof -
  have ok: "list_all XN_ok (map IoReceive ms)" using assms by (simp add: list_all_iff)
  have "map (XN_enc [] \<circ> IoReceive) ms = ms" by (induction ms) simp_all
  moreover have "map (XN_enc [0xFF, 0xFD] \<circ> IoReceive) ms = map (\<lambda>m. [0xFF, 0xFD] @ m) ms" by simp
  ultimately show ?thesis
    using xn.read_all [OF ok, of s] xn_extra.read_all [OF ok, of s] by (simp only: map_map)
qed

theorem xn_stream_read_witness:
  "XN_processRead False [] (XN_TrackPowerOff @ XN_NormalOperationResumed) =
    ([IoReceive XN_TrackPowerOff, IoReceive XN_NormalOperationResumed], [])"
  using xn_stream_read [of "[XN_TrackPowerOff, XN_NormalOperationResumed]" "[]"] XN_fixed_valid by simp

text \<open>
  The reads lose and invent messages: the first bytes of a message that a read did not get whole
  are dropped at once, so the message never arrives; and a scan that gives up half way hands the
  kernel a feedback message whose checksum is wrong.
\<close>

theorem xn_stream_faults:
  assumes "XN_valid m" and "strict_prefix p m" and "2 \<le> length p"
  shows "(\<exists>n es r. 1 \<le> n \<and> XN_processRead False s p = (IoDropped n # es, r)) \<and>
    XN_processRead False [] [0x01, 0x01, 0x01, 0x42, 0x05, 0x4F, 0xAA, 0x01] =
      ([IoDropped 4, IoReceive [0x42, 0x05, 0x4F, 0xAA]], []) \<and>
    \<not> XN_valid [0x42, 0x05, 0x4F, 0xAA]"
  using XN_processRead_split [OF assms] XN_corrupt_received by blast

theorem xn_stream_faults_witness:
  "\<exists>n es r. 1 \<le> n \<and> XN_processRead False [] [0x61, 0x00] = (IoDropped n # es, r)"
  using xn_stream_faults [of XN_TrackPowerOff "[0x61, 0x00]" "[]"] XN_fixed_valid
  by (simp add: XN_TrackPowerOff_def)

text \<open>
  The write buffer of 1024 bytes: without the extra bytes the bytes written and those waiting are
  the accepted messages in order and never more than the buffer holds; with them, the last message
  that is accepted is written beyond the end of the buffer.
\<close>

theorem xn_write_buffer:
  assumes "write_run (XN_hw_send False) XN_written w_buffer w_issued es \<lparr>w_buffer = [], w_issued = None\<rparr> = (out, ms, w)"
    and "\<And>m. WrSend m \<in> set es \<Longrightarrow> XN_framed m"
    and "XN_framed m" and "length (w_buffer v) + length m = XN_bufferSize"
  shows "out @ w_buffer w = concat ms \<and> length (w_buffer w) \<le> XN_bufferSize \<and>
    fst (XN_hw_send True m v) \<and> XN_bufferSize < length (w_buffer (snd (XN_hw_send True m v)))"
proof -
  have l: "xn_writer.live \<lparr>w_buffer = [], w_issued = None\<rparr>" by (simp add: xn_writer.live_def)
  have "out @ w_buffer w = concat ms"
    using xn_writer.write_run_stream [OF l assms(2,1)] by simp
  moreover have "xn_writer.live w"
    using xn_writer.write_run_live [OF l, of es] assms(1,2) by simp
  ultimately show ?thesis
    using XN_hw_send_overflow [OF assms(3), of v] assms(4) by (simp add: xn_writer.live_def)
qed

theorem xn_write_buffer_witness:
  "XN_bufferSize < length (w_buffer (snd (XN_hw_send True XN_TrackPowerOff
    \<lparr>w_buffer = replicate 1021 0, w_issued = Some 1021\<rparr>)))"
proof -
  have f: "XN_framed XN_TrackPowerOff" using XN_fixed_valid(2) by (simp add: XN_valid_def)
  let ?v = "\<lparr>w_buffer = replicate 1021 0, w_issued = Some 1021\<rparr>"
  have "length (w_buffer ?v) + length XN_TrackPowerOff = XN_bufferSize" by (simp add: XN_TrackPowerOff_def)
  from xn_write_buffer [OF write_run.simps(1) _ f this] show ?thesis by simp
qed

end
