(* ===== verification/Binary32.thy ===== *)
theory Binary32
  imports Complex_Main
begin

text \<open>
  The single precision arithmetic that the code does on throttles and speed steps: a quotient or a
  product of numbers from 0 to 2^24, rounded to 24 binary digits, halves to even.  A \<^verbatim>\<open>float\<close> is the
  rational number it stands for.  Numbers below \<^verbatim>\<open>FLT_MIN\<close> do not occur.
\<close>

text \<open>The number of doublings that bring a positive number below 2^23 to 2^23 or more.\<close>

function scale32 :: "rat \<Rightarrow> nat" where
  "scale32 q = (if 0 < q \<and> q < 2 ^ 23 then Suc (scale32 (2 * q)) else 0)"
  by pat_completeness auto

lemma half_ceiling: "1 < (x :: rat) \<Longrightarrow> \<lceil>x / 2\<rceil> < \<lceil>x\<rceil>"
proof -
  assume x: "1 < x"
  then have "1 < \<lceil>x\<rceil>" by (simp add: less_ceiling_iff)
  then have "(2 :: rat) \<le> of_int \<lceil>x\<rceil>" by linarith
  moreover have "x \<le> of_int \<lceil>x\<rceil>" by (rule le_of_int_ceiling)
  ultimately have "x / 2 \<le> of_int \<lceil>x\<rceil> - 1" by linarith
  then have "x / 2 \<le> of_int (\<lceil>x\<rceil> - 1)" by (simp only: of_int_diff of_int_1)
  then show ?thesis by (simp only: ceiling_le_iff [symmetric] zle_diff1_eq)
qed

lemma halves_fewer:
  fixes q :: rat
  assumes "0 < q" and "q < c"
  shows "nat \<lceil>c / (2 * q)\<rceil> < nat \<lceil>c / q\<rceil>"
proof -
  have "1 < c / q" using assms by (simp add: less_divide_eq)
  then have "\<lceil>(c / q) / 2\<rceil> < \<lceil>c / q\<rceil>" "0 < \<lceil>c / q\<rceil>"
    by (rule half_ceiling, simp add: less_ceiling_iff)
  then show ?thesis by (simp add: mult.commute)
qed

termination scale32
  by (relation "measure (\<lambda>q. nat \<lceil>2 ^ 23 / q\<rceil>)") (use halves_fewer [of _ "2 ^ 23"] in auto)

declare scale32.simps [simp del]

definition roundHalfEven :: "rat \<Rightarrow> int" where
  "roundHalfEven x =
    (let f = \<lfloor>x\<rfloor>; d = x - of_int f
     in if d < 1 / 2 then f else if 1 / 2 < d then f + 1 else if even f then f else f + 1)"

definition fl32 :: "rat \<Rightarrow> rat" where
  "fl32 q = (let k = scale32 q in of_int (roundHalfEven (q * 2 ^ k)) / 2 ^ k)"

definition lround :: "rat \<Rightarrow> int" where
  "lround x = (if 0 \<le> x then \<lfloor>x + 1 / 2\<rfloor> else - \<lfloor>1 / 2 - x\<rfloor>)"

lemma roundHalfEven_near: "\<bar>of_int (roundHalfEven x) - x\<bar> \<le> 1 / 2"
proof -
  have "of_int \<lfloor>x\<rfloor> \<le> x" "x < of_int \<lfloor>x\<rfloor> + 1" by linarith+
  then show ?thesis by (auto simp: roundHalfEven_def Let_def abs_le_iff)
qed

lemma roundHalfEven_nonneg: "0 \<le> x \<Longrightarrow> 0 \<le> roundHalfEven x"
  by (auto simp: roundHalfEven_def Let_def)

lemma scale32_large: "0 < q \<Longrightarrow> 2 ^ 23 \<le> q * 2 ^ scale32 q"
proof (induction q rule: scale32.induct)
  case (1 q)
  then show ?case by (cases "q < 2 ^ 23") (simp_all add: scale32.simps [of q] mult.assoc [symmetric] mult.commute)
qed

lemma fl32_0 [simp]: "fl32 0 = 0"
  by (simp add: fl32_def scale32.simps roundHalfEven_def)

text \<open>The rounded number differs by at most one part in 2^24.\<close>

lemma fl32_near:
  assumes "0 \<le> q"
  shows "\<bar>fl32 q - q\<bar> \<le> q / 2 ^ 24"
proof (cases "q = 0")
  case False
  then have q: "0 < q" using assms by simp
  define r where "r = (2 :: rat) ^ scale32 q"
  define n where "n = (of_int (roundHalfEven (q * r)) :: rat)"
  have r: "0 < r" by (simp add: r_def)
  have "\<bar>n - q * r\<bar> \<le> 1 / 2" unfolding n_def by (rule roundHalfEven_near)
  moreover have "2 ^ 23 \<le> q * r" unfolding r_def by (rule scale32_large [OF q])
  ultimately have "\<bar>n - q * r\<bar> \<le> q * r / 2 ^ 24" by simp
  moreover have "n - q * r = (n / r - q) * r" using r by (simp add: left_diff_distrib)
  ultimately have "\<bar>n / r - q\<bar> * r \<le> (q / 2 ^ 24) * r" using r by (simp add: abs_mult)
  then have "\<bar>n / r - q\<bar> \<le> q / 2 ^ 24" using r by (simp only: mult_le_cancel_right_pos)
  then show ?thesis by (simp add: fl32_def Let_def n_def r_def)
qed simp

lemma fl32_nonneg: "0 \<le> q \<Longrightarrow> 0 \<le> fl32 q"
  by (simp add: fl32_def Let_def roundHalfEven_nonneg)

lemma lround_near:
  assumes "\<bar>x - of_nat n\<bar> < 1 / 2" and "0 \<le> x"
  shows "lround x = int n"
proof -
  have "x - of_nat n < 1 / 2" "of_nat n - x < 1 / 2"
    using assms(1) by (simp_all only: abs_less_iff minus_diff_eq)
  then have "of_nat n \<le> x + 1 / 2" "x + 1 / 2 < of_nat n + 1" by linarith+
  then have "\<lfloor>x + 1 / 2\<rfloor> = int n" by (simp add: floor_eq_iff)
  then show ?thesis using assms(2) by (simp add: lround_def)
qed

end
