(* ===== verification/Decoder.thy ===== *)
theory Decoder
  imports Enums Binary32
begin

text \<open>
  Decoders and the throttles that drive them: \<^verbatim>\<open>hardware/decoder/decoder.hpp\<close>, \<^verbatim>\<open>decoder.cpp\<close>,
  \<^verbatim>\<open>decoderfunction.cpp\<close>, \<^verbatim>\<open>decoderfunctions.cpp\<close>, \<^verbatim>\<open>decodercontroller.cpp\<close>, and
  \<^verbatim>\<open>hardware/throttle/throttle.cpp\<close>, \<^verbatim>\<open>throttlefunction.cpp\<close>.  Setting a property to its own value
  does nothing, to another one it runs the property's callback (\<^verbatim>\<open>core/property.hpp\<close>); a
  decoder's callback tells its interface what changed, which is the second result of a setter.
  Objects that point at each other are numbers into the maps of \<open>Throttles\<close>.
\<close>

section \<open>Throttle and speed steps\<close>

definition throttleMin :: rat where "throttleMin = 0"
definition throttleMax :: rat where "throttleMax = 1"

definition clampRat :: "rat \<Rightarrow> rat \<Rightarrow> rat \<Rightarrow> rat" where
  "clampRat v lo hi = (if v < lo then lo else if hi < v then hi else v)"

definition throttleToSpeedStep :: "rat \<Rightarrow> nat \<Rightarrow> int" where
  "throttleToSpeedStep throttle speedStepMax =
    lround (fl32 (clampRat throttle throttleMin throttleMax * of_nat speedStepMax))"

definition speedStepToThrottle :: "nat \<Rightarrow> nat \<Rightarrow> rat" where
  "speedStepToThrottle speedStep speedStepMax =
    (if speedStepMax \<noteq> 0 then fl32 (of_nat (min speedStep speedStepMax) / of_nat speedStepMax) else 0)"

lemma clampRat_simps [simp]: "0 \<le> v \<Longrightarrow> v \<le> 1 \<Longrightarrow> clampRat v 0 1 = v"
  by (simp add: clampRat_def)

lemma clampRat_near:
  assumes "0 \<le> q" "q \<le> 1" "\<bar>v - q\<bar> \<le> e" "0 \<le> v"
  shows "\<bar>clampRat v 0 1 - q\<bar> \<le> e" "0 \<le> clampRat v 0 1" "clampRat v 0 1 \<le> 1"
  using assms by (auto simp: clampRat_def)

lemma roundtrip_error:
  assumes "0 < n" "s \<le> n" "n < 2 ^ 16"
  shows "throttleToSpeedStep (speedStepToThrottle s n) n = int s"
proof -
  define q :: rat where "q = of_nat s / of_nat n"
  define c where "c = clampRat (fl32 q) 0 1"
  have n: "0 < (of_nat n :: rat)" "(of_nat n :: rat) < 2 ^ 16"
    using assms by simp_all
  have q: "0 \<le> q" "q \<le> 1" "q * of_nat n = of_nat s"
    using assms n by (simp_all add: q_def divide_le_eq)
  have f: "\<bar>fl32 q - q\<bar> \<le> 1 / 2 ^ 24" using fl32_near [OF q(1)] q(2) by simp
  note c = clampRat_near [OF q(1,2) f fl32_nonneg [OF q(1)], folded c_def]
  have "\<bar>(c - q) * of_nat n\<bar> \<le> of_nat n / 2 ^ 24"
    using mult_right_mono [OF c(1), of "of_nat n"] n by (simp add: abs_mult)
  then have d1: "\<bar>c * of_nat n - of_nat s\<bar> \<le> of_nat n / 2 ^ 24"
    by (simp only: left_diff_distrib q(3))
  have p: "0 \<le> c * of_nat n" "c * of_nat n \<le> of_nat n"
    using c(2,3) n mult_right_mono [OF c(3), of "of_nat n"] by simp_all
  have d2: "\<bar>fl32 (c * of_nat n) - c * of_nat n\<bar> \<le> of_nat n / 2 ^ 24"
    using fl32_near [OF p(1)] p(2) by simp
  have "\<bar>fl32 (c * of_nat n) - of_nat s\<bar> \<le>
      \<bar>fl32 (c * of_nat n) - c * of_nat n\<bar> + \<bar>c * of_nat n - of_nat s\<bar>" by linarith
  also have "\<dots> \<le> of_nat n / 2 ^ 24 + of_nat n / 2 ^ 24" using d2 d1 by (rule add_mono)
  also have "\<dots> < 1 / 2" using n by simp
  finally have "lround (fl32 (c * of_nat n)) = int s"
    by (rule lround_near) (rule fl32_nonneg [OF p(1)])
  then show ?thesis
    using assms by (simp add: throttleToSpeedStep_def speedStepToThrottle_def throttleMin_def throttleMax_def
        c_def q_def)
qed

section \<open>Decoders\<close>

datatype DecoderProtocol = DPNone | DCCShort | Motorola | MFX | Selectrix | DCCLong

datatype DecoderFunctionType = FtAlwaysOff | FtAlwaysOn | FtOnOff | FtHold | FtMomentary

datatype DecoderFunctionFunction = FfGeneric | FfLight | FfSound | FfMute | FfSmoke

record DecoderFunction =
  df_number :: u8
  df_type :: DecoderFunctionType
  df_function :: DecoderFunctionFunction
  df_value :: bool

record Decoder =
  dec_protocol :: DecoderProtocol
  dec_address :: u16
  dec_emergencyStop :: bool
  dec_direction :: Direction
  dec_speedSteps :: u8
  dec_throttle :: rat
  dec_functions :: "DecoderFunction list"
  dec_worldMute :: bool
  dec_worldNoSmoke :: bool
  dec_driver :: "nat option"

text \<open>What changed, and the function's number.\<close>

type_synonym DecoderChange = "u8 \<times> nat"

definition Decoder_setEmergencyStop :: "bool \<Rightarrow> Decoder \<Rightarrow> Decoder \<times> DecoderChange list" where
  "Decoder_setEmergencyStop v d =
    (if dec_emergencyStop d = v then (d, [])
     else (d\<lparr>dec_emergencyStop := v\<rparr>, [(chEmergencyStop, 0)]))"

text \<open>\<open>None\<close>: the setter throws.\<close>

definition Decoder_setDirection :: "Direction \<Rightarrow> Decoder \<Rightarrow> (Decoder \<times> DecoderChange list) option" where
  "Decoder_setDirection v d =
    (if dec_direction d = v then Some (d, [])
     else if v = DirUnknown then None
     else Some (d\<lparr>dec_direction := v\<rparr>, [(chDirection, 0)]))"

definition Decoder_setSpeedSteps :: "u8 \<Rightarrow> Decoder \<Rightarrow> Decoder \<times> DecoderChange list" where
  "Decoder_setSpeedSteps v d =
    (if dec_speedSteps d = v then (d, []) else (d\<lparr>dec_speedSteps := v\<rparr>, [(chSpeedSteps, 0)]))"

text \<open>A value out of bounds by less than 100 times \<^verbatim>\<open>FLT_EPSILON\<close> is moved to the bound.\<close>

definition limitThrottle :: "rat \<Rightarrow> rat option" where
  "limitThrottle v =
    (if v < throttleMin then (if v > throttleMin - 100 / 2 ^ 23 then Some throttleMin else None)
     else if v > throttleMax then (if v < throttleMax + 100 / 2 ^ 23 then Some throttleMax else None)
     else Some v)"

definition Decoder_setThrottle :: "rat \<Rightarrow> Decoder \<Rightarrow> (Decoder \<times> DecoderChange list) option" where
  "Decoder_setThrottle v d =
    (if dec_throttle d = v then Some (d, [])
     else case limitThrottle v of
         None \<Rightarrow> None
       | Some w \<Rightarrow> Some (d\<lparr>dec_throttle := w\<rparr>, [(chThrottle, 0)]))"

definition Decoder_toggleDirection :: "Decoder \<Rightarrow> (Decoder \<times> DecoderChange list) option" where
  "Decoder_toggleDirection d =
    Decoder_setDirection (if dec_direction d = DirForward then DirReverse else DirForward) d"

subsection \<open>Functions\<close>

definition Decoder_hasFunction :: "u8 \<Rightarrow> Decoder \<Rightarrow> bool" where
  "Decoder_hasFunction number d \<longleftrightarrow> list_ex (\<lambda>f. df_number f = number) (dec_functions d)"

definition Decoder_getFunction :: "u8 \<Rightarrow> Decoder \<Rightarrow> DecoderFunction option" where
  "Decoder_getFunction number d = find (\<lambda>f. df_number f = number) (dec_functions d)"

definition Decoder_getFunctionFunction :: "DecoderFunctionFunction \<Rightarrow> Decoder \<Rightarrow> DecoderFunction option" where
  "Decoder_getFunctionFunction ff d = find (\<lambda>f. df_function f = ff) (dec_functions d)"

definition Decoder_functionValue :: "DecoderFunction \<Rightarrow> Decoder \<Rightarrow> bool" where
  "Decoder_functionValue f d =
    (if dec_worldMute d \<and> df_function f = FfMute then True
     else if dec_worldMute d \<and> df_function f = FfSound \<and> Decoder_getFunctionFunction FfMute d = None then False
     else if dec_worldNoSmoke d \<and> df_function f = FfSmoke then False
     else df_value f)"

definition Decoder_getFunctionValue :: "u8 \<Rightarrow> Decoder \<Rightarrow> bool" where
  "Decoder_getFunctionValue number d =
    (case Decoder_getFunction number d of None \<Rightarrow> False | Some f \<Rightarrow> Decoder_functionValue f d)"

text \<open>The first function with the number.\<close>

fun updateFunction :: "u8 \<Rightarrow> (DecoderFunction \<Rightarrow> DecoderFunction) \<Rightarrow> DecoderFunction list \<Rightarrow> DecoderFunction list" where
  "updateFunction number g [] = []"
| "updateFunction number g (f # fs) =
    (if df_number f = number then g f # fs else f # updateFunction number g fs)"

definition Decoder_setFunctionValue :: "u8 \<Rightarrow> bool \<Rightarrow> Decoder \<Rightarrow> Decoder" where
  "Decoder_setFunctionValue number v d =
    (case Decoder_getFunction number d of
       None \<Rightarrow> d
     | Some f \<Rightarrow>
         if Decoder_functionValue f d \<noteq> v then
           d\<lparr>dec_functions := updateFunction number (df_value_update (\<lambda>_. v)) (dec_functions d)\<rparr>
         else d)"

text \<open>Assigning the property \<^verbatim>\<open>value\<close> of a function.\<close>

definition DecoderFunction_setValue :: "u8 \<Rightarrow> bool \<Rightarrow> Decoder \<Rightarrow> Decoder \<times> DecoderChange list" where
  "DecoderFunction_setValue number v d =
    (case Decoder_getFunction number d of
       None \<Rightarrow> (d, [])
     | Some f \<Rightarrow>
         if df_value f = v then (d, [])
         else (d\<lparr>dec_functions := updateFunction number (df_value_update (\<lambda>_. v)) (dec_functions d)\<rparr>,
               [(chFunctionValue, unat number)]))"

definition DecoderFunction_typeChanged :: "u8 \<Rightarrow> Decoder \<Rightarrow> Decoder \<times> DecoderChange list" where
  "DecoderFunction_typeChanged number d =
    (case Decoder_getFunction number d of
       None \<Rightarrow> (d, [])
     | Some f \<Rightarrow>
         (case df_type f of
            FtAlwaysOff \<Rightarrow> DecoderFunction_setValue number False d
          | FtAlwaysOn \<Rightarrow> DecoderFunction_setValue number True d
          | _ \<Rightarrow> (d, [])))"

text \<open>The new function gets the largest number plus one, in eight bits.\<close>

definition DecoderFunctions_create :: "Decoder \<Rightarrow> Decoder" where
  "DecoderFunctions_create d =
    (let number = (if dec_functions d = [] then 0
                   else fold (\<lambda>f n. max n (df_number f)) (dec_functions d) 0 + 1)
     in d\<lparr>dec_functions := dec_functions d @
          [\<lparr>df_number = number, df_type = FtOnOff,
            df_function = (if number = 0 then FfLight else FfGeneric), df_value = False\<rparr>]\<rparr>)"

subsection \<open>Events of the world\<close>

datatype WorldEvent = EvMute | EvUnmute | EvNoSmoke | EvSmoke | EvOther

definition Decoder_worldEvent :: "bool \<Rightarrow> bool \<Rightarrow> WorldEvent \<Rightarrow> Decoder \<Rightarrow> Decoder \<times> DecoderChange list" where
  "Decoder_worldEvent mute noSmoke event d =
    (let d = d\<lparr>dec_worldMute := mute, dec_worldNoSmoke := noSmoke\<rparr>;
         tell = map (\<lambda>f. (chFunctionValue, unat (df_number f)))
     in if event = EvMute \<or> event = EvUnmute then
          (let mutes = filter (\<lambda>f. df_function f = FfMute) (dec_functions d)
           in if mutes \<noteq> [] then (d, tell (filter (\<lambda>f. \<not> df_value f) mutes))
              else (d, tell (filter (\<lambda>f. df_function f = FfSound \<and> df_value f) (dec_functions d))))
        else if event = EvNoSmoke \<or> event = EvSmoke then
          (d, tell (filter (\<lambda>f. df_function f = FfSmoke \<and> df_value f) (dec_functions d)))
        else (d, []))"

section \<open>The decoders of an interface\<close>

text \<open>Decoders are numbers; \<open>D\<close> maps them to what they are.\<close>

definition findDecoder :: "(nat \<Rightarrow> Decoder) \<Rightarrow> DecoderProtocol \<Rightarrow> u16 \<Rightarrow> nat list \<Rightarrow> nat option" where
  "findDecoder D protocol address ds =
    (if protocol = MFX then None
     else find (\<lambda>i. dec_protocol (D i) = protocol \<and> dec_address (D i) = address) ds)"

definition addDecoder :: "nat \<Rightarrow> nat list \<Rightarrow> bool \<times> nat list" where
  "addDecoder i ds = (if i \<in> set ds then (False, ds) else (True, ds @ [i]))"

definition removeDecoder :: "nat \<Rightarrow> nat list \<Rightarrow> bool \<times> nat list" where
  "removeDecoder i ds = (if i \<in> set ds then (True, remove1 i ds) else (False, ds))"

definition decoderAddressMinMax :: "DecoderProtocol \<Rightarrow> (u16 \<times> u16) option" where
  "decoderAddressMinMax protocol =
    (case protocol of
       DCCShort \<Rightarrow> Some (1, 127)
     | DCCLong \<Rightarrow> Some (1, 10239)
     | Motorola \<Rightarrow> Some (1, 255)
     | Selectrix \<Rightarrow> Some (1, 112)
     | MFX \<Rightarrow> None
     | DPNone \<Rightarrow> None)"

definition decoderSpeedSteps :: "DecoderProtocol \<Rightarrow> u8 list" where
  "decoderSpeedSteps protocol =
    (case protocol of
       DCCShort \<Rightarrow> [14, 28, 128]
     | DCCLong \<Rightarrow> [14, 28, 128]
     | Motorola \<Rightarrow> [14, 27, 28]
     | Selectrix \<Rightarrow> [32]
     | MFX \<Rightarrow> [126]
     | DPNone \<Rightarrow> [])"

text \<open>The decoders whose speed is sent again.\<close>

definition restoreDecoderSpeed :: "(nat \<Rightarrow> Decoder) \<Rightarrow> nat list \<Rightarrow> (nat \<times> DecoderChange) list" where
  "restoreDecoderSpeed D ds =
    map (\<lambda>i. (i, (chThrottle, 0)))
      (filter (\<lambda>i. \<not> dec_emergencyStop (D i) \<and> \<not> \<bar>dec_throttle (D i)\<bar> \<le> 1 / 2 ^ 23) ds)"

end
