(* ===== verification/Throttles.thy ===== *)
theory Throttles
  imports Decoder
begin

text \<open>
  Throttles acquire and release decoders: \<^verbatim>\<open>hardware/throttle/throttle.cpp\<close>,
  \<^verbatim>\<open>throttlefunction.cpp\<close>, \<^verbatim>\<open>hardwarethrottle.cpp\<close> and the same operations of
  \<^verbatim>\<open>decoder.cpp\<close>.  A throttle points at its decoder and the decoder at its driver; the invariant
  \<open>linked\<close> says that they agree.
\<close>

section \<open>State\<close>

record Throttle =
  th_decoder :: "nat option"
  th_emergencyStop :: bool
  th_direction :: Direction
  th_throttle :: rat
  th_functions :: "u8 list"

text \<open>\<open>told\<close>: the changes the decoders told their interfaces; \<open>releases\<close>: the signal \<^verbatim>\<open>released\<close>.\<close>

record Throttles =
  decoders :: "nat \<Rightarrow> Decoder"
  throttles :: "nat \<Rightarrow> Throttle"
  told :: "(nat \<times> DecoderChange) list"
  releases :: "nat list"

definition Throttle_construct :: Throttle where
  "Throttle_construct = \<lparr>th_decoder = None, th_emergencyStop = False, th_direction = DirForward,
     th_throttle = throttleMin, th_functions = []\<rparr>"

definition acquired :: "nat \<Rightarrow> Throttles \<Rightarrow> bool" where
  "acquired t w \<longleftrightarrow> th_decoder (throttles w t) \<noteq> None"

definition changeDecoder :: "nat \<Rightarrow> Decoder \<times> DecoderChange list \<Rightarrow> Throttles \<Rightarrow> Throttles" where
  "changeDecoder d r w =
    w\<lparr>decoders := (decoders w)(d := fst r), told := told w @ map (Pair d) (snd r)\<rparr>"

definition changeThrottle :: "nat \<Rightarrow> (Throttle \<Rightarrow> Throttle) \<Rightarrow> Throttles \<Rightarrow> Throttles" where
  "changeThrottle t g w = w\<lparr>throttles := (throttles w)(t := g (throttles w t))\<rparr>"

section \<open>Properties of a throttle\<close>

text \<open>\<open>None\<close>: the setter throws.\<close>

definition Throttle_setEmergencyStop :: "nat \<Rightarrow> bool \<Rightarrow> Throttles \<Rightarrow> Throttles option" where
  "Throttle_setEmergencyStop t v w =
    (if th_emergencyStop (throttles w t) = v then Some w
     else case th_decoder (throttles w t) of
         None \<Rightarrow> None
       | Some d \<Rightarrow>
           let w = changeThrottle t (th_emergencyStop_update (\<lambda>_. v)) w
           in Some (changeDecoder d (Decoder_setEmergencyStop v (decoders w d)) w))"

definition Throttle_setDirection :: "nat \<Rightarrow> Direction \<Rightarrow> Throttles \<Rightarrow> Throttles option" where
  "Throttle_setDirection t v w =
    (if th_direction (throttles w t) = v then Some w
     else case th_decoder (throttles w t) of
         None \<Rightarrow> None
       | Some d \<Rightarrow>
           if v = DirUnknown then None
           else let w = changeThrottle t (th_direction_update (\<lambda>_. v)) w
                in map_option (\<lambda>r. changeDecoder d r w) (Decoder_setDirection v (decoders w d)))"

definition Throttle_setThrottle :: "nat \<Rightarrow> rat \<Rightarrow> Throttles \<Rightarrow> Throttles option" where
  "Throttle_setThrottle t v w =
    (if th_throttle (throttles w t) = v then Some w
     else case limitThrottle v of
         None \<Rightarrow> None
       | Some v \<Rightarrow>
           let w = changeThrottle t (th_throttle_update (\<lambda>_. v)) w
           in case th_decoder (throttles w t) of
                None \<Rightarrow> Some w
              | Some d \<Rightarrow> map_option (\<lambda>r. changeDecoder d r w) (Decoder_setThrottle v (decoders w d)))"

section \<open>Acquiring and releasing\<close>

definition Decoder_release :: "nat \<Rightarrow> nat \<Rightarrow> Throttles \<Rightarrow> Throttles" where
  "Decoder_release d t w =
    (if dec_driver (decoders w d) = Some t then
       w\<lparr>decoders := (decoders w)(d := (decoders w d)\<lparr>dec_driver := None\<rparr>)\<rparr>
     else w)"

text \<open>
  \<^verbatim>\<open>release(stop)\<close>.  The values it sets are allowed and the throttle has a decoder, so that the
  setters do not throw.
\<close>

definition Throttle_release :: "nat \<Rightarrow> bool \<Rightarrow> Throttles \<Rightarrow> Throttles" where
  "Throttle_release t stop w =
    (case th_decoder (throttles w t) of
       None \<Rightarrow> w
     | Some d \<Rightarrow>
         let w = (if stop then the (Throttle_setEmergencyStop t True w) else w);
             w = (if stop then the (Throttle_setThrottle t throttleMin w) else w);
             w = Decoder_release d t w;
             w = changeThrottle t (th_decoder_update (\<lambda>_. None)) w
         in w\<lparr>releases := releases w @ [t]\<rparr>)"

text \<open>\<^verbatim>\<open>Decoder::acquire\<close>; the assertion after the other throttle's release is \<open>acquire_assert\<close>.\<close>

definition Decoder_acquire :: "nat \<Rightarrow> nat \<Rightarrow> bool \<Rightarrow> Throttles \<Rightarrow> bool \<times> Throttles" where
  "Decoder_acquire d t steal w =
    (case dec_driver (decoders w d) of
       Some t0 \<Rightarrow>
         if \<not> steal then (False, w)
         else let w = Throttle_release t0 True w
              in (True, w\<lparr>decoders := (decoders w)(d := (decoders w d)\<lparr>dec_driver := Some t\<rparr>)\<rparr>)
     | None \<Rightarrow> (True, w\<lparr>decoders := (decoders w)(d := (decoders w d)\<lparr>dec_driver := Some t\<rparr>)\<rparr>))"

definition acquire_assert :: "nat \<Rightarrow> Throttles \<Rightarrow> bool" where
  "acquire_assert d w \<longleftrightarrow>
    (case dec_driver (decoders w d) of
       None \<Rightarrow> True
     | Some t0 \<Rightarrow> dec_driver (decoders (Throttle_release t0 True w) d) = None)"

definition Throttle_acquire :: "nat \<Rightarrow> nat \<Rightarrow> bool \<Rightarrow> Throttles \<Rightarrow> bool \<times> Throttles" where
  "Throttle_acquire t d steal w =
    (let r = Decoder_acquire d t steal w; w = snd r
     in if \<not> fst r then (False, w)
        else
          (True, changeThrottle t (\<lambda>h. h\<lparr>th_decoder := Some d,
             th_functions := th_functions h @
               map df_number (filter (\<lambda>f. df_type f \<noteq> FtAlwaysOff \<and> df_type f \<noteq> FtAlwaysOn)
                 (dec_functions (decoders w d)))\<rparr>) w))"

datatype AcquireResult = AcquireSuccess | AcquireFailedNonExisting | AcquireFailedInUse

text \<open>\<^verbatim>\<open>HardwareThrottle::acquire\<close>; \<open>ds\<close> is the list of all decoders.\<close>

definition HardwareThrottle_acquire ::
  "nat \<Rightarrow> DecoderProtocol \<Rightarrow> u16 \<Rightarrow> bool \<Rightarrow> nat list \<Rightarrow> Throttles \<Rightarrow> AcquireResult \<times> Throttles" where
  "HardwareThrottle_acquire t protocol address steal ds w =
    (let D = decoders w;
         d = (case find (\<lambda>i. dec_protocol (D i) = protocol \<and> dec_address (D i) = address) ds of
                Some d \<Rightarrow> Some d
              | None \<Rightarrow> find (\<lambda>i. dec_address (D i) = address) ds)
     in case d of
          None \<Rightarrow> (AcquireFailedNonExisting, w)
        | Some d \<Rightarrow>
            let r = Throttle_acquire t d steal w
            in (if fst r then AcquireSuccess else AcquireFailedInUse, snd r))"

section \<open>Functions of a throttle\<close>

definition ThrottleFunction_press :: "nat \<Rightarrow> u8 \<Rightarrow> Throttles \<Rightarrow> Throttles" where
  "ThrottleFunction_press t number w =
    (case th_decoder (throttles w t) of
       None \<Rightarrow> w
     | Some d \<Rightarrow>
         (case Decoder_getFunction number (decoders w d) of
            None \<Rightarrow> w
          | Some f \<Rightarrow>
              (case df_type f of
                 FtHold \<Rightarrow> changeDecoder d (DecoderFunction_setValue number False (decoders w d)) w
               | FtMomentary \<Rightarrow> changeDecoder d (DecoderFunction_setValue number False (decoders w d)) w
               | FtOnOff \<Rightarrow> changeDecoder d (DecoderFunction_setValue number (\<not> df_value f) (decoders w d)) w
               | _ \<Rightarrow> w)))"

definition ThrottleFunction_release :: "nat \<Rightarrow> u8 \<Rightarrow> Throttles \<Rightarrow> Throttles" where
  "ThrottleFunction_release t number w =
    (case th_decoder (throttles w t) of
       None \<Rightarrow> w
     | Some d \<Rightarrow>
         (case Decoder_getFunction number (decoders w d) of
            None \<Rightarrow> w
          | Some f \<Rightarrow>
              (if df_type f = FtHold \<or> df_type f = FtMomentary then
                 changeDecoder d (DecoderFunction_setValue number False (decoders w d)) w
               else w)))"

section \<open>Invariant\<close>

definition linked :: "Throttles \<Rightarrow> bool" where
  "linked w \<longleftrightarrow> (\<forall>t d. th_decoder (throttles w t) = Some d \<longleftrightarrow> dec_driver (decoders w d) = Some t)"

named_theorems throttle_defs \<open>definitions of what an operation on throttles changes\<close>

lemmas [throttle_defs] = changeDecoder_def changeThrottle_def Decoder_setEmergencyStop_def
  Decoder_setDirection_def Decoder_setThrottle_def Let_def

text \<open>Setters keep the pointers.\<close>

lemma driver_setters [simp]:
  "dec_driver (fst (Decoder_setEmergencyStop v d)) = dec_driver d"
  "Decoder_setDirection r d = Some (a, b) \<Longrightarrow> dec_driver a = dec_driver d"
  "Decoder_setThrottle q d = Some (a, b) \<Longrightarrow> dec_driver a = dec_driver d"
  "dec_driver (fst (DecoderFunction_setValue n v d)) = dec_driver d"
  by (auto simp: Decoder_setEmergencyStop_def Decoder_setDirection_def Decoder_setThrottle_def
      DecoderFunction_setValue_def split: if_splits option.splits)

lemma decoders_changeThrottle [simp]: "decoders (changeThrottle t g w) = decoders w"
  by (simp add: changeThrottle_def)

lemma throttles_changeDecoder [simp]: "throttles (changeDecoder d r w) = throttles w"
  by (simp add: changeDecoder_def)

lemma throttles_changeThrottle [simp]:
  "throttles (changeThrottle t g w) = (throttles w)(t := g (throttles w t))"
  by (simp add: changeThrottle_def)

definition samePointers :: "Throttles \<Rightarrow> Throttles \<Rightarrow> bool" where
  "samePointers w v \<longleftrightarrow>
    (\<forall>t. th_decoder (throttles v t) = th_decoder (throttles w t)) \<and>
    (\<forall>d. dec_driver (decoders v d) = dec_driver (decoders w d))"

lemma samePointers_linked: "samePointers w v \<Longrightarrow> linked v = linked w"
  by (simp add: samePointers_def linked_def)

lemma samePointers_refl [simp]: "samePointers w w"
  by (simp add: samePointers_def)

lemma samePointers_trans: "samePointers u v \<Longrightarrow> samePointers v w \<Longrightarrow> samePointers u w"
  by (simp add: samePointers_def)

lemma samePointers_change:
  "dec_driver (fst r) = dec_driver (decoders w d) \<Longrightarrow> samePointers w (changeDecoder d r w)"
  "(\<And>h. th_decoder (g h) = th_decoder h) \<Longrightarrow> samePointers w (changeThrottle t g w)"
  by (simp_all add: samePointers_def changeDecoder_def changeThrottle_def)

lemma samePointers_setEmergencyStop:
  "Throttle_setEmergencyStop t v w = Some w' \<Longrightarrow> samePointers w w'"
  by (auto simp: Throttle_setEmergencyStop_def Let_def split: if_splits option.splits
      intro!: samePointers_trans [OF samePointers_change(2) samePointers_change(1)])

lemma samePointers_setDirection:
  "Throttle_setDirection t v w = Some w' \<Longrightarrow> samePointers w w'"
  by (auto simp: Throttle_setDirection_def Let_def split: if_splits option.splits
      intro!: samePointers_trans [OF samePointers_change(2) samePointers_change(1)])

lemma samePointers_setThrottle:
  "Throttle_setThrottle t v w = Some w' \<Longrightarrow> samePointers w w'"
  by (auto simp: Throttle_setThrottle_def Let_def split: if_splits option.splits
      intro!: samePointers_trans [OF samePointers_change(2) samePointers_change(1)] samePointers_change(2))

lemma samePointers_press: "samePointers w (ThrottleFunction_press t n w)"
  by (auto simp: ThrottleFunction_press_def split: option.splits DecoderFunctionType.splits
      intro!: samePointers_change(1))

lemma samePointers_release: "samePointers w (ThrottleFunction_release t n w)"
  by (auto simp: ThrottleFunction_release_def split: option.splits intro!: samePointers_change(1))

section \<open>What release does\<close>

text \<open>The part of \<open>Throttle_release\<close> before the pointers change.\<close>

definition stopDecoder :: "nat \<Rightarrow> bool \<Rightarrow> Throttles \<Rightarrow> Throttles" where
  "stopDecoder t stop w =
    (if stop then the (Throttle_setThrottle t throttleMin (the (Throttle_setEmergencyStop t True w))) else w)"

lemma limitThrottle_min [simp]: "limitThrottle throttleMin = Some throttleMin"
  by (simp add: limitThrottle_def throttleMin_def throttleMax_def)

lemma setEmergencyStop_Some:
  "th_decoder (throttles w t) = Some d \<Longrightarrow> \<exists>w'. Throttle_setEmergencyStop t v w = Some w'"
  by (simp add: Throttle_setEmergencyStop_def Let_def)

lemma setThrottle_min_Some: "\<exists>w'. Throttle_setThrottle t throttleMin w = Some w'"
  by (auto simp: Throttle_setThrottle_def Decoder_setThrottle_def Let_def split: option.splits)

lemma stopDecoder_pointers:
  assumes "th_decoder (throttles w t) = Some d"
  shows "samePointers w (stopDecoder t stop w)"
proof -
  obtain w1 where 1: "Throttle_setEmergencyStop t True w = Some w1"
    using setEmergencyStop_Some [OF assms] by blast
  obtain w2 where 2: "Throttle_setThrottle t throttleMin w1 = Some w2"
    using setThrottle_min_Some by blast
  show ?thesis
    using samePointers_trans [OF samePointers_setEmergencyStop [OF 1] samePointers_setThrottle [OF 2]]
    by (simp add: stopDecoder_def 1 2)
qed

lemma Throttle_release_eq:
  "th_decoder (throttles w t) = Some d \<Longrightarrow>
    Throttle_release t stop w =
      (let w = changeThrottle t (th_decoder_update (\<lambda>_. None)) (Decoder_release d t (stopDecoder t stop w))
       in w\<lparr>releases := releases w @ [t]\<rparr>)"
  by (simp add: Throttle_release_def stopDecoder_def Let_def)

lemma Throttle_release_pointers:
  assumes "linked w"
  shows "linked (Throttle_release t stop w)"
    and "th_decoder (throttles (Throttle_release t stop w) t) = None"
    and "t' \<noteq> t \<Longrightarrow> th_decoder (throttles (Throttle_release t stop w) t') = th_decoder (throttles w t')"
    and "th_decoder (throttles w t) = Some d \<Longrightarrow> dec_driver (decoders (Throttle_release t stop w) d) = None"
proof -
  have "linked (Throttle_release t stop w) \<and> th_decoder (throttles (Throttle_release t stop w) t) = None \<and>
    (t' \<noteq> t \<longrightarrow> th_decoder (throttles (Throttle_release t stop w) t') = th_decoder (throttles w t')) \<and>
    (th_decoder (throttles w t) = Some d \<longrightarrow> dec_driver (decoders (Throttle_release t stop w) d) = None)"
  proof (cases "th_decoder (throttles w t)")
    case None
    then show ?thesis using assms by (simp add: Throttle_release_def)
  next
    case (Some e)
    have s: "samePointers w (stopDecoder t stop w)" by (rule stopDecoder_pointers [OF Some])
    have e: "dec_driver (decoders w e) = Some t" using assms Some by (simp add: linked_def)
    let ?v = "Throttle_release t stop w"
    have D: "dec_driver (decoders ?v x) = (if x = e then None else dec_driver (decoders w x))" for x
      using s e by (simp add: Throttle_release_eq [OF Some] Let_def Decoder_release_def samePointers_def)
    have T: "th_decoder (throttles ?v x) = (if x = t then None else th_decoder (throttles w x))" for x
      using s by (simp add: Throttle_release_eq [OF Some] Let_def Decoder_release_def samePointers_def)
    have "linked ?v" unfolding linked_def D T using assms e Some unfolding linked_def by (metis option.inject option.distinct(1))
    then show ?thesis using Some by (simp add: D T)
  qed
  then show "linked (Throttle_release t stop w)"
    and "th_decoder (throttles (Throttle_release t stop w) t) = None"
    and "t' \<noteq> t \<Longrightarrow> th_decoder (throttles (Throttle_release t stop w) t') = th_decoder (throttles w t')"
    and "th_decoder (throttles w t) = Some d \<Longrightarrow> dec_driver (decoders (Throttle_release t stop w) d) = None"
    by blast+
qed

lemma Throttle_acquire_linked:
  assumes "linked w" and "\<not> acquired t w"
  shows "linked (snd (Throttle_acquire t d steal w))" and "acquire_assert d w"
    and "fst (Throttle_acquire t d steal w) \<longleftrightarrow> steal \<or> dec_driver (decoders w d) = None"
    and "fst (Throttle_acquire t d steal w) \<Longrightarrow>
      th_decoder (throttles (snd (Throttle_acquire t d steal w)) t) = Some d"
proof -
  note rel = Throttle_release_pointers [OF assms(1)]
  have free: "linked (changeThrottle t g (v\<lparr>decoders := (decoders v)(d := (decoders v d)\<lparr>dec_driver := Some t\<rparr>)\<rparr>))"
    if "linked v" "dec_driver (decoders v d) = None" "th_decoder (throttles v t) = None"
      "th_decoder (g (throttles v t)) = Some d" for v g
  proof -
    have "th_decoder (throttles v x) \<noteq> Some d" "dec_driver (decoders v y) \<noteq> Some t" for x y
      using that(1-3) by (simp_all add: linked_def) (metis option.distinct(1))
    then show ?thesis using that by (auto simp: linked_def)
  qed
  have "linked (snd (Throttle_acquire t d steal w)) \<and> acquire_assert d w \<and>
    (fst (Throttle_acquire t d steal w) \<longleftrightarrow> steal \<or> dec_driver (decoders w d) = None) \<and>
    (fst (Throttle_acquire t d steal w) \<longrightarrow>
      th_decoder (throttles (snd (Throttle_acquire t d steal w)) t) = Some d)"
  proof (cases "dec_driver (decoders w d)")
    case None
    then show ?thesis using assms
      by (auto simp: Throttle_acquire_def Decoder_acquire_def Let_def acquire_assert_def acquired_def intro!: free)
  next
    case (Some t0)
    then have t0: "th_decoder (throttles w t0) = Some d" using assms(1) by (simp add: linked_def)
    then have "t \<noteq> t0" using assms(2) by (auto simp: acquired_def)
    then have "th_decoder (throttles (Throttle_release t0 True w) t) = None"
      using rel(3) [of t t0 True] assms(2) by (simp add: acquired_def)
    then show ?thesis using Some assms rel(1) [of t0 True] rel(4) [OF t0, of True]
      by (auto simp: Throttle_acquire_def Decoder_acquire_def Let_def acquire_assert_def intro!: free)
  qed
  then show "linked (snd (Throttle_acquire t d steal w))" and "acquire_assert d w"
    and "fst (Throttle_acquire t d steal w) \<longleftrightarrow> steal \<or> dec_driver (decoders w d) = None"
    and "fst (Throttle_acquire t d steal w) \<Longrightarrow>
      th_decoder (throttles (snd (Throttle_acquire t d steal w)) t) = Some d"
    by iprover+
qed

section \<open>Whatever is acquired\<close>

text \<open>A throttle that acquires while it holds a decoder stays the driver of the first one, which it forgets.\<close>

definition halfLinked :: "Throttles \<Rightarrow> bool" where
  "halfLinked w \<longleftrightarrow> (\<forall>t d. th_decoder (throttles w t) = Some d \<longrightarrow> dec_driver (decoders w d) = Some t)"

lemma linked_half: "linked w \<Longrightarrow> halfLinked w"
  by (simp add: linked_def halfLinked_def)

lemma samePointers_half: "samePointers w v \<Longrightarrow> halfLinked v = halfLinked w"
  by (simp add: samePointers_def halfLinked_def)

lemma Throttle_release_half:
  assumes "halfLinked w"
  shows "halfLinked (Throttle_release t stop w)"
    and "th_decoder (throttles (Throttle_release t stop w) x) = (if x = t then None else th_decoder (throttles w x))"
proof -
  have "halfLinked (Throttle_release t stop w) \<and>
    (\<forall>x. th_decoder (throttles (Throttle_release t stop w) x) = (if x = t then None else th_decoder (throttles w x)))"
  proof (cases "th_decoder (throttles w t)")
    case None
    then show ?thesis using assms by (simp add: Throttle_release_def)
  next
    case (Some e)
    have s: "samePointers w (stopDecoder t stop w)" by (rule stopDecoder_pointers [OF Some])
    have e: "dec_driver (decoders w e) = Some t" using assms Some by (simp add: halfLinked_def)
    let ?v = "Throttle_release t stop w"
    have D: "dec_driver (decoders ?v x) = (if x = e then None else dec_driver (decoders w x))" for x
      using s e by (simp add: Throttle_release_eq [OF Some] Let_def Decoder_release_def samePointers_def)
    have T: "th_decoder (throttles ?v x) = (if x = t then None else th_decoder (throttles w x))" for x
      using s by (simp add: Throttle_release_eq [OF Some] Let_def Decoder_release_def samePointers_def)
    have "halfLinked ?v" using assms e by (auto simp: halfLinked_def D T)
    then show ?thesis by (simp add: T)
  qed
  then show "halfLinked (Throttle_release t stop w)"
    and "th_decoder (throttles (Throttle_release t stop w) x) = (if x = t then None else th_decoder (throttles w x))"
    by blast+
qed

lemma Throttle_acquire_half:
  assumes "halfLinked w"
  shows "halfLinked (snd (Throttle_acquire t d steal w))"
    and "fst (Throttle_acquire t d steal w) \<longleftrightarrow> steal \<or> dec_driver (decoders w d) = None"
    and "fst (Throttle_acquire t d steal w) \<Longrightarrow>
      th_decoder (throttles (snd (Throttle_acquire t d steal w)) t) = Some d"
proof -
  have give: "halfLinked (changeThrottle t g (v\<lparr>decoders := (decoders v)(d := (decoders v d)\<lparr>dec_driver := Some t\<rparr>)\<rparr>))"
    if "halfLinked v" "\<And>x. th_decoder (throttles v x) \<noteq> Some d" "th_decoder (g (throttles v t)) = Some d" for v g
    using that by (auto simp: halfLinked_def)
  have "halfLinked (snd (Throttle_acquire t d steal w)) \<and>
    (fst (Throttle_acquire t d steal w) \<longleftrightarrow> steal \<or> dec_driver (decoders w d) = None) \<and>
    (fst (Throttle_acquire t d steal w) \<longrightarrow>
      th_decoder (throttles (snd (Throttle_acquire t d steal w)) t) = Some d)"
  proof (cases "dec_driver (decoders w d)")
    case None
    then have "th_decoder (throttles w x) \<noteq> Some d" for x using assms by (auto simp: halfLinked_def)
    then show ?thesis using None assms
      by (auto simp: Throttle_acquire_def Decoder_acquire_def Let_def intro!: give)
  next
    case (Some t0)
    have "th_decoder (throttles (Throttle_release t0 True w) x) \<noteq> Some d" for x
      using Some assms Throttle_release_half(2) [OF assms, of t0 True x] by (auto simp: halfLinked_def)
    then show ?thesis using Some assms Throttle_release_half(1) [OF assms, of t0 True]
      by (auto simp: Throttle_acquire_def Decoder_acquire_def Let_def intro!: give)
  qed
  then show "halfLinked (snd (Throttle_acquire t d steal w))"
    and "fst (Throttle_acquire t d steal w) \<longleftrightarrow> steal \<or> dec_driver (decoders w d) = None"
    and "fst (Throttle_acquire t d steal w) \<Longrightarrow>
      th_decoder (throttles (snd (Throttle_acquire t d steal w)) t) = Some d"
    by iprover+
qed

section \<open>Reachable states\<close>

text \<open>\<open>careful\<close> are the runs in which no throttle acquires while it holds a decoder.\<close>

inductive throttle_step :: "bool \<Rightarrow> Throttles \<Rightarrow> Throttles \<Rightarrow> bool" for careful where
  step_acquire: "(careful \<Longrightarrow> \<not> acquired t w) \<Longrightarrow> throttle_step careful w (snd (Throttle_acquire t d steal w))"
| step_release: "throttle_step careful w (Throttle_release t stop w)"
| step_emergencyStop: "Throttle_setEmergencyStop t v w = Some w' \<Longrightarrow> throttle_step careful w w'"
| step_direction: "Throttle_setDirection t r w = Some w' \<Longrightarrow> throttle_step careful w w'"
| step_throttle: "Throttle_setThrottle t q w = Some w' \<Longrightarrow> throttle_step careful w w'"
| step_press: "throttle_step careful w (ThrottleFunction_press t n w)"
| step_up: "throttle_step careful w (ThrottleFunction_release t n w)"

lemma throttle_step_same:
  assumes "throttle_step careful w w'"
  shows "samePointers w w' \<or> (\<exists>t d steal. (careful \<longrightarrow> \<not> acquired t w) \<and> w' = snd (Throttle_acquire t d steal w)) \<or>
    (\<exists>t stop. w' = Throttle_release t stop w)"
  using assms
  by cases (auto intro: samePointers_setEmergencyStop samePointers_setDirection samePointers_setThrottle
      samePointers_press samePointers_release)

lemma throttle_step_half: "throttle_step careful w w' \<Longrightarrow> halfLinked w \<Longrightarrow> halfLinked w'"
  using samePointers_half Throttle_acquire_half(1) Throttle_release_half(1) by (blast dest: throttle_step_same)

lemma throttle_step_linked: "throttle_step True w w' \<Longrightarrow> linked w \<Longrightarrow> linked w'"
  using samePointers_linked Throttle_acquire_linked(1) Throttle_release_pointers(1) by (blast dest: throttle_step_same)

lemma throttle_steps_half: "(throttle_step careful)\<^sup>*\<^sup>* w w' \<Longrightarrow> halfLinked w \<Longrightarrow> halfLinked w'"
  by (induction rule: rtranclp_induct) (auto dest: throttle_step_half)

lemma throttle_steps_linked: "(throttle_step True)\<^sup>*\<^sup>* w w' \<Longrightarrow> linked w \<Longrightarrow> linked w'"
  by (induction rule: rtranclp_induct) (auto dest: throttle_step_linked)

text \<open>Releasing with a stop, when the throttle was not stopped before.\<close>

lemma setThrottle_keeps_stop:
  "Throttle_setThrottle t q w = Some w' \<Longrightarrow>
    dec_emergencyStop (decoders w' d) = dec_emergencyStop (decoders w d)"
  by (auto simp: Throttle_setThrottle_def Decoder_setThrottle_def changeDecoder_def Let_def
      split: if_splits option.splits)

lemma setEmergencyStop_stops:
  "th_decoder (throttles w t) = Some d \<Longrightarrow> \<not> th_emergencyStop (throttles w t) \<Longrightarrow>
    Throttle_setEmergencyStop t True w = Some w' \<Longrightarrow> dec_emergencyStop (decoders w' d)"
  by (auto simp: Throttle_setEmergencyStop_def Decoder_setEmergencyStop_def changeDecoder_def Let_def)

lemma Throttle_release_stops:
  assumes "th_decoder (throttles w t) = Some d" "\<not> th_emergencyStop (throttles w t)"
  shows "dec_emergencyStop (decoders (Throttle_release t True w) d)"
proof -
  obtain w1 where 1: "Throttle_setEmergencyStop t True w = Some w1"
    using setEmergencyStop_Some [OF assms(1)] by blast
  obtain w2 where 2: "Throttle_setThrottle t throttleMin w1 = Some w2"
    using setThrottle_min_Some by blast
  have "dec_emergencyStop (decoders w2 d)"
    using setEmergencyStop_stops [OF assms 1] setThrottle_keeps_stop [OF 2] by simp
  then show ?thesis
    by (simp add: Throttle_release_eq [OF assms(1)] stopDecoder_def 1 2 Let_def Decoder_release_def)
qed

text \<open>The throttle keeps its values; a decoder acquired later is not stopped on release.\<close>

lemma Throttle_release_stale:
  assumes "th_decoder (throttles w t) = Some d" "th_emergencyStop (throttles w t)"
    "th_throttle (throttles w t) = throttleMin"
  shows "dec_emergencyStop (decoders (Throttle_release t True w) e) = dec_emergencyStop (decoders w e)"
    and "dec_throttle (decoders (Throttle_release t True w) e) = dec_throttle (decoders w e)"
    and "told (Throttle_release t True w) = told w"
  using assms
  by (simp_all add: Throttle_release_def Throttle_setEmergencyStop_def Throttle_setThrottle_def
      Decoder_release_def changeThrottle_def Let_def)

end
