(* ===== verification/Decoder_Properties.thy ===== *)
theory Decoder_Properties
  imports Throttles
begin

text \<open>The properties of the decoders and the throttles.\<close>

text \<open>
  C24. A speed step turned into a throttle value and back is the same step: the two roundings to single
  precision of \<^verbatim>\<open>Decoder::speedStepToThrottle\<close> and \<^verbatim>\<open>throttleToSpeedStep\<close> never move it, for every
  number of speed steps below 65536.
\<close>

theorem throttle_speedstep_roundtrip:
  assumes "0 < n" and "s \<le> n" and "n < 2 ^ 16"
  shows "throttleToSpeedStep (speedStepToThrottle s n) n = int s"
  using assms by (rule roundtrip_error)

theorem throttle_speedstep_roundtrip_witness:
  "throttleToSpeedStep (speedStepToThrottle 77 126) 126 = 77"
  using throttle_speedstep_roundtrip [of 126 77] by simp

text \<open>
  C11. After any operations on throttles, a throttle that holds a decoder is the decoder's driver, so that no
  decoder is held by two throttles; acquiring succeeds exactly when the decoder is free or may be stolen, and
  then the throttle holds it.  In the runs in which no throttle acquires while it holds a decoder
  (\<open>careful\<close>) the driver of a decoder also holds it, and the assertion after a steal does not fail.
\<close>

theorem throttle_links:
  assumes "linked w0" and "(throttle_step careful)\<^sup>*\<^sup>* w0 w"
  shows "(th_decoder (throttles w t1) = Some d \<longrightarrow> dec_driver (decoders w d) = Some t1) \<and>
    (th_decoder (throttles w t1) = Some d \<and> th_decoder (throttles w t2) = Some d \<longrightarrow> t1 = t2) \<and>
    (fst (Throttle_acquire t d steal w) \<longleftrightarrow> steal \<or> dec_driver (decoders w d) = None) \<and>
    (fst (Throttle_acquire t d steal w) \<longrightarrow>
      th_decoder (throttles (snd (Throttle_acquire t d steal w)) t) = Some d) \<and>
    (careful \<longrightarrow> (dec_driver (decoders w d) = Some t1 \<longrightarrow> th_decoder (throttles w t1) = Some d) \<and> acquire_assert d w)"
proof -
  have h: "halfLinked w" by (rule throttle_steps_half [OF assms(2) linked_half [OF assms(1)]])
  have c: "(dec_driver (decoders w d) = Some t1 \<longrightarrow> th_decoder (throttles w t1) = Some d) \<and> acquire_assert d w" if careful
  proof -
    have l: "linked w" using throttle_steps_linked assms that by simp
    then have "dec_driver (decoders w d) = Some t0 \<Longrightarrow> dec_driver (decoders (Throttle_release t0 True w) d) = None" for t0
      using Throttle_release_pointers(4) [OF l] by (simp add: linked_def)
    then have "acquire_assert d w" by (simp add: acquire_assert_def split: option.split)
    then show ?thesis using l by (simp add: linked_def)
  qed
  have "t1 = t2" if "th_decoder (throttles w t1) = Some d" "th_decoder (throttles w t2) = Some d"
    using h that unfolding halfLinked_def by (metis option.inject)
  then show ?thesis
    using h c Throttle_acquire_half(2) [OF h, of t d steal] Throttle_acquire_half(3) [OF h, of t d steal]
    unfolding halfLinked_def by blast
qed

theorem throttle_links_witness:
  "let d = \<lparr>dec_protocol = DCCShort, dec_address = 3, dec_emergencyStop = False, dec_direction = DirForward,
       dec_speedSteps = 28, dec_throttle = 0, dec_functions = [], dec_worldMute = False,
       dec_worldNoSmoke = False, dec_driver = None\<rparr>;
     w = \<lparr>decoders = (\<lambda>_. d), throttles = (\<lambda>_. Throttle_construct), told = [], releases = []\<rparr>;
     v = snd (Throttle_acquire 1 2 False w)
   in th_decoder (throttles v 1) = Some 2 \<and> dec_driver (decoders v 2) = Some 1 \<and> acquire_assert 2 v"
proof -
  let ?d = "\<lparr>dec_protocol = DCCShort, dec_address = 3, dec_emergencyStop = False, dec_direction = DirForward,
       dec_speedSteps = 28, dec_throttle = 0, dec_functions = [], dec_worldMute = False,
       dec_worldNoSmoke = False, dec_driver = None\<rparr>"
  let ?w = "\<lparr>decoders = (\<lambda>_. ?d), throttles = (\<lambda>_. Throttle_construct), told = [], releases = []\<rparr>"
  let ?v = "snd (Throttle_acquire 1 2 False ?w)"
  have l: "linked ?w" by (simp add: linked_def Throttle_construct_def)
  have "\<not> acquired 1 ?w" by (simp add: acquired_def Throttle_construct_def)
  then have s: "(throttle_step True)\<^sup>*\<^sup>* ?w ?v" by (intro r_into_rtranclp step_acquire)
  have "fst (Throttle_acquire 1 2 False ?w)"
    using throttle_links [OF l rtranclp.rtrancl_refl, where t = 1 and d = 2 and steal = False] by simp
  then have t: "th_decoder (throttles ?v 1) = Some 2"
    using throttle_links [OF l rtranclp.rtrancl_refl, where t = 1 and d = 2 and steal = False] by blast
  then show ?thesis
    using throttle_links [OF l s, where ?t1.0 = 1 and d = 2] unfolding Let_def by blast
qed

text \<open>
  Releasing a throttle with a stop stops its decoder, but only the first time: the throttle keeps
  its own stop and speed zero, and when it acquires another decoder and is released again, that decoder
  is neither stopped nor slowed down, and its interface is told nothing.
\<close>

theorem release_forgets_to_stop:
  assumes "linked w" and "th_decoder (throttles w t) = Some d" and "\<not> th_emergencyStop (throttles w t)"
    and "dec_driver (decoders w e) = None"
  defines "w1 \<equiv> Throttle_release t True w"
  defines "w2 \<equiv> snd (Throttle_acquire t e False w1)"
  defines "w3 \<equiv> Throttle_release t True w2"
  shows "dec_emergencyStop (decoders w1 d) \<and> th_decoder (throttles w2 t) = Some e \<and>
    dec_emergencyStop (decoders w3 e) = dec_emergencyStop (decoders w1 e) \<and>
    dec_throttle (decoders w3 e) = dec_throttle (decoders w1 e) \<and> told w3 = told w1"
proof -
  obtain v1 where v1: "Throttle_setEmergencyStop t True w = Some v1"
    using setEmergencyStop_Some [OF assms(2)] by blast
  obtain v2 where v2: "Throttle_setThrottle t throttleMin v1 = Some v2"
    using setThrottle_min_Some by blast
  have "th_emergencyStop (throttles v1 t)"
    using v1 assms(2,3) by (auto simp: Throttle_setEmergencyStop_def Let_def)
  then have st: "th_emergencyStop (throttles v2 t)" "th_throttle (throttles v2 t) = throttleMin"
    using v2 by (auto simp: Throttle_setThrottle_def Let_def split: if_splits option.splits)
  have "throttles w1 t = (throttles v2 t)\<lparr>th_decoder := None\<rparr>"
    by (simp add: w1_def Throttle_release_eq [OF assms(2)] stopDecoder_def v1 v2 Let_def Decoder_release_def)
  then have 1: "th_emergencyStop (throttles w1 t)" "th_throttle (throttles w1 t) = throttleMin" "\<not> acquired t w1"
    using st by (simp_all add: acquired_def)
  have l1: "linked w1" unfolding w1_def by (rule Throttle_release_pointers(1) [OF assms(1)])
  have free: "dec_driver (decoders w1 e) = None"
  proof (rule ccontr)
    assume "dec_driver (decoders w1 e) \<noteq> None"
    then obtain t' where "th_decoder (throttles w1 t') = Some e" using l1 by (auto simp: linked_def)
    moreover have "th_decoder (throttles w1 t') \<noteq> Some e"
      using Throttle_release_pointers(2) [OF assms(1), of t True]
        Throttle_release_pointers(3) [OF assms(1), of t' t True] assms(1,4)
      by (cases "t' = t") (auto simp: w1_def linked_def)
    ultimately show False by simp
  qed
  then have 2: "decoders w2 e = (decoders w1 e)\<lparr>dec_driver := Some t\<rparr>" "th_decoder (throttles w2 t) = Some e"
      "th_emergencyStop (throttles w2 t)" "th_throttle (throttles w2 t) = throttleMin" "told w2 = told w1"
    using 1 by (simp_all add: w2_def Throttle_acquire_def Decoder_acquire_def Let_def) (simp add: changeThrottle_def)
  show ?thesis
    using Throttle_release_stops [OF assms(2,3)] Throttle_release_stale(1,2) [OF 2(2-4), of e]
      Throttle_release_stale(3) [OF 2(2-4)] 2(1,2,5)
    by (simp add: w1_def [symmetric] w3_def)
qed

theorem release_forgets_to_stop_witness:
  "let d = \<lparr>dec_protocol = DCCShort, dec_address = 3, dec_emergencyStop = False, dec_direction = DirForward,
       dec_speedSteps = 28, dec_throttle = 1 / 2, dec_functions = [], dec_worldMute = False,
       dec_worldNoSmoke = False, dec_driver = None\<rparr>;
     w = \<lparr>decoders = (\<lambda>_. d)(1 := d\<lparr>dec_driver := Some 1\<rparr>),
       throttles = (\<lambda>_. Throttle_construct)(1 := Throttle_construct\<lparr>th_decoder := Some 1\<rparr>), told = [], releases = []\<rparr>;
     w1 = Throttle_release 1 True w; w3 = Throttle_release 1 True (snd (Throttle_acquire 1 2 False w1))
   in dec_throttle (decoders w3 2) = dec_throttle (decoders w1 2)"
proof -
  let ?d = "\<lparr>dec_protocol = DCCShort, dec_address = 3, dec_emergencyStop = False, dec_direction = DirForward,
       dec_speedSteps = 28, dec_throttle = 1 / 2, dec_functions = [], dec_worldMute = False,
       dec_worldNoSmoke = False, dec_driver = None\<rparr>"
  let ?w = "\<lparr>decoders = (\<lambda>_. ?d)(1 := ?d\<lparr>dec_driver := Some 1\<rparr>),
       throttles = (\<lambda>_. Throttle_construct)(1 := Throttle_construct\<lparr>th_decoder := Some 1\<rparr>), told = [], releases = []\<rparr>"
  have "linked ?w" by (auto simp: linked_def Throttle_construct_def split: if_splits)
  then show ?thesis
    using release_forgets_to_stop [where w = ?w and t = 1 and d = 1 and e = 2] by (simp add: Let_def Throttle_construct_def)
qed

end
