(* ===== verification/Z21_Messages.thy ===== *)
theory Z21_Messages
  imports Enums
begin

text \<open>
  The messages of \<^verbatim>\<open>z21/messages.hpp\<close>, \<^verbatim>\<open>messages.cpp\<close> and \<^verbatim>\<open>utils.hpp\<close>.  A message is the
  list of its bytes: length and header, 16 bits each, little endian; a message with header
  \<^verbatim>\<open>LAN_X\<close> wraps an XpressNet message, its header at offset 4, the data behind it and the exclusive
  or of both.  A byte that a constructor leaves uninitialised is an argument.  The constructors'
  assertions are hypotheses of the lemmas that need them.
\<close>

section \<open>Headers\<close>

abbreviation (input) "LAN_GET_SERIAL_NUMBER \<equiv> (0x10 :: u16)"
abbreviation (input) "LAN_GET_CODE \<equiv> (0x18 :: u16)"
abbreviation (input) "LAN_GET_HWINFO \<equiv> (0x1A :: u16)"
abbreviation (input) "LAN_LOGOFF \<equiv> (0x30 :: u16)"
abbreviation (input) "LAN_X \<equiv> (0x40 :: u16)"
abbreviation (input) "LAN_SET_BROADCASTFLAGS \<equiv> (0x50 :: u16)"
abbreviation (input) "LAN_GET_BROADCASTFLAGS \<equiv> (0x51 :: u16)"
abbreviation (input) "LAN_GET_LOCO_MODE \<equiv> (0x60 :: u16)"
abbreviation (input) "LAN_SET_LOCO_MODE \<equiv> (0x61 :: u16)"
abbreviation (input) "LAN_RMBUS_DATACHANGED \<equiv> (0x80 :: u16)"
abbreviation (input) "LAN_RMBUS_GETDATA \<equiv> (0x81 :: u16)"
abbreviation (input) "LAN_SYSTEMSTATE_DATACHANGED \<equiv> (0x84 :: u16)"
abbreviation (input) "LAN_SYSTEMSTATE_GETDATA \<equiv> (0x85 :: u16)"
abbreviation (input) "LAN_LOCONET_Z21_RX \<equiv> (0xA0 :: u16)"
abbreviation (input) "LAN_LOCONET_Z21_TX \<equiv> (0xA1 :: u16)"
abbreviation (input) "LAN_LOCONET_FROM_LAN \<equiv> (0xA2 :: u16)"
abbreviation (input) "LAN_LOCONET_DETECTOR \<equiv> (0xA4 :: u16)"

abbreviation (input) "LAN_X_TURNOUT_INFO \<equiv> (0x43 :: u8)"
abbreviation (input) "LAN_X_SET_TURNOUT \<equiv> (0x53 :: u8)"
abbreviation (input) "LAN_X_EXT_ACCESSORY_INFO \<equiv> (0x44 :: u8)"
abbreviation (input) "LAN_X_SET_EXT_ACCESSORY \<equiv> (0x54 :: u8)"
abbreviation (input) "LAN_X_BC \<equiv> (0x61 :: u8)"
abbreviation (input) "LAN_X_STATUS_CHANGED \<equiv> (0x62 :: u8)"
abbreviation (input) "LAN_X_GET_VERSION_REPLY \<equiv> (0x63 :: u8)"
abbreviation (input) "LAN_X_SET_STOP \<equiv> (0x80 :: u8)"
abbreviation (input) "LAN_X_BC_STOPPED \<equiv> (0x81 :: u8)"
abbreviation (input) "LAN_X_GET_LOCO_INFO \<equiv> (0xE3 :: u8)"
abbreviation (input) "LAN_X_SET_LOCO \<equiv> (0xE4 :: u8)"
abbreviation (input) "LAN_X_LOCO_INFO \<equiv> (0xEF :: u8)"
abbreviation (input) "LAN_X_GET_FIRMWARE_VERSION \<equiv> (0xF1 :: u8)"
abbreviation (input) "LAN_X_GET_FIRMWARE_VERSION_REPLY \<equiv> (0xF3 :: u8)"

abbreviation (input) "LAN_X_SET_TRACK_POWER_OFF \<equiv> (0x80 :: u8)"
abbreviation (input) "LAN_X_SET_TRACK_POWER_ON \<equiv> (0x81 :: u8)"
abbreviation (input) "LAN_X_BC_TRACK_POWER_OFF \<equiv> (0x00 :: u8)"
abbreviation (input) "LAN_X_BC_TRACK_POWER_ON \<equiv> (0x01 :: u8)"
abbreviation (input) "LAN_X_BC_TRACK_SHORT_CIRCUIT \<equiv> (0x08 :: u8)"
abbreviation (input) "LAN_X_UNKNOWN_COMMAND \<equiv> (0x82 :: u8)"

text \<open>\<^verbatim>\<open>enum class BroadcastFlags\<close>, of which the kernels use these.\<close>

abbreviation (input) "BF_PowerLocoTurnoutChanges \<equiv> (0x00000001 :: u32)"
abbreviation (input) "BF_RBusChanges \<equiv> (0x00000002 :: u32)"
abbreviation (input) "BF_SystemStatusChanges \<equiv> (0x00000100 :: u32)"
abbreviation (input) "BF_AllLocoChanges \<equiv> (0x00010000 :: u32)"
abbreviation (input) "BF_LocoNet \<equiv> (0x0F000000 :: u32)"
abbreviation (input) "BF_LocoNetDetector \<equiv> (0x08000000 :: u32)"

abbreviation (input) "CENTRALSTATE_EMERGENCYSTOP \<equiv> (0x01 :: u8)"
abbreviation (input) "CENTRALSTATE_TRACKVOLTAGEOFF \<equiv> (0x02 :: u8)"
abbreviation (input) "CENTRALSTATE_SHORTCIRCUIT \<equiv> (0x04 :: u8)"
abbreviation (input) "CENTRALSTATE_PROGRAMMINGMODEACTIVE \<equiv> (0x20 :: u8)"

section \<open>Words in messages\<close>

definition Z21_le16 :: "nat \<Rightarrow> bytes \<Rightarrow> u16" where
  "Z21_le16 i m = to16 (m ! i) (m ! (i + 1))"

definition Z21_be16 :: "nat \<Rightarrow> bytes \<Rightarrow> u16" where
  "Z21_be16 i m = to16 (m ! (i + 1)) (m ! i)"

definition Z21_le32 :: "nat \<Rightarrow> bytes \<Rightarrow> u32" where
  "Z21_le32 i m = ucast (m ! i) OR push_bit 8 (ucast (m ! (i + 1))) OR
    push_bit 16 (ucast (m ! (i + 2))) OR push_bit 24 (ucast (m ! (i + 3)))"

definition Z21_toLE16 :: "u16 \<Rightarrow> bytes" where
  "Z21_toLE16 v = [low8 v, high8 v]"

definition Z21_toBE16 :: "u16 \<Rightarrow> bytes" where
  "Z21_toBE16 v = [high8 v, low8 v]"

definition Z21_toLE32 :: "u32 \<Rightarrow> bytes" where
  "Z21_toLE32 v = [ucast v, ucast (drop_bit 8 v), ucast (drop_bit 16 v), ucast (drop_bit 24 v)]"

section \<open>The structs \<^verbatim>\<open>Message\<close> and \<^verbatim>\<open>LanX\<close>\<close>

definition Z21_dataLen :: "bytes \<Rightarrow> u16" where
  "Z21_dataLen m = Z21_le16 0 m"

definition Z21_header :: "bytes \<Rightarrow> u16" where
  "Z21_header m = Z21_le16 2 m"

definition Z21_Message :: "u16 \<Rightarrow> u16 \<Rightarrow> bytes" where
  "Z21_Message dataLen header = Z21_toLE16 dataLen @ Z21_toLE16 header"

definition Z21_LanX :: "u16 \<Rightarrow> u8 \<Rightarrow> bytes" where
  "Z21_LanX dataLen xheader = Z21_Message dataLen LAN_X @ [xheader]"

abbreviation (input) Z21_xheader :: "bytes \<Rightarrow> u8" where
  "Z21_xheader m \<equiv> m ! 4"

text \<open>\<^verbatim>\<open>XpressNet::calcChecksum\<close> of the XpressNet message at offset 4 with \<open>len\<close> bytes of data.\<close>

definition Z21_calcChecksum :: "nat \<Rightarrow> bytes \<Rightarrow> u8" where
  "Z21_calcChecksum len m = xorAll (Z21_xheader m) (take len (drop 5 m))"

definition LanX_updateChecksumLen :: "nat \<Rightarrow> bytes \<Rightarrow> bytes" where
  "LanX_updateChecksumLen len m = m[5 + len := Z21_calcChecksum len m]"

definition LanX_updateChecksum :: "bytes \<Rightarrow> bytes" where
  "LanX_updateChecksum m = LanX_updateChecksumLen (unat (Z21_xheader m AND 0x0F)) m"

definition LanX_dataSize :: "bytes \<Rightarrow> int" where
  "LanX_dataSize m =
    (if Z21_xheader m = LAN_X_LOCO_INFO then uint (Z21_dataLen m) - 6 else uint (Z21_xheader m AND 0x0F))"

text \<open>The loop does not run for a negative size; the byte compared is then before the data.\<close>

definition LanX_isChecksumValid :: "bytes \<Rightarrow> bool" where
  "LanX_isChecksumValid m =
    (Z21_calcChecksum (nat (LanX_dataSize m)) m = m ! nat (5 + LanX_dataSize m))"

text \<open>\<^verbatim>\<open>operator ==(const Message&, const Message&)\<close>.\<close>

definition Z21_msgEq :: "bytes \<Rightarrow> bytes \<Rightarrow> bool" where
  "Z21_msgEq lhs rhs \<longleftrightarrow> Z21_dataLen lhs = Z21_dataLen rhs \<and>
    take (unat (Z21_dataLen lhs)) lhs = take (unat (Z21_dataLen lhs)) rhs"

definition Z21_framed :: "bytes \<Rightarrow> bool" where
  "Z21_framed m \<longleftrightarrow> 4 \<le> length m \<and> length m = unat (Z21_dataLen m)"

section \<open>Utilities\<close>

definition Z21_getDirection :: "u8 \<Rightarrow> Direction" where
  "Z21_getDirection db = (if testFlag db 0x80 then DirForward else DirReverse)"

definition Z21_setDirection :: "Direction \<Rightarrow> u8 \<Rightarrow> u8" where
  "Z21_setDirection direction db = setFlag db 0x80 (direction = DirForward)"

definition Z21_isEmergencyStop :: "u8 \<Rightarrow> u8 \<Rightarrow> bool" where
  "Z21_isEmergencyStop db speedSteps =
    (if speedSteps = 126 then db AND 0x7F = 0x01
     else if speedSteps = 28 then db AND 0x1F = 0x01 \<or> db AND 0x1F = 0x11
     else if speedSteps = 14 then db AND 0x0F = 0x01
     else True)"

definition Z21_setEmergencyStop :: "u8 \<Rightarrow> u8" where
  "Z21_setEmergencyStop db = (db AND 0x80) OR 0x01"

definition Z21_minusOne :: "u8 \<Rightarrow> u8" where
  "Z21_minusOne db = (if db \<ge> 1 then db - 1 else 0)"

definition Z21_getSpeedStep :: "u8 \<Rightarrow> u8 \<Rightarrow> u8" where
  "Z21_getSpeedStep db speedSteps =
    (if Z21_isEmergencyStop db speedSteps then 0
     else if speedSteps = 126 then Z21_minusOne (db AND 0x7F)
     else if speedSteps = 28 then
       let db = push_bit 1 (db AND 0x0F) OR drop_bit 4 (db AND 0x10)
       in Z21_minusOne (if db \<ge> 3 then db - 2 else db)
     else if speedSteps = 14 then Z21_minusOne (db AND 0x0F)
     else 0)"

definition Z21_setSpeedStep :: "u8 \<Rightarrow> u8 \<Rightarrow> u8 \<Rightarrow> u8" where
  "Z21_setSpeedStep speedSteps speedStep db =
    (let db = db AND 0x80; speedStep = speedStep + 1
     in if speedStep > 1 then
          if speedSteps = 126 then db OR (speedStep AND 0x7F)
          else if speedSteps = 28 then
            let speedStep = speedStep + 2
            in db OR (drop_bit 1 speedStep AND 0x0F) OR push_bit 4 (speedStep AND 0x01)
          else if speedSteps = 14 then db OR (speedStep AND 0x0F)
          else db
        else db)"

definition Z21_toBCD :: "u8 \<Rightarrow> u8" where
  "Z21_toBCD v = push_bit 4 (v div 10) OR (v mod 10)"

definition Z21_fromBCD :: "u8 \<Rightarrow> u8" where
  "Z21_fromBCD v = drop_bit 4 v * 10 + (v AND 0x0F)"

section \<open>Messages of the client\<close>

definition LanGetSerialNumber :: bytes where "LanGetSerialNumber = Z21_Message 4 LAN_GET_SERIAL_NUMBER"
definition LanGetHardwareInfo :: bytes where "LanGetHardwareInfo = Z21_Message 4 LAN_GET_HWINFO"
definition LanLogoff :: bytes where "LanLogoff = Z21_Message 4 LAN_LOGOFF"
definition LanXGetVersion :: bytes where "LanXGetVersion = Z21_LanX 7 0x21 @ [0x21, 0x00]"

definition LanXGetFirmwareVersion :: bytes where
  "LanXGetFirmwareVersion = Z21_LanX 7 LAN_X_GET_FIRMWARE_VERSION @ [0x0A, 0xFB]"

definition LanXGetStatus :: bytes where "LanXGetStatus = Z21_LanX 7 0x21 @ [0x24, 0x05]"

definition LanXSetTrackPowerOff :: bytes where
  "LanXSetTrackPowerOff = Z21_LanX 7 0x21 @ [LAN_X_SET_TRACK_POWER_OFF, 0xA1]"

definition LanXSetTrackPowerOn :: bytes where
  "LanXSetTrackPowerOn = Z21_LanX 7 0x21 @ [LAN_X_SET_TRACK_POWER_ON, 0xA0]"

subsection \<open>Turnouts and accessories\<close>

text \<open>
  The low byte comes first here.  The header announces three bytes of data, so \<^verbatim>\<open>updateChecksum\<close>
  writes behind the last byte of the struct, and the checksum byte stays what it was, \<open>u\<close>.
\<close>

definition LanXGetTurnoutInfo :: "u16 \<Rightarrow> u8 \<Rightarrow> bytes" where
  "LanXGetTurnoutInfo address u =
    LanX_updateChecksum (Z21_LanX 8 LAN_X_TURNOUT_INFO @ [low8 (address - 1), high8 (address - 1), u])"

definition LanXGetTurnoutInfo_address :: "bytes \<Rightarrow> u16" where
  "LanXGetTurnoutInfo_address m = 1 + to16 (m ! 5) (m ! 6)"

definition LanXSetTurnout :: "u16 \<Rightarrow> bool \<Rightarrow> bool \<Rightarrow> bool \<Rightarrow> bytes" where
  "LanXSetTurnout address port activate queue =
    (let db2 = orFlag (orFlag (orFlag 0x80 0x20 queue) 0x08 activate) 0x01 port
     in LanX_updateChecksum (Z21_LanX 9 LAN_X_SET_TURNOUT @
          [high8 (address - 1), low8 (address - 1), db2, 0]))"

definition LanXSetTurnout_address :: "bytes \<Rightarrow> u16" where
  "LanXSetTurnout_address m = 1 + to16 (m ! 6) (m ! 5)"

text \<open>\<^verbatim>\<open>activate()\<close> tests the flag of \<^verbatim>\<open>queue()\<close>.\<close>

definition LanXSetTurnout_activate :: "bytes \<Rightarrow> bool" where
  "LanXSetTurnout_activate m = testFlag (m ! 7) 0x20"

definition LanXSetTurnout_queue :: "bytes \<Rightarrow> bool" where
  "LanXSetTurnout_queue m = testFlag (m ! 7) 0x20"

definition LanXSetTurnout_port :: "bytes \<Rightarrow> bool" where
  "LanXSetTurnout_port m = testFlag (m ! 7) 0x01"

text \<open>The integer \<^verbatim>\<open>address + 3\<close> of the two constructors, cut to 16 bits.\<close>

definition LanXSetExtAccessory_aspect :: "u16 \<Rightarrow> u8 \<Rightarrow> bytes" where
  "LanXSetExtAccessory_aspect address aspect =
    LanX_updateChecksum (Z21_LanX 10 LAN_X_SET_EXT_ACCESSORY @
      [high8 (address + 3), low8 (address + 3), aspect, 0x00, 0])"

definition LanXSetExtAccessory_dir :: "u16 \<Rightarrow> bool \<Rightarrow> u8 \<Rightarrow> bytes" where
  "LanXSetExtAccessory_dir address dir powerOnTime =
    LanX_updateChecksum (Z21_LanX 10 LAN_X_SET_EXT_ACCESSORY @
      [high8 (address + 3), low8 (address + 3), orFlag (powerOnTime AND 0x7F) 0x80 dir, 0x00, 0])"

text \<open>The reading of the address adds three too.\<close>

definition LanXExtAccessory_address :: "bytes \<Rightarrow> u16" where
  "LanXExtAccessory_address m = to16 (m ! 6) (m ! 5) + 3"

definition LanXExtAccessory_aspect :: "bytes \<Rightarrow> u8" where
  "LanXExtAccessory_aspect m = m ! 7"

definition LanXGetExtAccessoryInfo :: "u16 \<Rightarrow> u8 \<Rightarrow> bytes" where
  "LanXGetExtAccessoryInfo address u =
    Z21_LanX 9 LAN_X_EXT_ACCESSORY_INFO @ [high8 (address + 3), low8 (address + 3), 0x00, u]"

definition LanXExtAccessoryInfo :: "u16 \<Rightarrow> u8 \<Rightarrow> bool \<Rightarrow> bytes" where
  "LanXExtAccessoryInfo address aspect isUnknown =
    LanX_updateChecksum (Z21_LanX 10 LAN_X_EXT_ACCESSORY_INFO @
      [high8 (address + 3), low8 (address + 3), aspect, if isUnknown then 0xFF else 0x00, 0])"

definition LanXExtAccessoryInfo_dir :: "u16 \<Rightarrow> bool \<Rightarrow> u8 \<Rightarrow> bytes" where
  "LanXExtAccessoryInfo_dir address dir powerOnTime =
    LanX_updateChecksum (Z21_LanX 10 LAN_X_EXT_ACCESSORY_INFO @
      [high8 (address + 3), low8 (address + 3), orFlag (powerOnTime AND 0x7F) 0x80 dir, 0x00, 0])"

definition LanXExtAccessoryInfo_isDataValid :: "bytes \<Rightarrow> bool" where
  "LanXExtAccessoryInfo_isDataValid m = (m ! 8 = 0x00)"

definition LanXExtAccessoryInfo_direction :: "bytes \<Rightarrow> bool" where
  "LanXExtAccessoryInfo_direction m = testFlag (m ! 7) 0x80"

text \<open>Declared \<^verbatim>\<open>bool\<close>: the time is lost.\<close>

definition LanXExtAccessoryInfo_powerOnTime :: "bytes \<Rightarrow> bool" where
  "LanXExtAccessoryInfo_powerOnTime m = testFlag (m ! 7) 0x7F"

definition LanXSetStop :: bytes where "LanXSetStop = Z21_LanX 6 LAN_X_SET_STOP @ [0x80]"

subsection \<open>Locomotives\<close>

text \<open>The address of a locomotive, its high byte at offset \<open>i\<close>.\<close>

definition Z21_locoAddress :: "nat \<Rightarrow> bytes \<Rightarrow> u16" where
  "Z21_locoAddress i m = push_bit 8 (ucast (m ! i AND 0x3F)) OR ucast (m ! (i + 1))"

definition Z21_isLongAddress :: "nat \<Rightarrow> bytes \<Rightarrow> bool" where
  "Z21_isLongAddress i m = (m ! i AND 0xC0 = 0xC0)"

definition Z21_locoAddressBytes :: "u16 \<Rightarrow> bool \<Rightarrow> bytes" where
  "Z21_locoAddressBytes address longAddress =
    [if longAddress then ucast (0xC0 OR drop_bit 8 address) else 0x00,
     if longAddress then ucast (address AND 0xFF) else ucast (address AND 0x7F)]"

definition Z21_setLocoAddress :: "nat \<Rightarrow> u16 \<Rightarrow> bool \<Rightarrow> bytes \<Rightarrow> bytes" where
  "Z21_setLocoAddress i address longAddress m =
    m[i := Z21_locoAddressBytes address longAddress ! 0, i + 1 := Z21_locoAddressBytes address longAddress ! 1]"

definition LanXGetLocoInfo :: "u16 \<Rightarrow> bool \<Rightarrow> bytes" where
  "LanXGetLocoInfo address longAddress =
    LanX_updateChecksum
      (Z21_setLocoAddress 6 address longAddress (Z21_LanX 9 LAN_X_GET_LOCO_INFO @ [0xF0, 0, 0, 0]))"

text \<open>\<^verbatim>\<open>LanXSetLocoDrive\<close>: \<^verbatim>\<open>db0\<close>, the address and the checksum (\<open>u\<close>) are not initialised.\<close>

definition LanXSetLocoDrive :: "u8 \<times> u8 \<times> u8 \<times> u8 \<Rightarrow> bytes" where
  "LanXSetLocoDrive u =
    (case u of (db0, high, low, c) \<Rightarrow> Z21_LanX 10 LAN_X_SET_LOCO @ [db0, high, low, 0, c])"

definition LanXSetLocoDrive_setSpeedSteps :: "u8 \<Rightarrow> bytes \<Rightarrow> bytes" where
  "LanXSetLocoDrive_setSpeedSteps steps m =
    m[5 := if steps = 14 then 0x10 else if steps = 28 then 0x12 else 0x13]"

definition LanXSetLocoDrive_speedSteps :: "bytes \<Rightarrow> u8" where
  "LanXSetLocoDrive_speedSteps m =
    (let s = m ! 5 AND 0x0F in if s = 0 then 14 else if s = 2 then 28 else if s = 3 then 126 else 0)"

definition LanXSetLocoDrive_direction :: "bytes \<Rightarrow> Direction" where
  "LanXSetLocoDrive_direction m = Z21_getDirection (m ! 8)"

definition LanXSetLocoDrive_setDirection :: "Direction \<Rightarrow> bytes \<Rightarrow> bytes" where
  "LanXSetLocoDrive_setDirection v m = m[8 := Z21_setDirection v (m ! 8)]"

definition LanXSetLocoDrive_isEmergencyStop :: "bytes \<Rightarrow> bool" where
  "LanXSetLocoDrive_isEmergencyStop m = Z21_isEmergencyStop (m ! 8) (LanXSetLocoDrive_speedSteps m)"

definition LanXSetLocoDrive_setEmergencyStop :: "bytes \<Rightarrow> bytes" where
  "LanXSetLocoDrive_setEmergencyStop m = m[8 := Z21_setEmergencyStop (m ! 8)]"

definition LanXSetLocoDrive_speedStep :: "bytes \<Rightarrow> u8" where
  "LanXSetLocoDrive_speedStep m = Z21_getSpeedStep (m ! 8) (LanXSetLocoDrive_speedSteps m)"

definition LanXSetLocoDrive_setSpeedStep :: "u8 \<Rightarrow> bytes \<Rightarrow> bytes" where
  "LanXSetLocoDrive_setSpeedStep v m =
    m[8 := Z21_setSpeedStep (LanXSetLocoDrive_speedSteps m) v (m ! 8)]"

datatype Z21_SwitchType = SwitchOff | SwitchOn | SwitchToggle | SwitchInvalid

fun Z21_switchTypeCode :: "Z21_SwitchType \<Rightarrow> u8" where
  "Z21_switchTypeCode SwitchOff = 0"
| "Z21_switchTypeCode SwitchOn = 1"
| "Z21_switchTypeCode SwitchToggle = 2"
| "Z21_switchTypeCode SwitchInvalid = 3"

definition LanXSetLocoFunction_switchType :: "bytes \<Rightarrow> Z21_SwitchType" where
  "LanXSetLocoFunction_switchType m =
    (let t = drop_bit 6 (m ! 8)
     in if t = 0 then SwitchOff else if t = 1 then SwitchOn else if t = 2 then SwitchToggle else SwitchInvalid)"

definition LanXSetLocoFunction_setSwitchType :: "Z21_SwitchType \<Rightarrow> bytes \<Rightarrow> bytes" where
  "LanXSetLocoFunction_setSwitchType v m = m[8 := (m ! 8 AND 0x3F) OR push_bit 6 (Z21_switchTypeCode v)]"

definition LanXSetLocoFunction_functionIndex :: "bytes \<Rightarrow> u8" where
  "LanXSetLocoFunction_functionIndex m = m ! 8 AND 0x3F"

definition LanXSetLocoFunction_setFunctionIndex :: "u8 \<Rightarrow> bytes \<Rightarrow> bytes" where
  "LanXSetLocoFunction_setFunctionIndex v m = m[8 := (m ! 8 AND 0xC0) OR (v AND 0x3F)]"

definition LanXSetLocoFunction :: "u16 \<Rightarrow> bool \<Rightarrow> u8 \<Rightarrow> Z21_SwitchType \<Rightarrow> bytes" where
  "LanXSetLocoFunction address longAddress functionIndex v =
    LanX_updateChecksum
      (LanXSetLocoFunction_setSwitchType v
        (LanXSetLocoFunction_setFunctionIndex functionIndex
          (Z21_setLocoAddress 6 address longAddress (Z21_LanX 10 LAN_X_SET_LOCO @ [0xF8, 0, 0, 0, 0]))))"

subsection \<open>Flags, modes, buses\<close>

definition LanSetBroadcastFlags :: "u32 \<Rightarrow> bytes" where
  "LanSetBroadcastFlags broadcastFlags = Z21_Message 8 LAN_SET_BROADCASTFLAGS @ Z21_toLE32 broadcastFlags"

definition Z21_broadcastFlags :: "bytes \<Rightarrow> u32" where
  "Z21_broadcastFlags m = Z21_le32 4 m"

definition LanGetBroadcastFlags :: bytes where
  "LanGetBroadcastFlags = Z21_Message 4 LAN_GET_BROADCASTFLAGS"

definition LanGetLocoMode :: "u16 \<Rightarrow> bytes" where
  "LanGetLocoMode address = Z21_Message 6 LAN_GET_LOCO_MODE @ Z21_toBE16 address"

definition LanLocoMode_address :: "bytes \<Rightarrow> u16" where
  "LanLocoMode_address m = Z21_be16 4 m"

datatype Z21_LocoMode = ModeDCC | ModeMotorola

fun Z21_locoModeCode :: "Z21_LocoMode \<Rightarrow> u8" where
  "Z21_locoModeCode ModeDCC = 0"
| "Z21_locoModeCode ModeMotorola = 1"

definition LanSetLocoMode :: "u16 \<Rightarrow> Z21_LocoMode \<Rightarrow> bytes" where
  "LanSetLocoMode address md = Z21_Message 7 LAN_SET_LOCO_MODE @ Z21_toBE16 address @ [Z21_locoModeCode md]"

definition LanRMBusGetData :: "u8 \<Rightarrow> bytes" where
  "LanRMBusGetData groupIndex = Z21_Message 5 LAN_RMBUS_GETDATA @ [groupIndex]"

definition LanSystemStateGetData :: bytes where
  "LanSystemStateGetData = Z21_Message 4 LAN_SYSTEMSTATE_GETDATA"

text \<open>\<^verbatim>\<open>LanLocoNetDetector\<close>: the type at offset 4, the feedback address at 5.\<close>

abbreviation (input) "OccupancyDetectorType \<equiv> (0x01 :: u8)"
abbreviation (input) "TransponderEntersBlock \<equiv> (0x02 :: u8)"
abbreviation (input) "TransponderExitsBlock \<equiv> (0x03 :: u8)"
abbreviation (input) "StationaryInterrogateRequest \<equiv> (0x80 :: u8)"

definition LanLocoNetDetector :: "u16 \<Rightarrow> u8 \<Rightarrow> u16 \<Rightarrow> bytes" where
  "LanLocoNetDetector dataLen type feedbackAddress =
    Z21_Message dataLen LAN_LOCONET_DETECTOR @ type # Z21_toLE16 feedbackAddress"

abbreviation (input) LanLocoNetDetector_type :: "bytes \<Rightarrow> u8" where
  "LanLocoNetDetector_type m \<equiv> m ! 4"

definition LanLocoNetDetector_feedbackAddress :: "bytes \<Rightarrow> u16" where
  "LanLocoNetDetector_feedbackAddress m = Z21_le16 5 m"

definition LanLocoNetDetectorOccupancyDetector :: "u16 \<Rightarrow> bool \<Rightarrow> bytes" where
  "LanLocoNetDetectorOccupancyDetector feedbackAddress occupied =
    LanLocoNetDetector 8 OccupancyDetectorType feedbackAddress @ [if occupied then 1 else 0]"

definition LanLocoNetDetector_isOccupied :: "bytes \<Rightarrow> bool" where
  "LanLocoNetDetector_isOccupied m = (m ! 7 \<noteq> 0)"

text \<open>The constructor has the two bytes of the address the other way round than the accessor.\<close>

definition LanLocoNetDetectorTransponder :: "u8 \<Rightarrow> u16 \<Rightarrow> u16 \<Rightarrow> bytes" where
  "LanLocoNetDetectorTransponder type feedbackAddress transponderAddress =
    LanLocoNetDetector 9 type feedbackAddress @
      [ucast (drop_bit 8 transponderAddress), ucast (transponderAddress AND 0xFF)]"

definition LanLocoNetDetector_transponderAddress :: "bytes \<Rightarrow> u16" where
  "LanLocoNetDetector_transponderAddress m = push_bit 8 (ucast (m ! 8)) OR ucast (m ! 7)"

section \<open>Messages of the command station\<close>

definition LanGetSerialNumberReply :: "u32 \<Rightarrow> bytes" where
  "LanGetSerialNumberReply serialNumber = Z21_Message 8 LAN_GET_SERIAL_NUMBER @ Z21_toLE32 serialNumber"

definition LanGetSerialNumberReply_serialNumber :: "bytes \<Rightarrow> u32" where
  "LanGetSerialNumberReply_serialNumber m = Z21_le32 4 m"

definition LanXGetVersionReply :: "u8 \<Rightarrow> u8 \<Rightarrow> bytes" where
  "LanXGetVersionReply xBusVersion commandStationId =
    LanX_updateChecksum (Z21_LanX 9 LAN_X_GET_VERSION_REPLY @ [0x21, Z21_toBCD xBusVersion, commandStationId, 0])"

definition LanXGetVersionReply_xBusVersion :: "bytes \<Rightarrow> u8" where
  "LanXGetVersionReply_xBusVersion m = Z21_fromBCD (m ! 6)"

definition LanXGetFirmwareVersionReply :: "u8 \<Rightarrow> u8 \<Rightarrow> bytes" where
  "LanXGetFirmwareVersionReply major minor =
    LanX_updateChecksum
      (Z21_LanX 9 LAN_X_GET_FIRMWARE_VERSION_REPLY @ [0x0A, Z21_toBCD major, Z21_toBCD minor, 0])"

definition LanXGetFirmwareVersionReply_versionMajor :: "bytes \<Rightarrow> u8" where
  "LanXGetFirmwareVersionReply_versionMajor m = Z21_fromBCD (m ! 6)"

definition LanXGetFirmwareVersionReply_versionMinor :: "bytes \<Rightarrow> u8" where
  "LanXGetFirmwareVersionReply_versionMinor m = Z21_fromBCD (m ! 7)"

definition LanGetHardwareInfoReply :: "u32 \<Rightarrow> u8 \<Rightarrow> u8 \<Rightarrow> bytes" where
  "LanGetHardwareInfoReply hardwareType major minor =
    Z21_Message 12 LAN_GET_HWINFO @ Z21_toLE32 hardwareType @
      Z21_toLE32 (push_bit 8 (ucast (Z21_toBCD major)) OR ucast (Z21_toBCD minor))"

definition LanGetHardwareInfoReply_hardwareType :: "bytes \<Rightarrow> u32" where
  "LanGetHardwareInfoReply_hardwareType m = Z21_le32 4 m"

definition LanGetHardwareInfoReply_versionMajor :: "bytes \<Rightarrow> u8" where
  "LanGetHardwareInfoReply_versionMajor m = Z21_fromBCD (ucast (drop_bit 8 (Z21_le32 8 m) AND 0xFF))"

definition LanGetHardwareInfoReply_versionMinor :: "bytes \<Rightarrow> u8" where
  "LanGetHardwareInfoReply_versionMinor m = Z21_fromBCD (ucast (Z21_le32 8 m AND 0xFF))"

definition LanXTurnoutInfo :: "u16 \<Rightarrow> bool \<Rightarrow> bool \<Rightarrow> bytes" where
  "LanXTurnoutInfo address port isUnknown =
    LanX_updateChecksum (Z21_LanX 9 LAN_X_TURNOUT_INFO @
      [high8 (address - 1), low8 (address - 1), if isUnknown then 0 else if port then 0x02 else 0x01, 0])"

definition LanXTurnoutInfo_address :: "bytes \<Rightarrow> u16" where
  "LanXTurnoutInfo_address m = 1 + to16 (m ! 6) (m ! 5)"

definition LanXTurnoutInfo_positionUnknown :: "bytes \<Rightarrow> bool" where
  "LanXTurnoutInfo_positionUnknown m = (m ! 7 = 0)"

definition LanXTurnoutInfo_state :: "bytes \<Rightarrow> bool" where
  "LanXTurnoutInfo_state m = (m ! 7 = 0x02)"

definition LanXBCTrackPowerOff :: bytes where
  "LanXBCTrackPowerOff = Z21_LanX 7 LAN_X_BC @ [LAN_X_BC_TRACK_POWER_OFF, 0x61]"

definition LanXBCTrackPowerOn :: bytes where
  "LanXBCTrackPowerOn = Z21_LanX 7 LAN_X_BC @ [LAN_X_BC_TRACK_POWER_ON, 0x60]"

definition LanXBCTrackShortCircuit :: bytes where
  "LanXBCTrackShortCircuit = Z21_LanX 7 LAN_X_BC @ [LAN_X_BC_TRACK_SHORT_CIRCUIT, 0x69]"

definition LanXUnknownCommand :: bytes where
  "LanXUnknownCommand = Z21_LanX 7 LAN_X_BC @ [LAN_X_UNKNOWN_COMMAND, LAN_X_BC XOR LAN_X_UNKNOWN_COMMAND]"

text \<open>The constructor leaves the checksum (\<open>u\<close>); who sends it sets \<^verbatim>\<open>db1\<close> and updates the checksum.\<close>

definition LanXStatusChanged :: "u8 \<Rightarrow> u8 \<Rightarrow> bytes" where
  "LanXStatusChanged db1 u = Z21_LanX 8 LAN_X_STATUS_CHANGED @ [0x22, db1, u]"

definition LanXBCStopped :: bytes where "LanXBCStopped = Z21_LanX 7 LAN_X_BC_STOPPED @ [0x00, 0x81]"

subsection \<open>Information on a locomotive\<close>

text \<open>Address at 5, 6; \<^verbatim>\<open>db2\<close> at 7, speed at 8, \<^verbatim>\<open>db4\<close> at 9, functions at 10 to 13, checksum at 14.\<close>

definition LanXLocoInfo_init :: bytes where
  "LanXLocoInfo_init = Z21_LanX 15 LAN_X_LOCO_INFO @ replicate 10 0"

definition LanXLocoInfo_isBusy :: "bytes \<Rightarrow> bool" where
  "LanXLocoInfo_isBusy m = testFlag (m ! 7) 0x08"

definition LanXLocoInfo_setBusy :: "bool \<Rightarrow> bytes \<Rightarrow> bytes" where
  "LanXLocoInfo_setBusy v m = m[7 := setFlag (m ! 7) 0x08 v]"

definition LanXLocoInfo_speedSteps :: "bytes \<Rightarrow> u8" where
  "LanXLocoInfo_speedSteps m =
    (let s = m ! 7 AND 0x07 in if s = 0 then 14 else if s = 2 then 28 else if s = 4 then 126 else 0)"

definition LanXLocoInfo_setSpeedSteps :: "u8 \<Rightarrow> bytes \<Rightarrow> bytes" where
  "LanXLocoInfo_setSpeedSteps v m =
    m[7 := (m ! 7 AND NOT 0x07) OR (if v = 14 then 0x00 else if v = 28 then 0x02 else 0x04)]"

definition LanXLocoInfo_direction :: "bytes \<Rightarrow> Direction" where
  "LanXLocoInfo_direction m = Z21_getDirection (m ! 8)"

definition LanXLocoInfo_setDirection :: "Direction \<Rightarrow> bytes \<Rightarrow> bytes" where
  "LanXLocoInfo_setDirection v m = m[8 := Z21_setDirection v (m ! 8)]"

definition LanXLocoInfo_isEmergencyStop :: "bytes \<Rightarrow> bool" where
  "LanXLocoInfo_isEmergencyStop m = Z21_isEmergencyStop (m ! 8) (LanXLocoInfo_speedSteps m)"

definition LanXLocoInfo_setEmergencyStop :: "bytes \<Rightarrow> bytes" where
  "LanXLocoInfo_setEmergencyStop m = m[8 := Z21_setEmergencyStop (m ! 8)]"

definition LanXLocoInfo_speedStep :: "bytes \<Rightarrow> u8" where
  "LanXLocoInfo_speedStep m = Z21_getSpeedStep (m ! 8) (LanXLocoInfo_speedSteps m)"

definition LanXLocoInfo_setSpeedStep :: "u8 \<Rightarrow> bytes \<Rightarrow> bytes" where
  "LanXLocoInfo_setSpeedStep v m = m[8 := Z21_setSpeedStep (LanXLocoInfo_speedSteps m) v (m ! 8)]"

definition LanXLocoInfo_supportsF29F31 :: "bytes \<Rightarrow> bool" where
  "LanXLocoInfo_supportsF29F31 m = (15 \<le> Z21_dataLen m)"

definition LanXLocoInfo_functionIndexMax :: "bytes \<Rightarrow> nat" where
  "LanXLocoInfo_functionIndexMax m = (if LanXLocoInfo_supportsF29F31 m then 31 else 28)"

text \<open>Byte and flag of a function.\<close>

definition LanXLocoInfo_functionAt :: "nat \<Rightarrow> bytes \<Rightarrow> (nat \<times> u8) option" where
  "LanXLocoInfo_functionAt index m =
    (if index = 0 then Some (9, 0x10)
     else if index \<le> 4 then Some (9, push_bit (index - 1) 1)
     else if index \<le> 12 then Some (10, push_bit (index - 5) 1)
     else if index \<le> 20 then Some (11, push_bit (index - 13) 1)
     else if index \<le> 28 then Some (12, push_bit (index - 21) 1)
     else if index \<le> 31 \<and> LanXLocoInfo_supportsF29F31 m then Some (13, push_bit (index - 29) 1)
     else None)"

definition LanXLocoInfo_getFunction :: "nat \<Rightarrow> bytes \<Rightarrow> bool" where
  "LanXLocoInfo_getFunction index m =
    (case LanXLocoInfo_functionAt index m of None \<Rightarrow> False | Some (i, flag) \<Rightarrow> testFlag (m ! i) flag)"

definition LanXLocoInfo_setFunction :: "nat \<Rightarrow> bool \<Rightarrow> bytes \<Rightarrow> bytes" where
  "LanXLocoInfo_setFunction index v m =
    (case LanXLocoInfo_functionAt index m of None \<Rightarrow> m | Some (i, flag) \<Rightarrow> m[i := setFlag (m ! i) flag v])"

definition LanXLocoInfo_updateChecksum :: "bytes \<Rightarrow> bytes" where
  "LanXLocoInfo_updateChecksum m = LanX_updateChecksumLen (unat (Z21_dataLen m) - 6) m"

text \<open>
  \<^verbatim>\<open>LanXLocoInfo(const Decoder&)\<close>: address, whether it is long, speed steps, direction, emergency
  stop, the speed step of the throttle (for the speed steps the message has), function values.
\<close>

definition LanXLocoInfo ::
  "u16 \<Rightarrow> bool \<Rightarrow> u8 \<Rightarrow> Direction \<Rightarrow> bool \<Rightarrow> (u8 \<Rightarrow> u8) \<Rightarrow> (nat \<times> bool) list \<Rightarrow> bytes" where
  "LanXLocoInfo address longAddress speedSteps direction emergencyStop throttleToSpeedStep functions =
    (let m = LanXLocoInfo_setDirection direction (LanXLocoInfo_setSpeedSteps speedSteps
               (Z21_setLocoAddress 5 address longAddress LanXLocoInfo_init));
         m = (if emergencyStop then LanXLocoInfo_setEmergencyStop m
              else LanXLocoInfo_setSpeedStep (throttleToSpeedStep (LanXLocoInfo_speedSteps m)) m)
     in LanXLocoInfo_updateChecksum (fold (\<lambda>(n, v). LanXLocoInfo_setFunction n v) functions m))"

subsection \<open>Flags, modes, buses\<close>

definition LanGetBroadcastFlagsReply :: "u32 \<Rightarrow> bytes" where
  "LanGetBroadcastFlagsReply broadcastFlags =
    Z21_Message 8 LAN_GET_BROADCASTFLAGS @ Z21_toLE32 broadcastFlags"

definition LanGetLocoModeReply :: "u16 \<Rightarrow> Z21_LocoMode \<Rightarrow> bytes" where
  "LanGetLocoModeReply address md =
    Z21_Message 7 LAN_GET_LOCO_MODE @ Z21_toBE16 address @ [Z21_locoModeCode md]"

text \<open>\<^verbatim>\<open>LanRMBusDataChanged\<close>: group at 4, ten bytes of feedback; the constructor leaves these (\<open>u\<close>).\<close>

definition LanRMBusDataChanged :: "u8 \<Rightarrow> bytes \<Rightarrow> bytes" where
  "LanRMBusDataChanged groupIndex u = Z21_Message 15 LAN_RMBUS_DATACHANGED @ groupIndex # take 10 u"

abbreviation (input) LanRMBusDataChanged_groupIndex :: "bytes \<Rightarrow> u8" where
  "LanRMBusDataChanged_groupIndex m \<equiv> m ! 4"

definition LanRMBusDataChanged_getFeedbackStatus :: "nat \<Rightarrow> bytes \<Rightarrow> bool" where
  "LanRMBusDataChanged_getFeedbackStatus index m = testFlag (m ! (5 + index div 8)) (push_bit (index mod 8) 1)"

definition LanRMBusDataChanged_setFeedbackStatus :: "nat \<Rightarrow> bool \<Rightarrow> bytes \<Rightarrow> bytes" where
  "LanRMBusDataChanged_setFeedbackStatus index v m =
    m[5 + index div 8 := setFlag (m ! (5 + index div 8)) (push_bit (index mod 8) 1) v]"

definition LanSystemStateDataChanged :: bytes where
  "LanSystemStateDataChanged = Z21_Message 20 LAN_SYSTEMSTATE_DATACHANGED @ replicate 16 0"

definition LanSystemState_centralState :: "bytes \<Rightarrow> u8" where
  "LanSystemState_centralState m = m ! 16"

definition LanSystemState_setCentralState :: "u8 \<Rightarrow> bytes \<Rightarrow> bytes" where
  "LanSystemState_setCentralState v m = m[16 := v]"

end
