(* ===== verification/Z21_ClientKernel.thy ===== *)
theory Z21_ClientKernel
  imports Z21_Messages Throttles
begin

text \<open>
  The client's kernel, \<^verbatim>\<open>z21/kernel.cpp\<close>, \<^verbatim>\<open>clientkernel.hpp\<close> and \<^verbatim>\<open>clientkernel.cpp\<close>.  Two threads
  run it: the kernel's thread receives and sends, the event loop's thread keeps the power state and
  the decoders.  What the one posts for the other waits in a queue of the state: \<open>z_posted\<close> for the
  event loop, \<open>z_tasks\<close> for the kernel's thread; what the event loop tells the rest of the program
  is in \<open>z_calls\<close>.  The clock, in milliseconds, is an argument where it is read.
\<close>

section \<open>State\<close>

datatype Z21_Trend = Ascending | Descending

record Z21_LocoCache =
  lc_dccAddress :: u16
  lc_isEStop :: bool
  lc_speedStep :: u8
  lc_speedSteps :: u8
  lc_lastReceivedSpeedStep :: u8
  lc_speedTrend :: Z21_Trend
  lc_speedTrendExplicitlySet :: bool
  lc_direction :: Direction
  lc_lastSetTime :: int

datatype Z21_InputChannel = ChRBus | ChLocoNet

text \<open>Closures for the event loop; \<open>ZcLocoInfo\<close>: address, stop, speed, steps, direction, functions, changes.\<close>

datatype Z21_closure =
    ZcRX bytes
  | ZcTX bytes
  | ZcUpdateOutput OutputChannel u16 OutputValue
  | ZcTrackPowerOff
  | ZcTrackPowerOn
  | ZcStopped
  | ZcSystemState TriState TriState
  | ZcLocoInfo u16 bool u8 u8 Direction "bool list" u8
  | ZcSerialNumber u32
  | ZcHardwareInfo u32 u8 u8
  | ZcUpdateInput Z21_InputChannel nat TriState
  | ZcStarted
  | ZcStartFailed

datatype Z21_call =
    ZvLogRX bytes
  | ZvLogTX bytes
  | ZvOutput OutputChannel u16 OutputValue
  | ZvInput Z21_InputChannel nat TriState
  | ZvTrackPower bool bool
  | ZvSerialNumber u32
  | ZvHardwareInfo u32 u8 u8
  | ZvBroadcastFlagMismatch
  | ZvDCCextNotSupported
  | ZvStarted
  | ZvError

text \<open>Closures for the kernel's thread; \<open>ZtDecoderChanged\<close> has the captured values in order.\<close>

datatype Z21_task =
    ZtSend bytes
  | ZtDecoderChanged u16 bool Direction rat u8 bool u8 nat TriState
  | ZtSimulateInput Z21_InputChannel nat SimulateInputAction
  | ZtSetDebugLogRXTX bool
  | ZtStart bool
  | ZtStop
  | ZtReceive bytes

record Z21_Client =
  z_simulation :: bool
  z_keepAliveTimer :: "nat option"
  z_purgeTimer :: bool
  z_broadcastFlags :: u32
  z_broadcastFlagsRetryCount :: nat
  z_serialNumber :: u32
  z_onSerialNumberChanged :: bool
  z_hardwareType :: u32
  z_firmwareVersionMajor :: u8
  z_firmwareVersionMinor :: u8
  z_onHardwareInfoChanged :: bool
  z_trackPowerOn :: TriState
  z_emergencyStop :: TriState
  z_onTrackPowerChanged :: bool
  z_decoders :: "nat \<Rightarrow> Decoder"
  z_decoderList :: "nat list"
  z_locoCache :: "u16 \<Rightarrow> Z21_LocoCache option"
  z_isUpdatingDecoderFromKernel :: bool
  z_inputController :: bool
  z_rbusFeedbackStatus :: "nat \<Rightarrow> TriState"
  z_loconetFeedbackStatus :: "nat \<Rightarrow> TriState"
  z_overrun :: bool
  z_debugLogRXTX :: bool
  z_ioSend :: "(bytes \<times> bool) list \<Rightarrow> bytes \<Rightarrow> bool"
  z_wire :: "(bytes \<times> bool) list"
  z_posted :: "Z21_closure list"
  z_tasks :: "Z21_task list"
  z_calls :: "Z21_call list"

definition Z21_requiredBroadcastFlags :: u32 where
  "Z21_requiredBroadcastFlags = BF_PowerLocoTurnoutChanges OR BF_RBusChanges OR BF_SystemStatusChanges OR
     BF_AllLocoChanges OR BF_LocoNetDetector"

abbreviation (input) "maxBroadcastFlagsRetryCount \<equiv> (10 :: nat)"
abbreviation (input) "keepAliveInterval \<equiv> (15 :: nat)"
abbreviation (input) "purgeInactiveDecoderInternal \<equiv> (5 * 60 :: int)"
abbreviation (input) "rbusAddressMin \<equiv> (1 :: nat)"
abbreviation (input) "rbusAddressMax \<equiv> (1000 :: nat)"
abbreviation (input) "loconetAddressMin \<equiv> (1 :: nat)"
abbreviation (input) "loconetAddressMax \<equiv> (4096 :: nat)"

definition Z21_eventLoopCall :: "Z21_closure \<Rightarrow> Z21_Client \<Rightarrow> Z21_Client" where
  "Z21_eventLoopCall c k = k\<lparr>z_posted := z_posted k @ [c]\<rparr>"

definition Z21_post :: "Z21_task \<Rightarrow> Z21_Client \<Rightarrow> Z21_Client" where
  "Z21_post t k = k\<lparr>z_tasks := z_tasks k @ [t]\<rparr>"

definition Z21_call :: "Z21_call \<Rightarrow> Z21_Client \<Rightarrow> Z21_Client" where
  "Z21_call c k = k\<lparr>z_calls := z_calls k @ [c]\<rparr>"

definition Z21_send :: "bytes \<Rightarrow> Z21_Client \<Rightarrow> Z21_Client" where
  "Z21_send message k =
    (let ok = z_ioSend k (z_wire k) message;
         k = k\<lparr>z_wire := z_wire k @ [(message, ok)]\<rparr>
     in if ok \<and> z_debugLogRXTX k then Z21_eventLoopCall (ZcTX message) k else k)"

section \<open>Cache of locomotives\<close>

definition Z21_LocoCache_init :: "u16 \<Rightarrow> Z21_LocoCache" where
  "Z21_LocoCache_init dccAddr =
    \<lparr>lc_dccAddress = dccAddr, lc_isEStop = False, lc_speedStep = 0, lc_speedSteps = 0,
     lc_lastReceivedSpeedStep = 0, lc_speedTrend = Ascending, lc_speedTrendExplicitlySet = False,
     lc_direction = DirUnknown, lc_lastSetTime = 0\<rparr>"

text \<open>The item, which is made when it is missing.\<close>

definition Z21_getLocoCache :: "u16 \<Rightarrow> Z21_Client \<Rightarrow> Z21_LocoCache" where
  "Z21_getLocoCache dccAddr k =
    (case z_locoCache k dccAddr of Some c \<Rightarrow> c | None \<Rightarrow> Z21_LocoCache_init dccAddr)"

definition Z21_setLocoCache :: "u16 \<Rightarrow> Z21_LocoCache \<Rightarrow> Z21_Client \<Rightarrow> Z21_Client" where
  "Z21_setLocoCache dccAddr c k = k\<lparr>z_locoCache := (z_locoCache k)(dccAddr := Some c)\<rparr>"

text \<open>
  \<^verbatim>\<open>float(step) / float(steps) * 126.0\<close> as an \<^verbatim>\<open>int\<close>: the quotient is rounded to single precision, its
  product with 126 is exact in double precision.  With no steps it is not a number, whose conversion
  is undefined: \<open>nan\<close> is what comes out.
\<close>

definition Z21_rescale :: "int \<Rightarrow> u8 \<Rightarrow> u8 \<Rightarrow> int" where
  "Z21_rescale nan step steps =
    (if steps = 0 then nan else \<lfloor>fl32 (of_nat (unat step) / of_nat (unat steps)) * 126\<rfloor>)"

definition Z21_rescaled :: "int \<Rightarrow> u8 \<Rightarrow> u8 \<Rightarrow> int" where
  "Z21_rescaled nan step steps = (if steps \<noteq> 126 then Z21_rescale nan step steps else uint step)"

definition Z21_currentSpeedStep :: "int \<Rightarrow> bytes \<Rightarrow> Z21_LocoCache \<Rightarrow> int" where
  "Z21_currentSpeedStep nan m c =
    (let s = Z21_rescaled nan (LanXLocoInfo_speedStep m) (LanXLocoInfo_speedSteps m)
     in if LanXLocoInfo_speedSteps m \<noteq> 126 \<and> \<bar>s - uint (lc_lastReceivedSpeedStep c)\<bar> < 5
        then uint (lc_lastReceivedSpeedStep c) else s)"

text \<open>The trend, unless it was set by a command since the last message.\<close>

definition Z21_receivedTrend :: "int \<Rightarrow> Z21_LocoCache \<Rightarrow> Z21_LocoCache" where
  "Z21_receivedTrend currentSpeedStep c =
    (let c = (if \<not> lc_speedTrendExplicitlySet c then
                c\<lparr>lc_speedTrend :=
                  (if uint (lc_lastReceivedSpeedStep c) \<le> currentSpeedStep then Ascending else Descending)\<rparr>
              else c)
     in c\<lparr>lc_speedTrendExplicitlySet := False\<rparr>)"

definition Z21_maybeOldFeedback :: "int \<Rightarrow> int \<Rightarrow> Z21_LocoCache \<Rightarrow> bool" where
  "Z21_maybeOldFeedback currentSpeedStep targetSpeedStep c \<longleftrightarrow>
    lc_speedTrend c = Ascending \<and> currentSpeedStep \<le> targetSpeedStep \<or>
    lc_speedTrend c = Descending \<and> currentSpeedStep \<ge> targetSpeedStep"

definition Z21_receivedSpeed ::
  "int \<Rightarrow> int \<Rightarrow> int \<Rightarrow> u8 \<Rightarrow> u8 \<Rightarrow> Z21_LocoCache \<Rightarrow> Z21_LocoCache \<times> u8" where
  "Z21_receivedSpeed now currentSpeedStep targetSpeedStep steps step c =
    (if steps \<noteq> lc_speedSteps c \<or> step \<noteq> lc_speedStep c then
       if now - lc_lastSetTime c > 1000 then
         (c\<lparr>lc_speedSteps := steps, lc_speedStep := step\<rparr>,
          (if steps \<noteq> lc_speedSteps c then chSpeedSteps else 0) OR
          (if step \<noteq> lc_speedStep c then chThrottle else 0))
       else if Z21_maybeOldFeedback currentSpeedStep targetSpeedStep c then (c, 0)
       else (c\<lparr>lc_speedSteps := steps, lc_speedStep := step\<rparr>, chThrottle OR chSpeedSteps)
     else (c, 0))"

definition Z21_receivedDirection :: "Direction \<Rightarrow> Z21_LocoCache \<times> u8 \<Rightarrow> Z21_LocoCache \<times> u8" where
  "Z21_receivedDirection direction r =
    (if direction \<noteq> lc_direction (fst r) then
       ((fst r)\<lparr>lc_direction := direction\<rparr>, snd r OR chDirection)
     else r)"

definition Z21_receivedEStop :: "bool \<Rightarrow> Z21_LocoCache \<times> u8 \<Rightarrow> Z21_LocoCache \<times> u8" where
  "Z21_receivedEStop isEStop r =
    (if isEStop \<or> isEStop \<noteq> lc_isEStop (fst r) then
       ((fst r)\<lparr>lc_isEStop := isEStop\<rparr>, snd r OR chEmergencyStop)
     else r)"

definition Z21_cacheReceived :: "int \<Rightarrow> int \<Rightarrow> bytes \<Rightarrow> Z21_LocoCache \<Rightarrow> Z21_LocoCache \<times> u8" where
  "Z21_cacheReceived nan now m c =
    (let currentSpeedStep = Z21_currentSpeedStep nan m c;
         targetSpeedStep = Z21_rescaled nan (lc_speedStep c) (lc_speedSteps c);
         c = Z21_receivedTrend currentSpeedStep c;
         r = Z21_receivedSpeed now currentSpeedStep targetSpeedStep (LanXLocoInfo_speedSteps m)
               (LanXLocoInfo_speedStep m) c;
         r = Z21_receivedDirection (LanXLocoInfo_direction m) r;
         r = Z21_receivedEStop (LanXLocoInfo_isEmergencyStop m) r
     in ((fst r)\<lparr>lc_lastReceivedSpeedStep := word_of_int currentSpeedStep\<rparr>, snd r))"

section \<open>Receiving\<close>

definition Z21_receive_LocoInfo :: "int \<Rightarrow> int \<Rightarrow> bytes \<Rightarrow> Z21_Client \<Rightarrow> Z21_Client" where
  "Z21_receive_LocoInfo nan now m k =
    (if 14 \<le> Z21_dataLen m \<and> Z21_dataLen m \<le> 21 then
       (let functionIndexMax = min (LanXLocoInfo_functionIndexMax m) 31;
            val = map (\<lambda>i. LanXLocoInfo_getFunction i m) [0..<functionIndexMax + 1];
            address = Z21_locoAddress 5 m;
            r = Z21_cacheReceived nan now m (Z21_getLocoCache address k);
            k = Z21_setLocoCache address (fst r) k
        in Z21_eventLoopCall (ZcLocoInfo address (LanXLocoInfo_isEmergencyStop m) (LanXLocoInfo_speedStep m)
             (LanXLocoInfo_speedSteps m) (LanXLocoInfo_direction m) val (snd r)) k)
     else k)"

definition Z21_receive_LanX :: "int \<Rightarrow> int \<Rightarrow> bytes \<Rightarrow> Z21_Client \<Rightarrow> Z21_Client" where
  "Z21_receive_LanX nan now m k =
    (if \<not> LanX_isChecksumValid m then k
     else if Z21_xheader m = LAN_X_TURNOUT_INFO then
       (if Z21_dataLen m = 9 then
          Z21_eventLoopCall (ZcUpdateOutput Ch_Accessory (LanXTurnoutInfo_address m)
            (OV_Pair (if LanXTurnoutInfo_positionUnknown m then OutUndefined
                      else if LanXTurnoutInfo_state m then OutSecond else OutFirst))) k
        else k)
     else if Z21_xheader m = LAN_X_EXT_ACCESSORY_INFO then
       (if Z21_dataLen m = 10 \<and> LanXExtAccessoryInfo_isDataValid m then
          Z21_eventLoopCall (ZcUpdateOutput Ch_DCCext (LanXExtAccessory_address m)
            (OV_uint8 (LanXExtAccessory_aspect m))) k
        else k)
     else if Z21_xheader m = LAN_X_BC then
       (if Z21_msgEq m LanXBCTrackPowerOff \<or> Z21_msgEq m LanXBCTrackShortCircuit then
          Z21_eventLoopCall ZcTrackPowerOff k
        else if Z21_msgEq m LanXBCTrackPowerOn then Z21_eventLoopCall ZcTrackPowerOn k
        else k)
     else if Z21_xheader m = LAN_X_BC_STOPPED then
       (if Z21_msgEq m LanXBCStopped then Z21_eventLoopCall ZcStopped k else k)
     else if Z21_xheader m = LAN_X_LOCO_INFO then Z21_receive_LocoInfo nan now m k
     else k)"

definition Z21_receive_SerialNumber :: "bytes \<Rightarrow> Z21_Client \<Rightarrow> Z21_Client" where
  "Z21_receive_SerialNumber m k =
    (if Z21_dataLen m = 8 \<and> z_serialNumber k \<noteq> LanGetSerialNumberReply_serialNumber m then
       (let k = k\<lparr>z_serialNumber := LanGetSerialNumberReply_serialNumber m\<rparr>
        in if z_onSerialNumberChanged k then Z21_eventLoopCall (ZcSerialNumber (z_serialNumber k)) k else k)
     else k)"

definition Z21_receive_HardwareInfo :: "bytes \<Rightarrow> Z21_Client \<Rightarrow> Z21_Client" where
  "Z21_receive_HardwareInfo m k =
    (if Z21_dataLen m = 12 \<and>
        (z_hardwareType k \<noteq> LanGetHardwareInfoReply_hardwareType m \<or>
         z_firmwareVersionMajor k \<noteq> LanGetHardwareInfoReply_versionMajor m \<or>
         z_firmwareVersionMinor k \<noteq> LanGetHardwareInfoReply_versionMinor m) then
       (let k = k\<lparr>z_hardwareType := LanGetHardwareInfoReply_hardwareType m,
                  z_firmwareVersionMajor := LanGetHardwareInfoReply_versionMajor m,
                  z_firmwareVersionMinor := LanGetHardwareInfoReply_versionMinor m\<rparr>
        in if z_onHardwareInfoChanged k then
             Z21_eventLoopCall (ZcHardwareInfo (z_hardwareType k) (z_firmwareVersionMajor k)
               (z_firmwareVersionMinor k)) k
           else k)
     else k)"

text \<open>
  The body of the loop over the 80 inputs of a group.  The arrays have 1000 and 4096 elements and
  nothing bounds the index: \<open>z_overrun\<close> records that an element beyond the end was accessed, which is
  undefined behaviour.  What the functions hold there stands for the memory behind the array, and no
  more is claimed of the kernel once the flag is set.
\<close>

definition Z21_rbusIndex :: "bytes \<Rightarrow> nat \<Rightarrow> nat" where
  "Z21_rbusIndex m i = unat (LanRMBusDataChanged_groupIndex m) * 80 + i"

definition Z21_receive_rbus :: "bytes \<Rightarrow> nat \<Rightarrow> Z21_Client \<Rightarrow> Z21_Client" where
  "Z21_receive_rbus m i k =
    (let index = Z21_rbusIndex m i; v = toTriState (LanRMBusDataChanged_getFeedbackStatus i m);
         k = k\<lparr>z_overrun := z_overrun k \<or> rbusAddressMax - rbusAddressMin + 1 \<le> index\<rparr>
     in if z_rbusFeedbackStatus k index \<noteq> v then
          Z21_eventLoopCall (ZcUpdateInput ChRBus (rbusAddressMin + index) v)
            (k\<lparr>z_rbusFeedbackStatus := (z_rbusFeedbackStatus k)(index := v)\<rparr>)
        else k)"

definition Z21_receive_RMBus :: "bytes \<Rightarrow> Z21_Client \<Rightarrow> Z21_Client" where
  "Z21_receive_RMBus m k =
    (if z_inputController k \<and> Z21_dataLen m = 15 then fold (Z21_receive_rbus m) [0..<80] k else k)"

definition Z21_receive_LocoNetDetector :: "bytes \<Rightarrow> Z21_Client \<Rightarrow> Z21_Client" where
  "Z21_receive_LocoNetDetector m k =
    (if z_inputController k \<and> 7 \<le> Z21_dataLen m \<and> LanLocoNetDetector_type m = OccupancyDetectorType then
       (let index = unat (LanLocoNetDetector_feedbackAddress m);
            v = toTriState (LanLocoNetDetector_isOccupied m);
            k = k\<lparr>z_overrun := z_overrun k \<or> loconetAddressMax - loconetAddressMin + 1 \<le> index\<rparr>
        in if z_loconetFeedbackStatus k index \<noteq> v then
             Z21_eventLoopCall (ZcUpdateInput ChLocoNet (loconetAddressMin + index) v)
               (k\<lparr>z_loconetFeedbackStatus := (z_loconetFeedbackStatus k)(index := v)\<rparr>)
           else k)
     else k)"

definition Z21_receive_BroadcastFlags :: "bytes \<Rightarrow> Z21_Client \<Rightarrow> Z21_Client" where
  "Z21_receive_BroadcastFlags m k =
    (if Z21_dataLen m = 8 then
       (let k = k\<lparr>z_broadcastFlags := Z21_broadcastFlags m\<rparr>
        in if z_broadcastFlags k \<noteq> Z21_requiredBroadcastFlags then Z21_call ZvBroadcastFlagMismatch k else k)
     else k)"

definition Z21_receive_SystemState :: "bytes \<Rightarrow> Z21_Client \<Rightarrow> Z21_Client" where
  "Z21_receive_SystemState m k =
    (if Z21_dataLen m = 20 then
       (let s = LanSystemState_centralState m;
            isStop = testFlag s CENTRALSTATE_EMERGENCYSTOP;
            isTrackPowerOn = (\<not> testFlag s CENTRALSTATE_TRACKVOLTAGEOFF \<and>
              \<not> testFlag s CENTRALSTATE_SHORTCIRCUIT)
        in Z21_eventLoopCall (ZcSystemState (toTriState isTrackPowerOn) (toTriState isStop)) k)
     else k)"

definition Z21_receive :: "int \<Rightarrow> int \<Rightarrow> bytes \<Rightarrow> Z21_Client \<Rightarrow> Z21_Client" where
  "Z21_receive nan now m k =
    (let k = (if z_debugLogRXTX k then Z21_eventLoopCall (ZcRX m) k else k); h = Z21_header m
     in if h = LAN_X then Z21_receive_LanX nan now m k
        else if h = LAN_GET_SERIAL_NUMBER then Z21_receive_SerialNumber m k
        else if h = LAN_GET_HWINFO then Z21_receive_HardwareInfo m k
        else if h = LAN_RMBUS_DATACHANGED then Z21_receive_RMBus m k
        else if h = LAN_LOCONET_DETECTOR then Z21_receive_LocoNetDetector m k
        else if h = LAN_GET_BROADCASTFLAGS then Z21_receive_BroadcastFlags m k
        else if h = LAN_SYSTEMSTATE_DATACHANGED then Z21_receive_SystemState m k
        else k)"

section \<open>A decoder changed\<close>

text \<open>On the event loop's thread.  A change that a message caused only resets the guard.\<close>

definition Z21_decoderChanged :: "Decoder \<Rightarrow> DecoderChange \<Rightarrow> Z21_Client \<Rightarrow> Z21_Client" where
  "Z21_decoderChanged d change k =
    (if z_isUpdatingDecoderFromKernel k then k\<lparr>z_isUpdatingDecoderFromKernel := False\<rparr>
     else Z21_post (ZtDecoderChanged (dec_address d) (dec_protocol d = DCCLong) (dec_direction d)
       (dec_throttle d) (dec_speedSteps d) (dec_emergencyStop d) (fst change) (snd change)
       (case Decoder_getFunction (of_nat (snd change)) d of
          None \<Rightarrow> TriUndefined | Some f \<Rightarrow> toTriState (df_value f))) k)"

text \<open>The command, before it is known whether it becomes an emergency stop.\<close>

definition Z21_driveCommand :: "u16 \<Rightarrow> bool \<Rightarrow> Direction \<Rightarrow> rat \<Rightarrow> u8 \<Rightarrow> bytes" where
  "Z21_driveCommand address longAddress direction throttle speedSteps =
    (let cmd = Z21_setLocoAddress 6 address longAddress (LanXSetLocoDrive (0, 0, 0, 0));
         cmd = LanXSetLocoDrive_setSpeedSteps speedSteps cmd;
         speedStep = throttleToSpeedStep throttle (unat (LanXSetLocoDrive_speedSteps cmd));
         cmd = LanXSetLocoDrive_setSpeedStep (word_of_int speedStep) cmd
     in LanXSetLocoDrive_setDirection direction cmd)"

definition Z21_cacheSet :: "int \<Rightarrow> int \<Rightarrow> bytes \<Rightarrow> Z21_LocoCache \<Rightarrow> Z21_LocoCache" where
  "Z21_cacheSet nan now cmd c =
    (let oldTargetSpeedStep = Z21_rescaled nan (lc_speedStep c) (lc_speedSteps c);
         newTargetSpeedStep = Z21_rescaled nan (LanXSetLocoDrive_speedStep cmd) (LanXSetLocoDrive_speedSteps cmd);
         c = c\<lparr>lc_speedSteps := LanXSetLocoDrive_speedSteps cmd, lc_speedStep := LanXSetLocoDrive_speedStep cmd,
               lc_direction := LanXSetLocoDrive_direction cmd, lc_isEStop := LanXSetLocoDrive_isEmergencyStop cmd\<rparr>;
         c = (if newTargetSpeedStep \<ge> oldTargetSpeedStep then
                c\<lparr>lc_speedTrend := Ascending, lc_lastReceivedSpeedStep :=
                  (if uint (lc_lastReceivedSpeedStep c) > newTargetSpeedStep then 0
                   else lc_lastReceivedSpeedStep c)\<rparr>
              else
                c\<lparr>lc_speedTrend := Descending, lc_lastReceivedSpeedStep :=
                  (if uint (lc_lastReceivedSpeedStep c) < newTargetSpeedStep then 126
                   else lc_lastReceivedSpeedStep c)\<rparr>)
     in c\<lparr>lc_speedTrendExplicitlySet := True, lc_lastSetTime := now\<rparr>)"

text \<open>Whether the command differs from what the cache says was sent or received last.\<close>

definition Z21_driveChanged :: "Direction \<Rightarrow> u8 \<Rightarrow> int \<Rightarrow> bool \<Rightarrow> u8 \<Rightarrow> Z21_LocoCache \<Rightarrow> bool" where
  "Z21_driveChanged direction speedSteps speedStep isEStop changes c \<longleftrightarrow>
    has_change changes chDirection \<and> lc_direction c \<noteq> direction \<or>
    has_change changes (chThrottle OR chSpeedSteps OR chEmergencyStop) \<and>
      (has_change changes chEmergencyStop \<and> isEStop \<noteq> lc_isEStop c \<or>
       \<not> isEStop \<and> (speedSteps \<noteq> lc_speedSteps c \<or> speedStep \<noteq> uint (lc_speedStep c)))"

definition Z21_decoderChanged_posted ::
  "int \<Rightarrow> int \<Rightarrow> u16 \<Rightarrow> bool \<Rightarrow> Direction \<Rightarrow> rat \<Rightarrow> u8 \<Rightarrow> bool \<Rightarrow> u8 \<Rightarrow> nat \<Rightarrow> TriState \<Rightarrow>
    Z21_Client \<Rightarrow> Z21_Client" where
  "Z21_decoderChanged_posted nan now address longAddress direction throttle speedSteps isEStop changes
      functionNumber funcVal k =
    (let cmd = Z21_driveCommand address longAddress direction throttle speedSteps;
         speedStep = throttleToSpeedStep throttle (unat (LanXSetLocoDrive_speedSteps cmd));
         c = Z21_getLocoCache address k;
         changed = Z21_driveChanged direction speedSteps speedStep isEStop changes c;
         cmd = (if has_change changes (chThrottle OR chSpeedSteps OR chEmergencyStop) \<and>
                   has_change changes chEmergencyStop \<and> isEStop \<noteq> lc_isEStop c \<and> isEStop
                then LanXSetLocoDrive_setEmergencyStop cmd else cmd);
         k = (if has_change changes chFunctionValue \<and> functionNumber \<le> 28 \<and> funcVal \<noteq> TriUndefined then
                Z21_send (LanXSetLocoFunction address longAddress (of_nat functionNumber)
                  (if funcVal = TriTrue then SwitchOn else SwitchOff)) k
              else k)
     in if changed then
          Z21_send (LanX_updateChecksum cmd) (Z21_setLocoCache address (Z21_cacheSet nan now cmd c) k)
        else Z21_setLocoCache address c k)"

section \<open>Running a closure on the event loop\<close>

text \<open>A property of a decoder was set: the interface is told each change at once.\<close>

definition Z21_assign :: "nat \<Rightarrow> Decoder \<times> DecoderChange list \<Rightarrow> Z21_Client \<Rightarrow> Z21_Client" where
  "Z21_assign i r k =
    fold (Z21_decoderChanged (fst r)) (snd r) (k\<lparr>z_decoders := (z_decoders k)(i := fst r)\<rparr>)"

definition Z21_getProtocol :: "u16 \<Rightarrow> DecoderProtocol" where
  "Z21_getProtocol address = (if 128 \<le> address \<and> address \<le> 10239 then DCCLong else DCCShort)"

text \<open>An exception ends the closure, with the guard as it is.\<close>

definition Z21_guarded :: "bool \<Rightarrow> nat \<Rightarrow> (Decoder \<Rightarrow> (Decoder \<times> DecoderChange list) option) \<Rightarrow>
    Z21_Client \<times> bool \<Rightarrow> Z21_Client \<times> bool" where
  "Z21_guarded c i f r =
    (if snd r \<and> c then
       let k = (fst r)\<lparr>z_isUpdatingDecoderFromKernel := True\<rparr>
       in case f (z_decoders k i) of None \<Rightarrow> (k, False) | Some x \<Rightarrow> (Z21_assign i x k, True)
     else r)"

definition Z21_setFunctions :: "nat \<Rightarrow> bool list \<Rightarrow> Z21_Client \<Rightarrow> Z21_Client" where
  "Z21_setFunctions i val k =
    k\<lparr>z_decoders := (z_decoders k)(i :=
      fold (\<lambda>(n, v). Decoder_setFunctionValue (of_nat n) v) (enumerate 0 val) (z_decoders k i))\<rparr>"

definition Z21_run_LocoInfo :: "u16 \<Rightarrow> bool \<Rightarrow> u8 \<Rightarrow> u8 \<Rightarrow> Direction \<Rightarrow> bool list \<Rightarrow> u8 \<Rightarrow> Z21_Client \<Rightarrow> Z21_Client" where
  "Z21_run_LocoInfo address isEStop speed speedMax dir val changes k =
    (case findDecoder (z_decoders k) (Z21_getProtocol address) address (z_decoderList k) of
       None \<Rightarrow> k
     | Some i \<Rightarrow>
         let throttle = speedStepToThrottle (unat speed) (unat speedMax);
             r = (k, True);
             r = Z21_guarded (has_change changes chEmergencyStop) i (\<lambda>d. Some (Decoder_setEmergencyStop isEStop d)) r;
             r = Z21_guarded (has_change changes chDirection) i (Decoder_setDirection dir) r;
             r = Z21_guarded (has_change changes (chThrottle OR chSpeedSteps)) i (Decoder_setThrottle throttle) r
         in if snd r then Z21_setFunctions i val ((fst r)\<lparr>z_isUpdatingDecoderFromKernel := False\<rparr>)
            else fst r)"

definition Z21_setPower :: "TriState \<Rightarrow> TriState \<Rightarrow> Z21_Client \<Rightarrow> Z21_Client" where
  "Z21_setPower trackPowerOn emergencyStop k =
    (let k = k\<lparr>z_trackPowerOn := trackPowerOn, z_emergencyStop := emergencyStop\<rparr>
     in if z_onTrackPowerChanged k then
          Z21_call (ZvTrackPower (trackPowerOn = TriTrue) (emergencyStop = TriTrue)) k
        else k)"

fun Z21_runClosure :: "Z21_closure \<Rightarrow> Z21_Client \<Rightarrow> Z21_Client" where
  "Z21_runClosure (ZcRX m) k = Z21_call (ZvLogRX m) k"
| "Z21_runClosure (ZcTX m) k = Z21_call (ZvLogTX m) k"
| "Z21_runClosure (ZcUpdateOutput channel address v) k = Z21_call (ZvOutput channel address v) k"
| "Z21_runClosure ZcTrackPowerOff k =
    (if z_trackPowerOn k \<noteq> TriFalse then Z21_setPower TriFalse TriFalse k else k)"
| "Z21_runClosure ZcTrackPowerOn k =
    (if z_trackPowerOn k \<noteq> TriTrue \<or> z_emergencyStop k \<noteq> TriFalse then Z21_setPower TriTrue TriFalse k else k)"
| "Z21_runClosure ZcStopped k =
    (if z_emergencyStop k \<noteq> TriTrue then Z21_setPower TriTrue TriTrue k else k)"
| "Z21_runClosure (ZcSystemState trackPowerOn stopState) k =
    (if z_trackPowerOn k \<noteq> trackPowerOn \<or> z_emergencyStop k \<noteq> stopState then
       Z21_setPower trackPowerOn stopState k
     else k)"
| "Z21_runClosure (ZcLocoInfo address isEStop speed speedMax dir val changes) k =
    Z21_run_LocoInfo address isEStop speed speedMax dir val changes k"
| "Z21_runClosure (ZcSerialNumber n) k = Z21_call (ZvSerialNumber n) k"
| "Z21_runClosure (ZcHardwareInfo t major minor) k = Z21_call (ZvHardwareInfo t major minor) k"
| "Z21_runClosure (ZcUpdateInput channel address v) k = Z21_call (ZvInput channel address v) k"
| "Z21_runClosure ZcStarted k = Z21_call ZvStarted k"
| "Z21_runClosure ZcStartFailed k = Z21_call ZvError k"

section \<open>Operations of the interface\<close>

definition Z21_trackPowerOn :: "Z21_Client \<Rightarrow> Z21_Client" where
  "Z21_trackPowerOn k =
    (if z_trackPowerOn k \<noteq> TriTrue \<or> z_emergencyStop k \<noteq> TriFalse then Z21_post (ZtSend LanXSetTrackPowerOn) k
     else k)"

definition Z21_trackPowerOff :: "Z21_Client \<Rightarrow> Z21_Client" where
  "Z21_trackPowerOff k =
    (if z_trackPowerOn k \<noteq> TriFalse \<or> z_emergencyStop k \<noteq> TriFalse then Z21_post (ZtSend LanXSetTrackPowerOff) k
     else k)"

definition Z21_emergencyStop :: "Z21_Client \<Rightarrow> Z21_Client" where
  "Z21_emergencyStop k =
    (if z_trackPowerOn k \<noteq> TriTrue \<or> z_emergencyStop k \<noteq> TriTrue then Z21_post (ZtSend LanXSetStop) k else k)"

text \<open>\<open>None\<close>: \<^verbatim>\<open>std::get\<close> throws, the variant does not hold the alternative.\<close>

definition Z21_setOutput :: "OutputChannel \<Rightarrow> u16 \<Rightarrow> OutputValue \<Rightarrow> Z21_Client \<Rightarrow> (bool \<times> Z21_Client) option" where
  "Z21_setOutput channel address v k =
    (if channel = Ch_Accessory then
       (case v of
          OV_Pair p \<Rightarrow> Some (True, Z21_post (ZtSend (LanXSetTurnout address (p = OutSecond) True False)) k)
        | _ \<Rightarrow> None)
     else if channel = Ch_DCCext then
       (if z_firmwareVersionMajor k = 1 \<and> z_firmwareVersionMinor k < 40 then
          Some (False, Z21_call ZvDCCextNotSupported k)
        else
          (case v of
             OV_int16 a \<Rightarrow>
               if 0 \<le> sint a \<and> sint a \<le> 255 then
                 Some (True, Z21_post (ZtSend (LanXSetExtAccessory_aspect address (ucast a))) k)
               else Some (False, k)
           | _ \<Rightarrow> None))
     else Some (False, k))"

definition Z21_simulateInputChange :: "Z21_InputChannel \<Rightarrow> nat \<Rightarrow> SimulateInputAction \<Rightarrow> Z21_Client \<Rightarrow> Z21_Client" where
  "Z21_simulateInputChange channel address action k =
    (if z_simulation k then Z21_post (ZtSimulateInput channel address action) k else k)"

text \<open>The loop over the 80 inputs of the group; the message starts with the bytes \<open>u\<close>.\<close>

definition Z21_simulatedRBus :: "nat \<Rightarrow> SimulateInputAction \<Rightarrow> bytes \<Rightarrow> Z21_Client \<Rightarrow> bytes" where
  "Z21_simulatedRBus address action u k =
    (let grp = of_nat ((address - rbusAddressMin) div 80);
         m = LanRMBusDataChanged grp u
     in fold (\<lambda>i m. let n = Z21_rbusIndex m i in
          LanRMBusDataChanged_setFeedbackStatus i
            (if address = rbusAddressMin + n then
               (case action of SimSetFalse \<Rightarrow> False | SimSetTrue \<Rightarrow> True
                | SimToggle \<Rightarrow> z_rbusFeedbackStatus k n \<noteq> TriTrue)
             else z_rbusFeedbackStatus k n = TriTrue) m) [0..<80] m)"

definition Z21_simulateInput_posted ::
  "int \<Rightarrow> int \<Rightarrow> Z21_InputChannel \<Rightarrow> nat \<Rightarrow> SimulateInputAction \<Rightarrow> bytes \<Rightarrow> Z21_Client \<Rightarrow> Z21_Client" where
  "Z21_simulateInput_posted nan now channel address action u k =
    (case channel of
       ChRBus \<Rightarrow>
         (if action = SimSetFalse \<and> z_rbusFeedbackStatus k (address - rbusAddressMin) = TriFalse \<or>
             action = SimSetTrue \<and> z_rbusFeedbackStatus k (address - rbusAddressMin) = TriTrue then k
          else Z21_receive nan now (Z21_simulatedRBus address action u k) k)
     | ChLocoNet \<Rightarrow>
         let feedbackAddress = of_nat (address - loconetAddressMin);
             status = z_loconetFeedbackStatus k (unat feedbackAddress)
         in if action = SimSetFalse \<and> status = TriFalse \<or> action = SimSetTrue \<and> status = TriTrue then k
            else Z21_receive nan now (LanLocoNetDetectorOccupancyDetector feedbackAddress
              (case action of SimSetFalse \<Rightarrow> False | SimSetTrue \<Rightarrow> True | SimToggle \<Rightarrow> status \<noteq> TriTrue)) k)"

section \<open>Start, stop, timers\<close>

definition Z21_startKeepAliveTimer :: "Z21_Client \<Rightarrow> Z21_Client" where
  "Z21_startKeepAliveTimer k =
    (let k = (if z_broadcastFlags k = 0 \<and> z_broadcastFlagsRetryCount k = maxBroadcastFlagsRetryCount then
                Z21_call ZvBroadcastFlagMismatch
                  (k\<lparr>z_broadcastFlagsRetryCount := z_broadcastFlagsRetryCount k + 1\<rparr>)
              else k)
     in if z_broadcastFlags k = 0 \<and> z_broadcastFlagsRetryCount k < maxBroadcastFlagsRetryCount
        then k\<lparr>z_keepAliveTimer := Some 2\<rparr>
        else k\<lparr>z_keepAliveTimer := Some keepAliveInterval\<rparr>)"

definition Z21_keepAliveTimerExpired :: "Z21_Client \<Rightarrow> Z21_Client" where
  "Z21_keepAliveTimerExpired k =
    Z21_startKeepAliveTimer
      (if z_broadcastFlags k = 0 then
         (let k = k\<lparr>z_broadcastFlagsRetryCount := z_broadcastFlagsRetryCount k + 1\<rparr>;
              k = Z21_send (LanSetBroadcastFlags Z21_requiredBroadcastFlags) k
          in Z21_send LanGetBroadcastFlags k)
       else Z21_send LanSystemStateGetData k)"

definition Z21_startInactiveDecoderPurgeTimer :: "Z21_Client \<Rightarrow> Z21_Client" where
  "Z21_startInactiveDecoderPurgeTimer k = k\<lparr>z_purgeTimer := True\<rparr>"

definition Z21_inactiveDecoderPurgeTimerExpired :: "int \<Rightarrow> Z21_Client \<Rightarrow> Z21_Client" where
  "Z21_inactiveDecoderPurgeTimerExpired now k =
    (let purgeTime = now - purgeInactiveDecoderInternal * 1000
     in Z21_startInactiveDecoderPurgeTimer (k\<lparr>z_locoCache := (\<lambda>a.
          case z_locoCache k a of
            None \<Rightarrow> None
          | Some c \<Rightarrow> if lc_lastSetTime c < purgeTime then None else Some c)\<rparr>))"

definition Z21_onStart :: "Z21_Client \<Rightarrow> Z21_Client" where
  "Z21_onStart k =
    (let k = k\<lparr>z_broadcastFlags := 0, z_broadcastFlagsRetryCount := 0, z_serialNumber := 0,
               z_hardwareType := 0, z_firmwareVersionMajor := 0, z_firmwareVersionMinor := 0,
               z_trackPowerOn := TriUndefined, z_emergencyStop := TriUndefined,
               z_rbusFeedbackStatus := (\<lambda>_. TriUndefined), z_loconetFeedbackStatus := (\<lambda>_. TriUndefined)\<rparr>;
         k = Z21_send LanGetSerialNumber k;
         k = Z21_send LanGetHardwareInfo k;
         k = Z21_send (LanSetBroadcastFlags Z21_requiredBroadcastFlags) k;
         k = Z21_send LanGetBroadcastFlags k;
         k = Z21_send LanSystemStateGetData k
     in Z21_startInactiveDecoderPurgeTimer (Z21_startKeepAliveTimer k))"

definition Z21_onStop :: "Z21_Client \<Rightarrow> Z21_Client" where
  "Z21_onStop k =
    (Z21_send LanLogoff k)\<lparr>z_keepAliveTimer := None, z_purgeTimer := False, z_locoCache := Map.empty\<rparr>"

text \<open>\<^verbatim>\<open>Kernel::start\<close> posts this; the argument: whether the IO handler starts.\<close>

definition Z21_start_posted :: "bool \<Rightarrow> Z21_Client \<Rightarrow> Z21_Client" where
  "Z21_start_posted ioHandlerStarts k =
    (if ioHandlerStarts then Z21_eventLoopCall ZcStarted (Z21_onStart k)
     else Z21_eventLoopCall ZcStartFailed k)"

section \<open>The kernel's thread\<close>

fun Z21_runTask :: "int \<Rightarrow> int \<Rightarrow> bytes \<Rightarrow> Z21_task \<Rightarrow> Z21_Client \<Rightarrow> Z21_Client" where
  "Z21_runTask nan now u (ZtSend m) k = Z21_send m k"
| "Z21_runTask nan now u (ZtDecoderChanged a l dir t s e ch n v) k =
    Z21_decoderChanged_posted nan now a l dir t s e ch n v k"
| "Z21_runTask nan now u (ZtSimulateInput channel address action) k =
    Z21_simulateInput_posted nan now channel address action u k"
| "Z21_runTask nan now u (ZtSetDebugLogRXTX b) k = k\<lparr>z_debugLogRXTX := b\<rparr>"
| "Z21_runTask nan now u (ZtStart ok) k = Z21_start_posted ok k"
| "Z21_runTask nan now u ZtStop k = Z21_onStop k"
| "Z21_runTask nan now u (ZtReceive m) k = Z21_receive nan now m k"

end
