(* ===== verification/Z21_Codec.thy ===== *)
theory Z21_Codec
  imports Z21_Messages
begin

text \<open>
  What the messages carry: they are framed and their checksums hold, and the accessors read back what
  the constructors and setters wrote.
\<close>

section \<open>Frames and checksums\<close>

definition Z21_valid :: "bytes \<Rightarrow> bool" where
  "Z21_valid m \<longleftrightarrow> Z21_framed m \<and> (Z21_header m = LAN_X \<longrightarrow> 6 \<le> length m \<and> LanX_isChecksumValid m)"

lemma Message_fields [simp]:
  "Z21_dataLen (Z21_Message n h @ r) = n"
  "Z21_header (Z21_Message n h @ r) = h"
  "length (Z21_Message n h) = 4"
  "(Z21_Message n h @ r) ! Suc (Suc (Suc (Suc i))) = r ! i"
  "drop (Suc (Suc (Suc (Suc i)))) (Z21_Message n h @ r) = drop i r"
  by (simp_all add: Z21_dataLen_def Z21_header_def Z21_le16_def Z21_Message_def Z21_toLE16_def
      numeral_2_eq_2 numeral_3_eq_3)

lemma Message_fields_alone [simp]:
  "Z21_dataLen (Z21_Message n h) = n" "Z21_header (Z21_Message n h) = h"
  using Message_fields(1,2) [of n h "[]"] by simp_all

lemma LanX_fields [simp]:
  "Z21_dataLen (Z21_LanX n x @ r) = n"
  "Z21_header (Z21_LanX n x @ r) = LAN_X"
  "length (Z21_LanX n x) = 5"
  "(Z21_LanX n x @ r) ! 4 = x"
  "drop 5 (Z21_LanX n x @ r) = r"
  by (simp_all add: Z21_LanX_def numeral_eq_Suc)

lemma LanX_nth [simp]: "5 \<le> i \<Longrightarrow> (Z21_LanX n x @ r) ! i = r ! (i - 5)"
  by (simp add: nth_append)

lemma head_update:
  assumes "5 \<le> i"
  shows "Z21_dataLen (m[i := b]) = Z21_dataLen m" "Z21_header (m[i := b]) = Z21_header m"
    "m[i := b] ! 4 = m ! 4"
  using assms by (simp_all add: Z21_dataLen_def Z21_header_def Z21_le16_def)

lemma calcChecksum_update: "5 + n \<le> i \<Longrightarrow> Z21_calcChecksum n (m[i := b]) = Z21_calcChecksum n m"
  by (simp add: Z21_calcChecksum_def drop_update_swap)

lemma updateChecksumLen_valid:
  assumes "length m = 6 + n" and "unat (Z21_dataLen m) = 6 + n" and "LanX_dataSize m = int n"
  shows "Z21_framed (LanX_updateChecksumLen n m)" "LanX_isChecksumValid (LanX_updateChecksumLen n m)"
proof -
  have h: "Z21_dataLen (m[5 + n := b]) = Z21_dataLen m" "m[5 + n := b] ! 4 = m ! 4" for b
    by (simp_all only: head_update le_add1)
  have "LanX_dataSize (m[5 + n := b]) = int n" for b
    using assms(3) unfolding LanX_dataSize_def h .
  then show "LanX_isChecksumValid (LanX_updateChecksumLen n m)"
    using assms(1) by (simp add: LanX_isChecksumValid_def LanX_updateChecksumLen_def calcChecksum_update nat_add_distrib)
  show "Z21_framed (LanX_updateChecksumLen n m)"
    using assms by (simp add: Z21_framed_def LanX_updateChecksumLen_def h)
qed

lemma uint_nibble: "uint (x AND 0x0F :: u8) = int (unat (x AND 0x0F))"
  by simp

lemma LanX_valid:
  assumes "length d = unat (x AND 0x0F)" and "x \<noteq> LAN_X_LOCO_INFO" and "n = of_nat (6 + length d)"
  shows "Z21_valid (LanX_updateChecksum (Z21_LanX n x @ d @ [c]))"
proof -
  let ?m = "Z21_LanX n x @ d @ [c]"
  have "x AND 0x0F \<le> 0x0F" by (rule word_and_le1)
  then have "length d \<le> 15" using assms(1) by (simp add: word_le_nat_alt)
  then have n: "unat n = 6 + length d" unfolding assms(3) unat_of_nat by simp
  have s: "LanX_dataSize ?m = int (length d)" using assms(1,2) by (simp add: LanX_dataSize_def)
  note v = updateChecksumLen_valid [of ?m "length d", OF _ _ s]
  have "Z21_header (LanX_updateChecksumLen k ?m) = LAN_X" for k
    by (simp add: LanX_updateChecksumLen_def head_update)
  then show ?thesis
    using v n assms(1) by (simp add: Z21_valid_def LanX_updateChecksum_def LanX_updateChecksumLen_def)
qed

text \<open>The same for the messages whose constructors have the checksum as a constant.\<close>

lemma LanX_valid_const:
  assumes "c = xorAll x d" and "length d = unat (x AND 0x0F)" and "x \<noteq> LAN_X_LOCO_INFO" and "n = of_nat (6 + length d)"
  shows "Z21_valid (Z21_LanX n x @ d @ [c])"
proof -
  have "LanX_updateChecksum (Z21_LanX n x @ d @ [c]) = Z21_LanX n x @ d @ [c]"
    using assms(1,2) by (simp add: LanX_updateChecksum_def LanX_updateChecksumLen_def Z21_calcChecksum_def
        list_update_append)
  then show ?thesis using LanX_valid [OF assms(2-4), of c] by simp
qed

lemma Message_valid: "h \<noteq> LAN_X \<Longrightarrow> unat n = 4 + length d \<Longrightarrow> Z21_valid (Z21_Message n h @ d)"
  by (simp add: Z21_valid_def Z21_framed_def)

lemma fixed_valid:
  "Z21_valid LanGetSerialNumber" "Z21_valid LanGetHardwareInfo" "Z21_valid LanLogoff"
  "Z21_valid LanXGetFirmwareVersion" "Z21_valid LanXGetStatus" "Z21_valid LanXSetTrackPowerOff"
  "Z21_valid LanXSetTrackPowerOn" "Z21_valid LanXSetStop" "Z21_valid LanGetBroadcastFlags"
  "Z21_valid LanSystemStateGetData" "Z21_valid LanXBCTrackPowerOff" "Z21_valid LanXBCTrackPowerOn"
  "Z21_valid LanXBCTrackShortCircuit" "Z21_valid LanXBCStopped" "Z21_valid LanXGetVersion"
  using Message_valid [of LAN_GET_SERIAL_NUMBER 4 "[]"] Message_valid [of LAN_GET_HWINFO 4 "[]"]
    Message_valid [of LAN_LOGOFF 4 "[]"] Message_valid [of LAN_GET_BROADCASTFLAGS 4 "[]"]
    Message_valid [of LAN_SYSTEMSTATE_GETDATA 4 "[]"]
    LanX_valid_const [of "0xFB" "0xF1" "[0x0A]" 7] LanX_valid_const [of "0x05" "0x21" "[0x24]" 7]
    LanX_valid_const [of "0xA1" "0x21" "[0x80]" 7] LanX_valid_const [of "0xA0" "0x21" "[0x81]" 7]
    LanX_valid_const [of "0x80" "0x80" "[]" 6] LanX_valid_const [of "0x61" "0x61" "[0x00]" 7]
    LanX_valid_const [of "0x60" "0x61" "[0x01]" 7] LanX_valid_const [of "0x69" "0x61" "[0x08]" 7]
    LanX_valid_const [of "0x81" "0x81" "[0x00]" 7] LanX_valid_const [of "0x00" "0x21" "[0x21]" 7]
  by (simp_all add: LanGetSerialNumber_def LanGetHardwareInfo_def LanLogoff_def LanXGetFirmwareVersion_def
      LanXGetStatus_def LanXSetTrackPowerOff_def LanXSetTrackPowerOn_def LanXSetStop_def LanGetBroadcastFlags_def
      LanSystemStateGetData_def LanXBCTrackPowerOff_def LanXBCTrackPowerOn_def LanXBCTrackShortCircuit_def
      LanXBCStopped_def LanXGetVersion_def)

lemma LE32_length [simp]: "length (Z21_toLE32 v) = 4"
  by (simp add: Z21_toLE32_def)

lemma LE16_length [simp]: "length (Z21_toLE16 v) = 2" "length (Z21_toBE16 v) = 2"
  by (simp_all add: Z21_toLE16_def Z21_toBE16_def)

lemma parameter_valid:
  "Z21_valid (LanSetBroadcastFlags f)" "Z21_valid (LanGetBroadcastFlagsReply f)"
  "Z21_valid (LanGetSerialNumberReply v)" "Z21_valid (LanGetHardwareInfoReply t major minor)"
  "Z21_valid (LanGetLocoMode a)" "Z21_valid (LanSetLocoMode a md)" "Z21_valid (LanGetLocoModeReply a md)"
  "Z21_valid (LanRMBusGetData g)" "Z21_valid (LanLocoNetDetectorOccupancyDetector a b)"
  by (simp_all add: LanSetBroadcastFlags_def LanGetBroadcastFlagsReply_def LanGetSerialNumberReply_def
      LanGetHardwareInfoReply_def LanGetLocoMode_def LanSetLocoMode_def LanGetLocoModeReply_def
      LanRMBusGetData_def LanLocoNetDetectorOccupancyDetector_def LanLocoNetDetector_def Message_valid)

lemma RMBus_valid: "10 \<le> length u \<Longrightarrow> Z21_valid (LanRMBusDataChanged g u)"
  by (simp add: LanRMBusDataChanged_def Message_valid)

lemma sealed_valid:
  "Z21_valid (LanXSetTurnout a p act q)" "Z21_valid (LanXSetExtAccessory_aspect a v)"
  "Z21_valid (LanXSetExtAccessory_dir a dir t)" "Z21_valid (LanXExtAccessoryInfo a v uk)"
  "Z21_valid (LanXExtAccessoryInfo_dir a dir t)" "Z21_valid (LanXGetVersionReply v i)"
  "Z21_valid (LanXGetFirmwareVersionReply major minor)" "Z21_valid (LanXTurnoutInfo a p uk)"
  "Z21_valid (LanX_updateChecksum (LanXStatusChanged b u))"
  using LanX_valid [of "[high8 (a - 1), low8 (a - 1), orFlag (orFlag (orFlag 0x80 0x20 q) 0x08 act) 0x01 p]" "0x53" 9 0]
    LanX_valid [of "[high8 (a + 3), low8 (a + 3), v, 0]" "0x54" 10 0]
    LanX_valid [of "[high8 (a + 3), low8 (a + 3), orFlag (t AND 0x7F) 0x80 dir, 0]" "0x54" 10 0]
    LanX_valid [of "[high8 (a + 3), low8 (a + 3), v, if uk then 0xFF else 0]" "0x44" 10 0]
    LanX_valid [of "[high8 (a + 3), low8 (a + 3), orFlag (t AND 0x7F) 0x80 dir, 0]" "0x44" 10 0]
    LanX_valid [of "[0x21, Z21_toBCD v, i]" "0x63" 9 0] LanX_valid [of "[0x0A, Z21_toBCD major, Z21_toBCD minor]" "0xF3" 9 0]
    LanX_valid [of "[high8 (a - 1), low8 (a - 1), if uk then 0 else if p then 0x02 else 0x01]" "0x43" 9 0]
    LanX_valid [of "[0x22, b]" "0x62" 8 u]
  by (simp_all add: LanXSetTurnout_def LanXSetExtAccessory_aspect_def LanXSetExtAccessory_dir_def
      LanXExtAccessoryInfo_def LanXExtAccessoryInfo_dir_def LanXGetVersionReply_def LanXGetFirmwareVersionReply_def
      LanXTurnoutInfo_def LanXStatusChanged_def Let_def)

text \<open>Setters that keep length, header and the byte at 4 keep a message that can be sealed.\<close>

definition Z21_form :: "u16 \<Rightarrow> u8 \<Rightarrow> bytes \<Rightarrow> bool" where
  "Z21_form n x m \<longleftrightarrow> length m = unat n \<and> Z21_dataLen m = n \<and> Z21_header m = LAN_X \<and> m ! 4 = x"

lemma form_update [simp]: "5 \<le> i \<Longrightarrow> Z21_form n x (m[i := b]) = Z21_form n x m"
  by (simp add: Z21_form_def head_update)

lemma form_LanX [simp]: "Z21_form n x (Z21_LanX n x @ r) \<longleftrightarrow> unat n = 5 + length r"
  by (auto simp: Z21_form_def)

lemma form_setLocoAddress [simp]: "5 \<le> i \<Longrightarrow> Z21_form n x (Z21_setLocoAddress i a l m) = Z21_form n x m"
  by (simp add: Z21_setLocoAddress_def)

lemma form_valid:
  assumes "Z21_form n x m" and "unat n = 6 + unat (x AND 0x0F)" and "x \<noteq> LAN_X_LOCO_INFO"
  shows "Z21_valid (LanX_updateChecksum m)"
proof -
  let ?k = "unat (x AND 0x0F)"
  have m: "length m = 6 + ?k" "unat (Z21_dataLen m) = 6 + ?k" "LanX_dataSize m = int ?k" "m ! 4 = x" "Z21_header m = LAN_X"
    using assms by (simp_all add: Z21_form_def LanX_dataSize_def)
  have "Z21_header (LanX_updateChecksumLen ?k m) = LAN_X"
    using m(5) by (simp add: LanX_updateChecksumLen_def head_update)
  then show ?thesis
    using updateChecksumLen_valid [OF m(1-3)] m
    by (simp add: Z21_valid_def LanX_updateChecksum_def LanX_updateChecksumLen_def)
qed

lemma form_valid_LocoInfo:
  assumes "Z21_form 15 LAN_X_LOCO_INFO m"
  shows "Z21_valid (LanXLocoInfo_updateChecksum m)"
proof -
  have m: "length m = 6 + 9" "unat (Z21_dataLen m) = 6 + 9" "LanX_dataSize m = int 9" "Z21_header m = LAN_X"
    using assms by (simp_all add: Z21_form_def LanX_dataSize_def)
  have "Z21_header (LanX_updateChecksumLen 9 m) = LAN_X"
    using m(4) by (simp add: LanX_updateChecksumLen_def head_update)
  then show ?thesis
    using updateChecksumLen_valid [OF m(1-3)] m
    by (simp add: Z21_valid_def LanXLocoInfo_updateChecksum_def LanX_updateChecksumLen_def)
qed

end
