(* ===== verification/Z21_Roundtrip.thy ===== *)
theory Z21_Roundtrip
  imports Z21_Codec
begin

text \<open>Round trips of the fields: speed, direction, addresses, functions, feedback, flags, versions.\<close>

section \<open>Speed and direction\<close>

lemma direction_and: "bit (Z21_setDirection v b) n = (if n = 7 then v = DirForward else bit b n)"
  using mask_bits_u8(5) [of n] unfolding Z21_setDirection_def bit_setFlag by metis

lemma get_setDirection: "v \<noteq> DirUnknown \<Longrightarrow> Z21_getDirection (Z21_setDirection v b) = v"
  by (cases v) (simp_all add: Z21_getDirection_def flag_simps direction_and)

text \<open>The speed is in the seven lower bits.\<close>

lemma low_bits_cong:
  assumes "\<And>n. n < 7 \<Longrightarrow> bit a n = bit b n" and "\<not> bit m 7"
  shows "a AND m = b AND (m :: u8)"
  using assms by (intro u8_eqI) (auto simp: bit_and_iff)

lemma speed_low_bits:
  assumes "\<And>n. n < 7 \<Longrightarrow> bit a n = bit b n"
  shows "Z21_isEmergencyStop a s = Z21_isEmergencyStop b s" "Z21_getSpeedStep a s = Z21_getSpeedStep b s"
proof -
  have m: "a AND 0x7F = b AND 0x7F" "a AND 0x1F = b AND 0x1F" "a AND 0x0F = b AND 0x0F" "a AND 0x10 = b AND 0x10"
    using assms by (auto intro!: low_bits_cong simp: bit_simps)
  show "Z21_isEmergencyStop a s = Z21_isEmergencyStop b s" by (simp add: Z21_isEmergencyStop_def m)
  then show "Z21_getSpeedStep a s = Z21_getSpeedStep b s" by (simp add: Z21_getSpeedStep_def m)
qed

lemma setDirection_speed [simp]:
  "Z21_isEmergencyStop (Z21_setDirection v b) s = Z21_isEmergencyStop b s"
  "Z21_getSpeedStep (Z21_setDirection v b) s = Z21_getSpeedStep b s"
  by (rule speed_low_bits; simp add: direction_and)+

lemma and_mask_same:
  assumes "unat (t :: u8) < 2 ^ n" and "\<And>i. bit m i \<longleftrightarrow> i < n"
  shows "t AND m = t"
proof (rule bit_eqI)
  show "bit (t AND m) i = bit t i" for i
    using assms bit_above_bound [of t n i] by (cases "i < n") (auto simp: bit_and_iff)
qed

definition speedStepsOk :: "u8 \<Rightarrow> u8 \<Rightarrow> bool" where
  "speedStepsOk steps s \<longleftrightarrow> (steps = 14 \<or> steps = 28 \<or> steps = 126) \<and> s \<le> steps"

lemma step_plus_one: "s \<le> (126 :: u8) \<Longrightarrow> unat (s + 1) = unat s + 1"
  by (simp add: word_le_nat_alt unat_plus_simple [THEN iffD1] unat_word_ariths(1))

lemma setSpeedStep_zero: "Z21_setSpeedStep steps 0 b = b AND 0x80"
  by (simp add: Z21_setSpeedStep_def)

lemma zero_speed:
  assumes "speedStepsOk steps s"
  shows "\<not> Z21_isEmergencyStop (b AND 0x80) steps" "Z21_getSpeedStep (b AND 0x80) steps = 0"
proof -
  have m: "(b AND 0x80) AND 0x7F = 0" "(b AND 0x80) AND 0x1F = 0" "(b AND 0x80) AND 0x0F = 0" "(b AND 0x80) AND 0x10 = 0"
    by (simp_all add: and.assoc)
  show e: "\<not> Z21_isEmergencyStop (b AND 0x80) steps"
    using assms by (auto simp: Z21_isEmergencyStop_def m speedStepsOk_def)
  show "Z21_getSpeedStep (b AND 0x80) steps = 0"
    using e assms by (simp add: Z21_getSpeedStep_def m Z21_minusOne_def)
qed

lemma minusOne_back:
  assumes "s \<le> (126 :: u8)"
  shows "Z21_minusOne (s + 1) = s"
proof -
  have "(1 :: u8) \<le> s + 1" using step_plus_one [OF assms] by (simp add: word_le_nat_alt)
  then show ?thesis by (simp add: Z21_minusOne_def)
qed

lemma get_setSpeedStep_126:
  assumes "s \<le> 126" "s \<noteq> 0"
  shows "\<not> Z21_isEmergencyStop (Z21_setSpeedStep 126 s b) 126" "Z21_getSpeedStep (Z21_setSpeedStep 126 s b) 126 = s"
proof -
  have u: "unat (s + 1) = unat s + 1" by (rule step_plus_one [OF assms(1)])
  have g: "1 < s + 1" using u assms(2) by (simp add: word_less_nat_alt unat_gt_0)
  have "unat (s + 1) < 2 ^ 7" using u assms(1) by (simp add: word_le_nat_alt)
  then have m: "(s + 1) AND 0x7F = s + 1" by (rule and_mask_same) (rule mask_bits_u8)
  have "(b AND 0x80 OR (s + 1)) AND 0x7F = s + 1"
    by (subst (2) m [symmetric], subst bit.conj_disj_distrib2) (simp add: and.assoc m)
  then have low: "Z21_setSpeedStep 126 s b AND 0x7F = s + 1"
    using g by (simp add: Z21_setSpeedStep_def Let_def m)
  have "s + 1 \<noteq> 1" using assms(2) by simp
  then show e: "\<not> Z21_isEmergencyStop (Z21_setSpeedStep 126 s b) 126"
    by (simp add: Z21_isEmergencyStop_def low)
  show "Z21_getSpeedStep (Z21_setSpeedStep 126 s b) 126 = s"
    using e minusOne_back [OF assms(1)] by (simp add: Z21_getSpeedStep_def low)
qed

lemma get_setSpeedStep_14:
  assumes "s \<le> 14" "s \<noteq> 0"
  shows "\<not> Z21_isEmergencyStop (Z21_setSpeedStep 14 s b) 14" "Z21_getSpeedStep (Z21_setSpeedStep 14 s b) 14 = s"
proof -
  have s: "s \<le> 126" using assms(1) by (simp add: word_le_nat_alt)
  have u: "unat (s + 1) = unat s + 1" by (rule step_plus_one [OF s])
  have g: "1 < s + 1" using u assms(2) by (simp add: word_less_nat_alt unat_gt_0)
  have "unat (s + 1) < 2 ^ 4" using u assms(1) by (simp add: word_le_nat_alt)
  then have m: "(s + 1) AND 0x0F = s + 1" by (rule and_mask_same) (rule mask_bits_u8)
  have "(b AND 0x80 OR (s + 1)) AND 0x0F = s + 1"
    by (subst (2) m [symmetric], subst bit.conj_disj_distrib2) (simp add: and.assoc m)
  then have low: "Z21_setSpeedStep 14 s b AND 0x0F = s + 1"
    using g by (simp add: Z21_setSpeedStep_def Let_def m)
  have "s + 1 \<noteq> 1" using assms(2) by simp
  then show e: "\<not> Z21_isEmergencyStop (Z21_setSpeedStep 14 s b) 14"
    by (simp add: Z21_isEmergencyStop_def low)
  show "Z21_getSpeedStep (Z21_setSpeedStep 14 s b) 14 = s"
    using e minusOne_back [OF s] by (simp add: Z21_getSpeedStep_def low)
qed

lemma get_setSpeedStep_28:
  assumes "s \<le> 28" "s \<noteq> 0"
  shows "\<not> Z21_isEmergencyStop (Z21_setSpeedStep 28 s b) 28" "Z21_getSpeedStep (Z21_setSpeedStep 28 s b) 28 = s"
proof -
  have s: "s \<le> 126" using assms(1) by (simp add: word_le_nat_alt)
  have u1: "unat (s + 1) = unat s + 1" by (rule step_plus_one [OF s])
  have g: "1 < s + 1" using u1 assms(2) by (simp add: word_less_nat_alt unat_gt_0)
  define t where "t = s + 1 + 2"
  have u: "unat t = unat s + 3" using assms(1) by (simp add: t_def unat_word_ariths(1) word_le_nat_alt)
  have "unat t < 2 ^ 5" using u assms(1) by (simp add: word_le_nat_alt)
  then have hi: "\<not> bit t 5" "\<not> bit t 6" "\<not> bit t 7" using bit_above_bound [of t 5] by simp_all
  have four: "bit t (Suc (Suc (Suc (Suc 0)))) = bit t 4" by (simp add: eval_nat_numeral)
  let ?x = "(b AND 0x80) OR (drop_bit 1 t AND 0x0F) OR push_bit 4 (t AND 1)"
  have x: "Z21_setSpeedStep 28 s b = ?x" using g by (simp add: Z21_setSpeedStep_def Let_def t_def)
  have d: "push_bit 1 (?x AND 0x0F) OR drop_bit 4 (?x AND 0x10) = t"
    using hi four by (intro u8_eqI) (simp_all add: bit_simps flag_simps numeral_2_eq_2 numeral_3_eq_3)
  have "4 \<le> unat t" using u assms(2) by (simp add: unat_gt_0 Suc_le_eq)
  moreover have "unat t < 2 ^ 2" if "\<not> (bit t 2 \<or> bit t 3 \<or> bit t 4)"
  proof (rule bound_of_bits)
    fix k :: nat
    assume "2 \<le> k"
    then have "k = 2 \<or> k = 3 \<or> k = 4 \<or> k = 5 \<or> k = 6 \<or> k = 7 \<or> 8 \<le> k" by arith
    then show "\<not> bit t k" using that hi by auto
  qed
  ultimately have "bit t 2 \<or> bit t 3 \<or> bit t 4" by fastforce
  then have "bit (?x AND 0x1F) 1 \<or> bit (?x AND 0x1F) 2 \<or> bit (?x AND 0x1F) 3"
    using four by (auto simp: bit_simps numeral_2_eq_2 numeral_3_eq_3)
  moreover have "\<not> bit y 1 \<and> \<not> bit y 2 \<and> \<not> bit y 3" if "y = 0x01 \<or> y = 0x11" for y :: u8
    using that by auto
  ultimately have "?x AND 0x1F \<noteq> 0x01" "?x AND 0x1F \<noteq> 0x11" by blast+
  then show e: "\<not> Z21_isEmergencyStop (Z21_setSpeedStep 28 s b) 28"
    by (simp add: Z21_isEmergencyStop_def x)
  have t: "3 \<le> t" "t - 2 = s + 1" using u by (simp_all add: t_def word_le_nat_alt)
  have "Z21_getSpeedStep y 28 = s" if "\<not> Z21_isEmergencyStop y 28"
    "push_bit 1 (y AND 0x0F) OR drop_bit 4 (y AND 0x10) = t" for y
    using that(1) t minusOne_back [OF s] minusOne_back [OF s, unfolded add.commute [of s 1]]
    unfolding Z21_getSpeedStep_def Let_def that(2) by simp
  then show "Z21_getSpeedStep (Z21_setSpeedStep 28 s b) 28 = s" using e d unfolding x by blast
qed

lemma get_setSpeedStep:
  assumes "speedStepsOk steps s"
  shows "\<not> Z21_isEmergencyStop (Z21_setSpeedStep steps s b) steps"
    "Z21_getSpeedStep (Z21_setSpeedStep steps s b) steps = s"
proof -
  have "\<not> Z21_isEmergencyStop (Z21_setSpeedStep steps s b) steps \<and>
    Z21_getSpeedStep (Z21_setSpeedStep steps s b) steps = s"
  proof (cases "s = 0")
    case True
    then show ?thesis using zero_speed [OF assms] by (simp add: setSpeedStep_zero)
  next
    case False
    then show ?thesis
      using assms get_setSpeedStep_126 get_setSpeedStep_14 get_setSpeedStep_28 by (auto simp: speedStepsOk_def)
  qed
  then show "\<not> Z21_isEmergencyStop (Z21_setSpeedStep steps s b) steps"
    "Z21_getSpeedStep (Z21_setSpeedStep steps s b) steps = s" by blast+
qed

lemma setSpeedStep_direction:
  "steps = 14 \<or> steps = 28 \<or> steps = 126 \<Longrightarrow> bit (Z21_setSpeedStep steps s b) 7 = bit b 7"
  by (auto simp: Z21_setSpeedStep_def Let_def bit_simps)

lemma setEmergencyStop_facts:
  "Z21_isEmergencyStop (Z21_setEmergencyStop b) s" "Z21_getDirection (Z21_setEmergencyStop b) = Z21_getDirection b"
  "Z21_getSpeedStep (Z21_setEmergencyStop b) s = 0"
proof -
  have m: "Z21_setEmergencyStop b AND 0x7F = 1" "Z21_setEmergencyStop b AND 0x1F = 1" "Z21_setEmergencyStop b AND 0x0F = 1"
    by (simp_all add: Z21_setEmergencyStop_def bit.conj_disj_distrib2 and.assoc)
  show e: "Z21_isEmergencyStop (Z21_setEmergencyStop b) s" by (simp add: Z21_isEmergencyStop_def m)
  show "Z21_getSpeedStep (Z21_setEmergencyStop b) s = 0" using e by (simp add: Z21_getSpeedStep_def)
  show "Z21_getDirection (Z21_setEmergencyStop b) = Z21_getDirection b"
    by (simp add: Z21_getDirection_def Z21_setEmergencyStop_def flag_simps bit_simps)
qed

section \<open>Other fields\<close>

lemma locoAddress_bytes:
  assumes "unat a < 2 ^ 14"
  shows "push_bit 8 (ucast (ucast (0xC0 OR drop_bit 8 a) AND (0x3F :: u8))) OR ucast (ucast (a AND 0xFF) :: u8) = (a :: u16)"
proof -
  have "\<not> bit a 14" "\<not> bit a 15" using bit_above_bound [OF assms] by simp_all
  then show ?thesis by (intro u16_eqI) (simp_all add: bit_simps)
qed

lemma locoAddress_roundtrip:
  assumes "i + 1 < length m" and "if l then unat a < 2 ^ 14 else unat a < 2 ^ 7"
  shows "Z21_locoAddress i (Z21_setLocoAddress i a l m) = a" "Z21_isLongAddress i (Z21_setLocoAddress i a l m) = l"
proof -
  have short: "ucast (ucast (a AND 0x7F) :: u8) = a" if "unat a < 2 ^ 7"
  proof -
    have "\<not> bit a k" if "7 \<le> k" for k using bit_above_bound [of a 7 k] that \<open>unat a < 2 ^ 7\<close> by simp
    then show ?thesis by (intro u16_eqI) (simp_all add: bit_simps)
  qed
  show "Z21_locoAddress i (Z21_setLocoAddress i a l m) = a"
    using assms locoAddress_bytes [of a] short
    by (cases l) (simp_all add: Z21_locoAddress_def Z21_setLocoAddress_def Z21_locoAddressBytes_def)
  have "ucast (0xC0 OR drop_bit 8 a) AND 0xC0 = (0xC0 :: u8)"
    by (intro u8_eqI) (simp_all add: bit_simps)
  then show "Z21_isLongAddress i (Z21_setLocoAddress i a l m) = l"
    using assms(1) by (cases l) (simp_all add: Z21_isLongAddress_def Z21_setLocoAddress_def Z21_locoAddressBytes_def)
qed

lemma BCD_roundtrip:
  assumes "v < 100"
  shows "Z21_fromBCD (Z21_toBCD v) = v"
proof -
  have "list_all (\<lambda>n. Z21_fromBCD (Z21_toBCD (of_nat n)) = of_nat n) [0..<100]" by code_simp
  moreover have "unat v < 100" using assms by (simp add: word_less_nat_alt)
  ultimately show ?thesis by (auto simp: list_all_iff dest: bspec [of _ _ "unat v"])
qed

lemma LE32_roundtrip: "Z21_le32 4 (Z21_Message n h @ Z21_toLE32 v @ r) = v"
proof -
  have e: "Z21_le32 4 (Z21_Message n h @ Z21_toLE32 v @ r) =
      ucast (ucast v :: u8) OR push_bit 8 (ucast (ucast (drop_bit 8 v) :: u8)) OR
      push_bit 16 (ucast (ucast (drop_bit 16 v) :: u8)) OR push_bit 24 (ucast (ucast (drop_bit 24 v) :: u8))"
    by (simp add: Z21_le32_def Z21_toLE32_def nth_append)
  have "bit (Z21_le32 4 (Z21_Message n h @ Z21_toLE32 v @ r)) k = bit v k" if "k < 32" for k
  proof -
    consider "k < 8" | "8 \<le> k" "k < 16" | "16 \<le> k" "k < 24" | "24 \<le> k" by linarith
    then show ?thesis using that unfolding e by cases (auto simp: bit_simps)
  qed
  then show ?thesis by (intro bit_word_eqI) simp
qed

lemma functionAt_range:
  "LanXLocoInfo_functionAt n m = Some (i, f) \<Longrightarrow> 9 \<le> i \<and> i \<le> 13"
  by (auto simp: LanXLocoInfo_functionAt_def split: if_splits)

text \<open>The bit of each function.\<close>

definition functionBit :: "nat \<Rightarrow> nat \<times> nat" where
  "functionBit n = (if n = 0 then (9, 4) else if n \<le> 4 then (9, n - 1) else if n \<le> 12 then (10, n - 5)
     else if n \<le> 20 then (11, n - 13) else if n \<le> 28 then (12, n - 21) else (13, n - 29))"

lemma functionAt_eq:
  assumes "15 \<le> Z21_dataLen m"
  shows "LanXLocoInfo_functionAt n m =
    (if n \<le> 31 then Some (fst (functionBit n), 2 ^ snd (functionBit n)) else None)"
  using assms
  by (simp add: LanXLocoInfo_functionAt_def functionBit_def LanXLocoInfo_supportsF29F31_def push_bit_eq_mult)

lemma functionBit_inj: "n \<le> 31 \<Longrightarrow> k \<le> 31 \<Longrightarrow> functionBit n = functionBit k \<longleftrightarrow> n = k"
  by (auto simp: functionBit_def split: if_splits)

lemma functionBit_bounds: "n \<le> 31 \<Longrightarrow> 9 \<le> fst (functionBit n) \<and> fst (functionBit n) \<le> 13 \<and> snd (functionBit n) < 8"
  by (auto simp: functionBit_def)

lemma getFunction_bit:
  "15 \<le> Z21_dataLen m \<Longrightarrow> n \<le> 31 \<Longrightarrow>
    LanXLocoInfo_getFunction n m = bit (m ! fst (functionBit n)) (snd (functionBit n))"
  using functionBit_bounds [of n]
  by (simp add: LanXLocoInfo_getFunction_def functionAt_eq testFlag_exp)

lemma setFunction_eq:
  "15 \<le> Z21_dataLen m \<Longrightarrow> n \<le> 31 \<Longrightarrow>
    LanXLocoInfo_setFunction n v m =
      m[fst (functionBit n) := setFlag (m ! fst (functionBit n)) (2 ^ snd (functionBit n)) v]"
  by (simp add: LanXLocoInfo_setFunction_def functionAt_eq)

lemma getFunction_setFunction:
  assumes "Z21_form 15 x m" and "n \<le> 31" and "k \<le> 31"
  shows "LanXLocoInfo_getFunction k (LanXLocoInfo_setFunction n v m) =
    (if k = n then v else LanXLocoInfo_getFunction k m)"
proof -
  have f: "15 \<le> Z21_dataLen m" "length m = 15" using assms(1) by (simp_all add: Z21_form_def)
  note b = functionBit_bounds [OF assms(2)] functionBit_bounds [OF assms(3)]
  have "15 \<le> Z21_dataLen (LanXLocoInfo_setFunction n v m)"
    using f b by (simp add: setFunction_eq assms(2) head_update)
  then show ?thesis
    using f b assms(2,3) functionBit_inj [OF assms(2,3)]
    by (auto simp: getFunction_bit setFunction_eq bit_setFlag bit_exp_iff nth_list_update prod_eq_iff)
qed

lemma form_setFunction [simp]: "Z21_form n x m \<Longrightarrow> Z21_form n x (LanXLocoInfo_setFunction i v m)"
  using functionAt_range [of i m]
  by (auto simp: LanXLocoInfo_setFunction_def split: option.split)

section \<open>Feedback\<close>

lemma getFeedback_setFeedback:
  assumes "length m = 15" and "i < 80" and "k < 80"
  shows "LanRMBusDataChanged_getFeedbackStatus k (LanRMBusDataChanged_setFeedbackStatus i v m) =
    (if k = i then v else LanRMBusDataChanged_getFeedbackStatus k m)"
proof -
  have "k div 8 < 10" "i div 8 < 10" using assms by simp_all
  moreover have "k = i \<longleftrightarrow> k div 8 = i div 8 \<and> k mod 8 = i mod 8" by (metis div_mod_decomp)
  moreover have "k mod 8 < 8" "i mod 8 < 8" by simp_all
  ultimately show ?thesis using assms(1)
    by (auto simp: LanRMBusDataChanged_getFeedbackStatus_def LanRMBusDataChanged_setFeedbackStatus_def
        push_bit_eq_mult testFlag_exp bit_setFlag bit_exp_iff nth_list_update)
qed

lemma setFeedback_facts [simp]:
  "length (LanRMBusDataChanged_setFeedbackStatus i v m) = length m"
  "Z21_dataLen (LanRMBusDataChanged_setFeedbackStatus i v m) = Z21_dataLen m"
  "Z21_header (LanRMBusDataChanged_setFeedbackStatus i v m) = Z21_header m"
  "LanRMBusDataChanged_setFeedbackStatus i v m ! 4 = m ! 4"
  by (simp_all add: LanRMBusDataChanged_setFeedbackStatus_def head_update)

end
