(* ===== verification/Z21_Reachable.thy ===== *)
theory Z21_Reachable
  imports Z21_ClientKernel Z21_Roundtrip
begin

text \<open>
  The steps of the client's two threads, in any order, and the invariant of the reachable states:
  what is sent is valid, and between two steps of the event loop the guard that suppresses echoes is
  down.
\<close>

section \<open>Commands are valid\<close>

lemma form_SetLocoDrive [simp]:
  "Z21_form 10 LAN_X_SET_LOCO (LanXSetLocoDrive u)"
  "Z21_form n x (LanXSetLocoDrive_setSpeedSteps s m) = Z21_form n x m"
  "Z21_form n x (LanXSetLocoDrive_setSpeedStep v m) = Z21_form n x m"
  "Z21_form n x (LanXSetLocoDrive_setDirection d m) = Z21_form n x m"
  "Z21_form n x (LanXSetLocoDrive_setEmergencyStop m) = Z21_form n x m"
  "Z21_form n x (LanXSetLocoFunction_setSwitchType sw m) = Z21_form n x m"
  "Z21_form n x (LanXSetLocoFunction_setFunctionIndex i m) = Z21_form n x m"
  by (simp_all add: LanXSetLocoDrive_def LanXSetLocoDrive_setSpeedSteps_def LanXSetLocoDrive_setSpeedStep_def
      LanXSetLocoDrive_setDirection_def LanXSetLocoDrive_setEmergencyStop_def LanXSetLocoFunction_setSwitchType_def
      LanXSetLocoFunction_setFunctionIndex_def split: prod.split)

lemma form_driveCommand [simp]: "Z21_form 10 LAN_X_SET_LOCO (Z21_driveCommand a l d t s)"
  by (simp add: Z21_driveCommand_def Let_def)

lemma LanXGetLocoInfo_valid: "Z21_valid (LanXGetLocoInfo a l)"
  unfolding LanXGetLocoInfo_def by (rule form_valid [of 9 LAN_X_GET_LOCO_INFO]) simp_all

lemma LanXSetLocoFunction_valid: "Z21_valid (LanXSetLocoFunction a l n v)"
  unfolding LanXSetLocoFunction_def by (rule form_valid [of 10 LAN_X_SET_LOCO]) simp_all

lemma drive_valid: "Z21_form 10 LAN_X_SET_LOCO m \<Longrightarrow> Z21_valid (LanX_updateChecksum m)"
  using form_valid [of 10 LAN_X_SET_LOCO m] by simp

section \<open>Frames\<close>

named_theorems z21_defs \<open>the operations that only change the state's fields\<close>

lemmas [z21_defs] = Z21_eventLoopCall_def Z21_post_def Z21_call_def Z21_setLocoCache_def Let_def

lemma z21_send_frame [simp]:
  "z_wire (Z21_send m k) = z_wire k @ [(m, z_ioSend k (z_wire k) m)]"
  "z_tasks (Z21_send m k) = z_tasks k"
  "z_isUpdatingDecoderFromKernel (Z21_send m k) = z_isUpdatingDecoderFromKernel k"
  "z_decoders (Z21_send m k) = z_decoders k"
  "z_posted (Z21_send m k) = z_posted k @
    (if z_ioSend k (z_wire k) m \<and> z_debugLogRXTX k then [ZcTX m] else [])"
  by (simp_all add: Z21_send_def z21_defs)

text \<open>Receiving sends nothing and posts nothing to the kernel's thread.\<close>

definition receives :: "Z21_Client \<Rightarrow> Z21_Client \<Rightarrow> bool" where
  "receives k k' \<longleftrightarrow> z_wire k' = z_wire k \<and> z_tasks k' = z_tasks k \<and>
    z_isUpdatingDecoderFromKernel k' = z_isUpdatingDecoderFromKernel k \<and> z_decoders k' = z_decoders k"

lemma receives_refl [simp]: "receives k k"
  by (simp add: receives_def)

lemma receives_trans: "receives a b \<Longrightarrow> receives b c \<Longrightarrow> receives a c"
  by (simp add: receives_def)

fun closureOk :: "Z21_closure \<Rightarrow> bool" where
  "closureOk (ZcLocoInfo a e s n dir val ch) \<longleftrightarrow> dir \<noteq> DirUnknown \<and> length val \<le> 32"
| "closureOk _ \<longleftrightarrow> True"

definition posts :: "Z21_Client \<Rightarrow> Z21_Client \<Rightarrow> bool" where
  "posts k k' \<longleftrightarrow> receives k k' \<and> (list_all closureOk (z_posted k) \<longrightarrow> list_all closureOk (z_posted k'))"

lemma posts_refl [simp]: "posts k k"
  by (simp add: posts_def)

lemma posts_trans: "posts a b \<Longrightarrow> posts b c \<Longrightarrow> posts a c"
  unfolding posts_def using receives_trans by blast

lemma posts_eventLoopCall: "closureOk c \<Longrightarrow> posts k (Z21_eventLoopCall c k)"
  by (simp add: posts_def receives_def z21_defs)

lemma direction_known [simp]: "Z21_getDirection b \<noteq> DirUnknown"
  by (simp add: Z21_getDirection_def)

lemma posts_LocoInfo: "posts k (Z21_receive_LocoInfo nan now m k)"
  by (simp add: Z21_receive_LocoInfo_def posts_def receives_def z21_defs LanXLocoInfo_direction_def)

lemma posts_LanX: "posts k (Z21_receive_LanX nan now m k)"
  by (simp add: Z21_receive_LanX_def posts_eventLoopCall posts_LocoInfo)

lemma posts_rbus: "posts k (Z21_receive_rbus m i k)"
  by (simp add: Z21_receive_rbus_def posts_def receives_def z21_defs)

lemma posts_fold: "(\<And>i k. posts k (f i k)) \<Longrightarrow> posts k (fold f is k)"
  by (induction "is" arbitrary: k) (auto intro: posts_trans)

lemma posts_others:
  "posts k (Z21_receive_SerialNumber m k)" "posts k (Z21_receive_HardwareInfo m k)"
  "posts k (Z21_receive_LocoNetDetector m k)" "posts k (Z21_receive_BroadcastFlags m k)"
  "posts k (Z21_receive_SystemState m k)" "posts k (Z21_receive_RMBus m k)"
  by (simp_all add: Z21_receive_SerialNumber_def Z21_receive_HardwareInfo_def Z21_receive_LocoNetDetector_def
      Z21_receive_BroadcastFlags_def Z21_receive_SystemState_def Z21_receive_RMBus_def posts_fold posts_rbus)
    (simp_all add: posts_def receives_def z21_defs)

lemma posts_if: "posts k a \<Longrightarrow> posts k b \<Longrightarrow> posts k (if c then a else b)"
  by simp

lemma posts_receive: "posts k (Z21_receive nan now m k)"
  unfolding Z21_receive_def Let_def
  by (rule posts_trans [of k "if z_debugLogRXTX k then Z21_eventLoopCall (ZcRX m) k else k"];
      intro posts_if posts_LanX posts_others posts_eventLoopCall posts_refl) simp

section \<open>The guard\<close>

lemma guarded_assign:
  assumes "length (snd r) \<le> 1" and "z_isUpdatingDecoderFromKernel k"
  shows "receives (k\<lparr>z_decoders := (z_decoders k)(i := fst r)\<rparr>)
    (Z21_assign i r k\<lparr>z_isUpdatingDecoderFromKernel := True\<rparr>)" "z_posted (Z21_assign i r k) = z_posted k"
proof -
  from assms(1) have "snd r = [] \<or> (\<exists>c. snd r = [c])" by (cases "snd r") auto
  then show "receives (k\<lparr>z_decoders := (z_decoders k)(i := fst r)\<rparr>)
    (Z21_assign i r k\<lparr>z_isUpdatingDecoderFromKernel := True\<rparr>)" "z_posted (Z21_assign i r k) = z_posted k"
    using assms(2) by (auto simp: Z21_assign_def Z21_decoderChanged_def receives_def)
qed

text \<open>A setter of a decoder tells at most one change, and does not throw for values of messages.\<close>

definition quiet :: "(Decoder \<Rightarrow> (Decoder \<times> DecoderChange list) option) \<Rightarrow> bool" where
  "quiet f \<longleftrightarrow> (\<forall>d. \<exists>r. f d = Some r \<and> length (snd r) \<le> 1)"

lemma quiet_setters:
  "quiet (\<lambda>d. Some (Decoder_setEmergencyStop e d))"
  "dir \<noteq> DirUnknown \<Longrightarrow> quiet (Decoder_setDirection dir)"
  "quiet (Decoder_setThrottle (speedStepToThrottle s n))"
proof -
  show "quiet (\<lambda>d. Some (Decoder_setEmergencyStop e d))"
    by (simp add: quiet_def Decoder_setEmergencyStop_def)
  show "dir \<noteq> DirUnknown \<Longrightarrow> quiet (Decoder_setDirection dir)"
    by (auto simp: quiet_def Decoder_setDirection_def)
  have "\<exists>w. limitThrottle (speedStepToThrottle s n) = Some w"
  proof (cases "n = 0")
    case False
    define q :: rat where "q = of_nat (min s n) / of_nat n"
    have q: "0 \<le> q" "q \<le> 1" using False by (simp_all add: q_def divide_le_eq)
    have "\<bar>fl32 q - q\<bar> \<le> 1 / 2 ^ 24" using fl32_near [OF q(1)] q(2) by simp
    then have "fl32 q - q \<le> 1 / 2 ^ 24" by (rule abs_le_D1)
    then have "fl32 q < 1 + 100 / 2 ^ 23" using q(2) by simp
    moreover have "speedStepToThrottle s n = fl32 q" using False by (simp add: speedStepToThrottle_def q_def)
    ultimately show ?thesis
      using fl32_nonneg [OF q(1)] by (auto simp: limitThrottle_def throttleMin_def throttleMax_def)
  qed (simp add: speedStepToThrottle_def limitThrottle_def throttleMin_def throttleMax_def)
  then show "quiet (Decoder_setThrottle (speedStepToThrottle s n))"
    by (auto simp: quiet_def Decoder_setThrottle_def)
qed

definition silentRun :: "Z21_Client \<Rightarrow> Z21_Client \<times> bool \<Rightarrow> bool" where
  "silentRun k r \<longleftrightarrow> snd r \<and> z_tasks (fst r) = z_tasks k \<and> z_wire (fst r) = z_wire k \<and> z_posted (fst r) = z_posted k"

lemma guarded_silent:
  assumes "silentRun k r" and "quiet f"
  shows "silentRun k (Z21_guarded c i f r)"
proof (cases c)
  case True
  let ?k = "(fst r)\<lparr>z_isUpdatingDecoderFromKernel := True\<rparr>"
  obtain x where x: "f (z_decoders ?k i) = Some x" "length (snd x) \<le> 1"
    using assms(2) unfolding quiet_def by meson
  show ?thesis
    using guarded_assign [of x ?k i] assms(1) True x by (simp add: Z21_guarded_def silentRun_def receives_def)
next
  case False
  then show ?thesis using assms(1) by (simp add: Z21_guarded_def)
qed

lemma LocoInfo_silent:
  assumes "dir \<noteq> DirUnknown" and "\<not> z_isUpdatingDecoderFromKernel k"
  shows "z_tasks (Z21_run_LocoInfo a e s n dir val ch k) = z_tasks k"
    and "z_wire (Z21_run_LocoInfo a e s n dir val ch k) = z_wire k"
    and "z_posted (Z21_run_LocoInfo a e s n dir val ch k) = z_posted k"
    and "\<not> z_isUpdatingDecoderFromKernel (Z21_run_LocoInfo a e s n dir val ch k)"
proof -
  let ?k = "Z21_run_LocoInfo a e s n dir val ch k"
  have "z_tasks ?k = z_tasks k \<and> z_wire ?k = z_wire k \<and> z_posted ?k = z_posted k \<and> \<not> z_isUpdatingDecoderFromKernel ?k"
  proof (cases "findDecoder (z_decoders k) (Z21_getProtocol a) a (z_decoderList k)")
    case None
    then show ?thesis using assms(2) by (simp add: Z21_run_LocoInfo_def)
  next
    case (Some i)
    let ?r = "Z21_guarded (has_change ch (chThrottle OR chSpeedSteps)) i (Decoder_setThrottle (speedStepToThrottle (unat s) (unat n)))
      (Z21_guarded (has_change ch chDirection) i (Decoder_setDirection dir)
        (Z21_guarded (has_change ch chEmergencyStop) i (\<lambda>d. Some (Decoder_setEmergencyStop e d)) (k, True)))"
    have "silentRun k (k, True)" by (simp add: silentRun_def)
    then have "silentRun k ?r" using assms(1) by (intro guarded_silent quiet_setters)
    then show ?thesis using Some
      by (simp add: Z21_run_LocoInfo_def Let_def silentRun_def Z21_setFunctions_def)
  qed
  then show "z_tasks ?k = z_tasks k" "z_wire ?k = z_wire k" "z_posted ?k = z_posted k" "\<not> z_isUpdatingDecoderFromKernel ?k"
    by blast+
qed

section \<open>Reachable states\<close>

definition Z21_Client_init :: "Z21_Client \<Rightarrow> bool" where
  "Z21_Client_init k \<longleftrightarrow> z_wire k = [] \<and> z_posted k = [] \<and> z_tasks k = [] \<and> z_calls k = [] \<and>
    \<not> z_isUpdatingDecoderFromKernel k \<and> z_locoCache k = Map.empty \<and>
    z_trackPowerOn k = TriUndefined \<and> z_emergencyStop k = TriUndefined"

text \<open>
  The kernel's thread runs a closure, receives any message, or a timer expires; the event loop runs a
  closure, an operation of the interface, or sets a decoder (a change of any kind).
\<close>

inductive z21_step :: "Z21_Client \<Rightarrow> Z21_Client \<Rightarrow> bool" where
  z21_task: "z_tasks k = t # ts \<Longrightarrow> z21_step k (Z21_runTask nan now u t (k\<lparr>z_tasks := ts\<rparr>))"
| z21_message: "z21_step k (Z21_receive nan now m k)"
| z21_keepAlive: "z_keepAliveTimer k = Some n \<Longrightarrow> z21_step k (Z21_keepAliveTimerExpired k)"
| z21_purge: "z_purgeTimer k \<Longrightarrow> z21_step k (Z21_inactiveDecoderPurgeTimerExpired now k)"
| z21_closure: "z_posted k = c # cs \<Longrightarrow> z21_step k (Z21_runClosure c (k\<lparr>z_posted := cs\<rparr>))"
| z21_on: "z21_step k (Z21_trackPowerOn k)"
| z21_off: "z21_step k (Z21_trackPowerOff k)"
| z21_stop: "z21_step k (Z21_emergencyStop k)"
| z21_output: "Z21_setOutput channel address v k = Some r \<Longrightarrow> z21_step k (snd r)"
| z21_input: "z21_step k (Z21_simulateInputChange ch n act k)"
| z21_decoder: "z21_step k (Z21_assign i (d, changes) k)"
| z21_start: "z21_step k (Z21_post (ZtStart ok) k)"
| z21_stopped: "z21_step k (Z21_post ZtStop k)"
| z21_config: "z21_step k (Z21_post (ZtSetDebugLogRXTX b) k)"

fun taskOk :: "Z21_task \<Rightarrow> bool" where
  "taskOk (ZtSend m) \<longleftrightarrow> Z21_valid m"
| "taskOk _ \<longleftrightarrow> True"

definition z21_inv :: "Z21_Client \<Rightarrow> bool" where
  "z21_inv k \<longleftrightarrow> list_all (\<lambda>x. Z21_valid (fst x)) (z_wire k) \<and> list_all taskOk (z_tasks k) \<and>
    list_all closureOk (z_posted k) \<and> \<not> z_isUpdatingDecoderFromKernel k"

lemma inv_posts: "posts k k' \<Longrightarrow> z21_inv k \<Longrightarrow> z21_inv k'"
  by (simp add: z21_inv_def posts_def receives_def)

lemma inv_send: "Z21_valid m \<Longrightarrow> z21_inv k \<Longrightarrow> z21_inv (Z21_send m k)"
  by (simp add: z21_inv_def)

lemma inv_post: "taskOk t \<Longrightarrow> z21_inv k \<Longrightarrow> z21_inv (Z21_post t k)"
  by (simp add: z21_inv_def z21_defs)

text \<open>Fields the invariant does not read.\<close>

lemma inv_cong:
  "z_wire k' = z_wire k \<Longrightarrow> z_tasks k' = z_tasks k \<Longrightarrow> z_posted k' = z_posted k \<Longrightarrow>
    z_isUpdatingDecoderFromKernel k' = z_isUpdatingDecoderFromKernel k \<Longrightarrow> z21_inv k' = z21_inv k"
  by (simp add: z21_inv_def)

lemma inv_fields [simp]:
  "z21_inv (Z21_setLocoCache a c k) = z21_inv k"
  "z21_inv (Z21_call c' k) = z21_inv k"
  "z21_inv (k\<lparr>z_broadcastFlagsRetryCount := n\<rparr>) = z21_inv k"
  "z21_inv (k\<lparr>z_keepAliveTimer := t\<rparr>) = z21_inv k"
  "z21_inv (k\<lparr>z_purgeTimer := b\<rparr>) = z21_inv k"
  "z21_inv (k\<lparr>z_locoCache := lc\<rparr>) = z21_inv k"
  "z21_inv (k\<lparr>z_debugLogRXTX := b\<rparr>) = z21_inv k"
  "z21_inv (k\<lparr>z_decoders := D\<rparr>) = z21_inv k"
  by (rule inv_cong; simp add: z21_defs)+

lemma inv_startKeepAlive: "z21_inv k \<Longrightarrow> z21_inv (Z21_startKeepAliveTimer k)"
  by (simp add: Z21_startKeepAliveTimer_def Let_def)

lemma inv_keepAlive: "z21_inv k \<Longrightarrow> z21_inv (Z21_keepAliveTimerExpired k)"
  by (simp add: Z21_keepAliveTimerExpired_def Let_def inv_startKeepAlive inv_send parameter_valid fixed_valid)

lemma inv_decoderChanged_posted:
  "z21_inv k \<Longrightarrow> z21_inv (Z21_decoderChanged_posted nan now a l dir t s e ch n v k)"
  by (simp add: Z21_decoderChanged_posted_def Let_def inv_send LanXSetLocoFunction_valid drive_valid)

lemma inv_start: "z21_inv k \<Longrightarrow> z21_inv (Z21_start_posted ok k)"
proof -
  assume "z21_inv k"
  then have "z21_inv (Z21_onStart k)"
    unfolding Z21_onStart_def Let_def Z21_startInactiveDecoderPurgeTimer_def inv_fields
    by (intro inv_startKeepAlive inv_send parameter_valid fixed_valid) (simp add: z21_inv_def)
  then show ?thesis using \<open>z21_inv k\<close>
    by (auto simp: Z21_start_posted_def intro: inv_posts [OF posts_eventLoopCall])
qed

lemma inv_runTask: "taskOk t \<Longrightarrow> z21_inv k \<Longrightarrow> z21_inv (Z21_runTask nan now u t k)"
  by (cases t)
    (auto simp: inv_send inv_decoderChanged_posted inv_start Z21_onStop_def fixed_valid Z21_simulateInput_posted_def
      Let_def intro: inv_posts [OF posts_receive] split: Z21_InputChannel.split)

lemma inv_runClosure: "closureOk c \<Longrightarrow> z21_inv k \<Longrightarrow> z21_inv (Z21_runClosure c k)"
  by (cases c) (auto simp: Z21_setPower_def Let_def z21_inv_def LocoInfo_silent Z21_call_def)

lemma inv_assign: "z21_inv k \<Longrightarrow> z21_inv (Z21_assign i r k)"
proof -
  assume "z21_inv k"
  moreover have "z21_inv (fold (Z21_decoderChanged d) cs k)" if "z21_inv k" for d cs k
    using that by (induction cs arbitrary: k) (auto simp: Z21_decoderChanged_def z21_inv_def z21_defs)
  ultimately show ?thesis by (simp add: Z21_assign_def)
qed

lemma inv_step: "z21_step k k' \<Longrightarrow> z21_inv k \<Longrightarrow> z21_inv k'"
proof (induction rule: z21_step.induct)
  case (z21_task k t ts nan now u)
  then show ?case by (intro inv_runTask) (simp_all add: z21_inv_def)
next
  case (z21_closure k c cs)
  then show ?case by (intro inv_runClosure) (simp_all add: z21_inv_def)
next
  case (z21_output channel address v k r)
  then show ?case
    by (auto simp: Z21_setOutput_def inv_post sealed_valid split: if_splits OutputValue.splits)
qed (auto simp: inv_keepAlive Z21_inactiveDecoderPurgeTimerExpired_def Z21_startInactiveDecoderPurgeTimer_def Let_def
    Z21_trackPowerOn_def Z21_trackPowerOff_def Z21_emergencyStop_def Z21_simulateInputChange_def inv_post fixed_valid
    inv_assign intro: inv_posts [OF posts_receive])

definition z21_reachable :: "Z21_Client \<Rightarrow> bool" where
  "z21_reachable k \<longleftrightarrow> (\<exists>k0. Z21_Client_init k0 \<and> z21_step\<^sup>*\<^sup>* k0 k)"

lemma reachable_inv: "z21_reachable k \<Longrightarrow> z21_inv k"
proof -
  assume "z21_reachable k"
  then obtain k0 where 0: "Z21_Client_init k0" and r: "z21_step\<^sup>*\<^sup>* k0 k" by (auto simp: z21_reachable_def)
  from r show ?thesis
    by (induction rule: rtranclp_induct) (use 0 in \<open>auto simp: Z21_Client_init_def z21_inv_def dest: inv_step [unfolded z21_inv_def]\<close>)
qed

end
