(* ===== verification/Z21_ServerKernel.thy ===== *)
theory Z21_ServerKernel
  imports Z21_Messages Throttles "HOL-Library.AList"
begin

text \<open>
  The server's kernel, \<^verbatim>\<open>z21/serverkernel.hpp\<close> and \<^verbatim>\<open>serverkernel.cpp\<close>: Traintastic answers Z21
  clients as a command station would.  It keeps for each client the flags and the locomotives it
  subscribed to, and for each locomotive how many clients did.  As for the client, closures for the
  event loop wait in \<open>sv_posted\<close>, those for the kernel's thread in \<open>sv_tasks\<close>.
\<close>

section \<open>State\<close>

type_synonym LocoKey = "u16 \<times> bool"

record Z21_ServerConfig =
  allowEmergencyStop :: bool
  allowTrackPowerOff :: bool
  allowTrackPowerOnReleaseEmergencyStop :: bool
  sv_debugLogRXTX :: bool

record Z21_ServerClient =
  cl_lastSeen :: int
  cl_broadcastFlags :: u32
  cl_subscriptions :: "LocoKey list"

datatype Z21_serverClosure =
    ZeLogRX nat bytes
  | ZeLogTX nat bytes
  | ZeOnTrackPowerOn
  | ZeOnTrackPowerOff
  | ZeOnEmergencyStop
  | ZeGetLocoInfo u16 bool nat
  | ZeSetLocoDrive bytes
  | ZeSetLocoFunction bytes
  | ZeSubscribe LocoKey
  | ZeUnsubscribe LocoKey
  | ZeBroadcastLoco LocoKey bytes

datatype Z21_serverTask =
    ZkSendTo bytes nat
  | ZkSetState bool bool
  | ZkSetConfig Z21_ServerConfig
  | ZkReceiveFrom bytes nat

datatype Z21_serverCall =
    SvLogRX nat bytes
  | SvLogTX nat bytes
  | SvTrackPowerOn
  | SvTrackPowerOff
  | SvEmergencyStop
  | SvDecoderChanged nat DecoderChange

text \<open>A subscription is the decoder whose signal is connected (none after a stop) and the count.\<close>

record Z21_Server =
  sv_config :: Z21_ServerConfig
  sv_clients :: "(nat \<times> Z21_ServerClient) list"
  sv_subscriptions :: "LocoKey \<Rightarrow> (nat option \<times> nat) option"
  sv_trackPowerOn :: TriState
  sv_emergencyStop :: TriState
  sv_onTrackPowerOff :: bool
  sv_onTrackPowerOn :: bool
  sv_onEmergencyStop :: bool
  sv_decoders :: "nat \<Rightarrow> Decoder"
  sv_decoderList :: "nat list"
  sv_purgeTimer :: bool
  sv_ioSendTo :: "(bytes \<times> nat \<times> bool) list \<Rightarrow> bytes \<Rightarrow> nat \<Rightarrow> bool"
  sv_wire :: "(bytes \<times> nat \<times> bool) list"
  sv_purged :: "nat list"
  sv_posted :: "Z21_serverClosure list"
  sv_tasks :: "Z21_serverTask list"
  sv_calls :: "Z21_serverCall list"

abbreviation (input) "sv_firmwareVersionMajor \<equiv> (1 :: u8)"
abbreviation (input) "sv_firmwareVersionMinor \<equiv> (30 :: u8)"
abbreviation (input) "sv_hardwareType \<equiv> (0x00000204 :: u32)"
abbreviation (input) "sv_serialNumber \<equiv> (123456789 :: u32)"
abbreviation (input) "sv_xBusVersion \<equiv> (30 :: u8)"
abbreviation (input) "sv_commandStationId \<equiv> (0x12 :: u8)"
abbreviation (input) "subscriptionMax \<equiv> (16 :: nat)"
abbreviation (input) "inactiveClientPurgeTime \<equiv> (60 :: int)"

definition ZS_eventLoopCall :: "Z21_serverClosure \<Rightarrow> Z21_Server \<Rightarrow> Z21_Server" where
  "ZS_eventLoopCall c k = k\<lparr>sv_posted := sv_posted k @ [c]\<rparr>"

definition ZS_post :: "Z21_serverTask \<Rightarrow> Z21_Server \<Rightarrow> Z21_Server" where
  "ZS_post t k = k\<lparr>sv_tasks := sv_tasks k @ [t]\<rparr>"

definition ZS_call :: "Z21_serverCall \<Rightarrow> Z21_Server \<Rightarrow> Z21_Server" where
  "ZS_call c k = k\<lparr>sv_calls := sv_calls k @ [c]\<rparr>"

text \<open>\<^verbatim>\<open>m_clients[clientId]\<close>, which makes the client when it is missing.\<close>

definition ZS_newClient :: Z21_ServerClient where
  "ZS_newClient = \<lparr>cl_lastSeen = 0, cl_broadcastFlags = 0, cl_subscriptions = []\<rparr>"

definition ZS_client :: "nat \<Rightarrow> Z21_Server \<Rightarrow> Z21_ServerClient" where
  "ZS_client clientId k = (case map_of (sv_clients k) clientId of Some c \<Rightarrow> c | None \<Rightarrow> ZS_newClient)"

definition ZS_setClient :: "nat \<Rightarrow> Z21_ServerClient \<Rightarrow> Z21_Server \<Rightarrow> Z21_Server" where
  "ZS_setClient clientId c k = k\<lparr>sv_clients := AList.update clientId c (sv_clients k)\<rparr>"

section \<open>Sending\<close>

definition ZS_sendTo :: "bytes \<Rightarrow> nat \<Rightarrow> Z21_Server \<Rightarrow> Z21_Server" where
  "ZS_sendTo message clientId k =
    (let ok = sv_ioSendTo k (sv_wire k) message clientId;
         k = k\<lparr>sv_wire := sv_wire k @ [(message, clientId, ok)]\<rparr>
     in if ok \<and> sv_debugLogRXTX (sv_config k) then ZS_eventLoopCall (ZeLogTX clientId message) k else k)"

definition ZS_broadcast :: "bytes \<Rightarrow> u32 \<Rightarrow> Z21_Server \<Rightarrow> Z21_Server" where
  "ZS_broadcast message broadcastFlags k =
    fold (\<lambda>(i, c) k. if cl_broadcastFlags c AND broadcastFlags \<noteq> 0 then ZS_sendTo message i k else k)
      (sv_clients k) k"

definition ZS_centralState :: "Z21_Server \<Rightarrow> u8" where
  "ZS_centralState k =
    orFlag (orFlag 0 CENTRALSTATE_EMERGENCYSTOP (sv_emergencyStop k \<noteq> TriFalse))
      CENTRALSTATE_TRACKVOLTAGEOFF (sv_trackPowerOn k \<noteq> TriTrue)"

definition ZS_getLanSystemStateDataChanged :: "Z21_Server \<Rightarrow> bytes" where
  "ZS_getLanSystemStateDataChanged k =
    LanSystemState_setCentralState (ZS_centralState k) LanSystemStateDataChanged"

definition ZS_setState :: "bool \<Rightarrow> bool \<Rightarrow> Z21_Server \<Rightarrow> Z21_Server" where
  "ZS_setState trackPowerOn emergencyStop k =
    (let trackPowerOnTri = toTriState trackPowerOn;
         emergencyStopTri = toTriState emergencyStop;
         trackPowerOnChanged = (sv_trackPowerOn k \<noteq> trackPowerOnTri);
         emergencyStopChanged = (sv_emergencyStop k \<noteq> emergencyStopTri);
         k = k\<lparr>sv_trackPowerOn := trackPowerOnTri, sv_emergencyStop := emergencyStopTri\<rparr>;
         k = (if emergencyStopChanged \<and> sv_emergencyStop k = TriTrue
              then ZS_broadcast LanXBCStopped BF_PowerLocoTurnoutChanges k else k);
         k = (if trackPowerOnChanged \<and> sv_trackPowerOn k = TriFalse
              then ZS_broadcast LanXBCTrackPowerOff BF_PowerLocoTurnoutChanges k else k);
         k = (if (trackPowerOnChanged \<or> emergencyStopChanged) \<and> sv_trackPowerOn k = TriTrue \<and>
                 sv_emergencyStop k = TriFalse
              then ZS_broadcast LanXBCTrackPowerOn BF_PowerLocoTurnoutChanges k else k)
     in if trackPowerOnChanged \<or> emergencyStopChanged
        then ZS_broadcast (ZS_getLanSystemStateDataChanged k) BF_PowerLocoTurnoutChanges k else k)"

section \<open>Subscriptions\<close>

definition ZS_getDecoder :: "u16 \<Rightarrow> bool \<Rightarrow> Z21_Server \<Rightarrow> nat option" where
  "ZS_getDecoder address longAddress k =
    (let D = sv_decoders k; protocol = (if longAddress then DCCLong else DCCShort)
     in case find (\<lambda>i. dec_protocol (D i) = protocol \<and> dec_address (D i) = address) (sv_decoderList k) of
          Some i \<Rightarrow> Some i
        | None \<Rightarrow> find (\<lambda>i. dec_address (D i) = address) (sv_decoderList k))"

definition ZS_unsubscribe :: "nat \<Rightarrow> LocoKey \<Rightarrow> Z21_Server \<Rightarrow> Z21_Server" where
  "ZS_unsubscribe clientId key k =
    (let c = ZS_client clientId k;
         k = ZS_setClient clientId (c\<lparr>cl_subscriptions := remove1 key (cl_subscriptions c)\<rparr>) k
     in ZS_eventLoopCall (ZeUnsubscribe key) k)"

definition ZS_subscribe :: "nat \<Rightarrow> u16 \<Rightarrow> bool \<Rightarrow> Z21_Server \<Rightarrow> Z21_Server" where
  "ZS_subscribe clientId address longAddress k =
    (let c = ZS_client clientId k; key = (address, longAddress)
     in if key \<in> set (cl_subscriptions c) then ZS_setClient clientId c k
        else
          (let subscriptions = cl_subscriptions c @ [key];
               k = ZS_setClient clientId (c\<lparr>cl_subscriptions := subscriptions\<rparr>) k;
               k = (if length subscriptions > subscriptionMax then ZS_unsubscribe clientId (hd subscriptions) k
                    else k)
           in ZS_eventLoopCall (ZeSubscribe key) k))"

definition ZS_removeClient :: "nat \<Rightarrow> Z21_Server \<Rightarrow> Z21_Server" where
  "ZS_removeClient clientId k =
    (let k = ZS_setClient clientId (ZS_client clientId k) k;
         k = fold (ZS_unsubscribe clientId) (cl_subscriptions (ZS_client clientId k)) k
     in k\<lparr>sv_clients := AList.delete clientId (sv_clients k), sv_purged := sv_purged k @ [clientId]\<rparr>)"

section \<open>Receiving\<close>

text \<open>\<^verbatim>\<open>XpressNet::isChecksumValid\<close>: the size is the low nibble of the header.\<close>

definition ZS_isChecksumValid :: "bytes \<Rightarrow> bool" where
  "ZS_isChecksumValid m =
    (let n = unat (Z21_xheader m AND 0x0F) in Z21_calcChecksum n m = m ! (5 + n))"

text \<open>\<open>u\<close>: the checksum byte before it is computed.\<close>

definition ZS_receive_21 :: "bytes \<Rightarrow> nat \<Rightarrow> u8 \<Rightarrow> Z21_Server \<Rightarrow> Z21_Server" where
  "ZS_receive_21 m clientId u k =
    (if Z21_msgEq m LanXGetVersion then
       ZS_sendTo (LanXGetVersionReply sv_xBusVersion sv_commandStationId) clientId k
     else if Z21_msgEq m LanXGetStatus then
       ZS_sendTo (LanX_updateChecksum (LanXStatusChanged (ZS_centralState k) u)) clientId k
     else if Z21_msgEq m LanXSetTrackPowerOn then
       (if allowTrackPowerOnReleaseEmergencyStop (sv_config k) \<and>
           (sv_trackPowerOn k \<noteq> TriTrue \<or> sv_emergencyStop k \<noteq> TriFalse) \<and> sv_onTrackPowerOn k
        then ZS_eventLoopCall ZeOnTrackPowerOn k else k)
     else if Z21_msgEq m LanXSetTrackPowerOff then
       (if allowTrackPowerOff (sv_config k) \<and> sv_trackPowerOn k \<noteq> TriFalse \<and> sv_onTrackPowerOff k
        then ZS_eventLoopCall ZeOnTrackPowerOff k else k)
     else k)"

definition ZS_receive_SET_LOCO :: "bytes \<Rightarrow> nat \<Rightarrow> Z21_Server \<Rightarrow> Z21_Server" where
  "ZS_receive_SET_LOCO m clientId k =
    (if 0x10 \<le> m ! 5 \<and> m ! 5 \<le> 0x13 then
       ZS_eventLoopCall (ZeSetLocoDrive (take 10 m))
         (ZS_subscribe clientId (Z21_locoAddress 6 m) (Z21_isLongAddress 6 m) k)
     else if m ! 5 = 0xF8 \<and> LanXSetLocoFunction_switchType m \<noteq> SwitchInvalid then
       ZS_eventLoopCall (ZeSetLocoFunction (take 10 m))
         (ZS_subscribe clientId (Z21_locoAddress 6 m) (Z21_isLongAddress 6 m) k)
     else k)"

definition ZS_receive_LanX :: "bytes \<Rightarrow> nat \<Rightarrow> u8 \<Rightarrow> Z21_Server \<Rightarrow> Z21_Server" where
  "ZS_receive_LanX m clientId u k =
    (if \<not> ZS_isChecksumValid m then k
     else if Z21_xheader m = 0x21 then ZS_receive_21 m clientId u k
     else if Z21_xheader m = LAN_X_SET_STOP then
       (if Z21_msgEq m LanXSetStop \<and> allowEmergencyStop (sv_config k) \<and> sv_emergencyStop k \<noteq> TriTrue \<and>
           sv_onEmergencyStop k
        then ZS_eventLoopCall ZeOnEmergencyStop k else k)
     else if Z21_xheader m = LAN_X_GET_LOCO_INFO then
       (if m ! 5 = 0xF0 then
          ZS_eventLoopCall (ZeGetLocoInfo (Z21_locoAddress 6 m) (Z21_isLongAddress 6 m) clientId)
            (ZS_subscribe clientId (Z21_locoAddress 6 m) (Z21_isLongAddress 6 m) k)
        else k)
     else if Z21_xheader m = LAN_X_SET_LOCO then ZS_receive_SET_LOCO m clientId k
     else if Z21_xheader m = LAN_X_GET_FIRMWARE_VERSION then
       (if Z21_msgEq m LanXGetFirmwareVersion then
          ZS_sendTo (LanXGetFirmwareVersionReply sv_firmwareVersionMajor sv_firmwareVersionMinor) clientId k
        else k)
     else k)"

definition ZS_dispatch :: "bytes \<Rightarrow> nat \<Rightarrow> u8 \<Rightarrow> Z21_Server \<Rightarrow> Z21_Server" where
  "ZS_dispatch m clientId u k =
    (let h = Z21_header m in
     if h = LAN_X then ZS_receive_LanX m clientId u k
     else if h = LAN_GET_LOCO_MODE then
       (if Z21_dataLen m = 6 then ZS_sendTo (LanGetLocoModeReply (LanLocoMode_address m) ModeDCC) clientId k else k)
     else if h = LAN_GET_SERIAL_NUMBER then
       (if Z21_dataLen m = 4 then ZS_sendTo (LanGetSerialNumberReply sv_serialNumber) clientId k else k)
     else if h = LAN_GET_HWINFO then
       (if Z21_dataLen m = 4 then
          ZS_sendTo (LanGetHardwareInfoReply sv_hardwareType sv_firmwareVersionMajor sv_firmwareVersionMinor) clientId k
        else k)
     else if h = LAN_GET_BROADCASTFLAGS then
       (if Z21_msgEq m LanGetBroadcastFlags then
          ZS_sendTo (LanSetBroadcastFlags (cl_broadcastFlags (ZS_client clientId k))) clientId k
        else k)
     else if h = LAN_SET_BROADCASTFLAGS then
       (if Z21_dataLen m = 8 then
          ZS_setClient clientId ((ZS_client clientId k)\<lparr>cl_broadcastFlags := Z21_broadcastFlags m\<rparr>) k
        else k)
     else if h = LAN_SYSTEMSTATE_GETDATA then
       (if Z21_msgEq m LanSystemStateGetData then ZS_sendTo (ZS_getLanSystemStateDataChanged k) clientId k else k)
     else if h = LAN_LOGOFF then
       (if Z21_msgEq m LanLogoff then k\<lparr>sv_clients := AList.delete clientId (sv_clients k)\<rparr> else k)
     else k)"

definition ZS_receiveFrom :: "int \<Rightarrow> bytes \<Rightarrow> nat \<Rightarrow> u8 \<Rightarrow> Z21_Server \<Rightarrow> Z21_Server" where
  "ZS_receiveFrom now m clientId u k =
    (let k = (if sv_debugLogRXTX (sv_config k) then ZS_eventLoopCall (ZeLogRX clientId m) k else k);
         k = ZS_setClient clientId ((ZS_client clientId k)\<lparr>cl_lastSeen := now\<rparr>) k
     in ZS_dispatch m clientId u k)"

section \<open>On the event loop\<close>

text \<open>\<^verbatim>\<open>LanXLocoInfo(const Decoder&)\<close> for a decoder of the model.\<close>

definition ZS_locoInfo :: "Decoder \<Rightarrow> bytes" where
  "ZS_locoInfo d =
    LanXLocoInfo (dec_address d) (dec_protocol d = DCCLong) (dec_speedSteps d) (dec_direction d)
      (dec_emergencyStop d) (\<lambda>n. word_of_int (throttleToSpeedStep (dec_throttle d) (unat n)))
      (map (\<lambda>f. (unat (df_number f), df_value f)) (dec_functions d))"

definition ZS_decoderChanged :: "Decoder \<Rightarrow> Z21_Server \<Rightarrow> Z21_Server" where
  "ZS_decoderChanged d k =
    ZS_eventLoopCall (ZeBroadcastLoco (dec_address d, dec_protocol d = DCCLong) (ZS_locoInfo d)) k"

text \<open>
  A decoder's callback tells its interface and then the signal's subscribers; \<open>keys\<close> is the order in
  which these are called.
\<close>

definition ZS_changed :: "LocoKey list \<Rightarrow> nat \<Rightarrow> Decoder \<Rightarrow> DecoderChange \<Rightarrow> Z21_Server \<Rightarrow> Z21_Server" where
  "ZS_changed keys i d ch k =
    fold (\<lambda>key k. case sv_subscriptions k key of
        Some (j, n) \<Rightarrow> if j = Some i then ZS_decoderChanged d k else k
      | None \<Rightarrow> k) keys (ZS_call (SvDecoderChanged i ch) k)"

definition ZS_assign :: "LocoKey list \<Rightarrow> nat \<Rightarrow> Decoder \<times> DecoderChange list \<Rightarrow> Z21_Server \<Rightarrow> Z21_Server" where
  "ZS_assign keys i r k =
    fold (ZS_changed keys i (fst r)) (snd r) (k\<lparr>sv_decoders := (sv_decoders k)(i := fst r)\<rparr>)"

text \<open>Direction and throttle of a message are values the setters take.\<close>

definition ZS_run_SetLocoDrive :: "LocoKey list \<Rightarrow> bytes \<Rightarrow> Z21_Server \<Rightarrow> Z21_Server" where
  "ZS_run_SetLocoDrive keys m k =
    (case ZS_getDecoder (Z21_locoAddress 6 m) (Z21_isLongAddress 6 m) k of
       None \<Rightarrow> k
     | Some i \<Rightarrow>
         let k = ZS_assign keys i (the (Decoder_setDirection (LanXSetLocoDrive_direction m) (sv_decoders k i))) k;
             k = ZS_assign keys i (Decoder_setEmergencyStop (LanXSetLocoDrive_isEmergencyStop m) (sv_decoders k i)) k;
             throttle = speedStepToThrottle (unat (LanXSetLocoDrive_speedStep m)) (unat (LanXSetLocoDrive_speedSteps m))
         in ZS_assign keys i (the (Decoder_setThrottle throttle (sv_decoders k i))) k)"

definition ZS_run_SetLocoFunction :: "LocoKey list \<Rightarrow> bytes \<Rightarrow> Z21_Server \<Rightarrow> Z21_Server" where
  "ZS_run_SetLocoFunction keys m k =
    (case ZS_getDecoder (Z21_locoAddress 6 m) (Z21_isLongAddress 6 m) k of
       None \<Rightarrow> k
     | Some i \<Rightarrow>
         let n = LanXSetLocoFunction_functionIndex m
         in case Decoder_getFunction n (sv_decoders k i) of
              None \<Rightarrow> k
            | Some f \<Rightarrow>
                (case LanXSetLocoFunction_switchType m of
                   SwitchOff \<Rightarrow> ZS_assign keys i (DecoderFunction_setValue n False (sv_decoders k i)) k
                 | SwitchOn \<Rightarrow> ZS_assign keys i (DecoderFunction_setValue n True (sv_decoders k i)) k
                 | SwitchToggle \<Rightarrow> ZS_assign keys i (DecoderFunction_setValue n (\<not> df_value f) (sv_decoders k i)) k
                 | SwitchInvalid \<Rightarrow> k))"

definition ZS_run_Subscribe :: "LocoKey \<Rightarrow> Z21_Server \<Rightarrow> Z21_Server" where
  "ZS_run_Subscribe key k =
    (case sv_subscriptions k key of
       None \<Rightarrow>
         (case ZS_getDecoder (fst key) (snd key) k of
            None \<Rightarrow> k
          | Some i \<Rightarrow> k\<lparr>sv_subscriptions := (sv_subscriptions k)(key := Some (Some i, 1))\<rparr>)
     | Some (i, n) \<Rightarrow> k\<lparr>sv_subscriptions := (sv_subscriptions k)(key := Some (i, n + 1))\<rparr>)"

definition ZS_run_Unsubscribe :: "LocoKey \<Rightarrow> Z21_Server \<Rightarrow> Z21_Server" where
  "ZS_run_Unsubscribe key k =
    (case sv_subscriptions k key of
       None \<Rightarrow> k
     | Some (i, n) \<Rightarrow>
         k\<lparr>sv_subscriptions := (sv_subscriptions k)(key := if n - 1 = 0 then None else Some (i, n - 1))\<rparr>)"

definition ZS_run_BroadcastLoco :: "LocoKey \<Rightarrow> bytes \<Rightarrow> Z21_Server \<Rightarrow> Z21_Server" where
  "ZS_run_BroadcastLoco key m k =
    fold (\<lambda>(i, c) k.
        if cl_broadcastFlags c AND BF_PowerLocoTurnoutChanges = BF_PowerLocoTurnoutChanges \<and>
           key \<in> set (cl_subscriptions c)
        then ZS_sendTo m i k else k) (sv_clients k) k"

fun ZS_runClosure :: "LocoKey list \<Rightarrow> Z21_serverClosure \<Rightarrow> Z21_Server \<Rightarrow> Z21_Server" where
  "ZS_runClosure keys (ZeLogRX i m) k = ZS_call (SvLogRX i m) k"
| "ZS_runClosure keys (ZeLogTX i m) k = ZS_call (SvLogTX i m) k"
| "ZS_runClosure keys ZeOnTrackPowerOn k = ZS_call SvTrackPowerOn k"
| "ZS_runClosure keys ZeOnTrackPowerOff k = ZS_call SvTrackPowerOff k"
| "ZS_runClosure keys ZeOnEmergencyStop k = ZS_call SvEmergencyStop k"
| "ZS_runClosure keys (ZeGetLocoInfo address longAddress clientId) k =
    (case ZS_getDecoder address longAddress k of
       None \<Rightarrow> k
     | Some i \<Rightarrow> ZS_post (ZkSendTo (ZS_locoInfo (sv_decoders k i)) clientId) k)"
| "ZS_runClosure keys (ZeSetLocoDrive m) k = ZS_run_SetLocoDrive keys m k"
| "ZS_runClosure keys (ZeSetLocoFunction m) k = ZS_run_SetLocoFunction keys m k"
| "ZS_runClosure keys (ZeSubscribe key) k = ZS_run_Subscribe key k"
| "ZS_runClosure keys (ZeUnsubscribe key) k = ZS_run_Unsubscribe key k"
| "ZS_runClosure keys (ZeBroadcastLoco key m) k = ZS_run_BroadcastLoco key m k"

section \<open>Tasks and timer\<close>

fun ZS_runTask :: "int \<Rightarrow> u8 \<Rightarrow> Z21_serverTask \<Rightarrow> Z21_Server \<Rightarrow> Z21_Server" where
  "ZS_runTask now u (ZkSendTo m clientId) k = ZS_sendTo m clientId k"
| "ZS_runTask now u (ZkSetState trackPowerOn emergencyStop) k = ZS_setState trackPowerOn emergencyStop k"
| "ZS_runTask now u (ZkSetConfig config) k = k\<lparr>sv_config := config\<rparr>"
| "ZS_runTask now u (ZkReceiveFrom m clientId) k = ZS_receiveFrom now m clientId u k"

definition ZS_onStart :: "Z21_Server \<Rightarrow> Z21_Server" where
  "ZS_onStart k = k\<lparr>sv_purgeTimer := True\<rparr>"

definition ZS_onStop :: "Z21_Server \<Rightarrow> Z21_Server" where
  "ZS_onStop k = k\<lparr>sv_purgeTimer := False,
     sv_subscriptions := (\<lambda>key. map_option (\<lambda>(i, n). (None, n)) (sv_subscriptions k key))\<rparr>"

definition ZS_inactiveClientPurgeTimerExpired :: "int \<Rightarrow> Z21_Server \<Rightarrow> Z21_Server" where
  "ZS_inactiveClientPurgeTimerExpired now k =
    (let purgeTime = now - inactiveClientPurgeTime * 1000;
         clientsToRemove = map fst (filter (\<lambda>(i, c). cl_lastSeen c < purgeTime) (sv_clients k))
     in (fold ZS_removeClient clientsToRemove k)\<lparr>sv_purgeTimer := True\<rparr>)"

end
