(* ===== verification/Z21_Behaviour.thy ===== *)
theory Z21_Behaviour
  imports Z21_Reachable Z21_ServerKernel
begin

text \<open>
  What the operations of the two kernels achieve: a command for a locomotive carries the decoder's
  state, a server that receives it drives its decoder the same way, and feedback of the R-Bus sets the
  inputs of its group.
\<close>

section \<open>Drive commands\<close>

lemma clampRat_range: "0 \<le> clampRat v 0 1" "clampRat v 0 1 \<le> 1"
  by (simp_all add: clampRat_def)

lemma throttleToSpeedStep_range:
  assumes "n < 2 ^ 16"
  shows "0 \<le> throttleToSpeedStep t n" "throttleToSpeedStep t n \<le> int n"
proof -
  define x :: rat where "x = clampRat t 0 1 * of_nat n"
  have x: "0 \<le> x" "x \<le> of_nat n"
    using clampRat_range [of t] mult_right_mono [of "clampRat t 0 1" 1 "of_nat n"] by (simp_all add: x_def)
  have n: "(of_nat n :: rat) < 2 ^ 16" using assms by simp
  have "fl32 x - x \<le> \<bar>fl32 x - x\<bar>" by simp
  also have "\<dots> \<le> x / 2 ^ 24" by (rule fl32_near [OF x(1)])
  also have "\<dots> < 1 / 2" using x(2) n by simp
  finally have "fl32 x + 1 / 2 < of_nat n + 1" using x(2) by simp
  then have "\<lfloor>fl32 x + 1 / 2\<rfloor> < int n + 1" by linarith
  moreover have "0 \<le> fl32 x" by (rule fl32_nonneg [OF x(1)])
  ultimately show "0 \<le> throttleToSpeedStep t n" "throttleToSpeedStep t n \<le> int n"
    by (simp_all add: throttleToSpeedStep_def throttleMin_def throttleMax_def x_def [symmetric] lround_def)
qed

text \<open>The number of speed steps of a command.\<close>

definition Z21_driveSteps :: "u8 \<Rightarrow> u8" where
  "Z21_driveSteps s = (if s = 14 then 14 else if s = 28 then 28 else 126)"

lemma driveSteps_cases: "Z21_driveSteps s = 14 \<or> Z21_driveSteps s = 28 \<or> Z21_driveSteps s = 126"
  by (simp add: Z21_driveSteps_def)

definition Z21_driveStep :: "rat \<Rightarrow> u8 \<Rightarrow> u8" where
  "Z21_driveStep t s = word_of_int (throttleToSpeedStep t (unat (Z21_driveSteps s)))"

lemma driveStep_range:
  "uint (Z21_driveStep t s) = throttleToSpeedStep t (unat (Z21_driveSteps s))"
  "speedStepsOk (Z21_driveSteps s) (Z21_driveStep t s)"
proof -
  let ?n = "unat (Z21_driveSteps s)"
  have n: "?n < 256" using driveSteps_cases [of s] by auto
  have r: "0 \<le> throttleToSpeedStep t ?n" "throttleToSpeedStep t ?n \<le> int ?n"
    using n by (intro throttleToSpeedStep_range; simp)+
  have "throttleToSpeedStep t ?n < 256" using r(2) n by linarith
  then show u: "uint (Z21_driveStep t s) = throttleToSpeedStep t ?n"
    using r(1) by (simp add: Z21_driveStep_def uint_word_of_int)
  show "speedStepsOk (Z21_driveSteps s) (Z21_driveStep t s)"
    using driveSteps_cases r(2) by (simp add: speedStepsOk_def word_le_def u)
qed

definition driveCarries :: "u16 \<Rightarrow> bool \<Rightarrow> Direction \<Rightarrow> u8 \<Rightarrow> u8 \<Rightarrow> bool \<Rightarrow> bytes \<Rightarrow> bool" where
  "driveCarries a l dir n s e m \<longleftrightarrow> Z21_form 10 LAN_X_SET_LOCO m \<and>
    Z21_locoAddress 6 m = a \<and> Z21_isLongAddress 6 m = l \<and> LanXSetLocoDrive_direction m = dir \<and>
    LanXSetLocoDrive_speedSteps m = n \<and> LanXSetLocoDrive_isEmergencyStop m = e \<and>
    LanXSetLocoDrive_speedStep m = s \<and> 0x10 \<le> m ! 5 \<and> m ! 5 \<le> 0x13"

definition addressOk :: "u16 \<Rightarrow> bool \<Rightarrow> bool" where
  "addressOk a l \<longleftrightarrow> (if l then unat a < 2 ^ 14 else unat a < 2 ^ 7)"

lemma address_cong:
  "m' ! 6 = m ! 6 \<Longrightarrow> m' ! 7 = m ! 7 \<Longrightarrow>
    Z21_locoAddress 6 m' = Z21_locoAddress 6 m \<and> Z21_isLongAddress 6 m' = Z21_isLongAddress 6 m"
  by (simp add: Z21_locoAddress_def Z21_isLongAddress_def)

lemma driveCommand_carries:
  assumes "addressOk a l" and "dir \<noteq> DirUnknown"
  shows "driveCarries a l dir (Z21_driveSteps s) (Z21_driveStep t s) False (Z21_driveCommand a l dir t s)"
proof -
  let ?base = "LanXSetLocoDrive_setSpeedSteps s (Z21_setLocoAddress 6 a l (LanXSetLocoDrive (0, 0, 0, 0)))"
  let ?m = "Z21_driveCommand a l dir t s"
  have l0: "length ?base = 10" "length (LanXSetLocoDrive (0, 0, 0, 0)) = 10"
    using form_SetLocoDrive(1) [of "(0, 0, 0, 0)"]
    by (simp_all add: LanXSetLocoDrive_setSpeedSteps_def Z21_setLocoAddress_def Z21_form_def)
  have s0: "LanXSetLocoDrive_speedSteps ?base = Z21_driveSteps s" "0x10 \<le> ?base ! 5" "?base ! 5 \<le> 0x13"
    using l0(2) by (simp_all add: LanXSetLocoDrive_speedSteps_def LanXSetLocoDrive_setSpeedSteps_def
        Z21_setLocoAddress_def Z21_driveSteps_def Let_def)
  have m: "?m = ?base[8 := Z21_setDirection dir (Z21_setSpeedStep (Z21_driveSteps s) (Z21_driveStep t s) (?base ! 8))]"
    using l0(1) by (simp add: Z21_driveCommand_def Let_def s0 LanXSetLocoDrive_setSpeedStep_def
        LanXSetLocoDrive_setDirection_def Z21_driveStep_def)
  have a6: "?m ! 6 = Z21_setLocoAddress 6 a l (LanXSetLocoDrive (0, 0, 0, 0)) ! 6"
    "?m ! 7 = Z21_setLocoAddress 6 a l (LanXSetLocoDrive (0, 0, 0, 0)) ! 7"
    by (simp_all add: m LanXSetLocoDrive_setSpeedSteps_def)
  have ad: "Z21_locoAddress 6 ?m = a \<and> Z21_isLongAddress 6 ?m = l"
    using address_cong [OF a6] locoAddress_roundtrip [of 6 "LanXSetLocoDrive (0, 0, 0, 0)" l a] assms(1) l0(2)
    by (simp add: addressOk_def)
  have b: "?m ! 8 = Z21_setDirection dir (Z21_setSpeedStep (Z21_driveSteps s) (Z21_driveStep t s) (?base ! 8))"
    "?m ! 5 = ?base ! 5" using l0(1) by (simp_all add: m)
  have st: "LanXSetLocoDrive_speedSteps ?m = Z21_driveSteps s"
    using s0(1) by (simp add: LanXSetLocoDrive_speedSteps_def b(2))
  note g = get_setSpeedStep [OF driveStep_range(2) [of s t], of "?base ! 8"]
  show ?thesis
    using ad s0(2,3) g assms(2)
    by (simp add: driveCarries_def LanXSetLocoDrive_direction_def LanXSetLocoDrive_isEmergencyStop_def
        LanXSetLocoDrive_speedStep_def st b get_setDirection)
qed

lemma stop_carries:
  assumes "driveCarries a l dir n s e m"
  shows "driveCarries a l dir n 0 True (LanXSetLocoDrive_setEmergencyStop m)"
proof -
  let ?m = "LanXSetLocoDrive_setEmergencyStop m"
  have n: "?m ! 5 = m ! 5" "?m ! 6 = m ! 6" "?m ! 7 = m ! 7" "?m ! 8 = Z21_setEmergencyStop (m ! 8)"
    using assms by (simp_all add: LanXSetLocoDrive_setEmergencyStop_def driveCarries_def Z21_form_def)
  have st: "LanXSetLocoDrive_speedSteps ?m = LanXSetLocoDrive_speedSteps m"
    by (simp add: LanXSetLocoDrive_speedSteps_def n)
  show ?thesis
    using assms address_cong [OF n(2,3)]
    by (simp add: driveCarries_def st n LanXSetLocoDrive_direction_def LanXSetLocoDrive_isEmergencyStop_def
        LanXSetLocoDrive_speedStep_def setEmergencyStop_facts)
qed

lemma seal_carries:
  assumes "driveCarries a l dir n s e m"
  shows "driveCarries a l dir n s e (LanX_updateChecksum m)"
proof -
  have f: "Z21_form 10 LAN_X_SET_LOCO m" using assms by (simp add: driveCarries_def)
  then have "unat (Z21_xheader m AND 0x0F) = 4" by (simp add: Z21_form_def)
  then have u: "LanX_updateChecksum m = m[9 := Z21_calcChecksum 4 m]"
    by (simp add: LanX_updateChecksum_def LanX_updateChecksumLen_def)
  have n: "LanX_updateChecksum m ! 5 = m ! 5" "LanX_updateChecksum m ! 6 = m ! 6"
    "LanX_updateChecksum m ! 7 = m ! 7" "LanX_updateChecksum m ! 8 = m ! 8" by (simp_all add: u)
  have st: "LanXSetLocoDrive_speedSteps (LanX_updateChecksum m) = LanXSetLocoDrive_speedSteps m"
    by (simp add: LanXSetLocoDrive_speedSteps_def n)
  have "Z21_form 10 LAN_X_SET_LOCO (LanX_updateChecksum m)" using f by (simp add: u)
  then show ?thesis
    using assms address_cong [OF n(2,3)] st
    by (auto simp: driveCarries_def n LanXSetLocoDrive_direction_def
        LanXSetLocoDrive_isEmergencyStop_def LanXSetLocoDrive_speedStep_def)
qed

text \<open>A change of direction is sent with the speed, also while the decoder is stopped.\<close>

lemma direction_sends_speed:
  assumes "addressOk a l" and "dir \<noteq> DirUnknown" and "lc_direction (Z21_getLocoCache a k) \<noteq> dir"
  shows "\<exists>m ok. z_wire (Z21_decoderChanged_posted nan now a l dir t s e chDirection n v k) = z_wire k @ [(m, ok)] \<and>
    driveCarries a l dir (Z21_driveSteps s) (Z21_driveStep t s) False m"
proof -
  let ?m = "LanX_updateChecksum (Z21_driveCommand a l dir t s)"
  have "z_wire (Z21_decoderChanged_posted nan now a l dir t s e chDirection n v k) =
      z_wire k @ [(?m, z_ioSend k (z_wire k) ?m)]"
    using assms(3) by (simp add: Z21_decoderChanged_posted_def Let_def has_change_def Z21_driveChanged_def Z21_setLocoCache_def)
  then show ?thesis using seal_carries [OF driveCommand_carries [OF assms(1,2)]] by blast
qed

lemma has_change_or: "has_change ch (a OR b) \<longleftrightarrow> has_change ch a \<or> has_change ch b"
  by (simp add: has_change_def bit.conj_disj_distrib or_eq_0_iff)

text \<open>Whatever changed, the command is an emergency stop exactly when the change is a new one.\<close>

definition newStop :: "u16 \<Rightarrow> bool \<Rightarrow> u8 \<Rightarrow> Z21_Client \<Rightarrow> bool" where
  "newStop a e ch k \<longleftrightarrow> e \<and> has_change ch chEmergencyStop \<and> \<not> lc_isEStop (Z21_getLocoCache a k)"

lemma drive_sent:
  assumes "addressOk a l" and "dir \<noteq> DirUnknown"
    and "Z21_driveChanged dir steps (throttleToSpeedStep t (unat (Z21_driveSteps steps))) e ch (Z21_getLocoCache a k)"
  shows "\<exists>c w ok. z_wire (Z21_decoderChanged_posted nan now a l dir t steps e ch fn fv k) = w @ [(LanX_updateChecksum c, ok)] \<and>
    driveCarries a l dir (Z21_driveSteps steps) (if newStop a e ch k then 0 else Z21_driveStep t steps) (newStop a e ch k) c"
proof -
  let ?cmd = "Z21_driveCommand a l dir t steps"
  let ?c = "if newStop a e ch k then LanXSetLocoDrive_setEmergencyStop ?cmd else ?cmd"
  note d = driveCommand_carries [OF assms(1,2), of steps t]
  have c: "driveCarries a l dir (Z21_driveSteps steps) (if newStop a e ch k then 0 else Z21_driveStep t steps) (newStop a e ch k) ?c"
    using d stop_carries [OF d] by simp
  have s: "LanXSetLocoDrive_speedSteps ?cmd = Z21_driveSteps steps" using d by (simp add: driveCarries_def)
  have o: "has_change ch chEmergencyStop \<Longrightarrow> has_change ch (chThrottle OR chSpeedSteps OR chEmergencyStop)"
    by (simp only: has_change_or simp_thms)
  have e: "(if has_change ch (chThrottle OR chSpeedSteps OR chEmergencyStop) \<and> has_change ch chEmergencyStop \<and>
        e \<noteq> lc_isEStop (Z21_getLocoCache a k) \<and> e then LanXSetLocoDrive_setEmergencyStop ?cmd else ?cmd) = ?c"
    using o by (auto simp: newStop_def)
  show ?thesis
    using c assms(3) unfolding Z21_decoderChanged_posted_def Let_def s e
    by (intro exI [of _ ?c] exI conjI) simp_all
qed

section \<open>A server obeys\<close>

lemma changed_decoders [simp]:
  "sv_decoders (ZS_changed keys i d ch k) = sv_decoders k" "sv_decoderList (ZS_changed keys i d ch k) = sv_decoderList k"
proof -
  have "sv_decoders (fold f keys k) = sv_decoders k \<and> sv_decoderList (fold f keys k) = sv_decoderList k"
    if "\<And>key k. sv_decoders (f key k) = sv_decoders k \<and> sv_decoderList (f key k) = sv_decoderList k"
    for f :: "LocoKey \<Rightarrow> Z21_Server \<Rightarrow> Z21_Server" and keys and k :: Z21_Server
    using that by (induction keys arbitrary: k) simp_all
  from this [of "\<lambda>key k. case sv_subscriptions k key of
        Some (j, n) \<Rightarrow> if j = Some i then ZS_decoderChanged d k else k
      | None \<Rightarrow> k" keys "ZS_call (SvDecoderChanged i ch) k"]
  show "sv_decoders (ZS_changed keys i d ch k) = sv_decoders k" "sv_decoderList (ZS_changed keys i d ch k) = sv_decoderList k"
    by (simp_all add: ZS_changed_def ZS_decoderChanged_def ZS_eventLoopCall_def ZS_call_def split: option.split)
qed

lemma assign_decoders [simp]: "sv_decoders (ZS_assign keys i r k) = (sv_decoders k)(i := fst r)"
proof -
  have "sv_decoders (fold (ZS_changed keys i (fst r)) cs k) = sv_decoders k" for cs k
    by (induction cs arbitrary: k) simp_all
  then show ?thesis by (simp add: ZS_assign_def)
qed

lemma limit_step: "limitThrottle v = Some w \<Longrightarrow> throttleToSpeedStep w n = throttleToSpeedStep v n"
  by (auto simp: limitThrottle_def throttleToSpeedStep_def throttleMin_def throttleMax_def clampRat_def split: if_splits)

lemma setThrottle_effect:
  assumes "Decoder_setThrottle v d = Some r"
  shows "throttleToSpeedStep (dec_throttle (fst r)) n = throttleToSpeedStep v n \<and>
    dec_direction (fst r) = dec_direction d \<and> dec_emergencyStop (fst r) = dec_emergencyStop d"
proof (cases "dec_throttle d = v")
  case True
  then show ?thesis using assms by (auto simp: Decoder_setThrottle_def)
next
  case False
  then obtain w where w: "limitThrottle v = Some w" "r = (d\<lparr>dec_throttle := w\<rparr>, [(chThrottle, 0)])"
    using assms by (auto simp: Decoder_setThrottle_def split: option.splits)
  then show ?thesis using limit_step [OF w(1)] by simp
qed

lemma setThrottle_step:
  "\<exists>d' cs. Decoder_setThrottle (speedStepToThrottle s n) d = Some (d', cs) \<and>
    throttleToSpeedStep (dec_throttle d') n = throttleToSpeedStep (speedStepToThrottle s n) n \<and>
    dec_direction d' = dec_direction d \<and> dec_emergencyStop d' = dec_emergencyStop d"
proof -
  obtain r where r: "Decoder_setThrottle (speedStepToThrottle s n) d = Some r"
    using quiet_setters(3) [of s n, unfolded quiet_def, rule_format, of d] by auto
  show ?thesis
    using r setThrottle_effect [OF r, of n] by (intro exI [of _ "fst r"] exI [of _ "snd r"]) simp
qed

lemma run_SetLocoDrive:
  assumes "driveCarries a l dir n s e m" and "speedStepsOk n s" and "dir \<noteq> DirUnknown"
    and "ZS_getDecoder a l k = Some i"
  shows "let d = sv_decoders (ZS_run_SetLocoDrive keys m k) i in
    dec_direction d = dir \<and> dec_emergencyStop d = e \<and> throttleToSpeedStep (dec_throttle d) (unat n) = uint s"
proof -
  obtain d1 c1 where d1: "Decoder_setDirection dir (sv_decoders k i) = Some (d1, c1)" "dec_direction d1 = dir"
    using assms(3) by (cases "dec_direction (sv_decoders k i) = dir") (simp_all add: Decoder_setDirection_def)
  define d2 where "d2 = fst (Decoder_setEmergencyStop e d1)"
  have d2: "dec_direction d2 = dir" "dec_emergencyStop d2 = e"
    using d1(2) by (auto simp: d2_def Decoder_setEmergencyStop_def)
  obtain d3 c3 where d3: "Decoder_setThrottle (speedStepToThrottle (unat s) (unat n)) d2 = Some (d3, c3)"
    "throttleToSpeedStep (dec_throttle d3) (unat n) = throttleToSpeedStep (speedStepToThrottle (unat s) (unat n)) (unat n)"
    "dec_direction d3 = dec_direction d2" "dec_emergencyStop d3 = dec_emergencyStop d2"
    using setThrottle_step [of "unat s" "unat n" d2] by blast
  have "sv_decoders (ZS_run_SetLocoDrive keys m k) i = d3"
    using assms(1,4) d1(1) d3(1)
    by (simp add: ZS_run_SetLocoDrive_def Let_def driveCarries_def d2_def)
  moreover have "throttleToSpeedStep (speedStepToThrottle (unat s) (unat n)) (unat n) = int (unat s)"
    using assms(2) by (intro roundtrip_error) (auto simp: speedStepsOk_def word_le_nat_alt)
  ultimately show ?thesis using d2 d3 by (simp add: Let_def)
qed

text \<open>A server takes the command from a client.\<close>

lemma receive_drive:
  assumes "driveCarries a l dir n s e m"
  shows "\<exists>cs. sv_posted (ZS_receiveFrom now (LanX_updateChecksum m) i u k) = cs @ [ZeSetLocoDrive (LanX_updateChecksum m)]"
proof -
  let ?m = "LanX_updateChecksum m"
  have f: "Z21_form 10 LAN_X_SET_LOCO m" "Z21_form 10 LAN_X_SET_LOCO ?m" "0x10 \<le> ?m ! 5" "?m ! 5 \<le> 0x13"
    using assms seal_carries [OF assms] by (simp_all add: driveCarries_def)
  then have x: "unat (Z21_xheader m AND 0x0F) = 4" by (simp add: Z21_form_def)
  have m: "?m = m[9 := Z21_calcChecksum 4 m]"
    by (simp add: LanX_updateChecksum_def LanX_updateChecksumLen_def x)
  have "ZS_isChecksumValid ?m"
    using f(1) x by (simp add: m ZS_isChecksumValid_def calcChecksum_update Z21_form_def)
  moreover have "Z21_header ?m = LAN_X" "?m ! 4 = LAN_X_SET_LOCO" "take 10 ?m = ?m"
    using f(2) by (simp_all add: Z21_form_def)
  ultimately show ?thesis using f(3,4)
    by (simp add: ZS_receiveFrom_def ZS_dispatch_def Let_def ZS_receive_LanX_def ZS_receive_SET_LOCO_def ZS_eventLoopCall_def)
qed

section \<open>The server's answer\<close>

definition infoCarries :: "u16 \<Rightarrow> bool \<Rightarrow> Direction \<Rightarrow> u8 \<Rightarrow> u8 \<Rightarrow> bool \<Rightarrow> bytes \<Rightarrow> bool" where
  "infoCarries a l dir n s e m \<longleftrightarrow> Z21_form 15 LAN_X_LOCO_INFO m \<and>
    Z21_locoAddress 5 m = a \<and> Z21_isLongAddress 5 m = l \<and> LanXLocoInfo_direction m = dir \<and>
    LanXLocoInfo_speedSteps m = n \<and> LanXLocoInfo_isEmergencyStop m = e \<and> LanXLocoInfo_speedStep m = s"

text \<open>The bytes up to the speed are all these read, the low three bits excepted for the functions.\<close>

lemma infoCarries_cong:
  assumes "Z21_form 15 LAN_X_LOCO_INFO m'" and "\<And>i. 5 \<le> i \<Longrightarrow> i \<le> 8 \<Longrightarrow> m' ! i = m ! i"
  shows "Z21_form 15 LAN_X_LOCO_INFO m \<Longrightarrow> infoCarries a l dir n s e m' = infoCarries a l dir n s e m"
proof -
  have b: "m' ! 5 = m ! 5" "m' ! 6 = m ! 6" "m' ! 7 = m ! 7" "m' ! 8 = m ! 8" using assms(2) by simp_all
  have "LanXLocoInfo_speedSteps m' = LanXLocoInfo_speedSteps m" by (simp add: LanXLocoInfo_speedSteps_def b)
  moreover have "Z21_locoAddress 5 m' = Z21_locoAddress 5 m" "Z21_isLongAddress 5 m' = Z21_isLongAddress 5 m"
    using b by (simp_all add: Z21_locoAddress_def Z21_isLongAddress_def)
  ultimately show "Z21_form 15 LAN_X_LOCO_INFO m \<Longrightarrow> ?thesis"
    using assms(1) b by (simp add: infoCarries_def LanXLocoInfo_direction_def
        LanXLocoInfo_isEmergencyStop_def LanXLocoInfo_speedStep_def)
qed

lemma functions_keep:
  assumes "Z21_form 15 LAN_X_LOCO_INFO m"
  shows "Z21_form 15 LAN_X_LOCO_INFO (fold (\<lambda>(n, v). LanXLocoInfo_setFunction n v) fs m) \<and>
    (\<forall>i \<le> 8. fold (\<lambda>(n, v). LanXLocoInfo_setFunction n v) fs m ! i = m ! i)"
  using assms
proof (induction fs arbitrary: m)
  case (Cons x fs)
  obtain n v where x: "x = (n, v)" by (cases x)
  have "LanXLocoInfo_setFunction n v m ! i = m ! i" if "i \<le> 8" for i
    using functionAt_range [of n m] that by (auto simp: LanXLocoInfo_setFunction_def split: option.split)
  then show ?case using Cons.IH [of "LanXLocoInfo_setFunction n v m"] Cons.prems by (simp add: x)
qed simp

text \<open>The values of the functions; the last one of a number counts.\<close>

definition functionValues :: "(nat \<times> bool) list \<Rightarrow> nat \<Rightarrow> bool" where
  "functionValues fs k = (case map_of (rev fs) k of None \<Rightarrow> False | Some v \<Rightarrow> v)"

lemma functions_set:
  assumes "Z21_form 15 LAN_X_LOCO_INFO m" and "k \<le> 31" and "\<And>n v. (n, v) \<in> set fs \<Longrightarrow> n \<le> 31"
  shows "LanXLocoInfo_getFunction k (fold (\<lambda>(n, v). LanXLocoInfo_setFunction n v) fs m) =
    (case map_of (rev fs) k of None \<Rightarrow> LanXLocoInfo_getFunction k m | Some v \<Rightarrow> v)"
  using assms(1,3)
proof (induction fs arbitrary: m)
  case (Cons x fs)
  obtain n v where x: "x = (n, v)" by (cases x)
  have n: "n \<le> 31" using Cons.prems(2) [of n v] by (simp add: x)
  have "LanXLocoInfo_getFunction k (LanXLocoInfo_setFunction n v m) = (if k = n then v else LanXLocoInfo_getFunction k m)"
    by (rule getFunction_setFunction [OF Cons.prems(1) n assms(2)])
  moreover have "LanXLocoInfo_getFunction k (fold (\<lambda>(n, v). LanXLocoInfo_setFunction n v) fs (LanXLocoInfo_setFunction n v m)) =
      (case map_of (rev fs) k of None \<Rightarrow> LanXLocoInfo_getFunction k (LanXLocoInfo_setFunction n v m) | Some v \<Rightarrow> v)"
    using Cons.prems(1) by (intro Cons.IH) (simp, meson Cons.prems(2) list.set_intros(2))
  ultimately show ?case by (simp add: x map_add_def split: option.split)
qed simp

lemma LanXLocoInfo_init_form: "Z21_form 15 LAN_X_LOCO_INFO LanXLocoInfo_init"
  by (simp add: LanXLocoInfo_init_def)

lemma info_updateChecksum:
  assumes "Z21_form 15 LAN_X_LOCO_INFO m"
  shows "Z21_form 15 LAN_X_LOCO_INFO (LanXLocoInfo_updateChecksum m)"
    and "i \<le> 13 \<Longrightarrow> LanXLocoInfo_updateChecksum m ! i = m ! i"
    and "k \<le> 31 \<Longrightarrow> LanXLocoInfo_getFunction k (LanXLocoInfo_updateChecksum m) = LanXLocoInfo_getFunction k m"
proof -
  have m: "LanXLocoInfo_updateChecksum m = m[14 := Z21_calcChecksum 9 m]"
    using assms by (simp add: LanXLocoInfo_updateChecksum_def LanX_updateChecksumLen_def Z21_form_def)
  show f: "Z21_form 15 LAN_X_LOCO_INFO (LanXLocoInfo_updateChecksum m)" using assms by (simp add: m)
  show b: "i \<le> 13 \<Longrightarrow> LanXLocoInfo_updateChecksum m ! i = m ! i" for i by (simp add: m)
  show "k \<le> 31 \<Longrightarrow> LanXLocoInfo_getFunction k (LanXLocoInfo_updateChecksum m) = LanXLocoInfo_getFunction k m"
    using functionBit_bounds [of k] b [of "fst (functionBit k)"] assms f
    by (simp add: getFunction_bit Z21_form_def)
qed

lemma speedSteps_bits:
  "LanXLocoInfo_speedSteps (LanXLocoInfo_setSpeedSteps v m) = Z21_driveSteps v" if "7 < length m" for m
proof -
  have "((m ! 7 AND NOT 0x07) OR x) AND 0x07 = x AND (0x07 :: u8)" for x
    by (simp add: bit.conj_disj_distrib2 and.assoc)
  then show ?thesis using that
    by (simp add: LanXLocoInfo_speedSteps_def LanXLocoInfo_setSpeedSteps_def Z21_driveSteps_def Let_def)
qed

lemma locoInfo_carries:
  assumes "addressOk a l" and "dir \<noteq> DirUnknown" and "\<not> e \<Longrightarrow> speedStepsOk (Z21_driveSteps steps) (f (Z21_driveSteps steps))"
    and "\<And>n v. (n, v) \<in> set fs \<Longrightarrow> n \<le> 31"
  shows "infoCarries a l dir (Z21_driveSteps steps) (if e then 0 else f (Z21_driveSteps steps)) e (LanXLocoInfo a l steps dir e f fs)"
    and "k \<le> 31 \<Longrightarrow> LanXLocoInfo_getFunction k (LanXLocoInfo a l steps dir e f fs) = functionValues fs k"
proof -
  let ?n = "Z21_driveSteps steps"
  let ?b = "LanXLocoInfo_setSpeedSteps steps (Z21_setLocoAddress 5 a l LanXLocoInfo_init)"
  let ?d = "LanXLocoInfo_setDirection dir ?b"
  let ?s = "if e then LanXLocoInfo_setEmergencyStop ?d else LanXLocoInfo_setSpeedStep (f (LanXLocoInfo_speedSteps ?d)) ?d"
  let ?m = "fold (\<lambda>(n, v). LanXLocoInfo_setFunction n v) fs ?s"
  have fb: "Z21_form 15 LAN_X_LOCO_INFO ?b"
    using LanXLocoInfo_init_form by (simp add: LanXLocoInfo_setSpeedSteps_def)
  then have lb: "length ?b = 15" by (simp add: Z21_form_def)
  have nb: "LanXLocoInfo_speedSteps ?b = ?n"
    using LanXLocoInfo_init_form by (intro speedSteps_bits) (simp add: Z21_setLocoAddress_def Z21_form_def)
  have nd: "LanXLocoInfo_speedSteps ?d = ?n"
    using nb by (simp add: LanXLocoInfo_speedSteps_def LanXLocoInfo_setDirection_def)
  have fs: "Z21_form 15 LAN_X_LOCO_INFO ?s"
    using fb by (simp add: LanXLocoInfo_setDirection_def LanXLocoInfo_setEmergencyStop_def LanXLocoInfo_setSpeedStep_def)
  have ns: "LanXLocoInfo_speedSteps ?s = ?n"
    using nd by (simp add: LanXLocoInfo_speedSteps_def LanXLocoInfo_setEmergencyStop_def LanXLocoInfo_setSpeedStep_def)
  have s8: "?s ! 8 = (if e then Z21_setEmergencyStop (Z21_setDirection dir (?b ! 8))
      else Z21_setSpeedStep ?n (f ?n) (Z21_setDirection dir (?b ! 8)))"
    using lb nd by (simp add: LanXLocoInfo_setDirection_def LanXLocoInfo_setEmergencyStop_def LanXLocoInfo_setSpeedStep_def)
  have "Z21_getDirection (if e then Z21_setEmergencyStop (Z21_setDirection dir (?b ! 8))
      else Z21_setSpeedStep ?n (f ?n) (Z21_setDirection dir (?b ! 8))) = dir"
  proof (cases e)
    case True
    then show ?thesis using assms(2) by (simp add: setEmergencyStop_facts(2) get_setDirection)
  next
    case False
    have "bit (Z21_setSpeedStep ?n (f ?n) (Z21_setDirection dir (?b ! 8))) 7 = bit (Z21_setDirection dir (?b ! 8)) 7"
      by (rule setSpeedStep_direction [OF driveSteps_cases])
    then have "Z21_getDirection (Z21_setSpeedStep ?n (f ?n) (Z21_setDirection dir (?b ! 8))) =
        Z21_getDirection (Z21_setDirection dir (?b ! 8))"
      by (simp add: Z21_getDirection_def flag_simps)
    then show ?thesis using False assms(2) by (simp add: get_setDirection)
  qed
  then have dirs: "Z21_getDirection (?s ! 8) = dir" by (subst s8)
  have stop: "LanXLocoInfo_isEmergencyStop ?s = e" "LanXLocoInfo_speedStep ?s = (if e then 0 else f ?n)"
    using setEmergencyStop_facts get_setSpeedStep [OF assms(3)]
    unfolding LanXLocoInfo_isEmergencyStop_def LanXLocoInfo_speedStep_def ns s8 by simp_all
  have "?s ! 5 = Z21_setLocoAddress 5 a l LanXLocoInfo_init ! 5" "?s ! 6 = Z21_setLocoAddress 5 a l LanXLocoInfo_init ! 6"
    by (simp_all add: LanXLocoInfo_setDirection_def LanXLocoInfo_setEmergencyStop_def LanXLocoInfo_setSpeedStep_def
        LanXLocoInfo_setSpeedSteps_def)
  then have ad: "Z21_locoAddress 5 ?s = a" "Z21_isLongAddress 5 ?s = l"
    using locoAddress_roundtrip [of 5 LanXLocoInfo_init l a] assms(1) LanXLocoInfo_init_form
    by (simp_all add: Z21_locoAddress_def Z21_isLongAddress_def addressOk_def Z21_form_def)
  have cs: "infoCarries a l dir ?n (if e then 0 else f ?n) e ?s"
    using fs ns stop ad dirs by (simp add: infoCarries_def LanXLocoInfo_direction_def)
  have m: "LanXLocoInfo a l steps dir e f fs = LanXLocoInfo_updateChecksum ?m"
    by (simp only: LanXLocoInfo_def Let_def)
  note k = functions_keep [OF fs, of fs]
  note u = info_updateChecksum [of ?m]
  show "infoCarries a l dir ?n (if e then 0 else f ?n) e (LanXLocoInfo a l steps dir e f fs)"
    unfolding m using k u(1,2) cs fs by (subst infoCarries_cong [of _ ?s]) simp_all
  have z: "LanXLocoInfo_getFunction k ?s = False" if "k \<le> 31"
  proof -
    have "?s ! i = 0" if "9 \<le> i" "i \<le> 13" for i
    proof -
      have "?s ! i = LanXLocoInfo_init ! i"
        using that by (simp add: LanXLocoInfo_setDirection_def LanXLocoInfo_setEmergencyStop_def
            LanXLocoInfo_setSpeedStep_def LanXLocoInfo_setSpeedSteps_def Z21_setLocoAddress_def)
      then show ?thesis using that by (simp add: LanXLocoInfo_init_def)
    qed
    then show ?thesis
      using functionBit_bounds [OF that] fs that by (simp add: getFunction_bit Z21_form_def)
  qed
  show "LanXLocoInfo_getFunction k (LanXLocoInfo a l steps dir e f fs) = functionValues fs k" if "k \<le> 31"
  proof -
    have "LanXLocoInfo_getFunction k ?m = (case map_of (rev fs) k of None \<Rightarrow> LanXLocoInfo_getFunction k ?s | Some v \<Rightarrow> v)"
      by (rule functions_set [OF fs that]) (rule assms(4))
    then show ?thesis
      using u(3) [OF k [THEN conjunct1] that] z [OF that] by (simp only: m functionValues_def)
  qed
qed

text \<open>A client that receives it tells its decoder what the server's decoder has.\<close>

lemma receive_info:
  assumes "infoCarries a l dir n s e m" and "Z21_valid m"
  shows "\<exists>cs ch. z_posted (Z21_receive nan now m k) = z_posted k @ cs @
    [ZcLocoInfo a e s n dir (map (\<lambda>i. LanXLocoInfo_getFunction i m) [0..<32]) ch]"
proof -
  have f: "Z21_header m = LAN_X" "Z21_dataLen m = 15" "m ! 4 = LAN_X_LOCO_INFO" "LanX_isChecksumValid m"
    using assms by (simp_all add: infoCarries_def Z21_form_def Z21_valid_def)
  then have "min (LanXLocoInfo_functionIndexMax m) 31 + 1 = 32"
    by (simp add: LanXLocoInfo_functionIndexMax_def LanXLocoInfo_supportsF29F31_def)
  moreover have "[0..<32] = [0..<31] @ [31 :: nat]" using upt_Suc_append [of 0 31] by simp
  ultimately show ?thesis
    using assms(1) f
    by (simp add: Z21_receive_def Z21_receive_LanX_def Z21_receive_LocoInfo_def Let_def infoCarries_def
        Z21_eventLoopCall_def Z21_setLocoCache_def)
qed

end
