(* ===== verification/Counting.thy ===== *)
theory Counting
  imports Main "HOL-Library.AList"
begin

text \<open>
  The elements of an association list that satisfy a predicate, when an element is added, changed or
  deleted.  The server of Z21 keeps its clients, and what they subscribed to, in such lists.
\<close>

definition countBy :: "('a \<Rightarrow> bool) \<Rightarrow> ('k \<times> 'a) list \<Rightarrow> nat" where
  "countBy P xs = length (filter (\<lambda>(i, c). P c) xs)"

definition has :: "('a \<Rightarrow> bool) \<Rightarrow> 'a option \<Rightarrow> nat" where
  "has P o' = (case o' of None \<Rightarrow> 0 | Some c \<Rightarrow> of_bool (P c))"

lemma countBy_Nil [simp]: "countBy P [] = 0"
  by (simp add: countBy_def)

lemma countBy_Cons [simp]: "countBy P ((i, c) # xs) = of_bool (P c) + countBy P xs"
  by (simp add: countBy_def)

lemma has_simps [simp]: "has P None = 0" "has P (Some c) = of_bool (P c)"
  by (simp_all add: has_def)

lemma countBy_update: "countBy P (AList.update i c xs) + has P (map_of xs i) = countBy P xs + of_bool (P c)"
  by (induction xs) auto

lemma countBy_delete_absent: "i \<notin> fst ` set xs \<Longrightarrow> AList.delete i xs = xs"
  by (induction xs) (auto simp: AList.delete_eq)

lemma countBy_delete:
  "distinct (map fst xs) \<Longrightarrow> countBy P (AList.delete i xs) + has P (map_of xs i) = countBy P xs"
proof (induction xs)
  case (Cons x xs)
  obtain j c where x: "x = (j, c)" by (cases x)
  show ?case
  proof (cases "i = j")
    case True
    then show ?thesis using Cons.prems countBy_delete_absent [of i xs] by (simp add: x)
  next
    case False
    then show ?thesis using Cons by (simp add: x)
  qed
qed simp

lemma countBy_has: "has P (map_of xs i) \<le> countBy P xs"
  by (induction xs) auto

end
