(* ===== verification/Z21_Subscriptions.thy ===== *)
theory Z21_Subscriptions
  imports Z21_ServerKernel Counting
begin

text \<open>
  Who is subscribed to which locomotive: the client's lists, which the kernel's thread keeps, and the
  counts, which the event loop keeps.  Between the two are the closures that wait; once these have
  run, the count of a locomotive is the number of clients whose lists have it.
\<close>

section \<open>Counts and what is waiting\<close>

definition subscribers :: "LocoKey \<Rightarrow> Z21_Server \<Rightarrow> nat" where
  "subscribers key k = countBy (\<lambda>c. key \<in> set (cl_subscriptions c)) (sv_clients k)"

definition subscriptionCount :: "LocoKey \<Rightarrow> Z21_Server \<Rightarrow> nat" where
  "subscriptionCount key k = (case sv_subscriptions k key of None \<Rightarrow> 0 | Some (i, n) \<Rightarrow> n)"

text \<open>The count after a closure, when a subscription finds its decoder.\<close>

definition countAfter :: "LocoKey \<Rightarrow> Z21_serverClosure \<Rightarrow> nat \<Rightarrow> nat" where
  "countAfter key c n = (if c = ZeSubscribe key then Suc n else if c = ZeUnsubscribe key then n - 1 else n)"

lemma countAfter_simps [simp]:
  "countAfter key (ZeSubscribe key) n = Suc n"
  "countAfter key (ZeUnsubscribe key) n = n - 1"
  "c \<noteq> ZeSubscribe key \<Longrightarrow> c \<noteq> ZeUnsubscribe key \<Longrightarrow> countAfter key c n = n"
  by (simp_all add: countAfter_def)

lemma countAfter_mono: "n \<le> n' \<Longrightarrow> countAfter key c n \<le> countAfter key c n'"
  by (auto simp: countAfter_def)

lemma fold_countAfter_mono: "n \<le> n' \<Longrightarrow> fold (countAfter key) cs n \<le> fold (countAfter key) cs n'"
  by (induction cs arbitrary: n n') (simp_all add: countAfter_mono)

text \<open>
  Never more than there are subscribers, and just as many when every subscription that ran has found
  its decoder (\<open>known\<close>).
\<close>

definition counted :: "bool \<Rightarrow> nat \<Rightarrow> nat \<Rightarrow> bool" where
  "counted known n m \<longleftrightarrow> n \<le> m \<and> (known \<longrightarrow> n = m)"

lemma counted_refl [simp]: "counted known n n"
  by (simp add: counted_def)

lemma counted_Suc [simp]: "counted known (Suc n) (Suc m) = counted known n m"
  by (simp add: counted_def)

lemma counted_pred: "counted known n (Suc m) \<Longrightarrow> counted known (n - Suc 0) m"
  by (auto simp: counted_def)

definition balanced :: "bool \<Rightarrow> Z21_Server \<Rightarrow> bool" where
  "balanced known k \<longleftrightarrow>
    (\<forall>key. counted known (fold (countAfter key) (sv_posted k) (subscriptionCount key k)) (subscribers key k))"

text \<open>Who is counted is counted at least once: the assertion of an unsubscription.\<close>

definition countsOk :: "Z21_Server \<Rightarrow> bool" where
  "countsOk k \<longleftrightarrow> (\<forall>key i n. sv_subscriptions k key = Some (i, n) \<longrightarrow> 0 < n)"

definition clientOk :: "nat \<Rightarrow> Z21_ServerClient \<Rightarrow> bool" where
  "clientOk n c \<longleftrightarrow> distinct (cl_subscriptions c) \<and> length (cl_subscriptions c) \<le> n"

definition clientsOk :: "Z21_Server \<Rightarrow> bool" where
  "clientsOk k \<longleftrightarrow> distinct (map fst (sv_clients k)) \<and>
    (\<forall>c \<in> snd ` set (sv_clients k). clientOk subscriptionMax c)"

definition subscriptionsOk :: "bool \<Rightarrow> Z21_Server \<Rightarrow> bool" where
  "subscriptionsOk known k \<longleftrightarrow> balanced known k \<and> clientsOk k \<and> countsOk k"

text \<open>Steps that touch neither the lists nor the counts, and post only other closures.\<close>

fun otherClosure :: "Z21_serverClosure \<Rightarrow> bool" where
  "otherClosure (ZeSubscribe key) = False"
| "otherClosure (ZeUnsubscribe key) = False"
| "otherClosure _ = True"

lemma fold_other: "list_all otherClosure cs \<Longrightarrow> fold (countAfter key) cs n = n"
proof (induction cs)
  case (Cons c cs)
  then have "countAfter key c n = n" by (cases c) (simp_all add: countAfter_def)
  then show ?case using Cons by simp
qed simp

definition neutral :: "Z21_Server \<Rightarrow> Z21_Server \<Rightarrow> bool" where
  "neutral k k' \<longleftrightarrow> sv_clients k' = sv_clients k \<and> sv_subscriptions k' = sv_subscriptions k \<and>
    (\<exists>cs. sv_posted k' = sv_posted k @ cs \<and> list_all otherClosure cs)"

lemma neutralI:
  "sv_clients k' = sv_clients k \<Longrightarrow> sv_subscriptions k' = sv_subscriptions k \<Longrightarrow>
    sv_posted k' = sv_posted k @ cs \<Longrightarrow> list_all otherClosure cs \<Longrightarrow> neutral k k'"
  by (auto simp: neutral_def)

lemma neutral_refl [simp]: "neutral k k"
  by (rule neutralI [of _ _ "[]"]) simp_all

lemma neutral_trans: "neutral a b \<Longrightarrow> neutral b c \<Longrightarrow> neutral a c"
  by (auto simp: neutral_def)

lemma neutral_ok: "neutral k k' \<Longrightarrow> subscriptionsOk known k \<Longrightarrow> subscriptionsOk known k'"
  by (auto simp: neutral_def subscriptionsOk_def balanced_def countsOk_def clientsOk_def subscribers_def subscriptionCount_def fold_other)

lemma neutral_fold: "(\<And>x k. neutral k (f x k)) \<Longrightarrow> neutral k (fold f xs k)"
  by (induction xs arbitrary: k) (auto intro: neutral_trans)

lemma neutral_call: "otherClosure c \<Longrightarrow> neutral k (ZS_eventLoopCall c k)"
  by (rule neutralI [of _ _ "[c]"]) (simp_all add: ZS_eventLoopCall_def)

lemma neutral_sendTo: "neutral k (ZS_sendTo m i k)"
  by (rule neutralI [of _ _ "if sv_ioSendTo k (sv_wire k) m i \<and> sv_debugLogRXTX (sv_config k) then [ZeLogTX i m] else []"])
    (simp_all add: ZS_sendTo_def Let_def ZS_eventLoopCall_def)

lemma neutral_broadcast: "neutral k (ZS_broadcast m f k)"
  unfolding ZS_broadcast_def by (rule neutral_fold) (auto simp: neutral_sendTo split: prod.split)

lemma neutral_if: "neutral k a \<Longrightarrow> neutral k b \<Longrightarrow> neutral k (if c then a else b)"
  by simp

lemma neutral_setState: "neutral k (ZS_setState p e k)"
proof -
  have b: "neutral k (if c then ZS_broadcast m f k' else k')" if "neutral k k'" for c m f k'
    using that neutral_broadcast by (auto intro: neutral_trans)
  have "neutral k (k\<lparr>sv_trackPowerOn := x, sv_emergencyStop := y\<rparr>)" for x y
    by (rule neutralI [of _ _ "[]"]) simp_all
  then show ?thesis unfolding ZS_setState_def Let_def by (intro b)
qed

section \<open>Lists and counts change\<close>

text \<open>A new client has no subscriptions, so its making changes no count.\<close>

lemma subscribers_setClient:
  "subscribers key (ZS_setClient i c k) + of_bool (key \<in> set (cl_subscriptions (ZS_client i k))) =
    subscribers key k + of_bool (key \<in> set (cl_subscriptions c))"
proof -
  have "has (\<lambda>c. key \<in> set (cl_subscriptions c)) (map_of (sv_clients k) i) =
      of_bool (key \<in> set (cl_subscriptions (ZS_client i k)))"
    by (cases "map_of (sv_clients k) i") (simp_all add: ZS_client_def ZS_newClient_def)
  then show ?thesis
    using countBy_update [of "\<lambda>c. key \<in> set (cl_subscriptions c)" i c "sv_clients k"]
    by (simp add: subscribers_def ZS_setClient_def)
qed

lemma update_values: "snd ` set (AList.update i c xs) \<subseteq> insert c (snd ` set xs)"
  by (induction xs) auto

lemma clientsOk_setClient:
  assumes "clientsOk k" and "clientOk subscriptionMax c"
  shows "clientsOk (ZS_setClient i c k)"
proof -
  have "distinct (map fst (AList.update i c (sv_clients k)))"
    using assms(1) by (simp add: clientsOk_def distinct_update)
  moreover have "\<forall>d \<in> snd ` set (AList.update i c (sv_clients k)). clientOk subscriptionMax d"
    using assms update_values [of i c "sv_clients k"] unfolding clientsOk_def by blast
  ultimately show ?thesis by (simp add: clientsOk_def ZS_setClient_def)
qed

lemma client_ok: "clientsOk k \<Longrightarrow> clientOk subscriptionMax (ZS_client i k)"
  by (cases "map_of (sv_clients k) i")
    (auto simp: ZS_client_def ZS_newClient_def clientsOk_def clientOk_def dest!: map_of_SomeD)

text \<open>The count when all that waits has run.\<close>

definition settledCount :: "LocoKey \<Rightarrow> Z21_Server \<Rightarrow> nat" where
  "settledCount key k = fold (countAfter key) (sv_posted k) (subscriptionCount key k)"

lemma balanced_alt: "balanced known k \<longleftrightarrow> (\<forall>key. counted known (settledCount key k) (subscribers key k))"
  by (simp add: balanced_def settledCount_def)

lemma balancedD: "subscriptionsOk known k \<Longrightarrow> counted known (settledCount key k) (subscribers key k)"
  unfolding subscriptionsOk_def balanced_alt by blast

lemma balancedI:
  "(\<And>key. counted known (settledCount key k) (subscribers key k)) \<Longrightarrow> clientsOk k \<Longrightarrow> countsOk k \<Longrightarrow>
    subscriptionsOk known k"
  unfolding subscriptionsOk_def balanced_alt by blast

lemma settledCount_simps [simp]:
  "settledCount key (ZS_setClient i c k) = settledCount key k"
  "settledCount key (ZS_eventLoopCall c' k) = countAfter key c' (settledCount key k)"
  by (simp_all add: settledCount_def subscriptionCount_def ZS_setClient_def ZS_eventLoopCall_def)

lemma subscribers_simps [simp]:
  "subscribers key (ZS_eventLoopCall c k) = subscribers key k"
  "ZS_client i (ZS_eventLoopCall c k) = ZS_client i k"
  "clientsOk (ZS_eventLoopCall c k) = clientsOk k"
  "countsOk (ZS_eventLoopCall c k) = countsOk k"
  "countsOk (ZS_setClient i d k) = countsOk k"
  by (simp_all add: subscribers_def ZS_client_def clientsOk_def countsOk_def ZS_eventLoopCall_def ZS_setClient_def)

lemma client_setClient [simp]:
  "ZS_client i (ZS_setClient i c k) = c"
  "ZS_setClient i c (ZS_setClient i c' k) = ZS_setClient i c k"
  "ZS_setClient i c (ZS_eventLoopCall e k) = ZS_eventLoopCall e (ZS_setClient i c k)"
  by (simp_all add: ZS_client_def ZS_setClient_def ZS_eventLoopCall_def AList.update_conv')

lemma setClient_same:
  assumes "subscriptionsOk known k" and "cl_subscriptions c = cl_subscriptions (ZS_client i k)"
  shows "subscriptionsOk known (ZS_setClient i c k)"
proof -
  have "subscribers key (ZS_setClient i c k) = subscribers key k" for key
    using subscribers_setClient [of key i c k] assms(2) by simp
  moreover have "clientOk subscriptionMax c"
    using assms client_ok [of k i] by (simp add: subscriptionsOk_def clientOk_def)
  ultimately show ?thesis
    using assms(1) balancedD [OF assms(1)] by (intro balancedI) (simp_all add: clientsOk_setClient subscriptionsOk_def)
qed

lemma unsubscribe_ok:
  assumes "subscriptionsOk known k" and "key \<in> set (cl_subscriptions (ZS_client i k))"
  shows "subscriptionsOk known (ZS_unsubscribe i key k)"
    and "cl_subscriptions (ZS_client i (ZS_unsubscribe i key k)) = remove1 key (cl_subscriptions (ZS_client i k))"
    and "\<And>j. map_of (sv_clients (ZS_unsubscribe i key k)) j =
      (if j = i then Some ((ZS_client i k)\<lparr>cl_subscriptions := remove1 key (cl_subscriptions (ZS_client i k))\<rparr>)
       else map_of (sv_clients k) j)"
proof -
  let ?c = "ZS_client i k"
  let ?d = "?c\<lparr>cl_subscriptions := remove1 key (cl_subscriptions ?c)\<rparr>"
  have c: "clientOk subscriptionMax ?c" using assms(1) by (simp add: subscriptionsOk_def client_ok)
  have d: "clientOk subscriptionMax ?d"
    using c by (auto simp: clientOk_def length_remove1 distinct_remove1)
  have m: "key' \<in> set (remove1 key (cl_subscriptions ?c)) \<longleftrightarrow> key' \<in> set (cl_subscriptions ?c) \<and> key' \<noteq> key" for key'
    using c by (auto simp: clientOk_def set_remove1_eq)
  have "counted known (settledCount key' (ZS_unsubscribe i key k)) (subscribers key' (ZS_unsubscribe i key k))" for key'
  proof (cases "key' = key")
    case True
    have "subscribers key k = Suc (subscribers key (ZS_setClient i ?d k))"
      using subscribers_setClient [of key i ?d k] assms(2) m by simp
    then show ?thesis
      using True balancedD [OF assms(1), of key] by (simp add: ZS_unsubscribe_def Let_def counted_pred)
  next
    case False
    have "subscribers key' (ZS_setClient i ?d k) = subscribers key' k"
      using subscribers_setClient [of key' i ?d k] m False by simp
    then show ?thesis
      using False balancedD [OF assms(1), of key'] by (simp add: ZS_unsubscribe_def Let_def)
  qed
  then show "subscriptionsOk known (ZS_unsubscribe i key k)"
    using assms(1) d by (intro balancedI) (simp_all add: subscriptionsOk_def ZS_unsubscribe_def Let_def clientsOk_setClient)
  show "cl_subscriptions (ZS_client i (ZS_unsubscribe i key k)) = remove1 key (cl_subscriptions ?c)"
    by (simp add: ZS_unsubscribe_def Let_def)
  show "map_of (sv_clients (ZS_unsubscribe i key k)) j = (if j = i then Some ?d else map_of (sv_clients k) j)" for j
    by (simp add: ZS_unsubscribe_def Let_def ZS_setClient_def ZS_eventLoopCall_def AList.update_conv')
qed

lemma subscribe_ok:
  assumes "subscriptionsOk known k"
  shows "subscriptionsOk known (ZS_subscribe i a l k)"
proof -
  let ?c = "ZS_client i k"
  let ?key = "(a, l)"
  let ?subs = "cl_subscriptions ?c @ [?key]"
  have c: "clientOk subscriptionMax ?c" using assms by (simp add: subscriptionsOk_def client_ok)
  show ?thesis
  proof (cases "?key \<in> set (cl_subscriptions ?c)")
    case True
    then show ?thesis using setClient_same [OF assms, of ?c i] by (simp add: ZS_subscribe_def Let_def)
  next
    case False
    note n = False
    have d: "distinct ?subs" using c n by (simp add: clientOk_def)
    have s1: "subscribers key (ZS_setClient i (?c\<lparr>cl_subscriptions := ?subs\<rparr>) k) =
        subscribers key k + of_bool (key = ?key)" for key
      using subscribers_setClient [of key i "?c\<lparr>cl_subscriptions := ?subs\<rparr>" k] n by (cases "key = ?key") auto
    show ?thesis
    proof (cases "length ?subs > subscriptionMax")
      case False
      then have r: "ZS_subscribe i a l k =
          ZS_eventLoopCall (ZeSubscribe ?key) (ZS_setClient i (?c\<lparr>cl_subscriptions := ?subs\<rparr>) k)"
        using n by (simp add: ZS_subscribe_def Let_def)
      have o1: "clientOk subscriptionMax (?c\<lparr>cl_subscriptions := ?subs\<rparr>)" using False d by (simp add: clientOk_def)
      show ?thesis
        using assms o1 s1 balancedD [OF assms] unfolding r
        by (intro balancedI) (auto simp: countAfter_def subscriptionsOk_def intro: clientsOk_setClient)
    next
      case True
      then obtain h t where h: "cl_subscriptions ?c = h # t" by (cases "cl_subscriptions ?c") simp_all
      let ?d = "?c\<lparr>cl_subscriptions := t @ [?key]\<rparr>"
      have hk: "h \<noteq> ?key" "h \<notin> set t" "?key \<notin> set t" using d h by auto
      have r: "ZS_subscribe i a l k =
          ZS_eventLoopCall (ZeSubscribe ?key) (ZS_eventLoopCall (ZeUnsubscribe h) (ZS_setClient i ?d k))"
        using n True h hk by (simp add: ZS_subscribe_def Let_def ZS_unsubscribe_def)
      have o1: "clientOk subscriptionMax ?d" using c d h by (simp add: clientOk_def)
      have s2: "subscribers key (ZS_setClient i ?d k) + of_bool (key = h) = subscribers key k + of_bool (key = ?key)" for key
        using subscribers_setClient [of key i ?d k] h hk by (cases "key = h"; cases "key = ?key") auto
      have "counted known (settledCount key (ZS_subscribe i a l k)) (subscribers key (ZS_subscribe i a l k))" for key
      proof -
        have b: "counted known (settledCount key k) (subscribers key k)" by (rule balancedD [OF assms])
        show ?thesis
          using s2 [of key] hk b unfolding r
          by (cases "key = h"; cases "key = ?key") (auto simp: countAfter_def counted_def)
      qed
      then show ?thesis
        using assms o1 unfolding r by (intro balancedI) (auto simp: subscriptionsOk_def intro: clientsOk_setClient)
    qed
  qed
qed

lemma unsubscribe_all:
  assumes "subscriptionsOk known k" and "distinct ks" and "cl_subscriptions (ZS_client i k) = ks"
  shows "subscriptionsOk known (fold (ZS_unsubscribe i) ks k) \<and> cl_subscriptions (ZS_client i (fold (ZS_unsubscribe i) ks k)) = []"
  using assms
proof (induction ks arbitrary: k)
  case (Cons key ks)
  note u = unsubscribe_ok(1,2) [OF Cons.prems(1), of key i]
  show ?case using Cons.IH [of "ZS_unsubscribe i key k"] u Cons.prems by simp
qed simp

lemma subscribers_delete:
  assumes "distinct (map fst (sv_clients k))" and "cl_subscriptions (ZS_client i k) = []"
  shows "subscribers key (k\<lparr>sv_clients := AList.delete i (sv_clients k)\<rparr>) = subscribers key k"
proof -
  have "has (\<lambda>c. key \<in> set (cl_subscriptions c)) (map_of (sv_clients k) i) = 0"
    using assms(2) by (cases "map_of (sv_clients k) i") (simp_all add: ZS_client_def)
  then show ?thesis
    using countBy_delete [OF assms(1), of "\<lambda>c. key \<in> set (cl_subscriptions c)" i] by (simp add: subscribers_def)
qed

lemma delete_clientsOk: "clientsOk k \<Longrightarrow> clientsOk (k\<lparr>sv_clients := AList.delete i (sv_clients k)\<rparr>)"
proof -
  assume a: "clientsOk k"
  have "set (AList.delete i (sv_clients k)) \<subseteq> set (sv_clients k)" by (auto simp: AList.delete_eq)
  then have "\<forall>c \<in> snd ` set (AList.delete i (sv_clients k)). clientOk subscriptionMax c"
    using a unfolding clientsOk_def by blast
  then show ?thesis using a by (simp add: clientsOk_def distinct_delete)
qed

lemma removeClient_ok:
  assumes "subscriptionsOk known k"
  shows "subscriptionsOk known (ZS_removeClient i k)"
proof -
  let ?k0 = "ZS_setClient i (ZS_client i k) k"
  let ?ks = "cl_subscriptions (ZS_client i k)"
  let ?k1 = "fold (ZS_unsubscribe i) ?ks ?k0"
  have "subscriptionsOk known ?k0" by (rule setClient_same [OF assms]) simp
  moreover have "distinct ?ks" using assms client_ok [of k i] by (simp add: subscriptionsOk_def clientOk_def)
  ultimately have 1: "subscriptionsOk known ?k1" "cl_subscriptions (ZS_client i ?k1) = []"
    using unsubscribe_all [of known ?k0 ?ks i] by simp_all
  let ?k2 = "?k1\<lparr>sv_clients := AList.delete i (sv_clients ?k1)\<rparr>"
  have c1: "clientsOk ?k1" using 1(1) by (simp add: subscriptionsOk_def)
  then have "subscribers key ?k2 = subscribers key ?k1" for key
    using 1(2) by (intro subscribers_delete) (simp_all add: clientsOk_def)
  moreover have "settledCount key ?k2 = settledCount key ?k1" for key
    by (simp add: settledCount_def subscriptionCount_def)
  ultimately have "subscriptionsOk known ?k2"
    using 1(1) c1 balancedD [OF 1(1)]
    by (intro balancedI) (simp_all add: delete_clientsOk, simp add: subscriptionsOk_def countsOk_def)
  then have "subscriptionsOk known (?k2\<lparr>sv_purged := p\<rparr>)" for p
    by (auto simp: subscriptionsOk_def balanced_def countsOk_def clientsOk_def subscribers_def subscriptionCount_def)
  then show ?thesis by (simp add: ZS_removeClient_def Let_def)
qed

section \<open>Messages\<close>

definition Z21_isLogoff :: "bytes \<Rightarrow> bool" where
  "Z21_isLogoff m \<longleftrightarrow> Z21_header m = LAN_LOGOFF \<and> Z21_msgEq m LanLogoff"

lemma ok_trans: "subscriptionsOk known k \<Longrightarrow> neutral k k' \<Longrightarrow> subscriptionsOk known k'"
  using neutral_ok by blast

lemma ok_if: "subscriptionsOk known a \<Longrightarrow> subscriptionsOk known b \<Longrightarrow> subscriptionsOk known (if c then a else b)"
  by simp

lemma ok_ifC: "(c \<Longrightarrow> subscriptionsOk known a) \<Longrightarrow> (\<not> c \<Longrightarrow> subscriptionsOk known b) \<Longrightarrow> subscriptionsOk known (if c then a else b)"
  by simp

lemma receive_LanX_ok: "subscriptionsOk known k \<Longrightarrow> subscriptionsOk known (ZS_receive_LanX m i u k)"
  unfolding ZS_receive_LanX_def ZS_receive_21_def ZS_receive_SET_LOCO_def
  by (intro ok_if) (auto intro: ok_trans [OF _ neutral_sendTo] ok_trans [OF _ neutral_call] subscribe_ok)

lemma dispatch_ok:
  assumes "subscriptionsOk known k" and "\<not> Z21_isLogoff m"
  shows "subscriptionsOk known (ZS_dispatch m i u k)"
  using assms(2) unfolding ZS_dispatch_def Let_def Z21_isLogoff_def
  by (intro ok_ifC receive_LanX_ok assms(1) ok_trans [OF assms(1) neutral_sendTo] setClient_same [OF assms(1)])
    auto

lemma receiveFrom_ok:
  assumes "subscriptionsOk known k" and "\<not> Z21_isLogoff m"
  shows "subscriptionsOk known (ZS_receiveFrom now m i u k)"
proof -
  let ?k = "if sv_debugLogRXTX (sv_config k) then ZS_eventLoopCall (ZeLogRX i m) k else k"
  have "subscriptionsOk known ?k" using assms(1) by (auto intro: ok_trans [OF _ neutral_call])
  then have "subscriptionsOk known (ZS_setClient i ((ZS_client i ?k)\<lparr>cl_lastSeen := now\<rparr>) ?k)"
    by (rule setClient_same) simp
  then show ?thesis using assms(2) unfolding ZS_receiveFrom_def Let_def by (rule dispatch_ok)
qed

section \<open>Closures\<close>

lemma neutral_changed: "neutral k (ZS_changed keys i d ch k)"
proof -
  have c: "neutral k (ZS_call c k)" for c k by (rule neutralI [of _ _ "[]"]) (simp_all add: ZS_call_def)
  have "neutral k (case sv_subscriptions k key of Some (j, n) \<Rightarrow> if j = Some i then ZS_decoderChanged d k else k
      | None \<Rightarrow> k)" for key k
    by (auto simp: ZS_decoderChanged_def neutral_call split: option.split)
  then show ?thesis unfolding ZS_changed_def by (intro neutral_trans [OF c neutral_fold])
qed

lemma neutral_assign: "neutral k (ZS_assign keys i r k)"
proof -
  have d: "neutral k (k\<lparr>sv_decoders := D\<rparr>)" for D by (rule neutralI [of _ _ "[]"]) simp_all
  show ?thesis unfolding ZS_assign_def by (intro neutral_trans [OF d neutral_fold] neutral_changed)
qed

lemma neutral_broadcastLoco: "neutral k (ZS_run_BroadcastLoco key m k)"
  unfolding ZS_run_BroadcastLoco_def by (rule neutral_fold) (auto simp: neutral_sendTo split: prod.split)

lemma neutral_runClosure: "otherClosure c \<Longrightarrow> neutral k (ZS_runClosure keys c k)"
proof (cases c)
  case (ZeGetLocoInfo a l i)
  have "neutral k (ZS_post t k)" for t by (rule neutralI [of _ _ "[]"]) (simp_all add: ZS_post_def)
  then show ?thesis using ZeGetLocoInfo by (auto split: option.split)
next
  case (ZeSetLocoDrive m)
  have "neutral k (ZS_assign keys i r3 (ZS_assign keys i r2 (ZS_assign keys i r1 k)))" for i r1 r2 r3
    by (intro neutral_trans [OF neutral_assign neutral_trans [OF neutral_assign neutral_assign]])
  then show ?thesis using ZeSetLocoDrive by (auto simp: ZS_run_SetLocoDrive_def Let_def split: option.split)
next
  case (ZeSetLocoFunction m)
  then show ?thesis
    by (auto simp: ZS_run_SetLocoFunction_def Let_def neutral_assign split: option.split Z21_SwitchType.split)
next
  case (ZeBroadcastLoco key m)
  then show ?thesis by (simp add: neutral_broadcastLoco)
qed (auto intro: neutralI [of _ _ "[]"] simp: ZS_call_def)

definition decoderKnown :: "Z21_serverClosure \<Rightarrow> Z21_Server \<Rightarrow> bool" where
  "decoderKnown c k \<longleftrightarrow> (case c of ZeSubscribe key \<Rightarrow> ZS_getDecoder (fst key) (snd key) k \<noteq> None | _ \<Rightarrow> True)"

lemma count_runClosure:
  "subscriptionCount key (ZS_runClosure keys c k) \<le> countAfter key c (subscriptionCount key k)"
  "decoderKnown c k \<Longrightarrow> subscriptionCount key (ZS_runClosure keys c k) = countAfter key c (subscriptionCount key k)"
  "countsOk k \<Longrightarrow> countsOk (ZS_runClosure keys c k)"
proof -
  have o: "subscriptionCount key (ZS_runClosure keys c k) = countAfter key c (subscriptionCount key k) \<and>
      (countsOk k \<longrightarrow> countsOk (ZS_runClosure keys c k))" if "otherClosure c"
  proof -
    have "countAfter key c n = n" for n using that by (cases c) (simp_all add: countAfter_def)
    then show ?thesis
      using neutral_runClosure [OF that, of k keys] by (simp add: neutral_def subscriptionCount_def countsOk_def)
  qed
  have u: "subscriptionCount key (ZS_runClosure keys c k) = countAfter key c (subscriptionCount key k) \<and>
      (countsOk k \<longrightarrow> countsOk (ZS_runClosure keys c k))" if "c = ZeUnsubscribe key'" for key'
    using that by (cases "sv_subscriptions k key'")
      (auto simp: ZS_run_Unsubscribe_def subscriptionCount_def countAfter_def countsOk_def split: if_splits)
  have s: "subscriptionCount key (ZS_runClosure keys c k) \<le> countAfter key c (subscriptionCount key k) \<and>
      (decoderKnown c k \<longrightarrow> subscriptionCount key (ZS_runClosure keys c k) = countAfter key c (subscriptionCount key k)) \<and>
      (countsOk k \<longrightarrow> countsOk (ZS_runClosure keys c k))" if "c = ZeSubscribe key'" for key'
    using that by (cases "sv_subscriptions k key'")
      (auto simp: decoderKnown_def ZS_run_Subscribe_def subscriptionCount_def countAfter_def countsOk_def split: option.splits if_splits)
  consider "otherClosure c" | key' where "c = ZeUnsubscribe key'" | key' where "c = ZeSubscribe key'"
    by (cases c) auto
  note all = this
  show "subscriptionCount key (ZS_runClosure keys c k) \<le> countAfter key c (subscriptionCount key k)"
    by (rule all) (use o u s in auto)
  show "decoderKnown c k \<Longrightarrow> subscriptionCount key (ZS_runClosure keys c k) = countAfter key c (subscriptionCount key k)"
    by (rule all) (use o u s in auto)
  show "countsOk k \<Longrightarrow> countsOk (ZS_runClosure keys c k)"
    by (rule all) (use o u s in auto)
qed

lemma clients_runClosure:
  "sv_clients (ZS_runClosure keys c k) = sv_clients k \<and>
    (\<exists>cs. sv_posted (ZS_runClosure keys c k) = sv_posted k @ cs \<and> list_all otherClosure cs)"
proof (cases "otherClosure c")
  case True
  then show ?thesis using neutral_runClosure [OF True, of k keys] by (simp add: neutral_def)
next
  case False
  then show ?thesis
    by (cases c) (auto simp: ZS_run_Subscribe_def ZS_run_Unsubscribe_def split: option.split)
qed

lemma runClosure_ok:
  assumes "subscriptionsOk known k" and "sv_posted k = c # cs" and "known \<Longrightarrow> decoderKnown c k"
  shows "subscriptionsOk known (ZS_runClosure keys c (k\<lparr>sv_posted := cs\<rparr>))"
proof -
  let ?k = "k\<lparr>sv_posted := cs\<rparr>"
  let ?r = "ZS_runClosure keys c ?k"
  obtain more where r: "sv_clients ?r = sv_clients k" "sv_posted ?r = cs @ more" "list_all otherClosure more"
    using clients_runClosure [of keys c ?k] by auto
  have "ZS_getDecoder a l ?k = ZS_getDecoder a l k" for a l by (simp add: ZS_getDecoder_def cong: option.case_cong)
  then have kn: "decoderKnown c ?k = decoderKnown c k" unfolding decoderKnown_def by (cases c) simp_all
  have count: "subscriptionCount key ?k = subscriptionCount key k" for key by (simp add: subscriptionCount_def)
  have "counted known (settledCount key ?r) (subscribers key ?r)" for key
  proof -
    have b: "counted known (fold (countAfter key) cs (countAfter key c (subscriptionCount key k))) (subscribers key k)"
      using balancedD [OF assms(1), of key] assms(2) by (simp add: settledCount_def)
    have "fold (countAfter key) cs (subscriptionCount key ?r) \<le> fold (countAfter key) cs (countAfter key c (subscriptionCount key k))"
      using count_runClosure(1) [of key keys c ?k] by (intro fold_countAfter_mono) (simp add: count)
    moreover have "subscriptionCount key ?r = countAfter key c (subscriptionCount key k)" if known
      using count_runClosure(2) [of c ?k key keys] assms(3) [OF that] by (simp add: count kn)
    moreover have "subscribers key ?r = subscribers key k" using r(1) by (simp add: subscribers_def)
    ultimately show ?thesis using b r by (auto simp: settledCount_def fold_other counted_def)
  qed
  moreover have "clientsOk ?r" using assms(1) r(1) by (simp add: subscriptionsOk_def clientsOk_def)
  moreover have "countsOk ?r" using assms(1) by (intro count_runClosure(3)) (simp add: subscriptionsOk_def countsOk_def)
  ultimately show ?thesis by (intro balancedI)
qed

section \<open>Runs of the server\<close>

text \<open>
  The kernel's thread receives messages (none is a log-off) and runs closures, its timer expires; the
  event loop runs closures, and other code posts tasks or changes decoders.  A subscription that runs
  may find no decoder; \<open>known\<close> are the runs in which each finds one.
\<close>

inductive server_step :: "bool \<Rightarrow> Z21_Server \<Rightarrow> Z21_Server \<Rightarrow> bool" for known where
  server_receive: "\<not> Z21_isLogoff m \<Longrightarrow> server_step known k (ZS_receiveFrom now m i u k)"
| server_task: "sv_tasks k = t # ts \<Longrightarrow> (\<And>m i. t = ZkReceiveFrom m i \<Longrightarrow> \<not> Z21_isLogoff m) \<Longrightarrow>
    server_step known k (ZS_runTask now u t (k\<lparr>sv_tasks := ts\<rparr>))"
| server_closure: "sv_posted k = c # cs \<Longrightarrow> (known \<Longrightarrow> decoderKnown c k) \<Longrightarrow>
    server_step known k (ZS_runClosure keys c (k\<lparr>sv_posted := cs\<rparr>))"
| server_purge: "sv_purgeTimer k \<Longrightarrow> server_step known k (ZS_inactiveClientPurgeTimerExpired now k)"
| server_post: "server_step known k (ZS_post t k)"
| server_decoder: "server_step known k (ZS_assign keys i r k)"
| server_start: "server_step known k (ZS_onStart k)"
| server_stop: "server_step known k (ZS_onStop k)"

lemma server_step_ok: "server_step known k k' \<Longrightarrow> subscriptionsOk known k \<Longrightarrow> subscriptionsOk known k'"
proof (induction rule: server_step.induct)
  case (server_receive m k now i u)
  then show ?case by (intro receiveFrom_ok)
next
  case (server_task k t ts now u)
  have "neutral k (k\<lparr>sv_tasks := ts\<rparr>)" by (rule neutralI [of _ _ "[]"]) simp_all
  then have k: "subscriptionsOk known (k\<lparr>sv_tasks := ts\<rparr>)" by (rule ok_trans [OF server_task.prems])
  have "neutral k (k\<lparr>sv_config := x\<rparr>)" for x and k :: Z21_Server by (rule neutralI [of _ _ "[]"]) simp_all
  then show ?case
    using server_task.hyps(2) k
    by (cases t) (auto intro: receiveFrom_ok ok_trans [OF k neutral_sendTo] ok_trans [OF k neutral_setState] ok_trans [OF k])
next
  case (server_closure k c cs keys)
  then show ?case by (intro runClosure_ok)
next
  case (server_purge k now)
  have "subscriptionsOk known (fold ZS_removeClient is k)" if "subscriptionsOk known k" for "is" k
    using that by (induction "is" arbitrary: k) (simp_all add: removeClient_ok)
  then have "subscriptionsOk known (fold ZS_removeClient (map fst (filter (\<lambda>(i, c). cl_lastSeen c < now - inactiveClientPurgeTime * 1000) (sv_clients k))) k)"
    using server_purge.prems by blast
  moreover have "neutral k (k\<lparr>sv_purgeTimer := True\<rparr>)" for k :: Z21_Server by (rule neutralI [of _ _ "[]"]) simp_all
  ultimately show ?case unfolding ZS_inactiveClientPurgeTimerExpired_def Let_def by (rule ok_trans)
next
  case (server_post k t)
  have "neutral k (ZS_post t k)" by (rule neutralI [of _ _ "[]"]) (simp_all add: ZS_post_def)
  then show ?case by (rule ok_trans [OF server_post])
next
  case (server_decoder k keys i r)
  then show ?case by (rule ok_trans [OF _ neutral_assign])
next
  case (server_start k)
  have "neutral k (ZS_onStart k)" by (rule neutralI [of _ _ "[]"]) (simp_all add: ZS_onStart_def)
  then show ?case by (rule ok_trans [OF server_start])
next
  case (server_stop k)
  have "subscriptionCount key (ZS_onStop k) = subscriptionCount key k" for key
    by (cases "sv_subscriptions k key") (simp_all add: ZS_onStop_def subscriptionCount_def split: prod.split)
  then show ?case
    using server_stop by (auto simp: subscriptionsOk_def balanced_def clientsOk_def subscribers_def countsOk_def ZS_onStop_def)
qed

definition Z21_Server_init :: "Z21_Server \<Rightarrow> bool" where
  "Z21_Server_init k \<longleftrightarrow> sv_clients k = [] \<and> sv_subscriptions k = (\<lambda>_. None) \<and> sv_posted k = [] \<and> sv_tasks k = []"

lemma server_init_ok: "Z21_Server_init k \<Longrightarrow> subscriptionsOk known k"
  by (auto simp: Z21_Server_init_def subscriptionsOk_def balanced_def countsOk_def clientsOk_def subscribers_def subscriptionCount_def)

definition server_reachable :: "bool \<Rightarrow> Z21_Server \<Rightarrow> bool" where
  "server_reachable known k \<longleftrightarrow> (\<exists>k0. Z21_Server_init k0 \<and> (server_step known)\<^sup>*\<^sup>* k0 k)"

lemma server_reachable_ok: "server_reachable known k \<Longrightarrow> subscriptionsOk known k"
proof -
  assume "server_reachable known k"
  then obtain k0 where 0: "Z21_Server_init k0" and r: "(server_step known)\<^sup>*\<^sup>* k0 k" by (auto simp: server_reachable_def)
  from r show ?thesis by (induction rule: rtranclp_induct) (use 0 in \<open>auto intro: server_init_ok server_step_ok\<close>)
qed

text \<open>A log-off forgets the client without giving its subscriptions back.\<close>

lemma logoff_leaks:
  assumes "subscriptionsOk True k" and "Z21_isLogoff m" and "\<not> sv_debugLogRXTX (sv_config k)"
    and "key \<in> set (cl_subscriptions (ZS_client i k))" and "sv_posted k = []"
  shows "subscriptionCount key (ZS_receiveFrom now m i u k) = Suc (subscribers key (ZS_receiveFrom now m i u k))"
    and "sv_posted (ZS_receiveFrom now m i u k) = []"
proof -
  let ?k = "ZS_setClient i ((ZS_client i k)\<lparr>cl_lastSeen := now\<rparr>) k"
  have h: "Z21_header m = LAN_LOGOFF" "Z21_msgEq m LanLogoff" using assms(2) by (simp_all add: Z21_isLogoff_def)
  have r: "ZS_receiveFrom now m i u k = ?k\<lparr>sv_clients := AList.delete i (sv_clients ?k)\<rparr>"
    using assms(3) by (simp add: ZS_receiveFrom_def Let_def ZS_dispatch_def h)
  have k: "subscriptionsOk True ?k" by (rule setClient_same [OF assms(1)]) simp
  have c: "subscriptionCount key ?k = subscribers key ?k"
    using balancedD [OF k, of key] assms(5) by (simp add: settledCount_def ZS_setClient_def counted_def)
  have d: "distinct (map fst (sv_clients ?k))" using k by (simp add: subscriptionsOk_def clientsOk_def)
  have m: "has (\<lambda>c. key \<in> set (cl_subscriptions c)) (map_of (sv_clients ?k) i) = 1"
    using assms(4) by (simp add: ZS_setClient_def AList.update_conv')
  have "Suc (subscribers key (?k\<lparr>sv_clients := AList.delete i (sv_clients ?k)\<rparr>)) = subscribers key ?k"
    using countBy_delete [OF d, of "\<lambda>c. key \<in> set (cl_subscriptions c)" i] m by (simp add: subscribers_def)
  then show "subscriptionCount key (ZS_receiveFrom now m i u k) = Suc (subscribers key (ZS_receiveFrom now m i u k))"
    using c by (simp add: r subscriptionCount_def)
  show "sv_posted (ZS_receiveFrom now m i u k) = []" using assms(5) by (simp add: r ZS_setClient_def)
qed

end
