(* ===== verification/Z21_Feedback.thy ===== *)
theory Z21_Feedback
  imports Z21_Reachable
begin

text \<open>Feedback of the R-Bus: 80 inputs a message, received or simulated.\<close>

section \<open>Receiving\<close>

definition rbusValue :: "bytes \<Rightarrow> nat \<Rightarrow> TriState" where
  "rbusValue m i = toTriState (LanRMBusDataChanged_getFeedbackStatus i m)"

lemma rbusIndex_inj: "Z21_rbusIndex m i = Z21_rbusIndex m j \<longleftrightarrow> i = j"
  by (simp add: Z21_rbusIndex_def)

lemma receive_rbus_fields:
  "z_rbusFeedbackStatus (Z21_receive_rbus m i k) = (z_rbusFeedbackStatus k)(Z21_rbusIndex m i := rbusValue m i)"
  "z_posted (Z21_receive_rbus m i k) = z_posted k @
    (if z_rbusFeedbackStatus k (Z21_rbusIndex m i) \<noteq> rbusValue m i
     then [ZcUpdateInput ChRBus (1 + Z21_rbusIndex m i) (rbusValue m i)] else [])"
  by (auto simp: Z21_receive_rbus_def Let_def rbusValue_def Z21_eventLoopCall_def)

lemma receive_rbus_overrun:
  "z_overrun (Z21_receive_rbus m i k) \<longleftrightarrow> z_overrun k \<or> 1000 \<le> Z21_rbusIndex m i"
  by (simp add: Z21_receive_rbus_def Let_def Z21_eventLoopCall_def)

lemma fold_rbus_overrun:
  "z_overrun (fold (Z21_receive_rbus m) is k) \<longleftrightarrow> z_overrun k \<or> (\<exists>i \<in> set is. 1000 \<le> Z21_rbusIndex m i)"
  by (induction "is" arbitrary: k) (auto simp: receive_rbus_overrun)

lemma group_overrun: "(\<exists>i \<in> set [0..<80]. 1000 \<le> Z21_rbusIndex m i) \<longleftrightarrow> 12 \<le> unat (m ! 4)"
proof
  assume "\<exists>i \<in> set [0..<80]. 1000 \<le> Z21_rbusIndex m i"
  then show "12 \<le> unat (m ! 4)" by (auto simp: Z21_rbusIndex_def)
next
  assume "12 \<le> unat (m ! 4)"
  then have "1000 \<le> Z21_rbusIndex m 79" by (simp add: Z21_rbusIndex_def)
  then show "\<exists>i \<in> set [0..<80]. 1000 \<le> Z21_rbusIndex m i" by (intro bexI [of _ 79]) simp_all
qed

lemma fold_rbus_status:
  "distinct is \<Longrightarrow> z_rbusFeedbackStatus (fold (Z21_receive_rbus m) is k) =
    (\<lambda>n. case find (\<lambda>i. n = Z21_rbusIndex m i) is of Some i \<Rightarrow> rbusValue m i | None \<Rightarrow> z_rbusFeedbackStatus k n)"
proof (induction "is" arbitrary: k)
  case (Cons i "is")
  have "find (\<lambda>j. Z21_rbusIndex m i = Z21_rbusIndex m j) is = None"
    using Cons.prems by (simp add: find_None_iff rbusIndex_inj)
  then show ?case using Cons by (auto simp: fun_eq_iff receive_rbus_fields split: option.split)
qed simp

lemma fold_rbus_posted:
  "distinct is \<Longrightarrow> z_posted (fold (Z21_receive_rbus m) is k) = z_posted k @
    map (\<lambda>i. ZcUpdateInput ChRBus (1 + Z21_rbusIndex m i) (rbusValue m i))
      (filter (\<lambda>i. z_rbusFeedbackStatus k (Z21_rbusIndex m i) \<noteq> rbusValue m i) is)"
proof (induction "is" arbitrary: k)
  case (Cons i "is")
  have "filter (\<lambda>j. ((z_rbusFeedbackStatus k)(Z21_rbusIndex m i := rbusValue m i)) (Z21_rbusIndex m j) \<noteq> rbusValue m j) is =
      filter (\<lambda>j. z_rbusFeedbackStatus k (Z21_rbusIndex m j) \<noteq> rbusValue m j) is"
    using Cons.prems by (intro filter_cong) (auto simp: rbusIndex_inj)
  then show ?case using Cons by (simp add: receive_rbus_fields)
qed simp

lemma find_group:
  "find (\<lambda>i. n = Z21_rbusIndex m i) [0..<80] =
    (if unat (m ! 4) * 80 \<le> n \<and> n < unat (m ! 4) * 80 + 80 then Some (n - unat (m ! 4) * 80) else None)"
proof (cases "unat (m ! 4) * 80 \<le> n \<and> n < unat (m ! 4) * 80 + 80")
  case True
  let ?i = "n - unat (m ! 4) * 80"
  have "find (\<lambda>i. i = ?i) [0..<80] = Some ?i"
    using True by (auto simp: find_Some_iff intro!: exI [of _ ?i])
  moreover have "(\<lambda>i. n = Z21_rbusIndex m i) = (\<lambda>i. i = ?i)" using True by (auto simp: Z21_rbusIndex_def fun_eq_iff)
  ultimately show ?thesis using True by simp
next
  case False
  then show ?thesis by (auto simp: find_None_iff Z21_rbusIndex_def)
qed

text \<open>The inputs of the group take the values of the message, and those that change are told.\<close>

lemma receive_RMBus_effect:
  assumes "z_inputController k" and "Z21_header m = LAN_RMBUS_DATACHANGED" and "Z21_dataLen m = 15"
  shows "z_rbusFeedbackStatus (Z21_receive nan now m k) n =
      (if unat (m ! 4) * 80 \<le> n \<and> n < unat (m ! 4) * 80 + 80 then rbusValue m (n - unat (m ! 4) * 80)
       else z_rbusFeedbackStatus k n)"
    and "\<not> z_debugLogRXTX k \<Longrightarrow> z_posted (Z21_receive nan now m k) = z_posted k @
      map (\<lambda>i. ZcUpdateInput ChRBus (1 + Z21_rbusIndex m i) (rbusValue m i))
        (filter (\<lambda>i. z_rbusFeedbackStatus k (Z21_rbusIndex m i) \<noteq> rbusValue m i) [0..<80])"
    and "z_overrun (Z21_receive nan now m k) \<longleftrightarrow> z_overrun k \<or> 12 \<le> unat (m ! 4)"
proof -
  let ?k = "if z_debugLogRXTX k then Z21_eventLoopCall (ZcRX m) k else k"
  have r: "Z21_receive nan now m k = fold (Z21_receive_rbus m) [0..<80] ?k"
    using assms by (simp add: Z21_receive_def Z21_receive_RMBus_def Let_def Z21_eventLoopCall_def)
  have k: "z_rbusFeedbackStatus ?k = z_rbusFeedbackStatus k" by (simp add: Z21_eventLoopCall_def)
  note f = fold_rbus_status [of "[0..<80]" m ?k, unfolded k find_group, OF distinct_upt]
    fold_rbus_posted [of "[0..<80]" m ?k, unfolded k, OF distinct_upt]
  show "z_rbusFeedbackStatus (Z21_receive nan now m k) n =
      (if unat (m ! 4) * 80 \<le> n \<and> n < unat (m ! 4) * 80 + 80 then rbusValue m (n - unat (m ! 4) * 80)
       else z_rbusFeedbackStatus k n)"
    unfolding r f(1) by simp
  show "z_posted (Z21_receive nan now m k) = z_posted k @
      map (\<lambda>i. ZcUpdateInput ChRBus (1 + Z21_rbusIndex m i) (rbusValue m i))
        (filter (\<lambda>i. z_rbusFeedbackStatus k (Z21_rbusIndex m i) \<noteq> rbusValue m i) [0..<80])"
    if "\<not> z_debugLogRXTX k"
    unfolding r f(2) using that by simp
  show "z_overrun (Z21_receive nan now m k) \<longleftrightarrow> z_overrun k \<or> 12 \<le> unat (m ! 4)"
    unfolding r fold_rbus_overrun group_overrun by (simp add: Z21_eventLoopCall_def)
qed

section \<open>Simulating\<close>

lemma fold_setFeedback:
  assumes "length m = 15" and "\<And>i. i \<in> set is \<Longrightarrow> i < 80" and "k < 80"
  shows "LanRMBusDataChanged_getFeedbackStatus k (fold (\<lambda>i. LanRMBusDataChanged_setFeedbackStatus i (f i)) is m) =
    (if k \<in> set is then f k else LanRMBusDataChanged_getFeedbackStatus k m)"
  using assms(1,2)
proof (induction "is" arbitrary: m)
  case (Cons i "is")
  let ?m = "LanRMBusDataChanged_setFeedbackStatus i (f i) m"
  have e: "LanRMBusDataChanged_getFeedbackStatus k ?m =
      (if k = i then f i else LanRMBusDataChanged_getFeedbackStatus k m)"
    using getFeedback_setFeedback [of m i k "f i"] Cons.prems assms(3) by simp
  have "LanRMBusDataChanged_getFeedbackStatus k (fold (\<lambda>i. LanRMBusDataChanged_setFeedbackStatus i (f i)) is ?m) =
      (if k \<in> set is then f k else LanRMBusDataChanged_getFeedbackStatus k ?m)"
    using Cons.prems by (intro Cons.IH) simp_all
  then show ?case unfolding e by auto
qed simp

lemma fold_setFeedback_head:
  "length (fold (\<lambda>i. LanRMBusDataChanged_setFeedbackStatus i (f i)) is m) = length m \<and>
   Z21_dataLen (fold (\<lambda>i. LanRMBusDataChanged_setFeedbackStatus i (f i)) is m) = Z21_dataLen m \<and>
   Z21_header (fold (\<lambda>i. LanRMBusDataChanged_setFeedbackStatus i (f i)) is m) = Z21_header m \<and>
   fold (\<lambda>i. LanRMBusDataChanged_setFeedbackStatus i (f i)) is m ! 4 = m ! 4"
  by (induction "is" arbitrary: m) simp_all

definition simulatedValue :: "nat \<Rightarrow> SimulateInputAction \<Rightarrow> Z21_Client \<Rightarrow> nat \<Rightarrow> bool" where
  "simulatedValue address action k n =
    (if address = 1 + n then
       (case action of SimSetFalse \<Rightarrow> False | SimSetTrue \<Rightarrow> True | SimToggle \<Rightarrow> z_rbusFeedbackStatus k n \<noteq> TriTrue)
     else z_rbusFeedbackStatus k n = TriTrue)"

lemma fold_cong_group:
  assumes "\<And>i m. m ! 4 = g \<Longrightarrow> h i m = LanRMBusDataChanged_setFeedbackStatus i (f i) m" and "m ! 4 = g"
  shows "fold h is m = fold (\<lambda>i. LanRMBusDataChanged_setFeedbackStatus i (f i)) is m"
  using assms(2)
proof (induction "is" arbitrary: m)
  case (Cons i "is")
  have "LanRMBusDataChanged_setFeedbackStatus i (f i) m ! 4 = g" using Cons.prems by simp
  from Cons.IH [OF this] show ?case using assms(1) [OF Cons.prems] by simp
qed simp

lemma simulatedRBus_facts:
  fixes u :: bytes and address :: nat and action :: SimulateInputAction and k :: Z21_Client
  assumes "length u = 10" and "address - 1 < 20480"
  defines "m \<equiv> Z21_simulatedRBus address action u k" and "g \<equiv> (address - 1) div 80"
  shows "Z21_header m = LAN_RMBUS_DATACHANGED" "Z21_dataLen m = 15" "unat (m ! 4) = g"
    and "i < 80 \<Longrightarrow> LanRMBusDataChanged_getFeedbackStatus i m = simulatedValue address action k (g * 80 + i)"
proof -
  let ?m = "LanRMBusDataChanged (of_nat g) u"
  have g: "unat (of_nat g :: u8) = g"
    using assms(2) unfolding g_def by (simp add: unat_of_nat take_bit_nat_eq_self less_mult_imp_div_less)
  have m0: "length ?m = 15" "Z21_dataLen ?m = 15" "Z21_header ?m = LAN_RMBUS_DATACHANGED" "?m ! 4 = of_nat g"
    using assms(1) by (simp_all add: LanRMBusDataChanged_def numeral_eq_Suc)
  have m: "m = fold (\<lambda>i. LanRMBusDataChanged_setFeedbackStatus i (simulatedValue address action k (g * 80 + i))) [0..<80] ?m"
    unfolding m_def Z21_simulatedRBus_def Let_def g_def [symmetric]
    by (rule fold_cong_group [of "of_nat g"])
      (simp_all add: m0(4) g Z21_rbusIndex_def simulatedValue_def split: SimulateInputAction.split)
  note h = fold_setFeedback_head [of "\<lambda>i. simulatedValue address action k (g * 80 + i)" "[0..<80]" ?m]
  show "Z21_header m = LAN_RMBUS_DATACHANGED" "Z21_dataLen m = 15" "unat (m ! 4) = g"
    using h m0 g by (simp_all only: m)
  show "LanRMBusDataChanged_getFeedbackStatus i m = simulatedValue address action k (g * 80 + i)" if "i < 80"
    using fold_setFeedback [of ?m "[0..<80]" i] m0(1) that by (simp add: m)
qed

text \<open>The input takes the value; the others of the group keep theirs, where unknown becomes false.\<close>

lemma simulate_rbus_effect:
  assumes "z_inputController k" and "length u = 10" and "1 \<le> address" and "address \<le> 20480"
    and "\<not> (action = SimSetFalse \<and> z_rbusFeedbackStatus k (address - 1) = TriFalse)"
    and "\<not> (action = SimSetTrue \<and> z_rbusFeedbackStatus k (address - 1) = TriTrue)"
  shows "z_rbusFeedbackStatus (Z21_simulateInput_posted nan now ChRBus address action u k) n =
    (if n div 80 = (address - 1) div 80 then toTriState (simulatedValue address action k n)
     else z_rbusFeedbackStatus k n)"
proof -
  let ?m = "Z21_simulatedRBus address action u k"
  let ?g = "(address - 1) div 80"
  have a: "address - 1 < 20480" using assms(3,4) by linarith
  note f = simulatedRBus_facts [OF assms(2) a, where action = action and k = k]
  have s: "Z21_simulateInput_posted nan now ChRBus address action u k = Z21_receive nan now ?m k"
    using assms(5,6) by (auto simp: Z21_simulateInput_posted_def)
  note r = receive_RMBus_effect(1) [OF assms(1) f(1,2), of nan now n, folded s]
  have d: "?g * 80 \<le> n \<and> n < ?g * 80 + 80 \<longleftrightarrow> n div 80 = ?g"
    by (metis add.commute div_less_iff_less_mult div_nat_eqI dividend_less_div_times less_eq_div_iff_mult_less_eq
        mult.commute mult_Suc zero_less_numeral le_antisym le_refl)
  show ?thesis
  proof (cases "n div 80 = ?g")
    case True
    then have n: "?g * 80 \<le> n" "n < ?g * 80 + 80" using d by blast+
    then have "n - ?g * 80 < 80" "?g * 80 + (n - ?g * 80) = n" by linarith+
    then show ?thesis using r n f(3) f(4) [of "n - ?g * 80"] True by (simp add: rbusValue_def)
  next
    case False
    then show ?thesis using r f(3) d by auto
  qed
qed

end
