(* ===== verification/Z21_Simulation.thy ===== *)
theory Z21_Simulation
  imports Z21_Reachable
begin

text \<open>
  The simulated command station, \<^verbatim>\<open>z21/iohandler/simulationiohandler.cpp\<close>, in a loop with the client's
  kernel: what the kernel sends is answered by messages that wait as closures of its thread.
\<close>

section \<open>The station\<close>

record Z21_Sim =
  zs_emergencyStop :: bool
  zs_trackPowerOn :: bool
  zs_broadcastFlags :: u32

definition Z21_Sim_init :: Z21_Sim where
  "Z21_Sim_init = \<lparr>zs_emergencyStop = False, zs_trackPowerOn = False, zs_broadcastFlags = 0\<rparr>"

definition zs_centralState :: "Z21_Sim \<Rightarrow> u8" where
  "zs_centralState s =
    orFlag (orFlag 0 CENTRALSTATE_EMERGENCYSTOP (zs_emergencyStop s))
      CENTRALSTATE_TRACKVOLTAGEOFF (\<not> zs_trackPowerOn s)"

definition zs_systemState :: "Z21_Sim \<Rightarrow> bytes" where
  "zs_systemState s = LanSystemState_setCentralState (zs_centralState s) LanSystemStateDataChanged"

text \<open>The state is sent too when it changed and the client asked for that.\<close>

definition zs_changed :: "bool \<Rightarrow> Z21_Sim \<Rightarrow> bytes list" where
  "zs_changed changed s =
    (if changed \<and> zs_broadcastFlags s AND BF_SystemStatusChanges = BF_SystemStatusChanges
     then [zs_systemState s] else [])"

definition zs_power :: "bytes \<Rightarrow> u8 \<Rightarrow> Z21_Sim \<Rightarrow> Z21_Sim \<times> bytes list" where
  "zs_power m u s =
    (if Z21_msgEq m LanXGetVersion then (s, [LanXGetVersionReply 30 0x12])
     else if Z21_msgEq m LanXGetStatus then
       (s, [LanX_updateChecksum (LanXStatusChanged (zs_centralState s) u)])
     else if Z21_msgEq m LanXSetTrackPowerOn then
       (let changed = (\<not> zs_trackPowerOn s \<or> zs_emergencyStop s);
            s = s\<lparr>zs_trackPowerOn := True, zs_emergencyStop := False\<rparr>
        in (s, LanXBCTrackPowerOn # zs_changed changed s))
     else if Z21_msgEq m LanXSetTrackPowerOff then
       (let changed = zs_trackPowerOn s; s = s\<lparr>zs_trackPowerOn := False\<rparr>
        in (s, LanXBCTrackPowerOff # zs_changed changed s))
     else (s, []))"

definition zs_LanX :: "bytes \<Rightarrow> u8 \<Rightarrow> Z21_Sim \<Rightarrow> Z21_Sim \<times> bytes list" where
  "zs_LanX m u s =
    (let x = Z21_xheader m;
         turnouts = (zs_broadcastFlags s AND BF_PowerLocoTurnoutChanges = BF_PowerLocoTurnoutChanges)
     in if x = 0x21 then zs_power m u s
        else if x = LAN_X_SET_STOP then
          (if Z21_msgEq m LanXSetStop then
             (let changed = (\<not> zs_emergencyStop s); s = s\<lparr>zs_emergencyStop := True\<rparr>
              in (s, LanXBCStopped # zs_changed changed s))
           else (s, []))
        else if x = LAN_X_GET_FIRMWARE_VERSION then
          (s, if Z21_msgEq m LanXGetFirmwareVersion then [LanXGetFirmwareVersionReply 1 30] else [])
        else if x = LAN_X_SET_TURNOUT then
          (s, if Z21_dataLen m = 9 \<and> turnouts
              then [LanXTurnoutInfo (LanXSetTurnout_address m) (LanXSetTurnout_port m) False] else [])
        else if x = LAN_X_TURNOUT_INFO then
          (s, if Z21_dataLen m = 8 then [LanXTurnoutInfo (LanXGetTurnoutInfo_address m) False True] else [])
        else if x = LAN_X_SET_EXT_ACCESSORY then
          (s, if Z21_dataLen m = 10 \<and> turnouts
              then [LanXExtAccessoryInfo (LanXExtAccessory_address m) (LanXExtAccessory_aspect m) False] else [])
        else if x = LAN_X_EXT_ACCESSORY_INFO then
          (s, if Z21_dataLen m = 9 then [LanXExtAccessoryInfo (LanXExtAccessory_address m) 0 True] else [])
        else (s, []))"

definition zs_send :: "bytes \<Rightarrow> u8 \<Rightarrow> Z21_Sim \<Rightarrow> Z21_Sim \<times> bytes list" where
  "zs_send m u s =
    (let h = Z21_header m in
     if h = LAN_X then zs_LanX m u s
     else if h = LAN_GET_SERIAL_NUMBER then
       (s, if Z21_dataLen m = 4 then [LanGetSerialNumberReply 123456789] else [])
     else if h = LAN_GET_HWINFO then
       (s, if Z21_dataLen m = 4 then [LanGetHardwareInfoReply 0x00000201 1 30] else [])
     else if h = LAN_GET_BROADCASTFLAGS then
       (s, if Z21_msgEq m LanGetBroadcastFlags then [LanSetBroadcastFlags (zs_broadcastFlags s)] else [])
     else if h = LAN_SET_BROADCASTFLAGS then
       (if Z21_dataLen m = 8 then (s\<lparr>zs_broadcastFlags := Z21_broadcastFlags m\<rparr>, []) else (s, []))
     else if h = LAN_SYSTEMSTATE_GETDATA then
       (s, if Z21_msgEq m LanSystemStateGetData then [zs_systemState s] else [])
     else (s, []))"

fun zs_sends :: "bytes list \<Rightarrow> u8 \<Rightarrow> Z21_Sim \<Rightarrow> Z21_Sim \<times> bytes list" where
  "zs_sends [] u s = (s, [])"
| "zs_sends (m # ms) u s =
    (let r = zs_send m u s; q = zs_sends ms u (fst r) in (fst q, snd r @ snd q))"

section \<open>The loop\<close>

text \<open>One closure of the kernel's thread, and the station's answers to what it sent.\<close>

definition z21_sim_task :: "int \<Rightarrow> int \<Rightarrow> bytes \<Rightarrow> u8 \<Rightarrow> Z21_Client \<times> Z21_Sim \<Rightarrow> Z21_Client \<times> Z21_Sim" where
  "z21_sim_task nan now b u c =
    (case z_tasks (fst c) of
       [] \<Rightarrow> c
     | t # ts \<Rightarrow>
         let k = Z21_runTask nan now b t ((fst c)\<lparr>z_tasks := ts\<rparr>);
             r = zs_sends (map fst (drop (length (z_wire (fst c))) (z_wire k))) u (snd c)
         in (k\<lparr>z_tasks := z_tasks k @ map ZtReceive (snd r)\<rparr>, fst r))"

fun z21_sim_tasks :: "nat \<Rightarrow> int \<Rightarrow> int \<Rightarrow> bytes \<Rightarrow> u8 \<Rightarrow> Z21_Client \<times> Z21_Sim \<Rightarrow> Z21_Client \<times> Z21_Sim" where
  "z21_sim_tasks 0 nan now b u c = c"
| "z21_sim_tasks (Suc n) nan now b u c = z21_sim_tasks n nan now b u (z21_sim_task nan now b u c)"

text \<open>The event loop runs what was posted; none of it posts more.\<close>

definition z21_events :: "Z21_Client \<Rightarrow> Z21_Client" where
  "z21_events k = fold Z21_runClosure (z_posted k) (k\<lparr>z_posted := []\<rparr>)"

definition z21_settle :: "nat \<Rightarrow> int \<Rightarrow> int \<Rightarrow> bytes \<Rightarrow> u8 \<Rightarrow> Z21_Client \<times> Z21_Sim \<Rightarrow> Z21_Client \<times> Z21_Sim" where
  "z21_settle n nan now b u c =
    (let c = z21_sim_tasks n nan now b u c in (z21_events (fst c), snd c))"

section \<open>The client's reactions\<close>

lemma known_messages:
  "Z21_header LanXBCTrackPowerOn = LAN_X" "LanX_isChecksumValid LanXBCTrackPowerOn" "LanXBCTrackPowerOn ! 4 = LAN_X_BC"
  "\<not> Z21_msgEq LanXBCTrackPowerOn LanXBCTrackPowerOff" "\<not> Z21_msgEq LanXBCTrackPowerOn LanXBCTrackShortCircuit"
  "Z21_msgEq LanXBCTrackPowerOn LanXBCTrackPowerOn"
  "Z21_header LanXBCTrackPowerOff = LAN_X" "LanX_isChecksumValid LanXBCTrackPowerOff" "LanXBCTrackPowerOff ! 4 = LAN_X_BC"
  "Z21_msgEq LanXBCTrackPowerOff LanXBCTrackPowerOff"
  "Z21_header LanXBCStopped = LAN_X" "LanX_isChecksumValid LanXBCStopped" "LanXBCStopped ! 4 = LAN_X_BC_STOPPED"
  "Z21_msgEq LanXBCStopped LanXBCStopped"
  "Z21_header LanXSetTrackPowerOn = LAN_X" "LanXSetTrackPowerOn ! 4 = 0x21"
  "\<not> Z21_msgEq LanXSetTrackPowerOn LanXGetVersion" "\<not> Z21_msgEq LanXSetTrackPowerOn LanXGetStatus"
  "Z21_msgEq LanXSetTrackPowerOn LanXSetTrackPowerOn"
  "Z21_header LanXSetTrackPowerOff = LAN_X" "LanXSetTrackPowerOff ! 4 = 0x21"
  "\<not> Z21_msgEq LanXSetTrackPowerOff LanXGetVersion" "\<not> Z21_msgEq LanXSetTrackPowerOff LanXGetStatus"
  "\<not> Z21_msgEq LanXSetTrackPowerOff LanXSetTrackPowerOn" "Z21_msgEq LanXSetTrackPowerOff LanXSetTrackPowerOff"
  "Z21_header LanXSetStop = LAN_X" "LanXSetStop ! 4 = LAN_X_SET_STOP" "Z21_msgEq LanXSetStop LanXSetStop"
  "Z21_msgEq LanGetBroadcastFlags LanGetBroadcastFlags" "Z21_msgEq LanSystemStateGetData LanSystemStateGetData"
  by code_simp+

text \<open>The closures that receiving a message posts, without the log.\<close>

definition z21_log :: "bytes \<Rightarrow> Z21_Client \<Rightarrow> Z21_Client" where
  "z21_log m k = (if z_debugLogRXTX k then Z21_eventLoopCall (ZcRX m) k else k)"

lemma receive_power:
  "Z21_receive nan now LanXBCTrackPowerOn k = Z21_eventLoopCall ZcTrackPowerOn (z21_log LanXBCTrackPowerOn k)"
  "Z21_receive nan now LanXBCTrackPowerOff k = Z21_eventLoopCall ZcTrackPowerOff (z21_log LanXBCTrackPowerOff k)"
  "Z21_receive nan now LanXBCStopped k = Z21_eventLoopCall ZcStopped (z21_log LanXBCStopped k)"
  by (simp_all add: Z21_receive_def Z21_receive_LanX_def z21_log_def Let_def known_messages)

lemma systemState_fields:
  "Z21_header (LanSystemState_setCentralState v LanSystemStateDataChanged) = LAN_SYSTEMSTATE_DATACHANGED"
  "Z21_dataLen (LanSystemState_setCentralState v LanSystemStateDataChanged) = 20"
  "LanSystemState_centralState (LanSystemState_setCentralState v LanSystemStateDataChanged) = v"
  by (simp_all add: LanSystemState_setCentralState_def LanSystemState_centralState_def LanSystemStateDataChanged_def
      head_update)

lemma centralState_bits:
  "testFlag (zs_centralState s) 0x01 = zs_emergencyStop s"
  "testFlag (zs_centralState s) 0x02 = (\<not> zs_trackPowerOn s)"
  "testFlag (zs_centralState s) 0x04 = False"
  by (simp_all add: zs_centralState_def flag_simps)

lemma receive_systemState:
  "Z21_receive nan now (zs_systemState s) k =
    Z21_eventLoopCall (ZcSystemState (toTriState (zs_trackPowerOn s)) (toTriState (zs_emergencyStop s)))
      (z21_log (zs_systemState s) k)"
  by (simp add: Z21_receive_def Z21_receive_SystemState_def z21_log_def Let_def zs_systemState_def systemState_fields
      centralState_bits)

text \<open>The answer to a request for the broadcast flags is not the one the client knows.\<close>

lemma receive_flags_ignored:
  "Z21_receive nan now (LanSetBroadcastFlags f) k = z21_log (LanSetBroadcastFlags f) k"
  by (simp add: Z21_receive_def z21_log_def Let_def LanSetBroadcastFlags_def)

lemma station_power:
  "zs_send LanXSetTrackPowerOn u s =
    (s\<lparr>zs_trackPowerOn := True, zs_emergencyStop := False\<rparr>,
     LanXBCTrackPowerOn # zs_changed (\<not> zs_trackPowerOn s \<or> zs_emergencyStop s)
       (s\<lparr>zs_trackPowerOn := True, zs_emergencyStop := False\<rparr>))"
  "zs_send LanXSetTrackPowerOff u s =
    (s\<lparr>zs_trackPowerOn := False\<rparr>, LanXBCTrackPowerOff # zs_changed (zs_trackPowerOn s) (s\<lparr>zs_trackPowerOn := False\<rparr>))"
  "zs_send LanXSetStop u s =
    (s\<lparr>zs_emergencyStop := True\<rparr>, LanXBCStopped # zs_changed (\<not> zs_emergencyStop s) (s\<lparr>zs_emergencyStop := True\<rparr>))"
  by (simp_all add: zs_send_def zs_LanX_def zs_power_def Let_def known_messages)

section \<open>Client and station agree\<close>

definition synced :: "Z21_Client \<times> Z21_Sim \<Rightarrow> bool" where
  "synced c \<longleftrightarrow> z_trackPowerOn (fst c) = toTriState (zs_trackPowerOn (snd c)) \<and>
    z_emergencyStop (fst c) = toTriState (zs_emergencyStop (snd c))"

definition atRest :: "Z21_Client \<times> Z21_Sim \<Rightarrow> bool" where
  "atRest c \<longleftrightarrow> z_tasks (fst c) = [] \<and> z_posted (fst c) = []"

definition listening :: "Z21_Client \<times> Z21_Sim \<Rightarrow> bool" where
  "listening c \<longleftrightarrow> zs_broadcastFlags (snd c) AND BF_SystemStatusChanges = BF_SystemStatusChanges"

lemma log_fields [simp]:
  "z_tasks (z21_log m k) = z_tasks k" "z_wire (z21_log m k) = z_wire k"
  "z_trackPowerOn (z21_log m k) = z_trackPowerOn k" "z_emergencyStop (z21_log m k) = z_emergencyStop k"
  "z_posted (z21_log m k) = z_posted k @ (if z_debugLogRXTX k then [ZcRX m] else [])"
  "z_debugLogRXTX (z21_log m k) = z_debugLogRXTX k" "z_broadcastFlags (z21_log m k) = z_broadcastFlags k"
  by (simp_all add: z21_log_def Z21_eventLoopCall_def)

lemma call_fields [simp]:
  "z_tasks (Z21_eventLoopCall c k) = z_tasks k" "z_wire (Z21_eventLoopCall c k) = z_wire k"
  "z_trackPowerOn (Z21_eventLoopCall c k) = z_trackPowerOn k"
  "z_emergencyStop (Z21_eventLoopCall c k) = z_emergencyStop k"
  "z_posted (Z21_eventLoopCall c k) = z_posted k @ [c]"
  "z_debugLogRXTX (Z21_eventLoopCall c k) = z_debugLogRXTX k"
  "z_broadcastFlags (Z21_eventLoopCall c k) = z_broadcastFlags k"
  by (simp_all add: Z21_eventLoopCall_def)

text \<open>What the closures for the power do to the power state.\<close>

fun powerAfter :: "Z21_closure \<Rightarrow> TriState \<times> TriState \<Rightarrow> TriState \<times> TriState" where
  "powerAfter ZcTrackPowerOff p = (if fst p \<noteq> TriFalse then (TriFalse, TriFalse) else p)"
| "powerAfter ZcTrackPowerOn p = (TriTrue, TriFalse)"
| "powerAfter ZcStopped p = (if snd p \<noteq> TriTrue then (TriTrue, TriTrue) else p)"
| "powerAfter (ZcSystemState a b) p = (a, b)"
| "powerAfter _ p = p"

definition powerOf :: "Z21_Client \<Rightarrow> TriState \<times> TriState" where
  "powerOf k = (z_trackPowerOn k, z_emergencyStop k)"

fun isPower :: "Z21_closure \<Rightarrow> bool" where
  "isPower (ZcLocoInfo a e s n d v c) = False"
| "isPower _ = True"

lemma runClosure_power:
  "isPower c \<Longrightarrow> powerOf (Z21_runClosure c k) = powerAfter c (powerOf k) \<and>
    z_tasks (Z21_runClosure c k) = z_tasks k \<and> z_posted (Z21_runClosure c k) = z_posted k \<and>
    z_wire (Z21_runClosure c k) = z_wire k \<and> z_broadcastFlags (Z21_runClosure c k) = z_broadcastFlags k"
  by (cases c) (auto simp: powerOf_def Z21_setPower_def Z21_call_def Let_def)

lemma events_power:
  assumes "list_all isPower (z_posted k)"
  shows "powerOf (z21_events k) = fold powerAfter (z_posted k) (powerOf k) \<and>
    z_tasks (z21_events k) = z_tasks k \<and> z_posted (z21_events k) = [] \<and>
    z_broadcastFlags (z21_events k) = z_broadcastFlags k"
proof -
  have "powerOf (fold Z21_runClosure cs k) = fold powerAfter cs (powerOf k) \<and>
    z_tasks (fold Z21_runClosure cs k) = z_tasks k \<and> z_posted (fold Z21_runClosure cs k) = z_posted k \<and>
    z_broadcastFlags (fold Z21_runClosure cs k) = z_broadcastFlags k"
    if "list_all isPower cs" for cs k
    using that by (induction cs arbitrary: k) (simp_all add: runClosure_power)
  from this [OF assms, of "k\<lparr>z_posted := []\<rparr>"] show ?thesis
    by (simp add: z21_events_def powerOf_def)
qed

text \<open>A message changes no power state; what it posts changes the power state as \<open>f\<close> says.\<close>

definition reacts :: "bytes \<Rightarrow> (TriState \<times> TriState \<Rightarrow> TriState \<times> TriState) \<Rightarrow> bool" where
  "reacts m f \<longleftrightarrow> (\<forall>nan now k. powerOf (Z21_receive nan now m k) = powerOf k \<and>
    z_broadcastFlags (Z21_receive nan now m k) = z_broadcastFlags k \<and>
    (\<exists>cs. z_posted (Z21_receive nan now m k) = z_posted k @ cs \<and> list_all isPower cs \<and> fold powerAfter cs = f))"

lemma reacts_call:
  assumes "\<And>nan now k. Z21_receive nan now m k = Z21_eventLoopCall c (z21_log m k)" and "isPower c"
  shows "reacts m (powerAfter c)"
  unfolding reacts_def
proof (intro allI conjI exI)
  fix nan now and k :: Z21_Client
  let ?cs = "(if z_debugLogRXTX k then [ZcRX m] else []) @ [c]"
  show "powerOf (Z21_receive nan now m k) = powerOf k" by (simp add: assms(1) powerOf_def)
  show "z_broadcastFlags (Z21_receive nan now m k) = z_broadcastFlags k" by (simp add: assms(1))
  show "z_posted (Z21_receive nan now m k) = z_posted k @ ?cs" by (simp add: assms(1))
  show "list_all isPower ?cs" using assms(2) by simp
  show "fold powerAfter ?cs = powerAfter c" by (auto simp: fun_eq_iff)
qed

lemma reacts_power:
  "reacts LanXBCTrackPowerOn (powerAfter ZcTrackPowerOn)"
  "reacts LanXBCTrackPowerOff (powerAfter ZcTrackPowerOff)"
  "reacts LanXBCStopped (powerAfter ZcStopped)"
  "reacts (zs_systemState s) (\<lambda>p. (toTriState (zs_trackPowerOn s), toTriState (zs_emergencyStop s)))"
proof -
  show "reacts LanXBCTrackPowerOn (powerAfter ZcTrackPowerOn)"
    "reacts LanXBCTrackPowerOff (powerAfter ZcTrackPowerOff)"
    "reacts LanXBCStopped (powerAfter ZcStopped)"
    by (intro reacts_call receive_power; simp)+
  have "powerAfter (ZcSystemState a b) = (\<lambda>p. (a, b))" for a b by (simp add: fun_eq_iff)
  then show "reacts (zs_systemState s) (\<lambda>p. (toTriState (zs_trackPowerOn s), toTriState (zs_emergencyStop s)))"
    using reacts_call [OF receive_systemState] by simp
qed

lemma fold_id_closures: "list_all (\<lambda>c. isPower c \<and> powerAfter c = id) cs \<Longrightarrow> list_all isPower cs \<and> fold powerAfter cs = id"
  by (induction cs) auto

lemma reacts_none:
  assumes "\<And>nan now k. powerOf (Z21_receive nan now m k) = powerOf k \<and>
    z_broadcastFlags (Z21_receive nan now m k) = z_broadcastFlags k \<and>
    (\<exists>cs. z_posted (Z21_receive nan now m k) = z_posted k @ cs \<and> list_all (\<lambda>c. isPower c \<and> powerAfter c = id) cs)"
  shows "reacts m id"
  unfolding reacts_def using assms fold_id_closures by blast

lemma powerAfter_id: "powerAfter (ZcRX m) = id" "powerAfter (ZcSerialNumber n) = id" "powerAfter (ZcHardwareInfo t a b) = id"
  by (simp_all add: fun_eq_iff)

lemma reacts_others:
  "reacts (LanSetBroadcastFlags f) id" "reacts (LanGetSerialNumberReply n) id"
  "reacts (LanGetHardwareInfoReply t major minor) id"
  by (rule reacts_none;
      simp add: receive_flags_ignored powerOf_def powerAfter_id;
      simp add: Z21_receive_def LanGetSerialNumberReply_def LanGetHardwareInfoReply_def Z21_receive_SerialNumber_def
        Z21_receive_HardwareInfo_def Let_def Z21_eventLoopCall_def powerAfter_id)+

text \<open>The answers are received one after the other.\<close>

lemma sim_task_receive:
  assumes "z_tasks k = ZtReceive m # ts"
  shows "z21_sim_task nan now b u (k, s) = (Z21_receive nan now m (k\<lparr>z_tasks := ts\<rparr>), s)"
    and "z_tasks (Z21_receive nan now m (k\<lparr>z_tasks := ts\<rparr>)) = ts"
proof -
  let ?k = "Z21_receive nan now m (k\<lparr>z_tasks := ts\<rparr>)"
  have p: "z_wire ?k = z_wire k" "z_tasks ?k = ts"
    using posts_receive [of "k\<lparr>z_tasks := ts\<rparr>" nan now m] by (simp_all add: posts_def receives_def)
  then show "z21_sim_task nan now b u (k, s) = (?k, s)"
    using assms by (simp add: z21_sim_task_def Let_def)
  show "z_tasks ?k = ts" by (rule p)
qed

lemma sim_tasks_idle: "z_tasks k = [] \<Longrightarrow> z21_sim_tasks n nan now b u (k, s) = (k, s)"
  by (induction n) (simp_all add: z21_sim_task_def)

lemma sim_tasks_receive:
  assumes "list_all2 reacts ms fs" and "z_tasks k = map ZtReceive ms" and "list_all isPower (z_posted k)"
  shows "\<exists>k'. z21_sim_tasks (length ms + n) nan now b u (k, s) = (k', s) \<and> z_tasks k' = [] \<and>
    powerOf k' = powerOf k \<and> z_broadcastFlags k' = z_broadcastFlags k \<and> list_all isPower (z_posted k') \<and>
    fold powerAfter (z_posted k') p = fold (\<lambda>f. f) fs (fold powerAfter (z_posted k) p)"
  using assms
proof (induction ms fs arbitrary: k rule: list_all2_induct)
  case Nil
  then show ?case using sim_tasks_idle by simp
next
  case (Cons m ms f fs)
  have t: "z_tasks k = ZtReceive m # map ZtReceive ms" using Cons.prems by simp
  let ?k = "Z21_receive nan now m (k\<lparr>z_tasks := map ZtReceive ms\<rparr>)"
  obtain cs where cs: "z_posted ?k = z_posted k @ cs" "list_all isPower cs" "fold powerAfter cs = f"
    "powerOf ?k = powerOf k" "z_broadcastFlags ?k = z_broadcastFlags k"
    using Cons.hyps(1) [unfolded reacts_def, rule_format, of nan now "k\<lparr>z_tasks := map ZtReceive ms\<rparr>"]
    by (auto simp: powerOf_def)
  have "list_all isPower (z_posted ?k)" using cs(1,2) Cons.prems by simp
  from Cons.IH [OF sim_task_receive(2) [OF t] this]
  show ?case using cs sim_task_receive(1) [OF t] by auto
qed

text \<open>Answers that wait, and then the event loop.\<close>

lemma settle_answers:
  assumes "z_tasks k = map ZtReceive ms" and "list_all isPower (z_posted k)" and "list_all2 reacts ms fs"
    and "length ms \<le> n"
  shows "atRest (z21_settle n nan now b u (k, s))"
    and "snd (z21_settle n nan now b u (k, s)) = s"
    and "powerOf (fst (z21_settle n nan now b u (k, s))) =
      fold (\<lambda>f. f) fs (fold powerAfter (z_posted k) (powerOf k))"
    and "z_broadcastFlags (fst (z21_settle n nan now b u (k, s))) = z_broadcastFlags k"
proof -
  obtain n' where n: "n = length ms + n'" using assms(4) le_Suc_ex by blast
  obtain k' where k': "z21_sim_tasks (length ms + n') nan now b u (k, s) = (k', s)" "z_tasks k' = []"
    "powerOf k' = powerOf k" "list_all isPower (z_posted k')" "z_broadcastFlags k' = z_broadcastFlags k"
    "fold powerAfter (z_posted k') (powerOf k) = fold (\<lambda>f. f) fs (fold powerAfter (z_posted k) (powerOf k))"
    using sim_tasks_receive [OF assms(3,1,2), of n' nan now b u s "powerOf k"] by auto
  have s: "z21_settle n nan now b u (k, s) = (z21_events k', s)"
    using k'(1) by (simp add: z21_settle_def n Let_def)
  note e = events_power [OF k'(4)]
  show "atRest (z21_settle n nan now b u (k, s))" using e k'(2) by (simp add: s atRest_def)
  show "snd (z21_settle n nan now b u (k, s)) = s" by (simp add: s)
  show "powerOf (fst (z21_settle n nan now b u (k, s))) =
      fold (\<lambda>f. f) fs (fold powerAfter (z_posted k) (powerOf k))"
    using e k'(3,6) by (simp add: s)
  show "z_broadcastFlags (fst (z21_settle n nan now b u (k, s))) = z_broadcastFlags k"
    using e k'(5) by (simp add: s)
qed

lemma settle_Suc: "z21_settle (Suc n) nan now b u c = z21_settle n nan now b u (z21_sim_task nan now b u c)"
  by (simp add: z21_settle_def)

text \<open>A request, its answers, and then the event loop.\<close>

lemma settle_request:
  assumes "z_tasks k = [ZtSend m]" and "z_posted k = []"
    and "zs_send m u s = (s', ms)" and "list_all2 reacts ms fs" and "length ms < n"
  shows "atRest (z21_settle n nan now b u (k, s))"
    and "snd (z21_settle n nan now b u (k, s)) = s'"
    and "powerOf (fst (z21_settle n nan now b u (k, s))) = fold (\<lambda>f. f) fs (powerOf k)"
proof -
  obtain n' where n: "n = Suc n'" "length ms \<le> n'" using assms(5) by (cases n) auto
  let ?k = "(Z21_send m (k\<lparr>z_tasks := []\<rparr>))\<lparr>z_tasks := map ZtReceive ms\<rparr>"
  have 1: "z21_settle n nan now b u (k, s) = z21_settle n' nan now b u (?k, s')"
    using assms(1,3) by (simp add: n settle_Suc z21_sim_task_def Let_def)
  have 2: "list_all isPower (z_posted ?k)" "fold powerAfter (z_posted ?k) (powerOf ?k) = powerOf k"
    using assms(2) by (simp_all add: powerOf_def Z21_send_def Let_def)
  have "z_tasks ?k = map ZtReceive ms" by simp
  note r = settle_answers [OF this 2(1) assms(4) n(2), of nan now b u s']
  show "atRest (z21_settle n nan now b u (k, s))" "snd (z21_settle n nan now b u (k, s)) = s'"
    "powerOf (fst (z21_settle n nan now b u (k, s))) = fold (\<lambda>f. f) fs (powerOf k)"
    using r 2(2) by (simp_all add: 1)
qed

section \<open>Power\<close>

lemma changed_reacts:
  "list_all2 reacts (zs_changed c s)
    (if zs_changed c s = [] then [] else [\<lambda>p. (toTriState (zs_trackPowerOn s), toTriState (zs_emergencyStop s))])"
  using reacts_power(4) [of s] by (simp add: zs_changed_def)

lemma length_zs_changed: "length (zs_changed c s) \<le> 1"
  by (simp add: zs_changed_def)

lemma zs_changed_empty: "listening (k, s) \<Longrightarrow> zs_broadcastFlags s' = zs_broadcastFlags s \<Longrightarrow> zs_changed c s' = [] \<longleftrightarrow> \<not> c"
  by (simp add: zs_changed_def listening_def)

lemma synced_power: "synced c \<longleftrightarrow> powerOf (fst c) = (toTriState (zs_trackPowerOn (snd c)), toTriState (zs_emergencyStop (snd c)))"
  by (simp add: synced_def powerOf_def)

text \<open>Switching on.\<close>

lemma settle_on:
  assumes "z_tasks k = [ZtSend LanXSetTrackPowerOn]" "z_posted k = []" "listening (k, s)" "2 < n"
  shows "let c = z21_settle n nan now b u (k, s) in
    atRest c \<and> synced c \<and> snd c = s\<lparr>zs_trackPowerOn := True, zs_emergencyStop := False\<rparr>"
proof -
  let ?s = "s\<lparr>zs_trackPowerOn := True, zs_emergencyStop := False\<rparr>"
  note st = station_power(1) [of u s]
  let ?c = "zs_changed (\<not> zs_trackPowerOn s \<or> zs_emergencyStop s) ?s"
  have r: "list_all2 reacts (LanXBCTrackPowerOn # ?c) (powerAfter ZcTrackPowerOn #
      (if ?c = [] then [] else [\<lambda>p. (toTriState (zs_trackPowerOn ?s), toTriState (zs_emergencyStop ?s))]))"
    using reacts_power(1) changed_reacts by (simp only: list_all2_Cons)
  have l: "length (LanXBCTrackPowerOn # ?c) < n" using length_zs_changed [of _ ?s] assms(4) by (simp add: zs_changed_def)
  note g = settle_request [OF assms(1,2) st r l, of nan now b]
  then show ?thesis by (simp add: Let_def synced_power)
qed

lemma settle_off:
  assumes "z_tasks k = [ZtSend LanXSetTrackPowerOff]" "z_posted k = []" "listening (k, s)" "2 < n" "synced (k, s)"
  shows "let c = z21_settle n nan now b u (k, s) in
    atRest c \<and> synced c \<and> snd c = s\<lparr>zs_trackPowerOn := False\<rparr>"
proof -
  let ?s = "s\<lparr>zs_trackPowerOn := False\<rparr>"
  note st = station_power(2) [of u s]
  let ?c = "zs_changed (zs_trackPowerOn s) ?s"
  have r: "list_all2 reacts (LanXBCTrackPowerOff # ?c) (powerAfter ZcTrackPowerOff #
      (if ?c = [] then [] else [\<lambda>p. (toTriState (zs_trackPowerOn ?s), toTriState (zs_emergencyStop ?s))]))"
    using reacts_power(2) changed_reacts by (simp only: list_all2_Cons)
  have l: "length (LanXBCTrackPowerOff # ?c) < n" using assms(4) by (simp add: zs_changed_def)
  have e: "?c = [] \<longleftrightarrow> \<not> zs_trackPowerOn s" using assms(3) by (simp add: zs_changed_empty)
  note g = settle_request [OF assms(1,2) st r l, of nan now b]
  then show ?thesis using assms(5) e by (auto simp: Let_def synced_power)
qed

lemma settle_stop:
  assumes "z_tasks k = [ZtSend LanXSetStop]" "z_posted k = []" "listening (k, s)" "2 < n" "synced (k, s)"
  shows "let c = z21_settle n nan now b u (k, s) in
    atRest c \<and> synced c \<and> snd c = s\<lparr>zs_emergencyStop := True\<rparr>"
proof -
  let ?s = "s\<lparr>zs_emergencyStop := True\<rparr>"
  note st = station_power(3) [of u s]
  let ?c = "zs_changed (\<not> zs_emergencyStop s) ?s"
  have r: "list_all2 reacts (LanXBCStopped # ?c) (powerAfter ZcStopped #
      (if ?c = [] then [] else [\<lambda>p. (toTriState (zs_trackPowerOn ?s), toTriState (zs_emergencyStop ?s))]))"
    using reacts_power(3) changed_reacts by (simp only: list_all2_Cons)
  have l: "length (LanXBCStopped # ?c) < n" using assms(4) by (simp add: zs_changed_def)
  have e: "?c = [] \<longleftrightarrow> zs_emergencyStop s" using assms(3) by (simp add: zs_changed_empty)
  note g = settle_request [OF assms(1,2) st r l, of nan now b]
  then show ?thesis using assms(5) e by (auto simp: Let_def synced_power)
qed

section \<open>Start\<close>

lemma station_start:
  "zs_send LanGetSerialNumber u s = (s, [LanGetSerialNumberReply 123456789])"
  "zs_send LanGetHardwareInfo u s = (s, [LanGetHardwareInfoReply 0x00000201 1 30])"
  "zs_send (LanSetBroadcastFlags f) u s = (s\<lparr>zs_broadcastFlags := f\<rparr>, [])"
  "zs_send LanGetBroadcastFlags u s = (s, [LanSetBroadcastFlags (zs_broadcastFlags s)])"
  "zs_send LanSystemStateGetData u s = (s, [zs_systemState s])"
proof -
  show "zs_send LanGetSerialNumber u s = (s, [LanGetSerialNumberReply 123456789])"
    by (simp add: zs_send_def LanGetSerialNumber_def)
  show "zs_send LanGetHardwareInfo u s = (s, [LanGetHardwareInfoReply 0x00000201 1 30])"
    by (simp add: zs_send_def LanGetHardwareInfo_def)
  show "zs_send (LanSetBroadcastFlags f) u s = (s\<lparr>zs_broadcastFlags := f\<rparr>, [])"
    using LE32_roundtrip [of 8 LAN_SET_BROADCASTFLAGS f "[]"]
    by (simp add: zs_send_def LanSetBroadcastFlags_def Z21_broadcastFlags_def)
  show "zs_send LanGetBroadcastFlags u s = (s, [LanSetBroadcastFlags (zs_broadcastFlags s)])"
    using known_messages(29) by (simp add: zs_send_def) (simp add: LanGetBroadcastFlags_def)
  show "zs_send LanSystemStateGetData u s = (s, [zs_systemState s])"
    using known_messages(30) by (simp add: zs_send_def) (simp add: LanSystemStateGetData_def)
qed

lemma send_fields:
  "z_tasks (Z21_send m k) = z_tasks k" "z_broadcastFlags (Z21_send m k) = z_broadcastFlags k"
  "z_broadcastFlagsRetryCount (Z21_send m k) = z_broadcastFlagsRetryCount k"
  "map fst (z_wire (Z21_send m k)) = map fst (z_wire k) @ [m]"
  "list_all isPower (z_posted (Z21_send m k)) = list_all isPower (z_posted k)"
  by (simp_all add: Z21_send_def Let_def Z21_eventLoopCall_def)

lemma startKeepAlive_fields:
  "z_tasks (Z21_startKeepAliveTimer k) = z_tasks k" "z_wire (Z21_startKeepAliveTimer k) = z_wire k"
  "z_posted (Z21_startKeepAliveTimer k) = z_posted k" "z_broadcastFlags (Z21_startKeepAliveTimer k) = z_broadcastFlags k"
  by (simp_all add: Z21_startKeepAliveTimer_def Z21_call_def Let_def)

lemma onStart_fields:
  "z_tasks (Z21_onStart k) = z_tasks k" "z_broadcastFlags (Z21_onStart k) = 0"
  "list_all isPower (z_posted (Z21_onStart k)) = list_all isPower (z_posted k)"
  "map fst (z_wire (Z21_onStart k)) = map fst (z_wire k) @
    [LanGetSerialNumber, LanGetHardwareInfo, LanSetBroadcastFlags Z21_requiredBroadcastFlags, LanGetBroadcastFlags,
     LanSystemStateGetData]"
proof -
  obtain k' where s: "Z21_onStart k = Z21_startInactiveDecoderPurgeTimer (Z21_startKeepAliveTimer
      (Z21_send LanSystemStateGetData (Z21_send LanGetBroadcastFlags
        (Z21_send (LanSetBroadcastFlags Z21_requiredBroadcastFlags)
          (Z21_send LanGetHardwareInfo (Z21_send LanGetSerialNumber k'))))))"
    and k': "z_tasks k' = z_tasks k" "z_broadcastFlags k' = 0" "z_posted k' = z_posted k" "z_wire k' = z_wire k"
    by (rule that [OF Z21_onStart_def [unfolded Let_def]]) simp_all
  have p: "z_tasks (Z21_startInactiveDecoderPurgeTimer k) = z_tasks k" "z_wire (Z21_startInactiveDecoderPurgeTimer k) = z_wire k"
    "z_posted (Z21_startInactiveDecoderPurgeTimer k) = z_posted k"
    "z_broadcastFlags (Z21_startInactiveDecoderPurgeTimer k) = z_broadcastFlags k" for k :: Z21_Client
    by (simp_all add: Z21_startInactiveDecoderPurgeTimer_def)
  show "z_tasks (Z21_onStart k) = z_tasks k" "z_broadcastFlags (Z21_onStart k) = 0"
    "list_all isPower (z_posted (Z21_onStart k)) = list_all isPower (z_posted k)"
    "map fst (z_wire (Z21_onStart k)) = map fst (z_wire k) @
      [LanGetSerialNumber, LanGetHardwareInfo, LanSetBroadcastFlags Z21_requiredBroadcastFlags, LanGetBroadcastFlags,
       LanSystemStateGetData]"
    by (simp_all only: s p k' startKeepAlive_fields send_fields append_assoc append_Cons append_Nil)
qed

text \<open>After the start the two agree, but the client has not learnt its flags.\<close>

lemma settle_start:
  assumes "z_tasks k = [ZtStart True]" "z_posted k = []" "4 < n"
  shows "let c = z21_settle n nan now b u (k, s) in
    atRest c \<and> synced c \<and> listening c \<and> snd c = s\<lparr>zs_broadcastFlags := Z21_requiredBroadcastFlags\<rparr> \<and>
    z_broadcastFlags (fst c) = 0"
proof -
  let ?s = "s\<lparr>zs_broadcastFlags := Z21_requiredBroadcastFlags\<rparr>"
  let ?ms = "[LanGetSerialNumberReply 123456789, LanGetHardwareInfoReply 0x00000201 1 30,
    LanSetBroadcastFlags Z21_requiredBroadcastFlags, zs_systemState ?s]"
  let ?fs = "[id, id, id, \<lambda>p. (toTriState (zs_trackPowerOn ?s), toTriState (zs_emergencyStop ?s))]"
  let ?k = "(Z21_runTask nan now b (ZtStart True) (k\<lparr>z_tasks := []\<rparr>))\<lparr>z_tasks := map ZtReceive ?ms\<rparr>"
  obtain n' where n: "n = Suc n'" "length ?ms \<le> n'" using assms(3) by (cases n) auto
  have "map fst (drop (length (z_wire k)) (z_wire (Z21_runTask nan now b (ZtStart True) (k\<lparr>z_tasks := []\<rparr>)))) =
      drop (length (map fst (z_wire k))) (map fst (z_wire (Z21_onStart (k\<lparr>z_tasks := []\<rparr>))))"
    by (simp add: Z21_start_posted_def drop_map)
  then have w: "map fst (drop (length (z_wire k)) (z_wire (Z21_runTask nan now b (ZtStart True) (k\<lparr>z_tasks := []\<rparr>)))) =
      [LanGetSerialNumber, LanGetHardwareInfo, LanSetBroadcastFlags Z21_requiredBroadcastFlags, LanGetBroadcastFlags,
       LanSystemStateGetData]"
    by (simp add: onStart_fields)
  have t: "z_tasks (Z21_runTask nan now b (ZtStart True) (k\<lparr>z_tasks := []\<rparr>)) = []"
    and p: "list_all isPower (z_posted ?k)" and f: "z_broadcastFlags ?k = 0"
    using assms(2) by (simp_all add: Z21_start_posted_def onStart_fields)
  have 1: "z21_settle n nan now b u (k, s) = z21_settle n' nan now b u (?k, ?s)"
    using assms(1) w t by (simp add: n settle_Suc z21_sim_task_def Let_def station_start)
  have r: "list_all2 reacts ?ms ?fs"
    using reacts_others reacts_power(4) by (simp only: list_all2_Cons list_all2_Nil simp_thms)
  have "z_tasks ?k = map ZtReceive ?ms" by simp
  note g = settle_answers [OF this p r n(2), of nan now b u ?s]
  have "listening (fst (z21_settle n' nan now b u (?k, ?s)), ?s)"
    by (simp add: listening_def Z21_requiredBroadcastFlags_def z21_defs)
  then show ?thesis using g f by (simp add: 1 Let_def synced_power listening_def)
qed

lemma keepAlive_unconfirmed:
  assumes "z_broadcastFlags k = 0"
  shows "map fst (z_wire (Z21_keepAliveTimerExpired k)) = map fst (z_wire k) @
      [LanSetBroadcastFlags Z21_requiredBroadcastFlags, LanGetBroadcastFlags]"
    and "z_broadcastFlags (Z21_keepAliveTimerExpired k) = 0"
    and "z_broadcastFlagsRetryCount k < 9 \<Longrightarrow>
      z_calls (Z21_keepAliveTimerExpired k) = z_calls k \<and> z_keepAliveTimer (Z21_keepAliveTimerExpired k) = Some 2"
    and "z_broadcastFlagsRetryCount k = 9 \<Longrightarrow>
      z_calls (Z21_keepAliveTimerExpired k) = z_calls k @ [ZvBroadcastFlagMismatch] \<and>
      z_keepAliveTimer (Z21_keepAliveTimerExpired k) = Some 15"
  using assms
  by (simp_all add: Z21_keepAliveTimerExpired_def Z21_startKeepAliveTimer_def Let_def Z21_send_def z21_defs)

end
