(* ===== verification/Z21_Udp.thy ===== *)
theory Z21_Udp
  imports Z21_Messages LocoNet_Stream
begin

text \<open>
  The handlers that carry messages in UDP datagrams: \<^verbatim>\<open>z21/iohandler/udpiohandler.cpp\<close>,
  \<^verbatim>\<open>udpclientiohandler.cpp\<close>, \<^verbatim>\<open>udpserveriohandler.cpp\<close>, and the LocoNet handler that tunnels
  LocoNet messages through a Z21, \<^verbatim>\<open>loconet/iohandler/z21iohandler.cpp\<close>.  A datagram holds whole
  messages one after the other; a message given to a kernel is a pointer into the buffer, so it is
  followed by what the buffer holds behind it.
\<close>

abbreviation (input) "payloadSizeMax \<equiv> (1500 - 20 - 8 :: nat)"

section \<open>Reading a datagram\<close>

text \<open>
  \<open>s\<close> is what the buffer holds behind the datagram.  A message that announces more bytes than there
  are makes the count wrap around, and the loop runs on behind the datagram: the second result.
\<close>

function udp_loop :: "bytes \<Rightarrow> bytes \<Rightarrow> bytes list \<times> bool" where
  "udp_loop s p =
    (if length p < 4 then ([], False)
     else
       (let n = unat (Z21_dataLen p) in
        if n < 4 then ([], False)
        else if n > length p then ([p @ s], True)
        else (let r = udp_loop s (drop n p) in ((p @ s) # fst r, snd r))))"
  by pat_completeness auto

termination by (relation "measure (length \<circ> snd)") auto

declare udp_loop.simps [simp del]

text \<open>The message at a pointer.\<close>

definition Z21_whole :: "bytes \<Rightarrow> bytes" where
  "Z21_whole m = take (unat (Z21_dataLen m)) m"

lemma Z21_dataLen_append: "4 \<le> length m \<Longrightarrow> Z21_dataLen (m @ r) = Z21_dataLen m"
proof -
  assume "4 \<le> length m"
  then have "0 < length m" "1 < length m" by linarith+
  then show ?thesis by (simp only: Z21_dataLen_def Z21_le16_def nth_append if_True add_0)
qed

lemma Z21_whole_append: "Z21_framed m \<Longrightarrow> Z21_whole (m @ r) = m"
  by (simp add: Z21_whole_def Z21_framed_def Z21_dataLen_append)

lemma udp_loop_message:
  assumes "Z21_framed m"
  shows "udp_loop s (m @ p) = (((m @ p) @ s) # fst (udp_loop s p), snd (udp_loop s p))"
  using assms unfolding udp_loop.simps [of s "m @ p"]
  by (simp add: Z21_framed_def Z21_dataLen_append Let_def)

lemma udp_loop_messages:
  "list_all Z21_framed ms \<Longrightarrow>
    map Z21_whole (fst (udp_loop s (concat ms))) = ms \<and> \<not> snd (udp_loop s (concat ms))"
proof (induction ms)
  case Nil
  then show ?case by (simp add: udp_loop.simps)
next
  case (Cons m ms)
  then show ?case by (simp add: udp_loop_message Z21_whole_append)
qed

text \<open>As an interface: what a datagram gives, nothing is kept for the next one.\<close>

definition udp_read :: "bytes \<Rightarrow> bytes \<Rightarrow> bytes list \<times> bytes" where
  "udp_read s p = (map Z21_whole (fst (udp_loop s p)), [])"

interpretation udp: message_framing udp_read "\<lambda>m. m" Z21_framed "\<lambda>_. True"
  by unfold_locales (simp_all add: udp_read_def udp_loop_message Z21_whole_append, simp add: udp_loop.simps)

section \<open>The client's send buffer\<close>

definition udp_send :: "bytes \<Rightarrow> Writer \<Rightarrow> bool \<times> Writer" where
  "udp_send message w =
    (let n = unat (Z21_dataLen message) in
     if length (w_buffer w) + n > payloadSizeMax then (False, w)
     else
       (let wasEmpty = (length (w_buffer w) = 0);
            w = w\<lparr>w_buffer := w_buffer w @ take n message\<rparr>
        in (True, if wasEmpty then writer_write w else w)))"

interpretation udp_writer:
  byte_writer udp_send writer_written w_buffer w_issued "\<lambda>m. m" Z21_framed payloadSizeMax
  by unfold_locales
    (auto simp: udp_send_def writer_written_def writer_write_def Z21_framed_def Let_def split: if_splits)

section \<open>The server's clients\<close>

text \<open>An endpoint is any value that can be compared.  The next free number after \<open>n\<close>:\<close>

function udp_nextId :: "nat list \<Rightarrow> nat \<Rightarrow> nat" where
  "udp_nextId ids n = (if Suc n \<in> set ids then udp_nextId ids (Suc n) else Suc n)"
  by pat_completeness auto

termination
proof (relation "measure (\<lambda>(ids, n). card {i \<in> set ids. n < i})")
  fix ids :: "nat list" and n
  assume "Suc n \<in> set ids"
  then have "{i \<in> set ids. Suc n < i} \<subset> {i \<in> set ids. n < i}" by auto
  then show "((ids, Suc n), ids, n) \<in> measure (\<lambda>(ids, n). card {i \<in> set ids. n < i})"
    by (simp add: psubset_card_mono)
qed simp

declare udp_nextId.simps [simp del]

record 'e UdpServer =
  us_lastClientId :: nat
  us_clients :: "(nat \<times> 'e) list"

definition udp_server_init :: "'e UdpServer" where
  "udp_server_init = \<lparr>us_lastClientId = 0, us_clients = []\<rparr>"

definition udp_server_client :: "'e \<Rightarrow> 'e UdpServer \<Rightarrow> nat \<times> 'e UdpServer" where
  "udp_server_client remoteEndpoint h =
    (case find (\<lambda>n. snd n = remoteEndpoint) (us_clients h) of
       Some n \<Rightarrow> (fst n, h)
     | None \<Rightarrow>
         let i = udp_nextId (map fst (us_clients h)) (us_lastClientId h)
         in (i, h\<lparr>us_lastClientId := i, us_clients := (i, remoteEndpoint) # us_clients h\<rparr>))"

definition udp_server_sendTo :: "bytes \<Rightarrow> nat \<Rightarrow> 'e UdpServer \<Rightarrow> (bytes \<times> 'e) option" where
  "udp_server_sendTo message i h =
    map_option (\<lambda>e. (Z21_whole message, e)) (map_of (us_clients h) i)"

definition udp_server_purgeClient :: "nat \<Rightarrow> 'e UdpServer \<Rightarrow> 'e UdpServer" where
  "udp_server_purgeClient i h = h\<lparr>us_clients := filter (\<lambda>n. fst n \<noteq> i) (us_clients h)\<rparr>"

lemma udp_nextId_fresh: "udp_nextId ids n \<notin> set ids"
  by (induction ids n rule: udp_nextId.induct) (metis udp_nextId.simps)

text \<open>Numbers and endpoints correspond one to one.\<close>

definition udp_server_inv :: "'e UdpServer \<Rightarrow> bool" where
  "udp_server_inv h \<longleftrightarrow> distinct (map fst (us_clients h)) \<and> distinct (map snd (us_clients h))"

lemma udp_server_inv_init: "udp_server_inv udp_server_init"
  by (simp add: udp_server_inv_def udp_server_init_def)

lemma udp_server_client_inv:
  "udp_server_inv h \<Longrightarrow> udp_server_inv (snd (udp_server_client e h))"
  using udp_nextId_fresh [of "map fst (us_clients h)" "us_lastClientId h"]
  by (auto simp: udp_server_client_def udp_server_inv_def Let_def find_None_iff split: option.split)

lemma udp_server_purge_inv: "udp_server_inv h \<Longrightarrow> udp_server_inv (udp_server_purgeClient i h)"
  by (simp add: udp_server_inv_def udp_server_purgeClient_def distinct_map_filter)

text \<open>The answer goes to where the message came from.\<close>

lemma udp_server_client_answer:
  assumes "udp_server_inv h"
  shows "udp_server_sendTo m (fst (udp_server_client e h)) (snd (udp_server_client e h)) = Some (Z21_whole m, e)"
proof (cases "find (\<lambda>n. snd n = e) (us_clients h)")
  case None
  then show ?thesis by (simp add: udp_server_client_def udp_server_sendTo_def Let_def)
next
  case (Some n)
  then have "n \<in> set (us_clients h)" "snd n = e" by (auto simp: find_Some_iff)
  moreover have "distinct (map fst (us_clients h))" using assms by (simp add: udp_server_inv_def)
  ultimately have "map_of (us_clients h) (fst n) = Some e" by (metis map_of_is_SomeI prod.collapse)
  then show ?thesis using Some by (simp add: udp_server_client_def udp_server_sendTo_def)
qed

section \<open>LocoNet through a Z21\<close>

text \<open>
  Nothing checks the length a message announces.  With zero the loop never ends (no result), with
  more than there is the count wraps around (the flag).
\<close>

partial_function (option) lnz21_loop :: "bytes \<Rightarrow> bytes \<Rightarrow> (bytes list \<times> bool) option" where
  "lnz21_loop s p =
    (if length p < 1 then Some ([], False)
     else
       (let m = p @ s; n = unat (Z21_dataLen m); h = Z21_header m;
            l = drop 4 m;
            out = (if (h = LAN_LOCONET_Z21_RX \<or> h = LAN_LOCONET_Z21_TX \<or> h = LAN_LOCONET_FROM_LAN) \<and> isValid l
                   then [l] else [])
        in if n > length p then Some (out, True)
           else Option.bind (lnz21_loop s (drop n p)) (\<lambda>r. Some (out @ fst r, snd r))))"

text \<open>A LocoNet message in its Z21 message.\<close>

definition lnz21_wrap :: "u16 \<Rightarrow> bytes \<Rightarrow> bytes" where
  "lnz21_wrap header m = Z21_Message (of_nat (4 + msg_size m)) header @ take (msg_size m) m"

definition lnz21_send :: "bytes \<Rightarrow> Writer \<Rightarrow> bool \<times> Writer" where
  "lnz21_send message w =
    (let dataLen = 4 + msg_size message in
     if length (w_buffer w) + dataLen > payloadSizeMax then (False, w)
     else
       (let wasEmpty = (length (w_buffer w) = 0);
            w = w\<lparr>w_buffer := w_buffer w @ lnz21_wrap LAN_LOCONET_FROM_LAN message\<rparr>
        in (True, if wasEmpty then writer_write w else w)))"

definition lnz21_sendZ21 :: "bytes \<Rightarrow> Writer \<Rightarrow> bool \<times> Writer" where
  "lnz21_sendZ21 message w = udp_send message w"

text \<open>What \<^verbatim>\<open>start\<close> and \<^verbatim>\<open>stop\<close> send.\<close>

definition lnz21_start :: "Writer \<Rightarrow> Writer" where
  "lnz21_start w = snd (lnz21_sendZ21 (LanSetBroadcastFlags BF_LocoNet) w)"

definition lnz21_stop :: "Writer \<Rightarrow> Writer" where
  "lnz21_stop w = snd (lnz21_sendZ21 LanLogoff w)"

text \<open>The loop over the bytes sent, which gives the kernel its echoes.\<close>

partial_function (option) lnz21_echo :: "nat \<Rightarrow> bytes \<Rightarrow> bytes list option" where
  "lnz21_echo n p =
    (if n = 0 then Some []
     else
       (let out = (if Z21_header p = LAN_LOCONET_FROM_LAN then [drop 4 p] else []);
            d = unat (Z21_dataLen p)
        in Option.bind (lnz21_echo (n - d) (drop d p)) (\<lambda>r. Some (out @ r))))"

lemma length_wrap: "msg_size m \<le> length m \<Longrightarrow> length (lnz21_wrap h m) = 4 + msg_size m"
  by (simp add: lnz21_wrap_def Z21_Message_def Z21_toLE16_def)

interpretation lnz21_writer:
  byte_writer lnz21_send writer_written w_buffer w_issued "lnz21_wrap LAN_LOCONET_FROM_LAN" framed payloadSizeMax
  by unfold_locales
    (auto simp: lnz21_send_def writer_written_def writer_write_def framed_def length_wrap Let_def
      lnz21_wrap_def Z21_Message_def Z21_toLE16_def split: if_splits)

lemma wrap_fields:
  assumes "msg_size m \<le> length m"
  shows "Z21_dataLen (lnz21_wrap h m @ r) = of_nat (4 + msg_size m)"
    and "Z21_header (lnz21_wrap h m @ r) = h"
    and "unat (Z21_dataLen (lnz21_wrap h m @ r)) = 4 + msg_size m"
    and "drop 4 (lnz21_wrap h m @ r) = take (msg_size m) m @ r"
proof -
  show d: "Z21_dataLen (lnz21_wrap h m @ r) = of_nat (4 + msg_size m)"
    and "Z21_header (lnz21_wrap h m @ r) = h"
    and "drop 4 (lnz21_wrap h m @ r) = take (msg_size m) m @ r"
    by (simp_all add: lnz21_wrap_def Z21_Message_def Z21_toLE16_def Z21_dataLen_def Z21_header_def Z21_le16_def
        numeral_2_eq_2 numeral_3_eq_3)
  have "4 + msg_size m < 2 ^ 16" using msg_size_le_255 [of m] by simp
  then show "unat (Z21_dataLen (lnz21_wrap h m @ r)) = 4 + msg_size m"
    unfolding d unat_of_nat by simp
qed

text \<open>Wrapped messages in one datagram are read back, and echoed when they were sent.\<close>

lemma lnz21_loop_step:
  assumes "framed m" and "isValid m"
    and "h = LAN_LOCONET_Z21_RX \<or> h = LAN_LOCONET_Z21_TX \<or> h = LAN_LOCONET_FROM_LAN"
    and "lnz21_loop s p = Some (ls, b)"
  shows "lnz21_loop s (lnz21_wrap h m @ p) = Some ((m @ p @ s) # ls, b)"
proof -
  have f: "msg_size m \<le> length m" "take (msg_size m) m = m" using assms(1) by (simp_all add: framed_def)
  let ?m = "(lnz21_wrap h m @ p) @ s"
  note w = wrap_fields [OF f(1), of h "p @ s", folded append_assoc]
  have "drop 4 ?m = m @ p @ s" using w(4) f(2) by simp
  moreover have "isValid (m @ p @ s)" using isValid_append [OF assms(1)] assms(2) by simp
  moreover have "length (lnz21_wrap h m) = 4 + msg_size m" by (rule length_wrap [OF f(1)])
  ultimately show ?thesis
    unfolding lnz21_loop.simps [of s "lnz21_wrap h m @ p"] Let_def w(2,3) using assms(3,4) by auto
qed

lemma lnz21_loop_wrapped:
  assumes "list_all (\<lambda>m. framed m \<and> isValid m) ms"
    and "h = LAN_LOCONET_Z21_RX \<or> h = LAN_LOCONET_Z21_TX \<or> h = LAN_LOCONET_FROM_LAN"
  shows "\<exists>ls. lnz21_loop s (concat (map (lnz21_wrap h) ms)) = Some (ls, False) \<and>
    map (\<lambda>l. take (msg_size l) l) ls = ms"
  using assms(1)
proof (induction ms)
  case Nil
  then show ?case by (subst lnz21_loop.simps) simp
next
  case (Cons m ms)
  then obtain ls where "lnz21_loop s (concat (map (lnz21_wrap h) ms)) = Some (ls, False)"
    "map (\<lambda>l. take (msg_size l) l) ls = ms" by auto
  then have "lnz21_loop s (concat (map (lnz21_wrap h) (m # ms))) =
      Some ((m @ concat (map (lnz21_wrap h) ms) @ s) # ls, False)"
    using lnz21_loop_step [OF _ _ assms(2)] Cons.prems by simp
  moreover have "msg_size (m @ r) = length m" for r
    using Cons.prems msg_size_append [of m r] by (simp add: framed_def)
  ultimately show ?case using \<open>map _ ls = ms\<close> by fastforce
qed

lemma lnz21_echo_wrapped:
  assumes "list_all framed ms"
  shows "\<exists>ls. lnz21_echo (length (concat (map (lnz21_wrap LAN_LOCONET_FROM_LAN) ms)))
      (concat (map (lnz21_wrap LAN_LOCONET_FROM_LAN) ms) @ r) = Some ls \<and>
    map (\<lambda>l. take (msg_size l) l) ls = ms"
  using assms
proof (induction ms)
  case Nil
  then show ?case by (subst lnz21_echo.simps) simp
next
  case (Cons m ms)
  let ?w = "lnz21_wrap LAN_LOCONET_FROM_LAN"
  have f: "msg_size m \<le> length m" "take (msg_size m) m = m" "2 \<le> length m"
    using Cons.prems by (simp_all add: framed_def)
  let ?r = "concat (map ?w ms) @ r"
  obtain ls where ls: "lnz21_echo (length (concat (map ?w ms))) ?r = Some ls"
    "map (\<lambda>l. take (msg_size l) l) ls = ms" using Cons by auto
  note w = wrap_fields [OF f(1), of LAN_LOCONET_FROM_LAN ?r]
  have "lnz21_echo (4 + msg_size m + length (concat (map ?w ms))) (?w m @ ?r) = Some ((m @ ?r) # ls)"
    unfolding lnz21_echo.simps [of "4 + msg_size m + length (concat (map ?w ms))"] Let_def w(2,3,4)
    using ls(1) f length_wrap [OF f(1)] by simp
  moreover have "take (msg_size (m @ ?r)) (m @ ?r) = m"
    using f Cons.prems msg_size_append [OF f(3), of ?r] by (simp add: framed_def)
  ultimately show ?case using ls(2) length_wrap [OF f(1)] by auto
qed

text \<open>A message that announces no bytes at all is read for ever.\<close>

lemma lnz21_loop_stuck:
  assumes "0 < length p" and "Z21_dataLen (p @ s) = 0"
  shows "lnz21_loop s p = None"
proof -
  have "s' = s \<longrightarrow> q \<noteq> p" if "lnz21_loop s' q = Some y" for s' q y
    by (rule lnz21_loop.raw_induct [OF _ that]) (use assms in \<open>fastforce simp: Let_def split: if_splits bind_splits\<close>)
  then show ?thesis by (cases "lnz21_loop s p") auto
qed

end
