(* ===== verification/Z21_LocoInfo.thy ===== *)
theory Z21_LocoInfo
  imports Z21_Reachable
begin

text \<open>
  What a report about a locomotive does to its decoder: the emergency stop, the direction and the
  throttle as far as they are said to have changed, and the functions.
\<close>

section \<open>Throttle\<close>

lemma roundHalfEven_le: "x \<le> of_int n \<Longrightarrow> roundHalfEven x \<le> n"
proof -
  assume "x \<le> of_int n"
  moreover have "of_int (roundHalfEven x) - x \<le> 1 / 2" using roundHalfEven_near [of x] by (rule abs_le_D1)
  ultimately have "(of_int (roundHalfEven x) :: rat) \<le> of_int n + 1 / 2" by linarith
  then show ?thesis by linarith
qed

lemma fl32_le_1: "q \<le> 1 \<Longrightarrow> fl32 q \<le> 1"
proof -
  assume "q \<le> 1"
  then have "q * 2 ^ scale32 q \<le> of_int (2 ^ scale32 q)" by simp
  then have "roundHalfEven (q * 2 ^ scale32 q) \<le> 2 ^ scale32 q" by (rule roundHalfEven_le)
  then have "(of_int (roundHalfEven (q * 2 ^ scale32 q)) :: rat) \<le> of_int (2 ^ scale32 q)" by (simp only: of_int_le_iff)
  then show ?thesis by (simp add: fl32_def Let_def divide_le_eq)
qed

lemma limit_speedStepToThrottle: "limitThrottle (speedStepToThrottle s n) = Some (speedStepToThrottle s n)"
proof (cases "n = 0")
  case False
  define q :: rat where "q = of_nat (min s n) / of_nat n"
  have q: "0 \<le> q" "q \<le> 1" using False by (simp_all add: q_def divide_le_eq)
  have "speedStepToThrottle s n = fl32 q" using False by (simp add: speedStepToThrottle_def q_def)
  then show ?thesis
    using fl32_nonneg [OF q(1)] fl32_le_1 [OF q(2)] by (simp add: limitThrottle_def throttleMin_def throttleMax_def)
qed (simp add: speedStepToThrottle_def limitThrottle_def throttleMin_def throttleMax_def)

section \<open>Functions\<close>

definition unmuted :: "Decoder \<Rightarrow> bool" where
  "unmuted d \<longleftrightarrow> \<not> dec_worldMute d \<and> \<not> dec_worldNoSmoke d"

lemma find_updateFunction:
  "find (\<lambda>f. df_number f = n) (updateFunction n' (df_value_update (\<lambda>_. v)) fs) =
    (if n = n' then map_option (df_value_update (\<lambda>_. v)) (find (\<lambda>f. df_number f = n) fs)
     else find (\<lambda>f. df_number f = n) fs)"
  by (induction fs) auto

lemma setFunctionValue_frame:
  "dec_worldMute (Decoder_setFunctionValue n v d) = dec_worldMute d"
  "dec_worldNoSmoke (Decoder_setFunctionValue n v d) = dec_worldNoSmoke d"
  "dec_emergencyStop (Decoder_setFunctionValue n v d) = dec_emergencyStop d"
  "dec_direction (Decoder_setFunctionValue n v d) = dec_direction d"
  "dec_throttle (Decoder_setFunctionValue n v d) = dec_throttle d"
  by (simp_all add: Decoder_setFunctionValue_def split: option.split)

lemma setFunctionValue_value:
  assumes "unmuted d"
  shows "map_option df_value (Decoder_getFunction m (Decoder_setFunctionValue n v d)) =
    (if m = n then map_option (\<lambda>_. v) (Decoder_getFunction m d) else map_option df_value (Decoder_getFunction m d))"
proof (cases "Decoder_getFunction n d")
  case (Some f)
  moreover have "Decoder_functionValue f d = df_value f" using assms by (simp add: Decoder_functionValue_def unmuted_def)
  ultimately show ?thesis
    by (cases "m = n") (simp_all add: Decoder_setFunctionValue_def Decoder_getFunction_def find_updateFunction)
qed (simp add: Decoder_setFunctionValue_def)

lemma setFunctions_frame:
  "dec_worldMute (fold (\<lambda>(n, v). Decoder_setFunctionValue (of_nat n) v) xs d) = dec_worldMute d"
  "dec_worldNoSmoke (fold (\<lambda>(n, v). Decoder_setFunctionValue (of_nat n) v) xs d) = dec_worldNoSmoke d"
  "dec_emergencyStop (fold (\<lambda>(n, v). Decoder_setFunctionValue (of_nat n) v) xs d) = dec_emergencyStop d"
  "dec_direction (fold (\<lambda>(n, v). Decoder_setFunctionValue (of_nat n) v) xs d) = dec_direction d"
  "dec_throttle (fold (\<lambda>(n, v). Decoder_setFunctionValue (of_nat n) v) xs d) = dec_throttle d"
  by (induction xs arbitrary: d) (simp_all add: setFunctionValue_frame split: prod.split)

lemma setFunctions_values:
  assumes "unmuted d" and "b + length val \<le> 256" and "j < 256"
  shows "map_option df_value (Decoder_getFunction (of_nat j)
      (fold (\<lambda>(n, v). Decoder_setFunctionValue (of_nat n) v) (enumerate b val) d)) =
    (if b \<le> j \<and> j < b + length val then map_option (\<lambda>_. val ! (j - b)) (Decoder_getFunction (of_nat j) d)
     else map_option df_value (Decoder_getFunction (of_nat j) d))"
  using assms(1,2)
proof (induction val arbitrary: b d)
  case (Cons v val)
  let ?d = "Decoder_setFunctionValue (of_nat b) v d"
  have d: "unmuted ?d" using Cons.prems(1) by (simp add: unmuted_def setFunctionValue_frame)
  have e: "(of_nat j :: u8) = of_nat b \<longleftrightarrow> j = b"
  proof
    assume "(of_nat j :: u8) = of_nat b"
    then have "unat (of_nat j :: u8) = unat (of_nat b :: u8)" by simp
    then show "j = b" using Cons.prems(2) assms(3) by (simp add: unat_of_nat take_bit_nat_eq_self)
  qed simp
  have n: "Decoder_getFunction (of_nat j) ?d = None \<longleftrightarrow> Decoder_getFunction (of_nat j) d = None"
    using setFunctionValue_value [OF Cons.prems(1), of "of_nat j" "of_nat b" v]
    by (metis map_option_is_None)
  have m: "map_option (\<lambda>_. c) (Decoder_getFunction (of_nat j) ?d) = map_option (\<lambda>_. c) (Decoder_getFunction (of_nat j) d)" for c
    using n by (cases "Decoder_getFunction (of_nat j) ?d"; cases "Decoder_getFunction (of_nat j) d") simp_all
  show ?case
    using Cons.IH [OF d, of "Suc b"] Cons.prems(2) setFunctionValue_value [OF Cons.prems(1), of "of_nat j" "of_nat b" v] e m
    by (auto simp: nth_Cons' Suc_le_eq)
qed auto

section \<open>The decoder\<close>

lemma fold_decoderChanged_decoders: "z_decoders (fold (Z21_decoderChanged d) cs k) = z_decoders k"
  by (induction cs arbitrary: k) (simp_all add: Z21_decoderChanged_def Z21_post_def)

lemma guarded_decoders:
  assumes "snd r" and "f (z_decoders (fst r) i) = Some x"
  shows "z_decoders (fst (Z21_guarded c i f r)) = (if c then (z_decoders (fst r))(i := fst x) else z_decoders (fst r))"
    and "snd (Z21_guarded c i f r)"
  using assms by (simp_all add: Z21_guarded_def Let_def Z21_assign_def fold_decoderChanged_decoders)

text \<open>The three settings, each as the identity or an assignment of one field.\<close>

lemma setEmergencyStop_field: "\<exists>cs. Some (Decoder_setEmergencyStop e d) = Some (d\<lparr>dec_emergencyStop := e\<rparr>, cs)"
  by (cases d; cases "dec_emergencyStop d = e") (simp_all add: Decoder_setEmergencyStop_def)

lemma setDirection_field:
  "dir \<noteq> DirUnknown \<Longrightarrow> \<exists>cs. Decoder_setDirection dir d = Some (d\<lparr>dec_direction := dir\<rparr>, cs)"
  by (cases d; cases "dec_direction d = dir") (simp_all add: Decoder_setDirection_def)

lemma setThrottle_field:
  "\<exists>cs. Decoder_setThrottle (speedStepToThrottle s n) d = Some (d\<lparr>dec_throttle := speedStepToThrottle s n\<rparr>, cs)"
  by (cases d; cases "dec_throttle d = speedStepToThrottle s n")
    (simp_all add: Decoder_setThrottle_def limit_speedStepToThrottle)

lemma guarded_field:
  assumes "snd r" and "\<And>d. \<exists>cs. f d = Some (g d, cs)"
  shows "z_decoders (fst (Z21_guarded c i f r)) = (z_decoders (fst r))(i := (if c then g else id) (z_decoders (fst r) i))"
    and "snd (Z21_guarded c i f r)"
proof -
  obtain cs where f: "f (z_decoders (fst r) i) = Some (g (z_decoders (fst r) i), cs)" using assms(2) by blast
  note d = guarded_decoders [OF assms(1), of f i, OF f, of c]
  show "z_decoders (fst (Z21_guarded c i f r)) = (z_decoders (fst r))(i := (if c then g else id) (z_decoders (fst r) i))"
    using d(1) by simp
  show "snd (Z21_guarded c i f r)" by (rule d(2))
qed

lemma setFunctions_decoders:
  "z_decoders (Z21_setFunctions i val (k\<lparr>z_isUpdatingDecoderFromKernel := b\<rparr>)) = (z_decoders k)(i :=
    fold (\<lambda>(n, v). Decoder_setFunctionValue (of_nat n) v) (enumerate 0 val) (z_decoders k i))"
  by (simp add: Z21_setFunctions_def)

definition informed :: "bool \<Rightarrow> Direction \<Rightarrow> rat \<Rightarrow> u8 \<Rightarrow> Decoder \<Rightarrow> Decoder" where
  "informed e dir t ch d =
    (if has_change ch (chThrottle OR chSpeedSteps) then dec_throttle_update (\<lambda>_. t) else id)
      ((if has_change ch chDirection then dec_direction_update (\<lambda>_. dir) else id)
        ((if has_change ch chEmergencyStop then dec_emergencyStop_update (\<lambda>_. e) else id) d))"

lemma informed_frame:
  "dec_emergencyStop (informed e dir t ch d) = (if has_change ch chEmergencyStop then e else dec_emergencyStop d)"
  "dec_direction (informed e dir t ch d) = (if has_change ch chDirection then dir else dec_direction d)"
  "dec_throttle (informed e dir t ch d) = (if has_change ch (chThrottle OR chSpeedSteps) then t else dec_throttle d)"
  "dec_worldMute (informed e dir t ch d) = dec_worldMute d" "dec_worldNoSmoke (informed e dir t ch d) = dec_worldNoSmoke d"
  "Decoder_getFunction j (informed e dir t ch d) = Decoder_getFunction j d"
  by (simp_all add: informed_def Decoder_getFunction_def)

lemma LocoInfo_decoder:
  assumes "dir \<noteq> DirUnknown" and "findDecoder (z_decoders k) (Z21_getProtocol a) a (z_decoderList k) = Some i"
  shows "z_decoders (Z21_run_LocoInfo a e s n dir val ch k) =
    (z_decoders k)(i := fold (\<lambda>(n, v). Decoder_setFunctionValue (of_nat n) v) (enumerate 0 val)
      (informed e dir (speedStepToThrottle (unat s) (unat n)) ch (z_decoders k i)))"
proof -
  let ?t = "speedStepToThrottle (unat s) (unat n)"
  let ?r1 = "Z21_guarded (has_change ch chEmergencyStop) i (\<lambda>d. Some (Decoder_setEmergencyStop e d)) (k, True)"
  let ?r2 = "Z21_guarded (has_change ch chDirection) i (Decoder_setDirection dir) ?r1"
  let ?r3 = "Z21_guarded (has_change ch (chThrottle OR chSpeedSteps)) i (Decoder_setThrottle ?t) ?r2"
  note 1 = guarded_field [of "(k, True)" "\<lambda>d. Some (Decoder_setEmergencyStop e d)" "dec_emergencyStop_update (\<lambda>_. e)"
      "has_change ch chEmergencyStop" i, OF _ setEmergencyStop_field, unfolded fst_conv snd_conv, OF TrueI]
  note 2 = guarded_field [of ?r1 "Decoder_setDirection dir" "dec_direction_update (\<lambda>_. dir)"
      "has_change ch chDirection" i, OF 1(2) setDirection_field [OF assms(1)], unfolded 1(1)]
  note 3 = guarded_field [of ?r2 "Decoder_setThrottle ?t" "dec_throttle_update (\<lambda>_. ?t)"
      "has_change ch (chThrottle OR chSpeedSteps)" i, OF 2(2) setThrottle_field, unfolded 2(1)]
  have "Z21_run_LocoInfo a e s n dir val ch k = Z21_setFunctions i val ((fst ?r3)\<lparr>z_isUpdatingDecoderFromKernel := False\<rparr>)"
    by (simp only: Z21_run_LocoInfo_def Let_def assms(2) option.case if_P [OF 3(2)])
  then show ?thesis
    by (simp only: setFunctions_decoders 3(1) informed_def fun_upd_same fun_upd_upd)
qed

end
