(* ===== verification/Z21_Properties.thy ===== *)
theory Z21_Properties
  imports Z21_Behaviour Z21_Subscriptions Z21_Feedback Z21_Simulation Z21_Udp Z21_LocoInfo
begin

text \<open>The properties of the Z21 protocol: client, server, simulation, datagrams.\<close>

section \<open>Client\<close>

text \<open>
  C25. Every message the client's kernel has given to its IO handler, in any reachable state of its two
  threads, is framed: its length is the one it announces, and for an X-Bus message the checksum holds.
\<close>

theorem z21_wire_valid:
  assumes "z21_reachable k"
  shows "list_all (\<lambda>x. Z21_framed (fst x) \<and> (Z21_header (fst x) = LAN_X \<longrightarrow> LanX_isChecksumValid (fst x))) (z_wire k)"
  using reachable_inv [OF assms] by (auto simp: z21_inv_def Z21_valid_def list_all_iff)

definition Z21_Client_sample :: Z21_Client where
  "Z21_Client_sample = \<lparr>z_simulation = True, z_keepAliveTimer = None, z_purgeTimer = False, z_broadcastFlags = 0,
    z_broadcastFlagsRetryCount = 0, z_serialNumber = 0, z_onSerialNumberChanged = False, z_hardwareType = 0,
    z_firmwareVersionMajor = 0, z_firmwareVersionMinor = 0, z_onHardwareInfoChanged = False,
    z_trackPowerOn = TriUndefined, z_emergencyStop = TriUndefined, z_onTrackPowerChanged = True,
    z_decoders = (\<lambda>_. \<lparr>dec_protocol = DCCShort, dec_address = 3, dec_emergencyStop = False,
       dec_direction = DirForward, dec_speedSteps = 28, dec_throttle = 1 / 2, dec_functions = [],
       dec_worldMute = False, dec_worldNoSmoke = False, dec_driver = None\<rparr>),
    z_decoderList = [0], z_locoCache = Map.empty, z_isUpdatingDecoderFromKernel = False, z_inputController = True,
    z_rbusFeedbackStatus = (\<lambda>_. TriUndefined), z_loconetFeedbackStatus = (\<lambda>_. TriUndefined), z_overrun = False,
    z_debugLogRXTX = False, z_ioSend = (\<lambda>_ _. True), z_wire = [], z_posted = [], z_tasks = [], z_calls = []\<rparr>"

lemma sample_reachable: "z21_reachable Z21_Client_sample"
  unfolding z21_reachable_def
  by (rule exI [of _ Z21_Client_sample]) (simp add: Z21_Client_init_def Z21_Client_sample_def)

text \<open>The client after its power was switched on and the kernel's thread has run.\<close>

definition Z21_Client_on :: Z21_Client where
  "Z21_Client_on = Z21_runTask 0 0 [] (ZtSend LanXSetTrackPowerOn) Z21_Client_sample"

lemma on_reachable: "z21_reachable Z21_Client_on"
proof -
  have t: "z_tasks (Z21_trackPowerOn Z21_Client_sample) = [ZtSend LanXSetTrackPowerOn]"
    by (simp add: Z21_trackPowerOn_def Z21_post_def Z21_Client_sample_def)
  have e: "(Z21_trackPowerOn Z21_Client_sample)\<lparr>z_tasks := []\<rparr> = Z21_Client_sample"
    by (simp add: Z21_trackPowerOn_def Z21_post_def Z21_Client_sample_def)
  have "z21_step (Z21_trackPowerOn Z21_Client_sample) Z21_Client_on"
    using z21_task [OF t, of 0 0 "[]"] by (simp add: e Z21_Client_on_def)
  moreover have "z21_step Z21_Client_sample (Z21_trackPowerOn Z21_Client_sample)" by (rule z21_on)
  ultimately show ?thesis
    using sample_reachable unfolding z21_reachable_def by (meson rtranclp.rtrancl_into_rtrancl)
qed

theorem z21_wire_valid_witness:
  "z_wire Z21_Client_on = [(LanXSetTrackPowerOn, True)] \<and>
    Z21_framed LanXSetTrackPowerOn \<and> LanX_isChecksumValid LanXSetTrackPowerOn"
proof -
  have w: "z_wire Z21_Client_on = [(LanXSetTrackPowerOn, True)]"
    by (simp add: Z21_Client_on_def) (simp add: Z21_Client_sample_def)
  moreover have "Z21_header LanXSetTrackPowerOn = LAN_X" by code_simp
  ultimately show ?thesis using z21_wire_valid [OF on_reachable] by simp
qed

text \<open>
  C26. What a command station reports about a locomotive reaches its decoder and is not sent back: when
  the event loop runs the closure of such a message in any reachable state, the decoder of the address
  gets the emergency stop and the direction when they are said to have changed, the throttle of the
  reported speed step when the speed is, and (no mute or smoke rule of the world interfering) the
  reported values of its functions, no other decoder changes, no task for the kernel's thread
  and no message comes out of it, and the guard against echoes is down again.
\<close>

theorem z21_no_echo:
  fixes k :: Z21_Client and a :: u16 and e :: bool and s n ch :: u8 and dir :: Direction and val :: "bool list"
  assumes "z21_reachable k" and "z_posted k = ZcLocoInfo a e s n dir val ch # cs"
  defines "k' \<equiv> Z21_runClosure (ZcLocoInfo a e s n dir val ch) (k\<lparr>z_posted := cs\<rparr>)"
  shows "z_tasks k' = z_tasks k \<and> z_wire k' = z_wire k \<and> \<not> z_isUpdatingDecoderFromKernel k' \<and>
    (case findDecoder (z_decoders k) (Z21_getProtocol a) a (z_decoderList k) of
       None \<Rightarrow> z_decoders k' = z_decoders k
     | Some i \<Rightarrow>
         let d = z_decoders k i; d' = z_decoders k' i
         in z_decoders k' = (z_decoders k)(i := d') \<and>
           dec_emergencyStop d' = (if has_change ch chEmergencyStop then e else dec_emergencyStop d) \<and>
           dec_direction d' = (if has_change ch chDirection then dir else dec_direction d) \<and>
           dec_throttle d' = (if has_change ch (chThrottle OR chSpeedSteps)
             then speedStepToThrottle (unat s) (unat n) else dec_throttle d) \<and>
           (\<not> dec_worldMute d \<and> \<not> dec_worldNoSmoke d \<longrightarrow>
             (\<forall>j < length val. map_option df_value (Decoder_getFunction (of_nat j) d') =
               map_option (\<lambda>_. val ! j) (Decoder_getFunction (of_nat j) d))))"
proof -
  have i: "dir \<noteq> DirUnknown" "\<not> z_isUpdatingDecoderFromKernel (k\<lparr>z_posted := cs\<rparr>)" "length val \<le> 32"
    using reachable_inv [OF assms(1)] assms(2) by (simp_all add: z21_inv_def)
  have q: "z_tasks k' = z_tasks k" "z_wire k' = z_wire k" "\<not> z_isUpdatingDecoderFromKernel k'"
    using LocoInfo_silent [OF i(1,2), of a e s n val ch] by (simp_all add: k'_def)
  show ?thesis
  proof (cases "findDecoder (z_decoders k) (Z21_getProtocol a) a (z_decoderList k)")
    case None
    then show ?thesis using q by (simp add: k'_def Z21_run_LocoInfo_def)
  next
    case (Some i')
    let ?d = "z_decoders k i'"
    let ?d1 = "informed e dir (speedStepToThrottle (unat s) (unat n)) ch ?d"
    let ?d2 = "fold (\<lambda>(n, v). Decoder_setFunctionValue (of_nat n) v) (enumerate 0 val) ?d1"
    have r: "z_decoders k' = (z_decoders k)(i' := ?d2)"
      using LocoInfo_decoder [OF i(1), of "k\<lparr>z_posted := cs\<rparr>" a i' e s n val ch] Some by (simp add: k'_def)
    have f: "map_option df_value (Decoder_getFunction (of_nat j) ?d2) =
        map_option (\<lambda>_. val ! j) (Decoder_getFunction (of_nat j) ?d)"
      if "\<not> dec_worldMute ?d" "\<not> dec_worldNoSmoke ?d" "j < length val" for j
      using setFunctions_values [of ?d1 0 val j] i(3) that by (simp add: unmuted_def informed_frame)
    show ?thesis
      using q Some f unfolding r Let_def by (simp add: setFunctions_frame informed_frame)
  qed
qed

theorem z21_no_echo_witness:
  "let k = Z21_receive 0 5000 (LanXLocoInfo 3 False 28 DirReverse False (\<lambda>_. 7) []) Z21_Client_sample;
      k' = Z21_runClosure (hd (z_posted k)) (k\<lparr>z_posted := tl (z_posted k)\<rparr>)
   in z_tasks k' = [] \<and> dec_direction (z_decoders k' 0) = DirReverse \<and>
     dec_throttle (z_decoders k' 0) = speedStepToThrottle 7 28"
proof -
  let ?m = "LanXLocoInfo 3 False 28 DirReverse False (\<lambda>_. 7) []"
  let ?k = "Z21_receive 0 5000 ?m Z21_Client_sample"
  have p: "z_posted ?k = [ZcLocoInfo 3 False 7 28 DirReverse (replicate 32 False) (chSpeedSteps OR chThrottle OR chDirection)]"
    by code_simp
  have r: "z21_reachable ?k"
    using sample_reachable z21_message [of Z21_Client_sample 0 5000 ?m]
    unfolding z21_reachable_def by (meson rtranclp.rtrancl_into_rtrancl)
  have q: "z_tasks ?k = []" "z_decoders ?k = z_decoders Z21_Client_sample"
    using posts_receive [of Z21_Client_sample 0 5000 ?m] by (simp_all add: posts_def receives_def Z21_Client_sample_def)
  have "findDecoder (z_decoders Z21_Client_sample) (Z21_getProtocol 3) 3 (z_decoderList ?k) = Some 0"
    by code_simp
  then show ?thesis
    using z21_no_echo [OF r p] unfolding Let_def p list.sel q by (simp add: has_change_def)
qed

text \<open>
  The emergency stop of a locomotive does not survive a change of its direction: the command
  that the client then sends is no stop and carries the speed of the decoder's throttle, which for a
  running throttle starts the locomotive again.
\<close>

theorem z21_direction_restarts:
  assumes "addressOk a l" and "dir \<noteq> DirUnknown" and "lc_direction (Z21_getLocoCache a k) \<noteq> dir"
  shows "\<exists>m ok. z_wire (Z21_decoderChanged_posted nan now a l dir t s True chDirection n v k) = z_wire k @ [(m, ok)] \<and>
    \<not> LanXSetLocoDrive_isEmergencyStop m \<and>
    uint (LanXSetLocoDrive_speedStep m) = throttleToSpeedStep t (unat (LanXSetLocoDrive_speedSteps m))"
  using direction_sends_speed [OF assms, of nan now t s True n v] driveStep_range(1) [of t s]
  unfolding driveCarries_def by fastforce

theorem z21_direction_restarts_witness:
  "\<exists>m ok. z_wire (Z21_decoderChanged_posted 0 0 3 False DirReverse (1 / 2) 28 True chDirection 0 TriUndefined
      Z21_Client_sample) = z_wire Z21_Client_sample @ [(m, ok)] \<and> \<not> LanXSetLocoDrive_isEmergencyStop m"
  using z21_direction_restarts [of 3 False DirReverse Z21_Client_sample 0 0 "1 / 2" 28 0 TriUndefined]
  by (auto simp: addressOk_def Z21_getLocoCache_def Z21_Client_sample_def Z21_LocoCache_init_def)

text \<open>
  C27. Feedback of the R-Bus: a message of the groups 0 to 11 sets exactly the 80 inputs of its group to
  their bits, tells the event loop exactly the inputs whose value changed, in order, and stays inside the
  array of a thousand elements; a message of any other group goes beyond the end of the array.
\<close>

theorem z21_rbus_feedback:
  fixes k :: Z21_Client and m :: bytes and n :: nat and nan now :: int
  assumes "z_inputController k" and "Z21_header m = LAN_RMBUS_DATACHANGED" and "Z21_dataLen m = 15"
    and "\<not> z_debugLogRXTX k"
  defines "g \<equiv> unat (LanRMBusDataChanged_groupIndex m)"
    and "v \<equiv> (\<lambda>i. toTriState (LanRMBusDataChanged_getFeedbackStatus i m))"
    and "k' \<equiv> Z21_receive nan now m k"
  shows "(z_overrun k' \<longleftrightarrow> z_overrun k \<or> 12 \<le> g) \<and>
    (g < 12 \<longrightarrow>
      z_rbusFeedbackStatus k' n = (if n div 80 = g then v (n mod 80) else z_rbusFeedbackStatus k n) \<and>
      z_posted k' = z_posted k @
        map (\<lambda>i. ZcUpdateInput ChRBus (1 + (g * 80 + i)) (v i))
          (filter (\<lambda>i. z_rbusFeedbackStatus k (g * 80 + i) \<noteq> v i) [0..<80]))"
proof -
  have d: "g * 80 \<le> n \<and> n < g * 80 + 80 \<longleftrightarrow> n div 80 = g" by auto
  have m: "n mod 80 = n - g * 80" if "n div 80 = g" using that by (simp add: minus_div_mult_eq_mod [symmetric])
  note r = receive_RMBus_effect [OF assms(1-3), of nan now, folded k'_def]
  have "z_rbusFeedbackStatus k' n = (if n div 80 = g then v (n mod 80) else z_rbusFeedbackStatus k n)"
    using r(1) [of n] m unfolding g_def [symmetric] d rbusValue_def v_def by simp
  then show ?thesis
    using r(2) [OF assms(4)] r(3) by (simp add: Z21_rbusIndex_def g_def v_def rbusValue_def)
qed

theorem z21_rbus_feedback_witness:
  "z_rbusFeedbackStatus (Z21_receive 0 0 (LanRMBusDataChanged 2 (0x01 # replicate 9 0)) Z21_Client_sample) 160 = TriTrue"
proof -
  let ?m = "LanRMBusDataChanged 2 (0x01 # replicate 9 0)"
  have "Z21_header ?m = LAN_RMBUS_DATACHANGED" "Z21_dataLen ?m = 15" "?m ! 4 = 2"
    "LanRMBusDataChanged_getFeedbackStatus 0 ?m" by code_simp+
  then show ?thesis
    using z21_rbus_feedback [of Z21_Client_sample ?m 0 0 160] by (simp add: Z21_Client_sample_def)
qed

text \<open>
  C28. A simulated change of an R-Bus input sets that input as asked and leaves every other input that is
  known as it is; it changes no element beyond the thousand of the array exactly when the address
  is at most 960: for the highest 40 addresses it also writes the elements 1000 to 1039.
\<close>

theorem z21_rbus_simulated:
  fixes k :: Z21_Client and u :: bytes and address n :: nat and action :: SimulateInputAction and nan now :: int
  assumes "z_inputController k" and "length u = 10" and "1 \<le> address" and "address \<le> 1000"
    and "\<not> (action = SimSetFalse \<and> z_rbusFeedbackStatus k (address - 1) = TriFalse)"
    and "\<not> (action = SimSetTrue \<and> z_rbusFeedbackStatus k (address - 1) = TriTrue)"
    and "\<And>n. 1000 \<le> n \<Longrightarrow> z_rbusFeedbackStatus k n = TriUndefined"
  defines "k' \<equiv> Z21_simulateInput_posted nan now ChRBus address action u k"
  shows "z_rbusFeedbackStatus k' (address - 1) =
      (case action of SimSetFalse \<Rightarrow> TriFalse | SimSetTrue \<Rightarrow> TriTrue
       | SimToggle \<Rightarrow> toTriState (z_rbusFeedbackStatus k (address - 1) \<noteq> TriTrue)) \<and>
    (n \<noteq> address - 1 \<longrightarrow> z_rbusFeedbackStatus k n \<noteq> TriUndefined \<longrightarrow>
      z_rbusFeedbackStatus k' n = z_rbusFeedbackStatus k n) \<and>
    ((\<forall>n \<ge> 1000. z_rbusFeedbackStatus k' n = z_rbusFeedbackStatus k n) \<longleftrightarrow> address \<le> 960)"
proof -
  have "address \<le> 20480" using assms(4) by simp
  note e = simulate_rbus_effect [OF assms(1-3) this assms(5,6), of nan now, folded k'_def]
  have t: "toTriState (z_rbusFeedbackStatus k n = TriTrue) = z_rbusFeedbackStatus k n"
    if "z_rbusFeedbackStatus k n \<noteq> TriUndefined" for n
    using that by (cases "z_rbusFeedbackStatus k n") simp_all
  have 1: "z_rbusFeedbackStatus k' (address - 1) =
      (case action of SimSetFalse \<Rightarrow> TriFalse | SimSetTrue \<Rightarrow> TriTrue
       | SimToggle \<Rightarrow> toTriState (z_rbusFeedbackStatus k (address - 1) \<noteq> TriTrue))"
    using e [of "address - 1"] assms(3) by (simp add: simulatedValue_def split: SimulateInputAction.split)
  have 2: "z_rbusFeedbackStatus k' n = z_rbusFeedbackStatus k n"
    if "n \<noteq> address - 1" "z_rbusFeedbackStatus k n \<noteq> TriUndefined"
    using e [of n] that t [of n] by (auto simp: simulatedValue_def)
  have 3: "z_rbusFeedbackStatus k' 1039 \<noteq> z_rbusFeedbackStatus k 1039" if "960 < address"
    using e [of 1039] that assms(4,7) by (simp add: simulatedValue_def div_nat_eqI)
  have 4: "z_rbusFeedbackStatus k' n = z_rbusFeedbackStatus k n" if "address \<le> 960" "1000 \<le> n" for n
  proof -
    have "(address - 1) div 80 < 12" using that(1) assms(3) by (simp add: div_less_iff_less_mult)
    moreover have "12 \<le> n div 80" using that(2) by (simp add: less_eq_div_iff_mult_less_eq)
    ultimately have "n div 80 \<noteq> (address - 1) div 80" by linarith
    then show ?thesis using e [of n] by simp
  qed
  have 5: "(\<forall>n \<ge> 1000. z_rbusFeedbackStatus k' n = z_rbusFeedbackStatus k n) \<longleftrightarrow> address \<le> 960"
  proof (cases "address \<le> 960")
    case True
    then show ?thesis using 4 by blast
  next
    case False
    moreover have "(1000 :: nat) \<le> 1039" by simp
    ultimately show ?thesis using 3 by (metis not_le)
  qed
  show ?thesis using 1 2 5 by blast
qed

theorem z21_rbus_simulated_witness:
  "z_rbusFeedbackStatus (Z21_simulateInput_posted 0 0 ChRBus 5 SimSetTrue (replicate 10 0) Z21_Client_sample) 4 = TriTrue"
  using z21_rbus_simulated [where k = Z21_Client_sample and u = "replicate 10 0" and address = 5 and action = SimSetTrue and nan = 0 and now = 0] by (simp add: Z21_Client_sample_def)

section \<open>Client and simulated command station\<close>

text \<open>
  C29. The client and the simulated command station agree: after the start, and after power on, power off
  or emergency stop from a state in which they agreed, both are at rest, the client's power state is
  the station's, and the station is in the state asked for.
\<close>

theorem z21_power_synced:
  fixes k :: Z21_Client and s :: Z21_Sim and request :: Z21_task and n :: nat and nan now :: int and b :: bytes and u :: u8
  assumes "z_posted k = []" and "4 < n"
    and "request = ZtStart True \<or> listening (k, s) \<and> synced (k, s) \<and>
      (request = ZtSend LanXSetTrackPowerOn \<or> request = ZtSend LanXSetTrackPowerOff \<or> request = ZtSend LanXSetStop)"
  defines "c \<equiv> z21_settle n nan now b u (k\<lparr>z_tasks := [request]\<rparr>, s)"
  shows "atRest c \<and> synced c \<and> listening c \<and>
    zs_trackPowerOn (snd c) = (request = ZtSend LanXSetTrackPowerOn \<or>
      request \<noteq> ZtSend LanXSetTrackPowerOff \<and> zs_trackPowerOn s) \<and>
    zs_emergencyStop (snd c) = (request = ZtSend LanXSetStop \<or>
      request \<noteq> ZtSend LanXSetTrackPowerOn \<and> zs_emergencyStop s)"
proof -
  let ?k = "k\<lparr>z_tasks := [request]\<rparr>"
  have p: "z_posted ?k = []" "2 < n" using assms(1,2) by simp_all
  have distinct: "LanXSetTrackPowerOn \<noteq> LanXSetTrackPowerOff" "LanXSetTrackPowerOn \<noteq> LanXSetStop"
    "LanXSetTrackPowerOff \<noteq> LanXSetStop" by code_simp+
  from assms(3) consider "request = ZtStart True"
    | "request = ZtSend LanXSetTrackPowerOn" "listening (?k, s)" "synced (?k, s)"
    | "request = ZtSend LanXSetTrackPowerOff" "listening (?k, s)" "synced (?k, s)"
    | "request = ZtSend LanXSetStop" "listening (?k, s)" "synced (?k, s)"
    by (auto simp: listening_def synced_def)
  then show ?thesis
  proof cases
    case 1
    then have "z_tasks ?k = [ZtStart True]" by simp
    from settle_start [OF this p(1) assms(2), of nan now b u s] show ?thesis
      using 1 by (simp add: c_def Let_def)
  next
    case 2
    then have "z_tasks ?k = [ZtSend LanXSetTrackPowerOn]" by simp
    from settle_on [OF this p(1) 2(2) p(2), of nan now b u] show ?thesis
      using 2 distinct by (simp add: c_def Let_def listening_def)
  next
    case 3
    then have "z_tasks ?k = [ZtSend LanXSetTrackPowerOff]" by simp
    from settle_off [OF this p(1) 3(2) p(2) 3(3), of nan now b u] show ?thesis
      using 3 distinct by (simp add: c_def Let_def listening_def)
  next
    case 4
    then have "z_tasks ?k = [ZtSend LanXSetStop]" by simp
    from settle_stop [OF this p(1) 4(2) p(2) 4(3), of nan now b u] show ?thesis
      using 4 distinct by (simp add: c_def Let_def listening_def)
  qed
qed

theorem z21_power_synced_witness:
  "synced (z21_settle 5 0 0 [] 0 (Z21_Client_sample\<lparr>z_tasks := [ZtStart True]\<rparr>, Z21_Sim_init))"
  using z21_power_synced [where k = Z21_Client_sample and n = 5 and request = "ZtStart True" and s = Z21_Sim_init
      and nan = 0 and now = 0 and b = "[]" and u = 0]
  by (simp add: Z21_Client_sample_def)

text \<open>
  The client never learns that its broadcast flags were accepted: simulation and server answer the
  request with a message under the header of the command instead of the reply, the client ignores
  it, asks again ten times, each time two seconds later, and logs a mismatch although the flags are set.
\<close>

theorem z21_flags_unconfirmed:
  fixes k :: Z21_Client and nan now :: int and f :: u32
  assumes "z_broadcastFlags k = 0" and "z_broadcastFlagsRetryCount k < 10"
  defines "k' \<equiv> Z21_receive nan now (LanSetBroadcastFlags f) (Z21_keepAliveTimerExpired k)"
  shows "snd (zs_send LanGetBroadcastFlags u s) = [LanSetBroadcastFlags (zs_broadcastFlags s)] \<and>
    z_broadcastFlags k' = 0 \<and> z_broadcastFlagsRetryCount (Z21_keepAliveTimerExpired k) > z_broadcastFlagsRetryCount k \<and>
    z_calls (Z21_keepAliveTimerExpired k) = z_calls k @
      (if z_broadcastFlagsRetryCount k = 9 then [ZvBroadcastFlagMismatch] else []) \<and>
    z_keepAliveTimer (Z21_keepAliveTimerExpired k) = Some (if z_broadcastFlagsRetryCount k = 9 then 15 else 2)"
proof -
  have "z_broadcastFlagsRetryCount (Z21_keepAliveTimerExpired k) > z_broadcastFlagsRetryCount k"
    using assms(1) by (simp add: Z21_keepAliveTimerExpired_def Z21_startKeepAliveTimer_def Let_def send_fields Z21_call_def)
  moreover have "z_broadcastFlags k' = 0"
    using keepAlive_unconfirmed(2) [OF assms(1)] by (simp add: k'_def receive_flags_ignored)
  moreover have "z_broadcastFlagsRetryCount k < 9 \<or> z_broadcastFlagsRetryCount k = 9" using assms(2) by linarith
  ultimately show ?thesis
    using keepAlive_unconfirmed(3,4) [OF assms(1)] by (auto simp: station_start)
qed

theorem z21_flags_unconfirmed_witness:
  "z_calls (Z21_keepAliveTimerExpired (Z21_Client_sample\<lparr>z_broadcastFlagsRetryCount := 9\<rparr>)) = [ZvBroadcastFlagMismatch]"
  using z21_flags_unconfirmed [of "Z21_Client_sample\<lparr>z_broadcastFlagsRetryCount := 9\<rparr>"] by (simp add: Z21_Client_sample_def)

section \<open>Client and server\<close>

definition Z21_Server_sample :: Z21_Server where
  "Z21_Server_sample = \<lparr>sv_config = \<lparr>allowEmergencyStop = True, allowTrackPowerOff = True,
      allowTrackPowerOnReleaseEmergencyStop = True, sv_debugLogRXTX = False\<rparr>,
    sv_clients = [], sv_subscriptions = (\<lambda>_. None), sv_trackPowerOn = TriUndefined, sv_emergencyStop = TriUndefined,
    sv_onTrackPowerOff = True, sv_onTrackPowerOn = True, sv_onEmergencyStop = True,
    sv_decoders = (\<lambda>_. \<lparr>dec_protocol = DCCShort, dec_address = 3, dec_emergencyStop = False,
       dec_direction = DirForward, dec_speedSteps = 28, dec_throttle = 0, dec_functions = [],
       dec_worldMute = False, dec_worldNoSmoke = False, dec_driver = None\<rparr>),
    sv_decoderList = [0], sv_purgeTimer = False, sv_ioSendTo = (\<lambda>_ _ _. True), sv_wire = [], sv_purged = [],
    sv_posted = [], sv_tasks = [], sv_calls = []\<rparr>"

text \<open>
  C10. A locomotive of a client is driven by the server as the client asks: whenever a change of a client's
  decoder differs from what the client sent last, the last message it sends, received by the server, posts
  the closure that drives, and this gives the server's decoder the direction of the client's, a throttle
  that is the same speed step, and the emergency stop and speed step 0 exactly when the change is an
  emergency stop the client did not know before.  (So a change of direction under an emergency stop
  takes the stop back: \<open>z21_direction_restarts\<close>.)
\<close>

theorem z21_drive_to_server:
  fixes d :: Decoder and c0 c :: Z21_Client and k k2 :: Z21_Server and ch v :: u8 and u :: bytes and i fn client :: nat
    and nan now now' :: int and keys :: "LocoKey list"
  assumes "\<not> z_isUpdatingDecoderFromKernel c0" and "addressOk (dec_address d) (dec_protocol d = DCCLong)"
    and "dec_direction d \<noteq> DirUnknown"
  defines "n \<equiv> Z21_driveSteps (dec_speedSteps d)"
    and "cache \<equiv> Z21_getLocoCache (dec_address d) c"
    and "t \<equiv> last (z_tasks (Z21_decoderChanged d (ch, fn) c0))"
  assumes "Z21_driveChanged (dec_direction d) (dec_speedSteps d) (throttleToSpeedStep (dec_throttle d) (unat n))
      (dec_emergencyStop d) ch cache"
  defines "halt \<equiv> dec_emergencyStop d \<and> has_change ch chEmergencyStop \<and> \<not> lc_isEStop cache"
    and "m \<equiv> fst (last (z_wire (Z21_runTask nan now u t c)))"
  shows "(\<exists>cs. sv_posted (ZS_receiveFrom now' m client v k) = cs @ [ZeSetLocoDrive m]) \<and>
    (ZS_getDecoder (dec_address d) (dec_protocol d = DCCLong) k2 = Some i \<longrightarrow>
      (let d' = sv_decoders (ZS_runClosure keys (ZeSetLocoDrive m) k2) i in
       dec_direction d' = dec_direction d \<and> dec_emergencyStop d' = halt \<and>
       throttleToSpeedStep (dec_throttle d') (unat n) = (if halt then 0 else throttleToSpeedStep (dec_throttle d) (unat n))))"
proof -
  let ?a = "dec_address d" and ?l = "dec_protocol d = DCCLong"
  let ?s = "if halt then 0 else Z21_driveStep (dec_throttle d) (dec_speedSteps d)"
  have halt: "newStop ?a (dec_emergencyStop d) ch c = halt" by (simp add: newStop_def halt_def cache_def)
  obtain cmd w ok where w: "z_wire (Z21_runTask nan now u t c) = w @ [(LanX_updateChecksum cmd, ok)]"
    and cmd: "driveCarries ?a ?l (dec_direction d) n ?s halt cmd"
    using drive_sent [OF assms(2,3) assms(7) [unfolded n_def cache_def]] assms(1)
    unfolding t_def n_def halt by (auto simp: Z21_decoderChanged_def Z21_post_def) metis
  then have m: "m = LanX_updateChecksum cmd" by (simp add: m_def)
  have "driveCarries ?a ?l (dec_direction d) n ?s halt m" unfolding m by (rule seal_carries [OF cmd])
  moreover have "speedStepsOk n ?s"
    using driveStep_range(2) [of "dec_speedSteps d" "dec_throttle d"] driveSteps_cases [of "dec_speedSteps d"]
    by (auto simp: n_def speedStepsOk_def)
  ultimately show ?thesis
    using receive_drive [OF cmd, of now' client v k, folded m] run_SetLocoDrive [of ?a ?l "dec_direction d" n ?s halt m, OF _ _ assms(3), of k2 i keys]
      driveStep_range(1) [of "dec_throttle d" "dec_speedSteps d"]
    by (auto simp: n_def Let_def)
qed

text \<open>A client's decoder that reverses at half speed, and one that stops in an emergency.\<close>

theorem z21_drive_to_server_witness:
  "let d = \<lparr>dec_protocol = DCCShort, dec_address = 3, dec_emergencyStop = True, dec_direction = DirReverse,
      dec_speedSteps = 28, dec_throttle = 1 / 2, dec_functions = [], dec_worldMute = False,
      dec_worldNoSmoke = False, dec_driver = None\<rparr>;
     m = fst (last (z_wire (Z21_runTask 0 0 [] (last (z_tasks (Z21_decoderChanged d (chEmergencyStop, 0) Z21_Client_sample)))
       Z21_Client_sample)));
     d' = sv_decoders (ZS_runClosure [] (ZeSetLocoDrive m) Z21_Server_sample) 0
   in dec_direction d' = DirReverse \<and> dec_emergencyStop d'"
proof -
  let ?d = "\<lparr>dec_protocol = DCCShort, dec_address = 3, dec_emergencyStop = True, dec_direction = DirReverse,
      dec_speedSteps = 28, dec_throttle = 1 / 2, dec_functions = [], dec_worldMute = False,
      dec_worldNoSmoke = False, dec_driver = None\<rparr>"
  have "\<not> z_isUpdatingDecoderFromKernel Z21_Client_sample" by (simp add: Z21_Client_sample_def)
  moreover have "ZS_getDecoder 3 False Z21_Server_sample = Some 0" by (simp add: Z21_Server_sample_def ZS_getDecoder_def Let_def)
  moreover have "Z21_getLocoCache 3 Z21_Client_sample = Z21_LocoCache_init 3"
    by (simp add: Z21_getLocoCache_def Z21_Client_sample_def)
  ultimately show ?thesis
    using z21_drive_to_server [where ?c0.0 = Z21_Client_sample and d = ?d and ch = chEmergencyStop and fn = 0
        and c = Z21_Client_sample and nan = 0 and now = 0 and now' = 0 and u = "[]" and v = 0 and client = 0
        and k = Z21_Server_sample and ?k2.0 = Z21_Server_sample and i = 0 and keys = "[]"]
    by (simp add: addressOk_def Z21_driveChanged_def has_change_def Z21_LocoCache_init_def Let_def)
qed

text \<open>
  What the server tells a client about a locomotive is what its decoder has: the client posts the
  closure with the decoder's address, stop, direction, speed step and function values.
\<close>

theorem z21_state_to_client:
  assumes "addressOk (dec_address d) (dec_protocol d = DCCLong)" and "dec_direction d \<noteq> DirUnknown"
    and "list_all (\<lambda>f. df_number f \<le> 31) (dec_functions d)"
  defines "n \<equiv> Z21_driveSteps (dec_speedSteps d)"
  shows "\<exists>cs s val ch. z_posted (Z21_receive nan now (ZS_locoInfo d) k) = z_posted k @ cs @
      [ZcLocoInfo (dec_address d) (dec_emergencyStop d) s n (dec_direction d) val ch] \<and>
    uint s = (if dec_emergencyStop d then 0 else throttleToSpeedStep (dec_throttle d) (unat n)) \<and>
    val = map (functionValues (map (\<lambda>f. (unat (df_number f), df_value f)) (dec_functions d))) [0..<32]"
proof -
  let ?f = "\<lambda>n. word_of_int (throttleToSpeedStep (dec_throttle d) (unat n)) :: u8"
  let ?fs = "map (\<lambda>f. (unat (df_number f), df_value f)) (dec_functions d)"
  have fn: "?f n = Z21_driveStep (dec_throttle d) (dec_speedSteps d)" by (simp add: Z21_driveStep_def n_def)
  have fs: "k \<le> 31" if "(k, v) \<in> set ?fs" for k v
    using that assms(3) by (auto simp: list_all_iff word_le_nat_alt)
  note c = locoInfo_carries [OF assms(1,2), of "dec_emergencyStop d" "dec_speedSteps d" ?f ?fs, folded n_def,
      unfolded fn, folded ZS_locoInfo_def]
  have ok: "speedStepsOk n (Z21_driveStep (dec_throttle d) (dec_speedSteps d))"
    unfolding n_def by (rule driveStep_range(2))
  have i: "infoCarries (dec_address d) (dec_protocol d = DCCLong) (dec_direction d) n
      (if dec_emergencyStop d then 0 else Z21_driveStep (dec_throttle d) (dec_speedSteps d)) (dec_emergencyStop d) (ZS_locoInfo d)"
    by (rule c(1) [OF ok fs])
  have v: "map (\<lambda>i. LanXLocoInfo_getFunction i (ZS_locoInfo d)) [0..<32] = map (functionValues ?fs) [0..<32]"
  proof (rule map_cong)
    fix x assume "x \<in> set [0..<32 :: nat]"
    then have x: "x \<le> 31" by simp
    show "LanXLocoInfo_getFunction x (ZS_locoInfo d) = functionValues ?fs x"
      by (rule c(2) [OF ok _ x]) (rule fs)
  qed simp
  have "Z21_valid (ZS_locoInfo d)"
  proof -
    have "Z21_form 15 LAN_X_LOCO_INFO (fold (\<lambda>(n, v). LanXLocoInfo_setFunction n v) fs m)"
      if "Z21_form 15 LAN_X_LOCO_INFO m" for fs m using functions_keep [OF that] by blast
    then show ?thesis
      unfolding ZS_locoInfo_def LanXLocoInfo_def Let_def
      by (intro form_valid_LocoInfo)
        (simp add: LanXLocoInfo_setSpeedStep_def LanXLocoInfo_setEmergencyStop_def LanXLocoInfo_setDirection_def
          LanXLocoInfo_setSpeedSteps_def LanXLocoInfo_init_form)
  qed
  from receive_info [OF i this, of nan now k] obtain cs ch where p: "z_posted (Z21_receive nan now (ZS_locoInfo d) k) =
      z_posted k @ cs @ [ZcLocoInfo (dec_address d) (dec_emergencyStop d)
        (if dec_emergencyStop d then 0 else Z21_driveStep (dec_throttle d) (dec_speedSteps d)) n (dec_direction d)
        (map (functionValues ?fs) [0..<32]) ch]" unfolding v by blast
  have "uint (if dec_emergencyStop d then 0 else Z21_driveStep (dec_throttle d) (dec_speedSteps d)) =
      (if dec_emergencyStop d then 0 else throttleToSpeedStep (dec_throttle d) (unat n))"
    using driveStep_range(1) by (simp add: n_def)
  with p show ?thesis by blast
qed

theorem z21_state_to_client_witness:
  "z_posted (Z21_receive 0 0 (ZS_locoInfo (sv_decoders Z21_Server_sample 0)) Z21_Client_sample) \<noteq> []"
  using z21_state_to_client [of "sv_decoders Z21_Server_sample 0" 0 0 Z21_Client_sample]
  by (auto simp: Z21_Server_sample_def addressOk_def)

lemma server_sample_reachable: "server_reachable known Z21_Server_sample"
  unfolding server_reachable_def
  by (rule exI [of _ Z21_Server_sample]) (simp add: Z21_Server_init_def Z21_Server_sample_def)

text \<open>A server with one client that asked for the locomotive.\<close>

definition Z21_Server_subscribed :: Z21_Server where
  "Z21_Server_subscribed = ZS_runClosure [] (ZeGetLocoInfo 3 False 7)
    (Z21_Server_sample\<lparr>sv_clients := [(7, \<lparr>cl_lastSeen = 0, cl_broadcastFlags = 0, cl_subscriptions = [(3, False)]\<rparr>)],
      sv_subscriptions := (\<lambda>_. None)((3, False) := Some (Some 0, 1))\<rparr>)"

lemma subscribed_fields:
  "sv_posted Z21_Server_subscribed = []" "\<not> sv_debugLogRXTX (sv_config Z21_Server_subscribed)"
  "cl_subscriptions (ZS_client 7 Z21_Server_subscribed) = [(3, False)]"
  by (simp_all add: Z21_Server_subscribed_def Z21_Server_sample_def ZS_post_def ZS_client_def split: option.split)

lemma subscribed_reachable: "server_reachable known Z21_Server_subscribed"
proof -
  let ?m = "LanXGetLocoInfo 3 False"
  have m: "Z21_header ?m = LAN_X" "ZS_isChecksumValid ?m" "?m ! 4 = LAN_X_GET_LOCO_INFO" "?m ! 5 = 0xF0"
    "Z21_locoAddress 6 ?m = 3" "\<not> Z21_isLongAddress 6 ?m" "\<not> Z21_isLogoff ?m" by code_simp+
  let ?c = "\<lparr>cl_lastSeen = 0, cl_broadcastFlags = 0, cl_subscriptions = [(3, False)]\<rparr>"
  let ?k1 = "ZS_receiveFrom 0 ?m 7 0 Z21_Server_sample"
  let ?k2 = "ZS_runClosure [] (ZeSubscribe (3, False)) (?k1\<lparr>sv_posted := [ZeGetLocoInfo 3 False 7]\<rparr>)"
  have k1: "?k1 = Z21_Server_sample\<lparr>sv_clients := [(7, ?c)], sv_posted := [ZeSubscribe (3, False), ZeGetLocoInfo 3 False 7]\<rparr>"
    using m by (simp add: ZS_receiveFrom_def ZS_dispatch_def ZS_receive_LanX_def ZS_subscribe_def Let_def ZS_setClient_def
        ZS_client_def ZS_newClient_def ZS_eventLoopCall_def Z21_Server_sample_def)
  have k2: "?k2 = Z21_Server_sample\<lparr>sv_clients := [(7, ?c)], sv_posted := [ZeGetLocoInfo 3 False 7],
      sv_subscriptions := (\<lambda>_. None)((3, False) := Some (Some 0, 1))\<rparr>"
    unfolding k1 by (simp add: ZS_run_Subscribe_def ZS_getDecoder_def Z21_Server_sample_def)
  have 1: "server_step known Z21_Server_sample ?k1" by (rule server_receive [OF m(7)])
  have "decoderKnown (ZeSubscribe (3, False)) ?k1"
    unfolding k1 by (simp add: decoderKnown_def ZS_getDecoder_def Z21_Server_sample_def)
  moreover have "sv_posted ?k1 = ZeSubscribe (3, False) # [ZeGetLocoInfo 3 False 7]" unfolding k1 by simp
  ultimately have 2: "server_step known ?k1 ?k2" by (intro server_closure)
  have 3: "server_step known ?k2 (ZS_runClosure [] (ZeGetLocoInfo 3 False 7) (?k2\<lparr>sv_posted := []\<rparr>))"
  proof (rule server_closure)
    show "sv_posted ?k2 = ZeGetLocoInfo 3 False 7 # []" unfolding k2 by simp
  qed (simp add: decoderKnown_def)
  have "ZS_runClosure [] (ZeGetLocoInfo 3 False 7) (?k2\<lparr>sv_posted := []\<rparr>) = Z21_Server_subscribed"
    unfolding k2 Z21_Server_subscribed_def by (simp add: Z21_Server_sample_def)
  with 1 2 3 have "(server_step known)\<^sup>*\<^sup>* Z21_Server_sample Z21_Server_subscribed"
    by (metis (no_types) r_into_rtranclp rtranclp_trans)
  then show ?thesis using server_reachable_def Z21_Server_init_def
    by (intro server_reachable_def [THEN iffD2] exI [of _ Z21_Server_sample]) (simp add: Z21_Server_init_def Z21_Server_sample_def)
qed

text \<open>
  C8. Subscriptions are counted right: in every run of a server in which no client says good-bye, once
  the closures that wait have run, the count of each locomotive is never more than the number of clients
  subscribed to it, and exactly that number when each subscription found its decoder as it ran; what is
  counted is counted at least once; and no client has more than sixteen subscriptions or the same one
  twice.
\<close>

theorem z21_subscriptions:
  assumes "server_reachable known k" and "sv_posted k = []"
  shows "(let count = (case sv_subscriptions k key of None \<Rightarrow> 0 | Some (i, n) \<Rightarrow> n);
        clients = length (filter (\<lambda>(i, c). key \<in> set (cl_subscriptions c)) (sv_clients k))
      in count \<le> clients \<and> (known \<longrightarrow> count = clients) \<and> (sv_subscriptions k key \<noteq> None \<longrightarrow> 0 < count)) \<and>
    list_all (\<lambda>(i, c). distinct (cl_subscriptions c) \<and> length (cl_subscriptions c) \<le> 16) (sv_clients k)"
proof -
  have o: "subscriptionsOk known k" by (rule server_reachable_ok [OF assms(1)])
  then have "clientsOk k" "countsOk k" by (simp_all add: subscriptionsOk_def)
  moreover from this(2) have "sv_subscriptions k key \<noteq> None \<Longrightarrow> 0 < subscriptionCount key k"
    by (cases key; cases "sv_subscriptions k key") (auto simp: countsOk_def subscriptionCount_def)
  ultimately show ?thesis
    using balancedD [OF o, of key] assms(2)
    by (auto simp: settledCount_def subscriptionCount_def subscribers_def countBy_def clientsOk_def clientOk_def
        counted_def Let_def list_all_iff)
qed

theorem z21_subscriptions_witness:
  "case sv_subscriptions Z21_Server_subscribed (3, False) of None \<Rightarrow> False | Some (i, n) \<Rightarrow> n = 1"
proof -
  have c: "sv_clients Z21_Server_subscribed =
      [(7, \<lparr>cl_lastSeen = 0, cl_broadcastFlags = 0, cl_subscriptions = [(3, False)]\<rparr>)]"
    by (simp add: Z21_Server_subscribed_def Z21_Server_sample_def ZS_post_def split: option.split)
  have "server_reachable True Z21_Server_subscribed" by (rule subscribed_reachable)
  from z21_subscriptions [OF this subscribed_fields(1), of "(3, False)"] show ?thesis
    by (auto simp: c Let_def split: option.splits)
qed

text \<open>
  A client that logs off leaves its subscriptions behind: the client is forgotten, but the count of
  each locomotive it was subscribed to stays one too high, so its subscription is never given up.
\<close>

theorem z21_logoff_leaks:
  fixes k :: Z21_Server and m :: bytes and i :: nat and key :: LocoKey and now :: int and u :: u8
  assumes "server_reachable True k" and "sv_posted k = []" and "\<not> sv_debugLogRXTX (sv_config k)"
    and "Z21_header m = LAN_LOGOFF" and "Z21_msgEq m LanLogoff"
    and "key \<in> set (cl_subscriptions (ZS_client i k))"
  defines "k' \<equiv> ZS_receiveFrom now m i u k"
  shows "sv_posted k' = [] \<and> map_of (sv_clients k') i = None \<and>
    (case sv_subscriptions k' key of None \<Rightarrow> 0 | Some (j, n) \<Rightarrow> n) =
      Suc (length (filter (\<lambda>(i, c). key \<in> set (cl_subscriptions c)) (sv_clients k')))"
proof -
  have l: "Z21_isLogoff m" using assms(4,5) by (simp add: Z21_isLogoff_def)
  note r = logoff_leaks [OF server_reachable_ok [OF assms(1)] l assms(3,6,2), of now u, folded k'_def]
  have "map_of (sv_clients k') i = None"
    using assms(3-5) by (simp add: k'_def ZS_receiveFrom_def ZS_dispatch_def Let_def AList.delete_conv')
  then show ?thesis using r by (simp add: subscriptionCount_def subscribers_def countBy_def)
qed

theorem z21_logoff_leaks_witness:
  "map_of (sv_clients (ZS_receiveFrom 0 LanLogoff 7 0 Z21_Server_subscribed)) 7 = None \<and>
    (case sv_subscriptions (ZS_receiveFrom 0 LanLogoff 7 0 Z21_Server_subscribed) (3, False) of
       None \<Rightarrow> False | Some (i, n) \<Rightarrow> n = 1)"
proof -
  have m: "Z21_header LanLogoff = LAN_LOGOFF" "Z21_msgEq LanLogoff LanLogoff" by code_simp+
  note l = z21_logoff_leaks [OF subscribed_reachable subscribed_fields(1,2) m, of "(3, False)" 7 0 0, unfolded subscribed_fields(3)]
  have "sv_clients (ZS_receiveFrom 0 LanLogoff 7 0 Z21_Server_subscribed) = []"
    by (simp add: ZS_receiveFrom_def ZS_dispatch_def Let_def m subscribed_fields(2) ZS_setClient_def)
      (simp add: Z21_Server_subscribed_def Z21_Server_sample_def ZS_post_def split: option.split)
  with l show ?thesis by (auto split: option.splits)
qed

section \<open>Datagrams\<close>

text \<open>
  A datagram that holds whole messages gives the kernel exactly these messages, in order, whatever
  the buffer holds behind it; and a message sent to the client a datagram came from goes to the
  endpoint it came from, since each client number has one endpoint and each endpoint one number.
\<close>

theorem udp_datagrams:
  assumes "list_all Z21_framed ms" and "udp_server_inv h"
  shows "map Z21_whole (fst (udp_loop s (concat ms))) = ms \<and> \<not> snd (udp_loop s (concat ms)) \<and>
    (let r = udp_server_client e h in
     udp_server_inv (snd r) \<and> udp_server_inv (udp_server_purgeClient i h) \<and>
     (\<forall>m. udp_server_sendTo m (fst r) (snd r) = Some (Z21_whole m, e)))"
  using udp_loop_messages [OF assms(1)] udp_server_client_inv [OF assms(2)] udp_server_purge_inv [OF assms(2)]
    udp_server_client_answer [OF assms(2)]
  by (simp add: Let_def)

theorem udp_datagrams_witness:
  "map Z21_whole (fst (udp_loop [0xFF] (LanXSetStop @ LanLogoff))) = [LanXSetStop, LanLogoff] \<and>
    udp_server_sendTo LanLogoff (fst (udp_server_client (5 :: nat) udp_server_init))
      (snd (udp_server_client (5 :: nat) udp_server_init)) = Some (Z21_whole LanLogoff, 5)"
proof -
  have "list_all Z21_framed [LanXSetStop, LanLogoff]" using fixed_valid(3,8) by (simp add: Z21_valid_def)
  from udp_datagrams [OF this udp_server_inv_init, of "[0xFF]" "5 :: nat" 0] show ?thesis by (simp add: Let_def)
qed

text \<open>
  LocoNet messages that a Z21 sends in one datagram reach the LocoNet kernel, all of them and in
  order; the messages the handler sent itself come back to the kernel as their echoes; but a message that
  announces no bytes at all keeps the handler in its loop for ever.
\<close>

theorem lnz21_tunnel:
  assumes "list_all (\<lambda>m. framed m \<and> isValid m) ms"
    and "h = LAN_LOCONET_Z21_RX \<or> h = LAN_LOCONET_Z21_TX \<or> h = LAN_LOCONET_FROM_LAN"
    and "0 < length p" and "Z21_dataLen (p @ s) = 0"
  shows "(\<exists>ls. lnz21_loop s (concat (map (lnz21_wrap h) ms)) = Some (ls, False) \<and>
      map (\<lambda>l. take (msg_size l) l) ls = ms) \<and>
    (\<exists>ls. lnz21_echo (length (concat (map (lnz21_wrap LAN_LOCONET_FROM_LAN) ms)))
        (concat (map (lnz21_wrap LAN_LOCONET_FROM_LAN) ms) @ s) = Some ls \<and>
      map (\<lambda>l. take (msg_size l) l) ls = ms) \<and>
    lnz21_loop s p = None"
proof -
  have "list_all framed ms" using assms(1) by (auto simp: list_all_iff)
  then show ?thesis
    using lnz21_loop_wrapped [OF assms(1,2), of s] lnz21_echo_wrapped [of ms s] lnz21_loop_stuck [OF assms(3,4)] by blast
qed

theorem lnz21_tunnel_witness:
  "lnz21_loop [0, 0, 0] [0, 0, 0, 0] = None"
  using lnz21_tunnel [of "[]" LAN_LOCONET_Z21_RX "[0, 0, 0, 0]" "[0, 0, 0]"]
  by (simp add: Z21_dataLen_def Z21_le16_def to16_def)

section \<open>Messages\<close>

text \<open>
  Three accessors do not read what their constructors wrote: \<^verbatim>\<open>activate\<close> of a turnout command gives
  the queue flag, the address of an extended accessory comes back six higher, and the two bytes of a
  transponder's address come back swapped.
\<close>

theorem z21_accessor_faults:
  "LanXSetTurnout_activate (LanXSetTurnout address port activate queue) = queue \<and>
   LanXExtAccessory_address (LanXSetExtAccessory_aspect address aspect) = address + 6 \<and>
   LanLocoNetDetector_transponderAddress (LanLocoNetDetectorTransponder ty fa ta) =
     push_bit 8 ta OR drop_bit 8 ta"
proof (intro conjI)
  show "LanXSetTurnout_activate (LanXSetTurnout address port activate queue) = queue"
    by (simp add: LanXSetTurnout_activate_def LanXSetTurnout_def Let_def LanX_updateChecksum_def LanX_updateChecksumLen_def
        flag_simps)
  have "to16 (low8 v) (high8 v) = v" for v :: u16
    by (rule u16_eqI) (simp_all add: to16_def low8_def high8_def bit_simps)
  then show "LanXExtAccessory_address (LanXSetExtAccessory_aspect address aspect) = address + 6"
    by (simp add: LanXExtAccessory_address_def LanXSetExtAccessory_aspect_def LanX_updateChecksum_def
        LanX_updateChecksumLen_def)
  show "LanLocoNetDetector_transponderAddress (LanLocoNetDetectorTransponder ty fa ta) = push_bit 8 ta OR drop_bit 8 ta"
    by (rule u16_eqI)
      (simp_all add: LanLocoNetDetector_transponderAddress_def LanLocoNetDetectorTransponder_def LanLocoNetDetector_def
        nth_append bit_simps)
qed

end
