(* ===== verification/Net_Message.thy ===== *)
theory Net_Message
  imports Prelude "HOL-Library.Monad_Syntax"
begin

text \<open>
  The messages between server and client, \<^verbatim>\<open>src/shared/src/traintastic/network/message.hpp\<close>: a buffer
  with a header of eight bytes, values written behind each other, and nested blocks whose size stands
  before them.  A read behind the end of the buffer, which the code does not check, and a failed
  assertion are \<open>None\<close>.  The byte order is that of a little-endian machine, the code copies memory.
\<close>

section \<open>Words as bytes\<close>

definition leBytes :: "'a::len word \<Rightarrow> bytes" where
  "leBytes w = map (\<lambda>i. ucast (drop_bit (8 * i) w)) [0..<LENGTH('a) div 8]"

definition leWord :: "bytes \<Rightarrow> 'a::len word" where
  "leWord bs = foldr (\<lambda>b w. ucast b OR push_bit 8 w) bs 0"

lemma length_leBytes [simp]: "length (leBytes (w :: 'a::len word)) = LENGTH('a) div 8"
  by (simp add: leBytes_def)

lemma bit_leWord:
  "bit (leWord bs :: 'a::len word) i \<longleftrightarrow> i < LENGTH('a) \<and> i < 8 * length bs \<and> bit (bs ! (i div 8)) (i mod 8)"
proof (induction bs arbitrary: i)
  case Nil
  then show ?case by (simp add: leWord_def)
next
  case (Cons b bs)
  have "bit (leWord (b # bs) :: 'a word) i \<longleftrightarrow>
      i < LENGTH('a) \<and> (bit b i \<or> 8 \<le> i \<and> bit (leWord bs :: 'a word) (i - 8))"
    by (auto simp: leWord_def bit_simps)
  also have "\<dots> \<longleftrightarrow> i < LENGTH('a) \<and> i < 8 * length (b # bs) \<and> bit ((b # bs) ! (i div 8)) (i mod 8)"
  proof (cases "i < 8")
    case True
    then show ?thesis by auto
  next
    case False
    then obtain j where j: "i = j + 8" by (metis add.commute le_add_diff_inverse not_less)
    then have "\<not> bit b i" by (simp add: bit_beyond)
    moreover have "i div 8 = Suc (j div 8)" "i mod 8 = j mod 8" using j by simp_all
    ultimately show ?thesis using j by (auto simp: Cons.IH)
  qed
  finally show ?case .
qed

lemma leWord_leBytes [simp]:
  assumes "LENGTH('a::len) mod 8 = 0"
  shows "leWord (leBytes (w :: 'a word)) = w"
proof (rule bit_word_eqI)
  fix n assume n: "n < LENGTH('a)"
  then have "n div 8 < LENGTH('a) div 8" using assms by (metis div_less_iff_less_mult div_mult_mod_eq add_0_right mult.commute zero_less_numeral)
  moreover from this have "n < 8 * (LENGTH('a) div 8)" by (simp add: div_less_iff_less_mult mult.commute)
  ultimately show "bit (leWord (leBytes w) :: 'a word) n = bit w n"
    using n by (simp add: bit_leWord leBytes_def bit_simps)
qed

section \<open>The buffer\<close>

record NetMessage =
  nm_data :: bytes
  nm_readPosition :: u32
  nm_block :: "u32 list"

definition nm_command :: "NetMessage \<Rightarrow> u8" where "nm_command m = nm_data m ! 0"
definition nm_isError :: "NetMessage \<Rightarrow> bool" where "nm_isError m = testFlag (nm_data m ! 1) 0x20"
definition nm_type :: "NetMessage \<Rightarrow> u8" where "nm_type m = drop_bit 6 (nm_data m ! 1)"
definition nm_requestId :: "NetMessage \<Rightarrow> u16" where "nm_requestId m = leWord (take 2 (drop 2 (nm_data m)))"
definition nm_dataSize :: "NetMessage \<Rightarrow> u32" where "nm_dataSize m = leWord (take 4 (drop 4 (nm_data m)))"

definition nm_updateDataSize :: "NetMessage \<Rightarrow> NetMessage" where
  "nm_updateDataSize m =
    m\<lparr>nm_data := take 4 (nm_data m) @ leBytes (of_nat (length (nm_data m) - 8) :: u32) @ drop 8 (nm_data m)\<rparr>"

text \<open>\<^verbatim>\<open>Message(command, type, requestId)\<close>, and \<^verbatim>\<open>Message(header)\<close> with the data filled in.\<close>

definition nm_new :: "u8 \<Rightarrow> u8 \<Rightarrow> u16 \<Rightarrow> NetMessage" where
  "nm_new command type requestId =
    \<lparr>nm_data = [command, push_bit 6 type] @ leBytes requestId @ leBytes (0 :: u32),
     nm_readPosition = 0, nm_block = []\<rparr>"

definition nm_received :: "bytes \<Rightarrow> NetMessage" where
  "nm_received bs = \<lparr>nm_data = bs, nm_readPosition = 0, nm_block = []\<rparr>"

definition nm_setError :: "NetMessage \<Rightarrow> NetMessage" where
  "nm_setError m = m\<lparr>nm_data := (nm_data m)[1 := nm_data m ! 1 OR 0x20]\<rparr>"

section \<open>Writing\<close>

text \<open>Every write appends bytes and updates the size in the header.\<close>

definition nm_append :: "bytes \<Rightarrow> NetMessage \<Rightarrow> NetMessage" where
  "nm_append bs m = nm_updateDataSize (m\<lparr>nm_data := nm_data m @ bs\<rparr>)"

definition nm_write :: "'a::len word \<Rightarrow> NetMessage \<Rightarrow> NetMessage" where
  "nm_write v m = nm_append (leBytes v) m"

definition nm_writeBool :: "bool \<Rightarrow> NetMessage \<Rightarrow> NetMessage" where
  "nm_writeBool v m = nm_append [if v then 1 else 0] m"

definition nm_writeString :: "bytes \<Rightarrow> NetMessage \<Rightarrow> NetMessage" where
  "nm_writeString s m = nm_append (leBytes (of_nat (length s) :: u32) @ s) m"

definition nm_writeStrings :: "bytes list \<Rightarrow> NetMessage \<Rightarrow> NetMessage" where
  "nm_writeStrings ss m = fold nm_writeString ss (nm_write (of_nat (length ss) :: u32) m)"

text \<open>The number of bytes copied is a \<^verbatim>\<open>Length\<close> as well.\<close>

definition nm_writeVector :: "'a::len word list \<Rightarrow> NetMessage \<Rightarrow> NetMessage" where
  "nm_writeVector vs m =
    (let dataSize = of_nat (length vs * (LENGTH('a) div 8)) :: u32
     in nm_append (take (unat dataSize) (concat (map leBytes vs))) (nm_write (of_nat (length vs) :: u32) m))"

definition nm_writeBlock :: "NetMessage \<Rightarrow> NetMessage" where
  "nm_writeBlock m =
    (let m = nm_write (0 :: u32) m in m\<lparr>nm_block := nm_dataSize m # nm_block m\<rparr>)"

definition nm_writeBlockEnd :: "NetMessage \<Rightarrow> NetMessage option" where
  "nm_writeBlockEnd m =
    (case nm_block m of
       [] \<Rightarrow> None
     | b # bs \<Rightarrow>
         let blockSize = nm_dataSize m - b; i = 8 + unat b - 4
         in Some (m\<lparr>nm_data := take i (nm_data m) @ leBytes blockSize @ drop (i + 4) (nm_data m), nm_block := bs\<rparr>))"

text \<open>A writer's loop.\<close>

fun nm_each :: "('v \<Rightarrow> NetMessage \<Rightarrow> NetMessage option) \<Rightarrow> 'v list \<Rightarrow> NetMessage \<Rightarrow> NetMessage option" where
  "nm_each put [] m = Some m"
| "nm_each put (v # vs) m = do { m \<leftarrow> put v m; nm_each put vs m }"

text \<open>The three forms of \<^verbatim>\<open>newErrorResponse\<close>.\<close>

definition nm_newErrorResponse :: "u8 \<Rightarrow> u16 \<Rightarrow> u32 \<Rightarrow> bytes list \<Rightarrow> NetMessage" where
  "nm_newErrorResponse command requestId code args =
    nm_writeStrings args (nm_write code (nm_setError (nm_new command 2 requestId)))"

section \<open>Reading\<close>

definition nm_current :: "NetMessage \<Rightarrow> bytes" where
  "nm_current m = drop (8 + unat (nm_readPosition m)) (nm_data m)"

definition nm_advance :: "nat \<Rightarrow> NetMessage \<Rightarrow> NetMessage" where
  "nm_advance n m = m\<lparr>nm_readPosition := nm_readPosition m + of_nat n\<rparr>"

definition nm_take :: "nat \<Rightarrow> NetMessage \<Rightarrow> (bytes \<times> NetMessage) option" where
  "nm_take n m =
    (if n \<le> length (nm_current m) then Some (take n (nm_current m), nm_advance n m) else None)"

definition nm_read :: "NetMessage \<Rightarrow> ('a::len word \<times> NetMessage) option" where
  "nm_read m = do { (bs, m) \<leftarrow> nm_take (LENGTH('a) div 8) m; Some (leWord bs, m) }"

definition nm_readBool :: "NetMessage \<Rightarrow> (bool \<times> NetMessage) option" where
  "nm_readBool m = do { (bs, m) \<leftarrow> nm_take 1 m; Some (bs ! 0 \<noteq> 0, m) }"

definition nm_readString :: "NetMessage \<Rightarrow> (bytes \<times> NetMessage) option" where
  "nm_readString m = do { (length :: u32, m) \<leftarrow> nm_read m; nm_take (unat length) m }"

definition nm_readVector :: "NetMessage \<Rightarrow> ('a::len word list \<times> NetMessage) option" where
  "nm_readVector m = do {
     (length :: u32, m) \<leftarrow> nm_read m;
     (bs, m) \<leftarrow> nm_take (unat length * (LENGTH('a) div 8)) m;
     Some (map (\<lambda>i. leWord (take (LENGTH('a) div 8) (drop (i * (LENGTH('a) div 8)) bs))) [0..<unat length], m) }"

definition nm_endOfBlock :: "NetMessage \<Rightarrow> bool option" where
  "nm_endOfBlock m = (case nm_block m of [] \<Rightarrow> None | b # bs \<Rightarrow> Some (nm_readPosition m = b))"

definition nm_endOfMessage :: "NetMessage \<Rightarrow> bool" where
  "nm_endOfMessage m \<longleftrightarrow> nm_readPosition m = nm_dataSize m"

definition nm_readBlock :: "NetMessage \<Rightarrow> (u32 \<times> NetMessage) option" where
  "nm_readBlock m = do {
     (blockSize :: u32, m) \<leftarrow> nm_read m;
     Some (blockSize, m\<lparr>nm_block := (nm_readPosition m + blockSize) # nm_block m\<rparr>) }"

definition nm_readBlockEnd :: "NetMessage \<Rightarrow> NetMessage option" where
  "nm_readBlockEnd m =
    (case nm_block m of
       [] \<Rightarrow> None
     | b # bs \<Rightarrow> if nm_readPosition m \<le> b then Some (m\<lparr>nm_readPosition := b, nm_block := bs\<rparr>) else None)"

text \<open>The readers' loops: a number of values, and values up to the end of the block.\<close>

fun nm_repeat :: "nat \<Rightarrow> (NetMessage \<Rightarrow> ('v \<times> NetMessage) option) \<Rightarrow> NetMessage \<Rightarrow> ('v list \<times> NetMessage) option" where
  "nm_repeat 0 get m = Some ([], m)"
| "nm_repeat (Suc n) get m = do { (v, m) \<leftarrow> get m; (vs, m) \<leftarrow> nm_repeat n get m; Some (v # vs, m) }"

partial_function (option) nm_whileBlock ::
  "(NetMessage \<Rightarrow> ('v \<times> NetMessage) option) \<Rightarrow> NetMessage \<Rightarrow> ('v list \<times> NetMessage) option" where
  "nm_whileBlock get m = do {
     e \<leftarrow> nm_endOfBlock m;
     if e then Some ([], m)
     else do { (v, m) \<leftarrow> get m; (vs, m) \<leftarrow> nm_whileBlock get m; Some (v # vs, m) } }"

end
