(* ===== verification/Net_Codec.thy ===== *)
theory Net_Codec
  imports Net_Message
begin

text \<open>
  What is written is read back.  A writer \<open>appends\<close> bytes when it adds them behind the buffer and
  keeps the header's size right; a reader \<open>takes\<close> bytes when it turns them into a value and moves
  behind them.  The locale \<open>net_codec\<close> is the contract of a writer and a reader of one kind of value, \<open>view\<close> is what
  the reader makes of the value; it
  gives the contract for lists and for the loop over a block.
\<close>

section \<open>Buffers within bounds\<close>

definition sized :: "NetMessage \<Rightarrow> bool" where
  "sized m \<longleftrightarrow> 8 \<le> length (nm_data m) \<and> length (nm_data m) - 8 < 2 ^ 32 \<and>
     nm_dataSize m = of_nat (length (nm_data m) - 8)"

lemma length_append: "8 \<le> length (nm_data m) \<Longrightarrow> length (nm_data (nm_append bs m)) = length (nm_data m) + length bs"
  by (simp add: nm_append_def nm_updateDataSize_def)

lemma append_fields [simp]:
  "nm_readPosition (nm_append bs m) = nm_readPosition m" "nm_block (nm_append bs m) = nm_block m"
  by (simp_all add: nm_append_def nm_updateDataSize_def)

lemma append_data:
  assumes "8 \<le> length (nm_data m)"
  shows "drop 8 (nm_data (nm_append bs m)) = drop 8 (nm_data m) @ bs"
    and "take 4 (nm_data (nm_append bs m)) = take 4 (nm_data m)"
  using assms by (simp_all add: nm_append_def nm_updateDataSize_def)

lemma dataSize_append:
  "8 \<le> length (nm_data m) \<Longrightarrow> nm_dataSize (nm_append bs m) = of_nat (length (nm_data m) - 8 + length bs)"
  by (simp add: nm_dataSize_def nm_append_def nm_updateDataSize_def)

lemma sized_append: "sized m \<Longrightarrow> length (nm_data m) - 8 + length bs < 2 ^ 32 \<Longrightarrow> sized (nm_append bs m)"
  by (simp add: sized_def length_append dataSize_append)

lemma append_append: "8 \<le> length (nm_data m) \<Longrightarrow> nm_append b (nm_append a m) = nm_append (a @ b) m"
  by (simp add: nm_append_def nm_updateDataSize_def)

lemma append_Nil: "sized m \<Longrightarrow> nm_append [] m = m"
proof -
  assume s: "sized m"
  have "leBytes (nm_dataSize m) = take 4 (drop 4 (nm_data m))"
    if "8 \<le> length (nm_data m)"
  proof -
    let ?b = "take 4 (drop 4 (nm_data m))"
    have l: "length ?b = 4" using that by simp
    show ?thesis
    proof (rule nth_equalityI)
      fix i assume "i < length (leBytes (nm_dataSize m))"
      then have i: "i < 4" by simp
      show "leBytes (nm_dataSize m) ! i = ?b ! i"
      proof (rule bit_word_eqI)
        fix n assume n: "n < LENGTH(8)"
        then have "8 * i + n < 32" "(8 * i + n) div 8 = i" "(8 * i + n) mod 8 = n" using i by auto
        then show "bit (leBytes (nm_dataSize m) ! i) n = bit (?b ! i) n"
          using i l n by (simp add: leBytes_def nm_dataSize_def bit_leWord bit_simps)
      qed
    qed (use l in simp)
  qed
  moreover have "take 4 (nm_data m) @ take 4 (drop 4 (nm_data m)) @ drop 8 (nm_data m) = nm_data m"
    using append_take_drop_id [of 4 "drop 4 (nm_data m)"] by (simp add: append_take_drop_id)
  ultimately show ?thesis
    using s by (simp add: sized_def nm_append_def nm_updateDataSize_def)
qed

section \<open>Writers and readers\<close>

definition appends :: "(NetMessage \<Rightarrow> NetMessage option) \<Rightarrow> bytes \<Rightarrow> bool" where
  "appends w bs \<longleftrightarrow>
    (\<forall>m. sized m \<longrightarrow> length (nm_data m) - 8 + length bs < 2 ^ 32 \<longrightarrow> w m = Some (nm_append bs m))"

definition inside :: "NetMessage \<Rightarrow> bool" where
  "inside m \<longleftrightarrow> 8 + unat (nm_readPosition m) \<le> length (nm_data m) \<and> length (nm_data m) - 8 < 2 ^ 32"

definition takes :: "(NetMessage \<Rightarrow> ('v \<times> NetMessage) option) \<Rightarrow> bytes \<Rightarrow> 'v \<Rightarrow> bool" where
  "takes r bs v \<longleftrightarrow>
    (\<forall>m rest. inside m \<longrightarrow> nm_current m = bs @ rest \<longrightarrow> r m = Some (v, nm_advance (length bs) m))"

lemma appendsD:
  "appends w bs \<Longrightarrow> sized m \<Longrightarrow> length (nm_data m) - 8 + length bs < 2 ^ 32 \<Longrightarrow> w m = Some (nm_append bs m)"
  by (simp add: appends_def)

lemma takesD:
  "takes r bs v \<Longrightarrow> inside m \<Longrightarrow> nm_current m = bs @ rest \<Longrightarrow> r m = Some (v, nm_advance (length bs) m)"
  by (simp add: takes_def)

lemma current_length: "inside m \<Longrightarrow> length (nm_data m) = 8 + unat (nm_readPosition m) + length (nm_current m)"
  by (simp add: inside_def nm_current_def)

lemma advance_position:
  assumes "inside m" "n \<le> length (nm_current m)"
  shows "unat (nm_readPosition (nm_advance n m)) = unat (nm_readPosition m) + n"
proof -
  have "unat (nm_readPosition m) + n < 2 ^ 32"
    using assms current_length [OF assms(1)] by (simp add: inside_def)
  then show ?thesis by (simp add: nm_advance_def unat_word_ariths unat_of_nat)
qed

lemma advance_fields [simp]:
  "nm_data (nm_advance n m) = nm_data m" "nm_block (nm_advance n m) = nm_block m"
  by (simp_all add: nm_advance_def)

lemma advance_inside:
  assumes "inside m" "n \<le> length (nm_current m)"
  shows "inside (nm_advance n m)" "nm_current (nm_advance n m) = drop n (nm_current m)"
proof -
  note p = advance_position [OF assms]
  show "inside (nm_advance n m)"
    using assms current_length [OF assms(1)] unfolding inside_def p by simp
  show "nm_current (nm_advance n m) = drop n (nm_current m)"
    unfolding nm_current_def p advance_fields drop_drop by (simp add: ac_simps)
qed

lemma advance_advance: "nm_advance b (nm_advance a m) = nm_advance (a + b) m"
  by (simp add: nm_advance_def)

lemma advance_0 [simp]: "nm_advance 0 m = m" by (simp add: nm_advance_def)

lemma takes_bind:
  assumes "takes r a v" and "takes (\<lambda>m. s v m) b w"
  shows "takes (\<lambda>m. do { (v, m) \<leftarrow> r m; s v m }) (a @ b) w"
  unfolding takes_def
proof (intro allI impI)
  fix m rest assume m: "inside m" "nm_current m = (a @ b) @ rest"
  have 1: "r m = Some (v, nm_advance (length a) m)" using takesD [OF assms(1) m(1), of "b @ rest"] m(2) by simp
  have 2: "inside (nm_advance (length a) m)" "nm_current (nm_advance (length a) m) = b @ rest"
    using advance_inside [OF m(1), of "length a"] m(2) by simp_all
  show "do { (v, m) \<leftarrow> r m; s v m } = Some (w, nm_advance (length (a @ b)) m)"
    using 1 takesD [OF assms(2) 2] by (simp add: advance_advance)
qed

lemma takes_return: "takes (\<lambda>m. Some (v, m)) [] v"
  by (simp add: takes_def)

lemma takes_map: "takes r a v \<Longrightarrow> takes (\<lambda>m. do { (v, m) \<leftarrow> r m; Some (f v, m) }) a (f v)"
  using takes_bind [of r a v "\<lambda>v m. Some (f v, m)" "[]" "f v"] by (simp add: takes_return)

lemma takes_take: "takes (nm_take (length bs)) bs bs"
  by (simp add: takes_def nm_take_def)

lemma appends_bind:
  assumes "appends w a" and "appends u b"
  shows "appends (\<lambda>m. Option.bind (w m) u) (a @ b)"
  unfolding appends_def
proof (intro allI impI)
  fix m assume m: "sized m" "length (nm_data m) - 8 + length (a @ b) < 2 ^ 32"
  have l: "8 \<le> length (nm_data m)" using m(1) by (simp add: sized_def)
  have 1: "w m = Some (nm_append a m)" using appendsD [OF assms(1) m(1)] m(2) by simp
  have "sized (nm_append a m)" using sized_append [OF m(1), of a] m(2) by simp
  then have "u (nm_append a m) = Some (nm_append b (nm_append a m))"
    using appendsD [OF assms(2)] m(2) l by (simp add: length_append)
  then show "Option.bind (w m) u = Some (nm_append (a @ b) m)" using 1 by (simp add: append_append l)
qed

lemma appends_return: "appends Some []"
  by (simp add: appends_def append_Nil)

section \<open>Values\<close>

lemma takes_read: "LENGTH('a) mod 8 = 0 \<Longrightarrow> takes nm_read (leBytes (v :: 'a::len word)) v"
  using takes_map [OF takes_take [of "leBytes v"], of "leWord :: bytes \<Rightarrow> 'a word"]
  by (simp only: nm_read_def [abs_def] length_leBytes leWord_leBytes)

lemma takes_readBool: "takes nm_readBool [if v then 1 else 0] v"
  using takes_map [OF takes_take [of "[if v then 1 else 0]"], of "\<lambda>bs. bs ! 0 \<noteq> 0"]
  by (cases v) (simp_all add: nm_readBool_def [abs_def])

lemma takes_readString:
  assumes "length s < 2 ^ 32"
  shows "takes nm_readString (leBytes (of_nat (length s) :: u32) @ s) s"
proof -
  have "unat (of_nat (length s) :: u32) = length s" using assms by (simp add: unat_of_nat)
  then show ?thesis
    using takes_bind [OF takes_read [of "of_nat (length s) :: u32"], of "\<lambda>n. nm_take (unat n)" s s] takes_take [of s]
    by (simp add: nm_readString_def [abs_def])
qed

lemma appends_write: "appends (\<lambda>m. Some (nm_write v m)) (leBytes v)"
  by (simp add: appends_def nm_write_def)

lemma appends_writeBool: "appends (\<lambda>m. Some (nm_writeBool v m)) [if v then 1 else 0]"
  by (simp add: appends_def nm_writeBool_def)

lemma appends_writeString: "appends (\<lambda>m. Some (nm_writeString s m)) (leBytes (of_nat (length s) :: u32) @ s)"
  by (simp add: appends_def nm_writeString_def)

section \<open>Blocks\<close>

definition nm_inBlock :: "(NetMessage \<Rightarrow> NetMessage option) \<Rightarrow> NetMessage \<Rightarrow> NetMessage option" where
  "nm_inBlock w m = do { m \<leftarrow> w (nm_writeBlock m); nm_writeBlockEnd m }"

definition nm_fromBlock :: "(NetMessage \<Rightarrow> ('v \<times> NetMessage) option) \<Rightarrow> NetMessage \<Rightarrow> ('v \<times> NetMessage) option" where
  "nm_fromBlock r m = do { (_, m) \<leftarrow> nm_readBlock m; (v, m) \<leftarrow> r m; m \<leftarrow> nm_readBlockEnd m; Some (v, m) }"

definition blockBytes :: "bytes \<Rightarrow> bytes" where
  "blockBytes bs = leBytes (of_nat (length bs) :: u32) @ bs"

lemma append_whole:
  "8 \<le> length (nm_data m) \<Longrightarrow> nm_append bs m =
    m\<lparr>nm_data := take 4 (nm_data m) @ leBytes (of_nat (length (nm_data m) - 8 + length bs) :: u32) @ drop 8 (nm_data m) @ bs\<rparr>"
  by (simp add: nm_append_def nm_updateDataSize_def)

lemma appends_inBlock:
  assumes "appends w bs"
  shows "appends (nm_inBlock w) (blockBytes bs)"
  unfolding appends_def
proof (intro allI impI)
  fix m assume m: "sized m" "length (nm_data m) - 8 + length (blockBytes bs) < 2 ^ 32"
  define L where "L = length (nm_data m) - 8"
  have l: "8 \<le> length (nm_data m)" and L: "length (nm_data m) = 8 + L" using m(1) by (simp_all add: sized_def L_def)
  have b: "L + 4 + length bs < 2 ^ 32" using m(2) by (simp add: blockBytes_def L_def)
  define m1 where "m1 = nm_writeBlock m"
  have d1: "nm_data m1 = take 4 (nm_data m) @ leBytes (of_nat (L + 4) :: u32) @ drop 8 (nm_data m) @ leBytes (0 :: u32)"
    by (simp add: m1_def nm_writeBlock_def nm_write_def Let_def append_whole [OF l] L_def)
  then have l1: "length (nm_data m1) = 12 + L" using L by simp
  have z1: "nm_dataSize m1 = of_nat (L + 4)" using L by (simp add: nm_dataSize_def d1)
  then have "sized m1" using l1 b by (simp add: sized_def)
  then have w: "w m1 = Some (nm_append bs m1)" using appendsD [OF assms] l1 b by simp
  define m2 where "m2 = nm_append bs m1"
  define K where "K = L + 4 + length bs"
  have d2: "nm_data m2 = take 4 (nm_data m) @ leBytes (of_nat K :: u32) @ drop 8 (nm_data m) @ leBytes (0 :: u32) @ bs"
  proof -
    have "length (nm_data m1) - 8 + length bs = K" "8 \<le> length (nm_data m1)" using l1 by (simp_all add: K_def)
    then show ?thesis using L unfolding m2_def by (simp add: append_whole) (simp add: d1)
  qed
  have s2: "nm_dataSize m2 = of_nat K" using L by (simp add: nm_dataSize_def d2)
  have k2: "nm_block m2 = of_nat (L + 4) # nm_block m"
    using z1 by (simp add: m2_def m1_def nm_writeBlock_def Let_def nm_write_def nm_dataSize_def)
  have u: "8 + unat (of_nat (L + 4) :: u32) - 4 = 8 + L" using b by (simp only: unat_of_nat) simp
  have z: "(of_nat K :: u32) - of_nat (L + 4) = of_nat (length bs)" by (simp add: K_def)
  have "nm_writeBlockEnd m2 = Some (m2\<lparr>nm_data := take 4 (nm_data m) @ leBytes (of_nat K :: u32) @
      drop 8 (nm_data m) @ blockBytes bs, nm_block := nm_block m\<rparr>)"
    unfolding nm_writeBlockEnd_def k2 Let_def list.case u s2 z d2 using L by (simp add: blockBytes_def)
  moreover have "m2\<lparr>nm_data := ds, nm_block := nm_block m\<rparr> = m\<lparr>nm_data := ds\<rparr>" for ds
    by (simp add: m2_def m1_def nm_append_def nm_updateDataSize_def nm_writeBlock_def nm_write_def Let_def)
  ultimately show "nm_inBlock w m = Some (nm_append (blockBytes bs) m)"
    using w unfolding nm_inBlock_def m1_def [symmetric] m2_def [symmetric]
    by (simp add: append_whole [OF l] L_def K_def blockBytes_def add.assoc)
qed

text \<open>The reader may leave a part of the block, \<open>readBlockEnd\<close> skips it.\<close>

lemma takes_fromBlock_at:
  assumes "inside m" and "nm_current m = blockBytes bs @ rest"
    and r: "r ((nm_advance 4 m)\<lparr>nm_block := (nm_readPosition m + of_nat (4 + length bs)) # nm_block m\<rparr>) =
      Some (v, nm_advance k ((nm_advance 4 m)\<lparr>nm_block := (nm_readPosition m + of_nat (4 + length bs)) # nm_block m\<rparr>))"
    and "k \<le> length bs"
  shows "nm_fromBlock r m = Some (v, nm_advance (length (blockBytes bs)) m)"
proof -
  let ?top = "nm_readPosition m + of_nat (4 + length bs)"
  have c: "length (nm_current m) = 4 + length bs + length rest" using assms(2) by (simp add: blockBytes_def)
  then have "length bs < 2 ^ 32" using current_length [OF assms(1)] assms(1) by (simp add: inside_def)
  then have n: "unat (of_nat (length bs) :: u32) = length bs" by (simp add: unat_of_nat)
  have 1: "nm_read m = Some (of_nat (length bs) :: u32, nm_advance 4 m)"
    using takesD [OF takes_read [of "of_nat (length bs) :: u32"] assms(1), of "bs @ rest"] assms(2)
    by (simp add: blockBytes_def)
  have 2: "nm_readBlock m = Some (of_nat (length bs), (nm_advance 4 m)\<lparr>nm_block := ?top # nm_block m\<rparr>)"
    using 1 by (simp add: nm_readBlock_def nm_advance_def add.assoc)
  have p: "unat (nm_readPosition (nm_advance j m)) = unat (nm_readPosition m) + j" if "j \<le> 4 + length bs" for j
    using advance_position [OF assms(1), of j] that c by simp
  have t: "nm_readPosition (nm_advance (4 + length bs) m) = ?top" by (simp add: nm_advance_def)
  have "nm_readPosition (nm_advance (4 + k) m) \<le> ?top"
    using p [of "4 + k"] p [of "4 + length bs"] assms(4) unfolding t by (simp add: word_le_nat_alt)
  then have "nm_readBlockEnd (nm_advance k ((nm_advance 4 m)\<lparr>nm_block := ?top # nm_block m\<rparr>)) =
      Some (nm_advance (4 + length bs) m)"
    by (simp add: nm_readBlockEnd_def nm_advance_def add.assoc)
  with r show ?thesis by (simp add: nm_fromBlock_def 2 blockBytes_def)
qed

lemma takes_fromBlock:
  assumes "takes r a v"
  shows "takes (nm_fromBlock r) (blockBytes (a @ b)) v"
  unfolding takes_def
proof (intro allI impI)
  fix m rest assume m: "inside m" "nm_current m = blockBytes (a @ b) @ rest"
  let ?m = "(nm_advance 4 m)\<lparr>nm_block := (nm_readPosition m + of_nat (4 + length (a @ b))) # nm_block m\<rparr>"
  have "inside (nm_advance 4 m)" "nm_current (nm_advance 4 m) = a @ b @ rest"
    using advance_inside [OF m(1), of 4] m(2) by (simp_all add: blockBytes_def)
  then have "inside ?m" "nm_current ?m = a @ b @ rest" by (simp_all add: inside_def nm_current_def)
  then have "r ?m = Some (v, nm_advance (length a) ?m)" using takesD [OF assms] by blast
  then show "nm_fromBlock r m = Some (v, nm_advance (length (blockBytes (a @ b))) m)"
    by (rule takes_fromBlock_at [OF m]) simp
qed

section \<open>One kind of value\<close>

locale net_codec =
  fixes put :: "'v \<Rightarrow> NetMessage \<Rightarrow> NetMessage option"
    and get :: "NetMessage \<Rightarrow> ('c \<times> NetMessage) option"
    and enc :: "'v \<Rightarrow> bytes"
    and ok :: "'v \<Rightarrow> bool"
    and view :: "'v \<Rightarrow> 'c"
  assumes put_appends: "ok v \<Longrightarrow> appends (put v) (enc v)"
    and get_takes: "ok v \<Longrightarrow> takes get (enc v) (view v)"
begin

lemma each_appends: "list_all ok vs \<Longrightarrow> appends (nm_each put vs) (concat (map enc vs))"
proof (induction vs)
  case Nil
  then show ?case using appends_return by (simp add: appends_def)
next
  case (Cons v vs)
  then show ?case using appends_bind [OF put_appends, of v "nm_each put vs"] by (simp add: appends_def)
qed

lemma repeat_takes: "list_all ok vs \<Longrightarrow> takes (nm_repeat (length vs) get) (concat (map enc vs)) (map view vs)"
proof (induction vs)
  case Nil
  then show ?case using takes_return by (simp add: takes_def)
next
  case (Cons v vs)
  then have "takes (nm_repeat (length vs) get) (concat (map enc vs)) (map view vs)" "ok v" by simp_all
  then have "takes (\<lambda>m. do { (ws, m) \<leftarrow> nm_repeat (length vs) get m; Some (view v # ws, m) })
      (concat (map enc vs)) (view v # map view vs)"
    by (intro takes_map)
  from takes_bind [OF get_takes [OF \<open>ok v\<close>], of "\<lambda>w m. do { (ws, m) \<leftarrow> nm_repeat (length vs) get m; Some (w # ws, m) }", OF this]
  show ?case by (simp add: takes_def)
qed

text \<open>The loop ends where the block ends, when every value has at least one byte.\<close>

lemma whileBlock_at:
  assumes "list_all (\<lambda>v. ok v \<and> enc v \<noteq> []) vs" and "inside m" and "nm_current m = concat (map enc vs) @ rest"
    and "nm_block m = (nm_readPosition m + of_nat (length (concat (map enc vs)))) # bl"
  shows "nm_whileBlock get m = Some (map view vs, nm_advance (length (concat (map enc vs))) m)"
  using assms
proof (induction vs arbitrary: m)
  case Nil
  then show ?case by (simp add: nm_whileBlock.simps nm_endOfBlock_def)
next
  case (Cons v vs)
  let ?n = "length (concat (map enc (v # vs)))"
  have ok: "ok v" "enc v \<noteq> []" "list_all (\<lambda>v. ok v \<and> enc v \<noteq> []) vs" using Cons.prems(1) by simp_all
  have c: "nm_current m = enc v @ concat (map enc vs) @ rest" using Cons.prems(3) by simp
  have g: "get m = Some (view v, nm_advance (length (enc v)) m)" by (rule takesD [OF get_takes [OF ok(1)] Cons.prems(2) c])
  have n: "0 < ?n" "?n \<le> length (nm_current m)" using ok(2) Cons.prems(3) by simp_all
  have p: "unat (nm_readPosition (nm_advance ?n m)) = unat (nm_readPosition m) + ?n"
    by (rule advance_position [OF Cons.prems(2) n(2)])
  have "nm_readPosition m \<noteq> nm_readPosition m + of_nat ?n"
  proof
    assume "nm_readPosition m = nm_readPosition m + of_nat ?n"
    then have "nm_readPosition (nm_advance ?n m) = nm_readPosition m" by (simp add: nm_advance_def)
    then show False using p n(1) by simp
  qed
  then have e: "nm_endOfBlock m = Some False" using Cons.prems(4) by (simp add: nm_endOfBlock_def)
  have i: "inside (nm_advance (length (enc v)) m)" "nm_current (nm_advance (length (enc v)) m) = concat (map enc vs) @ rest"
    using advance_inside [OF Cons.prems(2), of "length (enc v)"] c by simp_all
  have b: "nm_block (nm_advance (length (enc v)) m) =
      (nm_readPosition (nm_advance (length (enc v)) m) + of_nat (length (concat (map enc vs)))) # bl"
    using Cons.prems(4) by (simp add: nm_advance_def add.assoc)
  show ?case
    by (subst nm_whileBlock.simps) (simp add: e g Cons.IH [OF ok(3) i b] advance_advance)
qed

lemma block_takes:
  assumes "list_all (\<lambda>v. ok v \<and> enc v \<noteq> []) vs"
  shows "takes (nm_fromBlock (nm_whileBlock get)) (blockBytes (concat (map enc vs))) (map view vs)"
  unfolding takes_def
proof (intro allI impI)
  fix m rest assume m: "inside m" "nm_current m = blockBytes (concat (map enc vs)) @ rest"
  let ?bs = "concat (map enc vs)"
  let ?m = "(nm_advance 4 m)\<lparr>nm_block := (nm_readPosition m + of_nat (4 + length ?bs)) # nm_block m\<rparr>"
  have "inside (nm_advance 4 m)" "nm_current (nm_advance 4 m) = ?bs @ rest"
    using advance_inside [OF m(1), of 4] m(2) by (simp_all add: blockBytes_def)
  then have i: "inside ?m" "nm_current ?m = ?bs @ rest" by (simp_all add: inside_def nm_current_def)
  have b: "nm_block ?m = (nm_readPosition ?m + of_nat (length ?bs)) # nm_block m"
    by (simp add: nm_advance_def add.assoc)
  have "nm_whileBlock get ?m = Some (map view vs, nm_advance (length ?bs) ?m)" by (rule whileBlock_at [OF assms i b])
  then show "nm_fromBlock (nm_whileBlock get) m = Some (map view vs, nm_advance (length (blockBytes ?bs)) m)"
    by (rule takes_fromBlock_at [OF m]) simp
qed

lemma block_codec: "net_codec (\<lambda>v. nm_inBlock (put v)) (nm_fromBlock get) (\<lambda>v. blockBytes (enc v)) ok view"
proof
  fix v assume v: "ok v"
  show "appends (nm_inBlock (put v)) (blockBytes (enc v))" by (rule appends_inBlock [OF put_appends [OF v]])
  show "takes (nm_fromBlock get) (blockBytes (enc v)) (view v)"
    using takes_fromBlock [OF get_takes [OF v], of "[]"] by simp
qed

end

interpretation net_u32: net_codec "\<lambda>v m. Some (nm_write v m)" nm_read "leBytes :: u32 \<Rightarrow> bytes" "\<lambda>_. True" "\<lambda>v. v"
  by unfold_locales (rule appends_write, rule takes_read, simp)

interpretation net_u64: net_codec "\<lambda>v m. Some (nm_write v m)" nm_read "leBytes :: usize \<Rightarrow> bytes" "\<lambda>_. True" "\<lambda>v. v"
  by unfold_locales (rule appends_write, rule takes_read, simp)

interpretation net_u16: net_codec "\<lambda>v m. Some (nm_write v m)" nm_read "leBytes :: u16 \<Rightarrow> bytes" "\<lambda>_. True" "\<lambda>v. v"
  by unfold_locales (rule appends_write, rule takes_read, simp)

interpretation net_u8: net_codec "\<lambda>v m. Some (nm_write v m)" nm_read "leBytes :: u8 \<Rightarrow> bytes" "\<lambda>_. True" "\<lambda>v. v"
  by unfold_locales (rule appends_write, rule takes_read, simp)

definition boolBytes :: "bool \<Rightarrow> bytes" where "boolBytes v = [if v then 1 else 0]"
definition stringBytes :: "bytes \<Rightarrow> bytes" where "stringBytes s = leBytes (of_nat (length s) :: u32) @ s"

interpretation net_bool: net_codec "\<lambda>v m. Some (nm_writeBool v m)" nm_readBool boolBytes "\<lambda>_. True" "\<lambda>v. v"
  by unfold_locales (simp_all add: boolBytes_def appends_writeBool takes_readBool)

interpretation net_string: net_codec "\<lambda>s m. Some (nm_writeString s m)" nm_readString stringBytes "\<lambda>s. length s < 2 ^ 32" "\<lambda>s. s"
  by unfold_locales (simp_all only: stringBytes_def appends_writeString takes_readString)

end
