(* ===== verification/Net_Handles.thy ===== *)
theory Net_Handles
  imports Prelude
begin

text \<open>
  The handles by which a session names its objects to the client,
  \<^verbatim>\<open>src/server/src/network/handlelist.hpp\<close>.  Objects are numbers.  The counter of a handle says how often
  it was given out; \<open>Net_Release\<close> shows what for.
\<close>

record HandleList =
  hl_nextHandle :: u32
  hl_handleToItem :: "u32 \<Rightarrow> nat option"
  hl_itemToHandle :: "nat \<Rightarrow> u32 option"
  hl_handleCounter :: "u32 \<Rightarrow> u32 option"

abbreviation (input) invalidHandle :: u32 where "invalidHandle \<equiv> 0"

definition HandleList_init :: HandleList where
  "HandleList_init = \<lparr>hl_nextHandle = invalidHandle + 1, hl_handleToItem = Map.empty,
     hl_itemToHandle = Map.empty, hl_handleCounter = Map.empty\<rparr>"

definition hl_getItem :: "u32 \<Rightarrow> HandleList \<Rightarrow> nat option" where
  "hl_getItem h l = hl_handleToItem l h"

definition hl_getCounter :: "u32 \<Rightarrow> HandleList \<Rightarrow> u32" where
  "hl_getCounter h l = (case hl_handleCounter l h of Some n \<Rightarrow> n | None \<Rightarrow> 0)"

text \<open>\<^verbatim>\<open>m_handleCounter[h]++\<close>, which makes an entry when there is none, and \<^verbatim>\<open>emplace\<close>, which keeps one.\<close>

definition hl_count :: "u32 \<Rightarrow> HandleList \<Rightarrow> HandleList" where
  "hl_count h l = l\<lparr>hl_handleCounter := (hl_handleCounter l)(h \<mapsto> hl_getCounter h l + 1)\<rparr>"

definition hl_emplace :: "'k \<Rightarrow> 'v \<Rightarrow> ('k \<Rightarrow> 'v option) \<Rightarrow> 'k \<Rightarrow> 'v option" where
  "hl_emplace k v f = (if f k = None then f(k \<mapsto> v) else f)"

text \<open>An object the list does not have yet; \<open>None\<close> is the null pointer.\<close>

definition hl_addItem :: "nat option \<Rightarrow> HandleList \<Rightarrow> u32 \<times> HandleList" where
  "hl_addItem item l =
    (case item of
       None \<Rightarrow> (invalidHandle, l)
     | Some i \<Rightarrow>
         (case hl_itemToHandle l i of
            Some h \<Rightarrow> (h, hl_count h l)
          | None \<Rightarrow>
              let h = hl_nextHandle l; h2 = h + 1
              in (h, l\<lparr>hl_nextHandle := if h2 = invalidHandle then h2 + 1 else h2,
                    hl_handleToItem := hl_emplace h i (hl_handleToItem l),
                    hl_itemToHandle := hl_emplace i h (hl_itemToHandle l),
                    hl_handleCounter := hl_emplace h 1 (hl_handleCounter l)\<rparr>)))"

definition hl_getHandle :: "nat option \<Rightarrow> HandleList \<Rightarrow> u32 \<times> HandleList" where
  "hl_getHandle item l =
    (case item of
       None \<Rightarrow> (invalidHandle, l)
     | Some i \<Rightarrow>
         (case hl_itemToHandle l i of
            Some h \<Rightarrow> (h, hl_count h l)
          | None \<Rightarrow> (invalidHandle, l)))"

definition hl_removeHandle :: "u32 \<Rightarrow> HandleList \<Rightarrow> HandleList" where
  "hl_removeHandle h l =
    (case hl_handleToItem l h of
       None \<Rightarrow> l
     | Some i \<Rightarrow> l\<lparr>hl_itemToHandle := (hl_itemToHandle l)(i := None),
         hl_handleToItem := (hl_handleToItem l)(h := None),
         hl_handleCounter := (hl_handleCounter l)(h := None)\<rparr>)"

definition hl_removeItem :: "nat \<Rightarrow> HandleList \<Rightarrow> HandleList" where
  "hl_removeItem i l =
    (case hl_itemToHandle l i of
       None \<Rightarrow> l
     | Some h \<Rightarrow> l\<lparr>hl_itemToHandle := (hl_itemToHandle l)(i := None),
         hl_handleToItem := (hl_handleToItem l)(h := None),
         hl_handleCounter := (hl_handleCounter l)(h := None)\<rparr>)"

text \<open>\<^verbatim>\<open>clear\<close> leaves the counters.\<close>

definition hl_clear :: "HandleList \<Rightarrow> HandleList" where
  "hl_clear l = l\<lparr>hl_handleToItem := Map.empty, hl_itemToHandle := Map.empty\<rparr>"

section \<open>Invariant\<close>

text \<open>
  The two maps are inverse, every handle has a counter, and the handles given out so far are those
  from 1 below the next one, which is so while fewer than \<^verbatim>\<open>2\<^sup>32 - 1\<close> were given out.
\<close>

definition hl_inv :: "HandleList \<Rightarrow> bool" where
  "hl_inv l \<longleftrightarrow>
    (\<forall>h i. hl_handleToItem l h = Some i \<longleftrightarrow> hl_itemToHandle l i = Some h) \<and>
    (\<forall>h. hl_handleCounter l h = None \<longleftrightarrow> hl_handleToItem l h = None) \<and>
    (\<forall>h. hl_handleToItem l h \<noteq> None \<longrightarrow> 0 < h \<and> h < hl_nextHandle l) \<and> 0 < hl_nextHandle l"

lemma hl_invD:
  assumes "hl_inv l"
  shows "hl_handleToItem l h = Some i \<Longrightarrow> hl_itemToHandle l i = Some h"
    and "hl_itemToHandle l i = Some h \<Longrightarrow> hl_handleToItem l h = Some i"
    and "hl_handleCounter l h = None \<longleftrightarrow> hl_handleToItem l h = None"
    and "hl_handleToItem l h = Some i \<Longrightarrow> 0 < h \<and> h < hl_nextHandle l"
    and "0 < hl_nextHandle l"
    and "hl_nextHandle l \<le> h \<Longrightarrow> hl_handleToItem l h = None"
    and "hl_handleToItem l 0 = None"
proof -
  note i = assms [unfolded hl_inv_def]
  show "hl_handleToItem l h = Some i \<Longrightarrow> hl_itemToHandle l i = Some h"
    "hl_itemToHandle l i = Some h \<Longrightarrow> hl_handleToItem l h = Some i"
    "hl_handleCounter l h = None \<longleftrightarrow> hl_handleToItem l h = None"
    "hl_handleToItem l h = Some i \<Longrightarrow> 0 < h \<and> h < hl_nextHandle l" "0 < hl_nextHandle l"
    using i by (blast, blast, blast, fastforce, blast)
  show "hl_nextHandle l \<le> h \<Longrightarrow> hl_handleToItem l h = None" "hl_handleToItem l 0 = None"
    using i by (meson leD, blast)
qed

lemma hl_inv_init: "hl_inv HandleList_init"
  by (simp add: hl_inv_def HandleList_init_def)

lemma hl_inv_count: "hl_inv l \<Longrightarrow> hl_handleToItem l h = Some i \<Longrightarrow> hl_inv (hl_count h l)"
  unfolding hl_inv_def hl_count_def by (auto simp: fun_upd_def)

lemma hl_getHandle_inv: "hl_inv l \<Longrightarrow> hl_inv (snd (hl_getHandle item l))"
  by (auto simp: hl_getHandle_def hl_inv_count hl_invD(2) split: option.split)

lemma h2handle: "h + 1 \<noteq> (0 :: u32) \<Longrightarrow> h < h + 1"
  using unatSuc [of h] by (simp add: word_less_nat_alt add.commute)

lemma hl_addItem_inv:
  assumes "hl_inv l" and "hl_nextHandle l + 1 \<noteq> 0"
  shows "hl_inv (snd (hl_addItem item l))"
proof (cases "item \<noteq> None \<and> hl_itemToHandle l (the item) = None")
  case False
  then show ?thesis
    using assms by (auto simp: hl_addItem_def hl_inv_count hl_invD(2) split: option.split)
next
  case True
  then obtain i where i: "item = Some i" "hl_itemToHandle l i = None" by auto
  let ?h = "hl_nextHandle l"
  have n: "?h < ?h + 1" by (rule h2handle [OF assms(2)])
  have f: "hl_handleToItem l ?h = None" "hl_handleCounter l ?h = None" "0 < ?h"
    using hl_invD [OF assms(1)] by blast+
  have "hl_itemToHandle l j \<noteq> Some ?h" for j using hl_invD(2) [OF assms(1), of j ?h] f(1) by auto
  moreover have "hl_handleToItem l h \<noteq> Some i" for h using hl_invD(1) [OF assms(1), of h i] i(2) by auto
  moreover have "h < ?h + 1" if "h < ?h" for h using that n by simp
  ultimately show ?thesis
    using assms(1) i f n unfolding hl_inv_def
    by (simp add: hl_addItem_def hl_emplace_def Let_def assms(2))
qed

lemma hl_inv_remove:
  assumes "hl_inv l" and "hl_handleToItem l h = Some i"
  shows "hl_inv (l\<lparr>hl_itemToHandle := (hl_itemToHandle l)(i := None),
    hl_handleToItem := (hl_handleToItem l)(h := None), hl_handleCounter := (hl_handleCounter l)(h := None)\<rparr>)"
    (is "hl_inv ?l")
proof -
  have i: "hl_itemToHandle l i = Some h" by (rule hl_invD(1) [OF assms])
  have "hl_handleToItem ?l k = Some j \<longleftrightarrow> hl_itemToHandle ?l j = Some k" for j k
    using hl_invD(1) [OF assms(1), of k j] hl_invD(2) [OF assms(1), of j k] i assms(2) by auto
  moreover have "hl_handleCounter ?l k = None \<longleftrightarrow> hl_handleToItem ?l k = None" for k
    using hl_invD(3) [OF assms(1)] by simp
  moreover have "0 < k \<and> k < hl_nextHandle ?l" if "hl_handleToItem ?l k \<noteq> None" for k
    using hl_invD(4) [OF assms(1), of k] that by (auto split: if_splits)
  ultimately show ?thesis using hl_invD(5) [OF assms(1)] unfolding hl_inv_def by simp
qed

lemma hl_removeHandle_inv: "hl_inv l \<Longrightarrow> hl_inv (hl_removeHandle h l)"
  by (auto simp: hl_removeHandle_def hl_inv_remove split: option.split)

lemma hl_removeItem_inv: "hl_inv l \<Longrightarrow> hl_inv (hl_removeItem i l)"
  by (auto simp: hl_removeItem_def hl_inv_remove hl_invD(2) split: option.split)

end
