(* ===== verification/Net_Objects.thy ===== *)
theory Net_Objects
  imports Net_Codec Net_Handles
begin

text \<open>
  An object as the server writes it and the client reads it: \<^verbatim>\<open>Session::writeObject\<close> with its parts in
  \<^verbatim>\<open>src/server/src/network/session.cpp\<close> and \<^verbatim>\<open>Connection::readObject\<close> in
  \<^verbatim>\<open>src/client/src/network/connection.cpp\<close>.  Failed assertions and exceptions of the conversions are \<open>None\<close>.
  A \<^verbatim>\<open>QString\<close> is kept as the bytes it was decoded from.
\<close>

section \<open>Values\<close>

datatype ValueType =
  VT_Invalid | VT_Boolean | VT_Enum | VT_Integer | VT_Float | VT_String | VT_Object | VT_Set

fun valueTypeCode :: "ValueType \<Rightarrow> u8" where
  "valueTypeCode VT_Invalid = 0"
| "valueTypeCode VT_Boolean = 1"
| "valueTypeCode VT_Enum = 2"
| "valueTypeCode VT_Integer = 3"
| "valueTypeCode VT_Float = 4"
| "valueTypeCode VT_String = 5"
| "valueTypeCode VT_Object = 6"
| "valueTypeCode VT_Set = 7"

definition toValueType :: "u8 \<Rightarrow> ValueType option" where
  "toValueType b =
    (if b = 0 then Some VT_Invalid else if b = 1 then Some VT_Boolean else if b = 2 then Some VT_Enum
     else if b = 3 then Some VT_Integer else if b = 4 then Some VT_Float else if b = 5 then Some VT_String
     else if b = 6 then Some VT_Object else if b = 7 then Some VT_Set else None)"

lemma toValueType_code [simp]: "toValueType (valueTypeCode t) = Some t"
  by (cases t) (simp_all add: toValueType_def)

text \<open>The values a property has; an object is known by its id, a \<^verbatim>\<open>double\<close> by its bits.\<close>

datatype NetValue =
    BooleanValue bool
  | Int64Value usize
  | DoubleValue usize
  | StringValue bytes
  | ObjectValue "bytes option"

fun toBool :: "NetValue \<Rightarrow> bool option" where
  "toBool (BooleanValue b) = Some b" | "toBool _ = None"
fun toInt64 :: "NetValue \<Rightarrow> usize option" where
  "toInt64 (Int64Value i) = Some i" | "toInt64 _ = None"
fun toDouble :: "NetValue \<Rightarrow> usize option" where
  "toDouble (DoubleValue d) = Some d" | "toDouble _ = None"
fun toString :: "NetValue \<Rightarrow> bytes option" where
  "toString (StringValue s) = Some s" | "toString _ = None"
fun toObjectId :: "NetValue \<Rightarrow> bytes option" where
  "toObjectId (ObjectValue (Some s)) = Some s" | "toObjectId (ObjectValue None) = Some []" | "toObjectId _ = None"

section \<open>The server writes\<close>

definition writePropertyValue :: "ValueType \<Rightarrow> NetValue \<Rightarrow> NetMessage \<Rightarrow> NetMessage option" where
  "writePropertyValue t v m =
    (case t of
       VT_Boolean \<Rightarrow> do { b \<leftarrow> toBool v; Some (nm_writeBool b m) }
     | VT_Enum \<Rightarrow> do { i \<leftarrow> toInt64 v; Some (nm_write i m) }
     | VT_Integer \<Rightarrow> do { i \<leftarrow> toInt64 v; Some (nm_write i m) }
     | VT_Set \<Rightarrow> do { i \<leftarrow> toInt64 v; Some (nm_write i m) }
     | VT_Float \<Rightarrow> do { d \<leftarrow> toDouble v; Some (nm_write d m) }
     | VT_String \<Rightarrow> do { s \<leftarrow> toString v; Some (nm_writeString s m) }
     | VT_Object \<Rightarrow> do { s \<leftarrow> toObjectId v; Some (nm_writeString s m) }
     | VT_Invalid \<Rightarrow> None)"

definition writeVectorPropertyValue :: "ValueType \<Rightarrow> NetValue list \<Rightarrow> NetMessage \<Rightarrow> NetMessage option" where
  "writeVectorPropertyValue t vs m =
    do { m \<leftarrow> Some (nm_write (of_nat (length vs) :: u32) m);
         if t = VT_Invalid then None else nm_each (writePropertyValue t) vs m }"

text \<open>An attribute has one value or several; sets and objects are not among them.\<close>

datatype NetAttributeBody = AttrValue NetValue | AttrValues "NetValue list"

record NetAttribute =
  na_name :: u16
  na_type :: ValueType
  na_body :: NetAttributeBody

definition attributeType :: "ValueType \<Rightarrow> bool" where
  "attributeType t \<longleftrightarrow> t \<in> {VT_Boolean, VT_Enum, VT_Integer, VT_Float, VT_String}"

definition writeAttribute :: "NetAttribute \<Rightarrow> NetMessage \<Rightarrow> NetMessage option" where
  "writeAttribute a m =
    do { m \<leftarrow> Some (nm_write (na_name a) m);
         m \<leftarrow> Some (nm_write (valueTypeCode (na_type a)) m);
         case na_body a of
           AttrValue v \<Rightarrow>
             do { m \<leftarrow> Some (nm_write (1 :: u8) m);
                  if attributeType (na_type a) then writePropertyValue (na_type a) v m else None }
         | AttrValues vs \<Rightarrow>
             do { m \<leftarrow> Some (nm_write (2 :: u8) m);
                  m \<leftarrow> Some (nm_write (of_nat (length vs) :: u32) m);
                  if attributeType (na_type a) then nm_each (writePropertyValue (na_type a)) vs m else None } }"

definition writeTypeInfo :: "ValueType \<times> bytes \<Rightarrow> NetMessage \<Rightarrow> NetMessage option" where
  "writeTypeInfo ti m =
    do { m \<leftarrow> Some (nm_write (valueTypeCode (fst ti)) m);
         if fst ti = VT_Enum \<or> fst ti = VT_Set then Some (nm_writeString (snd ti) m) else Some m }"

text \<open>The items of an object's interface: flags, type, name of the enum or set, value.\<close>

datatype NetItemBody =
    PropertyItem u16 ValueType bytes NetValue
  | UnitPropertyItem u16 ValueType bytes NetValue bytes usize
  | VectorPropertyItem u16 ValueType bytes "NetValue list"
  | MethodItem ValueType "ValueType list"
  | EventItem "(ValueType \<times> bytes) list"

record NetItem =
  ni_name :: bytes
  ni_internal :: bool
  ni_body :: NetItemBody
  ni_attributes :: "NetAttribute list"

definition writeBaseProperty :: "u8 \<Rightarrow> u16 \<Rightarrow> ValueType \<Rightarrow> bytes \<Rightarrow> NetMessage \<Rightarrow> NetMessage option" where
  "writeBaseProperty itemType flags t enumOrSetName m =
    do { m \<leftarrow> Some (nm_write itemType m);
         m \<leftarrow> Some (nm_write flags m);
         writeTypeInfo (t, enumOrSetName) m }"

definition writeItemBody :: "NetItemBody \<Rightarrow> NetMessage \<Rightarrow> NetMessage option" where
  "writeItemBody b m =
    (case b of
       PropertyItem flags t name v \<Rightarrow>
         do { m \<leftarrow> writeBaseProperty 1 flags t name m; writePropertyValue t v m }
     | UnitPropertyItem flags t name v unitName unitValue \<Rightarrow>
         do { m \<leftarrow> writeBaseProperty 3 flags t name m;
              m \<leftarrow> writePropertyValue t v m;
              m \<leftarrow> Some (nm_writeString unitName m);
              Some (nm_write unitValue m) }
     | VectorPropertyItem flags t name vs \<Rightarrow>
         do { m \<leftarrow> writeBaseProperty 4 flags t name m; writeVectorPropertyValue t vs m }
     | MethodItem resultType argumentTypes \<Rightarrow>
         do { m \<leftarrow> Some (nm_write (2 :: u8) m);
              m \<leftarrow> Some (nm_write (valueTypeCode resultType) m);
              m \<leftarrow> Some (nm_write (of_nat (length argumentTypes) :: u8) m);
              nm_each (\<lambda>t m. Some (nm_write (valueTypeCode t) m)) argumentTypes m }
     | EventItem argumentTypeInfo \<Rightarrow>
         do { m \<leftarrow> Some (nm_write (5 :: u8) m);
              m \<leftarrow> Some (nm_write (of_nat (length argumentTypeInfo) :: u8) m);
              nm_each writeTypeInfo argumentTypeInfo m })"

definition writeItem :: "NetItem \<Rightarrow> NetMessage \<Rightarrow> NetMessage option" where
  "writeItem i =
    nm_inBlock (\<lambda>m. do {
      m \<leftarrow> Some (nm_writeString (ni_name i) m);
      m \<leftarrow> writeItemBody (ni_body i) m;
      nm_inBlock (nm_each (\<lambda>a. nm_inBlock (writeAttribute a)) (ni_attributes i)) m })"

section \<open>The client reads\<close>

datatype QString = fromUtf8 bytes | fromLatin1 bytes

datatype QVariant = QBool bool | QLongLong usize | QDouble usize | QText QString

definition readValueType :: "NetMessage \<Rightarrow> (ValueType \<times> NetMessage) option" where
  "readValueType m = do { (b :: u8, m) \<leftarrow> nm_read m; t \<leftarrow> toValueType b; Some (t, m) }"

definition readLatin1 :: "NetMessage \<Rightarrow> (QString \<times> NetMessage) option" where
  "readLatin1 m = do { (s, m) \<leftarrow> nm_readString m; Some (fromLatin1 s, m) }"

definition readUtf8 :: "NetMessage \<Rightarrow> (QString \<times> NetMessage) option" where
  "readUtf8 m = do { (s, m) \<leftarrow> nm_readString m; Some (fromUtf8 s, m) }"

definition readValue :: "ValueType \<Rightarrow> NetMessage \<Rightarrow> (QVariant \<times> NetMessage) option" where
  "readValue t m =
    (case t of
       VT_Boolean \<Rightarrow> do { (b, m) \<leftarrow> nm_readBool m; Some (QBool b, m) }
     | VT_Enum \<Rightarrow> do { (i, m) \<leftarrow> nm_read m; Some (QLongLong i, m) }
     | VT_Integer \<Rightarrow> do { (i, m) \<leftarrow> nm_read m; Some (QLongLong i, m) }
     | VT_Set \<Rightarrow> do { (i, m) \<leftarrow> nm_read m; Some (QLongLong i, m) }
     | VT_Float \<Rightarrow> do { (d, m) \<leftarrow> nm_read m; Some (QDouble d, m) }
     | VT_String \<Rightarrow> do { (s, m) \<leftarrow> readUtf8 m; Some (QText s, m) }
     | VT_Object \<Rightarrow> do { (s, m) \<leftarrow> readLatin1 m; Some (QText s, m) }
     | VT_Invalid \<Rightarrow> None)"

text \<open>A length is read as an \<^verbatim>\<open>int\<close>, which must not be negative.\<close>

definition readLength :: "NetMessage \<Rightarrow> (nat \<times> NetMessage) option" where
  "readLength m = do { (n :: u32, m) \<leftarrow> nm_read m; if sint n < 0 then None else Some (unat n, m) }"

definition readArray :: "ValueType \<Rightarrow> nat \<Rightarrow> NetMessage \<Rightarrow> (QVariant list \<times> NetMessage) option" where
  "readArray t n m =
    (if t = VT_Object \<or> t = VT_Invalid then (if n = 0 then Some ([], m) else None)
     else nm_repeat n (readValue t) m)"

definition readObjectIdArray :: "nat \<Rightarrow> NetMessage \<Rightarrow> (QString list \<times> NetMessage) option" where
  "readObjectIdArray n m = nm_repeat n readLatin1 m"

datatype ClientAttribute = CAttrValue QVariant | CAttrValues "QVariant list"

definition readAttribute :: "NetMessage \<Rightarrow> ((u16 \<times> ClientAttribute) \<times> NetMessage) option" where
  "readAttribute m =
    do { (name, m) \<leftarrow> nm_read m;
         (t, m) \<leftarrow> readValueType m;
         (k :: u8, m) \<leftarrow> nm_read m;
         if k = 1 then
           (if attributeType t then do { (v, m) \<leftarrow> readValue t m; Some ((name, CAttrValue v), m) } else None)
         else if k = 2 then
           do { (n, m) \<leftarrow> readLength m;
                (vs, m) \<leftarrow> readArray t n m;
                Some ((name, CAttrValues vs), m) }
         else None }"

datatype ClientItemBody =
    CProperty u16 ValueType "QString option" QVariant
  | CUnitProperty u16 ValueType QVariant QString usize
  | CObjectProperty u16 QVariant
  | CVectorProperty u16 ValueType "QString option" "QVariant list"
  | CObjectVectorProperty u16 "QString list"
  | CMethod ValueType "ValueType list"
  | CEvent "ValueType list"

record ClientItem =
  ci_name :: QString
  ci_body :: ClientItemBody
  ci_attributes :: "u16 \<Rightarrow> ClientAttribute option"

definition readEnumOrSetName :: "ValueType \<Rightarrow> NetMessage \<Rightarrow> (QString option \<times> NetMessage) option" where
  "readEnumOrSetName t m =
    (if t = VT_Enum \<or> t = VT_Set then do { (s, m) \<leftarrow> readLatin1 m; Some (Some s, m) } else Some (None, m))"

text \<open>\<^verbatim>\<open>PropertyFlags\<close>, \<^verbatim>\<open>ValueType\<close> and the name, with which all properties begin.\<close>

definition readBaseProperty :: "NetMessage \<Rightarrow> ((u16 \<times> ValueType \<times> QString option) \<times> NetMessage) option" where
  "readBaseProperty m =
    do { (flags, m) \<leftarrow> nm_read m;
         (t, m) \<leftarrow> readValueType m;
         (name, m) \<leftarrow> readEnumOrSetName t m;
         Some ((flags, t, name), m) }"

definition readEventArgument :: "NetMessage \<Rightarrow> (ValueType \<times> NetMessage) option" where
  "readEventArgument m =
    do { (t, m) \<leftarrow> readValueType m; (_, m) \<leftarrow> readEnumOrSetName t m; Some (t, m) }"

text \<open>An item of a type that the client does not know is skipped with its block.\<close>

definition readItemBody :: "NetMessage \<Rightarrow> (ClientItemBody option \<times> NetMessage) option" where
  "readItemBody m =
    do { (k :: u8, m) \<leftarrow> nm_read m;
         if k = 4 then
           do { ((flags, t, name), m) \<leftarrow> readBaseProperty m;
                (n, m) \<leftarrow> readLength m;
                if t = VT_Object then
                  do { (ids, m) \<leftarrow> readObjectIdArray n m; Some (Some (CObjectVectorProperty flags ids), m) }
                else
                  do { (vs, m) \<leftarrow> readArray t n m; Some (Some (CVectorProperty flags t name vs), m) } }
         else if k = 1 \<or> k = 3 then
           do { ((flags, t, name), m) \<leftarrow> readBaseProperty m;
                (v, m) \<leftarrow> readValue t m;
                if k = 3 then
                  do { (unitName, m) \<leftarrow> readLatin1 m;
                       (unitValue, m) \<leftarrow> nm_read m;
                       Some (Some (CUnitProperty flags t v unitName unitValue), m) }
                else Some (Some (if t = VT_Object then CObjectProperty flags v else CProperty flags t name v), m) }
         else if k = 2 then
           do { (resultType, m) \<leftarrow> readValueType m;
                (n :: u8, m) \<leftarrow> nm_read m;
                (argumentTypes, m) \<leftarrow> nm_repeat (unat n) readValueType m;
                Some (Some (CMethod resultType argumentTypes), m) }
         else if k = 5 then
           do { (n :: u8, m) \<leftarrow> nm_read m;
                (argumentTypes, m) \<leftarrow> nm_repeat (unat n) readEventArgument m;
                Some (Some (CEvent argumentTypes), m) }
         else Some (None, m) }"

definition readAttributes :: "NetMessage \<Rightarrow> ((u16 \<Rightarrow> ClientAttribute option) \<times> NetMessage) option" where
  "readAttributes m =
    do { (attrs, m) \<leftarrow> nm_fromBlock (nm_whileBlock (nm_fromBlock readAttribute)) m;
         Some (map_of (rev attrs), m) }"

definition readItem :: "NetMessage \<Rightarrow> (ClientItem option \<times> NetMessage) option" where
  "readItem =
    nm_fromBlock (\<lambda>m. do {
      (name, m) \<leftarrow> readLatin1 m;
      (body, m) \<leftarrow> readItemBody m;
      case body of
        None \<Rightarrow> Some (None, m)
      | Some b \<Rightarrow>
          do { (attrs, m) \<leftarrow> readAttributes m;
               Some (Some \<lparr>ci_name = name, ci_body = b, ci_attributes = attrs\<rparr>, m) } })"

section \<open>The session's objects\<close>

text \<open>
  What \<^verbatim>\<open>dynamic_cast\<close> asks for, the signals a session is connected to, and the session's handles.
\<close>

datatype ObjectKind = InputMonitorObject | BoardObject | OutputKeyboardObject | TableObject | OtherObject

datatype ObjectSignal =
    OnDestroying | PropertyChanged | AttributeChanged
  | InputIdChanged | InputValueChanged | TileDataChanged | OnEventFired

record NetObject =
  no_objectId :: bytes
  no_classId :: bytes
  no_kind :: ObjectKind
  no_items :: "NetItem list"

record NetSession =
  ns_handles :: HandleList
  ns_objectSignals :: "(u32 \<times> nat \<times> ObjectSignal) list"

definition publicItems :: "NetObject \<Rightarrow> NetItem list" where
  "publicItems ob = filter (\<lambda>i. \<not> ni_internal i) (no_items ob)"

definition isEventItem :: "NetItem \<Rightarrow> bool" where
  "isEventItem i = (case ni_body i of EventItem _ \<Rightarrow> True | _ \<Rightarrow> False)"

definition connectSignals :: "u32 \<Rightarrow> nat \<Rightarrow> ObjectSignal list \<Rightarrow> NetSession \<Rightarrow> NetSession" where
  "connectSignals h o' sigs s =
    s\<lparr>ns_objectSignals := ns_objectSignals s @ map (\<lambda>g. (h, o', g)) sigs\<rparr>"

definition writeItems :: "NetObject \<Rightarrow> NetMessage \<Rightarrow> NetMessage option" where
  "writeItems ob = nm_inBlock (nm_each writeItem (publicItems ob))"

text \<open>The object is the null pointer when it is \<open>None\<close>; then the new handle's object is dereferenced.\<close>

definition writeObject :: "(nat \<Rightarrow> NetObject) \<Rightarrow> nat option \<Rightarrow> NetSession \<times> NetMessage \<Rightarrow> (NetSession \<times> NetMessage) option" where
  "writeObject world object sm =
    (let s = fst sm; (handle, hs) = hl_getHandle object (ns_handles s) in
     if handle = invalidHandle then
       do { i \<leftarrow> object;
            let ob = world i;
            let (handle, hs) = hl_addItem object hs;
            let s = connectSignals handle i
              ([OnDestroying, PropertyChanged, AttributeChanged] @
               (if no_kind ob = InputMonitorObject then [InputIdChanged, InputValueChanged]
                else if no_kind ob = BoardObject then [TileDataChanged] else [])) (s\<lparr>ns_handles := hs\<rparr>);
            m \<leftarrow> nm_inBlock (\<lambda>m. do {
              m \<leftarrow> Some (nm_write handle m);
              m \<leftarrow> Some (nm_writeString (no_classId ob) m);
              writeItems ob m }) (snd sm);
            Some (if list_ex isEventItem (publicItems ob) then connectSignals handle i [OnEventFired] s else s, m) }
     else
       do { m \<leftarrow> nm_inBlock (\<lambda>m. Some (nm_write handle m)) (snd sm);
            Some (s\<lparr>ns_handles := hs\<rparr>, m) })"

section \<open>The client's objects\<close>

text \<open>
  \<^verbatim>\<open>m_objects\<close> holds the objects someone still refers to; when the last reference goes, the object
  waits in \<^verbatim>\<open>m_requestForRelease\<close> for the server's consent.  Items keep their order.
\<close>

record ClientObject =
  co_classId :: QString
  co_items :: "ClientItem list"

record 'o NetClient =
  nc_objects :: "u32 \<Rightarrow> 'o option"
  nc_requestForRelease :: "u32 \<Rightarrow> 'o option"
  nc_handleCounter :: "u32 \<Rightarrow> u32 option"

definition nc_counter :: "'o NetClient \<Rightarrow> u32 \<Rightarrow> u32" where
  "nc_counter c h = (case nc_handleCounter c h of Some n \<Rightarrow> n | None \<Rightarrow> 0)"

definition nc_count :: "u32 \<Rightarrow> 'o NetClient \<Rightarrow> 'o NetClient" where
  "nc_count h c = c\<lparr>nc_handleCounter := (nc_handleCounter c)(h \<mapsto> nc_counter c h + 1)\<rparr>"

definition readItems :: "NetMessage \<Rightarrow> (ClientItem list \<times> NetMessage) option" where
  "readItems m =
    do { (items, m) \<leftarrow> nm_fromBlock (nm_whileBlock readItem) m; Some (List.map_filter id items, m) }"

text \<open>
  What reading an object does to the tables, when the message holds only the handle (\<open>None\<close>) or the
  object as well.
\<close>

definition nc_reuse :: "u32 \<Rightarrow> 'o \<Rightarrow> 'o NetClient \<Rightarrow> 'o NetClient" where
  "nc_reuse h ob c = nc_count h (c\<lparr>nc_requestForRelease := (nc_requestForRelease c)(h := None),
     nc_objects := (nc_objects c)(h \<mapsto> ob)\<rparr>)"

definition nc_create :: "u32 \<Rightarrow> 'o \<Rightarrow> 'o NetClient \<Rightarrow> 'o NetClient" where
  "nc_create h ob c = c\<lparr>nc_handleCounter := (nc_handleCounter c)(h \<mapsto> 1), nc_objects := (nc_objects c)(h \<mapsto> ob)\<rparr>"

text \<open>
  The result is the object's handle.  An object that waits for its release is used again, the block is
  then left open.
\<close>

definition readObject :: "ClientObject NetClient \<Rightarrow> NetMessage \<Rightarrow> (u32 \<times> ClientObject NetClient \<times> NetMessage) option" where
  "readObject c m =
    do { (_, m) \<leftarrow> nm_readBlock m;
         (handle, m) \<leftarrow> nm_read m;
         case nc_objects c handle of
           Some ob \<Rightarrow> do { m \<leftarrow> nm_readBlockEnd m; Some (handle, nc_count handle c, m) }
         | None \<Rightarrow>
             (case nc_requestForRelease c handle of
                Some ob \<Rightarrow>
                  (let c = nc_reuse handle ob c
                   in if 1 < nc_counter c handle then Some (handle, c, m)
                      else do { (items, m) \<leftarrow> readItems m;
                                m \<leftarrow> nm_readBlockEnd m;
                                Some (handle, c\<lparr>nc_objects := (nc_objects c)(handle \<mapsto>
                                  ob\<lparr>co_items := co_items ob @ items\<rparr>)\<rparr>, m) })
              | None \<Rightarrow>
                  do { (classId, m) \<leftarrow> readLatin1 m;
                       (items, m) \<leftarrow> readItems m;
                       m \<leftarrow> nm_readBlockEnd m;
                       Some (handle, nc_create handle \<lparr>co_classId = classId, co_items = items\<rparr> c, m) }) }"

text \<open>The last reference goes: the handle and its counter are sent to the server.\<close>

definition nc_drop :: "u32 \<Rightarrow> 'o NetClient \<Rightarrow> (u32 \<times> u32) list \<times> 'o NetClient" where
  "nc_drop h c =
    (case nc_objects c h of
       None \<Rightarrow> ([], c)
     | Some ob \<Rightarrow>
         ([(h, nc_counter c h)],
          c\<lparr>nc_objects := (nc_objects c)(h := None),
            nc_requestForRelease := hl_emplace h ob (nc_requestForRelease c),
            nc_handleCounter := (nc_handleCounter c)(h \<mapsto> nc_counter c h)\<rparr>))"

definition nc_released :: "u32 \<Rightarrow> 'o NetClient \<Rightarrow> 'o NetClient" where
  "nc_released h c =
    c\<lparr>nc_handleCounter := (nc_handleCounter c)(h := None),
      nc_requestForRelease := (nc_requestForRelease c)(h := None)\<rparr>"

text \<open>\<^verbatim>\<open>ReleaseObject\<close> at the server, the result is whether it consents.\<close>

definition releaseObject :: "u32 \<Rightarrow> u32 \<Rightarrow> NetSession \<Rightarrow> bool \<times> NetSession" where
  "releaseObject handle counter s =
    (if counter = hl_getCounter handle (ns_handles s) then
       (True, s\<lparr>ns_handles := hl_removeHandle handle (ns_handles s),
          ns_objectSignals := filter (\<lambda>(h, _). h \<noteq> handle) (ns_objectSignals s)\<rparr>)
     else (False, s))"

text \<open>\<^verbatim>\<open>objectDestroying\<close>, the result is the handle sent.\<close>

definition objectDestroying :: "nat \<Rightarrow> NetSession \<Rightarrow> u32 \<times> NetSession" where
  "objectDestroying i s =
    (let (handle, hs) = hl_getHandle (Some i) (ns_handles s)
     in (handle, s\<lparr>ns_handles := hl_removeHandle handle hs,
          ns_objectSignals := filter (\<lambda>(h, _). h \<noteq> handle) (ns_objectSignals s)\<rparr>))"

end
