(* ===== verification/Net_Objects_Codec.thy ===== *)
theory Net_Objects_Codec
  imports Net_Objects
begin

text \<open>
  The client reads of an object what the server writes: for every part of the wire format the bytes, the
  values that can be written (\<open>ok\<close>), what the client makes of them (\<open>view\<close>), and that writer and reader
  keep the contract \<open>net_codec\<close>.
\<close>

section \<open>Values\<close>

fun valueBytes :: "NetValue \<Rightarrow> bytes" where
  "valueBytes (BooleanValue b) = boolBytes b"
| "valueBytes (Int64Value i) = leBytes i"
| "valueBytes (DoubleValue d) = leBytes d"
| "valueBytes (StringValue s) = stringBytes s"
| "valueBytes (ObjectValue i) = stringBytes (case i of None \<Rightarrow> [] | Some s \<Rightarrow> s)"

fun typed :: "ValueType \<Rightarrow> NetValue \<Rightarrow> bool" where
  "typed t (BooleanValue b) \<longleftrightarrow> t = VT_Boolean"
| "typed t (Int64Value i) \<longleftrightarrow> t = VT_Enum \<or> t = VT_Integer \<or> t = VT_Set"
| "typed t (DoubleValue d) \<longleftrightarrow> t = VT_Float"
| "typed t (StringValue s) \<longleftrightarrow> t = VT_String \<and> length s < 2 ^ 32"
| "typed t (ObjectValue i) \<longleftrightarrow> t = VT_Object \<and> length (case i of None \<Rightarrow> [] | Some s \<Rightarrow> s) < 2 ^ 32"

fun viewValue :: "NetValue \<Rightarrow> QVariant" where
  "viewValue (BooleanValue b) = QBool b"
| "viewValue (Int64Value i) = QLongLong i"
| "viewValue (DoubleValue d) = QDouble d"
| "viewValue (StringValue s) = QText (fromUtf8 s)"
| "viewValue (ObjectValue i) = QText (fromLatin1 (case i of None \<Rightarrow> [] | Some s \<Rightarrow> s))"

lemma takes_readLatin1: "length s < 2 ^ 32 \<Longrightarrow> takes readLatin1 (stringBytes s) (fromLatin1 s)"
  unfolding readLatin1_def [abs_def] by (rule takes_map) (rule net_string.get_takes)

lemma takes_readUtf8: "length s < 2 ^ 32 \<Longrightarrow> takes readUtf8 (stringBytes s) (fromUtf8 s)"
  unfolding readUtf8_def [abs_def] by (rule takes_map) (rule net_string.get_takes)

lemma takes_valueType: "takes readValueType (leBytes (valueTypeCode t)) t"
  unfolding readValueType_def [abs_def] takes_def
  using takesD [OF net_u8.get_takes, of _ "valueTypeCode t"] by simp

lemma toObjectId: "toObjectId (ObjectValue i) = Some (case i of None \<Rightarrow> [] | Some s \<Rightarrow> s)"
  by (cases i) simp_all

interpretation net_value: net_codec "writePropertyValue t" "readValue t" valueBytes "typed t" viewValue for t
proof
  fix v assume v: "typed t v"
  show "appends (writePropertyValue t v) (valueBytes v)"
    using v net_bool.put_appends net_u64.put_appends net_string.put_appends
    by (cases v) (auto simp: writePropertyValue_def [abs_def] toObjectId simp del: toObjectId.simps)
  show "takes (readValue t) (valueBytes v) (viewValue v)"
    using v takes_map [OF net_bool.get_takes] takes_map [OF net_u64.get_takes]
      takes_map [OF takes_readUtf8] takes_map [OF takes_readLatin1]
    by (cases v) (auto simp: readValue_def [abs_def])
qed

section \<open>Attributes\<close>

lemmas takes_u8 = net_u8.get_takes [OF TrueI]
lemmas takes_u16 = net_u16.get_takes [OF TrueI]
lemmas takes_u32 = net_u32.get_takes [OF TrueI]
lemmas takes_u64 = net_u64.get_takes [OF TrueI]

lemma takes_readLength:
  assumes "n < 2 ^ 31"
  shows "takes readLength (leBytes (of_nat n :: u32)) n"
proof -
  have u: "unat (of_nat n :: u32) = n" using assms by (simp add: unat_of_nat)
  then have "0 \<le> sint (of_nat n :: u32)"
    using assms by (simp add: sint_uint uint_nat bit_iff_odd)
  then show ?thesis
    using takesD [OF takes_u32, of _ "of_nat n"] u by (simp add: takes_def readLength_def)
qed

lemma takes_readArray:
  "list_all (typed t) vs \<Longrightarrow> t \<noteq> VT_Object \<Longrightarrow> t \<noteq> VT_Invalid \<Longrightarrow>
    takes (readArray t (length vs)) (concat (map valueBytes vs)) (map viewValue vs)"
  unfolding readArray_def [abs_def] using net_value.repeat_takes by simp

definition attributeBytes :: "NetAttribute \<Rightarrow> bytes" where
  "attributeBytes a = leBytes (na_name a) @ leBytes (valueTypeCode (na_type a)) @
    (case na_body a of
       AttrValue v \<Rightarrow> leBytes (1 :: u8) @ valueBytes v
     | AttrValues vs \<Rightarrow> leBytes (2 :: u8) @ leBytes (of_nat (length vs) :: u32) @ concat (map valueBytes vs))"

definition attributeOk :: "NetAttribute \<Rightarrow> bool" where
  "attributeOk a \<longleftrightarrow> attributeType (na_type a) \<and>
    (case na_body a of
       AttrValue v \<Rightarrow> typed (na_type a) v
     | AttrValues vs \<Rightarrow> list_all (typed (na_type a)) vs \<and> length vs < 2 ^ 31)"

definition viewAttribute :: "NetAttribute \<Rightarrow> u16 \<times> ClientAttribute" where
  "viewAttribute a = (na_name a,
    case na_body a of AttrValue v \<Rightarrow> CAttrValue (viewValue v) | AttrValues vs \<Rightarrow> CAttrValues (map viewValue vs))"

lemma attributeType_not: "attributeType t \<Longrightarrow> t \<noteq> VT_Object \<and> t \<noteq> VT_Invalid"
  by (auto simp: attributeType_def)

interpretation net_attribute: net_codec writeAttribute readAttribute attributeBytes attributeOk viewAttribute
proof
  fix a assume ok: "attributeOk a"
  note t = attributeType_not [of "na_type a"]
  show "appends (writeAttribute a) (attributeBytes a)"
  proof (cases "na_body a")
    case (AttrValue v)
    then show ?thesis
      using ok net_value.put_appends [of "na_type a" v]
      unfolding writeAttribute_def [abs_def] attributeBytes_def attributeOk_def
      by (simp only: NetAttributeBody.case if_True) (intro appends_bind appends_write, simp)
  next
    case (AttrValues vs)
    then show ?thesis
      using ok net_value.each_appends [of "na_type a" vs]
      unfolding writeAttribute_def [abs_def] attributeBytes_def attributeOk_def
      by (simp only: NetAttributeBody.case if_True) (intro appends_bind appends_write, simp)
  qed
  show "takes readAttribute (attributeBytes a) (viewAttribute a)"
  proof (cases "na_body a")
    case (AttrValue v)
    then have v: "takes (readValue (na_type a)) (valueBytes v) (viewValue v)" "attributeType (na_type a)"
      using ok net_value.get_takes [of "na_type a" v] by (simp_all add: attributeOk_def)
    show ?thesis
      unfolding readAttribute_def [abs_def] attributeBytes_def viewAttribute_def AttrValue NetAttributeBody.case
      apply (rule takes_bind [OF takes_u16], rule takes_bind [OF takes_valueType], rule takes_bind [OF takes_u8])
      using takes_map [OF v(1)] v(2) by simp
  next
    case (AttrValues vs)
    then have v: "takes (readArray (na_type a) (length vs)) (concat (map valueBytes vs)) (map viewValue vs)"
      "length vs < 2 ^ 31"
      using ok takes_readArray [of "na_type a" vs] t by (simp_all add: attributeOk_def)
    show ?thesis
      unfolding readAttribute_def [abs_def] attributeBytes_def viewAttribute_def AttrValues NetAttributeBody.case
      apply (rule takes_bind [OF takes_u16], rule takes_bind [OF takes_valueType], rule takes_bind [OF takes_u8])
      using takes_bind [OF takes_readLength [OF v(2)],
          of "\<lambda>n m. do { (vs, m) \<leftarrow> readArray (na_type a) n m; Some ((na_name a, CAttrValues vs), m) }",
          OF takes_map [OF v(1)]] by simp
  qed
qed

section \<open>Items\<close>

definition typeInfoBytes :: "ValueType \<times> bytes \<Rightarrow> bytes" where
  "typeInfoBytes ti = leBytes (valueTypeCode (fst ti)) @
    (if fst ti = VT_Enum \<or> fst ti = VT_Set then stringBytes (snd ti) else [])"

definition viewName :: "ValueType \<Rightarrow> bytes \<Rightarrow> QString option" where
  "viewName t s = (if t = VT_Enum \<or> t = VT_Set then Some (fromLatin1 s) else None)"

lemma appends_typeInfo: "appends (writeTypeInfo ti) (typeInfoBytes ti)"
proof (cases "fst ti = VT_Enum \<or> fst ti = VT_Set")
  case True
  then show ?thesis
    unfolding writeTypeInfo_def [abs_def] typeInfoBytes_def
    by (simp only: if_True stringBytes_def) (intro appends_bind appends_write appends_writeString)
next
  case False
  then show ?thesis
    unfolding writeTypeInfo_def [abs_def] typeInfoBytes_def
    by (simp only: if_False) (intro appends_bind appends_write appends_return)
qed

lemma takes_enumOrSetName:
  "length s < 2 ^ 32 \<Longrightarrow>
    takes (readEnumOrSetName t) (if t = VT_Enum \<or> t = VT_Set then stringBytes s else []) (viewName t s)"
  unfolding readEnumOrSetName_def [abs_def] viewName_def
  using takes_map [OF takes_readLatin1, of s Some] takes_return [of "None :: QString option"] by simp

interpretation net_typeInfo: net_codec writeTypeInfo readEventArgument typeInfoBytes "\<lambda>ti. length (snd ti) < 2 ^ 32" fst
proof (unfold_locales, rule appends_typeInfo)
  fix ti :: "ValueType \<times> bytes" assume l: "length (snd ti) < 2 ^ 32"
  show "takes readEventArgument (typeInfoBytes ti) (fst ti)"
    unfolding readEventArgument_def [abs_def] typeInfoBytes_def
    by (rule takes_bind [OF takes_valueType]) (rule takes_map [OF takes_enumOrSetName [OF l]])
qed

interpretation net_valueType: net_codec "\<lambda>t m. Some (nm_write (valueTypeCode t) m)" readValueType
    "\<lambda>t. leBytes (valueTypeCode t)" "\<lambda>_. True" "\<lambda>t. t"
  by unfold_locales (rule appends_write, rule takes_valueType)

lemma appends_baseProperty:
  "appends (writeBaseProperty k flags t s) (leBytes k @ leBytes flags @ typeInfoBytes (t, s))"
  unfolding writeBaseProperty_def [abs_def] by (intro appends_bind appends_write appends_typeInfo)

lemma takes_baseProperty:
  "length s < 2 ^ 32 \<Longrightarrow> takes readBaseProperty (leBytes flags @ typeInfoBytes (t, s)) (flags, t, viewName t s)"
  unfolding readBaseProperty_def [abs_def] typeInfoBytes_def fst_conv snd_conv
  by (rule takes_bind [OF takes_u16], rule takes_bind [OF takes_valueType], rule takes_map, rule takes_enumOrSetName)

definition bodyBytes :: "NetItemBody \<Rightarrow> bytes" where
  "bodyBytes b =
    (case b of
       PropertyItem flags t s v \<Rightarrow> (leBytes (1 :: u8) @ leBytes flags @ typeInfoBytes (t, s)) @ valueBytes v
     | UnitPropertyItem flags t s v unitName unitValue \<Rightarrow>
         (leBytes (3 :: u8) @ leBytes flags @ typeInfoBytes (t, s)) @ valueBytes v @ stringBytes unitName @ leBytes unitValue
     | VectorPropertyItem flags t s vs \<Rightarrow>
         (leBytes (4 :: u8) @ leBytes flags @ typeInfoBytes (t, s)) @
         leBytes (of_nat (length vs) :: u32) @ concat (map valueBytes vs)
     | MethodItem r ts \<Rightarrow>
         leBytes (2 :: u8) @ leBytes (valueTypeCode r) @ leBytes (of_nat (length ts) :: u8) @
         concat (map (\<lambda>t. leBytes (valueTypeCode t)) ts)
     | EventItem ts \<Rightarrow>
         leBytes (5 :: u8) @ leBytes (of_nat (length ts) :: u8) @ concat (map typeInfoBytes ts))"

definition bodyOk :: "NetItemBody \<Rightarrow> bool" where
  "bodyOk b =
    (case b of
       PropertyItem flags t s v \<Rightarrow> typed t v \<and> length s < 2 ^ 32
     | UnitPropertyItem flags t s v unitName unitValue \<Rightarrow> typed t v \<and> length s < 2 ^ 32 \<and> length unitName < 2 ^ 32
     | VectorPropertyItem flags t s vs \<Rightarrow>
         t \<noteq> VT_Invalid \<and> list_all (typed t) vs \<and> length vs < 2 ^ 31 \<and> length s < 2 ^ 32
     | MethodItem r ts \<Rightarrow> length ts < 256
     | EventItem ts \<Rightarrow> length ts < 256 \<and> list_all (\<lambda>ti. length (snd ti) < 2 ^ 32) ts)"

definition viewObjectId :: "NetValue \<Rightarrow> QString" where
  "viewObjectId v = fromLatin1 (case v of ObjectValue (Some s) \<Rightarrow> s | _ \<Rightarrow> [])"

definition viewBody :: "NetItemBody \<Rightarrow> ClientItemBody" where
  "viewBody b =
    (case b of
       PropertyItem flags t s v \<Rightarrow>
         if t = VT_Object then CObjectProperty flags (viewValue v) else CProperty flags t (viewName t s) (viewValue v)
     | UnitPropertyItem flags t s v unitName unitValue \<Rightarrow>
         CUnitProperty flags t (viewValue v) (fromLatin1 unitName) unitValue
     | VectorPropertyItem flags t s vs \<Rightarrow>
         if t = VT_Object then CObjectVectorProperty flags (map viewObjectId vs)
         else CVectorProperty flags t (viewName t s) (map viewValue vs)
     | MethodItem r ts \<Rightarrow> CMethod r ts
     | EventItem ts \<Rightarrow> CEvent (map fst ts))"

interpretation net_objectId: net_codec "writePropertyValue VT_Object" readLatin1 valueBytes "typed VT_Object" viewObjectId
proof (unfold_locales, rule net_value.put_appends)
  fix v assume v: "typed VT_Object v"
  then show "takes readLatin1 (valueBytes v) (viewObjectId v)"
    by (cases v) (auto simp: viewObjectId_def takes_readLatin1 split: option.splits)
qed

lemma appends_body:
  assumes "bodyOk b"
  shows "appends (writeItemBody b) (bodyBytes b)"
proof (cases b)
  case (PropertyItem flags t s v)
  then show ?thesis
    using assms unfolding writeItemBody_def [abs_def] bodyBytes_def bodyOk_def
    by (simp only: NetItemBody.case) (intro appends_bind appends_baseProperty net_value.put_appends, simp)
next
  case (UnitPropertyItem flags t s v un uv)
  then show ?thesis
    using assms unfolding writeItemBody_def [abs_def] bodyBytes_def bodyOk_def
    by (simp only: NetItemBody.case stringBytes_def)
      (intro appends_bind appends_baseProperty net_value.put_appends appends_writeString appends_write, simp)
next
  case (VectorPropertyItem flags t s vs)
  then show ?thesis
    using assms unfolding writeItemBody_def [abs_def] bodyBytes_def bodyOk_def writeVectorPropertyValue_def
    by (simp only: NetItemBody.case if_False)
      (intro appends_bind appends_baseProperty net_value.each_appends appends_write, simp)
next
  case (MethodItem r ts)
  then show ?thesis
    using assms unfolding writeItemBody_def [abs_def] bodyBytes_def
    by (simp only: NetItemBody.case) (intro appends_bind appends_write net_valueType.each_appends, simp add: list_all_iff)
next
  case (EventItem ts)
  then show ?thesis
    using assms unfolding writeItemBody_def [abs_def] bodyBytes_def bodyOk_def
    by (simp only: NetItemBody.case) (intro appends_bind appends_write net_typeInfo.each_appends, simp)
qed

lemma takes_base:
  assumes "length n < 2 ^ 32" and "takes (\<lambda>m. s flags t (viewName t n) m) b w"
  shows "takes (\<lambda>m. do { ((flags, t, name), m) \<leftarrow> readBaseProperty m; s flags t name m })
    (leBytes flags @ typeInfoBytes (t, n) @ b) w"
  using takes_bind [OF takes_baseProperty [OF assms(1)], of "\<lambda>p m. s (fst p) (fst (snd p)) (snd (snd p)) m" flags t b w]
    assms(2) by (simp add: case_prod_unfold)

lemma takes_argumentCount: "n < 256 \<Longrightarrow> unat (of_nat n :: u8) = n"
  by (simp add: unat_of_nat)

lemma itemTypes: "(1 :: u8) \<noteq> 4" "(3 :: u8) \<noteq> 4" "(3 :: u8) \<noteq> 1" "(1 :: u8) \<noteq> 3" by simp_all

lemma takes_body:
  assumes "bodyOk b"
  shows "takes readItemBody (bodyBytes b) (Some (viewBody b))"
proof (cases b)
  case (PropertyItem flags t s v)
  then have v: "takes (readValue t) (valueBytes v) (viewValue v)" "length s < 2 ^ 32"
    using assms net_value.get_takes [of t v] by (simp_all add: bodyOk_def)
  show ?thesis
    unfolding readItemBody_def [abs_def] bodyBytes_def viewBody_def PropertyItem NetItemBody.case append_assoc
    by (rule takes_bind [OF takes_u8], simp only: itemTypes simp_thms if_True if_False, rule takes_base [OF v(2)])
      (use takes_map [OF v(1), of "\<lambda>v. Some (if t = VT_Object then CObjectProperty flags v else CProperty flags t (viewName t s) v)"]
        in simp)
next
  case (UnitPropertyItem flags t s v un uv)
  then have v: "takes (readValue t) (valueBytes v) (viewValue v)" "length s < 2 ^ 32" "length un < 2 ^ 32"
    using assms net_value.get_takes [of t v] by (simp_all add: bodyOk_def)
  have "takes (\<lambda>m. do { (v, m) \<leftarrow> readValue t m; (unitName, m) \<leftarrow> readLatin1 m; (unitValue, m) \<leftarrow> nm_read m;
      Some (Some (CUnitProperty flags t v unitName unitValue), m) })
    (valueBytes v @ stringBytes un @ leBytes uv) (Some (CUnitProperty flags t (viewValue v) (fromLatin1 un) uv))"
    by (rule takes_bind [OF v(1)], rule takes_bind [OF takes_readLatin1 [OF v(3)]], rule takes_map [OF takes_u64])
  then show ?thesis
    unfolding readItemBody_def [abs_def] bodyBytes_def viewBody_def UnitPropertyItem NetItemBody.case append_assoc
    by - (rule takes_bind [OF takes_u8], simp only: itemTypes simp_thms if_True if_False, rule takes_base [OF v(2)])
next
  case (VectorPropertyItem flags t s vs)
  then have v: "list_all (typed t) vs" "length vs < 2 ^ 31" "length s < 2 ^ 32" "t \<noteq> VT_Invalid"
    using assms by (simp_all add: bodyOk_def)
  have "takes (\<lambda>m. if t = VT_Object then
        do { (ids, m) \<leftarrow> readObjectIdArray (length vs) m; Some (Some (CObjectVectorProperty flags ids), m) }
      else do { (vs, m) \<leftarrow> readArray t (length vs) m; Some (Some (CVectorProperty flags t (viewName t s) vs), m) })
    (concat (map valueBytes vs)) (Some (viewBody b))"
  proof (cases "t = VT_Object")
    case True
    then show ?thesis
      using takes_map [OF net_objectId.repeat_takes, of vs "\<lambda>ids. Some (CObjectVectorProperty flags ids)"] v(1)
      by (simp add: readObjectIdArray_def [abs_def] viewBody_def VectorPropertyItem)
  next
    case False
    then show ?thesis
      using takes_map [OF takes_readArray [OF v(1) _ v(4)], of "\<lambda>vs. Some (CVectorProperty flags t (viewName t s) vs)"]
      by (simp add: viewBody_def VectorPropertyItem)
  qed
  note 1 = takes_bind [OF takes_readLength [OF v(2)],
    of "\<lambda>n m. if t = VT_Object then
        do { (ids, m) \<leftarrow> readObjectIdArray n m; Some (Some (CObjectVectorProperty flags ids), m) }
      else do { (vs, m) \<leftarrow> readArray t n m; Some (Some (CVectorProperty flags t (viewName t s) vs), m) }", OF this]
  show ?thesis
    unfolding readItemBody_def [abs_def] bodyBytes_def VectorPropertyItem NetItemBody.case append_assoc
    by (rule takes_bind [OF takes_u8], simp only: itemTypes simp_thms if_True if_False, rule takes_base [OF v(3)])
      (use 1 in \<open>simp add: VectorPropertyItem\<close>)
next
  case (MethodItem r ts)
  then have n: "length ts < 256" using assms by (simp add: bodyOk_def)
  have "takes (nm_repeat (unat (of_nat (length ts) :: u8)) readValueType) (concat (map (\<lambda>t. leBytes (valueTypeCode t)) ts)) ts"
    using net_valueType.repeat_takes [of ts] takes_argumentCount [OF n] by (simp add: list_all_iff)
  then have "takes (\<lambda>m. do { (resultType, m) \<leftarrow> readValueType m; (n :: u8, m) \<leftarrow> nm_read m;
        (argumentTypes, m) \<leftarrow> nm_repeat (unat n) readValueType m; Some (Some (CMethod resultType argumentTypes), m) })
      (leBytes (valueTypeCode r) @ leBytes (of_nat (length ts) :: u8) @ concat (map (\<lambda>t. leBytes (valueTypeCode t)) ts))
      (Some (CMethod r ts))"
    by (intro takes_bind [OF takes_valueType] takes_bind [OF takes_u8] takes_map)
  then
  show ?thesis
    unfolding readItemBody_def [abs_def] bodyBytes_def viewBody_def MethodItem NetItemBody.case
    by - (rule takes_bind [OF takes_u8], simp)
next
  case (EventItem ts)
  then have n: "length ts < 256" "list_all (\<lambda>ti. length (snd ti) < 2 ^ 32) ts" using assms by (simp_all add: bodyOk_def)
  have "takes (nm_repeat (unat (of_nat (length ts) :: u8)) readEventArgument) (concat (map typeInfoBytes ts)) (map fst ts)"
    using net_typeInfo.repeat_takes [OF n(2)] takes_argumentCount [OF n(1)] by simp
  then have "takes (\<lambda>m. do { (n :: u8, m) \<leftarrow> nm_read m;
        (argumentTypes, m) \<leftarrow> nm_repeat (unat n) readEventArgument m; Some (Some (CEvent argumentTypes), m) })
      (leBytes (of_nat (length ts) :: u8) @ concat (map typeInfoBytes ts)) (Some (CEvent (map fst ts)))"
    by (intro takes_bind [OF takes_u8] takes_map)
  then
  show ?thesis
    unfolding readItemBody_def [abs_def] bodyBytes_def viewBody_def EventItem NetItemBody.case
    by - (rule takes_bind [OF takes_u8], simp)
qed

interpretation net_attributeBlock: net_codec "\<lambda>a. nm_inBlock (writeAttribute a)" "nm_fromBlock readAttribute"
    "\<lambda>a. blockBytes (attributeBytes a)" attributeOk viewAttribute
  by (rule net_attribute.block_codec)

definition itemBytes :: "NetItem \<Rightarrow> bytes" where
  "itemBytes i = stringBytes (ni_name i) @ bodyBytes (ni_body i) @
    blockBytes (concat (map (\<lambda>a. blockBytes (attributeBytes a)) (ni_attributes i)))"

definition itemOk :: "NetItem \<Rightarrow> bool" where
  "itemOk i \<longleftrightarrow> length (ni_name i) < 2 ^ 32 \<and> bodyOk (ni_body i) \<and> list_all attributeOk (ni_attributes i)"

definition viewItem :: "NetItem \<Rightarrow> ClientItem" where
  "viewItem i = \<lparr>ci_name = fromLatin1 (ni_name i), ci_body = viewBody (ni_body i),
    ci_attributes = map_of (rev (map viewAttribute (ni_attributes i)))\<rparr>"

lemma blockBytes_nonempty [simp]: "blockBytes bs \<noteq> []"
  by (simp add: blockBytes_def flip: length_0_conv)

lemma takes_attributes:
  assumes "list_all attributeOk as"
  shows "takes readAttributes (blockBytes (concat (map (\<lambda>a. blockBytes (attributeBytes a)) as)))
    (map_of (rev (map viewAttribute as)))"
  using assms unfolding readAttributes_def [abs_def]
  by (intro takes_map net_attributeBlock.block_takes) (simp add: list_all_iff)

interpretation net_item: net_codec writeItem readItem "\<lambda>i. blockBytes (itemBytes i)" itemOk "\<lambda>i. Some (viewItem i)"
proof
  fix i assume ok: "itemOk i"
  then have 1: "length (ni_name i) < 2 ^ 32" "bodyOk (ni_body i)" "list_all attributeOk (ni_attributes i)"
    by (simp_all add: itemOk_def)
  show "appends (writeItem i) (blockBytes (itemBytes i))"
    unfolding writeItem_def itemBytes_def stringBytes_def
    by (intro appends_inBlock appends_bind appends_writeString appends_body net_attributeBlock.each_appends 1)
  have "takes (\<lambda>m. do { (attrs, m) \<leftarrow> readAttributes m;
      Some (Some \<lparr>ci_name = fromLatin1 (ni_name i), ci_body = viewBody (ni_body i), ci_attributes = attrs\<rparr>, m) })
    (blockBytes (concat (map (\<lambda>a. blockBytes (attributeBytes a)) (ni_attributes i)))) (Some (viewItem i))"
    unfolding viewItem_def by (rule takes_map [OF takes_attributes [OF 1(3)]])
  then have "takes (\<lambda>m. do { (name, m) \<leftarrow> readLatin1 m; (body, m) \<leftarrow> readItemBody m;
      case body of None \<Rightarrow> Some (None, m)
      | Some b \<Rightarrow> do { (attrs, m) \<leftarrow> readAttributes m;
          Some (Some \<lparr>ci_name = name, ci_body = b, ci_attributes = attrs\<rparr>, m) } }) (itemBytes i) (Some (viewItem i))"
    unfolding itemBytes_def
    by - (rule takes_bind [OF takes_readLatin1 [OF 1(1)]], rule takes_bind [OF takes_body [OF 1(2)]], simp only: option.case)
  from takes_fromBlock [OF this, of "[]"]
  show "takes readItem (blockBytes (itemBytes i)) (Some (viewItem i))" by (simp add: readItem_def)
qed

section \<open>Objects\<close>

definition objectBytes :: "u32 \<Rightarrow> NetObject \<Rightarrow> bytes" where
  "objectBytes h ob = leBytes h @ stringBytes (no_classId ob) @
    blockBytes (concat (map (\<lambda>i. blockBytes (itemBytes i)) (publicItems ob)))"

definition objectOk :: "NetObject \<Rightarrow> bool" where
  "objectOk ob \<longleftrightarrow> length (no_classId ob) < 2 ^ 32 \<and> list_all itemOk (publicItems ob)"

definition viewObject :: "NetObject \<Rightarrow> ClientObject" where
  "viewObject ob = \<lparr>co_classId = fromLatin1 (no_classId ob), co_items = map viewItem (publicItems ob)\<rparr>"

lemma appends_object:
  assumes "objectOk ob"
  shows "appends (nm_inBlock (\<lambda>m. do { m \<leftarrow> Some (nm_write h m); m \<leftarrow> Some (nm_writeString (no_classId ob) m); writeItems ob m }))
    (blockBytes (objectBytes h ob))"
  using assms unfolding writeItems_def objectBytes_def stringBytes_def objectOk_def
  by (intro appends_inBlock appends_bind appends_write appends_writeString net_item.each_appends) blast

lemma takes_items:
  assumes "list_all itemOk is"
  shows "takes readItems (blockBytes (concat (map (\<lambda>i. blockBytes (itemBytes i)) is))) (map viewItem is)"
proof -
  have "takes readItems (blockBytes (concat (map (\<lambda>i. blockBytes (itemBytes i)) is)))
      (List.map_filter id (map (\<lambda>i. Some (viewItem i)) is))"
    using assms unfolding readItems_def [abs_def]
    by (intro takes_map net_item.block_takes) (simp add: list_all_iff)
  then show ?thesis by (simp add: map_filter_def comp_def)
qed

text \<open>The reader's steps, from a block read as a whole.\<close>

lemma fromBlock_steps:
  assumes "nm_fromBlock r m = Some (v, m3)"
  obtains b m1 m2 where "nm_readBlock m = Some (b, m1)" "r m1 = Some (v, m2)" "nm_readBlockEnd m2 = Some m3"
proof -
  from assms obtain b m1 where 1: "nm_readBlock m = Some (b, m1)"
    by (cases "nm_readBlock m") (auto simp: nm_fromBlock_def)
  moreover from assms 1 obtain w m2 where 2: "r m1 = Some (w, m2)"
    by (cases "r m1") (auto simp: nm_fromBlock_def)
  moreover from assms 1 2 have "nm_readBlockEnd m2 = Some m3" "w = v"
    by (cases "nm_readBlockEnd m2"; simp add: nm_fromBlock_def)+
  ultimately show thesis using that by blast
qed

lemma readObject_new:
  assumes "objectOk ob" and "inside m" and "nm_current m = blockBytes (objectBytes h ob) @ rest"
    and "nc_objects c h = None" and "nc_requestForRelease c h = None"
  shows "readObject c m = Some (h, nc_create h (viewObject ob) c, nm_advance (length (blockBytes (objectBytes h ob))) m)"
proof -
  let ?r = "\<lambda>m. do { (h :: u32, m) \<leftarrow> nm_read m; (classId, m) \<leftarrow> readLatin1 m; (items, m) \<leftarrow> readItems m; Some ((h, classId, items), m) }"
  let ?v = "(h, fromLatin1 (no_classId ob), map viewItem (publicItems ob))"
  have "takes ?r (objectBytes h ob) ?v"
    unfolding objectBytes_def
    by (rule takes_bind [OF takes_u32], rule takes_bind [OF takes_readLatin1], use assms(1) in \<open>simp add: objectOk_def\<close>,
        rule takes_map, rule takes_items, use assms(1) in \<open>simp add: objectOk_def\<close>)
  from takes_fromBlock [OF this, of "[]"]
  have "nm_fromBlock ?r m = Some (?v, nm_advance (length (blockBytes (objectBytes h ob))) m)"
    using takesD assms(2,3) by fastforce
  then obtain b m1 m2 where s: "nm_readBlock m = Some (b, m1)" "?r m1 = Some (?v, m2)"
    "nm_readBlockEnd m2 = Some (nm_advance (length (blockBytes (objectBytes h ob))) m)"
    by (rule fromBlock_steps)
  from s(2) obtain m3 where m3: "nm_read m1 = Some (h, m3)"
    by (cases "nm_read m1 :: (u32 \<times> NetMessage) option") (auto split: bind_splits)
  from s(2) m3 obtain m4 where m4: "readLatin1 m3 = Some (fromLatin1 (no_classId ob), m4)"
    by (cases "readLatin1 m3") (auto split: bind_splits)
  from s(2) m3 m4 have m5: "readItems m4 = Some (map viewItem (publicItems ob), m2)"
    by (cases "readItems m4") auto
  show ?thesis
    using s(1,3) m3 m4 m5 assms(4,5) by (simp add: readObject_def viewObject_def)
qed

text \<open>A handle alone: of an object the client uses, and of one that waits for its release.\<close>

lemma handle_block:
  assumes "inside m" and "nm_current m = blockBytes (leBytes (h :: u32)) @ rest"
  obtains b m1 m2 where "nm_readBlock m = Some (b, m1)" "nm_read m1 = Some (h, m2)"
    "nm_readBlockEnd m2 = Some (nm_advance 8 m)" "nm_data m2 = nm_data m" "nm_readPosition m2 = nm_readPosition m + 8"
proof -
  have "nm_fromBlock nm_read m = Some (h, nm_advance 8 m)"
    using takesD [OF takes_fromBlock [OF takes_u32, of h "[]"]] assms by (simp add: blockBytes_def)
  then obtain b m1 m2 where s: "nm_readBlock m = Some (b, m1)" "nm_read m1 = Some (h, m2)"
    "nm_readBlockEnd m2 = Some (nm_advance 8 m)" by (rule fromBlock_steps)
  then have "nm_data m2 = nm_data m" "nm_readPosition m2 = nm_readPosition m + 8"
    by (auto simp: nm_readBlock_def nm_read_def nm_take_def nm_advance_def nm_readBlockEnd_def
        split: bind_splits if_splits list.splits)
  with s show thesis using that by blast
qed

lemma readObject_known:
  assumes "inside m" and "nm_current m = blockBytes (leBytes h) @ rest" and "nc_objects c h = Some ob"
  shows "readObject c m = Some (h, nc_count h c, nm_advance 8 m)"
proof -
  obtain b m1 m2 where "nm_readBlock m = Some (b, m1)" "nm_read m1 = Some (h, m2)" "nm_readBlockEnd m2 = Some (nm_advance 8 m)"
    using handle_block [OF assms(1,2)] by blast
  then show ?thesis using assms(3) by (simp add: readObject_def)
qed

lemma readObject_reused:
  assumes "inside m" and "nm_current m = blockBytes (leBytes h) @ rest"
    and "nc_objects c h = None" and "nc_requestForRelease c h = Some ob" and "1 < nc_counter c h + 1"
  obtains m' where "readObject c m = Some (h, nc_reuse h ob c, m')"
    and "nm_data m' = nm_data m" and "nm_readPosition m' = nm_readPosition m + 8"
proof -
  obtain b m1 m2 where 1: "nm_readBlock m = Some (b, m1)" "nm_read m1 = Some (h, m2)"
    "nm_data m2 = nm_data m" "nm_readPosition m2 = nm_readPosition m + 8"
    using handle_block [OF assms(1,2)] by blast
  show thesis
    by (rule that [of m2]) (use 1 assms(3-5) in \<open>simp_all add: readObject_def Let_def nc_counter_def nc_count_def nc_reuse_def\<close>)
qed

section \<open>Writing an object\<close>

lemma writeObject_new:
  assumes "hl_itemToHandle (ns_handles s) i = None" and "objectOk (world i)" and "sized m"
    and "length (nm_data m) - 8 + length (blockBytes (objectBytes (hl_nextHandle (ns_handles s)) (world i))) < 2 ^ 32"
  obtains s' where "writeObject world (Some i) (s, m) =
      Some (s', nm_append (blockBytes (objectBytes (hl_nextHandle (ns_handles s)) (world i))) m)"
    and "ns_handles s' = snd (hl_addItem (Some i) (ns_handles s))"
    and "hl_itemToHandle (ns_handles s') i = Some (hl_nextHandle (ns_handles s))"
proof -
  let ?h = "hl_nextHandle (ns_handles s)"
  have "fst (hl_getHandle (Some i) (ns_handles s)) = 0" "snd (hl_getHandle (Some i) (ns_handles s)) = ns_handles s"
    using assms(1) by (simp_all add: hl_getHandle_def)
  moreover have "fst (hl_addItem (Some i) (ns_handles s)) = ?h"
    using assms(1) by (simp add: hl_addItem_def Let_def)
  moreover note appendsD [OF appends_object [OF assms(2), of ?h] assms(3,4)]
  moreover have "hl_itemToHandle (snd (hl_addItem (Some i) (ns_handles s))) i = Some ?h"
    using assms(1) by (simp add: hl_addItem_def Let_def hl_emplace_def)
  moreover have "ns_handles (connectSignals h' j g t) = ns_handles t" for h' j g t by (simp add: connectSignals_def)
  ultimately have "\<exists>s'. writeObject world (Some i) (s, m) = Some (s', nm_append (blockBytes (objectBytes ?h (world i))) m) \<and>
      ns_handles s' = snd (hl_addItem (Some i) (ns_handles s)) \<and> hl_itemToHandle (ns_handles s') i = Some ?h"
    by (simp add: writeObject_def case_prod_unfold Let_def)
  then show thesis using that by blast
qed

lemma writeObject_known:
  assumes "hl_itemToHandle (ns_handles s) i = Some h" and "h \<noteq> 0" and "sized m"
    and "length (nm_data m) < 2 ^ 32"
  shows "writeObject world (Some i) (s, m) =
    Some (s\<lparr>ns_handles := hl_count h (ns_handles s)\<rparr>, nm_append (blockBytes (leBytes h)) m)"
proof -
  have "appends (nm_inBlock (\<lambda>m. Some (nm_write h m))) (blockBytes (leBytes h))"
    by (intro appends_inBlock appends_write)
  from appendsD [OF this assms(3)] show ?thesis
    using assms by (simp add: writeObject_def hl_getHandle_def Let_def sized_def blockBytes_def)
qed

end
