(* ===== verification/Net_Release.thy ===== *)
theory Net_Release
  imports Net_Objects
begin

text \<open>
  How an object's handle is given up.  The server counts how often it sends a handle, the client how
  often it receives one; when the last reference at the client goes, the client sends its counter, and
  the server gives the handle up only when the counters agree, so that no message with the handle is
  under way.  The two channels between \<^verbatim>\<open>Session\<close> and \<^verbatim>\<open>Connection\<close> are lists, the oldest message first;
  an object at the client is known by the object of the server that it was made from.
\<close>

datatype ServerMessage =
    NewObject u32 nat
  | KnownObject u32
  | CountedEvent u32
  | ChangedEvent u32
  | ReleasedEvent u32
  | DestroyedEvent u32

record NetLink =
  nl_handles :: HandleList
  nl_client :: "nat NetClient"
  nl_down :: "ServerMessage list"
  nl_up :: "(u32 \<times> u32) list"

definition NetLink_init :: NetLink where
  "NetLink_init = \<lparr>nl_handles = HandleList_init,
     nl_client = \<lparr>nc_objects = Map.empty, nc_requestForRelease = Map.empty, nc_handleCounter = Map.empty\<rparr>,
     nl_down = [], nl_up = []\<rparr>"

section \<open>Steps\<close>

text \<open>
  The server writes an object, fires one of the events that the client counts, tells that a property or
  an attribute changed, destroys an object; the client drops an object; one of them handles the next
  message.  A session hears of the events of an object only while it has a handle.
\<close>

datatype NetAction =
    WriteObject nat
  | FireCounted nat
  | FireChanged nat
  | Destroy nat
  | DropObject u32
  | ClientReads
  | ServerReads

definition nl_writeObject :: "nat \<Rightarrow> HandleList \<Rightarrow> ServerMessage \<times> HandleList" where
  "nl_writeObject i l =
    (let (handle, l2) = hl_getHandle (Some i) l in
     if handle = invalidHandle then (let (handle, l3) = hl_addItem (Some i) l2 in (NewObject handle i, l3))
     else (KnownObject handle, l2))"

definition nl_event :: "(u32 \<Rightarrow> ServerMessage) \<Rightarrow> nat \<Rightarrow> NetLink \<Rightarrow> NetLink option" where
  "nl_event ev i s =
    (if hl_itemToHandle (nl_handles s) i = None then None
     else let (handle, l) = hl_getHandle (Some i) (nl_handles s)
          in Some (s\<lparr>nl_handles := l, nl_down := nl_down s @ [ev handle]\<rparr>))"

definition nc_read :: "u32 \<Rightarrow> 'o option \<Rightarrow> 'o NetClient \<Rightarrow> 'o NetClient option" where
  "nc_read h content c =
    (case nc_objects c h of
       Some ob \<Rightarrow> Some (nc_count h c)
     | None \<Rightarrow>
         (case nc_requestForRelease c h of
            Some ob \<Rightarrow> Some (nc_reuse h ob c)
          | None \<Rightarrow> map_option (\<lambda>ob. nc_create h ob c) content))"

definition nc_process :: "ServerMessage \<Rightarrow> nat NetClient \<Rightarrow> nat NetClient option" where
  "nc_process msg c =
    (case msg of
       NewObject h i \<Rightarrow> nc_read h (Some i) c
     | KnownObject h \<Rightarrow> nc_read h None c
     | CountedEvent h \<Rightarrow> Some (if nc_objects c h \<noteq> None then nc_count h c else c)
     | ChangedEvent h \<Rightarrow> Some c
     | ReleasedEvent h \<Rightarrow> Some (nc_released h c)
     | DestroyedEvent h \<Rightarrow> Some c)"

definition nl_release :: "u32 \<Rightarrow> u32 \<Rightarrow> NetLink \<Rightarrow> NetLink" where
  "nl_release handle counter s =
    (if counter = hl_getCounter handle (nl_handles s) then
       s\<lparr>nl_handles := hl_removeHandle handle (nl_handles s), nl_down := nl_down s @ [ReleasedEvent handle]\<rparr>
     else s)"

text \<open>
  What is no step of the runs: the connection of the client drops a response whose callback was cancelled,
  and the event of a tile of a board it does not know, in either case with the object that is in it.
\<close>

definition nl_discard :: "NetLink \<Rightarrow> NetLink option" where
  "nl_discard s =
    (case nl_down s of
       NewObject h i # msgs \<Rightarrow> Some (s\<lparr>nl_down := msgs\<rparr>)
     | KnownObject h # msgs \<Rightarrow> Some (s\<lparr>nl_down := msgs\<rparr>)
     | _ \<Rightarrow> None)"

text \<open>
  \<open>None\<close>: there is nothing to do, or the client reads behind the end of a message.
\<close>

definition net_act :: "NetAction \<Rightarrow> NetLink \<Rightarrow> NetLink option" where
  "net_act a s =
    (case a of
       WriteObject i \<Rightarrow>
         (let (msg, l) = nl_writeObject i (nl_handles s) in Some (s\<lparr>nl_handles := l, nl_down := nl_down s @ [msg]\<rparr>))
     | FireCounted i \<Rightarrow> nl_event CountedEvent i s
     | FireChanged i \<Rightarrow> nl_event ChangedEvent i s
     | Destroy i \<Rightarrow>
         (if hl_itemToHandle (nl_handles s) i = None then None
          else let (handle, l) = hl_getHandle (Some i) (nl_handles s)
               in Some (s\<lparr>nl_handles := hl_removeHandle handle l, nl_down := nl_down s @ [DestroyedEvent handle]\<rparr>))
     | DropObject h \<Rightarrow>
         (if nc_objects (nl_client s) h = None then None
          else let (msgs, c) = nc_drop h (nl_client s) in Some (s\<lparr>nl_client := c, nl_up := nl_up s @ msgs\<rparr>))
     | ClientReads \<Rightarrow>
         (case nl_down s of
            [] \<Rightarrow> None
          | msg # msgs \<Rightarrow> map_option (\<lambda>c. s\<lparr>nl_client := c, nl_down := msgs\<rparr>) (nc_process msg (nl_client s)))
     | ServerReads \<Rightarrow>
         (case nl_up s of
            [] \<Rightarrow> None
          | (h, n) # msgs \<Rightarrow> Some (nl_release h n (s\<lparr>nl_up := msgs\<rparr>))))"

fun net_run :: "NetAction list \<Rightarrow> NetLink \<Rightarrow> NetLink option" where
  "net_run [] s = Some s"
| "net_run (a # as) s = Option.bind (net_act a s) (net_run as)"

end
