(* ===== verification/Net_Release_Inv.thy ===== *)
theory Net_Release_Inv
  imports Net_Release
begin

text \<open>
  The invariant of the handles' protocol, for fewer than \<^verbatim>\<open>2\<^sup>32 - 2\<close> actions, so that no counter and no
  handle wraps around.
\<close>

section \<open>What is under way\<close>

definition nc_has :: "'o NetClient \<Rightarrow> u32 set" where
  "nc_has c = dom (nc_objects c) \<union> dom (nc_requestForRelease c)"

fun messageHandle :: "ServerMessage \<Rightarrow> u32" where
  "messageHandle (NewObject h i) = h"
| "messageHandle (KnownObject h) = h"
| "messageHandle (CountedEvent h) = h"
| "messageHandle (ChangedEvent h) = h"
| "messageHandle (ReleasedEvent h) = h"
| "messageHandle (DestroyedEvent h) = h"

fun isCounted :: "ServerMessage \<Rightarrow> bool" where
  "isCounted (NewObject h i) = True"
| "isCounted (KnownObject h) = True"
| "isCounted (CountedEvent h) = True"
| "isCounted _ = False"

definition underway :: "u32 \<Rightarrow> ServerMessage list \<Rightarrow> nat" where
  "underway h ds = length (filter (\<lambda>m. isCounted m \<and> messageHandle m = h) ds)"

lemma underway_simps [simp]:
  "underway h [] = 0"
  "underway h (m # ds) = (if isCounted m \<and> messageHandle m = h then 1 else 0) + underway h ds"
  "underway h (ds @ es) = underway h ds + underway h es"
  by (simp_all add: underway_def)

text \<open>The handles the client has objects for after a message, and what it needs to read it.\<close>

fun after1 :: "ServerMessage \<Rightarrow> u32 set \<Rightarrow> u32 set" where
  "after1 (NewObject h i) hs = insert h hs"
| "after1 (ReleasedEvent h) hs = hs - {h}"
| "after1 _ hs = hs"

fun needs1 :: "ServerMessage \<Rightarrow> u32 set \<Rightarrow> bool" where
  "needs1 (NewObject h i) hs \<longleftrightarrow> h \<notin> hs"
| "needs1 (KnownObject h) hs \<longleftrightarrow> h \<in> hs"
| "needs1 (ReleasedEvent h) hs \<longleftrightarrow> h \<in> hs"
| "needs1 _ hs \<longleftrightarrow> True"

fun readable :: "ServerMessage list \<Rightarrow> u32 set \<Rightarrow> bool" where
  "readable [] hs \<longleftrightarrow> True"
| "readable (m # ds) hs \<longleftrightarrow> needs1 m hs \<and> readable ds (after1 m hs)"

lemma readable_append: "readable (ds @ es) hs \<longleftrightarrow> readable ds hs \<and> readable es (fold after1 ds hs)"
  by (induction ds arbitrary: hs) simp_all

lemma after_subset: "h \<in> fold after1 ds hs \<Longrightarrow> h \<in> hs \<or> h \<in> messageHandle ` set ds"
proof (induction ds arbitrary: hs)
  case (Cons m ds)
  then show ?case by (cases m) fastforce+
qed simp

section \<open>Invariant\<close>

definition countBound :: "nat \<Rightarrow> HandleList \<Rightarrow> u32 \<Rightarrow> nat" where
  "countBound k l h = (if hl_handleToItem l h = None then k else unat (hl_getCounter h l))"

definition link_inv :: "nat \<Rightarrow> NetLink \<Rightarrow> bool" where
  "link_inv k s \<longleftrightarrow> (let l = nl_handles s; c = nl_client s; ds = nl_down s in
    (hl_inv l \<and> unat (hl_nextHandle l) \<le> k + 1 \<and> (\<forall>h. unat (hl_getCounter h l) \<le> k)) \<and>
    readable ds (nc_has c) \<and>
    (\<forall>h. hl_handleToItem l h \<noteq> None \<longrightarrow> h \<in> fold after1 ds (nc_has c)) \<and>
    (\<forall>h \<in> nc_has c \<union> messageHandle ` set ds \<union> fst ` set (nl_up s). 0 < h \<and> h < hl_nextHandle l) \<and>
    (\<forall>h. unat (nc_counter c h) + underway h ds \<le> countBound k l h) \<and>
    (\<forall>h x. (h, x) \<in> set (nl_up s) \<longrightarrow> 0 < x \<and> (hl_handleToItem l h \<noteq> None \<longrightarrow>
       x \<le> nc_counter c h \<and> (x = nc_counter c h \<longrightarrow> nc_objects c h = None))) \<and>
    ((\<forall>h. h \<in> nc_has c \<longleftrightarrow> 0 < nc_counter c h) \<and> dom (nc_objects c) \<inter> dom (nc_requestForRelease c) = {}) \<and>
    (\<forall>h. ReleasedEvent h \<in> set ds \<longrightarrow> underway h ds = 0 \<and> nc_objects c h = None \<and> hl_handleToItem l h = None) \<and>
    (\<forall>h i j. hl_handleToItem l h = Some i \<longrightarrow>
       nc_objects c h = Some j \<or> nc_requestForRelease c h = Some j \<or> NewObject h j \<in> set ds \<longrightarrow> j = i))"

lemma link_invI:
  assumes "hl_inv (nl_handles s)" and "unat (hl_nextHandle (nl_handles s)) \<le> k + 1"
    and "\<And>h. unat (hl_getCounter h (nl_handles s)) \<le> k"
    and "readable (nl_down s) (nc_has (nl_client s))"
    and "\<And>h. hl_handleToItem (nl_handles s) h \<noteq> None \<Longrightarrow> h \<in> fold after1 (nl_down s) (nc_has (nl_client s))"
    and "\<And>h. h \<in> nc_has (nl_client s) \<union> messageHandle ` set (nl_down s) \<union> fst ` set (nl_up s) \<Longrightarrow>
      0 < h \<and> h < hl_nextHandle (nl_handles s)"
    and "\<And>h. unat (nc_counter (nl_client s) h) + underway h (nl_down s) \<le> countBound k (nl_handles s) h"
    and "\<And>h x. (h, x) \<in> set (nl_up s) \<Longrightarrow> 0 < x \<and> (hl_handleToItem (nl_handles s) h \<noteq> None \<longrightarrow>
       x \<le> nc_counter (nl_client s) h \<and> (x = nc_counter (nl_client s) h \<longrightarrow> nc_objects (nl_client s) h = None))"
    and "\<And>h. h \<in> nc_has (nl_client s) \<longleftrightarrow> 0 < nc_counter (nl_client s) h"
    and "dom (nc_objects (nl_client s)) \<inter> dom (nc_requestForRelease (nl_client s)) = {}"
    and "\<And>h. ReleasedEvent h \<in> set (nl_down s) \<Longrightarrow> underway h (nl_down s) = 0 \<and> nc_objects (nl_client s) h = None \<and>
      hl_handleToItem (nl_handles s) h = None"
    and "\<And>h i j. hl_handleToItem (nl_handles s) h = Some i \<Longrightarrow> nc_objects (nl_client s) h = Some j \<or>
      nc_requestForRelease (nl_client s) h = Some j \<or> NewObject h j \<in> set (nl_down s) \<Longrightarrow> j = i"
  shows "link_inv k s"
  unfolding link_inv_def Let_def
  by (intro conjI; (intro allI impI ballI)?; (rule assms | erule assms | (rule assms, assumption, assumption)))

lemma link_invD:
  assumes "link_inv k s"
  shows "hl_inv (nl_handles s)" and "unat (hl_nextHandle (nl_handles s)) \<le> k + 1"
    and "unat (hl_getCounter h (nl_handles s)) \<le> k"
    and "readable (nl_down s) (nc_has (nl_client s))"
    and "hl_handleToItem (nl_handles s) h \<noteq> None \<Longrightarrow> h \<in> fold after1 (nl_down s) (nc_has (nl_client s))"
    and "h \<in> nc_has (nl_client s) \<union> messageHandle ` set (nl_down s) \<union> fst ` set (nl_up s) \<Longrightarrow>
      0 < h \<and> h < hl_nextHandle (nl_handles s)"
    and "unat (nc_counter (nl_client s) h) + underway h (nl_down s) \<le> countBound k (nl_handles s) h"
    and "(h, x) \<in> set (nl_up s) \<Longrightarrow> 0 < x \<and> (hl_handleToItem (nl_handles s) h \<noteq> None \<longrightarrow>
       x \<le> nc_counter (nl_client s) h \<and> (x = nc_counter (nl_client s) h \<longrightarrow> nc_objects (nl_client s) h = None))"
    and "h \<in> nc_has (nl_client s) \<longleftrightarrow> 0 < nc_counter (nl_client s) h"
    and "dom (nc_objects (nl_client s)) \<inter> dom (nc_requestForRelease (nl_client s)) = {}"
    and "ReleasedEvent h \<in> set (nl_down s) \<Longrightarrow> underway h (nl_down s) = 0 \<and> nc_objects (nl_client s) h = None \<and>
      hl_handleToItem (nl_handles s) h = None"
    and "hl_handleToItem (nl_handles s) h = Some i \<Longrightarrow> nc_objects (nl_client s) h = Some j \<or>
      nc_requestForRelease (nl_client s) h = Some j \<or> NewObject h j \<in> set (nl_down s) \<Longrightarrow> j = i"
proof -
  note r0 = assms [unfolded link_inv_def Let_def]
  note c1 = conjunct1 [OF r0] and r1 = conjunct2 [OF r0]
  note c2 = conjunct1 [OF r1] and r2 = conjunct2 [OF r1]
  note c3 = conjunct1 [OF r2] and r3 = conjunct2 [OF r2]
  note c4 = conjunct1 [OF r3] and r4 = conjunct2 [OF r3]
  note c5 = conjunct1 [OF r4] and r5 = conjunct2 [OF r4]
  note c6 = conjunct1 [OF r5] and r6 = conjunct2 [OF r5]
  note c7 = conjunct1 [OF r6] and r7 = conjunct2 [OF r6]
  note c8 = conjunct1 [OF r7] and c9 = conjunct2 [OF r7]
  show "hl_inv (nl_handles s)" "unat (hl_nextHandle (nl_handles s)) \<le> k + 1" "unat (hl_getCounter h (nl_handles s)) \<le> k"
    using c1 by blast+
  show "readable (nl_down s) (nc_has (nl_client s))" by (rule c2)
  show "hl_handleToItem (nl_handles s) h \<noteq> None \<Longrightarrow> h \<in> fold after1 (nl_down s) (nc_has (nl_client s))"
    using c3 by blast
  show "h \<in> nc_has (nl_client s) \<union> messageHandle ` set (nl_down s) \<union> fst ` set (nl_up s) \<Longrightarrow>
      0 < h \<and> h < hl_nextHandle (nl_handles s)" using c4 by blast
  show "unat (nc_counter (nl_client s) h) + underway h (nl_down s) \<le> countBound k (nl_handles s) h" using c5 by blast
  show "(h, x) \<in> set (nl_up s) \<Longrightarrow> 0 < x \<and> (hl_handleToItem (nl_handles s) h \<noteq> None \<longrightarrow>
       x \<le> nc_counter (nl_client s) h \<and> (x = nc_counter (nl_client s) h \<longrightarrow> nc_objects (nl_client s) h = None))"
    using c6 by blast
  show "h \<in> nc_has (nl_client s) \<longleftrightarrow> 0 < nc_counter (nl_client s) h"
    "dom (nc_objects (nl_client s)) \<inter> dom (nc_requestForRelease (nl_client s)) = {}" using c7 by blast+
  show "ReleasedEvent h \<in> set (nl_down s) \<Longrightarrow> underway h (nl_down s) = 0 \<and> nc_objects (nl_client s) h = None \<and>
      hl_handleToItem (nl_handles s) h = None" using c8 by blast
  show "hl_handleToItem (nl_handles s) h = Some i \<Longrightarrow> nc_objects (nl_client s) h = Some j \<or>
      nc_requestForRelease (nl_client s) h = Some j \<or> NewObject h j \<in> set (nl_down s) \<Longrightarrow> j = i" using c9 by blast
qed

lemma link_inv_init: "link_inv 0 NetLink_init"
  by (rule link_invI) (simp_all add: NetLink_init_def HandleList_init_def hl_inv_def nc_has_def hl_getCounter_def
    nc_counter_def countBound_def)

section \<open>The server's steps\<close>

lemma hl_count_simps [simp]:
  "hl_nextHandle (hl_count h l) = hl_nextHandle l"
  "hl_handleToItem (hl_count h l) = hl_handleToItem l"
  "hl_itemToHandle (hl_count h l) = hl_itemToHandle l"
  "hl_getCounter g (hl_count h l) = (if g = h then hl_getCounter h l + 1 else hl_getCounter g l)"
  by (simp_all add: hl_count_def hl_getCounter_def)

lemma unat_Suc32: "unat (x :: u32) \<le> k \<Longrightarrow> k + 1 < 2 ^ 32 \<Longrightarrow> unat (x + 1) = unat x + 1"
  by (simp add: unat_word_ariths)

text \<open>A handle that the server has is sent once more.\<close>

lemma link_inv_send:
  assumes inv: "link_inv k s" and k: "k + 1 < 2 ^ 32" and i: "hl_handleToItem (nl_handles s) h \<noteq> None"
    and m: "msg \<in> {KnownObject h, CountedEvent h, ChangedEvent h, DestroyedEvent h}"
  shows "link_inv (k + 1) (s\<lparr>nl_handles := hl_count h (nl_handles s), nl_down := nl_down s @ [msg]\<rparr>)"
proof -
  note d = link_invD [OF inv]
  have h: "messageHandle msg = h" "after1 msg = id" "\<And>j. msg \<noteq> NewObject h j" "\<And>g. msg \<noteq> ReleasedEvent g"
    "\<And>g j. msg \<noteq> NewObject g j" using m by auto
  have u: "unat (hl_getCounter h (nl_handles s) + 1) = unat (hl_getCounter h (nl_handles s)) + 1"
    by (rule unat_Suc32 [OF d(3) k])
  have a: "h \<in> fold after1 (nl_down s) (nc_has (nl_client s))" using d(5) [OF i] .
  have b: "0 < h \<and> h < hl_nextHandle (nl_handles s)" using i hl_invD(4) [OF d(1)] by blast
  let ?s = "s\<lparr>nl_handles := hl_count h (nl_handles s), nl_down := nl_down s @ [msg]\<rparr>"
  show ?thesis
  proof (rule link_invI)
    fix g x j j'
    show "hl_inv (nl_handles ?s)" using hl_inv_count d(1) i by auto
    show "unat (hl_nextHandle (nl_handles ?s)) \<le> k + 1 + 1" using d(2) by simp
    show "unat (hl_getCounter g (nl_handles ?s)) \<le> k + 1" using d(3) [of g] d(3) [of h] u by simp
    show "readable (nl_down ?s) (nc_has (nl_client ?s))" using d(4) a m by (auto simp: readable_append)
    show "g \<in> fold after1 (nl_down ?s) (nc_has (nl_client ?s))" if "hl_handleToItem (nl_handles ?s) g \<noteq> None"
      using d(5) [of g] that h(2) by simp
    show "0 < g \<and> g < hl_nextHandle (nl_handles ?s)"
      if "g \<in> nc_has (nl_client ?s) \<union> messageHandle ` set (nl_down ?s) \<union> fst ` set (nl_up ?s)"
      using d(6) [of g] that h(1) b by auto
    show "unat (nc_counter (nl_client ?s) g) + underway g (nl_down ?s) \<le> countBound (k + 1) (nl_handles ?s) g"
      using d(7) [of g] h(1) u i by (auto simp: countBound_def)
    show "0 < x \<and> (hl_handleToItem (nl_handles ?s) g \<noteq> None \<longrightarrow> x \<le> nc_counter (nl_client ?s) g \<and>
        (x = nc_counter (nl_client ?s) g \<longrightarrow> nc_objects (nl_client ?s) g = None))" if "(g, x) \<in> set (nl_up ?s)"
      using d(8) [of g x] that by simp
    show "g \<in> nc_has (nl_client ?s) \<longleftrightarrow> 0 < nc_counter (nl_client ?s) g" using d(9) [of g] by simp
    show "dom (nc_objects (nl_client ?s)) \<inter> dom (nc_requestForRelease (nl_client ?s)) = {}" using d(10) by simp
    show "underway g (nl_down ?s) = 0 \<and> nc_objects (nl_client ?s) g = None \<and> hl_handleToItem (nl_handles ?s) g = None"
      if "ReleasedEvent g \<in> set (nl_down ?s)"
      using d(11) [of g] that h(1,4) i by auto
    show "j' = j" if "hl_handleToItem (nl_handles ?s) g = Some j"
      "nc_objects (nl_client ?s) g = Some j' \<or> nc_requestForRelease (nl_client ?s) g = Some j' \<or> NewObject g j' \<in> set (nl_down ?s)"
      using d(12) [of g j j'] that h(5) by auto
  qed
qed

text \<open>An object the server has no handle for gets the next one.\<close>

lemma hl_addItem_new:
  assumes "hl_inv l" and "hl_itemToHandle l i = None" and "hl_nextHandle l + 1 \<noteq> 0"
  shows "fst (hl_addItem (Some i) l) = hl_nextHandle l"
    and "hl_nextHandle (snd (hl_addItem (Some i) l)) = hl_nextHandle l + 1"
    and "hl_handleToItem (snd (hl_addItem (Some i) l)) = (hl_handleToItem l)(hl_nextHandle l \<mapsto> i)"
    and "hl_getCounter g (snd (hl_addItem (Some i) l)) = (if g = hl_nextHandle l then 1 else hl_getCounter g l)"
  using assms hl_invD(3,6) [OF assms(1)]
  by (simp_all add: hl_addItem_def Let_def hl_emplace_def hl_getCounter_def)

lemma link_inv_new:
  assumes inv: "link_inv k s" and k: "k + 2 < 2 ^ 32" and i: "hl_itemToHandle (nl_handles s) i = None"
  shows "link_inv (k + 1) (s\<lparr>nl_handles := snd (hl_addItem (Some i) (nl_handles s)),
    nl_down := nl_down s @ [NewObject (hl_nextHandle (nl_handles s)) i]\<rparr>)"
proof -
  note d = link_invD [OF inv]
  let ?h = "hl_nextHandle (nl_handles s)"
  let ?s = "s\<lparr>nl_handles := snd (hl_addItem (Some i) (nl_handles s)), nl_down := nl_down s @ [NewObject ?h i]\<rparr>"
  have u: "unat (?h + 1) = unat ?h + 1" by (rule unat_Suc32 [OF d(2)]) (use k in simp)
  then have n: "?h + 1 \<noteq> 0" by (metis unat_0 add_is_0 one_neq_zero)
  note a = hl_addItem_new [OF d(1) i n]
  have lt: "?h < ?h + 1" by (rule h2handle [OF n])
  have none: "hl_handleToItem (nl_handles s) ?h = None" using hl_invD(6) [OF d(1)] by blast
  have fresh: "?h \<notin> nc_has (nl_client s)" "?h \<notin> messageHandle ` set (nl_down s)" "?h \<notin> fst ` set (nl_up s)"
    using d(6) [of ?h] by blast+
  have f: "?h \<notin> fold after1 (nl_down s) (nc_has (nl_client s))" using after_subset fresh by blast
  have z: "nc_counter (nl_client s) ?h = 0" "underway ?h (nl_down s) = 0"
    using d(9) [of ?h] fresh(1,2) by (auto simp: underway_def filter_empty_conv word_gt_0 image_iff)
  show ?thesis
  proof (rule link_invI)
    fix g x j j'
    show "hl_inv (nl_handles ?s)" using hl_addItem_inv [OF d(1) n] by simp
    show "unat (hl_nextHandle (nl_handles ?s)) \<le> k + 1 + 1" using d(2) u a by simp
    show "unat (hl_getCounter g (nl_handles ?s)) \<le> k + 1" using d(3) [of g] a by simp
    show "readable (nl_down ?s) (nc_has (nl_client ?s))" using d(4) f by (simp add: readable_append)
    show "g \<in> fold after1 (nl_down ?s) (nc_has (nl_client ?s))" if "hl_handleToItem (nl_handles ?s) g \<noteq> None"
      using d(5) [of g] that a(3) by (auto split: if_splits)
    show "0 < g \<and> g < hl_nextHandle (nl_handles ?s)"
      if "g \<in> nc_has (nl_client ?s) \<union> messageHandle ` set (nl_down ?s) \<union> fst ` set (nl_up ?s)"
      using d(6) [of g] that lt a(2) hl_invD(5) [OF d(1)] by (auto intro: less_trans)
    show "unat (nc_counter (nl_client ?s) g) + underway g (nl_down ?s) \<le> countBound (k + 1) (nl_handles ?s) g"
      using d(7) [of g] a none z by (auto simp: countBound_def)
    show "0 < x \<and> (hl_handleToItem (nl_handles ?s) g \<noteq> None \<longrightarrow> x \<le> nc_counter (nl_client ?s) g \<and>
        (x = nc_counter (nl_client ?s) g \<longrightarrow> nc_objects (nl_client ?s) g = None))" if "(g, x) \<in> set (nl_up ?s)"
      using d(8) [of g x] that a(3) fresh(3) by force
    show "g \<in> nc_has (nl_client ?s) \<longleftrightarrow> 0 < nc_counter (nl_client ?s) g" using d(9) [of g] by simp
    show "dom (nc_objects (nl_client ?s)) \<inter> dom (nc_requestForRelease (nl_client ?s)) = {}" using d(10) by simp
    show "underway g (nl_down ?s) = 0 \<and> nc_objects (nl_client ?s) g = None \<and> hl_handleToItem (nl_handles ?s) g = None"
      if "ReleasedEvent g \<in> set (nl_down ?s)"
    proof -
      have r: "ReleasedEvent g \<in> set (nl_down s)" using that by simp
      then have "g \<noteq> ?h" using fresh(2) by (metis image_eqI messageHandle.simps(5))
      then show ?thesis using d(11) [OF r] a(3) by simp
    qed
    show "j' = j" if "hl_handleToItem (nl_handles ?s) g = Some j"
      "nc_objects (nl_client ?s) g = Some j' \<or> nc_requestForRelease (nl_client ?s) g = Some j' \<or> NewObject g j' \<in> set (nl_down ?s)"
    proof (cases "g = ?h")
      case True
      then have "NewObject g j' \<notin> set (nl_down s)" using fresh(2) by (metis image_eqI messageHandle.simps(1))
      then show ?thesis using that True fresh(1) a(3) by (auto simp: nc_has_def)
    next
      case False
      then show ?thesis using d(12) [of g j j'] that a(3) by auto
    qed
  qed
qed

text \<open>The server may forget a handle.\<close>

lemma hl_removeHandle_simps:
  "hl_nextHandle (hl_removeHandle h l) = hl_nextHandle l"
  "hl_inv l \<Longrightarrow> hl_handleToItem (hl_removeHandle h l) = (hl_handleToItem l)(h := None)"
  "hl_inv l \<Longrightarrow> hl_getCounter g (hl_removeHandle h l) = (if g = h then 0 else hl_getCounter g l)"
  using hl_invD(3) [of l h]
  by (auto simp: hl_removeHandle_def hl_getCounter_def fun_upd_idem split: option.split)

lemma link_inv_remove:
  assumes inv: "link_inv k s"
  shows "link_inv k (s\<lparr>nl_handles := hl_removeHandle h (nl_handles s)\<rparr>)"
proof -
  note d = link_invD [OF inv]
  note a = hl_removeHandle_simps(1) hl_removeHandle_simps(2,3) [OF d(1)]
  let ?s = "s\<lparr>nl_handles := hl_removeHandle h (nl_handles s)\<rparr>"
  show ?thesis
  proof (rule link_invI)
    fix g x j j'
    show "hl_inv (nl_handles ?s)" using hl_removeHandle_inv [OF d(1)] by simp
    show "unat (hl_nextHandle (nl_handles ?s)) \<le> k + 1" using d(2) a by simp
    show "unat (hl_getCounter g (nl_handles ?s)) \<le> k" using d(3) [of g] a by simp
    show "readable (nl_down ?s) (nc_has (nl_client ?s))" using d(4) by simp
    show "g \<in> fold after1 (nl_down ?s) (nc_has (nl_client ?s))" if "hl_handleToItem (nl_handles ?s) g \<noteq> None"
      using d(5) [of g] that a by (auto split: if_splits)
    show "0 < g \<and> g < hl_nextHandle (nl_handles ?s)"
      if "g \<in> nc_has (nl_client ?s) \<union> messageHandle ` set (nl_down ?s) \<union> fst ` set (nl_up ?s)"
      using d(6) [of g] that a by simp
    show "unat (nc_counter (nl_client ?s) g) + underway g (nl_down ?s) \<le> countBound k (nl_handles ?s) g"
      using d(7) [of g] d(3) [of g] a by (auto simp: countBound_def split: if_splits)
    show "0 < x \<and> (hl_handleToItem (nl_handles ?s) g \<noteq> None \<longrightarrow> x \<le> nc_counter (nl_client ?s) g \<and>
        (x = nc_counter (nl_client ?s) g \<longrightarrow> nc_objects (nl_client ?s) g = None))" if "(g, x) \<in> set (nl_up ?s)"
      using d(8) [of g x] that a by simp
    show "g \<in> nc_has (nl_client ?s) \<longleftrightarrow> 0 < nc_counter (nl_client ?s) g" using d(9) [of g] by simp
    show "dom (nc_objects (nl_client ?s)) \<inter> dom (nc_requestForRelease (nl_client ?s)) = {}" using d(10) by simp
    show "underway g (nl_down ?s) = 0 \<and> nc_objects (nl_client ?s) g = None \<and> hl_handleToItem (nl_handles ?s) g = None"
      if "ReleasedEvent g \<in> set (nl_down ?s)" using d(11) [of g] that a by simp
    show "j' = j" if "hl_handleToItem (nl_handles ?s) g = Some j"
      "nc_objects (nl_client ?s) g = Some j' \<or> nc_requestForRelease (nl_client ?s) g = Some j' \<or> NewObject g j' \<in> set (nl_down ?s)"
      using d(12) [of g j j'] that a by (auto split: if_splits)
  qed
qed

text \<open>
  When the counters agree, everything the server sent has arrived and the client has dropped the object.
\<close>

lemma release_settled:
  assumes inv: "link_inv k s" and up: "(h, x) \<in> set (nl_up s)" and eq: "x = hl_getCounter h (nl_handles s)"
  shows "hl_handleToItem (nl_handles s) h \<noteq> None" and "nc_objects (nl_client s) h = None"
    and "nc_counter (nl_client s) h = x" and "underway h (nl_down s) = 0"
    and "h \<in> fold after1 (nl_down s) (nc_has (nl_client s))"
proof -
  note d = link_invD [OF inv]
  have x: "0 < x" using d(8) [OF up] by blast
  show i: "hl_handleToItem (nl_handles s) h \<noteq> None"
    using x eq hl_invD(3) [OF d(1), of h] by (auto simp: hl_getCounter_def)
  have le: "x \<le> nc_counter (nl_client s) h" using d(8) [OF up] i by blast
  have "unat (nc_counter (nl_client s) h) + underway h (nl_down s) \<le> unat x"
    using d(7) [of h] i eq by (simp add: countBound_def)
  then show u: "underway h (nl_down s) = 0" and n: "nc_counter (nl_client s) h = x"
    using le by (simp_all add: word_le_nat_alt word_unat_eq_iff)
  show "nc_objects (nl_client s) h = None" using d(8) [OF up] i n by blast
  show "h \<in> fold after1 (nl_down s) (nc_has (nl_client s))" by (rule d(5) [OF i])
qed

lemma link_inv_consume:
  assumes inv: "link_inv k s" and "nl_up s = (h, x) # ms"
  shows "link_inv k (s\<lparr>nl_up := ms\<rparr>)"
proof -
  note d = link_invD [OF inv]
  let ?s = "s\<lparr>nl_up := ms\<rparr>"
  show ?thesis
  proof (rule link_invI)
    fix g y j j'
    show "0 < g \<and> g < hl_nextHandle (nl_handles ?s)"
      if "g \<in> nc_has (nl_client ?s) \<union> messageHandle ` set (nl_down ?s) \<union> fst ` set (nl_up ?s)"
      using d(6) [of g] that assms(2) by auto
    show "0 < y \<and> (hl_handleToItem (nl_handles ?s) g \<noteq> None \<longrightarrow> y \<le> nc_counter (nl_client ?s) g \<and>
        (y = nc_counter (nl_client ?s) g \<longrightarrow> nc_objects (nl_client ?s) g = None))" if "(g, y) \<in> set (nl_up ?s)"
      using d(8) [of g y] that assms(2) by simp
    show "j' = j" if "hl_handleToItem (nl_handles ?s) g = Some j"
      "nc_objects (nl_client ?s) g = Some j' \<or> nc_requestForRelease (nl_client ?s) g = Some j' \<or> NewObject g j' \<in> set (nl_down ?s)"
      using d(12) [of g j j'] that by simp
  qed (use d in simp_all)
qed

lemma link_inv_released:
  assumes inv: "link_inv k s" and up: "nl_up s = (h, x) # ms" and eq: "x = hl_getCounter h (nl_handles s)"
  shows "link_inv k (s\<lparr>nl_up := ms, nl_handles := hl_removeHandle h (nl_handles s),
    nl_down := nl_down s @ [ReleasedEvent h]\<rparr>)"
proof -
  have m: "(h, x) \<in> set (nl_up s)" using up by simp
  note q = release_settled [OF inv m eq]
  let ?r = "s\<lparr>nl_up := ms, nl_handles := hl_removeHandle h (nl_handles s)\<rparr>"
  let ?s = "s\<lparr>nl_up := ms, nl_handles := hl_removeHandle h (nl_handles s), nl_down := nl_down s @ [ReleasedEvent h]\<rparr>"
  have r: "link_inv k ?r"
    using link_inv_remove [OF link_inv_consume [OF inv up], of h] by simp
  note d = link_invD [OF r]
  have gone: "hl_handleToItem (hl_removeHandle h (nl_handles s)) h = None"
    using hl_removeHandle_simps(2) [OF link_invD(1) [OF inv]] by simp
  have b: "0 < h \<and> h < hl_nextHandle (nl_handles s)" using link_invD(6) [OF inv, of h] m by force
  show ?thesis
  proof (rule link_invI)
    fix g y j j'
    show "g \<in> fold after1 (nl_down ?s) (nc_has (nl_client ?s))" if "hl_handleToItem (nl_handles ?s) g \<noteq> None"
      using d(5) [of g] that gone by (cases "g = h") auto
    show "0 < g \<and> g < hl_nextHandle (nl_handles ?s)"
      if "g \<in> nc_has (nl_client ?s) \<union> messageHandle ` set (nl_down ?s) \<union> fst ` set (nl_up ?s)"
      using d(6) [of g] that b by (auto simp: hl_removeHandle_simps)
    show "unat (nc_counter (nl_client ?s) g) + underway g (nl_down ?s) \<le> countBound k (nl_handles ?s) g"
      using d(7) [of g] by simp
    show "readable (nl_down ?s) (nc_has (nl_client ?s))" using d(4) q(5) by (simp add: readable_append)
    show "underway g (nl_down ?s) = 0 \<and> nc_objects (nl_client ?s) g = None \<and> hl_handleToItem (nl_handles ?s) g = None"
      if "ReleasedEvent g \<in> set (nl_down ?s)"
      using d(11) [of g] that q(2,4) gone by auto
    show "0 < y \<and> (hl_handleToItem (nl_handles ?s) g \<noteq> None \<longrightarrow> y \<le> nc_counter (nl_client ?s) g \<and>
        (y = nc_counter (nl_client ?s) g \<longrightarrow> nc_objects (nl_client ?s) g = None))" if "(g, y) \<in> set (nl_up ?s)"
      using d(8) [of g y] that by simp
    show "j' = j" if "hl_handleToItem (nl_handles ?s) g = Some j"
      "nc_objects (nl_client ?s) g = Some j' \<or> nc_requestForRelease (nl_client ?s) g = Some j' \<or> NewObject g j' \<in> set (nl_down ?s)"
      using d(12) [of g j j'] that by auto
  qed (use d in simp_all)
qed

section \<open>The client's steps\<close>

lemma link_inv_client:
  assumes inv: "link_inv k s" and down: "nl_down s = m # ms" and h: "messageHandle m = h"
    and has: "nc_has c = after1 m (nc_has (nl_client s))"
    and other: "\<And>g. g \<noteq> h \<Longrightarrow> nc_objects c g = nc_objects (nl_client s) g \<and>
      nc_requestForRelease c g = nc_requestForRelease (nl_client s) g \<and> nc_counter c g = nc_counter (nl_client s) g"
    and cnt: "unat (nc_counter c h) + underway h ms \<le> countBound k (nl_handles s) h"
    and pos: "h \<in> nc_has c \<longleftrightarrow> 0 < nc_counter c h"
    and one: "nc_objects c h = None \<or> nc_requestForRelease c h = None"
    and up: "\<And>x. hl_handleToItem (nl_handles s) h \<noteq> None \<Longrightarrow> 0 < x \<Longrightarrow> x \<le> nc_counter (nl_client s) h \<Longrightarrow>
      x = nc_counter (nl_client s) h \<longrightarrow> nc_objects (nl_client s) h = None \<Longrightarrow>
      x \<le> nc_counter c h \<and> (x = nc_counter c h \<longrightarrow> nc_objects c h = None)"
    and rel: "ReleasedEvent h \<in> set ms \<Longrightarrow> nc_objects c h = None"
    and own: "\<And>j. nc_objects c h = Some j \<or> nc_requestForRelease c h = Some j \<Longrightarrow>
      nc_objects (nl_client s) h = Some j \<or> nc_requestForRelease (nl_client s) h = Some j \<or> NewObject h j \<in> set (nl_down s)"
  shows "link_inv k (s\<lparr>nl_client := c, nl_down := ms\<rparr>)"
proof -
  note d = link_invD [OF inv]
  let ?s = "s\<lparr>nl_client := c, nl_down := ms\<rparr>"
  have sub: "nc_has c \<subseteq> insert h (nc_has (nl_client s))" unfolding has using h by (cases m) auto
  show ?thesis
  proof (rule link_invI)
    fix g y j j'
    show "readable (nl_down ?s) (nc_has (nl_client ?s))" using d(4) down has by simp
    show "g \<in> fold after1 (nl_down ?s) (nc_has (nl_client ?s))" if "hl_handleToItem (nl_handles ?s) g \<noteq> None"
      using d(5) [of g] that down has by simp
    show "0 < g \<and> g < hl_nextHandle (nl_handles ?s)"
      if "g \<in> nc_has (nl_client ?s) \<union> messageHandle ` set (nl_down ?s) \<union> fst ` set (nl_up ?s)"
      using d(6) [of g] that sub down h by auto
    show "unat (nc_counter (nl_client ?s) g) + underway g (nl_down ?s) \<le> countBound k (nl_handles ?s) g"
      using d(7) [of g] cnt other [of g] down by (cases "g = h") auto
    show "0 < y \<and> (hl_handleToItem (nl_handles ?s) g \<noteq> None \<longrightarrow> y \<le> nc_counter (nl_client ?s) g \<and>
        (y = nc_counter (nl_client ?s) g \<longrightarrow> nc_objects (nl_client ?s) g = None))" if "(g, y) \<in> set (nl_up ?s)"
      using d(8) [of g y] that other [of g] up [of y] by (cases "g = h") auto
    show "g \<in> nc_has (nl_client ?s) \<longleftrightarrow> 0 < nc_counter (nl_client ?s) g"
      using d(9) [of g] pos other [of g] by (cases "g = h") (auto simp: nc_has_def)
    have "nc_objects c a = None \<or> nc_requestForRelease c a = None" for a
      using d(10) one other [of a] by (cases "a = h") auto
    then show "dom (nc_objects (nl_client ?s)) \<inter> dom (nc_requestForRelease (nl_client ?s)) = {}"
      by (simp add: disjoint_iff domIff) (metis option.distinct(1))
    show "underway g (nl_down ?s) = 0 \<and> nc_objects (nl_client ?s) g = None \<and> hl_handleToItem (nl_handles ?s) g = None"
      if "ReleasedEvent g \<in> set (nl_down ?s)"
      using d(11) [of g] that down rel other [of g] by (cases "g = h") (auto split: if_splits)
    show "j' = j" if "hl_handleToItem (nl_handles ?s) g = Some j"
      "nc_objects (nl_client ?s) g = Some j' \<or> nc_requestForRelease (nl_client ?s) g = Some j' \<or> NewObject g j' \<in> set (nl_down ?s)"
      using d(12) [of g j j'] that down own [of j'] other [of g] by (cases "g = h") auto
  qed (use d in simp_all)
qed

lemma nc_simps [simp]:
  "nc_objects (nc_count h c) = nc_objects c"
  "nc_requestForRelease (nc_count h c) = nc_requestForRelease c"
  "nc_counter (nc_count h c) g = (if g = h then nc_counter c h + 1 else nc_counter c g)"
  "nc_objects (nc_reuse h ob c) = (nc_objects c)(h \<mapsto> ob)"
  "nc_requestForRelease (nc_reuse h ob c) = (nc_requestForRelease c)(h := None)"
  "nc_counter (nc_reuse h ob c) g = (if g = h then nc_counter c h + 1 else nc_counter c g)"
  "nc_objects (nc_create h ob c) = (nc_objects c)(h \<mapsto> ob)"
  "nc_requestForRelease (nc_create h ob c) = nc_requestForRelease c"
  "nc_counter (nc_create h ob c) g = (if g = h then 1 else nc_counter c g)"
  "nc_objects (nc_released h c) = nc_objects c"
  "nc_requestForRelease (nc_released h c) = (nc_requestForRelease c)(h := None)"
  "nc_counter (nc_released h c) g = (if g = h then 0 else nc_counter c g)"
  by (simp_all add: nc_count_def nc_reuse_def nc_create_def nc_released_def nc_counter_def)

lemma nc_count_more:
  assumes "link_inv k s" and "k + 1 < 2 ^ 32"
  shows "unat (nc_counter (nl_client s) h + 1) = unat (nc_counter (nl_client s) h) + 1"
    and "nc_counter (nl_client s) h < nc_counter (nl_client s) h + 1"
proof -
  have "unat (nc_counter (nl_client s) h) \<le> k"
    using link_invD(7) [OF assms(1), of h] link_invD(3) [OF assms(1), of h] by (auto simp: countBound_def split: if_splits)
  then show u: "unat (nc_counter (nl_client s) h + 1) = unat (nc_counter (nl_client s) h) + 1"
    by (rule unat_Suc32 [OF _ assms(2)])
  then show "nc_counter (nl_client s) h < nc_counter (nl_client s) h + 1" by (simp add: word_less_nat_alt)
qed

text \<open>The client reads the next message: it never reads behind the message's end.\<close>

lemma client_reads:
  assumes inv: "link_inv k s" and k: "k + 1 < 2 ^ 32" and down: "nl_down s = m # ms"
  obtains c where "nc_process m (nl_client s) = Some c"
    and "link_inv k (s\<lparr>nl_client := c, nl_down := ms\<rparr>)"
proof -
  note d = link_invD [OF inv]
  note result = that
  let ?c = "nl_client s"
  define h where "h = messageHandle m"
  have need: "needs1 m (nc_has ?c)" using d(4) down by simp
  have one: "nc_objects ?c h = None \<or> nc_requestForRelease ?c h = None" using d(10) by (auto simp: domIff)
  note cnt = d(7) [of h] and more = nc_count_more [OF inv k, of h]
  have more': "x \<le> nc_counter ?c h \<Longrightarrow> x \<le> nc_counter ?c h + 1 \<and> x \<noteq> nc_counter ?c h + 1" for x
    using more(2) by auto
  have rel: "ReleasedEvent h \<in> set ms \<Longrightarrow> underway h (m # ms) = 0 \<and> nc_objects ?c h = None"
    using d(11) [of h] down by simp
  have plus: "0 < nc_counter ?c h + 1" using more(1) by (simp add: word_less_nat_alt)
  have quiet: thesis if "nc_process m ?c = Some ?c" "after1 m = id" "isCounted m \<longrightarrow> nc_objects ?c h = None"
    by (rule result [OF that(1)], rule link_inv_client [OF inv down refl])
      (use d(9) [of h] cnt one that rel down in \<open>auto simp flip: h_def\<close>)
  show thesis
  proof (cases m)
    case (NewObject g i)
    then have g: "g = h" by (simp add: h_def)
    have out: "nc_objects ?c h = None" "nc_requestForRelease ?c h = None"
      using need NewObject g by (auto simp: nc_has_def domIff)
    then have z: "nc_counter ?c h = 0" using d(9) [of h] by (auto simp: nc_has_def word_gt_0)
    show thesis
      by (rule that [of "nc_create h i ?c"], use NewObject g out in \<open>simp add: nc_process_def nc_read_def\<close>,
          rule link_inv_client [OF inv down])
        (use NewObject g out z cnt rel down in \<open>auto simp: nc_has_def\<close>)
  next
    case (KnownObject g)
    then have g: "g = h" by (simp add: h_def)
    have "h \<in> nc_has ?c" using need KnownObject g by simp
    then consider ob where "nc_objects ?c h = Some ob"
      | ob where "nc_objects ?c h = None" "nc_requestForRelease ?c h = Some ob" by (auto simp: nc_has_def)
    then show thesis
    proof cases
      case 1
      show thesis
        by (rule that [of "nc_count h ?c"], use KnownObject g 1 in \<open>simp add: nc_process_def nc_read_def\<close>,
            rule link_inv_client [OF inv down])
          (use KnownObject g 1 cnt rel down one more more' plus in \<open>auto simp: nc_has_def\<close>)
    next
      case 2
      show thesis
        by (rule that [of "nc_reuse h ob ?c"], use KnownObject g 2 in \<open>simp add: nc_process_def nc_read_def\<close>,
            rule link_inv_client [OF inv down])
          (use KnownObject g 2 cnt rel down one more more' plus in \<open>auto simp: nc_has_def\<close>)
    qed
  next
    case (CountedEvent g)
    then have g: "g = h" by (simp add: h_def)
    show thesis
    proof (cases "nc_objects ?c h")
      case None
      show thesis by (rule quiet) (use None CountedEvent g in \<open>auto simp: nc_process_def\<close>)
    next
      case (Some ob)
      show thesis
        by (rule that [of "nc_count h ?c"], use CountedEvent g Some in \<open>simp add: nc_process_def\<close>,
            rule link_inv_client [OF inv down])
          (use CountedEvent g Some cnt rel down one more more' plus in \<open>auto simp: nc_has_def\<close>)
    qed
  next
    case (ChangedEvent g)
    show thesis by (rule quiet) (use ChangedEvent in \<open>auto simp: nc_process_def\<close>)
  next
    case (DestroyedEvent g)
    show thesis by (rule quiet) (use DestroyedEvent in \<open>auto simp: nc_process_def\<close>)
  next
    case (ReleasedEvent g)
    then have g: "g = h" by (simp add: h_def)
    have r: "nc_objects ?c h = None" "hl_handleToItem (nl_handles s) h = None" "underway h ms = 0"
      using d(11) [of h] down ReleasedEvent g by auto
    show thesis
      by (rule that [of "nc_released h ?c"], use ReleasedEvent g in \<open>simp add: nc_process_def\<close>,
          rule link_inv_client [OF inv down])
        (use ReleasedEvent g r in \<open>auto simp: nc_has_def\<close>)
  qed
qed

lemma nc_drop_simps:
  assumes "nc_objects c h = Some ob"
  shows "fst (nc_drop h c) = [(h, nc_counter c h)]"
    and "nc_objects (snd (nc_drop h c)) = (nc_objects c)(h := None)"
    and "nc_requestForRelease (snd (nc_drop h c)) = hl_emplace h ob (nc_requestForRelease c)"
    and "nc_counter (snd (nc_drop h c)) g = nc_counter c g"
  using assms by (simp_all add: nc_drop_def nc_counter_def split: option.split)

lemma link_inv_drop:
  assumes inv: "link_inv k s" and ob: "nc_objects (nl_client s) h = Some ob"
  shows "link_inv k (s\<lparr>nl_client := snd (nc_drop h (nl_client s)), nl_up := nl_up s @ fst (nc_drop h (nl_client s))\<rparr>)"
proof -
  note d = link_invD [OF inv] and a = nc_drop_simps [OF ob]
  let ?s = "s\<lparr>nl_client := snd (nc_drop h (nl_client s)), nl_up := nl_up s @ fst (nc_drop h (nl_client s))\<rparr>"
  have r: "nc_requestForRelease (nl_client s) h = None" using d(10) ob by (auto simp: domIff)
  have has: "nc_has (nl_client ?s) = nc_has (nl_client s)"
    using a r ob by (auto simp: nc_has_def hl_emplace_def split: if_splits)
  have h: "h \<in> nc_has (nl_client s)" using ob by (auto simp: nc_has_def)
  show ?thesis
  proof (rule link_invI)
    fix g y j j'
    show "readable (nl_down ?s) (nc_has (nl_client ?s))" unfolding has using d(4) by simp
    show "g \<in> fold after1 (nl_down ?s) (nc_has (nl_client ?s))" if "hl_handleToItem (nl_handles ?s) g \<noteq> None"
      unfolding has using d(5) [of g] that by simp
    show "0 < g \<and> g < hl_nextHandle (nl_handles ?s)"
      if "g \<in> nc_has (nl_client ?s) \<union> messageHandle ` set (nl_down ?s) \<union> fst ` set (nl_up ?s)"
      using d(6) [of g] that h a(1) unfolding has by auto
    show "unat (nc_counter (nl_client ?s) g) + underway g (nl_down ?s) \<le> countBound k (nl_handles ?s) g"
      using d(7) [of g] a(4) by simp
    show "0 < y \<and> (hl_handleToItem (nl_handles ?s) g \<noteq> None \<longrightarrow> y \<le> nc_counter (nl_client ?s) g \<and>
        (y = nc_counter (nl_client ?s) g \<longrightarrow> nc_objects (nl_client ?s) g = None))" if "(g, y) \<in> set (nl_up ?s)"
      using d(8) [of g y] d(9) [of h] that a h ob by auto
    show "g \<in> nc_has (nl_client ?s) \<longleftrightarrow> 0 < nc_counter (nl_client ?s) g"
      unfolding has using d(9) [of g] a(4) by simp
    show "dom (nc_objects (nl_client ?s)) \<inter> dom (nc_requestForRelease (nl_client ?s)) = {}"
      using d(10) a(2,3) r by (auto simp: hl_emplace_def domIff disjoint_iff)
    show "underway g (nl_down ?s) = 0 \<and> nc_objects (nl_client ?s) g = None \<and> hl_handleToItem (nl_handles ?s) g = None"
      if "ReleasedEvent g \<in> set (nl_down ?s)" using d(11) [of g] that a(2) by auto
    show "j' = j" if "hl_handleToItem (nl_handles ?s) g = Some j"
      "nc_objects (nl_client ?s) g = Some j' \<or> nc_requestForRelease (nl_client ?s) g = Some j' \<or> NewObject g j' \<in> set (nl_down ?s)"
      using d(12) [of g j j'] that a(2,3) ob r by (auto simp: hl_emplace_def split: if_splits)
  qed (use d in simp_all)
qed

section \<open>All actions\<close>

lemma link_inv_mono: "link_inv k s \<Longrightarrow> link_inv (k + 1) s"
proof -
  assume inv: "link_inv k s"
  note d = link_invD [OF inv]
  show ?thesis
  proof (rule link_invI)
    fix g y j j'
    show "unat (hl_getCounter g (nl_handles s)) \<le> k + 1" using d(3) [of g] by simp
    show "unat (nc_counter (nl_client s) g) + underway g (nl_down s) \<le> countBound (k + 1) (nl_handles s) g"
      using d(7) [of g] by (auto simp: countBound_def split: if_splits)
    show "underway g (nl_down s) = 0 \<and> nc_objects (nl_client s) g = None \<and> hl_handleToItem (nl_handles s) g = None"
      if "ReleasedEvent g \<in> set (nl_down s)" using d(11) that by blast
    show "j' = j" if "hl_handleToItem (nl_handles s) g = Some j"
      "nc_objects (nl_client s) g = Some j' \<or> nc_requestForRelease (nl_client s) g = Some j' \<or> NewObject g j' \<in> set (nl_down s)"
      using d(12) that by blast
  qed (use d in simp_all)
qed

text \<open>An object the server has a handle for is sent with that handle.\<close>

lemma getHandle_known:
  assumes "hl_itemToHandle l i = Some h"
  shows "hl_getHandle (Some i) l = (h, hl_count h l)"
  using assms by (simp add: hl_getHandle_def)

lemma writeObject_cases:
  assumes "hl_inv l"
  obtains h where "hl_itemToHandle l i = Some h" "nl_writeObject i l = (KnownObject h, hl_count h l)"
  | "hl_itemToHandle l i = None" "nl_writeObject i l = (NewObject (fst (hl_addItem (Some i) l)) i, snd (hl_addItem (Some i) l))"
proof (cases "hl_itemToHandle l i")
  case None
  then show thesis by (intro that(2)) (simp_all add: nl_writeObject_def hl_getHandle_def case_prod_unfold Let_def)
next
  case (Some h)
  then have "h \<noteq> 0" using hl_invD(2,7) [OF assms] by fastforce
  then show thesis using Some that(1) by (simp add: nl_writeObject_def getHandle_known)
qed

lemma net_act_inv:
  assumes inv: "link_inv k s" and k: "k + 2 < 2 ^ 32" and act: "net_act a s = Some s'"
  shows "link_inv (k + 1) s'"
proof -
  note d = link_invD [OF inv]
  have k1: "k + 1 < 2 ^ 32" using k by simp
  show ?thesis
  proof (cases a)
    case (WriteObject i)
    show ?thesis
    proof (rule writeObject_cases [OF d(1), of i])
      fix h assume h: "hl_itemToHandle (nl_handles s) i = Some h" "nl_writeObject i (nl_handles s) = (KnownObject h, hl_count h (nl_handles s))"
      then have "hl_handleToItem (nl_handles s) h \<noteq> None" using hl_invD(2) [OF d(1)] by blast
      then show ?thesis using link_inv_send [OF inv k1, of h "KnownObject h"] act h(2) WriteObject by (simp add: net_act_def)
    next
      assume n: "hl_itemToHandle (nl_handles s) i = None"
        "nl_writeObject i (nl_handles s) = (NewObject (fst (hl_addItem (Some i) (nl_handles s))) i, snd (hl_addItem (Some i) (nl_handles s)))"
      have "fst (hl_addItem (Some i) (nl_handles s)) = hl_nextHandle (nl_handles s)"
        using n(1) by (simp add: hl_addItem_def Let_def)
      then show ?thesis using link_inv_new [OF inv k n(1)] act n(2) WriteObject by (simp add: net_act_def)
    qed
  next
    case (FireCounted i)
    then obtain h where h: "hl_itemToHandle (nl_handles s) i = Some h"
      using act by (auto simp: net_act_def nl_event_def split: if_splits)
    then have "hl_handleToItem (nl_handles s) h \<noteq> None" using hl_invD(2) [OF d(1)] by blast
    then show ?thesis
      using link_inv_send [OF inv k1, of h "CountedEvent h"] act h FireCounted
      by (simp add: net_act_def nl_event_def getHandle_known)
  next
    case (FireChanged i)
    then obtain h where h: "hl_itemToHandle (nl_handles s) i = Some h"
      using act by (auto simp: net_act_def nl_event_def split: if_splits)
    then have "hl_handleToItem (nl_handles s) h \<noteq> None" using hl_invD(2) [OF d(1)] by blast
    then show ?thesis
      using link_inv_send [OF inv k1, of h "ChangedEvent h"] act h FireChanged
      by (simp add: net_act_def nl_event_def getHandle_known)
  next
    case (Destroy i)
    then obtain h where h: "hl_itemToHandle (nl_handles s) i = Some h"
      using act by (auto simp: net_act_def split: if_splits)
    then have "hl_handleToItem (nl_handles s) h \<noteq> None" using hl_invD(2) [OF d(1)] by blast
    from link_inv_remove [OF link_inv_send [OF inv k1 this, of "DestroyedEvent h"], of h] show ?thesis
      using act h Destroy by (cases s) (auto simp: net_act_def getHandle_known)
  next
    case (DropObject h)
    then obtain ob where "nc_objects (nl_client s) h = Some ob" using act by (auto simp: net_act_def split: if_splits)
    from link_inv_mono [OF link_inv_drop [OF inv this]] show ?thesis
      using act DropObject by (simp add: net_act_def case_prod_unfold Let_def split: if_splits)
  next
    case ClientReads
    then obtain m ms where m: "nl_down s = m # ms" using act by (auto simp: net_act_def split: list.splits)
    obtain c where "nc_process m (nl_client s) = Some c" "link_inv k (s\<lparr>nl_client := c, nl_down := ms\<rparr>)"
      using client_reads [OF inv k1 m] by blast
    then show ?thesis using link_inv_mono act ClientReads m by (simp add: net_act_def)
  next
    case ServerReads
    then obtain h x ms where m: "nl_up s = (h, x) # ms" using act by (auto simp: net_act_def split: list.splits)
    show ?thesis
    proof (cases "x = hl_getCounter h (nl_handles s)")
      case True
      from link_inv_mono [OF link_inv_released [OF inv m True]] show ?thesis
        using act ServerReads m True by (simp add: net_act_def nl_release_def)
    next
      case False
      from link_inv_mono [OF link_inv_consume [OF inv m]] show ?thesis
        using act ServerReads m False by (simp add: net_act_def nl_release_def)
    qed
  qed
qed

lemma net_run_inv:
  "link_inv k s \<Longrightarrow> net_run as s = Some s' \<Longrightarrow> k + length as + 1 < 2 ^ 32 \<Longrightarrow> link_inv (k + length as) s'"
proof (induction as arbitrary: k s)
  case (Cons a as)
  then obtain s1 where s1: "net_act a s = Some s1" "net_run as s1 = Some s'" by (auto split: bind_splits)
  have "link_inv (k + 1) s1" using net_act_inv [OF Cons.prems(1) _ s1(1)] Cons.prems(3) by simp
  from Cons.IH [OF this s1(2)] Cons.prems(3) show ?case by simp
qed simp

lemma net_run_init: "net_run as NetLink_init = Some s \<Longrightarrow> length as + 1 < 2 ^ 32 \<Longrightarrow> link_inv (length as) s"
  using net_run_inv [OF link_inv_init] by simp

section \<open>Handles that are never given up\<close>

text \<open>Once the client has missed a count, the server never consents.\<close>

definition behind :: "u32 \<Rightarrow> nat \<Rightarrow> NetLink \<Rightarrow> bool" where
  "behind h i s \<longleftrightarrow> hl_itemToHandle (nl_handles s) i = Some h \<and>
    unat (nc_counter (nl_client s) h) + underway h (nl_down s) < unat (hl_getCounter h (nl_handles s))"

lemma behind_act:
  assumes inv: "link_inv k s" and k: "k + 2 < 2 ^ 32" and b: "behind h i s"
    and act: "net_act a s = Some s'" and "a \<noteq> Destroy i"
  shows "behind h i s'"
proof -
  note d = link_invD [OF inv]
  let ?l = "nl_handles s" and ?c = "nl_client s"
  have ih: "hl_itemToHandle ?l i = Some h" "hl_handleToItem ?l h = Some i"
    and lt: "unat (nc_counter ?c h) + underway h (nl_down s) < unat (hl_getCounter h ?l)"
    using b hl_invD(2) [OF d(1)] by (auto simp: behind_def)
  have k1: "k + 1 < 2 ^ 32" using k by simp
  have u: "unat (hl_getCounter g ?l + 1) = unat (hl_getCounter g ?l) + 1" for g by (rule unat_Suc32 [OF d(3) k1])
  have send: "behind h i (s\<lparr>nl_handles := hl_count g ?l, nl_down := nl_down s @ [m]\<rparr>)" if "messageHandle m = g" for g m
    using ih lt u [of h] that by (auto simp: behind_def)
  show ?thesis
  proof (cases a)
    case (WriteObject j)
    show ?thesis
    proof (rule writeObject_cases [OF d(1), of j])
      fix g assume "hl_itemToHandle ?l j = Some g" "nl_writeObject j ?l = (KnownObject g, hl_count g ?l)"
      then show ?thesis using send [of "KnownObject g" g] act WriteObject by (simp add: net_act_def)
    next
      assume n: "hl_itemToHandle ?l j = None"
        "nl_writeObject j ?l = (NewObject (fst (hl_addItem (Some j) ?l)) j, snd (hl_addItem (Some j) ?l))"
      have x: "hl_nextHandle ?l + 1 \<noteq> 0"
        using unat_Suc32 [OF d(2)] k by (metis add.commute add_2_eq_Suc' add_Suc_right add_is_0 one_neq_zero unat_0 plus_1_eq_Suc)
      have "h \<noteq> hl_nextHandle ?l" "j \<noteq> i" using hl_invD(4) [OF d(1) ih(2)] n(1) ih(1) by auto
      moreover have "hl_itemToHandle (snd (hl_addItem (Some j) ?l)) i = Some h"
        using n(1) ih(1) \<open>j \<noteq> i\<close> by (simp add: hl_addItem_def Let_def hl_emplace_def)
      ultimately show ?thesis
        using lt act n WriteObject hl_addItem_new [OF d(1) n(1) x] by (auto simp: net_act_def behind_def)
    qed
  next
    case (FireCounted j)
    then obtain g where "hl_itemToHandle ?l j = Some g" using act by (auto simp: net_act_def nl_event_def split: if_splits)
    then show ?thesis using send [of "CountedEvent g" g] act FireCounted by (simp add: net_act_def nl_event_def getHandle_known)
  next
    case (FireChanged j)
    then obtain g where "hl_itemToHandle ?l j = Some g" using act by (auto simp: net_act_def nl_event_def split: if_splits)
    then show ?thesis using send [of "ChangedEvent g" g] act FireChanged by (simp add: net_act_def nl_event_def getHandle_known)
  next
    case (Destroy j)
    then obtain g where g: "hl_itemToHandle ?l j = Some g" using act by (auto simp: net_act_def split: if_splits)
    have "j \<noteq> i" "g \<noteq> h" using Destroy assms(5) g ih hl_invD(2) [OF d(1)] by fastforce+
    moreover have "hl_itemToHandle (hl_removeHandle g (hl_count g ?l)) i = Some h"
      using \<open>j \<noteq> i\<close> ih(1) hl_invD(2) [OF d(1) g] by (auto simp: hl_removeHandle_def)
    moreover have "hl_getCounter h (hl_removeHandle g (hl_count g ?l)) = hl_getCounter h ?l"
      using \<open>g \<noteq> h\<close> by (auto simp: hl_removeHandle_def hl_getCounter_def hl_count_def split: option.split)
    ultimately show ?thesis using act Destroy g lt by (auto simp: net_act_def getHandle_known behind_def)
  next
    case (DropObject g)
    then obtain ob where ob: "nc_objects ?c g = Some ob" using act by (auto simp: net_act_def split: if_splits)
    then show ?thesis
      using act DropObject ih lt nc_drop_simps(4) [OF ob, of h]
      by (auto simp: net_act_def case_prod_unfold Let_def behind_def split: if_splits)
  next
    case ClientReads
    then obtain m ms where m: "nl_down s = m # ms" using act by (auto simp: net_act_def split: list.splits)
    obtain c where c: "nc_process m ?c = Some c" using client_reads [OF inv k1 m] by blast
    have "unat (nc_counter c h) + underway h ms \<le> unat (nc_counter ?c h) + underway h (nl_down s)"
    proof (cases "messageHandle m = h")
      case False
      then have "nc_counter c h = nc_counter ?c h"
        using c by (cases m) (auto simp: nc_process_def nc_read_def split: option.splits if_splits)
      then show ?thesis using m by simp
    next
      case True
      have "unat (nc_counter c h) \<le> unat (nc_counter ?c h) + (if isCounted m then 1 else 0)"
      proof (cases m)
        case (NewObject g j)
        then have "nc_objects ?c h = None" "nc_requestForRelease ?c h = None"
          using d(4) m True by (auto simp: nc_has_def domIff)
        then have "nc_counter c h = 1" using c NewObject True by (auto simp: nc_process_def nc_read_def)
        then show ?thesis using NewObject by simp
      qed (use c True nc_count_more(1) [OF inv k1, of h] in
          \<open>auto simp: nc_process_def nc_read_def split: option.splits if_splits\<close>)
      then show ?thesis using m True by auto
    qed
    then show ?thesis using act ClientReads m c ih(1) lt by (auto simp: net_act_def behind_def)
  next
    case ServerReads
    then obtain g x ms where m: "nl_up s = (g, x) # ms" using act by (auto simp: net_act_def split: list.splits)
    show ?thesis
    proof (cases "x = hl_getCounter g ?l")
      case True
      have e: "hl_handleToItem ?l g \<noteq> None" "nc_counter ?c g = x"
        using release_settled(1,3) [OF inv _ True] m by auto
      then have "g \<noteq> h" using lt True by auto
      then have "hl_itemToHandle (hl_removeHandle g ?l) i = Some h" "hl_getCounter h (hl_removeHandle g ?l) = hl_getCounter h ?l"
        using ih hl_invD(1) [OF d(1)]
        by (auto simp: hl_removeHandle_def hl_getCounter_def split: option.split) (metis option.inject)
      then show ?thesis using act ServerReads m True lt \<open>g \<noteq> h\<close> by (auto simp: net_act_def nl_release_def behind_def)
    next
      case False
      then show ?thesis using act ServerReads m ih lt by (auto simp: net_act_def nl_release_def behind_def)
    qed
  qed
qed

lemma behind_run:
  "link_inv k s \<Longrightarrow> behind h i s \<Longrightarrow> net_run as s = Some s' \<Longrightarrow> k + length as + 1 < 2 ^ 32 \<Longrightarrow> Destroy i \<notin> set as \<Longrightarrow>
    behind h i s'"
proof (induction as arbitrary: k s)
  case (Cons a as)
  then obtain s1 where s1: "net_act a s = Some s1" "net_run as s1 = Some s'" by (auto split: bind_splits)
  have "link_inv (k + 1) s1" "behind h i s1"
    using net_act_inv [OF Cons.prems(1) _ s1(1)] behind_act [OF Cons.prems(1) _ Cons.prems(2) s1(1)] Cons.prems(4,5) by auto
  from Cons.IH [OF this s1(2)] Cons.prems(4,5) show ?case by simp
qed simp

end
