(* ===== verification/Net_Session.thy ===== *)
theory Net_Session
  imports Net_Objects "HOL-Library.Sublist"
begin

text \<open>
  A connection of the server and the requests of its session:
  \<^verbatim>\<open>src/server/src/network/connection.cpp\<close>, \<^verbatim>\<open>src/server/src/network/session.cpp\<close>.  The objects
  themselves are behind an interface: what they are like in a state of the world, and what setting a
  property, a unit, importing or exporting a world does to it (\<open>Inl\<close> for what is thrown).
\<close>

record 'w SessionWorld =
  sw_object :: "'w \<Rightarrow> nat \<Rightarrow> NetObject"
  sw_byPath :: "'w \<Rightarrow> bytes \<Rightarrow> nat option"
  sw_setProperty :: "nat \<Rightarrow> bytes \<Rightarrow> NetValue \<Rightarrow> 'w \<Rightarrow> bytes + 'w"
  sw_setElement :: "nat \<Rightarrow> bytes \<Rightarrow> u32 \<Rightarrow> NetValue \<Rightarrow> 'w \<Rightarrow> bytes + 'w"
  sw_setObject :: "nat \<Rightarrow> bytes \<Rightarrow> nat option \<Rightarrow> 'w \<Rightarrow> bytes + 'w"
  sw_setUnit :: "nat \<Rightarrow> bytes \<Rightarrow> usize \<Rightarrow> 'w \<Rightarrow> bytes + 'w"
  sw_toObject :: "'w \<Rightarrow> nat \<Rightarrow> bytes \<Rightarrow> nat option"
  sw_getObject :: "'w \<Rightarrow> nat \<Rightarrow> bytes \<Rightarrow> nat \<Rightarrow> nat option"
  sw_import :: "bytes \<Rightarrow> 'w \<Rightarrow> (u32 \<times> bytes list) + 'w"
  sw_export :: "'w \<Rightarrow> ((u32 \<times> bytes list) + bytes) option"

abbreviation (input) C1010 :: u32 where "C1010 \<equiv> 5001010"
abbreviation (input) C1014 :: u32 where "C1014 \<equiv> 5001014"
abbreviation (input) C1015 :: u32 where "C1015 \<equiv> 5001015"
abbreviation (input) C1016 :: u32 where "C1016 \<equiv> 5001016"
abbreviation (input) C1017 :: u32 where "C1017 \<equiv> 5001017"
abbreviation (input) C1018 :: u32 where "C1018 \<equiv> 5001018"

definition isRequest :: "NetMessage \<Rightarrow> bool" where "isRequest m \<longleftrightarrow> nm_type m = 1"
definition isResponse :: "NetMessage \<Rightarrow> bool" where "isResponse m \<longleftrightarrow> nm_type m = 2"
definition isEvent :: "NetMessage \<Rightarrow> bool" where "isEvent m \<longleftrightarrow> nm_type m = 3"

definition response :: "NetMessage \<Rightarrow> NetMessage" where
  "response m = nm_new (nm_command m) 2 (nm_requestId m)"

definition errorResponse :: "u32 \<Rightarrow> bytes list \<Rightarrow> NetMessage \<Rightarrow> NetMessage" where
  "errorResponse code args m = nm_newErrorResponse (nm_command m) (nm_requestId m) code args"

definition newEvent :: "u8 \<Rightarrow> NetMessage" where "newEvent command = nm_new command 3 0"

definition asBytes :: "string \<Rightarrow> bytes" where "asBytes s = map of_char s"

section \<open>Changed events\<close>

definition findProperty :: "bytes \<Rightarrow> NetObject \<Rightarrow> NetItem option" where
  "findProperty name ob = List.find (\<lambda>i. ni_name i = name \<and>
     (case ni_body i of PropertyItem _ _ _ _ \<Rightarrow> True | UnitPropertyItem _ _ _ _ _ _ \<Rightarrow> True | _ \<Rightarrow> False)) (no_items ob)"

definition findVectorProperty :: "bytes \<Rightarrow> NetObject \<Rightarrow> NetItem option" where
  "findVectorProperty name ob = List.find (\<lambda>i. ni_name i = name \<and>
     (case ni_body i of VectorPropertyItem _ _ _ _ \<Rightarrow> True | _ \<Rightarrow> False)) (no_items ob)"

definition objectPropertyChanged :: "nat \<Rightarrow> NetItem \<Rightarrow> NetSession \<Rightarrow> (NetMessage list \<times> NetSession) option" where
  "objectPropertyChanged i p s =
    (if ni_internal p then Some ([], s)
     else
       let (handle, hs) = hl_getHandle (Some i) (ns_handles s); m = nm_writeString (ni_name p) (nm_write handle (newEvent 17))
       in do { m \<leftarrow>
             (case ni_body p of
                PropertyItem _ t _ v \<Rightarrow> writePropertyValue t v (nm_write (valueTypeCode t) m)
              | UnitPropertyItem _ t _ v _ unitValue \<Rightarrow>
                  do { m \<leftarrow> writePropertyValue t v (nm_write (valueTypeCode t) m); Some (nm_write unitValue m) }
              | VectorPropertyItem _ t _ vs \<Rightarrow> writeVectorPropertyValue t vs (nm_write (valueTypeCode t) m)
              | _ \<Rightarrow> None);
           Some ([m], s\<lparr>ns_handles := hs\<rparr>) })"

definition objectAttributeChanged :: "nat \<Rightarrow> NetItem \<Rightarrow> NetAttribute \<Rightarrow> NetSession \<Rightarrow> (NetMessage list \<times> NetSession) option" where
  "objectAttributeChanged i p a s =
    (let (handle, hs) = hl_getHandle (Some i) (ns_handles s)
     in do { m \<leftarrow> writeAttribute a (nm_writeString (ni_name p) (nm_write handle (newEvent 18)));
             Some ([m], s\<lparr>ns_handles := hs\<rparr>) })"

section \<open>Requests of a session\<close>

text \<open>
  A handler gives the messages it sends, the world and the session, and whether it has handled the message;
  \<open>None\<close> is a read behind the end of the message or a failed assertion.
\<close>

type_synonym 'w Handled = "(NetMessage list \<times> 'w \<times> NetSession \<times> bool) option"

definition answer :: "NetMessage \<Rightarrow> NetMessage \<Rightarrow> NetMessage list" where
  "answer m r = (if isRequest m then [r] else [])"

text \<open>The value of a set request, and the exception for another type.\<close>

definition readNewValue :: "NetMessage \<Rightarrow> ((bytes + NetValue) \<times> NetMessage) option" where
  "readNewValue m =
    do { (t :: u8, m) \<leftarrow> nm_read m;
         if t = 1 then do { (b, m) \<leftarrow> nm_readBool m; Some (Inr (BooleanValue b), m) }
         else if t = 3 then do { (i, m) \<leftarrow> nm_read m; Some (Inr (Int64Value i), m) }
         else if t = 4 then do { (d, m) \<leftarrow> nm_read m; Some (Inr (DoubleValue d), m) }
         else if t = 5 then do { (s, m) \<leftarrow> nm_readString m; Some (Inr (StringValue s), m) }
         else Some (Inl (asBytes ''invalid value type''), m) }"

text \<open>
  The end of both set requests: a failure is answered with an error, or with the current value when there
  was no request; a request gets a success response in either case.
\<close>

definition afterSet :: "NetMessage \<Rightarrow> nat \<Rightarrow> NetItem \<Rightarrow> bytes + 'w \<Rightarrow> 'w \<Rightarrow> NetSession \<Rightarrow> 'w Handled" where
  "afterSet m i p r w s =
    (case r of
       Inr w' \<Rightarrow> Some (answer m (response m), w', s, True)
     | Inl what \<Rightarrow>
         if isRequest m then Some ([errorResponse C1018 [what] m, response m], w, s, True)
         else do { (ms, s) \<leftarrow> objectPropertyChanged i p s; Some (ms, w, s, True) })"

definition objectSetProperty :: "'w SessionWorld \<Rightarrow> NetMessage \<Rightarrow> 'w \<Rightarrow> NetSession \<Rightarrow> 'w Handled" where
  "objectSetProperty sw m w s =
    (if isRequest m \<or> isEvent m then
       do { (handle, m1) \<leftarrow> nm_read m;
            case hl_getItem handle (ns_handles s) of
              None \<Rightarrow> Some (answer m (errorResponse C1015 [] m), w, s, True)
            | Some i \<Rightarrow>
                do { (name, m2) \<leftarrow> nm_readString m1;
                     case findProperty name (sw_object sw w i) of
                       None \<Rightarrow> Some (answer m (errorResponse C1016 [] m), w, s, True)
                     | Some p \<Rightarrow>
                         if ni_internal p then Some (answer m (errorResponse C1016 [] m), w, s, True)
                         else do { (v, m3) \<leftarrow> readNewValue m2;
                                   afterSet m i p (case v of Inl e \<Rightarrow> Inl e | Inr v \<Rightarrow> sw_setProperty sw i name v w) w s } } }
     else Some ([], w, s, True))"

definition objectSetVectorProperty :: "'w SessionWorld \<Rightarrow> NetMessage \<Rightarrow> 'w \<Rightarrow> NetSession \<Rightarrow> 'w Handled" where
  "objectSetVectorProperty sw m w s =
    (if isRequest m \<or> isEvent m then
       do { (handle, m1) \<leftarrow> nm_read m;
            case hl_getItem handle (ns_handles s) of
              None \<Rightarrow> Some (answer m (errorResponse C1015 [] m), w, s, True)
            | Some i \<Rightarrow>
                do { (name, m2) \<leftarrow> nm_readString m1;
                     case findVectorProperty name (sw_object sw w i) of
                       None \<Rightarrow> Some (answer m (errorResponse C1016 [] m), w, s, True)
                     | Some p \<Rightarrow>
                         if ni_internal p then Some (answer m (errorResponse C1016 [] m), w, s, True)
                         else do { (index, m3) \<leftarrow> nm_read m2;
                                   (v, m4) \<leftarrow> readNewValue m3;
                                   afterSet m i p (case v of Inl e \<Rightarrow> Inl e | Inr v \<Rightarrow> sw_setElement sw i name index v w) w s } } }
     else Some ([], w, s, True))"

text \<open>The changes that are never answered: a unit, an object property by the id of the object.\<close>

definition orChanged :: "nat \<Rightarrow> NetItem \<Rightarrow> bytes + 'w \<Rightarrow> 'w \<Rightarrow> NetSession \<Rightarrow> 'w Handled" where
  "orChanged i p r w s =
    (case r of
       Inr w' \<Rightarrow> Some ([], w', s, False)
     | Inl what \<Rightarrow> do { (ms, s) \<leftarrow> objectPropertyChanged i p s; Some (ms, w, s, False) })"

definition objectSetUnitPropertyUnit :: "'w SessionWorld \<Rightarrow> NetMessage \<Rightarrow> 'w \<Rightarrow> NetSession \<Rightarrow> 'w Handled" where
  "objectSetUnitPropertyUnit sw m w s =
    do { (handle, m) \<leftarrow> nm_read m;
         case hl_getItem handle (ns_handles s) of
           None \<Rightarrow> Some ([], w, s, False)
         | Some i \<Rightarrow>
             do { (name, m) \<leftarrow> nm_readString m;
                  case findProperty name (sw_object sw w i) of
                    Some p \<Rightarrow>
                      (case ni_body p of
                         UnitPropertyItem _ _ _ _ _ _ \<Rightarrow>
                           if ni_internal p then Some ([], w, s, False)
                           else do { (u, m) \<leftarrow> nm_read m; orChanged i p (sw_setUnit sw i name u w) w s }
                       | _ \<Rightarrow> Some ([], w, s, False))
                  | None \<Rightarrow> Some ([], w, s, False) } }"

definition isObjectProperty :: "NetItem \<Rightarrow> bool" where
  "isObjectProperty p = (case ni_body p of PropertyItem _ t _ _ \<Rightarrow> t = VT_Object | _ \<Rightarrow> False)"

definition objectSetObjectPropertyById :: "'w SessionWorld \<Rightarrow> NetMessage \<Rightarrow> 'w \<Rightarrow> NetSession \<Rightarrow> 'w Handled" where
  "objectSetObjectPropertyById sw m w s =
    do { (handle, m) \<leftarrow> nm_read m;
         case hl_getItem handle (ns_handles s) of
           None \<Rightarrow> Some ([], w, s, False)
         | Some i \<Rightarrow>
             do { (name, m) \<leftarrow> nm_readString m;
                  case findProperty name (sw_object sw w i) of
                    Some p \<Rightarrow>
                      if isObjectProperty p \<and> \<not> ni_internal p then
                        do { (oid, m) \<leftarrow> nm_readString m;
                             orChanged i p
                               (if oid = [] then sw_setObject sw i name None w
                                else (case sw_byPath sw w oid of
                                        Some j \<Rightarrow> sw_setObject sw i name (Some j) w
                                      | None \<Rightarrow> Inl [])) w s }
                      else Some ([], w, s, False)
                  | None \<Rightarrow> Some ([], w, s, False) } }"

definition objectGetObjectPropertyObject :: "'w SessionWorld \<Rightarrow> NetMessage \<Rightarrow> 'w \<Rightarrow> NetSession \<Rightarrow> 'w Handled" where
  "objectGetObjectPropertyObject sw m w s =
    (if isRequest m then
       do { (handle, m1) \<leftarrow> nm_read m;
            case hl_getItem handle (ns_handles s) of
              None \<Rightarrow> Some ([errorResponse C1015 [] m], w, s, True)
            | Some i \<Rightarrow>
                do { (name, m2) \<leftarrow> nm_readString m1;
                     case findProperty name (sw_object sw w i) of
                       Some p \<Rightarrow>
                         if isObjectProperty p \<and> \<not> ni_internal p then
                           (case sw_toObject sw w i name of
                              None \<Rightarrow> Some ([errorResponse C1015 [] m], w, s, True)
                            | Some j \<Rightarrow>
                                do { (s, r) \<leftarrow> writeObject (sw_object sw w) (Some j) (s, response m); Some ([r], w, s, True) })
                         else Some ([errorResponse C1016 [] m], w, s, True)
                     | None \<Rightarrow> Some ([errorResponse C1016 [] m], w, s, True) } }
     else Some ([], w, s, False))"

text \<open>The objects from one index to another; the loop over them is the code's.\<close>

fun writeObjects :: "(nat \<Rightarrow> NetObject) \<Rightarrow> nat option list \<Rightarrow> NetSession \<times> NetMessage \<Rightarrow> (NetSession \<times> NetMessage) option" where
  "writeObjects world [] sm = Some sm"
| "writeObjects world (i # is) sm = Option.bind (writeObject world i sm) (writeObjects world is)"

definition vectorLength :: "NetItem \<Rightarrow> nat" where
  "vectorLength p = (case ni_body p of VectorPropertyItem _ _ _ vs \<Rightarrow> length vs | _ \<Rightarrow> 0)"

definition objectGetObjectVectorPropertyObject :: "'w SessionWorld \<Rightarrow> NetMessage \<Rightarrow> 'w \<Rightarrow> NetSession \<Rightarrow> 'w Handled" where
  "objectGetObjectVectorPropertyObject sw m w s =
    (if isRequest m then
       do { (handle, m1) \<leftarrow> nm_read m;
            case hl_getItem handle (ns_handles s) of
              None \<Rightarrow> Some ([errorResponse C1015 [] m], w, s, True)
            | Some i \<Rightarrow>
                do { (name, m2) \<leftarrow> nm_readString m1;
                     case findVectorProperty name (sw_object sw w i) of
                       Some p \<Rightarrow>
                         if \<not> ni_internal p then
                           do { (startIndex :: u32, m3) \<leftarrow> nm_read m2;
                                (endIndex :: u32, m4) \<leftarrow> nm_read m3;
                                if startIndex \<le> endIndex \<and> unat endIndex < vectorLength p then
                                  do { (s, r) \<leftarrow> writeObjects (sw_object sw w)
                                         (map (sw_getObject sw w i name) [unat startIndex..<Suc (unat endIndex)]) (s, response m);
                                       Some ([r], w, s, True) }
                                else Some ([errorResponse C1017 [] m], w, s, True) }
                         else Some ([errorResponse C1016 [] m], w, s, True)
                     | None \<Rightarrow> Some ([errorResponse C1016 [] m], w, s, True) } }
     else Some ([], w, s, False))"

definition releaseObjectRequest :: "NetMessage \<Rightarrow> 'w \<Rightarrow> NetSession \<Rightarrow> 'w Handled" where
  "releaseObjectRequest m w s =
    do { (handle, m) \<leftarrow> nm_read m;
         (counter, m) \<leftarrow> nm_read m;
         let (ok, s) = releaseObject handle counter s;
         Some (if ok then [nm_write handle (newEvent 15)] else [], w, s, False) }"

text \<open>An import is answered and not said to be handled; an export is.\<close>

definition importWorld :: "'w SessionWorld \<Rightarrow> NetMessage \<Rightarrow> 'w \<Rightarrow> NetSession \<Rightarrow> 'w Handled" where
  "importWorld sw m w s =
    (if isRequest m then
       do { (data, _) \<leftarrow> nm_readVector m;
            case sw_import sw data w of
              Inr w' \<Rightarrow> Some ([response m], w', s, False)
            | Inl (code, args) \<Rightarrow> Some ([errorResponse code args m], w, s, False) }
     else Some ([], w, s, False))"

definition exportWorld :: "'w SessionWorld \<Rightarrow> NetMessage \<Rightarrow> 'w \<Rightarrow> NetSession \<Rightarrow> 'w Handled" where
  "exportWorld sw m w s =
    (if isRequest m then
       (case sw_export sw w of
          None \<Rightarrow> Some ([errorResponse C1010 [asBytes ''nullptr''] m], w, s, True)
        | Some (Inl (code, args)) \<Rightarrow> Some ([errorResponse code args m], w, s, True)
        | Some (Inr data) \<Rightarrow> Some ([nm_writeVector data (response m)], w, s, True))
     else Some ([], w, s, False))"

text \<open>The commands of \<^verbatim>\<open>processMessage\<close> that are modelled; \<open>others\<close> stands for the rest.\<close>

definition sessionProcess ::
  "'w SessionWorld \<Rightarrow> (NetMessage \<Rightarrow> 'w \<Rightarrow> NetSession \<Rightarrow> 'w Handled) \<Rightarrow> NetMessage \<Rightarrow> 'w \<Rightarrow> NetSession \<Rightarrow> 'w Handled" where
  "sessionProcess sw others m w s =
    (if nm_command m = 15 then releaseObjectRequest m w s
     else if nm_command m = 16 then objectSetProperty sw m w s
     else if nm_command m = 46 then objectSetVectorProperty sw m w s
     else if nm_command m = 26 then objectSetUnitPropertyUnit sw m w s
     else if nm_command m = 27 then objectSetObjectPropertyById sw m w s
     else if nm_command m = 44 then objectGetObjectPropertyObject sw m w s
     else if nm_command m = 45 then objectGetObjectVectorPropertyObject sw m w s
     else if nm_command m = 9 then importWorld sw m w s
     else if nm_command m = 10 then exportWorld sw m w s
     else others m w s)"

section \<open>The connection\<close>

record NetConnection =
  nk_authenticated :: bool
  nk_session :: "NetSession option"

definition NetConnection_init :: NetConnection where
  "NetConnection_init = \<lparr>nk_authenticated = False, nk_session = None\<rparr>"

text \<open>\<open>uuid\<close> are the sixteen bytes of the session's id, \<open>root\<close> the object \<^verbatim>\<open>Traintastic::instance\<close>.\<close>

definition connectionProcess ::
  "'w SessionWorld \<Rightarrow> (NetMessage \<Rightarrow> 'w \<Rightarrow> NetSession \<Rightarrow> 'w Handled) \<Rightarrow> bytes \<Rightarrow> nat \<Rightarrow> NetMessage \<Rightarrow> 'w \<Rightarrow> NetConnection \<Rightarrow>
    (NetMessage list \<times> 'w \<times> NetConnection) option" where
  "connectionProcess sw others uuid root m w k =
    do { (out, w, k, handled) \<leftarrow>
          (if nk_authenticated k then
             (case nk_session k of
                Some s \<Rightarrow>
                  do { (out, w, s, handled) \<leftarrow> sessionProcess sw others m w s;
                       Some (out, w, k\<lparr>nk_session := Some s\<rparr>, handled) }
              | None \<Rightarrow>
                  if nm_command m = 3 \<and> isRequest m then
                    do { (s, r) \<leftarrow> writeObject (sw_object sw w) (Some root)
                           (\<lparr>ns_handles = HandleList_init, ns_objectSignals = []\<rparr>, nm_append uuid (response m));
                         Some ([r], w, k\<lparr>nk_session := Some s\<rparr>, True) }
                  else Some ([], w, k, False))
           else if nm_command m = 2 \<and> isRequest m then Some ([response m], w, k\<lparr>nk_authenticated := True\<rparr>, True)
           else Some ([], w, k, False));
         Some (if \<not> handled \<and> isRequest m then out @ [errorResponse C1014 [] m] else out, w, k) }"

end
