(* ===== verification/Net_Answers.thy ===== *)
theory Net_Answers
  imports Net_Session Net_Codec
begin

text \<open>Which answers the requests of a session get.\<close>

section \<open>Writers keep the head of the message\<close>

definition keeps :: "(NetMessage \<Rightarrow> NetMessage option) \<Rightarrow> bool" where
  "keeps w \<longleftrightarrow> (\<forall>m m'. 8 \<le> length (nm_data m) \<longrightarrow> w m = Some m' \<longrightarrow>
     8 \<le> length (nm_data m') \<and> take 4 (nm_data m') = take 4 (nm_data m))"

lemma keepsD: "keeps w \<Longrightarrow> w m = Some m' \<Longrightarrow> 8 \<le> length (nm_data m) \<Longrightarrow>
    8 \<le> length (nm_data m') \<and> take 4 (nm_data m') = take 4 (nm_data m)"
  by (simp add: keeps_def)

named_theorems keeps_intros \<open>writers that keep the head of the message\<close>

lemma keeps_append [keeps_intros]: "keeps (\<lambda>m. Some (nm_append bs m))"
  by (auto simp: keeps_def length_append append_data)

lemma keeps_write [keeps_intros]: "keeps (\<lambda>m. Some (nm_write v m))"
  unfolding nm_write_def by (rule keeps_append)

lemma keeps_writeBool [keeps_intros]: "keeps (\<lambda>m. Some (nm_writeBool v m))"
  unfolding nm_writeBool_def by (rule keeps_append)

lemma keeps_writeString [keeps_intros]: "keeps (\<lambda>m. Some (nm_writeString v m))"
  unfolding nm_writeString_def by (rule keeps_append)

lemma keeps_None [keeps_intros]: "keeps (\<lambda>m. None)" by (simp add: keeps_def)

lemma keeps_Some [keeps_intros]: "keeps Some" by (simp add: keeps_def)

lemma keeps_bind [keeps_intros]:
  assumes "keeps w" and "keeps u"
  shows "keeps (\<lambda>m. Option.bind (w m) u)"
  unfolding keeps_def
proof (intro allI impI)
  fix m m' assume m: "8 \<le> length (nm_data m)" and "Option.bind (w m) u = Some m'"
  then obtain m1 where m1: "w m = Some m1" "u m1 = Some m'" by (cases "w m") simp_all
  show "8 \<le> length (nm_data m') \<and> take 4 (nm_data m') = take 4 (nm_data m)"
    using keepsD [OF assms(1) m1(1) m] keepsD [OF assms(2) m1(2)] by simp
qed

lemma keeps_bind_value [keeps_intros]:
  assumes "\<And>v. keeps (u v)"
  shows "keeps (\<lambda>m. Option.bind r (\<lambda>v. u v m))"
proof (cases r)
  case None
  then show ?thesis by (simp only: Option.bind.simps keeps_None)
next
  case (Some v)
  then show ?thesis using assms [of v] by (simp only: Option.bind.simps)
qed

lemma keeps_if [keeps_intros]: "keeps u \<Longrightarrow> keeps w \<Longrightarrow> keeps (\<lambda>m. if b then u m else w m)"
  by (cases b) simp_all

lemma keeps_each [keeps_intros]:
  assumes "\<And>v. keeps (put v)"
  shows "keeps (nm_each put vs)"
proof (induction vs)
  case Nil
  have "nm_each put [] = Some" by (rule ext) simp
  then show ?case using keeps_Some by simp
next
  case (Cons v vs)
  have "nm_each put (v # vs) = (\<lambda>m. Option.bind (put v m) (nm_each put vs))" by (rule ext) simp
  then show ?case using keeps_bind [OF assms Cons.IH] by (simp only:)
qed

lemma keeps_writeBlock: "keeps (\<lambda>m. Some (nm_writeBlock m))"
  using keepsD [OF keeps_write] by (auto simp: keeps_def nm_writeBlock_def Let_def)

lemma keeps_writeBlockEnd: "keeps nm_writeBlockEnd"
proof -
  have "8 \<le> length (take i ds @ leBytes (n :: u32) @ drop (i + 4) ds) \<and>
      take 4 (take i ds @ leBytes n @ drop (i + 4) ds) = take 4 ds" if "8 \<le> length ds" "4 \<le> i" for i ds n
    using that by (auto simp: min_def)
  then show ?thesis by (auto simp: keeps_def nm_writeBlockEnd_def Let_def split: list.splits)
qed

lemma keeps_inBlock [keeps_intros]: "keeps w \<Longrightarrow> keeps (nm_inBlock w)"
  using keeps_bind [OF keeps_writeBlock keeps_bind [OF _ keeps_writeBlockEnd]]
  by (simp add: nm_inBlock_def [abs_def])

lemma keeps_writePropertyValue [keeps_intros]: "keeps (writePropertyValue t v)"
  unfolding writePropertyValue_def [abs_def] by (cases t) (simp_all add: keeps_intros)

lemma keeps_writeVector [keeps_intros]: "keeps (writeVectorPropertyValue t vs)"
  unfolding writeVectorPropertyValue_def [abs_def] by (intro keeps_intros)

lemma keeps_writeTypeInfo [keeps_intros]: "keeps (writeTypeInfo ti)"
  unfolding writeTypeInfo_def [abs_def] by (intro keeps_intros)

lemma keeps_writeAttribute [keeps_intros]: "keeps (writeAttribute a)"
  unfolding writeAttribute_def [abs_def] by (cases "na_body a") (simp_all only: NetAttributeBody.case, (intro keeps_intros)+)

lemma keeps_writeBaseProperty [keeps_intros]: "keeps (writeBaseProperty k flags t s)"
  unfolding writeBaseProperty_def [abs_def] by (intro keeps_intros)

lemma keeps_writeItemBody [keeps_intros]: "keeps (writeItemBody b)"
  unfolding writeItemBody_def [abs_def] by (cases b) (simp_all only: NetItemBody.case, (intro keeps_intros)+)

lemma keeps_writeItem [keeps_intros]: "keeps (writeItem i)"
  unfolding writeItem_def by (intro keeps_intros)

lemma keeps_writeItems [keeps_intros]: "keeps (writeItems ob)"
  unfolding writeItems_def by (intro keeps_intros)

lemma writeObject_keeps:
  assumes "writeObject world i (s, m) = Some (s', m')" and "8 \<le> length (nm_data m)"
  shows "8 \<le> length (nm_data m')" and "take 4 (nm_data m') = take 4 (nm_data m)"
proof -
  have 1: "keeps (nm_inBlock (\<lambda>m. do { m \<leftarrow> Some (nm_write h m); m \<leftarrow> Some (nm_writeString c m); writeItems ob m }))" for h :: u32 and c ob
    by (intro keeps_intros)
  have 2: "keeps (nm_inBlock (\<lambda>m. Some (nm_write (h :: u32) m)))" for h by (intro keeps_intros)
  show "8 \<le> length (nm_data m')" "take 4 (nm_data m') = take 4 (nm_data m)"
    using assms keepsD [OF 1] keepsD [OF 2]
    by (auto simp: writeObject_def Let_def split: bind_splits if_splits prod.splits)
qed

lemma writeObjects_keeps:
  "writeObjects world is (s, m) = Some (s', m') \<Longrightarrow> 8 \<le> length (nm_data m) \<Longrightarrow>
    8 \<le> length (nm_data m') \<and> take 4 (nm_data m') = take 4 (nm_data m)"
proof (induction "is" arbitrary: s m)
  case (Cons i "is")
  then obtain s1 m1 where "writeObject world i (s, m) = Some (s1, m1)" "writeObjects world is (s1, m1) = Some (s', m')"
    by (auto split: bind_splits)
  with writeObject_keeps [OF this(1)] Cons show ?case by simp
qed simp

section \<open>Answers\<close>

definition answers :: "NetMessage \<Rightarrow> NetMessage \<Rightarrow> bool" where
  "answers m r \<longleftrightarrow> isResponse r \<and> nm_command r = nm_command m \<and> nm_requestId r = nm_requestId m"

lemma head_fields:
  assumes "take 4 (nm_data r) = take 4 (nm_data q)" and "8 \<le> length (nm_data r)" and "8 \<le> length (nm_data q)"
  shows "nm_command r = nm_command q" and "nm_type r = nm_type q" and "nm_requestId r = nm_requestId q"
    and "nm_isError r = nm_isError q"
proof -
  have n: "nm_data r ! i = nm_data q ! i" if "i < 4" for i using assms(1) that by (metis nth_take)
  have "take 2 (drop 2 (nm_data r)) = take 2 (drop 2 (nm_data q))"
    using arg_cong [OF assms(1), of "drop 2"] by (simp add: drop_take)
  then show "nm_requestId r = nm_requestId q" by (simp add: nm_requestId_def)
  show "nm_command r = nm_command q" "nm_type r = nm_type q" "nm_isError r = nm_isError q"
    by (simp_all add: nm_command_def nm_type_def nm_isError_def n)
qed

lemma new_fields [simp]:
  "8 \<le> length (nm_data (nm_new c t i))"
  "nm_command (nm_new c t i) = c" "nm_type (nm_new c t i) = drop_bit 6 (push_bit 6 t)" "nm_requestId (nm_new c t i) = i"
  by (simp_all add: nm_new_def nm_command_def nm_type_def nm_requestId_def)

lemma answers_response [simp]: "answers m (response m)" "8 \<le> length (nm_data (response m))"
  by (simp_all add: answers_def response_def isResponse_def)

lemma writeStrings_head:
  "8 \<le> length (nm_data m) \<Longrightarrow> 8 \<le> length (nm_data (nm_writeStrings ss m)) \<and>
    take 4 (nm_data (nm_writeStrings ss m)) = take 4 (nm_data m)"
proof -
  have f: "8 \<le> length (nm_data m) \<Longrightarrow> 8 \<le> length (nm_data (fold nm_writeString ss m)) \<and>
      take 4 (nm_data (fold nm_writeString ss m)) = take 4 (nm_data m)" for m
  proof (induction ss arbitrary: m)
    case (Cons s ss)
    have "8 \<le> length (nm_data (nm_writeString s m))" "take 4 (nm_data (nm_writeString s m)) = take 4 (nm_data m)"
      using keepsD [OF keeps_writeString refl Cons.prems] by auto
    then show ?case using Cons.IH [of "nm_writeString s m"] by simp
  qed simp
  assume "8 \<le> length (nm_data m)"
  from keepsD [OF keeps_write [of "of_nat (length ss) :: u32"] refl this] f show ?thesis
    by (simp add: nm_writeStrings_def)
qed

lemma answers_error [simp]: "answers m (errorResponse c args m)"
proof -
  let ?e = "nm_setError (nm_new (nm_command m) 2 (nm_requestId m))"
  have e: "8 \<le> length (nm_data ?e)" "nm_command ?e = nm_command m" "nm_type ?e = 2" "nm_requestId ?e = nm_requestId m"
    by (simp_all add: nm_setError_def nm_new_def nm_command_def nm_type_def nm_requestId_def)
  have w: "8 \<le> length (nm_data (nm_write c ?e))" "take 4 (nm_data (nm_write c ?e)) = take 4 (nm_data ?e)"
    using keepsD [OF keeps_write refl e(1)] by auto
  with writeStrings_head [OF w(1), of args] have "8 \<le> length (nm_data (errorResponse c args m))"
    "take 4 (nm_data (errorResponse c args m)) = take 4 (nm_data ?e)"
    by (simp_all add: errorResponse_def nm_newErrorResponse_def)
  from head_fields [OF this(2,1) e(1)] e show ?thesis by (simp add: answers_def isResponse_def)
qed

lemma kept_answers:
  assumes "take 4 (nm_data r) = take 4 (nm_data (response m))" and "8 \<le> length (nm_data r)"
  shows "answers m r"
  using head_fields [OF assms answers_response(2)] answers_response(1) [of m] by (simp add: answers_def isResponse_def)

lemma kept_event:
  assumes "take 4 (nm_data r) = take 4 (nm_data (newEvent c))" and "8 \<le> length (nm_data r)"
  shows "\<not> answers m r"
proof -
  have "8 \<le> length (nm_data (newEvent c))" by (simp add: newEvent_def)
  from head_fields(2) [OF assms this] show ?thesis by (simp add: answers_def isResponse_def newEvent_def)
qed

definition answersIn :: "NetMessage \<Rightarrow> NetMessage list \<Rightarrow> nat" where
  "answersIn m out = length (filter (answers m) out)"

lemma answersIn_simps [simp]:
  "answersIn m [] = 0" "answersIn m (r # rs) = (if answers m r then 1 else 0) + answersIn m rs"
  "answersIn m (rs @ qs) = answersIn m rs + answersIn m qs"
  by (simp_all add: answersIn_def)

lemma changed_answers:
  assumes "objectPropertyChanged i p s = Some (ms, s')"
  shows "answersIn m ms = 0"
proof (cases "ni_internal p")
  case False
  define e where "e = (\<lambda>h. nm_writeString (ni_name p) (nm_write (h :: u32) (newEvent 17)))"
  have e: "8 \<le> length (nm_data (e h)) \<and> take 4 (nm_data (e h)) = take 4 (nm_data (newEvent 17))" for h
    using keepsD [OF keeps_bind [OF keeps_write keeps_writeString], of _ "newEvent 17"]
    by (simp add: e_def newEvent_def)
  define w where "w = (\<lambda>m. case ni_body p of
      PropertyItem _ t _ v \<Rightarrow> writePropertyValue t v (nm_write (valueTypeCode t) m)
    | UnitPropertyItem _ t _ v _ u \<Rightarrow> do { m \<leftarrow> writePropertyValue t v (nm_write (valueTypeCode t) m); Some (nm_write u m) }
    | VectorPropertyItem _ t _ vs \<Rightarrow> writeVectorPropertyValue t vs (nm_write (valueTypeCode t) m) | _ \<Rightarrow> None)"
  have 1: "keeps (\<lambda>m. Option.bind (Some (nm_write (valueTypeCode t) m)) u)" if "keeps u" for t u
    by (rule keeps_bind [OF keeps_write that])
  have w: "keeps w"
    unfolding w_def
    using 1 [OF keeps_writePropertyValue] 1 [OF keeps_writeVector] keeps_None
      1 [OF keeps_bind [OF keeps_writePropertyValue keeps_write]]
    by (cases "ni_body p") simp_all
  from assms False obtain r where r: "ms = [r]" "w (e (fst (hl_getHandle (Some i) (ns_handles s)))) = Some r"
    by (auto simp: objectPropertyChanged_def w_def e_def Let_def case_prod_unfold split: bind_splits)
  have "\<not> answers m r" by (rule kept_event [of r 17]) (use keepsD [OF w r(2)] e in auto)
  then show ?thesis using r(1) by simp
qed (use assms in \<open>simp add: objectPropertyChanged_def\<close>)

section \<open>One answer for every request, or two\<close>

lemma event_release: "\<not> answers m (nm_write (h :: u32) (newEvent c))"
  by (rule kept_event [of _ c]) (use keepsD [OF keeps_write refl, of "newEvent c" h] in \<open>auto simp: newEvent_def\<close>)

text \<open>
  How a set request fails, when it names a public property of an object the session has a handle for: with
  what the value's type or the property's setter throws.
\<close>

definition setFailure :: "'w SessionWorld \<Rightarrow> NetMessage \<Rightarrow> 'w \<Rightarrow> NetSession \<Rightarrow> bytes option" where
  "setFailure sw m w s =
    do { (handle, m1) \<leftarrow> nm_read m;
         i \<leftarrow> hl_getItem handle (ns_handles s);
         (name, m2) \<leftarrow> nm_readString m1;
         if nm_command m = 16 then
           do { p \<leftarrow> findProperty name (sw_object sw w i);
                if ni_internal p then None
                else do { (v, _) \<leftarrow> readNewValue m2;
                          case (case v of Inl e \<Rightarrow> Inl e | Inr v \<Rightarrow> sw_setProperty sw i name v w) of
                            Inl what \<Rightarrow> Some what | Inr _ \<Rightarrow> None } }
         else
           do { p \<leftarrow> findVectorProperty name (sw_object sw w i);
                if ni_internal p then None
                else do { (index, m3) \<leftarrow> nm_read m2;
                          (v, _) \<leftarrow> readNewValue m3;
                          case (case v of Inl e \<Rightarrow> Inl e | Inr v \<Rightarrow> sw_setElement sw i name index v w) of
                            Inl what \<Rightarrow> Some what | Inr _ \<Rightarrow> None } } }"

definition setExact :: "bytes option \<Rightarrow> NetMessage \<Rightarrow> NetMessage list \<Rightarrow> bool" where
  "setExact failure m out \<longleftrightarrow>
    (case failure of
       None \<Rightarrow> answersIn m out = 1
     | Some what \<Rightarrow> out = [errorResponse C1018 [what] m, response m])"

lemma set_exact:
  assumes "objectSetProperty sw m w s = Some (out, w', s', handled)" and r: "isRequest m" and "nm_command m = 16"
  shows "setExact (setFailure sw m w s) m out" and "handled"
  using assms
  by (auto simp: objectSetProperty_def setFailure_def setExact_def afterSet_def answer_def
      split: bind_splits if_splits option.splits prod.splits sum.splits)

lemma setElement_exact:
  assumes "objectSetVectorProperty sw m w s = Some (out, w', s', handled)" and r: "isRequest m" and "nm_command m = 46"
  shows "setExact (setFailure sw m w s) m out" and "handled"
  using assms
  by (auto simp: objectSetVectorProperty_def setFailure_def setExact_def afterSet_def answer_def
      split: bind_splits if_splits option.splits prod.splits sum.splits)

text \<open>What is handled has one answer, what is not has none yet; only an import has one and is not handled.\<close>

definition answeredOnce :: "NetMessage \<Rightarrow> NetMessage list \<Rightarrow> bool \<Rightarrow> bool" where
  "answeredOnce m out handled \<longleftrightarrow> answersIn m out = (if handled then 1 else 0)"

lemma orChanged_once: "orChanged i p r w s = Some (out, w', s', handled) \<Longrightarrow> answeredOnce m out handled"
  by (auto simp: orChanged_def answeredOnce_def changed_answers split: sum.splits bind_splits)

lemma unit_once: "objectSetUnitPropertyUnit sw m w s = Some (out, w', s', handled) \<Longrightarrow> answeredOnce m out handled"
  by (auto simp: objectSetUnitPropertyUnit_def answeredOnce_def
      split: bind_splits if_splits option.splits prod.splits NetItemBody.splits
      dest!: orChanged_once [where m = m, unfolded answeredOnce_def])

lemma setObject_once: "objectSetObjectPropertyById sw m w s = Some (out, w', s', handled) \<Longrightarrow> answeredOnce m out handled"
  by (auto simp: objectSetObjectPropertyById_def answeredOnce_def
      split: bind_splits if_splits option.splits prod.splits
      dest!: orChanged_once [where m = m, unfolded answeredOnce_def])

lemma release_once: "releaseObjectRequest m w s = Some (out, w', s', handled) \<Longrightarrow> answeredOnce m out handled"
  by (auto simp: releaseObjectRequest_def answeredOnce_def event_release split: bind_splits if_splits prod.splits)

lemma writeObject_answers: "writeObject world i (s, response m) = Some (s', r) \<Longrightarrow> answers m r"
  by (rule kept_answers) (use writeObject_keeps [of world i s "response m"] in auto)

lemma writeObjects_answers: "writeObjects world is (s, response m) = Some (s', r) \<Longrightarrow> answers m r"
  by (rule kept_answers) (use writeObjects_keeps [of world "is" s "response m"] in auto)

lemma getObject_once:
  "objectGetObjectPropertyObject sw m w s = Some (out, w', s', handled) \<Longrightarrow> answeredOnce m out handled"
  by (auto simp: objectGetObjectPropertyObject_def answeredOnce_def writeObject_answers
      split: bind_splits if_splits option.splits prod.splits)

lemma getObjects_once:
  "objectGetObjectVectorPropertyObject sw m w s = Some (out, w', s', handled) \<Longrightarrow> answeredOnce m out handled"
  by (auto simp: objectGetObjectVectorPropertyObject_def answeredOnce_def writeObjects_answers simp del: upt_Suc
      split: bind_splits if_splits option.splits prod.splits)

lemma vector_answers: "answers m (nm_writeVector vs (response m))"
proof -
  have "keeps (\<lambda>m. Option.bind (Some (nm_write n m)) (\<lambda>m. Some (nm_append bs m)))" for n :: u32 and bs
    by (intro keeps_intros)
  from keepsD [OF this] show ?thesis by (intro kept_answers) (simp_all add: nm_writeVector_def Let_def)
qed

lemma export_once: "exportWorld sw m w s = Some (out, w', s', handled) \<Longrightarrow> answeredOnce m out handled"
  by (auto simp: exportWorld_def answeredOnce_def vector_answers split: if_splits option.splits sum.splits)

lemma import_twice:
  "importWorld sw m w s = Some (out, w', s', handled) \<Longrightarrow> isRequest m \<Longrightarrow> answersIn m out = 1 \<and> \<not> handled"
  by (auto simp: importWorld_def split: bind_splits sum.splits)

end
