(* ===== verification/Net_Properties.thy ===== *)
theory Net_Properties
  imports Net_Objects_Codec Net_Release_Inv Net_Answers
begin

text \<open>The properties of the connection between server and client.\<close>

section \<open>Objects\<close>

text \<open>
  C3. What the server writes of an object the client reads: the handle, the class, every public item with its
  value and its attributes, in the server's order, and nothing is left of the message.
\<close>

theorem net_object_roundtrip:
  fixes s :: NetSession and c :: "ClientObject NetClient"
  assumes "hl_itemToHandle (ns_handles s) i = None"
    and "objectOk (world i)" and "sized m"
    and "length (nm_data m) - 8 + length (blockBytes (objectBytes (hl_nextHandle (ns_handles s)) (world i))) < 2 ^ 32"
    and "nc_objects c (hl_nextHandle (ns_handles s)) = None"
    and "nc_requestForRelease c (hl_nextHandle (ns_handles s)) = None"
  shows "\<exists>s' m' m''. writeObject world (Some i) (s, m) = Some (s', m') \<and>
    hl_itemToHandle (ns_handles s') i = Some (hl_nextHandle (ns_handles s)) \<and>
    readObject c (nm_advance (length (nm_data m) - 8) (nm_received (nm_data m'))) =
      Some (hl_nextHandle (ns_handles s), nc_create (hl_nextHandle (ns_handles s)) (viewObject (world i)) c, m'') \<and>
    nm_endOfMessage m''"
proof -
  let ?h = "hl_nextHandle (ns_handles s)" and ?n = "length (nm_data m) - 8"
  let ?bs = "blockBytes (objectBytes ?h (world i))"
  obtain s' where s': "writeObject world (Some i) (s, m) = Some (s', nm_append ?bs m)"
    "hl_itemToHandle (ns_handles s') i = Some ?h"
    using writeObject_new [where world = world and i = i and s = s and m = m, OF assms(1-4)] by blast
  let ?r = "nm_advance ?n (nm_received (nm_data (nm_append ?bs m)))"
  have l: "8 \<le> length (nm_data m)" using assms(3) by (simp add: sized_def)
  have p: "unat (nm_readPosition ?r) = ?n" using assms(4) by (simp add: nm_advance_def nm_received_def unat_of_nat)
  have "inside ?r" using assms(4) l p by (simp add: inside_def nm_received_def length_append)
  moreover have "nm_current ?r = ?bs @ []"
  proof -
    have "drop (8 + ?n) ds = drop ?n (drop 8 ds)" for ds :: bytes by (simp only: drop_drop add.commute)
    then show ?thesis using l unfolding nm_current_def p by (simp only: advance_fields nm_received_def NetMessage.simps append_data(1) [OF l]) simp
  qed
  ultimately have "readObject c ?r = Some (?h, nc_create ?h (viewObject (world i)) c, nm_advance (length ?bs) ?r)"
    by (rule readObject_new [OF assms(2) _ _ assms(5,6)])
  moreover have "nm_endOfMessage (nm_advance (length ?bs) ?r)"
    using dataSize_append [OF l, of ?bs]
    by (simp add: nm_endOfMessage_def nm_advance_def nm_received_def nm_dataSize_def)
  ultimately show ?thesis using s' by blast
qed

definition sample_object :: NetObject where
  "sample_object = \<lparr>no_objectId = asBytes ''train_1'', no_classId = asBytes ''train'', no_kind = OtherObject,
     no_items = [
       \<lparr>ni_name = asBytes ''name'', ni_internal = False, ni_body = PropertyItem 10 VT_String [] (StringValue (asBytes ''ICE'')),
         ni_attributes = [\<lparr>na_name = 1, na_type = VT_Boolean, na_body = AttrValue (BooleanValue True)\<rparr>]\<rparr>,
       \<lparr>ni_name = asBytes ''secret'', ni_internal = True, ni_body = PropertyItem 128 VT_Integer [] (Int64Value 7), ni_attributes = []\<rparr>]\<rparr>"

definition sample_session :: NetSession where
  "sample_session = \<lparr>ns_handles = HandleList_init, ns_objectSignals = []\<rparr>"

definition sample_client :: "'o NetClient" where
  "sample_client = \<lparr>nc_objects = Map.empty, nc_requestForRelease = Map.empty, nc_handleCounter = Map.empty\<rparr>"

theorem net_object_roundtrip_witness:
  "\<exists>s' m' m''. writeObject (\<lambda>_. sample_object) (Some 3) (sample_session, nm_new 14 2 5) = Some (s', m') \<and>
    hl_itemToHandle (ns_handles s') 3 = Some (hl_nextHandle (ns_handles sample_session)) \<and>
    readObject sample_client (nm_advance (length (nm_data (nm_new 14 2 5)) - 8) (nm_received (nm_data m'))) =
      Some (hl_nextHandle (ns_handles sample_session),
        nc_create (hl_nextHandle (ns_handles sample_session)) (viewObject sample_object) sample_client, m'') \<and>
    nm_endOfMessage m''"
  by (rule net_object_roundtrip)
    (simp_all add: sample_object_def sample_session_def sample_client_def HandleList_init_def objectOk_def itemOk_def
      publicItems_def bodyOk_def attributeOk_def attributeType_def sized_def nm_new_def nm_dataSize_def asBytes_def
      objectBytes_def itemBytes_def blockBytes_def bodyBytes_def typeInfoBytes_def attributeBytes_def stringBytes_def boolBytes_def)

text \<open>
  C30. Reading an object changes the client's tables as the protocol of the handles has it: for a handle alone when
  the client has the object, in use or waiting for its release, and for a whole object when it has not.
\<close>

theorem net_read_refines:
  assumes "inside m" and "objectOk ob" and "nm_current m = blockBytes (if known then leBytes h else objectBytes h ob) @ rest"
    and "nc_objects c h \<noteq> None \<or> nc_requestForRelease c h \<noteq> None \<longleftrightarrow> known"
    and "nc_objects c h = None \<or> nc_requestForRelease c h = None"
    and "known \<longrightarrow> 0 < nc_counter c h \<and> nc_counter c h < nc_counter c h + 1"
  shows "\<exists>c' m'. readObject c m = Some (h, c', m') \<and> nm_data m' = nm_data m \<and>
    nc_read h (if known then None else Some (viewObject ob)) c = Some c'"
proof (cases known)
  case False
  with assms(4) have n: "nc_objects c h = None" "nc_requestForRelease c h = None" by auto
  with readObject_new [OF assms(2,1) _ n, of rest] assms(3) False show ?thesis by (simp add: nc_read_def)
next
  case True
  with assms(3) have cur: "nm_current m = blockBytes (leBytes h) @ rest" by simp
  show ?thesis
  proof (cases "nc_objects c h")
    case (Some o1)
    with readObject_known [OF assms(1) cur Some] True show ?thesis by (simp add: nc_read_def)
  next
    case None
    with assms(4) True obtain o2 where o2: "nc_requestForRelease c h = Some o2" by auto
    have "1 < nc_counter c h + 1"
      using assms(6) True unatSuc [of "nc_counter c h"] by (auto simp: word_less_nat_alt add.commute)
    from readObject_reused [OF assms(1) cur None o2 this] show ?thesis using None o2 True by (auto simp: nc_read_def)
  qed
qed

theorem net_read_refines_witness:
  "\<exists>c' m'. readObject (nc_create 1 (viewObject sample_object) sample_client) (nm_received [14, 128, 5, 0, 8, 0, 0, 0, 4, 0, 0, 0, 1, 0, 0, 0]) =
      Some (1, c', m') \<and> nm_data m' = [14, 128, 5, 0, 8, 0, 0, 0, 4, 0, 0, 0, 1, 0, 0, 0] \<and>
    nc_read 1 None (nc_create 1 (viewObject sample_object) sample_client) = Some c'"
proof -
  let ?m = "nm_received [14, 128, 5, 0, 8, 0, 0, 0, 4, 0, 0, 0, 1, 0, 0, 0]"
  let ?c = "nc_create 1 (viewObject sample_object) sample_client :: ClientObject NetClient"
  have "objectOk sample_object"
    by (simp add: sample_object_def objectOk_def itemOk_def publicItems_def bodyOk_def attributeOk_def attributeType_def asBytes_def)
  moreover have "nm_current ?m = blockBytes (if True then leBytes (1 :: u32) else objectBytes 1 sample_object) @ []"
    by (simp add: nm_current_def nm_received_def blockBytes_def leBytes_def upt_rec)
  moreover have "inside ?m" by (simp add: inside_def nm_received_def)
  ultimately show ?thesis
    using net_read_refines [of ?m sample_object True 1 "[]" ?c]
    by (simp add: nc_create_def sample_client_def nc_counter_def) (simp add: nm_received_def)
qed

section \<open>Handles\<close>

text \<open>
  C1. In every run of fewer than 2 to the 32 minus 2 actions in which the client discards no message with an object
  (what happens else is \<open>net_discard_unreadable\<close>): the client never reads behind the end of a message,
  which it would when it got the handle of an object it does not have; the object the client has for a handle
  is the one the server has; and when the server gives a handle up, the client does not use the object and no
  message that would bring it back is under way.
\<close>

theorem net_handles_safe:
  assumes "net_run as NetLink_init = Some s" and "length as + 2 < 2 ^ 32"
  shows "(nl_down s = [] \<or> net_act ClientReads s \<noteq> None) \<and>
    (\<forall>h i j. hl_getItem h (nl_handles s) = Some i \<longrightarrow> nc_objects (nl_client s) h = Some j \<longrightarrow> j = i) \<and>
    (\<forall>h x ms. nl_up s = (h, x) # ms \<longrightarrow> x = hl_getCounter h (nl_handles s) \<longrightarrow>
       nc_objects (nl_client s) h = None \<and> (\<forall>m \<in> set (nl_down s). messageHandle m = h \<longrightarrow> \<not> isCounted m))"
proof -
  have inv: "link_inv (length as) s" using net_run_init [OF assms(1)] assms(2) by simp
  have "nl_down s = [] \<or> net_act ClientReads s \<noteq> None"
  proof (cases "nl_down s")
    case (Cons m ms)
    obtain c where "nc_process m (nl_client s) = Some c"
      using client_reads [OF inv _ Cons] assms(2) by auto
    then show ?thesis using Cons by (simp add: net_act_def)
  qed simp
  moreover have "j = i" if "hl_getItem h (nl_handles s) = Some i" "nc_objects (nl_client s) h = Some j" for h i j
    using link_invD(12) [OF inv, of h i j] that by (simp add: hl_getItem_def)
  moreover have "nc_objects (nl_client s) h = None \<and> (\<forall>m \<in> set (nl_down s). messageHandle m = h \<longrightarrow> \<not> isCounted m)"
    if "nl_up s = (h, x) # ms" "x = hl_getCounter h (nl_handles s)" for h x ms
    using release_settled [OF inv _ that(2)] that(1) by (auto simp: underway_def filter_empty_conv)
  ultimately show ?thesis by blast
qed

lemma sample_run:
  "net_run [WriteObject 7, ClientReads, DropObject 1] NetLink_init =
    Some (the (net_run [WriteObject 7, ClientReads, DropObject 1] NetLink_init))"
  "nl_up (the (net_run [WriteObject 7, ClientReads, DropObject 1] NetLink_init)) = [(1, 1)]"
  "hl_getCounter 1 (nl_handles (the (net_run [WriteObject 7, ClientReads, DropObject 1] NetLink_init))) = 1"
  by (simp_all add: net_act_def nl_writeObject_def hl_getHandle_def hl_addItem_def NetLink_init_def HandleList_init_def
    hl_emplace_def nc_process_def nc_read_def nc_create_def nc_drop_def nc_counter_def hl_getCounter_def Let_def)

theorem net_handles_safe_witness:
  "nc_objects (nl_client (the (net_run [WriteObject 7, ClientReads, DropObject 1] NetLink_init))) 1 = None"
  using net_handles_safe [OF sample_run(1)] sample_run(2,3) by simp

text \<open>
  A message that brings a new object and that the client discards, a response whose callback is gone or the
  tile of an unknown board, is not made up for: the server takes the handle for known, and the
  next time it sends the object the client reads behind the end of the message.
\<close>

theorem net_discard_unreadable:
  assumes "net_run as NetLink_init = Some s" and "length as + 2 < 2 ^ 32"
    and "nl_down s = [NewObject h i]" and "hl_getItem h (nl_handles s) = Some i" and "nl_discard s = Some s'"
  shows "\<exists>s''. net_run [WriteObject i] s' = Some s'' \<and> nl_down s'' = [KnownObject h] \<and> net_run [ClientReads] s'' = None"
proof -
  have inv: "link_inv (length as) s" using net_run_init [OF assms(1)] assms(2) by simp
  note d = link_invD [OF inv]
  have s': "s' = s\<lparr>nl_down := []\<rparr>" using assms(3,5) by (simp add: nl_discard_def)
  have "h \<notin> nc_has (nl_client s)" using d(4) assms(3) by simp
  then have c: "nc_objects (nl_client s) h = None" "nc_requestForRelease (nl_client s) h = None"
    by (auto simp: nc_has_def domIff)
  have "hl_itemToHandle (nl_handles s) i = Some h"
    using assms(4) hl_invD(1) [OF d(1)] by (simp add: hl_getItem_def)
  then have w: "nl_writeObject i (nl_handles s) = (KnownObject h, hl_count h (nl_handles s))"
    using writeObject_cases [OF d(1), of i] by (metis option.inject option.distinct(1))
  let ?s = "s\<lparr>nl_handles := hl_count h (nl_handles s), nl_down := [KnownObject h]\<rparr>"
  have "net_run [WriteObject i] s' = Some ?s" by (simp add: net_act_def s' w)
  moreover have "net_run [ClientReads] ?s = None" by (simp add: net_act_def nc_process_def nc_read_def c)
  ultimately show ?thesis by (intro exI [of _ ?s]) simp
qed

theorem net_discard_unreadable_witness:
  "\<exists>s''. net_run [WriteObject 7] (the (nl_discard (the (net_run [WriteObject 7] NetLink_init)))) = Some s'' \<and>
    nl_down s'' = [KnownObject 1] \<and> net_run [ClientReads] s'' = None"
  by (rule net_discard_unreadable [of "[WriteObject 7]" "the (net_run [WriteObject 7] NetLink_init)"])
    (simp_all add: net_act_def nl_writeObject_def hl_getHandle_def hl_addItem_def NetLink_init_def HandleList_init_def
      hl_emplace_def hl_getItem_def nl_discard_def Let_def)

text \<open>
  C31. When the client uses an object, nothing is under way and the counters agree, then dropping the object
  frees the handle at both ends.
\<close>

theorem net_release_settles:
  assumes "net_run as NetLink_init = Some s" and "length as + 2 < 2 ^ 32"
    and "nl_down s = []" and "nl_up s = []" and "nc_objects (nl_client s) h = Some i"
    and "nc_counter (nl_client s) h = hl_getCounter h (nl_handles s)"
  shows "\<exists>s'. net_run [DropObject h, ServerReads, ClientReads] s = Some s' \<and>
    hl_getItem h (nl_handles s') = None \<and> nc_objects (nl_client s') h = None \<and>
    nc_requestForRelease (nl_client s') h = None \<and> nl_down s' = [] \<and> nl_up s' = []"
proof -
  have inv: "link_inv (length as) s" using net_run_init [OF assms(1)] assms(2) by simp
  note n = nc_drop_simps [OF assms(5)]
  let ?s1 = "s\<lparr>nl_client := snd (nc_drop h (nl_client s)), nl_up := [(h, nc_counter (nl_client s) h)]\<rparr>"
  have 1: "net_act (DropObject h) s = Some ?s1"
    using assms(4,5) n(1) by (simp add: net_act_def case_prod_unfold Let_def)
  let ?s2 = "?s1\<lparr>nl_up := [], nl_handles := hl_removeHandle h (nl_handles s), nl_down := [ReleasedEvent h]\<rparr>"
  have 2: "net_act ServerReads ?s1 = Some ?s2"
    using assms(3,6) by (simp add: net_act_def nl_release_def)
  let ?s3 = "?s2\<lparr>nl_client := nc_released h (snd (nc_drop h (nl_client s))), nl_down := []\<rparr>"
  have 3: "net_act ClientReads ?s2 = Some ?s3" by (simp add: net_act_def nc_process_def)
  have "net_run [DropObject h, ServerReads, ClientReads] s = Some ?s3" using 1 2 3 by simp
  moreover have "hl_getItem h (nl_handles ?s3) = None"
    using hl_removeHandle_simps(2) [OF link_invD(1) [OF inv]] by (simp add: hl_getItem_def)
  moreover have "nc_objects (nl_client ?s3) h = None" "nc_requestForRelease (nl_client ?s3) h = None"
    using n(2) by simp_all
  ultimately show ?thesis by (intro exI [of _ ?s3]) simp
qed

theorem net_release_settles_witness:
  "\<exists>s'. net_run [DropObject 1, ServerReads, ClientReads] (the (net_run [WriteObject 7, ClientReads] NetLink_init)) = Some s' \<and>
    hl_getItem 1 (nl_handles s') = None \<and> nc_objects (nl_client s') 1 = None \<and>
    nc_requestForRelease (nl_client s') 1 = None \<and> nl_down s' = [] \<and> nl_up s' = []"
  by (rule net_release_settles [of "[WriteObject 7, ClientReads]" _ _ 7])
    (simp_all add: net_act_def nl_writeObject_def hl_getHandle_def hl_addItem_def NetLink_init_def HandleList_init_def
      hl_emplace_def nc_process_def nc_read_def nc_create_def nc_counter_def hl_getCounter_def Let_def)

text \<open>
  C32. The event of a changed property or attribute carries a counted handle that the client does not count.
  After one such event the server never gives the handle up, whatever both do, as long as the object lives:
  the session keeps the handle, and an object the client has dropped waits for its release for ever.
\<close>

theorem net_changed_leaks:
  assumes "net_run as NetLink_init = Some s" and "net_run (FireChanged i # bs) s = Some s'"
    and "length as + length bs + 2 < 2 ^ 32" and "Destroy i \<notin> set bs"
  shows "\<exists>h. hl_itemToHandle (nl_handles s) i = Some h \<and> hl_itemToHandle (nl_handles s') i = Some h"
proof -
  have inv: "link_inv (length as) s" using net_run_init [OF assms(1)] assms(3) by simp
  from assms(2) obtain s1 where s1: "net_act (FireChanged i) s = Some s1" "net_run bs s1 = Some s'"
    by (auto split: bind_splits)
  then obtain h where h: "hl_itemToHandle (nl_handles s) i = Some h"
    by (auto simp: net_act_def nl_event_def split: if_splits)
  then have e: "s1 = s\<lparr>nl_handles := hl_count h (nl_handles s), nl_down := nl_down s @ [ChangedEvent h]\<rparr>"
    using s1(1) by (simp add: net_act_def nl_event_def getHandle_known)
  have "hl_handleToItem (nl_handles s) h = Some i" using hl_invD(2) [OF link_invD(1) [OF inv] h] .
  then have "unat (nc_counter (nl_client s) h) + underway h (nl_down s) \<le> unat (hl_getCounter h (nl_handles s))"
    using link_invD(7) [OF inv, of h] by (simp add: countBound_def)
  moreover have "unat (hl_getCounter h (nl_handles s) + 1) = unat (hl_getCounter h (nl_handles s)) + 1"
    by (rule unat_Suc32 [OF link_invD(3) [OF inv]]) (use assms(3) in simp)
  ultimately have "behind h i s1" using h by (simp add: e behind_def)
  moreover have "link_inv (length as + 1) s1" using net_act_inv [OF inv _ s1(1)] assms(3) by simp
  ultimately have "behind h i s'" using behind_run [OF _ _ s1(2)] assms(3,4) by fastforce
  then show ?thesis using h by (simp add: behind_def)
qed

theorem net_changed_leaks_witness:
  "hl_itemToHandle (nl_handles (the (net_run [FireChanged 7, ClientReads, DropObject 1, ServerReads]
    (the (net_run [WriteObject 7, ClientReads] NetLink_init))))) 7 \<noteq> None"
proof -
  let ?s = "the (net_run [WriteObject 7, ClientReads] NetLink_init)"
  have 1: "net_run [WriteObject 7, ClientReads] NetLink_init = Some ?s"
    "net_run [FireChanged 7, ClientReads, DropObject 1, ServerReads] ?s =
      Some (the (net_run [FireChanged 7, ClientReads, DropObject 1, ServerReads] ?s))"
    by (simp_all add: net_act_def nl_writeObject_def hl_getHandle_def hl_addItem_def NetLink_init_def HandleList_init_def
      hl_emplace_def nc_process_def nc_read_def nc_create_def nc_drop_def nc_counter_def hl_getCounter_def nl_event_def
      hl_count_def nl_release_def Let_def)
  have "\<exists>h. hl_itemToHandle (nl_handles ?s) 7 = Some h \<and> hl_itemToHandle (nl_handles (the
      (net_run [FireChanged 7, ClientReads, DropObject 1, ServerReads] ?s))) 7 = Some h"
    by (rule net_changed_leaks [OF 1]) simp_all
  then show ?thesis by auto
qed

section \<open>Answers\<close>

text \<open>
  C33. In a session a request to release, set or get a property or an object, or to export a world, gets exactly one
  answer with its command and request id, but a set request that fails gets exactly two, an error and
  then a success; an import of a world is answered, and then once more with the error for an
  invalid command.  (The other commands of the session are not modelled.)
\<close>

theorem net_one_answer:
  assumes "connectionProcess sw others uuid root m w k = Some (out, w', k')" and "isRequest m"
    and "nk_authenticated k" and "nk_session k = Some s"
    and "nm_command m \<in> {9, 10, 15, 16, 26, 27, 44, 45, 46}"
  shows "if nm_command m = 9 then \<exists>r. out = [r, errorResponse C1014 [] m] \<and> answers m r
    else if nm_command m = 16 \<or> nm_command m = 46 then
      (case setFailure sw m w s of
         None \<Rightarrow> answersIn m out = 1
       | Some what \<Rightarrow> out = [errorResponse C1018 [what] m, response m])
    else answersIn m out = 1"
proof -
  from assms(1,3,4) obtain o1 w1 s1 handled where p: "sessionProcess sw others m w s = Some (o1, w1, s1, handled)"
    "out = (if \<not> handled \<and> isRequest m then o1 @ [errorResponse C1014 [] m] else o1)"
    by (auto simp: connectionProcess_def split: bind_splits)
  have once: "answersIn m out = 1" if "answeredOnce m o1 handled"
    using that p(2) assms(2) by (auto simp: answeredOnce_def split: if_splits)
  have set: "case setFailure sw m w s of None \<Rightarrow> answersIn m out = 1
      | Some what \<Rightarrow> out = [errorResponse C1018 [what] m, response m]"
    if "setExact (setFailure sw m w s) m o1" "handled"
    using that p(2) by (cases "setFailure sw m w s") (simp_all add: setExact_def)
  have imp: "\<exists>r. out = [r, errorResponse C1014 [] m] \<and> answers m r"
    if "importWorld sw m w s = Some (o1, w1, s1, handled)"
    using that p(2) assms(2) by (auto simp: importWorld_def split: bind_splits sum.splits)
  note q = p(1) [unfolded sessionProcess_def]
  have "nm_command m = 9 \<or> nm_command m = 10 \<or> nm_command m = 15 \<or> nm_command m = 16 \<or> nm_command m = 26 \<or>
      nm_command m = 27 \<or> nm_command m = 44 \<or> nm_command m = 45 \<or> nm_command m = 46"
    using assms(5) by auto
  then show ?thesis
  proof (elim disjE)
    assume "nm_command m = 9" then show ?thesis using q imp by simp
  next
    assume "nm_command m = 10" then show ?thesis using q once [OF export_once] by simp
  next
    assume "nm_command m = 15" then show ?thesis using q once [OF release_once] by simp
  next
    assume c: "nm_command m = 16"
    then have "objectSetProperty sw m w s = Some (o1, w1, s1, handled)" using q by simp
    from set [OF set_exact [OF this assms(2) c]] show ?thesis using c by simp
  next
    assume "nm_command m = 26" then show ?thesis using q once [OF unit_once] by simp
  next
    assume "nm_command m = 27" then show ?thesis using q once [OF setObject_once] by simp
  next
    assume "nm_command m = 44" then show ?thesis using q once [OF getObject_once] by simp
  next
    assume "nm_command m = 45" then show ?thesis using q once [OF getObjects_once] by simp
  next
    assume c: "nm_command m = 46"
    then have "objectSetVectorProperty sw m w s = Some (o1, w1, s1, handled)" using q by simp
    from set [OF setElement_exact [OF this assms(2) c]] show ?thesis using c by simp
  qed
qed

text \<open>A world without objects in which setting a property fails.\<close>

definition sample_world :: "unit SessionWorld" where
  "sample_world = \<lparr>sw_object = \<lambda>_ _. sample_object, sw_byPath = \<lambda>_ _. None,
     sw_setProperty = \<lambda>_ _ _ _. Inl [98, 97, 100], sw_setElement = \<lambda>_ _ _ _ _. Inl [], sw_setObject = \<lambda>_ _ _ _. Inl [],
     sw_setUnit = \<lambda>_ _ _ _. Inl [], sw_toObject = \<lambda>_ _ _. None, sw_getObject = \<lambda>_ _ _ _. None,
     sw_import = \<lambda>_ w. Inr w, sw_export = \<lambda>_. None\<rparr>"

definition sample_known :: NetSession where
  "sample_known = sample_session\<lparr>ns_handles := snd (hl_addItem (Some 3) HandleList_init)\<rparr>"

definition sample_set :: NetMessage where
  "sample_set = nm_received [16, 64, 5, 0, 18, 0, 0, 0, 1, 0, 0, 0, 4, 0, 0, 0, 110, 97, 109, 101, 5, 1, 0, 0, 0, 120]"

lemma sample_set_reads:
  "nm_read sample_set = Some (1 :: u32, nm_advance 4 sample_set)"
  "nm_readString (nm_advance 4 sample_set) = Some ([110, 97, 109, 101], nm_advance 8 (nm_advance 4 sample_set))"
  "readNewValue (nm_advance 8 (nm_advance 4 sample_set)) =
    Some (Inr (StringValue [120]), nm_advance 5 (nm_advance 1 (nm_advance 8 (nm_advance 4 sample_set))))"
  by (simp_all add: nm_read_def nm_readString_def readNewValue_def nm_take_def nm_current_def nm_advance_def
      nm_received_def sample_set_def leWord_def)

theorem net_one_answer_witness:
  "connectionProcess sample_world (\<lambda>_ _ _. None) [] 0 sample_set () \<lparr>nk_authenticated = True, nk_session = Some sample_known\<rparr> =
    Some ([errorResponse C1018 [[98, 97, 100]] sample_set, response sample_set], (),
      \<lparr>nk_authenticated = True, nk_session = Some sample_known\<rparr>)"
proof -
  let ?k = "\<lparr>nk_authenticated = True, nk_session = Some sample_known\<rparr>"
  have r: "isRequest sample_set" "nm_command sample_set = 16"
    by (simp_all add: isRequest_def nm_type_def nm_command_def nm_received_def sample_set_def)
  have i: "hl_getItem 1 (ns_handles sample_known) = Some 3"
    by (simp add: sample_known_def sample_session_def hl_getItem_def hl_addItem_def HandleList_init_def hl_emplace_def Let_def)
  have p: "findProperty [110, 97, 109, 101] (sw_object sample_world () 3) = Some (hd (no_items sample_object))"
    by (simp add: findProperty_def sample_world_def sample_object_def asBytes_def)
  have f: "\<not> ni_internal (hd (no_items sample_object))" by (simp add: sample_object_def)
  have x: "sw_setProperty sample_world 3 [110, 97, 109, 101] v () = Inl [98, 97, 100]" for v by (simp add: sample_world_def)
  have fail: "setFailure sample_world sample_set () sample_known = Some [98, 97, 100]"
    using r i p f x by (simp add: setFailure_def sample_set_reads)
  obtain out where o1: "connectionProcess sample_world (\<lambda>_ _ _. None) [] 0 sample_set () ?k = Some (out, (), ?k)"
    using r i p f x
    by (simp add: connectionProcess_def sessionProcess_def objectSetProperty_def sample_set_reads afterSet_def)
  from net_one_answer [OF o1 r(1), of sample_known] r(2) fail
  have "out = [errorResponse C1018 [[98, 97, 100]] sample_set, response sample_set]" by simp
  with o1 show ?thesis by simp
qed

end
