(* ===== verification/Board_Map.thy ===== *)
theory Board_Map
  imports Prelude "HOL-Library.Monad_Syntax"
begin

text \<open>
  The track plan as a graph and the search for the paths between blocks:
  \<^verbatim>\<open>src/server/src/board/map/{node,link,path,blockpath}.cpp\<close>.  Tiles are numbers; a tile with a node has
  the links at its connectors, in the connectors' order, a link has its two ends (tile, connector) and
  the passive tiles between them.  A failed assertion is \<open>None\<close>.
\<close>

section \<open>Tiles, nodes and links\<close>

datatype TileId =
    RailStraight | RailCurve45 | RailCurve90 | RailCross45 | RailCross90
  | RailTurnoutLeft45 | RailTurnoutRight45 | RailTurnoutWye | RailTurnout3Way
  | RailTurnoutSingleSlip | RailTurnoutDoubleSlip | RailSignal2Aspect | RailSignal3Aspect
  | RailBufferStop | RailSensor | RailBlock | RailTurnoutLeft90 | RailTurnoutRight90
  | RailTurnoutLeftCurved | RailTurnoutRightCurved | RailBridge45Left | RailBridge45Right | RailBridge90
  | RailTunnel | RailOneWay | RailDirectionControl | RailLink | RailDecoupler | RailNXButton
  | TileNone | PushButton | Label | Switch

definition isRailCross :: "TileId \<Rightarrow> bool" where
  "isRailCross t \<longleftrightarrow> t \<in> {RailCross45, RailCross90}"

definition isRailBridge :: "TileId \<Rightarrow> bool" where
  "isRailBridge t \<longleftrightarrow> t \<in> {RailBridge45Left, RailBridge45Right, RailBridge90}"

definition isRailTurnout :: "TileId \<Rightarrow> bool" where
  "isRailTurnout t \<longleftrightarrow> t \<in> {RailTurnoutLeft45, RailTurnoutLeft90, RailTurnoutLeftCurved, RailTurnoutRight45,
     RailTurnoutRight90, RailTurnoutRightCurved, RailTurnoutWye, RailTurnout3Way, RailTurnoutSingleSlip, RailTurnoutDoubleSlip}"

definition isRailSignal :: "TileId \<Rightarrow> bool" where
  "isRailSignal t \<longleftrightarrow> t \<in> {RailSignal2Aspect, RailSignal3Aspect}"

record RailMap =
  rm_tileId :: "nat \<Rightarrow> TileId"
  rm_links :: "nat \<Rightarrow> nat option list"
  rm_ends :: "nat \<Rightarrow> (nat \<times> nat) \<times> (nat \<times> nat)"
  rm_tiles :: "nat \<Rightarrow> nat list"
  rm_linked :: "nat \<Rightarrow> nat option"

definition node_getLink :: "RailMap \<Rightarrow> nat \<Rightarrow> nat \<Rightarrow> nat option" where
  "node_getLink rm n i = (if i < length (rm_links rm n) then rm_links rm n ! i else None)"

definition link_getNext :: "RailMap \<Rightarrow> nat \<Rightarrow> nat \<Rightarrow> nat" where
  "link_getNext rm l n = (if fst (fst (rm_ends rm l)) = n then fst (snd (rm_ends rm l)) else fst (fst (rm_ends rm l)))"

definition otherLink :: "RailMap \<Rightarrow> nat \<Rightarrow> nat \<Rightarrow> nat option" where
  "otherLink rm n l =
    (if length (rm_links rm n) = 2 then rm_links rm n ! (if rm_links rm n ! 0 = Some l then 1 else 0) else None)"

section \<open>Turnouts\<close>

datatype TurnoutPosition =
  TpUnknown | TpStraight | TpLeft | TpRight | TpCrossed | TpDiverged | TpDoubleSlipStraightA | TpDoubleSlipStraightB

text \<open>The positions and the connectors a turnout leads to from a link; the empty list where the assertion fails.\<close>

definition getTurnoutLinks :: "RailMap \<Rightarrow> nat \<Rightarrow> nat \<Rightarrow> (TurnoutPosition \<times> nat) list" where
  "getTurnoutLinks rm n l =
    (let at = (\<lambda>i. node_getLink rm n i = Some l); t = rm_tileId rm n in
     if t \<in> {RailTurnoutLeft45, RailTurnoutLeft90, RailTurnoutLeftCurved} then
       (if at 0 then [(TpLeft, 1), (TpStraight, 2)]
        else if at 1 then [(TpLeft, 0)]
        else if at 2 then [(TpStraight, 0)] else [])
     else if t \<in> {RailTurnoutRight45, RailTurnoutRight90, RailTurnoutRightCurved} then
       (if at 0 then [(TpStraight, 1), (TpRight, 2)]
        else if at 1 then [(TpStraight, 0)]
        else if at 2 then [(TpRight, 0)] else [])
     else if t = RailTurnoutWye then
       (if at 0 then [(TpLeft, 1), (TpRight, 2)]
        else if at 1 then [(TpLeft, 0)]
        else if at 2 then [(TpRight, 0)] else [])
     else if t = RailTurnout3Way then
       (if at 0 then [(TpLeft, 1), (TpStraight, 2), (TpRight, 3)]
        else if at 1 then [(TpLeft, 0)]
        else if at 2 then [(TpStraight, 0)]
        else if at 3 then [(TpRight, 0)] else [])
     else if t = RailTurnoutSingleSlip then
       (if at 0 then [(TpDoubleSlipStraightA, 2), (TpDiverged, 1)]
        else if at 1 then [(TpDoubleSlipStraightB, 3), (TpDiverged, 0)]
        else if at 2 then [(TpDoubleSlipStraightA, 0)]
        else if at 3 then [(TpDoubleSlipStraightB, 1)] else [])
     else if t = RailTurnoutDoubleSlip then
       (if at 0 then [(TpDoubleSlipStraightA, 2), (TpLeft, 1)]
        else if at 1 then [(TpDoubleSlipStraightB, 3), (TpLeft, 0)]
        else if at 2 then [(TpDoubleSlipStraightA, 0), (TpRight, 3)]
        else if at 3 then [(TpDoubleSlipStraightB, 1), (TpRight, 2)] else [])
     else [])"

text \<open>The positions that can be set, by the constructors of the turnouts.\<close>

definition turnoutPositions :: "TileId \<Rightarrow> TurnoutPosition list" where
  "turnoutPositions t =
    (if t \<in> {RailTurnoutLeft45, RailTurnoutLeft90, RailTurnoutLeftCurved} then [TpStraight, TpLeft]
     else if t \<in> {RailTurnoutRight45, RailTurnoutRight90, RailTurnoutRightCurved} then [TpStraight, TpRight]
     else if t = RailTurnoutWye then [TpLeft, TpRight]
     else if t = RailTurnout3Way then [TpStraight, TpLeft, TpRight]
     else if t = RailTurnoutSingleSlip then [TpCrossed, TpDiverged, TpDoubleSlipStraightA, TpDoubleSlipStraightB]
     else if t = RailTurnoutDoubleSlip then
       [TpLeft, TpRight, TpCrossed, TpDiverged, TpDoubleSlipStraightA, TpDoubleSlipStraightB]
     else [])"

section \<open>Block paths\<close>

datatype BlockSide = SideA | SideB
datatype DirectionControlState = DcNone | DcAtoB | DcBtoA | DcBoth
datatype CrossState = CrossUnset | CrossAC | CrossBD
datatype BridgePath = BridgeAC | BridgeBD

record BlockPath =
  bp_fromBlock :: nat
  bp_fromSide :: BlockSide
  bp_toBlock :: "nat option"
  bp_toSide :: "BlockSide option"
  bp_tiles :: "nat list"
  bp_turnouts :: "(nat \<times> TurnoutPosition) list"
  bp_directionControls :: "(nat \<times> DirectionControlState) list"
  bp_crossings :: "(nat \<times> CrossState) list"
  bp_bridges :: "(nat \<times> BridgePath) list"
  bp_signals :: "nat list"
  bp_nxButtonFrom :: "nat option"
  bp_nxButtonTo :: "nat option"

definition BlockPath_new :: "nat \<Rightarrow> BlockSide \<Rightarrow> BlockPath" where
  "BlockPath_new b side = \<lparr>bp_fromBlock = b, bp_fromSide = side, bp_toBlock = None, bp_toSide = None, bp_tiles = [],
     bp_turnouts = [], bp_directionControls = [], bp_crossings = [], bp_bridges = [], bp_signals = [],
     bp_nxButtonFrom = None, bp_nxButtonTo = None\<rparr>"

definition bp_addTile :: "nat \<Rightarrow> BlockPath \<Rightarrow> BlockPath" where
  "bp_addTile t p = p\<lparr>bp_tiles := bp_tiles p @ [t]\<rparr>"

definition bp_addTurnout :: "nat \<Rightarrow> TurnoutPosition \<Rightarrow> BlockPath \<Rightarrow> BlockPath" where
  "bp_addTurnout t pos p = p\<lparr>bp_turnouts := bp_turnouts p @ [(t, pos)]\<rparr>"

text \<open>Where the search stands: the path so far, the tile it leaves and the link it leaves it by.\<close>

type_synonym Position = "BlockPath \<times> nat \<times> nat option"

text \<open>The first of the connectors of a crossing or bridge that has the link.\<close>

definition entryOf :: "RailMap \<Rightarrow> nat \<Rightarrow> nat \<Rightarrow> nat option" where
  "entryOf rm n l = List.find (\<lambda>i. node_getLink rm n i = Some l) [0, 1, 2, 3]"

text \<open>
  One turn of the loop: what becomes of the position at the head of the queue (\<open>None\<close> when it is dropped or
  complete), the positions put behind the queue, the paths found.
\<close>

definition findStep :: "RailMap \<Rightarrow> nat \<Rightarrow> Position \<Rightarrow> (Position option \<times> Position list \<times> BlockPath list) option" where
  "findStep rm startBlock cur =
    (case cur of (path, node, link) \<Rightarrow>
      (case link of
         None \<Rightarrow> Some (None, [], [])
       | Some l \<Rightarrow>
           (let path = path\<lparr>bp_tiles := bp_tiles path @ rm_tiles rm l\<rparr>;
                nxt = link_getNext rm l node; t = rm_tileId rm nxt;
                at0 = (node_getLink rm nxt 0 = Some l)
            in
            if t = RailBlock then
              Some (None, [], [path\<lparr>
                bp_nxButtonTo := if rm_tileId rm node = RailNXButton then Some node else bp_nxButtonTo path,
                bp_toBlock := Some nxt, bp_toSide := Some (if at0 then SideA else SideB)\<rparr>])
            else if isRailTurnout t then
              (if nxt \<in> fst ` set (bp_turnouts path) then Some (None, [], [])
               else
                 (case map (\<lambda>(pos, i). (bp_addTurnout nxt pos path, nxt, node_getLink rm nxt i)) (getTurnoutLinks rm nxt l) of
                    [] \<Rightarrow> None
                  | cur # others \<Rightarrow> Some (Some cur, others, [])))
            else if t = RailOneWay then
              (if at0 then Some (Some (bp_addTile nxt path, nxt, node_getLink rm nxt 1), [], [])
               else Some (None, [], []))
            else if t = RailDirectionControl then
              Some (Some (path\<lparr>bp_directionControls := bp_directionControls path @ [(nxt, if at0 then DcAtoB else DcBtoA)]\<rparr>,
                nxt, node_getLink rm nxt (if at0 then 1 else 0)), [], [])
            else if isRailBridge t then
              (case entryOf rm nxt l of
                 None \<Rightarrow> None
               | Some i \<Rightarrow>
                   Some (Some (path\<lparr>bp_bridges := bp_bridges path @ [(nxt, if i mod 2 = 0 then BridgeAC else BridgeBD)]\<rparr>,
                     nxt, node_getLink rm nxt ((i + 2) mod 4)), [], []))
            else if isRailCross t then
              (if nxt \<in> fst ` set (bp_crossings path) then Some (None, [], [])
               else
                 (case entryOf rm nxt l of
                    None \<Rightarrow> None
                  | Some i \<Rightarrow>
                      Some (Some (path\<lparr>bp_crossings := bp_crossings path @ [(nxt, if i mod 2 = 0 then CrossAC else CrossBD)]\<rparr>,
                        nxt, node_getLink rm nxt ((i + 2) mod 4)), [], [])))
            else if t = RailLink then
              (case rm_linked rm nxt of
                 None \<Rightarrow> Some (None, [], [])
               | Some other \<Rightarrow>
                   Some (Some (bp_addTile other (bp_addTile nxt path), other, node_getLink rm other 0), [], []))
            else if isRailSignal t then
              Some (Some (if at0 then (path\<lparr>bp_signals := bp_signals path @ [nxt]\<rparr>, nxt, node_getLink rm nxt 1)
                          else (bp_addTile nxt path, nxt, node_getLink rm nxt 0)), [], [])
            else if t = RailDecoupler then
              Some (Some (bp_addTile nxt path, nxt, otherLink rm nxt l), [], [])
            else if t = RailNXButton then
              Some (Some (if node = startBlock then path\<lparr>bp_nxButtonFrom := Some nxt\<rparr> else bp_addTile nxt path,
                nxt, otherLink rm nxt l), [], [])
            else None)))"

text \<open>The loop over the queue, which takes turns with the head until it is done.\<close>

partial_function (option) findLoop ::
  "RailMap \<Rightarrow> nat \<Rightarrow> Position list \<Rightarrow> BlockPath list \<Rightarrow> BlockPath list option" where
  "findLoop rm startBlock todo paths =
    (case todo of
       [] \<Rightarrow> Some paths
     | cur # rest \<Rightarrow>
         (case findStep rm startBlock cur of
            None \<Rightarrow> None
          | Some (head, others, found) \<Rightarrow>
              findLoop rm startBlock ((case head of None \<Rightarrow> [] | Some c \<Rightarrow> [c]) @ rest @ others) (paths @ found)))"

declare findLoop.simps [code]

definition BlockPath_find :: "RailMap \<Rightarrow> nat \<Rightarrow> BlockPath list option" where
  "BlockPath_find rm b =
    findLoop rm b
      ((case node_getLink rm b 0 of Some l \<Rightarrow> [(BlockPath_new b SideA, b, Some l)] | None \<Rightarrow> []) @
       (case node_getLink rm b 1 of Some l \<Rightarrow> [(BlockPath_new b SideB, b, Some l)] | None \<Rightarrow> [])) []"

end
