(* ===== verification/Board_Route.thy ===== *)
theory Board_Route
  imports Board_Map
begin

text \<open>
  What the search for block paths is to find, said with connectors instead of links: the rails of a tile
  join its connectors, a route follows the rails.  The map is \<open>rm_wf\<close> when the links' ends are as \<open>Link::connect\<close>
  makes them, every tile has the connectors of its kind, link tiles are linked in pairs, none to
  itself, and no link leads from a tile back to itself.
\<close>

section \<open>Well-formed maps\<close>

definition connectors :: "TileId \<Rightarrow> nat" where
  "connectors t =
    (if t \<in> {RailTurnout3Way, RailTurnoutSingleSlip, RailTurnoutDoubleSlip} \<or> isRailBridge t \<or> isRailCross t then 4
     else if isRailTurnout t then 3
     else if t \<in> {RailBlock, RailOneWay, RailDirectionControl, RailDecoupler, RailNXButton} \<or> isRailSignal t then 2
     else if t = RailLink then 1 else 0)"

text \<open>The other end of the link at a connector.\<close>

definition otherEnd :: "RailMap \<Rightarrow> nat \<Rightarrow> nat \<times> nat \<Rightarrow> nat \<times> nat" where
  "otherEnd rm l e = (if fst (rm_ends rm l) = e then snd (rm_ends rm l) else fst (rm_ends rm l))"

definition rm_wf :: "RailMap \<Rightarrow> bool" where
  "rm_wf rm \<longleftrightarrow> finite {n. rm_links rm n \<noteq> []} \<and>
    (\<forall>n. rm_links rm n \<noteq> [] \<longrightarrow> length (rm_links rm n) = connectors (rm_tileId rm n)) \<and>
    (\<forall>n i l. node_getLink rm n i = Some l \<longrightarrow>
       (n, i) \<in> {fst (rm_ends rm l), snd (rm_ends rm l)} \<and>
       fst (fst (rm_ends rm l)) \<noteq> fst (snd (rm_ends rm l)) \<and>
       (\<forall>e \<in> {fst (rm_ends rm l), snd (rm_ends rm l)}. node_getLink rm (fst e) (snd e) = Some l)) \<and>
    (\<forall>a b. rm_linked rm a = Some b \<longrightarrow> rm_linked rm b = Some a \<and> a \<noteq> b \<and> rm_tileId rm a = RailLink \<and> rm_tileId rm b = RailLink)"

section \<open>Routes\<close>

text \<open>The rails of a turnout with the position that each needs.\<close>

definition turnoutRails :: "TileId \<Rightarrow> (nat \<times> nat \<times> TurnoutPosition) list" where
  "turnoutRails t =
    (if t \<in> {RailTurnoutLeft45, RailTurnoutLeft90, RailTurnoutLeftCurved} then [(0, 1, TpLeft), (0, 2, TpStraight)]
     else if t \<in> {RailTurnoutRight45, RailTurnoutRight90, RailTurnoutRightCurved} then [(0, 1, TpStraight), (0, 2, TpRight)]
     else if t = RailTurnoutWye then [(0, 1, TpLeft), (0, 2, TpRight)]
     else if t = RailTurnout3Way then [(0, 1, TpLeft), (0, 2, TpStraight), (0, 3, TpRight)]
     else if t = RailTurnoutSingleSlip then [(0, 2, TpDoubleSlipStraightA), (1, 3, TpDoubleSlipStraightB), (0, 1, TpDiverged)]
     else if t = RailTurnoutDoubleSlip then
       [(0, 2, TpDoubleSlipStraightA), (1, 3, TpDoubleSlipStraightB), (0, 1, TpLeft), (2, 3, TpRight)]
     else [])"

definition turnoutLeg :: "TileId \<Rightarrow> nat \<Rightarrow> nat \<Rightarrow> TurnoutPosition \<Rightarrow> bool" where
  "turnoutLeg t i j pos \<longleftrightarrow> (i, j, pos) \<in> set (turnoutRails t) \<or> (j, i, pos) \<in> set (turnoutRails t)"

text \<open>The other tiles: where a rail leads that is entered at a connector.\<close>

definition through :: "TileId \<Rightarrow> nat \<Rightarrow> nat option" where
  "through t j =
    (if isRailBridge t \<or> isRailCross t then Some ((j + 2) mod 4)
     else if t = RailOneWay then (if j = 0 then Some 1 else None)
     else if t \<in> {RailDirectionControl, RailDecoupler, RailNXButton} \<or> isRailSignal t then Some (if j = 0 then 1 else 0)
     else None)"

text \<open>What passing a tile adds to the path.\<close>

definition passed :: "nat \<Rightarrow> nat \<Rightarrow> nat \<Rightarrow> TileId \<Rightarrow> nat \<Rightarrow> BlockPath \<Rightarrow> BlockPath" where
  "passed startBlock from m t j p =
    (if t = RailDirectionControl then
       p\<lparr>bp_directionControls := bp_directionControls p @ [(m, if j = 0 then DcAtoB else DcBtoA)]\<rparr>
     else if isRailBridge t then p\<lparr>bp_bridges := bp_bridges p @ [(m, if j mod 2 = 0 then BridgeAC else BridgeBD)]\<rparr>
     else if isRailCross t then p\<lparr>bp_crossings := bp_crossings p @ [(m, if j mod 2 = 0 then CrossAC else CrossBD)]\<rparr>
     else if isRailSignal t \<and> j = 0 then p\<lparr>bp_signals := bp_signals p @ [m]\<rparr>
     else if t = RailNXButton \<and> from = startBlock then p\<lparr>bp_nxButtonFrom := Some m\<rparr>
     else bp_addTile m p)"

definition underLink :: "RailMap \<Rightarrow> nat \<Rightarrow> BlockPath \<Rightarrow> BlockPath" where
  "underLink rm l p = p\<lparr>bp_tiles := bp_tiles p @ rm_tiles rm l\<rparr>"

text \<open>
  \<open>travel rm b p n i\<close>: a train can leave block \<open>b\<close> and come to leave tile \<open>n\<close> at its connector \<open>i\<close>, with \<open>p\<close> for
  what it passed.  No turnout and no crossing is passed twice.
\<close>

inductive travel :: "RailMap \<Rightarrow> nat \<Rightarrow> BlockPath \<Rightarrow> nat \<Rightarrow> nat \<Rightarrow> bool" for rm :: RailMap and b :: nat where
  travel_A: "travel rm b (BlockPath_new b SideA) b 0"
| travel_B: "travel rm b (BlockPath_new b SideB) b 1"
| travel_turnout: "travel rm b p n i \<Longrightarrow> node_getLink rm n i = Some l \<Longrightarrow> otherEnd rm l (n, i) = (m, j) \<Longrightarrow>
    isRailTurnout (rm_tileId rm m) \<Longrightarrow> m \<notin> fst ` set (bp_turnouts p) \<Longrightarrow> turnoutLeg (rm_tileId rm m) j k pos \<Longrightarrow>
    travel rm b (bp_addTurnout m pos (underLink rm l p)) m k"
| travel_through: "travel rm b p n i \<Longrightarrow> node_getLink rm n i = Some l \<Longrightarrow> otherEnd rm l (n, i) = (m, j) \<Longrightarrow>
    \<not> (isRailCross (rm_tileId rm m) \<and> m \<in> fst ` set (bp_crossings p)) \<Longrightarrow> through (rm_tileId rm m) j = Some k \<Longrightarrow>
    travel rm b (passed b n m (rm_tileId rm m) j (underLink rm l p)) m k"
| travel_link: "travel rm b p n i \<Longrightarrow> node_getLink rm n i = Some l \<Longrightarrow> otherEnd rm l (n, i) = (m, j) \<Longrightarrow>
    rm_tileId rm m = RailLink \<Longrightarrow> rm_linked rm m = Some q \<Longrightarrow>
    travel rm b (bp_addTile q (bp_addTile m (underLink rm l p))) q 0"

text \<open>A route ends at the first block.\<close>

definition arrived :: "RailMap \<Rightarrow> nat \<Rightarrow> nat \<Rightarrow> nat \<Rightarrow> BlockPath \<Rightarrow> BlockPath" where
  "arrived rm n m j p =
    p\<lparr>bp_nxButtonTo := if rm_tileId rm n = RailNXButton then Some n else bp_nxButtonTo p,
      bp_toBlock := Some m, bp_toSide := Some (if j = 0 then SideA else SideB)\<rparr>"

definition route :: "RailMap \<Rightarrow> nat \<Rightarrow> BlockPath \<Rightarrow> bool" where
  "route rm b r \<longleftrightarrow> (\<exists>p n i l m j. travel rm b p n i \<and> node_getLink rm n i = Some l \<and> otherEnd rm l (n, i) = (m, j) \<and>
    rm_tileId rm m = RailBlock \<and> r = arrived rm n m j (underLink rm l p))"

section \<open>Links and connectors\<close>

lemma getLink_size: "node_getLink rm n i = Some l \<Longrightarrow> i < length (rm_links rm n)"
  by (simp add: node_getLink_def split: if_splits)

lemma wf_size:
  assumes "rm_wf rm" and "node_getLink rm n i = Some l"
  shows "i < connectors (rm_tileId rm n)" and "length (rm_links rm n) = connectors (rm_tileId rm n)"
proof -
  have i: "i < length (rm_links rm n)" by (rule getLink_size [OF assms(2)])
  then have "rm_links rm n \<noteq> []" by auto
  then show l: "length (rm_links rm n) = connectors (rm_tileId rm n)" using assms(1) unfolding rm_wf_def by blast
  show "i < connectors (rm_tileId rm n)" using i l by simp
qed

lemma wf_ends:
  assumes "rm_wf rm" and "node_getLink rm n i = Some l"
  obtains a ia c ic where "rm_ends rm l = ((a, ia), (c, ic))" and "a \<noteq> c"
    and "node_getLink rm a ia = Some l" and "node_getLink rm c ic = Some l"
    and "n = a \<and> i = ia \<or> n = c \<and> i = ic"
proof -
  obtain a ia c ic where e: "rm_ends rm l = ((a, ia), (c, ic))" by (metis surj_pair)
  have "(\<forall>n i l. node_getLink rm n i = Some l \<longrightarrow>
       (n, i) \<in> {fst (rm_ends rm l), snd (rm_ends rm l)} \<and>
       fst (fst (rm_ends rm l)) \<noteq> fst (snd (rm_ends rm l)) \<and>
       (\<forall>e \<in> {fst (rm_ends rm l), snd (rm_ends rm l)}. node_getLink rm (fst e) (snd e) = Some l))"
    using assms(1) unfolding rm_wf_def by blast
  from this [rule_format, OF assms(2)] show thesis using that [of a ia c ic] e by auto
qed

lemma wf_unique:
  assumes "rm_wf rm" and "node_getLink rm n i = Some l" and "node_getLink rm n j = Some l"
  shows "i = j"
  using wf_ends [OF assms(1,2)] wf_ends [OF assms(1,3)] by (metis Pair_inject)

lemma wf_next:
  assumes "rm_wf rm" and "node_getLink rm n i = Some l" and "otherEnd rm l (n, i) = (m, j)"
  shows "link_getNext rm l n = m" and "node_getLink rm m j = Some l"
    and "node_getLink rm m k = Some l \<longleftrightarrow> k = j" and "m \<noteq> n" and "otherEnd rm l (m, j) = (n, i)"
proof -
  obtain a ia c ic where e: "rm_ends rm l = ((a, ia), (c, ic))" "a \<noteq> c" "node_getLink rm a ia = Some l"
    "node_getLink rm c ic = Some l" "n = a \<and> i = ia \<or> n = c \<and> i = ic"
    by (rule wf_ends [OF assms(1,2)])
  show "link_getNext rm l n = m" "m \<noteq> n" "otherEnd rm l (m, j) = (n, i)" and m: "node_getLink rm m j = Some l"
    using e assms(3) by (auto simp: link_getNext_def otherEnd_def split: if_splits)
  show "node_getLink rm m k = Some l \<longleftrightarrow> k = j" using m wf_unique [OF assms(1) m] by blast
qed

lemma wf_kind:
  assumes "rm_wf rm" and "node_getLink rm n i = Some l"
  shows "0 < connectors (rm_tileId rm n)"
  using wf_size [OF assms] by simp

text \<open>The turnout's links are its legs from the connector where the link is.\<close>

lemma getTurnoutLinks_legs:
  assumes "\<And>k. node_getLink rm m k = Some l \<longleftrightarrow> k = j" and "isRailTurnout (rm_tileId rm m)"
    and "j < connectors (rm_tileId rm m)"
  shows "getTurnoutLinks rm m l \<noteq> []"
    and "(pos, k) \<in> set (getTurnoutLinks rm m l) \<longleftrightarrow> turnoutLeg (rm_tileId rm m) j k pos"
proof -
  have j: "j = 0 \<or> j = 1 \<or> j = 2 \<or> j = 3"
    using assms(3) by (auto simp: connectors_def split: if_splits)
  have "getTurnoutLinks rm m l \<noteq> [] \<and> ((pos, k) \<in> set (getTurnoutLinks rm m l) \<longleftrightarrow> turnoutLeg (rm_tileId rm m) j k pos)"
    using j assms(2,3)
    by (cases "rm_tileId rm m")
      (auto simp: getTurnoutLinks_def Let_def assms(1) turnoutLeg_def turnoutRails_def isRailTurnout_def connectors_def
        isRailBridge_def isRailCross_def isRailSignal_def)
  then show "getTurnoutLinks rm m l \<noteq> []"
    "(pos, k) \<in> set (getTurnoutLinks rm m l) \<longleftrightarrow> turnoutLeg (rm_tileId rm m) j k pos" by blast+
qed

end
