(* ===== verification/Board_Search.thy ===== *)
theory Board_Search
  imports Board_Route
begin

text \<open>The search ends, and finds exactly the routes.\<close>

section \<open>One turn of the loop\<close>

definition moves :: "RailMap \<Rightarrow> nat \<Rightarrow> BlockPath \<Rightarrow> nat \<Rightarrow> nat \<Rightarrow> nat \<Rightarrow> nat \<Rightarrow> BlockPath \<Rightarrow> nat \<Rightarrow> nat \<Rightarrow> bool" where
  "moves rm b p n l m j p' q k \<longleftrightarrow>
    isRailTurnout (rm_tileId rm m) \<and> m \<notin> fst ` set (bp_turnouts p) \<and>
      (\<exists>pos. turnoutLeg (rm_tileId rm m) j k pos \<and> p' = bp_addTurnout m pos (underLink rm l p)) \<and> q = m \<or>
    \<not> (isRailCross (rm_tileId rm m) \<and> m \<in> fst ` set (bp_crossings p)) \<and> through (rm_tileId rm m) j = Some k \<and>
      p' = passed b n m (rm_tileId rm m) j (underLink rm l p) \<and> q = m \<or>
    rm_tileId rm m = RailLink \<and> rm_linked rm m = Some q \<and> k = 0 \<and>
      p' = bp_addTile q (bp_addTile m (underLink rm l p))"

lemma travel_moves:
  "travel rm b p n i \<Longrightarrow> node_getLink rm n i = Some l \<Longrightarrow> otherEnd rm l (n, i) = (m, j) \<Longrightarrow>
    moves rm b p n l m j p' q k \<Longrightarrow> travel rm b p' q k"
  unfolding moves_def by (auto intro: travel.intros)

lemma entryOf_unique:
  assumes "\<And>k. node_getLink rm m k = Some l \<longleftrightarrow> k = j" and "j < 4"
  shows "entryOf rm m l = Some j"
proof -
  have "j = 0 \<or> j = 1 \<or> j = 2 \<or> j = 3" using assms(2) by auto
  then show ?thesis by (auto simp: entryOf_def assms(1))
qed

lemma otherLink_through:
  assumes "\<And>k. node_getLink rm m k = Some l \<longleftrightarrow> k = j" and "length (rm_links rm m) = 2" and "j < 2"
  shows "otherLink rm m l = node_getLink rm m (if j = 0 then 1 else 0)"
proof -
  have "rm_links rm m ! 0 = Some l \<longleftrightarrow> j = 0" using assms(1) [of 0] assms(2) by (simp add: node_getLink_def)
  then show ?thesis using assms(2) by (simp add: otherLink_def node_getLink_def)
qed

text \<open>
  The positions that a turn puts in the queue are the ways on, the paths it finds are the routes that end here.
\<close>

definition successors :: "Position option \<times> Position list \<times> BlockPath list \<Rightarrow> Position set" where
  "successors r = (case r of (head, others, fs) \<Rightarrow> set_option head \<union> set others)"

definition found :: "Position option \<times> Position list \<times> BlockPath list \<Rightarrow> BlockPath set" where
  "found r = (case r of (head, others, fs) \<Rightarrow> set fs)"

lemma findStep_moves:
  assumes wf: "rm_wf rm" and l: "node_getLink rm n i = Some l" and e: "otherEnd rm l (n, i) = (m, j)"
  shows "\<exists>r. findStep rm b (p, n, Some l) = Some r \<and>
    (\<forall>p' q x. (p', q, x) \<in> successors r \<longleftrightarrow> (\<exists>k. moves rm b p n l m j p' q k \<and> x = node_getLink rm q k)) \<and>
    found r = (if rm_tileId rm m = RailBlock then {arrived rm n m j (underLink rm l p)} else {})"
proof -
  note nxt = wf_next [OF wf l e]
  have j: "j < connectors (rm_tileId rm m)" and len: "length (rm_links rm m) = connectors (rm_tileId rm m)"
    using wf_size [OF wf nxt(2)] by blast+
  have entry: "j < 4 \<Longrightarrow> entryOf rm m l = Some j" by (rule entryOf_unique [OF nxt(3)])
  have other: "length (rm_links rm m) = 2 \<Longrightarrow> j < 2 \<Longrightarrow> otherLink rm m l = node_getLink rm m (if j = 0 then 1 else 0)"
    by (rule otherLink_through [OF nxt(3)])
  show ?thesis
  proof (cases "isRailTurnout (rm_tileId rm m)")
    case True
    note legs = getTurnoutLinks_legs [OF nxt(3) True j]
    let ?f = "\<lambda>(pos, i). (bp_addTurnout m pos (underLink rm l p), m, node_getLink rm m i)"
    have th: "through (rm_tileId rm m) j = None" "rm_tileId rm m \<noteq> RailLink" "rm_tileId rm m \<noteq> RailBlock"
      using True by (cases "rm_tileId rm m"; simp add: through_def isRailTurnout_def isRailBridge_def isRailCross_def isRailSignal_def)+
    show ?thesis
    proof (cases "m \<in> fst ` set (bp_turnouts p)")
      case rep: True
      then show ?thesis
        using True th nxt(1) by (simp add: findStep_def Let_def successors_def found_def moves_def)
    next
      case new: False
      obtain c cs where c: "getTurnoutLinks rm m l = c # cs" using legs(1) by (cases "getTurnoutLinks rm m l") auto
      have st: "findStep rm b (p, n, Some l) = Some (Some (?f c), map ?f cs, [])"
        using True th nxt(1) new c by (simp add: findStep_def Let_def underLink_def)
      have "successors (Some (?f c), map ?f cs, []) = ?f ` set (getTurnoutLinks rm m l)"
        by (auto simp: successors_def c)
      then have 1: "(p', q, x) \<in> successors (Some (?f c), map ?f cs, []) \<longleftrightarrow>
          (\<exists>pos k. (pos, k) \<in> set (getTurnoutLinks rm m l) \<and> p' = bp_addTurnout m pos (underLink rm l p) \<and> q = m \<and>
            x = node_getLink rm m k)" for p' q x by (simp add: image_iff Bex_def)
      have 2: "moves rm b p n l m j p' q k \<longleftrightarrow>
          (\<exists>pos. (pos, k) \<in> set (getTurnoutLinks rm m l) \<and> p' = bp_addTurnout m pos (underLink rm l p)) \<and> q = m" for p' q k
        using True new th by (simp add: moves_def legs(2))
      have "(p', q, x) \<in> successors (Some (?f c), map ?f cs, []) \<longleftrightarrow>
          (\<exists>k. moves rm b p n l m j p' q k \<and> x = node_getLink rm q k)" for p' q x
        unfolding 1 2 by blast
      then show ?thesis using st th by (simp add: found_def)
    qed
  next
    case False
    then show ?thesis
      using j len entry other nxt(1,3)
      by (cases "rm_tileId rm m")
        (auto simp: findStep_def Let_def successors_def found_def moves_def through_def passed_def underLink_def
          arrived_def isRailTurnout_def isRailBridge_def isRailCross_def isRailSignal_def connectors_def
          bp_addTile_def split: option.split)
  qed
qed

section \<open>The loop\<close>

text \<open>The turns that a position takes with all that come from it, and the paths that come from it.\<close>

definition onward :: "Position option \<times> Position list \<times> BlockPath list \<Rightarrow> Position list" where
  "onward r = (case r of (head, others, fs) \<Rightarrow> (case head of None \<Rightarrow> [] | Some c \<Rightarrow> [c]) @ others)"

lemma set_onward: "set (onward r) = successors r"
  by (auto simp: onward_def successors_def split: option.splits prod.splits)

inductive turns :: "RailMap \<Rightarrow> nat \<Rightarrow> Position \<Rightarrow> nat \<Rightarrow> bool" for rm :: RailMap and b :: nat where
  turnsI: "findStep rm b c = Some r \<Longrightarrow> list_all2 (turns rm b) (onward r) ns \<Longrightarrow> turns rm b c (Suc (sum_list ns))"

inductive comes :: "RailMap \<Rightarrow> nat \<Rightarrow> Position \<Rightarrow> BlockPath \<Rightarrow> bool" for rm :: RailMap and b :: nat where
  comes_found: "findStep rm b c = Some r \<Longrightarrow> f \<in> found r \<Longrightarrow> comes rm b c f"
| comes_step: "findStep rm b c = Some r \<Longrightarrow> c' \<in> successors r \<Longrightarrow> comes rm b c' f \<Longrightarrow> comes rm b c f"

lemma comes_iff:
  assumes "findStep rm b c = Some r"
  shows "comes rm b c f \<longleftrightarrow> f \<in> found r \<or> (\<exists>c' \<in> successors r. comes rm b c' f)"
  using assms by (auto elim: comes.cases intro: comes.intros)

lemma findLoop_finds:
  assumes "list_all2 (turns rm b) todo ns"
  shows "\<exists>qs. findLoop rm b todo ps = Some qs \<and> set qs = set ps \<union> {f. \<exists>c \<in> set todo. comes rm b c f}"
  using assms
proof (induction "sum_list ns" arbitrary: todo ns ps rule: less_induct)
  case less
  show ?case
  proof (cases todo)
    case Nil
    then show ?thesis by (simp add: findLoop.simps)
  next
    case (Cons c rest)
    with less.prems obtain n ms where ns: "ns = n # ms" "turns rm b c n" "list_all2 (turns rm b) rest ms"
      by (auto simp: list_all2_Cons1)
    from ns(2) obtain r ks where r: "findStep rm b c = Some r" "list_all2 (turns rm b) (onward r) ks" "n = Suc (sum_list ks)"
      by (auto elim: turns.cases)
    obtain h os fs where hof: "r = (h, os, fs)" by (cases r)
    let ?hd = "case h of None \<Rightarrow> [] | Some c \<Rightarrow> [c]"
    have o: "list_all2 (turns rm b) (?hd @ os) ks" using r(2) by (simp add: onward_def hof)
    let ?k = "length ?hd"
    have split: "list_all2 (turns rm b) ?hd (take ?k ks)" "list_all2 (turns rm b) os (drop ?k ks)"
      using list_all2_takeI [OF o, of ?k] list_all2_dropI [OF o, of ?k] by simp_all
    have "list_all2 (turns rm b) (?hd @ rest @ os) (take ?k ks @ ms @ drop ?k ks)"
      using split ns(3) by (intro list_all2_appendI)
    moreover have "sum_list (take ?k ks @ ms @ drop ?k ks) < sum_list ns"
      using ns(1) r(3) sum_list_append [of "take ?k ks" "drop ?k ks"] by simp
    ultimately obtain qs where qs: "findLoop rm b (?hd @ rest @ os) (ps @ fs) = Some qs"
      "set qs = set (ps @ fs) \<union> {f. \<exists>c \<in> set (?hd @ rest @ os). comes rm b c f}"
      using less.hyps [of "take ?k ks @ ms @ drop ?k ks" "?hd @ rest @ os" "ps @ fs"] by blast
    have "findLoop rm b todo ps = Some qs"
      using qs(1) r(1) by (subst findLoop.simps) (simp add: Cons hof)
    moreover have "set (?hd @ rest @ os) = set rest \<union> successors r"
      using set_onward [of r] by (auto simp: onward_def hof)
    moreover have "found r = set fs" by (simp add: found_def hof)
    ultimately show ?thesis
      using qs(2) comes_iff [OF r(1)] by (intro exI [of _ qs]) (auto simp: Cons)
  qed
qed

section \<open>The search ends\<close>

text \<open>The connectors by which a position has left tiles, the last first.\<close>

inductive history :: "RailMap \<Rightarrow> nat \<Rightarrow> BlockPath \<Rightarrow> nat \<Rightarrow> nat \<Rightarrow> (nat \<times> nat) list \<Rightarrow> bool" for rm :: RailMap and b :: nat where
  history_start: "bp_turnouts p = [] \<Longrightarrow> history rm b p b i [(b, i)]"
| history_move: "history rm b p n i vs \<Longrightarrow> node_getLink rm n i = Some l \<Longrightarrow> otherEnd rm l (n, i) = (m, j) \<Longrightarrow>
    moves rm b p n l m j p' q k \<Longrightarrow> history rm b p' q k ((q, k) # vs)"

definition follows :: "RailMap \<Rightarrow> nat \<times> nat \<Rightarrow> nat \<times> nat \<Rightarrow> bool" where
  "follows rm x y \<longleftrightarrow> (\<exists>l m j. node_getLink rm (fst x) (snd x) = Some l \<and> otherEnd rm l x = (m, j) \<and>
    (m = fst y \<and> through (rm_tileId rm m) j = Some (snd y) \<or>
     rm_tileId rm m = RailLink \<and> rm_linked rm m = Some (fst y) \<and> snd y = 0))"

lemma through_inj:
  assumes "through t i = Some k" and "through t j = Some k" and "i < connectors t" and "j < connectors t"
  shows "i = j"
proof (cases "isRailBridge t \<or> isRailCross t")
  case True
  have "(i + 2) mod 4 = (j + 2) mod 4" "i < 4" "j < 4"
    using assms True by (simp_all add: through_def connectors_def)
  then show ?thesis by presburger
next
  case no: False
  show ?thesis
  proof (cases "t = RailOneWay")
    case True
    then show ?thesis using assms(1,2) no by (simp add: through_def split: if_splits)
  next
    case False
    then have t: "t \<in> {RailDirectionControl, RailDecoupler, RailNXButton} \<or> isRailSignal t"
      using assms(1) no by (simp add: through_def split: if_splits)
    then have "connectors t = 2" using no
      by (auto simp: connectors_def isRailTurnout_def isRailSignal_def isRailBridge_def isRailCross_def)
    moreover have "(if i = 0 then 1 else 0 :: nat) = k" "(if j = 0 then 1 else 0 :: nat) = k"
      using assms(1,2) t no False by (simp_all add: through_def)
    ultimately show ?thesis using assms(3,4) by (auto split: if_splits)
  qed
qed

lemma follows_inj:
  assumes wf: "rm_wf rm" and "follows rm x y" and "follows rm x' y"
  shows "x = x'"
proof -
  obtain l m j where x: "node_getLink rm (fst x) (snd x) = Some l" "otherEnd rm l x = (m, j)"
    "m = fst y \<and> through (rm_tileId rm m) j = Some (snd y) \<or>
     rm_tileId rm m = RailLink \<and> rm_linked rm m = Some (fst y) \<and> snd y = 0" using assms(2) unfolding follows_def by blast
  obtain l' m' j' where x': "node_getLink rm (fst x') (snd x') = Some l'" "otherEnd rm l' x' = (m', j')"
    "m' = fst y \<and> through (rm_tileId rm m') j' = Some (snd y) \<or>
     rm_tileId rm m' = RailLink \<and> rm_linked rm m' = Some (fst y) \<and> snd y = 0" using assms(3) unfolding follows_def by blast
  have e: "otherEnd rm l (fst x, snd x) = (m, j)" "otherEnd rm l' (fst x', snd x') = (m', j')" using x(2) x'(2) by simp_all
  note n = wf_next [OF wf x(1) e(1)] and n' = wf_next [OF wf x'(1) e(2)]
  note k = wf_size(1) [OF wf n(2)] and k' = wf_size(1) [OF wf n'(2)]
  have sym: "rm_linked rm a = Some c \<Longrightarrow> rm_linked rm c = Some a \<and> rm_tileId rm a = RailLink \<and> rm_tileId rm c = RailLink" for a c
    using wf unfolding rm_wf_def by blast
  have th: "through RailLink i = None" for i by (simp add: through_def isRailBridge_def isRailCross_def isRailSignal_def)
  have "m = m' \<and> j = j'"
  proof (cases "rm_tileId rm (fst y) = RailLink")
    case True
    then have "rm_linked rm m = Some (fst y)" "rm_tileId rm m = RailLink" "rm_linked rm m' = Some (fst y)" "rm_tileId rm m' = RailLink"
      using x(3) x'(3) th by auto
    moreover from this have "m = m'" using sym by (metis option.inject)
    moreover have "j = 0" "j' = 0" using k k' calculation(2,4) by (simp_all add: connectors_def isRailBridge_def isRailCross_def isRailTurnout_def isRailSignal_def)
    ultimately show ?thesis by simp
  next
    case False
    then have "rm_linked rm a \<noteq> Some (fst y)" for a using sym by blast
    then have t: "m = fst y" "through (rm_tileId rm (fst y)) j = Some (snd y)"
      "m' = fst y" "through (rm_tileId rm (fst y)) j' = Some (snd y)" using x(3) x'(3) by auto
    show ?thesis using through_inj [OF t(2,4)] k k' t(1,3) by simp
  qed
  then have "l = l'" using n(2) n'(2) by simp
  then show ?thesis using n(5) n'(5) \<open>m = m' \<and> j = j'\<close> by simp
qed

lemma moves_follows:
  assumes "node_getLink rm n i = Some l" and "otherEnd rm l (n, i) = (m, j)" and "moves rm b p n l m j p' q k"
    and "\<not> isRailTurnout (rm_tileId rm q)"
  shows "follows rm (n, i) (q, k)"
  using assms unfolding moves_def follows_def by auto

lemma moves_facts:
  assumes wf: "rm_wf rm" and "moves rm b p n l m j p' q k"
  shows "rm_tileId rm q \<noteq> RailBlock" and "fst ` set (bp_turnouts p) \<subseteq> fst ` set (bp_turnouts p')"
    and "isRailTurnout (rm_tileId rm q) \<Longrightarrow> q \<in> fst ` set (bp_turnouts p') \<and> q \<notin> fst ` set (bp_turnouts p)"
proof -
  have q: "rm_linked rm m = Some q \<Longrightarrow> rm_tileId rm q = RailLink" using wf unfolding rm_wf_def by blast
  have t: "through RailBlock j = None" "isRailTurnout t \<Longrightarrow> through t j = None" for t
    by (simp_all add: through_def isRailTurnout_def isRailBridge_def isRailCross_def isRailSignal_def) auto
  have nt: "\<not> isRailTurnout RailBlock" "\<not> isRailTurnout RailLink" by (simp_all add: isRailTurnout_def)
  show "rm_tileId rm q \<noteq> RailBlock"
  proof
    assume "rm_tileId rm q = RailBlock"
    then show False using assms(2) q t(1) nt unfolding moves_def by (elim disjE) auto
  qed
  show "fst ` set (bp_turnouts p) \<subseteq> fst ` set (bp_turnouts p')"
    using assms(2) unfolding moves_def by (auto simp: passed_def bp_addTurnout_def bp_addTile_def underLink_def)
  show "q \<in> fst ` set (bp_turnouts p') \<and> q \<notin> fst ` set (bp_turnouts p)" if "isRailTurnout (rm_tileId rm q)"
    using assms(2) q t(2) nt that unfolding moves_def by (auto simp: bp_addTurnout_def underLink_def)
qed

definition directed :: "RailMap \<Rightarrow> (nat \<times> nat) set" where
  "directed rm = {(n, i). node_getLink rm n i \<noteq> None}"

lemma finite_directed: "rm_wf rm \<Longrightarrow> finite (directed rm)"
proof -
  assume wf: "rm_wf rm"
  have "directed rm \<subseteq> (SIGMA n : {n. rm_links rm n \<noteq> []}. {..< length (rm_links rm n)})"
    by (auto simp: directed_def dest: getLink_size)
  moreover have "finite (SIGMA n : {n. rm_links rm n \<noteq> []}. {..< length (rm_links rm n)})"
    by (intro finite_SigmaI conjunct1 [OF wf [unfolded rm_wf_def]]) simp
  ultimately show ?thesis by (rule finite_subset)
qed

text \<open>No connector is left twice.\<close>

lemma history_facts:
  assumes wf: "rm_wf rm" and "history rm b p n i vs" and b: "rm_tileId rm b = RailBlock"
  shows "vs \<noteq> [] \<and> hd vs = (n, i) \<and> distinct vs \<and> set (tl vs) \<subseteq> directed rm \<and>
    (\<forall>us y ws. vs = us @ y # ws \<longrightarrow> ws = [] \<and> fst y = b \<or>
      ws \<noteq> [] \<and> rm_tileId rm (fst y) \<noteq> RailBlock \<and>
      (if isRailTurnout (rm_tileId rm (fst y)) then fst y \<in> fst ` set (bp_turnouts p) else follows rm (hd ws) y))"
  using assms(2)
proof induction
  case (history_start p i)
  show ?case by (auto simp: Cons_eq_append_conv)
next
  case (history_move p n i vs l m j p' q k)
  note f = moves_facts [OF wf history_move.hyps(4)]
  have vs: "vs \<noteq> []" "hd vs = (n, i)" "distinct vs" "set (tl vs) \<subseteq> directed rm" using history_move.IH by blast+
  have IH: "ws = [] \<and> fst y = b \<or> ws \<noteq> [] \<and> rm_tileId rm (fst y) \<noteq> RailBlock \<and>
      (if isRailTurnout (rm_tileId rm (fst y)) then fst y \<in> fst ` set (bp_turnouts p) else follows rm (hd ws) y)"
    if "vs = us @ y # ws" for us y ws using history_move.IH that by blast
  have new: "(q, k) \<notin> set vs"
  proof
    assume "(q, k) \<in> set vs"
    then obtain us ws where split: "vs = us @ (q, k) # ws" by (meson split_list)
    have "ws \<noteq> []" "isRailTurnout (rm_tileId rm q) \<Longrightarrow> q \<in> fst ` set (bp_turnouts p)"
      "\<not> isRailTurnout (rm_tileId rm q) \<Longrightarrow> follows rm (hd ws) (q, k)"
      using IH [OF split] f(1) b by (auto split: if_splits)
    then have "\<not> isRailTurnout (rm_tileId rm q)" "follows rm (hd ws) (q, k)" using f(3) by auto
    then have "hd ws = (n, i)"
      using follows_inj [OF wf _ moves_follows [OF history_move.hyps(2-4)]] by blast
    then have "hd ws = hd vs" "hd ws \<in> set ws" using vs(2) hd_in_set [OF \<open>ws \<noteq> []\<close>] by auto
    then show False using vs(3) split by (cases us) auto
  qed
  have dir: "(n, i) \<in> directed rm" using history_move.hyps(2) by (simp add: directed_def)
  have "set vs \<subseteq> directed rm" using vs(1,2,4) dir by (cases vs) auto
  moreover have "ws = [] \<and> fst y = b \<or> ws \<noteq> [] \<and> rm_tileId rm (fst y) \<noteq> RailBlock \<and>
      (if isRailTurnout (rm_tileId rm (fst y)) then fst y \<in> fst ` set (bp_turnouts p') else follows rm (hd ws) y)"
    if "(q, k) # vs = us @ y # ws" for us y ws
  proof (cases us)
    case Nil
    then have "y = (q, k)" "ws = vs" using that by simp_all
    then show ?thesis using f vs moves_follows [OF history_move.hyps(2-4)] by simp
  next
    case (Cons u us')
    then show ?thesis using IH [of us' y ws] that f(2) by auto
  qed
  ultimately show ?case using vs(3) new by auto
qed

lemma history_distinct:
  assumes "rm_wf rm" and "history rm b p n i vs" and "rm_tileId rm b = RailBlock"
  shows "vs \<noteq> []" and "hd vs = (n, i)" and "distinct vs" and "set (tl vs) \<subseteq> directed rm"
proof -
  note f = history_facts [OF assms]
  note r = conjunct2 [OF f] and q = conjunct2 [OF conjunct2 [OF f]]
  show "vs \<noteq> []" by (rule conjunct1 [OF f])
  show "hd vs = (n, i)" by (rule conjunct1 [OF r])
  show "distinct vs" by (rule conjunct1 [OF q])
  show "set (tl vs) \<subseteq> directed rm" by (rule conjunct1 [OF conjunct2 [OF q]])
qed

lemma turns_choice:
  "\<forall>c \<in> set cs. \<exists>n. turns rm b c n \<Longrightarrow> \<exists>ns. list_all2 (turns rm b) cs ns"
proof (induction cs)
  case Nil
  then show ?case by (intro exI [of _ "[]"]) simp
next
  case (Cons c cs)
  then obtain n ns where "turns rm b c n" "list_all2 (turns rm b) cs ns" by (metis list.set_intros)
  then show ?case by (intro exI [of _ "n # ns"]) simp
qed

lemma history_turns:
  assumes wf: "rm_wf rm" and b: "rm_tileId rm b = RailBlock"
  shows "history rm b p n i vs \<Longrightarrow> \<exists>N. turns rm b (p, n, node_getLink rm n i) N"
proof (induction "Suc (card (directed rm)) - length vs" arbitrary: p n i vs rule: less_induct)
  case less
  note h = history_distinct [OF wf less.prems b]
  show ?case
  proof (cases "node_getLink rm n i")
    case None
    have "turns rm b (p, n, None) (Suc (sum_list []))"
      by (rule turnsI [of _ _ _ "(None, [], [])"]) (simp_all add: findStep_def onward_def)
    then show ?thesis using None by auto
  next
    case (Some l)
    obtain m j where e: "otherEnd rm l (n, i) = (m, j)" by (metis surj_pair)
    obtain r where r: "findStep rm b (p, n, Some l) = Some r"
      "\<And>p' q x. (p', q, x) \<in> successors r \<longleftrightarrow> (\<exists>k. moves rm b p n l m j p' q k \<and> x = node_getLink rm q k)"
      using findStep_moves [OF wf Some e] by blast
    have "set vs \<subseteq> directed rm" using h(1,2,4) Some by (cases vs) (auto simp: directed_def)
    then have len: "length vs \<le> card (directed rm)"
      using card_mono [OF finite_directed [OF wf]] distinct_card [OF h(3)] by metis
    have "\<exists>N. turns rm b c N" if "c \<in> set (onward r)" for c
    proof -
      obtain p' q x where c: "c = (p', q, x)" by (cases c)
      with that have "(p', q, x) \<in> successors r" by (simp add: set_onward)
      then obtain k where k: "moves rm b p n l m j p' q k" "x = node_getLink rm q k" using r(2) by blast
      have "history rm b p' q k ((q, k) # vs)" by (rule history_move [OF less.prems Some e k(1)])
      from less.hyps [OF _ this] show ?thesis using c k(2) len by simp
    qed
    then obtain ns where "list_all2 (turns rm b) (onward r) ns" using turns_choice by blast
    then show ?thesis using turnsI [OF r(1)] Some by auto
  qed
qed

section \<open>The paths found\<close>

lemma comes_route:
  assumes wf: "rm_wf rm"
  shows "comes rm b (p, n, node_getLink rm n i) f \<Longrightarrow> travel rm b p n i \<Longrightarrow> route rm b f"
proof (induction "(p, n, node_getLink rm n i)" f arbitrary: p n i rule: comes.induct)
  case (comes_found r f)
  then obtain l where l: "node_getLink rm n i = Some l"
    by (cases "node_getLink rm n i") (auto simp: findStep_def found_def)
  obtain m j where e: "otherEnd rm l (n, i) = (m, j)" by (metis surj_pair)
  have "rm_tileId rm m = RailBlock \<and> f = arrived rm n m j (underLink rm l p)"
    using findStep_moves [OF wf l e, of b p] comes_found l by (auto split: if_splits)
  then show ?case using comes_found.prems l e unfolding route_def by blast
next
  case (comes_step r c' f)
  then obtain l where l: "node_getLink rm n i = Some l"
    by (cases "node_getLink rm n i") (auto simp: findStep_def successors_def)
  obtain m j where e: "otherEnd rm l (n, i) = (m, j)" by (metis surj_pair)
  obtain p' q x where c: "c' = (p', q, x)" by (cases c')
  then obtain k where k: "moves rm b p n l m j p' q k" "x = node_getLink rm q k"
    using findStep_moves [OF wf l e, of b p] comes_step(1,2) l by auto
  show ?case
    using comes_step.hyps(4) [of p' q k] c k(2) travel_moves [OF comes_step.prems l e k(1)] by simp
qed

lemma travel_comes:
  assumes wf: "rm_wf rm" and "travel rm b p n i" and "comes rm b (p, n, node_getLink rm n i) f"
  shows "comes rm b (BlockPath_new b SideA, b, node_getLink rm b 0) f \<or>
    comes rm b (BlockPath_new b SideB, b, node_getLink rm b 1) f"
proof -
  have step: "comes rm b (p, n, node_getLink rm n i) f"
    if "node_getLink rm n i = Some l" "otherEnd rm l (n, i) = (m, j)" "moves rm b p n l m j p' q k"
      "comes rm b (p', q, node_getLink rm q k) f" for p n i l m j p' q k
  proof -
    note a = that
    obtain r where "findStep rm b (p, n, Some l) = Some r" "(p', q, node_getLink rm q k) \<in> successors r"
      using findStep_moves [OF wf a(1,2), of b p] a(3) by blast
    then show ?thesis using comes.comes_step [OF _ _ a(4)] a(1) by simp
  qed
  show ?thesis using assms(2,3)
  proof induction
    case (travel_turnout p n i l m j k pos)
    then show ?case using step [of n i l m j p "bp_addTurnout m pos (underLink rm l p)" m k] by (auto simp: moves_def)
  next
    case (travel_through p n i l m j k)
    then show ?case
      using step [of n i l m j p "passed b n m (rm_tileId rm m) j (underLink rm l p)" m k] by (auto simp: moves_def)
  next
    case (travel_link p n i l m j q)
    then show ?case
      using step [of n i l m j p "bp_addTile q (bp_addTile m (underLink rm l p))" q 0] by (auto simp: moves_def)
  qed auto
qed

text \<open>The search ends, with the routes and nothing else.\<close>

lemma find_routes:
  assumes wf: "rm_wf rm" and b: "rm_tileId rm b = RailBlock"
  shows "\<exists>qs. BlockPath_find rm b = Some qs \<and> set qs = {f. route rm b f}"
proof -
  define todo where "todo = (case node_getLink rm b 0 of Some l \<Rightarrow> [(BlockPath_new b SideA, b, Some l)] | None \<Rightarrow> []) @
       (case node_getLink rm b 1 of Some l \<Rightarrow> [(BlockPath_new b SideB, b, Some l)] | None \<Rightarrow> [])"
  have start: "\<exists>N. turns rm b (BlockPath_new b side, b, node_getLink rm b i) N" for side i
    by (rule history_turns [OF wf b history_start]) (simp add: BlockPath_new_def)
  have none: "\<not> comes rm b (p, n, None) f" for p n f
    using comes_iff [of rm b "(p, n, None)" "(None, [], [])" f] by (simp add: findStep_def found_def successors_def)
  let ?A = "(BlockPath_new b SideA, b, node_getLink rm b 0)" and ?B = "(BlockPath_new b SideB, b, node_getLink rm b 1)"
  have mem: "c \<in> set todo \<longleftrightarrow> snd (snd c) \<noteq> None \<and> (c = ?A \<or> c = ?B)" for c
    unfolding todo_def by (cases "node_getLink rm b 0"; cases "node_getLink rm b 1"; cases c; auto)
  have "\<exists>N. turns rm b c N" if "c \<in> set todo" for c
    using start that unfolding mem by blast
  then obtain ns where "list_all2 (turns rm b) todo ns" using turns_choice [of todo rm b] by blast
  from findLoop_finds [OF this, of "[]"] obtain qs where qs: "findLoop rm b todo [] = Some qs"
    "set qs = {f. \<exists>c \<in> set todo. comes rm b c f}" by (simp only: list.set(1) Un_empty_left) blast
  have set: "set qs = {f. comes rm b (BlockPath_new b SideA, b, node_getLink rm b 0) f \<or>
      comes rm b (BlockPath_new b SideB, b, node_getLink rm b 1) f}"
  proof -
    have "(\<exists>c \<in> set todo. comes rm b c f) \<longleftrightarrow> comes rm b ?A f \<or> comes rm b ?B f" for f
      unfolding Bex_def mem using none by (metis (no_types, lifting) snd_conv)
    then show ?thesis unfolding qs(2) by simp
  qed
  have "comes rm b (p, n, node_getLink rm n i) f"
    if "node_getLink rm n i = Some l" "otherEnd rm l (n, i) = (m, j)" "rm_tileId rm m = RailBlock"
      "f = arrived rm n m j (underLink rm l p)" for p n i l m j f
  proof -
    note a = that
    from findStep_moves [OF wf a(1,2), of b p] obtain r where
      r: "findStep rm b (p, n, Some l) = Some r" "found r = {arrived rm n m j (underLink rm l p)}" unfolding a(3) by auto
    show ?thesis unfolding a(1,4) by (rule comes_found [OF r(1)]) (simp add: r(2))
  qed
  note last_turn = this
  have "f \<in> set qs" if "route rm b f" for f
  proof -
    from that obtain p n i l m j where "travel rm b p n i" "node_getLink rm n i = Some l" "otherEnd rm l (n, i) = (m, j)"
      "rm_tileId rm m = RailBlock" "f = arrived rm n m j (underLink rm l p)" unfolding route_def by blast
    then show ?thesis unfolding set using travel_comes [OF wf _ last_turn] by blast
  qed
  moreover have "f \<in> set qs \<Longrightarrow> route rm b f" for f
    unfolding set using comes_route [OF wf] travel_A travel_B by blast
  ultimately have "set qs = {f. route rm b f}" by blast
  then show ?thesis using qs(1) unfolding BlockPath_find_def todo_def by blast
qed

end
