(* ===== verification/Board_Rail.thy ===== *)
theory Board_Rail
  imports Board_Map Enums
begin

text \<open>
  The state of the tiles and of the trains in the blocks, and how a path between two blocks is reserved:
  \<^verbatim>\<open>src/server/src/board/tile/rail\<close>, \<^verbatim>\<open>src/server/src/train/traintracking.cpp\<close>,
  \<^verbatim>\<open>BlockPath::reserve\<close> and \<^verbatim>\<open>release\<close> in \<^verbatim>\<open>src/server/src/board/map/blockpath.cpp\<close>.  Tiles, trains and the statuses
  of trains in blocks are numbers.  Signals that are fired, and the outputs of turnouts, are events of the
  state.  What would dereference a null pointer or fail an assertion is \<open>None\<close>.
\<close>

section \<open>State\<close>

datatype BlockState = BsUnknown | BsOccupied | BsFree | BsReserved
datatype SensorState = SsUnknown | SsOccupied | SsFree | SsIdle | SsTriggered
datatype BlockTrainDirection = BtUnknown | TowardsA | TowardsB
datatype TrainMode = ManualUnprotected | ManualProtected | Automatic

fun oppositeDirection :: "BlockTrainDirection \<Rightarrow> BlockTrainDirection" where
  "oppositeDirection BtUnknown = BtUnknown"
| "oppositeDirection TowardsA = TowardsB"
| "oppositeDirection TowardsB = TowardsA"

fun toMask :: "BlockSide \<Rightarrow> u8" where "toMask SideA = 1" | "toMask SideB = 2"

fun bridgeMask :: "BridgePath \<Rightarrow> u8" where "bridgeMask BridgeAC = 1" | "bridgeMask BridgeBD = 2"

fun crossStateCode :: "CrossState \<Rightarrow> u8" where
  "crossStateCode CrossUnset = 0" | "crossStateCode CrossAC = 1" | "crossStateCode CrossBD = 2"

fun turnoutPositionCode :: "TurnoutPosition \<Rightarrow> u8" where
  "turnoutPositionCode TpUnknown = 0"
| "turnoutPositionCode TpStraight = 1"
| "turnoutPositionCode TpLeft = 2"
| "turnoutPositionCode TpRight = 3"
| "turnoutPositionCode TpCrossed = 4"
| "turnoutPositionCode TpDiverged = 5"
| "turnoutPositionCode TpDoubleSlipStraightA = 6"
| "turnoutPositionCode TpDoubleSlipStraightB = 7"

record BlockTile =
  bt_state :: BlockState
  bt_inputs :: "SensorState list"
  bt_sensorStates :: "SensorState list"
  bt_trains :: "nat list"
  bt_reservedPaths :: "BlockSide \<Rightarrow> BlockPath option"

record TrainBlockStatus =
  ts_block :: nat
  ts_train :: "nat option"
  ts_identification :: "u16 option"
  ts_direction :: BlockTrainDirection
  ts_dying :: bool

record RailTrain =
  tr_blocks :: "nat list"
  tr_active :: bool
  tr_powered :: bool
  tr_mode :: TrainMode
  tr_isStopped :: bool
  tr_direction :: Direction

datatype RailEvent =
    BlockStateChanged nat BlockState
  | TurnoutOutputs nat TurnoutPosition
  | PositionChanged nat TurnoutPosition
  | ControlChanged nat DirectionControlState
  | SignalEvaluate nat
  | TrainAssigned nat nat
  | TrainReserved nat nat BlockTrainDirection
  | TrainEntered nat nat BlockTrainDirection
  | TrainLeft nat nat BlockTrainDirection
  | TrainRemoved nat nat

record RailState =
  rl_exists :: "nat \<Rightarrow> bool"
  rl_blocks :: "nat \<Rightarrow> BlockTile"
  rl_reserved :: "nat \<Rightarrow> u8"
  rl_position :: "nat \<Rightarrow> TurnoutPosition"
  rl_control :: "nat \<Rightarrow> DirectionControlState"
  rl_crossState :: "nat \<Rightarrow> CrossState"
  rl_blockPath :: "nat \<Rightarrow> BlockPath option"
  rl_trains :: "nat \<Rightarrow> RailTrain"
  rl_statuses :: "nat \<Rightarrow> TrainBlockStatus"
  rl_nextStatus :: nat
  rl_events :: "RailEvent list"
  rl_dangling :: bool

definition rl_event :: "RailEvent \<Rightarrow> RailState \<Rightarrow> RailState" where
  "rl_event e s = s\<lparr>rl_events := rl_events s @ [e]\<rparr>"

definition setReservedState :: "nat \<Rightarrow> u8 \<Rightarrow> RailState \<Rightarrow> RailState" where
  "setReservedState t v s = s\<lparr>rl_reserved := (rl_reserved s)(t := v)\<rparr>"

definition setBlock :: "nat \<Rightarrow> (BlockTile \<Rightarrow> BlockTile) \<Rightarrow> RailState \<Rightarrow> RailState" where
  "setBlock b f s = s\<lparr>rl_blocks := (rl_blocks s)(b := f (rl_blocks s b))\<rparr>"

definition setTrain :: "nat \<Rightarrow> (RailTrain \<Rightarrow> RailTrain) \<Rightarrow> RailState \<Rightarrow> RailState" where
  "setTrain t f s = s\<lparr>rl_trains := (rl_trains s)(t := f (rl_trains s t))\<rparr>"

section \<open>Blocks\<close>

definition setBlockState :: "nat \<Rightarrow> BlockState \<Rightarrow> RailState \<Rightarrow> RailState" where
  "setBlockState b v s =
    (if v = bt_state (rl_blocks s b) then s
     else rl_event (BlockStateChanged b v) (setBlock b (\<lambda>t. t\<lparr>bt_state := v\<rparr>) s))"

text \<open>The loop over the inputs, which ends at the first that is occupied or not free.\<close>

fun scanInputs :: "SensorState list \<Rightarrow> BlockState option" where
  "scanInputs [] = Some BsFree"
| "scanInputs (x # xs) = (if x = SsOccupied then Some BsOccupied else if x \<noteq> SsFree then None else scanInputs xs)"

definition updateState :: "nat \<Rightarrow> RailState \<Rightarrow> RailState" where
  "updateState b s =
    (let t = rl_blocks s b
     in setBlockState b
       (case (if bt_inputs t = [] then None else scanInputs (bt_inputs t)) of
          Some BsOccupied \<Rightarrow> BsOccupied
        | Some _ \<Rightarrow> if bt_trains t = [] then BsFree else BsReserved
        | None \<Rightarrow> if bt_trains t = [] then BsUnknown else BsReserved) s)"

section \<open>Trains in blocks\<close>

definition createStatus :: "nat \<Rightarrow> nat option \<Rightarrow> u16 option \<Rightarrow> BlockTrainDirection \<Rightarrow> RailState \<Rightarrow> nat \<times> RailState" where
  "createStatus b train identification direction s =
    (rl_nextStatus s, s\<lparr>rl_nextStatus := rl_nextStatus s + 1,
       rl_statuses := (rl_statuses s)(rl_nextStatus s := \<lparr>ts_block = b, ts_train = train,
         ts_identification = identification, ts_direction = direction, ts_dying = False\<rparr>)\<rparr>)"

definition appendStatus :: "nat \<Rightarrow> nat \<Rightarrow> RailState \<Rightarrow> RailState" where
  "appendStatus b i = setBlock b (\<lambda>t. t\<lparr>bt_trains := bt_trains t @ [i]\<rparr>)"

definition blockRemove :: "nat \<Rightarrow> nat \<Rightarrow> RailState \<Rightarrow> RailState" where
  "blockRemove b i = setBlock b (\<lambda>t. t\<lparr>bt_trains := remove1 i (bt_trains t)\<rparr>)"

definition trainRemove :: "nat \<Rightarrow> nat \<Rightarrow> RailState \<Rightarrow> RailState" where
  "trainRemove t i = setTrain t (\<lambda>t. t\<lparr>tr_blocks := remove1 i (tr_blocks t)\<rparr>)"

definition destroyStatus :: "nat \<Rightarrow> RailState \<Rightarrow> RailState option" where
  "destroyStatus i s =
    (let st = rl_statuses s i in
     if ts_dying st then None
     else
       let s = blockRemove (ts_block st) i (s\<lparr>rl_statuses := (rl_statuses s)(i := st\<lparr>ts_dying := True\<rparr>)\<rparr>)
       in Some (case ts_train st of None \<Rightarrow> s | Some t \<Rightarrow> trainRemove t i s))"

text \<open>\<^verbatim>\<open>TrainTracking\<close>: a block is reserved for a train, a train leaves a block, a train enters one.\<close>

definition tracking_reserve :: "nat \<Rightarrow> nat \<Rightarrow> BlockTrainDirection \<Rightarrow> RailState \<Rightarrow> RailState" where
  "tracking_reserve train b direction s =
    (let (i, s) = createStatus b (Some train) None direction s
     in rl_event (TrainReserved b train direction) (appendStatus b i s))"

definition tracking_left :: "nat \<Rightarrow> RailState \<Rightarrow> RailState option" where
  "tracking_left i s =
    (let st = rl_statuses s i; b = ts_block st in
     case ts_train st of
       None \<Rightarrow> None
     | Some t \<Rightarrow> destroyStatus i (rl_event (TrainLeft b t (ts_direction st))
         (updateState b (blockRemove b i (trainRemove t i s)))))"

text \<open>Release of reserved tail blocks: the loop of \<^verbatim>\<open>enter\<close>.\<close>

partial_function (option) releaseTails :: "nat \<Rightarrow> RailState \<Rightarrow> RailState option" where
  "releaseTails t s =
    (let bs = tr_blocks (rl_trains s t) in
     if 1 < length bs \<and> bt_state (rl_blocks s (ts_block (rl_statuses s (last bs)))) = BsReserved
     then Option.bind (tracking_left (last bs) s) (releaseTails t)
     else Some s)"

declare releaseTails.simps [code]

text \<open>
  The loop reads the train by a reference into the status that enters.  When it has destroyed that status the
  reads that follow are undefined behaviour, which \<open>rl_dangling\<close> records; the rest of the state is then what it is
  if they still give the train.
\<close>

definition tracking_enterStatus :: "nat \<Rightarrow> RailState \<Rightarrow> RailState option" where
  "tracking_enterStatus i s =
    (let st = rl_statuses s i in
     case ts_train st of
       None \<Rightarrow> None
     | Some t \<Rightarrow> map_option (\<lambda>s. s\<lparr>rl_dangling := rl_dangling s \<or> ts_dying (rl_statuses s i)\<rparr>)
         (releaseTails t (rl_event (TrainEntered (ts_block st) t (ts_direction st))
           (setTrain t (\<lambda>r. r\<lparr>tr_blocks := i # tr_blocks r\<rparr>) s))))"

definition tracking_enter :: "nat \<Rightarrow> nat \<Rightarrow> BlockTrainDirection \<Rightarrow> RailState \<Rightarrow> RailState option" where
  "tracking_enter train b direction s =
    (let (i, s) = createStatus b (Some train) None direction s
     in tracking_enterStatus i (appendStatus b i s))"

section \<open>Reserving and releasing tiles\<close>

text \<open>The result is whether it is possible; a dry run changes nothing.\<close>

definition sideStatus :: "BlockSide \<Rightarrow> BlockTile \<Rightarrow> nat" where
  "sideStatus side t = (if side = SideA then hd (bt_trains t) else last (bt_trains t))"

definition block_reserve :: "nat \<Rightarrow> BlockPath \<Rightarrow> nat \<Rightarrow> BlockSide \<Rightarrow> bool \<Rightarrow> RailState \<Rightarrow> bool \<times> RailState" where
  "block_reserve b path train side dryRun s =
    (let t = rl_blocks s b; st = rl_statuses s (sideStatus side t) in
     if bt_state t = BsUnknown then (False, s)
     else if rl_reserved s b AND toMask side \<noteq> 0 then (False, s)
     else if bt_state t \<noteq> BsFree \<and>
       (bt_trains t = [] \<or> ts_train st \<noteq> Some train \<or>
        ts_direction st \<noteq> (if side = SideA then TowardsA else TowardsB)) then (False, s)
     else if dryRun then (True, s)
     else
       let s = setReservedState b (rl_reserved s b OR toMask side)
                 (setBlock b (\<lambda>t. t\<lparr>bt_reservedPaths := (bt_reservedPaths t)(side := Some path)\<rparr>) s);
           s = (if bt_state t = BsFree then tracking_reserve train b (if side = SideA then TowardsB else TowardsA) s else s)
       in (True, updateState b s))"

definition block_release :: "nat \<Rightarrow> BlockSide \<Rightarrow> bool \<Rightarrow> RailState \<Rightarrow> bool \<times> RailState" where
  "block_release b side dryRun s =
    (True, if dryRun then s
           else setReservedState b (rl_reserved s b AND NOT (toMask side))
             (setBlock b (\<lambda>t. t\<lparr>bt_reservedPaths := (bt_reservedPaths t)(side := None)\<rparr>) s))"

definition turnout_isValidPosition :: "RailMap \<Rightarrow> nat \<Rightarrow> TurnoutPosition \<Rightarrow> bool" where
  "turnout_isValidPosition rm n p \<longleftrightarrow> p \<in> set (turnoutPositions (rm_tileId rm n))"

definition turnout_doSetPosition :: "RailMap \<Rightarrow> nat \<Rightarrow> TurnoutPosition \<Rightarrow> bool \<Rightarrow> RailState \<Rightarrow> bool \<times> RailState" where
  "turnout_doSetPosition rm n p skipAction s =
    (if \<not> turnout_isValidPosition rm n p then (False, s)
     else
       let s = (if skipAction then s else rl_event (TurnoutOutputs n p) s)
       in (True, rl_event (PositionChanged n p) (s\<lparr>rl_position := (rl_position s)(n := p)\<rparr>)))"

definition turnout_reserve :: "RailMap \<Rightarrow> nat \<times> TurnoutPosition \<Rightarrow> bool \<Rightarrow> RailState \<Rightarrow> bool \<times> RailState" where
  "turnout_reserve rm np dryRun s =
    (let (n, p) = np in
     if \<not> turnout_isValidPosition rm n p then (False, s)
     else if dryRun then (True, s)
     else
       let (ok, s) = turnout_doSetPosition rm n p False s
       in if ok then (True, setReservedState n (turnoutPositionCode p) s) else (False, s))"

definition control_reserve :: "nat \<times> DirectionControlState \<Rightarrow> bool \<Rightarrow> RailState \<Rightarrow> bool \<times> RailState" where
  "control_reserve nd dryRun s =
    (let (n, d) = nd in
     if rl_control s n \<noteq> d \<and> rl_control s n \<noteq> DcBoth then (False, s)
     else (True, if dryRun then s else setReservedState n 1 s))"

definition cross_reserve :: "nat \<times> CrossState \<Rightarrow> bool \<Rightarrow> RailState \<Rightarrow> bool \<times> RailState" where
  "cross_reserve nc dryRun s =
    (let (n, c) = nc in
     if rl_crossState s n \<noteq> CrossUnset then (False, s)
     else (True, if dryRun then s
            else setReservedState n (crossStateCode c) (s\<lparr>rl_crossState := (rl_crossState s)(n := c)\<rparr>)))"

definition bridge_reserve :: "nat \<times> BridgePath \<Rightarrow> bool \<Rightarrow> RailState \<Rightarrow> bool \<times> RailState" where
  "bridge_reserve nb dryRun s =
    (let (n, p) = nb in
     if rl_reserved s n AND bridgeMask p \<noteq> 0 then (False, s)
     else (True, if dryRun then s else setReservedState n (rl_reserved s n OR bridgeMask p) s))"

definition signal_reserve :: "BlockPath \<Rightarrow> nat \<Rightarrow> bool \<Rightarrow> RailState \<Rightarrow> bool \<times> RailState" where
  "signal_reserve path n dryRun s =
    (True, if dryRun then s
           else rl_event (SignalEvaluate n) (setReservedState n 1 (s\<lparr>rl_blockPath := (rl_blockPath s)(n := Some path)\<rparr>)))"

section \<open>Reserving a path\<close>

text \<open>The tiles of one kind one after the other; the first that fails ends it.\<close>

fun reserveAll :: "('t \<Rightarrow> nat) \<Rightarrow> ('t \<Rightarrow> bool \<Rightarrow> RailState \<Rightarrow> bool \<times> RailState) \<Rightarrow> 't list \<Rightarrow> bool \<Rightarrow> RailState \<Rightarrow> bool \<times> RailState" where
  "reserveAll tile res [] dryRun s = (True, s)"
| "reserveAll tile res (t # ts) dryRun s =
    (if rl_exists s (tile t) then
       (let (ok, s) = res t dryRun s in if ok then reserveAll tile res ts dryRun s else (False, s))
     else (False, s))"

definition bp_to :: "BlockPath \<Rightarrow> RailState \<Rightarrow> (nat \<times> BlockSide) option" where
  "bp_to p s =
    (case bp_toBlock p of
       Some b \<Rightarrow> if rl_exists s b then map_option (\<lambda>side. (b, side)) (bp_toSide p) else None
     | None \<Rightarrow> None)"

definition andThen :: "bool \<times> RailState \<Rightarrow> (RailState \<Rightarrow> bool \<times> RailState) \<Rightarrow> bool \<times> RailState" where
  "andThen r f = (if fst r then f (snd r) else r)"

definition reserveParts :: "RailMap \<Rightarrow> BlockPath \<Rightarrow> nat \<Rightarrow> bool \<Rightarrow> RailState \<Rightarrow> bool \<times> RailState" where
  "reserveParts rm p train dryRun s =
    andThen (andThen (andThen (andThen (andThen (andThen
      (block_reserve (bp_fromBlock p) p train (bp_fromSide p) dryRun s)
      (\<lambda>s. case bp_to p s of None \<Rightarrow> (False, s) | Some (b, side) \<Rightarrow> block_reserve b p train side dryRun s))
      (reserveAll fst (turnout_reserve rm) (bp_turnouts p) dryRun))
      (reserveAll fst control_reserve (bp_directionControls p) dryRun))
      (reserveAll fst cross_reserve (bp_crossings p) dryRun))
      (reserveAll fst bridge_reserve (bp_bridges p) dryRun))
      (reserveAll id (signal_reserve p) (bp_signals p) dryRun)"

definition reserveTiles :: "BlockPath \<Rightarrow> RailState \<Rightarrow> RailState" where
  "reserveTiles p s =
    fold (\<lambda>t. setReservedState t 1)
      (filter (rl_exists s) (bp_tiles p @ (case bp_nxButtonFrom p of None \<Rightarrow> [] | Some n \<Rightarrow> [n]) @
         (case bp_nxButtonTo p of None \<Rightarrow> [] | Some n \<Rightarrow> [n]))) s"

text \<open>
  The dry run first, then the run, in which every failure is a failed assertion; only a block that does not
  exist any more is none.
\<close>

definition BlockPath_reserve :: "RailMap \<Rightarrow> BlockPath \<Rightarrow> nat \<Rightarrow> RailState \<Rightarrow> (bool \<times> RailState) option" where
  "BlockPath_reserve rm p train s =
    (if \<not> fst (reserveParts rm p train True s) then Some (False, s)
     else
       (case reserveParts rm p train False s of
          (True, s') \<Rightarrow> Some (True, reserveTiles p s')
        | (False, s') \<Rightarrow> if bp_to p s = None then Some (False, s') else None))"

section \<open>Releasing a path\<close>

definition turnout_release :: "nat \<times> TurnoutPosition \<Rightarrow> bool \<Rightarrow> RailState \<Rightarrow> bool \<times> RailState" where
  "turnout_release np dryRun s = (True, if dryRun then s else setReservedState (fst np) 0 s)"

definition cross_release :: "nat \<times> CrossState \<Rightarrow> bool \<Rightarrow> RailState \<Rightarrow> bool \<times> RailState" where
  "cross_release nc dryRun s = (True, if dryRun then s else setReservedState (fst nc) 0 s)"

definition bridge_release :: "nat \<times> BridgePath \<Rightarrow> RailState \<Rightarrow> RailState" where
  "bridge_release nb s = setReservedState (fst nb) (rl_reserved s (fst nb) AND NOT (bridgeMask (snd nb))) s"

definition releaseParts :: "BlockPath \<Rightarrow> bool \<Rightarrow> RailState \<Rightarrow> bool \<times> RailState" where
  "releaseParts p dryRun s =
    andThen (andThen (andThen
      (block_release (bp_fromBlock p) (bp_fromSide p) dryRun s)
      (\<lambda>s. case bp_to p s of None \<Rightarrow> (False, s) | Some (b, side) \<Rightarrow> block_release b side dryRun s))
      (reserveAll fst turnout_release (bp_turnouts p) dryRun))
      (reserveAll fst cross_release (bp_crossings p) dryRun)"

definition releaseTiles :: "BlockPath \<Rightarrow> RailState \<Rightarrow> RailState" where
  "releaseTiles p s =
    (let s = fold (\<lambda>t. setReservedState t 0) (filter (rl_exists s) (map fst (bp_directionControls p))) s;
         s = fold bridge_release (filter (\<lambda>nb. rl_exists s (fst nb)) (bp_bridges p)) s
     in fold (\<lambda>t. setReservedState t 0)
       (filter (rl_exists s) (bp_signals p @ bp_tiles p @ (case bp_nxButtonFrom p of None \<Rightarrow> [] | Some n \<Rightarrow> [n]) @
         (case bp_nxButtonTo p of None \<Rightarrow> [] | Some n \<Rightarrow> [n]))) s)"

definition BlockPath_release :: "BlockPath \<Rightarrow> RailState \<Rightarrow> (bool \<times> RailState) option" where
  "BlockPath_release p s =
    (if \<not> fst (releaseParts p True s) then Some (False, s)
     else
       (case releaseParts p False s of
          (True, s') \<Rightarrow> Some (True, releaseTiles p s')
        | (False, s') \<Rightarrow> if bp_to p s = None then Some (False, s') else None))"

definition BlockPath_isReady :: "BlockPath \<Rightarrow> RailState \<Rightarrow> bool" where
  "BlockPath_isReady p s \<longleftrightarrow>
    (\<forall>(n, pos) \<in> set (bp_turnouts p). rl_exists s n \<and> rl_position s n = pos) \<and>
    (\<forall>(n, d) \<in> set (bp_directionControls p). rl_exists s n \<and> (rl_control s n = d \<or> rl_control s n = DcBoth))"

end
