(* ===== verification/Board_Traffic.thy ===== *)
theory Board_Traffic
  imports Board_Rail
begin

text \<open>
  What happens on a board while it runs: the sensors of the blocks, trains assigned and removed, turnouts
  and direction controls, paths selected with NX buttons, and the paths of a block after a change of the
  board.  \<^verbatim>\<open>src/server/src/board/tile/rail/blockrailtile.cpp\<close>, \<^verbatim>\<open>directioncontrolrailtile.cpp\<close>,
  \<^verbatim>\<open>nxbuttonrailtile.cpp\<close>, \<^verbatim>\<open>src/server/src/board/nx/nxmanager.cpp\<close>.
\<close>

section \<open>Sensors\<close>

definition isDirectionTowardsSide :: "BlockTrainDirection \<Rightarrow> BlockSide \<Rightarrow> bool" where
  "isDirectionTowardsSide d side \<longleftrightarrow> d = TowardsA \<and> side = SideA \<or> d = TowardsB \<and> side = SideB"

definition awayFrom :: "BlockSide \<Rightarrow> BlockTrainDirection" where
  "awayFrom side = (if side = SideA then TowardsB else TowardsA)"

text \<open>The train that may come by a path into a block, when its status is the first at the path's side.\<close>

definition trainOnPath :: "RailState \<Rightarrow> nat \<Rightarrow> bool \<Rightarrow> BlockSide \<Rightarrow> BlockPath \<Rightarrow> (nat \<times> BlockTrainDirection) option" where
  "trainOnPath s b anySide enterSide p =
    (case bp_to p s of
       None \<Rightarrow> None
     | Some (b', side) \<Rightarrow>
         let from = rl_blocks s (bp_fromBlock p); st = rl_statuses s (sideStatus (bp_fromSide p) from) in
         if b' = b \<and> (anySide \<or> side = enterSide) \<and> bt_trains from \<noteq> [] \<and> BlockPath_isReady p s \<and>
            isDirectionTowardsSide (ts_direction st) (bp_fromSide p)
         then (case ts_train st of
                 None \<Rightarrow> None
               | Some t \<Rightarrow>
                   if tr_powered (rl_trains s t) \<and> tr_mode (rl_trains s t) = ManualUnprotected \<and> \<not> tr_isStopped (rl_trains s t)
                   then Some (t, awayFrom side) else None)
         else None)"

text \<open>The loop over the paths into the block: a second train makes it unknown.\<close>

fun enteringTrain :: "RailState \<Rightarrow> nat \<Rightarrow> bool \<Rightarrow> BlockSide \<Rightarrow> BlockPath list \<Rightarrow> (nat \<times> BlockTrainDirection) option \<Rightarrow>
    (nat \<times> BlockTrainDirection) option" where
  "enteringTrain s b anySide enterSide [] found = found"
| "enteringTrain s b anySide enterSide (p # ps) found =
    (case trainOnPath s b anySide enterSide p of
       None \<Rightarrow> enteringTrain s b anySide enterSide ps found
     | Some t \<Rightarrow> if found = None then enteringTrain s b anySide enterSide ps (Some t) else None)"

definition leadsTo :: "BlockPath option \<Rightarrow> nat \<Rightarrow> RailState \<Rightarrow> bool" where
  "leadsTo path b s \<longleftrightarrow> (case path of None \<Rightarrow> False | Some p \<Rightarrow> map_option fst (bp_to p s) = Some b)"

text \<open>A sensor got occupied.\<close>

definition occupiedBy :: "BlockPath list \<Rightarrow> nat \<Rightarrow> nat \<Rightarrow> RailState \<Rightarrow> RailState option" where
  "occupiedBy pathsIn b i s =
    (let t = rl_blocks s b; n = length (bt_inputs t); first = (i = 0); final = (i + 1 = n) in
     case bt_state t of
       BsOccupied \<Rightarrow> Some s
     | BsReserved \<Rightarrow>
         (let enterA = (first \<and> leadsTo (bt_reservedPaths t SideA) b s);
              enterB = (final \<and> leadsTo (bt_reservedPaths t SideB) b s)
          in if enterA \<noteq> enterB then
               (if bt_trains t = [] then None
                else tracking_enterStatus (if enterA then hd (bt_trains t) else last (bt_trains t)) s)
             else Some s)
     | _ \<Rightarrow>
         (if 2 < n \<and> \<not> first \<and> \<not> final then Some s
          else
            (case enteringTrain s b (n = 1) (if first then SideA else SideB) pathsIn None of
               None \<Rightarrow> Some s
             | Some (train, direction) \<Rightarrow> tracking_enter train b direction s)))"

text \<open>The tail of a train left.\<close>

definition freedBy :: "nat \<Rightarrow> RailState \<Rightarrow> RailState option" where
  "freedBy b s =
    (case bt_trains (rl_blocks s b) of
       [j] \<Rightarrow>
         (case ts_train (rl_statuses s j) of
            None \<Rightarrow> Some s
          | Some t \<Rightarrow>
              if 1 < length (tr_blocks (rl_trains s t)) \<and> last (tr_blocks (rl_trains s t)) = j then tracking_left j s
              else Some s)
     | _ \<Rightarrow> Some s)"

definition inputItemValueChanged :: "BlockPath list \<Rightarrow> nat \<Rightarrow> nat \<Rightarrow> RailState \<Rightarrow> RailState option" where
  "inputItemValueChanged pathsIn b i s =
    (let v = bt_inputs (rl_blocks s b) ! i in
     do { s \<leftarrow> (if v = SsOccupied then occupiedBy pathsIn b i s else Some s);
          let s = updateState b (setBlock b (\<lambda>t. t\<lparr>bt_sensorStates :=
            if length (bt_inputs t) \<noteq> length (bt_sensorStates t) then bt_inputs t else (bt_sensorStates t)[i := v]\<rparr>) s);
          if v = SsFree \<and> bt_state (rl_blocks s b) = BsReserved then freedBy b s else Some s })"

definition BlockInputMapItem_setValue :: "BlockPath list \<Rightarrow> nat \<Rightarrow> nat \<Rightarrow> SensorState \<Rightarrow> RailState \<Rightarrow> RailState option" where
  "BlockInputMapItem_setValue pathsIn b i v s =
    (if bt_inputs (rl_blocks s b) ! i = v then Some s
     else inputItemValueChanged pathsIn b i (setBlock b (\<lambda>t. t\<lparr>bt_inputs := (bt_inputs t)[i := v]\<rparr>) s))"

datatype RailIdentificationEvent = IdAbsent | IdPresent | IdSeen

fun blockDirection :: "Direction \<Rightarrow> BlockTrainDirection" where
  "blockDirection DirForward = TowardsA" | "blockDirection DirReverse = TowardsB" | "blockDirection DirUnknown = BtUnknown"

definition identificationEvent :: "nat \<Rightarrow> RailIdentificationEvent \<Rightarrow> u16 \<Rightarrow> Direction \<Rightarrow> RailState \<Rightarrow> RailState option" where
  "identificationEvent b ev identifier direction s =
    (let t = rl_blocks s b in
     if bt_trains t = [] then
       (if ev = IdPresent then
          (let (j, s) = createStatus b None (Some identifier) (blockDirection direction) s; s = appendStatus b j s
           in Some (if bt_state t = BsFree \<or> bt_state t = BsUnknown then updateState b s else s))
        else Some s)
     else if ev = IdAbsent then
       (case List.find (\<lambda>j. ts_identification (rl_statuses s j) = Some identifier) (bt_trains t) of
          None \<Rightarrow> Some s
        | Some j \<Rightarrow> map_option (updateState b) (destroyStatus j s))
     else Some s)"

section \<open>Trains\<close>

text \<open>\<open>activates\<close>: whether \<^verbatim>\<open>Train::setTrainActive\<close> consents, which is up to the train's vehicles.\<close>

definition assignTrain :: "bool \<Rightarrow> nat \<Rightarrow> nat \<Rightarrow> RailState \<Rightarrow> RailState" where
  "assignTrain activates b train s =
    (let t = rl_blocks s b in
     if bt_trains t \<noteq> [] then s
     else
       let s = (if activates then setTrain train (\<lambda>r. r\<lparr>tr_active := True\<rparr>) s else s) in
       if \<not> tr_active (rl_trains s train) \<or> tr_blocks (rl_trains s train) \<noteq> [] then s
       else
         let direction = (if tr_direction (rl_trains s train) = DirReverse then TowardsB else TowardsA);
             (j, s) = createStatus b (Some train) None direction s;
             s = appendStatus b j (setTrain train (\<lambda>r. r\<lparr>tr_blocks := tr_blocks r @ [j]\<rparr>) s);
             s = (if bt_state t = BsFree \<or> bt_state t = BsUnknown then updateState b s else s)
         in rl_event (TrainAssigned b train) s)"

definition removeTrain :: "nat \<Rightarrow> RailState \<Rightarrow> RailState option" where
  "removeTrain b s =
    (case bt_trains (rl_blocks s b) of
       [j] \<Rightarrow>
         (case ts_train (rl_statuses s j) of
            None \<Rightarrow> None
          | Some t \<Rightarrow>
              let bs = map (\<lambda>k. ts_block (rl_statuses s k)) (tr_blocks (rl_trains s t)) in
              if \<not> tr_isStopped (rl_trains s t) \<or> bs \<noteq> [] \<and> hd bs \<noteq> b \<and> last bs \<noteq> b then Some s
              else
                do { s \<leftarrow> destroyStatus j s;
                     Some (rl_event (TrainRemoved b t)
                       (if bt_state (rl_blocks s b) = BsReserved then updateState b s else s)) })
     | _ \<Rightarrow> Some s)"

definition flipTrain :: "nat \<Rightarrow> RailState \<Rightarrow> RailState option" where
  "flipTrain b s =
    (case bt_trains (rl_blocks s b) of
       [j] \<Rightarrow>
         (case ts_train (rl_statuses s j) of
            None \<Rightarrow> None
          | Some t \<Rightarrow>
              Some (if tr_isStopped (rl_trains s t) \<and> map (\<lambda>k. ts_block (rl_statuses s k)) (tr_blocks (rl_trains s t)) = [b]
                    then s\<lparr>rl_statuses := (rl_statuses s)(j := (rl_statuses s j)\<lparr>ts_direction :=
                      oppositeDirection (ts_direction (rl_statuses s j))\<rparr>)\<rparr>
                    else s))
     | _ \<Rightarrow> Some s)"

definition setStateFree :: "nat \<Rightarrow> RailState \<Rightarrow> bool \<times> RailState" where
  "setStateFree b s =
    (if bt_trains (rl_blocks s b) = [] \<and> bt_sensorStates (rl_blocks s b) = [] then (True, setBlockState b BsFree s)
     else (False, s))"

definition flipStatus :: "nat \<Rightarrow> RailState \<Rightarrow> RailState" where
  "flipStatus j s = s\<lparr>rl_statuses := (rl_statuses s)(j := (rl_statuses s j)\<lparr>ts_direction :=
     oppositeDirection (ts_direction (rl_statuses s j))\<rparr>)\<rparr>"

definition Train_setDirection :: "nat \<Rightarrow> Direction \<Rightarrow> RailState \<Rightarrow> RailState" where
  "Train_setDirection t d s =
    (if d = tr_direction (rl_trains s t) \<or> d = DirUnknown then s
     else setTrain t (\<lambda>r. r\<lparr>tr_blocks := rev (tr_blocks r)\<rparr>)
       (fold flipStatus (tr_blocks (rl_trains s t)) (setTrain t (\<lambda>r. r\<lparr>tr_direction := d\<rparr>) s)))"

section \<open>Direction controls\<close>

text \<open>\<open>values\<close> are the states in use, \<^verbatim>\<open>updateStateValues\<close>.\<close>

definition control_states :: "bool \<Rightarrow> bool \<Rightarrow> bool \<Rightarrow> bool \<Rightarrow> DirectionControlState list" where
  "control_states useNone useAtoB useBtoA useBoth =
    (if useNone then [DcNone] else []) @ (if useAtoB then [DcAtoB] else []) @
    (if useBtoA then [DcBtoA] else []) @ (if useBoth then [DcBoth] else [])"

definition control_updateStateValues :: "nat \<Rightarrow> DirectionControlState list \<Rightarrow> RailState \<Rightarrow> RailState" where
  "control_updateStateValues n states s =
    (if rl_control s n \<notin> set states \<and> states \<noteq> [] then s\<lparr>rl_control := (rl_control s)(n := hd states)\<rparr> else s)"

definition control_setState :: "DirectionControlState list \<Rightarrow> nat \<Rightarrow> DirectionControlState \<Rightarrow> RailState \<Rightarrow> bool \<times> RailState" where
  "control_setState states n d s =
    (if d \<in> set states then (True, rl_event (ControlChanged n d) (s\<lparr>rl_control := (rl_control s)(n := d)\<rparr>)) else (False, s))"

definition control_toggle :: "DirectionControlState list \<Rightarrow> nat \<Rightarrow> RailState \<Rightarrow> bool \<times> RailState" where
  "control_toggle states n s =
    (case rl_control s n of
       DcAtoB \<Rightarrow> control_setState states n DcBtoA s
     | DcBtoA \<Rightarrow> control_setState states n DcAtoB s
     | _ \<Rightarrow> (False, s))"

section \<open>The board\<close>

record BoardState =
  bd_rail :: RailState
  bd_paths :: "nat \<Rightarrow> BlockPath list"
  bd_pathsIn :: "nat \<Rightarrow> BlockPath list"
  bd_nxBlock :: "nat \<Rightarrow> nat option"
  bd_pressed :: "nat list"
  bd_run :: bool

text \<open>The block of an NX button, behind one of its connectors and any bridges; a bridge without a link behind it is \<open>None\<close>.\<close>

partial_function (option) nx_behind :: "RailMap \<Rightarrow> nat \<Rightarrow> nat \<Rightarrow> nat option option" where
  "nx_behind rm n l =
    (let m = link_getNext rm l n in
     if rm_tileId rm m = RailBlock then Some (Some m)
     else if isRailBridge (rm_tileId rm m) then
       (case entryOf rm m l of
          None \<Rightarrow> None
        | Some i \<Rightarrow>
            (case node_getLink rm m ((i + 2) mod 4) of
               None \<Rightarrow> None
             | Some l' \<Rightarrow> nx_behind rm m l'))
     else Some None)"

declare nx_behind.simps [code]

definition nx_findBlock :: "RailMap \<Rightarrow> nat \<Rightarrow> nat \<Rightarrow> nat option option" where
  "nx_findBlock rm n i = (case node_getLink rm n i of None \<Rightarrow> Some None | Some l \<Rightarrow> nx_behind rm n l)"

definition nx_boardModified :: "RailMap \<Rightarrow> nat \<Rightarrow> BoardState \<Rightarrow> BoardState option" where
  "nx_boardModified rm n bd =
    do { blockA \<leftarrow> nx_findBlock rm n 0;
         blockB \<leftarrow> nx_findBlock rm n 1;
         Some (bd\<lparr>bd_nxBlock := (bd_nxBlock bd)(n :=
           if blockA \<noteq> None \<and> blockB \<noteq> None then None else if blockA \<noteq> None then blockA else blockB)\<rparr>) }"

text \<open>The loop over the paths of the first button's block; the result is the path that was reserved, if any.\<close>

fun nx_select :: "RailMap \<Rightarrow> nat \<Rightarrow> nat \<Rightarrow> nat \<Rightarrow> BlockPath list \<Rightarrow> RailState \<Rightarrow> (BlockPath option \<times> RailState) option" where
  "nx_select rm b from to [] s = Some (None, s)"
| "nx_select rm b from to (p # ps) s =
    (let t = rl_blocks s b in
     if bp_nxButtonTo p \<noteq> Some to \<or> bp_nxButtonFrom p \<noteq> Some from \<or> bt_trains t = [] then nx_select rm b from to ps s
     else
       (case ts_train (rl_statuses s (sideStatus (bp_fromSide p) t)) of
          None \<Rightarrow> nx_select rm b from to ps s
        | Some train \<Rightarrow>
            (case BlockPath_reserve rm p train s of
               None \<Rightarrow> None
             | Some (True, s) \<Rightarrow> Some (Some p, s)
             | Some (False, s) \<Rightarrow> nx_select rm b from to ps s)))"

definition nx_selectPath :: "RailMap \<Rightarrow> nat \<Rightarrow> nat \<Rightarrow> BoardState \<Rightarrow> (BlockPath option \<times> BoardState) option" where
  "nx_selectPath rm from to bd =
    (case bd_nxBlock bd from of
       None \<Rightarrow> None
     | Some b \<Rightarrow> map_option (\<lambda>(p, s). (p, bd\<lparr>bd_rail := s\<rparr>)) (nx_select rm b from to (bd_paths bd b) (bd_rail bd)))"

definition nx_released :: "nat \<Rightarrow> BoardState \<Rightarrow> BoardState" where
  "nx_released n bd = bd\<lparr>bd_pressed := remove1 n (bd_pressed bd)\<rparr>"

fun nx_try :: "RailMap \<Rightarrow> nat list \<Rightarrow> nat \<Rightarrow> BoardState \<Rightarrow> (BlockPath option \<times> BoardState) option" where
  "nx_try rm [] button bd = Some (None, bd\<lparr>bd_pressed := bd_pressed bd @ [button]\<rparr>)"
| "nx_try rm (first # others) button bd =
    (case nx_selectPath rm first button bd of
       None \<Rightarrow> None
     | Some (Some p, bd) \<Rightarrow> Some (Some p, nx_released first bd)
     | Some (None, bd) \<Rightarrow> nx_try rm others button bd)"

definition nx_pressed :: "RailMap \<Rightarrow> nat \<Rightarrow> BoardState \<Rightarrow> (BlockPath option \<times> BoardState) option" where
  "nx_pressed rm button bd =
    (if \<not> bd_run bd then Some (None, bd)
     else if bd_nxBlock bd button = None then None
     else nx_try rm (bd_pressed bd) button bd)"

definition nx_inputValueChanged :: "RailMap \<Rightarrow> nat \<Rightarrow> bool \<Rightarrow> BoardState \<Rightarrow> (BlockPath option \<times> BoardState) option" where
  "nx_inputValueChanged rm button v bd =
    (if bd_nxBlock bd button = None \<or> \<not> bd_run bd then Some (None, bd)
     else if v then nx_pressed rm button bd else Some (None, nx_released button bd))"

text \<open>
  \<^verbatim>\<open>updatePaths\<close>: a path that is found again stays, new paths are added here and at their ends.  The loop
  that is to take away paths from the blocks they led to runs over a list that is empty by then.
\<close>

fun keepPaths :: "BlockPath list \<Rightarrow> BlockPath list \<Rightarrow> BlockPath list \<times> BlockPath list" where
  "keepPaths [] found = ([], found)"
| "keepPaths (p # current) found =
    (if p \<in> set found then (let (kept, found) = keepPaths current (remove1 p found) in (p # kept, found))
     else keepPaths current found)"

definition addPathIn :: "BlockPath \<Rightarrow> BoardState \<Rightarrow> BoardState option" where
  "addPathIn p bd =
    (case bp_toBlock p of
       None \<Rightarrow> None
     | Some b \<Rightarrow> Some (bd\<lparr>bd_pathsIn := (bd_pathsIn bd)(b := bd_pathsIn bd b @ [p])\<rparr>))"

fun addPathsIn :: "BlockPath list \<Rightarrow> BoardState \<Rightarrow> BoardState option" where
  "addPathsIn [] bd = Some bd"
| "addPathsIn (p # ps) bd = Option.bind (addPathIn p bd) (addPathsIn ps)"

definition updatePaths :: "RailMap \<Rightarrow> nat \<Rightarrow> BoardState \<Rightarrow> BoardState option" where
  "updatePaths rm b bd =
    do { found \<leftarrow> BlockPath_find rm b;
         let (kept, new) = keepPaths (bd_paths bd b) found;
         addPathsIn new (bd\<lparr>bd_paths := (bd_paths bd)(b := kept @ new)\<rparr>) }"

section \<open>Operations\<close>

text \<open>
  What comes from outside while the board stays as it is: users, scripts, sensors, the output states of
  turnouts, and the board's own update of paths and buttons after an edit.
\<close>

datatype RailOp =
    SensorOp nat nat SensorState
  | IdentificationOp nat RailIdentificationEvent u16 Direction
  | AssignOp bool nat nat
  | RemoveOp nat
  | FlipOp nat
  | SetFreeOp nat
  | DirectionOp nat Direction
  | MovesOp nat bool
  | TurnoutOp nat TurnoutPosition bool
  | ControlOp "DirectionControlState list" nat DirectionControlState
  | ToggleOp "DirectionControlState list" nat
  | ButtonInputOp nat bool
  | SelectOp nat nat
  | RunOp bool
  | UpdateOp nat
  | ButtonOp nat

definition onRail :: "(RailState \<Rightarrow> RailState option) \<Rightarrow> BoardState \<Rightarrow> (BlockPath option \<times> BoardState) option" where
  "onRail f bd = map_option (\<lambda>s. (None, bd\<lparr>bd_rail := s\<rparr>)) (f (bd_rail bd))"

definition board_step :: "RailMap \<Rightarrow> RailOp \<Rightarrow> BoardState \<Rightarrow> (BlockPath option \<times> BoardState) option" where
  "board_step rm a bd =
    (case a of
       SensorOp b i v \<Rightarrow>
         (if i < length (bt_inputs (rl_blocks (bd_rail bd) b)) then onRail (BlockInputMapItem_setValue (bd_pathsIn bd b) b i v) bd else None)
     | IdentificationOp b ev n d \<Rightarrow> onRail (identificationEvent b ev n d) bd
     | AssignOp activates b t \<Rightarrow> onRail (\<lambda>s. Some (assignTrain activates b t s)) bd
     | RemoveOp b \<Rightarrow> onRail (removeTrain b) bd
     | FlipOp b \<Rightarrow> onRail (flipTrain b) bd
     | SetFreeOp b \<Rightarrow> onRail (\<lambda>s. Some (snd (setStateFree b s))) bd
     | DirectionOp t d \<Rightarrow> onRail (\<lambda>s. Some (Train_setDirection t d s)) bd
     | MovesOp t moves \<Rightarrow> onRail (\<lambda>s. Some (setTrain t (\<lambda>r. r\<lparr>tr_isStopped := \<not> moves\<rparr>) s)) bd
     | TurnoutOp n p skipAction \<Rightarrow> onRail (\<lambda>s. Some (snd (turnout_doSetPosition rm n p skipAction s))) bd
     | ControlOp states n d \<Rightarrow> onRail (\<lambda>s. Some (snd (control_setState states n d s))) bd
     | ToggleOp states n \<Rightarrow> onRail (\<lambda>s. Some (snd (control_toggle states n s))) bd
     | ButtonInputOp n v \<Rightarrow> nx_inputValueChanged rm n v bd
     | SelectOp from to \<Rightarrow> (if bd_run bd then nx_selectPath rm from to bd else Some (None, bd))
     | RunOp run \<Rightarrow> Some (None, bd\<lparr>bd_run := run\<rparr>)
     | UpdateOp b \<Rightarrow> (if rm_tileId rm b = RailBlock then map_option (Pair None) (updatePaths rm b bd) else None)
     | ButtonOp n \<Rightarrow> map_option (Pair None) (nx_boardModified rm n bd))"

text \<open>A run, with the paths that were reserved in it.\<close>

fun board_run :: "RailMap \<Rightarrow> RailOp list \<Rightarrow> BoardState \<Rightarrow> (BlockPath list \<times> BoardState) option" where
  "board_run rm [] bd = Some ([], bd)"
| "board_run rm (a # as) bd =
    do { (p, bd) \<leftarrow> board_step rm a bd;
         (ps, bd) \<leftarrow> board_run rm as bd;
         Some ((case p of None \<Rightarrow> [] | Some p \<Rightarrow> [p]) @ ps, bd) }"

end
