(* ===== verification/Board_Reserve.thy ===== *)
theory Board_Reserve
  imports Board_Traffic
begin

text \<open>
  Reserving a path: a dry run changes nothing, and when it succeeds so does the run.  A path claims the
  sides of its two blocks, its crossings and its legs of bridges; \<open>path_typed\<close> says that the tiles of a path are
  of their kinds, which the paths that are found are.
\<close>

section \<open>What a path claims\<close>

datatype RailClaim = ClaimSide nat BlockSide | ClaimCross nat | ClaimBridge nat BridgePath

fun taken :: "RailState \<Rightarrow> RailClaim \<Rightarrow> bool" where
  "taken s (ClaimSide b side) \<longleftrightarrow> rl_reserved s b AND toMask side \<noteq> 0"
| "taken s (ClaimCross n) \<longleftrightarrow> rl_crossState s n \<noteq> CrossUnset"
| "taken s (ClaimBridge n leg) \<longleftrightarrow> rl_reserved s n AND bridgeMask leg \<noteq> 0"

definition claims :: "BlockPath \<Rightarrow> RailClaim set" where
  "claims p = {ClaimSide (bp_fromBlock p) (bp_fromSide p)} \<union>
    (case (bp_toBlock p, bp_toSide p) of (Some b, Some side) \<Rightarrow> {ClaimSide b side} | _ \<Rightarrow> {}) \<union>
    ClaimCross ` fst ` set (bp_crossings p) \<union> (\<lambda>(n, leg). ClaimBridge n leg) ` set (bp_bridges p)"

definition plainTile :: "RailMap \<Rightarrow> nat \<Rightarrow> bool" where
  "plainTile rm n \<longleftrightarrow> rm_tileId rm n \<noteq> RailBlock \<and> \<not> isRailBridge (rm_tileId rm n)"

definition path_typed :: "RailMap \<Rightarrow> BlockPath \<Rightarrow> bool" where
  "path_typed rm p \<longleftrightarrow> rm_tileId rm (bp_fromBlock p) = RailBlock \<and>
    (\<forall>b. bp_toBlock p = Some b \<longrightarrow> rm_tileId rm b = RailBlock) \<and>
    (\<forall>n \<in> fst ` set (bp_turnouts p) \<union> fst ` set (bp_directionControls p) \<union> fst ` set (bp_crossings p) \<union>
       set (bp_signals p) \<union> set (bp_tiles p) \<union> set_option (bp_nxButtonFrom p) \<union> set_option (bp_nxButtonTo p). plainTile rm n) \<and>
    (\<forall>(n, leg) \<in> set (bp_bridges p). isRailBridge (rm_tileId rm n)) \<and>
    (\<forall>(n, c) \<in> set (bp_crossings p). c \<noteq> CrossUnset)"

text \<open>Nothing is claimed twice.\<close>

definition path_simple :: "BlockPath \<Rightarrow> bool" where
  "path_simple p \<longleftrightarrow> distinct (map fst (bp_turnouts p)) \<and> distinct (map fst (bp_crossings p)) \<and> distinct (bp_bridges p) \<and>
    bp_toBlock p \<noteq> None \<and> bp_toSide p \<noteq> None \<and>
    (bp_toBlock p = Some (bp_fromBlock p) \<longrightarrow> bp_toSide p \<noteq> Some (bp_fromSide p))"

section \<open>Masks\<close>

lemma mask_simps [simp]:
  "((x :: u8) OR toMask a) AND toMask a \<noteq> 0"
  "a \<noteq> b \<Longrightarrow> (x OR toMask a) AND toMask b = x AND toMask b"
  "(x OR bridgeMask l) AND bridgeMask l \<noteq> 0"
  "l \<noteq> k \<Longrightarrow> (x OR bridgeMask l) AND bridgeMask k = x AND bridgeMask k"
proof -
  have one: "(1 :: u8) AND 2 = 0" "(2 :: u8) AND 1 = 0" by simp_all
  have or: "(x OR m) AND m = m" for m :: u8 by (rule bit_eqI) (auto simp: bit_simps)
  show "(x OR toMask a) AND toMask a \<noteq> 0" using or by (cases a) simp_all
  show "(x OR bridgeMask l) AND bridgeMask l \<noteq> 0" using or by (cases l) simp_all
  have dis: "(x OR m) AND k = x AND k" if "m AND k = 0" for m k :: u8
  proof -
    have "(x OR m) AND k = (x AND k) OR (m AND k)" by (rule bit_eqI) (auto simp: bit_simps)
    then show ?thesis using that by simp
  qed
  show "a \<noteq> b \<Longrightarrow> (x OR toMask a) AND toMask b = x AND toMask b" using dis one by (cases a; cases b) simp_all
  show "l \<noteq> k \<Longrightarrow> (x OR bridgeMask l) AND bridgeMask k = x AND bridgeMask k" using dis one by (cases l; cases k) simp_all
qed

lemma mask_nonzero [simp]: "toMask a \<noteq> 0" "bridgeMask l \<noteq> 0"
  by (cases a; simp) (cases l; simp)

lemma mask_kept: "(x :: u8) AND m \<noteq> 0 \<Longrightarrow> (x OR k) AND m \<noteq> 0"
proof -
  assume "x AND m \<noteq> 0"
  then obtain i where "bit (x AND m) i" by (metis bit_eqI bit_0_eq bot_apply bot_bool_def)
  then have "bit ((x OR k) AND m) i" by (simp add: bit_simps)
  then show ?thesis by (metis bit_0_eq bot_apply bot_bool_def)
qed

section \<open>Fields that are left alone\<close>

named_theorems rail_frame \<open>fields that an operation leaves alone\<close>

lemma rl_event_frame [rail_frame, simp]:
  "rl_exists (rl_event e s) = rl_exists s" "rl_blocks (rl_event e s) = rl_blocks s" "rl_reserved (rl_event e s) = rl_reserved s"
  "rl_position (rl_event e s) = rl_position s" "rl_control (rl_event e s) = rl_control s" "rl_crossState (rl_event e s) = rl_crossState s"
  "rl_blockPath (rl_event e s) = rl_blockPath s" "rl_trains (rl_event e s) = rl_trains s" "rl_statuses (rl_event e s) = rl_statuses s"
  "rl_nextStatus (rl_event e s) = rl_nextStatus s"
  by (simp_all add: rl_event_def)

lemma setReservedState_frame [rail_frame, simp]:
  "rl_exists (setReservedState t v s) = rl_exists s" "rl_blocks (setReservedState t v s) = rl_blocks s"
  "rl_reserved (setReservedState t v s) = (rl_reserved s)(t := v)"
  "rl_position (setReservedState t v s) = rl_position s" "rl_control (setReservedState t v s) = rl_control s"
  "rl_crossState (setReservedState t v s) = rl_crossState s" "rl_blockPath (setReservedState t v s) = rl_blockPath s"
  "rl_trains (setReservedState t v s) = rl_trains s" "rl_statuses (setReservedState t v s) = rl_statuses s"
  "rl_nextStatus (setReservedState t v s) = rl_nextStatus s"
  by (simp_all add: setReservedState_def)

lemma setBlock_frame [rail_frame, simp]:
  "rl_exists (setBlock b f s) = rl_exists s" "rl_blocks (setBlock b f s) = (rl_blocks s)(b := f (rl_blocks s b))"
  "rl_reserved (setBlock b f s) = rl_reserved s" "rl_position (setBlock b f s) = rl_position s"
  "rl_control (setBlock b f s) = rl_control s" "rl_crossState (setBlock b f s) = rl_crossState s"
  "rl_blockPath (setBlock b f s) = rl_blockPath s" "rl_trains (setBlock b f s) = rl_trains s"
  "rl_statuses (setBlock b f s) = rl_statuses s" "rl_nextStatus (setBlock b f s) = rl_nextStatus s"
  by (simp_all add: setBlock_def)

lemma setTrain_frame [rail_frame, simp]:
  "rl_exists (setTrain t g s) = rl_exists s" "rl_blocks (setTrain t g s) = rl_blocks s" "rl_reserved (setTrain t g s) = rl_reserved s"
  "rl_position (setTrain t g s) = rl_position s" "rl_control (setTrain t g s) = rl_control s"
  "rl_crossState (setTrain t g s) = rl_crossState s" "rl_blockPath (setTrain t g s) = rl_blockPath s"
  "rl_trains (setTrain t g s) = (rl_trains s)(t := g (rl_trains s t))" "rl_statuses (setTrain t g s) = rl_statuses s"
  "rl_nextStatus (setTrain t g s) = rl_nextStatus s"
  by (simp_all add: setTrain_def)

lemma setBlockState_frame [rail_frame, simp]:
  "rl_exists (setBlockState b v s) = rl_exists s"
  "rl_blocks (setBlockState b v s) = (rl_blocks s)(b := (rl_blocks s b)\<lparr>bt_state := v\<rparr>)"
  "rl_reserved (setBlockState b v s) = rl_reserved s" "rl_position (setBlockState b v s) = rl_position s"
  "rl_control (setBlockState b v s) = rl_control s" "rl_crossState (setBlockState b v s) = rl_crossState s"
  "rl_blockPath (setBlockState b v s) = rl_blockPath s" "rl_trains (setBlockState b v s) = rl_trains s"
  "rl_statuses (setBlockState b v s) = rl_statuses s" "rl_nextStatus (setBlockState b v s) = rl_nextStatus s"
  by (auto simp: setBlockState_def fun_eq_iff)

text \<open>The state \<^verbatim>\<open>updateState\<close> gives a block.\<close>

definition stateOf :: "BlockTile \<Rightarrow> BlockState" where
  "stateOf t =
    (case (if bt_inputs t = [] then None else scanInputs (bt_inputs t)) of
       Some BsOccupied \<Rightarrow> BsOccupied
     | Some _ \<Rightarrow> if bt_trains t = [] then BsFree else BsReserved
     | None \<Rightarrow> if bt_trains t = [] then BsUnknown else BsReserved)"

lemma updateState_alt: "updateState b s = setBlockState b (stateOf (rl_blocks s b)) s"
  by (simp add: updateState_def stateOf_def Let_def)

lemma stateOf_trains [simp]:
  "bt_trains t \<noteq> [] \<Longrightarrow> stateOf t \<noteq> BsFree" "bt_trains t \<noteq> [] \<Longrightarrow> stateOf t \<noteq> BsUnknown"
  by (auto simp: stateOf_def split: option.splits BlockState.splits if_splits)

lemma updateState_frame [rail_frame, simp]:
  "rl_exists (updateState b s) = rl_exists s"
  "rl_blocks (updateState b s) = (rl_blocks s)(b := (rl_blocks s b)\<lparr>bt_state := stateOf (rl_blocks s b)\<rparr>)"
  "rl_reserved (updateState b s) = rl_reserved s" "rl_position (updateState b s) = rl_position s"
  "rl_control (updateState b s) = rl_control s" "rl_crossState (updateState b s) = rl_crossState s"
  "rl_blockPath (updateState b s) = rl_blockPath s" "rl_trains (updateState b s) = rl_trains s"
  "rl_statuses (updateState b s) = rl_statuses s" "rl_nextStatus (updateState b s) = rl_nextStatus s"
  by (simp_all add: updateState_alt)

lemma tracking_reserve_frame [rail_frame, simp]:
  "rl_exists (tracking_reserve t b d s) = rl_exists s"
  "rl_blocks (tracking_reserve t b d s) = (rl_blocks s)(b := (rl_blocks s b)\<lparr>bt_trains := bt_trains (rl_blocks s b) @ [rl_nextStatus s]\<rparr>)"
  "rl_reserved (tracking_reserve t b d s) = rl_reserved s" "rl_position (tracking_reserve t b d s) = rl_position s"
  "rl_control (tracking_reserve t b d s) = rl_control s" "rl_crossState (tracking_reserve t b d s) = rl_crossState s"
  "rl_blockPath (tracking_reserve t b d s) = rl_blockPath s" "rl_trains (tracking_reserve t b d s) = rl_trains s"
  "rl_statuses (tracking_reserve t b d s) = (rl_statuses s)(rl_nextStatus s :=
     \<lparr>ts_block = b, ts_train = Some t, ts_identification = None, ts_direction = d, ts_dying = False\<rparr>)"
  "rl_nextStatus (tracking_reserve t b d s) = rl_nextStatus s + 1"
  by (simp_all add: tracking_reserve_def createStatus_def appendStatus_def)

section \<open>Blocks\<close>

text \<open>When a block side can be reserved, and what reserving it does.\<close>

definition sideOk :: "nat \<Rightarrow> nat \<Rightarrow> BlockSide \<Rightarrow> RailState \<Rightarrow> bool" where
  "sideOk b train side s \<longleftrightarrow>
    (let t = rl_blocks s b; st = rl_statuses s (sideStatus side t)
     in bt_state t \<noteq> BsUnknown \<and> rl_reserved s b AND toMask side = 0 \<and>
       (bt_state t \<noteq> BsFree \<longrightarrow> bt_trains t \<noteq> [] \<and> ts_train st = Some train \<and>
          ts_direction st = (if side = SideA then TowardsA else TowardsB)))"

lemma block_reserve_ok: "fst (block_reserve b p train side dryRun s) \<longleftrightarrow> sideOk b train side s"
  by (auto simp: block_reserve_def sideOk_def Let_def)

lemma block_reserve_dry: "snd (block_reserve b p train side True s) = s"
  by (simp add: block_reserve_def Let_def)

lemma block_reserve_real:
  fixes s b p train side defines "s' \<equiv> snd (block_reserve b p train side False s)"
  assumes ok: "sideOk b train side s"
  shows "rl_exists s' = rl_exists s" "rl_position s' = rl_position s"
    "rl_control s' = rl_control s" "rl_crossState s' = rl_crossState s"
    "rl_blockPath s' = rl_blockPath s" "rl_trains s' = rl_trains s"
    "rl_reserved s' = (rl_reserved s)(b := rl_reserved s b OR toMask side)"
    "b' \<noteq> b \<Longrightarrow> rl_blocks s' b' = rl_blocks s b'"
    "i \<noteq> rl_nextStatus s \<Longrightarrow> rl_statuses s' i = rl_statuses s i"
    "bt_reservedPaths (rl_blocks s' b) = (bt_reservedPaths (rl_blocks s b))(side := Some p)"
    "bt_inputs (rl_blocks s' b') = bt_inputs (rl_blocks s b')"
  using ok unfolding s'_def sideOk_def block_reserve_def
  by (auto simp: Let_def split: if_splits)

text \<open>Statuses in blocks are those created; a free block has none.\<close>

definition rail_inv :: "nat set \<Rightarrow> RailState \<Rightarrow> bool" where
  "rail_inv except s \<longleftrightarrow>
    (\<forall>b. (\<forall>i \<in> set (bt_trains (rl_blocks s b)). i < rl_nextStatus s \<and> ts_block (rl_statuses s i) = b) \<and>
      (b \<notin> except \<longrightarrow> bt_state (rl_blocks s b) = BsFree \<longrightarrow> bt_trains (rl_blocks s b) = []))"

lemma rail_invD:
  assumes "rail_inv X s"
  shows "i \<in> set (bt_trains (rl_blocks s b)) \<Longrightarrow> i < rl_nextStatus s"
    and "i \<in> set (bt_trains (rl_blocks s b)) \<Longrightarrow> ts_block (rl_statuses s i) = b"
    and "b \<notin> X \<Longrightarrow> bt_state (rl_blocks s b) = BsFree \<Longrightarrow> bt_trains (rl_blocks s b) = []"
  using assms by (auto simp: rail_inv_def)

lemma sideStatus_in: "bt_trains t \<noteq> [] \<Longrightarrow> sideStatus side t \<in> set (bt_trains t)"
  by (simp add: sideStatus_def)

text \<open>The other side of the path is still possible then.\<close>

lemma sideOk_after:
  assumes inv: "rail_inv {} s" and ok: "sideOk b train side s" and to: "sideOk b' train side' s"
    and ne: "b' = b \<longrightarrow> side' \<noteq> side"
  shows "sideOk b' train side' (snd (block_reserve b p train side False s))"
proof -
  let ?s = "snd (block_reserve b p train side False s)"
  note r = block_reserve_real [OF ok, where p = p]
  show ?thesis
  proof (cases "b' = b")
    case False
    have "rl_statuses ?s (sideStatus side' (rl_blocks s b')) = rl_statuses s (sideStatus side' (rl_blocks s b'))"
      if "bt_trains (rl_blocks s b') \<noteq> []"
      using rail_invD(1) [OF inv sideStatus_in [OF that]] r(9) by (metis less_irrefl)
    then show ?thesis using to False r(7,8) by (auto simp: sideOk_def Let_def)
  next
    case True
    with ne have n: "side' \<noteq> side" by simp
    have mask: "rl_reserved ?s b AND toMask side' = 0" using to True n r(7) by (simp add: sideOk_def Let_def)
    show ?thesis
    proof (cases "bt_state (rl_blocks s b) = BsFree")
      case free: True
      with inv have e: "bt_trains (rl_blocks s b) = []" by (simp add: rail_inv_def)
      have "bt_trains (rl_blocks ?s b) = [rl_nextStatus s]" "ts_train (rl_statuses ?s (rl_nextStatus s)) = Some train"
        "ts_direction (rl_statuses ?s (rl_nextStatus s)) = (if side = SideA then TowardsB else TowardsA)"
        "bt_state (rl_blocks ?s b) \<noteq> BsUnknown"
        using ok free e
        by (auto simp: block_reserve_def sideOk_def Let_def)
      then show ?thesis using mask True n by (cases side; cases side') (auto simp: sideOk_def Let_def sideStatus_def)
    next
      case False
      have "bt_trains (rl_blocks ?s b) = bt_trains (rl_blocks s b)" "rl_statuses ?s = rl_statuses s"
        "bt_state (rl_blocks ?s b) = stateOf ((rl_blocks s b)\<lparr>bt_reservedPaths := (bt_reservedPaths (rl_blocks s b))(side := Some p)\<rparr>)"
        using ok False by (auto simp: block_reserve_def sideOk_def Let_def)
      moreover have "bt_trains (rl_blocks s b) \<noteq> []" using ok False by (simp add: sideOk_def Let_def)
      ultimately show ?thesis using to True mask False
        by (auto simp: sideOk_def Let_def sideStatus_def)
    qed
  qed
qed

section \<open>The other tiles\<close>

lemma reserveAll_dry:
  assumes "\<And>t. snd (res t True s) = s"
  shows "reserveAll tile res ts True s = ((\<forall>t \<in> set ts. rl_exists s (tile t) \<and> fst (res t True s)), s)
    \<or> snd (reserveAll tile res ts True s) = s \<and> \<not> fst (reserveAll tile res ts True s) \<and>
      \<not> (\<forall>t \<in> set ts. rl_exists s (tile t) \<and> fst (res t True s))"
proof (induction ts)
  case (Cons t ts)
  then show ?case using assms [of t] by (auto simp: case_prod_unfold Let_def)
qed simp

lemma reserveAll_dry':
  assumes "\<And>t. snd (res t True s) = s"
  shows "snd (reserveAll tile res ts True s) = s"
    and "fst (reserveAll tile res ts True s) \<longleftrightarrow> (\<forall>t \<in> set ts. rl_exists s (tile t) \<and> fst (res t True s))"
  using reserveAll_dry [of res s tile ts, OF assms] by auto

text \<open>A run over tiles that do not stand in each other's way.\<close>

lemma reserveAll_real:
  assumes "\<And>t s. fst (res t True s) \<Longrightarrow> fst (res t False s)"
    and "\<And>t s. rl_exists (snd (res t False s)) = rl_exists s"
    and "\<And>t u s. C t u \<Longrightarrow> fst (res t True s) \<Longrightarrow> fst (res u True s) \<Longrightarrow> fst (res u True (snd (res t False s)))"
    and "\<forall>t \<in> set ts. rl_exists s (tile t) \<and> fst (res t True s)" and "sorted_wrt C ts"
  shows "reserveAll tile res ts False s = (True, fold (\<lambda>t s. snd (res t False s)) ts s)"
  using assms(4,5)
proof (induction ts arbitrary: s)
  case (Cons t ts)
  have "\<forall>u \<in> set ts. rl_exists (snd (res t False s)) (tile u) \<and> fst (res u True (snd (res t False s)))"
    using Cons.prems assms(2) [of t s] assms(3) [of t _ s] by auto
  from Cons.IH [OF this] Cons.prems assms(1) [of t s] show ?case by (auto simp: case_prod_unfold Let_def)
qed simp

lemma turnout_reserve_real:
  "fst (turnout_reserve rm np dryRun s) \<longleftrightarrow> turnout_isValidPosition rm (fst np) (snd np)"
  "snd (turnout_reserve rm np True s) = s"
  "rl_exists (snd (turnout_reserve rm np dryRun s)) = rl_exists s"
  "rl_control (snd (turnout_reserve rm np dryRun s)) = rl_control s"
  "rl_crossState (snd (turnout_reserve rm np dryRun s)) = rl_crossState s"
  "rl_blockPath (snd (turnout_reserve rm np dryRun s)) = rl_blockPath s"
  "rl_blocks (snd (turnout_reserve rm np dryRun s)) = rl_blocks s"
  "rl_trains (snd (turnout_reserve rm np dryRun s)) = rl_trains s"
  "rl_statuses (snd (turnout_reserve rm np dryRun s)) = rl_statuses s"
  "rl_nextStatus (snd (turnout_reserve rm np dryRun s)) = rl_nextStatus s"
  "n \<noteq> fst np \<Longrightarrow> rl_reserved (snd (turnout_reserve rm np dryRun s)) n = rl_reserved s n"
  "turnout_isValidPosition rm (fst np) (snd np) \<Longrightarrow>
    rl_position (snd (turnout_reserve rm np False s)) = (rl_position s)(fst np := snd np)"
  by (auto simp: turnout_reserve_def turnout_doSetPosition_def case_prod_unfold Let_def)

lemma control_reserve_real:
  "fst (control_reserve nd dryRun s) \<longleftrightarrow> rl_control s (fst nd) = snd nd \<or> rl_control s (fst nd) = DcBoth"
  "snd (control_reserve nd True s) = s"
  "rl_exists (snd (control_reserve nd dryRun s)) = rl_exists s" "rl_control (snd (control_reserve nd dryRun s)) = rl_control s"
  "rl_crossState (snd (control_reserve nd dryRun s)) = rl_crossState s" "rl_position (snd (control_reserve nd dryRun s)) = rl_position s"
  "rl_blockPath (snd (control_reserve nd dryRun s)) = rl_blockPath s" "rl_blocks (snd (control_reserve nd dryRun s)) = rl_blocks s"
  "rl_trains (snd (control_reserve nd dryRun s)) = rl_trains s" "rl_statuses (snd (control_reserve nd dryRun s)) = rl_statuses s"
  "rl_nextStatus (snd (control_reserve nd dryRun s)) = rl_nextStatus s"
  "n \<noteq> fst nd \<Longrightarrow> rl_reserved (snd (control_reserve nd dryRun s)) n = rl_reserved s n"
  by (auto simp: control_reserve_def case_prod_unfold Let_def)

lemma cross_reserve_real:
  "fst (cross_reserve nc dryRun s) \<longleftrightarrow> rl_crossState s (fst nc) = CrossUnset"
  "snd (cross_reserve nc True s) = s"
  "rl_exists (snd (cross_reserve nc dryRun s)) = rl_exists s" "rl_control (snd (cross_reserve nc dryRun s)) = rl_control s"
  "rl_position (snd (cross_reserve nc dryRun s)) = rl_position s" "rl_blockPath (snd (cross_reserve nc dryRun s)) = rl_blockPath s"
  "rl_blocks (snd (cross_reserve nc dryRun s)) = rl_blocks s" "rl_trains (snd (cross_reserve nc dryRun s)) = rl_trains s"
  "rl_statuses (snd (cross_reserve nc dryRun s)) = rl_statuses s" "rl_nextStatus (snd (cross_reserve nc dryRun s)) = rl_nextStatus s"
  "n \<noteq> fst nc \<Longrightarrow> rl_reserved (snd (cross_reserve nc dryRun s)) n = rl_reserved s n"
  "rl_crossState s (fst nc) = CrossUnset \<Longrightarrow> rl_crossState (snd (cross_reserve nc False s)) = (rl_crossState s)(fst nc := snd nc)"
  by (auto simp: cross_reserve_def case_prod_unfold Let_def)

lemma bridge_reserve_real:
  "fst (bridge_reserve nb dryRun s) \<longleftrightarrow> rl_reserved s (fst nb) AND bridgeMask (snd nb) = 0"
  "snd (bridge_reserve nb True s) = s"
  "rl_exists (snd (bridge_reserve nb dryRun s)) = rl_exists s" "rl_control (snd (bridge_reserve nb dryRun s)) = rl_control s"
  "rl_crossState (snd (bridge_reserve nb dryRun s)) = rl_crossState s" "rl_position (snd (bridge_reserve nb dryRun s)) = rl_position s"
  "rl_blockPath (snd (bridge_reserve nb dryRun s)) = rl_blockPath s" "rl_blocks (snd (bridge_reserve nb dryRun s)) = rl_blocks s"
  "rl_trains (snd (bridge_reserve nb dryRun s)) = rl_trains s" "rl_statuses (snd (bridge_reserve nb dryRun s)) = rl_statuses s"
  "rl_nextStatus (snd (bridge_reserve nb dryRun s)) = rl_nextStatus s"
  "rl_reserved s (fst nb) AND bridgeMask (snd nb) = 0 \<Longrightarrow>
    rl_reserved (snd (bridge_reserve nb False s)) = (rl_reserved s)(fst nb := rl_reserved s (fst nb) OR bridgeMask (snd nb))"
  by (auto simp: bridge_reserve_def case_prod_unfold Let_def)

lemma signal_reserve_real:
  "fst (signal_reserve p n dryRun s)" "snd (signal_reserve p n True s) = s"
  "rl_exists (snd (signal_reserve p n dryRun s)) = rl_exists s" "rl_control (snd (signal_reserve p n dryRun s)) = rl_control s"
  "rl_crossState (snd (signal_reserve p n dryRun s)) = rl_crossState s" "rl_position (snd (signal_reserve p n dryRun s)) = rl_position s"
  "rl_blocks (snd (signal_reserve p n dryRun s)) = rl_blocks s" "rl_trains (snd (signal_reserve p n dryRun s)) = rl_trains s"
  "rl_statuses (snd (signal_reserve p n dryRun s)) = rl_statuses s" "rl_nextStatus (snd (signal_reserve p n dryRun s)) = rl_nextStatus s"
  "m \<noteq> n \<Longrightarrow> rl_reserved (snd (signal_reserve p n dryRun s)) m = rl_reserved s m"
  "rl_blockPath (snd (signal_reserve p n False s)) = (rl_blockPath s)(n := Some p)"
  by (auto simp: signal_reserve_def)

end
