(* ===== verification/Board_Granted.thy ===== *)
theory Board_Granted
  imports Board_Reserve
begin

text \<open>
  \<open>BlockPath_reserve\<close> as a whole: when it grants a path and what the tiles are like then.
\<close>

section \<open>The dry run\<close>

definition dryOk :: "RailMap \<Rightarrow> BlockPath \<Rightarrow> nat \<Rightarrow> RailState \<Rightarrow> bool" where
  "dryOk rm p train s \<longleftrightarrow> sideOk (bp_fromBlock p) train (bp_fromSide p) s \<and>
    (case bp_to p s of None \<Rightarrow> False | Some (b, side) \<Rightarrow> sideOk b train side s) \<and>
    (\<forall>np \<in> set (bp_turnouts p). rl_exists s (fst np) \<and> turnout_isValidPosition rm (fst np) (snd np)) \<and>
    (\<forall>nd \<in> set (bp_directionControls p). rl_exists s (fst nd) \<and> (rl_control s (fst nd) = snd nd \<or> rl_control s (fst nd) = DcBoth)) \<and>
    (\<forall>nc \<in> set (bp_crossings p). rl_exists s (fst nc) \<and> rl_crossState s (fst nc) = CrossUnset) \<and>
    (\<forall>nb \<in> set (bp_bridges p). rl_exists s (fst nb) \<and> rl_reserved s (fst nb) AND bridgeMask (snd nb) = 0) \<and>
    (\<forall>n \<in> set (bp_signals p). rl_exists s n)"

lemma andThen_dry:
  assumes "snd r = s" and "snd (f s) = s"
  shows "snd (andThen r f) = s" and "fst (andThen r f) \<longleftrightarrow> fst r \<and> fst (f s)"
  using assms by (auto simp: andThen_def)

lemma reserveParts_dry:
  "snd (reserveParts rm p train True s) = s" "fst (reserveParts rm p train True s) \<longleftrightarrow> dryOk rm p train s"
proof -
  note t = reserveAll_dry' [where res = "turnout_reserve rm", OF turnout_reserve_real(2)]
    and d = reserveAll_dry' [where res = control_reserve, OF control_reserve_real(2)]
    and c = reserveAll_dry' [where res = cross_reserve, OF cross_reserve_real(2)]
    and b = reserveAll_dry' [where res = bridge_reserve, OF bridge_reserve_real(2)]
    and g = reserveAll_dry' [where res = "signal_reserve p", OF signal_reserve_real(2)]
  show "snd (reserveParts rm p train True s) = s"
    unfolding reserveParts_def
    by (auto simp: andThen_def t(1) d(1) c(1) b(1) g(1) block_reserve_dry split: option.splits)
  show "fst (reserveParts rm p train True s) \<longleftrightarrow> dryOk rm p train s"
    unfolding reserveParts_def dryOk_def
    by (auto simp: andThen_def t d c b g block_reserve_dry block_reserve_ok turnout_reserve_real(1) control_reserve_real(1)
        cross_reserve_real(1) bridge_reserve_real(1) signal_reserve_real(1) split: option.splits)
qed

section \<open>The run\<close>

lemma fold_frame:
  assumes "\<And>t s. f (snd (res t False s)) = f s"
  shows "f (fold (\<lambda>t s. snd (res t False s)) ts s) = f s"
  using assms by (induction ts arbitrary: s) simp_all

lemma fold_reserved:
  assumes "\<And>t s n. n \<noteq> tile t \<Longrightarrow> rl_reserved (snd (res t False s)) n = rl_reserved s n" and "n \<notin> tile ` set ts"
  shows "rl_reserved (fold (\<lambda>t s. snd (res t False s)) ts s) n = rl_reserved s n"
  using assms by (induction ts arbitrary: s) simp_all

definition runBlocks :: "BlockPath \<Rightarrow> nat \<Rightarrow> RailState \<Rightarrow> RailState" where
  "runBlocks p train s = (let s1 = snd (block_reserve (bp_fromBlock p) p train (bp_fromSide p) False s)
     in case bp_to p s of None \<Rightarrow> s1 | Some (b, side) \<Rightarrow> snd (block_reserve b p train side False s1))"

definition runTiles :: "RailMap \<Rightarrow> BlockPath \<Rightarrow> RailState \<Rightarrow> RailState" where
  "runTiles rm p s =
    fold (\<lambda>t s. snd (signal_reserve p t False s)) (bp_signals p)
     (fold (\<lambda>t s. snd (bridge_reserve t False s)) (bp_bridges p)
     (fold (\<lambda>t s. snd (cross_reserve t False s)) (bp_crossings p)
     (fold (\<lambda>t s. snd (control_reserve t False s)) (bp_directionControls p)
     (fold (\<lambda>t s. snd (turnout_reserve rm t False s)) (bp_turnouts p) s))))"

lemma bp_to_exists: "rl_exists s = rl_exists s' \<Longrightarrow> bp_to p s = bp_to p s'"
  by (auto simp: bp_to_def split: option.split)

lemma distinct_wrt: "distinct xs \<longleftrightarrow> sorted_wrt (\<noteq>) xs"
  by (induction xs) auto

lemma distinct_fst_wrt: "distinct (map fst xs) \<longleftrightarrow> sorted_wrt (\<lambda>t u. fst t \<noteq> fst u) xs"
  by (simp add: distinct_wrt sorted_wrt_map)

lemma runBlocks_fields:
  assumes "rail_inv {} s" and "path_typed rm p" and "path_simple p" and "dryOk rm p train s"
  shows "rl_exists (runBlocks p train s) = rl_exists s" "rl_control (runBlocks p train s) = rl_control s"
    "rl_crossState (runBlocks p train s) = rl_crossState s" "rl_position (runBlocks p train s) = rl_position s"
    "rm_tileId rm n \<noteq> RailBlock \<Longrightarrow> rl_reserved (runBlocks p train s) n = rl_reserved s n"
    "taken (runBlocks p train s) (ClaimSide (bp_fromBlock p) (bp_fromSide p))"
    "bp_to p s = Some (b, side) \<Longrightarrow> taken (runBlocks p train s) (ClaimSide b side)"
    "taken s c \<Longrightarrow> taken (runBlocks p train s) c"
    "bt_reservedPaths (rl_blocks (runBlocks p train s) (bp_fromBlock p)) (bp_fromSide p) = Some p"
    "andThen (block_reserve (bp_fromBlock p) p train (bp_fromSide p) False s)
      (\<lambda>s. case bp_to p s of None \<Rightarrow> (False, s) | Some (b, side) \<Rightarrow> block_reserve b p train side False s) =
      (True, runBlocks p train s)"
proof -
  let ?b = "bp_fromBlock p" and ?side = "bp_fromSide p"
  let ?s1 = "snd (block_reserve ?b p train ?side False s)"
  obtain b' side' where to: "bp_to p s = Some (b', side')" "sideOk b' train side' s"
    using assms(4) by (auto simp: dryOk_def split: option.splits)
  have ok: "sideOk ?b train ?side s" using assms(4) by (simp add: dryOk_def)
  have ne: "b' = ?b \<longrightarrow> side' \<noteq> ?side" and tb: "bp_toBlock p = Some b'"
    using to(1) assms(3) by (auto simp: bp_to_def path_simple_def split: option.splits if_splits)
  note ok' = sideOk_after [OF assms(1) ok to(2) ne, of p]
  note r = block_reserve_real [OF ok, where p = p] and r' = block_reserve_real [OF ok', where p = p]
  have e: "runBlocks p train s = snd (block_reserve b' p train side' False ?s1)"
    using to(1) by (simp add: runBlocks_def Let_def)
  have ids: "rm_tileId rm ?b = RailBlock" "rm_tileId rm b' = RailBlock"
    using assms(2) tb by (auto simp: path_typed_def)
  show "rl_exists (runBlocks p train s) = rl_exists s" "rl_control (runBlocks p train s) = rl_control s"
    "rl_crossState (runBlocks p train s) = rl_crossState s" "rl_position (runBlocks p train s) = rl_position s"
    unfolding e using r r' by simp_all
  show "rl_reserved (runBlocks p train s) n = rl_reserved s n" if "rm_tileId rm n \<noteq> RailBlock"
    unfolding e using r(7) r'(7) ids that by auto
  show "taken (runBlocks p train s) (ClaimSide b side)" if "bp_to p s = Some (b, side)"
    unfolding e using r'(7) that to by simp
  show k: "taken (runBlocks p train s) c" if "taken s c" for c
    unfolding e using r(4,7) r'(4,7) that by (cases c) (auto simp: mask_kept split: if_splits)
  show "taken (runBlocks p train s) (ClaimSide ?b ?side)"
    unfolding e using r(7) r'(7) by (simp add: mask_kept)
  show "bt_reservedPaths (rl_blocks (runBlocks p train s) ?b) ?side = Some p"
    unfolding e using r(10) r'(8) r'(10) ne by (cases "b' = ?b") auto
  have "fst (block_reserve ?b p train ?side False s)" "fst (block_reserve b' p train side' False ?s1)"
    using ok ok' by (simp_all add: block_reserve_ok)
  then show "andThen (block_reserve ?b p train ?side False s)
      (\<lambda>s. case bp_to p s of None \<Rightarrow> (False, s) | Some (b, side) \<Rightarrow> block_reserve b p train side False s) =
      (True, runBlocks p train s)"
    unfolding e using to(1) bp_to_exists [OF r(1), of p] by (simp add: andThen_def prod_eq_iff)
qed

lemma reserveParts_real:
  assumes "rail_inv {} s" and "path_typed rm p" and "path_simple p" and "dryOk rm p train s"
  shows "reserveParts rm p train False s = (True, runTiles rm p (runBlocks p train s))"
proof -
  let ?s2 = "runBlocks p train s"
  let ?s3 = "fold (\<lambda>t s. snd (turnout_reserve rm t False s)) (bp_turnouts p) ?s2"
  let ?s4 = "fold (\<lambda>t s. snd (control_reserve t False s)) (bp_directionControls p) ?s3"
  let ?s5 = "fold (\<lambda>t s. snd (cross_reserve t False s)) (bp_crossings p) ?s4"
  let ?s6 = "fold (\<lambda>t s. snd (bridge_reserve t False s)) (bp_bridges p) ?s5"
  note b = runBlocks_fields [OF assms] and d = assms(4) [unfolded dryOk_def]
  have plain: "plainTile rm n" if "n \<in> fst ` set (bp_turnouts p) \<union> fst ` set (bp_directionControls p) \<union> fst ` set (bp_crossings p)" for n
    using assms(2) that by (auto simp: path_typed_def)
  have nb: "fst nb \<notin> fst ` set (bp_turnouts p)" "fst nb \<notin> fst ` set (bp_directionControls p)" "fst nb \<notin> fst ` set (bp_crossings p)"
    "rm_tileId rm (fst nb) \<noteq> RailBlock" if "nb \<in> set (bp_bridges p)" for nb
  proof -
    have "isRailBridge (rm_tileId rm (fst nb))" using assms(2) that by (auto simp: path_typed_def)
    then have "\<not> plainTile rm (fst nb)" "rm_tileId rm (fst nb) \<noteq> RailBlock" by (auto simp: plainTile_def isRailBridge_def)
    then show "fst nb \<notin> fst ` set (bp_turnouts p)" "fst nb \<notin> fst ` set (bp_directionControls p)" "fst nb \<notin> fst ` set (bp_crossings p)"
      "rm_tileId rm (fst nb) \<noteq> RailBlock" using plain by blast+
  qed
  have ex: "rl_exists ?s3 = rl_exists s" "rl_exists ?s4 = rl_exists s" "rl_exists ?s5 = rl_exists s" "rl_exists ?s6 = rl_exists s"
    using b(1) by (simp_all add: fold_frame [of rl_exists] turnout_reserve_real control_reserve_real cross_reserve_real bridge_reserve_real)
  have co: "rl_control ?s3 = rl_control s" and cr: "rl_crossState ?s4 = rl_crossState s"
    using b(2,3) by (simp_all add: fold_frame [of rl_control] fold_frame [of rl_crossState] turnout_reserve_real control_reserve_real)
  have re: "rl_reserved ?s5 (fst nb) = rl_reserved s (fst nb)" if "nb \<in> set (bp_bridges p)" for nb
    using fold_reserved [of fst "turnout_reserve rm", OF turnout_reserve_real(11) nb(1) [OF that]]
      fold_reserved [of fst control_reserve, OF control_reserve_real(12) nb(2) [OF that]]
      fold_reserved [of fst cross_reserve, OF cross_reserve_real(11) nb(3) [OF that]] b(5) [OF nb(4) [OF that]] by simp
  have 3: "reserveAll fst (turnout_reserve rm) (bp_turnouts p) False ?s2 = (True, ?s3)"
    by (rule reserveAll_real [where C = "\<lambda>_ _. True"]) (use d b(1) in \<open>auto simp: turnout_reserve_real sorted_wrt_true\<close>)
  have 4: "reserveAll fst control_reserve (bp_directionControls p) False ?s3 = (True, ?s4)"
    by (rule reserveAll_real [where C = "\<lambda>_ _. True"])
      (use d ex(1) co in \<open>auto simp: control_reserve_real sorted_wrt_true\<close>)
  have 5: "reserveAll fst cross_reserve (bp_crossings p) False ?s4 = (True, ?s5)"
    by (rule reserveAll_real [where C = "\<lambda>t u. fst t \<noteq> fst u"])
      (use d ex(2) cr assms(3) in \<open>auto simp: cross_reserve_real path_simple_def distinct_fst_wrt\<close>)
  have 6: "reserveAll fst bridge_reserve (bp_bridges p) False ?s5 = (True, ?s6)"
    by (rule reserveAll_real [where C = "(\<noteq>)"])
      (use d ex(3) re assms(3) in \<open>auto simp: bridge_reserve_real path_simple_def distinct_wrt prod_eq_iff\<close>)
  have 7: "reserveAll id (signal_reserve p) (bp_signals p) False ?s6 = (True, fold (\<lambda>t s. snd (signal_reserve p t False s)) (bp_signals p) ?s6)"
    by (rule reserveAll_real [where C = "\<lambda>_ _. True"]) (use d ex(4) in \<open>auto simp: signal_reserve_real sorted_wrt_true\<close>)
  show ?thesis
    unfolding reserveParts_def runTiles_def b(10) by (simp add: andThen_def 3 4 5 6 7)
qed

text \<open>Claims on the tiles they can be on.\<close>

fun claim_typed :: "RailMap \<Rightarrow> RailClaim \<Rightarrow> bool" where
  "claim_typed rm (ClaimSide b side) \<longleftrightarrow> rm_tileId rm b = RailBlock"
| "claim_typed rm (ClaimCross n) \<longleftrightarrow> True"
| "claim_typed rm (ClaimBridge n leg) \<longleftrightarrow> isRailBridge (rm_tileId rm n)"

lemma claims_typed: "path_typed rm p \<Longrightarrow> c \<in> claims p \<Longrightarrow> claim_typed rm c"
  by (auto simp: path_typed_def claims_def split: option.splits)

lemma taken_reserved:
  "taken s c \<Longrightarrow> claim_typed rm c \<Longrightarrow> rl_crossState s' = rl_crossState s \<Longrightarrow>
    (\<And>n. \<not> plainTile rm n \<Longrightarrow> rl_reserved s' n = rl_reserved s n) \<Longrightarrow> taken s' c"
  by (cases c) (auto simp: plainTile_def)

lemma fold_plain:
  assumes "\<And>t s n. n \<noteq> tile t \<Longrightarrow> rl_reserved (snd (res t False s)) n = rl_reserved s n"
    and "\<And>n. n \<in> tile ` set ts \<Longrightarrow> plainTile rm n" and "\<not> plainTile rm n"
  shows "rl_reserved (fold (\<lambda>t s. snd (res t False s)) ts s) n = rl_reserved s n"
  using fold_reserved [of tile res n ts s] assms by blast

lemma cross_kept:
  assumes "\<forall>nc \<in> set ts. snd nc \<noteq> CrossUnset" and "rl_crossState s n \<noteq> CrossUnset"
  shows "rl_crossState (fold (\<lambda>t s. snd (cross_reserve t False s)) ts s) n \<noteq> CrossUnset"
  using assms
proof (induction ts arbitrary: s)
  case (Cons t ts)
  have "rl_crossState (snd (cross_reserve t False s)) n \<noteq> CrossUnset"
    using Cons.prems by (simp add: cross_reserve_def case_prod_unfold Let_def)
  from Cons.IH [OF _ this] Cons.prems(1) show ?case by simp
qed simp

lemma fold_cross:
  assumes "\<forall>nc \<in> set ts. snd nc \<noteq> CrossUnset" and "n \<in> fst ` set ts"
  shows "rl_crossState (fold (\<lambda>t s. snd (cross_reserve t False s)) ts s) n \<noteq> CrossUnset"
  using assms
proof (induction ts arbitrary: s)
  case (Cons t ts)
  show ?case
  proof (cases "n \<in> fst ` set ts")
    case True
    then show ?thesis using Cons by simp
  next
    case False
    then have "fst t = n" using Cons.prems(2) by auto
    then have "rl_crossState (snd (cross_reserve t False s)) n \<noteq> CrossUnset"
      using Cons.prems(1) by (simp add: cross_reserve_def case_prod_unfold Let_def)
    from cross_kept [OF _ this] Cons.prems(1) show ?thesis by simp
  qed
qed simp

lemma bridge_kept:
  "rl_reserved s n AND m \<noteq> 0 \<Longrightarrow> rl_reserved (fold (\<lambda>t s. snd (bridge_reserve t False s)) ts s) n AND m \<noteq> 0"
proof (induction ts arbitrary: s)
  case (Cons t ts)
  have "rl_reserved (snd (bridge_reserve t False s)) n AND m \<noteq> 0"
    using Cons.prems by (auto simp: bridge_reserve_def case_prod_unfold Let_def mask_kept)
  from Cons.IH [OF this] show ?case by simp
qed simp

lemma fold_bridge:
  "(n, leg) \<in> set ts \<Longrightarrow> rl_reserved (fold (\<lambda>t s. snd (bridge_reserve t False s)) ts s) n AND bridgeMask leg \<noteq> 0"
proof (induction ts arbitrary: s)
  case (Cons t ts)
  show ?case
  proof (cases "(n, leg) \<in> set ts")
    case True
    then show ?thesis using Cons.IH by simp
  next
    case False
    then have "t = (n, leg)" using Cons.prems by simp
    then have "rl_reserved (snd (bridge_reserve t False s)) n AND bridgeMask leg \<noteq> 0"
      by (auto simp: bridge_reserve_def)
    from bridge_kept [OF this] show ?thesis by simp
  qed
qed simp

lemma fold_turnouts:
  assumes "\<forall>np \<in> set ts. turnout_isValidPosition rm (fst np) (snd np)" and "distinct (map fst ts)" and "(n, pos) \<in> set ts"
  shows "rl_position (fold (\<lambda>t s. snd (turnout_reserve rm t False s)) ts s) n = pos"
  using assms
proof (induction ts arbitrary: s)
  case (Cons t ts)
  have other: "rl_position (fold (\<lambda>t s. snd (turnout_reserve rm t False s)) us u) n = rl_position u n"
    if "n \<notin> fst ` set us" for us u
    using that by (induction us arbitrary: u)
      (auto simp: turnout_reserve_def turnout_doSetPosition_def case_prod_unfold Let_def)
  show ?case
  proof (cases "(n, pos) \<in> set ts")
    case True
    then show ?thesis using Cons by simp
  next
    case False
    then have t: "t = (n, pos)" using Cons.prems(3) by simp
    then have "n \<notin> fst ` set ts" using Cons.prems(2) by simp
    then show ?thesis using other Cons.prems(1) t by (simp add: turnout_reserve_real(12))
  qed
qed simp

lemma fold_signals:
  "n \<in> set ts \<Longrightarrow> rl_blockPath (fold (\<lambda>t s. snd (signal_reserve p t False s)) ts s) n = Some p"
proof (induction ts arbitrary: s)
  case (Cons t ts)
  have other: "rl_blockPath u n = Some p \<Longrightarrow> rl_blockPath (fold (\<lambda>t s. snd (signal_reserve p t False s)) us u) n = Some p" for us u
    by (induction us arbitrary: u) (auto simp: signal_reserve_def)
  show ?case
  proof (cases "n \<in> set ts")
    case True
    then show ?thesis using Cons.IH by simp
  next
    case False
    then show ?thesis using Cons.prems other by (simp add: signal_reserve_def)
  qed
qed simp

lemma fold_setReserved:
  "rl_exists (fold (\<lambda>t. setReservedState t v) ts s) = rl_exists s" "rl_blocks (fold (\<lambda>t. setReservedState t v) ts s) = rl_blocks s"
  "rl_position (fold (\<lambda>t. setReservedState t v) ts s) = rl_position s" "rl_control (fold (\<lambda>t. setReservedState t v) ts s) = rl_control s"
  "rl_crossState (fold (\<lambda>t. setReservedState t v) ts s) = rl_crossState s"
  "rl_blockPath (fold (\<lambda>t. setReservedState t v) ts s) = rl_blockPath s"
  "rl_trains (fold (\<lambda>t. setReservedState t v) ts s) = rl_trains s"
  "rl_statuses (fold (\<lambda>t. setReservedState t v) ts s) = rl_statuses s"
  "rl_nextStatus (fold (\<lambda>t. setReservedState t v) ts s) = rl_nextStatus s"
  "n \<notin> set ts \<Longrightarrow> rl_reserved (fold (\<lambda>t. setReservedState t v) ts s) n = rl_reserved s n"
  by (induction ts arbitrary: s) simp_all

section \<open>A path that was granted\<close>

lemma runTiles_fields:
  "rl_exists (runTiles rm p s) = rl_exists s" "rl_control (runTiles rm p s) = rl_control s"
  "rl_blocks (runTiles rm p s) = rl_blocks s" "rl_trains (runTiles rm p s) = rl_trains s"
  "rl_statuses (runTiles rm p s) = rl_statuses s" "rl_nextStatus (runTiles rm p s) = rl_nextStatus s"
  by (simp_all add: runTiles_def fold_frame [of rl_exists] fold_frame [of rl_control] fold_frame [of rl_blocks] fold_frame [of rl_trains]
      fold_frame [of rl_statuses] fold_frame [of rl_nextStatus] turnout_reserve_real control_reserve_real cross_reserve_real
      bridge_reserve_real signal_reserve_real)

lemma runTiles_taken:
  assumes "path_typed rm p" and "claim_typed rm c" and "taken s c \<or> c \<in> claims p \<and> (\<forall>b side. c \<noteq> ClaimSide b side)"
  shows "taken (runTiles rm p s) c"
proof -
  let ?s3 = "fold (\<lambda>t s. snd (turnout_reserve rm t False s)) (bp_turnouts p) s"
  let ?s4 = "fold (\<lambda>t s. snd (control_reserve t False s)) (bp_directionControls p) ?s3"
  let ?s5 = "fold (\<lambda>t s. snd (cross_reserve t False s)) (bp_crossings p) ?s4"
  let ?s6 = "fold (\<lambda>t s. snd (bridge_reserve t False s)) (bp_bridges p) ?s5"
  have plain: "n \<in> fst ` set (bp_turnouts p) \<Longrightarrow> plainTile rm n" "n \<in> fst ` set (bp_directionControls p) \<Longrightarrow> plainTile rm n"
    "n \<in> fst ` set (bp_crossings p) \<Longrightarrow> plainTile rm n" "n \<in> id ` set (bp_signals p) \<Longrightarrow> plainTile rm n" for n
    using assms(1) by (auto simp: path_typed_def)
  have re: "rl_reserved ?s5 n = rl_reserved s n" if "\<not> plainTile rm n" for n
    using fold_plain [of fst "turnout_reserve rm", OF turnout_reserve_real(11) plain(1) that]
      fold_plain [of fst control_reserve, OF control_reserve_real(12) plain(2) that]
      fold_plain [of fst cross_reserve, OF cross_reserve_real(11) plain(3) that] by simp
  have fin: "rl_reserved (runTiles rm p s) n = rl_reserved ?s6 n" if "\<not> plainTile rm n" for n
    using fold_plain [of id "signal_reserve p", OF _ plain(4) that] by (simp add: runTiles_def signal_reserve_real)
  have cr: "rl_crossState ?s4 = rl_crossState s"
    by (simp add: fold_frame [of rl_crossState] turnout_reserve_real control_reserve_real)
  have fc: "rl_crossState (runTiles rm p s) = rl_crossState ?s5"
    by (simp add: runTiles_def fold_frame [of rl_crossState] bridge_reserve_real signal_reserve_real)
  have un: "\<forall>nc \<in> set (bp_crossings p). snd nc \<noteq> CrossUnset" using assms(1) by (auto simp: path_typed_def)
  show ?thesis
  proof (cases c)
    case (ClaimSide b side)
    then have np: "\<not> plainTile rm b" using assms(2) by (simp add: plainTile_def)
    have "rl_reserved s b AND toMask side \<noteq> 0" using assms(3) ClaimSide by auto
    then show ?thesis using ClaimSide fin [OF np] re [OF np] bridge_kept [of ?s5 b "toMask side"] by simp
  next
    case (ClaimCross n)
    then have "rl_crossState s n \<noteq> CrossUnset \<or> n \<in> fst ` set (bp_crossings p)"
      using assms(3) by (auto simp: claims_def split: option.splits)
    then have "rl_crossState ?s5 n \<noteq> CrossUnset"
      using cross_kept [OF un, of ?s4 n] fold_cross [OF un, of n ?s4] cr by (elim disjE) simp_all
    then show ?thesis using ClaimCross fc by simp
  next
    case (ClaimBridge n leg)
    then have np: "\<not> plainTile rm n" using assms(2) by (simp add: plainTile_def)
    have "rl_reserved s n AND bridgeMask leg \<noteq> 0 \<or> (n, leg) \<in> set (bp_bridges p)"
      using assms(3) ClaimBridge by (auto simp: claims_def split: option.splits)
    then have "rl_reserved ?s6 n AND bridgeMask leg \<noteq> 0"
      using bridge_kept [of ?s5 n "bridgeMask leg"] fold_bridge [of n leg "bp_bridges p" ?s5] re [OF np]
      by (elim disjE) simp_all
    then show ?thesis using ClaimBridge fin [OF np] by simp
  qed
qed

lemma reserveTiles_taken:
  assumes "path_typed rm p" and "claim_typed rm c" and "taken s c"
  shows "taken (reserveTiles p s) c"
proof (rule taken_reserved [OF assms(3,2)])
  show "rl_crossState (reserveTiles p s) = rl_crossState s" by (simp add: reserveTiles_def fold_setReserved)
  fix n assume "\<not> plainTile rm n"
  then have "n \<notin> set (filter (rl_exists s) (bp_tiles p @ (case bp_nxButtonFrom p of None \<Rightarrow> [] | Some n \<Rightarrow> [n]) @
         (case bp_nxButtonTo p of None \<Rightarrow> [] | Some n \<Rightarrow> [n])))"
    using assms(1) by (auto simp: path_typed_def split: option.splits)
  then show "rl_reserved (reserveTiles p s) n = rl_reserved s n"
    unfolding reserveTiles_def by (rule fold_setReserved(10))
qed

lemma BlockPath_reserve_alt:
  assumes "rail_inv {} s" and "path_typed rm p" and "path_simple p"
  shows "BlockPath_reserve rm p train s =
    (if dryOk rm p train s then Some (True, reserveTiles p (runTiles rm p (runBlocks p train s))) else Some (False, s))"
  using reserveParts_real [OF assms] by (simp add: BlockPath_reserve_def reserveParts_dry)

lemma granted:
  assumes "rail_inv {} s" and "path_typed rm p" and "path_simple p" and "dryOk rm p train s"
  defines "s' \<equiv> reserveTiles p (runTiles rm p (runBlocks p train s))"
  shows "c \<in> claims p \<Longrightarrow> taken s' c" "claim_typed rm c \<Longrightarrow> taken s c \<Longrightarrow> taken s' c"
    "c \<in> claims p \<Longrightarrow> \<not> taken s c"
    "(n, pos) \<in> set (bp_turnouts p) \<Longrightarrow> rl_position s' n = pos" "n \<in> set (bp_signals p) \<Longrightarrow> rl_blockPath s' n = Some p"
    "bt_reservedPaths (rl_blocks s' (bp_fromBlock p)) (bp_fromSide p) = Some p"
    "rl_exists s' = rl_exists s" "rl_control s' = rl_control s" "BlockPath_isReady p s'"
proof -
  note b = runBlocks_fields [OF assms(1-4)] and d = assms(4) [unfolded dryOk_def]
  show keep: "claim_typed rm c \<Longrightarrow> taken s c \<Longrightarrow> taken s' c" for c
    unfolding s'_def using reserveTiles_taken [OF assms(2)] runTiles_taken [OF assms(2)] b(8) by blast
  obtain b' side' where to: "bp_to p s = Some (b', side')" using d by (auto split: option.splits)
  then have to': "bp_toBlock p = Some b'" "bp_toSide p = Some side'"
    by (auto simp: bp_to_def split: option.splits if_splits)
  show "taken s' c" if c: "c \<in> claims p" for c
  proof -
    have "taken (runBlocks p train s) c \<or> c \<in> claims p \<and> (\<forall>b side. c \<noteq> ClaimSide b side)"
      using c b(6) b(7) [OF to] to' by (auto simp: claims_def)
    then show ?thesis
      unfolding s'_def using reserveTiles_taken [OF assms(2)] runTiles_taken [OF assms(2)] claims_typed [OF assms(2) c] by blast
  qed
  show "c \<in> claims p \<Longrightarrow> \<not> taken s c"
    using d to to' by (auto simp: claims_def sideOk_def Let_def)
  have t3: "rl_position s' = rl_position (fold (\<lambda>t s. snd (turnout_reserve rm t False s)) (bp_turnouts p) (runBlocks p train s))"
    unfolding s'_def reserveTiles_def runTiles_def
    by (simp add: fold_setReserved fold_frame [of rl_position] control_reserve_real cross_reserve_real bridge_reserve_real signal_reserve_real)
  show pos: "(n, pos) \<in> set (bp_turnouts p) \<Longrightarrow> rl_position s' n = pos" for n pos
    unfolding t3 using d assms(3) by (intro fold_turnouts) (auto simp: path_simple_def)
  show "n \<in> set (bp_signals p) \<Longrightarrow> rl_blockPath s' n = Some p"
    unfolding s'_def reserveTiles_def runTiles_def using fold_signals by (simp add: fold_setReserved)
  show "bt_reservedPaths (rl_blocks s' (bp_fromBlock p)) (bp_fromSide p) = Some p"
    unfolding s'_def reserveTiles_def using b(9) by (simp add: fold_setReserved runTiles_fields)
  show ex: "rl_exists s' = rl_exists s" and co: "rl_control s' = rl_control s"
    unfolding s'_def reserveTiles_def using b(1,2) by (simp_all add: fold_setReserved runTiles_fields)
  show "BlockPath_isReady p s'"
    using d pos unfolding BlockPath_isReady_def ex co by (auto simp: case_prod_unfold)
qed

section \<open>The invariant\<close>

lemma rail_inv_mono: "rail_inv X s \<Longrightarrow> X \<subseteq> Y \<Longrightarrow> rail_inv Y s"
  by (auto simp: rail_inv_def)

lemma rail_inv_cong:
  "rl_blocks s' = rl_blocks s \<Longrightarrow> rl_nextStatus s' = rl_nextStatus s \<Longrightarrow> (\<And>i. ts_block (rl_statuses s' i) = ts_block (rl_statuses s i)) \<Longrightarrow>
    rail_inv X s' = rail_inv X s"
  by (simp add: rail_inv_def)

lemma rail_inv_simps [simp]:
  "rail_inv X (rl_event e s) = rail_inv X s" "rail_inv X (setReservedState t v s) = rail_inv X s"
  "rail_inv X (setTrain t g s) = rail_inv X s"
  by (simp_all add: rail_inv_def)

lemma stateOf_free: "stateOf t = BsFree \<Longrightarrow> bt_trains t = []"
  by (rule ccontr) simp

lemma updateState_inv: "rail_inv (insert b X) s \<Longrightarrow> rail_inv X (updateState b s)"
  unfolding rail_inv_def using stateOf_free by auto

lemma setBlock_inv:
  assumes "rail_inv X s" and "\<And>t. set (bt_trains (f t)) \<subseteq> set (bt_trains t)" and "\<And>t. bt_state (f t) = bt_state t"
  shows "rail_inv X (setBlock b f s)"
proof -
  have "bt_trains t = [] \<Longrightarrow> bt_trains (f t) = []" for t using assms(2) [of t] by simp
  then show ?thesis using assms(1) assms(2) [of "rl_blocks s b"] assms(3) unfolding rail_inv_def by auto
qed

lemma newStatus_inv:
  assumes "rail_inv X s"
  shows "rail_inv (insert b X) (appendStatus b (rl_nextStatus s) (snd (createStatus b t i d s)))"
  using assms unfolding rail_inv_def appendStatus_def createStatus_def by (auto simp: less_Suc_eq)

lemma tracking_reserve_inv: "rail_inv X s \<Longrightarrow> rail_inv (insert b X) (tracking_reserve t b d s)"
  using newStatus_inv [of X s b "Some t" None d]
  by (simp add: tracking_reserve_def createStatus_def)

lemma block_reserve_inv:
  assumes "rail_inv {} s"
  shows "rail_inv {} (snd (block_reserve b p train side dryRun s))"
proof -
  let ?s1 = "setReservedState b (rl_reserved s b OR toMask side)
                 (setBlock b (\<lambda>t. t\<lparr>bt_reservedPaths := (bt_reservedPaths t)(side := Some p)\<rparr>) s)"
  have "rail_inv {} ?s1"
    using setBlock_inv [OF assms, of "\<lambda>t. t\<lparr>bt_reservedPaths := (bt_reservedPaths t)(side := Some p)\<rparr>" b]
    by simp
  then have "rail_inv {} (updateState b ?s1)" "rail_inv {} (updateState b (tracking_reserve train b d ?s1))" for d
    using updateState_inv [of b "{}"] rail_inv_mono [of "{}" ?s1 "{b}"] tracking_reserve_inv [of "{}" ?s1 b] by auto
  then show ?thesis using assms by (cases side) (auto simp: block_reserve_def Let_def)
qed

lemma BlockPath_reserve_inv:
  assumes "rail_inv {} s" and "path_typed rm p" and "path_simple p" and "BlockPath_reserve rm p train s = Some (ok, s')"
  shows "rail_inv {} s'"
proof (cases "dryOk rm p train s")
  case False
  then show ?thesis using assms by (simp add: BlockPath_reserve_alt [OF assms(1-3)])
next
  case True
  have "rail_inv {} (runBlocks p train s)"
    using assms(1) unfolding runBlocks_def Let_def by (auto intro!: block_reserve_inv split: option.split)
  then show ?thesis
    using assms(4) True
    by (auto simp: BlockPath_reserve_alt [OF assms(1-3)] reserveTiles_def
        rail_inv_cong [of "fold _ _ _" "runTiles _ _ _"] rail_inv_cong [of "runTiles _ _ _"] runTiles_fields fold_setReserved)
qed

end
