(* ===== verification/Board_Simple.thy ===== *)
theory Board_Simple
  imports Board_Search Board_Granted
begin

text \<open>
  The paths that are found lead over no side of a block, no crossing and no leg of a bridge twice, and can
  be set: no link is passed in both directions, since only a turnout could turn a path around and no
  turnout is passed twice.
\<close>

section \<open>Steps between connectors\<close>

definition opp :: "RailMap \<Rightarrow> nat \<times> nat \<Rightarrow> nat \<times> nat \<Rightarrow> bool" where
  "opp rm x y \<longleftrightarrow> (\<exists>l. node_getLink rm (fst x) (snd x) = Some l \<and> otherEnd rm l x = y)"

definition goes :: "RailMap \<Rightarrow> nat \<times> nat \<Rightarrow> nat \<times> nat \<Rightarrow> bool" where
  "goes rm x y \<longleftrightarrow> (\<exists>m j. opp rm x (m, j) \<and>
    (m = fst y \<and> ((\<exists>pos. turnoutLeg (rm_tileId rm m) j (snd y) pos) \<or> through (rm_tileId rm m) j = Some (snd y)) \<or>
     rm_tileId rm m = RailLink \<and> rm_linked rm m = Some (fst y) \<and> snd y = 0))"

lemma opp_facts:
  assumes "rm_wf rm" and "opp rm x y"
  shows "opp rm y x" and "x \<noteq> y" and "snd y < connectors (rm_tileId rm (fst y))" and "opp rm x z \<Longrightarrow> z = y"
proof -
  obtain l where l: "node_getLink rm (fst x) (snd x) = Some l" "otherEnd rm l (fst x, snd x) = (fst y, snd y)"
    using assms(2) by (auto simp: opp_def)
  note n = wf_next [OF assms(1) l]
  show "opp rm y x" using n(2,5) unfolding opp_def by auto
  show "x \<noteq> y" using n(4) by auto
  show "snd y < connectors (rm_tileId rm (fst y))" by (rule wf_size(1) [OF assms(1) n(2)])
  show "opp rm x z \<Longrightarrow> z = y" using assms(2) by (auto simp: opp_def)
qed

lemma turnoutLeg_turnout:
  assumes "turnoutLeg t j k pos"
  shows "isRailTurnout t" and "j \<noteq> k" and "through t j = None" and "t \<noteq> RailLink" and "pos \<in> set (turnoutPositions t)"
proof -
  show t: "isRailTurnout t" using assms by (auto simp: turnoutLeg_def turnoutRails_def isRailTurnout_def split: if_splits)
  show "j \<noteq> k" using assms by (auto simp: turnoutLeg_def turnoutRails_def split: if_splits)
  show "through t j = None" "t \<noteq> RailLink"
    using t by (auto simp: isRailTurnout_def through_def isRailBridge_def isRailCross_def isRailSignal_def)
  show "pos \<in> set (turnoutPositions t)"
    using assms by (cases t) (auto simp: turnoutLeg_def turnoutRails_def turnoutPositions_def)
qed

lemma through_facts:
  assumes "through t j = Some k"
  shows "t \<noteq> RailLink" and "\<not> isRailTurnout t" and "t \<noteq> RailBlock" and "j < connectors t \<Longrightarrow> j \<noteq> k"
    and "j < connectors t \<Longrightarrow> through t k = Some i \<Longrightarrow> i = j"
proof -
  show "t \<noteq> RailLink" "\<not> isRailTurnout t" "t \<noteq> RailBlock"
    using assms by (auto simp: through_def isRailBridge_def isRailCross_def isRailSignal_def isRailTurnout_def)
  have "j \<noteq> k \<and> (through t k = Some i \<longrightarrow> i = j)" if j: "j < connectors t"
  proof (cases "isRailBridge t \<or> isRailCross t")
    case True
    then have "k = (j + 2) mod 4" "j < 4" using assms j by (simp_all add: through_def connectors_def)
    moreover have "through t k = Some ((k + 2) mod 4)" using True by (simp add: through_def)
    moreover have "(j + 2) mod 4 \<noteq> j" "((j + 2) mod 4 + 2) mod 4 = j" using \<open>j < 4\<close> by presburger+
    ultimately show ?thesis by auto
  next
    case False
    then have "j \<noteq> k" using assms by (auto simp: through_def split: if_splits)
    moreover have "connectors t \<le> 2"
      using assms False by (auto simp: through_def connectors_def isRailTurnout_def isRailSignal_def split: if_splits)
    ultimately show ?thesis using assms False j by (auto simp: through_def split: if_splits)
  qed
  then show "j < connectors t \<Longrightarrow> j \<noteq> k" "j < connectors t \<Longrightarrow> through t k = Some i \<Longrightarrow> i = j" by blast+
qed

text \<open>A step there and a step back over the same tile.\<close>

lemma goes_back:
  assumes wf: "rm_wf rm" and "opp rm x y" and "goes rm x x'" and "goes rm y' y" and "\<not> isRailTurnout (rm_tileId rm (fst y))"
  shows "opp rm y' x'"
proof -
  obtain m j where x: "opp rm x (m, j)"
    "m = fst x' \<and> ((\<exists>pos. turnoutLeg (rm_tileId rm m) j (snd x') pos) \<or> through (rm_tileId rm m) j = Some (snd x')) \<or>
     rm_tileId rm m = RailLink \<and> rm_linked rm m = Some (fst x') \<and> snd x' = 0" using assms(3) unfolding goes_def by blast
  obtain m' j' where y: "opp rm y' (m', j')"
    "m' = fst y \<and> ((\<exists>pos. turnoutLeg (rm_tileId rm m') j' (snd y) pos) \<or> through (rm_tileId rm m') j' = Some (snd y)) \<or>
     rm_tileId rm m' = RailLink \<and> rm_linked rm m' = Some (fst y) \<and> snd y = 0" using assms(4) unfolding goes_def by blast
  have ym: "y = (m, j)" using opp_facts(4) [OF wf x(1) assms(2)] by simp
  have j': "j' < connectors (rm_tileId rm m')" using opp_facts(3) [OF wf y(1)] by simp
  have lk: "\<forall>a c. rm_linked rm a = Some c \<longrightarrow> rm_linked rm c = Some a \<and> a \<noteq> c \<and> rm_tileId rm a = RailLink \<and> rm_tileId rm c = RailLink"
    using wf unfolding rm_wf_def by (elim conjE)
  have no: "\<not> turnoutLeg (rm_tileId rm m) i k pos" for i k pos using turnoutLeg_turnout(1) assms(5) ym by fastforce
  show ?thesis
  proof (cases "rm_tileId rm m = RailLink")
    case True
    have th: "through (rm_tileId rm m) i = None" for i using through_facts(1) True by (metis option.exhaust)
    have "rm_linked rm m = Some (fst x')" "snd x' = 0" using x(2) no th by simp_all
    have y2: "m' = m \<and> ((\<exists>pos. turnoutLeg (rm_tileId rm m') j' j pos) \<or> through (rm_tileId rm m') j' = Some j) \<or>
       rm_tileId rm m' = RailLink \<and> rm_linked rm m' = Some m \<and> j = 0" using y(2) unfolding ym fst_conv snd_conv .
    have "\<not> (m' = m \<and> ((\<exists>pos. turnoutLeg (rm_tileId rm m') j' j pos) \<or> through (rm_tileId rm m') j' = Some j))"
      using no th by auto
    then have m': "rm_tileId rm m' = RailLink" "rm_linked rm m' = Some m" using y2 by blast+
    then have "rm_linked rm m = Some m'" using lk by blast
    then have "m' = fst x'" using \<open>rm_linked rm m = Some (fst x')\<close> by simp
    moreover have "j' = 0"
      using j' m'(1) by (simp add: connectors_def isRailBridge_def isRailCross_def isRailTurnout_def isRailSignal_def)
    ultimately show ?thesis using y(1) \<open>snd x' = 0\<close> by (cases x') simp
  next
    case False
    have "m = fst x' \<and> through (rm_tileId rm m) j = Some (snd x')" using x(2) no False by blast
    then have "m = fst x'" "through (rm_tileId rm m) j = Some (snd x')" by blast+
    have "rm_linked rm m' \<noteq> Some m" using False lk by blast
    then have "m' = m" "through (rm_tileId rm m) j' = Some j" using y(2) no unfolding ym fst_conv snd_conv by auto
    then have "snd x' = j'"
      using through_facts(5) [of "rm_tileId rm m" j' j "snd x'"] j' \<open>through (rm_tileId rm m) j = Some (snd x')\<close> by simp
    then show ?thesis using y(1) \<open>m = fst x'\<close> \<open>m' = m\<close> by (cases x') simp
  qed
qed

lemma goes_not_back:
  assumes wf: "rm_wf rm" and "goes rm x y"
  shows "\<not> opp rm x y"
proof
  assume o: "opp rm x y"
  obtain m j where x: "opp rm x (m, j)"
    "m = fst y \<and> ((\<exists>pos. turnoutLeg (rm_tileId rm m) j (snd y) pos) \<or> through (rm_tileId rm m) j = Some (snd y)) \<or>
     rm_tileId rm m = RailLink \<and> rm_linked rm m = Some (fst y) \<and> snd y = 0" using assms(2) unfolding goes_def by blast
  have y: "y = (m, j)" using opp_facts(4) [OF wf x(1) o] by simp
  have "j < connectors (rm_tileId rm m)" using opp_facts(3) [OF wf x(1)] by simp
  moreover have "rm_linked rm m \<noteq> Some m" using wf unfolding rm_wf_def by blast
  moreover have "through (rm_tileId rm m) j \<noteq> Some j"
    using through_facts(4) [of "rm_tileId rm m" j j] \<open>j < connectors (rm_tileId rm m)\<close> by blast
  moreover have "\<not> turnoutLeg (rm_tileId rm m) j j pos" for pos using turnoutLeg_turnout(2) by blast
  ultimately show False using x(2) y by simp
qed

section \<open>No link in both directions\<close>

definition turnoutsOf :: "RailMap \<Rightarrow> (nat \<times> nat) list \<Rightarrow> nat list" where
  "turnoutsOf rm vs = filter (\<lambda>n. isRailTurnout (rm_tileId rm n)) (map fst vs)"

lemma no_reverse:
  assumes wf: "rm_wf rm" and chain: "\<And>i. i + 1 < length vs \<Longrightarrow> goes rm (vs ! (i + 1)) (vs ! i)"
    and turn: "distinct (turnoutsOf rm vs)"
  shows "i < j \<Longrightarrow> j < length vs \<Longrightarrow> \<not> opp rm (vs ! j) (vs ! i)"
proof (induction "j - i" arbitrary: i j rule: less_induct)
  case less
  show ?case
  proof
    assume o: "opp rm (vs ! j) (vs ! i)"
    obtain k where k: "j = Suc k" using less.prems by (cases j) auto
    have g: "goes rm (vs ! j) (vs ! k)" "goes rm (vs ! (i + 1)) (vs ! i)"
      using chain [of k] chain [of i] less.prems k by simp_all
    have ik: "i \<noteq> k" using goes_not_back [OF wf g(1)] o by auto
    show False
    proof (cases "isRailTurnout (rm_tileId rm (fst (vs ! i)))")
      case True
      obtain m c where "opp rm (vs ! j) (m, c)" "m = fst (vs ! k) \<or> rm_tileId rm m = RailLink"
        using g(1) unfolding goes_def by auto
      then have "vs ! i = (m, c)" using opp_facts(4) [OF wf o, of "(m, c)"] by simp
      moreover from this have "rm_tileId rm m \<noteq> RailLink" using True by (auto simp: isRailTurnout_def)
      ultimately have "fst (vs ! k) = fst (vs ! i)" using \<open>m = fst (vs ! k) \<or> rm_tileId rm m = RailLink\<close> by simp
      moreover have "distinct (turnoutsOf rm (map (\<lambda>n. vs ! n) [i, k]))"
      proof -
        have "i < k" using ik less.prems k by simp
        have "vs = take i vs @ vs ! i # drop (Suc i) vs" using less.prems by (simp add: id_take_nth_drop [symmetric])
        moreover have "drop (Suc i) vs = take (k - Suc i) (drop (Suc i) vs) @ vs ! k # drop (Suc k) vs"
        proof -
          have "k - Suc i < length (drop (Suc i) vs)" "drop (Suc i) vs ! (k - Suc i) = vs ! k"
            using \<open>i < k\<close> less.prems k by simp_all
          then show ?thesis using id_take_nth_drop [of "k - Suc i" "drop (Suc i) vs"] \<open>i < k\<close> by simp
        qed
        ultimately obtain a e f where "vs = a @ vs ! i # e @ vs ! k # f" by metis
        then have "turnoutsOf rm vs = turnoutsOf rm a @ turnoutsOf rm [vs ! i] @ turnoutsOf rm e @ turnoutsOf rm [vs ! k] @ turnoutsOf rm f"
          by (metis turnoutsOf_def append_Cons append_Nil filter_append map_append)
        then have "distinct (turnoutsOf rm [vs ! i] @ turnoutsOf rm [vs ! k])" using turn by auto
        then show ?thesis unfolding turnoutsOf_def by (auto simp: distinct_append split: if_splits)
      qed
      ultimately show False using True by (simp add: turnoutsOf_def)
    next
      case False
      have "opp rm (vs ! (i + 1)) (vs ! k)" by (rule goes_back [OF wf o g False])
      then have b: "opp rm (vs ! k) (vs ! (i + 1))" by (rule opp_facts(1) [OF wf])
      have "i + 1 \<noteq> k" using opp_facts(2) [OF wf b] by auto
      then have "i + 1 < k" using ik less.prems k by simp
      then show False using less.hyps [of k "i + 1"] b less.prems k by simp
    qed
  qed
qed

end
