(* ===== verification/Board_Found.thy ===== *)
theory Board_Found
  imports Board_Simple
begin

text \<open>Every route can be reserved: its tiles are of their kinds, and nothing on it is claimed twice.\<close>

section \<open>What a route has passed\<close>

text \<open>The tiles that a link passes have no connectors of their own.\<close>

definition links_passive :: "RailMap \<Rightarrow> bool" where
  "links_passive rm \<longleftrightarrow> (\<forall>l. \<forall>t \<in> set (rm_tiles rm l). connectors (rm_tileId rm t) = 0)"

lemma plain_of_connectors: "connectors (rm_tileId rm t) = 0 \<Longrightarrow> plainTile rm t"
  by (cases "rm_tileId rm t") (auto simp: plainTile_def connectors_def isRailTurnout_def isRailBridge_def isRailCross_def isRailSignal_def)

definition legOf :: "nat \<Rightarrow> BridgePath" where
  "legOf k = (if k mod 2 = 0 then BridgeAC else BridgeBD)"

text \<open>
  The connectors \<open>vs\<close> that a path has left by, the last first, what the path then has, and that each thing is
  there once.
\<close>

definition traced :: "RailMap \<Rightarrow> nat \<Rightarrow> BlockPath \<Rightarrow> (nat \<times> nat) list \<Rightarrow> bool" where
  "traced rm b p vs \<longleftrightarrow>
    (\<forall>i. i + 1 < length vs \<longrightarrow> goes rm (vs ! (i + 1)) (vs ! i)) \<and>
    map fst (bp_turnouts p) = rev (turnoutsOf rm vs) \<and> distinct (turnoutsOf rm vs) \<and>
    distinct (map fst (bp_crossings p)) \<and> distinct (bp_bridges p) \<and>
    (\<forall>m leg. (m, leg) \<in> set (bp_bridges p) \<longrightarrow> (\<exists>k < 4. (m, k) \<in> set vs \<and> leg = legOf k)) \<and>
    last vs = (b, if bp_fromSide p = SideA then 0 else 1)"

definition settable :: "RailMap \<Rightarrow> BlockPath \<Rightarrow> bool" where
  "settable rm p \<longleftrightarrow> (\<forall>(n, pos) \<in> set (bp_turnouts p). turnout_isValidPosition rm n pos)"

lemma moves_goes:
  assumes "node_getLink rm n i = Some l" and "otherEnd rm l (n, i) = (m, j)" and "moves rm b p n l m j p' q k"
  shows "goes rm (n, i) (q, k)"
proof -
  have "opp rm (n, i) (m, j)" using assms(1,2) by (simp add: opp_def)
  then show ?thesis using assms(3) unfolding goes_def moves_def by (intro exI [of _ m] exI [of _ j]) auto
qed

lemma tile_kinds:
  "isRailTurnout t \<Longrightarrow> \<not> isRailBridge t \<and> \<not> isRailCross t \<and> t \<noteq> RailBlock \<and> t \<noteq> RailLink"
  "isRailCross t \<Longrightarrow> \<not> isRailBridge t \<and> t \<noteq> RailBlock"
  "isRailBridge t \<Longrightarrow> t \<noteq> RailDirectionControl"
  by (auto simp: isRailTurnout_def isRailBridge_def isRailCross_def)

text \<open>What a move adds to the path, as far as it is claimed or set.\<close>

lemma moves_adds:
  assumes wf: "rm_wf rm" and "moves rm b p n l m j p' q k" and "j < connectors (rm_tileId rm m)"
  shows "map fst (bp_turnouts p') = map fst (bp_turnouts p) @ (if isRailTurnout (rm_tileId rm q) then [q] else [])"
    and "map fst (bp_crossings p') = map fst (bp_crossings p) \<or>
      map fst (bp_crossings p') = map fst (bp_crossings p) @ [q] \<and> q \<notin> fst ` set (bp_crossings p)"
    and "bp_bridges p' = bp_bridges p \<or>
      q = m \<and> j < 4 \<and> k = (j + 2) mod 4 \<and> bp_bridges p' = bp_bridges p @ [(q, legOf j)]"
    and "bp_fromBlock p' = bp_fromBlock p" and "bp_fromSide p' = bp_fromSide p"
    and "set (bp_turnouts p') = set (bp_turnouts p) \<or> (\<exists>pos. turnoutLeg (rm_tileId rm q) j k pos \<and>
      set (bp_turnouts p') = insert (q, pos) (set (bp_turnouts p)))"
proof -
  have kinds: "isRailTurnout (rm_tileId rm m) \<and> q = m \<and> m \<notin> fst ` set (bp_turnouts p) \<and>
      (\<exists>pos. turnoutLeg (rm_tileId rm m) j k pos \<and> p' = bp_addTurnout m pos (underLink rm l p)) \<or>
    \<not> isRailTurnout (rm_tileId rm q) \<and> q = m \<and> \<not> (isRailCross (rm_tileId rm m) \<and> m \<in> fst ` set (bp_crossings p)) \<and>
      through (rm_tileId rm m) j = Some k \<and> p' = passed b n m (rm_tileId rm m) j (underLink rm l p) \<or>
    \<not> isRailTurnout (rm_tileId rm q) \<and> p' = bp_addTile q (bp_addTile m (underLink rm l p))"
  proof -
    have "rm_linked rm m = Some q \<Longrightarrow> \<not> isRailTurnout (rm_tileId rm q)" using wf tile_kinds(1) unfolding rm_wf_def by metis
    then show ?thesis using assms(2) through_facts(2) unfolding moves_def by blast
  qed
  show "map fst (bp_turnouts p') = map fst (bp_turnouts p) @ (if isRailTurnout (rm_tileId rm q) then [q] else [])"
    using kinds by (elim disjE conjE exE) (simp_all add: bp_addTurnout_def bp_addTile_def passed_def underLink_def)
  show "map fst (bp_crossings p') = map fst (bp_crossings p) \<or>
      map fst (bp_crossings p') = map fst (bp_crossings p) @ [q] \<and> q \<notin> fst ` set (bp_crossings p)"
    using kinds by (elim disjE conjE exE) (auto simp: bp_addTurnout_def bp_addTile_def passed_def underLink_def)
  show "bp_bridges p' = bp_bridges p \<or>
      q = m \<and> j < 4 \<and> k = (j + 2) mod 4 \<and> bp_bridges p' = bp_bridges p @ [(q, legOf j)]"
  proof (cases "isRailBridge (rm_tileId rm m)")
    case True
    then have "j < 4" using assms(3) by (simp add: connectors_def)
    moreover have "through (rm_tileId rm m) j = Some ((j + 2) mod 4)" using True by (simp add: through_def)
    ultimately show ?thesis using kinds True tile_kinds(3) [OF True]
      by (elim disjE conjE exE) (simp_all add: bp_addTurnout_def bp_addTile_def passed_def underLink_def legOf_def)
  next
    case False
    then show ?thesis using kinds
      by (elim disjE conjE exE) (simp_all add: bp_addTurnout_def bp_addTile_def passed_def underLink_def)
  qed
  show "bp_fromBlock p' = bp_fromBlock p" "bp_fromSide p' = bp_fromSide p"
    using kinds by (elim disjE conjE exE; simp add: bp_addTurnout_def bp_addTile_def passed_def underLink_def)+
  show "set (bp_turnouts p') = set (bp_turnouts p) \<or> (\<exists>pos. turnoutLeg (rm_tileId rm q) j k pos \<and>
      set (bp_turnouts p') = insert (q, pos) (set (bp_turnouts p)))"
    using kinds by (elim disjE conjE exE) (auto simp: bp_addTurnout_def bp_addTile_def passed_def underLink_def)
qed

lemma traced_D:
  assumes "traced rm b p vs"
  shows "i + 1 < length vs \<Longrightarrow> goes rm (vs ! (i + 1)) (vs ! i)"
    and "map fst (bp_turnouts p) = rev (turnoutsOf rm vs)" and "distinct (turnoutsOf rm vs)"
    and "distinct (map fst (bp_crossings p))" and "distinct (bp_bridges p)"
    and "(c, leg) \<in> set (bp_bridges p) \<Longrightarrow> \<exists>k < 4. (c, k) \<in> set vs \<and> leg = legOf k"
    and "last vs = (b, if bp_fromSide p = SideA then 0 else 1)"
proof -
  note r1 = conjunct2 [OF assms [unfolded traced_def]]
  note r2 = conjunct2 [OF r1] note r3 = conjunct2 [OF r2] note r4 = conjunct2 [OF r3] note r5 = conjunct2 [OF r4]
  show "i + 1 < length vs \<Longrightarrow> goes rm (vs ! (i + 1)) (vs ! i)"
    using conjunct1 [OF assms [unfolded traced_def]] by blast
  show "map fst (bp_turnouts p) = rev (turnoutsOf rm vs)" by (rule conjunct1 [OF r1])
  show "distinct (turnoutsOf rm vs)" by (rule conjunct1 [OF r2])
  show "distinct (map fst (bp_crossings p))" by (rule conjunct1 [OF r3])
  show "distinct (bp_bridges p)" by (rule conjunct1 [OF r4])
  show "(c, leg) \<in> set (bp_bridges p) \<Longrightarrow> \<exists>k < 4. (c, k) \<in> set vs \<and> leg = legOf k"
    using conjunct1 [OF r5] by blast
  show "last vs = (b, if bp_fromSide p = SideA then 0 else 1)" by (rule conjunct2 [OF r5])
qed

text \<open>No connector that was left leads to the one that is left now, and none is left again.\<close>

lemma traced_new:
  assumes wf: "rm_wf rm" and tr: "traced rm b p vs" and v: "vs \<noteq> []" and "y \<in> set vs"
  shows "\<not> opp rm (hd vs) y"
proof
  assume o: "opp rm (hd vs) y"
  obtain k where k: "k < length vs" "y = vs ! k" using assms(4) by (metis in_set_conv_nth)
  have h: "hd vs = vs ! 0" using v by (simp add: hd_conv_nth)
  show False
  proof (cases k)
    case 0
    then show False using opp_facts(2) [OF wf o] k h by simp
  next
    case (Suc j)
    have "\<not> opp rm (vs ! k) (vs ! 0)"
      by (rule no_reverse [OF wf]) (use traced_D(1,3) [OF tr] k Suc in auto)
    then show False using opp_facts(1) [OF wf o] k h by simp
  qed
qed

lemma leg_ends: "(x :: nat) mod 2 = j mod 2 \<Longrightarrow> x < 4 \<Longrightarrow> j < 4 \<Longrightarrow> k = (j + 2) mod 4 \<Longrightarrow> x = j \<or> x = k"
proof -
  assume a: "x mod 2 = j mod 2" "x < 4" "j < 4" "k = (j + 2) mod 4"
  have "x = 0 \<or> x = 1 \<or> x = 2 \<or> x = 3" "j = 0 \<or> j = 1 \<or> j = 2 \<or> j = 3" using a(2,3) by auto
  then show ?thesis using a(1,4) by (elim disjE) simp_all
qed

lemma traced_move:
  assumes wf: "rm_wf rm" and tr: "traced rm b p vs" and v: "vs \<noteq> []" "hd vs = (n, i)" and new: "(q, k) \<notin> set vs"
    and l: "node_getLink rm n i = Some l" and e: "otherEnd rm l (n, i) = (m, j)" and mv: "moves rm b p n l m j p' q k"
  shows "traced rm b p' ((q, k) # vs)"
proof -
  have jc: "j < connectors (rm_tileId rm m)" using wf_size [OF wf wf_next(2) [OF wf l e]] by simp
  note ad = moves_adds [OF wf mv jc]
  have g: "goes rm (n, i) (q, k)" by (rule moves_goes [OF l e mv])
  note D = traced_D [OF tr]
  have chain: "goes rm (((q, k) # vs) ! (x + 1)) (((q, k) # vs) ! x)" if x: "x + 1 < length ((q, k) # vs)" for x
  proof (cases x)
    case 0
    then show ?thesis using g v by (simp add: hd_conv_nth [symmetric])
  next
    case (Suc y)
    then show ?thesis using D(1) [of y] x by simp
  qed
  have tn: "isRailTurnout (rm_tileId rm q) \<Longrightarrow> q \<notin> set (turnoutsOf rm vs)"
  proof -
    assume "isRailTurnout (rm_tileId rm q)"
    then have "q \<notin> fst ` set (bp_turnouts p)" using moves_facts(3) [OF wf mv] by blast
    moreover have "fst ` set (bp_turnouts p) = set (turnoutsOf rm vs)" using D(2) by (metis set_map set_rev)
    ultimately show ?thesis by simp
  qed
  have B': "distinct (bp_bridges p') \<and> (\<forall>c leg. (c, leg) \<in> set (bp_bridges p') \<longrightarrow> (\<exists>x < 4. (c, x) \<in> set ((q, k) # vs) \<and> leg = legOf x))"
    using ad(3)
  proof
    assume same: "bp_bridges p' = bp_bridges p"
    have "\<exists>x < 4. (c, x) \<in> set ((q, k) # vs) \<and> leg = legOf x" if "(c, leg) \<in> set (bp_bridges p)" for c leg
      using D(6) [OF that] by (elim exE conjE) (intro exI conjI, assumption, simp)
    then show ?thesis unfolding same using D(5) by blast
  next
    assume a: "q = m \<and> j < 4 \<and> k = (j + 2) mod 4 \<and> bp_bridges p' = bp_bridges p @ [(q, legOf j)]"
    have "(q, legOf j) \<notin> set (bp_bridges p)"
    proof
      assume "(q, legOf j) \<in> set (bp_bridges p)"
      then obtain x where x: "x < 4" "(q, x) \<in> set vs" "legOf j = legOf x" using D(6) by blast
      have "x mod 2 = j mod 2" using x(3) unfolding legOf_def by (simp split: if_splits)
      moreover have "j < 4" "k = (j + 2) mod 4" using a by blast+
      ultimately have "x = j \<or> x = k" using x(1) by (intro leg_ends)
      moreover have "x \<noteq> k" using x(2) new by (cases "x = k") simp_all
      moreover have "opp rm (hd vs) (m, j)" using l e v(2) by (simp add: opp_def)
      moreover have "\<not> opp rm (hd vs) (q, x)" by (rule traced_new [OF wf tr v(1) x(2)])
      ultimately show False using conjunct1 [OF a] by simp
    qed
    then have "distinct (bp_bridges p')" using a D(5) by simp
    have "k = (j + 2) mod 4" using a by blast
    then have k: "k < 4" "legOf j = legOf k" using mod_mod_cancel [of 2 4 "j + 2"] by (simp_all add: legOf_def)
    have "\<exists>x < 4. (c, x) \<in> set ((q, k) # vs) \<and> leg = legOf x" if "(c, leg) \<in> set (bp_bridges p')" for c leg
    proof (cases "(c, leg) \<in> set (bp_bridges p)")
      case True
      then show ?thesis using D(6) [OF True] by (elim exE conjE) (intro exI conjI, assumption, simp)
    next
      case False
      then have "c = q" "leg = legOf k" using that a k(2) by auto
      then show ?thesis using k(1) by (intro exI [of _ k]) simp
    qed
    then show ?thesis using \<open>distinct (bp_bridges p')\<close> by blast
  qed
  have C': "distinct (map fst (bp_crossings p'))"
    using ad(2) D(4) by (elim disjE conjE) (simp_all)
  have T': "map fst (bp_turnouts p') = rev (turnoutsOf rm ((q, k) # vs))" "distinct (turnoutsOf rm ((q, k) # vs))"
    using ad(1) D(2,3) tn by (simp_all add: turnoutsOf_def)
  have L': "last ((q, k) # vs) = (b, if bp_fromSide p' = SideA then 0 else 1)" using D(7) v(1) ad(5) by simp
  show ?thesis unfolding traced_def
    by (intro conjI allI impI T' C' L' conjunct1 [OF B'] conjunct2 [OF B', rule_format] chain)
qed

text \<open>The tiles are of their kinds.\<close>

definition typedOn :: "RailMap \<Rightarrow> BlockPath \<Rightarrow> bool" where
  "typedOn rm p \<longleftrightarrow> path_typed rm p \<and> bp_toBlock p = None \<and> settable rm p"

lemma typed_addTile: "plainTile rm n \<Longrightarrow> typedOn rm p \<Longrightarrow> typedOn rm (bp_addTile n p)"
  unfolding typedOn_def path_typed_def settable_def bp_addTile_def by simp

lemma typed_addTurnout:
  "plainTile rm n \<Longrightarrow> turnout_isValidPosition rm n pos \<Longrightarrow> typedOn rm p \<Longrightarrow> typedOn rm (bp_addTurnout n pos p)"
  unfolding typedOn_def path_typed_def settable_def bp_addTurnout_def by simp

lemma typed_underLink: "links_passive rm \<Longrightarrow> typedOn rm p \<Longrightarrow> typedOn rm (underLink rm l p)"
proof -
  assume a: "links_passive rm" "typedOn rm p"
  have "\<forall>t \<in> set (rm_tiles rm l). plainTile rm t" using a(1) plain_of_connectors unfolding links_passive_def by blast
  then show ?thesis using a(2) unfolding typedOn_def path_typed_def settable_def underLink_def by (simp add: ball_Un)
qed

lemma typed_passed:
  assumes "rm_tileId rm m \<noteq> RailBlock" and "typedOn rm p"
  shows "typedOn rm (passed b n m (rm_tileId rm m) j p)"
proof (cases "isRailBridge (rm_tileId rm m)")
  case True
  then show ?thesis using assms(2) tile_kinds(3) [OF True]
    unfolding typedOn_def path_typed_def settable_def passed_def by simp
next
  case False
  then have pl: "plainTile rm m" using assms(1) by (simp add: plainTile_def)
  show ?thesis
  proof (cases "isRailCross (rm_tileId rm m) \<or> rm_tileId rm m = RailDirectionControl")
    case True
    then show ?thesis using assms(2) False pl
      unfolding typedOn_def path_typed_def settable_def passed_def by (cases "rm_tileId rm m = RailDirectionControl") simp_all
  next
    case no: False
    show ?thesis
    proof (cases "isRailSignal (rm_tileId rm m) \<and> j = 0")
      case True
      then show ?thesis using assms(2) False pl no
        unfolding typedOn_def path_typed_def settable_def passed_def by simp
    next
      case ns: False
      show ?thesis
      proof (cases "rm_tileId rm m = RailNXButton \<and> n = b")
        case True
        then show ?thesis using assms(2) False pl no ns
          unfolding typedOn_def path_typed_def settable_def passed_def by (simp add: ball_Un)
      next
        case rest: False
        then have "passed b n m (rm_tileId rm m) j p = bp_addTile m p"
          unfolding passed_def using no ns False by auto
        then show ?thesis using typed_addTile [OF pl assms(2)] by simp
      qed
    qed
  qed
qed

lemma typed_move:
  assumes wf: "rm_wf rm" and lp: "links_passive rm" and ty: "typedOn rm p" and mv: "moves rm b p n l m j p' q k"
  shows "typedOn rm p'"
proof -
  note u = typed_underLink [OF lp ty, of l]
  have "rm_linked rm m = Some q \<Longrightarrow> rm_tileId rm q = RailLink" using wf unfolding rm_wf_def by blast
  then have "isRailTurnout (rm_tileId rm m) \<and>
        (\<exists>pos. turnoutLeg (rm_tileId rm m) j k pos \<and> p' = bp_addTurnout m pos (underLink rm l p)) \<or>
      through (rm_tileId rm m) j = Some k \<and> p' = passed b n m (rm_tileId rm m) j (underLink rm l p) \<or>
      rm_tileId rm m = RailLink \<and> rm_tileId rm q = RailLink \<and> p' = bp_addTile q (bp_addTile m (underLink rm l p))"
    using mv unfolding moves_def by blast
  then show ?thesis
  proof (elim disjE conjE exE)
    fix pos
    assume a: "isRailTurnout (rm_tileId rm m)" "turnoutLeg (rm_tileId rm m) j k pos" "p' = bp_addTurnout m pos (underLink rm l p)"
    have "plainTile rm m" using tile_kinds(1) [OF a(1)] by (simp add: plainTile_def)
    moreover have "turnout_isValidPosition rm m pos"
      using turnoutLeg_turnout(5) [OF a(2)] by (simp add: turnout_isValidPosition_def)
    ultimately show ?thesis using typed_addTurnout u a(3) by blast
  next
    assume a: "through (rm_tileId rm m) j = Some k" "p' = passed b n m (rm_tileId rm m) j (underLink rm l p)"
    show ?thesis using typed_passed [OF through_facts(3) [OF a(1)] u] a(2) by blast
  next
    assume a: "rm_tileId rm m = RailLink" "rm_tileId rm q = RailLink" "p' = bp_addTile q (bp_addTile m (underLink rm l p))"
    then have "plainTile rm m" "plainTile rm q" by (simp_all add: plainTile_def isRailBridge_def)
    then show ?thesis using typed_addTile u a(3) by blast
  qed
qed

section \<open>The routes\<close>

lemma travel_traced:
  assumes wf: "rm_wf rm" and lp: "links_passive rm" and b: "rm_tileId rm b = RailBlock"
  shows "travel rm b p n i \<Longrightarrow> \<exists>vs. history rm b p n i vs \<and> traced rm b p vs \<and> typedOn rm p \<and> bp_fromBlock p = b"
proof -
  have start: "\<exists>vs. history rm b (BlockPath_new b side) b i vs \<and> traced rm b (BlockPath_new b side) vs \<and>
      typedOn rm (BlockPath_new b side) \<and>
      bp_fromBlock (BlockPath_new b side) = b"
    if "i = (if side = SideA then 0 else 1)" for side i
  proof (intro exI [of _ "[(b, i)]"] conjI)
    show "history rm b (BlockPath_new b side) b i [(b, i)]" by (rule history_start) (simp add: BlockPath_new_def)
    have "turnoutsOf rm [(b, i)] = []" using b by (simp add: turnoutsOf_def isRailTurnout_def)
    then show "traced rm b (BlockPath_new b side) [(b, i)]" using that by (simp add: traced_def BlockPath_new_def)
  qed (use b in \<open>simp_all add: typedOn_def path_typed_def BlockPath_new_def settable_def\<close>)
  have step: "\<exists>vs. history rm b p' q k vs \<and> traced rm b p' vs \<and> typedOn rm p' \<and> bp_fromBlock p' = b"
    if l: "node_getLink rm n i = Some l" and e: "otherEnd rm l (n, i) = (m, j)" and mv: "moves rm b p n l m j p' q k"
      and ih: "\<exists>vs. history rm b p n i vs \<and> traced rm b p vs \<and> typedOn rm p \<and> bp_fromBlock p = b"
    for n i l m j p p' q k
  proof -
    obtain vs where vs: "history rm b p n i vs" "traced rm b p vs" "typedOn rm p"
      "bp_fromBlock p = b" using ih by blast
    have h: "history rm b p' q k ((q, k) # vs)" by (rule history_move [OF vs(1) l e mv])
    have new: "(q, k) \<notin> set vs" using history_distinct(3) [OF wf h b] by simp
    have jc: "j < connectors (rm_tileId rm m)" using wf_size [OF wf wf_next(2) [OF wf l e]] by simp
    note hv = history_distinct(1,2) [OF wf vs(1) b]
    show ?thesis
      using h traced_move [OF wf vs(2) hv new l e mv] typed_move [OF wf lp vs(3) mv]
        moves_adds(4) [OF wf mv jc] vs(4) by auto
  qed
  show "travel rm b p n i \<Longrightarrow> \<exists>vs. history rm b p n i vs \<and> traced rm b p vs \<and> typedOn rm p \<and> bp_fromBlock p = b"
  proof (induction rule: travel.induct)
    case travel_A
    then show ?case by (rule start) simp
  next
    case travel_B
    then show ?case by (rule start) simp
  next
    case (travel_turnout p n i l m j k pos)
    then show ?case
      by (intro step [of n i l m j p "bp_addTurnout m pos (underLink rm l p)" m k]) (auto simp: moves_def)
  next
    case (travel_through p n i l m j k)
    then show ?case
      by (intro step [of n i l m j p "passed b n m (rm_tileId rm m) j (underLink rm l p)" m k]) (auto simp: moves_def)
  next
    case (travel_link p n i l m j q)
    then show ?case
      by (intro step [of n i l m j p "bp_addTile q (bp_addTile m (underLink rm l p))" q 0]) (auto simp: moves_def)
  qed
qed

text \<open>A route is typed, its turnouts can be set as it wants, and it claims nothing twice.\<close>

lemma route_claims:
  assumes wf: "rm_wf rm" and lp: "links_passive rm" and b: "rm_tileId rm b = RailBlock" and "route rm b r"
  shows "path_typed rm r" and "settable rm r" and "path_simple r" and "bp_fromBlock r = b"
proof -
  obtain p n i l m j where r: "travel rm b p n i" "node_getLink rm n i = Some l" "otherEnd rm l (n, i) = (m, j)"
    "rm_tileId rm m = RailBlock" "r = arrived rm n m j (underLink rm l p)" using assms(4) unfolding route_def by blast
  obtain vs where vs: "history rm b p n i vs" "traced rm b p vs" "typedOn rm p" "bp_fromBlock p = b"
    using travel_traced [OF wf lp b r(1)] by blast
  note h = history_distinct(1,2) [OF wf vs(1) b] and D = traced_D [OF vs(2)]
  have ty: "typedOn rm (underLink rm l p)" by (rule typed_underLink [OF lp vs(3)])
  have "rm_tileId rm n = RailNXButton \<Longrightarrow> plainTile rm n" by (simp add: plainTile_def isRailBridge_def)
  then show "path_typed rm r" "settable rm r"
    using ty r(4) unfolding r(5) arrived_def typedOn_def path_typed_def settable_def by (simp_all add: ball_Un)
  show "bp_fromBlock r = b" using vs(4) by (simp add: r(5) arrived_def underLink_def)
  have "j < 2" using wf_size(1) [OF wf wf_next(2) [OF wf r(2,3)]] r(4)
    by (simp add: connectors_def isRailTurnout_def isRailBridge_def isRailCross_def isRailSignal_def)
  have side: "(if j = 0 then SideA else SideB) \<noteq> bp_fromSide p" if "m = b"
  proof
    assume "(if j = 0 then SideA else SideB) = bp_fromSide p"
    then have "(m, j) = last vs" using D(7) that \<open>j < 2\<close> by (cases "j = 0") auto
    then have "\<not> opp rm (hd vs) (m, j)" using traced_new [OF wf vs(2) h(1), of "(m, j)"] h(1) by simp
    then show False using r(2,3) h(2) by (simp add: opp_def)
  qed
  have "distinct (map fst (bp_turnouts p))" using D(2,3) by simp
  then show "path_simple r" using D(4,5) side vs(4)
    unfolding path_simple_def r(5) arrived_def underLink_def by auto
qed

end
