(* ===== verification/Board_Runs.thy ===== *)
theory Board_Runs
  imports Board_Found
begin

text \<open>
  Every operation of the board keeps the invariant and every claim that is taken: nothing but reserving a
  path touches the reservations.
\<close>

section \<open>Reservations left alone\<close>

definition sameClaims :: "RailState \<Rightarrow> RailState \<Rightarrow> bool" where
  "sameClaims s s' \<longleftrightarrow> rl_reserved s' = rl_reserved s \<and> rl_crossState s' = rl_crossState s"

text \<open>An operation of the trains: the invariant stays but for the blocks in \<open>X\<close>.\<close>

definition rail_kept :: "nat set \<Rightarrow> RailState \<Rightarrow> RailState \<Rightarrow> bool" where
  "rail_kept X s s' \<longleftrightarrow> sameClaims s s' \<and> (rail_inv X s \<longrightarrow> rail_inv X s')"

lemma rail_keptI:
  "rl_reserved s' = rl_reserved s \<Longrightarrow> rl_crossState s' = rl_crossState s \<Longrightarrow> (rail_inv X s \<Longrightarrow> rail_inv X s') \<Longrightarrow> rail_kept X s s'"
  by (simp add: rail_kept_def sameClaims_def)

lemma rail_kept_refl [simp]: "rail_kept X s s"
  by (simp add: rail_kept_def sameClaims_def)

lemma rail_kept_trans [trans]: "rail_kept X s t \<Longrightarrow> rail_kept X t u \<Longrightarrow> rail_kept X s u"
  by (simp add: rail_kept_def sameClaims_def)

lemma taken_same: "sameClaims s s' \<Longrightarrow> taken s' c = taken s c"
  by (cases c) (simp_all add: sameClaims_def)

lemma kept_events [simp]:
  "rail_kept X s (rl_event e s') = rail_kept X s s'" "rail_kept X s (setTrain t f s') = rail_kept X s s'"
  by (simp_all add: rail_kept_def sameClaims_def)

lemma kept_updateState: "rail_kept X s (updateState b s)"
  by (rule rail_keptI) (simp_all add: updateState_inv rail_inv_mono [of X s "insert b X"] subset_insertI)

lemma kept_blockRemove: "rail_kept X s (blockRemove b i s)"
  unfolding blockRemove_def by (intro rail_keptI setBlock_inv) (auto dest: in_set_takeD notin_set_remove1 set_remove1_subset [THEN subsetD])

lemma kept_inputs: "(\<And>t. bt_trains (f t) = bt_trains t) \<Longrightarrow> (\<And>t. bt_state (f t) = bt_state t) \<Longrightarrow> rail_kept X s (setBlock b f s)"
  by (intro rail_keptI setBlock_inv) auto

lemma kept_statuses: "(\<And>i. ts_block (f i) = ts_block (rl_statuses s i)) \<Longrightarrow> rail_kept X s (s\<lparr>rl_statuses := f\<rparr>)"
  by (intro rail_keptI) (simp_all add: rail_inv_def)

section \<open>Trains in blocks\<close>

lemma kept_destroy:
  assumes "destroyStatus i s = Some s'"
  shows "rail_kept X s s'"
proof -
  have "rail_kept X s (s\<lparr>rl_statuses := (rl_statuses s)(i := (rl_statuses s i)\<lparr>ts_dying := True\<rparr>)\<rparr>)"
    by (rule kept_statuses) simp
  also have "rail_kept X \<dots> (blockRemove (ts_block (rl_statuses s i)) i
      (s\<lparr>rl_statuses := (rl_statuses s)(i := (rl_statuses s i)\<lparr>ts_dying := True\<rparr>)\<rparr>))"
    by (rule kept_blockRemove)
  finally show ?thesis
    using assms by (auto simp: destroyStatus_def Let_def trainRemove_def split: if_splits option.splits)
qed

lemma kept_left:
  assumes "tracking_left i s = Some s'"
  shows "rail_kept X s s'"
proof -
  obtain t where t: "ts_train (rl_statuses s i) = Some t"
    "destroyStatus i (rl_event (TrainLeft (ts_block (rl_statuses s i)) t (ts_direction (rl_statuses s i)))
      (updateState (ts_block (rl_statuses s i)) (blockRemove (ts_block (rl_statuses s i)) i (trainRemove t i s)))) = Some s'"
    using assms by (auto simp: tracking_left_def Let_def split: option.splits)
  have "rail_kept X s (trainRemove t i s)" by (simp add: trainRemove_def)
  also have "rail_kept X \<dots> (blockRemove (ts_block (rl_statuses s i)) i (trainRemove t i s))" by (rule kept_blockRemove)
  also have "rail_kept X \<dots> (updateState (ts_block (rl_statuses s i)) (blockRemove (ts_block (rl_statuses s i)) i (trainRemove t i s)))"
    by (rule kept_updateState)
  finally have "rail_kept X s (rl_event (TrainLeft (ts_block (rl_statuses s i)) t (ts_direction (rl_statuses s i)))
      (updateState (ts_block (rl_statuses s i)) (blockRemove (ts_block (rl_statuses s i)) i (trainRemove t i s))))" by simp
  also note kept_destroy [OF t(2)]
  finally show ?thesis .
qed

lemma kept_releaseTails:
  assumes "releaseTails t s = Some s'"
  shows "rail_kept X s s'"
proof (rule releaseTails.raw_induct [where P = "\<lambda>t s s'. rail_kept X s s'", OF _ assms])
  fix rel t s s'
  assume ih: "\<And>t s s'. rel t s = Some s' \<Longrightarrow> rail_kept X s s'"
    and body: "(let bs = tr_blocks (rl_trains s t) in
     if 1 < length bs \<and> bt_state (rl_blocks s (ts_block (rl_statuses s (last bs)))) = BsReserved
     then Option.bind (tracking_left (last bs) s) (rel t)
     else Some s) = Some s'"
  show "rail_kept X s s'"
  proof (cases "1 < length (tr_blocks (rl_trains s t)) \<and>
      bt_state (rl_blocks s (ts_block (rl_statuses s (last (tr_blocks (rl_trains s t)))))) = BsReserved")
    case True
    then obtain u where "tracking_left (last (tr_blocks (rl_trains s t))) s = Some u" "rel t u = Some s'"
      using body by (auto simp: Let_def bind_eq_Some_conv)
    then show ?thesis using kept_left ih rail_kept_trans by blast
  next
    case False
    then show ?thesis using body by (auto simp: Let_def)
  qed
qed

lemma kept_enterStatus:
  assumes "tracking_enterStatus i s = Some s'"
  shows "rail_kept X s s'"
proof -
  obtain t u where "releaseTails t (rl_event (TrainEntered (ts_block (rl_statuses s i)) t (ts_direction (rl_statuses s i)))
      (setTrain t (\<lambda>r. r\<lparr>tr_blocks := i # tr_blocks r\<rparr>) s)) = Some u"
    and s': "s' = u\<lparr>rl_dangling := rl_dangling u \<or> ts_dying (rl_statuses u i)\<rparr>"
    using assms by (auto simp: tracking_enterStatus_def Let_def split: option.splits)
  have "rail_inv Y (u\<lparr>rl_dangling := b\<rparr>) = rail_inv Y u" for Y b by (simp add: rail_inv_def)
  then show ?thesis using kept_releaseTails [OF \<open>releaseTails t _ = Some u\<close>, of X]
    by (simp add: s' rail_kept_def sameClaims_def)
qed

lemma new_status_same:
  "sameClaims s (appendStatus b (rl_nextStatus s) (snd (createStatus b t i d s)))"
  by (simp add: sameClaims_def appendStatus_def createStatus_def)

lemma enter_inv:
  assumes "tracking_enter train b d s = Some s'"
  shows "sameClaims s s'" and "rail_inv X s \<Longrightarrow> rail_inv (insert b X) s'"
proof -
  let ?s = "appendStatus b (rl_nextStatus s) (snd (createStatus b (Some train) None d s))"
  have e: "tracking_enterStatus (rl_nextStatus s) ?s = Some s'"
    using assms by (simp add: tracking_enter_def createStatus_def)
  have k: "rail_kept (insert b X) ?s s'" by (rule kept_enterStatus [OF e])
  show "sameClaims s s'" using k new_status_same [of s b "Some train" None d] by (simp add: rail_kept_def sameClaims_def)
  show "rail_inv X s \<Longrightarrow> rail_inv (insert b X) s'" using k newStatus_inv [of X s b] by (simp add: rail_kept_def)
qed

section \<open>The operations\<close>

text \<open>\<open>occupiedBy\<close> may leave the block for \<open>updateState\<close>.\<close>

lemma kept_occupied:
  assumes "occupiedBy ps b i s = Some s'"
  shows "sameClaims s s'" and "rail_inv X s \<Longrightarrow> rail_inv (insert b X) s'"
proof -
  have same: "sameClaims s s" by (simp add: sameClaims_def)
  have mono: "rail_inv X s \<Longrightarrow> rail_inv (insert b X) s" by (rule rail_inv_mono) auto
  have enter: "sameClaims s s' \<and> (rail_inv X s \<longrightarrow> rail_inv (insert b X) s')" if "tracking_enterStatus j s = Some s'" for j
    using kept_enterStatus [OF that, of "insert b X"] mono by (simp add: rail_kept_def)
  have "sameClaims s s' \<and> (rail_inv X s \<longrightarrow> rail_inv (insert b X) s')"
  proof (cases "s' = s")
    case True
    then show ?thesis using same mono by simp
  next
    case False
    then consider j where "tracking_enterStatus j s = Some s'" | train d where "tracking_enter train b d s = Some s'"
      using assms by (auto simp: occupiedBy_def Let_def split: BlockState.splits if_splits option.splits)
    then show ?thesis using enter enter_inv by cases blast+
  qed
  then show "sameClaims s s'" "rail_inv X s \<Longrightarrow> rail_inv (insert b X) s'" by blast+
qed

lemma kept_freed: "freedBy b s = Some s' \<Longrightarrow> rail_kept X s s'"
  using kept_left by (auto simp: freedBy_def split: list.splits option.splits if_splits)

lemma kept_input:
  assumes "inputItemValueChanged ps b i s = Some s'"
  shows "rail_kept X s s'"
proof -
  let ?f = "\<lambda>t. t\<lparr>bt_sensorStates := if length (bt_inputs t) \<noteq> length (bt_sensorStates t) then bt_inputs t
            else (bt_sensorStates t)[i := bt_inputs (rl_blocks s b) ! i]\<rparr>"
  obtain u where u: "(if bt_inputs (rl_blocks s b) ! i = SsOccupied then occupiedBy ps b i s else Some s) = Some u"
    "(if bt_inputs (rl_blocks s b) ! i = SsFree \<and> bt_state (rl_blocks (updateState b (setBlock b ?f u)) b) = BsReserved
      then freedBy b (updateState b (setBlock b ?f u)) else Some (updateState b (setBlock b ?f u))) = Some s'"
    using assms unfolding inputItemValueChanged_def by (auto simp: Let_def bind_eq_Some_conv)
  have "rail_kept (insert b X) s u \<or> sameClaims s u \<and> (rail_inv X s \<longrightarrow> rail_inv (insert b X) u)"
    using u(1) kept_occupied(1) [of ps b i s u] kept_occupied(2) [of ps b i s u X] by (auto split: if_splits)
  then have a: "sameClaims s u" "rail_inv X s \<Longrightarrow> rail_inv (insert b X) u"
    using rail_inv_mono [of X s "insert b X"] by (auto simp: rail_kept_def)
  have "rail_kept (insert b X) u (setBlock b ?f u)" by (rule kept_inputs) simp_all
  then have b: "sameClaims u (setBlock b ?f u)" "rail_inv (insert b X) u \<Longrightarrow> rail_inv (insert b X) (setBlock b ?f u)"
    by (simp_all add: rail_kept_def)
  have "rail_kept X s (updateState b (setBlock b ?f u))"
    using a b updateState_inv [of b X "setBlock b ?f u"] by (simp add: rail_kept_def sameClaims_def)
  also have "rail_kept X (updateState b (setBlock b ?f u)) s'"
    using u(2) kept_freed [of b "updateState b (setBlock b ?f u)" s' X] by (simp split: if_splits)
  finally show ?thesis .
qed

lemma kept_setValue:
  assumes "BlockInputMapItem_setValue ps b i v s = Some s'"
  shows "rail_kept X s s'"
proof (cases "bt_inputs (rl_blocks s b) ! i = v")
  case True
  then show ?thesis using assms by (simp add: BlockInputMapItem_setValue_def)
next
  case False
  have "rail_kept X s (setBlock b (\<lambda>t. t\<lparr>bt_inputs := (bt_inputs t)[i := v]\<rparr>) s)" by (rule kept_inputs) simp_all
  then show ?thesis
    using assms False kept_input rail_kept_trans by (auto simp: BlockInputMapItem_setValue_def)
qed

lemma rail_inv_except: "rail_inv (insert b X) s \<Longrightarrow> bt_state (rl_blocks s b) \<noteq> BsFree \<Longrightarrow> rail_inv X s"
  unfolding rail_inv_def by (metis insert_iff)

lemma kept_new:
  assumes "bt_state (rl_blocks s b) = BsFree \<or> bt_state (rl_blocks s b) = BsUnknown \<Longrightarrow> upd"
  shows "rail_kept X s (if upd then updateState b (appendStatus b (rl_nextStatus s) (snd (createStatus b t i d s)))
    else appendStatus b (rl_nextStatus s) (snd (createStatus b t i d s)))"
proof (cases upd)
  case True
  then show ?thesis
    using new_status_same [of s b t i d] updateState_inv [OF newStatus_inv, of X s b t i d] by (simp add: rail_kept_def sameClaims_def)
next
  case False
  let ?s = "appendStatus b (rl_nextStatus s) (snd (createStatus b t i d s))"
  have "bt_state (rl_blocks ?s b) = bt_state (rl_blocks s b)" by (simp add: appendStatus_def createStatus_def)
  moreover have "bt_state (rl_blocks s b) \<noteq> BsFree" using False assms by blast
  ultimately have "rail_inv X s \<Longrightarrow> rail_inv X ?s"
    using rail_inv_except [OF newStatus_inv, of X s b t i d] by simp
  then show ?thesis using False new_status_same [of s b t i d] by (simp add: rail_kept_def)
qed

lemma kept_identification:
  assumes "identificationEvent b ev n d s = Some s'"
  shows "rail_kept X s s'"
proof (cases "bt_trains (rl_blocks s b) = []")
  case True
  then show ?thesis
    using assms kept_new [of s b "bt_state (rl_blocks s b) = BsFree \<or> bt_state (rl_blocks s b) = BsUnknown" X None "Some n" "blockDirection d"]
    by (auto simp: identificationEvent_def Let_def case_prod_unfold createStatus_def split: if_splits)
next
  case False
  then consider "s' = s" | j u where "destroyStatus j s = Some u" "s' = updateState b u"
    using assms by (auto simp: identificationEvent_def Let_def split: if_splits option.splits)
  then show ?thesis using kept_destroy kept_updateState rail_kept_trans by cases (simp, blast)
qed

lemma createStatus_setTrain:
  "appendStatus b i (setTrain t f s) = setTrain t f (appendStatus b i s)"
  by (simp add: appendStatus_def setTrain_def setBlock_def)

lemma updateState_setTrain: "updateState b (setTrain t f s) = setTrain t f (updateState b s)"
  by (simp add: updateState_alt setBlockState_def setTrain_def setBlock_def rl_event_def)

lemma kept_assign: "rail_kept X s (assignTrain act b t s)"
proof -
  define u where "u = (if act then setTrain t (\<lambda>r. r\<lparr>tr_active := True\<rparr>) s else s)"
  define upd where "upd \<longleftrightarrow> bt_state (rl_blocks s b) = BsFree \<or> bt_state (rl_blocks s b) = BsUnknown"
  define n where "n = appendStatus b (rl_nextStatus u)
    (snd (createStatus b (Some t) None (if tr_direction (rl_trains u t) = DirReverse then TowardsB else TowardsA) u))"
  have u: "rail_kept X s u" "rl_blocks u = rl_blocks s" by (simp_all add: u_def)
  have n: "rail_kept X u (if upd then updateState b n else n)"
    unfolding n_def by (rule kept_new) (simp add: upd_def u(2))
  have alt: "assignTrain act b t s =
    (if bt_trains (rl_blocks s b) \<noteq> [] then s
     else if \<not> tr_active (rl_trains u t) \<or> tr_blocks (rl_trains u t) \<noteq> [] then u
     else rl_event (TrainAssigned b t) (setTrain t (\<lambda>r. r\<lparr>tr_blocks := tr_blocks r @ [rl_nextStatus u]\<rparr>)
       (if upd then updateState b n else n)))"
    unfolding assignTrain_def u_def [symmetric] n_def upd_def
    by (simp add: Let_def createStatus_def createStatus_setTrain updateState_setTrain)
  show ?thesis unfolding alt using rail_kept_trans [OF u(1) n] u(1) by simp
qed

lemma kept_remove:
  assumes "removeTrain b s = Some s'"
  shows "rail_kept X s s'"
proof (cases "s' = s")
  case False
  then obtain j t u where u: "destroyStatus j s = Some u"
    and s': "s' = rl_event (TrainRemoved b t) u \<or> s' = rl_event (TrainRemoved b t) (updateState b u)"
    using assms unfolding removeTrain_def
    by (simp add: Let_def bind_eq_Some_conv split: list.splits option.splits if_splits) blast+
  show ?thesis using rail_kept_trans [OF kept_destroy [OF u] kept_updateState] kept_destroy [OF u] s' by auto
qed simp

lemma kept_flipStatus: "rail_kept X s (flipStatus j s)"
  unfolding flipStatus_def by (rule kept_statuses) simp

lemma kept_flip: "flipTrain b s = Some s' \<Longrightarrow> rail_kept X s s'"
proof -
  assume "flipTrain b s = Some s'"
  then have "s' = s \<or> (\<exists>j. s' = flipStatus j s)"
    by (auto simp: flipTrain_def flipStatus_def split: list.splits option.splits if_splits)
  then show ?thesis using kept_flipStatus by auto
qed

lemma kept_setDirection: "rail_kept X s (Train_setDirection t d s)"
proof -
  have "rail_kept X u (fold flipStatus js u)" for js u
  proof (induction js arbitrary: u)
    case (Cons j js)
    then show ?case using kept_flipStatus rail_kept_trans by (simp, blast)
  qed simp
  from this [of "setTrain t (\<lambda>r. r\<lparr>tr_direction := d\<rparr>) s"] show ?thesis
    by (simp add: Train_setDirection_def) (simp add: rail_kept_def sameClaims_def)
qed

lemma kept_setFree: "rail_kept X s (snd (setStateFree b s))"
proof -
  have "rail_kept X s (setBlockState b BsFree s)" if "bt_trains (rl_blocks s b) = []"
    using that by (intro rail_keptI) (auto simp: rail_inv_def)
  then show ?thesis by (simp add: setStateFree_def)
qed

lemma kept_tiles:
  "rail_kept X s (snd (turnout_doSetPosition rm n p sk s))" "rail_kept X s (snd (control_setState ds n d s))"
  "rail_kept X s (snd (control_toggle ds n s))"
  by (auto simp: turnout_doSetPosition_def control_setState_def control_toggle_def rail_kept_def sameClaims_def rail_inv_def Let_def
    split: DirectionControlState.split)

section \<open>The board\<close>

definition path_ok :: "RailMap \<Rightarrow> BlockPath \<Rightarrow> bool" where
  "path_ok rm p \<longleftrightarrow> path_typed rm p \<and> path_simple p"

definition board_inv :: "RailMap \<Rightarrow> BoardState \<Rightarrow> bool" where
  "board_inv rm bd \<longleftrightarrow> rail_inv {} (bd_rail bd) \<and> (\<forall>b. \<forall>p \<in> set (bd_paths bd b). path_ok rm p)"

text \<open>A map on which the search finds paths that can be reserved.\<close>

definition map_ok :: "RailMap \<Rightarrow> bool" where
  "map_ok rm \<longleftrightarrow> rm_wf rm \<and> links_passive rm"

text \<open>What a step grants: nothing, or a path of which nothing was taken before and everything is after.\<close>

definition grants :: "RailMap \<Rightarrow> BlockPath option \<Rightarrow> RailState \<Rightarrow> RailState \<Rightarrow> bool" where
  "grants rm r s s' \<longleftrightarrow> (\<forall>c. claim_typed rm c \<longrightarrow> taken s c \<longrightarrow> taken s' c) \<and>
    (\<forall>p. r = Some p \<longrightarrow> path_ok rm p \<and> (\<forall>c \<in> claims p. \<not> taken s c \<and> taken s' c))"

lemma grants_none: "sameClaims s s' \<Longrightarrow> grants rm None s s'"
  by (simp add: grants_def taken_same)

lemma grants_trans:
  assumes "grants rm None s t" and "grants rm r t u"
  shows "grants rm r s u"
proof -
  have "path_ok rm p \<and> (\<forall>c \<in> claims p. \<not> taken s c \<and> taken u c)" if "r = Some p" for p
  proof -
    have p: "path_ok rm p" "\<forall>c \<in> claims p. \<not> taken t c \<and> taken u c" using assms(2) that by (simp_all add: grants_def)
    then have "claim_typed rm c" if "c \<in> claims p" for c using claims_typed that unfolding path_ok_def by blast
    then show ?thesis using p assms(1) unfolding grants_def by blast
  qed
  then show ?thesis using assms unfolding grants_def by blast
qed

lemma select_grants:
  assumes "nx_select rm b from to ps s = Some (r, s')" and "rail_inv {} s" and "\<forall>p \<in> set ps. path_ok rm p"
  shows "rail_inv {} s' \<and> grants rm r s s'"
  using assms
proof (induction ps arbitrary: s)
  case Nil
  then show ?case by (simp add: grants_def)
next
  case (Cons p ps)
  have ok: "path_typed rm p" "path_simple p" using Cons.prems(3) by (simp_all add: path_ok_def)
  consider "nx_select rm b from to ps s = Some (r, s')"
    | train g u where "BlockPath_reserve rm p train s = Some (g, u)"
      "if g then r = Some p \<and> s' = u else nx_select rm b from to ps u = Some (r, s')"
    using Cons.prems(1) by (auto simp: Let_def split: if_splits option.splits prod.splits bool.splits)
  then show ?case
  proof cases
    case 1
    then show ?thesis using Cons by simp
  next
    case 2
    note inv = BlockPath_reserve_inv [OF Cons.prems(2) ok 2(1)]
    note alt = BlockPath_reserve_alt [OF Cons.prems(2) ok, of train]
    show ?thesis
    proof (cases g)
      case True
      then have d: "dryOk rm p train s" and u: "u = reserveTiles p (runTiles rm p (runBlocks p train s))"
        using 2(1) unfolding alt by (simp_all split: if_splits)
      note gr = granted [OF Cons.prems(2) ok d]
      have "r = Some p" "s' = u" using 2(2) True by simp_all
      then show ?thesis using inv gr(1-3) ok unfolding grants_def u path_ok_def by auto
    next
      case False
      then have "u = s" using 2(1) unfolding alt by (simp split: if_splits)
      then show ?thesis using Cons.IH [of s] 2(2) False Cons.prems by simp
    qed
  qed
qed

lemma selectPath_grants:
  assumes "nx_selectPath rm from to bd = Some (r, bd')" and "board_inv rm bd"
  shows "board_inv rm bd' \<and> grants rm r (bd_rail bd) (bd_rail bd')"
  using assms select_grants by (auto simp: nx_selectPath_def board_inv_def split: option.splits)

lemma try_grants:
  assumes "nx_try rm bs button bd = Some (r, bd')" and "board_inv rm bd"
  shows "board_inv rm bd' \<and> grants rm r (bd_rail bd) (bd_rail bd')"
  using assms
proof (induction bs arbitrary: bd)
  case Nil
  then show ?case by (auto simp: grants_def board_inv_def)
next
  case (Cons f bs)
  then obtain g u where g: "nx_selectPath rm f button bd = Some (g, u)" by (auto split: option.splits)
  note s = selectPath_grants [OF g Cons.prems(2)]
  show ?case
  proof (cases g)
    case None
    then show ?thesis using Cons.IH [of u] Cons.prems(1) g s grants_trans by (auto simp del: split_paired_All)
  next
    case (Some p)
    then show ?thesis using Cons.prems(1) g s by (auto simp: nx_released_def board_inv_def)
  qed
qed

lemma addPathsIn_fields: "addPathsIn ps bd = Some bd' \<Longrightarrow> bd_rail bd' = bd_rail bd \<and> bd_paths bd' = bd_paths bd"
  by (induction ps arbitrary: bd) (fastforce simp: addPathIn_def bind_eq_Some_conv split: option.splits)+

lemma keepPaths_sub: "keepPaths ps qs = (kept, new) \<Longrightarrow> set kept \<subseteq> set qs \<and> set new \<subseteq> set qs"
proof (induction ps arbitrary: qs kept)
  case (Cons p ps)
  show ?case
  proof (cases "p \<in> set qs")
    case True
    obtain k n where k: "keepPaths ps (remove1 p qs) = (k, n)" by fastforce
    with True Cons.prems have "kept = p # k" "new = n" by auto
    then show ?thesis using Cons.IH [of "remove1 p qs" k] k True set_remove1_subset [of p qs] by auto
  next
    case False
    then show ?thesis using Cons by simp
  qed
qed simp

lemma update_grants:
  assumes "map_ok rm" and "rm_tileId rm b = RailBlock" and "updatePaths rm b bd = Some bd'" and "board_inv rm bd"
  shows "board_inv rm bd' \<and> grants rm None (bd_rail bd) (bd_rail bd')"
proof -
  obtain qs where qs: "BlockPath_find rm b = Some qs" "set qs = {f. route rm b f}"
    using find_routes [OF _ assms(2)] assms(1) unfolding map_ok_def by blast
  obtain kept new where k: "keepPaths (bd_paths bd b) qs = (kept, new)" by fastforce
  have "bd_rail bd' = bd_rail bd" "bd_paths bd' = (bd_paths bd)(b := kept @ new)"
    using assms(3) qs(1) k addPathsIn_fields by (auto simp: updatePaths_def)
  moreover have "path_ok rm p" if "p \<in> set kept \<union> set new" for p
  proof -
    have "route rm b p" using that keepPaths_sub [OF k] qs(2) by auto
    then show ?thesis using route_claims assms(1,2) unfolding map_ok_def path_ok_def by blast
  qed
  ultimately show ?thesis using assms(4) unfolding board_inv_def grants_def by auto
qed

lemma onRail_grants:
  assumes "onRail f bd = Some (r, bd')" and "\<And>s'. f (bd_rail bd) = Some s' \<Longrightarrow> rail_kept {} (bd_rail bd) s'" and "board_inv rm bd"
  shows "board_inv rm bd' \<and> grants rm r (bd_rail bd) (bd_rail bd')"
proof -
  obtain s' where s: "f (bd_rail bd) = Some s'" "r = None" "bd' = bd\<lparr>bd_rail := s'\<rparr>"
    using assms(1) by (auto simp: onRail_def)
  then show ?thesis using assms(2) [OF s(1)] assms(3) grants_none by (simp add: rail_kept_def board_inv_def)
qed

lemma grants_same: "board_inv rm bd \<Longrightarrow> bd_rail bd' = bd_rail bd \<Longrightarrow> bd_paths bd' = bd_paths bd \<Longrightarrow>
    board_inv rm bd' \<and> grants rm None (bd_rail bd) (bd_rail bd')"
  by (simp add: board_inv_def grants_def)

lemma pressed_grants:
  assumes "nx_pressed rm n bd = Some (r, bd')" and "board_inv rm bd"
  shows "board_inv rm bd' \<and> grants rm r (bd_rail bd) (bd_rail bd')"
proof (cases "bd_run bd")
  case True
  then show ?thesis using assms try_grants by (simp add: nx_pressed_def split: if_splits)
next
  case False
  then show ?thesis using assms grants_same [OF assms(2), of bd] by (simp add: nx_pressed_def)
qed

lemma input_grants:
  assumes "nx_inputValueChanged rm n v bd = Some (r, bd')" and "board_inv rm bd"
  shows "board_inv rm bd' \<and> grants rm r (bd_rail bd) (bd_rail bd')"
proof -
  have "(r = None \<and> (bd' = bd \<or> bd' = nx_released n bd)) \<or> nx_pressed rm n bd = Some (r, bd')"
    using assms(1) unfolding nx_inputValueChanged_def by (cases "bd_nxBlock bd n = None \<or> \<not> bd_run bd"; cases v) simp_all
  then show ?thesis
  proof (elim disjE conjE)
    assume "r = None" "bd' = bd"
    then show ?thesis using grants_same [OF assms(2), of bd] by simp
  next
    assume "r = None" "bd' = nx_released n bd"
    then show ?thesis using grants_same [OF assms(2), of "nx_released n bd"] by (simp add: nx_released_def)
  next
    assume "nx_pressed rm n bd = Some (r, bd')"
    then show ?thesis using pressed_grants assms(2) by blast
  qed
qed

lemma step_grants:
  assumes mp: "map_ok rm" and st: "board_step rm a bd = Some (r, bd')" and inv: "board_inv rm bd"
  shows "board_inv rm bd' \<and> grants rm r (bd_rail bd) (bd_rail bd')"
proof (cases a)
  case (SensorOp b i v)
  then show ?thesis using st onRail_grants [OF _ kept_setValue inv] by (simp add: board_step_def split: if_splits)
next
  case (IdentificationOp b ev n d)
  then show ?thesis using st onRail_grants [OF _ kept_identification inv] by (simp add: board_step_def)
next
  case (AssignOp act b t)
  then show ?thesis using st onRail_grants [OF _ _ inv, where f = "\<lambda>s. Some (assignTrain act b t s)"] kept_assign
    by (simp add: board_step_def)
next
  case (RemoveOp b)
  then show ?thesis using st onRail_grants [OF _ kept_remove inv] by (simp add: board_step_def)
next
  case (FlipOp b)
  then show ?thesis using st onRail_grants [OF _ kept_flip inv] by (simp add: board_step_def)
next
  case (SetFreeOp b)
  then show ?thesis using st onRail_grants [OF _ _ inv, where f = "\<lambda>s. Some (snd (setStateFree b s))"] kept_setFree
    by (simp add: board_step_def)
next
  case (DirectionOp t d)
  then show ?thesis using st onRail_grants [OF _ _ inv, where f = "\<lambda>s. Some (Train_setDirection t d s)"] kept_setDirection
    by (simp add: board_step_def)
next
  case (MovesOp t moves)
  then show ?thesis
    using st onRail_grants [OF _ _ inv, where f = "\<lambda>s. Some (setTrain t (\<lambda>r. r\<lparr>tr_isStopped := \<not> moves\<rparr>) s)"]
    by (simp add: board_step_def)
next
  case (TurnoutOp n p sk)
  then show ?thesis
    using st onRail_grants [OF _ _ inv, where f = "\<lambda>s. Some (snd (turnout_doSetPosition rm n p sk s))"] kept_tiles(1)
    by (simp add: board_step_def)
next
  case (ControlOp ds n d)
  then show ?thesis
    using st onRail_grants [OF _ _ inv, where f = "\<lambda>s. Some (snd (control_setState ds n d s))"] kept_tiles(2)
    by (simp add: board_step_def)
next
  case (ToggleOp ds n)
  then show ?thesis
    using st onRail_grants [OF _ _ inv, where f = "\<lambda>s. Some (snd (control_toggle ds n s))"] kept_tiles(3)
    by (simp add: board_step_def)
next
  case (ButtonInputOp n v)
  then show ?thesis using st input_grants inv by (simp add: board_step_def)
next
  case (SelectOp f g)
  then show ?thesis using st selectPath_grants inv grants_same [OF inv, of bd] by (simp add: board_step_def split: if_splits)
next
  case (RunOp run)
  then show ?thesis using st grants_same [OF inv, of bd'] by (auto simp: board_step_def)
next
  case (UpdateOp b)
  then show ?thesis using st update_grants [OF mp] inv by (auto simp: board_step_def split: if_splits)
next
  case (ButtonOp n)
  then show ?thesis
    using st grants_same [OF inv, of bd'] by (auto simp: board_step_def nx_boardModified_def bind_eq_Some_conv)
qed

section \<open>Runs\<close>

text \<open>
  What holds of every system that grants what needs things: if a step takes nothing that is held, holds what
  it grants, and lets go of nothing, no two grants of a run need the same thing.
\<close>

fun granting_run :: "('a \<Rightarrow> 's \<Rightarrow> ('p option \<times> 's) option) \<Rightarrow> 'a list \<Rightarrow> 's \<Rightarrow> ('p list \<times> 's) option" where
  "granting_run step [] s = Some ([], s)"
| "granting_run step (a # as) s =
    do { (p, s) \<leftarrow> step a s;
         (ps, s) \<leftarrow> granting_run step as s;
         Some ((case p of None \<Rightarrow> [] | Some p \<Rightarrow> [p]) @ ps, s) }"

locale granting =
  fixes step :: "'a \<Rightarrow> 's \<Rightarrow> ('p option \<times> 's) option" and inv :: "'s \<Rightarrow> bool"
    and held :: "'s \<Rightarrow> 'c \<Rightarrow> bool" and needs :: "'p \<Rightarrow> 'c set"
  assumes inv_step: "inv s \<Longrightarrow> step a s = Some (r, s') \<Longrightarrow> inv s'"
    and keeps_step: "inv s \<Longrightarrow> step a s = Some (r, s') \<Longrightarrow> held s c \<Longrightarrow> held s' c"
    and grants_step: "inv s \<Longrightarrow> step a s = Some (Some p, s') \<Longrightarrow> c \<in> needs p \<Longrightarrow> \<not> held s c \<and> held s' c"
begin

lemma run_exclusive:
  "inv s \<Longrightarrow> granting_run step as s = Some (ps, s') \<Longrightarrow>
    inv s' \<and> (\<forall>c. held s c \<longrightarrow> held s' c) \<and> sorted_wrt (\<lambda>p q. needs p \<inter> needs q = {}) ps \<and>
    (\<forall>p \<in> set ps. \<forall>c \<in> needs p. \<not> held s c \<and> held s' c)"
proof (induction as arbitrary: s ps)
  case (Cons a as)
  then obtain r u qs where a: "step a s = Some (r, u)" "granting_run step as u = Some (qs, s')"
    "ps = (case r of None \<Rightarrow> [] | Some p \<Rightarrow> [p]) @ qs"
    by (auto simp: bind_eq_Some_conv)
  note ih = Cons.IH [OF inv_step [OF Cons.prems(1) a(1)] a(2)]
  note kept = keeps_step [OF Cons.prems(1) a(1)]
  have rest: "\<forall>c \<in> needs p. \<not> held s c \<and> held s' c" if "p \<in> set qs" for p using ih that kept by blast
  show ?case
  proof (cases r)
    case None
    then show ?thesis using ih kept rest a(3) by simp
  next
    case (Some p)
    then have p: "\<forall>c \<in> needs p. \<not> held s c \<and> held u c" using grants_step Cons.prems(1) a(1) by blast
    then have "\<forall>c \<in> needs p. held s' c" "\<forall>q \<in> set qs. needs p \<inter> needs q = {}" using ih by blast+
    then show ?thesis using ih kept rest p a(3) Some by auto
  qed
qed simp

end

text \<open>The board is such a system.\<close>

interpretation board: granting "board_step rm" "\<lambda>bd. map_ok rm \<and> board_inv rm bd"
  "\<lambda>bd c. claim_typed rm c \<and> taken (bd_rail bd) c" claims for rm
proof unfold_locales
  fix bd a r bd' c p
  assume i: "map_ok rm \<and> board_inv rm bd" and s: "board_step rm a bd = Some (r, bd')"
  note g = step_grants [OF conjunct1 [OF i] s conjunct2 [OF i]]
  show "map_ok rm \<and> board_inv rm bd'" using g i by blast
  show "claim_typed rm c \<and> taken (bd_rail bd) c \<Longrightarrow> claim_typed rm c \<and> taken (bd_rail bd') c"
    using g unfolding grants_def by blast
next
  fix bd a p bd' c
  assume i: "map_ok rm \<and> board_inv rm bd" and s: "board_step rm a bd = Some (Some p, bd')" and c: "c \<in> claims p"
  have "path_ok rm p \<and> \<not> taken (bd_rail bd) c \<and> taken (bd_rail bd') c"
    using step_grants [OF conjunct1 [OF i] s conjunct2 [OF i]] c unfolding grants_def by blast
  then show "\<not> (claim_typed rm c \<and> taken (bd_rail bd) c) \<and> (claim_typed rm c \<and> taken (bd_rail bd') c)"
    using claims_typed [OF _ c] unfolding path_ok_def by blast
qed

lemma board_run_granting: "board_run rm ops bd = granting_run (board_step rm) ops bd"
  by (induction ops arbitrary: bd) simp_all

lemma run_paths_ok:
  assumes "map_ok rm"
  shows "board_run rm ops bd = Some (ps, bd') \<Longrightarrow> board_inv rm bd \<Longrightarrow> \<forall>p \<in> set ps. path_ok rm p"
proof (induction ops arbitrary: bd ps)
  case (Cons a ops)
  then obtain r u qs where a: "board_step rm a bd = Some (r, u)" "board_run rm ops u = Some (qs, bd')"
    "ps = (case r of None \<Rightarrow> [] | Some p \<Rightarrow> [p]) @ qs"
    by (auto simp: bind_eq_Some_conv)
  note g = step_grants [OF assms a(1) Cons.prems(2)]
  then have "\<forall>p \<in> set qs. path_ok rm p" using Cons.IH [OF a(2)] by blast
  then show ?case using g a(3) unfolding grants_def by (cases r) auto
qed simp

text \<open>Over a run, the paths that are granted have nothing in common, and what was taken stays.\<close>

lemma run_grants:
  assumes "map_ok rm" and "board_run rm ops bd = Some (ps, bd')" and "board_inv rm bd"
  shows "board_inv rm bd' \<and> (\<forall>c. claim_typed rm c \<longrightarrow> taken (bd_rail bd) c \<longrightarrow> taken (bd_rail bd') c) \<and>
    sorted_wrt (\<lambda>p q. claims p \<inter> claims q = {}) ps \<and>
    (\<forall>p \<in> set ps. path_ok rm p \<and> (\<forall>c \<in> claims p. \<not> taken (bd_rail bd) c \<and> taken (bd_rail bd') c))"
proof -
  note b = board.run_exclusive [of rm bd ops ps bd', OF conjI [OF assms(1,3)] assms(2) [unfolded board_run_granting]]
  have ok: "\<forall>p \<in> set ps. path_ok rm p" by (rule run_paths_ok [OF assms])
  have "claim_typed rm c" if "p \<in> set ps" "c \<in> claims p" for p c
    using ok that claims_typed unfolding path_ok_def by blast
  then show ?thesis using b ok by blast
qed

end
