(* ===== verification/Board_Trains.thy ===== *)
theory Board_Trains
  imports Board_Runs
begin

text \<open>A train that comes into a block that is reserved for it: the block is its head, reserved blocks at its tail are left.\<close>

section \<open>Leaving a block\<close>

text \<open>A status that is alive and belongs to its train.\<close>

definition statusOf :: "nat \<Rightarrow> RailState \<Rightarrow> nat \<Rightarrow> bool" where
  "statusOf t s i \<longleftrightarrow> ts_train (rl_statuses s i) = Some t \<and> \<not> ts_dying (rl_statuses s i)"

lemma left_exact:
  assumes "statusOf t s i"
  shows "\<exists>s'. tracking_left i s = Some s' \<and>
    tr_blocks (rl_trains s' t) = remove1 i (remove1 i (tr_blocks (rl_trains s t))) \<and>
    (\<forall>j. j \<noteq> i \<longrightarrow> rl_statuses s' j = rl_statuses s j) \<and>
    (\<forall>b. bt_inputs (rl_blocks s' b) = bt_inputs (rl_blocks s b)) \<and>
    (\<forall>b. bt_trains (rl_blocks s' b) = (if b = ts_block (rl_statuses s i)
      then remove1 i (remove1 i (bt_trains (rl_blocks s b))) else bt_trains (rl_blocks s b))) \<and>
    set (rl_events s) \<subseteq> set (rl_events s') \<and>
    TrainLeft (ts_block (rl_statuses s i)) t (ts_direction (rl_statuses s i)) \<in> set (rl_events s') \<and>
    ts_dying (rl_statuses s' i) \<and> rl_dangling s' = rl_dangling s"
proof -
  let ?b = "ts_block (rl_statuses s i)"
  let ?u = "rl_event (TrainLeft ?b t (ts_direction (rl_statuses s i))) (updateState ?b (blockRemove ?b i (trainRemove t i s)))"
  let ?v = "trainRemove t i (blockRemove ?b i (?u\<lparr>rl_statuses := (rl_statuses ?u)(i := (rl_statuses ?u i)\<lparr>ts_dying := True\<rparr>)\<rparr>))"
  have st: "rl_statuses ?u = rl_statuses s" by (simp add: blockRemove_def trainRemove_def)
  have "destroyStatus i ?u = Some ?v"
    unfolding destroyStatus_def Let_def st using assms by (simp add: statusOf_def)
  then have "tracking_left i s = Some ?v" using assms by (simp add: tracking_left_def Let_def statusOf_def)
  moreover have "set (rl_events s) \<subseteq> set (rl_events ?v)" "TrainLeft ?b t (ts_direction (rl_statuses s i)) \<in> set (rl_events ?v)"
    by (auto simp: trainRemove_def blockRemove_def setTrain_def setBlock_def rl_event_def updateState_alt setBlockState_def)
  moreover have "rl_dangling ?v = rl_dangling s"
    by (simp add: trainRemove_def blockRemove_def setTrain_def setBlock_def rl_event_def updateState_alt setBlockState_def)
  ultimately show ?thesis
    by (intro exI [of _ ?v]) (simp add: blockRemove_def trainRemove_def)
qed

text \<open>The loop ends, with the blocks up to the last that is not just reserved.\<close>

lemma releaseTails_ends:
  assumes "distinct (tr_blocks (rl_trains s t))" and "\<forall>i \<in> set (tr_blocks (rl_trains s t)). statusOf t s i"
  shows "\<exists>s' n. releaseTails t s = Some s' \<and> tr_blocks (rl_trains s' t) = take n (tr_blocks (rl_trains s t)) \<and>
    (tr_blocks (rl_trains s t) \<noteq> [] \<longrightarrow> 0 < n) \<and>
    (1 < length (tr_blocks (rl_trains s' t)) \<longrightarrow>
      bt_state (rl_blocks s' (ts_block (rl_statuses s' (last (tr_blocks (rl_trains s' t)))))) \<noteq> BsReserved) \<and>
    (\<forall>b. bt_inputs (rl_blocks s' b) = bt_inputs (rl_blocks s b)) \<and>
    (\<forall>b. \<forall>i \<in> set (take n (tr_blocks (rl_trains s t))). i \<in> set (bt_trains (rl_blocks s b)) \<longrightarrow> i \<in> set (bt_trains (rl_blocks s' b))) \<and>
    set (rl_events s) \<subseteq> set (rl_events s') \<and>
    (\<forall>i \<in> set (take n (tr_blocks (rl_trains s t))). rl_statuses s' i = rl_statuses s i) \<and> rl_dangling s' = rl_dangling s"
  using assms
proof (induction "length (tr_blocks (rl_trains s t))" arbitrary: s rule: less_induct)
  case less
  let ?bs = "tr_blocks (rl_trains s t)"
  show ?case
  proof (cases "1 < length ?bs \<and> bt_state (rl_blocks s (ts_block (rl_statuses s (last ?bs)))) = BsReserved")
    case False
    then have "releaseTails t s = Some s" by (subst releaseTails.simps) (auto simp: Let_def)
    then show ?thesis using False by (intro exI [of _ s] exI [of _ "length ?bs"]) auto
  next
    case True
    then have ne: "?bs \<noteq> []" by auto
    then have lst: "last ?bs \<in> set ?bs" by simp
    have own: "statusOf t s (last ?bs)" using less.prems(2) lst by blast
    obtain u where u: "tracking_left (last ?bs) s = Some u"
      "tr_blocks (rl_trains u t) = remove1 (last ?bs) (remove1 (last ?bs) ?bs)"
      "\<And>j. j \<noteq> last ?bs \<Longrightarrow> rl_statuses u j = rl_statuses s j" "\<And>b. bt_inputs (rl_blocks u b) = bt_inputs (rl_blocks s b)"
      "\<And>b. bt_trains (rl_blocks u b) = (if b = ts_block (rl_statuses s (last ?bs))
        then remove1 (last ?bs) (remove1 (last ?bs) (bt_trains (rl_blocks s b))) else bt_trains (rl_blocks s b))"
      "set (rl_events s) \<subseteq> set (rl_events u)" "rl_dangling u = rl_dangling s"
      using left_exact [OF own] by blast
    have split: "?bs = butlast ?bs @ [last ?bs]" using ne by simp
    then have nin: "last ?bs \<notin> set (butlast ?bs)"
      using less.prems(1) by (metis distinct_append distinct.simps(2) disjoint_iff list.set_intros(1))
    have "remove1 (last ?bs) ?bs = butlast ?bs"
      using nin by (subst (2) split) (simp add: remove1_append del: append_butlast_last_id)
    then have tb: "tr_blocks (rl_trains u t) = butlast ?bs" using u(2) nin by (simp add: remove1_idem)
    have "distinct (butlast ?bs)" using less.prems(1) by (rule distinct_butlast)
    moreover have "\<forall>i \<in> set (butlast ?bs). statusOf t u i"
      using less.prems(2) nin u(3) in_set_butlastD unfolding statusOf_def by metis
    moreover have "length (butlast ?bs) < length ?bs" using ne by simp
    ultimately obtain s' n where s': "releaseTails t u = Some s'" "tr_blocks (rl_trains s' t) = take n (butlast ?bs)"
      "butlast ?bs \<noteq> [] \<longrightarrow> 0 < n"
      "1 < length (tr_blocks (rl_trains s' t)) \<longrightarrow>
        bt_state (rl_blocks s' (ts_block (rl_statuses s' (last (tr_blocks (rl_trains s' t)))))) \<noteq> BsReserved"
      "\<forall>b. bt_inputs (rl_blocks s' b) = bt_inputs (rl_blocks u b)"
      "\<forall>b. \<forall>i \<in> set (take n (butlast ?bs)). i \<in> set (bt_trains (rl_blocks u b)) \<longrightarrow> i \<in> set (bt_trains (rl_blocks s' b))"
      "set (rl_events u) \<subseteq> set (rl_events s')"
      "\<forall>i \<in> set (take n (butlast ?bs)). rl_statuses s' i = rl_statuses u i" "rl_dangling s' = rl_dangling u"
      using less.hyps [of u, unfolded tb] by blast
    have tk: "take n (butlast ?bs) = take (min n (length ?bs - 1)) ?bs" by (simp add: butlast_conv_take)
    have bl: "butlast ?bs \<noteq> []" using True by (cases ?bs) auto
    have "releaseTails t s = Some s'" using True u(1) s'(1) by (subst releaseTails.simps) (simp add: Let_def)
    moreover have "i \<in> set (bt_trains (rl_blocks s' b))"
      if "i \<in> set (take n (butlast ?bs))" "i \<in> set (bt_trains (rl_blocks s b))" for i b
    proof -
      have "i \<noteq> last ?bs" using that(1) nin in_set_takeD by metis
      then have "i \<in> set (bt_trains (rl_blocks u b))" using that(2) u(5) [of b] by (auto simp: in_set_remove1)
      then show ?thesis using s'(6) that(1) by blast
    qed
    moreover have "0 < min n (length ?bs - 1)" using s'(3) bl True by simp
    moreover have "set (rl_events s) \<subseteq> set (rl_events s')" using s'(7) u(6) by blast
    moreover have "bt_inputs (rl_blocks s' b) = bt_inputs (rl_blocks s b)" for b using s'(5) u(4) by simp
    moreover have "rl_statuses s' i = rl_statuses s i" if "i \<in> set (take n (butlast ?bs))" for i
      using that s'(8) u(3) nin in_set_takeD by metis
    moreover have "rl_dangling s' = rl_dangling s" using s'(9) u(7) by simp
    ultimately show ?thesis
      using s'(2,4) unfolding tk by (intro exI [of _ s'] exI [of _ "min n (length ?bs - 1)"]) blast
  qed
qed

section \<open>Coming into a reserved block\<close>

text \<open>
  The sensor \<open>i\<close> of a reserved block is the first, with a reserved path into side A, or the last, with one into
  side B, and not both; the train on that side has the status \<open>j\<close>.
\<close>

definition expected :: "nat \<Rightarrow> nat \<Rightarrow> BlockSide \<Rightarrow> nat \<Rightarrow> nat \<Rightarrow> RailState \<Rightarrow> bool" where
  "expected b i side t j s \<longleftrightarrow>
    (let k = rl_blocks s b;
         enterA = (i = 0 \<and> leadsTo (bt_reservedPaths k SideA) b s);
         enterB = (i + 1 = length (bt_inputs k) \<and> leadsTo (bt_reservedPaths k SideB) b s)
     in bt_state k = BsReserved \<and> i < length (bt_inputs k) \<and> bt_inputs k ! i \<noteq> SsOccupied \<and>
       enterA \<noteq> enterB \<and> side = (if enterA then SideA else SideB) \<and>
       bt_trains k \<noteq> [] \<and> j = (if side = SideA then hd (bt_trains k) else last (bt_trains k)) \<and> statusOf t s j)"

lemma expectedD:
  assumes "expected b i side t j s"
  shows "bt_state (rl_blocks s b) = BsReserved" "i < length (bt_inputs (rl_blocks s b))"
    "bt_inputs (rl_blocks s b) ! i \<noteq> SsOccupied" "statusOf t s j" "j \<in> set (bt_trains (rl_blocks s b))"
  using assms by (auto simp: expected_def Let_def)

lemma scan_occupied:
  "scanInputs (xs @ SsOccupied # ys) = (if scanInputs xs = None then None else Some BsOccupied)"
proof (induction xs)
  case (Cons x xs)
  then show ?case by (cases x) auto
qed simp

lemma setValue_expected:
  assumes "expected b i side t j s"
  shows "BlockInputMapItem_setValue ps b i SsOccupied s =
    map_option (\<lambda>u. updateState b (setBlock b (\<lambda>t. t\<lparr>bt_sensorStates :=
      if length (bt_inputs t) \<noteq> length (bt_sensorStates t) then bt_inputs t else (bt_sensorStates t)[i := SsOccupied]\<rparr>) u))
      (tracking_enterStatus j (setBlock b (\<lambda>t. t\<lparr>bt_inputs := (bt_inputs t)[i := SsOccupied]\<rparr>) s))"
proof -
  let ?s = "setBlock b (\<lambda>t. t\<lparr>bt_inputs := (bt_inputs t)[i := SsOccupied]\<rparr>) s"
  note e = expectedD [OF assms]
  have lead: "leadsTo p b ?s = leadsTo p b s" for p by (simp add: leadsTo_def bp_to_def split: option.split)
  have "occupiedBy ps b i ?s = tracking_enterStatus j ?s"
    using assms lead by (auto simp: occupiedBy_def expected_def Let_def)
  moreover have "bt_inputs (rl_blocks ?s b) ! i = SsOccupied" using e(2) by simp
  ultimately show ?thesis using e(3)
    by (cases "tracking_enterStatus j ?s")
      (simp_all add: BlockInputMapItem_setValue_def inputItemValueChanged_def Let_def)
qed

text \<open>The state of the block afterwards: a sensor before this one that is unknown hides that it is occupied.\<close>

lemma state_occupied:
  assumes "bt_inputs (rl_blocks w b) = xs[i := SsOccupied]" and "i < length xs"
  shows "bt_state (rl_blocks (updateState b w) b) =
    (if scanInputs (take i xs) = None then if bt_trains (rl_blocks w b) = [] then BsUnknown else BsReserved else BsOccupied)"
proof -
  have "xs[i := SsOccupied] = take i xs @ SsOccupied # drop (Suc i) xs" using assms(2) by (simp add: upd_conv_take_nth_drop)
  then show ?thesis by (simp add: stateOf_def assms(1) scan_occupied)
qed

lemma enters_expected:
  assumes e: "expected b i side t j s" and d: "distinct (j # tr_blocks (rl_trains s t))"
    and st: "\<forall>i \<in> set (tr_blocks (rl_trains s t)). statusOf t s i"
  shows "\<exists>s' n. BlockInputMapItem_setValue ps b i SsOccupied s = Some s' \<and> 0 < n \<and>
    tr_blocks (rl_trains s' t) = take n (j # tr_blocks (rl_trains s t)) \<and> j \<in> set (bt_trains (rl_blocks s' b)) \<and>
    bt_state (rl_blocks s' b) = (if scanInputs (take i (bt_inputs (rl_blocks s b))) = None then BsReserved else BsOccupied) \<and>
    TrainEntered (ts_block (rl_statuses s j)) t (ts_direction (rl_statuses s j)) \<in> set (rl_events s') \<and>
    rl_dangling s' = rl_dangling s"
proof -
  let ?s = "setBlock b (\<lambda>t. t\<lparr>bt_inputs := (bt_inputs t)[i := SsOccupied]\<rparr>) s"
  let ?ev = "TrainEntered (ts_block (rl_statuses s j)) t (ts_direction (rl_statuses s j))"
  let ?u = "rl_event ?ev (setTrain t (\<lambda>r. r\<lparr>tr_blocks := j # tr_blocks r\<rparr>) ?s)"
  note j = expectedD(4) [OF e] and jb = expectedD(5) [OF e] and len = expectedD(2) [OF e]
  have u: "tr_blocks (rl_trains ?u t) = j # tr_blocks (rl_trains s t)" by simp
  have "\<forall>i \<in> set (tr_blocks (rl_trains ?u t)). statusOf t ?u i" unfolding u using st j by (simp add: statusOf_def)
  then obtain v n where v: "releaseTails t ?u = Some v" "tr_blocks (rl_trains v t) = take n (j # tr_blocks (rl_trains s t))" "0 < n"
    "\<forall>b. bt_inputs (rl_blocks v b) = bt_inputs (rl_blocks ?u b)"
    "\<forall>b. \<forall>i \<in> set (take n (j # tr_blocks (rl_trains s t))). i \<in> set (bt_trains (rl_blocks ?u b)) \<longrightarrow> i \<in> set (bt_trains (rl_blocks v b))"
    "set (rl_events ?u) \<subseteq> set (rl_events v)"
    "\<forall>i \<in> set (take n (j # tr_blocks (rl_trains s t))). rl_statuses v i = rl_statuses ?u i" "rl_dangling v = rl_dangling ?u"
    using releaseTails_ends [of ?u t] d unfolding u by blast
  have jn: "j \<in> set (take n (j # tr_blocks (rl_trains s t)))" using v(3) by (cases n) simp_all
  have alive: "\<not> ts_dying (rl_statuses v j)" using v(7) jn j by (simp add: statusOf_def)
  let ?v = "v\<lparr>rl_dangling := rl_dangling v\<rparr>"
  have ts: "tracking_enterStatus j ?s = Some ?v"
    using v(1) j alive by (simp add: tracking_enterStatus_def statusOf_def Let_def)
  let ?f = "\<lambda>t. t\<lparr>bt_sensorStates := if length (bt_inputs t) \<noteq> length (bt_sensorStates t) then bt_inputs t
    else (bt_sensorStates t)[i := SsOccupied]\<rparr>"
  let ?w = "setBlock b ?f ?v"
  have set: "BlockInputMapItem_setValue ps b i SsOccupied s = Some (updateState b ?w)"
    unfolding setValue_expected [OF e] ts by simp
  have "j \<in> set (bt_trains (rl_blocks ?u b))" using jb by simp
  then have jv: "j \<in> set (bt_trains (rl_blocks v b))" using v(5) jn by blast
  have inp: "bt_inputs (rl_blocks ?w b) = (bt_inputs (rl_blocks s b))[i := SsOccupied]" using v(4) by simp
  have "bt_trains (rl_blocks ?w b) \<noteq> []" using jv by auto
  then have occ: "bt_state (rl_blocks (updateState b ?w) b) =
      (if scanInputs (take i (bt_inputs (rl_blocks s b))) = None then BsReserved else BsOccupied)"
    unfolding state_occupied [OF inp len] by simp
  have "?ev \<in> set (rl_events (updateState b ?w))"
  proof -
    have "?ev \<in> set (rl_events v)" using v(6) by (auto simp: rl_event_def)
    then show ?thesis by (simp add: updateState_alt setBlockState_def setBlock_def rl_event_def)
  qed
  moreover have "rl_dangling (updateState b ?w) = rl_dangling s"
    using v(8) by (simp add: updateState_alt setBlockState_def setBlock_def rl_event_def setTrain_def)
  ultimately show ?thesis
    using set v(2,3) occ jv by (intro exI [of _ "updateState b ?w"] exI [of _ n]) simp
qed

text \<open>
  The same sensor again, while the train is already there: the status comes into the train's blocks twice, is
  taken away as its own tail, and then used.
\<close>

lemma flicker_loses:
  assumes e: "expected b i side t j s" and bl: "tr_blocks (rl_trains s t) = [j]" and sb: "ts_block (rl_statuses s j) = b"
    and d: "distinct (bt_trains (rl_blocks s b))"
  shows "\<exists>s'. BlockInputMapItem_setValue ps b i SsOccupied s = Some s' \<and> rl_dangling s' \<and> tr_blocks (rl_trains s' t) = [] \<and>
    j \<notin> set (bt_trains (rl_blocks s' b)) \<and> ts_dying (rl_statuses s' j)"
proof -
  let ?s = "setBlock b (\<lambda>t. t\<lparr>bt_inputs := (bt_inputs t)[i := SsOccupied]\<rparr>) s"
  let ?u = "rl_event (TrainEntered b t (ts_direction (rl_statuses s j))) (setTrain t (\<lambda>r. r\<lparr>tr_blocks := j # tr_blocks r\<rparr>) ?s)"
  note j = expectedD(4) [OF e] and res = expectedD(1) [OF e] and len = expectedD(2) [OF e]
  have u: "tr_blocks (rl_trains ?u t) = [j, j]" "statusOf t ?u j" "ts_block (rl_statuses ?u j) = b" "bt_state (rl_blocks ?u b) = BsReserved"
    using bl j sb res by (simp_all add: statusOf_def)
  obtain v where v: "tracking_left j ?u = Some v"
    "tr_blocks (rl_trains v t) = remove1 j (remove1 j (tr_blocks (rl_trains ?u t)))"
    "\<And>c. bt_trains (rl_blocks v c) = (if c = ts_block (rl_statuses ?u j) then remove1 j (remove1 j (bt_trains (rl_blocks ?u c)))
      else bt_trains (rl_blocks ?u c))"
    "ts_dying (rl_statuses v j)"
    using left_exact [OF u(2)] by blast
  have v2: "tr_blocks (rl_trains v t) = []" using v(2) unfolding u(1) by simp
  have "releaseTails t v = Some v" by (subst releaseTails.simps) (simp add: v2)
  moreover have "releaseTails t ?u = Option.bind (tracking_left j ?u) (releaseTails t)"
    by (subst releaseTails.simps) (simp add: Let_def bl sb res)
  ultimately have "releaseTails t ?u = Some v" using v(1) by simp
  then have ts: "tracking_enterStatus j ?s = Some (v\<lparr>rl_dangling := True\<rparr>)"
    using j sb v(4) by (simp add: tracking_enterStatus_def statusOf_def Let_def)
  let ?w = "setBlock b (\<lambda>t. t\<lparr>bt_sensorStates := if length (bt_inputs t) \<noteq> length (bt_sensorStates t) then bt_inputs t
    else (bt_sensorStates t)[i := SsOccupied]\<rparr>) (v\<lparr>rl_dangling := True\<rparr>)"
  have set: "BlockInputMapItem_setValue ps b i SsOccupied s = Some (updateState b ?w)"
    unfolding setValue_expected [OF e] ts by simp
  moreover have "j \<notin> set (bt_trains (rl_blocks v b))" using v(3) [of b] d u(3) by (simp add: remove1_idem)
  moreover have "rl_dangling (updateState b ?w)"
    by (simp add: updateState_alt setBlockState_def setBlock_def rl_event_def)
  ultimately show ?thesis using v2 v(4) by (intro exI [of _ "updateState b ?w"]) simp
qed

end
