(* ===== verification/Board_Yard.thy ===== *)
theory Board_Yard
  imports Board_Trains
begin

text \<open>
  A yard to try the board on: blocks 1 and 2 lead over the turnouts 5 and 6, which face each other, to
  the blocks 3 and 4; next to each block is an NX button (7 to 10).
\<close>

definition yardTiles :: "(nat \<times> TileId) list" where
  "yardTiles = [(1, RailBlock), (2, RailBlock), (3, RailBlock), (4, RailBlock), (5, RailTurnoutLeft45), (6, RailTurnoutRight45),
     (7, RailNXButton), (8, RailNXButton), (9, RailNXButton), (10, RailNXButton), (11, RailStraight)]"

definition yardLinks :: "(nat \<times> nat option list) list" where
  "yardLinks = [(1, [None, Some 0]), (2, [None, Some 1]), (3, [Some 7, None]), (4, [Some 8, None]),
     (5, [Some 4, Some 2, Some 3]), (6, [Some 4, Some 5, Some 6]),
     (7, [Some 0, Some 2]), (8, [Some 1, Some 3]), (9, [Some 5, Some 7]), (10, [Some 6, Some 8])]"

definition yardEnds :: "(nat \<times> ((nat \<times> nat) \<times> (nat \<times> nat))) list" where
  "yardEnds = [(0, ((1, 1), (7, 0))), (1, ((2, 1), (8, 0))), (2, ((7, 1), (5, 1))), (3, ((8, 1), (5, 2))),
     (4, ((5, 0), (6, 0))), (5, ((6, 1), (9, 0))), (6, ((6, 2), (10, 0))), (7, ((9, 1), (3, 0))), (8, ((10, 1), (4, 0)))]"

definition yard :: RailMap where
  "yard = \<lparr>rm_tileId = (\<lambda>n. case map_of yardTiles n of None \<Rightarrow> RailStraight | Some t \<Rightarrow> t),
     rm_links = (\<lambda>n. case map_of yardLinks n of None \<Rightarrow> [] | Some ls \<Rightarrow> ls),
     rm_ends = (\<lambda>l. case map_of yardEnds l of None \<Rightarrow> ((0, 0), (0, 0)) | Some e \<Rightarrow> e),
     rm_tiles = (\<lambda>l. if l = 4 then [11] else []), rm_linked = (\<lambda>n. None)\<rparr>"

definition yardPath :: "nat \<Rightarrow> nat \<Rightarrow> TurnoutPosition \<Rightarrow> TurnoutPosition \<Rightarrow> BlockPath" where
  "yardPath a b x y = \<lparr>bp_fromBlock = a, bp_fromSide = SideB, bp_toBlock = Some b, bp_toSide = Some SideA, bp_tiles = [11, b + 6],
     bp_turnouts = [(5, x), (6, y)], bp_directionControls = [], bp_crossings = [], bp_bridges = [], bp_signals = [],
     bp_nxButtonFrom = Some (a + 6), bp_nxButtonTo = Some (b + 6)\<rparr>"

text \<open>Trains 1 and 2 are in the blocks 1 and 2, towards the turnouts; the blocks 3 and 4 are free.\<close>

definition yardBlock :: "nat \<Rightarrow> BlockTile" where
  "yardBlock n = \<lparr>bt_state = if n = 1 \<or> n = 2 then BsReserved else BsFree, bt_inputs = if n = 3 then [SsFree, SsFree] else [],
     bt_sensorStates = [], bt_trains = if n = 1 then [0] else if n = 2 then [1] else [], bt_reservedPaths = (\<lambda>side. None)\<rparr>"

definition yardStart :: BoardState where
  "yardStart = \<lparr>bd_rail = \<lparr>rl_exists = (\<lambda>n. 0 < n \<and> n < 12), rl_blocks = yardBlock, rl_reserved = (\<lambda>n. 0),
       rl_position = (\<lambda>n. TpUnknown), rl_control = (\<lambda>n. DcBoth), rl_crossState = (\<lambda>n. CrossUnset), rl_blockPath = (\<lambda>n. None),
       rl_trains = (\<lambda>t. \<lparr>tr_blocks = if t = 1 then [0] else if t = 2 then [1] else [], tr_active = True, tr_powered = True,
         tr_mode = ManualUnprotected, tr_isStopped = True, tr_direction = DirReverse\<rparr>),
       rl_statuses = (\<lambda>i. \<lparr>ts_block = i + 1, ts_train = Some (i + 1), ts_identification = None, ts_direction = TowardsB, ts_dying = False\<rparr>),
       rl_nextStatus = 2, rl_events = [], rl_dangling = False\<rparr>,
     bd_paths = (\<lambda>n. if n = 1 then [yardPath 1 3 TpLeft TpStraight] else if n = 2 then [yardPath 2 4 TpStraight TpRight] else []),
     bd_pathsIn = (\<lambda>n. []), bd_nxBlock = (\<lambda>n. if 7 \<le> n \<and> n \<le> 10 then Some (n - 6) else None), bd_pressed = [], bd_run = True\<rparr>"

text \<open>The yard is a map on which paths are found that can be reserved.\<close>

lemma yard_getLink: "11 \<le> n \<Longrightarrow> node_getLink yard n i = None"
  by (simp add: node_getLink_def yard_def yardLinks_def)

lemma yard_links:
  "\<forall>n \<in> set [0..<11]. length (rm_links yard n) = (if rm_links yard n = [] then 0 else connectors (rm_tileId yard n))"
  by code_simp

lemma yard_ends:
  "\<forall>n \<in> set [0..<11]. \<forall>i \<in> set [0..<length (rm_links yard n)].
    (case node_getLink yard n i of None \<Rightarrow> True
     | Some l \<Rightarrow> (n, i) \<in> set [fst (rm_ends yard l), snd (rm_ends yard l)] \<and>
         fst (fst (rm_ends yard l)) \<noteq> fst (snd (rm_ends yard l)) \<and>
         (\<forall>e \<in> set [fst (rm_ends yard l), snd (rm_ends yard l)]. node_getLink yard (fst e) (snd e) = Some l))"
  by code_simp

lemma yard_ok: "map_ok yard"
proof -
  have out: "rm_links yard n = []" if "11 \<le> n" for n using that by (simp add: yard_def yardLinks_def)
  have fin: "finite {n. rm_links yard n \<noteq> []}"
    by (rule finite_subset [of _ "{..<11}"]) (use out in \<open>auto simp: not_le [symmetric]\<close>)
  have len: "length (rm_links yard n) = connectors (rm_tileId yard n)" if "rm_links yard n \<noteq> []" for n
  proof -
    have "n < 11" using that out by (meson not_le)
    then show ?thesis using yard_links that by simp
  qed
  have ends: "(n, i) \<in> {fst (rm_ends yard l), snd (rm_ends yard l)} \<and> fst (fst (rm_ends yard l)) \<noteq> fst (snd (rm_ends yard l)) \<and>
      (\<forall>e \<in> {fst (rm_ends yard l), snd (rm_ends yard l)}. node_getLink yard (fst e) (snd e) = Some l)"
    if l: "node_getLink yard n i = Some l" for n i l
  proof -
    have "n \<in> set [0..<11]" using l yard_getLink [of n i] by (auto simp: not_le [symmetric])
    moreover have "i \<in> set [0..<length (rm_links yard n)]" using getLink_size [OF l] by simp
    ultimately show ?thesis using yard_ends [rule_format, of n i] l by simp
  qed
  have "rm_linked yard a = None" for a by (simp add: yard_def)
  then have "rm_wf yard" unfolding rm_wf_def using fin len ends by (intro conjI allI impI) (auto simp del: insert_iff)
  moreover have "links_passive yard" by (simp add: links_passive_def yard_def yardTiles_def connectors_def
    isRailTurnout_def isRailBridge_def isRailCross_def isRailSignal_def)
  ultimately show ?thesis by (simp add: map_ok_def)
qed

lemma yard_inv: "board_inv yard yardStart"
  by (simp add: board_inv_def yardStart_def rail_inv_def yardBlock_def path_ok_def path_typed_def path_simple_def yardPath_def
    plainTile_def yard_def yardTiles_def isRailBridge_def less_Suc_eq)

definition yardAt :: "RailOp list \<Rightarrow> BoardState" where
  "yardAt ops = snd (the (board_run yard ops yardStart))"

lemma yard_paths:
  "BlockPath_find yard 1 = Some [yardPath 1 3 TpLeft TpStraight, yardPath 1 4 TpLeft TpRight]"
  by code_simp

lemma yardAt_inv: "board_run yard ops yardStart \<noteq> None \<Longrightarrow> board_inv yard (yardAt ops)"
  using run_grants [OF yard_ok _ yard_inv] by (auto simp: yardAt_def)

end
