(* ===== verification/Board_Signal.thy ===== *)
theory Board_Signal
  imports Board_Rail
begin

text \<open>
  What the signals show: the path a signal looks along,
  \<^verbatim>\<open>src/server/src/board/map/abstractsignalpath.cpp\<close>, and its evaluation by signals of two and of three
  aspects, \<^verbatim>\<open>src/server/src/board/tile/rail/signal\<close>.
\<close>

section \<open>The path a signal looks along\<close>

datatype SignalAspect = AspectUnknown | AspectStop | AspectProceed | AspectProceedReducedSpeed
datatype AutoYesNo = AynAuto | AynYes | AynNo

datatype PathItem =
    BlockItem nat BlockSide "PathItem option"
  | SignalItem nat "PathItem option"
  | TurnoutItem nat "(TurnoutPosition \<times> PathItem option) list"
  | DirectionControlItem nat DirectionControlState "PathItem option"

text \<open>What the signal listens to.\<close>

datatype SignalConnection = BlockConnection nat | SignalConnection nat | TurnoutConnection nat | ControlConnection nat

text \<open>
  \<^verbatim>\<open>findBlocks\<close> calls itself along the track and does not end on a closed track without a block; the first
  argument bounds the depth of the calls, \<open>None\<close> is that they go deeper.
\<close>

type_synonym ItemSearch = "(PathItem option \<times> SignalConnection list) option"

definition listening :: "SignalConnection \<Rightarrow> (PathItem option \<Rightarrow> PathItem option) \<Rightarrow> ItemSearch \<Rightarrow> ItemSearch" where
  "listening c f = map_option (\<lambda>(item, cs). (f item, c # cs))"

fun findTurnout :: "('l \<Rightarrow> ItemSearch) \<Rightarrow> (TurnoutPosition \<times> 'l) list \<Rightarrow>
    ((TurnoutPosition \<times> PathItem option) list \<times> SignalConnection list) option" where
  "findTurnout f [] = Some ([], [])"
| "findTurnout f ((pos, l) # ls) =
    (case f l of
       None \<Rightarrow> None
     | Some (item, cs) \<Rightarrow> map_option (\<lambda>(items, ds). ((pos, item) # items, cs @ ds)) (findTurnout f ls))"

fun findBlocks :: "nat \<Rightarrow> RailMap \<Rightarrow> nat \<Rightarrow> nat \<Rightarrow> nat option \<Rightarrow> nat \<Rightarrow> ItemSearch" where
  "findBlocks 0 rm self node link blocksAhead = None"
| "findBlocks (Suc depth) rm self node link blocksAhead =
    (case link of
       None \<Rightarrow> Some (None, [])
     | Some l \<Rightarrow>
         (let nxt = link_getNext rm l node; t = rm_tileId rm nxt; at0 = (node_getLink rm nxt 0 = Some l) in
          if t = RailBlock then
            listening (BlockConnection nxt) (\<lambda>item. Some (BlockItem nxt (if at0 then SideA else SideB) item))
              (if 1 < blocksAhead \<and> otherLink rm nxt l \<noteq> None then findBlocks depth rm self nxt (otherLink rm nxt l) (blocksAhead - 1)
               else Some (None, []))
          else if isRailSignal t then
            (if otherLink rm nxt l \<noteq> None then
               listening (SignalConnection nxt) (\<lambda>item. Some (SignalItem nxt item))
                 (findBlocks depth rm self nxt (otherLink rm nxt l) blocksAhead)
             else Some (None, []))
          else if isRailTurnout t then
            map_option (\<lambda>(items, cs). (if items = [] then None else Some (TurnoutItem nxt items), TurnoutConnection nxt # cs))
              (findTurnout (\<lambda>i. findBlocks depth rm self nxt (node_getLink rm nxt i) blocksAhead) (getTurnoutLinks rm nxt l))
          else if t = RailDirectionControl then
            (if otherLink rm nxt l \<noteq> None then
               listening (ControlConnection nxt) (\<lambda>item. Some (DirectionControlItem nxt (if at0 then DcAtoB else DcBtoA) item))
                 (findBlocks depth rm self nxt (otherLink rm nxt l) blocksAhead)
             else Some (None, []))
          else if t = RailOneWay then
            (if otherLink rm nxt l \<noteq> None \<and> at0 then findBlocks depth rm self nxt (otherLink rm nxt l) blocksAhead
             else Some (None, []))
          else if isRailBridge t \<or> isRailCross t then
            (case entryOf rm nxt l of
               None \<Rightarrow> Some (None, [])
             | Some i \<Rightarrow> findBlocks depth rm self nxt (node_getLink rm nxt ((i + 2) mod 4)) blocksAhead)
          else if t = RailLink then
            (case rm_linked rm nxt of
               None \<Rightarrow> Some (None, [])
             | Some other \<Rightarrow> findBlocks depth rm self other (node_getLink rm other 0) blocksAhead)
          else if t \<noteq> RailBufferStop \<and> otherLink rm nxt l \<noteq> None \<and> nxt \<noteq> self then
            findBlocks depth rm self nxt (otherLink rm nxt l) blocksAhead
          else Some (None, [])))"

text \<open>The item behind an item, by the states of turnouts and direction controls.\<close>

fun item_next :: "RailState \<Rightarrow> PathItem \<Rightarrow> PathItem option" where
  "item_next s (BlockItem b side item) = item"
| "item_next s (SignalItem n item) = item"
| "item_next s (TurnoutItem n items) = (if rl_exists s n then Option.bind (map_of items (rl_position s n)) id else None)"
| "item_next s (DirectionControlItem n d item) =
    (if rl_exists s n \<and> (rl_control s n = DcBoth \<or> rl_control s n = d) then item else None)"

lemma item_next_size: "item_next s i = Some j \<Longrightarrow> size j < size i"
proof (cases i)
  case (TurnoutItem n items)
  assume "item_next s i = Some j"
  then have "(rl_position s n, Some j) \<in> set items"
    using TurnoutItem by (auto simp: bind_eq_Some_conv split: if_splits dest: map_of_SomeD)
  then have "size_prod (\<lambda>_. 0) (size_option size) (rl_position s n, Some j) \<le> size_list (size_prod (\<lambda>_. 0) (size_option size)) items"
    by (rule size_list_estimation') simp
  then show ?thesis using TurnoutItem by simp
qed (auto split: if_splits)

definition itemSize :: "PathItem option \<Rightarrow> nat" where
  "itemSize i = (case i of None \<Rightarrow> 0 | Some i \<Rightarrow> Suc (size i))"

lemma itemSize_next [termination_simp]: "itemSize (item_next s i) < itemSize (Some i)"
  by (cases "item_next s i") (auto simp: itemSize_def dest: item_next_size)

section \<open>Looking along the path\<close>

datatype Ahead = NoItem | BlockAhead nat BlockSide "PathItem option" | SignalAhead nat

function nextBlock :: "RailState \<Rightarrow> PathItem option \<Rightarrow> Ahead" where
  "nextBlock s None = NoItem"
| "nextBlock s (Some i) = (case i of BlockItem b side item \<Rightarrow> BlockAhead b side item | _ \<Rightarrow> nextBlock s (item_next s i))"
  by pat_completeness auto
termination by (relation "measure (\<lambda>(s, i). itemSize i)") (auto simp: itemSize_next simp del: item_next.simps)

function nextBlockOrSignal :: "RailState \<Rightarrow> PathItem option \<Rightarrow> Ahead" where
  "nextBlockOrSignal s None = NoItem"
| "nextBlockOrSignal s (Some i) =
    (case i of
       BlockItem b side item \<Rightarrow> BlockAhead b side item
     | SignalItem n item \<Rightarrow> SignalAhead n
     | _ \<Rightarrow> nextBlockOrSignal s (item_next s i))"
  by pat_completeness auto
termination by (relation "measure (\<lambda>(s, i). itemSize i)") (auto simp: itemSize_next simp del: item_next.simps)

text \<open>\<^verbatim>\<open>getBlockStates\<close> and \<^verbatim>\<open>getBlock\<close>: the first blocks.\<close>

function blocksOf :: "RailState \<Rightarrow> PathItem option \<Rightarrow> nat list" where
  "blocksOf s None = []"
| "blocksOf s (Some i) = (case i of BlockItem b side item \<Rightarrow> [b] | _ \<Rightarrow> []) @ blocksOf s (item_next s i)"
  by pat_completeness auto
termination by (relation "measure (\<lambda>(s, i). itemSize i)") (auto simp: itemSize_next simp del: item_next.simps)

definition item_blockState :: "RailState \<Rightarrow> nat \<Rightarrow> BlockState" where
  "item_blockState s b = (if rl_exists s b then bt_state (rl_blocks s b) else BsUnknown)"

definition getBlockStates :: "RailState \<Rightarrow> PathItem option \<Rightarrow> nat \<Rightarrow> BlockState list" where
  "getBlockStates s root n =
    (let bs = map (item_blockState s) (take n (blocksOf s root)) in bs @ replicate (n - length bs) BsUnknown)"

definition getBlock :: "RailState \<Rightarrow> PathItem option \<Rightarrow> nat \<Rightarrow> nat option" where
  "getBlock s root i =
    (if i < length (blocksOf s root) \<and> rl_exists s (blocksOf s root ! i) then Some (blocksOf s root ! i) else None)"

section \<open>Signals\<close>

record SignalPath =
  sp_root :: "PathItem option"
  sp_requireReservation :: bool
  sp_connections :: "SignalConnection list"

record SignalState =
  sg_aspect :: "nat \<Rightarrow> SignalAspect"
  sg_require :: "nat \<Rightarrow> AutoYesNo"
  sg_path :: "nat \<Rightarrow> SignalPath option"
  sg_events :: "(nat \<times> SignalAspect) list"

text \<open>A turnout before the first block, as the direction controls are when the path is made.\<close>

function turnoutAhead :: "RailState \<Rightarrow> PathItem option \<Rightarrow> bool" where
  "turnoutAhead s None = False"
| "turnoutAhead s (Some i) =
    (case i of BlockItem b side item \<Rightarrow> False | TurnoutItem n items \<Rightarrow> True | _ \<Rightarrow> turnoutAhead s (item_next s i))"
  by pat_completeness auto
termination by (relation "measure (\<lambda>(s, i). itemSize i)") (auto simp: itemSize_next simp del: item_next.simps)

definition SignalPath_new :: "nat \<Rightarrow> RailMap \<Rightarrow> RailState \<Rightarrow> nat \<Rightarrow> SignalPath option" where
  "SignalPath_new depth rm s n =
    map_option (\<lambda>(item, cs). \<lparr>sp_root = item, sp_requireReservation = turnoutAhead s item, sp_connections = cs\<rparr>)
      (findBlocks depth rm n n (node_getLink rm n 1) (if rm_tileId rm n = RailSignal2Aspect then 1 else 2))"

definition requireReservation :: "SignalState \<Rightarrow> nat \<Rightarrow> SignalPath \<Rightarrow> bool" where
  "requireReservation sg n sp \<longleftrightarrow> sg_require sg n = AynYes \<or> sg_require sg n = AynAuto \<and> sp_requireReservation sp"

text \<open>\<^verbatim>\<open>path->toBlock()\<close>, which is null when the block is gone.\<close>

definition toBlock :: "RailState \<Rightarrow> BlockPath \<Rightarrow> nat option" where
  "toBlock s p = (case bp_toBlock p of Some b \<Rightarrow> if rl_exists s b then Some b else None | None \<Rightarrow> None)"

definition reservedTo :: "RailState \<Rightarrow> BlockPath option \<Rightarrow> nat \<Rightarrow> bool" where
  "reservedTo s p b \<longleftrightarrow> (case p of None \<Rightarrow> False | Some p \<Rightarrow> toBlock s p = Some b)"

definition determineAspect2 :: "RailState \<Rightarrow> SignalState \<Rightarrow> nat \<Rightarrow> SignalPath \<Rightarrow> SignalAspect" where
  "determineAspect2 s sg n sp =
    (let state = hd (getBlockStates s (sp_root sp) 1) in
     if \<not> requireReservation sg n sp \<and> state = BsFree then AspectProceed
     else if state = BsReserved then
       (case rl_blockPath s n of
          None \<Rightarrow> AspectStop
        | Some p \<Rightarrow> if toBlock s p = getBlock s (sp_root sp) 0 then AspectProceed else AspectStop)
     else AspectStop)"

definition oppositeSide :: "BlockSide \<Rightarrow> BlockSide" where
  "oppositeSide side = (if side = SideB then SideA else SideB)"

definition determineAspect3 :: "RailState \<Rightarrow> SignalState \<Rightarrow> nat \<Rightarrow> SignalPath \<Rightarrow> SignalAspect" where
  "determineAspect3 s sg n sp =
    (case nextBlock s (sp_root sp) of
       BlockAhead b side item \<Rightarrow>
         (let state = item_blockState s b in
          if (\<not> requireReservation sg n sp \<and> state = BsFree) \<or> (state = BsReserved \<and> reservedTo s (rl_blockPath s n) b) then
            (case nextBlockOrSignal s item of
               BlockAhead b2 side2 item2 \<Rightarrow>
                 (let state2 = item_blockState s b2 in
                  if state2 = BsFree \<or> (state2 = BsReserved \<and> reservedTo s (bt_reservedPaths (rl_blocks s b) (oppositeSide side)) b2)
                  then AspectProceed else AspectProceedReducedSpeed)
             | SignalAhead m \<Rightarrow>
                 if rl_exists s m \<and> sg_aspect sg m \<noteq> AspectUnknown \<and> sg_aspect sg m \<noteq> AspectStop then AspectProceed
                 else AspectProceedReducedSpeed
             | NoItem \<Rightarrow> AspectProceedReducedSpeed)
          else AspectStop)
     | _ \<Rightarrow> AspectStop)"

text \<open>What the evaluation of a signal sets.\<close>

definition signal_target :: "RailMap \<Rightarrow> RailState \<Rightarrow> SignalState \<Rightarrow> nat \<Rightarrow> SignalAspect" where
  "signal_target rm s sg n =
    (case sg_path sg n of
       None \<Rightarrow> AspectStop
     | Some sp \<Rightarrow>
         if rl_blockPath s n = None \<and> requireReservation sg n sp then AspectStop
         else if rm_tileId rm n = RailSignal2Aspect then determineAspect2 s sg n sp
         else determineAspect3 s sg n sp)"

definition aspectValues :: "TileId \<Rightarrow> SignalAspect list" where
  "aspectValues t =
    (if t = RailSignal2Aspect then [AspectStop, AspectProceed] else [AspectStop, AspectProceedReducedSpeed, AspectProceed])"

text \<open>
  Setting an aspect that is new tells the signals that listen, which are evaluated before the event is fired;
  the calls that wait are a stack.
\<close>

datatype SignalTask = EvaluateTask nat | FireTask nat SignalAspect

definition listeners :: "nat list \<Rightarrow> SignalState \<Rightarrow> nat \<Rightarrow> nat list" where
  "listeners sigs sg n =
    concat (map (\<lambda>m. map (\<lambda>_. m) (filter (\<lambda>c. c = SignalConnection n)
      (case sg_path sg m of None \<Rightarrow> [] | Some sp \<Rightarrow> sp_connections sp))) sigs)"

definition doSetAspect :: "RailMap \<Rightarrow> nat list \<Rightarrow> nat \<Rightarrow> SignalAspect \<Rightarrow> SignalState \<Rightarrow> SignalTask list \<times> SignalState" where
  "doSetAspect rm sigs n a sg =
    (if a \<notin> set (aspectValues (rm_tileId rm n)) then ([], sg)
     else if sg_aspect sg n = a then ([], sg)
     else (map EvaluateTask (listeners sigs sg n) @ [FireTask n a], sg\<lparr>sg_aspect := (sg_aspect sg)(n := a)\<rparr>))"

partial_function (option) signals_settle ::
  "RailMap \<Rightarrow> RailState \<Rightarrow> nat list \<Rightarrow> SignalTask list \<Rightarrow> SignalState \<Rightarrow> SignalState option" where
  "signals_settle rm s sigs todo sg =
    (case todo of
       [] \<Rightarrow> Some sg
     | FireTask n a # rest \<Rightarrow> signals_settle rm s sigs rest (sg\<lparr>sg_events := sg_events sg @ [(n, a)]\<rparr>)
     | EvaluateTask n # rest \<Rightarrow>
         (let (tasks, sg) = doSetAspect rm sigs n (signal_target rm s sg n) sg
          in signals_settle rm s sigs (tasks @ rest) sg))"

declare signals_settle.simps [code]

end
