(* ===== verification/Board_Settle.thy ===== *)
theory Board_Settle
  imports Board_Signal
begin

text \<open>
  When a signal changes, the signals that see it are evaluated, and so on.  That ends: whether a signal
  shows stop does not depend on other signals.
\<close>

section \<open>What an evaluation depends on\<close>

definition showsStop :: "SignalAspect \<Rightarrow> bool" where
  "showsStop a \<longleftrightarrow> a = AspectUnknown \<or> a = AspectStop"

text \<open>The paths and settings of the signals stay.\<close>

definition sameSignals :: "SignalState \<Rightarrow> SignalState \<Rightarrow> bool" where
  "sameSignals sg sg' \<longleftrightarrow> sg_path sg' = sg_path sg \<and> sg_require sg' = sg_require sg"

lemma determineAspect3_stop:
  assumes "sameSignals sg sg'"
  shows "determineAspect3 s sg' n sp = AspectStop \<longleftrightarrow> determineAspect3 s sg n sp = AspectStop"
proof -
  have "requireReservation sg' n sp = requireReservation sg n sp" using assms by (simp add: sameSignals_def requireReservation_def)
  then show ?thesis by (auto simp: determineAspect3_def Let_def split: Ahead.split)
qed

lemma determineAspect2_same: "sameSignals sg sg' \<Longrightarrow> determineAspect2 s sg' n sp = determineAspect2 s sg n sp"
  by (simp add: determineAspect2_def requireReservation_def sameSignals_def)

lemma target_known: "signal_target rm s sg n \<in> set (aspectValues (rm_tileId rm n))"
  unfolding signal_target_def determineAspect2_def determineAspect3_def aspectValues_def Let_def
  by (auto split: option.split Ahead.split)

lemma target_stop:
  assumes "sameSignals sg sg'"
  shows "showsStop (signal_target rm s sg' n) \<longleftrightarrow> showsStop (signal_target rm s sg n)"
proof -
  have known: "signal_target rm s u n \<noteq> AspectUnknown" for u
    using target_known [of rm s u n] by (auto simp: aspectValues_def split: if_splits)
  have p: "sg_path sg' n = sg_path sg n" using assms by (simp add: sameSignals_def)
  have r: "requireReservation sg' n sp = requireReservation sg n sp" for sp
    using assms by (simp add: sameSignals_def requireReservation_def)
  have "signal_target rm s sg' n = AspectStop \<longleftrightarrow> signal_target rm s sg n = AspectStop"
    unfolding signal_target_def p r determineAspect2_same [OF assms]
    by (cases "sg_path sg n") (simp_all add: determineAspect3_stop [OF assms])
  then show ?thesis using known by (simp add: showsStop_def)
qed

text \<open>The signals that a signal sees are those it listens to.\<close>

fun signalsIn :: "PathItem \<Rightarrow> nat set" where
  "signalsIn (BlockItem b side item) = (case item of None \<Rightarrow> {} | Some i \<Rightarrow> signalsIn i)"
| "signalsIn (SignalItem n item) = insert n (case item of None \<Rightarrow> {} | Some i \<Rightarrow> signalsIn i)"
| "signalsIn (TurnoutItem n items) = (\<Union>(pos, item) \<in> set items. case item of None \<Rightarrow> {} | Some i \<Rightarrow> signalsIn i)"
| "signalsIn (DirectionControlItem n d item) = (case item of None \<Rightarrow> {} | Some i \<Rightarrow> signalsIn i)"

definition signalsOf :: "PathItem option \<Rightarrow> nat set" where
  "signalsOf item = (case item of None \<Rightarrow> {} | Some i \<Rightarrow> signalsIn i)"

lemma signalsOf_next: "signalsOf (item_next s i) \<subseteq> signalsOf (Some i)"
proof (cases i)
  case (TurnoutItem n items)
  show ?thesis
  proof (cases "map_of items (rl_position s n)")
    case (Some item)
    then have "(rl_position s n, item) \<in> set items" by (rule map_of_SomeD)
    then show ?thesis using TurnoutItem Some by (auto simp: signalsOf_def split: option.splits)
  qed (simp add: TurnoutItem signalsOf_def)
qed (auto simp: signalsOf_def split: option.splits)

lemma nextBlock_signals: "nextBlock s item = BlockAhead b side rest \<Longrightarrow> signalsOf rest \<subseteq> signalsOf item"
proof (induction s item rule: nextBlock.induct)
  case (2 s i)
  show ?case
  proof (cases i)
    case (BlockItem c side' item)
    then show ?thesis using "2.prems" by (auto simp: signalsOf_def)
  next
    case (SignalItem n item)
    then show ?thesis using "2.IH"(1) "2.prems" signalsOf_next [of s i] by auto
  next
    case (TurnoutItem n items)
    then show ?thesis using "2.IH"(2) "2.prems" signalsOf_next [of s i] by auto
  next
    case (DirectionControlItem n d item)
    then show ?thesis using "2.IH"(3) "2.prems" signalsOf_next [of s i] by auto
  qed
qed simp

lemma nextBlockOrSignal_signals: "nextBlockOrSignal s item = SignalAhead n \<Longrightarrow> n \<in> signalsOf item"
proof (induction s item rule: nextBlockOrSignal.induct)
  case (2 s i)
  show ?case
  proof (cases i)
    case (SignalItem n item)
    then show ?thesis using "2.prems" by (auto simp: signalsOf_def)
  next
    case (TurnoutItem n items)
    then show ?thesis using "2.IH"(1) "2.prems" signalsOf_next [of s i] by auto
  next
    case (DirectionControlItem n d item)
    then show ?thesis using "2.IH"(2) "2.prems" signalsOf_next [of s i] by auto
  qed (use "2.prems" in simp)
qed simp

text \<open>\<open>findBlocks\<close> listens to every signal it puts on the path.\<close>

definition hears :: "PathItem option \<times> SignalConnection list \<Rightarrow> bool" where
  "hears r \<longleftrightarrow> (\<forall>n \<in> signalsOf (fst r). SignalConnection n \<in> set (snd r))"

lemma findTurnout_hears:
  assumes "\<And>l r. f l = Some r \<Longrightarrow> hears r" and "findTurnout f ls = Some (items, cs)" and "(pos, item) \<in> set items"
  shows "\<forall>n \<in> signalsOf item. SignalConnection n \<in> set cs"
  using assms(2,3)
proof (induction ls arbitrary: items cs)
  case (Cons l ls)
  obtain p k where l: "l = (p, k)" by (cases l)
  obtain i c js ds where f: "f k = Some (i, c)" "findTurnout f ls = Some (js, ds)" "items = (p, i) # js" "cs = c @ ds"
    using Cons.prems(1) unfolding l by (auto split: option.splits)
  show ?case using assms(1) [OF f(1)] Cons.IH [OF f(2)] Cons.prems(2) f(3,4) unfolding hears_def by auto
qed simp

lemma hears_simps:
  "hears (None, cs)" "hears (item, cs) \<Longrightarrow> hears (item, c # cs)"
  "hears (item, cs) \<Longrightarrow> hears (Some (BlockItem b side item), c # cs)"
  "hears (item, cs) \<Longrightarrow> hears (Some (SignalItem n item), SignalConnection n # cs)"
  "hears (item, cs) \<Longrightarrow> hears (Some (DirectionControlItem n d item), c # cs)"
  by (auto simp: hears_def signalsOf_def split: option.splits)

lemma listening_some: "listening c f r = Some x \<Longrightarrow> \<exists>item cs. r = Some (item, cs) \<and> x = (f item, c # cs)"
  by (auto simp: listening_def)

lemma findBlocks_hears: "findBlocks depth rm self node link k = Some r \<Longrightarrow> hears r"
proof (induction depth arbitrary: node link k r)
  case (Suc depth)
  note IH = Suc.IH
  show ?case
  proof (cases link)
    case None
    then show ?thesis using Suc.prems by (auto simp: hears_simps)
  next
    case (Some l)
    define nxt where "nxt = link_getNext rm l node"
    define t where "t = rm_tileId rm nxt"
    have turn: "hears r" if tn: "map_option (\<lambda>(items, cs). (if items = [] then None else Some (TurnoutItem nxt items), TurnoutConnection nxt # cs))
              (findTurnout (\<lambda>i. findBlocks depth rm self nxt (node_getLink rm nxt i) k) (getTurnoutLinks rm nxt l)) = Some r" for r
    proof -
      obtain items cs where i: "findTurnout (\<lambda>i. findBlocks depth rm self nxt (node_getLink rm nxt i) k) (getTurnoutLinks rm nxt l) = Some (items, cs)"
        "r = (if items = [] then None else Some (TurnoutItem nxt items), TurnoutConnection nxt # cs)"
        using tn by auto
      have "\<forall>n \<in> signalsOf item. SignalConnection n \<in> set cs" if "(pos, item) \<in> set items" for pos item
        by (rule findTurnout_hears [OF IH i(1) that])
      then show ?thesis unfolding i(2) hears_def by (auto simp: signalsOf_def)
    qed
    note S = Suc.prems [unfolded Some findBlocks.simps option.case Let_def, folded nxt_def, folded t_def]
    show ?thesis
      using S IH turn hears_simps
      by (auto split: if_splits option.splits dest!: listening_some)
  qed
qed simp

definition paths_hear :: "SignalState \<Rightarrow> bool" where
  "paths_hear sg \<longleftrightarrow> (\<forall>n sp. sg_path sg n = Some sp \<longrightarrow> hears (sp_root sp, sp_connections sp))"

definition listensTo :: "SignalState \<Rightarrow> nat \<Rightarrow> nat \<Rightarrow> bool" where
  "listensTo sg m n \<longleftrightarrow> (\<exists>sp. sg_path sg m = Some sp \<and> SignalConnection n \<in> set (sp_connections sp))"

lemma set_listeners: "set (listeners sigs sg n) = {m \<in> set sigs. listensTo sg m n}"
proof -
  let ?cs = "\<lambda>m. case sg_path sg m of None \<Rightarrow> [] | Some sp \<Rightarrow> sp_connections sp"
  have heard: "SignalConnection n \<in> set (?cs m) \<longleftrightarrow> listensTo sg m n" for m
    by (cases "sg_path sg m") (auto simp: listensTo_def)
  have one: "set (map (\<lambda>_. m) (filter (\<lambda>c. c = SignalConnection n) cs)) = (if SignalConnection n \<in> set cs then {m} else {})" for m cs
    by auto
  have "set (listeners sigs sg n) = (\<Union>m \<in> set sigs. set (map (\<lambda>_. m) (filter (\<lambda>c. c = SignalConnection n) (?cs m))))"
    unfolding listeners_def set_concat set_map image_image ..
  then show ?thesis unfolding one heard by auto
qed

text \<open>The aspect follows from which of the signals that are heard show stop.\<close>

lemma target_heard:
  assumes same: "sameSignals sg sg'" and hear: "paths_hear sg"
    and stops: "\<And>n. listensTo sg m n \<Longrightarrow> showsStop (sg_aspect sg' n) = showsStop (sg_aspect sg n)"
  shows "signal_target rm s sg' m = signal_target rm s sg m"
proof (cases "sg_path sg m")
  case None
  then show ?thesis using same by (simp add: signal_target_def sameSignals_def)
next
  case (Some sp)
  have p: "sg_path sg' m = Some sp" using same Some by (simp add: sameSignals_def)
  have r: "requireReservation sg' m sp = requireReservation sg m sp"
    using same by (simp add: sameSignals_def requireReservation_def)
  have heard: "(sg_aspect sg' n \<noteq> AspectUnknown \<and> sg_aspect sg' n \<noteq> AspectStop) = (sg_aspect sg n \<noteq> AspectUnknown \<and> sg_aspect sg n \<noteq> AspectStop)"
    if a: "nextBlock s (sp_root sp) = BlockAhead b side item" "nextBlockOrSignal s item = SignalAhead n" for b side item n
  proof -
    have "n \<in> signalsOf (sp_root sp)" using nextBlock_signals [OF a(1)] nextBlockOrSignal_signals [OF a(2)] by blast
    then have "listensTo sg m n" using hear Some by (auto simp: paths_hear_def hears_def listensTo_def)
    then show ?thesis using stops [of n] by (auto simp: showsStop_def)
  qed
  have "determineAspect3 s sg' m sp = determineAspect3 s sg m sp"
    unfolding determineAspect3_def r Let_def
    by (cases "nextBlock s (sp_root sp)") (simp_all split: Ahead.split, use heard in \<open>auto\<close>)
  then show ?thesis
    unfolding signal_target_def p Some option.case r determineAspect2_same [OF same] by simp
qed

section \<open>The signals settle\<close>

definition settled :: "RailMap \<Rightarrow> RailState \<Rightarrow> nat list \<Rightarrow> SignalState \<Rightarrow> bool" where
  "settled rm s sigs sg \<longleftrightarrow> (\<forall>n \<in> set sigs. sg_aspect sg n = signal_target rm s sg n)"

definition settling :: "RailMap \<Rightarrow> RailState \<Rightarrow> nat list \<Rightarrow> SignalTask list \<Rightarrow> SignalState \<Rightarrow> bool" where
  "settling rm s sigs todo sg \<longleftrightarrow>
    (\<forall>n. EvaluateTask n \<in> set todo \<longrightarrow> n \<in> set sigs) \<and>
    (\<forall>n \<in> set sigs. sg_aspect sg n = signal_target rm s sg n \<or> EvaluateTask n \<in> set todo)"

definition wrongStops :: "RailMap \<Rightarrow> RailState \<Rightarrow> nat list \<Rightarrow> SignalState \<Rightarrow> nat set" where
  "wrongStops rm s sigs sg = {n \<in> set sigs. showsStop (sg_aspect sg n) \<noteq> showsStop (signal_target rm s sg n)}"

definition wrongAspects :: "RailMap \<Rightarrow> RailState \<Rightarrow> nat list \<Rightarrow> SignalState \<Rightarrow> nat set" where
  "wrongAspects rm s sigs sg = {n \<in> set sigs. sg_aspect sg n \<noteq> signal_target rm s sg n}"

lemma signals_settle_ends:
  assumes "paths_hear sg" and "settling rm s sigs todo sg"
  shows "\<exists>sg'. signals_settle rm s sigs todo sg = Some sg' \<and> sameSignals sg sg' \<and> settled rm s sigs sg'"
  using assms
proof (induction "(card (wrongStops rm s sigs sg), card (wrongAspects rm s sigs sg), length todo)" arbitrary: todo sg
    rule: wf_induct_rule [OF wf_lex_prod [OF wf_less_than wf_lex_prod [OF wf_less_than wf_less_than]]])
  case (1 todo sg)
  have trans: "sameSignals a b \<Longrightarrow> sameSignals b c \<Longrightarrow> sameSignals a c" for a b c by (simp add: sameSignals_def)
  show ?case
  proof (cases todo)
    case Nil
    then have "settled rm s sigs sg" using "1.prems"(2) by (simp add: settling_def settled_def)
    then show ?thesis using Nil by (intro exI [of _ sg]) (simp add: signals_settle.simps sameSignals_def)
  next
    case (Cons task rest)
    show ?thesis
    proof (cases task)
      case (FireTask n a)
      let ?u = "sg\<lparr>sg_events := sg_events sg @ [(n, a)]\<rparr>"
      have same: "sameSignals sg ?u" by (simp add: sameSignals_def)
      have t: "signal_target rm s ?u m = signal_target rm s sg m" for m by (rule target_heard [OF same "1.prems"(1)]) simp
      have "settling rm s sigs rest ?u" using "1.prems"(2) Cons FireTask unfolding settling_def t by auto
      moreover have "paths_hear ?u" using "1.prems"(1) by (simp add: paths_hear_def)
      moreover have "wrongStops rm s sigs ?u = wrongStops rm s sigs sg" "wrongAspects rm s sigs ?u = wrongAspects rm s sigs sg"
        unfolding wrongStops_def wrongAspects_def t by simp_all
      ultimately obtain sg' where "signals_settle rm s sigs rest ?u = Some sg'" "sameSignals ?u sg'" "settled rm s sigs sg'"
        using "1.hyps" [of ?u rest] Cons by auto
      then show ?thesis using trans [OF same] Cons FireTask by (subst signals_settle.simps) auto
    next
      case (EvaluateTask n)
      let ?a = "signal_target rm s sg n"
      show ?thesis
      proof (cases "sg_aspect sg n = ?a")
        case True
        then have d: "doSetAspect rm sigs n ?a sg = ([], sg)" by (simp add: doSetAspect_def)
        have "settling rm s sigs rest sg"
          using "1.prems"(2) Cons EvaluateTask True unfolding settling_def by auto
        then obtain sg' where "signals_settle rm s sigs rest sg = Some sg'" "sameSignals sg sg'" "settled rm s sigs sg'"
          using "1.hyps" [of sg rest] "1.prems"(1) Cons by auto
        then show ?thesis using Cons EvaluateTask d by (subst signals_settle.simps) auto
      next
        case False
        let ?u = "sg\<lparr>sg_aspect := (sg_aspect sg)(n := ?a)\<rparr>"
        let ?todo = "map EvaluateTask (listeners sigs sg n) @ FireTask n ?a # rest"
        have d: "doSetAspect rm sigs n ?a sg = (map EvaluateTask (listeners sigs sg n) @ [FireTask n ?a], ?u)"
          using False target_known by (simp add: doSetAspect_def)
        have n: "n \<in> set sigs" using "1.prems"(2) Cons EvaluateTask by (simp add: settling_def)
        have same: "sameSignals sg ?u" by (simp add: sameSignals_def)
        have t: "signal_target rm s ?u m = signal_target rm s sg m" if "\<not> listensTo sg m n" for m
          by (rule target_heard [OF same "1.prems"(1)]) (use that in auto)
        have stop: "showsStop (signal_target rm s ?u m) = showsStop (signal_target rm s sg m)" for m
          by (rule target_stop [OF same])
        have h: "paths_hear ?u" using "1.prems"(1) by (simp add: paths_hear_def)
        have set: "settling rm s sigs ?todo ?u"
          unfolding settling_def
        proof (intro conjI allI impI ballI)
          fix m assume "EvaluateTask m \<in> set ?todo"
          then show "m \<in> set sigs" using "1.prems"(2) Cons by (auto simp: settling_def set_listeners)
        next
          fix m assume m: "m \<in> set sigs"
          show "sg_aspect ?u m = signal_target rm s ?u m \<or> EvaluateTask m \<in> set ?todo"
          proof (cases "listensTo sg m n")
            case True
            then show ?thesis using m by (simp add: set_listeners)
          next
            case nl: False
            show ?thesis
            proof (cases "m = n")
              case True
              then show ?thesis using t [OF nl] by simp
            next
              case ne: False
              then show ?thesis using "1.prems"(2) m t [OF nl] Cons EvaluateTask by (auto simp: settling_def)
            qed
          qed
        qed
        have fin: "finite (wrongStops rm s sigs sg)" "finite (wrongAspects rm s sigs sg)" by (simp_all add: wrongStops_def wrongAspects_def)
        have ws: "wrongStops rm s sigs ?u = wrongStops rm s sigs sg - {n}"
          unfolding wrongStops_def stop by auto
        have less: "((card (wrongStops rm s sigs ?u), card (wrongAspects rm s sigs ?u), length ?todo),
            (card (wrongStops rm s sigs sg), card (wrongAspects rm s sigs sg), length todo)) \<in> less_than <*lex*> less_than <*lex*> less_than"
        proof (cases "n \<in> wrongStops rm s sigs sg")
          case True
          then have "card (wrongStops rm s sigs ?u) < card (wrongStops rm s sigs sg)"
            unfolding ws by (rule card_Diff1_less [OF fin(1)])
          then show ?thesis by simp
        next
          case False
          then have ns: "showsStop (sg_aspect sg n) = showsStop ?a" using n by (simp add: wrongStops_def)
          have t': "signal_target rm s ?u m = signal_target rm s sg m" for m
            by (rule target_heard [OF same "1.prems"(1)]) (use ns in auto)
          have "wrongAspects rm s sigs ?u = wrongAspects rm s sigs sg - {n}" unfolding wrongAspects_def t' by auto
          moreover have "n \<in> wrongAspects rm s sigs sg" using n \<open>sg_aspect sg n \<noteq> ?a\<close> by (simp add: wrongAspects_def)
          ultimately have "card (wrongAspects rm s sigs ?u) < card (wrongAspects rm s sigs sg)"
            using card_Diff1_less [OF fin(2)] by simp
          moreover have "wrongStops rm s sigs ?u = wrongStops rm s sigs sg" unfolding ws using False by simp
          ultimately show ?thesis by simp
        qed
        obtain sg' where "signals_settle rm s sigs ?todo ?u = Some sg'" "sameSignals ?u sg'" "settled rm s sigs sg'"
          using "1.hyps" [OF less h set] by blast
        then show ?thesis using trans [OF same] Cons EvaluateTask d by (subst signals_settle.simps) auto
      qed
    qed
  qed
qed

section \<open>A signal that does not show stop\<close>

lemma blocksOf_first: "blocksOf s item = b # bs \<Longrightarrow> \<exists>side rest. nextBlock s item = BlockAhead b side rest"
proof (induction s item arbitrary: b bs rule: blocksOf.induct)
  case (2 s i)
  then show ?case by (cases i) auto
qed simp

text \<open>The block ahead is free and no reservation is wanted, or it is reserved and the signal's own path leads there.\<close>

definition clearAhead :: "RailState \<Rightarrow> SignalState \<Rightarrow> nat \<Rightarrow> bool" where
  "clearAhead s sg n \<longleftrightarrow> (\<exists>sp b side rest. sg_path sg n = Some sp \<and> nextBlock s (sp_root sp) = BlockAhead b side rest \<and> rl_exists s b \<and>
    (bt_state (rl_blocks s b) = BsFree \<and> \<not> requireReservation sg n sp \<or>
     bt_state (rl_blocks s b) = BsReserved \<and> reservedTo s (rl_blockPath s n) b))"

lemma blockState_exists: "item_blockState s b \<noteq> BsUnknown \<Longrightarrow> rl_exists s b \<and> item_blockState s b = bt_state (rl_blocks s b)"
  by (simp add: item_blockState_def split: if_splits)

lemma clear2:
  assumes "determineAspect2 s sg n sp \<noteq> AspectStop" and "sg_path sg n = Some sp"
  shows "clearAhead s sg n"
proof (cases "blocksOf s (sp_root sp)")
  case Nil
  then show ?thesis using assms by (simp add: determineAspect2_def getBlockStates_def Let_def)
next
  case (Cons b bs)
  have st: "hd (getBlockStates s (sp_root sp) 1) = item_blockState s b" by (simp add: getBlockStates_def Cons Let_def)
  have "item_blockState s b \<noteq> BsUnknown" using assms(1) unfolding determineAspect2_def st Let_def by (auto split: if_splits)
  note e = blockState_exists [OF this]
  have g: "getBlock s (sp_root sp) 0 = Some b" using e by (simp add: getBlock_def Cons)
  have "item_blockState s b = BsFree \<and> \<not> requireReservation sg n sp \<or> item_blockState s b = BsReserved \<and> reservedTo s (rl_blockPath s n) b"
    using assms(1) unfolding determineAspect2_def st g reservedTo_def Let_def by (auto split: if_splits option.splits)
  then show ?thesis using blocksOf_first [OF Cons] e assms(2) unfolding clearAhead_def by auto
qed

lemma clear3:
  assumes "determineAspect3 s sg n sp \<noteq> AspectStop" and "sg_path sg n = Some sp"
  shows "clearAhead s sg n"
proof (cases "nextBlock s (sp_root sp)")
  case (BlockAhead b side rest)
  then have "item_blockState s b = BsFree \<and> \<not> requireReservation sg n sp \<or> item_blockState s b = BsReserved \<and> reservedTo s (rl_blockPath s n) b"
    using assms(1) by (auto simp: determineAspect3_def Let_def split: if_splits)
  moreover from this have "rl_exists s b \<and> item_blockState s b = bt_state (rl_blocks s b)"
    by (intro blockState_exists) auto
  ultimately show ?thesis using BlockAhead assms(2) unfolding clearAhead_def by auto
qed (use assms in \<open>simp_all add: determineAspect3_def\<close>)

lemma target_clear: "\<not> showsStop (signal_target rm s sg n) \<Longrightarrow> clearAhead s sg n"
  using clear2 clear3 by (auto simp: signal_target_def showsStop_def split: option.splits if_splits)

end
