(* ===== verification/Board_Properties.thy ===== *)
theory Board_Properties
  imports Board_Yard Board_Settle
begin

text \<open>
  The properties of the board: the paths between blocks, their reservation, and the trains that come into
  reserved blocks.
\<close>

section \<open>Lemmas\<close>

text \<open>A release leaves the states of the crossings.\<close>

lemma fold_crossState: "(\<And>t s. rl_crossState (f t s) = rl_crossState s) \<Longrightarrow> rl_crossState (fold f ts s) = rl_crossState s"
  by (induction ts arbitrary: s) simp_all

lemma reserveAll_crossState:
  "(\<And>t s. rl_crossState (snd (res t d s)) = rl_crossState s) \<Longrightarrow> rl_crossState (snd (reserveAll tile res ts d s)) = rl_crossState s"
  by (induction ts arbitrary: s) (auto simp: case_prod_unfold Let_def)

lemma andThen_crossState:
  "rl_crossState (snd r) = x \<Longrightarrow> (\<And>s. rl_crossState (snd (f s)) = rl_crossState s) \<Longrightarrow> rl_crossState (snd (andThen r f)) = x"
  by (simp add: andThen_def)

lemma releaseParts_crossState: "rl_crossState (snd (releaseParts p d s)) = rl_crossState s"
  unfolding releaseParts_def
  by (intro andThen_crossState reserveAll_crossState)
    (auto simp: block_release_def turnout_release_def cross_release_def split: option.split)

lemma releaseTiles_crossState: "rl_crossState (releaseTiles p s) = rl_crossState s"
  by (simp add: releaseTiles_def Let_def fold_crossState bridge_release_def)

lemma release_crossState: "BlockPath_release p s = Some (ok, s') \<Longrightarrow> rl_crossState s' = rl_crossState s"
  using releaseParts_crossState [of p False s] releaseTiles_crossState [of p]
  by (auto simp: BlockPath_release_def split: if_splits prod.splits bool.splits)

text \<open>A path that was granted is in no later run.\<close>

lemma claims_nonempty: "ClaimSide (bp_fromBlock p) (bp_fromSide p) \<in> claims p"
  by (simp add: claims_def)

section \<open>The paths between blocks\<close>

text \<open>
  C4. On a map without a link from a tile to itself (\<open>rm_wf\<close>, which also says that tiles and links agree on how
  they are connected), the search for the paths of a block ends, and what it finds are the routes from the block to
  the next blocks along the rails that pass no turnout and no crossing twice.
\<close>

theorem board_paths_found:
  assumes "rm_wf rm" and "rm_tileId rm b = RailBlock"
  shows "\<exists>qs. BlockPath_find rm b = Some qs \<and> set qs = {p. route rm b p}"
  using find_routes [OF assms] .

theorem board_paths_found_witness:
  "BlockPath_find yard 1 = Some [yardPath 1 3 TpLeft TpStraight, yardPath 1 4 TpLeft TpRight] \<and>
    {p. route yard 1 p} = {yardPath 1 3 TpLeft TpStraight, yardPath 1 4 TpLeft TpRight}"
proof -
  have "rm_wf yard" using yard_ok by (simp add: map_ok_def)
  moreover have "rm_tileId yard 1 = RailBlock" by code_simp
  ultimately obtain qs where "BlockPath_find yard 1 = Some qs" "set qs = {p. route yard 1 p}"
    using board_paths_found [of yard 1] by blast
  then show ?thesis using yard_paths by simp
qed

text \<open>
  C34. On a map without a link from a tile to itself, every path that is found starts at the block, has tiles of the right kinds at every place, wants of
  its turnouts positions that they have, and passes no side of a block, no turnout, no crossing and
  no leg of a bridge twice: so it can be reserved as a whole.
\<close>

theorem board_paths_settable:
  assumes "map_ok rm" and "rm_tileId rm b = RailBlock" and "BlockPath_find rm b = Some qs" and "p \<in> set qs"
  shows "path_ok rm p \<and> settable rm p \<and> bp_fromBlock p = b"
proof -
  have "route rm b p" using find_routes [OF _ assms(2)] assms unfolding map_ok_def by auto
  then show ?thesis using route_claims assms(1,2) unfolding map_ok_def path_ok_def by blast
qed

theorem board_paths_settable_witness:
  "path_ok yard (yardPath 1 4 TpLeft TpRight) \<and> settable yard (yardPath 1 4 TpLeft TpRight)"
proof -
  have "rm_tileId yard 1 = RailBlock" by code_simp
  from board_paths_settable [OF yard_ok this yard_paths, of "yardPath 1 4 TpLeft TpRight"] show ?thesis by simp
qed

text \<open>
  What these two properties leave out: a link with both ends at one tile, which \<^verbatim>\<open>Link::connect\<close> makes on an oval
  with a single block.  The search takes the link for that of the first connector at either end, so that it finds a path
  from side A back to side A, and this path can not be reserved.
\<close>

lemma oval_paths:
  assumes "rm_tileId rm b = RailBlock" and "rm_links rm b = [Some l, Some l]" and "rm_ends rm l = ((b, 0), (b, 1))"
  shows "BlockPath_find rm b = Some (map (\<lambda>side. (BlockPath_new b side)\<lparr>bp_tiles := rm_tiles rm l,
    bp_toBlock := Some b, bp_toSide := Some SideA\<rparr>) [SideA, SideB])"
  using assms
  by (simp add: BlockPath_find_def findLoop.simps findStep_def node_getLink_def link_getNext_def BlockPath_new_def Let_def)

text \<open>The dry run grants it, and the run fails the assertion that follows: side A is taken already.\<close>

lemma oval_reserve:
  fixes b train :: nat and ts :: "nat list" and s :: RailState
  assumes "rl_exists s b" and "bt_state (rl_blocks s b) = BsFree" and "rl_reserved s b = 0"
  defines "p \<equiv> (BlockPath_new b SideA)\<lparr>bp_tiles := ts, bp_toBlock := Some b, bp_toSide := Some SideA\<rparr>"
  shows "BlockPath_reserve rm p train s = None"
proof -
  have to: "bp_to p u = Some (b, SideA)" if "rl_exists u b" for u
    using that by (simp add: p_def bp_to_def BlockPath_new_def)
  have new: "bp_fromBlock p = b" "bp_fromSide p = SideA" "bp_turnouts p = []" "bp_directionControls p = []"
    "bp_crossings p = []" "bp_bridges p = []" "bp_signals p = []"
    by (simp_all add: p_def BlockPath_new_def)
  have dry: "fst (reserveParts rm p train True s)"
    using assms(1-3) by (simp add: reserveParts_def andThen_def new to block_reserve_def Let_def)
  obtain s1 where s1: "block_reserve b p train SideA False s = (True, s1)"
    using assms(2,3) by (simp add: block_reserve_def Let_def)
  then have r: "rl_reserved s1 b = toMask SideA" "rl_exists s1 = rl_exists s"
    using assms(2,3) by (auto simp: block_reserve_def Let_def tracking_reserve_def setReservedState_def createStatus_def appendStatus_def)
  have "\<not> fst (block_reserve b p train SideA False s1)"
    using r(1) by (simp add: block_reserve_def Let_def)
  then have "\<not> fst (reserveParts rm p train False s)"
    using assms(1) r(2) by (simp add: reserveParts_def andThen_def new s1 to)
  then show ?thesis
    using dry to [OF assms(1)] by (cases "reserveParts rm p train False s") (simp add: BlockPath_reserve_def split: bool.split)
qed

section \<open>Reservation\<close>

text \<open>
  C6. A reservation either changes nothing or is granted as a whole: then everything that the path claims
  was not taken and is now, its turnouts have the positions it wants, its signals know it, the path
  is ready, and what was taken before still is.
\<close>

theorem board_reserve_atomic:
  assumes "rail_inv {} s" and "path_ok rm p"
  shows "\<exists>ok s'. BlockPath_reserve rm p train s = Some (ok, s') \<and> ok = dryOk rm p train s \<and> rail_inv {} s' \<and>
    (if ok then (\<forall>c \<in> claims p. \<not> taken s c \<and> taken s' c) \<and> (\<forall>(n, pos) \<in> set (bp_turnouts p). rl_position s' n = pos) \<and>
       (\<forall>n \<in> set (bp_signals p). rl_blockPath s' n = Some p) \<and> BlockPath_isReady p s' \<and>
       (\<forall>c. claim_typed rm c \<longrightarrow> taken s c \<longrightarrow> taken s' c)
     else s' = s)"
proof -
  have ok: "path_typed rm p" "path_simple p" using assms(2) by (simp_all add: path_ok_def)
  note alt = BlockPath_reserve_alt [OF assms(1) ok, of train]
  show ?thesis
  proof (cases "dryOk rm p train s")
    case True
    let ?s = "reserveTiles p (runTiles rm p (runBlocks p train s))"
    note g = granted [OF assms(1) ok True]
    have r: "BlockPath_reserve rm p train s = Some (True, ?s)" using alt True by simp
    have "rail_inv {} ?s" by (rule BlockPath_reserve_inv [OF assms(1) ok r])
    moreover have "\<forall>(n, pos) \<in> set (bp_turnouts p). rl_position ?s n = pos" using g(4) by blast
    ultimately show ?thesis using r True g(1-3,5,9) by (intro exI [of _ True] exI [of _ ?s]) simp
  next
    case False
    then show ?thesis using alt assms(1) by (intro exI [of _ False] exI [of _ s]) simp
  qed
qed

lemma yard_rail: "rail_inv {} (bd_rail yardStart)" "path_ok yard (yardPath 1 3 TpLeft TpStraight)"
  "path_ok yard (yardPath 2 4 TpStraight TpRight)"
proof -
  have p: "yardPath 1 3 TpLeft TpStraight \<in> set (bd_paths yardStart 1)" "yardPath 2 4 TpStraight TpRight \<in> set (bd_paths yardStart 2)"
    by (simp_all add: yardStart_def)
  show "rail_inv {} (bd_rail yardStart)" "path_ok yard (yardPath 1 3 TpLeft TpStraight)" "path_ok yard (yardPath 2 4 TpStraight TpRight)"
    using yard_inv p unfolding board_inv_def by blast+
qed

theorem board_reserve_atomic_witness:
  "\<exists>s'. BlockPath_reserve yard (yardPath 1 3 TpLeft TpStraight) 1 (bd_rail yardStart) = Some (True, s') \<and>
    rl_position s' 5 = TpLeft \<and> taken s' (ClaimSide 3 SideA)"
proof -
  have d: "dryOk yard (yardPath 1 3 TpLeft TpStraight) 1 (bd_rail yardStart)" by code_simp
  let ?p = "yardPath 1 3 TpLeft TpStraight"
  obtain s' where s: "BlockPath_reserve yard ?p 1 (bd_rail yardStart) = Some (True, s')"
    "\<forall>c \<in> claims ?p. \<not> taken (bd_rail yardStart) c \<and> taken s' c" "\<forall>(n, pos) \<in> set (bp_turnouts ?p). rl_position s' n = pos"
    using board_reserve_atomic [OF yard_rail(1,2), of 1] unfolding eqTrueI [OF d] by (elim exE conjE) (simp only: if_True simp_thms, blast)
  have "ClaimSide 3 SideA \<in> claims ?p" by (simp add: yardPath_def claims_def)
  then have "taken s' (ClaimSide 3 SideA)" using s(2) by blast
  moreover have "rl_position s' 5 = TpLeft" using s(3) by (simp add: yardPath_def)
  ultimately show ?thesis using s(1) by blast
qed

text \<open>
  C2. In every run of the board, with its sensors, trains, turnouts and NX buttons in any order, the paths
  that are reserved have no side of a block, no crossing and no leg of a bridge in common, none of
  what they claim was taken before, and all of it is at the end.
\<close>

theorem board_reservations_exclusive:
  assumes "map_ok rm" and "board_inv rm bd" and "board_run rm ops bd = Some (ps, bd')"
  shows "sorted_wrt (\<lambda>p q. claims p \<inter> claims q = {}) ps \<and> board_inv rm bd' \<and>
    (\<forall>p \<in> set ps. \<forall>c \<in> claims p. \<not> taken (bd_rail bd) c \<and> taken (bd_rail bd') c)"
  using run_grants [OF assms(1,3,2)] by blast

definition yardDay :: "RailOp list" where
  "yardDay = [ButtonInputOp 7 True, ButtonInputOp 9 True, ButtonInputOp 7 False, ButtonInputOp 8 True, ButtonInputOp 10 True]"

lemma yard_day: "map_option fst (board_run yard yardDay yardStart) = Some [yardPath 1 3 TpLeft TpStraight, yardPath 2 4 TpStraight TpRight]"
  by code_simp

theorem board_reservations_exclusive_witness:
  "claims (yardPath 1 3 TpLeft TpStraight) \<inter> claims (yardPath 2 4 TpStraight TpRight) = {} \<and>
    taken (bd_rail (yardAt yardDay)) (ClaimSide 3 SideA)"
proof -
  obtain bd where bd: "board_run yard yardDay yardStart = Some ([yardPath 1 3 TpLeft TpStraight, yardPath 2 4 TpStraight TpRight], bd)"
    using yard_day by auto
  then have "yardAt yardDay = bd" by (simp add: yardAt_def)
  moreover have "ClaimSide 3 SideA \<in> claims (yardPath 1 3 TpLeft TpStraight)" by (simp add: claims_def yardPath_def)
  ultimately show ?thesis using board_reservations_exclusive [OF yard_ok yard_inv bd] by (auto simp del: taken.simps)
qed

text \<open>
  C35. A path that was reserved in a run is never reserved again, in that run or after it: nothing in the program
  releases a path, so each path can be driven once.
\<close>

theorem board_paths_used_once:
  assumes "map_ok rm" and "board_inv rm bd" and "board_run rm ops bd = Some (ps, bd')" and "p \<in> set ps"
    and "board_run rm ops' bd' = Some (qs, bd'')"
  shows "p \<notin> set qs \<and> (\<exists>us vs. ps = us @ p # vs \<and> p \<notin> set us \<and> p \<notin> set vs)"
proof
  note r = run_grants [OF assms(1,3,2)]
  let ?c = "ClaimSide (bp_fromBlock p) (bp_fromSide p)"
  have "taken (bd_rail bd') ?c" using r assms(4) claims_nonempty by blast
  moreover have "\<not> taken (bd_rail bd') ?c" if "p \<in> set qs"
    using run_grants [OF assms(1,5)] r that claims_nonempty by blast
  ultimately show "p \<notin> set qs" by blast
  obtain us vs where s: "ps = us @ p # vs" using assms(4) by (meson split_list)
  have d: "sorted_wrt (\<lambda>p q. claims p \<inter> claims q = {}) ps" using r by blast
  have "p \<notin> set us" "p \<notin> set vs" using d claims_nonempty [of p] unfolding s by (auto simp: sorted_wrt_append)
  then show "\<exists>us vs. ps = us @ p # vs \<and> p \<notin> set us \<and> p \<notin> set vs" using s by blast
qed

theorem board_paths_used_once_witness:
  "map_option fst (board_run yard [SelectOp 7 9, SelectOp 8 10] (yardAt yardDay)) = Some [] \<and>
    yardPath 1 3 TpLeft TpStraight \<notin> set (fst (the (board_run yard [SelectOp 7 9, SelectOp 8 10] (yardAt yardDay))))"
proof -
  obtain bd where bd: "board_run yard yardDay yardStart = Some ([yardPath 1 3 TpLeft TpStraight, yardPath 2 4 TpStraight TpRight], bd)"
    using yard_day by auto
  then have at: "yardAt yardDay = bd" by (simp add: yardAt_def)
  have e: "map_option fst (board_run yard [SelectOp 7 9, SelectOp 8 10] (yardAt yardDay)) = Some []" by code_simp
  then obtain bd'' where "board_run yard [SelectOp 7 9, SelectOp 8 10] bd = Some ([], bd'')" unfolding at by auto
  from board_paths_used_once [OF yard_ok yard_inv bd _ this, of "yardPath 1 3 TpLeft TpStraight"] e show ?thesis
    unfolding at using \<open>board_run yard [SelectOp 7 9, SelectOp 8 10] bd = Some ([], bd'')\<close> by simp
qed

text \<open>
  C36. Turnouts are not reserved: a path that holds everything it claims and is ready is not ready any more,
  though it still holds all of it, once a path is granted that wants one of its turnouts in another position.
\<close>

theorem board_turnouts_shared:
  assumes "rail_inv {} s" and "path_ok rm p" and "path_ok rm q"
    and "\<forall>c \<in> claims p. taken s c" and "BlockPath_isReady p s"
    and "(n, x) \<in> set (bp_turnouts p)" and "(n, y) \<in> set (bp_turnouts q)" and "x \<noteq> y"
    and "BlockPath_reserve rm q train s = Some (True, s')"
  shows "(\<forall>c \<in> claims p. taken s' c) \<and> \<not> BlockPath_isReady p s'"
proof -
  have ok: "path_typed rm q" "path_simple q" using assms(3) by (simp_all add: path_ok_def)
  have d: "dryOk rm q train s" and s': "s' = reserveTiles q (runTiles rm q (runBlocks q train s))"
    using assms(9) unfolding BlockPath_reserve_alt [OF assms(1) ok] by (simp_all split: if_splits)
  note g = granted [OF assms(1) ok d, folded s']
  have "rl_position s' n = y" by (rule g(4) [OF assms(7)])
  then have "\<not> BlockPath_isReady p s'" using assms(6,8) unfolding BlockPath_isReady_def by blast
  moreover have "taken s' c" if "c \<in> claims p" for c
    using g(2) claims_typed [OF _ that] assms(2,4) that unfolding path_ok_def by blast
  ultimately show ?thesis by blast
qed

lemma yard_at: "board_run yard ops yardStart = Some (ps, bd) \<Longrightarrow> yardAt ops = bd"
  by (simp add: yardAt_def)

theorem board_turnouts_shared_witness:
  "BlockPath_isReady (yardPath 1 3 TpLeft TpStraight) (bd_rail (yardAt [SelectOp 7 9])) \<and>
    (\<exists>s'. BlockPath_reserve yard (yardPath 2 4 TpStraight TpRight) 2 (bd_rail (yardAt [SelectOp 7 9])) = Some (True, s') \<and>
      taken s' (ClaimSide 3 SideA) \<and> \<not> BlockPath_isReady (yardPath 1 3 TpLeft TpStraight) s')"
proof -
  let ?p = "yardPath 1 3 TpLeft TpStraight" and ?q = "yardPath 2 4 TpStraight TpRight" and ?s = "bd_rail (yardAt [SelectOp 7 9])"
  have "map_option fst (board_run yard [SelectOp 7 9] yardStart) = Some [?p]" by code_simp
  then obtain bd where bd: "board_run yard [SelectOp 7 9] yardStart = Some ([?p], bd)" by auto
  note g = run_grants [OF yard_ok bd yard_inv, folded yard_at [OF bd]]
  have inv: "rail_inv {} ?s" and held: "\<forall>c \<in> claims ?p. taken ?s c"
    using g by (auto simp: board_inv_def simp del: taken.simps)
  have rdy: "BlockPath_isReady ?p ?s" by code_simp
  have "map_option fst (BlockPath_reserve yard ?q 2 ?s) = Some True" by code_simp
  then obtain s' where s': "BlockPath_reserve yard ?q 2 ?s = Some (True, s')" by auto
  have "(5, TpLeft) \<in> set (bp_turnouts ?p)" "(5, TpStraight) \<in> set (bp_turnouts ?q)" "ClaimSide 3 SideA \<in> claims ?p"
    by (simp_all add: yardPath_def claims_def)
  then show ?thesis
    using board_turnouts_shared [OF inv yard_rail(2,3) held rdy _ _ _ s', of 5 TpLeft TpStraight] rdy s' by blast
qed

text \<open>
  A crossing stays taken for good: after \<^verbatim>\<open>BlockPath::release\<close> of whatever path, no path over a crossing that
  was taken can be reserved, since \<^verbatim>\<open>CrossRailTile::release\<close> leaves the state that \<^verbatim>\<open>reserve\<close> looks at.
\<close>

theorem board_crossing_stays:
  assumes "taken s (ClaimCross n)" and "BlockPath_release p s = Some (ok, s')" and "n \<in> fst ` set (bp_crossings q)"
  shows "taken s' (ClaimCross n) \<and> BlockPath_reserve rm q train s' = Some (False, s')"
proof -
  have t: "rl_crossState s' n \<noteq> CrossUnset" using assms(1) release_crossState [OF assms(2)] by simp
  then have "\<not> dryOk rm q train s'" using assms(3) unfolding dryOk_def by auto
  then show ?thesis using t by (simp add: BlockPath_reserve_def reserveParts_dry)
qed

definition yardCross :: BlockPath where
  "yardCross = (yardPath 1 3 TpLeft TpStraight)\<lparr>bp_crossings := [(11, CrossAC)], bp_turnouts := []\<rparr>"

theorem board_crossing_stays_witness:
  "\<exists>s s'. BlockPath_reserve yard yardCross 1 (bd_rail yardStart) = Some (True, s) \<and> BlockPath_release yardCross s = Some (True, s') \<and>
    \<not> taken s' (ClaimSide 3 SideA) \<and> BlockPath_reserve yard yardCross 1 s' = Some (False, s')"
proof -
  have "(case BlockPath_reserve yard yardCross 1 (bd_rail yardStart) of None \<Rightarrow> False
     | Some (ok, s) \<Rightarrow> ok \<and> taken s (ClaimCross 11) \<and>
         (case BlockPath_release yardCross s of None \<Rightarrow> False | Some (ok, s') \<Rightarrow> ok \<and> \<not> taken s' (ClaimSide 3 SideA)))"
    by code_simp
  then obtain s s' where s: "BlockPath_reserve yard yardCross 1 (bd_rail yardStart) = Some (True, s)" "taken s (ClaimCross 11)"
    "BlockPath_release yardCross s = Some (True, s')" "\<not> taken s' (ClaimSide 3 SideA)"
    by (auto split: option.splits simp del: taken.simps)
  have "11 \<in> fst ` set (bp_crossings yardCross)" by (simp add: yardCross_def)
  from board_crossing_stays [OF s(2,3) this, of yard 1] show ?thesis using s by blast
qed

section \<open>Trains\<close>




text \<open>
  C39. Giving up the tail ends: when the statuses of the train's blocks are its own and all different, the loop of
  \<^verbatim>\<open>TrainTracking::enter\<close> keeps a first part of them, never empty, that is a single block or ends with a
  block that is not just reserved.
\<close>

theorem board_tails_released:
  assumes "distinct (tr_blocks (rl_trains s t))" and "\<forall>i \<in> set (tr_blocks (rl_trains s t)). statusOf t s i"
    and "tr_blocks (rl_trains s t) \<noteq> []"
  shows "\<exists>s' n. releaseTails t s = Some s' \<and> 0 < n \<and> tr_blocks (rl_trains s' t) = take n (tr_blocks (rl_trains s t)) \<and>
    (length (tr_blocks (rl_trains s' t)) = 1 \<or>
      bt_state (rl_blocks s' (ts_block (rl_statuses s' (last (tr_blocks (rl_trains s' t)))))) \<noteq> BsReserved)"
proof -
  obtain s' n where s': "releaseTails t s = Some s'" "0 < n" "tr_blocks (rl_trains s' t) = take n (tr_blocks (rl_trains s t))"
    "1 < length (tr_blocks (rl_trains s' t)) \<longrightarrow>
      bt_state (rl_blocks s' (ts_block (rl_statuses s' (last (tr_blocks (rl_trains s' t)))))) \<noteq> BsReserved"
    using releaseTails_ends [OF assms(1,2)] assms(3) by blast
  have "tr_blocks (rl_trains s' t) \<noteq> []" using s'(2,3) assms(3) by simp
  then have "1 < length (tr_blocks (rl_trains s' t)) \<or> length (tr_blocks (rl_trains s' t)) = 1"
    by (cases "tr_blocks (rl_trains s' t)") auto
  then show ?thesis using s' by blast
qed

theorem board_tails_released_witness:
  "\<exists>s'. releaseTails 1 (bd_rail yardStart) = Some s' \<and> tr_blocks (rl_trains s' 1) = [0]"
proof -
  let ?s = "bd_rail yardStart"
  have b: "tr_blocks (rl_trains ?s 1) = [0]" by code_simp
  have o: "statusOf 1 ?s 0" by code_simp
  have "distinct (tr_blocks (rl_trains ?s 1))" "\<forall>i \<in> set (tr_blocks (rl_trains ?s 1)). statusOf 1 ?s i" "tr_blocks (rl_trains ?s 1) \<noteq> []"
    unfolding b using o by simp_all
  from board_tails_released [OF this] obtain s' n where "releaseTails 1 ?s = Some s'" "0 < n" "tr_blocks (rl_trains s' 1) = take n [0]"
    unfolding b by blast
  then show ?thesis by (intro exI [of _ s']) (cases n, simp_all)
qed

text \<open>
  C40. A sensor that flickers loses the train, where the path it came by is still reserved: when a block that is a
  train's only one is reserved by a path into the side of the sensor (and so reads free), and that sensor gets
  occupied again, the train enters the block a second time and gives it up as its own tail.  The
  status is destroyed while the loop still reads the train through it, which is undefined behaviour; as far as the
  reads still give the train, it is in no block any more.
\<close>

theorem board_flicker_loses_train:
  assumes "expected b i side t j s" and "tr_blocks (rl_trains s t) = [j]" and "ts_block (rl_statuses s j) = b"
    and "distinct (bt_trains (rl_blocks s b))"
  shows "\<exists>s'. BlockInputMapItem_setValue ps b i SsOccupied s = Some s' \<and> rl_dangling s' \<and> tr_blocks (rl_trains s' t) = [] \<and>
    j \<notin> set (bt_trains (rl_blocks s' b)) \<and> ts_dying (rl_statuses s' j)"
  by (rule flicker_loses [OF assms])

theorem board_flicker_loses_train_witness:
  "tr_blocks (rl_trains (bd_rail (yardAt [SelectOp 7 9, SensorOp 3 0 SsOccupied, SensorOp 3 0 SsFree])) 1) = [2] \<and>
    \<not> rl_dangling (bd_rail (yardAt [SelectOp 7 9, SensorOp 3 0 SsOccupied, SensorOp 3 0 SsFree])) \<and>
    (\<exists>s'. BlockInputMapItem_setValue [] 3 0 SsOccupied
      (bd_rail (yardAt [SelectOp 7 9, SensorOp 3 0 SsOccupied, SensorOp 3 0 SsFree])) = Some s' \<and> rl_dangling s' \<and>
      tr_blocks (rl_trains s' 1) = [])"
proof -
  let ?s = "bd_rail (yardAt [SelectOp 7 9, SensorOp 3 0 SsOccupied, SensorOp 3 0 SsFree])"
  have e: "expected 3 0 SideA 1 2 ?s" by code_simp
  have b: "tr_blocks (rl_trains ?s 1) = [2]" by code_simp
  have c: "ts_block (rl_statuses ?s 2) = 3" by code_simp
  have d: "distinct (bt_trains (rl_blocks ?s 3))" by code_simp
  have g: "\<not> rl_dangling ?s" by code_simp
  show ?thesis using board_flicker_loses_train [OF e b c d, of "[]"] b g by blast
qed

section \<open>Signals\<close>

lemma made_hears: "SignalPath_new depth rm s n = Some sp \<Longrightarrow> hears (sp_root sp, sp_connections sp)"
  by (auto simp: SignalPath_new_def dest: findBlocks_hears)

text \<open>
  C37. Signals come to rest and are safe: whatever evaluations wait, if every signal whose aspect is not yet what it
  should be is among them, the evaluations that follow from each other end, every signal then shows what
  it should, and one that does not show stop has a block ahead that is free and needs no reservation, or
  that is reserved while the path the signal remembers (the last one reserved through it) leads there.  For which
  train, or by which path, the block is reserved, the signal does not ask.
\<close>

theorem board_signals_safe:
  assumes "\<forall>n sp. sg_path sg n = Some sp \<longrightarrow> (\<exists>depth s0. SignalPath_new depth rm s0 n = Some sp)"
    and "settling rm s sigs todo sg"
  shows "\<exists>sg'. signals_settle rm s sigs todo sg = Some sg' \<and> sg_path sg' = sg_path sg \<and> settled rm s sigs sg' \<and>
    (\<forall>n \<in> set sigs. sg_aspect sg' n \<in> {AspectProceed, AspectProceedReducedSpeed} \<longrightarrow> clearAhead s sg' n)"
proof -
  have "paths_hear sg" using assms(1) made_hears unfolding paths_hear_def by blast
  then obtain sg' where sg': "signals_settle rm s sigs todo sg = Some sg'" "sameSignals sg sg'" "settled rm s sigs sg'"
    using signals_settle_ends assms(2) by blast
  have "clearAhead s sg' n" if "n \<in> set sigs" "sg_aspect sg' n \<in> {AspectProceed, AspectProceedReducedSpeed}" for n
    using that sg'(3) by (intro target_clear [of rm]) (auto simp: settled_def showsStop_def)
  then show ?thesis using sg' unfolding sameSignals_def by blast
qed

text \<open>A line of three blocks (1, 3, 5) with signals of three aspects between them (2, 4).\<close>

definition line :: RailMap where
  "line = \<lparr>rm_tileId = (\<lambda>n. if n = 2 \<or> n = 4 then RailSignal3Aspect else RailBlock),
     rm_links = (\<lambda>n. if n = 1 then [None, Some 1] else if n = 5 then [Some 4, None] else [Some (n - 1), Some n]),
     rm_ends = (\<lambda>l. ((l, 1), (l + 1, 0))), rm_tiles = (\<lambda>l. []), rm_linked = (\<lambda>n. None)\<rparr>"

definition lineState :: RailState where
  "lineState = (bd_rail yardStart)\<lparr>rl_blocks := \<lambda>n. (yardBlock n)\<lparr>bt_state := BsFree\<rparr>\<rparr>"

definition lineSignals :: SignalState where
  "lineSignals = \<lparr>sg_aspect = (\<lambda>n. AspectUnknown), sg_require = (\<lambda>n. AynAuto),
     sg_path = (\<lambda>n. if n = 2 \<or> n = 4 then SignalPath_new 9 line lineState n else None), sg_events = []\<rparr>"

theorem board_signals_safe_witness:
  "\<exists>sg'. signals_settle line lineState [2, 4] [EvaluateTask 2, EvaluateTask 4] lineSignals = Some sg' \<and>
    sg_aspect sg' 2 = AspectProceed \<and> clearAhead lineState sg' 2"
proof -
  have made: "\<forall>n sp. sg_path lineSignals n = Some sp \<longrightarrow> (\<exists>depth s0. SignalPath_new depth line s0 n = Some sp)"
    by (auto simp: lineSignals_def split: if_splits)
  have "settling line lineState [2, 4] [EvaluateTask 2, EvaluateTask 4] lineSignals" by (simp add: settling_def)
  from board_signals_safe [OF made this] obtain sg' where
    sg': "signals_settle line lineState [2, 4] [EvaluateTask 2, EvaluateTask 4] lineSignals = Some sg'"
    "sg_aspect sg' 2 = AspectProceed \<Longrightarrow> clearAhead lineState sg' 2" by auto
  have "map_option (\<lambda>g. sg_aspect g 2) (signals_settle line lineState [2, 4] [EvaluateTask 2, EvaluateTask 4] lineSignals) = Some AspectProceed"
    by code_simp
  then show ?thesis using sg' by simp
qed

text \<open>On a closed track without a block, here a signal and a decoupler, \<^verbatim>\<open>findBlocks\<close> calls itself without end.\<close>

definition ring :: RailMap where
  "ring = \<lparr>rm_tileId = (\<lambda>n. if n = 0 then RailSignal2Aspect else RailDecoupler),
     rm_links = (\<lambda>n. if n = 0 then [Some 1, Some 0] else [Some 0, Some 1]),
     rm_ends = (\<lambda>l. if l = 0 then ((0, 1), (1, 0)) else ((1, 1), (0, 0))), rm_tiles = (\<lambda>l. []), rm_linked = (\<lambda>n. None)\<rparr>"

lemma ring_endless: "findBlocks depth ring 0 0 (Some 0) k = None \<and> findBlocks depth ring 0 1 (Some 1) k = None"
proof (induction depth)
  case (Suc depth)
  have "link_getNext ring 0 0 = 1" "link_getNext ring 1 1 = 0" "otherLink ring 1 0 = Some 1" "otherLink ring 0 1 = Some 0"
    by (simp_all add: ring_def link_getNext_def otherLink_def)
  then show ?case using Suc
    by (simp add: Let_def ring_def isRailSignal_def isRailTurnout_def isRailBridge_def isRailCross_def listening_def)
qed simp

end
