(* ===== verification/Spec2Isabelle.thy ===== *)
theory Spec2Isabelle
  imports LocoNet_Properties LocoNet_Codec_Properties LocoNet_IO_Properties XpressNet_Properties
    Decoder_Properties Z21_Properties Net_Properties Board_Properties
begin

text \<open>
  Traintastic's server drives model railways.  A world's interfaces talk to command stations, each
  through the kernel of its protocol: a thread that owns the protocol's state, queues messages for
  an IO handler, decodes what comes back and posts the effects to the event loop, where decoders,
  inputs, outputs and identifications live.  This development models three of these protocols with
  their kernels and IO handlers, LocoNet, XpressNet and Z21 (\<^verbatim>\<open>src/server/src/hardware/protocol/\<close>),
  the decoders and throttles they drive (\<^verbatim>\<open>src/server/src/hardware/\<close>), the board on which paths are
  reserved and trains are followed (\<^verbatim>\<open>src/server/src/board/\<close>, \<^verbatim>\<open>src/server/src/train/\<close>), and the connection
  by which clients see the objects of the world (\<^verbatim>\<open>src/server/src/network/\<close>, \<^verbatim>\<open>src/client/src/network/\<close>).

  \<^bold>\<open>LocoNet message formats.\<close>  A message is the list of its bytes (\<open>bytes\<close>); the structs are packed, so
  an accessor reads the byte at the field's offset and a setter updates it.

  \<^item> \<open>Prelude\<close>: types of machine words, setting and testing flags, the exclusive or of bytes.  \<open>Counting\<close>:
    counts of entries in an association list.
  \<^item> \<open>Enums\<close>: \<^verbatim>\<open>tristate.hpp\<close> and its operators, \<^verbatim>\<open>direction.hpp\<close>, \<^verbatim>\<open>outputpairvalue.hpp\<close>,
    \<^verbatim>\<open>decoderchangeflags.hpp\<close>, \<^verbatim>\<open>byte.hpp\<close>.
  \<^item> \<open>LocoNet_Wire\<close>: \<^verbatim>\<open>opcode.hpp\<close>, \<^verbatim>\<open>message/message.hpp\<close> (the size an opcode announces),
    \<^verbatim>\<open>checksum.cpp\<close>, \<^verbatim>\<open>isValid\<close> of \<^verbatim>\<open>messages.cpp\<close>, \<^verbatim>\<open>signature.hpp\<close>.
  \<^item> \<open>LocoNet_Messages\<close>, \<open>LocoNet_Codec\<close>: the structs of \<^verbatim>\<open>messages.hpp\<close> and what their accessors
    read back.
  \<^item> \<open>LocoNet_Imm\<close>, \<open>LocoNet_Imm_Codec\<close>: \<^verbatim>\<open>message/immpacket.hpp\<close> and the six packets of
    \<^verbatim>\<open>locof9f12imm.hpp\<close>, \<^verbatim>\<open>locof13f20imm.hpp\<close>, \<^verbatim>\<open>locof21f28imm.hpp\<close>, with the equality of the
    hand-laid packets with the generic encoder.
  \<^item> \<open>LocoNet_Uhlenbrock\<close>, \<open>LocoNet_Uhlenbrock_Codec\<close>: \<^verbatim>\<open>message/uhlenbrock/\<close>, data messages with
    magic bytes, LNCV programming, special options, LISSY.
  \<^item> \<open>LocoNet_Slots\<close>: \<^verbatim>\<open>message/fastclock.hpp\<close>, \<^verbatim>\<open>message/multisenselong.hpp\<close>.
  \<^item> \<open>LocoNet_Response\<close>: \<^verbatim>\<open>isLocoSlot\<close>, \<^verbatim>\<open>setSlot\<close>, \<^verbatim>\<open>hasResponse\<close>, \<^verbatim>\<open>isValidResponse\<close> of
    \<^verbatim>\<open>messages.cpp\<close>.  Where the code asserts, the result is \<open>None\<close>; the kernel's model goes on
    as a release build does, with \<^verbatim>\<open>false\<close>.

  \<^bold>\<open>The LocoNet kernel\<close>, \<^verbatim>\<open>loconet/kernel.hpp\<close> and \<^verbatim>\<open>kernel.cpp\<close>.

  \<^item> \<open>LocoNet_SendQueue\<close>: the buffer of 4000 bytes with front pointer and byte count, both 64-bit
    words.  The locale \<open>message_queue\<close> states what a queue of messages promises and proves that
    such a queue refines a list of messages; it is interpreted on the code's queue.
  \<^item> \<open>LocoNet_Kernel\<close>: the configuration, the state (one field per member), sending, the slot
    table, sending to an address, functions, fast clock, packet capture.
  \<^item> \<open>LocoNet_Receive\<close>: \<^verbatim>\<open>receive\<close>: capture and log, echo, response, and one definition for each
    opcode of its switch.  The loop over the pending bytes of an address has as fuel the number of
    those bytes; each message takes at least one, so the fuel suffices (\<open>sendPending_fold\<close>).
  \<^item> \<open>LocoNet_Operations\<close>: the public operations, each as what it does on the event loop and the
    closures it posts (\<open>task\<close>), what the kernel's thread does with a closure (\<open>runTask\<close>), the three
    timers, the constructor and the setters.

  A call posted to the event loop is an element of \<open>events\<close>, a message given to the IO handler an
  element of \<open>wire\<close> with the handler's answer; the handler is a parameter (\<open>ioSend\<close>), any function
  of what was sent before and the message.  A timer is the boolean that it runs.  A callback or
  controller is the boolean that it is set.  The maps that the code searches by value are
  association lists, whose order stands for the order of the unordered map.

  \<^bold>\<open>LocoNet proofs.\<close>  \<open>LocoNet_Invariant\<close> has the invariant \<open>kernelInv\<close> (each queue holds a list of valid
  messages and the message in flight is the first of its queue; the slot table and the map of
  addresses agree; pending messages are whole; the configuration is within bounds) and that every
  handler keeps it, and the locale \<open>handler_invariant\<close>, interpreted for \<open>awaits\<close> (something is in
  flight) and \<open>silent\<close> (listening only).  \<open>LocoNet_Reachable\<close> has the steps of the kernel's thread
  (\<open>kernel_step\<close>), in any order, and that the invariant holds in every reachable state.  A step
  that receives assumes a valid message, slot data of 14 bytes (the handler does not check) and that
  no response overtakes its echo; the step of a closure assumes fit closures, which the operations
  are proved to post, and that listen-only mode is not switched on with a message in flight.
  \<open>LocoNet_Faults\<close> has what happens otherwise.  \<open>LocoNet_Behaviour\<close> has the effect of the send cycle
  and of the handlers, \<open>LocoNet_Loopback\<close> that what the kernel sends it also understands.

  \<^bold>\<open>Byte streams.\<close>  \<open>Framing\<close> has two locales: \<open>message_framing\<close>, a reader that takes the whole
  messages off a buffer (its lemma: however the stream is cut, the messages come out in order), and
  \<open>byte_writer\<close>, a bounded send buffer (what was written and what waits are the accepted messages).
  They are interpreted on every stream below that keeps their laws.

  \<^item> \<open>LocoNet_Stream\<close>: \<^verbatim>\<open>iohandler/serialiohandler.cpp\<close>, \<^verbatim>\<open>tcpbinaryiohandler.cpp\<close>.
  \<^item> \<open>LocoNet_LBServer\<close>: \<^verbatim>\<open>lbserveriohandler.cpp\<close>, lines of text with hexadecimal bytes.
  \<^item> \<open>LocoNet_Simulation\<close>: \<^verbatim>\<open>simulationiohandler.cpp\<close>, a command station with 119 slots and LNCV modules.
  \<^item> \<open>XpressNet_Stream\<close>: \<^verbatim>\<open>xpressnet/iohandler/\<close>, serial and TCP, with and without the extra header.
    This reader does not keep the laws of \<open>message_framing\<close>, it drops a message cut by a read.
  \<^item> \<open>Z21_Udp\<close>: \<^verbatim>\<open>z21/iohandler/udp*.cpp\<close> and \<^verbatim>\<open>loconet/iohandler/z21iohandler.cpp\<close>.  The loop of
    the latter may not end; it is a \<open>partial_function\<close>, whose value is then \<open>None\<close>.

  \<^bold>\<open>XpressNet.\<close>  \<open>XpressNet_Messages\<close>, \<open>XpressNet_Codec\<close>: \<^verbatim>\<open>xpressnet/messages.hpp\<close>.  \<open>XpressNet_Kernel\<close>:
  \<^verbatim>\<open>kernel.cpp\<close> with the simulated command station, \<open>XpressNet_Behaviour\<close> the effect of its operations,
  \<open>XpressNet_Reachable\<close> its steps, the invariant of its wire, and that the loop of kernel and station
  comes to rest, by a measure of what waits.

  \<^bold>\<open>Decoders.\<close>  \<open>Binary32\<close>: rounding of rationals to single precision, by the binary exponent; a
  \<^verbatim>\<open>float\<close> is the rational it stands for.  \<open>Decoder\<close>: \<^verbatim>\<open>decoder/\<close>, the properties and functions of a
  decoder and the decoders of an interface.  \<open>Throttles\<close>: \<^verbatim>\<open>throttle/\<close>, with the steps of any number of
  throttles (\<open>throttle_step\<close>).  In every run a throttle that a decoder names has that decoder.  That a
  throttle's decoder also names the throttle is an invariant of the runs that are \<open>careful\<close>: there no throttle
  acquires a decoder while it still holds another, which the code does not prevent.

  \<^bold>\<open>Z21.\<close>  \<open>Z21_Messages\<close>: \<^verbatim>\<open>z21/messages.hpp\<close> and \<^verbatim>\<open>utils.hpp\<close>; a member that a constructor leaves
  uninitialised is a parameter.  \<open>Z21_Codec\<close>: every message the program builds has the length it
  announces and, on the X-Bus, a right checksum; \<open>Z21_Roundtrip\<close>: speed, direction, functions.
  \<open>Z21_ClientKernel\<close>: \<^verbatim>\<open>clientkernel.cpp\<close>.  Its two threads are two queues of closures in the state;
  \<open>Z21_Reachable\<close> runs them in any order (\<open>z21_step\<close>).  The clock and the value of an undefined
  conversion are arguments.  Its arrays have 1000 and 4096 entries and are indexed without a check; \<open>z_overrun\<close> records
  that an entry beyond them was touched, after which nothing is claimed.  \<open>Z21_LocoInfo\<close>: what a report of
  a locomotive makes of the decoder.  \<open>Z21_ServerKernel\<close>: \<^verbatim>\<open>serverkernel.cpp\<close>, with \<open>Z21_Subscriptions\<close>
  for what the closures that wait will make of the counts.  Its steps (\<open>server_step\<close>) subscribe clients to any
  address, or with the parameter \<open>known\<close> only to addresses that have a decoder; the counts are exact in the
  latter runs and never too high in all.  Clients that log off are not among the steps.  \<open>Z21_Simulation\<close>: the simulated station and the loop
  of client and station.  \<open>Z21_Feedback\<close>: the inputs.  \<open>Z21_Behaviour\<close>: client and server composed.

  \<^bold>\<open>Server and client.\<close>  \<open>Net_Message\<close>: the message buffer, \<^verbatim>\<open>src/shared/src/traintastic/network/message.hpp\<close>;
  reading behind the end, which the code does not check, is \<open>None\<close>.  \<open>Net_Codec\<close>: the locale \<open>net_codec\<close>, a
  writer and a reader that reads back a view of what was written, interpreted for every part of the wire
  format.  \<open>Net_Objects\<close>, \<open>Net_Objects_Codec\<close>: \<^verbatim>\<open>Session::writeObject\<close> and \<^verbatim>\<open>Connection::readObject\<close> with their
  parts.  \<open>Net_Handles\<close>: \<^verbatim>\<open>handlelist.hpp\<close>.  \<open>Net_Release\<close>, \<open>Net_Release_Inv\<close>: how both sides count a
  handle until it is given up, as a link of two channels, and its invariant; the counters have 32 bits, so it
  is stated for fewer than that many actions.  A message that the client throws away unread, since its request was
  cancelled or its object is unknown, is no step of these runs; \<open>nl_discard\<close> is what it does, after which a later
  message may name an object the client lacks (\<open>net_discard_unreadable\<close>).  \<open>Net_Session\<close>, \<open>Net_Answers\<close>: the connection, its login, and the
  requests for objects and properties, with the answers each gets; the objects are parameters.

  \<^bold>\<open>The board.\<close>  Tiles, links, trains and statuses of trains in blocks are numbers.

  \<^item> \<open>Board_Map\<close>: the map of nodes and links, turnouts, and the search for the paths of a block,
    \<^verbatim>\<open>board/map/\<close>.  The loop of the search is a \<open>partial_function\<close> over its queue.
  \<^item> \<open>Board_Route\<close>, \<open>Board_Search\<close>: routes along the rails, said with connectors and without a queue
    (\<open>travel\<close>, \<open>route\<close>); on a map that is \<open>rm_wf\<close> the search ends, since no position leaves the same connector
    twice, and finds the routes.  \<open>rm_wf\<close> excludes a link from a tile to itself, which the program makes
    of an oval with one block; what happens there is \<open>oval_paths\<close> and \<open>oval_reserve\<close>.  \<open>Board_Simple\<close>, \<open>Board_Found\<close>: no route passes a link in both
    directions, so its tiles and claims are fit to be reserved.
  \<^item> \<open>Board_Rail\<close>: the state of the tiles and of the trains in blocks, reserving and releasing each kind of
    tile, \<^verbatim>\<open>BlockPath::reserve\<close>, \<^verbatim>\<open>release\<close>, \<^verbatim>\<open>isReady\<close>, \<^verbatim>\<open>traintracking.cpp\<close>, \<^verbatim>\<open>trainblockstatus.cpp\<close>.
    \<open>rl_dangling\<close> records that a status was used after it had been destroyed, which the code does when a
    train enters a block that is still reserved: the loop that releases reserved tails then loses the status that enters.
  \<^item> \<open>Board_Traffic\<close>: sensors and identifications of blocks, assigning, removing and turning trains, direction
    controls, NX buttons, the update of paths (\<^verbatim>\<open>blockrailtile.cpp\<close>, \<^verbatim>\<open>directioncontrolrailtile.cpp\<close>,
    \<^verbatim>\<open>nxbuttonrailtile.cpp\<close>, \<^verbatim>\<open>nxmanager.cpp\<close>), and runs of the board in which they come in any order.
  \<^item> \<open>Board_Signal\<close>: the path a signal looks along and what it shows, \<^verbatim>\<open>abstractsignalpath.cpp\<close> and
    \<^verbatim>\<open>tile/rail/signal/\<close>.  The search has a depth as its fuel, \<open>None\<close> is a deeper one: on a closed track
    without a block the code does not return.  A signal that changes has the signals that see it
    evaluated, \<open>signals_settle\<close>; \<open>Board_Settle\<close>: this ends, since whether a signal shows stop does not
    depend on other signals.
  \<^item> \<open>Board_Reserve\<close>, \<open>Board_Granted\<close>: a dry run that succeeds is followed by a run that does, and what the
    grant of a path changes.  \<open>Board_Runs\<close>: nothing else touches reservations; the locale \<open>granting\<close> says of
    every system that holds what it grants and lets go of nothing that its grants exclude each other, and is
    interpreted on the board.  \<open>Board_Trains\<close>: a train that comes into a reserved block.  \<open>Board_Yard\<close>: a
    small map to run the board on.

  The theories whose name ends in \<open>_Properties\<close> state the properties; those of the manifest have their
  number before them.

  \<^bold>\<open>Not modelled.\<close>  The text of log messages, threads and the destruction of objects; the settings
  (their bounds are hypotheses on \<open>Config\<close>); opening of ports and sockets; what a LocoNet decoder does
  with a speed it is told (\<^verbatim>\<open>updateDecoderSpeed\<close>); loading and saving, and the attributes of objects but for
  those a client reads.  Of the board: placing and connecting tiles (the map is given), the outputs of
  turnouts and signals and their feedback, the sensors that are simulated for an assigned train.
  Of trains: speed, vehicles and functions.  Of the network: tables, methods, input monitors and output
  keyboards, and the client's requests.  Not at all: the other protocols (ECoS, Maerklin CAN, DCC-EX,
  Traintastic DIY, WiThrottle), whose messages are texts or objects of their own; files and archives,
  which rest on libraries; the object system's templates; Lua; the client's user interface.
\<close>

end
